(* ===== verification/Prelude.thy ===== *)
theory Prelude
  imports Main "HOL-Library.Word"
begin

text \<open>
  Shared vocabulary of the development: bytes, memory blocks and file contents.

  A byte is a \<^typ>\<open>char\<close>, a block of memory or of file data a list of bytes.
  \<open>mem_write\<close> is the effect of copying a block into memory at an offset (\<open>ffmem_copy\<close>,
  which never changes the size of the block written to), \<open>overlay\<close> the effect of writing a
  block into a file (\<open>pwrite\<close>: the file grows, and a gap between its end and the offset reads
  as zero bytes). The laws relating the two are what the write cache of \<open>src/core/fbuf.h\<close>
  rests on.
\<close>

unbundle bit_operations_syntax

type_synonym bytes = "char list"

named_theorems flag_simps \<open>evaluation of the bit flags of fcom.h\<close>
named_theorems step_simps \<open>unfolding of step functions and of the outcome selectors\<close>

section \<open>Bit flags\<close>

text \<open>\<open>has f m\<close> is the C condition \<open>f & m\<close>.\<close>

definition has :: "32 word \<Rightarrow> 32 word \<Rightarrow> bool" where
  "has f m \<longleftrightarrow> f AND m \<noteq> 0"

lemma has_zero [simp]: "\<not> has 0 m" "\<not> has f 0"
  by (simp_all add: has_def)

lemma has_or: "has f (m OR n) \<longleftrightarrow> has f m \<or> has f n"
proof -
  have "f AND (m OR n) = 0 \<longleftrightarrow> f AND m = 0 \<and> f AND n = 0"
    by (simp add: bit.conj_disj_distrib) (metis bit.disj_zero_right or.commute or_eq_0_iff)
  then show ?thesis by (auto simp: has_def)
qed

section \<open>Memory blocks\<close>

definition mem_write :: "'a list \<Rightarrow> nat \<Rightarrow> 'a list \<Rightarrow> 'a list" where
  "mem_write m i d = take i m @ d @ drop (i + length d) m"

lemma length_mem_write [simp]:
  "i + length d \<le> length m \<Longrightarrow> length (mem_write m i d) = length m"
  by (simp add: mem_write_def)

lemma mem_write_Nil [simp]: "mem_write m i [] = m"
  by (simp add: mem_write_def)

lemma nth_mem_write:
  "i + length d \<le> length m \<Longrightarrow> k < length m \<Longrightarrow>
   mem_write m i d ! k = (if i \<le> k \<and> k < i + length d then d ! (k - i) else m ! k)"
  by (auto simp: mem_write_def nth_append min_def)

lemma take_mem_write:
  "i \<le> n \<Longrightarrow> n \<le> i + length d \<Longrightarrow> i \<le> length m \<Longrightarrow> take n (mem_write m i d) = take i m @ take (n - i) d"
  by (simp add: mem_write_def)

section \<open>File contents\<close>

definition overlay :: "bytes \<Rightarrow> nat \<Rightarrow> bytes \<Rightarrow> bytes" where
  "overlay c i d =
     (if d = [] then c
      else take i c @ replicate (i - length c) (CHR 0x00) @ d @ drop (i + length d) c)"

lemma overlay_Nil [simp]: "overlay c i [] = c"
  by (simp add: overlay_def)

lemma length_overlay:
  "length (overlay c i d) = (if d = [] then length c else max (length c) (i + length d))"
  by (auto simp: overlay_def)

lemma nth_overlay:
  "k < length (overlay c i d) \<Longrightarrow>
   overlay c i d ! k =
     (if i \<le> k \<and> k < i + length d then d ! (k - i)
      else if k < length c then c ! k else CHR 0x00)"
  by (auto simp: overlay_def nth_append min_def split: if_splits)

lemma overlay_append: "i = length c \<Longrightarrow> overlay c i d = c @ d"
  by (simp add: overlay_def)

text \<open>A second write that starts inside or right after the first merges with it.\<close>

lemma nth_merge:
  assumes "p \<le> length d" and "t < max (length d) (p + length e)"
  shows "(take p d @ e @ drop (p + length e) d) ! t =
    (if p \<le> t \<and> t < p + length e then e ! (t - p) else d ! t)"
  using assms by (auto simp: nth_append)

lemma overlay_merge:
  assumes "p \<le> length d" and "d \<noteq> []"
  shows "overlay (overlay c i d) (i + p) e = overlay c i (take p d @ e @ drop (p + length e) d)"
    (is "?l = overlay c i ?m")
proof (cases "e = []")
  case False
  have m: "length ?m = max (length d) (p + length e)"
    using assms by auto
  have len: "length ?l = length (overlay c i ?m)"
    using assms False by (auto simp: length_overlay m)
  show ?thesis
  proof (rule nth_equalityI [OF len])
    fix k assume k: "k < length ?l"
    show "?l ! k = overlay c i ?m ! k"
    proof (cases "i \<le> k \<and> k < i + length ?m")
      case True
      then have "overlay c i ?m ! k = ?m ! (k - i)"
        using k len by (simp add: nth_overlay)
      also have "\<dots> = (if p \<le> k - i \<and> k - i < p + length e then e ! (k - i - p) else d ! (k - i))"
        using True by (intro nth_merge [OF assms(1)]) (auto simp: m)
      also have "\<dots> = ?l ! k"
        using True k assms False by (auto simp: nth_overlay length_overlay m)
      finally show ?thesis ..
    next
      case False2: False
      then show ?thesis
        using k len assms False by (auto simp: nth_overlay length_overlay m)
    qed
  qed
qed simp

lemma overlay_overlay:
  assumes "i \<le> j" and "j \<le> i + length d" and "d \<noteq> []"
  shows "overlay (overlay c i d) j e = overlay c i (take (j - i) d @ e @ drop (j - i + length e) d)"
  using overlay_merge [of "j - i" d c i e] assms by simp

lemma overlay_split: "overlay c i (d @ e) = overlay (overlay c i d) (i + length d) e"
proof (cases "d = []")
  case False
  then show ?thesis by (simp add: overlay_overlay)
qed simp

text \<open>Two writes to places that do not overlap can be swapped.\<close>

lemma overlay_commute:
  assumes "i + length d \<le> j \<or> j + length e \<le> i" and "d \<noteq> []" and "e \<noteq> []"
  shows "overlay (overlay c i d) j e = overlay (overlay c j e) i d"
proof (rule nth_equalityI)
  show "length (overlay (overlay c i d) j e) = length (overlay (overlay c j e) i d)"
    using assms by (auto simp: length_overlay)
next
  fix k assume "k < length (overlay (overlay c i d) j e)"
  with assms show "overlay (overlay c i d) j e ! k = overlay (overlay c j e) i d ! k"
    by (auto simp: nth_overlay length_overlay split: if_splits)
qed

text \<open>What lies before the end of a write can be cut off first.\<close>

lemma take_overlay:
  assumes "i + length d \<le> n" and "n \<le> length (overlay c i d)"
  shows "take n (overlay c i d) = overlay (take n c) i d"
proof (cases "d = []")
  case False
  show ?thesis
  proof (rule nth_equalityI)
    show "length (take n (overlay c i d)) = length (overlay (take n c) i d)"
      using assms False by (auto simp: length_overlay)
  next
    fix k assume "k < length (take n (overlay c i d))"
    with assms False show "take n (overlay c i d) ! k = overlay (take n c) i d ! k"
      by (auto simp: nth_overlay length_overlay)
  qed
qed simp

end
