(* ===== verification/Fbuf.thy ===== *)
theory Fbuf
  imports Prelude
begin

text \<open>
  The file buffers of \<open>src/core/fbuf.h\<close>: one buffer with its file offset (\<open>struct fbuf\<close>), the
  ring of read buffers (\<open>struct fbufset\<close>) and the write-back buffer \<open>fbuf_write\<close>.

  A buffer's memory block \<open>fb_ptr\<close> keeps its stale bytes, as the C block does; \<open>fb_len\<close> says
  how many are valid. Offsets and lengths are natural numbers (file offsets below
  \<open>2 ^ 63\<close>, where \<open>uint64\<close> arithmetic does not wrap); the \<open>-1\<close> of \<open>fbuf_write\<close>'s result
  is \<^const>\<open>None\<close>. The data segment returned through \<open>out\<close> is taken by value: the block it
  points into is not written until the segment has been passed to the kernel.
\<close>

section \<open>Data\<close>

record fbuf =
  fb_len :: nat
  fb_ptr :: bytes
  fb_off :: nat

record fbufset =
  bufs :: "fbuf list"
  bidx :: nat
  hits :: nat
  misses :: nat

text \<open>\<open>(ffuint64)-1\<close>, the offset of a buffer that has never been filled.\<close>

definition fbuf_no_off :: nat where
  "fbuf_no_off = 2 ^ 64 - 1"

section \<open>The ring of read buffers\<close>

text \<open>
  \<open>fbufset_init\<close>: \<open>alloc i\<close> is what the \<open>i\<close>-th aligned allocation returns (\<open>None\<close> is
  \<open>NULL\<close>, kept as the empty block). The walk stops at the first failure, so the buffers after
  it stay zeroed.
\<close>

fun fbufs_alloc :: "(nat \<Rightarrow> bytes option) \<Rightarrow> nat \<Rightarrow> nat \<Rightarrow> fbuf list \<times> bool" where
  "fbufs_alloc alloc i 0 = ([], True)"
| "fbufs_alloc alloc i (Suc n) =
     (case alloc i of
        None \<Rightarrow> (replicate (Suc n) \<lparr>fb_len = 0, fb_ptr = [], fb_off = 0\<rparr>, False)
      | Some m \<Rightarrow>
          (let (bs, ok) = fbufs_alloc alloc (Suc i) n
           in (\<lparr>fb_len = 0, fb_ptr = m, fb_off = fbuf_no_off\<rparr> # bs, ok)))"

definition fbufset_init :: "(nat \<Rightarrow> bytes option) \<Rightarrow> fbufset \<Rightarrow> nat \<Rightarrow> fbufset \<times> int" where
  "fbufset_init alloc c nbufs =
     (let (bs, ok) = fbufs_alloc alloc 0 nbufs
      in (c\<lparr>bufs := bs\<rparr>, if ok then 0 else 1))"

definition fbufset_destroy :: "fbufset \<Rightarrow> fbufset" where
  "fbufset_destroy c = c\<lparr>bufs := []\<rparr>"

definition fbufset_reset :: "fbufset \<Rightarrow> fbufset" where
  "fbufset_reset c = c\<lparr>bufs := map (\<lambda>b. b\<lparr>fb_off := 0, fb_len := 0\<rparr>) (bufs c)\<rparr>"

text \<open>\<open>fbufset_nextbuf\<close> returns a pointer into the ring: the model returns the slot's index.\<close>

definition fbufset_nextbuf :: "fbufset \<Rightarrow> nat \<times> fbufset" where
  "fbufset_nextbuf c = (bidx c, c\<lparr>bidx := (bidx c + 1) mod length (bufs c)\<rparr>)"

definition fbuf_covers :: "fbuf \<Rightarrow> nat \<Rightarrow> bool" where
  "fbuf_covers b off \<longleftrightarrow> fb_off b \<le> off \<and> off < fb_off b + fb_len b"

fun find_index :: "('a \<Rightarrow> bool) \<Rightarrow> 'a list \<Rightarrow> nat option" where
  "find_index p [] = None"
| "find_index p (x # xs) = (if p x then Some 0 else map_option Suc (find_index p xs))"

definition fbufset_find :: "fbufset \<Rightarrow> nat \<Rightarrow> nat option \<times> fbufset" where
  "fbufset_find c off =
     (case find_index (\<lambda>b. fbuf_covers b off) (bufs c) of
        Some i \<Rightarrow> (Some i, c\<lparr>hits := hits c + 1\<rparr>)
      | None \<Rightarrow> (None, c\<lparr>misses := misses c + 1\<rparr>))"

section \<open>The write-back buffer\<close>

definition fbuf_data :: "fbuf \<Rightarrow> bytes" where
  "fbuf_data b = take (fb_len b) (fb_ptr b)"

text \<open>Result: the buffer, the input left unconsumed, and the segment to write with its offset.\<close>

definition fbuf_write :: "fbuf \<Rightarrow> nat \<Rightarrow> bytes \<Rightarrow> nat \<Rightarrow> fbuf \<times> bytes \<times> (nat \<times> bytes) option" where
  "fbuf_write b cap inp off =
     (if inp = [] then (b, inp, None)
      else if fb_len b \<noteq> 0 then
        (if fb_off b \<le> off \<and> off < fb_off b + cap then
           (let o1 = off - fb_off b;
                n = min (length inp) (cap - o1);
                b1 = b\<lparr>fb_ptr := mem_write (fb_ptr b) o1 (take n inp)\<rparr>;
                inp1 = drop n inp
            in if fb_len b1 < o1 + n then
                 (let b2 = b1\<lparr>fb_len := o1 + n\<rparr>
                  in if fb_len b2 \<noteq> cap then (b2, inp1, None)
                     else (b2, inp1, Some (fb_off b2, fbuf_data b2)))
               else (b1, inp1, Some (fb_off b1, fbuf_data b1)))
         else (b, inp, Some (fb_off b, fbuf_data b)))
      else if cap \<le> length inp then (b, [], Some (off, inp))
      else (b\<lparr>fb_ptr := mem_write (fb_ptr b) 0 inp, fb_len := length inp, fb_off := off\<rparr>, [], None))"

section \<open>Well-formedness\<close>

definition fbuf_wf :: "nat \<Rightarrow> fbuf \<Rightarrow> bool" where
  "fbuf_wf cap b \<longleftrightarrow> length (fb_ptr b) = cap \<and> fb_len b \<le> cap \<and> 0 < cap"

lemma length_fbuf_data: "fbuf_wf cap b \<Longrightarrow> length (fbuf_data b) = fb_len b"
  by (simp add: fbuf_wf_def fbuf_data_def)

lemma fbuf_write_wf:
  assumes "fbuf_wf cap b" and "fbuf_write b cap inp off = (b', rest, out)"
  shows "fbuf_wf cap b'"
  using assms
  by (auto simp: fbuf_write_def fbuf_wf_def Let_def min_def split: if_splits)

text \<open>A buffer that asks for nothing to be written has consumed all of its input.\<close>

lemma fbuf_write_None_rest:
  "fbuf_wf cap b \<Longrightarrow> fbuf_write b cap inp off = (b', rest, None) \<Longrightarrow> rest = []"
  by (auto simp: fbuf_write_def fbuf_wf_def Let_def min_def split: if_splits)

lemma fbuf_write_suffix:
  "fbuf_write b cap inp off = (b', rest, out) \<Longrightarrow> rest = drop (length inp - length rest) inp"
  by (auto simp: fbuf_write_def Let_def min_def split: if_splits)

section \<open>What the buffer means\<close>

text \<open>
  The file as the user sees it: the kernel's contents with the valid bytes of the buffer laid
  over them.
\<close>

definition fbuf_view :: "fbuf \<Rightarrow> bytes \<Rightarrow> bytes" where
  "fbuf_view b c = overlay c (fb_off b) (fbuf_data b)"

definition fbuf_clear :: "fbuf \<Rightarrow> fbuf" where
  "fbuf_clear b = b\<lparr>fb_len := 0, fb_off := 0\<rparr>"

text \<open>
  A write leaves a gap when it starts inside the buffer's window but after its valid bytes;
  \<open>fbuf_write\<close> then makes the stale bytes between the two valid.
\<close>

definition fbuf_gap :: "fbuf \<Rightarrow> nat \<Rightarrow> nat \<Rightarrow> bool" where
  "fbuf_gap b cap off \<longleftrightarrow> fb_len b \<noteq> 0 \<and> fb_off b + fb_len b < off \<and> off < fb_off b + cap"

lemma fbuf_view_empty [simp]: "fb_len b = 0 \<Longrightarrow> fbuf_view b c = c"
  by (simp add: fbuf_view_def fbuf_data_def)

lemma fbuf_view_clear [simp]: "fbuf_view (fbuf_clear b) c = c"
  by (simp add: fbuf_clear_def)

text \<open>Copying a segment into the buffer merges it with the valid bytes.\<close>

lemma fbuf_data_merge:
  assumes "fbuf_wf cap b" and "p \<le> fb_len b" and "p + length e \<le> cap"
  shows "take (max (fb_len b) (p + length e)) (mem_write (fb_ptr b) p e) =
    take p (fbuf_data b) @ e @ drop (p + length e) (fbuf_data b)"
proof (cases "e = []")
  case True
  with assms show ?thesis
    by (simp add: max_absorb1 fbuf_data_def [symmetric])
next
  case False
  then have "0 < length e" by simp
  with assms(1,3) have "p < length (fb_ptr b)"
    unfolding fbuf_wf_def by linarith
  with assms show ?thesis
    by (auto simp: fbuf_wf_def fbuf_data_def mem_write_def max_def min_def drop_take)
qed

lemma fbuf_view_merge:
  assumes "fbuf_wf cap b" and "fb_len b \<noteq> 0" and "fb_off b \<le> off"
    and "off - fb_off b \<le> fb_len b" and "off - fb_off b + length e \<le> cap"
    and "fb_len b' = max (fb_len b) (off - fb_off b + length e)"
    and "fb_ptr b' = mem_write (fb_ptr b) (off - fb_off b) e" and "fb_off b' = fb_off b"
  shows "fbuf_view b' c = overlay (fbuf_view b c) off e"
proof -
  have ne: "fbuf_data b \<noteq> []" and l: "length (fbuf_data b) = fb_len b"
    using assms(1,2) by (auto simp: fbuf_wf_def fbuf_data_def)
  have "fbuf_data b' = take (off - fb_off b) (fbuf_data b) @ e @ drop (off - fb_off b + length e) (fbuf_data b)"
    using fbuf_data_merge [OF assms(1,4,5)] assms(6,7) by (simp add: fbuf_data_def)
  with overlay_merge [of "off - fb_off b" "fbuf_data b" c "fb_off b" e] ne l assms(3,4,8)
  show ?thesis by (simp add: fbuf_view_def)
qed

text \<open>
  Each \<open>fbuf_write\<close> either keeps all the input in the buffer, or hands back a segment and
  consumes a prefix of the input; in both cases the visible file is the old one with the
  consumed bytes written at their offset.
\<close>

lemma fbuf_write_correct:
  assumes wf: "fbuf_wf cap b" and nogap: "\<not> fbuf_gap b cap off"
    and w: "fbuf_write b cap inp off = (b', rest, out)"
  shows "case out of
      None \<Rightarrow> rest = [] \<and> fbuf_view b' c = overlay (fbuf_view b c) off inp
    | Some (woff, d) \<Rightarrow>
        (\<exists>used. inp = used @ rest \<and> overlay c woff d = overlay (fbuf_view b c) off used)"
proof (cases "inp \<noteq> [] \<and> fb_len b \<noteq> 0 \<and> fb_off b \<le> off \<and> off < fb_off b + cap")
  case False
  with w show ?thesis
    by (cases "fb_len b = 0")
      (auto simp: fbuf_write_def fbuf_view_def fbuf_data_def mem_write_def split: if_splits)
next
  case True
  define p where "p = off - fb_off b"
  define e where "e = take (min (length inp) (cap - p)) inp"
  have le: "length e = min (length inp) (cap - p)" and p: "p \<le> fb_len b" "p + length e \<le> cap"
    using True nogap wf by (auto simp: e_def p_def fbuf_gap_def fbuf_wf_def)
  have inp: "inp = e @ drop (min (length inp) (cap - p)) inp"
    by (simp add: e_def)
  define b'' where
    "b'' = b\<lparr>fb_ptr := mem_write (fb_ptr b) p e, fb_len := max (fb_len b) (p + length e)\<rparr>"
  have view: "fbuf_view b'' c = overlay (fbuf_view b c) off e"
    by (rule fbuf_view_merge [OF wf]) (use True p in \<open>auto simp: b''_def p_def\<close>)
  have "b' = b'' \<and> rest = drop (length e) inp \<and>
    (out = None \<longrightarrow> fb_len b'' \<noteq> cap \<and> fb_len b'' = p + length e) \<and>
    (\<forall>x. out = Some x \<longrightarrow> x = (fb_off b'', fbuf_data b''))"
    using w True by (auto simp: fbuf_write_def Let_def b''_def p_def [symmetric] e_def max_def
      fbuf_data_def split: if_splits)
  then show ?thesis
    using view inp le wf p
    by (auto simp: fbuf_view_def min_def b''_def split: option.splits if_splits)
qed

text \<open>Progress: after a flushed segment the cleared buffer accepts the rest in at most two more steps.\<close>

lemma fbuf_write_Some_data:
  assumes wf: "fbuf_wf cap b" and w: "fbuf_write b cap inp off = (b', rest, Some (woff, d))"
  shows "d \<noteq> []"
proof -
  have wf': "fbuf_wf cap b'"
    using wf w by (rule fbuf_write_wf)
  have "fb_len b' \<noteq> 0 \<and> d = fbuf_data b' \<or> d = inp \<and> cap \<le> length inp"
    using w by (auto simp: fbuf_write_def Let_def split: if_splits)
  with wf' length_fbuf_data [OF wf'] show ?thesis
    by (auto simp: fbuf_wf_def)
qed

lemma fbuf_write_clear:
  "fb_len b = 0 \<Longrightarrow> fbuf_write b cap inp off = (b', rest, out) \<Longrightarrow>
   rest = [] \<and> (out = None \<or> out = Some (off, inp))"
  by (auto simp: fbuf_write_def split: if_splits)

section \<open>The read ring\<close>

lemma find_index_Some:
  "find_index p xs = Some i \<Longrightarrow> i < length xs \<and> p (xs ! i) \<and> (\<forall>j < i. \<not> p (xs ! j))"
proof (induction xs arbitrary: i)
  case (Cons x xs)
  show ?case
  proof (cases i)
    case (Suc k)
    with Cons show ?thesis by (auto split: if_splits simp: less_Suc_eq_0_disj)
  qed (use Cons in \<open>auto split: if_splits\<close>)
qed simp

lemma find_index_None: "find_index p xs = None \<longleftrightarrow> (\<forall>x \<in> set xs. \<not> p x)"
  by (induction xs) auto

text \<open>
  The ring agrees with the file \<open>c\<close> when the valid bytes of every buffer are the file's bytes
  at the buffer's offset.
\<close>

definition fbuf_coherent :: "bytes \<Rightarrow> fbuf \<Rightarrow> bool" where
  "fbuf_coherent c b \<longleftrightarrow>
     fb_len b \<le> length (fb_ptr b) \<and> fbuf_data b = take (fb_len b) (drop (fb_off b) c)"

definition fbufset_coherent :: "bytes \<Rightarrow> fbufset \<Rightarrow> bool" where
  "fbufset_coherent c s \<longleftrightarrow> (\<forall>b \<in> set (bufs s). fbuf_coherent c b) \<and> bidx s < length (bufs s)"

lemma fbuf_coherent_hit:
  assumes "fbuf_coherent c b" and "fbuf_covers b off"
  shows "drop (off - fb_off b) (fbuf_data b) = take (fb_off b + fb_len b - off) (drop off c)"
  using assms by (auto simp: fbuf_coherent_def fbuf_covers_def drop_take add.commute)

end
