(* ===== verification/Sys.thy ===== *)
theory Sys
  imports Prelude
begin

text \<open>
  The operating system as the program sees it through the library ffsys, which is not part of
  the repository: a record of functions over an opaque world \<open>'w\<close>. Nothing is said here about
  what they do; the properties that need it state the documented behaviour of the calls they
  rely on (\<open>os_write_ok\<close>, \<open>os_read_ok\<close>) as hypotheses. \<open>'i\<close> is the type of \<open>fffileinfo\<close>.
  \<open>FFFILE_NULL\<close> is \<^const>\<open>None\<close>. The alignment helpers of ffbase are fields too.
\<close>

type_synonym fffd = "nat option"
type_synonym fftime = "int \<times> int"

text \<open>\<open>fferr_last()\<close>, up to the tests the code makes of it.\<close>

datatype errno = EAGAIN | ENOENT | EEXIST | EINVAL | EINTR | EOTHER nat

datatype oflag = OReadonly | OWriteonly | OReadwrite | OCreate | OCreatenew | ODirect | ONoatime

record ('w, 'i) sys =
  fs_errno :: "'w \<Rightarrow> errno"
  fs_open :: "bytes \<Rightarrow> oflag set \<Rightarrow> 'w \<Rightarrow> fffd \<times> 'w"
  fs_close :: "fffd \<Rightarrow> 'w \<Rightarrow> bool \<times> 'w"
  fs_readat :: "fffd \<Rightarrow> nat \<Rightarrow> nat \<Rightarrow> 'w \<Rightarrow> bytes option \<times> 'w"
  fs_piperead :: "fffd \<Rightarrow> nat \<Rightarrow> 'w \<Rightarrow> bytes option \<times> 'w"
  fs_writeat :: "fffd \<Rightarrow> bytes \<Rightarrow> nat \<Rightarrow> 'w \<Rightarrow> nat option \<times> 'w"
  fs_pipewrite :: "fffd \<Rightarrow> bytes \<Rightarrow> 'w \<Rightarrow> nat option \<times> 'w"
  fs_trunc :: "fffd \<Rightarrow> nat \<Rightarrow> 'w \<Rightarrow> bool \<times> 'w"
  fs_set_mtime :: "fffd \<Rightarrow> fftime \<Rightarrow> 'w \<Rightarrow> bool \<times> 'w"
  fs_set_attr :: "fffd \<Rightarrow> 32 word \<Rightarrow> 'w \<Rightarrow> bool \<times> 'w"
  fs_size :: "fffd \<Rightarrow> 'w \<Rightarrow> nat"
  fs_readahead :: "fffd \<Rightarrow> int \<Rightarrow> 'w \<Rightarrow> bool \<times> 'w"
  fs_info :: "fffd \<Rightarrow> 'w \<Rightarrow> 'i option \<times> 'w"
  fs_info_link :: "bytes option \<Rightarrow> 'w \<Rightarrow> 'i option \<times> 'w"
  fs_info_zero :: 'i
  dir_make :: "bytes \<Rightarrow> 'w \<Rightarrow> bool \<times> 'w"
  dir_make_path :: "bytes \<Rightarrow> 'w \<Rightarrow> bool \<times> 'w"
  dir_make_all :: "bytes \<Rightarrow> 'w \<Rightarrow> bool \<times> 'w"
  fs_hardlink :: "bytes \<Rightarrow> bytes \<Rightarrow> 'w \<Rightarrow> bool \<times> 'w"
  fs_symlink :: "bytes \<Rightarrow> bytes \<Rightarrow> 'w \<Rightarrow> bool \<times> 'w"
  fs_remove :: "bytes \<Rightarrow> 'w \<Rightarrow> bool \<times> 'w"
  fs_rename :: "bytes \<Rightarrow> bytes \<Rightarrow> 'w \<Rightarrow> bool \<times> 'w"
  time_1970 :: int
  align_floor2 :: "nat \<Rightarrow> nat \<Rightarrow> nat"
  align_ceil2 :: "nat \<Rightarrow> nat \<Rightarrow> nat"
  align_power2 :: "nat \<Rightarrow> nat"
  str_shift :: "nat \<Rightarrow> bytes \<Rightarrow> bytes"

text \<open>
  Documented behaviour of the calls that write to the regular file open as \<open>fd\<close>, whose
  contents in a world are \<open>content w\<close>: \<open>pwrite\<close> stores a non-empty prefix of what it is given,
  or fails and stores nothing; \<open>ftruncate\<close> cuts the file or extends it with zero bytes.
\<close>

definition os_write_ok :: "('w, 'i) sys \<Rightarrow> nat \<Rightarrow> ('w \<Rightarrow> bytes) \<Rightarrow> bool" where
  "os_write_ok sys fd content \<longleftrightarrow>
     (\<forall>d off w r w'. fs_writeat sys (Some fd) d off w = (Some r, w') \<longrightarrow>
        r \<le> length d \<and> (d \<noteq> [] \<longrightarrow> 0 < r) \<and> content w' = overlay (content w) off (take r d)) \<and>
     (\<forall>d off w w'. fs_writeat sys (Some fd) d off w = (None, w') \<longrightarrow> content w' = content w) \<and>
     (\<forall>n w w'. fs_trunc sys (Some fd) n w = (True, w') \<longrightarrow>
        content w' = take n (content w) @ replicate (n - length (content w)) (CHR 0x00)) \<and>
     (\<forall>n w w'. fs_trunc sys (Some fd) n w = (False, w') \<longrightarrow> content w' = content w)"

text \<open>
  \<open>pread\<close> on a regular file returns the bytes at the offset, fewer than asked for only at the
  end of the file, and changes nothing.
\<close>

definition os_read_ok :: "('w, 'i) sys \<Rightarrow> fffd \<Rightarrow> ('w \<Rightarrow> bytes) \<Rightarrow> bool" where
  "os_read_ok sys fd content \<longleftrightarrow>
     (\<forall>n off w r w'. fs_readat sys fd n off w = (r, w') \<longrightarrow>
        content w' = content w \<and>
        (\<forall>d. r = Some d \<longrightarrow> d = take n (drop off (content w))))"

text \<open>Setting times and attributes and closing a descriptor leave the contents alone.\<close>

definition os_meta_ok :: "('w, 'i) sys \<Rightarrow> ('w \<Rightarrow> bytes) \<Rightarrow> bool" where
  "os_meta_ok sys content \<longleftrightarrow>
     (\<forall>fd t w. content (snd (fs_set_mtime sys fd t w)) = content w) \<and>
     (\<forall>fd w. content (snd (fs_close sys fd w)) = content w)"

text \<open>A kernel that accepts every write and truncation of \<open>fd\<close> (no full disk, no \<open>EAGAIN\<close>).\<close>

definition os_accepts :: "('w, 'i) sys \<Rightarrow> nat \<Rightarrow> bool" where
  "os_accepts sys fd \<longleftrightarrow>
     (\<forall>d off w. fst (fs_writeat sys (Some fd) d off w) \<noteq> None) \<and>
     (\<forall>n w. fst (fs_trunc sys (Some fd) n w))"

text \<open>The alignment helpers and \<open>ffstr_shift\<close>, as ffbase documents them.\<close>

definition ffbase_ok :: "('w, 'i) sys \<Rightarrow> bool" where
  "ffbase_ok sys \<longleftrightarrow>
     (\<forall>x a. 0 < a \<longrightarrow> align_floor2 sys x a = x - x mod a) \<and>
     (\<forall>x a. 0 < a \<longrightarrow> x \<le> align_ceil2 sys x a) \<and>
     (\<forall>x. x \<le> align_power2 sys x) \<and>
     (\<forall>n s. n \<le> length s \<longrightarrow> str_shift sys n s = drop n s)"

lemma os_writeD:
  assumes "os_write_ok sys fd content"
  shows "fs_writeat sys (Some fd) d off w = (Some r, w') \<Longrightarrow>
      r \<le> length d \<and> (d \<noteq> [] \<longrightarrow> 0 < r) \<and> content w' = overlay (content w) off (take r d)"
    and "fs_writeat sys (Some fd) d off w = (None, w') \<Longrightarrow> content w' = content w"
    and "fs_trunc sys (Some fd) n w = (True, w') \<Longrightarrow>
      content w' = take n (content w) @ replicate (n - length (content w)) (CHR 0x00)"
    and "fs_trunc sys (Some fd) n w = (False, w') \<Longrightarrow> content w' = content w"
  using assms unfolding os_write_ok_def by blast+

lemma os_readD:
  assumes "os_read_ok sys fd content" and "fs_readat sys fd n off w = (r, w')"
  shows "content w' = content w" and "r = Some d \<Longrightarrow> d = take n (drop off (content w))"
  using assms unfolding os_read_ok_def by blast+

lemma ffbaseD:
  assumes "ffbase_ok sys"
  shows "0 < a \<Longrightarrow> align_floor2 sys x a = x - x mod a"
    and "0 < a \<Longrightarrow> x \<le> align_ceil2 sys x a"
    and "x \<le> align_power2 sys x"
    and "n \<le> length s \<Longrightarrow> str_shift sys n s = drop n s"
  using assms unfolding ffbase_ok_def by blast+

end
