(* ===== verification/Flags.thy ===== *)
theory Flags
  imports Prelude
begin

text \<open>
  The constants of the public interface \<open>src/fcom.h\<close> that the file module and the operations
  exchange: open flags, return codes, and the flags derived from the command's options.
\<close>

section \<open>enum FCOM_FILE_OPEN\<close>

definition FCOM_FILE_READ :: "32 word" where "FCOM_FILE_READ = 0"
definition FCOM_FILE_WRITE :: "32 word" where "FCOM_FILE_WRITE = 1"
definition FCOM_FILE_READWRITE :: "32 word" where "FCOM_FILE_READWRITE = 2"
definition FCOM_FILE_CREATENEW :: "32 word" where "FCOM_FILE_CREATENEW = 4"
definition FCOM_FILE_CREATE :: "32 word" where "FCOM_FILE_CREATE = 8"
definition FCOM_FILE_CREATE_TRUNC :: "32 word" where "FCOM_FILE_CREATE_TRUNC = 8 OR 0x1000"
definition FCOM_FILE_STDIN :: "32 word" where "FCOM_FILE_STDIN = 0x10"
definition FCOM_FILE_STDOUT :: "32 word" where "FCOM_FILE_STDOUT = 0x20"
definition FCOM_FILE_DIRECTIO :: "32 word" where "FCOM_FILE_DIRECTIO = 0x40"
definition FCOM_FILE_FAKEWRITE :: "32 word" where "FCOM_FILE_FAKEWRITE = 0x80"
definition FCOM_FILE_NO_PREALLOC :: "32 word" where "FCOM_FILE_NO_PREALLOC = 0x0100"
definition FCOM_FILE_INFO_NOFOLLOW :: "32 word" where "FCOM_FILE_INFO_NOFOLLOW = 0x0200"
definition FCOM_FILE_READAHEAD :: "32 word" where "FCOM_FILE_READAHEAD = 0x0400"
definition FCOM_FILE_NOCACHE :: "32 word" where "FCOM_FILE_NOCACHE = 0x0800"

lemmas open_flag_defs [flag_simps] =
  FCOM_FILE_READ_def FCOM_FILE_WRITE_def FCOM_FILE_READWRITE_def FCOM_FILE_CREATENEW_def
  FCOM_FILE_CREATE_def FCOM_FILE_CREATE_TRUNC_def FCOM_FILE_STDIN_def FCOM_FILE_STDOUT_def
  FCOM_FILE_DIRECTIO_def FCOM_FILE_FAKEWRITE_def FCOM_FILE_NO_PREALLOC_def
  FCOM_FILE_INFO_NOFOLLOW_def FCOM_FILE_READAHEAD_def FCOM_FILE_NOCACHE_def

section \<open>enum FCOM_FILE_RET\<close>

text \<open>
  \<open>FAssert\<close> is not a code of the source: it stands for a process stopped by a failed
  \<open>FF_ASSERT\<close> in the file module.
\<close>

datatype file_ret = FOk | FEof | FAsync | FErr | FAssert

datatype file_beh = FBehSeq | FBehRandom | FBehTruncPrealloc

definition FCOM_FILE_MOVE_SAFE :: "32 word" where "FCOM_FILE_MOVE_SAFE = 1"
definition FCOM_FILE_DIR_RECURSIVE :: "32 word" where "FCOM_FILE_DIR_RECURSIVE = 1"
definition FCOM_FILE_ACQUIRE :: "32 word" where "FCOM_FILE_ACQUIRE = 1"

lemmas other_flag_defs [flag_simps] =
  FCOM_FILE_MOVE_SAFE_def FCOM_FILE_DIR_RECURSIVE_def FCOM_FILE_ACQUIRE_def

end
