(* ===== verification/FileIO.thy ===== *)
theory FileIO
  imports Fbuf Sys Flags
begin

text \<open>
  The buffered file object of \<open>src/core/file.c\<close> over the buffers of \<^theory_text>\<open>Fbuf\<close> and the
  operating system of \<^theory_text>\<open>Sys\<close>: opening with its retries, cached reading, the write-back
  cache with its resumable writes, preallocation, and the path operations.

  Logging and the throughput counters of \<open>struct file.stats\<close>, which only feed log lines, are
  left out, as are the parts compiled for Windows only. An \<open>int64\<close> offset is
  \<^typ>\<open>nat option\<close>, \<^const>\<open>None\<close> being \<open>-1\<close> ("current offset"). A function whose loop ends only
  if the kernel makes progress returns an option: \<^const>\<open>None\<close> is "does not return".
\<close>

section \<open>The file object\<close>

record fobj =
  f_name :: "bytes option"
  f_fd :: fffd
  f_flags :: "32 word"
  f_bufsize :: nat
  f_mtime :: fftime
  f_stdin :: fffd
  f_stdout :: fffd
  f_bufset :: fbufset
  f_size :: nat
  f_cur :: nat
  f_wwrite :: bool
  f_wbuf :: fbuf
  f_wuser :: bytes
  f_wcont :: bool
  w_buf :: bytes
  w_off :: nat
  w_prealloc :: nat
  w_async :: bool

record file_conf =
  conf_buffer_size :: nat
  conf_n_buffers :: nat
  conf_stdin :: nat
  conf_stdout :: nat

definition ALIGN :: nat where
  "ALIGN = 4 * 1024"

text \<open>
  \<open>file_create\<close>: \<open>alloc\<close> are the blocks the aligned allocator returns for the read ring and
  \<open>wblock\<close> the one for the write cache; \<open>stdin_fd\<close> and \<open>stdout_fd\<close> are the process's own.
  A zero in the configuration selects the default. (The code also stores the default number of
  buffers back into the caller's configuration.)
\<close>

definition file_create ::
  "(nat \<Rightarrow> bytes option) \<Rightarrow> bytes \<Rightarrow> nat \<Rightarrow> nat \<Rightarrow> file_conf \<Rightarrow> fobj \<times> file_conf" where
  "file_create alloc wblock stdin_fd stdout_fd conf =
     (let bsize = (if conf_buffer_size conf = 0 then 64 * 1024 else conf_buffer_size conf);
          conf' = (if conf_n_buffers conf = 0 then conf\<lparr>conf_n_buffers := 3\<rparr> else conf);
          bsize' = max bsize ALIGN;
          (bset, _) = fbufset_init alloc \<lparr>bufs = [], bidx = 0, hits = 0, misses = 0\<rparr> (conf_n_buffers conf')
      in (\<lparr>f_name = None, f_fd = None, f_flags = 0, f_bufsize = bsize', f_mtime = (0, 0),
           f_stdin = Some (if conf_stdin conf \<noteq> 0 then conf_stdin conf else stdin_fd),
           f_stdout = Some (if conf_stdout conf \<noteq> 0 then conf_stdout conf else stdout_fd),
           f_bufset = bset, f_size = 0, f_cur = 0, f_wwrite = False,
           f_wbuf = \<lparr>fb_len = 0, fb_ptr = wblock, fb_off = 0\<rparr>, f_wuser = [], f_wcont = False,
           w_buf = [], w_off = 0, w_prealloc = 0, w_async = False\<rparr>, conf'))"

section \<open>Passing data to the kernel\<close>

text \<open>
  \<open>f_write\<close>: \<^const>\<open>Inl\<close> is a negative return (the negated code), \<^const>\<open>Inr\<close> the number of
  bytes of \<open>d\<close> written. With direct I/O the block is padded with zero bytes to the alignment.
\<close>

definition f_write ::
  "('w, 'i) sys \<Rightarrow> fobj \<Rightarrow> bytes \<Rightarrow> nat \<Rightarrow> 'w \<Rightarrow> (file_ret + nat) \<times> fobj \<times> 'w" where
  "f_write sys f d off w =
     (if has (f_flags f) FCOM_FILE_STDOUT then
        (if off \<noteq> f_size f then (Inl FErr, f, w)
         else (case fs_pipewrite sys (f_fd f) d w of
             (None, w') \<Rightarrow> (Inl (if fs_errno sys w' = EAGAIN then FAsync else FErr), f, w')
           | (Some r, w') \<Rightarrow>
               (Inr r, f\<lparr>f_size := max (f_size f) (off + r), w_prealloc := max (w_prealloc f) (off + r)\<rparr>, w')))
      else
        (let len = (if has (f_flags f) FCOM_FILE_DIRECTIO then align_ceil2 sys (length d) ALIGN else length d)
         in (case fs_writeat sys (f_fd f) (d @ replicate (len - length d) (CHR 0x00)) off w of
             (None, w') \<Rightarrow> (Inl (if fs_errno sys w' = EAGAIN then FAsync else FErr), f, w')
           | (Some r0, w') \<Rightarrow>
               (let r = min r0 (length d)
                in (Inr r, f\<lparr>f_size := max (f_size f) (off + r), w_prealloc := max (w_prealloc f) (off + len)\<rparr>, w')))))"

text \<open>
  The loop of \<open>file_flush\<close>; it does not return if the kernel keeps accepting zero bytes.
\<close>

partial_function (option) flush_loop ::
  "('w, 'i) sys \<Rightarrow> fobj \<Rightarrow> bytes \<Rightarrow> nat \<Rightarrow> 'w \<Rightarrow> (file_ret \<times> fobj \<times> 'w) option" where
  "flush_loop sys f d off w =
     (if d = [] then Some (FOk, f\<lparr>f_wbuf := fbuf_clear (f_wbuf f)\<rparr>, w)
      else (let x = f_write sys f d off w
            in (case fst x of
                  Inl e \<Rightarrow> Some (e, snd x)
                | Inr r \<Rightarrow> flush_loop sys (fst (snd x)) (drop r d) (off + r) (snd (snd x)))))"

definition file_flush :: "('w, 'i) sys \<Rightarrow> fobj \<Rightarrow> 'w \<Rightarrow> (file_ret \<times> fobj \<times> 'w) option" where
  "file_flush sys f w = flush_loop sys f (fbuf_data (f_wbuf f)) (fb_off (f_wbuf f)) w"

section \<open>Closing\<close>

definition mtime_set :: "('w, 'i) sys \<Rightarrow> fobj \<Rightarrow> 'w \<Rightarrow> 'w" where
  "mtime_set sys f w =
     (if fst (f_mtime f) = 0 \<or> has (f_flags f) FCOM_FILE_STDOUT then w
      else snd (fs_set_mtime sys (f_fd f) (fst (f_mtime f) - time_1970 sys, snd (f_mtime f)) w))"

definition prealloc_trunc :: "('w, 'i) sys \<Rightarrow> fobj \<Rightarrow> 'w \<Rightarrow> fobj \<times> 'w" where
  "prealloc_trunc sys f w =
     (if w_prealloc f \<le> f_size f then (f, w)
      else (case fs_trunc sys (f_fd f) (f_size f) w of
          (False, w') \<Rightarrow> (f, w')
        | (True, w') \<Rightarrow> (f\<lparr>w_prealloc := f_size f\<rparr>, w')))"

definition writable :: "32 word \<Rightarrow> bool" where
  "writable fl \<longleftrightarrow> has fl (FCOM_FILE_WRITE OR FCOM_FILE_READWRITE)"

definition file_close :: "('w, 'i) sys \<Rightarrow> fobj \<Rightarrow> 'w \<Rightarrow> (fobj \<times> 'w) option" where
  "file_close sys f w =
     (if f_fd f = None then Some (f\<lparr>f_name := None\<rparr>, w)
      else map_option
        (\<lambda>(f, w).
           let w' = (if has (f_flags f) (FCOM_FILE_STDIN OR FCOM_FILE_STDOUT) then w
                     else snd (fs_close sys (f_fd f) w))
           in (f\<lparr>f_fd := None, f_name := None\<rparr>, w'))
        (if writable (f_flags f) then
           map_option
             (\<lambda>(r, f, w). let (f', w') = prealloc_trunc sys f w in (f', mtime_set sys f' w'))
             (file_flush sys f w)
         else Some (f, w)))"

definition file_destroy :: "('w, 'i) sys \<Rightarrow> fobj option \<Rightarrow> 'w \<Rightarrow> 'w option" where
  "file_destroy sys f w =
     (case f of None \<Rightarrow> Some w | Some f \<Rightarrow> map_option snd (file_close sys f w))"

section \<open>Opening\<close>

definition file_trunc :: "('w, 'i) sys \<Rightarrow> fobj \<Rightarrow> nat option \<Rightarrow> 'w \<Rightarrow> file_ret \<times> fobj \<times> 'w" where
  "file_trunc sys f n w =
     (let f1 = f\<lparr>w_prealloc := (case n of None \<Rightarrow> f_cur f | Some k \<Rightarrow> k)\<rparr>
      in (case fs_trunc sys (f_fd f1) (w_prealloc f1) w of
          (True, w') \<Rightarrow> (FOk, f1, w')
        | (False, w') \<Rightarrow> (FOk, f1\<lparr>f_flags := f_flags f1 OR FCOM_FILE_NO_PREALLOC\<rparr>, w')))"

definition open_oflags :: "32 word \<Rightarrow> oflag set" where
  "open_oflags how =
     {if how AND 3 = FCOM_FILE_WRITE then OWriteonly
      else if how AND 3 = FCOM_FILE_READWRITE then OReadwrite else OReadonly} \<union>
     (if has how FCOM_FILE_CREATE then {OCreate}
      else if has how FCOM_FILE_CREATENEW then {OCreatenew} else {}) \<union>
     (if has how FCOM_FILE_DIRECTIO then {ODirect} else {}) \<union> {ONoatime}"

text \<open>
  The retry loop of \<open>file_open\<close>: the flags finally used and the descriptor. Without
  \<open>O_DIRECT\<close> after \<open>EINVAL\<close> (a file already created by the failed attempt is no longer
  required to be new), once more after creating the missing directories.
\<close>

function open_loop ::
  "('w, 'i) sys \<Rightarrow> bytes \<Rightarrow> 32 word \<Rightarrow> oflag set \<Rightarrow> nat \<Rightarrow> 'w \<Rightarrow> (fffd \<times> oflag set) \<times> 'w" where
  "open_loop sys name how flags i w =
     (case fs_open sys name flags w of
        (Some fd, w') \<Rightarrow> ((Some fd, flags), w')
      | (None, w') \<Rightarrow>
          (if fs_errno sys w' = EINVAL \<and> ODirect \<in> flags then
             (let fl = flags - {ODirect};
                  fl' = (if has how FCOM_FILE_CREATENEW then (fl - {OCreatenew}) \<union> {OCreate} else fl)
              in open_loop sys name how fl' (i + 1) w')
           else if i = 0 \<and> fs_errno sys w' = ENOENT \<and> writable how then
             (case dir_make_path sys name w' of
                (False, w'') \<Rightarrow> ((None, flags), w'')
              | (True, w'') \<Rightarrow> open_loop sys name how flags (i + 1) w'')
           else ((None, flags), w')))"
  by pat_completeness auto
termination
  by (relation "measure (\<lambda>(sys, name, how, flags, i, w).
        (if ODirect \<in> flags then 1 else 0) + (if i = 0 then 1 else 0))")
    (auto split: if_splits)

declare open_loop.simps [simp del]

definition file_open ::
  "('w, 'i) sys \<Rightarrow> fobj \<Rightarrow> bytes \<Rightarrow> 32 word \<Rightarrow> 'w \<Rightarrow> (file_ret \<times> fobj \<times> 'w) option" where
  "file_open sys f0 name how w0 =
     (case file_close sys f0 w0 of None \<Rightarrow> None | Some (fc, w) \<Rightarrow>
       Some (let f = fc\<lparr>f_flags := how, f_bufset := fbufset_reset (f_bufset fc), f_size := 0,
                        w_prealloc := 0, f_cur := 0, f_mtime := (0, 0)\<rparr>
         in if has how FCOM_FILE_STDIN then (FOk, f\<lparr>f_fd := f_stdin f\<rparr>, w)
            else if has how FCOM_FILE_STDOUT then
              (FOk, f\<lparr>f_flags := f_flags f OR FCOM_FILE_WRITE OR FCOM_FILE_NO_PREALLOC, f_fd := f_stdout f\<rparr>, w)
            else if has how FCOM_FILE_FAKEWRITE then (FOk, f\<lparr>f_name := Some name\<rparr>, w)
            else (case open_loop sys name how (open_oflags how) 0 w of
                ((None, fl), w') \<Rightarrow> (FErr, f\<lparr>f_name := Some name\<rparr>, w')
              | ((Some fd, fl), w') \<Rightarrow>
                  (let f1 = f\<lparr>f_name := Some name, f_fd := Some fd,
                              f_flags := (if has how FCOM_FILE_DIRECTIO \<and> ODirect \<notin> fl
                                then f_flags f AND NOT FCOM_FILE_DIRECTIO else f_flags f)\<rparr>
                   in if how AND FCOM_FILE_CREATE_TRUNC = FCOM_FILE_CREATE_TRUNC
                      then (let (_, f2, w2) = file_trunc sys f1 (Some 0) w' in (FOk, f2, w2))
                      else (FOk, f1, w')))))"

section \<open>Reading\<close>

text \<open>The data returned is the view \<open>d\<close> of the buffer, from the requested offset on.\<close>

definition file_read ::
  "('w, 'i) sys \<Rightarrow> fobj \<Rightarrow> nat option \<Rightarrow> 'w \<Rightarrow> (file_ret \<times> bytes) \<times> fobj \<times> 'w" where
  "file_read sys f off0 w =
     (let off = (case off0 of None \<Rightarrow> f_cur f | Some n \<Rightarrow> n);
          finish = (\<lambda>f b w.
            (let d = str_shift sys (off - fb_off b) (fbuf_data b);
                 f' = f\<lparr>f_cur := fb_off b + fb_len b\<rparr>
             in ((if d = [] then FEof else FOk, d), f', w)))
      in (case fbufset_find (f_bufset f) off of
          (Some i, bset) \<Rightarrow> finish (f\<lparr>f_bufset := bset\<rparr>) (bufs bset ! i) w
        | (None, bset0) \<Rightarrow>
            (let (i, bset) = fbufset_nextbuf bset0;
                 f1 = f\<lparr>f_bufset := bset\<rparr>
             in if has (f_flags f) FCOM_FILE_STDIN \<and> off \<noteq> f_cur f then ((FErr, []), f1, w)
                else
                  (let offset = (if has (f_flags f) FCOM_FILE_STDIN then off else align_floor2 sys off ALIGN);
                       (r, w') = (if has (f_flags f) FCOM_FILE_STDIN
                                  then fs_piperead sys (f_fd f) (f_bufsize f) w
                                  else fs_readat sys (f_fd f) (f_bufsize f) offset w)
                   in (case r of
                       None \<Rightarrow> ((if fs_errno sys w' = EAGAIN then FAsync else FErr, []), f1, w')
                     | Some d \<Rightarrow>
                         (let f2 = (if length d < f_bufsize f then f1\<lparr>f_size := offset + length d\<rparr> else f1);
                              b0 = bufs bset ! i;
                              b = \<lparr>fb_len = length d, fb_ptr = mem_write (fb_ptr b0) 0 d, fb_off = offset\<rparr>
                          in finish (f2\<lparr>f_bufset := bset\<lparr>bufs := (bufs bset)[i := b]\<rparr>\<rparr>) b w'))))))"

section \<open>Writing through the cache\<close>

text \<open>
  \<open>fw_cache\<close> and \<open>fw_write\<close> return either a final code or \<open>-1\<close>, "go on": \<^const>\<open>Inl\<close> and
  \<^const>\<open>Inr\<close>. The in/out arguments \<open>io_data\<close> and \<open>io_off\<close> are returned with \<open>Inr\<close>.
\<close>

definition fw_cache :: "fobj \<Rightarrow> bytes \<Rightarrow> nat option \<Rightarrow> (file_ret + bytes \<times> nat option) \<times> fobj" where
  "fw_cache f data io_off =
     (let off0 = (case io_off of None \<Rightarrow> f_cur f | Some n \<Rightarrow> n);
          d = (if f_wcont f then f_wuser f else data);
          off = (if f_wcont f then f_cur f else off0);
          f1 = (if f_wcont f then f\<lparr>f_wcont := False, f_wuser := []\<rparr> else f);
          (b, rest, out) = fbuf_write (f_wbuf f1) (f_bufsize f1) d off;
          rd = length d - length rest;
          f2 = f1\<lparr>f_wbuf := b, f_cur := off + rd\<rparr>
      in (case out of
          None \<Rightarrow> (Inl FOk, f2)
        | Some (woff, seg) \<Rightarrow>
            (Inr (seg, Some woff), f2\<lparr>f_wbuf := fbuf_clear b, f_wuser := rest, f_wcont := True\<rparr>)))"

definition fw_prealloc :: "('w, 'i) sys \<Rightarrow> fobj \<Rightarrow> nat \<Rightarrow> 'w \<Rightarrow> fobj \<times> 'w" where
  "fw_prealloc sys f end w =
     (if \<not> has (f_flags f) FCOM_FILE_NO_PREALLOC \<and> w_prealloc f < end then
        (let f1 = f\<lparr>w_prealloc := align_power2 sys end\<rparr>
         in (case fs_trunc sys (f_fd f1) (w_prealloc f1) w of
             (True, w') \<Rightarrow> (f1, w')
           | (False, w') \<Rightarrow> (f1\<lparr>f_flags := f_flags f1 OR FCOM_FILE_NO_PREALLOC\<rparr>, w')))
      else (f, w))"

definition fw_write ::
  "('w, 'i) sys \<Rightarrow> fobj \<Rightarrow> bytes \<Rightarrow> nat option \<Rightarrow> 'w \<Rightarrow> (file_ret + bytes \<times> nat option) \<times> fobj \<times> 'w" where
  "fw_write sys f data io_off w =
     (if \<not> w_async f \<and> io_off = None then (Inl FAssert, f, w)
      else
        (let d = (if w_async f then w_buf f else data);
             off = (if w_async f then w_off f else the io_off);
             f1 = (if w_async f then f\<lparr>w_async := False, w_buf := []\<rparr> else f);
             (f2, w2) = fw_prealloc sys f1 (off + length d) w
         in (case f_write sys f2 d off w2 of
             (Inl FAsync, f3, w3) \<Rightarrow> (Inl FAsync, f3\<lparr>w_buf := d, w_async := True, w_off := off\<rparr>, w3)
           | (Inl e, f3, w3) \<Rightarrow> (Inl e, f3, w3)
           | (Inr r, f3, w3) \<Rightarrow>
               (if r \<noteq> length d
                then (Inl FAsync, f3\<lparr>w_off := off + r, w_buf := drop r d, w_async := True\<rparr>, w3)
                else (Inr ([], io_off), f3\<lparr>w_off := off + r\<rparr>, w3)))))"

subsection \<open>What the two halves leave alone\<close>

definition same_cache :: "fobj \<Rightarrow> fobj \<Rightarrow> bool" where
  "same_cache f f' \<longleftrightarrow>
     f_wbuf f' = f_wbuf f \<and> f_wcont f' = f_wcont f \<and> f_wuser f' = f_wuser f \<and>
     f_wwrite f' = f_wwrite f \<and> f_cur f' = f_cur f \<and> f_bufsize f' = f_bufsize f \<and>
     f_fd f' = f_fd f \<and> f_name f' = f_name f \<and> f_mtime f' = f_mtime f \<and> f_bufset f' = f_bufset f"

lemma same_cache_trans: "same_cache f g \<Longrightarrow> same_cache g h \<Longrightarrow> same_cache f h"
  by (simp add: same_cache_def)

lemma f_write_frame: "f_write sys f d off w = (r, f', w') \<Longrightarrow> same_cache f f' \<and> f_flags f' = f_flags f \<and> w_async f' = w_async f"
  by (auto simp: f_write_def same_cache_def Let_def split: if_splits option.splits prod.splits)

lemma fw_prealloc_frame: "fw_prealloc sys f n w = (f', w') \<Longrightarrow> same_cache f f' \<and> f_size f' = f_size f \<and> w_async f' = w_async f"
  by (auto simp: fw_prealloc_def same_cache_def Let_def split: if_splits bool.splits prod.splits)

lemma fw_write_frame:
  assumes "fw_write sys f data off w = (r, f', w')"
  shows "same_cache f f'"
proof (cases "\<not> w_async f \<and> off = None")
  case True
  then show ?thesis using assms by (auto simp: fw_write_def same_cache_def)
next
  case False
  define d where "d = (if w_async f then w_buf f else data)"
  define o1 where "o1 = (if w_async f then w_off f else the off)"
  define f1 where "f1 = (if w_async f then f\<lparr>w_async := False, w_buf := []\<rparr> else f)"
  obtain f2 w2 where p: "fw_prealloc sys f1 (o1 + length d) w = (f2, w2)" by fastforce
  obtain x f3 w3 where x: "f_write sys f2 d o1 w2 = (x, f3, w3)" by (metis prod_cases3)
  have "same_cache f f1" by (simp add: f1_def same_cache_def)
  then have "same_cache f f3"
    using fw_prealloc_frame [OF p] f_write_frame [OF x] by (blast intro: same_cache_trans)
  moreover have "same_cache f3 f'"
    using assms False p x
    by (auto simp: fw_write_def d_def [symmetric] o1_def [symmetric] f1_def [symmetric]
        same_cache_def split: sum.splits file_ret.splits if_splits)
  ultimately show ?thesis by (rule same_cache_trans)
qed

lemma fw_write_Inr: "fw_write sys f data off w = (Inr (d, o'), f', w') \<Longrightarrow> d = [] \<and> o' = off"
  by (auto simp: fw_write_def Let_def split: if_splits prod.splits sum.splits file_ret.splits)

text \<open>The input of the next \<open>fw_cache\<close> and a bound on the number of rounds it still needs.\<close>

definition cache_input :: "fobj \<Rightarrow> bytes \<Rightarrow> bytes" where
  "cache_input f data = (if f_wcont f then f_wuser f else data)"

definition write_rank :: "fobj \<Rightarrow> bytes \<Rightarrow> nat" where
  "write_rank f data =
     (let d = cache_input f (if f_wwrite f then [] else data)
      in (if f_wwrite f then 1 else 0) + (if d = [] then 0 else if fb_len (f_wbuf f) = 0 then 2 else 4))"

lemma fw_cache_Inr:
  assumes "fw_cache f data off = (Inr (d, o'), f')"
  shows "cache_input f data \<noteq> [] \<and> f_wcont f' \<and> fb_len (f_wbuf f') = 0 \<and>
    (fb_len (f_wbuf f) = 0 \<longrightarrow> f_wuser f' = []) \<and> f_wwrite f' = f_wwrite f"
proof -
  define inp where "inp = cache_input f data"
  define b0 where "b0 = f_wbuf f"
  define at where "at = (if f_wcont f then f_cur f else case off of None \<Rightarrow> f_cur f | Some n \<Rightarrow> n)"
  obtain b rest out where w: "fbuf_write b0 (f_bufsize f) inp at = (b, rest, out)"
    by (metis prod_cases3)
  then have out: "out \<noteq> None" and f': "f_wbuf f' = fbuf_clear b" "f_wuser f' = rest" "f_wcont f'"
    "f_wwrite f' = f_wwrite f"
    using assms
    by (auto simp: fw_cache_def Let_def inp_def cache_input_def b0_def at_def split: if_splits option.splits)
  from w out have "inp \<noteq> []" by (auto simp: fbuf_write_def)
  moreover from w have "fb_len b0 = 0 \<Longrightarrow> rest = []"
    by (auto dest: fbuf_write_clear)
  ultimately show ?thesis
    using f' by (simp add: inp_def b0_def fbuf_clear_def)
qed

lemma write_rank_cache:
  assumes "\<not> f_wwrite f" and "fw_cache f data off = (Inr (d, o'), f')"
  shows "write_rank (f'\<lparr>f_wwrite := True\<rparr>) d < write_rank f data"
  using fw_cache_Inr [OF assms(2)] assms(1) by (auto simp: write_rank_def cache_input_def)

lemma write_rank_write:
  assumes "f_wwrite f" and "fw_write sys f data off w = (Inr (d, o'), f', w')"
  shows "write_rank (f'\<lparr>f_wwrite := False\<rparr>) d < write_rank f data"
  using fw_write_Inr [OF assms(2)] fw_write_frame [OF assms(2)] assms(1)
  by (auto simp: write_rank_def cache_input_def same_cache_def)

subsection \<open>The write loop\<close>

text \<open>
  The \<open>for\<close> loop of \<open>file_write\<close> alternates between the two halves. It always ends: the rank
  falls in every round and is at most 5.
\<close>

function write_loop ::
  "('w, 'i) sys \<Rightarrow> fobj \<Rightarrow> bytes \<Rightarrow> nat option \<Rightarrow> 'w \<Rightarrow> file_ret \<times> fobj \<times> 'w" where
  "write_loop sys f data off w =
     (if \<not> f_wwrite f then
        (case fw_cache f data off of
           (Inl r, f') \<Rightarrow> (r, f', w)
         | (Inr (d, o'), f') \<Rightarrow> write_loop sys (f'\<lparr>f_wwrite := True\<rparr>) d o' w)
      else
        (case fw_write sys f data off w of
           (Inl r, f', w') \<Rightarrow> (r, f', w')
         | (Inr (d, o'), f', w') \<Rightarrow> write_loop sys (f'\<lparr>f_wwrite := False\<rparr>) d o' w'))"
  by pat_completeness auto
termination
  by (relation "measure (\<lambda>(sys, f, data, off, w). write_rank f data)")
    (auto intro: write_rank_cache [OF _ sym] write_rank_write [OF _ sym])

declare write_loop.simps [simp del]

definition file_write ::
  "('w, 'i) sys \<Rightarrow> fobj \<Rightarrow> bytes \<Rightarrow> nat option \<Rightarrow> 'w \<Rightarrow> file_ret \<times> fobj \<times> 'w" where
  "file_write sys f data off w =
     (if has (f_flags f) FCOM_FILE_FAKEWRITE then (FOk, f, w)
      else if has (f_flags f) FCOM_FILE_NOCACHE then
        (let o1 = (case off of None \<Rightarrow> f_cur f | Some n \<Rightarrow> n)
         in (case fw_write sys (f\<lparr>f_cur := o1 + length data\<rparr>) data (Some o1) w of
             (Inl r, f', w') \<Rightarrow> (r, f', w')
           | (Inr _, f', w') \<Rightarrow> (FOk, f', w')))
      else write_loop sys f data off w)"

text \<open>\<open>file_write_fmt\<close>: \<open>text\<close> is the formatted text.\<close>

definition file_write_fmt :: "('w, 'i) sys \<Rightarrow> fobj \<Rightarrow> bytes \<Rightarrow> 'w \<Rightarrow> file_ret \<times> fobj \<times> 'w" where
  "file_write_fmt sys f txt w = file_write sys f txt None w"

section \<open>Attributes\<close>

definition file_behaviour ::
  "('w, 'i) sys \<Rightarrow> fobj \<Rightarrow> file_beh \<Rightarrow> 'w \<Rightarrow> (fobj \<times> 'w) option" where
  "file_behaviour sys f fl w =
     (case fl of
        FBehSeq \<Rightarrow>
          (let f1 = f\<lparr>f_size := fs_size sys (f_fd f) w\<rparr>
           in Some (f1, snd (fs_readahead sys (f_fd f1) (int (f_size f1)) w)))
      | FBehRandom \<Rightarrow> Some (f, snd (fs_readahead sys (f_fd f) (-1) w))
      | FBehTruncPrealloc \<Rightarrow>
          map_option (\<lambda>(r, f, w). prealloc_trunc sys f w) (file_flush sys f w))"

definition file_fd :: "fobj \<Rightarrow> 32 word \<Rightarrow> fffd \<times> fobj" where
  "file_fd f flags = (f_fd f, if has flags FCOM_FILE_ACQUIRE then f\<lparr>f_fd := None\<rparr> else f)"

definition file_info :: "('w, 'i) sys \<Rightarrow> fobj \<Rightarrow> 'w \<Rightarrow> (file_ret \<times> 'i option) \<times> 'w" where
  "file_info sys f w =
     (if has (f_flags f) (FCOM_FILE_STDIN OR FCOM_FILE_STDOUT) then ((FOk, Some (fs_info_zero sys)), w)
      else (case (if has (f_flags f) FCOM_FILE_INFO_NOFOLLOW then fs_info_link sys (f_name f) w
                  else fs_info sys (f_fd f) w) of
          (None, w') \<Rightarrow> ((FErr, None), w')
        | (Some i, w') \<Rightarrow> ((FOk, Some i), w')))"

definition file_mtime_set :: "fobj \<Rightarrow> fftime \<Rightarrow> file_ret \<times> fobj" where
  "file_mtime_set f t =
     (if has (f_flags f) FCOM_FILE_FAKEWRITE then (FOk, f) else (FOk, f\<lparr>f_mtime := t\<rparr>))"

definition file_attr_set :: "('w, 'i) sys \<Rightarrow> fobj \<Rightarrow> 32 word \<Rightarrow> 'w \<Rightarrow> file_ret \<times> 'w" where
  "file_attr_set sys f a w =
     (if has (f_flags f) FCOM_FILE_FAKEWRITE then (FOk, w)
      else (case fs_set_attr sys (f_fd f) a w of (ok, w') \<Rightarrow> (if ok then FOk else FErr, w')))"

section \<open>Path operations\<close>

definition dir_create :: "('w, 'i) sys \<Rightarrow> bytes \<Rightarrow> 32 word \<Rightarrow> 'w \<Rightarrow> file_ret \<times> 'w" where
  "dir_create sys name flags w =
     (case dir_make sys name w of
        (True, w1) \<Rightarrow> (FOk, w1)
      | (False, w1) \<Rightarrow>
          (if fs_errno sys w1 = EEXIST then (FOk, w1)
           else if has flags FCOM_FILE_DIR_RECURSIVE then
             (case dir_make_all sys name w1 of (ok, w2) \<Rightarrow> (if ok then FOk else FErr, w2))
           else (FErr, w1)))"

definition hlink_create :: "('w, 'i) sys \<Rightarrow> bytes \<Rightarrow> bytes \<Rightarrow> 'w \<Rightarrow> file_ret \<times> 'w" where
  "hlink_create sys oldpath newpath w =
     (case fs_hardlink sys oldpath newpath w of (ok, w') \<Rightarrow> (if ok then FOk else FErr, w'))"

definition slink_create :: "('w, 'i) sys \<Rightarrow> bytes \<Rightarrow> bytes \<Rightarrow> 32 word \<Rightarrow> 'w \<Rightarrow> file_ret \<times> 'w" where
  "slink_create sys target linkpath flags w =
     (case fs_symlink sys target linkpath w of
        (True, w1) \<Rightarrow> (FOk, w1)
      | (False, w1) \<Rightarrow>
          (if has flags FCOM_FILE_CREATE then
             (case fs_remove sys linkpath w1 of
                (False, w2) \<Rightarrow> (FErr, w2)
              | (True, w2) \<Rightarrow>
                  (case fs_symlink sys target linkpath w2 of (ok, w3) \<Rightarrow> (if ok then FOk else FErr, w3)))
           else (FErr, w1)))"

definition file_move :: "('w, 'i) sys \<Rightarrow> bytes \<Rightarrow> bytes \<Rightarrow> 32 word \<Rightarrow> 'w \<Rightarrow> file_ret \<times> 'w" where
  "file_move sys src dst flags w =
     (let (exists, w1) =
        (if has flags FCOM_FILE_MOVE_SAFE then
           (case fs_open sys dst {OReadonly} w of
              (Some fd, w') \<Rightarrow> (True, snd (fs_close sys (Some fd) w'))
            | (None, w') \<Rightarrow> (False, w'))
         else (False, w))
      in if exists then (FErr, w1)
         else (case fs_rename sys src dst w1 of
             (True, w2) \<Rightarrow> (FOk, w2)
           | (False, w2) \<Rightarrow>
               (if fs_errno sys w2 = ENOENT then
                  (case dir_make_path sys dst w2 of
                     (False, w3) \<Rightarrow> (FErr, w3)
                   | (True, w3) \<Rightarrow>
                       (case fs_rename sys src dst w3 of (ok, w4) \<Rightarrow> (if ok then FOk else FErr, w4)))
                else (FErr, w2))))"

text \<open>\<open>file_delete\<close> returns \<open>-1\<close> on error, here \<^const>\<open>False\<close>.\<close>

definition file_delete :: "('w, 'i) sys \<Rightarrow> bytes \<Rightarrow> 'w \<Rightarrow> bool \<times> 'w" where
  "file_delete sys name w = fs_remove sys name w"

end
