(* ===== verification/FileWrite.thy ===== *)
theory FileWrite
  imports FileIO
begin

text \<open>
  What the write-back cache of \<^theory_text>\<open>FileIO\<close> promises: an abstract file, the bytes a reader
  would find there once everything is flushed, and the proof that \<open>file_write\<close>, \<open>file_flush\<close>
  and \<open>file_close\<close> implement the obvious operations on it, whatever the kernel's short writes,
  \<open>EAGAIN\<close>s and failed preallocations.
\<close>

section \<open>The kernel's part\<close>

text \<open>
  The kernel's contents \<open>c\<close> of a file of logical size \<open>s\<close>: what is beyond \<open>s\<close> is
  preallocated zero bytes, and the file has never been longer than \<open>p\<close>.
\<close>

definition kernel_inv :: "nat \<Rightarrow> nat \<Rightarrow> bytes \<Rightarrow> bool" where
  "kernel_inv s p c \<longleftrightarrow>
     s \<le> length c \<and> length c \<le> p \<and> drop s c = replicate (length c - s) (CHR 0x00)"

lemma kernel_inv_nth: "kernel_inv s p c \<Longrightarrow> s \<le> k \<Longrightarrow> k < length c \<Longrightarrow> c ! k = CHR 0x00"
proof -
  assume a: "kernel_inv s p c" and k: "s \<le> k" "k < length c"
  have "c ! k = drop s c ! (k - s)" using k by simp
  also have "\<dots> = CHR 0x00" using a k by (simp add: kernel_inv_def)
  finally show ?thesis .
qed

lemma kernel_inv_write:
  assumes inv: "kernel_inv s p c" and d: "d \<noteq> []" and p': "off + length d \<le> p'" "p \<le> p'"
  shows "kernel_inv (max s (off + length d)) p' (overlay c off d)"
    and "take (max s (off + length d)) (overlay c off d) = overlay (take s c) off d"
proof -
  have s: "s \<le> length c" "length c \<le> p" using inv by (auto simp: kernel_inv_def)
  have "drop (max s (off + length d)) (overlay c off d) =
    replicate (length (overlay c off d) - max s (off + length d)) (CHR 0x00)"
  proof (rule nth_equalityI)
    fix k assume "k < length (drop (max s (off + length d)) (overlay c off d))"
    then show "drop (max s (off + length d)) (overlay c off d) ! k =
      replicate (length (overlay c off d) - max s (off + length d)) (CHR 0x00) ! k"
      using kernel_inv_nth [OF inv] s d by (auto simp: nth_overlay length_overlay)
  qed simp
  then show "kernel_inv (max s (off + length d)) p' (overlay c off d)"
    using s p' d by (auto simp: kernel_inv_def length_overlay)
  show "take (max s (off + length d)) (overlay c off d) = overlay (take s c) off d"
  proof (rule nth_equalityI)
    show "length (take (max s (off + length d)) (overlay c off d)) = length (overlay (take s c) off d)"
      using s d by (auto simp: length_overlay)
  next
    fix k assume "k < length (take (max s (off + length d)) (overlay c off d))"
    then show "take (max s (off + length d)) (overlay c off d) ! k = overlay (take s c) off d ! k"
      using kernel_inv_nth [OF inv] s d by (auto simp: nth_overlay length_overlay)
  qed
qed

lemma kernel_inv_extend:
  assumes "kernel_inv s p c" and "p \<le> n"
  shows "kernel_inv s n (take n c @ replicate (n - length c) (CHR 0x00))"
    and "take s (take n c @ replicate (n - length c) (CHR 0x00)) = take s c"
  using assms by (auto simp: kernel_inv_def replicate_add [symmetric])

lemma kernel_inv_cut:
  assumes "kernel_inv s p c"
  shows "take s c @ replicate (s - length c) (CHR 0x00) = take s c" and "kernel_inv s s (take s c)"
  using assms by (auto simp: kernel_inv_def)

section \<open>The abstract file\<close>

definition cached_flags :: "32 word \<Rightarrow> bool" where
  "cached_flags fl \<longleftrightarrow> \<not> has fl FCOM_FILE_STDOUT \<and> \<not> has fl FCOM_FILE_DIRECTIO \<and>
     \<not> has fl FCOM_FILE_FAKEWRITE \<and> \<not> has fl FCOM_FILE_NOCACHE \<and> writable fl"

text \<open>\<open>file_inv\<close>: a regular file open as \<open>fd\<close> for cached writing.\<close>

definition file_inv :: "nat \<Rightarrow> ('w \<Rightarrow> bytes) \<Rightarrow> fobj \<Rightarrow> 'w \<Rightarrow> bool" where
  "file_inv fd content f w \<longleftrightarrow>
     f_fd f = Some fd \<and> cached_flags (f_flags f) \<and> fbuf_wf (f_bufsize f) (f_wbuf f) \<and>
     kernel_inv (f_size f) (w_prealloc f) (content w)"

text \<open>No write is in progress.\<close>

definition file_idle :: "fobj \<Rightarrow> bool" where
  "file_idle f \<longleftrightarrow> \<not> f_wwrite f \<and> \<not> f_wcont f \<and> \<not> w_async f"

text \<open>A write stopped at the kernel and is to be resumed: \<open>w_buf\<close> first, then \<open>f_wuser\<close>.\<close>

definition file_pending :: "fobj \<Rightarrow> bool" where
  "file_pending f \<longleftrightarrow> f_wwrite f \<and> f_wcont f \<and> w_async f \<and> fb_len (f_wbuf f) = 0 \<and> w_buf f \<noteq> []"

definition file_kernel :: "('w \<Rightarrow> bytes) \<Rightarrow> fobj \<Rightarrow> 'w \<Rightarrow> bytes" where
  "file_kernel content f w = take (f_size f) (content w)"

definition file_view :: "('w \<Rightarrow> bytes) \<Rightarrow> fobj \<Rightarrow> 'w \<Rightarrow> bytes" where
  "file_view content f w = fbuf_view (f_wbuf f) (file_kernel content f w)"

text \<open>What the file will be when the write in progress is through.\<close>

definition file_target :: "('w \<Rightarrow> bytes) \<Rightarrow> fobj \<Rightarrow> 'w \<Rightarrow> bytes" where
  "file_target content f w =
     overlay (overlay (file_kernel content f w) (w_off f) (w_buf f)) (f_cur f) (f_wuser f)"

section \<open>One kernel write\<close>

lemma has_or_left: "has (a OR b) m \<longleftrightarrow> has a m \<or> has b m"
  using has_or [of m a b] by (simp add: has_def and.commute)

lemma cached_flags_or: "cached_flags (fl OR FCOM_FILE_NO_PREALLOC) = cached_flags fl"
  unfolding cached_flags_def writable_def has_or_left by (simp add: has_def flag_simps)

lemma f_write_correct:
  assumes os: "os_write_ok sys fd content" and inv: "file_inv fd content f w" and d: "d \<noteq> []"
    and wr: "f_write sys f d off w = (x, f', w')"
  shows "case x of
      Inl e \<Rightarrow> (e = FAsync \<or> e = FErr) \<and> f' = f \<and> content w' = content w
    | Inr r \<Rightarrow> 0 < r \<and> r \<le> length d \<and> file_inv fd content f' w' \<and>
        file_kernel content f' w' = overlay (file_kernel content f w) off (take r d)"
proof -
  have fd: "f_fd f = Some fd" and fl: "\<not> has (f_flags f) FCOM_FILE_STDOUT" "\<not> has (f_flags f) FCOM_FILE_DIRECTIO"
    and k: "kernel_inv (f_size f) (w_prealloc f) (content w)"
    using inv by (auto simp: file_inv_def cached_flags_def)
  obtain res w2 where res: "fs_writeat sys (Some fd) d off w = (res, w2)" by fastforce
  show ?thesis
  proof (cases res)
    case None
    with os_writeD(2) [OF os] res wr fl fd show ?thesis
      by (auto simp: f_write_def split: if_splits)
  next
    case (Some r)
    have r: "r \<le> length d" "0 < r" and c: "content w2 = overlay (content w) off (take r d)"
      using os_writeD(1) [OF os] res Some d by auto
    have tr: "take r d \<noteq> []" "length (take r d) = r" using r d by auto
    have x: "x = Inr r" "w' = w2"
      "f' = f\<lparr>f_size := max (f_size f) (off + r), w_prealloc := max (w_prealloc f) (off + length d)\<rparr>"
      using wr fl fd res Some r by (auto simp: f_write_def Let_def)
    note k' = kernel_inv_write [OF k tr(1), of off "max (w_prealloc f) (off + length d)"]
    show ?thesis
      using k' r inv x c tr by (auto simp: file_inv_def file_kernel_def)
  qed
qed

lemma fw_prealloc_correct:
  assumes os: "os_write_ok sys fd content" and ff: "ffbase_ok sys"
    and inv: "file_inv fd content f w" and pr: "fw_prealloc sys f n w = (f', w')"
  shows "file_inv fd content f' w'" and "file_kernel content f' w' = file_kernel content f w"
proof -
  have fd: "f_fd f = Some fd" and k: "kernel_inv (f_size f) (w_prealloc f) (content w)"
    using inv by (auto simp: file_inv_def)
  have "file_inv fd content f' w' \<and> file_kernel content f' w' = file_kernel content f w"
  proof (cases "\<not> has (f_flags f) FCOM_FILE_NO_PREALLOC \<and> w_prealloc f < n")
    case False
    then show ?thesis using pr inv by (auto simp: fw_prealloc_def)
  next
    case True
    define m where "m = align_power2 sys n"
    have m: "w_prealloc f \<le> m" using True ffbaseD(3) [OF ff, of n] unfolding m_def by linarith
    obtain ok w2 where t: "fs_trunc sys (Some fd) m w = (ok, w2)" by fastforce
    show ?thesis
    proof (cases ok)
      case True
      with os_writeD(3) [OF os] t pr \<open>\<not> _ \<and> _\<close> fd kernel_inv_extend [OF k m] inv show ?thesis
        by (auto simp: fw_prealloc_def Let_def m_def [symmetric] file_inv_def file_kernel_def)
    next
      case False
      with os_writeD(4) [OF os] t pr True fd m inv show ?thesis
        by (auto simp: fw_prealloc_def Let_def m_def [symmetric] file_inv_def file_kernel_def
            kernel_inv_def cached_flags_or)
    qed
  qed
  then show "file_inv fd content f' w'" "file_kernel content f' w' = file_kernel content f w" by auto
qed

section \<open>The loop\<close>

definition cache_off :: "fobj \<Rightarrow> nat option \<Rightarrow> nat" where
  "cache_off f off = (if f_wcont f then f_cur f else case off of None \<Rightarrow> f_cur f | Some n \<Rightarrow> n)"

text \<open>
  The invariant of the write loop, for the file \<open>t\<close> the write is to produce and the offset \<open>e\<close>
  it is to stop at. Between the two halves the cache is empty.
\<close>

definition cache_state :: "nat \<Rightarrow> ('w \<Rightarrow> bytes) \<Rightarrow> fobj \<Rightarrow> bytes \<Rightarrow> nat option \<Rightarrow> 'w \<Rightarrow> bytes \<Rightarrow> nat \<Rightarrow> bool" where
  "cache_state fd content f data off w t e \<longleftrightarrow>
     file_inv fd content f w \<and> \<not> f_wwrite f \<and> \<not> w_async f \<and>
     \<not> fbuf_gap (f_wbuf f) (f_bufsize f) (cache_off f off) \<and>
     t = overlay (file_view content f w) (cache_off f off) (cache_input f data) \<and>
     e = cache_off f off + length (cache_input f data)"

definition kernel_state :: "nat \<Rightarrow> ('w \<Rightarrow> bytes) \<Rightarrow> fobj \<Rightarrow> bytes \<Rightarrow> nat option \<Rightarrow> 'w \<Rightarrow> bytes \<Rightarrow> nat \<Rightarrow> bool" where
  "kernel_state fd content f data off w t e \<longleftrightarrow>
     file_inv fd content f w \<and> f_wwrite f \<and> f_wcont f \<and> fb_len (f_wbuf f) = 0 \<and>
     (let d = (if w_async f then w_buf f else data);
          o1 = (if w_async f then w_off f else the off)
      in (\<not> w_async f \<longrightarrow> off \<noteq> None) \<and> d \<noteq> [] \<and>
         t = overlay (overlay (file_kernel content f w) o1 d) (f_cur f) (f_wuser f)) \<and>
     e = f_cur f + length (f_wuser f)"

definition write_done :: "nat \<Rightarrow> ('w \<Rightarrow> bytes) \<Rightarrow> file_ret \<Rightarrow> fobj \<Rightarrow> 'w \<Rightarrow> bytes \<Rightarrow> nat \<Rightarrow> bool" where
  "write_done fd content r f w t e \<longleftrightarrow>
     (case r of
        FOk \<Rightarrow> file_inv fd content f w \<and> file_idle f \<and> file_view content f w = t \<and> f_cur f = e
      | FAsync \<Rightarrow> file_inv fd content f w \<and> file_pending f \<and> file_target content f w = t \<and>
          f_cur f + length (f_wuser f) = e
      | FErr \<Rightarrow> True
      | _ \<Rightarrow> False)"

lemma fbuf_clear_wf: "fbuf_wf cap b \<Longrightarrow> fbuf_wf cap (fbuf_clear b)"
  by (simp add: fbuf_wf_def fbuf_clear_def)

lemma fw_cache_correct:
  assumes st: "cache_state fd content f data off w t e" and c: "fw_cache f data off = (x, f')"
  shows "case x of
      Inl r \<Rightarrow> r = FOk \<and> write_done fd content FOk f' w t e
    | Inr (d, o') \<Rightarrow> kernel_state fd content (f'\<lparr>f_wwrite := True\<rparr>) d o' w t e"
proof -
  define inp where "inp = cache_input f data"
  define at where "at = cache_off f off"
  define f1 where "f1 = (if f_wcont f then f\<lparr>f_wcont := False, f_wuser := []\<rparr> else f)"
  have f1: "f_wbuf f1 = f_wbuf f" "f_bufsize f1 = f_bufsize f" by (auto simp: f1_def)
  obtain b rest out where bw: "fbuf_write (f_wbuf f) (f_bufsize f) inp at = (b, rest, out)"
    by (metis prod_cases3)
  have wf: "fbuf_wf (f_bufsize f) (f_wbuf f)" and gap: "\<not> fbuf_gap (f_wbuf f) (f_bufsize f) at"
    using st by (auto simp: cache_state_def file_inv_def at_def)
  note bc = fbuf_write_correct [OF wf gap bw, of "file_kernel content f w"]
  note b' = fbuf_write_wf [OF wf bw]
  define f2 where "f2 = f1\<lparr>f_wbuf := b, f_cur := at + (length inp - length rest)\<rparr>"
  have x: "fw_cache f data off =
    (case out of None \<Rightarrow> (Inl FOk, f2)
     | Some (woff, seg) \<Rightarrow>
        (Inr (seg, Some woff), f2\<lparr>f_wbuf := fbuf_clear b, f_wuser := rest, f_wcont := True\<rparr>))"
    using bw unfolding fw_cache_def
    by (simp add: Let_def f1_def [symmetric] f1 inp_def cache_input_def at_def cache_off_def f2_def
        split: option.splits)
  have inv: "file_inv fd content f w" "\<not> f_wwrite f" "\<not> w_async f"
    and t: "t = overlay (fbuf_view (f_wbuf f) (file_kernel content f w)) at inp" and e: "e = at + length inp"
    using st by (auto simp: cache_state_def inp_def at_def file_view_def)
  show ?thesis
  proof (cases out)
    case None
    with bc have "rest = []" "fbuf_view b (file_kernel content f w) = t" by (auto simp: t)
    with None x c inv b' e show ?thesis
      by (auto simp: write_done_def file_inv_def file_idle_def file_view_def file_kernel_def f2_def f1_def)
  next
    case (Some s)
    obtain woff seg where s: "s = (woff, seg)" by (cases s)
    with bc Some obtain used where u: "inp = used @ rest"
      "overlay (file_kernel content f w) woff seg =
        overlay (fbuf_view (f_wbuf f) (file_kernel content f w)) at used"
      by auto
    have "seg \<noteq> []" using fbuf_write_Some_data [OF wf] bw Some s by auto
    moreover have "t = overlay (overlay (file_kernel content f w) woff seg) (at + length used) rest"
      by (simp add: t u overlay_split)
    ultimately show ?thesis
      using Some s x c inv b' e u(1)
      by (auto simp: kernel_state_def file_inv_def file_kernel_def f2_def f1_def fbuf_clear_wf)
        (auto simp: fbuf_clear_def)
  qed
qed

lemma fw_write_correct:
  assumes os: "os_write_ok sys fd content" and ff: "ffbase_ok sys"
    and st: "kernel_state fd content f data off w t e" and wr: "fw_write sys f data off w = (x, f', w')"
  shows "case x of
      Inl r \<Rightarrow> write_done fd content r f' w' t e \<and> r \<noteq> FOk
    | Inr (d, o') \<Rightarrow> cache_state fd content (f'\<lparr>f_wwrite := False\<rparr>) d o' w' t e"
proof -
  define d where "d = (if w_async f then w_buf f else data)"
  define o1 where "o1 = (if w_async f then w_off f else the off)"
  define f1 where "f1 = (if w_async f then f\<lparr>w_async := False, w_buf := []\<rparr> else f)"
  have st': "file_inv fd content f w" "f_wwrite f" "f_wcont f" "fb_len (f_wbuf f) = 0"
    "w_async f \<or> off \<noteq> None" "d \<noteq> []"
    "t = overlay (overlay (file_kernel content f w) o1 d) (f_cur f) (f_wuser f)"
    "e = f_cur f + length (f_wuser f)"
    using st by (auto simp: kernel_state_def d_def o1_def Let_def)
  obtain f2 w2 where p: "fw_prealloc sys f1 (o1 + length d) w = (f2, w2)" by fastforce
  obtain y f3 w3 where y: "f_write sys f2 d o1 w2 = (y, f3, w3)" by (metis prod_cases3)
  have x: "fw_write sys f data off w = (case y of
      Inl FAsync \<Rightarrow> (Inl FAsync, f3\<lparr>w_buf := d, w_async := True, w_off := o1\<rparr>, w3)
    | Inl e \<Rightarrow> (Inl e, f3, w3)
    | Inr r \<Rightarrow> (if r \<noteq> length d then (Inl FAsync, f3\<lparr>w_off := o1 + r, w_buf := drop r d, w_async := True\<rparr>, w3)
        else (Inr ([], off), f3\<lparr>w_off := o1 + r\<rparr>, w3)))"
    using p y st'(5)
    by (auto simp: fw_write_def d_def [symmetric] o1_def [symmetric] f1_def [symmetric]
        split: sum.splits file_ret.splits)
  have inv1: "file_inv fd content f1 w" "file_kernel content f1 w = file_kernel content f w"
    using st'(1) by (auto simp: f1_def file_inv_def file_kernel_def)
  note inv2 = fw_prealloc_correct [OF os ff inv1(1) p]
  note fy = f_write_correct [OF os inv2(1) st'(6) y]
  have fr: "same_cache f f3"
    using fw_prealloc_frame [OF p] f_write_frame [OF y]
    by (auto simp: f1_def same_cache_def split: if_splits)
  show ?thesis
  proof (cases y)
    case (Inl r)
    with fy inv1 inv2 fr x wr st' show ?thesis
      by (auto simp: write_done_def file_pending_def file_target_def file_inv_def file_kernel_def same_cache_def)
  next
    case (Inr r)
    have k3: "file_inv fd content f3 w3" "0 < r" "r \<le> length d"
      "file_kernel content f3 w3 = overlay (file_kernel content f w) o1 (take r d)"
      using fy Inr inv1 inv2 by auto
    show ?thesis
    proof (cases "r = length d")
      case True
      have f': "x = Inr ([], off)" "f' = f3\<lparr>w_off := o1 + r\<rparr>" "w' = w3"
        using x wr Inr True by auto
      have na: "\<not> w_async f3"
        using fw_prealloc_frame [OF p] f_write_frame [OF y] by (auto simp: f1_def split: if_splits)
      show ?thesis
        using f' k3 fr st' True na
        by (auto simp: cache_state_def file_inv_def file_kernel_def file_view_def cache_off_def
            cache_input_def same_cache_def fbuf_gap_def)
    next
      case False
      have "overlay (overlay (file_kernel content f w) o1 (take r d)) (o1 + r) (drop r d) =
          overlay (file_kernel content f w) o1 d"
        using overlay_split [of "file_kernel content f w" o1 "take r d" "drop r d"] k3(3)
        by (simp add: min_absorb2)
      with False Inr k3 fr x wr st' show ?thesis
        by (auto simp: write_done_def file_pending_def file_target_def file_inv_def file_kernel_def same_cache_def)
    qed
  qed
qed

lemma write_loop_correct:
  assumes "os_write_ok sys fd content" and "ffbase_ok sys"
    and "write_loop sys f data off w = (r, f', w')"
    and "if f_wwrite f then kernel_state fd content f data off w t e
      else cache_state fd content f data off w t e"
  shows "write_done fd content r f' w' t e"
  using assms
proof (induction sys f data off w rule: write_loop.induct)
  case (1 sys f data off w)
  show ?case
  proof (cases "f_wwrite f")
    case False
    obtain x f1 where x: "fw_cache f data off = (x, f1)" by fastforce
    have c: "case x of Inl r \<Rightarrow> r = FOk \<and> write_done fd content FOk f1 w t e
      | Inr (d, o') \<Rightarrow> kernel_state fd content (f1\<lparr>f_wwrite := True\<rparr>) d o' w t e"
      using fw_cache_correct [OF _ x] "1.prems"(4) False by simp
    show ?thesis
    proof (cases x)
      case (Inl q)
      with c x False "1.prems"(3) show ?thesis by (simp add: write_loop.simps [of sys f])
    next
      case (Inr p)
      obtain d o' where p: "p = (d, o')" by (cases p)
      have "write_loop sys (f1\<lparr>f_wwrite := True\<rparr>) d o' w = (r, f', w')"
        using "1.prems"(3) False x Inr p by (simp add: write_loop.simps [of sys f])
      then show ?thesis
        using "1.IH"(1) [OF False x [symmetric] Inr p [symmetric]] c Inr p "1.prems"(1,2) by simp
    qed
  next
    case True
    obtain x f1 w1 where x: "fw_write sys f data off w = (x, f1, w1)" by (metis prod_cases3)
    have c: "case x of Inl r \<Rightarrow> write_done fd content r f1 w1 t e \<and> r \<noteq> FOk
      | Inr (d, o') \<Rightarrow> cache_state fd content (f1\<lparr>f_wwrite := False\<rparr>) d o' w1 t e"
      using fw_write_correct [OF "1.prems"(1,2) _ x] "1.prems"(4) True by simp
    show ?thesis
    proof (cases x)
      case (Inl q)
      with c x True "1.prems"(3) show ?thesis by (simp add: write_loop.simps [of sys f])
    next
      case (Inr p)
      obtain d o' where p: "p = (d, o')" by (cases p)
      have "write_loop sys (f1\<lparr>f_wwrite := False\<rparr>) d o' w1 = (r, f', w')"
        using "1.prems"(3) True x Inr p by (simp add: write_loop.simps [of sys f])
      then show ?thesis
        using "1.IH"(2) [OF _ x [symmetric] Inr p [symmetric] refl] True Inr p c "1.prems"(1,2) by simp
    qed
  qed
qed

section \<open>The operations\<close>

lemma file_inv_flags:
  "file_inv fd content f w \<Longrightarrow>
    \<not> has (f_flags f) FCOM_FILE_FAKEWRITE \<and> \<not> has (f_flags f) FCOM_FILE_NOCACHE"
  by (simp add: file_inv_def cached_flags_def)

lemma file_write_start:
  assumes "os_write_ok sys fd content" and "ffbase_ok sys" and inv: "file_inv fd content f w"
    and idle: "file_idle f" and gap: "\<not> fbuf_gap (f_wbuf f) (f_bufsize f) (cache_off f off)"
    and wr: "file_write sys f data off w = (r, f', w')"
  shows "write_done fd content r f' w' (overlay (file_view content f w) (cache_off f off) data)
    (cache_off f off + length data)"
proof (rule write_loop_correct [OF assms(1,2)])
  show "write_loop sys f data off w = (r, f', w')"
    using wr file_inv_flags [OF inv] by (simp add: file_write_def)
qed (use idle inv gap in \<open>auto simp: file_idle_def cache_state_def cache_input_def\<close>)

lemma file_write_resume:
  assumes "os_write_ok sys fd content" and "ffbase_ok sys" and inv: "file_inv fd content f w"
    and pend: "file_pending f" and wr: "file_write sys f data off w = (r, f', w')"
  shows "write_done fd content r f' w' (file_target content f w) (f_cur f + length (f_wuser f))"
proof (rule write_loop_correct [OF assms(1,2)])
  show "write_loop sys f data off w = (r, f', w')"
    using wr file_inv_flags [OF inv] by (simp add: file_write_def)
qed (use pend inv in \<open>auto simp: file_pending_def kernel_state_def file_target_def\<close>)

text \<open>
  The user's side of the contract: the same call is repeated while it returns
  \<open>FCOM_FILE_ASYNC\<close>, at most \<open>n\<close> times. The data passed again are ignored.
\<close>

fun write_retry ::
  "nat \<Rightarrow> ('w, 'i) sys \<Rightarrow> fobj \<Rightarrow> bytes \<Rightarrow> nat option \<Rightarrow> 'w \<Rightarrow> file_ret \<times> fobj \<times> 'w" where
  "write_retry n sys f data off w =
     (case file_write sys f data off w of
        (FAsync, f', w') \<Rightarrow> (if n = 0 then (FAsync, f', w') else write_retry (n - 1) sys f' data off w')
      | x \<Rightarrow> x)"

declare write_retry.simps [simp del]

lemma write_retry_resume:
  assumes "os_write_ok sys fd content" and "ffbase_ok sys"
  shows "file_inv fd content f w \<Longrightarrow> file_pending f \<Longrightarrow>
    write_retry n sys f data off w = (r, f', w') \<Longrightarrow>
    write_done fd content r f' w' (file_target content f w) (f_cur f + length (f_wuser f))"
proof (induction n arbitrary: f w)
  case (Suc n)
  obtain q f1 w1 where q: "file_write sys f data off w = (q, f1, w1)" by (metis prod_cases3)
  note d = file_write_resume [OF assms Suc.prems(1,2) q]
  show ?case
  proof (cases "q = FAsync")
    case True
    with d have "file_inv fd content f1 w1" "file_pending f1"
      "file_target content f1 w1 = file_target content f w"
      "f_cur f1 + length (f_wuser f1) = f_cur f + length (f_wuser f)"
      by (auto simp: write_done_def)
    moreover have "write_retry n sys f1 data off w1 = (r, f', w')"
      using Suc.prems(3) q True by (simp add: write_retry.simps [of "Suc n"])
    ultimately show ?thesis using Suc.IH [of f1 w1] by simp
  next
    case False
    then have "(r, f', w') = (q, f1, w1)"
      using Suc.prems(3) q by (simp add: write_retry.simps [of "Suc n"] split: file_ret.splits)
    with d show ?thesis by simp
  qed
next
  case 0
  obtain q f1 w1 where q: "file_write sys f data off w = (q, f1, w1)" by (metis prod_cases3)
  with 0 have "(r, f', w') = (q, f1, w1)"
    by (simp add: write_retry.simps [of 0] split: file_ret.splits)
  with file_write_resume [OF assms 0(1,2) q] show ?case by simp
qed

lemma write_retry_start:
  assumes "os_write_ok sys fd content" and "ffbase_ok sys" and "file_inv fd content f w"
    and "file_idle f" and "\<not> fbuf_gap (f_wbuf f) (f_bufsize f) (cache_off f off)"
    and wr: "write_retry n sys f data off w = (r, f', w')"
  shows "write_done fd content r f' w' (overlay (file_view content f w) (cache_off f off) data)
    (cache_off f off + length data)"
proof -
  obtain q f1 w1 where q: "file_write sys f data off w = (q, f1, w1)" by (metis prod_cases3)
  note d = file_write_start [OF assms(1-5) q]
  show ?thesis
  proof (cases "q = FAsync \<and> n \<noteq> 0")
    case True
    then have "write_retry (n - 1) sys f1 data off w1 = (r, f', w')"
      using wr q by (simp add: write_retry.simps [of n])
    from write_retry_resume [OF assms(1,2) _ _ this] d True show ?thesis
      by (auto simp: write_done_def [of _ _ FAsync])
  next
    case False
    then have "(r, f', w') = (q, f1, w1)"
      using wr q by (auto simp: write_retry.simps [of n] split: file_ret.splits)
    with d show ?thesis by simp
  qed
qed

section \<open>Flushing and closing\<close>

text \<open>
  With a kernel that makes progress the flush returns, and if it returns \<open>FOk\<close> the kernel has
  the data.
\<close>

lemma flush_loop_correct:
  assumes os: "os_write_ok sys fd content"
  shows "file_inv fd content f w \<Longrightarrow>
    \<exists>r f' w'. flush_loop sys f d off w = Some (r, f', w') \<and> file_inv fd content f' w' \<and>
      (r = FOk \<or> r = FAsync \<or> r = FErr) \<and>
      (r = FOk \<longrightarrow> f_wbuf f' = fbuf_clear (f_wbuf f) \<and>
        file_kernel content f' w' = overlay (file_kernel content f w) off d) \<and>
      (\<exists>n. r \<noteq> FOk \<longrightarrow> f_wbuf f' = f_wbuf f \<and>
        file_kernel content f' w' = overlay (file_kernel content f w) off (take n d)) \<and>
      f_flags f' = f_flags f"
proof (induction "length d" arbitrary: f d off w rule: less_induct)
  case less
  show ?case
  proof (cases "d = []")
    case True
    with less.prems show ?thesis
      by (auto simp: flush_loop.simps [of sys f] file_inv_def file_kernel_def fbuf_clear_wf)
  next
    case False
    obtain x f1 w1 where x: "f_write sys f d off w = (x, f1, w1)" by (metis prod_cases3)
    note c = f_write_correct [OF os less.prems False x]
    show ?thesis
    proof (cases x)
      case (Inl e)
      with c x False less.prems show ?thesis
        by (auto simp: flush_loop.simps [of sys f] file_inv_def file_kernel_def intro!: exI [of _ 0])
    next
      case (Inr r)
      have r: "0 < r" "r \<le> length d" "file_inv fd content f1 w1"
        and k: "file_kernel content f1 w1 = overlay (file_kernel content f w) off (take r d)"
        using c Inr by auto
      have fr: "f_wbuf f1 = f_wbuf f" "f_flags f1 = f_flags f"
        using f_write_frame [OF x] by (auto simp: same_cache_def)
      have sp: "overlay (overlay (file_kernel content f w) off (take r d)) (off + r) (take n (drop r d)) =
          overlay (file_kernel content f w) off (take (r + n) d)" for n
        using overlay_split [of "file_kernel content f w" off "take r d" "take n (drop r d)"] r(2)
        by (simp add: take_add min_absorb2)
      have sp': "overlay (overlay (file_kernel content f w) off (take r d)) (off + r) (drop r d) =
          overlay (file_kernel content f w) off d"
        using sp [of "length d"] r(2) by simp
      have "length (drop r d) < length d" using r by simp
      from less.hyps [OF this r(3), of "off + r"] obtain q f' w' n where
        "flush_loop sys f1 (drop r d) (off + r) w1 = Some (q, f', w')" "file_inv fd content f' w'"
        "q = FOk \<or> q = FAsync \<or> q = FErr"
        "q = FOk \<longrightarrow> f_wbuf f' = fbuf_clear (f_wbuf f1) \<and>
          file_kernel content f' w' = overlay (file_kernel content f1 w1) (off + r) (drop r d)"
        "q \<noteq> FOk \<longrightarrow> f_wbuf f' = f_wbuf f1 \<and>
          file_kernel content f' w' = overlay (file_kernel content f1 w1) (off + r) (take n (drop r d))"
        "f_flags f' = f_flags f1"
        by auto
      with False x Inr fr sp [of n] sp' k show ?thesis
        by (intro exI [of _ q] exI [of _ f'] exI [of _ w'])
          (auto simp: flush_loop.simps [of sys f] intro!: exI [of _ "r + n"])
    qed
  qed
qed

lemma fbuf_view_take: "overlay (overlay c i (take n d)) i d = overlay c i d"
proof (cases "take n d = []")
  case True
  then show ?thesis by (simp only: overlay_Nil)
next
  case False
  then show ?thesis by (simp add: overlay_overlay)
qed

lemma file_flush_correct:
  assumes os: "os_write_ok sys fd content" and inv: "file_inv fd content f w"
  shows "\<exists>r f' w'. file_flush sys f w = Some (r, f', w') \<and> file_inv fd content f' w' \<and>
    (r = FOk \<or> r = FAsync \<or> r = FErr) \<and> f_flags f' = f_flags f \<and>
    file_view content f' w' = file_view content f w \<and>
    (r = FOk \<longrightarrow> file_kernel content f' w' = file_view content f w)"
proof -
  obtain r f' w' n where "flush_loop sys f (fbuf_data (f_wbuf f)) (fb_off (f_wbuf f)) w = Some (r, f', w')"
    "file_inv fd content f' w'" "r = FOk \<or> r = FAsync \<or> r = FErr" "f_flags f' = f_flags f"
    "r = FOk \<longrightarrow> f_wbuf f' = fbuf_clear (f_wbuf f) \<and>
      file_kernel content f' w' = file_view content f w"
    "r \<noteq> FOk \<longrightarrow> f_wbuf f' = f_wbuf f \<and> file_kernel content f' w' =
      overlay (file_kernel content f w) (fb_off (f_wbuf f)) (take n (fbuf_data (f_wbuf f)))"
    using flush_loop_correct [OF os inv, of "fbuf_data (f_wbuf f)" "fb_off (f_wbuf f)"]
    by (auto simp: file_view_def fbuf_view_def)
  then show ?thesis
    by (cases "r = FOk")
      (auto simp: file_flush_def file_view_def [of _ f'] fbuf_view_def [of "f_wbuf f"]
        file_view_def [of _ f] fbuf_view_take)
qed

lemma f_write_accepts:
  assumes "os_accepts sys fd" and "f_fd f = Some fd" and "cached_flags (f_flags f)"
    and "f_write sys f d off w = (x, f', w')"
  shows "\<exists>r. x = Inr r"
proof -
  obtain r w1 where r: "fs_writeat sys (Some fd) d off w = (r, w1)" by fastforce
  then obtain n where "r = Some n"
    using assms(1) by (cases r) (auto simp: os_accepts_def dest!: spec [of _ d] spec [of _ off] spec [of _ w])
  with r assms(2-4) show ?thesis
    by (auto simp: f_write_def cached_flags_def Let_def)
qed

lemma flush_loop_accepts:
  assumes os: "os_write_ok sys fd content" and acc: "os_accepts sys fd"
  shows "file_inv fd content f w \<Longrightarrow> flush_loop sys f d off w = Some (r, f', w') \<Longrightarrow> r = FOk"
proof (induction "length d" arbitrary: f d off w rule: less_induct)
  case less
  show ?case
  proof (cases "d = []")
    case True
    with less.prems show ?thesis by (simp add: flush_loop.simps [of sys f])
  next
    case False
    obtain x f1 w1 where x: "f_write sys f d off w = (x, f1, w1)" by (metis prod_cases3)
    with f_write_accepts [OF acc _ _ x] less.prems(1) obtain n where n: "x = Inr n"
      by (auto simp: file_inv_def)
    with f_write_correct [OF os less.prems(1) False x]
    have "length (drop n d) < length d" "file_inv fd content f1 w1" by auto
    moreover have "flush_loop sys f1 (drop n d) (off + n) w1 = Some (r, f', w')"
      using less.prems(2) False x n by (simp add: flush_loop.simps [of sys f])
    ultimately show ?thesis using less.hyps by blast
  qed
qed

lemma prealloc_trunc_correct:
  assumes os: "os_write_ok sys fd content" and acc: "os_accepts sys fd" and inv: "file_inv fd content f w"
  shows "content (snd (prealloc_trunc sys f w)) = file_kernel content f w"
proof -
  have k: "kernel_inv (f_size f) (w_prealloc f) (content w)" and fd: "f_fd f = Some fd"
    using inv by (auto simp: file_inv_def)
  show ?thesis
  proof (cases "w_prealloc f \<le> f_size f")
    case True
    with k show ?thesis by (auto simp: prealloc_trunc_def file_kernel_def kernel_inv_def)
  next
    case False
    obtain ok w1 where t: "fs_trunc sys (Some fd) (f_size f) w = (ok, w1)" by fastforce
    moreover have ok using acc t by (auto simp: os_accepts_def dest!: spec [of _ "f_size f"] spec [of _ w])
    ultimately show ?thesis
      using os_writeD(3) [OF os] kernel_inv_cut(1) [OF k] fd False
      by (auto simp: prealloc_trunc_def file_kernel_def)
  qed
qed

lemma file_close_correct:
  assumes os: "os_write_ok sys fd content" and acc: "os_accepts sys fd" and meta: "os_meta_ok sys content"
    and inv: "file_inv fd content f w"
  shows "\<exists>f' w'. file_close sys f w = Some (f', w') \<and> f_fd f' = None \<and>
    content w' = file_view content f w"
proof -
  obtain r f1 w1 where fl: "file_flush sys f w = Some (r, f1, w1)" "file_inv fd content f1 w1"
    "r = FOk \<longrightarrow> file_kernel content f1 w1 = file_view content f w"
    using file_flush_correct [OF os inv] by blast
  have "r = FOk"
    using flush_loop_accepts [OF os acc inv] fl(1) by (simp add: file_flush_def)
  obtain f2 w2 where p: "prealloc_trunc sys f1 w1 = (f2, w2)" by fastforce
  with prealloc_trunc_correct [OF os acc fl(2)] fl(3) \<open>r = FOk\<close>
  have "content w2 = file_view content f w" by simp
  moreover have "content (mtime_set sys f2 w2) = content w2"
    using meta by (auto simp: mtime_set_def os_meta_ok_def)
  ultimately show ?thesis
    using inv fl(1) p meta by (auto simp: file_close_def file_inv_def os_meta_ok_def cached_flags_def)
qed

section \<open>Progress\<close>

text \<open>
  With a kernel that accepts every call a write never fails, and each \<open>FCOM_FILE_ASYNC\<close> leaves
  fewer bytes to write.
\<close>

definition write_left :: "fobj \<Rightarrow> bytes \<Rightarrow> nat" where
  "write_left f data =
     (if f_wwrite f then length (if w_async f then w_buf f else data) + length (f_wuser f)
      else fb_len (f_wbuf f) + length (cache_input f data))"

lemma fbuf_write_length:
  assumes "fbuf_wf cap b" and "\<not> fbuf_gap b cap off"
    and "fbuf_write b cap inp off = (b', rest, Some (woff, d))"
  shows "length d + length rest \<le> fb_len b + length inp"
  using assms by (auto simp: fbuf_write_def fbuf_wf_def fbuf_gap_def fbuf_data_def Let_def split: if_splits)

lemma fw_cache_left:
  assumes st: "cache_state fd content f data off w t e" and c: "fw_cache f data off = (Inr (d, o'), f')"
  shows "write_left (f'\<lparr>f_wwrite := True\<rparr>) d \<le> write_left f data"
proof -
  define f1 where "f1 = (if f_wcont f then f\<lparr>f_wcont := False, f_wuser := []\<rparr> else f)"
  obtain b rest out where bw:
    "fbuf_write (f_wbuf f) (f_bufsize f) (cache_input f data) (cache_off f off) = (b, rest, out)"
    by (metis prod_cases3)
  have f1: "f_wbuf f1 = f_wbuf f" "f_bufsize f1 = f_bufsize f" "w_async f1 = w_async f"
    by (auto simp: f1_def)
  have "out = Some (the o', d) \<and> f_wuser f' = rest \<and> w_async f' = w_async f"
    using c bw unfolding fw_cache_def
    by (auto simp: Let_def f1_def [symmetric] f1 cache_input_def cache_off_def split: option.splits if_splits)
  moreover have "fbuf_wf (f_bufsize f) (f_wbuf f)" "\<not> fbuf_gap (f_wbuf f) (f_bufsize f) (cache_off f off)"
    "\<not> f_wwrite f" "\<not> w_async f"
    using st by (auto simp: cache_state_def file_inv_def)
  ultimately show ?thesis
    using fbuf_write_length [of "f_bufsize f" "f_wbuf f"] bw by (auto simp: write_left_def)
qed

lemma fw_write_left:
  assumes os: "os_write_ok sys fd content" and ff: "ffbase_ok sys" and acc: "os_accepts sys fd"
    and st: "kernel_state fd content f data off w t e" and wr: "fw_write sys f data off w = (x, f', w')"
  shows "case x of
      Inl r \<Rightarrow> r = FAsync \<and> write_left f' data' < write_left f data
    | Inr (d, o') \<Rightarrow> write_left (f'\<lparr>f_wwrite := False\<rparr>) d \<le> write_left f data"
proof -
  define d where "d = (if w_async f then w_buf f else data)"
  define o1 where "o1 = (if w_async f then w_off f else the off)"
  define f1 where "f1 = (if w_async f then f\<lparr>w_async := False, w_buf := []\<rparr> else f)"
  have st': "file_inv fd content f w" "f_wwrite f" "f_wcont f" "fb_len (f_wbuf f) = 0"
    "w_async f \<or> off \<noteq> None" "d \<noteq> []"
    using st by (auto simp: kernel_state_def d_def o1_def Let_def)
  obtain f2 w2 where p: "fw_prealloc sys f1 (o1 + length d) w = (f2, w2)" by fastforce
  obtain y f3 w3 where y: "f_write sys f2 d o1 w2 = (y, f3, w3)" by (metis prod_cases3)
  have inv1: "file_inv fd content f1 w"
    using st'(1) by (auto simp: f1_def file_inv_def)
  note inv2 = fw_prealloc_correct(1) [OF os ff inv1 p]
  obtain r where r: "y = Inr r"
    using f_write_accepts [OF acc _ _ y] inv2 by (auto simp: file_inv_def)
  with f_write_correct [OF os inv2 st'(6) y] have n: "0 < r" "r \<le> length d" by auto
  have fr: "same_cache f f3" "w_async f3 = w_async f1"
    using fw_prealloc_frame [OF p] f_write_frame [OF y]
    by (auto simp: f1_def same_cache_def split: if_splits)
  have x: "fw_write sys f data off w =
      (if r \<noteq> length d then (Inl FAsync, f3\<lparr>w_off := o1 + r, w_buf := drop r d, w_async := True\<rparr>, w3)
        else (Inr ([], off), f3\<lparr>w_off := o1 + r\<rparr>, w3))"
    using p y r st'(5)
    by (auto simp: fw_write_def d_def [symmetric] o1_def [symmetric] f1_def [symmetric])
  have "write_left f data = length d + length (f_wuser f)"
    using st'(2) by (simp add: write_left_def d_def)
  with x wr n fr st' show ?thesis
    by (auto simp: write_left_def same_cache_def cache_input_def split: if_splits)
qed

lemma write_loop_progress:
  assumes "os_write_ok sys fd content" and "ffbase_ok sys" and "os_accepts sys fd"
    and "write_loop sys f data off w = (r, f', w')"
    and "if f_wwrite f then kernel_state fd content f data off w t e
      else cache_state fd content f data off w t e"
  shows "r = FOk \<or> r = FAsync \<and> write_left f' data' < write_left f data"
  using assms
proof (induction sys f data off w rule: write_loop.induct)
  case (1 sys f data off w)
  show ?case
  proof (cases "f_wwrite f")
    case False
    obtain x f1 where x: "fw_cache f data off = (x, f1)" by fastforce
    have cs: "cache_state fd content f data off w t e" using "1.prems"(5) False by simp
    show ?thesis
    proof (cases x)
      case (Inl q)
      with fw_cache_correct [OF cs x] x False "1.prems"(4) show ?thesis
        by (simp add: write_loop.simps [of sys f])
    next
      case (Inr p)
      obtain d o' where p: "p = (d, o')" by (cases p)
      have "write_loop sys (f1\<lparr>f_wwrite := True\<rparr>) d o' w = (r, f', w')"
        using "1.prems"(4) False x Inr p by (simp add: write_loop.simps [of sys f])
      then show ?thesis
        using "1.IH"(1) [OF False x [symmetric] Inr p [symmetric]] fw_cache_correct [OF cs x]
          fw_cache_left [OF cs, of d o' f1] x Inr p "1.prems"(1-3) by auto
    qed
  next
    case True
    obtain x f1 w1 where x: "fw_write sys f data off w = (x, f1, w1)" by (metis prod_cases3)
    have ks: "kernel_state fd content f data off w t e" using "1.prems"(5) True by simp
    note le = fw_write_left [OF "1.prems"(1-3) ks x, of data']
    note co = fw_write_correct [OF "1.prems"(1,2) ks x]
    show ?thesis
    proof (cases x)
      case (Inl q)
      with le x True "1.prems"(4) show ?thesis by (simp add: write_loop.simps [of sys f])
    next
      case (Inr p)
      obtain d o' where p: "p = (d, o')" by (cases p)
      have "write_loop sys (f1\<lparr>f_wwrite := False\<rparr>) d o' w1 = (r, f', w')"
        using "1.prems"(4) True x Inr p by (simp add: write_loop.simps [of sys f])
      then show ?thesis
        using "1.IH"(2) [OF _ x [symmetric] Inr p [symmetric] refl] True Inr p co le "1.prems"(1-3) by auto
    qed
  qed
qed

lemma write_retry_FOk_resume:
  assumes "os_write_ok sys fd content" and "ffbase_ok sys" and "os_accepts sys fd"
  shows "file_inv fd content f w \<Longrightarrow> file_pending f \<Longrightarrow> write_left f data \<le> n \<Longrightarrow>
    fst (write_retry n sys f data off w) = FOk"
proof (induction n arbitrary: f w)
  case (Suc n)
  obtain q f1 w1 where q: "file_write sys f data off w = (q, f1, w1)" by (metis prod_cases3)
  have "q = FOk \<or> q = FAsync \<and> write_left f1 data < write_left f data"
  proof (rule write_loop_progress [OF assms])
    show "write_loop sys f data off w = (q, f1, w1)"
      using q file_inv_flags [OF Suc.prems(1)] by (simp add: file_write_def)
    show "if f_wwrite f then kernel_state fd content f data off w (file_target content f w)
        (f_cur f + length (f_wuser f)) else cache_state fd content f data off w (file_target content f w)
        (f_cur f + length (f_wuser f))"
      using Suc.prems by (auto simp: file_pending_def kernel_state_def file_target_def)
  qed
  with file_write_resume [OF assms(1,2) Suc.prems(1,2) q] Suc.IH [of f1 w1] Suc.prems(3) q show ?case
    by (auto simp: write_done_def write_retry.simps [of "Suc n"])
qed (auto simp: write_left_def file_pending_def)

lemma write_retry_FOk:
  assumes "os_write_ok sys fd content" and "ffbase_ok sys" and "os_accepts sys fd"
    and "file_inv fd content f w" and "file_idle f"
    and "\<not> fbuf_gap (f_wbuf f) (f_bufsize f) (cache_off f off)"
    and n: "fb_len (f_wbuf f) + length data \<le> n"
  shows "fst (write_retry n sys f data off w) = FOk"
proof -
  obtain q f1 w1 where q: "file_write sys f data off w = (q, f1, w1)" by (metis prod_cases3)
  have "q = FOk \<or> q = FAsync \<and> write_left f1 data < write_left f data"
  proof (rule write_loop_progress [OF assms(1-3)])
    show "write_loop sys f data off w = (q, f1, w1)"
      using q file_inv_flags [OF assms(4)] by (simp add: file_write_def)
  qed (use assms in \<open>auto simp: file_idle_def cache_state_def cache_input_def\<close>)
  moreover have "write_left f data \<le> n"
    using n assms(5) by (auto simp: write_left_def file_idle_def cache_input_def)
  moreover have "write_done fd content q f1 w1 (overlay (file_view content f w) (cache_off f off) data)
      (cache_off f off + length data)"
    by (rule file_write_start [OF assms(1,2,4,5,6) q])
  ultimately show ?thesis
    using q write_retry_FOk_resume [OF assms(1-3), of f1 w1 data "n - 1" off]
    by (auto simp: write_done_def write_retry.simps [of n])
qed

section \<open>Writing a file from start to end\<close>

text \<open>The valid bytes of the cache end at the current offset or after it.\<close>

definition cache_tail :: "fobj \<Rightarrow> bool" where
  "cache_tail f \<longleftrightarrow> fb_len (f_wbuf f) = 0 \<or> f_cur f \<le> fb_off (f_wbuf f) + fb_len (f_wbuf f)"

lemma fw_cache_tail:
  assumes "fw_cache f data off = (Inl r, f')"
    and "fb_len (f_wbuf f) \<noteq> 0 \<longrightarrow> cache_off f off \<le> fb_off (f_wbuf f) + fb_len (f_wbuf f)"
  shows "cache_tail f'"
proof -
  obtain b rest out where bw:
    "fbuf_write (f_wbuf f) (f_bufsize f) (cache_input f data) (cache_off f off) = (b, rest, out)"
    by (metis prod_cases3)
  have "fbuf_write (f_wbuf f) (f_bufsize f) (cache_input f data) (cache_off f off) = (b, rest, None) \<and>
      f_wbuf f' = b \<and> f_cur f' = cache_off f off + (length (cache_input f data) - length rest)"
    using assms(1) bw by (auto simp: fw_cache_def cache_input_def cache_off_def Let_def
        split: option.splits if_splits)
  then show ?thesis
    using assms(2) by (auto simp: cache_tail_def fbuf_write_def Let_def split: if_splits)
qed

lemma write_loop_tail:
  assumes "write_loop sys f data off w = (r, f', w')"
    and "if f_wwrite f then fb_len (f_wbuf f) = 0
      else fb_len (f_wbuf f) \<noteq> 0 \<longrightarrow> cache_off f off \<le> fb_off (f_wbuf f) + fb_len (f_wbuf f)"
  shows "cache_tail f'"
  using assms
proof (induction sys f data off w rule: write_loop.induct)
  case (1 sys f data off w)
  show ?case
  proof (cases "f_wwrite f")
    case False
    obtain x f1 where x: "fw_cache f data off = (x, f1)" by fastforce
    show ?thesis
    proof (cases x)
      case (Inl q)
      with fw_cache_tail [of f data off q f1] x False "1.prems" show ?thesis
        by (simp add: write_loop.simps [of sys f])
    next
      case (Inr p)
      obtain d o' where p: "p = (d, o')" by (cases p)
      have "write_loop sys (f1\<lparr>f_wwrite := True\<rparr>) d o' w = (r, f', w')"
        using "1.prems"(1) False x Inr p by (simp add: write_loop.simps [of sys f])
      then show ?thesis
        using "1.IH"(1) [OF False x [symmetric] Inr p [symmetric]] fw_cache_Inr [of f data off d o' f1] x Inr p
        by simp
    qed
  next
    case True
    obtain x f1 w1 where x: "fw_write sys f data off w = (x, f1, w1)" by (metis prod_cases3)
    have fr: "fb_len (f_wbuf f1) = 0"
      using fw_write_frame [OF x] "1.prems"(2) True by (simp add: same_cache_def)
    show ?thesis
    proof (cases x)
      case (Inl q)
      with fr x True "1.prems"(1) show ?thesis by (simp add: write_loop.simps [of sys f] cache_tail_def)
    next
      case (Inr p)
      obtain d o' where p: "p = (d, o')" by (cases p)
      have "write_loop sys (f1\<lparr>f_wwrite := False\<rparr>) d o' w1 = (r, f', w')"
        using "1.prems"(1) True x Inr p by (simp add: write_loop.simps [of sys f])
      then show ?thesis
        using "1.IH"(2) [OF _ x [symmetric] Inr p [symmetric] refl] True fr by simp
    qed
  qed
qed

lemma write_retry_tail:
  assumes "os_write_ok sys fd content" and "ffbase_ok sys"
  shows "file_inv fd content f w \<Longrightarrow>
    file_pending f \<or> file_idle f \<and> off = None \<and> cache_tail f \<Longrightarrow>
    write_retry n sys f data off w = (r, f', w') \<Longrightarrow> cache_tail f'"
proof (induction n arbitrary: f w)
  case (Suc n)
  obtain q f1 w1 where q: "file_write sys f data off w = (q, f1, w1)" by (metis prod_cases3)
  have t: "cache_tail f1"
  proof (rule write_loop_tail)
    show "write_loop sys f data off w = (q, f1, w1)"
      using q file_inv_flags [OF Suc.prems(1)] by (simp add: file_write_def)
  qed (use Suc.prems(2) in \<open>auto simp: file_pending_def file_idle_def cache_tail_def cache_off_def\<close>)
  have gap: "file_idle f \<Longrightarrow> \<not> fbuf_gap (f_wbuf f) (f_bufsize f) (cache_off f off)"
    using Suc.prems(2) by (auto simp: file_pending_def file_idle_def cache_tail_def cache_off_def fbuf_gap_def)
  have d: "\<exists>t e. write_done fd content q f1 w1 t e"
    using file_write_start [OF assms Suc.prems(1) _ gap q] file_write_resume [OF assms Suc.prems(1) _ q]
      Suc.prems(2) by blast
  show ?case
  proof (cases "q = FAsync")
    case True
    with d have "file_inv fd content f1 w1" "file_pending f1" by (auto simp: write_done_def)
    then show ?thesis
      using Suc.IH [of f1 w1] Suc.prems(3) q True by (simp add: write_retry.simps [of "Suc n"])
  next
    case False
    then show ?thesis
      using t q Suc.prems(3) by (auto simp: write_retry.simps [of "Suc n"] split: file_ret.splits)
  qed
next
  case 0
  obtain q f1 w1 where q: "file_write sys f data off w = (q, f1, w1)" by (metis prod_cases3)
  have t: "cache_tail f1"
  proof (rule write_loop_tail)
    show "write_loop sys f data off w = (q, f1, w1)"
      using q file_inv_flags [OF 0(1)] by (simp add: file_write_def)
  qed (use 0(2) in \<open>auto simp: file_pending_def file_idle_def cache_tail_def cache_off_def\<close>)
  then show ?case
    using q 0(3) by (auto simp: write_retry.simps [of 0] split: file_ret.splits)
qed

lemma fw_cache_bufsize: "fw_cache f data off = (x, f') \<Longrightarrow> f_bufsize f' = f_bufsize f \<and> f_flags f' = f_flags f"
  by (auto simp: fw_cache_def Let_def split: prod.splits option.splits if_splits)

lemma write_loop_bufsize: "write_loop sys f data off w = (r, f', w') \<Longrightarrow> f_bufsize f' = f_bufsize f"
proof (induction sys f data off w rule: write_loop.induct)
  case (1 sys f data off w)
  show ?case
  proof (cases "f_wwrite f")
    case False
    obtain x f1 where x: "fw_cache f data off = (x, f1)" by fastforce
    with 1 False fw_cache_bufsize [OF x] show ?thesis
      by (auto simp: write_loop.simps [of sys f] split: sum.splits)
  next
    case True
    obtain x f1 w1 where x: "fw_write sys f data off w = (x, f1, w1)" by (metis prod_cases3)
    with 1 True fw_write_frame [OF x] show ?thesis
      by (auto simp: write_loop.simps [of sys f] same_cache_def split: sum.splits)
  qed
qed

lemma file_write_bufsize: "file_write sys f data off w = (r, f', w') \<Longrightarrow> f_bufsize f' = f_bufsize f"
  by (auto simp: file_write_def Let_def same_cache_def
      dest!: write_loop_bufsize fw_write_frame split: if_splits prod.splits sum.splits)

lemma write_retry_bufsize: "write_retry n sys f data off w = (r, f', w') \<Longrightarrow> f_bufsize f' = f_bufsize f"
proof (induction n arbitrary: f w)
  case (Suc n)
  obtain q f1 w1 where q: "file_write sys f data off w = (q, f1, w1)" by (metis prod_cases3)
  with Suc file_write_bufsize [OF q] show ?case
    by (auto simp: write_retry.simps [of "Suc n"] split: file_ret.splits)
next
  case 0
  obtain q f1 w1 where q: "file_write sys f data off w = (q, f1, w1)" by (metis prod_cases3)
  with 0 file_write_bufsize [OF q] show ?case
    by (auto simp: write_retry.simps [of 0] split: file_ret.splits)
qed

text \<open>
  A producer that appends the chunks \<open>ds\<close>, each retried while the kernel is busy;
  \<^const>\<open>None\<close> if a write did not end with \<open>FCOM_FILE_OK\<close>.
\<close>

fun write_chunks :: "nat \<Rightarrow> ('w, 'i) sys \<Rightarrow> fobj \<Rightarrow> bytes list \<Rightarrow> 'w \<Rightarrow> (fobj \<times> 'w) option" where
  "write_chunks n sys f [] w = Some (f, w)"
| "write_chunks n sys f (d # ds) w =
     (case write_retry n sys f d None w of
        (FOk, f', w') \<Rightarrow> write_chunks n sys f' ds w'
      | _ \<Rightarrow> None)"

text \<open>Appending: the current offset is the end of the visible file.\<close>

definition appending :: "nat \<Rightarrow> ('w \<Rightarrow> bytes) \<Rightarrow> fobj \<Rightarrow> 'w \<Rightarrow> bool" where
  "appending fd content f w \<longleftrightarrow>
     file_inv fd content f w \<and> file_idle f \<and> cache_tail f \<and> f_cur f = length (file_view content f w)"

lemma appending_gap: "appending fd content f w \<Longrightarrow> \<not> fbuf_gap (f_wbuf f) (f_bufsize f) (cache_off f None)"
  by (auto simp: appending_def cache_tail_def fbuf_gap_def cache_off_def)

lemma write_retry_appending:
  assumes "os_write_ok sys fd content" and "ffbase_ok sys" and "os_accepts sys fd"
    and a: "appending fd content f w" and n: "fb_len (f_wbuf f) + length d \<le> n"
  shows "\<exists>f' w'. write_retry n sys f d None w = (FOk, f', w') \<and> appending fd content f' w' \<and>
    file_view content f' w' = file_view content f w @ d"
proof -
  have inv: "file_inv fd content f w" "file_idle f" "cache_tail f" "f_cur f = length (file_view content f w)"
    using a by (auto simp: appending_def)
  obtain r f' w' where wr: "write_retry n sys f d None w = (r, f', w')" by (metis prod_cases3)
  have r: "r = FOk"
    using write_retry_FOk [OF assms(1-3) inv(1,2) appending_gap [OF a] n] wr by simp
  have off: "cache_off f None = f_cur f" by (simp add: cache_off_def)
  have "write_done fd content FOk f' w' (file_view content f w @ d) (f_cur f + length d)"
    using write_retry_start [OF assms(1,2) inv(1,2) appending_gap [OF a] wr] inv(4) r off
    by (simp add: overlay_append)
  moreover have "cache_tail f'"
    using write_retry_tail [OF assms(1,2) inv(1) _ wr] inv by simp
  ultimately show ?thesis
    using wr r inv(4) by (auto simp: appending_def write_done_def)
qed

lemma write_chunks_correct:
  assumes "os_write_ok sys fd content" and "ffbase_ok sys" and "os_accepts sys fd"
  shows "appending fd content f w \<Longrightarrow> \<forall>d \<in> set ds. f_bufsize f + length d \<le> n \<Longrightarrow>
    \<exists>f' w'. write_chunks n sys f ds w = Some (f', w') \<and> appending fd content f' w' \<and>
      file_view content f' w' = file_view content f w @ concat ds"
proof (induction ds arbitrary: f w)
  case (Cons d ds)
  have l: "fb_len (f_wbuf f) \<le> f_bufsize f"
    using Cons.prems(1) by (auto simp: appending_def file_inv_def fbuf_wf_def)
  with Cons.prems(2) have "fb_len (f_wbuf f) + length d \<le> n" by auto
  from write_retry_appending [OF assms Cons.prems(1) this] obtain f1 w1 where
    1: "write_retry n sys f d None w = (FOk, f1, w1)" "appending fd content f1 w1"
      "file_view content f1 w1 = file_view content f w @ d" by blast
  have "f_bufsize f1 = f_bufsize f"
    using write_retry_bufsize [OF 1(1)] .
  with Cons.IH [OF 1(2)] 1 Cons.prems(2) show ?case by auto
qed simp

end
