(* ===== verification/FileRead.thy ===== *)
theory FileRead
  imports FileIO
begin

text \<open>
  Reading through the ring of buffers of \<^theory_text>\<open>FileIO\<close>: every valid byte of the ring is a byte
  of the file, so a read returns the file's bytes at the offset whether it hits the cache or not,
  and reading on from the start returns the whole file.
\<close>

section \<open>The cache invariant\<close>

definition read_inv :: "('w, 'i) sys \<Rightarrow> ('w \<Rightarrow> bytes) \<Rightarrow> fobj \<Rightarrow> 'w \<Rightarrow> bool" where
  "read_inv sys content f w \<longleftrightarrow>
     \<not> has (f_flags f) FCOM_FILE_STDIN \<and> ALIGN \<le> f_bufsize f \<and>
     fbufset_coherent (content w) (f_bufset f) \<and>
     (\<forall>b \<in> set (bufs (f_bufset f)). length (fb_ptr b) = f_bufsize f)"

definition read_off :: "fobj \<Rightarrow> nat option \<Rightarrow> nat" where
  "read_off f off = (case off of None \<Rightarrow> f_cur f | Some n \<Rightarrow> n)"

lemma ALIGN_pos: "0 < ALIGN"
  by (simp add: ALIGN_def)

lemma take_min_drop: "take (min (length c - k) n) (drop k c) = take n (drop k c)"
  by (simp add: min_def)

lemma fill_coherent:
  assumes "length p = n" and "d = take n (drop o1 c)"
  shows "fbuf_coherent c \<lparr>fb_len = length d, fb_ptr = mem_write p 0 d, fb_off = o1\<rparr>"
    and "fbuf_data \<lparr>fb_len = length d, fb_ptr = mem_write p 0 d, fb_off = o1\<rparr> = d"
  using assms by (auto simp: fbuf_coherent_def fbuf_data_def mem_write_def min_def)

text \<open>The end of \<open>file_read\<close>, for a buffer that holds the data around the offset.\<close>

definition read_result :: "bytes \<Rightarrow> nat \<Rightarrow> file_ret \<Rightarrow> bytes \<Rightarrow> bool" where
  "read_result c off r d \<longleftrightarrow>
     d = take (length d) (drop off c) \<and>
     (if d = [] then r = FEof \<and> off = length c else r = FOk)"

lemma read_hit:
  assumes ff: "ffbase_ok sys" and c: "fbuf_coherent c b" and cov: "fbuf_covers b off"
  shows "read_result c off (if str_shift sys (off - fb_off b) (fbuf_data b) = [] then FEof else FOk)
      (str_shift sys (off - fb_off b) (fbuf_data b))"
    and "fb_off b + fb_len b = off + length (str_shift sys (off - fb_off b) (fbuf_data b))"
proof -
  have l: "length (fbuf_data b) = fb_len b"
    using conjunct1 [OF c [unfolded fbuf_coherent_def]] by (simp add: fbuf_data_def)
  have lt: "off - fb_off b < length (fbuf_data b)" and le: "fb_off b \<le> off"
    using cov l by (auto simp: fbuf_covers_def)
  then have s: "str_shift sys (off - fb_off b) (fbuf_data b) = drop (off - fb_off b) (fbuf_data b)"
    by (intro ffbaseD(4) [OF ff]) simp
  have ne: "drop (off - fb_off b) (fbuf_data b) \<noteq> []"
    using lt by simp
  have t: "drop (off - fb_off b) (fbuf_data b) = take (length (drop (off - fb_off b) (fbuf_data b))) (drop off c)"
    using fbuf_coherent_hit [OF c cov] l le by (simp add: algebra_simps take_min_drop)
  show "read_result c off (if str_shift sys (off - fb_off b) (fbuf_data b) = [] then FEof else FOk)
      (str_shift sys (off - fb_off b) (fbuf_data b))"
    unfolding s read_result_def using t ne by presburger
  show "fb_off b + fb_len b = off + length (str_shift sys (off - fb_off b) (fbuf_data b))"
    using s l lt le by simp
qed

lemma read_miss:
  assumes ff: "ffbase_ok sys" and n: "ALIGN \<le> n" and off: "off \<le> length c"
    and d: "d = take n (drop (off - off mod ALIGN) c)"
  shows "read_result c off (if str_shift sys (off mod ALIGN) d = [] then FEof else FOk)
      (str_shift sys (off mod ALIGN) d)"
    and "off - off mod ALIGN + length d = off + length (str_shift sys (off mod ALIGN) d)"
proof -
  have m: "off mod ALIGN < ALIGN" "off mod ALIGN \<le> off"
    using ALIGN_pos by auto
  have l: "off mod ALIGN \<le> length d" using d m n off by (simp add: min_def, arith)
  then have s: "str_shift sys (off mod ALIGN) d = drop (off mod ALIGN) d"
    by (rule ffbaseD(4) [OF ff])
  have e: "drop (off mod ALIGN) d = take (n - off mod ALIGN) (drop off c)"
    using m by (simp add: d drop_take)
  have z: "0 < n - off mod ALIGN" using m n by simp
  show "read_result c off (if str_shift sys (off mod ALIGN) d = [] then FEof else FOk)
      (str_shift sys (off mod ALIGN) d)"
    unfolding s e read_result_def using z off by (auto simp: take_min_drop)
  show "off - off mod ALIGN + length d = off + length (str_shift sys (off mod ALIGN) d)"
    using s l m by simp
qed

lemma read_ring_update:
  assumes "read_inv sys content f w" and "fbuf_coherent (content w) b" and "length (fb_ptr b) = f_bufsize f"
    and "i < length (bufs (f_bufset f))"
  shows "fbufset_coherent (content w) ((f_bufset f)\<lparr>bufs := (bufs (f_bufset f))[i := b]\<rparr>) \<and>
    (\<forall>b \<in> set ((bufs (f_bufset f))[i := b]). length (fb_ptr b) = f_bufsize f)"
  using assms set_update_subset_insert [of "bufs (f_bufset f)" i b]
  by (auto simp: read_inv_def fbufset_coherent_def)

section \<open>One read\<close>

definition read_post ::
  "('w, 'i) sys \<Rightarrow> ('w \<Rightarrow> bytes) \<Rightarrow> bytes \<Rightarrow> nat \<Rightarrow> (file_ret \<times> bytes) \<times> fobj \<times> 'w \<Rightarrow> bool" where
  "read_post sys content c off x \<longleftrightarrow>
     (case x of ((r, d), f', w') \<Rightarrow>
        content w' = c \<and> read_inv sys content f' w' \<and>
        (read_result c off r d \<and> f_cur f' = off + length d \<or> (r = FAsync \<or> r = FErr) \<and> d = []))"

lemma file_read_hit:
  assumes ff: "ffbase_ok sys" and inv: "read_inv sys content f w"
    and h: "fbufset_find (f_bufset f) (read_off f off0) = (Some i, bset)"
  shows "read_post sys content (content w) (read_off f off0) (file_read sys f off0 w)"
proof -
  have b: "bufs bset = bufs (f_bufset f)" "bidx bset = bidx (f_bufset f)"
    and i: "i < length (bufs bset)" "fbuf_covers (bufs bset ! i) (read_off f off0)"
    using h by (auto simp: fbufset_find_def split: option.splits dest: find_index_Some)
  then have c: "fbuf_coherent (content w) (bufs bset ! i)"
    using inv by (auto simp: read_inv_def fbufset_coherent_def)
  have "read_inv sys content (f\<lparr>f_bufset := bset, f_cur := n\<rparr>) w" for n
    using inv b by (auto simp: read_inv_def fbufset_coherent_def)
  with read_hit [OF ff c i(2)] h show ?thesis
    unfolding read_post_def file_read_def read_off_def by (simp add: Let_def)
qed

lemma file_read_miss:
  assumes os: "os_read_ok sys (f_fd f) content" and ff: "ffbase_ok sys"
    and inv: "read_inv sys content f w" and off: "read_off f off0 \<le> length (content w)"
    and h: "fbufset_find (f_bufset f) (read_off f off0) = (None, bset0)"
  shows "read_post sys content (content w) (read_off f off0) (file_read sys f off0 w)"
proof -
  define off where "off = read_off f off0"
  define a where "a = off - off mod ALIGN"
  obtain i bset where nb: "fbufset_nextbuf bset0 = (i, bset)" by fastforce
  define f1 where "f1 = f\<lparr>f_bufset := bset\<rparr>"
  have z: "0 < length (bufs (f_bufset f))"
    using inv by (auto simp: read_inv_def fbufset_coherent_def)
  have bs: "bufs bset = bufs (f_bufset f)" "bidx bset < length (bufs bset)" "i < length (bufs bset)"
    using h nb inv
    by (auto simp: fbufset_find_def fbufset_nextbuf_def read_inv_def fbufset_coherent_def
        mod_less_divisor [OF z] split: option.splits)
  have inv1: "read_inv sys content f1 w'" if "content w' = content w" for w'
    using inv bs that by (auto simp: f1_def read_inv_def fbufset_coherent_def)
  obtain r w1 where r: "fs_readat sys (f_fd f) (f_bufsize f) a w = (r, w1)" by fastforce
  have cw: "content w1 = content w" by (rule os_readD(1) [OF os r])
  have al: "align_floor2 sys off ALIGN = a"
    unfolding a_def by (rule ffbaseD(1) [OF ff ALIGN_pos])
  have ns: "\<not> has (f_flags f) FCOM_FILE_STDIN" using inv by (simp add: read_inv_def)
  show ?thesis
  proof (cases r)
    case None
    with h nb ns al r cw inv1 [OF cw] show ?thesis
      by (simp add: file_read_def read_off_def [symmetric] off_def [symmetric] Let_def
          f1_def [symmetric] read_post_def)
  next
    case (Some d)
    define b where "b = \<lparr>fb_len = length d, fb_ptr = mem_write (fb_ptr (bufs bset ! i)) 0 d, fb_off = a\<rparr>"
    have d: "d = take (f_bufsize f) (drop a (content w))"
      using os_readD(2) [OF os r] Some by simp
    have lp: "length (fb_ptr (bufs bset ! i)) = f_bufsize f"
      using inv bs by (auto simp: read_inv_def)
    have bc: "fbuf_coherent (content w) b" and bd: "fbuf_data b = d"
      using fill_coherent [OF lp d] by (auto simp: b_def)
    have bl: "length (fb_ptr b) = f_bufsize f"
      using lp d by (simp add: b_def)
    have oa: "off - a = off mod ALIGN" by (simp add: a_def)
    have n: "ALIGN \<le> f_bufsize f" using inv by (simp add: read_inv_def)
    have res: "read_result (content w) off (if str_shift sys (off - a) d = [] then FEof else FOk)
        (str_shift sys (off - a) d)"
      and cur: "a + length d = off + length (str_shift sys (off - a) d)"
      using read_miss [OF ff n _ d [unfolded a_def]] off
      by (simp_all add: off_def [symmetric] oa a_def [symmetric])
    define sz where "sz = (if length d < f_bufsize f then a + length d else f_size f)"
    have fb: "fb_off b = a" "fb_len b = length d" by (simp_all add: b_def)
    have fr: "file_read sys f off0 w =
      (((if str_shift sys (off - a) d = [] then FEof else FOk), str_shift sys (off - a) d),
       f1\<lparr>f_size := sz, f_bufset := bset\<lparr>bufs := (bufs bset)[i := b]\<rparr>, f_cur := a + length d\<rparr>, w1)"
      unfolding file_read_def read_off_def [symmetric] off_def [symmetric] Let_def h [folded off_def]
        nb prod.case option.case f1_def [symmetric]
      using ns al r Some bd fb
      by (simp add: b_def [symmetric]) (simp add: f1_def sz_def)
    have "read_inv sys content (f1\<lparr>f_size := sz, f_bufset := bset\<lparr>bufs := (bufs bset)[i := b]\<rparr>,
        f_cur := a + length d\<rparr>) w1"
      using read_ring_update [OF inv1 [OF refl] bc] bl bs cw ns n
      by (simp add: read_inv_def f1_def)
    with res cur cw fr off_def show ?thesis
      by (simp add: read_post_def)
  qed
qed

lemma file_read_correct:
  assumes "os_read_ok sys (f_fd f) content" and "ffbase_ok sys" and "read_inv sys content f w"
    and "read_off f off0 \<le> length (content w)"
  shows "read_post sys content (content w) (read_off f off0) (file_read sys f off0 w)"
proof (cases "fst (fbufset_find (f_bufset f) (read_off f off0))")
  case None
  then show ?thesis using file_read_miss [OF assms] by (metis prod.collapse)
next
  case (Some i)
  then show ?thesis using file_read_hit [OF assms(2,3)] by (metis prod.collapse)
qed

section \<open>Reading to the end\<close>

text \<open>
  A consumer that reads on from the current offset until end of file, at most \<open>n\<close> times;
  \<^const>\<open>None\<close> if it has not got there or a read failed.
\<close>

fun read_all :: "nat \<Rightarrow> ('w, 'i) sys \<Rightarrow> fobj \<Rightarrow> 'w \<Rightarrow> bytes option" where
  "read_all 0 sys f w = None"
| "read_all (Suc n) sys f w =
     (case file_read sys f None w of
        ((FOk, d), f', w') \<Rightarrow> map_option (\<lambda>s. d @ s) (read_all n sys f' w')
      | ((FEof, d), f', w') \<Rightarrow> Some []
      | _ \<Rightarrow> None)"

definition os_reads :: "('w, 'i) sys \<Rightarrow> fffd \<Rightarrow> bool" where
  "os_reads sys fd \<longleftrightarrow> (\<forall>n off w. fst (fs_readat sys fd n off w) \<noteq> None)"

lemma file_read_frame: "file_read sys f off w = (x, f', w') \<Longrightarrow> f_fd f' = f_fd f"
  by (auto simp: file_read_def Let_def split: option.splits prod.splits if_splits)

lemma file_read_succeeds:
  assumes "os_reads sys (f_fd f)" and "\<not> has (f_flags f) FCOM_FILE_STDIN"
  shows "fst (fst (file_read sys f off w)) \<in> {FOk, FEof}"
proof -
  have *: "fs_readat sys (f_fd f) a b w \<noteq> (None, w')" for a b w w'
    using assms(1) unfolding os_reads_def by (metis fst_conv)
  show ?thesis
    using assms(2) by (auto simp: file_read_def Let_def * split: option.splits prod.splits if_splits)
qed

lemma read_all_from:
  assumes os: "os_read_ok sys (f_fd f) content" and rd: "os_reads sys (f_fd f)" and ff: "ffbase_ok sys"
  shows "read_inv sys content f w \<Longrightarrow> f_cur f \<le> length (content w) \<Longrightarrow>
    length (content w) - f_cur f < n \<Longrightarrow> read_all n sys f w = Some (drop (f_cur f) (content w))"
  using os rd
proof (induction n arbitrary: f w)
  case (Suc n)
  obtain r d f' w' where x: "file_read sys f None w = ((r, d), f', w')" by (metis prod_cases4 prod.exhaust)
  have o: "read_off f None = f_cur f" by (simp add: read_off_def)
  have p: "read_post sys content (content w) (f_cur f) ((r, d), f', w')"
    using file_read_correct [OF Suc.prems(4) ff Suc.prems(1), of None] Suc.prems(2) x o by simp
  have "r = FOk \<or> r = FEof"
    using file_read_succeeds [of sys f None w] Suc.prems(1,5) x by (auto simp: read_inv_def)
  then have res: "content w' = content w" "read_inv sys content f' w'"
    "read_result (content w) (f_cur f) r d" "f_cur f' = f_cur f + length d"
    using p by (auto simp: read_post_def)
  show ?case
  proof (cases "d = []")
    case True
    with res x show ?thesis by (auto simp: read_result_def)
  next
    case False
    then have r: "r = FOk" and d: "d = take (length d) (drop (f_cur f) (content w))"
      using res by (auto simp: read_result_def split: if_splits)
    have le: "length d \<le> length (content w) - f_cur f"
      using d by (metis length_drop length_take min.cobounded1)
    have "read_all n sys f' w' = Some (drop (f_cur f') (content w'))"
      using Suc.IH [OF res(2)] res Suc.prems le False file_read_frame [OF x]
      by (cases d) auto
    moreover have "d @ drop (f_cur f + length d) (content w) = drop (f_cur f) (content w)"
      using d by (metis add.commute append_take_drop_id drop_drop)
    ultimately show ?thesis using x r res by simp
  qed
qed simp

end
