(* ===== verification/FileProps.thy ===== *)
theory FileProps
  imports FileWrite FileRead
begin

text \<open>
  The properties of the file module, and the concrete operating system their witnesses run on:
  one file, open as descriptor 3, whose contents are the whole world.
\<close>

section \<open>A concrete operating system\<close>

text \<open>The least power of two from \<open>p\<close> on that is not below \<open>x\<close>.\<close>

function power2_from :: "nat \<Rightarrow> nat \<Rightarrow> nat" where
  "power2_from p x = (if p = 0 \<or> x \<le> p then max p x else power2_from (2 * p) x)"
  by pat_completeness auto
termination
  by (relation "measure (\<lambda>(p, x). x - p)") auto

declare power2_from.simps [simp del]

lemma power2_from_le: "x \<le> power2_from p x"
  by (induction p x rule: power2_from.induct) (subst power2_from.simps, auto)

text \<open>\<open>mem_sys k\<close> accepts at most \<open>k\<close> bytes in one write.\<close>

definition mem_sys :: "nat \<Rightarrow> (bytes, unit) sys" where
  "mem_sys k =
     \<lparr>fs_errno = (\<lambda>w. EOTHER 0),
      fs_open = (\<lambda>name fl w. (Some 3, w)),
      fs_close = (\<lambda>fd w. (True, w)),
      fs_readat = (\<lambda>fd n off w. (Some (take n (drop off w)), w)),
      fs_piperead = (\<lambda>fd n w. (Some (take n w), w)),
      fs_writeat = (\<lambda>fd d off w. (Some (min k (length d)), overlay w off (take k d))),
      fs_pipewrite = (\<lambda>fd d w. (Some (length d), w @ d)),
      fs_trunc = (\<lambda>fd n w. (True, take n w @ replicate (n - length w) (CHR 0x00))),
      fs_set_mtime = (\<lambda>fd t w. (True, w)),
      fs_set_attr = (\<lambda>fd a w. (True, w)),
      fs_size = (\<lambda>fd w. length w),
      fs_readahead = (\<lambda>fd n w. (True, w)),
      fs_info = (\<lambda>fd w. (Some (), w)),
      fs_info_link = (\<lambda>name w. (Some (), w)),
      fs_info_zero = (),
      dir_make = (\<lambda>n w. (True, w)), dir_make_path = (\<lambda>n w. (True, w)), dir_make_all = (\<lambda>n w. (True, w)),
      fs_hardlink = (\<lambda>a b w. (True, w)), fs_symlink = (\<lambda>a b w. (True, w)),
      fs_remove = (\<lambda>a w. (True, w)), fs_rename = (\<lambda>a b w. (True, w)),
      time_1970 = 62135596800,
      align_floor2 = (\<lambda>x a. x - x mod a),
      align_ceil2 = (\<lambda>x a. x + (a - x mod a) mod a),
      align_power2 = power2_from 1,
      str_shift = drop\<rparr>"

lemma mem_sys_ok:
  shows "0 < k \<Longrightarrow> os_write_ok (mem_sys k) 3 (\<lambda>w. w)" and "os_read_ok (mem_sys k) fd (\<lambda>w. w)"
    and "ffbase_ok (mem_sys k)" and "os_accepts (mem_sys k) 3" and "os_meta_ok (mem_sys k) (\<lambda>w. w)"
    and "os_reads (mem_sys k) fd"
  by (auto simp: os_write_ok_def os_read_ok_def ffbase_ok_def os_accepts_def os_meta_ok_def os_reads_def
      mem_sys_def power2_from_le min_def)

definition mem_file :: "32 word \<Rightarrow> nat \<Rightarrow> fobj" where
  "mem_file fl cap =
     \<lparr>f_name = Some ''f'', f_fd = Some 3, f_flags = fl, f_bufsize = cap, f_mtime = (0, 0),
      f_stdin = Some 0, f_stdout = Some 1,
      f_bufset = \<lparr>bufs = replicate 2 \<lparr>fb_len = 0, fb_ptr = replicate cap (CHR ''x''), fb_off = 0\<rparr>,
        bidx = 0, hits = 0, misses = 0\<rparr>,
      f_size = 0, f_cur = 0, f_wwrite = False,
      f_wbuf = \<lparr>fb_len = 0, fb_ptr = replicate cap (CHR ''x''), fb_off = 0\<rparr>, f_wuser = [], f_wcont = False,
      w_buf = [], w_off = 0, w_prealloc = 0, w_async = False\<rparr>"

lemma mem_file_ok:
  assumes "0 < cap"
  shows "file_inv 3 (\<lambda>w. w) (mem_file FCOM_FILE_WRITE cap) []"
    and "file_idle (mem_file fl cap)" and "file_view (\<lambda>w. w) (mem_file fl cap) [] = []"
    and "ALIGN \<le> cap \<Longrightarrow> read_inv sys (\<lambda>w. w) (mem_file FCOM_FILE_READ cap) w"
  using assms
  by (auto simp: file_inv_def mem_file_def cached_flags_def writable_def has_def flag_simps fbuf_wf_def kernel_inv_def
      file_idle_def file_view_def file_kernel_def read_inv_def fbufset_coherent_def fbuf_coherent_def
      fbuf_data_def)

section \<open>Properties\<close>

text \<open>
  A write that leaves a gap (\<open>fbuf_gap\<close>) is the write of the stale bytes in the gap and the data after
  them: the buffer and the write loop cannot tell the two apart.
\<close>

definition fbuf_stale :: "fbuf \<Rightarrow> nat \<Rightarrow> nat \<Rightarrow> bytes \<Rightarrow> bytes" where
  "fbuf_stale b cap off inp =
     (if inp \<noteq> [] \<and> fbuf_gap b cap off then drop (fb_len b) (take (off - fb_off b) (fb_ptr b)) else [])"

lemma fbuf_stale_none: "\<not> fbuf_gap b cap off \<Longrightarrow> fbuf_stale b cap off inp = []"
  by (simp add: fbuf_stale_def)

lemma length_fbuf_stale:
  "fbuf_wf cap b \<Longrightarrow> inp \<noteq> [] \<Longrightarrow> fbuf_gap b cap off \<Longrightarrow> length (fbuf_stale b cap off inp) = off - (fb_off b + fb_len b)"
  by (auto simp: fbuf_stale_def fbuf_gap_def fbuf_wf_def)

lemma fbuf_write_inside:
  assumes "inp \<noteq> []" and "fb_len b \<noteq> 0" and "fb_off b \<le> off" and "off < fb_off b + cap"
    and "off - fb_off b = p" and "min (length inp) (cap - p) = n"
  shows "fbuf_write b cap inp off =
    (let b1 = b\<lparr>fb_ptr := mem_write (fb_ptr b) p (take n inp)\<rparr>; b2 = (if fb_len b < p + n then b1\<lparr>fb_len := p + n\<rparr> else b1)
     in (b2, drop n inp, if fb_len b < p + n \<and> p + n \<noteq> cap then None else Some (fb_off b2, fbuf_data b2)))"
  using assms by (auto simp: fbuf_write_def Let_def)

lemma fbuf_write_stale:
  assumes wf: "fbuf_wf cap b"
  shows "fbuf_write b cap (fbuf_stale b cap off inp @ inp) (off - length (fbuf_stale b cap off inp)) = fbuf_write b cap inp off"
proof (cases "inp \<noteq> [] \<and> fbuf_gap b cap off")
  case False
  then have "fbuf_stale b cap off inp = []" by (auto simp: fbuf_stale_def)
  then show ?thesis by simp
next
  case True
  define g where "g = fbuf_stale b cap off inp"
  define p where "p = off - fb_off b"
  have g: "g = drop (fb_len b) (take p (fb_ptr b))" using True by (simp add: g_def fbuf_stale_def p_def)
  have r: "fb_len b \<noteq> 0" "fb_len b < p" "p < cap" "off = fb_off b + p" "length (fb_ptr b) = cap"
    using True wf by (auto simp: fbuf_gap_def fbuf_wf_def p_def)
  have lg: "length g = p - fb_len b" using r by (simp add: g)
  define n where "n = min (length inp) (cap - p)"
  have n: "min (length (g @ inp)) (cap - fb_len b) = length g + n" using r lg by (auto simp: n_def)
  have tk: "take (length g + n) (g @ inp) = g @ take n inp" "drop (length g + n) (g @ inp) = drop n inp" by simp_all
  have m: "mem_write (fb_ptr b) (fb_len b) (g @ take n inp) = mem_write (fb_ptr b) p (take n inp)"
  proof -
    have "take (fb_len b) (fb_ptr b) @ g = take p (fb_ptr b)"
      using r by (metis append_take_drop_id g less_imp_le min.absorb1 take_take)
    then show ?thesis using r lg by (simp add: mem_write_def n_def)
  qed
  have o1: "off - length g - fb_off b = fb_len b" "off - fb_off b = p" "fb_off b \<le> off - length g" "off - length g < fb_off b + cap"
    "fb_off b \<le> off" "off < fb_off b + cap" "fb_len b + (length g + n) = p + n"
    using r lg by auto
  have ne: "g @ inp \<noteq> []" "inp \<noteq> []" using True by auto
  have "fbuf_write b cap (g @ inp) (off - length g) = fbuf_write b cap inp off"
    unfolding fbuf_write_inside [OF ne(1) r(1) o1(3,4,1) n] fbuf_write_inside [OF ne(2) r(1) o1(5,6,2) n_def [symmetric]] tk m o1(7) ..
  then show ?thesis by (simp add: g_def)
qed

lemma fw_cache_stale:
  assumes "file_inv fd content f w" and "file_idle f"
  shows "fw_cache f (fbuf_stale (f_wbuf f) (f_bufsize f) (cache_off f off) data @ data)
      (Some (cache_off f off - length (fbuf_stale (f_wbuf f) (f_bufsize f) (cache_off f off) data))) = fw_cache f data off"
proof -
  define g where "g = fbuf_stale (f_wbuf f) (f_bufsize f) (cache_off f off) data"
  have wf: "fbuf_wf (f_bufsize f) (f_wbuf f)" and c: "\<not> f_wcont f" using assms by (auto simp: file_inv_def file_idle_def)
  have le: "length g \<le> cache_off f off"
    by (auto simp: g_def fbuf_stale_def fbuf_gap_def)
  obtain b rest out where bw: "fbuf_write (f_wbuf f) (f_bufsize f) data (cache_off f off) = (b, rest, out)" by (metis prod_cases3)
  then have bw': "fbuf_write (f_wbuf f) (f_bufsize f) (g @ data) (cache_off f off - length g) = (b, rest, out)"
    using fbuf_write_stale [OF wf, of "cache_off f off" data] by (simp add: g_def)
  have lr: "length rest \<le> length data" using fbuf_write_suffix [OF bw] by (metis diff_le_self length_drop)
  have co: "cache_off f off = (case off of None \<Rightarrow> f_cur f | Some n \<Rightarrow> n)" using c by (simp add: cache_off_def)
  show ?thesis
    unfolding g_def [symmetric] using c bw bw' le lr
    by (simp add: fw_cache_def co [symmetric] Let_def split: option.splits)
qed

text \<open>A pending write is resumed with what the file object holds; the arguments are not looked at.\<close>

lemma fw_cache_resumed: "f_wcont f \<Longrightarrow> fw_cache f data off = fw_cache f data' off'"
  by (simp add: fw_cache_def Let_def)

lemma file_write_pending:
  assumes "file_inv fd content f w" and "file_pending f"
  shows "file_write sys f data off w = file_write sys f data' off' w"
proof -
  have p: "f_wwrite f" "f_wcont f" "w_async f" using assms(2) by (auto simp: file_pending_def)
  have fl: "\<not> has (f_flags f) FCOM_FILE_FAKEWRITE" "\<not> has (f_flags f) FCOM_FILE_NOCACHE"
    using file_inv_flags [OF assms(1)] by auto
  obtain x f1 w1 where x: "fw_write sys f data off w = (x, f1, w1)" by (metis prod_cases3)
  have x': "fw_write sys f data' off' w = (case x of Inl e \<Rightarrow> Inl e | Inr y \<Rightarrow> Inr ([], off'), f1, w1)"
    using x p by (auto simp: fw_write_def Let_def split: prod.splits sum.splits file_ret.splits if_splits)
  have y: "x = Inr y \<Longrightarrow> y = ([], off)" for y
    using x p by (auto simp: fw_write_def Let_def split: prod.splits sum.splits file_ret.splits if_splits)
  have c: "f_wcont f1" using fw_write_frame [OF x] p by (auto simp: same_cache_def)
  have l: "write_loop sys (f1\<lparr>f_wwrite := False\<rparr>) [] off w1 = write_loop sys (f1\<lparr>f_wwrite := False\<rparr>) [] off' w1"
    using fw_cache_resumed [of "f1\<lparr>f_wwrite := False\<rparr>" "[]" off "[]" off'] c
    by (subst (1 2) write_loop.simps) simp
  show ?thesis
  proof (cases x)
    case (Inl e)
    then show ?thesis using fl p x x' by (simp add: file_write_def write_loop.simps [of sys f])
  next
    case (Inr z)
    then show ?thesis using fl p x x' y [OF Inr] l by (simp add: file_write_def write_loop.simps [of sys f])
  qed
qed

lemma write_retry_pending:
  assumes "os_write_ok sys fd content" and "ffbase_ok sys"
  shows "file_inv fd content f w \<Longrightarrow> file_pending f \<Longrightarrow>
    write_retry n sys f data off w = write_retry n sys f data' off' w"
proof (induction n arbitrary: f w)
  case (Suc n)
  obtain q f1 w1 where q: "file_write sys f data off w = (q, f1, w1)" by (metis prod_cases3)
  note e = file_write_pending [OF Suc.prems, of sys data off data' off']
  note d = file_write_resume [OF assms Suc.prems q]
  show ?case
  proof (cases "q = FAsync")
    case True
    with d have "file_inv fd content f1 w1" "file_pending f1" by (auto simp: write_done_def)
    from Suc.IH [OF this] show ?thesis using q e True by (simp add: write_retry.simps [of "Suc n"])
  next
    case False
    then show ?thesis using q e by (simp add: write_retry.simps [of "Suc n"] split: file_ret.splits)
  qed
next
  case 0
  obtain q f1 w1 where q: "file_write sys f data off w = (q, f1, w1)" by (metis prod_cases3)
  then show ?case
    using file_write_pending [OF 0, of sys data off data' off'] by (simp add: write_retry.simps [of 0] split: file_ret.splits)
qed

lemma cache_off_Some: "file_idle f \<Longrightarrow> cache_off f (Some n) = n"
  by (simp add: cache_off_def file_idle_def)

lemma write_retry_empty:
  assumes inv: "file_inv fd content f w" and idle: "file_idle f"
  shows "write_retry n sys f [] off w = (FOk, f\<lparr>f_cur := cache_off f off\<rparr>, w)"
proof -
  have "\<not> has (f_flags f) FCOM_FILE_FAKEWRITE" "\<not> has (f_flags f) FCOM_FILE_NOCACHE" "\<not> f_wwrite f" "\<not> f_wcont f"
    using file_inv_flags [OF inv] idle by (auto simp: file_idle_def)
  then show ?thesis
    by (simp add: write_retry.simps [of n] file_write_def write_loop.simps [of sys f] fw_cache_def fbuf_write_def cache_off_def)
qed

text \<open>Every write, with or without a gap.\<close>

lemma write_retry_any:
  assumes "os_write_ok sys fd content" and "ffbase_ok sys" and inv: "file_inv fd content f w" and idle: "file_idle f"
    and g: "g = fbuf_stale (f_wbuf f) (f_bufsize f) (cache_off f off) data"
    and run: "write_retry n sys f data off w = (r, f', w')"
  shows "write_done fd content r f' w' (overlay (file_view content f w) (cache_off f off - length g) (g @ data))
    (cache_off f off + length data)"
proof (cases "data = []")
  case True
  then have "g = []" by (simp add: g fbuf_stale_def)
  then show ?thesis
    using write_retry_empty [OF inv idle, of n sys off] run inv idle True
    by (auto simp: write_done_def file_inv_def file_idle_def file_view_def file_kernel_def)
next
  case ne: False
  define off' where "off' = Some (cache_off f off - length g)"
  have fl: "\<not> has (f_flags f) FCOM_FILE_FAKEWRITE" "\<not> has (f_flags f) FCOM_FILE_NOCACHE"
    using file_inv_flags [OF inv] by auto
  have nw: "\<not> f_wwrite f" using idle by (auto simp: file_idle_def)
  have e: "file_write sys f (g @ data) off' w = file_write sys f data off w"
    using fw_cache_stale [OF inv idle, of off data] fl nw
    by (simp add: file_write_def write_loop.simps [of sys f] off'_def g)
  have co: "cache_off f off' = cache_off f off - length g" using idle by (simp add: off'_def cache_off_Some)
  have le: "length g \<le> cache_off f off" by (auto simp: g fbuf_stale_def)
  have gap: "\<not> fbuf_gap (f_wbuf f) (f_bufsize f) (cache_off f off')"
  proof (cases "fbuf_gap (f_wbuf f) (f_bufsize f) (cache_off f off)")
    case True
    moreover have "fbuf_wf (f_bufsize f) (f_wbuf f)" using inv by (simp add: file_inv_def)
    ultimately have "length g = cache_off f off - (fb_off (f_wbuf f) + fb_len (f_wbuf f))"
      using ne by (simp add: length_fbuf_stale g)
    then show ?thesis using True co by (auto simp: fbuf_gap_def)
  next
    case False
    then show ?thesis using co by (simp add: g fbuf_stale_none)
  qed
  note st = file_write_start [OF assms(1-4) gap]
  obtain q f1 w1 where q: "file_write sys f data off w = (q, f1, w1)" by (metis prod_cases3)
  have "write_retry n sys f (g @ data) off' w = (r, f', w')"
  proof (cases "q = FAsync \<and> n \<noteq> 0")
    case True
    with st [of "g @ data" q f1 w1] q e have "file_inv fd content f1 w1" "file_pending f1" by (auto simp: write_done_def)
    from write_retry_pending [OF assms(1,2) this, of "n - 1" "g @ data" off' data off] True q e run show ?thesis
      by (simp add: write_retry.simps [of n])
  next
    case False
    then show ?thesis using q e run by (auto simp: write_retry.simps [of n] split: file_ret.splits if_splits)
  qed
  from write_retry_start [OF assms(1-4) gap this] show ?thesis using co le by simp
qed

text \<open>C1. A write through the cache of a regular file, repeated while it returns \<open>FCOM_FILE_ASYNC\<close>: when it
  ends with \<open>FCOM_FILE_OK\<close> the visible file (kernel contents plus cache) is the old one with the data at the
  offset, whatever short writes the kernel made, and the next sequential write continues after the data. When the
  write starts inside the window of the write buffer but past its valid bytes, the stale bytes \<open>g\<close> of the buffer
  in between are written too; in every other case \<open>g\<close> is empty. The call returns no code other than OK, ASYNC and
  ERR.\<close>

theorem file_write_refines:
  assumes "os_write_ok sys fd content" and "ffbase_ok sys"
    and "file_inv fd content f w" and "file_idle f"
    and "g = fbuf_stale (f_wbuf f) (f_bufsize f) (cache_off f off) data"
    and "write_retry n sys f data off w = (r, f', w')"
  shows "(r = FOk \<longrightarrow> file_inv fd content f' w' \<and> file_idle f' \<and>
      file_view content f' w' = overlay (file_view content f w) (cache_off f off - length g) (g @ data) \<and>
      f_cur f' = cache_off f off + length data) \<and> r \<in> {FOk, FAsync, FErr} \<and>
    (\<not> fbuf_gap (f_wbuf f) (f_bufsize f) (cache_off f off) \<longrightarrow> g = [])"
  using write_retry_any [OF assms] assms(5) by (cases r) (auto simp: write_done_def fbuf_stale_none)

text \<open>Data past the end of an empty cache, and a write behind a gap of two stale bytes.\<close>

definition gap_file :: fobj where
  "gap_file = (mem_file FCOM_FILE_WRITE 8)\<lparr>f_wbuf := \<lparr>fb_len = 1, fb_ptr = ''a?!bcdef'', fb_off = 0\<rparr>\<rparr>"

theorem file_write_refines_witness:
  "(\<exists>f' w'. write_retry 12 (mem_sys 4) (mem_file FCOM_FILE_WRITE 8) ''hello, world'' (Some 2) [] = (FOk, f', w') \<and>
     file_view (\<lambda>w. w) f' w' = overlay [] 2 ''hello, world'') \<and>
   (\<exists>f' w'. write_retry 12 (mem_sys 4) gap_file ''zz'' (Some 3) [] = (FOk, f', w') \<and>
     file_view (\<lambda>w. w) f' w' = ''a?!zz'')"
proof
  let ?f = "mem_file FCOM_FILE_WRITE 8"
  obtain r f' w' where x: "write_retry 12 (mem_sys 4) ?f ''hello, world'' (Some 2) [] = (r, f', w')"
    by (metis prod_cases3)
  have gap: "\<not> fbuf_gap (f_wbuf ?f) (f_bufsize ?f) (cache_off ?f (Some 2))"
    by (simp add: fbuf_gap_def mem_file_def)
  have "r = FOk"
    using write_retry_FOk [OF mem_sys_ok(1) mem_sys_ok(3,4) mem_file_ok(1,2) gap, of 4 "''hello, world''" 12] x
    by (simp add: mem_file_def)
  with file_write_refines [OF mem_sys_ok(1) mem_sys_ok(3) mem_file_ok(1,2) refl x] x mem_file_ok(3) [of 8]
  show "\<exists>f' w'. write_retry 12 (mem_sys 4) ?f ''hello, world'' (Some 2) [] = (FOk, f', w') \<and>
     file_view (\<lambda>w. w) f' w' = overlay [] 2 ''hello, world''"
    by (simp add: cache_off_def mem_file_def fbuf_stale_def fbuf_gap_def)
next
  have inv: "file_inv 3 (\<lambda>w. w) gap_file []" "file_idle gap_file"
    using mem_file_ok(1,2) [of 8] by (auto simp: gap_file_def file_inv_def file_idle_def fbuf_wf_def mem_file_def)
  have g: "fbuf_stale (f_wbuf gap_file) (f_bufsize gap_file) (cache_off gap_file (Some 3)) ''zz'' = ''?!''"
    using inv(2) by (simp add: cache_off_Some fbuf_stale_def fbuf_gap_def gap_file_def mem_file_def)
  have v: "file_view (\<lambda>w. w) gap_file [] = ''a''"
    by (simp add: file_view_def file_kernel_def fbuf_view_def fbuf_data_def gap_file_def overlay_def)
  have x: "write_retry 12 (mem_sys 4) gap_file ''zz'' (Some 3) [] =
      (FOk, gap_file\<lparr>f_wbuf := \<lparr>fb_len = 5, fb_ptr = ''a?!zzdef'', fb_off = 0\<rparr>, f_cur := 5\<rparr>, [])"
    by (simp add: write_retry.simps [of 12] file_write_def write_loop.simps fw_cache_def fbuf_write_def gap_file_def mem_file_def
        has_def flag_simps mem_write_def Let_def)
  from file_write_refines [OF mem_sys_ok(1) mem_sys_ok(3) inv g [symmetric] x] v inv(2)
  have "file_view (\<lambda>w. w) (gap_file\<lparr>f_wbuf := \<lparr>fb_len = 5, fb_ptr = ''a?!zzdef'', fb_off = 0\<rparr>, f_cur := 5\<rparr>) [] = ''a?!zz''"
    by (simp add: cache_off_Some overlay_def)
  with x show "\<exists>f' w'. write_retry 12 (mem_sys 4) gap_file ''zz'' (Some 3) [] = (FOk, f', w') \<and>
     file_view (\<lambda>w. w) f' w' = ''a?!zz''"
    by blast
qed

text \<open>C2. Appending any chunks to a fresh file and closing it leaves exactly the chunks in the file,
  in order and without preallocated bytes after them, if the kernel accepts every call, however
  short its writes: with enough retries no write fails or stays pending.\<close>

theorem file_save_complete:
  assumes "os_write_ok sys fd content" and "ffbase_ok sys" and "os_accepts sys fd"
    and "os_meta_ok sys content" and "appending fd content f w" and "file_view content f w = []"
    and "\<forall>d \<in> set ds. f_bufsize f + length d \<le> n"
  shows "\<exists>f1 w1 f2 w2. write_chunks n sys f ds w = Some (f1, w1) \<and>
    file_close sys f1 w1 = Some (f2, w2) \<and> f_fd f2 = None \<and> content w2 = concat ds"
proof -
  obtain f1 w1 where 1: "write_chunks n sys f ds w = Some (f1, w1)" "appending fd content f1 w1"
    "file_view content f1 w1 = concat ds"
    using write_chunks_correct [OF assms(1-3,5,7)] assms(6) by auto
  then have "file_inv fd content f1 w1" by (simp add: appending_def)
  with file_close_correct [OF assms(1,3,4)] 1 show ?thesis by force
qed

theorem file_save_complete_witness:
  "\<exists>f1 w1 f2 w2.
     write_chunks 30 (mem_sys 3) (mem_file FCOM_FILE_WRITE 8) [''some '', ''more than a block''] [] = Some (f1, w1) \<and>
     file_close (mem_sys 3) f1 w1 = Some (f2, w2) \<and> f_fd f2 = None \<and>
     w2 = concat [''some '', ''more than a block'']"
proof (rule file_save_complete [OF mem_sys_ok(1) mem_sys_ok(3-5)])
  show "appending 3 (\<lambda>w. w) (mem_file FCOM_FILE_WRITE 8) []"
    using mem_file_ok(1-3) [of 8] by (simp add: appending_def cache_tail_def mem_file_def)
  show "file_view (\<lambda>w. w) (mem_file FCOM_FILE_WRITE 8) [] = []" by (rule mem_file_ok(3)) simp
qed (simp_all add: mem_file_def)

lemma file_flush_keeps_cache:
  assumes "os_write_ok sys fd content" and "file_inv fd content f w" and "file_flush sys f w = Some (r, f', w')" and "r \<noteq> FOk"
  shows "f_wbuf f' = f_wbuf f"
  using flush_loop_correct [OF assms(1,2), of "fbuf_data (f_wbuf f)" "fb_off (f_wbuf f)"] assms(3,4)
  by (auto simp: file_flush_def)

text \<open>C3. A flush always returns and keeps the visible file. After \<open>FCOM_FILE_OK\<close> the kernel has all of it and the
  cache is empty; a flush that ends with ASYNC or ERR leaves the cache as it was, whatever part of it the kernel
  took.\<close>

theorem file_flush_refines:
  assumes "os_write_ok sys fd content" and "file_inv fd content f w"
  shows "\<exists>r f' w'. file_flush sys f w = Some (r, f', w') \<and> file_inv fd content f' w' \<and>
    file_view content f' w' = file_view content f w \<and>
    (r = FOk \<and> file_kernel content f' w' = file_view content f w \<and> f_wbuf f' = fbuf_clear (f_wbuf f) \<or>
     (r = FAsync \<or> r = FErr) \<and> f_wbuf f' = f_wbuf f)"
proof -
  obtain r f' w' where r: "file_flush sys f w = Some (r, f', w')" "file_inv fd content f' w'"
    "r = FOk \<or> r = FAsync \<or> r = FErr" "file_view content f' w' = file_view content f w"
    "r = FOk \<longrightarrow> file_kernel content f' w' = file_view content f w"
    using file_flush_correct [OF assms] by blast
  moreover have "r = FOk \<longrightarrow> f_wbuf f' = fbuf_clear (f_wbuf f)"
    using flush_loop_correct [OF assms, of "fbuf_data (f_wbuf f)" "fb_off (f_wbuf f)"] r(1) by (auto simp: file_flush_def)
  ultimately show ?thesis using file_flush_keeps_cache [OF assms r(1)] by blast
qed

text \<open>A kernel that takes two bytes at a time, up to a file of \<open>n\<close> bytes, and then fails.\<close>

definition full_sys :: "nat \<Rightarrow> (bytes, unit) sys" where
  "full_sys n = (mem_sys 2)\<lparr>fs_writeat := (\<lambda>fd d off w.
     if off + 2 \<le> n then (Some (min 2 (length d)), overlay w off (take 2 d)) else (None, w))\<rparr>"

lemma full_sys_ok: "os_write_ok (full_sys n) 3 (\<lambda>w. w)"
  by (auto simp: os_write_ok_def full_sys_def mem_sys_def min_def split: if_splits)

definition dirty_file :: fobj where
  "dirty_file = (mem_file FCOM_FILE_WRITE 8)\<lparr>f_wbuf := \<lparr>fb_len = 5, fb_ptr = ''12345???'', fb_off = 0\<rparr>\<rparr>"

theorem file_flush_refines_witness:
  "(\<exists>f' w'. file_flush (full_sys 8) dirty_file [] = Some (FOk, f', w') \<and> file_kernel (\<lambda>w. w) f' w' = ''12345'') \<and>
   (\<exists>f'. file_flush (full_sys 4) dirty_file [] = Some (FErr, f', ''1234'') \<and> f_wbuf f' = f_wbuf dirty_file)"
proof -
  have inv: "file_inv 3 (\<lambda>w. w) dirty_file []"
    using mem_file_ok(1) [of 8] by (auto simp: dirty_file_def file_inv_def fbuf_wf_def mem_file_def)
  have v: "file_view (\<lambda>w. w) dirty_file [] = ''12345''"
    by (simp add: file_view_def file_kernel_def fbuf_view_def fbuf_data_def dirty_file_def overlay_def)
  note run = file_flush_def flush_loop.simps f_write_def full_sys_def mem_sys_def dirty_file_def mem_file_def fbuf_data_def
    has_def flag_simps Let_def overlay_def
  have 8: "\<exists>f' w'. file_flush (full_sys 8) dirty_file [] = Some (FOk, f', w')" by (simp add: run)
  have 4: "\<exists>f'. file_flush (full_sys 4) dirty_file [] = Some (FErr, f', ''1234'')" by (simp add: run)
  show ?thesis
    using file_flush_refines [OF full_sys_ok inv, of 8] file_flush_refines [OF full_sys_ok inv, of 4] 8 4 v by auto
qed

text \<open>C4. \<open>file_read\<close> returns the bytes of the file at the offset, from the cache or from the
  kernel, at least one unless the offset is the end of the file, where it returns EOF; it keeps
  the ring of buffers true to the file and moves the current offset past the data.\<close>

theorem file_read_returns_file:
  assumes "os_read_ok sys (f_fd f) content" and "ffbase_ok sys" and "read_inv sys content f w"
    and "read_off f off0 \<le> length (content w)"
  shows "case file_read sys f off0 w of ((r, d), f', w') \<Rightarrow>
    content w' = content w \<and> read_inv sys content f' w' \<and>
    (r = FOk \<and> d \<noteq> [] \<and> d = take (length d) (drop (read_off f off0) (content w)) \<and>
        f_cur f' = read_off f off0 + length d
     \<or> r = FEof \<and> d = [] \<and> read_off f off0 = length (content w)
     \<or> (r = FAsync \<or> r = FErr) \<and> d = [])"
  using file_read_correct [OF assms] by (auto simp: read_post_def read_result_def split: if_splits)

theorem file_read_returns_file_witness:
  "case file_read (mem_sys 1) (mem_file FCOM_FILE_READ 4096) (Some 3) ''contents'' of ((r, d), f', w') \<Rightarrow>
    w' = ''contents'' \<and> read_inv (mem_sys 1) (\<lambda>w. w) f' w' \<and>
    (r = FOk \<and> d \<noteq> [] \<and> d = take (length d) (drop 3 ''contents'') \<and> f_cur f' = 3 + length d
     \<or> r = FEof \<and> d = [] \<and> 3 = length ''contents'' \<or> (r = FAsync \<or> r = FErr) \<and> d = [])"
  using file_read_returns_file [of "mem_sys 1" "mem_file FCOM_FILE_READ 4096" "\<lambda>w. w" "''contents''" "Some 3",
      OF mem_sys_ok(2,3) mem_file_ok(4)]
  by (simp add: read_off_def ALIGN_def)

text \<open>C5. Reading on from the current offset until EOF yields all the rest of the file, when no read
  fails, in at most one read per byte and one for the EOF.\<close>

theorem file_read_to_end:
  assumes "os_read_ok sys (f_fd f) content" and "os_reads sys (f_fd f)" and "ffbase_ok sys"
    and "read_inv sys content f w" and "f_cur f \<le> length (content w)"
    and "length (content w) - f_cur f < n"
  shows "read_all n sys f w = Some (drop (f_cur f) (content w))"
  using read_all_from [OF assms] .

theorem file_read_to_end_witness:
  "read_all 10 (mem_sys 1) (mem_file FCOM_FILE_READ 4096) ''contents'' = Some ''contents''"
  using file_read_to_end [of "mem_sys 1" "mem_file FCOM_FILE_READ 4096" "\<lambda>w. w" "''contents''" 10,
      OF mem_sys_ok(2) mem_sys_ok(6) mem_sys_ok(3) mem_file_ok(4)]
  by (simp add: ALIGN_def mem_file_def)

text \<open>C6. A write that starts inside the cache's window but past its valid bytes makes the stale bytes
  in between part of the file: whatever the block held there, instead of the zero bytes of a
  sparse file. (This is why the other properties exclude such an offset.)\<close>

theorem fbuf_write_exposes_stale:
  assumes "fbuf_wf cap b" and "fbuf_gap b cap off" and "inp \<noteq> []"
    and "fb_len b \<le> j" and "fb_off b + j < off"
    and "fbuf_write b cap inp off = (b', rest, out)"
  shows "j < fb_len b' \<and> fbuf_data b' ! j = fb_ptr b ! j"
proof -
  have l: "j < off - fb_off b" "off - fb_off b < cap" "length (fb_ptr b) = cap"
    using assms by (auto simp: fbuf_gap_def fbuf_wf_def)
  have "fb_len b' = off - fb_off b + min (length inp) (cap - (off - fb_off b))"
    "fb_ptr b' = mem_write (fb_ptr b) (off - fb_off b) (take (min (length inp) (cap - (off - fb_off b))) inp)"
    using assms(2,3,6) by (auto simp: fbuf_write_def fbuf_gap_def Let_def split: if_splits)
  with l show ?thesis
    by (simp add: fbuf_data_def nth_mem_write)
qed

theorem fbuf_write_exposes_stale_witness:
  "case fbuf_write \<lparr>fb_len = 1, fb_ptr = ''a?????'', fb_off = 10\<rparr> 6 ''z'' 13 of (b', rest, out) \<Rightarrow>
    2 < fb_len b' \<and> fbuf_data b' ! 2 = CHR ''?''"
proof -
  let ?b = "\<lparr>fb_len = 1, fb_ptr = ''a?????'', fb_off = 10\<rparr>"
  obtain b' rest out where x: "fbuf_write ?b 6 ''z'' 13 = (b', rest, out)" by (metis prod_cases3)
  have "fbuf_wf 6 ?b" "fbuf_gap ?b 6 13" by (simp_all add: fbuf_wf_def fbuf_gap_def)
  from fbuf_write_exposes_stale [OF this _ _ _ x, of 2] x show ?thesis by simp
qed

lemma file_close_pending:
  assumes "file_pending f" and "file_close sys f w = Some (f', w')"
  shows "file_pending f' \<and> w_buf f' = w_buf f \<and> w_off f' = w_off f"
  using assms
  by (auto simp: file_close_def file_pending_def file_flush_def fbuf_data_def flush_loop.simps [of sys f "[]"]
      prealloc_trunc_def fbuf_clear_def Let_def split: if_splits prod.splits bool.splits)

text \<open>C7. Opening another file with an object whose last write returned \<open>FCOM_FILE_ASYNC\<close> keeps
  that write pending: its data and offset belong to the previous file, and the next write to
  the new file puts them there first.\<close>

theorem file_open_keeps_pending:
  assumes "file_pending f" and "file_open sys f name how w = Some (FOk, f', w')"
  shows "file_pending f' \<and> w_buf f' = w_buf f \<and> w_off f' = w_off f"
proof -
  obtain fc w1 where c: "file_close sys f w = Some (fc, w1)"
    using assms(2) by (auto simp: file_open_def split: option.splits)
  from file_close_pending [OF assms(1) c] assms(2) c show ?thesis
    by (auto simp: file_open_def file_trunc_def file_pending_def Let_def split: if_splits prod.splits option.splits bool.splits)
qed

theorem file_open_keeps_pending_witness:
  "let f = (mem_file FCOM_FILE_WRITE 8)\<lparr>f_wwrite := True, f_wcont := True, w_async := True, w_buf := ''old''\<rparr>
   in (case file_open (mem_sys 4) f ''new'' FCOM_FILE_WRITE [] of
         None \<Rightarrow> False
       | Some (r, f', w') \<Rightarrow> r = FOk \<and> f_name f' = Some ''new'' \<and> file_pending f' \<and> w_buf f' = ''old'')"
proof -
  define f where
    "f = (mem_file FCOM_FILE_WRITE 8)\<lparr>f_wwrite := True, f_wcont := True, w_async := True, w_buf := ''old''\<rparr>"
  have p: "file_pending f" by (simp add: f_def file_pending_def mem_file_def)
  obtain f' w' where o: "file_open (mem_sys 4) f ''new'' FCOM_FILE_WRITE [] = Some (FOk, f', w')"
    "f_name f' = Some ''new''"
    by (simp add: f_def file_open_def file_close_def file_flush_def fbuf_data_def mem_file_def writable_def
        flush_loop.simps mtime_set_def prealloc_trunc_def has_def flag_simps mem_sys_def open_loop.simps)
  from file_open_keeps_pending [OF p o(1)] o show ?thesis
    by (simp add: Let_def f_def [symmetric]) (simp add: f_def)
qed

end
