(* ===== verification/Stream.thy ===== *)
theory Stream
  imports Prelude
begin

text \<open>
  The stream buffer of \<open>src/util/stream.h\<close>: a block of a power-of-two capacity read and written
  at 32-bit counters that only grow and wrap, and, for \<open>ffstream_gather_ref\<close>, a reference to
  the caller's data. \<open>align_power2\<close> (\<open>ffint_align_power2\<close> of ffbase) is a parameter; the block
  a (re)allocation returns is one too (\<^const>\<open>None\<close> is \<open>NULL\<close>). A failed \<open>FF_ASSERT\<close> is
  \<^const>\<open>None\<close>. A referenced string is kept by value: it "must stay valid".
\<close>

section \<open>Data and operations\<close>

record ffstream =
  st_ptr :: bytes
  st_r :: "32 word"
  st_w :: "32 word"
  st_cap :: "32 word"
  st_mask :: "32 word"
  st_ref :: bytes

text \<open>\<open>s->w - s->r\<close>\<close>

definition ffstream_used :: "ffstream \<Rightarrow> 32 word" where
  "ffstream_used s = st_w s - st_r s"

definition at :: "ffstream \<Rightarrow> 32 word \<Rightarrow> nat" where
  "at s x = unat (x AND st_mask s)"

definition blk :: "ffstream \<Rightarrow> nat \<Rightarrow> bytes" where
  "blk s i = take (unat (ffstream_used s)) (drop i (st_ptr s))"

definition ref_tail :: "ffstream \<Rightarrow> bytes" where
  "ref_tail s = drop (length (st_ref s) - unat (ffstream_used s)) (st_ref s)"

definition ffstream_realloc ::
  "(nat \<Rightarrow> nat) \<Rightarrow> (nat \<Rightarrow> bytes option) \<Rightarrow> ffstream \<Rightarrow> nat \<Rightarrow> nat \<times> ffstream" where
  "ffstream_realloc align_power2 alloc s newcap0 =
     (let newcap = align_power2 newcap0
      in if newcap \<le> unat (st_cap s) then (unat (st_cap s), s)
         else (case alloc newcap of
             None \<Rightarrow> (0, s)
           | Some p \<Rightarrow>
               (let s1 = (if st_ref s = []
                    then s\<lparr>st_ptr := mem_write p 0 (blk s (at s (st_r s))), st_r := 0, st_w := ffstream_used s\<rparr>
                    else s\<lparr>st_ptr := p\<rparr>)
                in (unat (word_of_nat newcap :: 32 word),
                    s1\<lparr>st_cap := word_of_nat newcap, st_mask := word_of_nat newcap - 1\<rparr>))))"

definition ffstream_free :: "ffstream \<Rightarrow> ffstream" where
  "ffstream_free s = s\<lparr>st_ptr := []\<rparr>"

definition ffstream_reset :: "ffstream \<Rightarrow> ffstream" where
  "ffstream_reset s = s\<lparr>st_r := 0, st_w := 0\<rparr>"

definition ffstream_view :: "ffstream \<Rightarrow> bytes" where
  "ffstream_view s = (if st_ref s \<noteq> [] then ref_tail s else blk s (at s (st_r s)))"

text \<open>
  The part both gathering functions share: make room for \<open>gather\<close> bytes in a row, append as much
  input as the tail takes.
\<close>

definition move_front :: "ffstream \<Rightarrow> nat \<Rightarrow> ffstream" where
  "move_front s gather =
     (let i = st_r s AND st_mask s
      in if unat (st_cap s) < unat i + gather
         then s\<lparr>st_ptr := mem_write (st_ptr s) 0 (blk s (unat i)), st_r := st_r s - i, st_w := st_w s - i\<rparr>
         else s)"

definition append_tail :: "ffstream \<Rightarrow> nat \<Rightarrow> nat \<Rightarrow> bytes \<Rightarrow> nat \<times> ffstream" where
  "append_tail s i room input =
     (let n = min room (length input)
      in (n, s\<lparr>st_ptr := mem_write (st_ptr s) i (take n input), st_w := st_w s + word_of_nat n\<rparr>))"

definition ffstream_gather :: "ffstream \<Rightarrow> bytes \<Rightarrow> nat \<Rightarrow> (nat \<times> bytes \<times> ffstream) option" where
  "ffstream_gather s input gather =
     (if unat (st_cap s) < gather then None
      else Some
        (let (n, s1) =
           (if unat (ffstream_used s) < gather then
              (let s1 = move_front s gather
               in append_tail s1 (at s1 (st_w s1)) (unat (st_cap s1) - at s1 (st_w s1)) input)
            else (0, s))
         in (n, blk s1 (at s1 (st_r s1)), s1)))"

definition ffstream_gather_ref :: "ffstream \<Rightarrow> bytes \<Rightarrow> nat \<Rightarrow> (nat \<times> bytes \<times> ffstream) option" where
  "ffstream_gather_ref s input gather =
     (if unat (st_cap s) < gather then None
      else Some
        (let used = unat (ffstream_used s)
         in if used < gather then
              (if used = 0 then
                 (unat (word_of_nat (length input) :: 32 word), input, s\<lparr>st_ref := input, st_w := st_w s + word_of_nat (length input)\<rparr>)
               else
                 (let (n, s1) =
                    (if st_ref s \<noteq> [] then
                       (let s1 = s\<lparr>st_ptr := mem_write (st_ptr s) 0 (ref_tail s), st_ref := [], st_r := 0,
                                   st_w := word_of_nat used\<rparr>
                        in append_tail s1 (unat (st_w s1)) (gather - used) input)
                     else
                       (let s1 = move_front s gather
                        in append_tail s1 (at s1 (st_w s1)) (unat (st_cap s1) - at s1 (st_w s1)) input))
                  in (n, blk s1 (at s1 (st_r s1)), s1)))
            else if st_ref s \<noteq> [] then (0, ref_tail s, s)
            else (0, blk s (at s (st_r s)), s)))"

definition ffstream_consume :: "ffstream \<Rightarrow> nat \<Rightarrow> ffstream option" where
  "ffstream_consume s n =
     (if unat (ffstream_used s) < n then None else Some (s\<lparr>st_r := st_r s + word_of_nat n\<rparr>))"

section \<open>Counters that wrap\<close>

definition pow2_cap :: "ffstream \<Rightarrow> nat \<Rightarrow> bool" where
  "pow2_cap s k \<longleftrightarrow>
     k < 32 \<and> st_cap s = 2 ^ k \<and> st_mask s = 2 ^ k - 1 \<and> length (st_ptr s) = 2 ^ k"

lemma unat_pow2: "k < 32 \<Longrightarrow> unat (2 ^ k :: 32 word) = 2 ^ k"
proof -
  assume "k < 32"
  then have "(2::nat) ^ k < 2 ^ 32" by (intro power_strict_increasing) auto
  moreover have "(2 ^ k :: 32 word) = of_nat (2 ^ k)" by simp
  ultimately show ?thesis by (simp only: unat_of_nat) simp
qed

lemma unat32: "unat (x :: 32 word) < 2 ^ 32"
  by (rule unsigned_less [THEN order_less_le_trans]) simp

lemma unat_and_mask: "unat (x AND (2 ^ k - 1) :: 32 word) = unat x mod 2 ^ k"
  unfolding mask_eq_exp_minus_1 [symmetric] take_bit_eq_mask [symmetric] unsigned_take_bit_eq
  by (simp add: take_bit_eq_mod)

text \<open>The valid bytes lie in a row inside the block, or, with a reference, at its end.\<close>

definition stm_wf :: "ffstream \<Rightarrow> bool" where
  "stm_wf s \<longleftrightarrow>
     (\<exists>k. pow2_cap s k) \<and>
     (if st_ref s = [] then at s (st_r s) + unat (ffstream_used s) \<le> unat (st_cap s)
      else unat (ffstream_used s) \<le> length (st_ref s))"

definition stm_data :: "ffstream \<Rightarrow> bytes" where
  "stm_data s = ffstream_view s"

lemma at_mod: "pow2_cap s k \<Longrightarrow> at s x = unat x mod 2 ^ k"
  by (simp add: at_def pow2_cap_def unat_and_mask)

lemma at_add:
  assumes "pow2_cap s k"
  shows "at s (x + y) = (at s x + unat y) mod 2 ^ k"
proof -
  have "(2::nat) ^ k dvd 2 ^ 32" using assms by (intro le_imp_power_dvd) (simp add: pow2_cap_def)
  then have "unat (x + y) mod 2 ^ k = (unat x + unat y) mod 2 ^ k"
    by (simp add: unat_word_ariths mod_mod_cancel)
  then show ?thesis using assms by (simp add: at_mod mod_add_left_eq)
qed

lemma at_w: "pow2_cap s k \<Longrightarrow> at s (st_w s) = (at s (st_r s) + unat (ffstream_used s)) mod 2 ^ k"
  using at_add [of s k "st_r s" "ffstream_used s"] by (simp add: ffstream_used_def)

lemma cap_pow2: "pow2_cap s k \<Longrightarrow> unat (st_cap s) = 2 ^ k"
  by (simp add: pow2_cap_def unat_pow2)

lemma length_stm_data: "stm_wf s \<Longrightarrow> length (stm_data s) = unat (ffstream_used s)"
  by (auto simp: stm_wf_def stm_data_def ffstream_view_def ref_tail_def blk_def pow2_cap_def unat_pow2
      split: if_splits)

section \<open>The steps of gathering\<close>

text \<open>After making room the valid bytes are the same and the tail has room for \<open>gather\<close> in all.\<close>

lemma move_front_correct:
  assumes wf: "stm_wf s" "st_ref s = []" and g: "unat (ffstream_used s) < gather" "gather \<le> unat (st_cap s)"
  shows "stm_wf (move_front s gather) \<and> st_ref (move_front s gather) = [] \<and>
    stm_data (move_front s gather) = stm_data s \<and>
    ffstream_used (move_front s gather) = ffstream_used s \<and> st_cap (move_front s gather) = st_cap s \<and>
    at (move_front s gather) (st_r (move_front s gather)) + gather \<le> unat (st_cap s)"
proof -
  obtain k where k: "pow2_cap s k" using wf by (auto simp: stm_wf_def)
  define i where "i = st_r s AND st_mask s"
  have i: "at s (st_r s) = unat i" by (simp add: at_def i_def)
  show ?thesis
  proof (cases "unat (st_cap s) < unat i + gather")
    case False
    with wf i show ?thesis by (simp add: move_front_def i_def [symmetric])
  next
    case True
    define s1 where
      "s1 = s\<lparr>st_ptr := mem_write (st_ptr s) 0 (blk s (unat i)), st_r := st_r s - i, st_w := st_w s - i\<rparr>"
    have s1: "move_front s gather = s1" using True by (simp add: move_front_def i_def [symmetric] s1_def)
    have u: "ffstream_used s1 = ffstream_used s" by (simp add: s1_def ffstream_used_def)
    have lb: "length (blk s (unat i)) = unat (ffstream_used s)"
      using length_stm_data [OF wf(1)] wf(2) i by (simp add: stm_data_def ffstream_view_def)
    have lp: "length (st_ptr s) = unat (st_cap s)" using k by (simp add: pow2_cap_def unat_pow2)
    have k1: "pow2_cap s1 k"
      using k lb lp g by (simp add: pow2_cap_def s1_def unat_pow2)
    have "at s1 (st_r s1) = 0"
    proof -
      have "unat (st_r s - i) mod 2 ^ k = 0"
      proof -
        have ik: "unat i = unat (st_r s) mod 2 ^ k" using at_mod [OF k] i by simp
        then have "unat i \<le> unat (st_r s)" by simp
        then have "unat (st_r s - i) = unat (st_r s) - unat i"
          by (simp add: unat_sub word_le_nat_alt)
        then show ?thesis using ik by (simp add: minus_mod_eq_mult_div)
      qed
      then show ?thesis using at_mod [OF k1] by (simp add: s1_def)
    qed
    moreover have "blk s1 0 = blk s (unat i)"
      unfolding blk_def [of s1] u using lb g lp by (simp add: s1_def mem_write_def)
    ultimately show ?thesis
      using s1 u k1 wf g i by (auto simp: stm_wf_def stm_data_def ffstream_view_def s1_def)
  qed
qed

text \<open>Appending at the tail.\<close>

lemma append_tail_correct:
  assumes wf: "stm_wf s" "st_ref s = []" and i: "i = at s (st_r s) + unat (ffstream_used s)"
    and room: "i + room \<le> unat (st_cap s)"
    and a: "append_tail s i room input = (n, s')"
  shows "n = min room (length input) \<and> stm_wf s' \<and> st_ref s' = [] \<and> stm_data s' = stm_data s @ take n input \<and>
    unat (ffstream_used s') = unat (ffstream_used s) + n \<and> st_cap s' = st_cap s"
proof -
  obtain k where k: "pow2_cap s k" using wf by (auto simp: stm_wf_def)
  have n: "n = min room (length input)"
    and s': "s' = s\<lparr>st_ptr := mem_write (st_ptr s) i (take n input), st_w := st_w s + word_of_nat n\<rparr>"
    using a by (auto simp: append_tail_def Let_def)
  have lp: "length (st_ptr s) = unat (st_cap s)" using k by (simp add: pow2_cap_def unat_pow2)
  have lt: "length (take n input) = n" using n by simp
  have nc: "i + n \<le> unat (st_cap s)" using room n by simp
  then have "unat (ffstream_used s) + n < 2 ^ 32"
    using i unat32 [of "st_cap s"] by simp
  moreover have "ffstream_used s' = ffstream_used s + word_of_nat n"
    by (simp add: s' ffstream_used_def)
  ultimately have u: "unat (ffstream_used s') = unat (ffstream_used s) + n"
    by (simp add: unat_word_ariths(1) unat_of_nat)
  have k1: "pow2_cap s' k"
    using k nc lp lt by (simp add: pow2_cap_def s' unat_pow2)
  have at': "at s' (st_r s') = at s (st_r s)" using at_mod [OF k] at_mod [OF k1] by (simp add: s')
  have "blk s' (at s (st_r s)) = blk s (at s (st_r s)) @ take n input"
    unfolding blk_def [of s'] u using nc lp lt i
    by (simp add: blk_def s' mem_write_def drop_take)
  then show ?thesis
    using wf n u k1 at' nc i s' by (auto simp: stm_wf_def stm_data_def ffstream_view_def)
qed

section \<open>Gathering\<close>

text \<open>
  What a gathering step promises: it takes \<open>n\<close> bytes of the input behind the data it holds,
  shows all of them, and has \<open>gather\<close> of them if there are so many.
\<close>

definition gathered :: "bytes \<Rightarrow> bytes \<Rightarrow> nat \<Rightarrow> nat \<Rightarrow> bytes \<Rightarrow> bool" where
  "gathered old input gather n out \<longleftrightarrow>
     n \<le> length input \<and> out = old @ take n input \<and>
     (length out < gather \<longrightarrow> n = length input) \<and> (gather \<le> length old \<longrightarrow> n = 0)"

lemma gatheredD:
  assumes "gathered old input g n out"
  shows "out = old @ take n input" and "length out < g \<Longrightarrow> out = old @ input"
  using assms unfolding gathered_def by blast (use assms in \<open>simp add: gathered_def\<close>)

lemma gather_append:
  assumes wf: "stm_wf s" "st_ref s = []" and g: "unat (ffstream_used s) < gather" "gather \<le> unat (st_cap s)"
    and a: "append_tail (move_front s gather) (at (move_front s gather) (st_w (move_front s gather)))
      (unat (st_cap (move_front s gather)) - at (move_front s gather) (st_w (move_front s gather))) input = (n, s')"
  shows "stm_wf s' \<and> st_ref s' = [] \<and> gathered (stm_data s) input gather n (stm_data s') \<and> st_cap s' = st_cap s"
proof -
  define s1 where "s1 = move_front s gather"
  have s1: "stm_wf s1" "st_ref s1 = []" "stm_data s1 = stm_data s" "ffstream_used s1 = ffstream_used s"
    "st_cap s1 = st_cap s" "at s1 (st_r s1) + gather \<le> unat (st_cap s)"
    using move_front_correct [OF wf g] by (auto simp: s1_def)
  obtain k where k: "pow2_cap s1 k" using s1 by (auto simp: stm_wf_def)
  have w: "at s1 (st_w s1) = at s1 (st_r s1) + unat (ffstream_used s1)"
    using at_w [OF k] s1 g cap_pow2 [OF k] by simp
  have room: "at s1 (st_w s1) + (unat (st_cap s1) - at s1 (st_w s1)) \<le> unat (st_cap s1)"
    using w s1 g by simp
  from append_tail_correct [OF s1(1,2) w room a [folded s1_def]]
  show ?thesis
    using s1 g w length_stm_data [OF s1(1)] by (auto simp: gathered_def)
qed

lemma ffstream_gather_correct:
  assumes wf: "stm_wf s" "st_ref s = []" and g: "gather \<le> unat (st_cap s)"
  shows "\<exists>n out s'. ffstream_gather s input gather = Some (n, out, s') \<and> stm_wf s' \<and> st_ref s' = [] \<and>
    stm_data s' = out \<and> gathered (stm_data s) input gather n out \<and> st_cap s' = st_cap s"
proof (cases "unat (ffstream_used s) < gather")
  case False
  with wf g length_stm_data [OF wf(1)] show ?thesis
    by (auto simp: ffstream_gather_def gathered_def stm_data_def ffstream_view_def)
next
  case True
  define s1 where "s1 = move_front s gather"
  obtain n s' where a: "append_tail s1 (at s1 (st_w s1)) (unat (st_cap s1) - at s1 (st_w s1)) input = (n, s')"
    by fastforce
  from gather_append [OF wf True g a [unfolded s1_def]] a True g show ?thesis
    by (auto simp: ffstream_gather_def Let_def s1_def [symmetric] stm_data_def ffstream_view_def)
qed

lemma ffstream_gather_ref_correct:
  assumes wf: "stm_wf s" and g: "gather \<le> unat (st_cap s)" and len: "length input < 2 ^ 32"
  shows "\<exists>n out s'. ffstream_gather_ref s input gather = Some (n, out, s') \<and> stm_wf s' \<and>
    stm_data s' = out \<and> gathered (stm_data s) input gather n out \<and> st_cap s' = st_cap s"
proof -
  obtain k where k: "pow2_cap s k" using wf by (auto simp: stm_wf_def)
  have lp: "length (st_ptr s) = unat (st_cap s)" using k by (simp add: pow2_cap_def unat_pow2)
  consider (enough) "\<not> unat (ffstream_used s) < gather" | (empty) "ffstream_used s = 0" "0 < gather"
    | (own) "unat (ffstream_used s) < gather" "ffstream_used s \<noteq> 0" "st_ref s = []"
    | (refd) "unat (ffstream_used s) < gather" "ffstream_used s \<noteq> 0" "st_ref s \<noteq> []"
    by fastforce
  then show ?thesis
  proof cases
    case enough
    with wf g length_stm_data [OF wf] show ?thesis
      by (auto simp: ffstream_gather_ref_def gathered_def stm_data_def ffstream_view_def Let_def)
  next
    case empty
    define s' where "s' = s\<lparr>st_ref := input, st_w := st_w s + word_of_nat (length input)\<rparr>"
    have "ffstream_used s' = ffstream_used s + word_of_nat (length input)"
      by (simp add: ffstream_used_def s'_def)
    then have u: "unat (ffstream_used s') = length input"
      using empty len by (simp add: unat_of_nat)
    have "pow2_cap s' k" using k by (simp add: pow2_cap_def s'_def)
    moreover have "at s' (st_r s') \<le> unat (st_cap s')"
      using at_mod [OF \<open>pow2_cap s' k\<close>] cap_pow2 [OF \<open>pow2_cap s' k\<close>] by (simp add: less_imp_le)
    ultimately have wf': "stm_wf s'"
      using u by (auto simp: stm_wf_def s'_def)
    have "stm_data s = []" using length_stm_data [OF wf] empty by simp
    moreover have "stm_data s' = input"
      using u by (auto simp: stm_data_def ffstream_view_def ref_tail_def blk_def s'_def)
    moreover have "unat (word_of_nat (length input) :: 32 word) = length input" using len by (simp add: unat_of_nat)
    ultimately show ?thesis
      using empty g wf' by (auto simp: ffstream_gather_ref_def s'_def gathered_def Let_def)
  next
    case own
    define s1 where "s1 = move_front s gather"
    obtain n s' where a: "append_tail s1 (at s1 (st_w s1)) (unat (st_cap s1) - at s1 (st_w s1)) input = (n, s')"
      by fastforce
    from gather_append [OF wf own(3) own(1) g a [unfolded s1_def]] a own g show ?thesis
      by (auto simp: ffstream_gather_ref_def Let_def s1_def [symmetric] stm_data_def ffstream_view_def unat_eq_0)
  next
    case refd
    define u where "u = unat (ffstream_used s)"
    define s1 where "s1 = s\<lparr>st_ptr := mem_write (st_ptr s) 0 (ref_tail s), st_ref := [], st_r := 0,
      st_w := word_of_nat u\<rparr>"
    have lr: "length (ref_tail s) = u"
      using wf refd by (simp add: ref_tail_def stm_wf_def u_def)
    have k1: "pow2_cap s1 k" using k lr lp refd g by (simp add: pow2_cap_def s1_def u_def unat_pow2)
    have us: "unat (ffstream_used s1) = u" by (simp add: s1_def ffstream_used_def u_def)
    have at0: "at s1 (st_r s1) = 0" using at_mod [OF k1] by (simp add: s1_def)
    have wf1: "stm_wf s1" "st_ref s1 = []"
      using k1 us at0 refd g by (auto simp: stm_wf_def u_def s1_def)
    have d1: "stm_data s1 = stm_data s"
      using lr us at0 lp refd by (simp add: stm_data_def ffstream_view_def blk_def) (simp add: s1_def mem_write_def)
    have w1: "unat (st_w s1) = u" by (simp add: s1_def u_def)
    obtain n s' where a: "append_tail s1 u (gather - u) input = (n, s')" by fastforce
    have "u + (gather - u) \<le> unat (st_cap s1)" using refd g by (simp add: u_def s1_def)
    from append_tail_correct [OF wf1 _ this a] at0 us
    have s': "n = min (gather - u) (length input)" "stm_wf s'" "st_ref s' = []"
      "stm_data s' = stm_data s @ take n input" "st_cap s' = st_cap s"
      using d1 by (auto simp: s1_def)
    have ld: "length (stm_data s) = u" using length_stm_data [OF wf] by (simp add: u_def)
    have "u \<noteq> 0" using refd(2) by (simp add: u_def unat_eq_0)
    then have "ffstream_gather_ref s input gather = Some (n, stm_data s', s')"
      using refd g a w1 s'(3)
      by (auto simp: ffstream_gather_ref_def Let_def u_def [symmetric] s1_def [symmetric] stm_data_def
          ffstream_view_def unat_eq_0)
    then show ?thesis
      using s' ld refd by (auto simp: gathered_def u_def)
  qed
qed

section \<open>Consuming, growing, resetting\<close>

lemma ffstream_consume_correct:
  assumes wf: "stm_wf s" and n: "n \<le> length (stm_data s)"
  shows "\<exists>s'. ffstream_consume s n = Some s' \<and> stm_wf s' \<and> stm_data s' = drop n (stm_data s) \<and>
    st_ref s' = st_ref s \<and> st_cap s' = st_cap s"
proof -
  obtain k where k: "pow2_cap s k" using wf by (auto simp: stm_wf_def)
  define s' where "s' = s\<lparr>st_r := st_r s + word_of_nat n\<rparr>"
  have le: "n \<le> unat (ffstream_used s)" using n length_stm_data [OF wf] by simp
  have k': "pow2_cap s' k" using k by (simp add: pow2_cap_def s'_def)
  have n32: "n < 2 ^ 32" using le unat32 [of "ffstream_used s"] by simp
  have "ffstream_used s' = ffstream_used s - word_of_nat n"
    by (simp add: s'_def ffstream_used_def)
  then have u: "unat (ffstream_used s') = unat (ffstream_used s) - n"
    using le n32 by (simp add: unat_sub word_le_nat_alt unat_of_nat)
  have r: "at s' (st_r s') = (at s (st_r s) + n) mod 2 ^ k"
    using at_add [OF k, of "st_r s" "word_of_nat n"] at_mod [OF k'] at_mod [OF k] n32
    by (simp add: s'_def unat_of_nat)
  show ?thesis
  proof (cases "st_ref s = []")
    case False
    then have "stm_wf s'" "stm_data s' = drop n (stm_data s)"
      using wf u k' le
      by (auto simp: stm_wf_def s'_def stm_data_def ffstream_view_def ref_tail_def add.commute)
    then show ?thesis using le by (auto simp: ffstream_consume_def s'_def)
  next
    case True
    have b: "at s (st_r s) + unat (ffstream_used s) \<le> 2 ^ k"
      using wf True cap_pow2 [OF k] by (simp add: stm_wf_def)
    have "stm_wf s' \<and> stm_data s' = drop n (stm_data s)"
    proof (cases "unat (ffstream_used s) = n")
      case True
      have "at s' (st_r s') < 2 ^ k" using r by simp
      then show ?thesis
        using u True \<open>st_ref s = []\<close> k' cap_pow2 [OF k'] length_stm_data [OF wf]
        by (auto simp: stm_wf_def stm_data_def ffstream_view_def blk_def s'_def)
    next
      case False
      then have "at s (st_r s) + n < 2 ^ k" using b le by simp
      then have r': "at s' (st_r s') = at s (st_r s) + n" using r by simp
      then have "stm_wf s'"
        using u \<open>st_ref s = []\<close> k' cap_pow2 [OF k'] b le by (auto simp: stm_wf_def s'_def)
      moreover have "blk s' (at s' (st_r s')) = drop n (blk s (at s (st_r s)))"
        unfolding blk_def u r' using le by (simp add: s'_def drop_take add.commute)
      ultimately show ?thesis using True by (auto simp: stm_data_def ffstream_view_def s'_def)
    qed
    then show ?thesis using le by (auto simp: ffstream_consume_def s'_def)
  qed
qed

text \<open>Growing keeps the data; \<open>align_power2\<close> returns powers of two that fit 32 bits.\<close>

lemma ffstream_realloc_correct:
  assumes wf: "stm_wf s" and p2: "align_power2 newcap = 2 ^ j" "j < 32"
    and al: "\<And>n m. alloc n = Some m \<Longrightarrow> length m = n"
    and r: "ffstream_realloc align_power2 alloc s newcap = (c, s')"
  shows "stm_wf s' \<and> stm_data s' = stm_data s \<and>
    (c = 0 \<and> s' = s \<or> c = unat (st_cap s') \<and> align_power2 newcap \<le> c)"
proof (cases "align_power2 newcap \<le> unat (st_cap s)")
  case True
  with r wf show ?thesis by (auto simp: ffstream_realloc_def)
next
  case False
  obtain k where k: "pow2_cap s k" using wf by (auto simp: stm_wf_def)
  show ?thesis
  proof (cases "alloc (2 ^ j)")
    case None
    with r wf False p2 show ?thesis by (simp add: ffstream_realloc_def)
  next
    case (Some p)
    have lp: "length p = 2 ^ j" using al [OF Some] .
    define cap :: "32 word" where "cap = 2 ^ j"
    have cap: "(word_of_nat (2 ^ j) :: 32 word) = cap" "unat cap = 2 ^ j"
      using p2 by (simp_all add: cap_def unat_pow2)
    define s1 where "s1 = (if st_ref s = []
      then s\<lparr>st_ptr := mem_write p 0 (blk s (at s (st_r s))), st_r := 0, st_w := ffstream_used s\<rparr>
      else s\<lparr>st_ptr := p\<rparr>)"
    have s': "s' = s1\<lparr>st_cap := cap, st_mask := cap - 1\<rparr>" and c: "c = unat cap"
      using r False p2 Some cap by (auto simp: ffstream_realloc_def Let_def s1_def)
    have u: "ffstream_used s' = ffstream_used s"
      by (simp add: s' s1_def ffstream_used_def)
    have lt: "unat (ffstream_used s) \<le> 2 ^ j" if "st_ref s = []"
      using wf that False p2 by (auto simp: stm_wf_def)
    have lb: "length (blk s (at s (st_r s))) = unat (ffstream_used s)" if "st_ref s = []"
      using length_stm_data [OF wf] that by (simp add: stm_data_def ffstream_view_def)
    have k': "pow2_cap s' j"
      using lt lb lp p2 by (auto simp: pow2_cap_def s' s1_def cap_def)
    have "stm_wf s' \<and> stm_data s' = stm_data s"
    proof (cases "st_ref s = []")
      case True
      have a0: "at s' (st_r s') = 0" using True at_mod [OF k'] by (simp add: s' s1_def)
      have "blk s' 0 = blk s (at s (st_r s))"
        unfolding blk_def [of s'] u using lb lt lp True by (simp add: s' s1_def mem_write_def)
      with a0 u k' lt True cap show ?thesis
        by (auto simp: stm_wf_def stm_data_def ffstream_view_def s' s1_def)
    next
      case False
      have "ref_tail s' = ref_tail s" unfolding ref_tail_def u using False by (simp add: s' s1_def)
      with False u k' wf show ?thesis
        by (auto simp: stm_wf_def stm_data_def ffstream_view_def s' s1_def)
    qed
    then show ?thesis using c p2 cap s' by simp
  qed
qed

section \<open>Reading fields from a chunked input\<close>

text \<open>
  The user of a stream: \<open>take_field\<close> gathers the next \<open>g\<close> bytes from the chunks and consumes
  them, \<open>take_fields\<close> reads fields of the given lengths one after another. \<^const>\<open>None\<close>: the
  input ended before, or an assertion failed.
\<close>

fun take_field ::
  "('s \<Rightarrow> bytes \<Rightarrow> nat \<Rightarrow> (nat \<times> bytes \<times> 's) option) \<Rightarrow> ('s \<Rightarrow> nat \<Rightarrow> 's option) \<Rightarrow>
   's \<Rightarrow> nat \<Rightarrow> bytes list \<Rightarrow> (bytes \<times> 's \<times> bytes list) option" where
  "take_field ga co s g [] =
     (case ga s [] g of
        None \<Rightarrow> None
      | Some (n, out, s') \<Rightarrow>
          if g \<le> length out then map_option (\<lambda>s''. (take g out, s'', [])) (co s' g) else None)"
| "take_field ga co s g (c # cs) =
     (case ga s c g of
        None \<Rightarrow> None
      | Some (n, out, s') \<Rightarrow>
          if g \<le> length out then map_option (\<lambda>s''. (take g out, s'', drop n c # cs)) (co s' g)
          else take_field ga co s' g cs)"

fun take_fields ::
  "('s \<Rightarrow> bytes \<Rightarrow> nat \<Rightarrow> (nat \<times> bytes \<times> 's) option) \<Rightarrow> ('s \<Rightarrow> nat \<Rightarrow> 's option) \<Rightarrow>
   's \<Rightarrow> nat list \<Rightarrow> bytes list \<Rightarrow> bytes list option" where
  "take_fields ga co s [] cs = Some []"
| "take_fields ga co s (g # gs) cs =
     (case take_field ga co s g cs of
        None \<Rightarrow> None
      | Some (x, s', cs') \<Rightarrow> map_option (\<lambda>xs. x # xs) (take_fields ga co s' gs cs'))"

text \<open>The same fields cut out of the whole data.\<close>

fun cut_fields :: "bytes \<Rightarrow> nat list \<Rightarrow> bytes list option" where
  "cut_fields d [] = Some []"
| "cut_fields d (g # gs) =
     (if length d < g then None else map_option (\<lambda>xs. take g d # xs) (cut_fields (drop g d) gs))"

definition small :: "bytes \<Rightarrow> bool" where
  "small c \<longleftrightarrow> length c < 2 ^ 32"

lemma small_Nil: "small []"
  by (simp add: small_def)

lemma small_drop: "small c \<Longrightarrow> small (drop n c)"
  by (simp add: small_def)

locale byte_window =
  fixes inv :: "'s \<Rightarrow> bool" and data :: "'s \<Rightarrow> bytes" and room :: "'s \<Rightarrow> nat"
    and ga :: "'s \<Rightarrow> bytes \<Rightarrow> nat \<Rightarrow> (nat \<times> bytes \<times> 's) option" and co :: "'s \<Rightarrow> nat \<Rightarrow> 's option"
  assumes gather_law: "inv s \<Longrightarrow> g \<le> room s \<Longrightarrow> small input \<Longrightarrow>
      \<exists>n out s'. ga s input g = Some (n, out, s') \<and> inv s' \<and> data s' = out \<and>
        gathered (data s) input g n out \<and> room s' = room s"
    and consume_law: "inv s \<Longrightarrow> n \<le> length (data s) \<Longrightarrow>
      \<exists>s'. co s n = Some s' \<and> inv s' \<and> data s' = drop n (data s) \<and> room s' = room s"
begin

text \<open>What \<open>take_field\<close> is to return when \<open>all\<close> is the data from here on.\<close>

definition field_ok :: "bytes \<Rightarrow> nat \<Rightarrow> nat \<Rightarrow> (bytes \<times> 's \<times> bytes list) option \<Rightarrow> bool" where
  "field_ok all g r res \<longleftrightarrow>
     (case res of
        None \<Rightarrow> length all < g
      | Some (x, s', cs') \<Rightarrow> g \<le> length all \<and> x = take g all \<and> inv s' \<and> room s' = r \<and>
          data s' @ concat cs' = drop g all \<and> (\<forall>c \<in> set cs'. small c))"

lemma consume_field:
  assumes "inv s'" and "g \<le> length (data s')" and "all = data s' @ concat cs"
    and "\<forall>c \<in> set cs. small c"
  shows "field_ok all g (room s') (map_option (\<lambda>s''. (take g (data s'), s'', cs)) (co s' g))"
proof -
  obtain s'' where "co s' g = Some s''" "inv s''" "data s'' = drop g (data s')" "room s'' = room s'"
    using consume_law [OF assms(1,2)] by blast
  with assms(2,4) show ?thesis by (simp add: field_ok_def assms(3))
qed

lemma take_field_correct:
  "inv s \<Longrightarrow> g \<le> room s \<Longrightarrow> \<forall>c \<in> set cs. small c \<Longrightarrow>
   field_ok (data s @ concat cs) g (room s) (take_field ga co s g cs)"
proof (induction cs arbitrary: s)
  case Nil
  obtain n out s' where x: "ga s [] g = Some (n, out, s')" "inv s'" "data s' = out"
    "gathered (data s) [] g n out" "room s' = room s"
    using gather_law [OF Nil(1,2) small_Nil] by blast
  have o: "out = data s" using x(4) by (simp add: gathered_def)
  show ?case
  proof (cases "g \<le> length out")
    case True
    have "field_ok (data s) g (room s') (map_option (\<lambda>s''. (take g (data s'), s'', [])) (co s' g))"
      by (rule consume_field [OF x(2)]) (use True x(3) o in simp_all)
    with True x(1,3,5) o show ?thesis by simp
  next
    case False
    with x(1) o show ?thesis by (simp add: field_ok_def)
  qed
next
  case (Cons c cs)
  have lc: "small c" "\<forall>c \<in> set cs. small c" using Cons.prems(3) by auto
  obtain n out s' where x: "ga s c g = Some (n, out, s')" "inv s'" "data s' = out"
    "gathered (data s) c g n out" "room s' = room s"
    using gather_law [OF Cons.prems(1,2) lc(1)] by blast
  show ?case
  proof (cases "g \<le> length out")
    case True
    have all: "data s @ concat (c # cs) = data s' @ concat (drop n c # cs)"
    proof -
      have "out = data s @ take n c" by (rule gatheredD(1) [OF x(4)])
      moreover have "take n c @ drop n c @ concat cs = c @ concat cs"
        by (simp only: append.assoc [symmetric] append_take_drop_id)
      ultimately show ?thesis by (simp only: x(3) list.map concat.simps append.assoc)
    qed
    have "field_ok (data s @ concat (c # cs)) g (room s')
        (map_option (\<lambda>s''. (take g (data s'), s'', drop n c # cs)) (co s' g))"
    proof (rule consume_field [OF x(2) _ all])
      show "g \<le> length (data s')" using True x(3) by simp
      show "\<forall>d \<in> set (drop n c # cs). small d" using small_drop [OF lc(1)] lc(2) by simp
    qed
    with True x(1,3,5) show ?thesis by simp
  next
    case False
    then have "out = data s @ c" using gatheredD(2) [OF x(4)] by simp
    with False x(1,3,5) Cons.IH [OF x(2) _ lc(2)] Cons.prems(2) show ?thesis by simp
  qed
qed

lemma take_fields_correct:
  "inv s \<Longrightarrow> \<forall>g \<in> set gs. g \<le> room s \<Longrightarrow> \<forall>c \<in> set cs. small c \<Longrightarrow>
   take_fields ga co s gs cs = cut_fields (data s @ concat cs) gs"
proof (induction gs arbitrary: s cs)
  case (Cons g gs)
  have g: "g \<le> room s" using Cons.prems(2) by simp
  note f = take_field_correct [OF Cons.prems(1) g Cons.prems(3)]
  show ?case
  proof (cases "take_field ga co s g cs")
    case None
    with f show ?thesis by (simp add: field_ok_def)
  next
    case (Some p)
    obtain x s' cs' where p: "p = (x, s', cs')" by (cases p)
    with Some f have "g \<le> length (data s @ concat cs)" "x = take g (data s @ concat cs)"
      "inv s'" "room s' = room s" "data s' @ concat cs' = drop g (data s @ concat cs)"
      "\<forall>c \<in> set cs'. small c"
      by (simp_all add: field_ok_def)
    with Some p Cons.IH [of s' cs'] Cons.prems(2) show ?thesis by simp
  qed
qed simp

end

definition stm_room :: "ffstream \<Rightarrow> nat" where
  "stm_room s = unat (st_cap s)"

interpretation stm: byte_window "\<lambda>s. stm_wf s \<and> st_ref s = []" stm_data stm_room ffstream_gather ffstream_consume
proof
  fix s g input
  assume "stm_wf s \<and> st_ref s = []" "g \<le> stm_room s"
  then show "\<exists>n out s'. ffstream_gather s input g = Some (n, out, s') \<and> (stm_wf s' \<and> st_ref s' = []) \<and>
      stm_data s' = out \<and> gathered (stm_data s) input g n out \<and> stm_room s' = stm_room s"
    using ffstream_gather_correct [of s g input] by (auto simp: stm_room_def small_def)
next
  fix s n
  assume "stm_wf s \<and> st_ref s = []" "n \<le> length (stm_data s)"
  then show "\<exists>s'. ffstream_consume s n = Some s' \<and> (stm_wf s' \<and> st_ref s' = []) \<and>
      stm_data s' = drop n (stm_data s) \<and> stm_room s' = stm_room s"
    using ffstream_consume_correct [of s n] by (auto simp: stm_room_def small_def)
qed

interpretation stm_ref: byte_window stm_wf stm_data stm_room ffstream_gather_ref ffstream_consume
proof
  fix s g input
  assume "stm_wf s" "g \<le> stm_room s" "small input"
  then show "\<exists>n out s'. ffstream_gather_ref s input g = Some (n, out, s') \<and> stm_wf s' \<and>
      stm_data s' = out \<and> gathered (stm_data s) input g n out \<and> stm_room s' = stm_room s"
    using ffstream_gather_ref_correct [of s g input] by (auto simp: stm_room_def small_def)
next
  fix s n
  assume "stm_wf s" "n \<le> length (stm_data s)"
  then show "\<exists>s'. ffstream_consume s n = Some s' \<and> stm_wf s' \<and>
      stm_data s' = drop n (stm_data s) \<and> stm_room s' = stm_room s"
    using ffstream_consume_correct [of s n] by (auto simp: stm_room_def small_def)
qed

section \<open>Properties\<close>

text \<open>C8. Reading fields of any lengths within the capacity through the buffer yields the fields of
  the whole input, however it is cut into chunks and wherever the 32-bit counters stand; the
  copying and the referencing variant agree. Reading fails only when the input is too short.\<close>

theorem stream_fields_chunk_independent:
  assumes "stm_wf s" and "\<forall>g \<in> set gs. g \<le> stm_room s" and "\<forall>c \<in> set cs. small c"
  shows "take_fields ffstream_gather_ref ffstream_consume s gs cs = cut_fields (stm_data s @ concat cs) gs \<and>
    (st_ref s = [] \<longrightarrow>
      take_fields ffstream_gather ffstream_consume s gs cs = cut_fields (stm_data s @ concat cs) gs)"
  using stm_ref.take_fields_correct [OF assms] stm.take_fields_correct [OF _ assms(2,3)] assms(1) by simp_all

text \<open>A buffer of four bytes whose counters are about to wrap.\<close>

definition stm_example :: ffstream where
  "stm_example = \<lparr>st_ptr = ''????'', st_r = -1, st_w = -1, st_cap = 4, st_mask = 3, st_ref = []\<rparr>"

lemma stm_example_wf: "stm_wf stm_example" "stm_room stm_example = 4" "stm_data stm_example = []"
proof -
  have u: "ffstream_used stm_example = 0" by (simp add: stm_example_def ffstream_used_def)
  have "pow2_cap stm_example 2" by (simp add: pow2_cap_def stm_example_def)
  moreover have "at stm_example (st_r stm_example) = 3" by (simp add: at_def stm_example_def)
  ultimately show "stm_wf stm_example" "stm_room stm_example = 4"
    using u unfolding stm_wf_def by (auto simp: stm_room_def stm_example_def)
  then show "stm_data stm_example = []" using length_stm_data [of stm_example] u by simp
qed

theorem stream_fields_chunk_independent_witness:
  "take_fields ffstream_gather_ref ffstream_consume stm_example [2, 4] [''h'', ''el'', ''lo w'', ''orld''] =
     Some [''he'', ''llo ''] \<and>
   take_fields ffstream_gather ffstream_consume stm_example [2, 4] [''h'', ''el'', ''lo w'', ''orld''] =
     Some [''he'', ''llo '']"
  using stream_fields_chunk_independent [OF stm_example_wf(1), of "[2, 4]" "[''h'', ''el'', ''lo w'', ''orld'']"]
    stm_example_wf(2,3) by (simp add: small_def) (simp add: stm_example_def)

text \<open>C9. Growing the buffer keeps the unread bytes in order, wherever they stand in the old block,
  and either reaches the requested capacity or reports 0 and changes nothing.\<close>

theorem ffstream_realloc_keeps:
  assumes "stm_wf s" and "align_power2 newcap = 2 ^ j" and "j < 32"
    and "\<forall>n m. alloc n = Some m \<longrightarrow> length m = n"
    and "ffstream_realloc align_power2 alloc s newcap = (c, s')"
  shows "stm_wf s' \<and> stm_data s' = stm_data s \<and>
    (c = 0 \<and> s' = s \<or> c = unat (st_cap s') \<and> align_power2 newcap \<le> c)"
  by (rule ffstream_realloc_correct [OF assms(1-3) _ assms(5)]) (use assms(4) in blast)

theorem ffstream_realloc_keeps_witness:
  "case ffstream_realloc (\<lambda>n. 8) (\<lambda>n. Some (replicate n (CHR ''x''))) stm_example 5 of (c, s') \<Rightarrow>
    stm_wf s' \<and> stm_data s' = [] \<and> (c = 0 \<and> s' = stm_example \<or> c = unat (st_cap s') \<and> 8 \<le> c)"
  using ffstream_realloc_keeps [OF stm_example_wf(1), of "\<lambda>n. 8" 5 3 "\<lambda>n. Some (replicate n (CHR ''x''))"]
    stm_example_wf(3) by (simp split: prod.splits)

end
