(* ===== verification/TaskQueue.thy ===== *)
theory TaskQueue
  imports Prelude
begin

text \<open>
  The core's task queue, \<open>src/util/taskqueue.h\<close>. A task is an address \<open>'t\<close>; its structure (the
  handler, its parameter and whether \<open>sib.next\<close> is set) is in a memory, because a task can be set while it is
  queued. The doubly linked list of ffbase is its list of addresses: \<open>fflist_add\<close> puts an item at the end and
  \<open>fflist_rm\<close> takes it out and clears its links. That the links tell which tasks are in the list is the invariant
  \<open>tq_wf\<close>. Each operation holds the lock while it touches the list, so it is one step.
\<close>

section \<open>Data and operations\<close>

record ('h, 'p) fftask =
  tk_handler :: 'h
  tk_param :: 'p
  tk_sib :: bool

record ('t, 'h, 'p) fftaskqueue =
  tq_tasks :: "'t list"
  tq_mem :: "'t \<Rightarrow> ('h, 'p) fftask"

definition fftask_set :: "('t, 'h, 'p) fftaskqueue \<Rightarrow> 't \<Rightarrow> 'h \<Rightarrow> 'p \<Rightarrow> ('t, 'h, 'p) fftaskqueue" where
  "fftask_set q t func udata = q\<lparr>tq_mem := (tq_mem q)(t := (tq_mem q t)\<lparr>tk_handler := func, tk_param := udata\<rparr>)\<rparr>"

definition fflist_add :: "('t, 'h, 'p) fftaskqueue \<Rightarrow> 't \<Rightarrow> ('t, 'h, 'p) fftaskqueue" where
  "fflist_add q t = q\<lparr>tq_tasks := tq_tasks q @ [t], tq_mem := (tq_mem q)(t := (tq_mem q t)\<lparr>tk_sib := True\<rparr>)\<rparr>"

definition fflist_rm :: "('t, 'h, 'p) fftaskqueue \<Rightarrow> 't \<Rightarrow> ('t, 'h, 'p) fftaskqueue" where
  "fflist_rm q t = q\<lparr>tq_tasks := remove1 t (tq_tasks q), tq_mem := (tq_mem q)(t := (tq_mem q t)\<lparr>tk_sib := False\<rparr>)\<rparr>"

definition fftaskqueue_init :: "('t, 'h, 'p) fftaskqueue \<Rightarrow> ('t, 'h, 'p) fftaskqueue" where
  "fftaskqueue_init q = q\<lparr>tq_tasks := []\<rparr>"

definition fftaskqueue_active :: "('t, 'h, 'p) fftaskqueue \<Rightarrow> 't \<Rightarrow> bool" where
  "fftaskqueue_active q t \<longleftrightarrow> tk_sib (tq_mem q t)"

definition fftaskqueue_post :: "('t, 'h, 'p) fftaskqueue \<Rightarrow> 't \<Rightarrow> nat \<times> ('t, 'h, 'p) fftaskqueue" where
  "fftaskqueue_post q t =
     (if fftaskqueue_active q t then (0, q)
      else (if tq_tasks q = [] then 1 else 0, fflist_add q t))"

definition fftaskqueue_post4 ::
  "('t, 'h, 'p) fftaskqueue \<Rightarrow> 't \<Rightarrow> 'h \<Rightarrow> 'p \<Rightarrow> ('t, 'h, 'p) fftaskqueue" where
  "fftaskqueue_post4 q t func param = snd (fftaskqueue_post (fftask_set q t func param) t)"

definition fftaskqueue_del :: "('t, 'h, 'p) fftaskqueue \<Rightarrow> 't \<Rightarrow> ('t, 'h, 'p) fftaskqueue" where
  "fftaskqueue_del q t =
     (if \<not> fftaskqueue_active q t then q else fflist_rm q t)"

text \<open>The loop of \<open>fftaskqueue_run\<close> with \<open>k = nn - n\<close> rounds to go: how many tasks it ran.\<close>

fun run_loop ::
  "('h \<Rightarrow> 'p \<Rightarrow> ('t, 'h, 'p) fftaskqueue \<Rightarrow> 'w \<Rightarrow> ('t, 'h, 'p) fftaskqueue \<times> 'w) \<Rightarrow>
   nat \<Rightarrow> ('t, 'h, 'p) fftaskqueue \<Rightarrow> 'w \<Rightarrow> nat \<times> ('t, 'h, 'p) fftaskqueue \<times> 'w" where
  "run_loop call 0 q w = (0, q, w)"
| "run_loop call (Suc k) q w =
     (case tq_tasks q of
        [] \<Rightarrow> (0, q, w)
      | t # ts \<Rightarrow>
          (let q1 = fflist_rm q t;
               (q2, w2) = call (tk_handler (tq_mem q1 t)) (tk_param (tq_mem q1 t)) q1 w;
               (n, r) = run_loop call k q2 w2
           in (Suc n, r)))"

definition fftaskqueue_run ::
  "('h \<Rightarrow> 'p \<Rightarrow> ('t, 'h, 'p) fftaskqueue \<Rightarrow> 'w \<Rightarrow> ('t, 'h, 'p) fftaskqueue \<times> 'w) \<Rightarrow>
   ('t, 'h, 'p) fftaskqueue \<Rightarrow> 'w \<Rightarrow> nat \<times> ('t, 'h, 'p) fftaskqueue \<times> 'w" where
  "fftaskqueue_run call q w = run_loop call (length (tq_tasks q)) q w"

section \<open>The queue as its users see it\<close>

text \<open>The links of the tasks and the list agree.\<close>

definition tq_wf :: "('t, 'h, 'p) fftaskqueue \<Rightarrow> bool" where
  "tq_wf q \<longleftrightarrow> distinct (tq_tasks q) \<and> (\<forall>t. tk_sib (tq_mem q t) \<longleftrightarrow> t \<in> set (tq_tasks q))"

text \<open>The elements of a list in the order of their first occurrence.\<close>

definition firsts :: "'a list \<Rightarrow> 'a list" where
  "firsts xs = rev (remdups (rev xs))"

lemma firsts_snoc: "firsts (xs @ [x]) = (if x \<in> set xs then firsts xs else firsts xs @ [x])"
  by (simp add: firsts_def)

lemma firsts_distinct: "distinct xs \<Longrightarrow> firsts xs = xs"
  by (simp add: firsts_def distinct_remdups_id)

lemma set_firsts: "set (firsts xs) = set xs"
  by (simp add: firsts_def)

locale work_queue =
  fixes wf :: "'q \<Rightarrow> bool" and items :: "'q \<Rightarrow> 't list" and post :: "'q \<Rightarrow> 't \<Rightarrow> 'q" and del :: "'q \<Rightarrow> 't \<Rightarrow> 'q"
  assumes wf_distinct: "wf q \<Longrightarrow> distinct (items q)"
    and post_wf: "wf q \<Longrightarrow> wf (post q t)"
    and post_items: "wf q \<Longrightarrow> items (post q t) = (if t \<in> set (items q) then items q else items q @ [t])"
    and del_wf: "wf q \<Longrightarrow> wf (del q t)"
    and del_items: "wf q \<Longrightarrow> items (del q t) = removeAll t (items q)"
begin

lemma post_many:
  assumes "wf q"
  shows "wf (foldl post q ts) \<and> items (foldl post q ts) = firsts (items q @ ts)"
proof (induction ts rule: rev_induct)
  case Nil
  with assms show ?case by (simp add: firsts_distinct wf_distinct)
next
  case (snoc t ts)
  then show ?case
    using firsts_snoc [of "items q @ ts" t] by (simp add: post_wf post_items set_firsts)
qed

lemma post_del:
  assumes "wf q" and "t \<notin> set (items q)"
  shows "items (del (post q t) t) = items q"
  using assms by (simp add: post_wf post_items del_items)

end

interpretation tq: work_queue tq_wf tq_tasks "\<lambda>q t. snd (fftaskqueue_post q t)" fftaskqueue_del
  by unfold_locales
    (auto simp: tq_wf_def fftaskqueue_post_def fftaskqueue_active_def fftaskqueue_del_def fflist_add_def fflist_rm_def
      distinct_remove1_removeAll distinct_removeAll)

section \<open>Running\<close>

lemma run_loop_bound: "run_loop call k q w = (n, r) \<Longrightarrow> n \<le> k"
proof (induction k arbitrary: q w n r)
  case (Suc k)
  show ?case
  proof (cases "tq_tasks q")
    case (Cons t ts)
    define q1 where "q1 = fflist_rm q t"
    obtain q2 w2 where c: "call (tk_handler (tq_mem q1 t)) (tk_param (tq_mem q1 t)) q1 w = (q2, w2)"
      by fastforce
    obtain m r' where r: "run_loop call k q2 w2 = (m, r')" by (metis surj_pair)
    have "run_loop call (Suc k) q w = (Suc m, r')"
      using Cons c r by (simp add: q1_def Let_def)
    with Suc.prems Suc.IH [OF r] show ?thesis by simp
  qed (use Suc.prems in simp)
qed simp

text \<open>
  Handlers that post tasks, also tasks that are queued already, whose handler and parameter then change in their
  place: \<open>calls w\<close> is the record the world keeps of the calls made and of what each of them posted.
\<close>

definition post_task :: "('t, 'h, 'p) fftaskqueue \<Rightarrow> 't \<times> 'h \<times> 'p \<Rightarrow> ('t, 'h, 'p) fftaskqueue" where
  "post_task q x = (case x of (t, h, p) \<Rightarrow> fftaskqueue_post4 q t h p)"

definition posting_calls ::
  "('h \<Rightarrow> 'p \<Rightarrow> ('t, 'h, 'p) fftaskqueue \<Rightarrow> 'w \<Rightarrow> ('t, 'h, 'p) fftaskqueue \<times> 'w) \<Rightarrow>
   ('w \<Rightarrow> (('h \<times> 'p) \<times> ('t \<times> 'h \<times> 'p) list) list) \<Rightarrow> bool" where
  "posting_calls call calls \<longleftrightarrow>
     (\<forall>h p q w. \<exists>ps w'. call h p q w = (foldl post_task q ps, w') \<and> calls w' = calls w @ [((h, p), ps)])"

definition task_call :: "('t, 'h, 'p) fftaskqueue \<Rightarrow> 't \<Rightarrow> 'h \<times> 'p" where
  "task_call q t = (tk_handler (tq_mem q t), tk_param (tq_mem q t))"

lemma post_task_posts:
  assumes "tq_wf q"
  shows "tq_wf (foldl post_task q ps) \<and>
    (\<exists>new. tq_tasks (foldl post_task q ps) = tq_tasks q @ new \<and> set new \<subseteq> fst ` set ps)"
proof (induction ps rule: rev_induct)
  case Nil
  with assms show ?case by simp
next
  case (snoc x ps)
  define r where "r = foldl post_task q ps"
  obtain t h p where x: "x = (t, h, p)" by (metis prod_cases3)
  obtain new where n: "tq_wf r" "tq_tasks r = tq_tasks q @ new" "set new \<subseteq> fst ` set ps" using snoc by (auto simp: r_def)
  define r' where "r' = fftask_set r t h p"
  have wf': "tq_wf r'" and tasks': "tq_tasks r' = tq_tasks r" using n(1) by (auto simp: tq_wf_def r'_def fftask_set_def)
  have "post_task r x = snd (fftaskqueue_post r' t)" by (simp add: x post_task_def fftaskqueue_post4_def r'_def)
  with tq.post_wf [OF wf', of t] tq.post_items [OF wf', of t] n(2,3) tasks' show ?case
    by (auto simp: r_def [symmetric] x)
qed

text \<open>What a task calls depends on the handlers and parameters stored, not on the list.\<close>

lemma task_call_posts:
  assumes "\<And>t. task_call q t = task_call r t"
  shows "task_call (foldl post_task q ps) t = task_call (foldl post_task r ps) t"
proof (induction ps arbitrary: t rule: rev_induct)
  case Nil
  with assms show ?case by simp
next
  case (snoc x ps)
  then show ?case
    by (cases x) (auto simp: post_task_def fftaskqueue_post4_def fftaskqueue_post_def fflist_add_def fftask_set_def task_call_def)
qed

lemma task_call_other:
  "t \<notin> fst ` set ps \<Longrightarrow> task_call (foldl post_task q ps) t = task_call q t"
proof (induction ps rule: rev_induct)
  case (snoc x ps)
  then show ?case
    by (cases x) (auto simp: post_task_def fftaskqueue_post4_def fftaskqueue_post_def fflist_add_def fftask_set_def task_call_def)
qed simp

lemma run_loop_posting:
  assumes call: "posting_calls call calls"
  shows "tq_wf q \<Longrightarrow> tq_tasks q = ts @ rest \<Longrightarrow>
    \<exists>q' w' ls new. run_loop call (length ts) q w = (length ts, q', w') \<and> calls w' = calls w @ ls \<and> length ls = length ts \<and>
      (\<forall>i < length ts. fst (ls ! i) = task_call (foldl post_task q (concat (map snd (take i ls)))) (ts ! i)) \<and>
      tq_wf q' \<and> tq_tasks q' = rest @ new \<and> set new \<subseteq> fst ` set (concat (map snd ls))"
proof (induction ts arbitrary: q w rest)
  case Nil
  then show ?case by (auto intro: exI [of _ "[]"])
next
  case (Cons t ts)
  define q1 where "q1 = fflist_rm q t"
  have wf1: "tq_wf q1" "tq_tasks q1 = ts @ rest"
    using Cons.prems tq.del_wf [of q t] by (auto simp: q1_def fflist_rm_def tq_wf_def)
  define h where "h = tk_handler (tq_mem q t)"
  define p where "p = tk_param (tq_mem q t)"
  obtain ps w2 where c: "call h p q1 w = (foldl post_task q1 ps, w2)" and l: "calls w2 = calls w @ [((h, p), ps)]"
    using call unfolding posting_calls_def by blast
  define q2 where "q2 = foldl post_task q1 ps"
  obtain new where q2: "tq_wf q2" "tq_tasks q2 = (ts @ rest) @ new" "set new \<subseteq> fst ` set ps"
    using post_task_posts [OF wf1(1), of ps] wf1(2) by (auto simp: q2_def)
  obtain q' w' ls new' where r: "run_loop call (length ts) q2 w2 = (length ts, q', w')" "calls w' = calls w2 @ ls"
    "length ls = length ts" "\<forall>i < length ts. fst (ls ! i) = task_call (foldl post_task q2 (concat (map snd (take i ls)))) (ts ! i)"
    "tq_wf q'" "tq_tasks q' = (rest @ new) @ new'" "set new' \<subseteq> fst ` set (concat (map snd ls))"
    using Cons.IH [OF q2(1), of "rest @ new" w2] q2(2) by auto
  have run: "run_loop call (length (t # ts)) q w = (length (t # ts), q', w')"
    using Cons.prems c r(1) by (simp add: q1_def h_def p_def q2_def fflist_rm_def)
  have base: "task_call q1 u = task_call q u" for u by (simp add: q1_def task_call_def fflist_rm_def)
  have "fst ((((h, p), ps) # ls) ! i) =
      task_call (foldl post_task q (concat (map snd (take i (((h, p), ps) # ls))))) ((t # ts) ! i)" if "i < length (t # ts)" for i
  proof (cases i)
    case 0
    then show ?thesis by (simp add: task_call_def h_def p_def)
  next
    case (Suc j)
    with r(4) that have "fst (ls ! j) = task_call (foldl post_task q1 (ps @ concat (map snd (take j ls)))) (ts ! j)"
      by (simp add: q2_def)
    also have "\<dots> = task_call (foldl post_task q (ps @ concat (map snd (take j ls)))) (ts ! j)"
      by (rule task_call_posts [OF base])
    finally show ?thesis using Suc by simp
  qed
  moreover have "calls w' = calls w @ (((h, p), ps) # ls)" using r(2) l by simp
  moreover have "set (new @ new') \<subseteq> fst ` set (concat (map snd (((h, p), ps) # ls)))"
    using r(7) q2(3) by (simp add: image_Un) blast
  ultimately show ?case
    using run r(3,5,6)
    by (intro exI [of _ q'] exI [of _ w'] exI [of _ "((h, p), ps) # ls"] exI [of _ "new @ new'"]) (simp del: run_loop.simps)
qed

section \<open>Properties\<close>

text \<open>C10. Posting tasks in any order and any number of times leaves each of them queued once, in the
  order of their first post behind those already waiting.\<close>

theorem taskqueue_posts_once:
  assumes "tq_wf q"
  shows "tq_tasks (foldl (\<lambda>q t. snd (fftaskqueue_post q t)) q ts) = firsts (tq_tasks q @ ts) \<and>
    distinct (tq_tasks (foldl (\<lambda>q t. snd (fftaskqueue_post q t)) q ts)) \<and>
    tq_wf (foldl (\<lambda>q t. snd (fftaskqueue_post q t)) q ts)"
  using tq.post_many [OF assms, of ts] tq.wf_distinct by blast

text \<open>Tasks with a number for a handler; those of the list are linked.\<close>

definition demo_queue :: "nat list \<Rightarrow> (nat, nat, nat) fftaskqueue" where
  "demo_queue ts = \<lparr>tq_tasks = ts, tq_mem = (\<lambda>t. \<lparr>tk_handler = t, tk_param = 10 * t, tk_sib = t \<in> set ts\<rparr>)\<rparr>"

lemma demo_queue_wf: "distinct ts \<Longrightarrow> tq_wf (demo_queue ts)"
  by (simp add: tq_wf_def demo_queue_def)

theorem taskqueue_posts_once_witness:
  "tq_tasks (foldl (\<lambda>q t. snd (fftaskqueue_post q t)) (demo_queue [7]) [3, 7, 3, 5]) = [7, 3, 5]"
  using taskqueue_posts_once [OF demo_queue_wf, of "[7]" "[3, 7, 3, 5]"]
  by (simp add: demo_queue_def firsts_def)

text \<open>C11. When the handlers post tasks, and do nothing else to the queue, one run calls exactly the tasks that were
  queued when it began, first in first out, each once, and returns their number. Each is called with the handler
  and the parameter that it has when its turn comes: those it was queued with, or what an earlier call of the run set by
  posting it again. Whatever is queued afterwards was posted by a call of the run, so a task that reposts itself waits
  for the next run.\<close>

theorem taskqueue_run_fifo:
  assumes "posting_calls call calls" and "tq_wf q"
  shows "\<exists>q' w' ls. fftaskqueue_run call q w = (length (tq_tasks q), q', w') \<and>
    calls w' = calls w @ ls \<and> length ls = length (tq_tasks q) \<and>
    (\<forall>i < length ls. fst (ls ! i) = task_call (foldl post_task q (concat (map snd (take i ls)))) (tq_tasks q ! i) \<and>
      (tq_tasks q ! i \<notin> fst ` set (concat (map snd (take i ls))) \<longrightarrow> fst (ls ! i) = task_call q (tq_tasks q ! i))) \<and>
    tq_wf q' \<and> set (tq_tasks q') \<subseteq> fst ` set (concat (map snd ls))"
proof -
  obtain q' w' ls new where r: "run_loop call (length (tq_tasks q)) q w = (length (tq_tasks q), q', w')"
    "calls w' = calls w @ ls" "length ls = length (tq_tasks q)"
    "\<forall>i < length (tq_tasks q). fst (ls ! i) = task_call (foldl post_task q (concat (map snd (take i ls)))) (tq_tasks q ! i)"
    "tq_wf q'" "tq_tasks q' = new" "set new \<subseteq> fst ` set (concat (map snd ls))"
    using run_loop_posting [OF assms, of "tq_tasks q" "[]" w] by auto
  then show ?thesis
    by (intro exI [of _ q'] exI [of _ w'] exI [of _ ls]) (simp add: fftaskqueue_run_def task_call_other)
qed

text \<open>The task 1 posts the task 2, which is queued, with another parameter; the task 2 posts itself.\<close>

definition demo_call :: "nat \<Rightarrow> nat \<Rightarrow> (nat, nat, nat) fftaskqueue \<Rightarrow> ((nat \<times> nat) \<times> (nat \<times> nat \<times> nat) list) list \<Rightarrow>
    (nat, nat, nat) fftaskqueue \<times> ((nat \<times> nat) \<times> (nat \<times> nat \<times> nat) list) list" where
  "demo_call h p q w = (post_task q (2, 2, 99), w @ [((h, p), [(2, 2, 99)])])"

theorem taskqueue_run_fifo_witness:
  "\<exists>q'. fftaskqueue_run demo_call (demo_queue [1, 2]) [] = (2, q', [((1, 10), [(2, 2, 99)]), ((2, 99), [(2, 2, 99)])]) \<and>
     tq_tasks q' = [2] \<and> tq_wf q' \<and> set (tq_tasks q') \<subseteq> {2}"
proof -
  have "posting_calls demo_call (\<lambda>w. w)"
    by (auto simp: posting_calls_def demo_call_def intro!: exI [of _ "[(2, 2, 99)]"])
  from taskqueue_run_fifo [OF this demo_queue_wf, of "[1, 2]" "[]"] obtain q' w' where
    t: "fftaskqueue_run demo_call (demo_queue [1, 2]) [] = (2, q', w')" "tq_wf q'"
      "set (tq_tasks q') \<subseteq> fst ` set (concat (map snd w'))" by (auto simp: demo_queue_def)
  have "w' = [((1, 10), [(2, 2, 99)]), ((2, 99), [(2, 2, 99)])] \<and> tq_tasks q' = [2]"
    using t(1)
    by (auto simp: fftaskqueue_run_def demo_queue_def numeral_2_eq_2 demo_call_def post_task_def fftaskqueue_post4_def fftaskqueue_post_def
        fftaskqueue_active_def fftask_set_def fflist_add_def fflist_rm_def)
  with t show ?thesis by auto
qed

end
