(* ===== verification/StrLib.thy ===== *)
theory StrLib
  imports Prelude
begin

text \<open>
  The string functions of the library ffbase that the modelled code calls. The library is not
  part of the repository, so they are the fields of a record the definitions take; what the
  properties rely on is stated as \<open>ffstr_ok\<close>, the documented behaviour. \<open>ref_strlib\<close> is a concrete
  instance, for the witnesses.
\<close>

section \<open>The interface\<close>

record strlib =
  str_findchar :: "bytes \<Rightarrow> char \<Rightarrow> nat option"
  str_splitby :: "bytes \<Rightarrow> char \<Rightarrow> bytes \<times> bytes"
  str_trimwhite :: "bytes \<Rightarrow> bytes"
  str_wildcard_i :: "bytes \<Rightarrow> bytes \<Rightarrow> bool"
  str_ieq :: "bytes \<Rightarrow> bytes \<Rightarrow> bool"

text \<open>The position of the first occurrence.\<close>

fun index_of :: "char \<Rightarrow> bytes \<Rightarrow> nat option" where
  "index_of c [] = None"
| "index_of c (x # xs) = (if x = c then Some 0 else map_option Suc (index_of c xs))"

definition white :: "char \<Rightarrow> bool" where
  "white c \<longleftrightarrow> c \<in> {CHR '' '', CHR 0x09, CHR 0x0D, CHR 0x0A}"

text \<open>
  \<open>ffstr_findchar\<close> finds the first occurrence; \<open>ffstr_splitby\<close> cuts there, without the
  character, and gives everything and nothing when there is none; \<open>ffstr_trimwhite\<close> drops the
  white space at both ends.
\<close>

definition ffstr_ok :: "strlib \<Rightarrow> bool" where
  "ffstr_ok L \<longleftrightarrow>
     (\<forall>s c. str_findchar L s c = index_of c s) \<and>
     (\<forall>s c. str_splitby L s c =
        (case index_of c s of None \<Rightarrow> (s, []) | Some i \<Rightarrow> (take i s, drop (Suc i) s))) \<and>
     (\<forall>s. str_trimwhite L s = rev (dropWhile white (rev (dropWhile white s))))"

definition lower :: "char \<Rightarrow> char" where
  "lower c = (if of_char c \<in> {65..<91 :: nat} then char_of (of_char c + 32 :: nat) else c)"

text \<open>\<open>ref_strlib\<close>'s wildcard matches \<open>*\<close> (any text) and \<open>?\<close> (any character) without case.\<close>

fun wild :: "nat \<Rightarrow> bytes \<Rightarrow> bytes \<Rightarrow> bool" where
  "wild 0 p s = False"
| "wild (Suc n) [] s = (s = [])"
| "wild (Suc n) (p # ps) s =
     (if p = CHR ''*'' then wild n ps s \<or> (s \<noteq> [] \<and> wild n (p # ps) (tl s))
      else s \<noteq> [] \<and> (p = CHR ''?'' \<or> lower p = lower (hd s)) \<and> wild n ps (tl s))"

definition ref_strlib :: strlib where
  "ref_strlib =
     \<lparr>str_findchar = (\<lambda>s c. index_of c s),
      str_splitby = (\<lambda>s c. case index_of c s of None \<Rightarrow> (s, []) | Some i \<Rightarrow> (take i s, drop (Suc i) s)),
      str_trimwhite = (\<lambda>s. rev (dropWhile white (rev (dropWhile white s)))),
      str_wildcard_i = (\<lambda>p s. wild (length p + length s + 1) p s),
      str_ieq = (\<lambda>a b. map lower a = map lower b)\<rparr>"

lemma ref_strlib_ok: "ffstr_ok ref_strlib"
  by (simp add: ffstr_ok_def ref_strlib_def)

section \<open>Consequences\<close>

lemma ffstrD:
  assumes "ffstr_ok L"
  shows "str_findchar L s c = index_of c s"
    and "str_splitby L s c = (case index_of c s of None \<Rightarrow> (s, []) | Some i \<Rightarrow> (take i s, drop (Suc i) s))"
    and "str_trimwhite L s = rev (dropWhile white (rev (dropWhile white s)))"
  using assms unfolding ffstr_ok_def by blast+

lemma index_of_None: "index_of c s = None \<longleftrightarrow> c \<notin> set s"
  by (induction s) auto

lemma index_of_Some:
  "index_of c s = Some i \<Longrightarrow> i < length s \<and> s ! i = c \<and> c \<notin> set (take i s) \<and> s = take i s @ c # drop (Suc i) s"
proof (induction s arbitrary: i)
  case (Cons x xs)
  then show ?case by (cases "x = c") auto
qed simp

lemma index_of_append: "c \<notin> set a \<Longrightarrow> index_of c (a @ c # b) = Some (length a)"
  by (induction a) auto

text \<open>The lines of a text: what \<open>ffstr_splitby\<close> with a newline yields until nothing is left.\<close>

function split_lines :: "bytes \<Rightarrow> bytes list" where
  "split_lines s =
     (if s = [] then []
      else (case index_of (CHR 0x0A) s of
          None \<Rightarrow> [s]
        | Some i \<Rightarrow> take i s # split_lines (drop (Suc i) s)))"
  by pat_completeness auto
termination
  by (relation "measure length") (auto dest: index_of_Some)

declare split_lines.simps [simp del]

lemma split_lines_Nil [simp]: "split_lines [] = []"
  by (simp add: split_lines.simps)

lemma split_lines_line:
  "CHR 0x0A \<notin> set a \<Longrightarrow> split_lines (a @ CHR 0x0A # b) = a # split_lines b"
  by (subst split_lines.simps) (simp add: index_of_append)

lemma split_lines_last: "CHR 0x0A \<notin> set a \<Longrightarrow> a \<noteq> [] \<Longrightarrow> split_lines a = [a]"
  by (subst split_lines.simps) (simp add: index_of_None [THEN iffD2])

end
