(* ===== verification/Com.thy ===== *)
theory Com
  imports StrLib Flags TaskQueue Sys
begin

text \<open>
  The operation manager of \<open>src/core/com.c\<close>: the running commands, their shared settings, the
  command-line handlers that fill them, and the scan of the input names. A command is an
  address; \<open>cmds\<close> is the list of the live ones. The file tree, the argument parser and the
  directory scanner belong to ffbase and ffsys: they are the fields of \<open>comlib\<close>. The code of
  the operations (\<open>create\<close>, \<open>run\<close>, \<open>signal\<close>, the completion callback) is reached through
  \<open>opcalls\<close>, functions over the whole state, since they call back. Freeing memory has no
  counterpart.
\<close>

section \<open>Data\<close>

text \<open>\<open>on_complete\<close> holds the callback and its \<open>opaque\<close> argument.\<close>

record 'k cominfo =
  ci_argv :: "bytes list"
  ci_operation :: "bytes option"
  ci_input :: "bytes list"
  ci_include :: "bytes list"
  ci_exclude :: "bytes list"
  ci_input_fd :: fffd
  ci_stdin :: bool
  ci_recursive :: "8 word"
  ci_output :: bytes
  ci_outputz :: "bytes option"
  ci_chdir :: bytes
  ci_stdout :: bool
  ci_overwrite :: bool
  ci_test :: bool
  ci_no_prealloc :: bool
  ci_buffer_size :: nat
  ci_directio :: bool
  ci_help :: bool
  ci_on_complete :: "'k option"

record ('t, 'c, 'o, 'k) cmd =
  cm_info :: "'k cominfo"
  cm_opif :: "'o option"
  cm_op :: "nat option"
  cm_argi :: nat
  cm_ftree :: 't
  cm_ftree_cur :: 'c
  cm_ftree_name :: bytes
  cm_ftree_dir :: fffd
  cm_isdir :: bool
  cm_set_ftree :: bool
  cm_args_parsed :: bool
  cm_result :: int

text \<open>\<open>stdout_busy\<close> and \<open>exit_code\<close> belong to the core object the manager writes to.\<close>

record ('t, 'c, 'o, 'k, 'w) com =
  cmds :: "nat list"
  cmd_at :: "nat \<Rightarrow> ('t, 'c, 'o, 'k) cmd"
  taskq :: "(nat, unit, nat) fftaskqueue"
  stdout_busy :: bool
  exit_code :: "int option"
  world :: 'w

datatype rinput = RErr | RNomore | ROk bytes bytes

datatype ia = IaFile | IaDir | IaAuto

record ('t, 'c, 'b, 'd, 'w) comlib =
  clb_str :: strlib
  tree_new :: 't
  cur_zero :: 'c
  tree_add :: "'t \<Rightarrow> bytes \<Rightarrow> 't option"
  tree_next :: "bool \<Rightarrow> 't \<Rightarrow> 'c \<Rightarrow> (bytes \<times> 'b) option \<times> 'c"
  tree_attach :: "'t \<Rightarrow> 'c \<Rightarrow> 'd \<Rightarrow> 't"
  cur_stk :: "'c \<Rightarrow> 'b list"
  blk_path :: "'b \<Rightarrow> bytes"
  dir_scan :: "fffd \<Rightarrow> bytes \<Rightarrow> 'w \<Rightarrow> 'd option \<times> 'w"
  path_isdir :: "bytes \<Rightarrow> 'w \<Rightarrow> bool option \<times> 'w"
  ro_open :: "bytes \<Rightarrow> 'w \<Rightarrow> fffd \<times> 'w"
  fd_read :: "bool \<Rightarrow> fffd \<Rightarrow> 'w \<Rightarrow> bytes option \<times> 'w"
  fd_close :: "fffd \<Rightarrow> 'w \<Rightarrow> 'w"
  out_write :: "bytes \<Rightarrow> 'w \<Rightarrow> 'w"

definition ffstdin :: fffd where
  "ffstdin = Some 0"

definition cmd_upd ::
  "nat \<Rightarrow> (('t, 'c, 'o, 'k) cmd \<Rightarrow> ('t, 'c, 'o, 'k) cmd) \<Rightarrow> ('t, 'c, 'o, 'k, 'w) com \<Rightarrow> ('t, 'c, 'o, 'k, 'w) com" where
  "cmd_upd c f s = s\<lparr>cmd_at := (cmd_at s)(c := f (cmd_at s c))\<rparr>"

text \<open>The code of the operations and of the callbacks.\<close>

record ('t, 'c, 'o, 'k, 'w) opcalls =
  provide :: "bytes \<Rightarrow> 'w \<Rightarrow> 'o option \<times> 'w"
  op_create :: "'o \<Rightarrow> nat \<Rightarrow> ('t, 'c, 'o, 'k, 'w) com \<Rightarrow> nat option \<times> ('t, 'c, 'o, 'k, 'w) com"
  op_run :: "'o \<Rightarrow> nat \<Rightarrow> ('t, 'c, 'o, 'k, 'w) com \<Rightarrow> ('t, 'c, 'o, 'k, 'w) com"
  op_signal :: "'o \<Rightarrow> nat \<Rightarrow> nat \<Rightarrow> ('t, 'c, 'o, 'k, 'w) com \<Rightarrow> ('t, 'c, 'o, 'k, 'w) com"
  callback :: "'k \<Rightarrow> int \<Rightarrow> ('t, 'c, 'o, 'k, 'w) com \<Rightarrow> ('t, 'c, 'o, 'k, 'w) com"

section \<open>Life of a command\<close>

text \<open>\<open>cmd_create\<close>: \<open>c\<close> is the address \<open>ffmem_new\<close> returns.\<close>

definition cmd_create ::
  "('t, 'c, 'b, 'd, 'w) comlib \<Rightarrow> nat \<Rightarrow> ('t, 'c, 'o, 'k, 'w) com \<Rightarrow> ('t, 'c, 'o, 'k, 'w) com" where
  "cmd_create lib c s =
     s\<lparr>cmds := cmds s @ [c],
       cmd_at := (cmd_at s)(c :=
         \<lparr>cm_info = \<lparr>ci_argv = [], ci_operation = None, ci_input = [], ci_include = [], ci_exclude = [], ci_input_fd = None,
                  ci_stdin = False, ci_recursive = 0, ci_output = [], ci_outputz = None, ci_chdir = [],
                  ci_stdout = False, ci_overwrite = False, ci_test = False, ci_no_prealloc = False,
                  ci_buffer_size = 0, ci_directio = False, ci_help = False, ci_on_complete = None\<rparr>,
          cm_opif = None, cm_op = None, cm_argi = 0, cm_ftree = tree_new lib, cm_ftree_cur = cur_zero lib,
          cm_ftree_name = [], cm_ftree_dir = None, cm_isdir = False, cm_set_ftree = False, cm_args_parsed = False,
          cm_result = 1\<rparr>)\<rparr>"

definition close_unless :: "('t, 'c, 'b, 'd, 'w) comlib \<Rightarrow> bool \<Rightarrow> fffd \<Rightarrow> 'w \<Rightarrow> 'w" where
  "close_unless lib keep fd w = (if fd = None \<or> keep then w else fd_close lib fd w)"

definition cmd_destroy ::
  "('t, 'c, 'b, 'd, 'w) comlib \<Rightarrow> ('t, 'c, 'o, 'k, 'w) opcalls \<Rightarrow> nat option \<Rightarrow>
   ('t, 'c, 'o, 'k, 'w) com \<Rightarrow> ('t, 'c, 'o, 'k, 'w) com" where
  "cmd_destroy lib calls copt s0 =
     (case copt of
        None \<Rightarrow> s0
      | Some c \<Rightarrow>
          (let s = (case ci_on_complete (cm_info (cmd_at s0 c)) of
                      None \<Rightarrow> s0
                    | Some k \<Rightarrow> callback calls k (cm_result (cmd_at s0 c)) s0);
               d = cmd_at s c;
               w1 = close_unless lib False (cm_ftree_dir d) (world s);
               w2 = close_unless lib (ci_input_fd (cm_info d) = ffstdin) (ci_input_fd (cm_info d)) w1
           in s\<lparr>cmds := remove1 c (cmds s), world := w2\<rparr>))"

definition cmd_async :: "nat \<Rightarrow> ('t, 'c, 'o, 'k, 'w) com \<Rightarrow> ('t, 'c, 'o, 'k, 'w) com" where
  "cmd_async c s = s\<lparr>taskq := fftaskqueue_post4 (taskq s) c () c\<rparr>"

definition cmd_complete ::
  "('t, 'c, 'b, 'd, 'w) comlib \<Rightarrow> ('t, 'c, 'o, 'k, 'w) opcalls \<Rightarrow> nat \<Rightarrow> int \<Rightarrow>
   ('t, 'c, 'o, 'k, 'w) com \<Rightarrow> ('t, 'c, 'o, 'k, 'w) com" where
  "cmd_complete lib calls c code s =
     (let s1 = cmd_upd c (\<lambda>d. d\<lparr>cm_result := code\<rparr>) s;
          primary = (ci_on_complete (cm_info (cmd_at s1 c)) = None);
          s2 = cmd_destroy lib calls (Some c) s1
      in if primary then s2\<lparr>exit_code := Some code\<rparr> else s2)"

definition cmd_run_async ::
  "('t, 'c, 'o, 'k, 'w) opcalls \<Rightarrow> nat \<Rightarrow> ('t, 'c, 'o, 'k, 'w) com \<Rightarrow> ('t, 'c, 'o, 'k, 'w) com" where
  "cmd_run_async calls c s =
     (case (cm_opif (cmd_at s c), cm_op (cmd_at s c)) of
        (Some i, Some x) \<Rightarrow> op_run calls i x s
      | _ \<Rightarrow> s)"

text \<open>\<open>com_signal_all\<close> walks the list as it is; a command without an operation is skipped.\<close>

definition com_signal_all ::
  "('t, 'c, 'o, 'k, 'w) opcalls \<Rightarrow> nat \<Rightarrow> ('t, 'c, 'o, 'k, 'w) com \<Rightarrow> ('t, 'c, 'o, 'k, 'w) com" where
  "com_signal_all calls sig s =
     fold (\<lambda>c s. case (cm_opif (cmd_at s c), cm_op (cmd_at s c)) of
            (Some i, Some x) \<Rightarrow> op_signal calls i x sig s
          | _ \<Rightarrow> s) (cmds s) s"

text \<open>\<open>ver\<close> is the version line and the short help printed when no operation is named.\<close>

definition op_get ::
  "('t, 'c, 'b, 'd, 'w) comlib \<Rightarrow> bytes \<Rightarrow> nat \<Rightarrow> ('t, 'c, 'o, 'k, 'w) com \<Rightarrow> bool \<times> ('t, 'c, 'o, 'k, 'w) com" where
  "op_get lib ver c s =
     (let d = cmd_at s c
      in if ci_operation (cm_info d) \<noteq> None then (True, s)
         else if \<not> (ci_argv (cm_info d) \<noteq> [] \<and> (hd (ci_argv (cm_info d)) = [] \<or> hd (hd (ci_argv (cm_info d))) \<noteq> CHR ''-''))
         then (False, s\<lparr>world := out_write lib ver (world s)\<rparr>)
         else (True, cmd_upd c (\<lambda>d. d\<lparr>cm_info := (cm_info d)\<lparr>ci_operation := Some (hd (ci_argv (cm_info d)))\<rparr>, cm_argi := 1\<rparr>) s))"

definition cmd_run ::
  "('t, 'c, 'b, 'd, 'w) comlib \<Rightarrow> ('t, 'c, 'o, 'k, 'w) opcalls \<Rightarrow> bytes \<Rightarrow> nat \<Rightarrow>
   ('t, 'c, 'o, 'k, 'w) com \<Rightarrow> int \<times> ('t, 'c, 'o, 'k, 'w) com" where
  "cmd_run lib calls ver c s0 =
     (let (ok, s) = op_get lib ver c s0
      in if \<not> ok then (-1, cmd_destroy lib calls (Some c) s)
         else
           (let (i, w) = provide calls (the (ci_operation (cm_info (cmd_at s c)))) (world s);
                s1 = cmd_upd c (\<lambda>d. d\<lparr>cm_opif := i\<rparr>) (s\<lparr>world := w\<rparr>)
            in case i of
                 None \<Rightarrow> (-1, cmd_destroy lib calls (Some c) s1)
               | Some i \<Rightarrow>
                   (let (x, s2) = op_create calls i c s1;
                        s3 = cmd_upd c (\<lambda>d. d\<lparr>cm_op := x\<rparr>) s2
                    in case x of
                         None \<Rightarrow> (-1, cmd_destroy lib calls (Some c) s3)
                       | Some x \<Rightarrow>
                           if ci_on_complete (cm_info (cmd_at s3 c)) \<noteq> None then (0, cmd_async c s3)
                           else (0, op_run calls i x s3))))"

section \<open>Command-line handlers\<close>

text \<open>A handler returns whether it succeeded (\<open>0\<close>) or failed (\<open>FFCMDARG_ERROR\<close>).\<close>

definition args_input ::
  "('t, 'c, 'b, 'd, 'w) comlib \<Rightarrow> bytes \<Rightarrow> 'k cominfo \<Rightarrow> 'w \<Rightarrow> bool \<times> 'k cominfo \<times> 'w" where
  "args_input lib s i w =
     (if s \<noteq> [] \<and> hd s = CHR ''-'' then (False, i, w)
      else if s \<noteq> [] \<and> hd s = CHR ''@'' then
        (if ci_input_fd i \<noteq> None then (False, i, w)
         else if length s = 1 then (True, i\<lparr>ci_input_fd := ffstdin\<rparr>, w)
         else (let (fd, w') = ro_open lib (tl s) w
               in (fd \<noteq> None, i\<lparr>ci_input_fd := fd\<rparr>, w')))
      else (let i1 = (if s = [] then i\<lparr>ci_stdin := True\<rparr> else i)
            in (True, i1\<lparr>ci_input := ci_input i1 @ [s]\<rparr>, w)))"

definition args_include :: "bytes \<Rightarrow> 'k cominfo \<Rightarrow> 'k cominfo" where
  "args_include s i = i\<lparr>ci_include := ci_include i @ [s]\<rparr>"

definition args_exclude :: "bytes \<Rightarrow> 'k cominfo \<Rightarrow> 'k cominfo" where
  "args_exclude s i = i\<lparr>ci_exclude := ci_exclude i @ [s]\<rparr>"

definition args_buffer :: "int \<Rightarrow> 'k cominfo \<Rightarrow> bool \<times> 'k cominfo" where
  "args_buffer n i =
     (if n = 0 then (False, i) else (True, i\<lparr>ci_buffer_size := unat (word_of_int n :: 32 word)\<rparr>))"

definition args_help :: "'k cominfo \<Rightarrow> 'k cominfo" where
  "args_help i = i\<lparr>ci_help := True\<rparr>"

text \<open>The table of the options every operation has: name, value kind and target.\<close>

datatype gact = GExclude | GInclude | GRecursive | GBuffer | GChdir | GDirectio | GHelp
  | GNoPrealloc | GOut | GOverwrite | GTest | GInput

definition args_global :: "(bytes \<times> bytes \<times> gact) list" where
  "args_global =
     [(''--Exclude'', ''+S'', GExclude), (''--Include'', ''+S'', GInclude),
      (''--Recursive'', ''1'', GRecursive), (''--buffer'', ''Z'', GBuffer),
      (''--chdir'', ''=S'', GChdir), (''--directio'', ''1'', GDirectio), (''--help'', ''0'', GHelp),
      (''--no-prealloc'', ''1'', GNoPrealloc), (''--out'', ''=s'', GOut),
      (''--overwrite'', ''1'', GOverwrite), (''--test'', ''1'', GTest), (''-C'', ''=S'', GChdir),
      (''-E'', ''+S'', GExclude), (''-I'', ''+S'', GInclude), (''-R'', ''1'', GRecursive),
      (''-T'', ''1'', GTest), (''-f'', ''1'', GOverwrite), (''-h'', ''0'', GHelp), (''-o'', ''=s'', GOut),
      ([CHR 0x00, CHR 0x01], ''+S'', GInput)]"

definition global_apply ::
  "('t, 'c, 'b, 'd, 'w) comlib \<Rightarrow> gact \<Rightarrow> bytes \<Rightarrow> int \<Rightarrow> 'k cominfo \<Rightarrow> 'w \<Rightarrow> bool \<times> 'k cominfo \<times> 'w" where
  "global_apply lib a s n i w =
     (case a of
        GExclude \<Rightarrow> (True, args_exclude s i, w)
      | GInclude \<Rightarrow> (True, args_include s i, w)
      | GRecursive \<Rightarrow> (True, i\<lparr>ci_recursive := 1\<rparr>, w)
      | GBuffer \<Rightarrow> (case args_buffer n i of (ok, i') \<Rightarrow> (ok, i', w))
      | GChdir \<Rightarrow> (True, i\<lparr>ci_chdir := s\<rparr>, w)
      | GDirectio \<Rightarrow> (True, i\<lparr>ci_directio := True\<rparr>, w)
      | GHelp \<Rightarrow> (True, args_help i, w)
      | GNoPrealloc \<Rightarrow> (True, i\<lparr>ci_no_prealloc := True\<rparr>, w)
      | GOut \<Rightarrow> (True, i\<lparr>ci_outputz := Some s\<rparr>, w)
      | GOverwrite \<Rightarrow> (True, i\<lparr>ci_overwrite := True\<rparr>, w)
      | GTest \<Rightarrow> (True, i\<lparr>ci_test := True\<rparr>, w)
      | GInput \<Rightarrow> args_input lib s i w)"

text \<open>\<open>help_info_write\<close>: text and keywords alternate between backquotes.\<close>

partial_function (option) help_text :: "strlib \<Rightarrow> bool \<Rightarrow> bytes \<Rightarrow> bytes \<Rightarrow> bytes \<Rightarrow> bytes option" where
  "help_text L color on off s =
     (if s = [] then Some []
      else (let (l, s1) = str_splitby L s (CHR ''`''); (k, s2) = str_splitby L s1 (CHR ''`'')
            in Option.bind (help_text L color on off s2)
                 (\<lambda>r. Some (l @ (if color then on @ k @ off else k) @ r))))"

definition help_info_write ::
  "('t, 'c, 'b, 'd, 'w) comlib \<Rightarrow> bool \<Rightarrow> bytes \<Rightarrow> bytes \<Rightarrow> bytes \<Rightarrow> 'w \<Rightarrow> 'w option" where
  "help_info_write lib color on off s w =
     map_option (\<lambda>v. out_write lib v w) (help_text (clb_str lib) color on off s)"

definition STDOUT_NAME :: bytes where
  "STDOUT_NAME = ''STDOUT''"

text \<open>
  \<open>cmd_args_parse\<close>: the library's parser is \<open>parse\<close>, which runs the handlers of the merged table
  (the operation's own \<open>args\<close>, plus the global ones) over the operation's object, a copy of the
  settings and its own fields. \<^const>\<open>None\<close>: the arguments are parsed twice (an assertion) or the
  help text does not end.
\<close>

definition cmd_args_parse ::
  "('t, 'c, 'b, 'd, 'w) comlib \<Rightarrow>
   ((bytes \<times> bytes \<times> ('a + gact)) list \<Rightarrow> bytes list \<Rightarrow> 'k cominfo \<times> 'x \<Rightarrow> 'w \<Rightarrow> int \<times> ('k cominfo \<times> 'x) \<times> 'w) \<Rightarrow>
   (nat \<Rightarrow> 'w \<Rightarrow> 'w option) \<Rightarrow> nat \<Rightarrow> (bytes \<times> bytes \<times> 'a) list \<Rightarrow> bool \<Rightarrow> 'x \<Rightarrow>
   ('t, 'c, 'o, 'k, 'w) com \<Rightarrow> (int \<times> 'x \<times> ('t, 'c, 'o, 'k, 'w) com) option" where
  "cmd_args_parse lib parse print_help c args inout x s0 =
     (if cm_args_parsed (cmd_at s0 c) then None
      else
        (let s = cmd_upd c (\<lambda>d. d\<lparr>cm_args_parsed := True\<rparr>) s0;
             d = cmd_at s c;
             table = map (\<lambda>(n, k, a). (n, k, Inl a)) args @
                     (if inout then map (\<lambda>(n, k, a). (n, k, Inr a)) args_global else []);
             (r, (i, x'), w) = parse table (drop (cm_argi d) (ci_argv (cm_info d))) (cm_info d, x) (world s);
             s1 = s\<lparr>world := w\<rparr>
         in if r < 0 then Some (r, x', s1)
            else
              (let s2 = cmd_upd c (\<lambda>d. d\<lparr>cm_info := i\<rparr>) s1
               in if ci_help i then map_option (\<lambda>w. (1, x', s2\<lparr>world := w\<rparr>)) (print_help c (world s2))
                  else
                    (let out = (case ci_outputz i of None \<Rightarrow> ci_output i | Some z \<Rightarrow> z)
                     in if out = STDOUT_NAME
                        then Some (r, x', (cmd_upd c (\<lambda>d. d\<lparr>cm_info := i\<lparr>ci_output := [], ci_stdout := True\<rparr>\<rparr>) s2)
                          \<lparr>stdout_busy := True\<rparr>)
                        else Some (r, x', cmd_upd c (\<lambda>d. d\<lparr>cm_info := i\<lparr>ci_output := out\<rparr>\<rparr>) s2)))))"

section \<open>Input names\<close>

text \<open>\<open>input_names_read\<close>: the whole file of names first, then a name per non-empty trimmed line.\<close>

partial_function (option) names_slurp ::
  "('t, 'c, 'b, 'd, 'w) comlib \<Rightarrow> fffd \<Rightarrow> bytes \<Rightarrow> 'w \<Rightarrow> (bytes option \<times> 'w) option" where
  "names_slurp lib fd acc w =
     (let x = fd_read lib (fd = ffstdin) fd w
      in (case fst x of
            None \<Rightarrow> Some (None, snd x)
          | Some d \<Rightarrow> if d = [] then Some (Some acc, snd x) else names_slurp lib fd (acc @ d) (snd x)))"

partial_function (option) names_add ::
  "('t, 'c, 'b, 'd, 'w) comlib \<Rightarrow> bytes \<Rightarrow> 't \<Rightarrow> (bool \<times> 't) option" where
  "names_add lib view tr =
     (if view = [] then Some (True, tr)
      else
        (let p = str_splitby (clb_str lib) view (CHR 0x0A); name = str_trimwhite (clb_str lib) (fst p)
         in if name = [] then names_add lib (snd p) tr
            else (case tree_add lib tr name of
                None \<Rightarrow> Some (False, tr)
              | Some tr' \<Rightarrow> names_add lib (snd p) tr')))"

definition input_names_read ::
  "('t, 'c, 'b, 'd, 'w) comlib \<Rightarrow> fffd \<Rightarrow> 't \<Rightarrow> 'w \<Rightarrow> ((bool \<times> 't) \<times> 'w) option" where
  "input_names_read lib fd tr w =
     (case names_slurp lib fd [] w of
        None \<Rightarrow> None
      | Some (None, w') \<Rightarrow> Some ((False, tr), w')
      | Some (Some d, w') \<Rightarrow> map_option (\<lambda>r. (r, w')) (names_add lib d tr))"

text \<open>\<open>cmd_input_allowed\<close> returns 0 when the name is allowed.\<close>

definition cmd_input_allowed ::
  "('t, 'c, 'b, 'd, 'w) comlib \<Rightarrow> 'k cominfo \<Rightarrow> bytes \<Rightarrow> ia \<Rightarrow> 'w \<Rightarrow> nat \<times> 'w" where
  "cmd_input_allowed lib i name flags w =
     (let (dir, w1) =
        (if flags = IaAuto \<and> ci_include i \<noteq> [] then
           (case path_isdir lib name w of (None, w') \<Rightarrow> (False, w') | (Some b, w') \<Rightarrow> (b, w'))
         else (flags = IaDir, w));
        matches = (\<lambda>pats. \<exists>p \<in> set pats. str_wildcard_i (clb_str lib) p name)
      in if ci_include i \<noteq> [] \<and> \<not> dir \<and> \<not> matches (ci_include i) then (1, w1)
         else if matches (ci_exclude i) then (2, w1)
         else (0, w1))"

fun add_all :: "('t \<Rightarrow> bytes \<Rightarrow> 't option) \<Rightarrow> 't \<Rightarrow> bytes list \<Rightarrow> bool \<times> 't" where
  "add_all add tr [] = (True, tr)"
| "add_all add tr (x # xs) = (case add tr x of None \<Rightarrow> (False, tr) | Some tr' \<Rightarrow> add_all add tr' xs)"

definition fntr_cur_i :: "('t, 'c, 'b, 'd, 'w) comlib \<Rightarrow> 'c \<Rightarrow> nat \<Rightarrow> 'b option" where
  "fntr_cur_i lib c i = (if length (cur_stk lib c) \<le> i then None else Some (cur_stk lib c ! i))"

definition FFPATH_SLASH :: char where
  "FFPATH_SLASH = CHR ''/''"

text \<open>The last part of \<open>cmd_input_next\<close>: the cursor's next name with its path and its base.\<close>

definition next_name ::
  "('t, 'c, 'b, 'd, 'w) comlib \<Rightarrow> bool \<Rightarrow> ('t, 'c, 'o, 'k) cmd \<Rightarrow> rinput \<times> ('t, 'c, 'o, 'k) cmd" where
  "next_name lib dirfirst d =
     (case tree_next lib dirfirst (cm_ftree d) (cm_ftree_cur d) of
        (None, cur) \<Rightarrow> (RNomore, d\<lparr>cm_ftree_cur := cur\<rparr>)
      | (Some (nm, b), cur) \<Rightarrow>
          (let base = (if fntr_cur_i lib cur 0 \<noteq> None
                       then blk_path lib (case fntr_cur_i lib cur 1 of None \<Rightarrow> b | Some b1 \<Rightarrow> b1) else []);
               path = blk_path lib b;
               name = (if path \<noteq> [] then path @ [FFPATH_SLASH] @ nm else nm)
           in (ROk name base, d\<lparr>cm_ftree_cur := cur, cm_ftree_name := name\<rparr>)))"

definition cmd_input_next ::
  "('t, 'c, 'b, 'd, 'w) comlib \<Rightarrow> nat \<Rightarrow> bool \<Rightarrow> ('t, 'c, 'o, 'k, 'w) com \<Rightarrow>
   (rinput \<times> ('t, 'c, 'o, 'k, 'w) com) option" where
  "cmd_input_next lib c dirfirst s0 =
     (let d0 = cmd_at s0 c;
          (ok, tr) = (if cm_set_ftree d0 then (True, cm_ftree d0)
                      else add_all (tree_add lib) (cm_ftree d0) (ci_input (cm_info d0)));
          s1 = cmd_upd c (\<lambda>d. d\<lparr>cm_set_ftree := True, cm_ftree := tr\<rparr>) s0;
          d1 = cmd_at s1 c;
          fd = ci_input_fd (cm_info d1)
      in if \<not> ok then Some (RErr, s1)
         else
           (case (if fd = None then Some ((True, tr), world s1) else input_names_read lib fd tr (world s1)) of
              None \<Rightarrow> None
            | Some ((False, tr'), w) \<Rightarrow> Some (RErr, (cmd_upd c (\<lambda>d. d\<lparr>cm_ftree := tr'\<rparr>) s1)\<lparr>world := w\<rparr>)
            | Some ((True, tr'), w) \<Rightarrow>
                (let w2 = close_unless lib (fd = ffstdin) fd w;
                     s2 = (cmd_upd c (\<lambda>d. d\<lparr>cm_ftree := tr', cm_info := (cm_info d)\<lparr>ci_input_fd := None\<rparr>\<rparr>) s1)
                            \<lparr>world := w2\<rparr>;
                     d2 = cmd_at s2 c;
                     (scan, s3) =
                       (if cm_isdir d2 then
                          (let (r, w3) = dir_scan lib (cm_ftree_dir d2) (cm_ftree_name d2) w2;
                               d3 = d2\<lparr>cm_isdir := False, cm_ftree_dir := None\<rparr>
                           in case r of
                                None \<Rightarrow> (False, (cmd_upd c (\<lambda>_. d3) s2)\<lparr>world := w3\<rparr>)
                              | Some l \<Rightarrow>
                                  (True, (cmd_upd c (\<lambda>_. d3\<lparr>cm_ftree := tree_attach lib (cm_ftree d3) (cm_ftree_cur d3) l\<rparr>) s2)
                                     \<lparr>world := w3\<rparr>))
                        else (True, s2))
                 in if \<not> scan then Some (RErr, s3)
                    else (let (r, d) = next_name lib dirfirst (cmd_at s3 c)
                          in Some (r, cmd_upd c (\<lambda>_. d) s3)))))"

definition cmd_input_dir :: "nat \<Rightarrow> fffd \<Rightarrow> ('t, 'c, 'o, 'k, 'w) com \<Rightarrow> ('t, 'c, 'o, 'k, 'w) com" where
  "cmd_input_dir c dir s = cmd_upd c (\<lambda>d. d\<lparr>cm_isdir := True, cm_ftree_dir := dir\<rparr>) s"

section \<open>Input names from a file\<close>

definition trim :: "bytes \<Rightarrow> bytes" where
  "trim s = rev (dropWhile white (rev (dropWhile white s)))"

definition name_lines :: "bytes \<Rightarrow> bytes list" where
  "name_lines d = filter (\<lambda>n. n \<noteq> []) (map trim (split_lines d))"

text \<open>The descriptor delivers the chunks \<open>cs\<close> and then end of file, in the world \<open>w'\<close>.\<close>

fun delivers ::
  "('t, 'c, 'b, 'd, 'w) comlib \<Rightarrow> fffd \<Rightarrow> bytes list \<Rightarrow> 'w \<Rightarrow> 'w option" where
  "delivers lib fd [] w =
     (case fd_read lib (fd = ffstdin) fd w of (Some d, w') \<Rightarrow> if d = [] then Some w' else None | _ \<Rightarrow> None)"
| "delivers lib fd (c # cs) w =
     (case fd_read lib (fd = ffstdin) fd w of
        (Some d, w') \<Rightarrow> if d = c \<and> c \<noteq> [] then delivers lib fd cs w' else None
      | _ \<Rightarrow> None)"

lemma names_slurp_delivers:
  "delivers lib fd cs w = Some w' \<Longrightarrow> names_slurp lib fd acc w = Some (Some (acc @ concat cs), w')"
proof (induction cs arbitrary: acc w)
  case Nil
  then show ?case
    by (subst names_slurp.simps) (auto simp: Let_def split: prod.splits option.splits if_splits)
next
  case (Cons c cs)
  then obtain w1 where "fd_read lib (fd = ffstdin) fd w = (Some c, w1)" "c \<noteq> []" "delivers lib fd cs w1 = Some w'"
    by (auto split: prod.splits option.splits if_splits)
  with Cons.IH [of w1 "acc @ c"] show ?case by (subst names_slurp.simps) (simp add: Let_def)
qed

lemma names_add_lines:
  assumes "ffstr_ok (clb_str lib)"
  shows "names_add lib view tr = Some (add_all (tree_add lib) tr (name_lines view))"
proof (induction view arbitrary: tr rule: split_lines.induct)
  case (1 s)
  show ?case
  proof (cases "s = []")
    case True
    then show ?thesis by (simp add: names_add.simps [of lib "[]"] name_lines_def)
  next
    case ne: False
    show ?thesis
    proof (cases "index_of (CHR 0x0A) s")
      case None
      then have "name_lines s = (if trim s = [] then [] else [trim s])"
        using ne by (simp add: name_lines_def split_lines.simps [of s])
      with ne None show ?thesis
        by (simp add: names_add.simps [of lib s] names_add.simps [of lib "[]"] ffstrD [OF assms]
            trim_def [symmetric] split: option.split)
    next
      case (Some i)
      then have "name_lines s =
          (if trim (take i s) = [] then name_lines (drop (Suc i) s)
           else trim (take i s) # name_lines (drop (Suc i) s))"
        using ne by (simp add: name_lines_def split_lines.simps [of s])
      with ne Some 1 [OF ne Some] show ?thesis
        by (simp add: names_add.simps [of lib s] ffstrD [OF assms] trim_def [symmetric] split: option.split)
    qed
  qed
qed

section \<open>A library for the witnesses\<close>

text \<open>The tree is the list of the names not yet visited; the world is the data left to read.\<close>

definition list_lib :: "(bytes list, unit, unit, unit, bytes) comlib" where
  "list_lib =
     \<lparr>clb_str = ref_strlib, tree_new = [], cur_zero = (), tree_add = (\<lambda>t n. Some (t @ [n])),
      tree_next = (\<lambda>_ t c. (case t of [] \<Rightarrow> None | n # _ \<Rightarrow> Some (n, ()), c)), tree_attach = (\<lambda>t _ _. t),
      cur_stk = (\<lambda>_. []), blk_path = (\<lambda>_. []), dir_scan = (\<lambda>_ _ w. (Some (), w)),
      path_isdir = (\<lambda>_ w. (Some False, w)), ro_open = (\<lambda>_ w. (Some 5, w)),
      fd_read = (\<lambda>_ _ w. (Some (take 8 w), drop 8 w)), fd_close = (\<lambda>_ w. w), out_write = (\<lambda>d w. w)\<rparr>"

section \<open>Properties\<close>

text \<open>C14. A file of input names, however the kernel cuts it into chunks, contributes one name for
  each line that is not blank, in order, without the white space around it; reading it ends.\<close>

theorem input_names_are_lines:
  assumes "ffstr_ok (clb_str lib)" and "delivers lib fd cs w = Some w'"
  shows "input_names_read lib fd tr w = Some (add_all (tree_add lib) tr (name_lines (concat cs)), w')"
  using names_slurp_delivers [OF assms(2), of "[]"] names_add_lines [OF assms(1)]
  by (simp add: input_names_read_def)

theorem input_names_are_lines_witness:
  "input_names_read list_lib (Some 5) [''first''] (''a.txt '' @ [CHR 0x0A, CHR 0x0A] @ ''  b c'') =
     Some ((True, [''first'', ''a.txt'', ''b c'']), [])"
proof -
  have d: "delivers list_lib (Some 5) [''a.txt '' @ [CHR 0x0A, CHR 0x0A], ''  b c'']
      (''a.txt '' @ [CHR 0x0A, CHR 0x0A] @ ''  b c'') = Some []"
    by (simp add: list_lib_def)
  have "name_lines (''a.txt '' @ [CHR 0x0A, CHR 0x0A] @ ''  b c'') = [''a.txt'', ''b c'']"
    by (simp add: name_lines_def trim_def white_def split_lines.simps)
  with input_names_are_lines [OF _ d, of "[''first'']"] ref_strlib_ok show ?thesis
    by (simp add: list_lib_def)
qed

text \<open>C15. Whoever started a command hears of its end exactly once. Completing it with a code calls its callback once,
  with that code, and removes the command, whatever else the callback does to the list of commands; a command without
  a callback calls none and its code becomes the exit code of the program. A command whose operation nobody provides
  calls its callback once, with the result it was created with, and is removed. (\<open>log\<close> is the record the world keeps of the
  results given to the callback \<open>k\<close>.)\<close>

theorem cmd_complete_reports:
  assumes logs: "\<And>r s. log (world (callback calls k r s)) = log (world s) @ [r]"
    and lists: "\<And>r s. distinct (cmds s) \<Longrightarrow> distinct (cmds (callback calls k r s))"
    and quiet: "\<And>fd w. log (fd_close lib fd w) = log w" "\<And>n w. log (snd (provide calls n w)) = log w"
    and dist: "distinct (cmds s)"
  shows "(ci_on_complete (cm_info (cmd_at s c)) = Some k \<longrightarrow>
      (let s' = callback calls k code (cmd_upd c (\<lambda>d. d\<lparr>cm_result := code\<rparr>) s); t = cmd_complete lib calls c code s
       in log (world t) = log (world s) @ [code] \<and> set (cmds t) = set (cmds s') - {c} \<and> exit_code t = exit_code s')) \<and>
    (ci_on_complete (cm_info (cmd_at s c)) = None \<longrightarrow>
      (let t = cmd_complete lib calls c code s
       in log (world t) = log (world s) \<and> set (cmds t) = set (cmds s) - {c} \<and> exit_code t = Some code)) \<and>
    (ci_on_complete (cm_info (cmd_at s c)) = Some k \<and> ci_operation (cm_info (cmd_at s c)) = Some n \<and>
        fst (provide calls n (world s)) = None \<longrightarrow>
      (case cmd_run lib calls ver c s of (r, t) \<Rightarrow>
         r = -1 \<and> log (world t) = log (world s) @ [cm_result (cmd_at s c)] \<and> c \<notin> set (cmds t)))"
proof -
  have cl: "log (close_unless lib b fd w) = log w" for b fd w by (simp add: close_unless_def quiet(1))
  have d: "distinct (cmds (callback calls k r (cmd_upd c f s)))" for r f
    by (rule lists) (simp add: dist cmd_upd_def)
  have d': "distinct (cmds (callback calls k r (cmd_upd c f (s\<lparr>world := w\<rparr>))))" for r f w
    by (rule lists) (simp add: dist cmd_upd_def)
  have "ci_on_complete (cm_info (cmd_at s c)) = Some k \<Longrightarrow> ci_operation (cm_info (cmd_at s c)) = Some n \<Longrightarrow>
      fst (provide calls n (world s)) = None \<Longrightarrow>
      (case cmd_run lib calls ver c s of (r, t) \<Rightarrow>
         r = -1 \<and> log (world t) = log (world s) @ [cm_result (cmd_at s c)] \<and> c \<notin> set (cmds t))"
    using d' quiet(2) [of n "world s"] logs
    by (cases "provide calls n (world s)")
      (auto simp: cmd_run_def op_get_def cmd_destroy_def cmd_upd_def cl Let_def set_remove1_eq)
  then show ?thesis
    using d dist logs by (auto simp: cmd_complete_def cmd_destroy_def cmd_upd_def cl Let_def set_remove1_eq)
qed

text \<open>The world is the list of the results reported; the callback of the command 1 has the name 0.\<close>

definition log_lib :: "(unit, unit, unit, unit, int list) comlib" where
  "log_lib =
     \<lparr>clb_str = ref_strlib, tree_new = (), cur_zero = (), tree_add = (\<lambda>t n. Some t),
      tree_next = (\<lambda>_ t c. (None, c)), tree_attach = (\<lambda>t _ _. t),
      cur_stk = (\<lambda>_. []), blk_path = (\<lambda>_. []), dir_scan = (\<lambda>_ _ w. (Some (), w)),
      path_isdir = (\<lambda>_ w. (Some False, w)), ro_open = (\<lambda>_ w. (Some 5, w)),
      fd_read = (\<lambda>_ _ w. (Some [], w)), fd_close = (\<lambda>_ w. w), out_write = (\<lambda>d w. w)\<rparr>"

definition log_calls :: "(unit, unit, unit, nat, int list) opcalls" where
  "log_calls =
     \<lparr>provide = (\<lambda>n w. (None, w)), op_create = (\<lambda>o1 c s. (None, s)), op_run = (\<lambda>o1 x s. s), op_signal = (\<lambda>o1 x k s. s),
      callback = (\<lambda>k r s. s\<lparr>world := world s @ [r]\<rparr>)\<rparr>"

definition log_state :: "(unit, unit, unit, nat, int list) com" where
  "log_state =
     cmd_upd 1 (\<lambda>d. d\<lparr>cm_info := (cm_info d)\<lparr>ci_on_complete := Some 0, ci_operation := Some ''zzz''\<rparr>\<rparr>)
       (cmd_create log_lib 2 (cmd_create log_lib 1
         \<lparr>cmds = [], cmd_at = undefined, taskq = undefined, stdout_busy = False, exit_code = None, world = []\<rparr>))"

theorem cmd_complete_reports_witness:
  "world (cmd_complete log_lib log_calls 1 7 log_state) = [7] \<and> set (cmds (cmd_complete log_lib log_calls 1 7 log_state)) = {2} \<and>
   exit_code (cmd_complete log_lib log_calls 2 5 log_state) = Some 5 \<and>
   (case cmd_run log_lib log_calls [] 1 log_state of (r, t) \<Rightarrow> r = -1 \<and> world t = [1])"
proof -
  have st: "ci_on_complete (cm_info (cmd_at log_state 1)) = Some 0" "ci_operation (cm_info (cmd_at log_state 1)) = Some ''zzz''"
    "ci_on_complete (cm_info (cmd_at log_state 2)) = None" "cm_result (cmd_at log_state 1) = 1"
    "world log_state = []" "cmds log_state = [1, 2]"
    by (simp_all add: log_state_def cmd_create_def cmd_upd_def)
  have p: "fst (provide log_calls ''zzz'' (world log_state)) = None" by (simp add: log_calls_def)
  have cb: "cmds (callback log_calls k r s) = cmds s" for k r s by (simp add: log_calls_def)
  note r = cmd_complete_reports [of "\<lambda>w. w" log_calls 0 log_lib log_state 1 7 "''zzz''" "[]"]
  note r' = cmd_complete_reports [of "\<lambda>w. w" log_calls 0 log_lib log_state 2 5 "''zzz''" "[]"]
  from r r' st p cb show ?thesis
    by (auto simp: log_calls_def log_lib_def Let_def cmd_upd_def)
qed

end
