(* ===== verification/Mods.thy ===== *)
theory Mods
  imports StrLib
begin

text \<open>
  The module table of \<open>src/core/mods.h\<close>: shared libraries loaded on demand and aliases from one
  module name to another. The dynamic loader and the code of the modules are the fields of
  \<open>modlib\<close>; the hash map from names is a map.
\<close>

section \<open>Data and operations\<close>

record 'm modrec =
  m_name :: bytes
  m_alias_of :: "bytes option"
  m_dl :: "nat option"
  m_mod :: "'m option"

record ('m, 'o, 'w) modlib =
  mlb_str :: strlib
  core_path_of :: "bytes \<Rightarrow> bytes"
  dl_open :: "bytes \<Rightarrow> 'w \<Rightarrow> nat option \<times> 'w"
  dl_close :: "nat \<Rightarrow> 'w \<Rightarrow> 'w"
  dl_module :: "nat \<Rightarrow> 'm option"
  dl_addr :: "nat \<Rightarrow> bytes \<Rightarrow> 'o option"
  mod_ver_core :: "'m \<Rightarrow> nat"
  mod_init :: "'m \<Rightarrow> 'w \<Rightarrow> 'w"
  mod_destroy :: "'m \<Rightarrow> 'w \<Rightarrow> 'w"
  mod_provide_op :: "'m \<Rightarrow> bytes \<Rightarrow> 'o option"

definition FCOM_CORE_VER :: nat where
  "FCOM_CORE_VER = 10025"



definition mod_free :: "('m, 'o, 'w) modlib \<Rightarrow> 'm modrec \<Rightarrow> 'w \<Rightarrow> 'w" where
  "mod_free lib m w =
     (let w1 = (case m_mod m of None \<Rightarrow> w | Some x \<Rightarrow> mod_destroy lib x w)
      in (case m_dl m of None \<Rightarrow> w1 | Some d \<Rightarrow> dl_close lib d w1))"

text \<open>\<open>mods_free\<close>: \<open>order\<close> is the order in which the hash table is walked.\<close>

definition mods_free :: "('m, 'o, 'w) modlib \<Rightarrow> bytes list \<Rightarrow> (bytes \<rightharpoonup> 'm modrec) \<Rightarrow> 'w \<Rightarrow> 'w" where
  "mods_free lib order mods w =
     fold (\<lambda>n w. case mods n of None \<Rightarrow> w | Some m \<Rightarrow> mod_free lib m w) order w"

definition mod_load :: "('m, 'o, 'w) modlib \<Rightarrow> bytes \<Rightarrow> 'w \<Rightarrow> 'm modrec option \<times> 'w" where
  "mod_load lib modname w0 =
     (let m0 = \<lparr>m_name = [], m_alias_of = None, m_dl = None, m_mod = None\<rparr>;
          fn = core_path_of lib (''ops/'' @ modname @ ''.so'')
      in (case dl_open lib fn w0 of
            (None, w) \<Rightarrow> (None, mod_free lib m0 w)
          | (Some d, w) \<Rightarrow>
              (let m1 = m0\<lparr>m_dl := Some d\<rparr>
               in (case dl_module lib d of
                     None \<Rightarrow> (None, mod_free lib m1 w)
                   | Some x \<Rightarrow>
                       (let m2 = m1\<lparr>m_mod := Some x\<rparr>
                        in if mod_ver_core lib x \<noteq> FCOM_CORE_VER then (None, mod_free lib m2 w)
                           else (Some (m2\<lparr>m_name := modname\<rparr>), mod_init lib x w))))))"

text \<open>
  The lookup loop of \<open>com_provide\<close>: follows aliases, loads what is not there. It does not end on
  a cycle of aliases.
\<close>

partial_function (option) mod_find ::
  "('m, 'o, 'w) modlib \<Rightarrow> bytes \<Rightarrow> (bytes \<rightharpoonup> 'm modrec) \<Rightarrow> 'w \<Rightarrow>
   ('m modrec option \<times> (bytes \<rightharpoonup> 'm modrec) \<times> 'w) option" where
  "mod_find lib modname mods w =
     (case mods modname of
        None \<Rightarrow>
          (case mod_load lib modname w of
             (None, w') \<Rightarrow> Some (None, mods, w')
           | (Some m, w') \<Rightarrow> Some (Some m, mods(modname \<mapsto> m), w'))
      | Some m \<Rightarrow>
          (case m_alias_of m of
             Some a \<Rightarrow> mod_find lib a mods w
           | None \<Rightarrow> Some (Some m, mods, w)))"

definition com_provide ::
  "('m, 'o, 'w) modlib \<Rightarrow> bytes \<Rightarrow> bool \<Rightarrow> (bytes \<rightharpoonup> 'm modrec) \<Rightarrow> 'w \<Rightarrow>
   ('o option \<times> (bytes \<rightharpoonup> 'm modrec) \<times> 'w) option" where
  "com_provide lib operation prim mods w =
     (let (modname, op0) = str_splitby (mlb_str lib) operation (CHR ''.'');
          opname = (if str_findchar (mlb_str lib) operation (CHR ''.'') = None then modname else op0)
      in (case mod_find lib modname mods w of
            None \<Rightarrow> None
          | Some (None, mods', w') \<Rightarrow> Some (None, mods', w')
          | Some (Some m, mods', w') \<Rightarrow>
              Some ((case (case m_mod m of None \<Rightarrow> None | Some x \<Rightarrow> mod_provide_op lib x opname) of
                  Some o' \<Rightarrow> Some o'
                | None \<Rightarrow> if prim then None
                    else (case m_dl m of None \<Rightarrow> None | Some d \<Rightarrow> dl_addr lib d opname)), mods', w')))"

section \<open>The table's invariant\<close>













section \<open>Properties\<close>




end
