(* ===== verification/PathUtil.thy ===== *)
theory PathUtil
  imports Sys "HOL-Library.Sublist"
begin

text \<open>
  The C helpers of \<open>src/util/util.h\<close>: duplicating strings, comparing two strings, the shared
  parent of two paths, comparing two files by contents.
\<close>

section \<open>Strings and paths\<close>

text \<open>
  A destination string is \<^const>\<open>None\<close> when its pointer is \<open>NULL\<close>. \<open>alloc\<close> tells whether the
  allocation succeeds; the outer \<^const>\<open>None\<close> is the failed assertion. The second component is
  the pointer returned.
\<close>

definition ffstr_dup_str0 :: "bool \<Rightarrow> bytes option \<Rightarrow> bytes \<Rightarrow> (bytes option \<times> bytes option) option" where
  "ffstr_dup_str0 alloc dst src =
     (if src = [] then (if dst = None then Some (None, None) else None)
      else if alloc then Some (Some src, Some src) else Some (None, None))"

definition ffstrz_dup_str0 :: "bool \<Rightarrow> bytes option \<Rightarrow> bytes \<Rightarrow> (bytes option \<times> bytes option) option" where
  "ffstrz_dup_str0 alloc dst src =
     (if src = [] then (if dst = None then Some (None, None) else None)
      else if alloc then Some (Some src, Some (src @ [CHR 0x00])) else Some (None, None))"

fun ffs_cmp_from :: "nat \<Rightarrow> bytes \<Rightarrow> bytes \<Rightarrow> nat \<Rightarrow> int" where
  "ffs_cmp_from i a b 0 = 0"
| "ffs_cmp_from i a b (Suc n) =
     (if a ! i \<noteq> b ! i then
        (if (of_char (a ! i) :: nat) < of_char (b ! i) then - int (i + 1) else int (i + 1))
      else ffs_cmp_from (i + 1) a b n)"

definition ffs_cmp_n :: "bytes \<Rightarrow> bytes \<Rightarrow> nat \<Rightarrow> int" where
  "ffs_cmp_n a b n = ffs_cmp_from 0 a b n"

definition slash :: char where
  "slash = CHR ''/''"

text \<open>The last slash before position \<open>n\<close>.\<close>

fun ffpath_rfindslash :: "bytes \<Rightarrow> nat \<Rightarrow> nat option" where
  "ffpath_rfindslash p 0 = None"
| "ffpath_rfindslash p (Suc n) = (if p ! n = slash then Some n else ffpath_rfindslash p n)"

definition ffpath_parent :: "bytes \<Rightarrow> bytes \<Rightarrow> bytes option" where
  "ffpath_parent p1 p2 =
     (let n = min (length p1) (length p2)
      in if n = 0 then None
         else
           (let i = ffs_cmp_n p1 p2 n;
                cut = (\<lambda>n. map_option (\<lambda>k. take k p1) (ffpath_rfindslash p1 n))
            in if i = 0 then
                 (if length p1 = length p2 then Some (take n p1)
                  else if (if n = length p1 then p2 else p1) ! n = slash then Some (take n p1)
                  else cut n)
               else if i < 0 then cut (nat (- i - 1)) else cut (nat (i - 1))))"

section \<open>What they mean\<close>

text \<open>The first position where two strings differ.\<close>

lemma ffs_cmp_from_spec:
  "i + n \<le> length a \<Longrightarrow> i + n \<le> length b \<Longrightarrow>
   (case ffs_cmp_from i a b n of r \<Rightarrow>
      (r = 0 \<longleftrightarrow> take n (drop i a) = take n (drop i b)) \<and>
      (r \<noteq> 0 \<longrightarrow> (\<exists>k. i \<le> k \<and> k < i + n \<and> \<bar>r\<bar> = int (k + 1) \<and> a ! k \<noteq> b ! k \<and>
        (\<forall>j. i \<le> j \<and> j < k \<longrightarrow> a ! j = b ! j))))"
proof (induction n arbitrary: i)
  case (Suc n)
  have hd: "drop i a = a ! i # drop (Suc i) a" "drop i b = b ! i # drop (Suc i) b"
    using Suc.prems by (simp_all add: Cons_nth_drop_Suc)
  show ?case
  proof (cases "a ! i = b ! i")
    case False
    then show ?thesis
      by (auto simp: hd intro!: exI [of _ i])
  next
    case True
    define r where "r = ffs_cmp_from (Suc i) a b n"
    have r: "(r = 0 \<longleftrightarrow> take n (drop (Suc i) a) = take n (drop (Suc i) b)) \<and>
      (r \<noteq> 0 \<longrightarrow> (\<exists>k. Suc i \<le> k \<and> k < Suc i + n \<and> \<bar>r\<bar> = int (k + 1) \<and> a ! k \<noteq> b ! k \<and>
        (\<forall>j. Suc i \<le> j \<and> j < k \<longrightarrow> a ! j = b ! j)))"
      using Suc.IH [of "Suc i"] Suc.prems by (simp add: r_def)
    have "ffs_cmp_from i a b (Suc n) = r" using True by (simp add: r_def)
    moreover have "r \<noteq> 0 \<Longrightarrow> \<exists>k. i \<le> k \<and> k < i + Suc n \<and> \<bar>r\<bar> = int (k + 1) \<and> a ! k \<noteq> b ! k \<and>
        (\<forall>j. i \<le> j \<and> j < k \<longrightarrow> a ! j = b ! j)"
    proof -
      assume "r \<noteq> 0"
      with r obtain k where k: "Suc i \<le> k" "k < Suc i + n" "\<bar>r\<bar> = int (k + 1)" "a ! k \<noteq> b ! k"
        "\<forall>j. Suc i \<le> j \<and> j < k \<longrightarrow> a ! j = b ! j" by blast
      have "\<forall>j. i \<le> j \<and> j < k \<longrightarrow> a ! j = b ! j"
        using k(5) True by (metis le_eq_less_or_eq Suc_leI)
      with k show ?thesis by (intro exI [of _ k]) auto
    qed
    ultimately show ?thesis using r True by (simp add: hd)
  qed
qed simp

lemma rfindslash_Some:
  "ffpath_rfindslash p n = Some k \<Longrightarrow> k < n \<and> p ! k = slash \<and> (\<forall>j. k < j \<and> j < n \<longrightarrow> p ! j \<noteq> slash)"
proof (induction n)
  case (Suc n)
  show ?case
  proof (cases "p ! n = slash")
    case False
    with Suc show ?thesis by (auto simp: less_Suc_eq)
  qed (use Suc.prems in auto)
qed simp

lemma rfindslash_None: "ffpath_rfindslash p n = None \<longleftrightarrow> (\<forall>j < n. p ! j \<noteq> slash)"
  by (induction n) (auto simp: less_Suc_eq)

text \<open>
  A shared parent of two paths: a common prefix that ends at the end of a component in both.
\<close>

definition shared_parent :: "bytes \<Rightarrow> bytes \<Rightarrow> nat \<Rightarrow> bool" where
  "shared_parent p1 p2 n \<longleftrightarrow>
     n \<le> length p1 \<and> n \<le> length p2 \<and> take n p1 = take n p2 \<and>
     (n < length p1 \<longrightarrow> p1 ! n = slash) \<and> (n < length p2 \<longrightarrow> p2 ! n = slash)"

lemma take_eq_nth: "take n a = take n b \<Longrightarrow> n \<le> length a \<Longrightarrow> n \<le> length b \<Longrightarrow> j < n \<Longrightarrow> a ! j = b ! j"
  by (metis nth_take)

lemma nth_take_eq:
  assumes "n \<le> length a" and "n \<le> length b" and "\<And>j. j < n \<Longrightarrow> a ! j = b ! j"
  shows "take n a = take n b"
  using assms by (intro nth_equalityI) auto

text \<open>Cutting at the last slash before \<open>m\<close>, when the paths agree before \<open>m\<close> and no parent is longer.\<close>

lemma cut_parent:
  assumes m: "m \<le> length p1" "m \<le> length p2" and eq: "\<And>j. j < m \<Longrightarrow> p1 ! j = p2 ! j"
    and short: "\<And>n. shared_parent p1 p2 n \<Longrightarrow> n < m"
  shows "case ffpath_rfindslash p1 m of
      None \<Rightarrow> \<forall>n. \<not> shared_parent p1 p2 n
    | Some k \<Rightarrow> shared_parent p1 p2 k \<and> (\<forall>n. shared_parent p1 p2 n \<longrightarrow> n \<le> k)"
proof (cases "ffpath_rfindslash p1 m")
  case None
  then have "\<forall>j < m. p1 ! j \<noteq> slash" by (simp add: rfindslash_None)
  moreover have "shared_parent p1 p2 n \<Longrightarrow> p1 ! n = slash" for n
    using short [of n] m by (auto simp: shared_parent_def)
  ultimately show ?thesis using None short by auto
next
  case (Some k)
  note k = rfindslash_Some [OF Some]
  have "take k p1 = take k p2"
    using k m eq by (intro nth_take_eq) auto
  then have "shared_parent p1 p2 k"
    using k m eq [of k] by (auto simp: shared_parent_def)
  moreover have "n \<le> k" if n: "shared_parent p1 p2 n" for n
  proof (rule ccontr)
    assume "\<not> n \<le> k"
    moreover have "n < m" by (rule short [OF n])
    ultimately have "p1 ! n \<noteq> slash" using k by auto
    then show False using n \<open>n < m\<close> m by (auto simp: shared_parent_def)
  qed
  ultimately show ?thesis using Some by simp
qed

section \<open>Comparing files\<close>

text \<open>
  \<open>file_cmp\<close>: 0 equal, 1 not equal, negative error. A name is \<^const>\<open>None\<close> for \<open>NULL\<close>, which
  \<open>fs_openz\<close> (\<open>fffile_open\<close> with \<open>O_RDONLY\<close>) is given too. \<open>alloc\<close>: the buffer is allocated.
\<close>

datatype cmp_step = CDiffer | CError | CShort | CSame

definition cmp_chunk :: "('w, 'i) sys \<Rightarrow> fffd \<Rightarrow> fffd \<Rightarrow> nat \<Rightarrow> nat \<Rightarrow> 'w \<Rightarrow> cmp_step \<times> 'w" where
  "cmp_chunk sys f1 f2 window off w =
     (let (r1, w1) = fs_readat sys f1 window off w;
          (r2, w2) = fs_readat sys f2 window off w1
      in (case (r1, r2) of
            (Some d1, Some d2) \<Rightarrow>
              (if d1 \<noteq> d2 then CDiffer else if length d1 < window then CShort else CSame, w2)
          | _ \<Rightarrow> (CError, w2)))"

definition cmp_result :: "cmp_step \<Rightarrow> int" where
  "cmp_result s = (case s of CDiffer \<Rightarrow> 1 | CError \<Rightarrow> -1 | _ \<Rightarrow> 0)"

text \<open>
  With \<open>FILE_CMP_FAST\<close>: the offsets still to do, the first one that is negative as a signed
  64-bit number (here \<^const>\<open>None\<close>) ends the loop.
\<close>

fun cmp_fast :: "('w, 'i) sys \<Rightarrow> fffd \<Rightarrow> fffd \<Rightarrow> nat \<Rightarrow> nat option list \<Rightarrow> 'w \<Rightarrow> int \<times> 'w" where
  "cmp_fast sys f1 f2 window [] w = (0, w)"
| "cmp_fast sys f1 f2 window (None # os) w = (0, w)"
| "cmp_fast sys f1 f2 window (Some off # os) w =
     (case cmp_chunk sys f1 f2 window off w of
        (CSame, w') \<Rightarrow> cmp_fast sys f1 f2 window os w'
      | (s, w') \<Rightarrow> (cmp_result s, w'))"

partial_function (option) cmp_full ::
  "('w, 'i) sys \<Rightarrow> fffd \<Rightarrow> fffd \<Rightarrow> nat \<Rightarrow> nat \<Rightarrow> 'w \<Rightarrow> (int \<times> 'w) option" where
  "cmp_full sys f1 f2 window off w =
     (let x = cmp_chunk sys f1 f2 window off w
      in if fst x = CSame then cmp_full sys f1 f2 window (off + window) (snd x)
         else Some (cmp_result (fst x), snd x))"

definition fast_offsets :: "nat \<Rightarrow> nat \<Rightarrow> nat option list" where
  "fast_offsets sz window =
     [Some 0, if window < sz then Some (sz div 2) else None, if window \<le> sz then Some (sz - window) else None]"

definition close2 :: "('w, 'i) sys \<Rightarrow> fffd \<Rightarrow> fffd \<Rightarrow> 'w \<Rightarrow> 'w" where
  "close2 sys f1 f2 w = snd (fs_close sys f2 (snd (fs_close sys f1 w)))"

definition file_cmp ::
  "('w, 'i) sys \<Rightarrow> (bytes option \<Rightarrow> 'w \<Rightarrow> fffd \<times> 'w) \<Rightarrow> bool \<Rightarrow> bytes option \<Rightarrow> bytes option \<Rightarrow> nat \<Rightarrow> bool \<Rightarrow>
   'w \<Rightarrow> (int \<times> 'w) option" where
  "file_cmp sys openz alloc fn1 fn2 window fast w0 =
     (let (f1, w1) = openz fn1 w0;
          (f2, w2) = (if f1 = None then (None, w1) else openz fn2 w1);
          fin = (\<lambda>(rc, w). (rc, close2 sys f1 f2 w))
      in if f1 = None \<or> f2 = None then Some (fin (-1, w2))
         else (let sz = fs_size sys f1 w2
               in if sz \<noteq> fs_size sys f2 w2 then Some (fin (1, w2))
                  else if \<not> alloc then Some (fin (-1, w2))
                  else if fast then Some (fin (cmp_fast sys f1 f2 window (fast_offsets sz window) w2))
                  else map_option fin (cmp_full sys f1 f2 window 0 w2)))"

text \<open>A readable file with the contents \<open>c\<close>, which nobody changes meanwhile.\<close>

definition static_file :: "('w, 'i) sys \<Rightarrow> fffd \<Rightarrow> bytes \<Rightarrow> bool" where
  "static_file sys fd c \<longleftrightarrow>
     (\<forall>n off w. fst (fs_readat sys fd n off w) = Some (take n (drop off c))) \<and>
     (\<forall>w. fs_size sys fd w = length c)"

lemma cmp_chunk_static:
  assumes "static_file sys f1 c1" and "static_file sys f2 c2"
  shows "fst (cmp_chunk sys f1 f2 window off w) =
    (if take window (drop off c1) \<noteq> take window (drop off c2) then CDiffer
     else if length c1 - off < window then CShort else CSame)"
proof -
  obtain r1 w1 where r1: "fs_readat sys f1 window off w = (r1, w1)" by fastforce
  obtain r2 w2 where r2: "fs_readat sys f2 window off w1 = (r2, w2)" by fastforce
  have "r1 = Some (take window (drop off c1))" "r2 = Some (take window (drop off c2))"
    using assms r1 r2 unfolding static_file_def by (metis fst_conv)+
  moreover have "length (take window (drop off c1)) < window \<longleftrightarrow> length c1 - off < window"
    by (simp add: min_less_iff_disj)
  ultimately show ?thesis
    using r1 r2 by (simp only: cmp_chunk_def Let_def prod.case option.case) (simp only: fst_conv split: if_split)
qed

lemma cmp_fast_equal:
  assumes "static_file sys f1 c" and "static_file sys f2 c"
  shows "fst (cmp_fast sys f1 f2 window os w) = 0"
proof (induction os arbitrary: w)
  case (Cons o1 os)
  show ?case
  proof (cases o1)
    case (Some off)
    obtain s w' where s: "cmp_chunk sys f1 f2 window off w = (s, w')" by fastforce
    then have "s = CShort \<or> s = CSame"
      using cmp_chunk_static [OF assms, of window off w] by (simp split: if_splits)
    with s Some Cons.IH [of w'] show ?thesis by (auto simp: cmp_result_def)
  qed simp
qed simp

lemma take_drop_all_eq:
  assumes "take k a = take k b" and "take n (drop k a) = take n (drop k b)"
    and "length a = length b" and "length a - k < n"
  shows "a = b"
proof -
  have "drop k a = drop k b" using assms(2-4) by simp
  then show ?thesis using assms(1) by (metis append_take_drop_id)
qed

lemma cmp_full_static:
  assumes f: "static_file sys f1 c1" "static_file sys f2 c2" and l: "length c1 = length c2" and w0: "0 < window"
  shows "take off c1 = take off c2 \<Longrightarrow>
    \<exists>rc w'. cmp_full sys f1 f2 window off w = Some (rc, w') \<and> rc = (if c1 = c2 then 0 else 1)"
proof (induction "length c1 - off" arbitrary: off w rule: less_induct)
  case less
  obtain s w' where s: "cmp_chunk sys f1 f2 window off w = (s, w')" by fastforce
  note st = cmp_chunk_static [OF f, of window off w, unfolded s fst_conv]
  show ?case
  proof (cases "s = CSame")
    case True
    then have eq: "take window (drop off c1) = take window (drop off c2)" and le: "\<not> length c1 - off < window"
      using st by (auto split: if_splits)
    have "take (off + window) c1 = take (off + window) c2"
      using less.prems eq by (simp add: take_add)
    moreover have "length c1 - (off + window) < length c1 - off" using le w0 by linarith
    ultimately obtain rc w'' where "cmp_full sys f1 f2 window (off + window) w' = Some (rc, w'')"
      "rc = (if c1 = c2 then 0 else 1)" using less.hyps by blast
    with s True show ?thesis by (subst cmp_full.simps) simp
  next
    case False
    then have "cmp_full sys f1 f2 window off w = Some (cmp_result s, w')"
      using s by (subst cmp_full.simps) simp
    moreover have "cmp_result s = (if c1 = c2 then 0 else 1)"
      using False st take_drop_all_eq [OF less.prems _ l] by (auto simp: cmp_result_def split: if_splits)
    ultimately show ?thesis by blast
  qed
qed

section \<open>The fast comparison\<close>

text \<open>
  The documented behaviour of opening files by name, reading, measuring and closing them, on a disk
  with the contents \<open>files\<close> that nobody writes to. \<open>cont w\<close>: the contents behind the descriptors
  that are open in \<open>w\<close>; a new descriptor is none of them.
\<close>

definition ro_kernel ::
  "('w, 'i) sys \<Rightarrow> (bytes option \<Rightarrow> 'w \<Rightarrow> fffd \<times> 'w) \<Rightarrow> (bytes option \<Rightarrow> bytes option) \<Rightarrow>
   ('w \<Rightarrow> nat \<rightharpoonup> bytes) \<Rightarrow> bool" where
  "ro_kernel sys openz files cont \<longleftrightarrow>
     (\<forall>n w. case files n of
        None \<Rightarrow> fst (openz n w) = None
      | Some c \<Rightarrow> \<exists>k. fst (openz n w) = Some k \<and> cont w k = None \<and> cont (snd (openz n w)) = (cont w)(k \<mapsto> c)) \<and>
     (\<forall>k c n off w. cont w k = Some c \<longrightarrow> fst (fs_readat sys (Some k) n off w) = Some (take n (drop off c))) \<and>
     (\<forall>fd n off w. cont (snd (fs_readat sys fd n off w)) = cont w) \<and>
     (\<forall>k c w. cont w k = Some c \<longrightarrow> fs_size sys (Some k) w = length c)"

text \<open>What the fast comparison looks at: the sizes, the first, the middle and the last bytes.\<close>

definition same_ends :: "nat \<Rightarrow> bytes \<Rightarrow> bytes \<Rightarrow> bool" where
  "same_ends window a b \<longleftrightarrow>
     length a = length b \<and> take window a = take window b \<and>
     (window < length a \<longrightarrow> take window (drop (length a div 2) a) = take window (drop (length b div 2) b)) \<and>
     drop (length a - window) a = drop (length b - window) b"

text \<open>Up to two windows nothing is left out.\<close>

lemma same_ends_small:
  assumes "same_ends window a b" and "length a \<le> 2 * window"
  shows "a = b"
proof (cases "window < length a")
  case False
  then show ?thesis using assms(1) by (auto simp: same_ends_def)
next
  case True
  have l: "length a = length b" and f: "take window a = take window b"
    and e: "drop (length a - window) a = drop (length a - window) b"
    using assms(1) True by (auto simp: same_ends_def)
  have "a ! i = b ! i" if i: "i < length a" for i
  proof -
    consider "i < window" | "length a - window \<le> i"
      using i assms(2) by linarith
    then show ?thesis
    proof cases
      case 1
      then show ?thesis by (metis f nth_take)
    next
      case 2
      then have "a ! i = drop (length a - window) a ! (i - (length a - window))"
        "b ! i = drop (length a - window) b ! (i - (length a - window))"
        using i l by simp_all
      then show ?thesis using e by simp
    qed
  qed
  then show ?thesis using l by (simp add: list_eq_iff_nth_eq)
qed

lemma same_ends_refl [simp]: "same_ends window a a"
  by (simp add: same_ends_def)

lemma cmp_chunk_ro:
  assumes "ro_kernel sys openz files cont" and "cont w k1 = Some c1" and "cont w k2 = Some c2" and "length c1 = length c2"
  shows "\<exists>w'. cmp_chunk sys (Some k1) (Some k2) window off w =
      (if take window (drop off c1) \<noteq> take window (drop off c2) then CDiffer
       else if length c1 - off < window then CShort else CSame, w') \<and> cont w' = cont w"
proof -
  have rd: "fst (fs_readat sys (Some k) n off w) = Some (take n (drop off c))" if "cont w k = Some c" for k c n off w
    using assms(1) that by (simp add: ro_kernel_def)
  have ct: "cont (snd (fs_readat sys fd n off w)) = cont w" for fd n off w
    using assms(1) by (simp add: ro_kernel_def)
  obtain r1 w1 where r1: "fs_readat sys (Some k1) window off w = (r1, w1)" by fastforce
  obtain r2 w2 where r2: "fs_readat sys (Some k2) window off w1 = (r2, w2)" by fastforce
  have c: "cont w1 = cont w" "cont w2 = cont w"
    using ct [of "Some k1" window off w] ct [of "Some k2" window off w1] r1 r2 by simp_all
  have v: "r1 = Some (take window (drop off c1))" "r2 = Some (take window (drop off c2))"
    using rd [OF assms(2), of window off] rd [of w1 k2 c2 window off] assms(3) r1 r2 c by simp_all
  moreover have "length (take window (drop off c1)) < window \<longleftrightarrow> length c1 - off < window"
    by (simp add: min_less_iff_disj)
  ultimately show ?thesis
    using r1 r2 c by (simp only: cmp_chunk_def Let_def prod.case option.case) simp
qed

lemma take_window_end: "length a - off \<le> window \<Longrightarrow> take window (drop off a) = drop off a"
  by simp

lemma cmp_fast_ro:
  assumes K: "ro_kernel sys openz files cont" and c: "cont w k1 = Some c1" "cont w k2 = Some c2"
    and l: "length c1 = length c2" and w0: "0 < window"
  shows "fst (cmp_fast sys (Some k1) (Some k2) window (fast_offsets (length c1) window) w) = 0 \<longleftrightarrow> same_ends window c1 c2"
proof -
  obtain w1 where s1: "cmp_chunk sys (Some k1) (Some k2) window 0 w =
      (if take window c1 \<noteq> take window c2 then CDiffer else if length c1 < window then CShort else CSame, w1)"
    and w1: "cont w1 = cont w"
    using cmp_chunk_ro [OF K c l, of window 0] by auto
  obtain w2 where s2: "cmp_chunk sys (Some k1) (Some k2) window (length c1 div 2) w1 =
      (if take window (drop (length c1 div 2) c1) \<noteq> take window (drop (length c1 div 2) c2) then CDiffer
       else if length c1 - length c1 div 2 < window then CShort else CSame, w2)" and w2: "cont w2 = cont w"
    using cmp_chunk_ro [OF K c [folded w1] l, of window "length c1 div 2"] w1 by auto
  obtain w3 where s3: "cmp_chunk sys (Some k1) (Some k2) window (length c1 - window) w2 =
      (if take window (drop (length c1 - window) c1) \<noteq> take window (drop (length c1 - window) c2) then CDiffer
       else if length c1 - (length c1 - window) < window then CShort else CSame, w3)"
    using cmp_chunk_ro [OF K c [folded w2] l, of window "length c1 - window"] by auto
  have e: "take window (drop (length c1 - window) c1) = drop (length c1 - window) c1"
    "take window (drop (length c1 - window) c2) = drop (length c2 - window) c2"
    using l by simp_all
  have short: "drop (length c1 - window) c1 = drop (length c2 - window) c2"
    if "take window c1 = take window c2" "take window (drop (length c1 div 2) c1) = take window (drop (length c1 div 2) c2)"
      "length c1 - length c1 div 2 < window"
  proof -
    have "drop (length c1 div 2) c1 = drop (length c1 div 2) c2" using that(2,3) l by simp
    moreover have "length c1 div 2 \<le> window" using that(3) by linarith
    ultimately have "c1 = c2" using that(1)
      by (metis append_take_drop_id min.absorb1 take_take)
    then show ?thesis by simp
  qed
  show ?thesis
  proof (cases "window < length c1")
    case False
    then have "same_ends window c1 c2 \<longleftrightarrow> take window c1 = take window c2" using l by (auto simp: same_ends_def)
    then show ?thesis using False s1 by (simp add: fast_offsets_def cmp_result_def)
  next
    case True
    then show ?thesis using s1 s2 s3 l short
      by (auto simp: fast_offsets_def cmp_result_def same_ends_def e)
  qed
qed

text \<open>In fast mode the answer is 0 exactly when both files can be opened and their sizes and ends agree.\<close>

lemma file_cmp_fast_ro:
  assumes K: "ro_kernel sys openz files cont" and w0: "0 < window"
  shows "\<exists>rc w'. file_cmp sys openz True a b window True w = Some (rc, w') \<and>
    (rc = 0 \<longleftrightarrow> (\<exists>d1 d2. files a = Some d1 \<and> files b = Some d2 \<and> same_ends window d1 d2))"
proof -
  have op: "case files n of None \<Rightarrow> fst (openz n w) = None
      | Some c \<Rightarrow> \<exists>k. fst (openz n w) = Some k \<and> cont w k = None \<and> cont (snd (openz n w)) = (cont w)(k \<mapsto> c)" for n w
    using K by (simp add: ro_kernel_def)
  have sz: "fs_size sys (Some k) w = length c" if "cont w k = Some c" for k c w
    using K that by (simp add: ro_kernel_def)
  obtain f1 w1 where o1: "openz a w = (f1, w1)" by fastforce
  obtain f2 w2 where o2: "openz b w1 = (f2, w2)" by fastforce
  show ?thesis
  proof (cases "files a = None \<or> files b = None")
    case True
    then have "f1 = None \<or> f2 = None" using op [of a w] op [of b w1] o1 o2 by auto
    then show ?thesis using True o1 o2 by (auto simp: file_cmp_def Let_def)
  next
    case False
    then obtain d1 d2 where d: "files a = Some d1" "files b = Some d2" by auto
    obtain k1 where k1: "f1 = Some k1" "cont w1 = (cont w)(k1 \<mapsto> d1)" using op [of a w] o1 d by auto
    obtain k2 where k2: "f2 = Some k2" "cont w1 k2 = None" "cont w2 = (cont w1)(k2 \<mapsto> d2)" using op [of b w1] o2 d by auto
    then have c: "cont w2 k1 = Some d1" "cont w2 k2 = Some d2" using k1 by (auto simp: fun_upd_def)
    show ?thesis
    proof (cases "length d1 = length d2")
      case False
      then show ?thesis using o1 o2 k1 k2 d sz [OF c(1)] sz [OF c(2)]
        by (auto simp: file_cmp_def Let_def same_ends_def)
    next
      case True
      from cmp_fast_ro [OF K c True w0] show ?thesis
        using o1 o2 k1 k2 d sz [OF c(1)] sz [OF c(2)] True
        by (auto simp: file_cmp_def Let_def case_prod_unfold)
    qed
  qed
qed

section \<open>Properties\<close>

text \<open>C12. \<open>ffpath_parent\<close> returns the longest path that is a parent of both arguments, cut at
  component boundaries ("/a/b" and "/a/bc" share "/a"), and fails only when there is none or an
  argument is empty.\<close>

theorem ffpath_parent_longest:
  "case ffpath_parent p1 p2 of
     None \<Rightarrow> p1 = [] \<or> p2 = [] \<or> (\<forall>n. \<not> shared_parent p1 p2 n)
   | Some d \<Rightarrow> (\<exists>n. d = take n p1 \<and> shared_parent p1 p2 n \<and> (\<forall>m. shared_parent p1 p2 m \<longrightarrow> m \<le> n))"
proof (cases "p1 = [] \<or> p2 = []")
  case True
  then show ?thesis by (auto simp: ffpath_parent_def)
next
  case ne: False
  define n where "n = min (length p1) (length p2)"
  have n: "n \<noteq> 0" "n \<le> length p1" "n \<le> length p2" using ne by (auto simp: n_def)
  define i where "i = ffs_cmp_n p1 p2 n"
  have i: "(i = 0 \<longleftrightarrow> take n p1 = take n p2) \<and> (i \<noteq> 0 \<longrightarrow> (\<exists>k < n. \<bar>i\<bar> = int (k + 1) \<and> p1 ! k \<noteq> p2 ! k \<and>
      (\<forall>j < k. p1 ! j = p2 ! j)))"
    using ffs_cmp_from_spec [of 0 n p1 p2] n by (simp add: i_def ffs_cmp_n_def)
  have le: "m \<le> n" if "shared_parent p1 p2 m" for m
    using that by (simp add: shared_parent_def n_def)
  define m where "m = (if i = 0 then n else if i < 0 then nat (- i - 1) else nat (i - 1))"
  have res: "ffpath_parent p1 p2 =
    (if i = 0 \<and> (length p1 = length p2 \<or> (if n = length p1 then p2 else p1) ! n = slash) then Some (take n p1)
     else map_option (\<lambda>k. take k p1) (ffpath_rfindslash p1 m))"
    using n(1) by (auto simp: ffpath_parent_def n_def [symmetric] i_def [symmetric] m_def Let_def)
  show ?thesis
  proof (cases "i = 0 \<and> (length p1 = length p2 \<or> (if n = length p1 then p2 else p1) ! n = slash)")
    case True
    then have "shared_parent p1 p2 n"
      using n i by (auto simp: shared_parent_def n_def min_def split: if_splits)
    with True res le show ?thesis by auto
  next
    case False
    have agree: "p1 ! j = p2 ! j" if "j < m" for j
    proof (cases "i = 0")
      case True
      then show ?thesis using i n that take_eq_nth [of n p1 p2 j] by (simp add: m_def)
    next
      case False
      then obtain k where "k < n" "\<bar>i\<bar> = int (k + 1)" "\<forall>j < k. p1 ! j = p2 ! j" using i by auto
      moreover from this have "m = k" using False by (auto simp: m_def)
      ultimately show ?thesis using that by simp
    qed
    have mn: "m \<le> n" using i by (cases "i = 0") (auto simp: m_def)
    have short: "q < m" if q: "shared_parent p1 p2 q" for q
    proof (cases "i = 0")
      case True
      then have "q \<noteq> n"
        using q False n by (auto simp: shared_parent_def n_def min_def split: if_splits)
      with le [OF q] True show ?thesis by (simp add: m_def)
    next
      case ni: False
      then obtain k where k: "k < n" "\<bar>i\<bar> = int (k + 1)" "p1 ! k \<noteq> p2 ! k" using i by auto
      then have "m = k" using ni by (auto simp: m_def)
      moreover have "q \<noteq> k" using q k n by (auto simp: shared_parent_def)
      moreover have "\<not> k < q"
        using q k take_eq_nth [of q p1 p2 k] by (auto simp: shared_parent_def)
      ultimately show ?thesis by simp
    qed
    have "m \<le> length p1" "m \<le> length p2" using mn n by auto
    from cut_parent [OF this agree short] False res show ?thesis
      by (cases "ffpath_rfindslash p1 m") auto
  qed
qed

theorem ffpath_parent_longest_witness:
  "ffpath_parent ''/a/b'' ''/a/bc'' = Some ''/a'' \<and> \<not> shared_parent ''/a/b'' ''/a/bc'' 4"
proof -
  have p: "ffpath_parent ''/a/b'' ''/a/bc'' = Some ''/a''"
    by (simp add: ffpath_parent_def ffs_cmp_n_def slash_def eval_nat_numeral)
  from ffpath_parent_longest [of "''/a/b''" "''/a/bc''"] p
  have "\<forall>m. shared_parent ''/a/b'' ''/a/bc'' m \<longrightarrow> m \<le> 2"
    by (auto simp: take_Cons' split: if_splits)
  with p show ?thesis by fastforce
qed

text \<open>C13. On readable files that nobody changes, \<open>file_cmp\<close> in full mode ends and returns 0 exactly
  when the contents are equal, else 1; in fast mode it never reports equal files as different.\<close>

theorem file_cmp_decides:
  assumes "static_file sys f1 c1" and "static_file sys f2 c2" and "0 < window"
    and "openz n1 w0 = (f1, w1)" and "openz n2 w1 = (f2, w2)" and "f1 \<noteq> None" and "f2 \<noteq> None"
  shows "\<exists>rc w'. file_cmp sys openz True n1 n2 window fast w0 = Some (rc, w') \<and>
    (if fast then c1 = c2 \<longrightarrow> rc = 0 else rc = (if c1 = c2 then 0 else 1))"
proof -
  have sz: "fs_size sys f1 w2 = length c1" "fs_size sys f2 w2 = length c2"
    using assms(1,2) by (auto simp: static_file_def)
  show ?thesis
  proof (cases "length c1 = length c2")
    case False
    then show ?thesis using assms(4-7) sz by (auto simp: file_cmp_def Let_def)
  next
    case True
    obtain rc w' where "cmp_full sys f1 f2 window 0 w2 = Some (rc, w')" "rc = (if c1 = c2 then 0 else 1)"
      using cmp_full_static [OF assms(1,2) True assms(3), of 0 w2] by auto
    moreover have "c1 = c2 \<Longrightarrow> fst (cmp_fast sys f1 f2 window (fast_offsets (length c1) window) w2) = 0"
      using cmp_fast_equal [of sys f1 c1 f2] assms(1,2) by simp
    ultimately show ?thesis
      using assms(4-7) sz True by (auto simp: file_cmp_def Let_def case_prod_unfold)
  qed
qed

definition two_sys :: "bytes \<Rightarrow> bytes \<Rightarrow> (unit, unit) sys" where
  "two_sys c1 c2 = undefined
     \<lparr>fs_readat := (\<lambda>fd n off w. (Some (take n (drop off (if fd = Some 1 then c1 else c2))), w)),
      fs_size := (\<lambda>fd w. length (if fd = Some 1 then c1 else c2)), fs_close := (\<lambda>fd w. (True, w))\<rparr>"

theorem file_cmp_decides_witness:
  "\<exists>rc w'. file_cmp (two_sys ''abcdef'' ''abcdeX'') (\<lambda>n w. (if n = Some ''1'' then Some 1 else Some 2, w))
     True (Some ''1'') (Some ''2'') 4 False () = Some (rc, w') \<and> rc = 1"
proof -
  have "static_file (two_sys ''abcdef'' ''abcdeX'') (Some 1) ''abcdef''"
    "static_file (two_sys ''abcdef'' ''abcdeX'') (Some 2) ''abcdeX''"
    by (simp_all add: static_file_def two_sys_def)
  from file_cmp_decides [OF this, of 4 "\<lambda>n w. (if n = Some ''1'' then Some 1 else Some 2, w)" "Some ''1''" "()" "()"
      "Some ''2''" "()" False]
  show ?thesis by simp
qed

end
