(* ===== verification/SyncTypes.thy ===== *)
theory SyncTypes
  imports Prelude Sys
begin

text \<open>
  The data of the \<open>sync\<close> module: the flags and structures of \<open>src/fcom.h\<close>, and file-tree entries
  and blocks. The tree itself belongs to ffbase's \<open>fntree\<close>: an entry is its name and the data
  fcom attaches to it, a block its path.
\<close>

section \<open>Flags\<close>

definition FCOM_SYNC_LEFT :: "32 word" where "FCOM_SYNC_LEFT = 1"
definition FCOM_SYNC_RIGHT :: "32 word" where "FCOM_SYNC_RIGHT = 2"
definition FCOM_SYNC_NEQ :: "32 word" where "FCOM_SYNC_NEQ = 4"
definition FCOM_SYNC_MOVE :: "32 word" where "FCOM_SYNC_MOVE = 8"
definition FCOM_SYNC_EQ :: "32 word" where "FCOM_SYNC_EQ = 0x10"
definition FCOM_SYNC_MASK :: "32 word" where "FCOM_SYNC_MASK = 0xff"
definition FCOM_SYNC_NEWER :: "32 word" where "FCOM_SYNC_NEWER = 0x0100"
definition FCOM_SYNC_OLDER :: "32 word" where "FCOM_SYNC_OLDER = 0x0200"
definition FCOM_SYNC_LARGER :: "32 word" where "FCOM_SYNC_LARGER = 0x0400"
definition FCOM_SYNC_SMALLER :: "32 word" where "FCOM_SYNC_SMALLER = 0x0800"
definition FCOM_SYNC_ATTR :: "32 word" where "FCOM_SYNC_ATTR = 0x1000"
definition FCOM_SYNC_DIR :: "32 word" where "FCOM_SYNC_DIR = 0x2000"
definition FCOM_SYNC_SWAP :: "32 word" where "FCOM_SYNC_SWAP = 0x4000"
definition FCOM_SYNC_SKIP :: "32 word" where "FCOM_SYNC_SKIP = 0x8000"
definition FCOM_SYNC_DONE :: "32 word" where "FCOM_SYNC_DONE = 0x040000"

lemmas sync_flag_defs [flag_simps] =
  FCOM_SYNC_LEFT_def FCOM_SYNC_RIGHT_def FCOM_SYNC_NEQ_def FCOM_SYNC_MOVE_def FCOM_SYNC_EQ_def
  FCOM_SYNC_MASK_def FCOM_SYNC_NEWER_def FCOM_SYNC_OLDER_def FCOM_SYNC_LARGER_def
  FCOM_SYNC_SMALLER_def FCOM_SYNC_ATTR_def FCOM_SYNC_DIR_def FCOM_SYNC_SWAP_def
  FCOM_SYNC_SKIP_def FCOM_SYNC_DONE_def

definition FCOM_SYNC_DIFF_LEFT_PATH_STRIP :: "32 word" where "FCOM_SYNC_DIFF_LEFT_PATH_STRIP = 1"
definition FCOM_SYNC_DIFF_RIGHT_PATH_STRIP :: "32 word" where "FCOM_SYNC_DIFF_RIGHT_PATH_STRIP = 2"
definition FCOM_SYNC_DIFF_NO_ATTR :: "32 word" where "FCOM_SYNC_DIFF_NO_ATTR = 8"
definition FCOM_SYNC_DIFF_NO_TIME :: "32 word" where "FCOM_SYNC_DIFF_NO_TIME = 0x10"
definition FCOM_SYNC_DIFF_TIME_2SEC :: "32 word" where "FCOM_SYNC_DIFF_TIME_2SEC = 0x20"
definition FCOM_SYNC_DIFF_MOVE_NO_NAME :: "32 word" where "FCOM_SYNC_DIFF_MOVE_NO_NAME = 0x40"
definition FCOM_SYNC_DIFF_MOVE_CHK_CONTENT :: "32 word" where "FCOM_SYNC_DIFF_MOVE_CHK_CONTENT = 0x80"
definition FCOM_SYNC_DIFF_STEP :: "32 word" where "FCOM_SYNC_DIFF_STEP = 0x0100"
definition FCOM_SYNC_DIFF_DUPS :: "32 word" where "FCOM_SYNC_DIFF_DUPS = 0x0200"

definition FCOM_SYNC_SORT_FILESIZE :: "32 word" where "FCOM_SYNC_SORT_FILESIZE = 1"
definition FCOM_SYNC_SORT_MTIME :: "32 word" where "FCOM_SYNC_SORT_MTIME = 2"

definition FCOM_SYNC_REPLACE_DATE :: "32 word" where "FCOM_SYNC_REPLACE_DATE = 1"
definition FCOM_SYNC_VERIFY :: "32 word" where "FCOM_SYNC_VERIFY = 2"
definition FCOM_SYNC_WRITE_INTO :: "32 word" where "FCOM_SYNC_WRITE_INTO = 4"

text \<open>\<open>FFFILE_UNIX_DIR\<close> is \<open>S_IFDIR\<close>.\<close>

definition FFFILE_UNIX_DIR :: "32 word" where "FFFILE_UNIX_DIR = 0x4000"

section \<open>Entries\<close>

record sync_entry =
  se_size :: nat
  unix_attr :: "32 word"
  win_attr :: "32 word"
  se_uid :: "32 word"
  se_gid :: "32 word"
  mtime :: fftime
  crc32 :: "32 word"

record fent =
  en_name :: bytes
  en_data :: sync_entry

text \<open>An entry with the path of the block it is in; \<^const>\<open>None\<close> for the null pointers.\<close>

type_synonym eref = "(fent \<times> bytes) option"

record diff_stats =
  n_eq :: int
  n_left :: int
  n_right :: int
  n_neq :: int
  n_moved :: int
  n_ltotal :: int
  n_rtotal :: int
  n_entries :: int

record diff_props =
  p_include :: "bytes list"
  p_exclude :: "bytes list"
  p_since :: fftime
  p_include_both :: bool

text \<open>\<open>struct fntree_cmp_ent\<close>: the status and the two sides.\<close>

record cmp_ent =
  ce_status :: "32 word"
  ce_l :: eref
  ce_r :: eref

definition entry_data :: "eref \<Rightarrow> sync_entry option" where
  "entry_data e = map_option (\<lambda>(x, b). en_data x) e"

text \<open>\<open>snapshot::full_name\<close>: the text put into the buffer, nothing for a null entry.\<close>

definition full_name :: "eref \<Rightarrow> bytes" where
  "full_name e =
     (case e of None \<Rightarrow> []
      | Some (x, path) \<Rightarrow> if path = [] then en_name x else path @ [CHR ''/''] @ en_name x)"

end
