(* ===== verification/SyncCmp.thy ===== *)
theory SyncCmp
  imports SyncTypes PathUtil
begin

text \<open>
  Comparing two directory trees, \<open>src/fs/sync-cmp.h\<close>: the per-file comparison, the detection of
  moved files through a hash table, the search for duplicates, the filtered and sorted view and
  the access to its rows.

  Pointers to the rows of the preallocated vector \<open>ents\<close> are indexes. The walk over both trees
  (\<open>fntree_cmp_next\<close>), the hash function, the probe order of the hash table, the sort and the
  case-insensitive string functions are fields of \<open>synclib\<close>; \<open>fntree_cmp_next\<close>'s result is the
  low nibble, an item of \<open>cmp4\<close>, and the flags above it. The counters, \<open>uint\<close> in the code, are
  integers, so that a decrement below zero would be seen.
\<close>

section \<open>Data\<close>

datatype cmp4 = CEq | CLeft | CRight | CNeq

record ('f, 'w) synclib =
  sl_icmp :: "bytes \<Rightarrow> bytes \<Rightarrow> int"
  sl_ifind :: "bytes \<Rightarrow> bytes \<Rightarrow> bool"
  sl_ftcmp :: "fftime \<Rightarrow> fftime \<Rightarrow> int"
  sl_msec :: "fftime \<Rightarrow> nat"
  sl_hash :: "bytes \<Rightarrow> 32 word"
  sl_probe :: "(32 word \<times> nat) list \<Rightarrow> 32 word \<Rightarrow> nat list"
  sl_next :: "(fent \<Rightarrow> fent \<Rightarrow> cmp4 \<times> 32 word) \<Rightarrow> 'f \<Rightarrow> ((cmp4 \<times> 32 word) \<times> eref \<times> eref) option \<times> 'f"
  sl_sort :: "(nat \<Rightarrow> nat \<Rightarrow> int) \<Rightarrow> nat list \<Rightarrow> nat list"
  sl_sys :: "('w, unit) sys"
  sl_openz :: "bytes option \<Rightarrow> 'w \<Rightarrow> fffd \<times> 'w"
  sl_alloc :: "'w \<Rightarrow> bool"

text \<open>
  The call \<open>file_cmp(.., 4096, FILE_CMP_FAST)\<close> of \<open>src/util/util.h\<close>, which both searches below make;
  without the full mode it always returns.
\<close>

definition fast_cmp :: "('f, 'w) synclib \<Rightarrow> bytes option \<Rightarrow> bytes option \<Rightarrow> 'w \<Rightarrow> int \<times> 'w" where
  "fast_cmp L a b w = the (file_cmp (sl_sys L) (sl_openz L) (sl_alloc L w) a b 4096 True w)"

lemma fast_cmp_returns: "file_cmp (sl_sys L) (sl_openz L) (sl_alloc L w) a b 4096 True w = Some (fast_cmp L a b w)"
  by (simp add: fast_cmp_def file_cmp_def Let_def case_prod_unfold)

text \<open>
  \<open>lname\<close>, \<open>rname\<close>: what the two name buffers hold, which stays there when their length is set to
  zero (\<^const>\<open>None\<close>: never used). \<open>d_cap\<close> is the capacity of \<open>ents\<close>.
\<close>

record 'f diff =
  d_fcmp :: 'f
  d_ents :: "cmp_ent list"
  d_cap :: nat
  d_filter :: "nat list"
  d_moved :: "(32 word \<times> nat) list"
  d_lroot :: bytes
  d_rroot :: bytes
  d_lname :: "bytes option"
  d_rname :: "bytes option"
  d_options :: "32 word"
  d_sort_flags :: "32 word"
  dup_cur :: nat
  sz_prev :: "nat option"
  ce_prev :: "nat option"
  d_stats :: diff_stats

definition no_stats :: diff_stats where
  "no_stats = \<lparr>n_eq = 0, n_left = 0, n_right = 0, n_neq = 0, n_moved = 0, n_ltotal = 0, n_rtotal = 0, n_entries = 0\<rparr>"

definition diff_new :: "'f \<Rightarrow> 'f diff" where
  "diff_new f =
     \<lparr>d_fcmp = f, d_ents = [], d_cap = 0, d_filter = [], d_moved = [], d_lroot = [], d_rroot = [],
      d_lname = None, d_rname = None, d_options = 0, d_sort_flags = 0, dup_cur = 0, sz_prev = Some 0,
      ce_prev = None, d_stats = no_stats\<rparr>"

section \<open>Comparing two files\<close>

definition half_sec :: "int \<Rightarrow> int" where
  "half_sec s = (if s < 0 then - ((- s) div 2) else s div 2)"

definition data_cmp :: "('f, 'w) synclib \<Rightarrow> 32 word \<Rightarrow> fent \<Rightarrow> fent \<Rightarrow> cmp4 \<times> 32 word" where
  "data_cmp L opts l r =
     (let i = sl_icmp L (en_name l) (en_name r); ld = en_data l; rd = en_data r
      in if i < 0 then (CLeft, 0) else if 0 < i then (CRight, 0)
         else
           (let k1 = (if se_size ld \<noteq> se_size rd
                      then (CNeq, if se_size ld < se_size rd then FCOM_SYNC_SMALLER else FCOM_SYNC_LARGER)
                      else (CEq, 0));
                k2 = (if \<not> has opts FCOM_SYNC_DIFF_NO_ATTR \<and>
                         (unix_attr ld \<noteq> unix_attr rd \<or> win_attr ld \<noteq> win_attr rd)
                      then (CNeq, snd k1 OR FCOM_SYNC_ATTR) else k1);
                t = sl_ftcmp L (mtime ld) (mtime rd)
            in if has opts FCOM_SYNC_DIFF_NO_TIME then k2
               else if has opts FCOM_SYNC_DIFF_TIME_2SEC \<and>
                       half_sec (fst (mtime ld)) = half_sec (fst (mtime rd)) then k2
               else if t \<noteq> 0 then (CNeq, snd k2 OR (if t < 0 then FCOM_SYNC_OLDER else FCOM_SYNC_NEWER))
               else k2))"

section \<open>Moved files\<close>

text \<open>Refilling the name buffers: a null entry leaves the old text in place.\<close>

definition set_names :: "eref \<Rightarrow> eref \<Rightarrow> 'f diff \<Rightarrow> 'f diff" where
  "set_names l r d =
     d\<lparr>d_lname := (if l = None then d_lname d else Some (full_name l)),
       d_rname := (if r = None then d_rname d else Some (full_name r))\<rparr>"

definition moved_check_data :: "('f, 'w) synclib \<Rightarrow> cmp_ent \<Rightarrow> 'f diff \<Rightarrow> 'w \<Rightarrow> bool \<times> 'f diff \<times> 'w" where
  "moved_check_data L ce d w =
     (let d' = set_names (ce_l ce) (ce_r ce) d;
          (r, w') = fast_cmp L (d_lname d') (d_rname d') w
      in (r = 0, d', w'))"

text \<open>The entry a stored row stands for.\<close>

definition ce_entry :: "cmp_ent \<Rightarrow> fent option" where
  "ce_entry ce = map_option fst (if ce_l ce = None then ce_r ce else ce_l ce)"

definition meta_eq :: "('f, 'w) synclib \<Rightarrow> 32 word \<Rightarrow> fent \<Rightarrow> fent \<Rightarrow> bool" where
  "meta_eq L opts l r \<longleftrightarrow>
     (let ld = en_data l; rd = en_data r
      in se_size ld = se_size rd \<and>
         unix_attr ld AND FFFILE_UNIX_DIR = unix_attr rd AND FFFILE_UNIX_DIR \<and>
         (has opts FCOM_SYNC_DIFF_MOVE_NO_NAME \<or> en_name l = en_name r) \<and>
         (has opts FCOM_SYNC_DIFF_NO_TIME \<or> sl_msec L (mtime ld) = sl_msec L (mtime rd)))"

text \<open>\<open>moved_keyeq\<close>: the conditions are tested in order, the contents only if the rest holds.\<close>

definition moved_keyeq :: "('f, 'w) synclib \<Rightarrow> fent \<Rightarrow> cmp_ent \<Rightarrow> 'f diff \<Rightarrow> 'w \<Rightarrow> bool \<times> 'f diff \<times> 'w" where
  "moved_keyeq L key ce d w =
     (case ce_entry ce of
        None \<Rightarrow> (False, d, w)
      | Some l \<Rightarrow>
          if \<not> meta_eq L (d_options d) l key then (False, d, w)
          else if \<not> has (d_options d) FCOM_SYNC_DIFF_MOVE_CHK_CONTENT \<or>
                  has (unix_attr (en_data l)) FFFILE_UNIX_DIR then (True, d, w)
          else moved_check_data L ce d w)"

text \<open>A 64-bit number as the bytes it occupies in memory (little-endian).\<close>

definition le64 :: "nat \<Rightarrow> bytes" where
  "le64 n = map (\<lambda>i. char_of (n div 256 ^ i)) [0..<8]"

definition ent_moved_key :: "('f, 'w) synclib \<Rightarrow> 32 word \<Rightarrow> fent \<Rightarrow> bytes" where
  "ent_moved_key L opts e =
     (let d = en_data e
      in [if \<not> has opts FCOM_SYNC_DIFF_NO_ATTR \<and> has (unix_attr d) FFFILE_UNIX_DIR then CHR 0x01 else CHR 0x00] @
         le64 (if has opts FCOM_SYNC_DIFF_NO_TIME then 0 else sl_msec L (mtime d)) @
         le64 (se_size d) @
         (if has opts FCOM_SYNC_DIFF_MOVE_NO_NAME then [] else take 1024 (en_name e)))"

definition ent_moved_hash :: "('f, 'w) synclib \<Rightarrow> 32 word \<Rightarrow> fent \<Rightarrow> 32 word" where
  "ent_moved_hash L opts e = sl_hash L (ent_moved_key L opts e)"

text \<open>\<open>ffmap_find_hash\<close>: the stored rows with this hash, in probe order.\<close>

fun map_probe :: "('f, 'w) synclib \<Rightarrow> fent \<Rightarrow> nat list \<Rightarrow> 'f diff \<Rightarrow> 'w \<Rightarrow> nat option \<times> 'f diff \<times> 'w" where
  "map_probe L key [] d w = (None, d, w)"
| "map_probe L key (i # is) d w =
     (let (ok, d', w') = moved_keyeq L key (d_ents d ! i) d w
      in if ok then (Some i, d', w') else map_probe L key is d' w')"

definition moved_find_add ::
  "('f, 'w) synclib \<Rightarrow> fent \<Rightarrow> nat \<Rightarrow> 'f diff \<Rightarrow> 'w \<Rightarrow> nat option \<times> 'f diff \<times> 'w" where
  "moved_find_add L e ce d w =
     (let h = ent_moved_hash L (d_options d) e;
          (it, d', w') = map_probe L e (sl_probe L (d_moved d) h) d w
      in (it, if it = None then d'\<lparr>d_moved := d_moved d' @ [(h, ce)]\<rparr> else d', w'))"

section \<open>The comparison\<close>

text \<open>
  \<open>init\<close>: \<open>f\<close> is the initialised tree walk (with the roots stripped or not, as the flags say).
\<close>

definition diff_init :: "(bool \<Rightarrow> bool \<Rightarrow> 'f) \<Rightarrow> bytes \<Rightarrow> bytes \<Rightarrow> nat \<Rightarrow> nat \<Rightarrow> 32 word \<Rightarrow> 'f diff \<Rightarrow> 'f diff" where
  "diff_init walk lroot rroot ltotal rtotal flags d =
     d\<lparr>d_options := flags, d_lroot := lroot, d_rroot := rroot, d_moved := [],
       d_fcmp := walk (has flags FCOM_SYNC_DIFF_LEFT_PATH_STRIP) (has flags FCOM_SYNC_DIFF_RIGHT_PATH_STRIP),
       d_ents := [], d_cap := ltotal + rtotal,
       d_stats := (d_stats d)\<lparr>n_ltotal := int ltotal, n_rtotal := int rtotal\<rparr>\<rparr>"

definition upd_ent :: "nat \<Rightarrow> (cmp_ent \<Rightarrow> cmp_ent) \<Rightarrow> 'f diff \<Rightarrow> 'f diff" where
  "upd_ent i f d = d\<lparr>d_ents := (d_ents d)[i := f (d_ents d ! i)]\<rparr>"

definition upd_stats :: "(diff_stats \<Rightarrow> diff_stats) \<Rightarrow> 'f diff \<Rightarrow> 'f diff" where
  "upd_stats f d = d\<lparr>d_stats := f (d_stats d)\<rparr>"

text \<open>One side only: a file of the other side seen before with the same key makes it a move.\<close>

definition one_sided ::
  "('f, 'w) synclib \<Rightarrow> bool \<Rightarrow> fent \<Rightarrow> eref \<Rightarrow> nat \<Rightarrow> 'f diff \<Rightarrow> 'w \<Rightarrow> 'f diff \<times> 'w" where
  "one_sided L left e ref i d0 w0 =
     (let mine = (if left then FCOM_SYNC_LEFT else FCOM_SYNC_RIGHT);
          other = (if left then FCOM_SYNC_RIGHT else FCOM_SYNC_LEFT);
          d1 = upd_stats (\<lambda>s. if left then s\<lparr>n_left := n_left s + 1\<rparr> else s\<lparr>n_right := n_right s + 1\<rparr>) d0;
          (ce2, d2, w2) = moved_find_add L e i d1 w0
      in case ce2 of
           Some j \<Rightarrow>
             if has (ce_status (d_ents d2 ! j)) other then
               (let d3 = upd_ent j (\<lambda>c. c\<lparr>ce_status := (ce_status c AND NOT other) OR FCOM_SYNC_MOVE\<rparr>) d2;
                    d4 = upd_ent i (\<lambda>c. c\<lparr>ce_status := FCOM_SYNC_MOVE OR FCOM_SYNC_SKIP\<rparr>) d3;
                    d5 = upd_ent j (\<lambda>c. if left then c\<lparr>ce_l := ref\<rparr> else c\<lparr>ce_r := ref\<rparr>) d4
                in (upd_stats (\<lambda>s. s\<lparr>n_moved := n_moved s + 1, n_left := n_left s - 1, n_right := n_right s - 1,
                      n_entries := n_entries s - 1\<rparr>) d5, w2))
             else (upd_ent i (\<lambda>c. c\<lparr>ce_status := mine\<rparr>) d2, w2)
         | None \<Rightarrow> (upd_ent i (\<lambda>c. c\<lparr>ce_status := mine\<rparr>) d2, w2))"

text \<open>
  \<open>next\<close>: \<^const>\<open>True\<close> when there is nothing left. \<^const>\<open>None\<close> is the failed assertion on the
  capacity.
\<close>

definition diff_next :: "('f, 'w) synclib \<Rightarrow> 'f diff \<Rightarrow> 'w \<Rightarrow> (bool \<times> 'f diff \<times> 'w) option" where
  "diff_next L d0 w =
     (case sl_next L (data_cmp L (d_options d0)) (d_fcmp d0) of
        (None, f) \<Rightarrow> Some (True, d0\<lparr>d_fcmp := f\<rparr>, w)
      | (Some ((k, fl), le0, re0), f) \<Rightarrow>
          (let le = (if k = CRight then None else le0);
               re = (if k = CLeft then None else re0);
               i = length (d_ents d0)
           in if \<not> i < d_cap d0 then None
              else
                (let d1 = set_names le re
                       (d0\<lparr>d_fcmp := f, d_ents := d_ents d0 @ [\<lparr>ce_status = 0, ce_l = le, ce_r = re\<rparr>]\<rparr>);
                     (d2, w2) =
                       (case k of
                          CLeft \<Rightarrow> one_sided L True (fst (the le)) le i d1 w
                        | CRight \<Rightarrow> one_sided L False (fst (the re)) re i d1 w
                        | CEq \<Rightarrow> (upd_ent i (\<lambda>c. c\<lparr>ce_status := FCOM_SYNC_EQ\<rparr>)
                              (upd_stats (\<lambda>s. s\<lparr>n_eq := n_eq s + 1\<rparr>) d1), w)
                        | CNeq \<Rightarrow> (upd_ent i (\<lambda>c. c\<lparr>ce_status := FCOM_SYNC_NEQ OR fl\<rparr>)
                              (upd_stats (\<lambda>s. s\<lparr>n_neq := n_neq s + 1\<rparr>) d1), w))
                 in Some (False, upd_stats (\<lambda>s. s\<lparr>n_entries := n_entries s + 1\<rparr>) d2, w2))))"

section \<open>Sorting\<close>

definition pair_size :: "cmp_ent \<Rightarrow> nat" where
  "pair_size c =
     (let a = (case entry_data (ce_l c) of None \<Rightarrow> 0 | Some d \<Rightarrow> se_size d)
      in (case entry_data (ce_r c) of None \<Rightarrow> a | Some d \<Rightarrow> max a (se_size d)))"

definition pair_mtime :: "('f, 'w) synclib \<Rightarrow> cmp_ent \<Rightarrow> fftime" where
  "pair_mtime L c =
     (let t = (case entry_data (ce_l c) of None \<Rightarrow> (0, 0) | Some d \<Rightarrow> mtime d)
      in (case entry_data (ce_r c) of None \<Rightarrow> t
          | Some d \<Rightarrow> if sl_ftcmp L t (mtime d) < 0 then mtime d else t))"

definition sort_f :: "('f, 'w) synclib \<Rightarrow> 32 word \<Rightarrow> cmp_ent \<Rightarrow> cmp_ent \<Rightarrow> int" where
  "sort_f L sort_flags a b =
     (let as = pair_size a; bs = pair_size b; at = pair_mtime L a; bt = pair_mtime L b;
          rs = (if bs < as then -1 else if as < bs then 1 else 0);
          rt = (if 0 < sl_ftcmp L at bt then -1 else if sl_ftcmp L at bt < 0 then 1 else 0)
      in if has sort_flags FCOM_SYNC_SORT_FILESIZE then rs
         else if has sort_flags FCOM_SYNC_SORT_MTIME then rt else 0)"

definition sync_sort :: "('f, 'w) synclib \<Rightarrow> 32 word \<Rightarrow> 'f diff \<Rightarrow> nat \<times> 'f diff" where
  "sync_sort L flags d =
     (let d' = d\<lparr>d_sort_flags := flags,
                 d_filter := sl_sort L (\<lambda>i j. sort_f L flags (d_ents d ! i) (d_ents d ! j)) (d_filter d)\<rparr>
      in (length (d_filter d'), d'))"

section \<open>Duplicates\<close>

text \<open>\<open>dups_init\<close>: \<open>files\<close> are the entries in the order of the walk (\<^const>\<open>None\<close>: no subtree).\<close>

definition dups_init ::
  "('f, 'w) synclib \<Rightarrow> (fent \<times> bytes) list option \<Rightarrow> nat \<Rightarrow> bytes \<Rightarrow> 32 word \<Rightarrow> 'f diff \<Rightarrow> 'f diff option" where
  "dups_init L files tot lroot flags d0 =
     (let d = d0\<lparr>sz_prev := None, d_options := flags OR FCOM_SYNC_DIFF_DUPS, d_lroot := lroot\<rparr>
      in case files of
           None \<Rightarrow> Some d
         | Some fs \<Rightarrow>
             if tot < length fs then None
             else
               (let d1 = (upd_stats (\<lambda>s. s\<lparr>n_ltotal := int tot\<rparr>) d)
                      \<lparr>d_ents := map (\<lambda>e. \<lparr>ce_status = 0, ce_l = Some e, ce_r = None\<rparr>) fs, d_cap := tot,
                       d_filter := [0..<length fs]\<rparr>
                in Some (snd (sync_sort L FCOM_SYNC_SORT_FILESIZE d1))))"

text \<open>\<open>sz_prev\<close> is \<^const>\<open>None\<close> for \<open>~0ULL\<close>, which no file's size is.\<close>

definition mark_prev_neq :: "'f diff \<Rightarrow> 'f diff" where
  "mark_prev_neq d =
     (case ce_prev d of
        None \<Rightarrow> d
      | Some p \<Rightarrow> upd_ent p (\<lambda>c. c\<lparr>ce_status := FCOM_SYNC_NEQ\<rparr>) (upd_stats (\<lambda>s. s\<lparr>n_neq := n_neq s + 1\<rparr>) d))"

definition dups_scan_next :: "('f, 'w) synclib \<Rightarrow> 'f diff \<Rightarrow> 'w \<Rightarrow> bool \<times> 'f diff \<times> 'w" where
  "dups_scan_next L d0 w =
     (if dup_cur d0 = length (d_filter d0) then (True, (mark_prev_neq d0)\<lparr>d_filter := []\<rparr>, w)
      else
        (let i = d_filter d0 ! dup_cur d0;
             ce = d_ents d0 ! i;
             d1 = upd_stats (\<lambda>s. s\<lparr>n_entries := n_entries s + 1\<rparr>) (d0\<lparr>dup_cur := dup_cur d0 + 1\<rparr>);
             sz = se_size (the (entry_data (ce_l ce)))
         in if sz_prev d1 \<noteq> Some sz
            then (False, (mark_prev_neq d1)\<lparr>sz_prev := Some sz, ce_prev := Some i\<rparr>, w)
            else
              (let p = the (ce_prev d1);
                   d2 = set_names (ce_l (d_ents d1 ! p)) (ce_l ce) d1;
                   (r, w2) = fast_cmp L (d_lname d2) (d_rname d2) w
               in if r \<noteq> 0
                  then (False, (mark_prev_neq d2)\<lparr>ce_prev := Some i\<rparr>, w2)
                  else (False,
                    (upd_ent i (\<lambda>c. c\<lparr>ce_status := FCOM_SYNC_DONE\<rparr>)
                      (upd_ent p (\<lambda>c. c\<lparr>ce_status := FCOM_SYNC_EQ, ce_r := ce_l ce\<rparr>)
                        (upd_stats (\<lambda>s. s\<lparr>n_eq := n_eq s + 1\<rparr>) d2)))\<lparr>ce_prev := None, sz_prev := None\<rparr>, w2))))"

section \<open>The interface functions\<close>

partial_function (option) diff_loop :: "('f, 'w) synclib \<Rightarrow> 'f diff \<Rightarrow> 'w \<Rightarrow> ('f diff \<times> 'w) option" where
  "diff_loop L d w =
     Option.bind (diff_next L d w)
       (\<lambda>x. if fst x then Some (snd x) else diff_loop L (fst (snd x)) (snd (snd x)))"

definition sync_diff ::
  "('f, 'w) synclib \<Rightarrow> (bool \<Rightarrow> bool \<Rightarrow> 'f) \<Rightarrow> bytes \<Rightarrow> bytes \<Rightarrow> nat \<Rightarrow> nat \<Rightarrow> 32 word \<Rightarrow> 'w \<Rightarrow>
   ('f diff \<times> 'w) option" where
  "sync_diff L walk lroot rroot ltotal rtotal flags w =
     (let d = diff_init walk lroot rroot ltotal rtotal flags (diff_new (walk False False))
      in if has flags FCOM_SYNC_DIFF_STEP then Some (d, w) else diff_loop L d w)"

partial_function (option) dups_loop :: "('f, 'w) synclib \<Rightarrow> 'f diff \<Rightarrow> 'w \<Rightarrow> ('f diff \<times> 'w) option" where
  "dups_loop L d w =
     (let x = dups_scan_next L d w
      in if fst x then Some (snd x) else dups_loop L (fst (snd x)) (snd (snd x)))"

definition sync_diff_next :: "('f, 'w) synclib \<Rightarrow> 'f diff \<Rightarrow> 'w \<Rightarrow> (bool \<times> 'f diff \<times> 'w) option" where
  "sync_diff_next L d w =
     (if has (d_options d) FCOM_SYNC_DIFF_DUPS then Some (dups_scan_next L d w) else diff_next L d w)"

definition sync_find_dups ::
  "('f, 'w) synclib \<Rightarrow> 'f \<Rightarrow> (fent \<times> bytes) list option \<Rightarrow> nat \<Rightarrow> bytes \<Rightarrow> 32 word \<Rightarrow> 'w \<Rightarrow> ('f diff \<times> 'w) option" where
  "sync_find_dups L f files tot lroot flags w =
     Option.bind (dups_init L files tot lroot flags (diff_new f))
       (\<lambda>d. if has flags FCOM_SYNC_DIFF_STEP then Some (d, w) else dups_loop L d w)"

definition str_match :: "('f, 'w) synclib \<Rightarrow> eref \<Rightarrow> bytes \<Rightarrow> bool" where
  "str_match L e m =
     (case e of None \<Rightarrow> False | Some (x, path) \<Rightarrow> sl_ifind L (en_name x) m \<or> sl_ifind L path m)"

definition flags_swap :: "32 word \<Rightarrow> 32 word \<Rightarrow> 32 word \<Rightarrow> 32 word" where
  "flags_swap u a b =
     (if has u a then (u AND NOT a) OR b else if has u b then (u AND NOT b) OR a else u)"

definition status_swap :: "32 word \<Rightarrow> 32 word" where
  "status_swap st =
     flags_swap (flags_swap (flags_swap st FCOM_SYNC_LEFT FCOM_SYNC_RIGHT) FCOM_SYNC_NEWER FCOM_SYNC_OLDER)
       FCOM_SYNC_LARGER FCOM_SYNC_SMALLER"

text \<open>The \<open>switch\<close> of \<open>sync_view\<close> on the kind of the row.\<close>

definition view_kind :: "32 word \<Rightarrow> 32 word \<Rightarrow> bool" where
  "view_kind flags st =
     (let k = st AND FCOM_SYNC_MASK
      in if k = FCOM_SYNC_LEFT then has flags FCOM_SYNC_LEFT
         else if k = FCOM_SYNC_RIGHT then has flags FCOM_SYNC_RIGHT
         else if k = FCOM_SYNC_NEQ then
           has flags FCOM_SYNC_NEQ \<and>
           (has flags (FCOM_SYNC_NEWER OR FCOM_SYNC_OLDER) \<or>
            has st (FCOM_SYNC_LARGER OR FCOM_SYNC_SMALLER OR FCOM_SYNC_ATTR))
         else if k = FCOM_SYNC_MOVE then has flags FCOM_SYNC_MOVE
         else if k = FCOM_SYNC_EQ then has flags FCOM_SYNC_EQ
         else True)"

definition is_dir :: "eref \<Rightarrow> bool" where
  "is_dir e = (case entry_data e of None \<Rightarrow> False | Some d \<Rightarrow> has (unix_attr d) FFFILE_UNIX_DIR)"

definition recent :: "('f, 'w) synclib \<Rightarrow> fftime \<Rightarrow> eref \<Rightarrow> bool" where
  "recent L since e = (case entry_data e of None \<Rightarrow> False | Some d \<Rightarrow> \<not> sl_ftcmp L (mtime d) since < 0)"

definition name_included :: "('f, 'w) synclib \<Rightarrow> diff_props \<Rightarrow> cmp_ent \<Rightarrow> bool" where
  "name_included L props c =
     (if \<exists>s \<in> set (p_exclude props). str_match L (ce_l c) s \<or> str_match L (ce_r c) s then False
      else p_include props = [] \<or>
        (if \<not> p_include_both props
         then \<exists>s \<in> set (p_include props). str_match L (ce_l c) s \<or> str_match L (ce_r c) s
         else \<exists>s \<in> set (p_include props). str_match L (ce_l c) s \<and> str_match L (ce_r c) s))"

text \<open>Whether the loop of \<open>sync_view\<close> keeps a row.\<close>

definition view_keeps :: "('f, 'w) synclib \<Rightarrow> diff_props \<Rightarrow> 32 word \<Rightarrow> cmp_ent \<Rightarrow> bool" where
  "view_keeps L props flags c =
     (if has (ce_status c) FCOM_SYNC_SKIP then False
      else if \<not> has flags FCOM_SYNC_DONE \<and> has (ce_status c) FCOM_SYNC_DONE then False
      else if \<not> view_kind flags (if has flags FCOM_SYNC_SWAP then status_swap (ce_status c) else ce_status c) then False
      else if \<not> has flags FCOM_SYNC_DIR \<and> (is_dir (ce_l c) \<or> is_dir (ce_r c)) then False
      else if fst (p_since props) \<noteq> 0 \<and> \<not> recent L (p_since props) (ce_l c) \<and> \<not> recent L (p_since props) (ce_r c) then False
      else name_included L props c)"

definition sync_view :: "('f, 'w) synclib \<Rightarrow> diff_props \<Rightarrow> 32 word \<Rightarrow> 'f diff \<Rightarrow> nat \<times> 'f diff" where
  "sync_view L props flags d =
     (let f = filter (\<lambda>i. view_keeps L props flags (d_ents d ! i)) [0..<length (d_ents d)]
      in (length f, d\<lparr>d_filter := f\<rparr>))"

record diff_entry =
  de_status :: "32 word"
  de_lname :: bytes
  de_rname :: bytes
  de_left :: "sync_entry option"
  de_right :: "sync_entry option"
  de_id :: nat

definition sync_info_id :: "'f diff \<Rightarrow> nat \<Rightarrow> 32 word \<Rightarrow> diff_entry" where
  "sync_info_id d i flags =
     (let c = d_ents d ! i;
          e = \<lparr>de_status = ce_status c, de_lname = full_name (ce_l c), de_rname = full_name (ce_r c),
              de_left = entry_data (ce_l c), de_right = entry_data (ce_r c), de_id = i\<rparr>
      in if has flags FCOM_SYNC_SWAP
         then e\<lparr>de_status := status_swap (ce_status c), de_lname := de_rname e, de_rname := de_lname e,
                de_left := de_right e, de_right := de_left e\<rparr>
         else e)"

definition sync_info :: "'f diff \<Rightarrow> nat \<Rightarrow> 32 word \<Rightarrow> diff_entry option" where
  "sync_info d i flags =
     (if length (d_filter d) \<le> i then None else Some (sync_info_id d (d_filter d ! i) flags))"

definition sync_status :: "'f diff \<Rightarrow> nat \<Rightarrow> 32 word \<Rightarrow> 32 word \<Rightarrow> 32 word \<times> 'f diff" where
  "sync_status d i msk val =
     (let st = (ce_status (d_ents d ! i) AND NOT msk) OR val
      in (st, upd_ent i (\<lambda>c. c\<lparr>ce_status := st\<rparr>) d))"

end
