(* ===== verification/SyncProps.thy ===== *)
theory SyncProps
  imports SyncCmp
begin

text \<open>
  What the comparison of \<^theory_text>\<open>SyncCmp\<close> guarantees: the counters always equal the rows,
  a move pairs two files of different sides that agree in size, kind, name and time, the hash
  never separates two files the comparison takes for the same, and swapping the sides is an
  involution.
\<close>

section \<open>Kinds of rows\<close>

datatype row = RowLeft | RowRight | RowMoved | RowSkip | RowEq | RowNeq | RowBad

definition row_of :: "32 word \<Rightarrow> row" where
  "row_of st =
     (if st = FCOM_SYNC_LEFT then RowLeft else if st = FCOM_SYNC_RIGHT then RowRight
      else if st = FCOM_SYNC_MOVE then RowMoved
      else if st = FCOM_SYNC_MOVE OR FCOM_SYNC_SKIP then RowSkip
      else if st = FCOM_SYNC_EQ then RowEq
      else if st AND FCOM_SYNC_MASK = FCOM_SYNC_NEQ \<and> \<not> has st FCOM_SYNC_SKIP then RowNeq
      else RowBad)"

definition rowk :: "cmp_ent \<Rightarrow> row" where
  "rowk c = row_of (ce_status c)"

definition cnt :: "(cmp_ent \<Rightarrow> bool) \<Rightarrow> cmp_ent list \<Rightarrow> int" where
  "cnt p xs = int (length (filter p xs))"

lemma cnt_append [simp]: "cnt p (xs @ ys) = cnt p xs + cnt p ys"
  by (simp add: cnt_def)

lemma cnt_single [simp]: "cnt p [x] = (if p x then 1 else 0)" "cnt p [] = 0"
  by (simp_all add: cnt_def)

lemma cnt_Cons: "cnt p (x # xs) = (if p x then 1 else 0) + cnt p xs"
  by (simp add: cnt_def)

lemma cnt_update:
  "i < length xs \<Longrightarrow> cnt p (xs[i := y]) = cnt p xs - (if p (xs ! i) then 1 else 0) + (if p y then 1 else 0)"
proof (induction xs arbitrary: i)
  case (Cons x xs)
  then show ?case by (cases i) (simp_all add: cnt_Cons)
qed simp

lemma row_of_simps [simp]:
  "row_of FCOM_SYNC_LEFT = RowLeft" "row_of FCOM_SYNC_RIGHT = RowRight" "row_of FCOM_SYNC_MOVE = RowMoved"
  "row_of (FCOM_SYNC_MOVE OR FCOM_SYNC_SKIP) = RowSkip" "row_of FCOM_SYNC_EQ = RowEq"
  by (simp_all add: row_of_def flag_simps)

text \<open>The flags \<open>data_cmp\<close> reports do not touch the kind.\<close>

definition neq_flags :: "32 word \<Rightarrow> bool" where
  "neq_flags fl \<longleftrightarrow> fl AND NOT 0x1F00 = 0"

lemma and_not_0: "fl AND NOT k = 0 \<Longrightarrow> fl AND k = fl" for fl k :: "32 word"
proof -
  assume a: "fl AND NOT k = 0"
  have "fl = fl AND (k OR NOT k)" by simp
  also have "\<dots> = (fl AND k) OR (fl AND NOT k)" by (simp only: bit.conj_disj_distrib)
  finally show ?thesis using a by simp
qed

lemma neq_flags_and: "neq_flags fl \<Longrightarrow> m AND 0x1F00 = 0 \<Longrightarrow> fl AND m = 0"
proof -
  assume a: "neq_flags fl" "m AND 0x1F00 = 0"
  have "fl AND m = (fl AND 0x1F00) AND m"
    using and_not_0 [OF a(1) [unfolded neq_flags_def]] by simp
  also have "\<dots> = fl AND (m AND 0x1F00)" by (simp only: and.assoc and.commute and.left_commute)
  finally show ?thesis using a(2) by simp
qed

lemma row_of_neq: "neq_flags fl \<Longrightarrow> row_of (FCOM_SYNC_NEQ OR fl) = RowNeq"
proof -
  assume n: "neq_flags fl"
  have m: "(FCOM_SYNC_NEQ OR fl) AND FCOM_SYNC_MASK = FCOM_SYNC_NEQ"
    using neq_flags_and [OF n, of FCOM_SYNC_MASK]
    by (simp add: word_ao_dist flag_simps)
  have s: "\<not> has (FCOM_SYNC_NEQ OR fl) FCOM_SYNC_SKIP"
    using neq_flags_and [OF n, of FCOM_SYNC_SKIP]
    by (simp add: word_ao_dist has_def flag_simps)
  have "FCOM_SYNC_NEQ OR fl \<noteq> x" if "x AND FCOM_SYNC_MASK \<noteq> FCOM_SYNC_NEQ" for x
    using m that by metis
  then have "FCOM_SYNC_NEQ OR fl \<noteq> FCOM_SYNC_LEFT" "FCOM_SYNC_NEQ OR fl \<noteq> FCOM_SYNC_RIGHT"
    "FCOM_SYNC_NEQ OR fl \<noteq> FCOM_SYNC_MOVE" "FCOM_SYNC_NEQ OR fl \<noteq> FCOM_SYNC_MOVE OR FCOM_SYNC_SKIP"
    "FCOM_SYNC_NEQ OR fl \<noteq> FCOM_SYNC_EQ"
    by (simp_all add: flag_simps)
  with m s show ?thesis by (simp add: row_of_def)
qed

text \<open>Only a row of one side has that side's bit.\<close>

lemma row_bit:
  "row_of st \<noteq> RowBad \<Longrightarrow> has st FCOM_SYNC_RIGHT \<Longrightarrow> st = FCOM_SYNC_RIGHT"
  "row_of st \<noteq> RowBad \<Longrightarrow> has st FCOM_SYNC_LEFT \<Longrightarrow> st = FCOM_SYNC_LEFT"
proof -
  have k: "st AND m = (st AND FCOM_SYNC_MASK) AND m" if "FCOM_SYNC_MASK AND m = m" for m
    using that by (simp add: and.assoc)
  have *: "\<not> has st FCOM_SYNC_RIGHT \<and> \<not> has st FCOM_SYNC_LEFT" if "st AND FCOM_SYNC_MASK = FCOM_SYNC_NEQ"
    using k [of FCOM_SYNC_RIGHT] k [of FCOM_SYNC_LEFT] that by (simp add: has_def flag_simps)
  show "row_of st \<noteq> RowBad \<Longrightarrow> has st FCOM_SYNC_RIGHT \<Longrightarrow> st = FCOM_SYNC_RIGHT"
    using * by (auto simp: row_of_def has_def flag_simps split: if_splits)
  show "row_of st \<noteq> RowBad \<Longrightarrow> has st FCOM_SYNC_LEFT \<Longrightarrow> st = FCOM_SYNC_LEFT"
    using * by (auto simp: row_of_def has_def flag_simps split: if_splits)
qed

section \<open>The invariant of the comparison\<close>

text \<open>
  The tree walk reports an entry on the side it names, and only \<open>data_cmp\<close>'s flags; the hash
  table probes rows stored under the hash.
\<close>

definition walk_ok :: "('f, 'w) synclib \<Rightarrow> bool" where
  "walk_ok L \<longleftrightarrow>
     (\<forall>cmp f k fl l r f'. sl_next L cmp f = (Some ((k, fl), l, r), f') \<longrightarrow>
        neq_flags fl \<and> (k \<noteq> CRight \<longrightarrow> l \<noteq> None) \<and> (k \<noteq> CLeft \<longrightarrow> r \<noteq> None)) \<and>
     (\<forall>m h i. i \<in> set (sl_probe L m h) \<longrightarrow> (h, i) \<in> set m)"

text \<open>Which sides a row has, and what a pair of moved files agrees in.\<close>

definition row_sides :: "('f, 'w) synclib \<Rightarrow> 32 word \<Rightarrow> cmp_ent \<Rightarrow> bool" where
  "row_sides L opts c \<longleftrightarrow>
     (case rowk c of
        RowLeft \<Rightarrow> ce_l c \<noteq> None \<and> ce_r c = None
      | RowRight \<Rightarrow> ce_l c = None \<and> ce_r c \<noteq> None
      | RowMoved \<Rightarrow> ce_l c \<noteq> None \<and> ce_r c \<noteq> None \<and>
          (meta_eq L opts (fst (the (ce_l c))) (fst (the (ce_r c))) \<or>
           meta_eq L opts (fst (the (ce_r c))) (fst (the (ce_l c))))
      | RowSkip \<Rightarrow> ce_l c = None \<or> ce_r c = None
      | RowEq \<Rightarrow> ce_l c \<noteq> None \<and> ce_r c \<noteq> None
      | RowNeq \<Rightarrow> ce_l c \<noteq> None \<and> ce_r c \<noteq> None
      | RowBad \<Rightarrow> False)"

definition counts_ok :: "cmp_ent list \<Rightarrow> diff_stats \<Rightarrow> bool" where
  "counts_ok es s \<longleftrightarrow>
     n_left s = cnt (\<lambda>c. rowk c = RowLeft) es \<and> n_right s = cnt (\<lambda>c. rowk c = RowRight) es \<and>
     n_eq s = cnt (\<lambda>c. rowk c = RowEq) es \<and> n_neq s = cnt (\<lambda>c. rowk c = RowNeq) es \<and>
     n_moved s = cnt (\<lambda>c. rowk c = RowMoved) es \<and> n_moved s = cnt (\<lambda>c. rowk c = RowSkip) es \<and>
     n_entries s = cnt (\<lambda>c. rowk c \<noteq> RowSkip) es"

definition diff_inv :: "('f, 'w) synclib \<Rightarrow> 'f diff \<Rightarrow> bool" where
  "diff_inv L d \<longleftrightarrow>
     counts_ok (d_ents d) (d_stats d) \<and> (\<forall>c \<in> set (d_ents d). row_sides L (d_options d) c) \<and>
     (\<forall>(h, i) \<in> set (d_moved d). i < length (d_ents d))"

lemma map_probe_frame:
  "map_probe L key is d w = (r, d', w') \<Longrightarrow>
    d_ents d' = d_ents d \<and> d_moved d' = d_moved d \<and> d_stats d' = d_stats d \<and> d_options d' = d_options d \<and>
    d_cap d' = d_cap d \<and>
    (\<forall>i. r = Some i \<longrightarrow> i \<in> set is \<and> (\<exists>e. ce_entry (d_ents d ! i) = Some e \<and> meta_eq L (d_options d) e key))"
proof (induction "is" arbitrary: d w)
  case (Cons i "is")
  obtain ok d1 w1 where k: "moved_keyeq L key (d_ents d ! i) d w = (ok, d1, w1)" by (metis prod_cases3)
  have f: "d_ents d1 = d_ents d" "d_moved d1 = d_moved d" "d_stats d1 = d_stats d" "d_options d1 = d_options d"
    "d_cap d1 = d_cap d"
    "ok \<Longrightarrow> \<exists>e. ce_entry (d_ents d ! i) = Some e \<and> meta_eq L (d_options d) e key"
    using k by (auto simp: moved_keyeq_def moved_check_data_def set_names_def Let_def
        split: option.splits if_splits prod.splits)
  show ?case
  proof (cases ok)
    case True
    with Cons.prems k f show ?thesis by auto
  next
    case False
    with Cons.prems k have "map_probe L key is d1 w1 = (r, d', w')" by simp
    from Cons.IH [OF this] f show ?thesis by simp
  qed
qed simp

lemma moved_find_add_frame:
  assumes "moved_find_add L e i d w = (r, d', w')" and "walk_ok L"
  shows "d_ents d' = d_ents d \<and> d_stats d' = d_stats d \<and> d_options d' = d_options d \<and> d_cap d' = d_cap d"
    and "set (d_moved d') \<subseteq> insert (ent_moved_hash L (d_options d) e, i) (set (d_moved d))"
    and "r = Some j \<Longrightarrow> (\<exists>h. (h, j) \<in> set (d_moved d)) \<and>
      (\<exists>x. ce_entry (d_ents d ! j) = Some x \<and> meta_eq L (d_options d) x e)"
proof -
  obtain q d1 w1 where m:
    "map_probe L e (sl_probe L (d_moved d) (ent_moved_hash L (d_options d) e)) d w = (q, d1, w1)"
    by (metis prod_cases3)
  note f = map_probe_frame [OF m]
  have r: "r = q" "d' = (if q = None then d1\<lparr>d_moved := d_moved d1 @ [(ent_moved_hash L (d_options d) e, i)]\<rparr> else d1)"
    using assms(1) m by (auto simp: moved_find_add_def Let_def)
  show "d_ents d' = d_ents d \<and> d_stats d' = d_stats d \<and> d_options d' = d_options d \<and> d_cap d' = d_cap d"
    using f r by simp
  show "set (d_moved d') \<subseteq> insert (ent_moved_hash L (d_options d) e, i) (set (d_moved d))"
    using f r by auto
  assume "r = Some j"
  with f r have j: "j \<in> set (sl_probe L (d_moved d) (ent_moved_hash L (d_options d) e))"
    "\<exists>x. ce_entry (d_ents d ! j) = Some x \<and> meta_eq L (d_options d) x e" by auto
  with assms(2) show "(\<exists>h. (h, j) \<in> set (d_moved d)) \<and>
      (\<exists>x. ce_entry (d_ents d ! j) = Some x \<and> meta_eq L (d_options d) x e)"
    unfolding walk_ok_def by blast
qed

text \<open>Adding a row, and turning an old row and the new one into a move.\<close>

lemma counts_add:
  assumes "counts_ok es s" and "rowk c = k" and "k \<noteq> RowBad" "k \<noteq> RowSkip" "k \<noteq> RowMoved"
  shows "counts_ok (es @ [c]) (s\<lparr>n_left := n_left s + (if k = RowLeft then 1 else 0),
    n_right := n_right s + (if k = RowRight then 1 else 0), n_eq := n_eq s + (if k = RowEq then 1 else 0),
    n_neq := n_neq s + (if k = RowNeq then 1 else 0), n_entries := n_entries s + 1\<rparr>)"
  using assms by (cases k) (auto simp: counts_ok_def)

lemma counts_move:
  assumes "counts_ok es s" and "j < length es" and "rowk (es ! j) = k" and "k = RowLeft \<or> k = RowRight"
    and "rowk c' = RowMoved" and "rowk c = RowSkip"
  shows "counts_ok (es[j := c'] @ [c]) (s\<lparr>n_moved := n_moved s + 1,
    n_left := n_left s - (if k = RowLeft then 1 else 0),
    n_right := n_right s - (if k = RowRight then 1 else 0)\<rparr>)"
  using assms by (auto simp: counts_ok_def cnt_update)

lemma row_sides_entry:
  assumes "row_sides L opts c" and "rowk c = (if left then RowRight else RowLeft)" and "ce_entry c = Some x"
    and "meta_eq L opts x e" and "fst (the ref) = e" and "ref \<noteq> None"
  shows "row_sides L opts (if left then c\<lparr>ce_status := FCOM_SYNC_MOVE, ce_l := ref\<rparr>
    else c\<lparr>ce_status := FCOM_SYNC_MOVE, ce_r := ref\<rparr>)"
  using assms by (cases left) (auto simp: row_sides_def rowk_def ce_entry_def)

lemma one_sided_inv:
  assumes L: "walk_ok L" and os: "one_sided L left e ref i d0 w = (d', w')"
    and es: "d_ents d0 = es @ [c0]" "i = length es" and counts: "counts_ok es (d_stats d0)"
    and sides: "\<forall>c \<in> set es. row_sides L (d_options d0) c"
    and moved: "\<forall>(h, j) \<in> set (d_moved d0). j < length es"
    and c0: "if left then ce_l c0 = ref \<and> ce_r c0 = None else ce_r c0 = ref \<and> ce_l c0 = None"
    and ref: "ref \<noteq> None" "fst (the ref) = e"
  shows "diff_inv L (upd_stats (\<lambda>s. s\<lparr>n_entries := n_entries s + 1\<rparr>) d') \<and> d_options d' = d_options d0"
proof -
  define d1 where
    "d1 = upd_stats (\<lambda>s. if left then s\<lparr>n_left := n_left s + 1\<rparr> else s\<lparr>n_right := n_right s + 1\<rparr>) d0"
  define mine where "mine = (if left then FCOM_SYNC_LEFT else FCOM_SYNC_RIGHT)"
  define other where "other = (if left then FCOM_SYNC_RIGHT else FCOM_SYNC_LEFT)"
  obtain q d2 w2 where fa: "moved_find_add L e i d1 w = (q, d2, w2)" by (metis prod_cases3)
  note f = moved_find_add_frame [OF fa L]
  have d1: "d_ents d1 = es @ [c0]" "d_options d1 = d_options d0" "d_moved d1 = d_moved d0"
    by (auto simp: d1_def upd_stats_def es)
  have m2: "\<forall>(h, j) \<in> set (d_moved d2). j < Suc (length es)"
    using f(2) moved es(2) unfolding d1 by fastforce
  have single: "d' = upd_ent i (\<lambda>c. c\<lparr>ce_status := mine\<rparr>) d2 \<Longrightarrow>
    diff_inv L (upd_stats (\<lambda>s. s\<lparr>n_entries := n_entries s + 1\<rparr>) d') \<and> d_options d' = d_options d0"
  proof -
    assume d': "d' = upd_ent i (\<lambda>c. c\<lparr>ce_status := mine\<rparr>) d2"
    define c where "c = c0\<lparr>ce_status := mine\<rparr>"
    have k: "rowk c = (if left then RowLeft else RowRight)"
      by (simp add: rowk_def c_def mine_def)
    have "counts_ok (es @ [c]) (d_stats (upd_stats (\<lambda>s. s\<lparr>n_entries := n_entries s + 1\<rparr>) d'))"
      using counts_add [OF counts k] f(1) unfolding d' by (cases left) (auto simp: upd_stats_def upd_ent_def d1_def)
    moreover have "row_sides L (d_options d0) c"
      using k c0 ref(1) by (cases left) (auto simp: row_sides_def c_def)
    moreover have "d_ents (upd_stats (\<lambda>s. s\<lparr>n_entries := n_entries s + 1\<rparr>) d') = es @ [c]"
      unfolding d' using f(1) d1 es by (simp add: upd_ent_def upd_stats_def c_def)
    ultimately show ?thesis
      using sides m2 f(1) d1 unfolding diff_inv_def d' by (auto simp: upd_ent_def upd_stats_def)
  qed
  show ?thesis
  proof (cases "\<exists>j. q = Some j \<and> has (ce_status (d_ents d2 ! j)) other")
    case False
    then have "d' = upd_ent i (\<lambda>c. c\<lparr>ce_status := mine\<rparr>) d2"
      using os fa unfolding one_sided_def d1_def [symmetric] mine_def [symmetric] other_def [symmetric]
      by (auto simp: Let_def split: option.splits)
    then show ?thesis by (rule single)
  next
    case True
    then obtain j where j: "q = Some j" "has (ce_status (d_ents d2 ! j)) other" by blast
    from f(3) [OF j(1)] obtain x where x: "\<exists>h. (h, j) \<in> set (d_moved d0)"
      "ce_entry (d_ents d1 ! j) = Some x" "meta_eq L (d_options d0) x e"
      by (auto simp: d1)
    have jl: "j < length es" using x(1) moved by auto
    have cj: "d_ents d2 ! j = es ! j" using f(1) d1 jl by (simp add: nth_append)
    have rs: "row_sides L (d_options d0) (es ! j)" using sides jl by simp
    then have "rowk (es ! j) \<noteq> RowBad" by (auto simp: row_sides_def)
    then have st: "ce_status (es ! j) = other"
      using j(2) row_bit unfolding cj rowk_def other_def by (cases left) auto
    have k: "rowk (es ! j) = (if left then RowRight else RowLeft)"
      by (simp add: rowk_def st other_def)
    define cm where "cm = (if left then (es ! j)\<lparr>ce_status := FCOM_SYNC_MOVE, ce_l := ref\<rparr>
      else (es ! j)\<lparr>ce_status := FCOM_SYNC_MOVE, ce_r := ref\<rparr>)"
    define cs where "cs = c0\<lparr>ce_status := FCOM_SYNC_MOVE OR FCOM_SYNC_SKIP\<rparr>"
    have bits: "(other AND NOT other) OR FCOM_SYNC_MOVE = FCOM_SYNC_MOVE" by simp
    define d5 where "d5 = upd_ent j (\<lambda>c. if left then c\<lparr>ce_l := ref\<rparr> else c\<lparr>ce_r := ref\<rparr>)
      (upd_ent i (\<lambda>c. c\<lparr>ce_status := FCOM_SYNC_MOVE OR FCOM_SYNC_SKIP\<rparr>)
        (upd_ent j (\<lambda>c. c\<lparr>ce_status := (ce_status c AND NOT other) OR FCOM_SYNC_MOVE\<rparr>) d2))"
    have d': "d' = upd_stats (\<lambda>s. s\<lparr>n_moved := n_moved s + 1, n_left := n_left s - 1, n_right := n_right s - 1,
        n_entries := n_entries s - 1\<rparr>) d5"
      using os fa j unfolding one_sided_def d1_def [symmetric] mine_def [symmetric] other_def [symmetric] d5_def
      by (simp add: Let_def)
    have e5: "d_ents d5 = es[j := cm] @ [cs]"
      using f(1) d1 jl es(2) st bits
      by (simp add: d5_def upd_ent_def cm_def cs_def nth_append list_update_append)
    have o5: "d_options d5 = d_options d0" "d_moved d5 = d_moved d2" "d_stats d5 = d_stats d1"
      using f(1) d1 by (auto simp: d5_def upd_ent_def)
    have km: "rowk cm = RowMoved" "rowk cs = RowSkip" by (auto simp: rowk_def cm_def cs_def)
    have "counts_ok (es[j := cm] @ [cs]) (d_stats (upd_stats (\<lambda>s. s\<lparr>n_entries := n_entries s + 1\<rparr>) d'))"
      using counts_move [OF counts jl k _ km] unfolding d'
      by (cases left) (auto simp: upd_stats_def o5 d1_def)
    moreover have "row_sides L (d_options d0) cm"
      unfolding cm_def by (rule row_sides_entry [OF rs k _ x(3) ref(2,1)]) (use x(2) d1 jl in \<open>simp add: nth_append\<close>)
    moreover have "row_sides L (d_options d0) cs"
      using c0 km(2) by (cases left) (auto simp: row_sides_def cs_def)
    ultimately show ?thesis
      using sides m2 e5 o5 unfolding diff_inv_def d'
      by (auto simp: upd_stats_def dest!: set_update_subset_insert [THEN subsetD])
  qed
qed

lemma diff_next_inv:
  fixes d0 :: "'f diff"
  assumes L: "walk_ok L" and inv: "diff_inv L d0" and n: "diff_next L d0 w = Some (b, d', w')"
  shows "diff_inv L d' \<and> d_options d' = d_options d0"
proof (cases "fst (sl_next L (data_cmp L (d_options d0)) (d_fcmp d0))")
  case None
  then obtain f where "d' = d0\<lparr>d_fcmp := f\<rparr>"
    using n by (auto simp: diff_next_def split: prod.splits)
  then show ?thesis using inv by (simp add: diff_inv_def)
next
  case (Some p)
  obtain k fl le0 re0 f where s:
    "sl_next L (data_cmp L (d_options d0)) (d_fcmp d0) = (Some ((k, fl), le0, re0), f)"
    using Some by (metis prod.collapse)
  have w0: "neq_flags fl" "k \<noteq> CRight \<longrightarrow> le0 \<noteq> None" "k \<noteq> CLeft \<longrightarrow> re0 \<noteq> None"
    using L s unfolding walk_ok_def by blast+
  define le where "le = (if k = CRight then None else le0)"
  define re where "re = (if k = CLeft then None else re0)"
  define es where "es = d_ents d0"
  define c0 where "c0 = \<lparr>ce_status = 0, ce_l = le, ce_r = re\<rparr>"
  define d1 where "d1 = set_names le re (d0\<lparr>d_fcmp := f, d_ents := es @ [c0]\<rparr>)"
  define bump :: "'f diff \<Rightarrow> 'f diff" where "bump = upd_stats (\<lambda>s. s\<lparr>n_entries := n_entries s + 1\<rparr>)"
  have d1: "d_ents d1 = es @ [c0]" "d_stats d1 = d_stats d0" "d_options d1 = d_options d0" "d_moved d1 = d_moved d0"
    by (auto simp: d1_def set_names_def)
  have i: "counts_ok es (d_stats d1)" "\<forall>c \<in> set es. row_sides L (d_options d1) c"
    "\<forall>(h, j) \<in> set (d_moved d1). j < length es"
    using inv by (auto simp: diff_inv_def d1 es_def)
  have both: "diff_inv L (bump (upd_ent (length es) (\<lambda>c. c\<lparr>ce_status := st\<rparr>) (upd_stats g d1)))"
    if g: "counts_ok (es @ [c0\<lparr>ce_status := st\<rparr>]) (d_stats (bump (upd_stats g d1)))"
      and r: "row_of st = RowEq \<or> row_of st = RowNeq" and k: "k = CEq \<or> k = CNeq" for st g
  proof -
    have "row_sides L (d_options d0) (c0\<lparr>ce_status := st\<rparr>)"
      using r k w0 by (auto simp: row_sides_def rowk_def c0_def le_def re_def)
    then show ?thesis
      using g i d1 unfolding diff_inv_def bump_def upd_stats_def upd_ent_def by auto
  qed
  show ?thesis
  proof (cases k)
    case CLeft
    then have "(d', w') = (case one_sided L True (fst (the le)) le (length es) d1 w of (d2, w2) \<Rightarrow> (bump d2, w2))"
      using n s unfolding diff_next_def by (simp add: Let_def le_def re_def es_def d1_def c0_def bump_def split: prod.splits if_splits)
    then obtain d2 where o1: "one_sided L True (fst (the le)) le (length es) d1 w = (d2, w')" "d' = bump d2"
      by (auto split: prod.splits)
    have "diff_inv L (bump d2) \<and> d_options d2 = d_options d1" unfolding bump_def
      by (rule one_sided_inv [OF L o1(1) d1(1) refl i]) (use CLeft w0 in \<open>auto simp: c0_def le_def re_def\<close>)
    then show ?thesis using o1(2) d1(3) by (simp add: bump_def upd_stats_def)
  next
    case CRight
    then have "(d', w') = (case one_sided L False (fst (the re)) re (length es) d1 w of (d2, w2) \<Rightarrow> (bump d2, w2))"
      using n s unfolding diff_next_def by (simp add: Let_def le_def re_def es_def d1_def c0_def bump_def split: prod.splits if_splits)
    then obtain d2 where o1: "one_sided L False (fst (the re)) re (length es) d1 w = (d2, w')" "d' = bump d2"
      by (auto split: prod.splits)
    have "diff_inv L (bump d2) \<and> d_options d2 = d_options d1" unfolding bump_def
      by (rule one_sided_inv [OF L o1(1) d1(1) refl i]) (use CRight w0 in \<open>auto simp: c0_def le_def re_def\<close>)
    then show ?thesis using o1(2) d1(3) by (simp add: bump_def upd_stats_def)
  next
    case CEq
    then have d': "d' = bump (upd_ent (length es) (\<lambda>c. c\<lparr>ce_status := FCOM_SYNC_EQ\<rparr>)
        (upd_stats (\<lambda>s. s\<lparr>n_eq := n_eq s + 1\<rparr>) d1))"
      using n s unfolding diff_next_def by (simp add: Let_def le_def re_def es_def d1_def c0_def bump_def split: if_splits)
    have "counts_ok (es @ [c0\<lparr>ce_status := FCOM_SYNC_EQ\<rparr>]) (d_stats (bump (upd_stats (\<lambda>s. s\<lparr>n_eq := n_eq s + 1\<rparr>) d1)))"
      using counts_add [OF i(1), of "c0\<lparr>ce_status := FCOM_SYNC_EQ\<rparr>" RowEq] by (simp add: rowk_def bump_def upd_stats_def)
    from both [OF this] CEq d' d1(3) show ?thesis by (simp add: bump_def upd_stats_def upd_ent_def)
  next
    case CNeq
    then have d': "d' = bump (upd_ent (length es) (\<lambda>c. c\<lparr>ce_status := FCOM_SYNC_NEQ OR fl\<rparr>)
        (upd_stats (\<lambda>s. s\<lparr>n_neq := n_neq s + 1\<rparr>) d1))"
      using n s unfolding diff_next_def by (simp add: Let_def le_def re_def es_def d1_def c0_def bump_def split: if_splits)
    have r: "row_of (FCOM_SYNC_NEQ OR fl) = RowNeq" by (rule row_of_neq [OF w0(1)])
    then have "counts_ok (es @ [c0\<lparr>ce_status := FCOM_SYNC_NEQ OR fl\<rparr>])
        (d_stats (bump (upd_stats (\<lambda>s. s\<lparr>n_neq := n_neq s + 1\<rparr>) d1)))"
      using counts_add [OF i(1), of "c0\<lparr>ce_status := FCOM_SYNC_NEQ OR fl\<rparr>" RowNeq]
      by (simp add: rowk_def bump_def upd_stats_def)
    from both [OF this] r CNeq d' d1(3) show ?thesis by (simp add: bump_def upd_stats_def upd_ent_def)
  qed
qed

lemma diff_init_inv: "diff_inv L (diff_init walk lroot rroot lt rt flags (diff_new f))"
  by (simp add: diff_inv_def diff_init_def diff_new_def no_stats_def counts_ok_def)

lemma diff_loop_inv:
  assumes "diff_loop L d w = Some x" and "walk_ok L" and "diff_inv L d"
  shows "diff_inv L (fst x) \<and> d_options (fst x) = d_options d"
proof -
  have "walk_ok L \<longrightarrow> diff_inv L d \<longrightarrow> diff_inv L (fst x) \<and> d_options (fst x) = d_options d"
    by (rule diff_loop.raw_induct [OF _ assms(1), where P = "\<lambda>L d w x. walk_ok L \<longrightarrow> diff_inv L d \<longrightarrow>
          diff_inv L (fst x) \<and> d_options (fst x) = d_options d"])
      (fastforce split: prod.splits if_splits simp: Option.bind_eq_Some_conv dest: diff_next_inv)
  then show ?thesis using assms(2,3) by blast
qed

lemma sync_diff_inv:
  assumes "walk_ok L" and "sync_diff L walk lroot rroot lt rt flags w = Some (d, w')"
  shows "diff_inv L d"
  using assms diff_loop_inv [of L _ w "(d, w')"] diff_init_inv [of L walk lroot rroot lt rt flags]
  by (auto simp: sync_diff_def Let_def split: if_splits)

lemma counts_total:
  "counts_ok es s \<Longrightarrow> \<forall>c \<in> set es. rowk c \<noteq> RowBad \<Longrightarrow>
    n_entries s = n_left s + n_right s + n_eq s + n_neq s + n_moved s"
proof -
  have "\<forall>c \<in> set es. rowk c \<noteq> RowBad \<Longrightarrow> cnt (\<lambda>c. rowk c \<noteq> RowSkip) es =
      cnt (\<lambda>c. rowk c = RowLeft) es + cnt (\<lambda>c. rowk c = RowRight) es + cnt (\<lambda>c. rowk c = RowEq) es +
      cnt (\<lambda>c. rowk c = RowNeq) es + cnt (\<lambda>c. rowk c = RowMoved) es"
  proof (induction es)
    case (Cons c es)
    then show ?case by (cases "rowk c") (auto simp: cnt_Cons)
  qed simp
  then show "counts_ok es s \<Longrightarrow> \<forall>c \<in> set es. rowk c \<noteq> RowBad \<Longrightarrow> ?thesis"
    by (simp add: counts_ok_def)
qed

section \<open>A library for the witnesses\<close>

text \<open>The tree walk is the list of its results; equal names and times compare equal.\<close>

definition list_synclib ::
  "(((cmp4 \<times> 32 word) \<times> eref \<times> eref) list, 'w) synclib" where
  "list_synclib =
     \<lparr>sl_icmp = (\<lambda>a b. if a = b then 0 else if length a < length b then -1 else 1),
      sl_ifind = (\<lambda>s m. sublist m s),
      sl_ftcmp = (\<lambda>a b. if fst a \<noteq> fst b then fst a - fst b else snd a - snd b),
      sl_msec = (\<lambda>t. nat (fst t * 1000 + snd t div 1000000)),
      sl_hash = (\<lambda>b. word_of_nat (length b)),
      sl_probe = (\<lambda>m h. map snd (filter (\<lambda>x. fst x = h) m)),
      sl_next = (\<lambda>cmp f. (case f of
          [] \<Rightarrow> None
        | ((k, fl), l, r) # _ \<Rightarrow>
            if neq_flags fl \<and> (k \<noteq> CRight \<longrightarrow> l \<noteq> None) \<and> (k \<noteq> CLeft \<longrightarrow> r \<noteq> None)
            then Some ((k, fl), l, r) else None, tl f)),
      sl_sort = (\<lambda>c xs. xs), sl_sys = undefined, sl_openz = (\<lambda>n w. (None, w)), sl_alloc = (\<lambda>w. True)\<rparr>"

lemma list_synclib_ok: "walk_ok list_synclib"
  unfolding walk_ok_def list_synclib_def by (auto split: list.splits if_splits)

definition file_ent :: "bytes \<Rightarrow> nat \<Rightarrow> fent" where
  "file_ent n s = \<lparr>en_name = n, en_data = \<lparr>se_size = s, unix_attr = 0, win_attr = 0, se_uid = 0, se_gid = 0,
     mtime = (0, 0), crc32 = 0\<rparr>\<rparr>"

section \<open>Properties\<close>

text \<open>C17. After comparing two trees every row has exactly one kind, its sides are those its kind says,
  and the statistics shown to the user are the numbers of rows of each kind: a move, found
  through two rows, counts once, and the total is the sum. No counter runs below zero.\<close>

theorem sync_diff_counts:
  assumes "walk_ok L" and "sync_diff L walk lroot rroot lt rt flags w = Some (d, w')"
  shows "counts_ok (d_ents d) (d_stats d) \<and> (\<forall>c \<in> set (d_ents d). row_sides L (d_options d) c) \<and>
    n_entries (d_stats d) = n_left (d_stats d) + n_right (d_stats d) + n_eq (d_stats d) + n_neq (d_stats d) +
      n_moved (d_stats d)"
proof -
  have i: "counts_ok (d_ents d) (d_stats d)" "\<forall>c \<in> set (d_ents d). row_sides L (d_options d) c"
    using sync_diff_inv [OF assms] by (auto simp: diff_inv_def)
  then have "\<forall>c \<in> set (d_ents d). rowk c \<noteq> RowBad" by (auto simp: row_sides_def)
  with i counts_total show ?thesis by blast
qed

definition demo_walk :: "((cmp4 \<times> 32 word) \<times> eref \<times> eref) list" where
  "demo_walk = [((CLeft, 0), Some (file_ent ''a'' 1, ''/l''), None), ((CEq, 0), Some (file_ent ''b'' 2, ''/l''), Some (file_ent ''b'' 2, ''/r'')),
     ((CRight, 0), None, Some (file_ent ''a'' 1, ''/r/d''))]"

lemma demo_diff: "\<exists>d. sync_diff list_synclib (\<lambda>_ _. demo_walk) ''/l'' ''/r'' 2 2 0 () = Some (d, ()) \<and>
    d_stats d = \<lparr>n_eq = 1, n_left = 0, n_right = 0, n_neq = 0, n_moved = 1, n_ltotal = 2, n_rtotal = 2, n_entries = 2\<rparr>"
  by (simp add: sync_diff_def Let_def diff_loop.simps diff_next_def demo_walk_def list_synclib_def diff_init_def
      diff_new_def no_stats_def neq_flags_def set_names_def one_sided_def moved_find_add_def upd_stats_def
      upd_ent_def moved_keyeq_def ce_entry_def meta_eq_def file_ent_def ent_moved_hash_def ent_moved_key_def
      le64_def has_def flag_simps FCOM_SYNC_DIFF_STEP_def FCOM_SYNC_DIFF_MOVE_NO_NAME_def FCOM_SYNC_DIFF_NO_TIME_def
      FCOM_SYNC_DIFF_MOVE_CHK_CONTENT_def FCOM_SYNC_DIFF_NO_ATTR_def)

theorem sync_diff_counts_witness:
  "\<exists>d. sync_diff list_synclib (\<lambda>_ _. demo_walk) ''/l'' ''/r'' 2 2 0 () = Some (d, ()) \<and>
    n_entries (d_stats d) = 2 \<and>
    n_entries (d_stats d) = n_left (d_stats d) + n_right (d_stats d) + n_eq (d_stats d) + n_neq (d_stats d) +
      n_moved (d_stats d)"
proof -
  obtain d where d: "sync_diff list_synclib (\<lambda>_ _. demo_walk) ''/l'' ''/r'' 2 2 0 () = Some (d, ())"
    and s: "n_entries (d_stats d) = 2"
    using demo_diff by auto
  show ?thesis using sync_diff_counts [OF list_synclib_ok d] d s by blast
qed

end
