(* ===== verification/SyncDups.thy ===== *)
theory SyncDups
  imports SyncProps "HOL-Library.Multiset"
begin

text \<open>
  The duplicate search of \<^theory_text>\<open>SyncCmp\<close> (every file ends up unique, or first or second of a pair of files that agree
  in all that \<open>file_cmp\<close> looks at in its fast mode), looking up moved files through the hash table, and the comparison
  seen from the other side.
\<close>

section \<open>Duplicates\<close>

definition sort_perm :: "('f, 'w) synclib \<Rightarrow> bool" where
  "sort_perm L \<longleftrightarrow> (\<forall>c xs. mset (sl_sort L c xs) = mset xs)"

text \<open>The comparison of two files by name depends on nothing but their contents, which do not change.\<close>

definition steady_cmp :: "('f, 'w) synclib \<Rightarrow> (bytes option \<Rightarrow> bytes option \<Rightarrow> bool) \<Rightarrow> bool" where
  "steady_cmp L same \<longleftrightarrow> (\<forall>a b w. fst (fast_cmp L a b w) = 0 \<longleftrightarrow> same a b)"

abbreviation status_is :: "32 word \<Rightarrow> cmp_ent \<Rightarrow> bool" where
  "status_is st c \<equiv> ce_status c = st"

definition pair_ok :: "(bytes option \<Rightarrow> bytes option \<Rightarrow> bool) \<Rightarrow> cmp_ent list \<Rightarrow> cmp_ent \<Rightarrow> bool" where
  "pair_ok same es c \<longleftrightarrow>
     (\<exists>l r. ce_l c = Some l \<and> ce_r c = Some r \<and> same (Some (full_name (Some l))) (Some (full_name (Some r))) \<and>
        se_size (en_data (fst l)) = se_size (en_data (fst r)) \<and>
        (\<exists>c2 \<in> set es. status_is FCOM_SYNC_DONE c2 \<and> ce_l c2 = Some r))"

definition dups_rows :: "(bytes option \<Rightarrow> bytes option \<Rightarrow> bool) \<Rightarrow> nat set \<Rightarrow> 'f diff \<Rightarrow> bool" where
  "dups_rows same open d \<longleftrightarrow>
     (\<forall>j < length (d_ents d).
        (if j \<in> open then ce_status (d_ents d ! j) = 0
         else ce_status (d_ents d ! j) \<in> {FCOM_SYNC_NEQ, FCOM_SYNC_EQ, FCOM_SYNC_DONE}) \<and>
        (status_is FCOM_SYNC_EQ (d_ents d ! j) \<longrightarrow> pair_ok same (d_ents d) (d_ents d ! j))) \<and>
     n_neq (d_stats d) = cnt (status_is FCOM_SYNC_NEQ) (d_ents d) \<and>
     n_eq (d_stats d) = cnt (status_is FCOM_SYNC_EQ) (d_ents d) \<and>
     n_eq (d_stats d) = cnt (status_is FCOM_SYNC_DONE) (d_ents d)"

definition dups_open :: "'f diff \<Rightarrow> nat set" where
  "dups_open d = set (drop (dup_cur d) (d_filter d)) \<union> set_option (ce_prev d)"

definition dups_inv :: "(bytes option \<Rightarrow> bytes option \<Rightarrow> bool) \<Rightarrow> (fent \<times> bytes) list \<Rightarrow> 'f diff \<Rightarrow> bool" where
  "dups_inv same fs d \<longleftrightarrow>
     map ce_l (d_ents d) = map Some fs \<and> mset (d_filter d) = mset [0..<length fs] \<and>
     dup_cur d \<le> length (d_filter d) \<and> n_entries (d_stats d) = int (dup_cur d) \<and>
     set_option (ce_prev d) \<subseteq> set (take (dup_cur d) (d_filter d)) \<and>
     sz_prev d = map_option (\<lambda>p. se_size (en_data (fst (fs ! p)))) (ce_prev d) \<and>
     dups_rows same (dups_open d) d"

lemma sync_status_neq [simp]:
  "FCOM_SYNC_NEQ \<noteq> FCOM_SYNC_EQ" "FCOM_SYNC_NEQ \<noteq> FCOM_SYNC_DONE" "FCOM_SYNC_EQ \<noteq> FCOM_SYNC_DONE"
  "FCOM_SYNC_EQ \<noteq> FCOM_SYNC_NEQ" "FCOM_SYNC_DONE \<noteq> FCOM_SYNC_NEQ" "FCOM_SYNC_DONE \<noteq> FCOM_SYNC_EQ"
  "FCOM_SYNC_NEQ \<noteq> 0" "FCOM_SYNC_EQ \<noteq> 0" "FCOM_SYNC_DONE \<noteq> 0"
  by (simp_all add: flag_simps)

lemma pair_ok_update:
  assumes "pair_ok same es c" and "i < length es" and "ce_status (es ! i) \<noteq> FCOM_SYNC_DONE"
  shows "pair_ok same (es[i := c']) c"
proof -
  obtain l r c2 where p: "ce_l c = Some l" "ce_r c = Some r" "same (Some (full_name (Some l))) (Some (full_name (Some r)))"
    "se_size (en_data (fst l)) = se_size (en_data (fst r))" "c2 \<in> set es" "status_is FCOM_SYNC_DONE c2" "ce_l c2 = Some r"
    using assms(1) by (auto simp: pair_ok_def)
  then obtain k where "k < length es" "es ! k = c2" "k \<noteq> i" using assms by (auto simp: in_set_conv_nth)
  then have "c2 \<in> set (es[i := c'])" by (metis nth_list_update_neq length_list_update nth_mem)
  then show ?thesis using p by (auto simp: pair_ok_def)
qed

text \<open>An open row becomes unique.\<close>

lemma dups_rows_neq:
  assumes "dups_rows same O1 d" and "p \<in> O1" and "p < length (d_ents d)"
  shows "dups_rows same (O1 - {p}) (upd_ent p (\<lambda>c. c\<lparr>ce_status := FCOM_SYNC_NEQ\<rparr>)
      (upd_stats (\<lambda>s. s\<lparr>n_neq := n_neq s + 1\<rparr>) d))"
proof -
  have z: "ce_status (d_ents d ! p) = 0" using assms by (auto simp: dups_rows_def)
  have "pair_ok same ((d_ents d)[p := c']) (d_ents d ! j)"
    if "j < length (d_ents d)" "status_is FCOM_SYNC_EQ (d_ents d ! j)" for j c'
    using that assms(1,3) z by (intro pair_ok_update) (auto simp: dups_rows_def)
  then show ?thesis using assms z
    by (auto simp: dups_rows_def upd_ent_def upd_stats_def cnt_update nth_list_update)
qed

text \<open>Two open rows with equal contents become a pair.\<close>

lemma dups_rows_pair:
  assumes "dups_rows same O1 d" and "p \<in> O1" "i \<in> O1" "p \<noteq> i" and "p < length (d_ents d)" "i < length (d_ents d)"
    and "ce_l (d_ents d ! p) = Some l" "ce_l (d_ents d ! i) = Some r"
    and "same (Some (full_name (Some l))) (Some (full_name (Some r)))"
    and "se_size (en_data (fst l)) = se_size (en_data (fst r))"
  shows "dups_rows same (O1 - {p, i})
      (upd_ent i (\<lambda>c. c\<lparr>ce_status := FCOM_SYNC_DONE\<rparr>)
        (upd_ent p (\<lambda>c. c\<lparr>ce_status := FCOM_SYNC_EQ, ce_r := Some r\<rparr>)
          (upd_stats (\<lambda>s. s\<lparr>n_eq := n_eq s + 1\<rparr>) d)))"
proof -
  have z: "ce_status (d_ents d ! p) = 0" "ce_status (d_ents d ! i) = 0" using assms by (auto simp: dups_rows_def)
  let ?es = "(d_ents d)[p := (d_ents d ! p)\<lparr>ce_status := FCOM_SYNC_EQ, ce_r := Some r\<rparr>,
      i := (d_ents d ! i)\<lparr>ce_status := FCOM_SYNC_DONE\<rparr>]"
  have old: "pair_ok same ?es (d_ents d ! j)"
    if "j < length (d_ents d)" "status_is FCOM_SYNC_EQ (d_ents d ! j)" for j
    using that assms z by (intro pair_ok_update) (auto simp: dups_rows_def nth_list_update)
  have "?es ! i \<in> set ?es" using assms by (intro nth_mem) simp
  then have new: "pair_ok same ?es ((d_ents d ! p)\<lparr>ce_status := FCOM_SYNC_EQ, ce_r := Some r\<rparr>)"
    using assms by (auto simp: pair_ok_def intro!: bexI [of _ "?es ! i"])
  show ?thesis using assms z old new
    by (auto simp: dups_rows_def upd_ent_def upd_stats_def cnt_update nth_list_update)
qed

lemma dups_rows_cong:
  assumes "dups_rows same O1 d" and "d_ents d' = d_ents d" and "n_neq (d_stats d') = n_neq (d_stats d)"
    and "n_eq (d_stats d') = n_eq (d_stats d)"
  shows "dups_rows same O1 d'"
  using assms(1) unfolding dups_rows_def assms(2-4) .

lemma map_ce_l_update:
  "ce_l c = ce_l (xs ! i) \<Longrightarrow> map ce_l (xs[i := c]) = map ce_l xs"
  by (cases "i < length xs") (auto simp: list_eq_iff_nth_eq nth_list_update)

lemma mark_prev_neq_rows:
  assumes "dups_rows same (O1 \<union> set_option (ce_prev d)) d" and "set_option (ce_prev d) \<subseteq> {..<length (d_ents d)}"
    and "set_option (ce_prev d) \<inter> O1 = {}"
  shows "dups_rows same O1 (mark_prev_neq d) \<and> map ce_l (d_ents (mark_prev_neq d)) = map ce_l (d_ents d)"
proof (cases "ce_prev d")
  case None
  then show ?thesis using assms by (simp add: mark_prev_neq_def)
next
  case (Some p)
  then have "O1 \<union> set_option (ce_prev d) - {p} = O1" using assms by auto
  moreover have "map ce_l ((d_ents d)[p := (d_ents d ! p)\<lparr>ce_status := FCOM_SYNC_NEQ\<rparr>]) = map ce_l (d_ents d)"
    by (rule map_ce_l_update) simp
  ultimately show ?thesis
    using assms Some dups_rows_neq [of same "O1 \<union> set_option (ce_prev d)" d p]
    by (simp add: mark_prev_neq_def upd_ent_def upd_stats_def)
qed

lemma mark_prev_neq_fields [simp]:
  "d_filter (mark_prev_neq d) = d_filter d" "dup_cur (mark_prev_neq d) = dup_cur d"
  "n_entries (d_stats (mark_prev_neq d)) = n_entries (d_stats d)"
  "length (d_ents (mark_prev_neq d)) = length (d_ents d)"
  by (simp_all add: mark_prev_neq_def upd_ent_def upd_stats_def split: option.splits)

lemma set_names_fields [simp]:
  "d_ents (set_names l r d) = d_ents d" "d_stats (set_names l r d) = d_stats d"
  "d_filter (set_names l r d) = d_filter d" "dup_cur (set_names l r d) = dup_cur d"
  "ce_prev (set_names l r d) = ce_prev d" "sz_prev (set_names l r d) = sz_prev d"
  by (simp_all add: set_names_def)

lemma dups_inv_order:
  assumes "dups_inv same fs d"
  shows "distinct (d_filter d)" "set (d_filter d) = {..<length fs}" "length (d_filter d) = length fs"
    "length (d_ents d) = length fs"
proof -
  have m: "mset (d_filter d) = mset [0..<length fs]" and l: "map ce_l (d_ents d) = map Some fs"
    using assms by (simp_all only: dups_inv_def)
  show "distinct (d_filter d)" using mset_eq_imp_distinct_iff [OF m] by simp
  show "set (d_filter d) = {..<length fs}" using mset_eq_setD [OF m] by (simp only: set_upt atLeast0LessThan)
  show "length (d_filter d) = length fs" using mset_eq_length [OF m] by simp
  show "length (d_ents d) = length fs" using arg_cong [OF l, of length] by simp
qed

text \<open>What the previous file becomes when the next one starts a new group.\<close>

lemma dups_advance:
  assumes inv: "dups_inv same fs d" and cur: "dup_cur d < length (d_filter d)"
    and d1: "d_ents d1 = d_ents d" "d_filter d1 = d_filter d" "dup_cur d1 = dup_cur d + 1" "ce_prev d1 = ce_prev d"
      "d_stats d1 = (d_stats d)\<lparr>n_entries := n_entries (d_stats d) + 1\<rparr>"
    and i: "i = d_filter d ! dup_cur d" and sz: "sz = se_size (en_data (fst (fs ! i)))"
  shows "dups_inv same fs ((mark_prev_neq d1)\<lparr>sz_prev := Some sz, ce_prev := Some i\<rparr>)"
proof -
  note F = dups_inv_order [OF inv]
  have split: "d_filter d = take (dup_cur d) (d_filter d) @ i # drop (dup_cur d + 1) (d_filter d)"
    using cur i by (simp add: id_take_nth_drop)
  have tk: "take (dup_cur d + 1) (d_filter d) = take (dup_cur d) (d_filter d) @ [i]"
    using cur i by (simp add: take_Suc_conv_app_nth)
  have dr: "drop (dup_cur d) (d_filter d) = i # drop (dup_cur d + 1) (d_filter d)"
    using cur i by (simp add: Cons_nth_drop_Suc)
  have dis: "set (take (dup_cur d) (d_filter d)) \<inter> set (drop (dup_cur d) (d_filter d)) = {}"
    using F(1) by (simp add: set_take_disj_set_drop_if_distinct)
  let ?O = "set (drop (dup_cur d) (d_filter d))"
  have "dups_rows same (?O \<union> set_option (ce_prev d1)) d1"
    using inv d1 dups_rows_cong [of same "dups_open d" d d1] by (simp add: dups_inv_def dups_open_def)
  moreover have "set_option (ce_prev d1) \<subseteq> {..<length (d_ents d1)}"
    using inv F d1 set_take_subset [of "dup_cur d" "d_filter d"] by (auto simp: dups_inv_def)
  moreover have "set_option (ce_prev d1) \<inter> ?O = {}"
    using inv d1 dis by (auto simp: dups_inv_def)
  ultimately have m: "dups_rows same ?O (mark_prev_neq d1)" "map ce_l (d_ents (mark_prev_neq d1)) = map ce_l (d_ents d)"
    using mark_prev_neq_rows [of same ?O d1] d1 by auto
  let ?d = "(mark_prev_neq d1)\<lparr>sz_prev := Some sz, ce_prev := Some i\<rparr>"
  have "dups_open ?d = ?O" using d1 dr by (simp add: dups_open_def)
  then have "dups_rows same (dups_open ?d) ?d" using m(1) by (auto intro: dups_rows_cong)
  moreover have "map ce_l (d_ents d) = map Some fs" "mset (d_filter d) = mset [0..<length fs]"
    "n_entries (d_stats d) = int (dup_cur d)"
    using inv by (simp_all only: dups_inv_def)
  ultimately show ?thesis
    using m(2) cur d1 tk sz by (simp only: dups_inv_def) simp
qed

lemma dups_pair_step:
  assumes inv: "dups_inv same fs d" and cur: "dup_cur d < length (d_filter d)"
    and d1: "d_ents d1 = d_ents d" "d_filter d1 = d_filter d" "dup_cur d1 = dup_cur d + 1"
      "d_stats d1 = (d_stats d)\<lparr>n_entries := n_entries (d_stats d) + 1\<rparr>"
    and i: "i = d_filter d ! dup_cur d" and p: "ce_prev d = Some p"
    and sz: "sz_prev d = Some (se_size (en_data (fst (fs ! i))))"
    and same: "same (Some (full_name (Some (fs ! p)))) (Some (full_name (Some (fs ! i))))"
  shows "dups_inv same fs
      ((upd_ent i (\<lambda>c. c\<lparr>ce_status := FCOM_SYNC_DONE\<rparr>)
        (upd_ent p (\<lambda>c. c\<lparr>ce_status := FCOM_SYNC_EQ, ce_r := Some (fs ! i)\<rparr>)
          (upd_stats (\<lambda>s. s\<lparr>n_eq := n_eq s + 1\<rparr>) d1)))\<lparr>ce_prev := None, sz_prev := None\<rparr>)"
proof -
  note F = dups_inv_order [OF inv]
  have tk: "take (dup_cur d + 1) (d_filter d) = take (dup_cur d) (d_filter d) @ [i]"
    using cur i by (simp add: take_Suc_conv_app_nth)
  have dr: "drop (dup_cur d) (d_filter d) = i # drop (dup_cur d + 1) (d_filter d)"
    using cur i by (simp add: Cons_nth_drop_Suc)
  have dis: "set (take (dup_cur d) (d_filter d)) \<inter> set (drop (dup_cur d) (d_filter d)) = {}"
    using F(1) by (simp add: set_take_disj_set_drop_if_distinct)
  have inv': "map ce_l (d_ents d) = map Some fs" "mset (d_filter d) = mset [0..<length fs]"
    "n_entries (d_stats d) = int (dup_cur d)" "p \<in> set (take (dup_cur d) (d_filter d))"
    "sz_prev d = Some (se_size (en_data (fst (fs ! p))))" "dups_rows same (dups_open d) d"
    using inv p by (simp_all add: dups_inv_def)
  have "i \<in> set (d_filter d)" using cur i by simp
  then have pi: "p < length fs" "i < length fs" "p \<noteq> i" "p \<notin> set (drop (dup_cur d) (d_filter d))"
    "i \<notin> set (drop (dup_cur d + 1) (d_filter d))"
    using inv'(4) F dis dr set_take_subset [of "dup_cur d" "d_filter d"] distinct_drop [OF F(1), of "dup_cur d"]
    by (auto simp: set_eq_iff)
  have l: "ce_l (d_ents d ! j) = Some (fs ! j)" if "j < length fs" for j
    using arg_cong [OF inv'(1), of "\<lambda>xs. xs ! j"] that F(4) by simp
  let ?d = "upd_ent i (\<lambda>c. c\<lparr>ce_status := FCOM_SYNC_DONE\<rparr>)
        (upd_ent p (\<lambda>c. c\<lparr>ce_status := FCOM_SYNC_EQ, ce_r := Some (fs ! i)\<rparr>)
          (upd_stats (\<lambda>s. s\<lparr>n_eq := n_eq s + 1\<rparr>) d1))"
  have rows1: "dups_rows same (dups_open d) d1" using inv'(6) by (rule dups_rows_cong) (simp_all add: d1)
  have "dups_rows same (dups_open d - {p, i}) ?d"
    using rows1 by (rule dups_rows_pair [where l = "fs ! p"]) (use pi l d1 F same sz inv'(5) p dr in \<open>auto simp: dups_open_def\<close>)
  moreover have op: "dups_open d - {p, i} = set (drop (dup_cur d + 1) (d_filter d))"
    using pi dr p by (auto simp: dups_open_def)
  moreover have "map ce_l (d_ents ?d) = map ce_l (d_ents d)"
    by (simp add: upd_ent_def upd_stats_def d1 map_ce_l_update)
  ultimately show ?thesis
    using inv'(1-3) cur d1
    by (simp add: dups_inv_def dups_open_def upd_ent_def upd_stats_def del: upt_rec) (auto intro: dups_rows_cong)
qed

lemma dups_step:
  assumes inv: "dups_inv same fs d" and cur: "dup_cur d < length (d_filter d)" and L: "steady_cmp L same"
    and s: "dups_scan_next L d w = (b, d', w')"
  shows "\<not> b \<and> dups_inv same fs d' \<and> dup_cur d' = Suc (dup_cur d) \<and> length (d_filter d') = length (d_filter d)"
proof -
  define i where "i = d_filter d ! dup_cur d"
  define sz where "sz = se_size (en_data (fst (fs ! i)))"
  define d1 where "d1 = upd_stats (\<lambda>s. s\<lparr>n_entries := n_entries s + 1\<rparr>) (d\<lparr>dup_cur := dup_cur d + 1\<rparr>)"
  note F = dups_inv_order [OF inv]
  have "i \<in> set (d_filter d)" using cur i_def by simp
  then have il: "i < length fs" using F by auto
  have m: "map ce_l (d_ents d) = map Some fs" and pv: "set_option (ce_prev d) \<subseteq> set (take (dup_cur d) (d_filter d))"
    and sp: "sz_prev d = map_option (\<lambda>p. se_size (en_data (fst (fs ! p)))) (ce_prev d)"
    using inv by (simp_all only: dups_inv_def)
  have l: "ce_l (d_ents d ! j) = Some (fs ! j)" if "j < length fs" for j
    using arg_cong [OF m, of "\<lambda>xs. xs ! j"] that F(4) by simp
  have szi: "se_size (the (entry_data (ce_l (d_ents d ! i)))) = sz"
    using l [OF il] by (simp add: sz_def entry_data_def split: prod.splits)
  have adv: "dups_inv same fs ((mark_prev_neq d2)\<lparr>sz_prev := Some sz, ce_prev := Some i\<rparr>)"
    if "d2 = d1 \<or> d2 = set_names a b d1" for d2 a b
    using that by (intro dups_advance [OF inv cur]) (auto simp: d1_def upd_stats_def i_def sz_def)
  show ?thesis
  proof (cases "sz_prev d = Some sz")
    case False
    then have "b = False" "d' = (mark_prev_neq d1)\<lparr>sz_prev := Some sz, ce_prev := Some i\<rparr>"
      using s cur szi unfolding dups_scan_next_def Let_def i_def [symmetric] d1_def [symmetric]
      by (auto simp: d1_def upd_stats_def)
    then show ?thesis using adv [of d1] by (simp add: d1_def upd_stats_def)
  next
    case True
    then obtain p where p: "ce_prev d = Some p" using sp by auto
    then have pl: "p < length fs" using pv F set_take_subset [of "dup_cur d" "d_filter d"] by auto
    define d2 where "d2 = set_names (ce_l (d_ents d ! p)) (ce_l (d_ents d ! i)) d1"
    obtain r w2 where r: "fast_cmp L (d_lname d2) (d_rname d2) w = (r, w2)" by fastforce
    have nm: "d_lname d2 = Some (full_name (Some (fs ! p)))" "d_rname d2 = Some (full_name (Some (fs ! i)))"
      using l pl il by (simp_all add: d2_def set_names_def)
    have d1e: "d_ents d1 = d_ents d" "ce_prev d1 = Some p" "sz_prev d1 = Some sz" using p True
      by (simp_all add: d1_def upd_stats_def)
    have s': "(b, d', w') = (if r \<noteq> 0 then (False, (mark_prev_neq d2)\<lparr>ce_prev := Some i\<rparr>, w2)
        else (False, (upd_ent i (\<lambda>c. c\<lparr>ce_status := FCOM_SYNC_DONE\<rparr>)
                (upd_ent p (\<lambda>c. c\<lparr>ce_status := FCOM_SYNC_EQ, ce_r := Some (fs ! i)\<rparr>)
                  (upd_stats (\<lambda>s. s\<lparr>n_eq := n_eq s + 1\<rparr>) d2)))\<lparr>ce_prev := None, sz_prev := None\<rparr>, w2))"
      using s cur szi d1e r l [OF il] unfolding dups_scan_next_def Let_def i_def [symmetric] d1_def [symmetric]
      by (auto simp: d2_def split: if_splits)
    show ?thesis
    proof (cases "r = 0")
      case False
      have "(mark_prev_neq d2)\<lparr>ce_prev := Some i\<rparr> = (mark_prev_neq d2)\<lparr>sz_prev := Some sz, ce_prev := Some i\<rparr>"
        using d1e by (simp add: d2_def mark_prev_neq_def upd_ent_def upd_stats_def)
      then have "d' = (mark_prev_neq d2)\<lparr>sz_prev := Some sz, ce_prev := Some i\<rparr>" "\<not> b"
        using s' False by simp_all
      then show ?thesis using adv [OF disjI2 [OF d2_def]] by (simp add: d2_def d1_def upd_stats_def)
    next
      case True
      then have "same (Some (full_name (Some (fs ! p)))) (Some (full_name (Some (fs ! i))))"
        using L r nm by (metis fst_conv steady_cmp_def)
      moreover have "d' = (upd_ent i (\<lambda>c. c\<lparr>ce_status := FCOM_SYNC_DONE\<rparr>)
          (upd_ent p (\<lambda>c. c\<lparr>ce_status := FCOM_SYNC_EQ, ce_r := Some (fs ! i)\<rparr>)
            (upd_stats (\<lambda>s. s\<lparr>n_eq := n_eq s + 1\<rparr>) d2)))\<lparr>ce_prev := None, sz_prev := None\<rparr>"
        using True s' by simp
      moreover have "d_ents d2 = d_ents d" "d_filter d2 = d_filter d" "dup_cur d2 = dup_cur d + 1"
        "d_stats d2 = (d_stats d)\<lparr>n_entries := n_entries (d_stats d) + 1\<rparr>"
        by (simp_all add: d2_def d1_def upd_stats_def)
      moreover have "sz_prev d = Some (se_size (en_data (fst (fs ! i))))" using \<open>sz_prev d = Some sz\<close> sz_def by simp
      ultimately have "dups_inv same fs d'"
        by (simp only:) (rule dups_pair_step [OF inv cur _ _ _ _ i_def p])
      then show ?thesis using True s' by (simp add: d2_def d1_def upd_stats_def upd_ent_def)
    qed
  qed
qed

text \<open>The last step: the file that is still open has no duplicate.\<close>

definition dups_done :: "(bytes option \<Rightarrow> bytes option \<Rightarrow> bool) \<Rightarrow> (fent \<times> bytes) list \<Rightarrow> 'f diff \<Rightarrow> bool" where
  "dups_done same fs d \<longleftrightarrow>
     map ce_l (d_ents d) = map Some fs \<and> n_entries (d_stats d) = int (length fs) \<and> dups_rows same {} d"

lemma dups_last:
  assumes inv: "dups_inv same fs d" and cur: "dup_cur d = length (d_filter d)"
  shows "fst (dups_scan_next L d w)" "dups_done same fs (fst (snd (dups_scan_next L d w)))"
proof -
  note F = dups_inv_order [OF inv]
  have i: "map ce_l (d_ents d) = map Some fs" "n_entries (d_stats d) = int (dup_cur d)"
    "set_option (ce_prev d) \<subseteq> set (take (dup_cur d) (d_filter d))" "dups_rows same (dups_open d) d"
    using inv by (simp_all only: dups_inv_def)
  have "dups_rows same {} (mark_prev_neq d) \<and> map ce_l (d_ents (mark_prev_neq d)) = map ce_l (d_ents d)"
    using i(3,4) F cur by (intro mark_prev_neq_rows) (auto simp: dups_open_def)
  then have "dups_done same fs ((mark_prev_neq d)\<lparr>d_filter := []\<rparr>)"
    using i(1,2) F cur by (auto simp: dups_done_def intro: dups_rows_cong)
  then show "fst (dups_scan_next L d w)" "dups_done same fs (fst (snd (dups_scan_next L d w)))"
    using cur by (simp_all add: dups_scan_next_def)
qed

lemma dups_loop_done:
  assumes "dups_inv same fs d" and "steady_cmp L same"
  shows "\<exists>d' w'. dups_loop L d w = Some (d', w') \<and> dups_done same fs d'"
  using assms(1)
proof (induction "length (d_filter d) - dup_cur d" arbitrary: d w)
  case 0
  then have "dup_cur d = length (d_filter d)" by (auto simp: dups_inv_def)
  from dups_last [OF 0(2) this, of L w] show ?case
    by (subst dups_loop.simps) (cases "snd (dups_scan_next L d w)", simp add: Let_def)
next
  case (Suc n)
  obtain b d1 w1 where s: "dups_scan_next L d w = (b, d1, w1)" by (cases "dups_scan_next L d w")
  have "dup_cur d < length (d_filter d)" using Suc(2) by simp
  note st = dups_step [OF Suc(3) this assms(2) s]
  then have "n = length (d_filter d1) - dup_cur d1" using Suc(2) by simp
  from Suc(1) [OF this, of w1] st s show ?case
    by (subst dups_loop.simps) (simp add: Let_def)
qed

lemma dups_kinds:
  "\<forall>c \<in> set es. ce_status c \<in> {FCOM_SYNC_NEQ, FCOM_SYNC_EQ, FCOM_SYNC_DONE} \<Longrightarrow>
    int (length es) = cnt (status_is FCOM_SYNC_NEQ) es + cnt (status_is FCOM_SYNC_EQ) es + cnt (status_is FCOM_SYNC_DONE) es"
  by (induction es) (auto simp: cnt_Cons)

lemma dups_init_inv:
  assumes "sort_perm L" and "length fs \<le> tot"
  shows "\<exists>d. dups_init L (Some fs) tot lroot flags (diff_new f) = Some d \<and> dups_inv same fs d"
proof -
  have c: "\<not> k < length fs \<or> map (\<lambda>e. \<lparr>ce_status = 0, ce_l = Some e, ce_r = None\<rparr>) fs ! k =
      \<lparr>ce_status = 0, ce_l = Some (fs ! k), ce_r = None\<rparr>" for k by simp
  have "cnt (status_is st) (map (\<lambda>e. \<lparr>ce_status = 0, ce_l = Some e, ce_r = None\<rparr>) fs) = 0" if "st \<noteq> 0" for st
    using that by (simp add: cnt_def filter_map o_def)
  moreover have "set (sl_sort L c [0..<length fs]) = {..<length fs}" for c
    using assms(1) unfolding sort_perm_def by (metis mset_eq_setD set_upt atLeast0LessThan)
  ultimately have "dups_inv same fs (snd (sync_sort L g ((upd_stats (\<lambda>s. s\<lparr>n_ltotal := int tot\<rparr>)
      ((diff_new f)\<lparr>sz_prev := None, d_options := o1, d_lroot := lroot\<rparr>))
         \<lparr>d_ents := map (\<lambda>e. \<lparr>ce_status = 0, ce_l = Some e, ce_r = None\<rparr>) fs, d_cap := tot,
          d_filter := [0..<length fs]\<rparr>)))" for g o1
    using assms(1) unfolding dups_inv_def dups_open_def dups_rows_def sync_sort_def Let_def sort_perm_def
    by (auto simp: diff_new_def upd_stats_def no_stats_def o_def)
  then show ?thesis using assms(2) by (simp add: dups_init_def Let_def)
qed

section \<open>Properties\<close>

text \<open>
  Two names of readable files whose sizes and first, middle and last 4096 bytes agree. Up to 8192 bytes
  that is all of the contents.
\<close>

definition same_files :: "(bytes option \<Rightarrow> bytes option) \<Rightarrow> bytes option \<Rightarrow> bytes option \<Rightarrow> bool" where
  "same_files files a b \<longleftrightarrow>
     (\<exists>d1 d2. files a = Some d1 \<and> files b = Some d2 \<and> same_ends 4096 d1 d2 \<and> (length d1 \<le> 8192 \<longrightarrow> d1 = d2))"

lemma steady_cmp_kernel:
  assumes "ro_kernel (sl_sys L) (sl_openz L) files cont" and "\<forall>w. sl_alloc L w"
  shows "steady_cmp L (same_files files)"
proof -
  have "fst (fast_cmp L a b w) = 0 \<longleftrightarrow> (\<exists>d1 d2. files a = Some d1 \<and> files b = Some d2 \<and> same_ends 4096 d1 d2)" for a b w
    using file_cmp_fast_ro [OF assms(1), of 4096 a b w] fast_cmp_returns [of L w a b] assms(2) by auto
  moreover have "same_ends 4096 d1 d2 \<and> (length d1 \<le> 8192 \<longrightarrow> d1 = d2) \<longleftrightarrow> same_ends 4096 d1 d2" for d1 d2
    using same_ends_small [of 4096 d1 d2] by auto
  ultimately show ?thesis by (simp add: steady_cmp_def same_files_def)
qed

text \<open>C18. On a disk that nobody writes to the duplicate search always ends. Every file is then unique, the
  first of a pair or the second of one; the first has a partner with the same recorded size, and both can
  be opened and have the same size and the same first, middle and last 4096 bytes (so up to 8192 bytes the
  same contents); the counters are the numbers of unique files and of pairs, so that unique files plus
  twice the pairs are all files.\<close>

theorem find_dups_pairs:
  assumes "sort_perm L" and "ro_kernel (sl_sys L) (sl_openz L) files cont" and "\<forall>w. sl_alloc L w" and "length fs \<le> tot" and "\<not> has flags FCOM_SYNC_DIFF_STEP"
  shows "\<exists>d w'. sync_find_dups L f (Some fs) tot lroot flags w = Some (d, w') \<and>
    map ce_l (d_ents d) = map Some fs \<and>
    (\<forall>c \<in> set (d_ents d). ce_status c \<in> {FCOM_SYNC_NEQ, FCOM_SYNC_EQ, FCOM_SYNC_DONE} \<and>
       (ce_status c = FCOM_SYNC_EQ \<longrightarrow> pair_ok (same_files files) (d_ents d) c)) \<and>
    n_eq (d_stats d) = cnt (status_is FCOM_SYNC_EQ) (d_ents d) \<and>
    n_neq (d_stats d) + 2 * n_eq (d_stats d) = int (length fs) \<and> n_entries (d_stats d) = int (length fs)"
proof -
  obtain d0 where d0: "dups_init L (Some fs) tot lroot flags (diff_new f) = Some d0" "dups_inv (same_files files) fs d0"
    using dups_init_inv [OF assms(1,4)] by blast
  obtain d w' where d: "dups_loop L d0 w = Some (d, w')" "dups_done (same_files files) fs d"
    using dups_loop_done [OF d0(2) steady_cmp_kernel [OF assms(2,3)]] by blast
  have rows: "\<forall>c \<in> set (d_ents d). ce_status c \<in> {FCOM_SYNC_NEQ, FCOM_SYNC_EQ, FCOM_SYNC_DONE} \<and>
       (ce_status c = FCOM_SYNC_EQ \<longrightarrow> pair_ok (same_files files) (d_ents d) c)"
    using d(2) by (simp add: dups_done_def dups_rows_def all_set_conv_all_nth)
  moreover have "length (d_ents d) = length fs" using d(2) unfolding dups_done_def by (metis length_map)
  ultimately show ?thesis using d0 d assms(5) dups_kinds [of "d_ents d"]
    by (auto simp: sync_find_dups_def dups_done_def dups_rows_def)
qed

text \<open>A disk with three files of five bytes, the first two equal; the state is the table of the open files.\<close>

definition dup_files :: "bytes option \<Rightarrow> bytes option" where
  "dup_files n =
     (if n = Some ''//a'' \<or> n = Some ''//b'' then Some ''12345'' else if n = Some ''//c'' then Some ''12a45'' else None)"

definition dup_synclib :: "(((cmp4 \<times> 32 word) \<times> eref \<times> eref) list, bytes list) synclib" where
  "dup_synclib = list_synclib
     \<lparr>sl_sys := undefined
        \<lparr>fs_readat := (\<lambda>fd n off w. (if the fd < length w then Some (take n (drop off (w ! the fd))) else None, w)),
         fs_size := (\<lambda>fd w. length (w ! the fd)), fs_close := (\<lambda>fd w. (True, w))\<rparr>,
      sl_openz := (\<lambda>n w. case dup_files n of None \<Rightarrow> (None, w) | Some c \<Rightarrow> (Some (length w), w @ [c]))\<rparr>"

lemma dup_synclib_kernel:
  "ro_kernel (sl_sys dup_synclib) (sl_openz dup_synclib) dup_files (\<lambda>w k. if k < length w then Some (w ! k) else None)"
  unfolding ro_kernel_def dup_synclib_def
  by (auto simp: fun_eq_iff nth_append split: option.splits if_splits)

theorem find_dups_pairs_witness:
  "(\<exists>d w'. sync_find_dups dup_synclib [] (Some [(file_ent ''a'' 5, ''/''), (file_ent ''b'' 5, ''/''), (file_ent ''c'' 5, ''/'')])
      3 ''/'' 0 [] = Some (d, w') \<and> n_neq (d_stats d) + 2 * n_eq (d_stats d) = 3 \<and> n_entries (d_stats d) = 3) \<and>
   same_files dup_files (Some ''//a'') (Some ''//b'') \<and> \<not> same_files dup_files (Some ''//b'') (Some ''//c'')"
proof -
  have "sort_perm dup_synclib" "\<forall>w. sl_alloc dup_synclib w"
    by (simp_all add: sort_perm_def dup_synclib_def list_synclib_def)
  from find_dups_pairs [OF this(1) dup_synclib_kernel this(2),
      of "[(file_ent ''a'' 5, ''/''), (file_ent ''b'' 5, ''/''), (file_ent ''c'' 5, ''/'')]" 3 0 "[]" "''/''" "[]"]
  show ?thesis by (auto simp: has_def same_files_def dup_files_def same_ends_def)
qed

section \<open>The other side\<close>

text \<open>Names and times are compared by total comparisons: the result for the swapped arguments has the other sign.\<close>

definition cmp_laws :: "('f, 'w) synclib \<Rightarrow> bool" where
  "cmp_laws L \<longleftrightarrow>
     (\<forall>a b. (sl_icmp L b a < 0 \<longleftrightarrow> 0 < sl_icmp L a b)) \<and> (\<forall>a b. (sl_ftcmp L b a < 0 \<longleftrightarrow> 0 < sl_ftcmp L a b))"

lemma cmp_laws_iff:
  assumes "cmp_laws L"
  shows "(sl_icmp L b a < 0) = (0 < sl_icmp L a b)" "(0 < sl_icmp L b a) = (sl_icmp L a b < 0)"
    "(sl_ftcmp L y x < 0) = (0 < sl_ftcmp L x y)" "(sl_ftcmp L y x = 0) = (sl_ftcmp L x y = 0)"
proof -
  have i: "(sl_icmp L b a < 0) = (0 < sl_icmp L a b)" "(sl_ftcmp L y x < 0) = (0 < sl_ftcmp L x y)" for a b x y
    using assms unfolding cmp_laws_def by blast+
  show "(sl_icmp L b a < 0) = (0 < sl_icmp L a b)" "(0 < sl_icmp L b a) = (sl_icmp L a b < 0)"
    "(sl_ftcmp L y x < 0) = (0 < sl_ftcmp L x y)"
    by (simp_all add: i)
  show "(sl_ftcmp L y x = 0) = (sl_ftcmp L x y = 0)" using i(2) [of y x] i(2) [of x y] by linarith
qed

fun other_side :: "cmp4 \<Rightarrow> cmp4" where
  "other_side CLeft = CRight" | "other_side CRight = CLeft" | "other_side CEq = CEq" | "other_side CNeq = CNeq"

text \<open>The comparison of two files of equal name as a function of five facts.\<close>

definition facts_flags :: "bool \<Rightarrow> bool \<Rightarrow> bool \<Rightarrow> bool \<Rightarrow> bool \<Rightarrow> 32 word" where
  "facts_flags lt gt at t1 t2 =
     (if lt then FCOM_SYNC_SMALLER else if gt then FCOM_SYNC_LARGER else 0) OR (if at then FCOM_SYNC_ATTR else 0) OR
     (if t1 then FCOM_SYNC_OLDER else if t2 then FCOM_SYNC_NEWER else 0)"

definition time_counts :: "32 word \<Rightarrow> fftime \<Rightarrow> fftime \<Rightarrow> bool" where
  "time_counts opts a b \<longleftrightarrow> \<not> has opts FCOM_SYNC_DIFF_NO_TIME \<and>
     \<not> (has opts FCOM_SYNC_DIFF_TIME_2SEC \<and> half_sec (fst a) = half_sec (fst b))"

definition attr_differs :: "32 word \<Rightarrow> fent \<Rightarrow> fent \<Rightarrow> bool" where
  "attr_differs opts l r \<longleftrightarrow> \<not> has opts FCOM_SYNC_DIFF_NO_ATTR \<and>
     (unix_attr (en_data l) \<noteq> unix_attr (en_data r) \<or> win_attr (en_data l) \<noteq> win_attr (en_data r))"

lemma facts_flags_swap:
  "\<not> (lt \<and> gt) \<Longrightarrow> \<not> (t1 \<and> t2) \<Longrightarrow> status_swap (facts_flags lt gt at t1 t2) = facts_flags gt lt at t2 t1"
  by (cases lt; cases gt; cases at; cases t1; cases t2)
    (simp_all add: facts_flags_def status_swap_def flags_swap_def has_def flag_simps)

lemma data_cmp_facts:
  fixes l r :: fent and opts :: "32 word" and L :: "('f, 'w) synclib"
  defines "lt \<equiv> se_size (en_data l) < se_size (en_data r)" and "gt \<equiv> se_size (en_data r) < se_size (en_data l)"
    and "at \<equiv> attr_differs opts l r"
    and "t1 \<equiv> time_counts opts (mtime (en_data l)) (mtime (en_data r)) \<and> sl_ftcmp L (mtime (en_data l)) (mtime (en_data r)) < 0"
    and "t2 \<equiv> time_counts opts (mtime (en_data l)) (mtime (en_data r)) \<and> 0 < sl_ftcmp L (mtime (en_data l)) (mtime (en_data r))"
  assumes "\<not> sl_icmp L (en_name l) (en_name r) < 0" and "\<not> 0 < sl_icmp L (en_name l) (en_name r)"
  shows "data_cmp L opts l r = (if lt \<or> gt \<or> at \<or> t1 \<or> t2 then CNeq else CEq, facts_flags lt gt at t1 t2)"
proof -
  have s: "(se_size (en_data l) \<noteq> se_size (en_data r)) = (lt \<or> gt)" "se_size (en_data l) < se_size (en_data r) \<longleftrightarrow> lt"
    unfolding lt_def gt_def by auto
  have k2: "(\<not> has opts FCOM_SYNC_DIFF_NO_ATTR \<and>
      (unix_attr (en_data l) \<noteq> unix_attr (en_data r) \<or> win_attr (en_data l) \<noteq> win_attr (en_data r))) = at"
    by (simp add: at_def attr_differs_def)
  show ?thesis
    unfolding data_cmp_def Let_def s k2 using assms(6,7)
    by (cases at; cases lt; cases gt; cases "time_counts opts (mtime (en_data l)) (mtime (en_data r))")
      (auto simp: facts_flags_def t1_def t2_def time_counts_def or.assoc)
qed

text \<open>C19. Comparing two files the other way round gives the mirrored result: left and right, smaller and larger,
  older and newer change places exactly as \<open>status_swap\<close> changes them, so the swapped view of a
  comparison shows what comparing the swapped trees would.\<close>

theorem data_cmp_mirror:
  assumes "cmp_laws L"
  shows "data_cmp L opts r l =
    (other_side (fst (data_cmp L opts l r)), status_swap (snd (data_cmp L opts l r)))"
proof -
  have sw: "status_swap 0 = 0" by (simp add: status_swap_def flags_swap_def has_def)
  have sym: "attr_differs opts r l = attr_differs opts l r"
    "time_counts opts (mtime (en_data r)) (mtime (en_data l)) = time_counts opts (mtime (en_data l)) (mtime (en_data r))"
    by (auto simp: attr_differs_def time_counts_def)
  note n = cmp_laws_iff(1,2) [OF assms, of "en_name r" "en_name l"]
  consider "sl_icmp L (en_name l) (en_name r) < 0" | "0 < sl_icmp L (en_name l) (en_name r)"
    | "\<not> sl_icmp L (en_name l) (en_name r) < 0" "\<not> 0 < sl_icmp L (en_name l) (en_name r)" by blast
  then show ?thesis
  proof cases
    case 3
    have o: "other_side (if a then CNeq else CEq) = (if a then CNeq else CEq)" for a by simp
    have 4: "\<not> sl_icmp L (en_name r) (en_name l) < 0" "\<not> 0 < sl_icmp L (en_name r) (en_name l)"
      using 3 n by blast+
    have z: "(sl_ftcmp L (mtime (en_data r)) (mtime (en_data l)) < 0) = (0 < sl_ftcmp L (mtime (en_data l)) (mtime (en_data r)))"
      "0 < sl_ftcmp L (mtime (en_data r)) (mtime (en_data l)) \<longleftrightarrow> sl_ftcmp L (mtime (en_data l)) (mtime (en_data r)) < 0"
      using assms unfolding cmp_laws_def by blast+
    show ?thesis
      unfolding data_cmp_facts [OF 3] data_cmp_facts [OF 4] fst_conv snd_conv o sym z
      by (subst facts_flags_swap) (auto simp: disj_ac)
  qed (use n in \<open>simp_all add: data_cmp_def Let_def sw\<close>)
qed

theorem data_cmp_mirror_witness:
  "data_cmp (list_synclib\<lparr>sl_icmp := \<lambda>a b. int (length a) - int (length b)\<rparr>) 0 (file_ent ''b'' 1) (file_ent ''a'' 2) =
    (CNeq, FCOM_SYNC_SMALLER)"
proof -
  let ?L = "list_synclib\<lparr>sl_icmp := \<lambda>a b. int (length a) - int (length b)\<rparr>"
  have "cmp_laws ?L" by (auto simp: cmp_laws_def list_synclib_def)
  from data_cmp_mirror [OF this, of 0 "file_ent ''b'' 1" "file_ent ''a'' 2"]
  show ?thesis
    by (simp add: data_cmp_def list_synclib_def file_ent_def status_swap_def flags_swap_def has_def flag_simps
        FCOM_SYNC_DIFF_NO_ATTR_def FCOM_SYNC_DIFF_NO_TIME_def FCOM_SYNC_DIFF_TIME_2SEC_def)
qed

section \<open>The table of the moved files\<close>

lemma meta_eq_hash:
  assumes "meta_eq L opts a b"
  shows "ent_moved_hash L opts a = ent_moved_hash L opts b"
proof -
  have "has (unix_attr (en_data a)) FFFILE_UNIX_DIR = has (unix_attr (en_data b)) FFFILE_UNIX_DIR"
    using assms by (simp add: meta_eq_def Let_def has_def)
  then have "ent_moved_key L opts a = ent_moved_key L opts b"
    using assms by (auto simp: meta_eq_def ent_moved_key_def Let_def)
  then show ?thesis by (simp add: ent_moved_hash_def)
qed

text \<open>The hash table of ffbase visits every row stored under the hash.\<close>

definition probe_complete :: "('f, 'w) synclib \<Rightarrow> bool" where
  "probe_complete L \<longleftrightarrow> (\<forall>m h i. (h, i) \<in> set m \<longrightarrow> i \<in> set (sl_probe L m h))"

text \<open>The states between two steps of a comparison.\<close>

inductive diff_steps :: "('f, 'w) synclib \<Rightarrow> 'f diff \<Rightarrow> 'f diff \<Rightarrow> bool" for L d0 where
  start: "diff_steps L d0 d0"
| step: "diff_steps L d0 d \<Longrightarrow> diff_next L d w = Some (b, d', w') \<Longrightarrow> diff_steps L d0 d'"

text \<open>Every row is stored under the hash of its file, also after it has become a move.\<close>

definition moved_hashed :: "('f, 'w) synclib \<Rightarrow> 32 word \<Rightarrow> cmp_ent list \<Rightarrow> (32 word \<times> nat) list \<Rightarrow> bool" where
  "moved_hashed L opts es m \<longleftrightarrow>
     (\<forall>(h, i) \<in> set m. i < length es \<and> (\<exists>x. ce_entry (es ! i) = Some x \<and> h = ent_moved_hash L opts x))"

lemma ce_entry_status [simp]: "ce_entry (es[i := (es ! i)\<lparr>ce_status := st\<rparr>] ! j) = ce_entry (es ! j)"
  by (cases "i < length es"; cases "i = j") (simp_all add: ce_entry_def not_less list_update_beyond)

lemma moved_hashed_status: "moved_hashed L opts (es[i := (es ! i)\<lparr>ce_status := st\<rparr>]) m = moved_hashed L opts es m"
  by (simp add: moved_hashed_def)

lemma moved_hashed_append: "moved_hashed L opts es m \<Longrightarrow> moved_hashed L opts (es @ [c]) m"
  unfolding moved_hashed_def by (auto simp: nth_append)

lemma moved_hashed_add:
  "moved_hashed L opts es m \<Longrightarrow> i < length es \<Longrightarrow> ce_entry (es ! i) = Some e \<Longrightarrow>
    moved_hashed L opts es (m @ [(ent_moved_hash L opts e, i)])"
  unfolding moved_hashed_def by auto

text \<open>The other side of a move has the same hash.\<close>

lemma moved_hashed_side:
  assumes "moved_hashed L opts es m" and "ce_entry (es ! j) = Some x" and "meta_eq L opts x e" and "ref = Some (e, b)"
  shows "moved_hashed L opts (es[j := (if left then (es ! j)\<lparr>ce_l := ref\<rparr> else (es ! j)\<lparr>ce_r := ref\<rparr>)]) m"
proof -
  define c where "c = (if left then (es ! j)\<lparr>ce_l := ref\<rparr> else (es ! j)\<lparr>ce_r := ref\<rparr>)"
  have "ce_entry c = Some e \<or> ce_entry c = Some x"
    using assms(2,4) by (auto simp: c_def ce_entry_def split: if_splits)
  then obtain y where y: "ce_entry c = Some y" "ent_moved_hash L opts y = ent_moved_hash L opts x"
    using meta_eq_hash [OF assms(3)] by auto
  have "i < length (es[j := c]) \<and> (\<exists>z. ce_entry (es[j := c] ! i) = Some z \<and> h = ent_moved_hash L opts z)"
    if "(h, i) \<in> set m" for h i
    using assms(1,2) y that unfolding moved_hashed_def by (cases "i = j") auto
  then show ?thesis unfolding moved_hashed_def c_def by auto
qed

lemma one_sided_hashed:
  assumes os: "one_sided L left e ref i d0 w = (d', w')" and m: "moved_hashed L (d_options d0) (d_ents d0) (d_moved d0)"
    and i: "i < length (d_ents d0)" "ce_entry (d_ents d0 ! i) = Some e" and ref: "ref = Some (e, b)"
  shows "moved_hashed L (d_options d') (d_ents d') (d_moved d')"
proof -
  define mine where "mine = (if left then FCOM_SYNC_LEFT else FCOM_SYNC_RIGHT)"
  define other where "other = (if left then FCOM_SYNC_RIGHT else FCOM_SYNC_LEFT)"
  define d1 where
    "d1 = upd_stats (\<lambda>s. if left then s\<lparr>n_left := n_left s + 1\<rparr> else s\<lparr>n_right := n_right s + 1\<rparr>) d0"
  have d1: "d_ents d1 = d_ents d0" "d_options d1 = d_options d0" "d_moved d1 = d_moved d0"
    by (simp_all add: d1_def upd_stats_def)
  obtain q p w1 where mp:
    "map_probe L e (sl_probe L (d_moved d1) (ent_moved_hash L (d_options d1) e)) d1 w = (q, p, w1)" by (metis prod_cases3)
  note f = map_probe_frame [OF mp]
  define d2 where "d2 = (if q = None then p\<lparr>d_moved := d_moved p @ [(ent_moved_hash L (d_options d1) e, i)]\<rparr> else p)"
  have fa: "moved_find_add L e i d1 w = (q, d2, w1)" using mp by (simp add: moved_find_add_def Let_def d2_def)
  have d2: "d_ents d2 = d_ents d0" "d_options d2 = d_options d0" using f d1 by (simp_all add: d2_def)
  have m2: "moved_hashed L (d_options d0) (d_ents d0) (d_moved d2)"
    using m i f d1 moved_hashed_add [OF m i] by (simp add: d2_def)
  show ?thesis
  proof (cases "\<exists>j. q = Some j \<and> has (ce_status (d_ents d2 ! j)) other")
    case False
    then have "d' = upd_ent i (\<lambda>c. c\<lparr>ce_status := mine\<rparr>) d2"
      using os fa unfolding one_sided_def d1_def [symmetric] mine_def [symmetric] other_def [symmetric]
      by (auto simp: Let_def split: option.splits)
    then show ?thesis using m2 d2 by (simp add: upd_ent_def moved_hashed_status)
  next
    case True
    then obtain j where j: "q = Some j" "has (ce_status (d_ents d2 ! j)) other" by blast
    obtain x where x: "ce_entry (d_ents d0 ! j) = Some x" "meta_eq L (d_options d0) x e" using f j(1) d1 by auto
    define es1 where "es1 = (d_ents d0)[j := (d_ents d0 ! j)\<lparr>ce_status := (ce_status (d_ents d0 ! j) AND NOT other) OR FCOM_SYNC_MOVE\<rparr>]"
    define es2 where "es2 = es1[i := (es1 ! i)\<lparr>ce_status := FCOM_SYNC_MOVE OR FCOM_SYNC_SKIP\<rparr>]"
    have d': "d_ents d' = es2[j := (if left then (es2 ! j)\<lparr>ce_l := ref\<rparr> else (es2 ! j)\<lparr>ce_r := ref\<rparr>)]"
      "d_moved d' = d_moved d2" "d_options d' = d_options d0"
      using os fa j d2 unfolding one_sided_def d1_def [symmetric] mine_def [symmetric] other_def [symmetric] es2_def es1_def
      by (auto simp: Let_def upd_ent_def upd_stats_def)
    have "moved_hashed L (d_options d0) es2 (d_moved d2)" using m2 by (simp add: es2_def es1_def moved_hashed_status)
    moreover have "ce_entry (es2 ! j) = Some x" using x(1) by (simp add: es2_def es1_def)
    ultimately show ?thesis unfolding d' by (rule moved_hashed_side) (use x ref in auto)
  qed
qed

lemma one_sided_options: "one_sided L left e ref i d0 w = (d', w') \<Longrightarrow> d_options d' = d_options d0"
  by (auto simp: one_sided_def Let_def moved_find_add_def upd_stats_def upd_ent_def
      split: prod.splits option.splits if_splits dest!: map_probe_frame)

lemma diff_next_hashed:
  fixes d0 :: "'f diff"
  assumes L: "walk_ok L" and n: "diff_next L d0 w = Some (b, d', w')"
    and m: "moved_hashed L (d_options d0) (d_ents d0) (d_moved d0)"
  shows "d_options d' = d_options d0 \<and> moved_hashed L (d_options d') (d_ents d') (d_moved d')"
proof (cases "fst (sl_next L (data_cmp L (d_options d0)) (d_fcmp d0))")
  case None
  then obtain f where "d' = d0\<lparr>d_fcmp := f\<rparr>" using n by (auto simp: diff_next_def split: prod.splits)
  then show ?thesis using m by simp
next
  case (Some p)
  obtain k fl le0 re0 f where s: "sl_next L (data_cmp L (d_options d0)) (d_fcmp d0) = (Some ((k, fl), le0, re0), f)"
    using Some by (metis prod.collapse)
  have w0: "k \<noteq> CRight \<longrightarrow> le0 \<noteq> None" "k \<noteq> CLeft \<longrightarrow> re0 \<noteq> None" using L s unfolding walk_ok_def by blast+
  define le where "le = (if k = CRight then None else le0)"
  define re where "re = (if k = CLeft then None else re0)"
  define i where "i = length (d_ents d0)"
  define d1 where "d1 = set_names le re (d0\<lparr>d_fcmp := f, d_ents := d_ents d0 @ [\<lparr>ce_status = 0, ce_l = le, ce_r = re\<rparr>]\<rparr>)"
  define bump :: "'f diff \<Rightarrow> 'f diff" where "bump = upd_stats (\<lambda>s. s\<lparr>n_entries := n_entries s + 1\<rparr>)"
  have bp: "d_ents (bump x) = d_ents x" "d_options (bump x) = d_options x" "d_moved (bump x) = d_moved x" for x
    by (simp_all add: bump_def upd_stats_def)
  have d1: "d_ents d1 = d_ents d0 @ [\<lparr>ce_status = 0, ce_l = le, ce_r = re\<rparr>]" "d_options d1 = d_options d0" "d_moved d1 = d_moved d0"
    by (auto simp: d1_def set_names_def)
  have m1: "moved_hashed L (d_options d1) (d_ents d1) (d_moved d1)" using m by (simp add: d1 moved_hashed_append)
  have one: ?thesis if o1: "one_sided L left e ref i d1 w = (d2, w2)" "d' = bump d2" and e: "ref = Some (e, y)"
    "ref = (if left then le else re)" "if left then re = None else le = None" for left e ref d2 w2 y
  proof -
    have "ce_entry (d_ents d1 ! i) = Some e" using e by (cases left) (auto simp: d1 i_def ce_entry_def)
    then have "moved_hashed L (d_options d2) (d_ents d2) (d_moved d2)"
      by (intro one_sided_hashed [OF o1(1) m1 _ _ e(1)]) (simp_all add: d1 i_def)
    then show ?thesis using one_sided_options [OF o1(1)] o1(2) d1 by (simp add: bp)
  qed
  show ?thesis
  proof (cases k)
    case CLeft
    then obtain e y where "le = Some (e, y)" "re = None" using w0 by (auto simp: le_def re_def)
    moreover from this obtain d2 w2 where "one_sided L True e le i d1 w = (d2, w2)" "d' = bump d2"
      using n s CLeft unfolding diff_next_def le_def [symmetric] re_def [symmetric]
      by (auto simp: Let_def le_def re_def i_def d1_def bump_def split: prod.splits if_splits)
    ultimately show ?thesis by (intro one [of True e le]) auto
  next
    case CRight
    then obtain e y where "re = Some (e, y)" "le = None" using w0 by (auto simp: le_def re_def)
    moreover from this obtain d2 w2 where "one_sided L False e re i d1 w = (d2, w2)" "d' = bump d2"
      using n s CRight unfolding diff_next_def le_def [symmetric] re_def [symmetric]
      by (auto simp: Let_def le_def re_def i_def d1_def bump_def split: prod.splits if_splits)
    ultimately show ?thesis by (intro one [of False e re]) auto
  next
    case CEq
    then have "d' = bump (upd_ent i (\<lambda>c. c\<lparr>ce_status := FCOM_SYNC_EQ\<rparr>) (upd_stats (\<lambda>s. s\<lparr>n_eq := n_eq s + 1\<rparr>) d1))"
      using n s unfolding diff_next_def by (simp add: Let_def le_def re_def i_def d1_def bump_def split: if_splits)
    then show ?thesis using m1 d1 by (simp add: bp upd_ent_def upd_stats_def moved_hashed_status del: nth_append_length)
  next
    case CNeq
    then have "d' = bump (upd_ent i (\<lambda>c. c\<lparr>ce_status := FCOM_SYNC_NEQ OR fl\<rparr>) (upd_stats (\<lambda>s. s\<lparr>n_neq := n_neq s + 1\<rparr>) d1))"
      using n s unfolding diff_next_def by (simp add: Let_def le_def re_def i_def d1_def bump_def split: if_splits)
    then show ?thesis using m1 d1 by (simp add: bp upd_ent_def upd_stats_def moved_hashed_status del: nth_append_length)
  qed
qed

lemma diff_steps_hashed:
  assumes "diff_steps L (diff_init walk lroot rroot lt rt flags (diff_new f)) d" and "walk_ok L"
  shows "d_options d = flags \<and> moved_hashed L flags (d_ents d) (d_moved d)"
  using assms
proof (induction rule: diff_steps.induct)
  case start
  then show ?case by (simp add: diff_init_def moved_hashed_def)
next
  case (step d w b d' w')
  then show ?case using diff_next_hashed [of L d w b d' w'] by auto
qed

lemma map_probe_decides:
  assumes "\<not> has (d_options d) FCOM_SYNC_DIFF_MOVE_CHK_CONTENT"
  shows "map_probe L e is d w =
    (find (\<lambda>i. \<exists>x. ce_entry (d_ents d ! i) = Some x \<and> meta_eq L (d_options d) x e) is, d, w)"
  using assms by (induction "is") (auto simp: moved_keyeq_def split: option.splits)

text \<open>C20. At every step of a comparison that does not look at contents, looking up a file among the one-sided
  files seen so far gives one that counts as the same file moved, and leaves everything as it was; only
  when no row of the table counts as the same is the file added. No equal file is missed through its hash, also not a row
  that has become a move and stands for the file of the other side since.\<close>

theorem moved_find_exact:
  assumes "walk_ok L" and "probe_complete L" and "\<not> has flags FCOM_SYNC_DIFF_MOVE_CHK_CONTENT"
    and "diff_steps L (diff_init walk lroot rroot lt rt flags (diff_new f)) d"
  shows "case moved_find_add L e ce d w of
      (Some j, d', w') \<Rightarrow> d' = d \<and> w' = w \<and> j \<in> snd ` set (d_moved d) \<and>
        (\<exists>x. ce_entry (d_ents d ! j) = Some x \<and> meta_eq L flags x e)
    | (None, d', w') \<Rightarrow> d' = d\<lparr>d_moved := d_moved d @ [(ent_moved_hash L flags e, ce)]\<rparr> \<and> w' = w \<and>
        (\<forall>i \<in> snd ` set (d_moved d). \<exists>x. ce_entry (d_ents d ! i) = Some x \<and> \<not> meta_eq L flags x e)"
proof -
  note r = diff_steps_hashed [OF assms(4,1)]
  define P where "P = (\<lambda>i. \<exists>x. ce_entry (d_ents d ! i) = Some x \<and> meta_eq L flags x e)"
  define ps where "ps = sl_probe L (d_moved d) (ent_moved_hash L flags e)"
  have R: "\<exists>x. ce_entry (d_ents d ! i) = Some x \<and> h = ent_moved_hash L flags x" if "(h, i) \<in> set (d_moved d)" for h i
    using r that unfolding moved_hashed_def by blast
  have "(ent_moved_hash L flags e, i) \<in> set (d_moved d)" if "i \<in> set ps" for i
    using assms(1) that unfolding walk_ok_def ps_def by blast
  then have sub: "i \<in> snd ` set (d_moved d)" if "i \<in> set ps" for i
    using imageI [of _ _ snd] that by fastforce
  have im: "\<exists>h. (h, i) \<in> set (d_moved d)" if i: "i \<in> snd ` set (d_moved d)" for i
  proof -
    obtain q where "q \<in> set (d_moved d)" "snd q = i" using i by blast
    then have "(fst q, i) \<in> set (d_moved d)" by (metis prod.collapse)
    then show ?thesis by blast
  qed
  have all: "i \<in> set ps" if i: "i \<in> snd ` set (d_moved d)" "P i" for i
  proof -
    obtain h where h: "(h, i) \<in> set (d_moved d)" using im [OF i(1)] by blast
    obtain x where "ce_entry (d_ents d ! i) = Some x" "meta_eq L flags x e" using i(2) by (auto simp: P_def)
    then have "h = ent_moved_hash L flags e" using R [OF h] meta_eq_hash [of L flags x e] by simp
    with h show ?thesis using assms(2) unfolding probe_complete_def ps_def by blast
  qed
  have m: "moved_find_add L e ce d w = (find P ps,
      if find P ps = None then d\<lparr>d_moved := d_moved d @ [(ent_moved_hash L flags e, ce)]\<rparr> else d, w)"
    using map_probe_decides [of d L e ps w] conjunct1 [OF r] assms(3)
    unfolding moved_find_add_def P_def ps_def Let_def by simp
  show ?thesis
  proof (cases "find P ps")
    case None
    then have "\<not> P i" if "i \<in> snd ` set (d_moved d)" for i using all [OF that] by (auto simp: find_None_iff)
    moreover have "\<exists>x. ce_entry (d_ents d ! i) = Some x" if "i \<in> snd ` set (d_moved d)" for i
      using im [OF that] R by blast
    ultimately have "\<exists>x. ce_entry (d_ents d ! i) = Some x \<and> \<not> meta_eq L flags x e" if "i \<in> snd ` set (d_moved d)" for i
      using that unfolding P_def by blast
    then show ?thesis using None m by simp
  next
    case (Some j)
    then have "j \<in> set ps" "P j" using find_Some_iff [of P ps j] by auto
    then have j: "j \<in> snd ` set (d_moved d)" "\<exists>x. ce_entry (d_ents d ! j) = Some x \<and> meta_eq L flags x e"
      using sub by (simp_all only: P_def)
    show ?thesis unfolding m Some using j by simp
  qed
qed

theorem moved_find_exact_witness:
  "\<exists>d. diff_steps (list_synclib :: (((cmp4 \<times> 32 word) \<times> eref \<times> eref) list, unit) synclib) (diff_init (\<lambda>_ _. demo_walk) ''/l'' ''/r'' 2 2 0 (diff_new [])) d \<and> d_moved d \<noteq> [] \<and>
    fst (moved_find_add list_synclib (file_ent ''a'' 1) 7 d ()) = Some 0 \<and>
    fst (moved_find_add list_synclib (file_ent ''x'' 1) 7 d ()) = None"
proof -
  let ?d0 = "diff_init (\<lambda>_ _. demo_walk) ''/l'' ''/r'' 2 2 0 (diff_new []) :: (((cmp4 \<times> 32 word) \<times> eref \<times> eref) list) diff"
  obtain b d w' where n: "diff_next list_synclib ?d0 () = Some (b, d, w')" "map snd (d_moved d) = [0]"
    "ce_entry (d_ents d ! 0) = Some (file_ent ''a'' 1)"
    by (simp add: diff_next_def demo_walk_def list_synclib_def diff_init_def diff_new_def Let_def set_names_def one_sided_def
        moved_find_add_def upd_ent_def upd_stats_def neq_flags_def ce_entry_def) blast
  have s: "diff_steps (list_synclib :: (((cmp4 \<times> 32 word) \<times> eref \<times> eref) list, unit) synclib) ?d0 d" by (rule diff_steps.step [OF diff_steps.start n(1)])
  have pc: "probe_complete list_synclib" by (force simp: probe_complete_def list_synclib_def)
  have z: "\<not> has 0 FCOM_SYNC_DIFF_MOVE_CHK_CONTENT" by (simp add: has_def)
  have t: "snd ` set (d_moved d) = {0}" using n(2) by (metis image_set list.set(1,2))
  note X = moved_find_exact [OF list_synclib_ok pc z s, of _ 7 "()"]
  have a: "meta_eq list_synclib 0 (file_ent ''a'' 1) (file_ent ''a'' 1)" "\<not> meta_eq list_synclib 0 (file_ent ''a'' 1) (file_ent ''x'' 1)"
    by (auto simp: meta_eq_def file_ent_def Let_def has_def)
  have "fst (moved_find_add list_synclib (file_ent ''a'' 1) 7 d ()) = Some 0"
    using X [of "file_ent ''a'' 1"] t n(3) a by (auto split: prod.splits option.splits)
  moreover have "fst (moved_find_add list_synclib (file_ent ''x'' 1) 7 d ()) = None"
    using X [of "file_ent ''x'' 1"] t n(3) a by (auto split: prod.splits option.splits)
  ultimately show ?thesis using s n(2) by auto
qed

end
