(* ===== verification/OpIf.thy ===== *)
theory OpIf
  imports Com FileRead "HOL-Library.Monad_Syntax"
begin

text \<open>
  What an operation sees of the core: the function tables \<open>struct fcom_command\<close> and
  \<open>struct fcom_file\<close> of \<open>src/fcom.h\<close> as a record of functions over the whole state \<open>'s\<close>
  (an action; \<^const>\<open>None\<close> is "does not return"), and the loop every operation runs:
  \<open>while (!stop) switch (st) ...\<close>. File objects are addresses, \<open>'i\<close> is \<open>fffileinfo\<close>.
  \<open>core_of\<close> is the table the program installs: the command manager of \<^theory_text>\<open>Com\<close> and the
  file module of \<^theory_text>\<open>FileIO\<close>.
\<close>

type_synonym ('s, 'a) act = "'s \<Rightarrow> ('a \<times> 's) option"

record ('s, 'i) coreif =
  com_input_next :: "32 word \<Rightarrow> ('s, rinput) act"
  com_input_dir :: "fffd \<Rightarrow> ('s, unit) act"
  com_input_allowed :: "bytes \<Rightarrow> ia \<Rightarrow> ('s, bool) act"
  fi_create :: "nat \<Rightarrow> ('s, nat) act"
  fi_destroy :: "nat \<Rightarrow> ('s, unit) act"
  fi_open :: "nat \<Rightarrow> bytes \<Rightarrow> 32 word \<Rightarrow> ('s, file_ret) act"
  fi_close :: "nat \<Rightarrow> ('s, unit) act"
  fi_read :: "nat \<Rightarrow> nat option \<Rightarrow> ('s, file_ret \<times> bytes) act"
  fi_write :: "nat \<Rightarrow> bytes \<Rightarrow> nat option \<Rightarrow> ('s, file_ret) act"
  fi_flush :: "nat \<Rightarrow> ('s, file_ret) act"
  fi_trunc :: "nat \<Rightarrow> nat option \<Rightarrow> ('s, file_ret) act"
  fi_behaviour :: "nat \<Rightarrow> file_beh \<Rightarrow> ('s, unit) act"
  fi_info :: "nat \<Rightarrow> ('s, file_ret \<times> 'i option) act"
  fi_fd :: "nat \<Rightarrow> 32 word \<Rightarrow> ('s, fffd) act"
  fi_mtime_set :: "nat \<Rightarrow> fftime \<Rightarrow> ('s, file_ret) act"
  fi_attr_set :: "nat \<Rightarrow> 32 word \<Rightarrow> ('s, file_ret) act"
  fi_dir_create :: "bytes \<Rightarrow> 32 word \<Rightarrow> ('s, file_ret) act"
  fi_hlink :: "bytes \<Rightarrow> bytes \<Rightarrow> ('s, file_ret) act"
  fi_slink :: "bytes \<Rightarrow> bytes \<Rightarrow> 32 word \<Rightarrow> ('s, file_ret) act"
  fi_move :: "bytes \<Rightarrow> bytes \<Rightarrow> 32 word \<Rightarrow> ('s, file_ret) act"
  fi_del :: "bytes \<Rightarrow> ('s, bool) act"
  stop_flag :: "'s \<Rightarrow> bool"

text \<open>An action leaves alone what \<open>v\<close> sees of the state.\<close>

definition keeps :: "('s \<Rightarrow> 'q) \<Rightarrow> ('s, 'a) act \<Rightarrow> bool" where
  "keeps v f \<longleftrightarrow> (\<forall>s x s'. f s = Some (x, s') \<longrightarrow> v s' = v s)"

lemma keepsD: "keeps v f \<Longrightarrow> f s = Some (x, s') \<Longrightarrow> v s' = v s"
  by (simp add: keeps_def)

lemma keepsI: "(\<And>s x s'. f s = Some (x, s') \<Longrightarrow> v s' = v s) \<Longrightarrow> keeps v f"
  by (simp add: keeps_def)

section \<open>Flags from the settings\<close>

definition fcom_file_cominfo_flags_i :: "'k cominfo \<Rightarrow> 32 word" where
  "fcom_file_cominfo_flags_i i =
     (if ci_stdin i then FCOM_FILE_STDIN else 0) OR (if ci_directio i then FCOM_FILE_DIRECTIO else 0)"

definition fcom_file_cominfo_flags_o :: "'k cominfo \<Rightarrow> 32 word" where
  "fcom_file_cominfo_flags_o i =
     (if ci_overwrite i then FCOM_FILE_CREATE_TRUNC else FCOM_FILE_CREATENEW) OR
     (if ci_stdout i then FCOM_FILE_STDOUT else 0) OR
     (if ci_test i then FCOM_FILE_FAKEWRITE else 0) OR
     (if ci_directio i then FCOM_FILE_DIRECTIO else 0)"

section \<open>The loop of an operation\<close>

text \<open>
  A turn either goes on with the operation's new object (\<^const>\<open>Inl\<close>) or leaves the loop with the
  code to report (\<^const>\<open>Inr\<close>). An operation that is stopped reports 1.
\<close>

partial_function (option) op_loop ::
  "('s \<Rightarrow> bool) \<Rightarrow> ('c \<Rightarrow> ('s, ('c + 'c \<times> int)) act) \<Rightarrow> 'c \<Rightarrow> 's \<Rightarrow> (('c \<times> int) \<times> 's) option" where
  "op_loop stopped turn c s =
     (if stopped s then Some ((c, 1), s)
      else Option.bind (turn c s)
        (\<lambda>x. case fst x of Inl c' \<Rightarrow> op_loop stopped turn c' (snd x) | Inr r \<Rightarrow> Some (r, snd x)))"

definition op_turn ::
  "('s \<Rightarrow> bool) \<Rightarrow> ('c \<Rightarrow> ('s, ('c + 'c \<times> int)) act) \<Rightarrow> 'c \<times> 's \<Rightarrow> 'c \<times> 's \<Rightarrow> bool" where
  "op_turn stopped turn x y \<longleftrightarrow>
     \<not> stopped (snd x) \<and> turn (fst x) (snd x) = Some (Inl (fst y), snd y)"

lemma op_turnI: "\<not> stopped s \<Longrightarrow> turn c s = Some (Inl c', s') \<Longrightarrow> op_turn stopped turn (c, s) (c', s')"
  by (simp add: op_turn_def)

lemma op_loop_turn: "op_turn stopped turn (c, s) (c', s') \<Longrightarrow> op_loop stopped turn c s = op_loop stopped turn c' s'"
  by (subst op_loop.simps) (simp add: op_turn_def)

lemma op_loop_turns:
  "(op_turn stopped turn)\<^sup>*\<^sup>* x y \<Longrightarrow> op_loop stopped turn (fst x) (snd x) = op_loop stopped turn (fst y) (snd y)"
proof (induction rule: rtranclp_induct)
  case (step y z)
  then show ?case using op_loop_turn [of stopped turn "fst y" "snd y" "fst z" "snd z"] by simp
qed simp

lemma op_loop_exit: "\<not> stopped s \<Longrightarrow> turn c s = Some (Inr r, s') \<Longrightarrow> op_loop stopped turn c s = Some (r, s')"
  by (subst op_loop.simps) simp

text \<open>Two objects for which the turn does the same go the same way.\<close>

lemma op_loop_same_turn:
  "\<not> stopped s \<Longrightarrow> \<not> stopped s' \<Longrightarrow> turn c s = turn c' s' \<Longrightarrow> op_loop stopped turn c s = op_loop stopped turn c' s'"
  by (subst (1 2) op_loop.simps) simp

text \<open>Partial correctness of the loop: what the turns keep holds when it ends.\<close>

lemma op_loop_invariant:
  assumes run: "op_loop stopped turn c s = Some ((c', k), s')" and start: "I c s"
    and go: "\<And>c s c1 s1. I c s \<Longrightarrow> turn c s = Some (Inl c1, s1) \<Longrightarrow> I c1 s1"
    and leave: "\<And>c s c1 k s1. I c s \<Longrightarrow> turn c s = Some (Inr (c1, k), s1) \<Longrightarrow> Q c1 k s1"
    and stop: "\<And>c s. I c s \<Longrightarrow> Q c 1 s"
  shows "Q c' k s'"
proof -
  have "stopped = stopped \<and> turn = turn \<and> I c s \<longrightarrow> Q (fst (fst ((c', k), s'))) (snd (fst ((c', k), s'))) (snd ((c', k), s'))"
  proof (rule op_loop.raw_induct [where P = "\<lambda>st tn c s x. st = stopped \<and> tn = turn \<and> I c s \<longrightarrow> Q (fst (fst x)) (snd (fst x)) (snd x)",
      OF _ run])
    fix loop st tn c s x
    assume ih: "\<And>st tn c s x. loop st tn c s = Some x \<Longrightarrow> st = stopped \<and> tn = turn \<and> I c s \<longrightarrow> Q (fst (fst x)) (snd (fst x)) (snd x)"
      and eq: "(if st s then Some ((c, 1), s) else tn c s \<bind> (\<lambda>x. case fst x of
          Inl c' \<Rightarrow> loop st tn c' (snd x) | Inr r \<Rightarrow> Some (r, snd x))) = Some x"
    show "st = stopped \<and> tn = turn \<and> I c s \<longrightarrow> Q (fst (fst x)) (snd (fst x)) (snd x)"
    proof (intro impI, elim conjE)
      assume e: "st = stopped" "tn = turn" "I c s"
      show "Q (fst (fst x)) (snd (fst x)) (snd x)"
      proof (cases "stopped s")
        case True
        then show ?thesis using eq e stop by auto
      next
        case False
        with eq e obtain y s1 where t: "turn c s = Some (y, s1)" by (cases "turn c s") auto
        show ?thesis
        proof (cases y)
          case (Inl c1)
          then have "loop st tn c1 s1 = Some x" using eq e t False by simp
          from ih [OF this] e go t Inl show ?thesis by blast
        next
          case (Inr r)
          then show ?thesis using eq e t False leave [of c s "fst r" "snd r" s1] by auto
        qed
      qed
    qed
  qed
  with start show ?thesis by simp
qed

text \<open>A loop all of whose turns go on does not return.\<close>

lemma op_loop_diverges:
  assumes go: "\<And>c s. I c s \<Longrightarrow> \<not> stopped s \<and> (\<exists>c' s'. turn c s = Some (Inl c', s') \<and> I c' s')"
    and start: "I c s"
  shows "op_loop stopped turn c s = None"
proof (rule ccontr)
  assume "op_loop stopped turn c s \<noteq> None"
  then obtain x where x: "op_loop stopped turn c s = Some x" by blast
  have "stopped = stopped \<and> turn = turn \<and> I c s \<longrightarrow> False"
  proof (rule op_loop.raw_induct [where P = "\<lambda>st tn c s x. st = stopped \<and> tn = turn \<and> I c s \<longrightarrow> False", OF _ x])
    fix loop st tn c s x
    assume ih: "\<And>st tn c s x. loop st tn c s = Some x \<Longrightarrow> st = stopped \<and> tn = turn \<and> I c s \<longrightarrow> False"
      and eq: "(if st s then Some ((c, 1), s) else tn c s \<bind> (\<lambda>x. case fst x of
          Inl c' \<Rightarrow> loop st tn c' (snd x) | Inr r \<Rightarrow> Some (r, snd x))) = Some x"
    show "st = stopped \<and> tn = turn \<and> I c s \<longrightarrow> False"
    proof (intro impI, elim conjE)
      assume e: "st = stopped" "tn = turn" "I c s"
      obtain c' s' where t: "\<not> stopped s" "turn c s = Some (Inl c', s')" "I c' s'" using go [OF e(3)] by blast
      then have "loop st tn c' s' = Some x" using eq e by simp
      from ih [OF this] e t show False by simp
    qed
  qed
  with start show False by simp
qed

section \<open>Reading one file after another\<close>

text \<open>
  The contract of \<open>read\<close> at the current offset: \<open>rest s\<close> is what the object has still to
  deliver (\<^const>\<open>None\<close>: it is not at the start or inside of a readable file), \<open>frame s\<close> the part of
  the state that reading leaves alone.
\<close>

locale seq_reader =
  fixes rd :: "('s, file_ret \<times> bytes) act" and rest :: "'s \<Rightarrow> bytes option"
    and stopped :: "'s \<Rightarrow> bool" and frame :: "'s \<Rightarrow> 'q"
  assumes rd_data: "rest s = Some d \<Longrightarrow> d \<noteq> [] \<Longrightarrow>
      \<exists>c e s'. rd s = Some ((FOk, c), s') \<and> c \<noteq> [] \<and> d = c @ e \<and> rest s' = Some e \<and> frame s' = frame s"
    and rd_end: "rest s = Some [] \<Longrightarrow> \<exists>s'. rd s = Some ((FEof, []), s') \<and> rest s' = Some [] \<and> frame s' = frame s"
    and rd_runs: "rest s \<noteq> None \<Longrightarrow> \<not> stopped s"
begin

text \<open>
  A turn that reads a piece and takes it in: if \<open>Q a x\<close> ("the object \<open>a\<close> has taken in \<open>x\<close>") is kept
  for every piece, however the data is cut, the turns take in the whole rest of the file.
\<close>

lemma consume:
  assumes turn: "\<And>a x c s s'. Q a x \<Longrightarrow> rd s = Some ((FOk, c), s') \<Longrightarrow> c \<noteq> [] \<Longrightarrow>
      \<exists>a'. turn a s = Some (Inl a', s') \<and> Q a' (x @ c)"
    and start: "rest s = Some d" "Q a x"
  shows "\<exists>a' s'. (op_turn stopped turn)\<^sup>*\<^sup>* (a, s) (a', s') \<and> Q a' (x @ d) \<and> rest s' = Some [] \<and> frame s' = frame s"
  using start
proof (induction "length d" arbitrary: a s d x rule: less_induct)
  case less
  show ?case
  proof (cases "d = []")
    case True
    with less(2,3) show ?thesis by auto
  next
    case False
    obtain c e s1 where r: "rd s = Some ((FOk, c), s1)" "c \<noteq> []" "d = c @ e" "rest s1 = Some e" "frame s1 = frame s"
      using rd_data [OF less(2) False] by blast
    obtain a1 where a1: "turn a s = Some (Inl a1, s1)" "Q a1 (x @ c)"
      using turn [OF less(3) r(1,2)] by blast
    then have "op_turn stopped turn (a, s) (a1, s1)"
      using rd_runs [of s] less(2) by (simp add: op_turn_def)
    moreover obtain a' s' where "(op_turn stopped turn)\<^sup>*\<^sup>* (a1, s1) (a', s')" "Q a' (x @ c @ e)"
      "rest s' = Some []" "frame s' = frame s1"
      using less(1) [OF _ r(4) a1(2)] r(2,3) by auto
    ultimately show ?thesis using r(3,5)
      by (metis converse_rtranclp_into_rtranclp)
  qed
qed

end

text \<open>
  The contract of the command manager and the file module for a command whose inputs are regular
  files: \<open>todo\<close> are the names and contents still to come, \<open>avail\<close> the files that can be opened. Fetching the next name, opening it,
  asking for its kind and for the filters puts the object \<open>o1\<close> at the start of that file.
\<close>

locale file_source = seq_reader "fi_read C o1 None" rest "stop_flag C" frame
  for C :: "('s, 'i) coreif" and o1 rest and frame :: "'s \<Rightarrow> 'q" +
  fixes isdir :: "'i \<Rightarrow> bool" and fl :: "32 word" and todo :: "'q \<Rightarrow> (bytes \<times> bytes) list option"
    and avail :: "'q \<Rightarrow> bytes \<rightharpoonup> bytes"
  assumes src_next: "todo (frame s) = Some ((n, d) # ts) \<Longrightarrow>
      \<exists>b s1 s2 i s3 s4. com_input_next C 0 s = Some (ROk n b, s1) \<and> fi_open C o1 n fl s1 = Some (FOk, s2) \<and>
        fi_info C o1 s2 = Some ((FOk, Some i), s3) \<and> \<not> isdir i \<and>
        com_input_allowed C n IaFile s3 = Some (True, s4) \<and> rest s4 = Some d \<and> todo (frame s4) = Some ts"
    and src_name: "todo (frame s) = Some ((n, d) # ts) \<Longrightarrow>
      \<exists>b s1. com_input_next C 0 s = Some (ROk n b, s1) \<and> todo (frame s1) = Some ts \<and>
        avail (frame s1) = avail (frame s) \<and> avail (frame s) n = Some d"
    and src_last: "todo (frame s) = Some [] \<Longrightarrow> \<exists>s1. com_input_next C 0 s = Some (RNomore, s1)"
    and src_open: "avail (frame s) n = Some d \<Longrightarrow>
      \<exists>s'. fi_open C o1 n fl s = Some (FOk, s') \<and> rest s' = Some d \<and> frame s' = frame s"
    and src_runs: "todo (frame s) \<noteq> None \<Longrightarrow> \<not> stop_flag C s"

end
