(* ===== verification/CoreOf.thy ===== *)
theory CoreOf
  imports OpIf
begin

text \<open>
  The function tables of \<^theory_text>\<open>OpIf\<close> as the program fills them, and the proof that they
  deliver the input files of a command one after another, each as its contents in pieces: the
  file module's reads fulfil the contract \<open>seq_reader\<close>, the command manager and the file
  module together fulfil \<open>file_source\<close>.
\<close>

section \<open>The tables\<close>

text \<open>File objects live in the world of the command manager, beside the operating system.\<close>

record 'w fworld =
  wo_objs :: "nat \<Rightarrow> fobj"
  wo_next :: nat
  wo_stop :: bool
  wo_sys :: 'w

definition on_obj ::
  "nat \<Rightarrow> (fobj \<Rightarrow> 'w \<Rightarrow> ('a \<times> fobj \<times> 'w) option) \<Rightarrow> (('t, 'c, 'o, 'k, 'w fworld) com, 'a) act" where
  "on_obj o1 g s =
     (let W = world s
      in map_option (\<lambda>(r, f, w). (r, s\<lparr>world := W\<lparr>wo_objs := (wo_objs W)(o1 := f), wo_sys := w\<rparr>\<rparr>))
           (g (wo_objs W o1) (wo_sys W)))"

definition on_sys :: "('w \<Rightarrow> 'a \<times> 'w) \<Rightarrow> (('t, 'c, 'o, 'k, 'w fworld) com, 'a) act" where
  "on_sys g s =
     (case g (wo_sys (world s)) of (r, w) \<Rightarrow> Some (r, s\<lparr>world := (world s)\<lparr>wo_sys := w\<rparr>\<rparr>))"

text \<open>
  \<open>c\<close> is the command; \<open>mk\<close> the object \<open>file->create\<close> makes for a buffer size (\<open>file_create\<close> of
  \<^theory_text>\<open>FileIO\<close> with the allocator's blocks).
\<close>

definition core_of ::
  "('w, 'i) sys \<Rightarrow> ('t, 'c, 'b, 'd, 'w fworld) comlib \<Rightarrow> nat \<Rightarrow> (nat \<Rightarrow> fobj) \<Rightarrow>
   (('t, 'c, 'o, 'k, 'w fworld) com, 'i) coreif" where
  "core_of sys lib c mk =
     \<lparr>com_input_next = (\<lambda>fl. cmd_input_next lib c (has fl 1)),
      com_input_dir = (\<lambda>fd s. Some ((), cmd_input_dir c fd s)),
      com_input_allowed = (\<lambda>n ia s. case cmd_input_allowed lib (cm_info (cmd_at s c)) n ia (world s) of
         (r, w) \<Rightarrow> Some (r = 0, s\<lparr>world := w\<rparr>)),
      fi_create = (\<lambda>n s. Some (wo_next (world s),
         s\<lparr>world := (world s)\<lparr>wo_objs := (wo_objs (world s))(wo_next (world s) := mk n), wo_next := wo_next (world s) + 1\<rparr>\<rparr>)),
      fi_destroy = (\<lambda>o1. on_obj o1 (\<lambda>f w. map_option (\<lambda>(f, w). ((), f, w)) (file_close sys f w))),
      fi_open = (\<lambda>o1 n fl. on_obj o1 (\<lambda>f. file_open sys f n fl)),
      fi_close = (\<lambda>o1. on_obj o1 (\<lambda>f w. map_option (\<lambda>(f, w). ((), f, w)) (file_close sys f w))),
      fi_read = (\<lambda>o1 off. on_obj o1 (\<lambda>f w. Some (file_read sys f off w))),
      fi_write = (\<lambda>o1 d off. on_obj o1 (\<lambda>f w. Some (file_write sys f d off w))),
      fi_flush = (\<lambda>o1. on_obj o1 (file_flush sys)),
      fi_trunc = (\<lambda>o1 n. on_obj o1 (\<lambda>f w. Some (file_trunc sys f n w))),
      fi_behaviour = (\<lambda>o1 b. on_obj o1 (\<lambda>f w. map_option (\<lambda>(f, w). ((), f, w)) (file_behaviour sys f b w))),
      fi_info = (\<lambda>o1. on_obj o1 (\<lambda>f w. case file_info sys f w of (r, w) \<Rightarrow> Some (r, f, w))),
      fi_fd = (\<lambda>o1 fl. on_obj o1 (\<lambda>f w. case file_fd f fl of (fd, f) \<Rightarrow> Some (fd, f, w))),
      fi_mtime_set = (\<lambda>o1 t. on_obj o1 (\<lambda>f w. case file_mtime_set f t of (r, f) \<Rightarrow> Some (r, f, w))),
      fi_attr_set = (\<lambda>o1 a. on_obj o1 (\<lambda>f w. case file_attr_set sys f a w of (r, w) \<Rightarrow> Some (r, f, w))),
      fi_dir_create = (\<lambda>n fl. on_sys (dir_create sys n fl)),
      fi_hlink = (\<lambda>a b. on_sys (hlink_create sys a b)),
      fi_slink = (\<lambda>a b fl. on_sys (slink_create sys a b fl)),
      fi_move = (\<lambda>a b fl. on_sys (file_move sys a b fl)),
      fi_del = (\<lambda>n. on_sys (file_delete sys n)),
      stop_flag = (\<lambda>s. wo_stop (world s))\<rparr>"

section \<open>A readable disk\<close>

text \<open>
  Documented behaviour of the kernel on files nobody changes: \<open>disk w\<close> are the files by name,
  \<open>content fd w\<close> what an open descriptor reads. Opening a file for reading gives a descriptor on
  its contents; reading, asking for information and closing leave the disk alone.
\<close>

definition os_disk :: "('w, 'i) sys \<Rightarrow> (nat \<Rightarrow> 'w \<Rightarrow> bytes) \<Rightarrow> ('w \<Rightarrow> bytes \<rightharpoonup> bytes) \<Rightarrow> ('i \<Rightarrow> bool) \<Rightarrow> bool" where
  "os_disk sys content disk isdir \<longleftrightarrow>
     (\<forall>fd n off w. \<exists>w'. fs_readat sys (Some fd) n off w = (Some (take n (drop off (content fd w))), w') \<and>
        content fd w' = content fd w \<and> disk w' = disk w) \<and>
     (\<forall>n d fl w. disk w n = Some d \<and> fl \<subseteq> {OReadonly, ODirect, ONoatime} \<longrightarrow>
        (\<exists>fd w'. fs_open sys n fl w = (Some fd, w') \<and> content fd w' = d \<and> disk w' = disk w)) \<and>
     (\<forall>fd w. disk (snd (fs_close sys fd w)) = disk w) \<and>
     (\<forall>fd w. \<exists>i w'. fs_info sys (Some fd) w = (Some i, w') \<and> \<not> isdir i \<and>
        content fd w' = content fd w \<and> disk w' = disk w)"

lemma os_disk_reads:
  assumes "os_disk sys content disk isdir"
  shows "os_read_ok sys (Some fd) (content fd)" "os_reads sys (Some fd)"
proof -
  have *: "\<exists>w'. fs_readat sys (Some fd) n off w = (Some (take n (drop off (content fd w))), w') \<and>
      content fd w' = content fd w" for n off w
    using assms unfolding os_disk_def by blast
  then show "os_read_ok sys (Some fd) (content fd)" unfolding os_read_ok_def by (metis option.inject prod.inject)
  show "os_reads sys (Some fd)" unfolding os_reads_def by (metis * fst_conv option.distinct(1))
qed

lemma os_diskD:
  assumes "os_disk sys content disk isdir"
  shows "fs_readat sys (Some fd) n off w = (r, w') \<Longrightarrow> disk w' = disk w"
    and "disk w n' = Some d \<Longrightarrow> fl \<subseteq> {OReadonly, ODirect, ONoatime} \<Longrightarrow>
      \<exists>fd w'. fs_open sys n' fl w = (Some fd, w') \<and> content fd w' = d \<and> disk w' = disk w"
    and "fs_close sys fd2 w = (b, w') \<Longrightarrow> disk w' = disk w"
    and "\<exists>i w'. fs_info sys (Some fd) w = (Some i, w') \<and> \<not> isdir i \<and> content fd w' = content fd w \<and> disk w' = disk w"
proof -
  show "disk w' = disk w" if "fs_readat sys (Some fd) n off w = (r, w')"
    using assms that unfolding os_disk_def by (metis prod.inject)
  show "\<exists>fd w'. fs_open sys n' fl w = (Some fd, w') \<and> content fd w' = d \<and> disk w' = disk w"
    if "disk w n' = Some d" "fl \<subseteq> {OReadonly, ODirect, ONoatime}"
    using assms that unfolding os_disk_def by blast
  show "disk w' = disk w" if "fs_close sys fd2 w = (b, w')"
    using assms that unfolding os_disk_def by (metis snd_conv)
  show "\<exists>i w'. fs_info sys (Some fd) w = (Some i, w') \<and> \<not> isdir i \<and> content fd w' = content fd w \<and> disk w' = disk w"
    using assms unfolding os_disk_def by blast
qed

section \<open>Reading an object\<close>

text \<open>A file object that can be opened for reading: its ring has buffers of the right size.\<close>

definition obj_sound :: "fobj \<Rightarrow> bool" where
  "obj_sound f \<longleftrightarrow>
     ALIGN \<le> f_bufsize f \<and> bidx (f_bufset f) < length (bufs (f_bufset f)) \<and>
     (\<forall>b \<in> set (bufs (f_bufset f)). length (fb_ptr b) = f_bufsize f) \<and>
     (f_fd f = None \<or> \<not> writable (f_flags f) \<and> \<not> has (f_flags f) (FCOM_FILE_STDIN OR FCOM_FILE_STDOUT))"

definition obj_rest ::
  "('w, 'i) sys \<Rightarrow> (nat \<Rightarrow> 'w \<Rightarrow> bytes) \<Rightarrow> ('w \<Rightarrow> bytes \<rightharpoonup> bytes) \<Rightarrow> ('i \<Rightarrow> bool) \<Rightarrow> nat \<Rightarrow>
   ('t, 'c, 'o, 'k, 'w fworld) com \<Rightarrow> bytes option" where
  "obj_rest sys content disk isdir o1 s =
     (let f = wo_objs (world s) o1; w = wo_sys (world s)
      in case f_fd f of
           None \<Rightarrow> None
         | Some fd \<Rightarrow>
             if ffbase_ok sys \<and> os_disk sys content disk isdir \<and> \<not> wo_stop (world s) \<and> obj_sound f \<and>
                read_inv sys (content fd) f w \<and> f_cur f \<le> length (content fd w)
             then Some (drop (f_cur f) (content fd w)) else None)"

definition obj_frame ::
  "('w \<Rightarrow> bytes \<rightharpoonup> bytes) \<Rightarrow> nat \<Rightarrow> ('t, 'c, 'o, 'k, 'w fworld) com \<Rightarrow>
   ('t, 'c, 'o, 'k, unit fworld) com \<times> (bytes \<rightharpoonup> bytes) \<times> bool" where
  "obj_frame disk o1 s =
     (\<lparr>cmds = cmds s, cmd_at = cmd_at s, taskq = taskq s, stdout_busy = stdout_busy s, exit_code = exit_code s,
       world = \<lparr>wo_objs = (wo_objs (world s))(o1 := undefined), wo_next = wo_next (world s), wo_stop = wo_stop (world s),
         wo_sys = ()\<rparr>\<rparr>,
      disk (wo_sys (world s)), obj_sound (wo_objs (world s) o1))"

lemma file_read_fields:
  "file_read sys f off w = (x, f', w') \<Longrightarrow>
    f_fd f' = f_fd f \<and> f_flags f' = f_flags f \<and> f_bufsize f' = f_bufsize f"
  by (auto simp: file_read_def Let_def split: option.splits prod.splits if_splits)

lemma file_read_world:
  "file_read sys f off w = (x, f', w') \<Longrightarrow> \<not> has (f_flags f) FCOM_FILE_STDIN \<Longrightarrow>
    w' = w \<or> (\<exists>n k r. fs_readat sys (f_fd f) n k w = (r, w'))"
  by (auto simp: file_read_def Let_def split: option.splits prod.splits if_splits)

lemma obj_read:
  assumes d: "obj_rest sys content disk isdir o1 s = Some d"
  shows "\<exists>c e s'. fi_read (core_of sys lib cm mk) o1 None s = Some ((if d = [] then FEof else FOk, c), s') \<and>
    (c = [] \<longleftrightarrow> d = []) \<and> d = c @ e \<and> obj_rest sys content disk isdir o1 s' = Some e \<and>
    obj_frame disk o1 s' = obj_frame disk o1 s"
proof -
  define f where "f = wo_objs (world s) o1"
  define w where "w = wo_sys (world s)"
  obtain fd where fd: "f_fd f = Some fd" and ff: "ffbase_ok sys" and os: "os_disk sys content disk isdir"
    and st: "\<not> wo_stop (world s)" and inv: "read_inv sys (content fd) f w" and snd: "obj_sound f"
    and le: "f_cur f \<le> length (content fd w)" and dd: "d = drop (f_cur f) (content fd w)"
    using d by (auto simp: obj_rest_def f_def [symmetric] w_def [symmetric] Let_def split: option.splits if_splits)
  obtain r c f' w' where x: "file_read sys f None w = ((r, c), f', w')" by (metis prod_cases4 prod.exhaust)
  have off: "read_off f None = f_cur f" by (simp add: read_off_def)
  have ns: "\<not> has (f_flags f) FCOM_FILE_STDIN" using inv by (simp add: read_inv_def)
  have "read_post sys (content fd) (content fd w) (f_cur f) ((r, c), f', w')"
    using file_read_correct [of sys f "content fd" w None] os_disk_reads(1) [OF os, of fd] ff inv le x
    by (simp add: fd off)
  moreover have "r = FOk \<or> r = FEof"
    using file_read_succeeds [of sys f None w] os_disk_reads(2) [OF os, of fd] ns x by (auto simp: fd)
  ultimately have p: "content fd w' = content fd w" "read_inv sys (content fd) f' w'" "f_cur f' = f_cur f + length c"
    "read_result (content fd w) (f_cur f) r c"
    by (auto simp: read_post_def)
  have q: "c = take (length c) d" "(c = []) = (d = [])" "r = (if d = [] then FEof else FOk)"
    using p(4) le by (auto simp: read_result_def dd split: if_splits)
  have len: "length c \<le> length d" using q(1) by (metis length_take min.cobounded1)
  have dk: "disk w' = disk w" using file_read_world [OF x ns] os_diskD(1) [OF os] fd by auto
  have fl: "f_fd f' = Some fd" "f_flags f' = f_flags f" "f_bufsize f' = f_bufsize f"
    using file_read_fields [OF x] fd by auto
  have snd': "obj_sound f'"
    using p(2) snd fl fd by (simp add: obj_sound_def read_inv_def fbufset_coherent_def)
  define s' where "s' = s\<lparr>world := (world s)\<lparr>wo_objs := (wo_objs (world s))(o1 := f'), wo_sys := w'\<rparr>\<rparr>"
  have "fi_read (core_of sys lib cm mk) o1 None s = Some ((r, c), s')"
    using x by (simp add: core_of_def on_obj_def Let_def f_def w_def s'_def)
  moreover have "obj_rest sys content disk isdir o1 s' = Some (drop (length c) d)"
    using p fl ff os st snd' le len dd by (simp add: obj_rest_def s'_def add.commute)
  moreover have "obj_frame disk o1 s' = obj_frame disk o1 s"
    using dk snd snd' by (simp add: obj_frame_def s'_def f_def w_def)
  moreover have "d = c @ drop (length c) d" using q(1) by (metis append_take_drop_id)
  ultimately show ?thesis using q(2,3) by (intro exI [of _ c] exI [of _ "drop (length c) d"] exI [of _ s']) simp
qed

interpretation obj: seq_reader "fi_read (core_of sys lib cm mk) o1 None" "obj_rest sys content disk isdir o1"
  "stop_flag (core_of sys lib cm mk)" "obj_frame disk o1"
  for sys :: "('w, 'i) sys" and lib :: "('t, 'c, 'b, 'd, 'w fworld) comlib" and cm mk o1 content disk isdir
proof
  fix s :: "('t, 'c, 'a, 'e, 'w fworld) com" and d
  assume "obj_rest sys content disk isdir o1 s = Some d" "d \<noteq> []"
  then show "\<exists>c e s'. fi_read (core_of sys lib cm mk) o1 None s = Some ((FOk, c), s') \<and> c \<noteq> [] \<and> d = c @ e \<and>
      obj_rest sys content disk isdir o1 s' = Some e \<and> obj_frame disk o1 s' = obj_frame disk o1 s"
    using obj_read [of sys content disk isdir o1 s d lib cm mk] by auto
next
  fix s :: "('t, 'c, 'a, 'e, 'w fworld) com"
  assume "obj_rest sys content disk isdir o1 s = Some []"
  then show "\<exists>s'. fi_read (core_of sys lib cm mk) o1 None s = Some ((FEof, []), s') \<and>
      obj_rest sys content disk isdir o1 s' = Some [] \<and> obj_frame disk o1 s' = obj_frame disk o1 s"
    using obj_read [of sys content disk isdir o1 s "[]" lib cm mk] by auto
next
  fix s :: "('t, 'c, 'a, 'e, 'w fworld) com"
  show "obj_rest sys content disk isdir o1 s \<noteq> None \<Longrightarrow> \<not> stop_flag (core_of sys lib cm mk) s"
    by (auto simp: core_of_def obj_rest_def Let_def split: option.splits if_splits)
qed

section \<open>One input file after another\<close>

text \<open>\<open>names t cur\<close>: the names the cursor has still to visit in the tree.\<close>

definition tree_names :: "('t, 'c, 'b, 'd, 'w) comlib \<Rightarrow> ('t \<Rightarrow> 'c \<Rightarrow> bytes list option) \<Rightarrow> bool" where
  "tree_names lib names \<longleftrightarrow>
     (\<forall>t cur. names t cur = Some [] \<longrightarrow>
        (\<exists>cur'. tree_next lib False t cur = (None, cur') \<and> names t cur' = Some [])) \<and>
     (\<forall>t cur n ns. names t cur = Some (n # ns) \<longrightarrow>
        (\<exists>nm b cur'. tree_next lib False t cur = (Some (nm, b), cur') \<and> names t cur' = Some ns \<and>
           n = (if blk_path lib b \<noteq> [] then blk_path lib b @ [FFPATH_SLASH] @ nm else nm)))"

definition name_passes :: "('t, 'c, 'b, 'd, 'w) comlib \<Rightarrow> 'k cominfo \<Rightarrow> bytes \<Rightarrow> bool" where
  "name_passes lib i n \<longleftrightarrow>
     (ci_include i = [] \<or> (\<exists>p \<in> set (ci_include i). str_wildcard_i (clb_str lib) p n)) \<and>
     \<not> (\<exists>p \<in> set (ci_exclude i). str_wildcard_i (clb_str lib) p n)"

lemma cmd_input_allowed_file:
  "cmd_input_allowed lib i n IaFile w = (r, w') \<Longrightarrow> (r = 0 \<longleftrightarrow> name_passes lib i n) \<and> w' = w"
  by (auto simp: cmd_input_allowed_def name_passes_def Let_def split: if_splits)

text \<open>The input of a command that is not scanning a directory and reads no list file.\<close>

definition com_todo ::
  "('t, 'c, 'b, 'd, 'w) comlib \<Rightarrow> ('t \<Rightarrow> 'c \<Rightarrow> bytes list option) \<Rightarrow> ('t, 'c, 'o, 'k) cmd \<Rightarrow> bytes list option" where
  "com_todo lib names d =
     (let (ok, tr) = (if cm_set_ftree d then (True, cm_ftree d)
                      else add_all (tree_add lib) (cm_ftree d) (ci_input (cm_info d)))
      in if ok \<and> ci_input_fd (cm_info d) = None \<and> \<not> cm_isdir d then names tr (cm_ftree_cur d) else None)"

lemma cmd_input_next_todo:
  assumes lib: "tree_names lib names" and plan: "com_todo lib names (cmd_at s c) = Some (n # ns)"
  shows "\<exists>b d. cmd_input_next lib c False s = Some (ROk n b, s\<lparr>cmd_at := (cmd_at s)(c := d)\<rparr>) \<and>
    com_todo lib names d = Some ns \<and> cm_info d = cm_info (cmd_at s c)"
proof -
  define d0 where "d0 = cmd_at s c"
  obtain ok tr where t: "(if cm_set_ftree d0 then (True, cm_ftree d0)
      else add_all (tree_add lib) (cm_ftree d0) (ci_input (cm_info d0))) = (ok, tr)" by fastforce
  then have p: "ok" "ci_input_fd (cm_info d0) = None" "\<not> cm_isdir d0" "names tr (cm_ftree_cur d0) = Some (n # ns)"
    using plan by (auto simp: com_todo_def d0_def [symmetric] split: if_splits)
  obtain nm b cur where nx: "tree_next lib False tr (cm_ftree_cur d0) = (Some (nm, b), cur)" "names tr cur = Some ns"
    "n = (if blk_path lib b \<noteq> [] then blk_path lib b @ [FFPATH_SLASH] @ nm else nm)"
    using lib p(4) unfolding tree_names_def by blast
  define d where "d = d0\<lparr>cm_set_ftree := True, cm_ftree := tr, cm_info := (cm_info d0)\<lparr>ci_input_fd := None\<rparr>,
      cm_ftree_cur := cur, cm_ftree_name := n\<rparr>"
  have "(cm_info d0)\<lparr>ci_input_fd := None\<rparr> = cm_info d0" using p(2) by simp
  then have i: "cm_info d = cm_info d0" by (simp add: d_def)
  have "com_todo lib names d = Some ns" using p nx by (simp add: com_todo_def d_def)
  moreover have "\<exists>b. cmd_input_next lib c False s = Some (ROk n b, s\<lparr>cmd_at := (cmd_at s)(c := d)\<rparr>)"
    unfolding cmd_input_next_def d0_def [symmetric] t Let_def prod.case
    using p nx by (auto simp: cmd_upd_def close_unless_def next_name_def d_def d0_def [symmetric] Let_def)
  ultimately show ?thesis using i d0_def by blast
qed

lemma cmd_input_next_done:
  assumes lib: "tree_names lib names" and plan: "com_todo lib names (cmd_at s c) = Some []"
  shows "\<exists>d. cmd_input_next lib c False s = Some (RNomore, s\<lparr>cmd_at := (cmd_at s)(c := d)\<rparr>) \<and>
    com_todo lib names d = Some [] \<and> cm_info d = cm_info (cmd_at s c)"
proof -
  define d0 where "d0 = cmd_at s c"
  obtain ok tr where t: "(if cm_set_ftree d0 then (True, cm_ftree d0)
      else add_all (tree_add lib) (cm_ftree d0) (ci_input (cm_info d0))) = (ok, tr)" by fastforce
  then have p: "ok" "ci_input_fd (cm_info d0) = None" "\<not> cm_isdir d0" "names tr (cm_ftree_cur d0) = Some []"
    using plan by (auto simp: com_todo_def d0_def [symmetric] split: if_splits)
  then obtain cur where nx: "tree_next lib False tr (cm_ftree_cur d0) = (None, cur)" "names tr cur = Some []"
    using lib unfolding tree_names_def by blast
  define d where "d = d0\<lparr>cm_set_ftree := True, cm_ftree := tr, cm_info := (cm_info d0)\<lparr>ci_input_fd := None\<rparr>, cm_ftree_cur := cur\<rparr>"
  have "(cm_info d0)\<lparr>ci_input_fd := None\<rparr> = cm_info d0" using p(2) by simp
  then have i: "cm_info d = cm_info d0" by (simp add: d_def)
  have "com_todo lib names d = Some []" using p nx by (simp add: com_todo_def d_def)
  moreover have "cmd_input_next lib c False s = Some (RNomore, s\<lparr>cmd_at := (cmd_at s)(c := d)\<rparr>)"
    unfolding cmd_input_next_def d0_def [symmetric] t Let_def prod.case
    using p nx by (auto simp: cmd_upd_def close_unless_def next_name_def d_def d0_def [symmetric] Let_def)
  ultimately show ?thesis using i d0_def by blast
qed

text \<open>Opening a file of the disk for reading puts the object at its start.\<close>

definition read_flags :: "32 word \<Rightarrow> bool" where
  "read_flags fl \<longleftrightarrow> fl = FCOM_FILE_READ \<or> fl = FCOM_FILE_DIRECTIO"

lemma read_flags_no:
  assumes "read_flags fl"
  shows "\<not> has fl FCOM_FILE_STDIN" "\<not> has fl FCOM_FILE_STDOUT" "\<not> has fl FCOM_FILE_FAKEWRITE" "\<not> writable fl"
    "\<not> has fl (FCOM_FILE_STDIN OR FCOM_FILE_STDOUT)" "\<not> has fl FCOM_FILE_INFO_NOFOLLOW"
    "fl AND FCOM_FILE_CREATE_TRUNC \<noteq> FCOM_FILE_CREATE_TRUNC" "open_oflags fl \<subseteq> {OReadonly, ODirect, ONoatime}"
    "ODirect \<in> open_oflags fl \<longleftrightarrow> has fl FCOM_FILE_DIRECTIO"
  using assms by (auto simp: read_flags_def has_def flag_simps writable_def open_oflags_def)

lemma file_close_sound:
  assumes "obj_sound f" and "os_disk sys content disk isdir"
  shows "\<exists>w'. file_close sys f w = Some (f\<lparr>f_fd := None, f_name := None\<rparr>, w') \<and> disk w' = disk w"
proof (cases "f_fd f")
  case None
  then show ?thesis by (auto simp: file_close_def)
next
  case (Some fd)
  obtain b w' where c: "fs_close sys (f_fd f) w = (b, w')" by fastforce
  have "disk w' = disk w" by (rule os_diskD(3) [OF assms(2) c])
  then show ?thesis using assms(1) Some c by (auto simp: file_close_def obj_sound_def)
qed

lemma file_open_reads:
  assumes f: "obj_sound f" and os: "os_disk sys content disk isdir" and fl: "read_flags fl" and n: "disk w n = Some d"
  shows "\<exists>f' w' fd. file_open sys f n fl w = Some (FOk, f', w') \<and> f_fd f' = Some fd \<and> f_flags f' = fl \<and>
    content fd w' = d \<and> disk w' = disk w \<and> f_cur f' = 0 \<and> obj_sound f' \<and> read_inv sys (content fd) f' w'"
proof -
  obtain w1 where c: "file_close sys f w = Some (f\<lparr>f_fd := None, f_name := None\<rparr>, w1)" "disk w1 = disk w"
    using file_close_sound [OF f os] by blast
  note no = read_flags_no [OF fl]
  obtain fd w2 where o1: "fs_open sys n (open_oflags fl) w1 = (Some fd, w2)" "content fd w2 = d" "disk w2 = disk w1"
    using os_diskD(2) [OF os, of w1 n d "open_oflags fl"] n c(2) no(8) by auto
  have l: "open_loop sys n fl (open_oflags fl) 0 w1 = ((Some fd, open_oflags fl), w2)"
    by (subst open_loop.simps) (simp add: o1(1))
  define f' where "f' = f\<lparr>f_name := Some n, f_fd := Some fd, f_flags := fl, f_bufset := fbufset_reset (f_bufset f),
      f_size := 0, w_prealloc := 0, f_cur := 0, f_mtime := (0, 0)\<rparr>"
  have "file_open sys f n fl w = Some (FOk, f', w2)"
    using c(1) no l by (simp add: file_open_def Let_def f'_def)
  moreover have "obj_sound f'" "read_inv sys (content fd) f' w2"
    using f no by (auto simp: obj_sound_def read_inv_def f'_def fbufset_reset_def fbufset_coherent_def fbuf_coherent_def fbuf_data_def)
  ultimately show ?thesis using o1 c(2) by (auto simp: f'_def)
qed

text \<open>The plan of a command over a readable disk.\<close>

definition disk_todo ::
  "('w, 'i) sys \<Rightarrow> (nat \<Rightarrow> 'w \<Rightarrow> bytes) \<Rightarrow> ('w \<Rightarrow> bytes \<rightharpoonup> bytes) \<Rightarrow> ('i \<Rightarrow> bool) \<Rightarrow>
   ('t, 'c, 'b, 'd, 'w fworld) comlib \<Rightarrow> ('t \<Rightarrow> 'c \<Rightarrow> bytes list option) \<Rightarrow> nat \<Rightarrow> 32 word \<Rightarrow>
   ('t, 'c, 'o, 'k, unit fworld) com \<times> (bytes \<rightharpoonup> bytes) \<times> bool \<Rightarrow> (bytes \<times> bytes) list option" where
  "disk_todo sys content disk isdir lib names c fl =
     (\<lambda>(s, dk, snd).
        case com_todo lib names (cmd_at s c) of
          None \<Rightarrow> None
        | Some ns \<Rightarrow>
            if ffbase_ok sys \<and> os_disk sys content disk isdir \<and> tree_names lib names \<and> read_flags fl \<and> snd \<and>
               \<not> wo_stop (world s) \<and> (\<forall>n \<in> set ns. dk n \<noteq> None \<and> name_passes lib (cm_info (cmd_at s c)) n)
            then Some (map (\<lambda>n. (n, the (dk n))) ns) else None)"

lemma core_next:
  fixes s :: "('t, 'c, 'o, 'k, 'w fworld) com"
  assumes todo: "disk_todo sys content disk isdir lib names cm fl (obj_frame disk o1 s) = Some ((n, d) # ts)"
  shows "\<exists>b s1 s2 i s3 s4. com_input_next (core_of sys lib cm mk) 0 s = Some (ROk n b, s1) \<and>
    fi_open (core_of sys lib cm mk) o1 n fl s1 = Some (FOk, s2) \<and>
    fi_info (core_of sys lib cm mk) o1 s2 = Some ((FOk, Some i), s3) \<and> \<not> isdir i \<and>
    com_input_allowed (core_of sys lib cm mk) n IaFile s3 = Some (True, s4) \<and>
    obj_rest sys content disk isdir o1 s4 = Some d \<and>
    disk_todo sys content disk isdir lib names cm fl (obj_frame disk o1 s4) = Some ts"
proof -
  define W where "W = world s"
  obtain ns0 where plan0: "com_todo lib names (cmd_at s cm) = Some ns0"
    using todo by (auto simp: disk_todo_def obj_frame_def split: option.splits)
  then obtain ns where plan: "com_todo lib names (cmd_at s cm) = Some (n # ns)" and ns: "ts = map (\<lambda>n. (n, the (disk (wo_sys W) n))) ns"
    and dn: "disk (wo_sys W) n = Some d" and ff: "ffbase_ok sys" and os: "os_disk sys content disk isdir"
    and lib: "tree_names lib names" and fl: "read_flags fl" and f: "obj_sound (wo_objs W o1)" and st: "\<not> wo_stop W"
    and ok: "\<forall>n \<in> set ns. disk (wo_sys W) n \<noteq> None \<and> name_passes lib (cm_info (cmd_at s cm)) n"
      "name_passes lib (cm_info (cmd_at s cm)) n"
    using todo by (auto simp: disk_todo_def obj_frame_def W_def split: if_splits)
  obtain b dd where nx: "cmd_input_next lib cm False s = Some (ROk n b, s\<lparr>cmd_at := (cmd_at s)(cm := dd)\<rparr>)"
    "com_todo lib names dd = Some ns" "cm_info dd = cm_info (cmd_at s cm)"
    using cmd_input_next_todo [OF lib plan] by blast
  define s1 where "s1 = s\<lparr>cmd_at := (cmd_at s)(cm := dd)\<rparr>"
  obtain f' w' fd where op: "file_open sys (wo_objs W o1) n fl (wo_sys W) = Some (FOk, f', w')" "f_fd f' = Some fd" "f_flags f' = fl"
    "content fd w' = d" "disk w' = disk (wo_sys W)" "f_cur f' = 0" "obj_sound f'" "read_inv sys (content fd) f' w'"
    using file_open_reads [OF f os fl dn] by blast
  define s2 where "s2 = s1\<lparr>world := W\<lparr>wo_objs := (wo_objs W)(o1 := f'), wo_sys := w'\<rparr>\<rparr>"
  obtain i w3 where inf: "fs_info sys (Some fd) w' = (Some i, w3)" "\<not> isdir i" "content fd w3 = d" "disk w3 = disk (wo_sys W)"
    using os_diskD(4) [OF os, of fd w'] op by metis
  define s3 where "s3 = s1\<lparr>world := W\<lparr>wo_objs := (wo_objs W)(o1 := f'), wo_sys := w3\<rparr>\<rparr>"
  obtain r w4 where al: "cmd_input_allowed lib (cm_info (cmd_at s3 cm)) n IaFile (world s3) = (r, w4)" by fastforce
  have "cm_info (cmd_at s3 cm) = cm_info (cmd_at s cm)" by (simp add: s3_def s1_def nx(3))
  then have r: "r = 0" "w4 = world s3" using cmd_input_allowed_file [OF al] ok(2) by simp_all
  have "com_input_next (core_of sys lib cm mk) 0 s = Some (ROk n b, s1)"
    using nx(1) by (simp add: core_of_def s1_def)
  moreover have "fi_open (core_of sys lib cm mk) o1 n fl s1 = Some (FOk, s2)"
    using op(1) by (simp add: core_of_def on_obj_def Let_def s1_def s2_def W_def)
  moreover have "fi_info (core_of sys lib cm mk) o1 s2 = Some ((FOk, Some i), s3)"
    using inf(1) op(2,3) read_flags_no [OF fl]
    by (simp add: core_of_def on_obj_def Let_def s1_def s2_def s3_def file_info_def)
  moreover have "com_input_allowed (core_of sys lib cm mk) n IaFile s3 = Some (True, s3)"
    using al r by (simp add: core_of_def)
  moreover have "obj_rest sys content disk isdir o1 s3 = Some d"
    using op inf ff os st by (simp add: obj_rest_def s3_def read_inv_def)
  moreover have "disk_todo sys content disk isdir lib names cm fl (obj_frame disk o1 s3) = Some ts"
    using nx(2,3) ff os lib fl op(7) st ok ns inf(4) by (simp add: disk_todo_def obj_frame_def s3_def s1_def)
  ultimately show ?thesis using inf(2) by blast
qed

definition disk_avail ::
  "('w, 'i) sys \<Rightarrow> (nat \<Rightarrow> 'w \<Rightarrow> bytes) \<Rightarrow> ('w \<Rightarrow> bytes \<rightharpoonup> bytes) \<Rightarrow> ('i \<Rightarrow> bool) \<Rightarrow> 32 word \<Rightarrow>
   ('t, 'c, 'o, 'k, unit fworld) com \<times> (bytes \<rightharpoonup> bytes) \<times> bool \<Rightarrow> bytes \<rightharpoonup> bytes" where
  "disk_avail sys content disk isdir fl =
     (\<lambda>(s, dk, snd). if ffbase_ok sys \<and> os_disk sys content disk isdir \<and> read_flags fl \<and> snd \<and> \<not> wo_stop (world s)
        then dk else (\<lambda>n. None))"

lemma core_name:
  fixes s :: "('t, 'c, 'o, 'k, 'w fworld) com"
  assumes todo: "disk_todo sys content disk isdir lib names cm fl (obj_frame disk o1 s) = Some ((n, d) # ts)"
  shows "\<exists>b s1. com_input_next (core_of sys lib cm mk) 0 s = Some (ROk n b, s1) \<and>
    disk_todo sys content disk isdir lib names cm fl (obj_frame disk o1 s1) = Some ts \<and>
    disk_avail sys content disk isdir fl (obj_frame disk o1 s1) = disk_avail sys content disk isdir fl (obj_frame disk o1 s) \<and>
    disk_avail sys content disk isdir fl (obj_frame disk o1 s) n = Some d"
proof -
  obtain ns0 where "com_todo lib names (cmd_at s cm) = Some ns0"
    using todo by (auto simp: disk_todo_def obj_frame_def split: option.splits)
  then obtain ns where plan: "com_todo lib names (cmd_at s cm) = Some (n # ns)" and lib: "tree_names lib names"
    using todo by (auto simp: disk_todo_def obj_frame_def split: if_splits)
  obtain b dd where nx: "cmd_input_next lib cm False s = Some (ROk n b, s\<lparr>cmd_at := (cmd_at s)(cm := dd)\<rparr>)"
    "com_todo lib names dd = Some ns" "cm_info dd = cm_info (cmd_at s cm)"
    using cmd_input_next_todo [OF lib plan] by blast
  have "com_input_next (core_of sys lib cm mk) 0 s = Some (ROk n b, s\<lparr>cmd_at := (cmd_at s)(cm := dd)\<rparr>)"
    using nx(1) by (simp add: core_of_def)
  moreover have "disk_todo sys content disk isdir lib names cm fl (obj_frame disk o1 (s\<lparr>cmd_at := (cmd_at s)(cm := dd)\<rparr>)) = Some ts"
    "disk_avail sys content disk isdir fl (obj_frame disk o1 s) n = Some d"
    using todo plan nx by (auto simp: disk_todo_def disk_avail_def obj_frame_def split: if_splits)
  moreover have "disk_avail sys content disk isdir fl (obj_frame disk o1 (s\<lparr>cmd_at := (cmd_at s)(cm := dd)\<rparr>)) =
      disk_avail sys content disk isdir fl (obj_frame disk o1 s)"
    by (simp add: disk_avail_def obj_frame_def)
  ultimately show ?thesis by blast
qed

lemma core_open:
  fixes s :: "('t, 'c, 'o, 'k, 'w fworld) com"
  assumes av: "disk_avail sys content disk isdir fl (obj_frame disk o1 s) n = Some d"
  shows "\<exists>s'. fi_open (core_of sys lib cm mk) o1 n fl s = Some (FOk, s') \<and>
    obj_rest sys content disk isdir o1 s' = Some d \<and> obj_frame disk o1 s' = obj_frame disk o1 s"
proof -
  define W where "W = world s"
  have a: "ffbase_ok sys" "os_disk sys content disk isdir" "read_flags fl" "obj_sound (wo_objs W o1)" "\<not> wo_stop W"
    "disk (wo_sys W) n = Some d"
    using av by (auto simp: disk_avail_def obj_frame_def W_def split: if_splits)
  obtain f' w' fd where op: "file_open sys (wo_objs W o1) n fl (wo_sys W) = Some (FOk, f', w')" "f_fd f' = Some fd" "f_flags f' = fl"
    "content fd w' = d" "disk w' = disk (wo_sys W)" "f_cur f' = 0" "obj_sound f'" "read_inv sys (content fd) f' w'"
    using file_open_reads [OF a(4,2,3,6)] by blast
  define s' where "s' = s\<lparr>world := W\<lparr>wo_objs := (wo_objs W)(o1 := f'), wo_sys := w'\<rparr>\<rparr>"
  have "fi_open (core_of sys lib cm mk) o1 n fl s = Some (FOk, s')"
    using op(1) by (simp add: core_of_def on_obj_def Let_def s'_def W_def)
  moreover have "obj_rest sys content disk isdir o1 s' = Some d"
    using op a by (simp add: obj_rest_def s'_def)
  moreover have "obj_frame disk o1 s' = obj_frame disk o1 s"
    using op a by (simp add: obj_frame_def s'_def W_def)
  ultimately show ?thesis by blast
qed

interpretation disk: file_source "core_of sys lib cm mk" o1 "obj_rest sys content disk isdir o1" "obj_frame disk o1" isdir fl
  "disk_todo sys content disk isdir lib names cm fl" "disk_avail sys content disk isdir fl"
  for sys :: "('w, 'i) sys" and lib :: "('t, 'c, 'b, 'd, 'w fworld) comlib" and cm mk o1 content disk isdir fl names
proof
  fix s :: "('t, 'c, 'a, 'e, 'w fworld) com" and n d ts
  assume "disk_todo sys content disk isdir lib names cm fl (obj_frame disk o1 s) = Some ((n, d) # ts)"
  then show "\<exists>b s1 s2 i s3 s4. com_input_next (core_of sys lib cm mk) 0 s = Some (ROk n b, s1) \<and>
    fi_open (core_of sys lib cm mk) o1 n fl s1 = Some (FOk, s2) \<and>
    fi_info (core_of sys lib cm mk) o1 s2 = Some ((FOk, Some i), s3) \<and> \<not> isdir i \<and>
    com_input_allowed (core_of sys lib cm mk) n IaFile s3 = Some (True, s4) \<and>
    obj_rest sys content disk isdir o1 s4 = Some d \<and>
    disk_todo sys content disk isdir lib names cm fl (obj_frame disk o1 s4) = Some ts"
    by (rule core_next)
next
  fix s :: "('t, 'c, 'a, 'e, 'w fworld) com" and n d ts
  assume "disk_todo sys content disk isdir lib names cm fl (obj_frame disk o1 s) = Some ((n, d) # ts)"
  then show "\<exists>b s1. com_input_next (core_of sys lib cm mk) 0 s = Some (ROk n b, s1) \<and>
    disk_todo sys content disk isdir lib names cm fl (obj_frame disk o1 s1) = Some ts \<and>
    disk_avail sys content disk isdir fl (obj_frame disk o1 s1) = disk_avail sys content disk isdir fl (obj_frame disk o1 s) \<and>
    disk_avail sys content disk isdir fl (obj_frame disk o1 s) n = Some d"
    by (rule core_name)
next
  fix s :: "('t, 'c, 'a, 'e, 'w fworld) com"
  assume "disk_todo sys content disk isdir lib names cm fl (obj_frame disk o1 s) = Some []"
  then have "tree_names lib names" "com_todo lib names (cmd_at s cm) = Some []"
    by (auto simp: disk_todo_def obj_frame_def split: option.splits if_splits)
  then show "\<exists>s1. com_input_next (core_of sys lib cm mk) 0 s = Some (RNomore, s1)"
    using cmd_input_next_done [of lib names s cm] by (auto simp: core_of_def)
next
  fix s :: "('t, 'c, 'a, 'e, 'w fworld) com" and n d
  assume "disk_avail sys content disk isdir fl (obj_frame disk o1 s) n = Some d"
  then show "\<exists>s'. fi_open (core_of sys lib cm mk) o1 n fl s = Some (FOk, s') \<and>
    obj_rest sys content disk isdir o1 s' = Some d \<and> obj_frame disk o1 s' = obj_frame disk o1 s"
    by (rule core_open)
next
  fix s :: "('t, 'c, 'a, 'e, 'w fworld) com"
  show "disk_todo sys content disk isdir lib names cm fl (obj_frame disk o1 s) \<noteq> None \<Longrightarrow> \<not> stop_flag (core_of sys lib cm mk) s"
    by (auto simp: core_of_def disk_todo_def obj_frame_def split: option.splits if_splits)
qed

section \<open>A concrete disk for the witnesses\<close>

text \<open>The world is the list of the files and the contents of the one opened last.\<close>

definition disk_sys :: "((bytes \<times> bytes) list \<times> bytes, unit) sys" where
  "disk_sys =
     \<lparr>fs_errno = (\<lambda>w. ENOENT),
      fs_open = (\<lambda>n fl w. case map_of (fst w) n of None \<Rightarrow> (None, w) | Some d \<Rightarrow> (Some 3, (fst w, d))),
      fs_close = (\<lambda>fd w. (True, w)),
      fs_readat = (\<lambda>fd n off w. (Some (take n (drop off (snd w))), w)),
      fs_piperead = (\<lambda>fd n w. (None, w)), fs_writeat = (\<lambda>fd d off w. (None, w)),
      fs_pipewrite = (\<lambda>fd d w. (None, w)), fs_trunc = (\<lambda>fd n w. (False, w)),
      fs_set_mtime = (\<lambda>fd t w. (False, w)), fs_set_attr = (\<lambda>fd a w. (False, w)),
      fs_size = (\<lambda>fd w. length (snd w)), fs_readahead = (\<lambda>fd n w. (True, w)),
      fs_info = (\<lambda>fd w. (Some (), w)), fs_info_link = (\<lambda>name w. (Some (), w)), fs_info_zero = (),
      dir_make = (\<lambda>n w. (False, w)), dir_make_path = (\<lambda>n w. (False, w)), dir_make_all = (\<lambda>n w. (False, w)),
      fs_hardlink = (\<lambda>a b w. (False, w)), fs_symlink = (\<lambda>a b w. (False, w)),
      fs_remove = (\<lambda>a w. (False, w)), fs_rename = (\<lambda>a b w. (False, w)), time_1970 = 62135596800,
      align_floor2 = (\<lambda>x a. x - x mod a), align_ceil2 = (\<lambda>x a. x + (a - x mod a) mod a),
      align_power2 = (\<lambda>x. x), str_shift = drop\<rparr>"

lemma disk_sys_ok:
  "os_disk disk_sys (\<lambda>fd w. snd w) (\<lambda>w. map_of (fst w)) (\<lambda>i. False)" "ffbase_ok disk_sys"
  by (auto simp: os_disk_def ffbase_ok_def disk_sys_def)

text \<open>The tree is the list of the names, the cursor the number of those visited.\<close>

definition cursor_lib :: "(bytes list, nat, unit, unit, 'w) comlib" where
  "cursor_lib =
     \<lparr>clb_str = ref_strlib, tree_new = [], cur_zero = 0, tree_add = (\<lambda>t n. Some (t @ [n])),
      tree_next = (\<lambda>_ t c. if c < length t then (Some (t ! c, ()), c + 1) else (None, c)),
      tree_attach = (\<lambda>t _ _. t), cur_stk = (\<lambda>_. []), blk_path = (\<lambda>_. []), dir_scan = (\<lambda>_ _ w. (None, w)),
      path_isdir = (\<lambda>_ w. (Some False, w)), ro_open = (\<lambda>_ w. (None, w)), fd_read = (\<lambda>_ _ w. (None, w)),
      fd_close = (\<lambda>_ w. w), out_write = (\<lambda>d w. w)\<rparr>"

definition cursor_names :: "bytes list \<Rightarrow> nat \<Rightarrow> bytes list option" where
  "cursor_names t c = Some (drop c t)"

lemma cursor_names_ok: "tree_names cursor_lib cursor_names"
proof -
  have "c < length t \<and> t ! c = n \<and> drop (Suc c) t = ns" if "drop c t = n # ns" for c n ns and t :: "bytes list"
  proof -
    have "c < length t" using that by (metis drop_all list.distinct(1) not_le)
    then show ?thesis using that Cons_nth_drop_Suc [of c t] by simp
  qed
  then show ?thesis
    by (auto simp: tree_names_def cursor_lib_def cursor_names_def)
qed

definition plain_info :: "bytes list \<Rightarrow> unit cominfo" where
  "plain_info ns =
     \<lparr>ci_argv = [], ci_operation = None, ci_input = ns, ci_include = [], ci_exclude = [], ci_input_fd = None,
      ci_stdin = False, ci_recursive = 0, ci_output = [], ci_outputz = None, ci_chdir = [],
      ci_stdout = False, ci_overwrite = False, ci_test = False, ci_no_prealloc = False,
      ci_buffer_size = 0, ci_directio = False, ci_help = False, ci_on_complete = None\<rparr>"

definition disk_obj :: fobj where
  "disk_obj =
     \<lparr>f_name = None, f_fd = None, f_flags = 0, f_bufsize = ALIGN, f_mtime = (0, 0), f_stdin = Some 0, f_stdout = Some 1,
      f_bufset = \<lparr>bufs = [\<lparr>fb_len = 0, fb_ptr = replicate ALIGN (CHR ''x''), fb_off = 0\<rparr>], bidx = 0, hits = 0, misses = 0\<rparr>,
      f_size = 0, f_cur = 0, f_wwrite = False, f_wbuf = \<lparr>fb_len = 0, fb_ptr = [], fb_off = 0\<rparr>, f_wuser = [],
      f_wcont = False, w_buf = [], w_off = 0, w_prealloc = 0, w_async = False\<rparr>"

definition disk_com ::
  "(bytes \<times> bytes) list \<Rightarrow> (bytes list, nat, unit, unit, ((bytes \<times> bytes) list \<times> bytes) fworld) com" where
  "disk_com files =
     \<lparr>cmds = [0], cmd_at = (\<lambda>_. \<lparr>cm_info = plain_info (map fst files), cm_opif = None, cm_op = None, cm_argi = 0,
        cm_ftree = [], cm_ftree_cur = 0, cm_ftree_name = [], cm_ftree_dir = None, cm_isdir = False,
        cm_set_ftree = False, cm_args_parsed = True, cm_result = 1\<rparr>),
      taskq = \<lparr>tq_tasks = [], tq_mem = undefined\<rparr>, stdout_busy = False, exit_code = None,
      world = \<lparr>wo_objs = (\<lambda>_. disk_obj), wo_next = 1, wo_stop = False, wo_sys = (files, [])\<rparr>\<rparr>"

lemma add_all_cursor: "add_all (tree_add cursor_lib) t ns = (True, t @ ns)"
  by (induction ns arbitrary: t) (simp_all add: cursor_lib_def)

lemma disk_com_todo:
  assumes "distinct (map fst files)" and "cmd_at S = cmd_at (disk_com files)" and "\<not> wo_stop (world S)"
  shows "disk_todo disk_sys (\<lambda>fd w. snd w) (\<lambda>w. map_of (fst w)) (\<lambda>i. False) cursor_lib cursor_names 0 FCOM_FILE_READ
    (S, map_of files, True) = Some files"
proof -
  have "map (\<lambda>n. (n, the (map_of files n))) (map fst files) = files"
    using assms(1) by (auto intro!: map_idI)
  moreover have "\<forall>n \<in> set (map fst files). map_of files n \<noteq> None" by (auto simp: map_of_eq_None_iff)
  ultimately show ?thesis
    using disk_sys_ok cursor_names_ok assms(3)
    by (simp add: disk_todo_def assms(2) disk_com_def com_todo_def add_all_cursor cursor_names_def
        plain_info_def name_passes_def read_flags_def del: map_map)
qed

lemma disk_obj_sound: "obj_sound disk_obj"
  by (simp add: obj_sound_def disk_obj_def)

lemma disk_frame_todo:
  assumes "distinct (map fst files)" and "cmd_at s = cmd_at (disk_com files)" and "\<not> wo_stop (world s)"
    and "fst (wo_sys (world s)) = files" and "wo_objs (world s) o1 = disk_obj"
  shows "disk_todo disk_sys (\<lambda>fd w. snd w) (\<lambda>w. map_of (fst w)) (\<lambda>i. False) cursor_lib cursor_names 0 FCOM_FILE_READ
    (obj_frame (\<lambda>w. map_of (fst w)) o1 s) = Some files"
  unfolding obj_frame_def assms(4,5) by (simp add: disk_obj_sound) (rule disk_com_todo, use assms in simp_all)

end
