(* ===== verification/TextCount.thy ===== *)
theory TextCount
  imports CoreOf
begin

text \<open>
  The operation \<open>textcount\<close> (\<open>src/text/textcount.c\<close>): lines, empty lines and the longest line of
  the input files. The counters of 64 bits are numbers; the two 32-bit variables that hold the
  count and the percentage of non-empty lines are words. Log lines are kept as the values printed.
\<close>

section \<open>Data\<close>

record txcnt_stat =
  tx_sz :: nat
  tx_ln :: nat
  tx_ln_empty :: nat
  tx_b_ln :: nat
  tx_b_ln_max :: nat

definition txcnt_f_clear :: txcnt_stat where
  "txcnt_f_clear = \<lparr>tx_sz = 0, tx_ln = 0, tx_ln_empty = 0, tx_b_ln = 0, tx_b_ln_max = 0\<rparr>"

datatype tx_state = TxNextfile | TxRead

text \<open>One printed line: the statistics, the two 32-bit numbers and the file's name.\<close>

type_synonym tx_line = "txcnt_stat \<times> 32 word \<times> 32 word \<times> bytes"

record 'k txcnt =
  tc_st :: tx_state
  tc_cmd :: "'k cominfo"
  tc_in :: nat
  tc_data :: bytes
  tc_iname :: bytes
  tc_no_hdr :: bool
  tc_f :: nat
  tc_sz_f_min :: "64 word"
  tc_sz_f_max :: nat
  tc_ln_f_max :: nat
  tc_all :: txcnt_stat
  tc_cur :: txcnt_stat
  tc_log :: "tx_line list"

section \<open>Counting\<close>

text \<open>\<open>txcnt_analyze\<close>: the loop ends because every turn shortens the text.\<close>

partial_function (option) txcnt_lines :: "strlib \<Rightarrow> txcnt_stat \<Rightarrow> bytes \<Rightarrow> txcnt_stat option" where
  "txcnt_lines L f ss =
     (case str_findchar L ss (CHR 0x0A) of
        None \<Rightarrow> Some (f\<lparr>tx_b_ln := tx_b_ln f + length ss\<rparr>)
      | Some lf \<Rightarrow>
          (let f1 = f\<lparr>tx_b_ln := tx_b_ln f + lf\<rparr>;
               f2 = f1\<lparr>tx_b_ln_max := max (tx_b_ln_max f1) (tx_b_ln f1), tx_ln := tx_ln f1 + 1\<rparr>;
               f3 = (if tx_b_ln f2 = 0 then f2\<lparr>tx_ln_empty := tx_ln_empty f2 + 1\<rparr> else f2)
           in txcnt_lines L (f3\<lparr>tx_b_ln := 0\<rparr>) (drop (lf + 1) ss)))"

definition txcnt_analyze :: "strlib \<Rightarrow> txcnt_stat \<Rightarrow> bytes \<Rightarrow> txcnt_stat option" where
  "txcnt_analyze L f ss = txcnt_lines L (f\<lparr>tx_sz := tx_sz f + length ss\<rparr>) ss"

text \<open>\<open>uint empty = ln - ln_empty; empty * 100 / ln\<close>, the product in 32 bits.\<close>

definition txcnt_nonempty :: "txcnt_stat \<Rightarrow> 32 word" where
  "txcnt_nonempty f = word_of_nat (tx_ln f - tx_ln_empty f)"

definition txcnt_perc :: "txcnt_stat \<Rightarrow> 32 word" where
  "txcnt_perc f = (if tx_ln f = 0 then 0 else word_of_nat (unat (txcnt_nonempty f * 100) div tx_ln f))"

definition txcnt_print :: "'k txcnt \<Rightarrow> txcnt_stat \<Rightarrow> 'k txcnt" where
  "txcnt_print c f =
     c\<lparr>tc_no_hdr := True, tc_log := tc_log c @ [(f, txcnt_nonempty f, txcnt_perc f, tc_iname c)]\<rparr>"

definition txcnt_add :: "'k txcnt \<Rightarrow> txcnt_stat \<Rightarrow> 'k txcnt" where
  "txcnt_add c f =
     (let a = tc_all c
      in c\<lparr>tc_all := a\<lparr>tx_sz := tx_sz a + tx_sz f, tx_ln := tx_ln a + tx_ln f, tx_ln_empty := tx_ln_empty a + tx_ln_empty f\<rparr>,
           tc_ln_f_max := max (tc_ln_f_max c) (tx_ln f), tc_sz_f_min := min (tc_sz_f_min c) (word_of_nat (tx_sz f)),
           tc_sz_f_max := max (tc_sz_f_max c) (tx_sz f), tc_f := tc_f c + 1\<rparr>)"

definition txcnt_final_stats :: "'k txcnt \<Rightarrow> 'k txcnt" where
  "txcnt_final_stats c =
     c\<lparr>tc_log := tc_log c @ [(tc_all c, txcnt_nonempty (tc_all c), txcnt_perc (tc_all c), [])]\<rparr>"

section \<open>The operation\<close>

text \<open>\<open>txcnt_create\<close> after the arguments are parsed (\<open>args_parse\<close>: no output means standard output).\<close>

definition txcnt_create :: "('s, 'i) coreif \<Rightarrow> 'k cominfo \<Rightarrow> ('s, 'k txcnt) act" where
  "txcnt_create C cmd0 s =
     (let cmd = (if ci_output cmd0 = [] then cmd0\<lparr>ci_stdout := True\<rparr> else cmd0)
      in do { (o1, s) \<leftarrow> fi_create C (ci_buffer_size cmd) s;
              Some (\<lparr>tc_st = TxNextfile, tc_cmd = cmd, tc_in = o1, tc_data = [], tc_iname = [], tc_no_hdr = False,
                     tc_f = 0, tc_sz_f_min = - 1, tc_sz_f_max = 0, tc_ln_f_max = 0,
                     tc_all = txcnt_f_clear, tc_cur = txcnt_f_clear, tc_log = []\<rparr>, s) })"

definition txcnt_next :: "('s, 'i) coreif \<Rightarrow> ('i \<Rightarrow> bool) \<Rightarrow> 'k txcnt \<Rightarrow> ('s, 'k txcnt + 'k txcnt \<times> int) act" where
  "txcnt_next C isdir c0 s =
     do { (r, s) \<leftarrow> com_input_next C 0 s;
          case r of
            RErr \<Rightarrow> Some (Inr (c0, 1), s)
          | RNomore \<Rightarrow> Some (Inr (txcnt_final_stats c0, 0), s)
          | ROk name _ \<Rightarrow>
              (let c = c0\<lparr>tc_iname := name\<rparr> in
               do { (r, s) \<leftarrow> fi_open C (tc_in c) name (fcom_file_cominfo_flags_i (tc_cmd c)) s;
                    if r = FErr then Some (Inr (c, 1), s) else
                    do { ((r, fi), s) \<leftarrow> fi_info C (tc_in c) s;
                         if r = FErr then Some (Inr (c, 1), s) else
                         do { (ok, s) \<leftarrow> com_input_allowed C name (if isdir (the fi) then IaDir else IaFile) s;
                              if \<not> ok then Some (Inl c, s)
                              else if isdir (the fi) then
                                do { (fd, s) \<leftarrow> fi_fd C (tc_in c) FCOM_FILE_ACQUIRE s;
                                     (_, s) \<leftarrow> com_input_dir C fd s;
                                     Some (Inl c, s) }
                              else Some (Inl (c\<lparr>tc_cur := txcnt_f_clear, tc_st := TxRead\<rparr>), s) } } }) }"

text \<open>
  A read that returns \<open>FCOM_FILE_ASYNC\<close> is not told from success: the view of the last read is
  analysed again.
\<close>

definition txcnt_read :: "strlib \<Rightarrow> ('s, 'i) coreif \<Rightarrow> 'k txcnt \<Rightarrow> ('s, 'k txcnt + 'k txcnt \<times> int) act" where
  "txcnt_read L C c s =
     do { ((r, d), s) \<leftarrow> fi_read C (tc_in c) None s;
          if r = FErr then Some (Inr (c, 1), s)
          else if r = FEof then
            (let f = (if tx_b_ln (tc_cur c) \<noteq> 0 then (tc_cur c)\<lparr>tx_ln := tx_ln (tc_cur c) + 1\<rparr> else tc_cur c)
             in Some (Inl ((txcnt_add (txcnt_print (c\<lparr>tc_cur := f\<rparr>) f) f)\<lparr>tc_st := TxNextfile\<rparr>), s))
          else
            (let c1 = (if r = FOk then c\<lparr>tc_data := d\<rparr> else c)
             in do { f \<leftarrow> txcnt_analyze L (tc_cur c1) (tc_data c1);
                     Some (Inl (c1\<lparr>tc_cur := f\<rparr>), s) }) }"

definition txcnt_turn ::
  "strlib \<Rightarrow> ('s, 'i) coreif \<Rightarrow> ('i \<Rightarrow> bool) \<Rightarrow> 'k txcnt \<Rightarrow> ('s, 'k txcnt + 'k txcnt \<times> int) act" where
  "txcnt_turn L C isdir c s = (case tc_st c of TxNextfile \<Rightarrow> txcnt_next C isdir c s | TxRead \<Rightarrow> txcnt_read L C c s)"

text \<open>\<open>txcnt_run\<close> with \<open>txcnt_close\<close>; the result is the code given to \<open>com->complete\<close> and what was printed.\<close>

definition txcnt_run ::
  "strlib \<Rightarrow> ('s, 'i) coreif \<Rightarrow> ('i \<Rightarrow> bool) \<Rightarrow> 'k txcnt \<Rightarrow> ('s, int \<times> 'k txcnt) act" where
  "txcnt_run L C isdir c s =
     do { ((c, rc), s) \<leftarrow> op_loop (stop_flag C) (txcnt_turn L C isdir) c s;
          (_, s) \<leftarrow> fi_destroy C (tc_in c) s;
          Some ((rc, c), s) }"

section \<open>What a text consists of\<close>

text \<open>The terminated lines of a text and the text after the last newline.\<close>

fun nl_split :: "bytes \<Rightarrow> bytes list \<times> bytes" where
  "nl_split [] = ([], [])"
| "nl_split (x # xs) =
     (case nl_split xs of (ls, r) \<Rightarrow>
        if x = CHR 0x0A then ([] # ls, r)
        else (case ls of [] \<Rightarrow> ([], x # r) | l # ls' \<Rightarrow> ((x # l) # ls', r)))"

definition text_lines :: "bytes \<Rightarrow> bytes list" where
  "text_lines d = (case nl_split d of (ls, r) \<Rightarrow> if r = [] then ls else ls @ [r])"

text \<open>Reference: one character at a time.\<close>

definition tx_char :: "txcnt_stat \<Rightarrow> char \<Rightarrow> txcnt_stat" where
  "tx_char f x =
     (if x = CHR 0x0A
      then f\<lparr>tx_b_ln_max := max (tx_b_ln_max f) (tx_b_ln f), tx_ln := tx_ln f + 1,
             tx_ln_empty := tx_ln_empty f + (if tx_b_ln f = 0 then 1 else 0), tx_b_ln := 0\<rparr>
      else f\<lparr>tx_b_ln := tx_b_ln f + 1\<rparr>)"

lemma tx_char_plain: "CHR 0x0A \<notin> set d \<Longrightarrow> foldl tx_char f d = f\<lparr>tx_b_ln := tx_b_ln f + length d\<rparr>"
  by (induction d arbitrary: f) (auto simp: tx_char_def)

lemma txcnt_lines_chars: "ffstr_ok L \<Longrightarrow> txcnt_lines L f d = Some (foldl tx_char f d)"
proof (induction "length d" arbitrary: f d rule: less_induct)
  case less
  show ?case
  proof (cases "index_of (CHR 0x0A) d")
    case None
    then have "CHR 0x0A \<notin> set d" using index_of_None by blast
    then show ?thesis
      by (subst txcnt_lines.simps) (simp add: ffstrD [OF less(2)] tx_char_plain None)
  next
    case (Some i)
    note sp = index_of_Some [OF Some]
    define g where "g = tx_char (f\<lparr>tx_b_ln := tx_b_ln f + i\<rparr>) (CHR 0x0A)"
    have pl: "foldl tx_char f (take i d) = f\<lparr>tx_b_ln := tx_b_ln f + i\<rparr>"
      using sp tx_char_plain [of "take i d" f] by (simp add: min_def)
    have "foldl tx_char f (take i d @ CHR 0x0A # drop (Suc i) d) = foldl tx_char g (drop (Suc i) d)"
      by (simp only: foldl_append foldl.simps pl g_def)
    then have "foldl tx_char f d = foldl tx_char g (drop (Suc i) d)" using sp by metis
    moreover have "txcnt_lines L g (drop (Suc i) d) = Some (foldl tx_char g (drop (Suc i) d))"
      using sp by (intro less) auto
    moreover have "txcnt_lines L f d = txcnt_lines L g (drop (Suc i) d)"
      by (subst txcnt_lines.simps) (auto simp: ffstrD [OF less(2)] Some Let_def g_def tx_char_def)
    ultimately show ?thesis by simp
  qed
qed

lemma tx_char_sz1: "tx_char (f\<lparr>tx_sz := n\<rparr>) x = (tx_char f x)\<lparr>tx_sz := n\<rparr>" "tx_sz (tx_char f x) = tx_sz f"
  by (simp_all add: tx_char_def)

lemma tx_char_sz: "foldl tx_char (f\<lparr>tx_sz := n\<rparr>) d = (foldl tx_char f d)\<lparr>tx_sz := n\<rparr>" "tx_sz (foldl tx_char f d) = tx_sz f"
  by (induction d arbitrary: f) (simp_all add: tx_char_sz1)

definition tx_text :: "txcnt_stat \<Rightarrow> bytes \<Rightarrow> txcnt_stat" where
  "tx_text f d = (foldl tx_char f d)\<lparr>tx_sz := tx_sz f + length d\<rparr>"

lemma txcnt_analyze_text: "ffstr_ok L \<Longrightarrow> txcnt_analyze L f d = Some (tx_text f d)"
  by (simp add: txcnt_analyze_def txcnt_lines_chars tx_text_def tx_char_sz)

lemma tx_text_append: "tx_text (tx_text f c) d = tx_text f (c @ d)"
  by (simp add: tx_text_def tx_char_sz)

lemma tx_text_Nil: "tx_text f [] = f"
  by (simp add: tx_text_def)

text \<open>The statistics of a text, without the machine.\<close>

definition stat_of :: "bytes \<Rightarrow> txcnt_stat" where
  "stat_of d =
     \<lparr>tx_sz = length d, tx_ln = length (text_lines d), tx_ln_empty = length (filter (\<lambda>l. l = []) (text_lines d)),
      tx_b_ln = length (snd (nl_split d)), tx_b_ln_max = Max (insert 0 (length ` set (fst (nl_split d))))\<rparr>"

lemma foldl_max: "foldl max a xs = Max (insert a (set xs))" for a :: nat
proof (induction xs arbitrary: a)
  case (Cons x xs)
  then show ?case by (cases "xs = []") (simp_all add: max.assoc max.left_commute)
qed simp

lemma tx_char_lines:
  "foldl tx_char f d =
     (case nl_split d of
        ([], r) \<Rightarrow> f\<lparr>tx_b_ln := tx_b_ln f + length r\<rparr>
      | (l # ls, r) \<Rightarrow>
          f\<lparr>tx_ln := tx_ln f + Suc (length ls),
            tx_ln_empty := tx_ln_empty f + (if tx_b_ln f + length l = 0 then 1 else 0) + length (filter (\<lambda>l. l = []) ls),
            tx_b_ln := length r,
            tx_b_ln_max := foldl max (max (tx_b_ln_max f) (tx_b_ln f + length l)) (map length ls)\<rparr>)"
proof (induction d arbitrary: f)
  case (Cons x d)
  obtain ls r where "nl_split d = (ls, r)" by fastforce
  then show ?case unfolding foldl.simps Cons.IH by (cases ls) (auto simp: tx_char_def)
qed simp

lemma tx_text_stat:
  "(let f = tx_text txcnt_f_clear d in if tx_b_ln f \<noteq> 0 then f\<lparr>tx_ln := tx_ln f + 1\<rparr> else f) = stat_of d"
proof -
  obtain ls r where s: "nl_split d = (ls, r)" by fastforce
  show ?thesis
    by (cases ls) (auto simp: tx_text_def tx_char_lines s stat_of_def txcnt_f_clear_def text_lines_def foldl_max Let_def)
qed

section \<open>All input files\<close>

text \<open>What the operation has after the files with the contents \<open>ds\<close>.\<close>

definition tx_done :: "'k txcnt \<Rightarrow> bytes list \<Rightarrow> 'k txcnt \<Rightarrow> bool" where
  "tx_done c ds c' \<longleftrightarrow>
     tc_f c' = tc_f c + length ds \<and> map fst (tc_log c') = map fst (tc_log c) @ map stat_of ds \<and>
     tx_sz (tc_all c') = tx_sz (tc_all c) + sum_list (map length ds) \<and>
     tx_ln (tc_all c') = tx_ln (tc_all c) + sum_list (map (length \<circ> text_lines) ds) \<and>
     tx_ln_empty (tc_all c') = tx_ln_empty (tc_all c) + sum_list (map (length \<circ> filter (\<lambda>l. l = []) \<circ> text_lines) ds) \<and>
     tc_in c' = tc_in c \<and> tc_cmd c' = tc_cmd c \<and> tc_st c' = TxNextfile"

lemma tx_done_Nil: "tc_st c = TxNextfile \<Longrightarrow> tx_done c [] c"
  by (simp add: tx_done_def)

lemma tx_done_Cons:
  "tx_done c [d] c1 \<Longrightarrow> tx_done c1 ds c2 \<Longrightarrow> tx_done c (d # ds) c2"
  by (simp add: tx_done_def)

context file_source
begin

lemma txcnt_file:
  assumes L: "ffstr_ok L" and todo: "todo (frame s) = Some ((n, d) # ts)"
    and c: "tc_st c = TxNextfile" "tc_in c = o1" "fcom_file_cominfo_flags_i (tc_cmd c) = fl"
  shows "\<exists>c' s'. (op_turn (stop_flag C) (txcnt_turn L C isdir))\<^sup>*\<^sup>* (c, s) (c', s') \<and> todo (frame s') = Some ts \<and> tx_done c [d] c'"
proof -
  obtain b s1 s2 i s3 s4 where nx: "com_input_next C 0 s = Some (ROk n b, s1)" "fi_open C o1 n fl s1 = Some (FOk, s2)"
    "fi_info C o1 s2 = Some ((FOk, Some i), s3)" "\<not> isdir i" "com_input_allowed C n IaFile s3 = Some (True, s4)"
    "rest s4 = Some d" "todo (frame s4) = Some ts"
    using src_next [OF todo] by blast
  define c1 where "c1 = c\<lparr>tc_iname := n, tc_cur := txcnt_f_clear, tc_st := TxRead\<rparr>"
  have "txcnt_turn L C isdir c s = Some (Inl c1, s4)"
    using nx c by (simp add: txcnt_turn_def txcnt_next_def c1_def Let_def)
  then have t1: "op_turn (stop_flag C) (txcnt_turn L C isdir) (c, s) (c1, s4)"
    using src_runs [of s] todo by (simp add: op_turn_def)
  define Q where "Q a x \<longleftrightarrow> (\<exists>y. a = c1\<lparr>tc_data := y, tc_cur := tx_text txcnt_f_clear x\<rparr>)" for a x
  have "Q c1 []" unfolding Q_def by (rule exI [of _ "tc_data c1"]) (simp add: c1_def tx_text_Nil)
  moreover have "\<exists>a'. txcnt_turn L C isdir a s = Some (Inl a', s') \<and> Q a' (x @ y)"
    if "Q a x" "fi_read C o1 None s = Some ((FOk, y), s')" for a x y s s'
    using that c by (auto simp: Q_def txcnt_turn_def txcnt_read_def c1_def txcnt_analyze_text [OF L] tx_text_append)
  ultimately obtain a' s5 where r: "(op_turn (stop_flag C) (txcnt_turn L C isdir))\<^sup>*\<^sup>* (c1, s4) (a', s5)" "Q a' d"
    "rest s5 = Some []" "frame s5 = frame s4"
    using consume [of Q "txcnt_turn L C isdir" s4 d c1 "[]"] nx(6) by auto
  obtain y where a': "a' = c1\<lparr>tc_data := y, tc_cur := tx_text txcnt_f_clear d\<rparr>" using r(2) Q_def by blast
  obtain s6 where e: "fi_read C o1 None s5 = Some ((FEof, []), s6)" "frame s6 = frame s5" using rd_end [OF r(3)] by blast
  define c2 where "c2 = (txcnt_add (txcnt_print (a'\<lparr>tc_cur := stat_of d\<rparr>) (stat_of d)) (stat_of d))\<lparr>tc_st := TxNextfile\<rparr>"
  have "txcnt_turn L C isdir a' s5 = Some (Inl c2, s6)"
    using e c tx_text_stat [of d]
    by (simp add: a' txcnt_turn_def txcnt_read_def c1_def c2_def Let_def split: if_splits)
  then have "op_turn (stop_flag C) (txcnt_turn L C isdir) (a', s5) (c2, s6)"
    using rd_runs [of s5] r(3) by (simp add: op_turn_def)
  with t1 r(1) have "(op_turn (stop_flag C) (txcnt_turn L C isdir))\<^sup>*\<^sup>* (c, s) (c2, s6)"
    by (meson converse_rtranclp_into_rtranclp rtranclp.rtrancl_into_rtrancl)
  moreover have "tx_done c [d] c2"
    by (simp add: tx_done_def c2_def a' c1_def txcnt_add_def txcnt_print_def Let_def stat_of_def)
  ultimately show ?thesis using nx(7) r(4) e(2) by metis
qed

lemma txcnt_files:
  assumes "ffstr_ok L" and "todo (frame s) = Some fs" and "tc_st c = TxNextfile" and "tc_in c = o1"
    and "fcom_file_cominfo_flags_i (tc_cmd c) = fl"
  shows "\<exists>c' s'. op_loop (stop_flag C) (txcnt_turn L C isdir) c s = Some ((txcnt_final_stats c', 0), s') \<and>
    tx_done c (map snd fs) c'"
  using assms
proof (induction fs arbitrary: c s)
  case Nil
  obtain s1 where "com_input_next C 0 s = Some (RNomore, s1)" using src_last [OF Nil(2)] by blast
  then have "txcnt_turn L C isdir c s = Some (Inr (txcnt_final_stats c, 0), s1)"
    using Nil(3) by (simp add: txcnt_turn_def txcnt_next_def)
  with src_runs [of s] Nil(2) have "op_loop (stop_flag C) (txcnt_turn L C isdir) c s = Some ((txcnt_final_stats c, 0), s1)"
    by (intro op_loop_exit) auto
  then show ?case using tx_done_Nil [OF Nil(3)] by auto
next
  case (Cons nd fs)
  obtain n d where nd: "nd = (n, d)" by fastforce
  obtain c1 s1 where 1: "(op_turn (stop_flag C) (txcnt_turn L C isdir))\<^sup>*\<^sup>* (c, s) (c1, s1)"
    "todo (frame s1) = Some fs" "tx_done c [d] c1"
    using txcnt_file [OF Cons(2) _ Cons(4,5,6), of s n d fs] Cons(3) nd by blast
  have c1: "tc_st c1 = TxNextfile" "tc_in c1 = o1" "fcom_file_cominfo_flags_i (tc_cmd c1) = fl"
    using 1(3) Cons(5,6) by (simp_all add: tx_done_def)
  obtain c' s' where "op_loop (stop_flag C) (txcnt_turn L C isdir) c1 s1 = Some ((txcnt_final_stats c', 0), s')"
    "tx_done c1 (map snd fs) c'"
    using Cons(1) [OF Cons(2) 1(2) c1] by blast
  then show ?case using op_loop_turns [OF 1(1)] tx_done_Cons [OF 1(3)] nd by auto
qed

end

section \<open>Properties\<close>

text \<open>C21. Counting the input files of a command on a readable disk: whatever pieces the reads deliver, the
  operation ends with code 0, prints for every file the number of its bytes, lines and empty lines, and
  its totals are the sums over the files.\<close>

theorem textcount_counts:
  assumes "ffstr_ok L" and "disk_todo sys content disk isdir lib names cm fl (obj_frame disk (tc_in c) s) = Some fs"
    and "tc_st c = TxNextfile" and "fcom_file_cominfo_flags_i (tc_cmd c) = fl"
    and "tc_log c = []" and "tc_f c = 0" and "tc_all c = txcnt_f_clear"
  shows "\<exists>c' s'. op_loop (stop_flag (core_of sys lib cm mk)) (txcnt_turn L (core_of sys lib cm mk) isdir) c s =
      Some ((txcnt_final_stats c', 0), s') \<and>
    tc_f c' = length fs \<and> map fst (tc_log c') = map (stat_of \<circ> snd) fs \<and>
    tx_sz (tc_all c') = (\<Sum>(n, d) \<leftarrow> fs. length d) \<and> tx_ln (tc_all c') = (\<Sum>(n, d) \<leftarrow> fs. length (text_lines d)) \<and>
    tx_ln_empty (tc_all c') = (\<Sum>(n, d) \<leftarrow> fs. length (filter (\<lambda>l. l = []) (text_lines d)))"
proof -
  have *: "(\<lambda>(n :: bytes, d). g d) = (\<lambda>x. g (snd x))" for g :: "bytes \<Rightarrow> nat" by auto
  obtain c' s' where "op_loop (stop_flag (core_of sys lib cm mk)) (txcnt_turn L (core_of sys lib cm mk) isdir) c s =
      Some ((txcnt_final_stats c', 0), s')" "tx_done c (map snd fs) c'"
    using disk.txcnt_files [OF assms(1-3) refl assms(4), of mk] by blast
  then show ?thesis using assms(5-7)
    by (intro exI [of _ c'] exI [of _ s']) (simp add: tx_done_def txcnt_f_clear_def * o_def)
qed

definition demo_texts :: "(bytes \<times> bytes) list" where
  "demo_texts = [(''a.txt'', ''one'' @ [CHR 0x0A, CHR 0x0A] @ ''three''), (''b.txt'', [])]"

theorem textcount_counts_witness:
  "\<exists>c s c' s'. txcnt_create (core_of disk_sys cursor_lib 0 (\<lambda>_. disk_obj)) (plain_info (map fst demo_texts)) (disk_com demo_texts) = Some (c, s) \<and>
    op_loop (stop_flag (core_of disk_sys cursor_lib 0 (\<lambda>_. disk_obj))) (txcnt_turn ref_strlib (core_of disk_sys cursor_lib 0 (\<lambda>_. disk_obj)) (\<lambda>i. False)) c s =
      Some ((txcnt_final_stats c', 0), s') \<and> tc_f c' = 2 \<and> tx_sz (tc_all c') = 10 \<and> tx_ln (tc_all c') = 3 \<and> tx_ln_empty (tc_all c') = 1"
proof -
  let ?C = "core_of disk_sys cursor_lib 0 (\<lambda>_. disk_obj)"
  obtain c s where cr: "txcnt_create ?C (plain_info (map fst demo_texts)) (disk_com demo_texts) = Some (c, s)"
    and c: "tc_st c = TxNextfile" "fcom_file_cominfo_flags_i (tc_cmd c) = FCOM_FILE_READ" "tc_log c = []" "tc_f c = 0"
      "tc_all c = txcnt_f_clear" "tc_in c = 1"
    and s: "cmd_at s = cmd_at (disk_com demo_texts)" "\<not> wo_stop (world s)" "fst (wo_sys (world s)) = demo_texts"
      "wo_objs (world s) 1 = disk_obj"
    by (simp add: txcnt_create_def core_of_def plain_info_def disk_com_def fcom_file_cominfo_flags_i_def FCOM_FILE_READ_def)
  have "disk_todo disk_sys (\<lambda>fd w. snd w) (\<lambda>w. map_of (fst w)) (\<lambda>i. False) cursor_lib cursor_names 0 FCOM_FILE_READ
      (obj_frame (\<lambda>w. map_of (fst w)) (tc_in c) s) = Some demo_texts"
    unfolding c(6) by (rule disk_frame_todo) (use s in \<open>simp_all add: demo_texts_def\<close>)
  from textcount_counts [OF ref_strlib_ok this c(1) c(2-5), of "\<lambda>_. disk_obj"]
  obtain c' s' where "op_loop (stop_flag ?C) (txcnt_turn ref_strlib ?C (\<lambda>i. False)) c s = Some ((txcnt_final_stats c', 0), s')"
    "tc_f c' = 2" "tx_sz (tc_all c') = 10" "tx_ln (tc_all c') = 3" "tx_ln_empty (tc_all c') = 1"
    by (auto simp: demo_texts_def text_lines_def)
  with cr show ?thesis by blast
qed

text \<open>C22. The printed percentage of non-empty lines is right as long as a hundred times their number fits in
  32 bits, and then it is at most 100.\<close>

theorem txcnt_perc_exact:
  assumes "tx_ln_empty f \<le> tx_ln f" and "100 * (tx_ln f - tx_ln_empty f) < 2 ^ 32"
  shows "unat (txcnt_perc f) = 100 * (tx_ln f - tx_ln_empty f) div tx_ln f \<and> unat (txcnt_perc f) \<le> 100"
proof (cases "tx_ln f = 0")
  case True
  then show ?thesis by (simp add: txcnt_perc_def)
next
  case False
  let ?n = "tx_ln f - tx_ln_empty f"
  have "unat (txcnt_nonempty f * 100) = 100 * ?n"
    using assms(2) by (simp add: txcnt_nonempty_def unat_word_ariths unat_of_nat take_bit_nat_eq_self mult.commute take_bit_eq_mod)
  moreover have le: "100 * ?n div tx_ln f \<le> 100"
    using False by (metis diff_le_self div_le_mono div_mult_self_is_m mult_le_mono2 not_gr_zero)
  ultimately show ?thesis
    using False by (simp add: txcnt_perc_def unat_of_nat take_bit_eq_mod)
qed

theorem txcnt_perc_exact_witness:
  "unat (txcnt_perc \<lparr>tx_sz = 10, tx_ln = 3, tx_ln_empty = 1, tx_b_ln = 0, tx_b_ln_max = 5\<rparr>) = 66"
  using txcnt_perc_exact [of "\<lparr>tx_sz = 10, tx_ln = 3, tx_ln_empty = 1, tx_b_ln = 0, tx_b_ln_max = 5\<rparr>"] by simp

end
