(* ===== verification/Md5Sum.thy ===== *)
theory Md5Sum
  imports Prelude
begin

text \<open>
  The checksum files of \<open>src/util/md5sum.h\<close>: one line \<open>SUM *NAME\<close> per file. The hexadecimal
  conversion and the search for one of several characters are ffbase's.
\<close>

section \<open>The library\<close>

text \<open>
  \<open>ffs_tohex\<close> converts pairs of hexadecimal digits (\<^const>\<open>None\<close>: another character is met), the
  format \<open>%*xb\<close> prints bytes as such pairs; \<open>ffstr_findany\<close> finds the first character of a set.
\<close>

record hexlib =
  hex_out :: "bytes \<Rightarrow> bytes"
  hex_in :: "bytes \<Rightarrow> bytes option"
  find_any :: "bytes \<Rightarrow> char set \<Rightarrow> nat option"

definition hexlib_ok :: "hexlib \<Rightarrow> bool" where
  "hexlib_ok H \<longleftrightarrow>
     (\<forall>b. length (hex_out H b) = 2 * length b) \<and> (\<forall>b. hex_in H (hex_out H b) = Some b) \<and>
     (\<forall>s cs. find_any H s cs =
        (if \<exists>x \<in> set s. x \<in> cs then Some (length (takeWhile (\<lambda>x. x \<notin> cs) s)) else None))"

section \<open>Reading a line\<close>

text \<open>
  \<open>md5sum_read\<close>: whether the line is bad, the sum, the name and the rest of the data. The place
  of the newline computed for a line whose beginning is bad is overwritten by the search in the
  text after the first 34 characters; it is kept here as \<open>r1\<close>. A carriage return at the very end is
  followed by a read of one byte past the data, taken here as not a newline.
\<close>

definition md5sum_read :: "hexlib \<Rightarrow> bytes \<Rightarrow> bool \<times> bytes option \<times> bytes option \<times> bytes" where
  "md5sum_read H data =
     (if length data < 32 + 3 then (True, None, None, [])
      else
        (let sum = hex_in H (take 32 data);
             e1 = (\<not> (sum \<noteq> None \<and> length (the sum) = 16 \<and> data ! 32 = CHR '' '' \<and>
                      (data ! 33 = CHR '' '' \<or> data ! 33 = CHR ''*'')));
             s = drop (32 + 2) data;
             r2 = find_any H s {CHR 0x00, CHR 0x0D, CHR 0x0A};
             nul = (case r2 of None \<Rightarrow> False | Some i \<Rightarrow> s ! i = CHR 0x00);
             e = (e1 \<or> nul);
             r = (if nul then find_any H s {CHR 0x0D, CHR 0x0A} else r2)
         in case r of
              None \<Rightarrow> (e, sum, Some s, drop (length s) s)
            | Some i \<Rightarrow>
                (let j = (if s ! i = CHR 0x0D then i + 1 else i);
                     k = (if j < length s \<and> s ! j = CHR 0x0A then j + 1 else j)
                 in (e, sum, Some (take i s), drop (32 + 2 + k) data))))"

lemma md5sum_read_shorter: "data \<noteq> [] \<Longrightarrow> md5sum_read H data = (e, m, n, rest) \<Longrightarrow> length rest < length data"
  by (auto simp: md5sum_read_def Let_def split: if_splits option.splits)

section \<open>The lines the program writes\<close>

definition md5_line :: "hexlib \<Rightarrow> bytes \<times> bytes \<Rightarrow> bytes" where
  "md5_line H e = hex_out H (fst e) @ '' *'' @ snd e @ [CHR 0x0A]"

definition md5_entry :: "bytes \<times> bytes \<Rightarrow> bool" where
  "md5_entry e \<longleftrightarrow> length (fst e) = 16 \<and> set (snd e) \<inter> {CHR 0x00, CHR 0x0D, CHR 0x0A} = {}"

lemma md5sum_read_line:
  assumes H: "hexlib_ok H" and e: "md5_entry e"
  shows "md5sum_read H (md5_line H e @ rest) = (False, Some (fst e), Some (snd e), rest)"
proof -
  obtain sum n where en: "e = (sum, n)" by fastforce
  have l: "length (hex_out H sum) = 32" "length sum = 16" and n: "set n \<inter> {CHR 0x00, CHR 0x0D, CHR 0x0A} = {}"
    using H e by (auto simp: hexlib_ok_def md5_entry_def en)
  define data where "data = md5_line H e @ rest"
  have d: "data = hex_out H sum @ '' *'' @ n @ CHR 0x0A # rest" by (simp add: data_def md5_line_def en)
  have h: "hex_in H (take 32 data) = Some sum" using H l by (simp add: d hexlib_ok_def)
  have c: "data ! 32 = CHR '' ''" "data ! 33 = CHR ''*''" using l by (simp_all add: d nth_append)
  have s: "drop 34 data = n @ CHR 0x0A # rest" using l by (simp add: d)
  have tw: "takeWhile (\<lambda>x. x \<notin> {CHR 0x00, CHR 0x0D, CHR 0x0A}) (n @ CHR 0x0A # rest) = n"
    using n by (subst takeWhile_append2) auto
  have "find_any H (n @ CHR 0x0A # rest) cs =
      (if \<exists>x \<in> set (n @ CHR 0x0A # rest). x \<in> cs then Some (length (takeWhile (\<lambda>x. x \<notin> cs) (n @ CHR 0x0A # rest))) else None)" for cs
    using H unfolding hexlib_ok_def by blast
  then have f: "find_any H (n @ CHR 0x0A # rest) {CHR 0x00, CHR 0x0D, CHR 0x0A} = Some (length n)"
    using tw by simp
  have "drop (34 + (length n + 1)) data = drop (length n + 1) (drop 34 data)" by (simp add: add.commute)
  then have "drop (34 + (length n + 1)) data = rest" using s by simp
  moreover have "35 \<le> length data" using l by (simp add: d)
  ultimately show ?thesis using h c l f unfolding data_def [symmetric]
    by (simp add: md5sum_read_def s Let_def en nth_append)
qed

end
