(* ===== verification/Md5.thy ===== *)
theory Md5
  imports Md5Sum CoreOf
begin

text \<open>
  The operation \<open>md5\<close> (\<open>src/ops/md5.c\<close>): print the checksums of the input files, reuse those of
  an existing checksum file, or verify checksum files. The hash function is the interface
  \<open>fcom_hash\<close>; reading a whole file and normalising a path are ffsys's.
\<close>

section \<open>Data\<close>

text \<open>\<open>fcom_hash\<close>: \<open>create\<close>, \<open>update\<close> and \<open>fin\<close> of a hash object \<open>'h\<close>.\<close>

record 'h hashif =
  h_create :: 'h
  h_update :: "'h \<Rightarrow> bytes \<Rightarrow> 'h"
  h_fin :: "'h \<Rightarrow> bytes"

record ('s, 'i, 'h) md5env =
  me_core :: "('s, 'i) coreif"
  me_isdir :: "'i \<Rightarrow> bool"
  me_hex :: hexlib
  me_hash :: "'h hashif"
  me_readwhole :: "bytes \<Rightarrow> nat \<Rightarrow> ('s, bytes option) act"
  me_normalize :: "bytes \<Rightarrow> bytes"
  me_info_zero :: 'i

datatype md5_state = MdIn | MdMd5open | MdRead | MdVerifyOpen | MdVerifyNext | MdVerifyFileOpen | MdVerifyFileRead

text \<open>The codes the steps return: 0, \<open>'done'\<close>, \<open>'skip'\<close>, \<open>'erro'\<close> and \<open>-1\<close>.\<close>

datatype md5_ret = MrOk | MrDone | MrSkip | MrErro | MrMinus

record ('k, 'h) md5 =
  md_state :: md5_state
  md_cmd :: "'k cominfo"
  md_iname :: bytes
  md_data :: bytes
  md_in :: nat
  md_out :: nat
  md_hash :: "'h option"
  md_opened :: bool
  md_chksum :: bytes
  md_current :: bytes
  md_name :: bytes
  md_processed :: nat
  md_exist :: nat
  md_err_format :: nat
  md_err_io :: nat
  md_err_verify :: nat
  md_map :: "(bytes \<times> bytes) list"
  md_verify :: bool
  md_update_fn :: "bytes option"

section \<open>Steps\<close>

text \<open>The map of \<open>md5_update_read\<close>, the first entry of a name first.\<close>

function md5_map :: "hexlib \<Rightarrow> (bytes \<Rightarrow> bytes) \<Rightarrow> bytes \<Rightarrow> (bytes \<times> bytes) list" where
  "md5_map H norm s =
     (if s = [] then []
      else (case md5sum_read H s of (e, sm, name, rest) \<Rightarrow>
        (if e then [] else [(norm (the name), the sm)]) @ md5_map H norm rest))"
  by pat_completeness auto
termination
  by (relation "measure (\<lambda>(H, norm, s). length s)") (auto intro: md5sum_read_shorter [OF _ sym])

declare md5_map.simps [simp del]

definition md5_update_read :: "('s, 'i, 'h) md5env \<Rightarrow> ('k, 'h) md5 \<Rightarrow> ('s, md5_ret \<times> ('k, 'h) md5) act" where
  "md5_update_read E m s =
     do { (d, s) \<leftarrow> me_readwhole E (the (md_update_fn m)) (100 * 1024 * 1024) s;
          case d of
            None \<Rightarrow> Some ((MrErro, m), s)
          | Some v \<Rightarrow> Some ((MrOk, m\<lparr>md_map := md5_map (me_hex E) (me_normalize E) v\<rparr>), s) }"

definition md5_open :: "('s, 'i, 'h) md5env \<Rightarrow> ('k, 'h) md5 \<Rightarrow> ('s, md5_ret \<times> ('k, 'h) md5) act" where
  "md5_open E m0 s =
     (let C = me_core E in
      do { (r, s) \<leftarrow> com_input_next C 0 s;
           case r of
             RNomore \<Rightarrow> Some ((MrDone, m0), s)
           | RErr \<Rightarrow> Some ((MrErro, m0), s)
           | ROk name _ \<Rightarrow>
               (let m = m0\<lparr>md_iname := name\<rparr> in
                do { (r, s) \<leftarrow> fi_open C (md_in m) name (fcom_file_cominfo_flags_i (md_cmd m) OR FCOM_FILE_READ) s;
                     if r = FErr then Some ((MrErro, m), s) else
                     do { ((r, fi), s) \<leftarrow> fi_info C (md_in m) s;
                          if r = FErr then Some ((MrErro, m), s) else
                          do { (ok, s) \<leftarrow> com_input_allowed C name (if me_isdir E (the fi) then IaDir else IaFile) s;
                               if \<not> ok then Some ((MrSkip, m), s)
                               else if me_isdir E (the fi) then
                                 do { (fd, s) \<leftarrow> fi_fd C (md_in m) FCOM_FILE_ACQUIRE s;
                                      (_, s) \<leftarrow> com_input_dir C fd s;
                                      Some ((MrSkip, m), s) }
                               else
                                 do { (r, s) \<leftarrow> (if md_opened m then Some (FOk, s)
                                        else fi_open C (md_out m) (ci_output (md_cmd m))
                                               (fcom_file_cominfo_flags_o (md_cmd m) OR FCOM_FILE_WRITE OR FCOM_FILE_NOCACHE) s);
                                      let m = m\<lparr>md_opened := True\<rparr>;
                                          it = (if md_update_fn m = None then None else map_of (md_map m) name)
                                      in if r = FErr then Some ((MrErro, m), s)
                                         else (case it of
                                             None \<Rightarrow> Some ((MrOk, m\<lparr>md_hash := Some (h_create (me_hash E))\<rparr>), s)
                                           | Some sm \<Rightarrow>
                                               do { (r, s) \<leftarrow> fi_write C (md_out m) (md5_line (me_hex E) (sm, name)) None s;
                                                    if r = FErr then Some ((MrErro, m), s)
                                                    else Some ((MrSkip, m\<lparr>md_exist := md_exist m + 1\<rparr>), s) }) } } } }) })"

text \<open>\<open>md5_process\<close> and \<open>md5_file_process\<close> differ in the code for a failed read.\<close>

definition md5_take :: "md5_ret \<Rightarrow> ('s, 'i, 'h) md5env \<Rightarrow> ('k, 'h) md5 \<Rightarrow> ('s, md5_ret \<times> ('k, 'h) md5) act" where
  "md5_take bad E m s =
     do { ((r, d), s) \<leftarrow> fi_read (me_core E) (md_in m) None s;
          if r = FErr then Some ((bad, m), s)
          else if r = FEof then Some ((MrDone, m), s)
          else (let m' = (if r = FOk then m\<lparr>md_data := d\<rparr> else m)
                in Some ((MrOk, m'\<lparr>md_hash := Some (h_update (me_hash E) (the (md_hash m')) (md_data m'))\<rparr>), s)) }"

definition md5_process :: "('s, 'i, 'h) md5env \<Rightarrow> ('k, 'h) md5 \<Rightarrow> ('s, md5_ret \<times> ('k, 'h) md5) act" where
  "md5_process = md5_take MrMinus"

definition md5_result :: "('s, 'i, 'h) md5env \<Rightarrow> ('k, 'h) md5 \<Rightarrow> ('s, md5_ret \<times> ('k, 'h) md5) act" where
  "md5_result E m s =
     (let sm = h_fin (me_hash E) (the (md_hash m)) in
      do { (r, s) \<leftarrow> fi_write (me_core E) (md_out m) (md5_line (me_hex E) (sm, md_iname m)) None s;
           if r = FErr then Some ((MrMinus, m), s) else Some ((MrOk, m\<lparr>md_hash := None\<rparr>), s) })"

definition md5_chksum_file_read :: "('s, 'i, 'h) md5env \<Rightarrow> ('k, 'h) md5 \<Rightarrow> ('s, md5_ret \<times> ('k, 'h) md5) act" where
  "md5_chksum_file_read E m0 s =
     do { (r, s) \<leftarrow> com_input_next (me_core E) 0 s;
          case r of
            RNomore \<Rightarrow> Some ((MrDone, m0), s)
          | RErr \<Rightarrow> Some ((MrErro, m0), s)
          | ROk name _ \<Rightarrow>
              (let m = m0\<lparr>md_iname := name\<rparr> in
               do { (d, s) \<leftarrow> me_readwhole E name (100 * 1024 * 1024) s;
                    case d of None \<Rightarrow> Some ((MrSkip, m), s) | Some v \<Rightarrow> Some ((MrOk, m\<lparr>md_current := v\<rparr>), s) }) }"

definition md5_chksum_next :: "('s, 'i, 'h) md5env \<Rightarrow> ('k, 'h) md5 \<Rightarrow> md5_ret \<times> ('k, 'h) md5" where
  "md5_chksum_next E m =
     (if md_current m = [] then (MrDone, m)
      else (case md5sum_read (me_hex E) (md_current m) of (e, sm, name, rest) \<Rightarrow>
        (let m1 = m\<lparr>md_current := rest, md_chksum := (case sm of None \<Rightarrow> md_chksum m | Some x \<Rightarrow> x),
                    md_name := (case name of None \<Rightarrow> md_name m | Some x \<Rightarrow> x)\<rparr>
         in (if e then MrErro else MrOk, m1))))"

text \<open>The information \<open>md5_file_open\<close> tests for a directory is never filled in.\<close>

definition md5_file_open :: "('s, 'i, 'h) md5env \<Rightarrow> ('k, 'h) md5 \<Rightarrow> ('s, md5_ret \<times> ('k, 'h) md5) act" where
  "md5_file_open E m s =
     do { (r, s) \<leftarrow> fi_open (me_core E) (md_in m) (md_name m) (fcom_file_cominfo_flags_i (md_cmd m) OR FCOM_FILE_READ) s;
          if r = FErr \<or> me_isdir E (me_info_zero E) then Some ((MrErro, m), s)
          else Some ((MrOk, m\<lparr>md_hash := Some (h_create (me_hash E))\<rparr>), s) }"

definition md5_file_process :: "('s, 'i, 'h) md5env \<Rightarrow> ('k, 'h) md5 \<Rightarrow> ('s, md5_ret \<times> ('k, 'h) md5) act" where
  "md5_file_process = md5_take MrErro"

text \<open>\<open>md5_file_verify\<close>: whether the sums differ.\<close>

definition md5_file_verify :: "('s, 'i, 'h) md5env \<Rightarrow> ('k, 'h) md5 \<Rightarrow> bool \<times> ('k, 'h) md5" where
  "md5_file_verify E m = (h_fin (me_hash E) (the (md_hash m)) \<noteq> md_chksum m, m\<lparr>md_hash := None\<rparr>)"

section \<open>The operation\<close>

definition md5_create :: "('s, 'i, 'h) md5env \<Rightarrow> bool \<Rightarrow> bytes option \<Rightarrow> 'k cominfo \<Rightarrow> ('s, ('k, 'h) md5) act" where
  "md5_create E verify upd cmd0 s =
     (let cmd = (if ci_output cmd0 = [] then cmd0\<lparr>ci_stdout := True\<rparr> else cmd0) in
      do { (i, s) \<leftarrow> fi_create (me_core E) (ci_buffer_size cmd) s;
           (o1, s) \<leftarrow> fi_create (me_core E) (ci_buffer_size cmd) s;
           Some (\<lparr>md_state = MdIn, md_cmd = cmd, md_iname = [], md_data = [], md_in = i, md_out = o1, md_hash = None,
                  md_opened = False, md_chksum = replicate 16 (CHR 0x00), md_current = [], md_name = [],
                  md_processed = 0, md_exist = 0, md_err_format = 0, md_err_io = 0, md_err_verify = 0,
                  md_map = [], md_verify = verify, md_update_fn = upd\<rparr>, s) })"

text \<open>The states of \<open>md5_run\<close>; a state whose code runs on into the next one calls it.\<close>

definition st_read :: "('s, 'i, 'h) md5env \<Rightarrow> ('k, 'h) md5 \<times> int \<Rightarrow> ('s, (('k, 'h) md5 \<times> int) + (('k, 'h) md5 \<times> int) \<times> int) act" where
  "st_read E x s =
     (case x of (m, err) \<Rightarrow>
        do { ((r, m), s) \<leftarrow> md5_process E m s;
             case r of
               MrDone \<Rightarrow>
                 do { ((q, m), s) \<leftarrow> md5_result E m s;
                      if q = MrMinus then Some (Inr ((m, err), 1), s)
                      else Some (Inl (m\<lparr>md_processed := md_processed m + 1, md_state := MdIn\<rparr>, err), s) }
             | MrErro \<Rightarrow> Some (Inl (m\<lparr>md_state := MdIn\<rparr>, 1), s)
             | _ \<Rightarrow> Some (Inl (m, err), s) })"

definition st_in :: "('s, 'i, 'h) md5env \<Rightarrow> ('k, 'h) md5 \<times> int \<Rightarrow> ('s, (('k, 'h) md5 \<times> int) + (('k, 'h) md5 \<times> int) \<times> int) act" where
  "st_in E x s =
     (case x of (m, err) \<Rightarrow>
        do { ((r, m), s) \<leftarrow> md5_open E m s;
             case r of
               MrDone \<Rightarrow> Some (Inr ((m, err), err), s)
             | MrSkip \<Rightarrow> Some (Inl (m, err), s)
             | MrErro \<Rightarrow> Some (Inl (m, 1), s)
             | _ \<Rightarrow> st_read E (m\<lparr>md_state := MdRead\<rparr>, err) s })"

definition st_md5open :: "('s, 'i, 'h) md5env \<Rightarrow> ('k, 'h) md5 \<times> int \<Rightarrow> ('s, (('k, 'h) md5 \<times> int) + (('k, 'h) md5 \<times> int) \<times> int) act" where
  "st_md5open E x s =
     (case x of (m, err) \<Rightarrow>
        do { ((r, m), s) \<leftarrow> md5_update_read E m s;
             if r = MrErro then Some (Inr ((m, err), 1), s) else st_in E (m\<lparr>md_state := MdIn\<rparr>, err) s })"

definition st_verify_file_read :: "('s, 'i, 'h) md5env \<Rightarrow> ('k, 'h) md5 \<times> int \<Rightarrow> ('s, (('k, 'h) md5 \<times> int) + (('k, 'h) md5 \<times> int) \<times> int) act" where
  "st_verify_file_read E x s =
     (case x of (m, err) \<Rightarrow>
        do { ((r, m), s) \<leftarrow> md5_file_process E m s;
             case r of
               MrOk \<Rightarrow> Some (Inl (m, err), s)
             | MrDone \<Rightarrow>
                 (case md5_file_verify E (m\<lparr>md_processed := md_processed m + 1\<rparr>) of (bad, m) \<Rightarrow>
                    Some (Inl (m\<lparr>md_err_verify := md_err_verify m + (if bad then 1 else 0), md_state := MdVerifyNext\<rparr>, err), s))
             | MrErro \<Rightarrow> Some (Inl (m\<lparr>md_err_io := md_err_io m + 1, md_state := MdVerifyNext\<rparr>, err), s)
             | _ \<Rightarrow> Some (Inl (m\<lparr>md_state := MdVerifyNext\<rparr>, err), s) })"

definition st_verify_file_open :: "('s, 'i, 'h) md5env \<Rightarrow> ('k, 'h) md5 \<times> int \<Rightarrow> ('s, (('k, 'h) md5 \<times> int) + (('k, 'h) md5 \<times> int) \<times> int) act" where
  "st_verify_file_open E x s =
     (case x of (m, err) \<Rightarrow>
        do { ((r, m), s) \<leftarrow> md5_file_open E m s;
             if r = MrErro then Some (Inl (m\<lparr>md_err_io := md_err_io m + 1, md_state := MdVerifyNext\<rparr>, err), s)
             else st_verify_file_read E (m\<lparr>md_state := MdVerifyFileRead\<rparr>, err) s })"

definition st_verify_next :: "('s, 'i, 'h) md5env \<Rightarrow> ('k, 'h) md5 \<times> int \<Rightarrow> ('s, (('k, 'h) md5 \<times> int) + (('k, 'h) md5 \<times> int) \<times> int) act" where
  "st_verify_next E x s =
     (case x of (m, err) \<Rightarrow>
        (case md5_chksum_next E m of
           (MrDone, m) \<Rightarrow> Some (Inl (m\<lparr>md_state := MdVerifyOpen\<rparr>, err), s)
         | (MrErro, m) \<Rightarrow> Some (Inl (m\<lparr>md_err_format := md_err_format m + 1\<rparr>, err), s)
         | (_, m) \<Rightarrow> st_verify_file_open E (m\<lparr>md_state := MdVerifyFileOpen\<rparr>, err) s))"

definition st_verify_open :: "('s, 'i, 'h) md5env \<Rightarrow> ('k, 'h) md5 \<times> int \<Rightarrow> ('s, (('k, 'h) md5 \<times> int) + (('k, 'h) md5 \<times> int) \<times> int) act" where
  "st_verify_open E x s =
     (case x of (m, err) \<Rightarrow>
        do { ((r, m), s) \<leftarrow> md5_chksum_file_read E m s;
             case r of
               MrSkip \<Rightarrow> Some (Inl (m\<lparr>md_err_io := md_err_io m + 1\<rparr>, err), s)
             | MrDone \<Rightarrow>
                 Some (Inr ((m, err), if md_err_format m = 0 \<and> md_err_io m = 0 \<and> md_err_verify m = 0 then 0 else 1), s)
             | MrErro \<Rightarrow> Some (Inr ((m, err), 1), s)
             | _ \<Rightarrow> st_verify_next E (m\<lparr>md_state := MdVerifyNext\<rparr>, err) s })"

definition md5_turn :: "('s, 'i, 'h) md5env \<Rightarrow> ('k, 'h) md5 \<times> int \<Rightarrow> ('s, (('k, 'h) md5 \<times> int) + (('k, 'h) md5 \<times> int) \<times> int) act" where
  "md5_turn E x s =
     (case md_state (fst x) of
        MdMd5open \<Rightarrow> st_md5open E x s | MdIn \<Rightarrow> st_in E x s | MdRead \<Rightarrow> st_read E x s
      | MdVerifyOpen \<Rightarrow> st_verify_open E x s | MdVerifyNext \<Rightarrow> st_verify_next E x s
      | MdVerifyFileOpen \<Rightarrow> st_verify_file_open E x s | MdVerifyFileRead \<Rightarrow> st_verify_file_read E x s)"

definition md5_start :: "('k, 'h) md5 \<Rightarrow> ('k, 'h) md5" where
  "md5_start m =
     (if md_verify m then m\<lparr>md_state := MdVerifyOpen\<rparr>
      else if md_update_fn m \<noteq> None then m\<lparr>md_state := MdMd5open\<rparr> else m)"

definition md5_close :: "('s, 'i, 'h) md5env \<Rightarrow> ('k, 'h) md5 \<Rightarrow> ('s, unit) act" where
  "md5_close E m s =
     do { (_, s) \<leftarrow> fi_destroy (me_core E) (md_in m) s;
          (_, s) \<leftarrow> fi_close (me_core E) (md_out m) s;
          fi_destroy (me_core E) (md_out m) s }"

definition md5_run :: "('s, 'i, 'h) md5env \<Rightarrow> ('k, 'h) md5 \<Rightarrow> ('s, int \<times> ('k, 'h) md5) act" where
  "md5_run E m s =
     do { (((m, err), rc), s) \<leftarrow> op_loop (stop_flag (me_core E)) (md5_turn E) (md5_start m, 0) s;
          (_, s) \<leftarrow> md5_close E m s;
          Some ((rc, m), s) }"

end
