(* ===== verification/Copy.thy ===== *)
theory Copy
  imports Md5 PathUtil
begin

text \<open>
  The operation \<open>copy\<close> (\<open>src/fs/copy.c\<close>, \<open>copy-output.h\<close>, \<open>copy-crypt.h\<close>, \<open>copy-verify.h\<close>): the loop over the
  input files, the choice of the output name, the temporary file and its renaming, encryption and
  verification. Progress messages are left out. What ffsys does outside of file objects, the
  ciphers and the operation \<open>trash\<close> the code starts for an old target are fields of \<open>copyenv\<close>.
\<close>

section \<open>Data\<close>

text \<open>\<open>fcom_aes\<close>: \<open>process\<close> gives the transformed bytes and the vector for the next call.\<close>

record 'a aesif =
  aes_create :: "bool \<Rightarrow> bytes \<Rightarrow> 'a option"
  aes_process :: "'a \<Rightarrow> bytes \<Rightarrow> bytes \<Rightarrow> (bytes \<times> bytes) option"

text \<open>
  \<open>ce_info_path\<close>, \<open>ce_readlink\<close>, \<open>ce_mtime_path\<close> and \<open>ce_rename\<close> are ffsys's calls on paths;
  \<open>ce_trash\<close> is \<open>com->create\<close> and \<open>com->run\<close> of the operation \<open>trash\<close> on one file;
  \<open>ce_splitname\<close> the last component \<open>ffpath_splitpath\<close> finds, as its position and length.
\<close>

record ('s, 'i, 'h, 'a) copyenv =
  ce_core :: "('s, 'i) coreif"
  ce_isdir :: "'i \<Rightarrow> bool"
  ce_islink :: "'i \<Rightarrow> bool"
  ce_size :: "'i \<Rightarrow> nat"
  ce_mtime :: "'i \<Rightarrow> fftime"
  ce_attr :: "'i \<Rightarrow> 32 word"
  ce_info_path :: "bytes \<Rightarrow> ('s, 'i option) act"
  ce_readlink :: "bytes \<Rightarrow> ('s, bytes option) act"
  ce_mtime_path :: "bytes \<Rightarrow> fftime \<Rightarrow> ('s, bool) act"
  ce_rename :: "bytes \<Rightarrow> bytes \<Rightarrow> ('s, bool) act"
  ce_trash :: "bytes \<Rightarrow> bool \<Rightarrow> nat \<Rightarrow> ('s, unit) act"
  ce_splitname :: "bytes \<Rightarrow> nat \<times> nat"
  ce_normalize :: "bytes \<Rightarrow> bytes"
  ce_md5 :: "'h hashif option"
  ce_sha256 :: "'h hashif option"
  ce_aes :: "bool \<Rightarrow> 'a aesif option"
  ce_aes_cap :: nat
  ce_random :: "('s, 32 word) act"
  ce_stdout :: "bytes \<Rightarrow> ('s, unit) act"
  ce_hex :: hexlib
  ce_info_zero :: 'i

text \<open>\<open>fffileinfo_mtime1\<close>: the modification time in seconds since the year 1.\<close>

definition FFTIME_1970_SECONDS :: int where "FFTIME_1970_SECONDS = 62135596800"

definition ce_mtime1 :: "('s, 'i, 'h, 'a) copyenv \<Rightarrow> 'i \<Rightarrow> fftime" where
  "ce_mtime1 E i = (fst (ce_mtime E i) + FFTIME_1970_SECONDS, snd (ce_mtime E i))"

datatype copy_st = CsSrc | CsOpenOut | CsRead | CsCrypt | CsWrite | CsRdDone | CsVerify | CsDone

text \<open>\<open>aesif option\<close> and the like are the pointers \<open>cr.aes\<close>, \<open>vf.md5\<close>: not loaded is \<^const>\<open>None\<close>.\<close>

record ('k, 'i, 'h, 'a) copy =
  cp_st :: copy_st
  cp_data :: bytes
  cp_cmd :: "'k cominfo"
  cp_input :: nat
  cp_name :: bytes
  cp_iname :: bytes
  cp_fi :: 'i
  cp_in_off :: nat
  cp_nfiles :: nat
  cp_basename :: bytes
  cr_obj :: "'a option"
  cr_aes :: "'a aesif option"
  cr_iv :: bytes
  cr_in :: bytes
  cr_sha :: "'h hashif option"
  cr_iv_out :: bool
  cr_iv_in :: bool
  co_state :: nat
  co_f :: nat
  co_total :: nat
  co_off :: nat
  co_name :: bytes
  co_tmp :: "bytes option"
  co_fi :: 'i
  co_del :: bool
  vf_md5 :: "'h hashif option"
  vf_obj :: "'h option"
  vf_sum :: bytes
  cp_encrypt :: bytes
  cp_decrypt :: bytes
  cp_verify :: bool
  cp_print_md5 :: bool
  cp_preserve_date :: bool
  cp_rename_source :: bool
  cp_replace_date :: bool
  cp_update :: bool
  cp_write_into :: bool

type_synonym ('s, 'k, 'i, 'h, 'a) copy_step = "('k, 'i, 'h, 'a) copy \<Rightarrow> ('s, bool \<times> ('k, 'i, 'h, 'a) copy) act"

datatype copy_ret = CrOk | CrNext | CrDone | CrErro | CrSkip | CrBad | CrAsyn

section \<open>Input\<close>

definition copy_input_next ::
  "('s, 'i, 'h, 'a) copyenv \<Rightarrow> ('k, 'i, 'h, 'a) copy \<Rightarrow> ('s, copy_ret \<times> ('k, 'i, 'h, 'a) copy) act" where
  "copy_input_next E c0 s =
     (let C = ce_core E in
      do { (r, s) \<leftarrow> com_input_next C 0 s;
           case r of
             ROk name base \<Rightarrow>
               (let c = c0\<lparr>cp_name := name, cp_basename := base, cp_nfiles := cp_nfiles c0 + 1, cp_iname := name\<rparr>;
                    flags = FCOM_FILE_READ OR FCOM_FILE_READAHEAD OR FCOM_FILE_INFO_NOFOLLOW OR
                            fcom_file_cominfo_flags_i (cp_cmd c)
                in do { (r, s) \<leftarrow> fi_open C (cp_input c) (cp_iname c) flags s;
                        if r = FErr then Some ((CrErro, c), s) else
                        do { ((r, fi), s) \<leftarrow> fi_info C (cp_input c) s;
                             if r = FErr then Some ((CrErro, c), s) else
                             (let c = c\<lparr>cp_fi := the fi\<rparr>; dir = ce_isdir E (cp_fi c)
                              in do { (ok, s) \<leftarrow> com_input_allowed C (cp_name c) (if dir then IaDir else IaFile) s;
                                      if \<not> ok then Some ((CrNext, c), s)
                                      else if dir \<and> ci_recursive (cp_cmd c) \<noteq> 0 then
                                        do { (fd, s) \<leftarrow> fi_fd C (cp_input c) FCOM_FILE_ACQUIRE s;
                                             (_, s) \<leftarrow> com_input_dir C fd s;
                                             Some ((CrOk, c), s) }
                                      else Some ((CrOk, c), s) }) } })
           | _ \<Rightarrow> Some ((if cp_nfiles c0 = 0 then CrErro else CrDone, c0), s) })"

text \<open>A source that cannot be renamed is reported in the log only.\<close>

definition copy_complete :: "('s, 'i, 'h, 'a) copyenv \<Rightarrow> ('k, 'i, 'h, 'a) copy \<Rightarrow> ('s, unit) act" where
  "copy_complete E c s =
     (if cp_rename_source c
      then do { (_, s) \<leftarrow> ce_rename E (cp_iname c) (cp_iname c @ ''.deleted'') s; Some ((), s) }
      else Some ((), s))"

section \<open>Encryption\<close>

text \<open>\<^const>\<open>True\<close> is success.\<close>

definition crypt_init :: "('s, 'i, 'h, 'a) copyenv \<Rightarrow> ('k, 'i, 'h, 'a) copy \<Rightarrow> bool \<times> ('k, 'i, 'h, 'a) copy" where
  "crypt_init E c =
     (if cp_encrypt c = [] \<and> cp_decrypt c = [] then (True, c)
      else if cp_encrypt c \<noteq> [] \<and> cp_decrypt c \<noteq> [] then (False, c)
      else if ce_sha256 E = None then (False, c\<lparr>cr_sha := None\<rparr>)
      else (let c = c\<lparr>cr_sha := ce_sha256 E, cr_aes := ce_aes E (cp_encrypt c \<noteq> [])\<rparr>
            in (cr_aes c \<noteq> None, c)))"

definition crypt_reset :: "('k, 'i, 'h, 'a) copy \<Rightarrow> ('k, 'i, 'h, 'a) copy" where
  "crypt_reset c = c\<lparr>cr_obj := None\<rparr>"

definition crypt_close :: "('k, 'i, 'h, 'a) copy \<Rightarrow> ('k, 'i, 'h, 'a) copy" where
  "crypt_close c =
     (let c = crypt_reset c
      in c\<lparr>cp_encrypt := replicate (length (cp_encrypt c)) (CHR 0x00),
           cp_decrypt := replicate (length (cp_decrypt c)) (CHR 0x00)\<rparr>)"

definition sha256_hash :: "'h hashif \<Rightarrow> bytes \<Rightarrow> bytes" where
  "sha256_hash h d = h_fin h (h_update h (h_create h) d)"

text \<open>The 4 bytes of a random number, least significant first.\<close>

definition word_bytes :: "32 word \<Rightarrow> bytes" where
  "word_bytes x = map (\<lambda>i. char_of (unat (drop_bit (8 * i) x) mod 256)) [0..<4]"

definition iv_get :: "('s, 'i, 'h, 'a) copyenv \<Rightarrow> ('s, bytes) act" where
  "iv_get E s =
     do { (a, s) \<leftarrow> ce_random E s; (b, s) \<leftarrow> ce_random E s; (c, s) \<leftarrow> ce_random E s; (d, s) \<leftarrow> ce_random E s;
          Some (word_bytes a @ word_bytes b @ word_bytes c @ word_bytes d, s) }"

definition crypt_open :: "('s, 'i, 'h, 'a) copyenv \<Rightarrow> ('s, 'k, 'i, 'h, 'a) copy_step" where
  "crypt_open E c s =
     (case cr_aes c of
        None \<Rightarrow> Some ((True, c), s)
      | Some aes \<Rightarrow>
          (let enc = (cp_encrypt c \<noteq> []);
               key = sha256_hash (the (cr_sha c)) (if enc then cp_encrypt c else cp_decrypt c);
               create = (\<lambda>c. case aes_create aes enc key of None \<Rightarrow> (False, c\<lparr>cr_obj := None\<rparr>) | Some x \<Rightarrow> (True, c\<lparr>cr_obj := Some x\<rparr>))
           in if enc then
                do { (iv, s) \<leftarrow> iv_get E s; Some (create (c\<lparr>cr_iv_out := True, cr_iv := iv\<rparr>), s) }
              else if ce_size E (cp_fi c) < 16 + 1 then Some ((False, c\<lparr>cr_iv_in := True\<rparr>), s)
              else Some (create (c\<lparr>cr_iv_in := True\<rparr>), s)))"

text \<open>
  \<open>crypt_process\<close> works on \<open>cr_in\<close> and delivers into \<open>cp_data\<close>. (The vector is read from the first 16
  bytes of the first piece, however short the piece is.)
\<close>

definition crypt_process :: "('s, 'i, 'h, 'a) copyenv \<Rightarrow> ('k, 'i, 'h, 'a) copy \<Rightarrow> bool \<times> ('k, 'i, 'h, 'a) copy" where
  "crypt_process E c =
     (if cr_iv_out c then (True, c\<lparr>cr_iv_out := False, cp_data := cr_iv c\<rparr>)
      else
        (let c = (if cr_iv_in c then c\<lparr>cr_iv_in := False, cr_iv := take 16 (cr_in c), cr_in := drop 16 (cr_in c)\<rparr> else c);
             n = min (length (cr_in c)) (ce_aes_cap E)
         in case aes_process (the (cr_aes c)) (the (cr_obj c)) (take n (cr_in c)) (cr_iv c) of
              None \<Rightarrow> (False, c)
            | Some (d, iv) \<Rightarrow> (True, c\<lparr>cr_in := drop n (cr_in c), cr_iv := iv, cp_data := d\<rparr>)))"

section \<open>Verification\<close>

definition verify_init :: "('s, 'i, 'h, 'a) copyenv \<Rightarrow> ('k, 'i, 'h, 'a) copy \<Rightarrow> bool \<times> ('k, 'i, 'h, 'a) copy" where
  "verify_init E c =
     (if \<not> (cp_verify c \<or> cp_print_md5 c) then (True, c)
      else if cp_verify c \<and> ci_stdout (cp_cmd c) then (False, c)
      else (ce_md5 E \<noteq> None, c\<lparr>vf_md5 := ce_md5 E\<rparr>))"

definition verify_open :: "('k, 'i, 'h, 'a) copy \<Rightarrow> ('k, 'i, 'h, 'a) copy" where
  "verify_open c =
     (if \<not> (cp_verify c \<or> cp_print_md5 c) then c else c\<lparr>vf_obj := Some (h_create (the (vf_md5 c)))\<rparr>)"

definition verify_reset :: "('k, 'i, 'h, 'a) copy \<Rightarrow> ('k, 'i, 'h, 'a) copy" where
  "verify_reset c = c\<lparr>vf_obj := None\<rparr>"

text \<open>\<^const>\<open>True\<close>: the sums differ.\<close>

definition verify_result :: "('s, 'i, 'h, 'a) copyenv \<Rightarrow> ('k, 'i, 'h, 'a) copy \<Rightarrow> ('s, bool) act" where
  "verify_result E c s =
     (let w = h_fin (the (vf_md5 c)) (the (vf_obj c))
      in if vf_sum c \<noteq> w then Some (True, s)
         else do { (_, s) \<leftarrow> ce_stdout E (md5_line (ce_hex E) (w, co_name c)) s; Some (False, s) })"

definition verify_process :: "('k, 'i, 'h, 'a) copy \<Rightarrow> bytes \<Rightarrow> ('k, 'i, 'h, 'a) copy" where
  "verify_process c d =
     (case vf_obj c of None \<Rightarrow> c | Some h \<Rightarrow> c\<lparr>vf_obj := Some (h_update (the (vf_md5 c)) h d)\<rparr>)"

text \<open>\<^const>\<open>True\<close>: the output is to be read back.\<close>

definition verify_read_fin :: "('s, 'i, 'h, 'a) copyenv \<Rightarrow> ('s, 'k, 'i, 'h, 'a) copy_step" where
  "verify_read_fin E c s =
     (case vf_obj c of
        None \<Rightarrow> Some ((False, c), s)
      | Some h \<Rightarrow>
          (let c = c\<lparr>vf_sum := h_fin (the (vf_md5 c)) h, vf_obj := None\<rparr>
           in if \<not> cp_verify c then
                do { (_, s) \<leftarrow> ce_stdout E (md5_line (ce_hex E) (vf_sum c, cp_iname c)) s; Some ((False, c), s) }
              else Some ((True, c\<lparr>vf_obj := Some (h_create (the (vf_md5 c))), co_off := 0\<rparr>), s)))"

section \<open>Output\<close>

text \<open>The name is \<^const>\<open>None\<close> if neither \<open>--output\<close> nor \<open>--chdir\<close> is given, which \<open>args_parse\<close> excludes.\<close>

definition out_name :: "('s, 'i, 'h, 'a) copyenv \<Rightarrow> 'k cominfo \<Rightarrow> bytes \<Rightarrow> bytes \<Rightarrow> bytes option" where
  "out_name E cmd n base0 =
     (let path =
        (if ci_output cmd \<noteq> [] \<and> ci_chdir cmd = [] then Some (ci_output cmd)
         else if ci_output cmd \<noteq> [] \<and> ci_chdir cmd \<noteq> [] then Some (ci_chdir cmd @ [slash] @ ci_output cmd)
         else if ci_output cmd = [] \<and> ci_chdir cmd \<noteq> [] then
           (let base = (if base0 = [] then n else base0);
                (pos, len) = ce_splitname E base
            in Some (ci_chdir cmd @ [slash] @ (if len \<noteq> 0 then drop pos n else n)))
         else None)
      in map_option (ce_normalize E) path)"

definition output_init :: "('s, 'i, 'h, 'a) copyenv \<Rightarrow> 'k cominfo \<Rightarrow> ('s, nat) act" where
  "output_init E cmd = fi_create (ce_core E) (ci_buffer_size cmd)"

definition output_reset :: "('k, 'i, 'h, 'a) copy \<Rightarrow> ('k, 'i, 'h, 'a) copy" where
  "output_reset c = c\<lparr>co_state := 0, co_total := 0, co_off := 0, co_name := [], co_tmp := None\<rparr>"

definition output_close :: "('s, 'i, 'h, 'a) copyenv \<Rightarrow> ('k, 'i, 'h, 'a) copy \<Rightarrow> ('s, unit) act" where
  "output_close E c s =
     do { (_, s) \<leftarrow> fi_destroy (ce_core E) (co_f c) s;
          if \<not> co_del c then Some ((), s)
          else if cp_write_into c then do { (_, s) \<leftarrow> fi_del (ce_core E) (co_name c) s; Some ((), s) }
          else do { (_, s) \<leftarrow> fi_del (ce_core E) (the (co_tmp c)) s;
                    (_, s) \<leftarrow> fi_del (ce_core E) (co_name c) s; Some ((), s) } }"

text \<open>Opens the temporary file, which must be empty.\<close>

definition tmp_open :: "('s, 'i, 'h, 'a) copyenv \<Rightarrow> ('k, 'i, 'h, 'a) copy \<Rightarrow> 32 word \<Rightarrow> ('s, bool) act" where
  "tmp_open E c flags s =
     (let C = ce_core E in
      do { (_, s) \<leftarrow> fi_close C (co_f c) s;
           (r, s) \<leftarrow> fi_open C (co_f c) (the (co_tmp c)) flags s;
           if r = FErr then Some (False, s) else
           do { ((r, fi), s) \<leftarrow> fi_info C (co_f c) s;
                Some (r \<noteq> FErr \<and> ce_size E (the fi) = 0, s) } })"

definition output_open_file :: "('s, 'i, 'h, 'a) copyenv \<Rightarrow> ('k, 'i, 'h, 'a) copy \<Rightarrow> ('s, copy_ret \<times> ('k, 'i, 'h, 'a) copy) act" where
  "output_open_file E c s =
     (let C = ce_core E;
          flags = (if cp_verify c then FCOM_FILE_READWRITE OR FCOM_FILE_DIRECTIO else FCOM_FILE_WRITE) OR
                  fcom_file_cominfo_flags_o (cp_cmd c) OR FCOM_FILE_NO_PREALLOC;
          fin = (\<lambda>c s. Some ((CrOk, c\<lparr>co_del := \<not> ci_stdout (cp_cmd c) \<and> \<not> ci_test (cp_cmd c) \<and>
                  (\<not> cp_write_into c \<or> ce_size E (co_fi c) = 0)\<rparr>), s))
      in do { (r, s) \<leftarrow> fi_open C (co_f c) (co_name c) flags s;
              if r = FErr then Some ((CrBad, c), s)
              else if ci_stdout (cp_cmd c) then fin c s
              else do { ((r, fi), s) \<leftarrow> fi_info C (co_f c) s;
                        if r = FErr then Some ((CrBad, c), s) else
                        (let c = c\<lparr>co_fi := the fi\<rparr>
                         in do { (ok, s) \<leftarrow> (if cp_write_into c then Some (True, s) else tmp_open E c flags s);
                                 if \<not> ok then Some ((CrBad, c), s) else
                                 do { (r, s) \<leftarrow> fi_trunc C (co_f c) (Some (ce_size E (cp_fi c))) s;
                                      if r = FErr then Some ((CrBad, c), s) else fin c s } }) } })"

text \<open>A symbolic link whose target fills the buffer of 4096 bytes counts as truncated.\<close>

definition output_symlink :: "('s, 'i, 'h, 'a) copyenv \<Rightarrow> ('k, 'i, 'h, 'a) copy \<Rightarrow> ('s, copy_ret \<times> ('k, 'i, 'h, 'a) copy) act" where
  "output_symlink E c s =
     do { (t, s) \<leftarrow> ce_readlink E (cp_iname c) s;
          case t of
            None \<Rightarrow> Some ((CrBad, c), s)
          | Some target \<Rightarrow>
              if length target = 4095 then Some ((CrBad, c), s) else
              do { (r, s) \<leftarrow> fi_slink (ce_core E) target (co_name c) (fcom_file_cominfo_flags_o (cp_cmd c)) s;
                   Some ((if r = FErr then CrBad else CrSkip, c), s) } }"

text \<open>\<open>--update\<close>, for an existing target: \<^const>\<open>None\<close> if it is to be copied.\<close>

definition output_update ::
  "('s, 'i, 'h, 'a) copyenv \<Rightarrow> ('k, 'i, 'h, 'a) copy \<Rightarrow> ('s, copy_ret option \<times> ('k, 'i, 'h, 'a) copy) act" where
  "output_update E c s =
     (if \<not> cp_update c then Some ((None, c), s) else
      do { (i, s) \<leftarrow> ce_info_path E (co_name c) s;
           case i of
             None \<Rightarrow> Some ((None, c), s)
           | Some fi \<Rightarrow>
               (let c = c\<lparr>co_fi := fi\<rparr>
                in if ce_isdir E fi then Some ((Some CrBad, c), s)
                   else if cp_replace_date c then
                     do { (ok, s) \<leftarrow> ce_mtime_path E (co_name c) (ce_mtime E (cp_fi c)) s;
                          Some ((Some (if ok then CrSkip else CrBad), c), s) }
                   else
                     (let a = ce_mtime1 E (cp_fi c); b = ce_mtime1 E fi
                      in if fst a < fst b \<or> fst a = fst b \<and> snd a \<le> snd b then Some ((Some CrSkip, c), s)
                         else Some ((None, c), s))) })"

definition output_open :: "('s, 'i, 'h, 'a) copyenv \<Rightarrow> ('k, 'i, 'h, 'a) copy \<Rightarrow> ('s, copy_ret \<times> ('k, 'i, 'h, 'a) copy) act" where
  "output_open E c0 s =
     (let nm = out_name E (cp_cmd c0) (cp_name c0) (cp_basename c0)
      in if \<not> ci_stdout (cp_cmd c0) \<and> nm = None then Some ((CrBad, c0), s)
         else
           (let c = (if ci_stdout (cp_cmd c0) then c0
                     else c0\<lparr>co_name := the nm, co_tmp := (if cp_write_into c0 then None else Some (the nm @ ''.fcomtmp''))\<rparr>)
            in if ce_isdir E (cp_fi c) then
                 do { (r, s) \<leftarrow> fi_dir_create (ce_core E) (co_name c) FCOM_FILE_DIR_RECURSIVE s;
                      Some ((if r = FErr then CrBad else CrSkip, c), s) }
               else if ce_islink E (cp_fi c) then output_symlink E c s
               else do { ((r, c), s) \<leftarrow> output_update E c s;
                         case r of Some q \<Rightarrow> Some ((q, c), s) | None \<Rightarrow> output_open_file E c s }))"

text \<open>\<^const>\<open>True\<close> is success; any code of \<open>write\<close> but an error counts as written.\<close>

definition output_write :: "('s, 'i, 'h, 'a) copyenv \<Rightarrow> ('s, 'k, 'i, 'h, 'a) copy_step" where
  "output_write E c s =
     do { (r, s) \<leftarrow> fi_write (ce_core E) (co_f c) (cp_data c) (Some (co_off c)) s;
          if r = FErr then Some ((False, c), s)
          else Some ((True, c\<lparr>co_off := co_off c + length (cp_data c), co_total := co_total c + length (cp_data c)\<rparr>), s) }"

definition output_fin :: "('s, 'i, 'h, 'a) copyenv \<Rightarrow> ('k, 'i, 'h, 'a) copy \<Rightarrow> ('s, copy_ret \<times> ('k, 'i, 'h, 'a) copy) act" where
  "output_fin E c s =
     (let C = ce_core E;
          rename = (\<lambda>c s. if \<not> ci_stdout (cp_cmd c) \<and> \<not> cp_write_into c
             then do { (ok, s) \<leftarrow> ce_rename E (the (co_tmp c)) (co_name c) s; Some ((if ok then CrOk else CrBad, c), s) }
             else Some ((CrOk, c), s))
      in if co_state c = 0 then
           do { (_, s) \<leftarrow> fi_attr_set C (co_f c) (ce_attr E (cp_fi c)) s;
                (_, s) \<leftarrow> fi_close C (co_f c) s;
                let c = c\<lparr>co_del := False\<rparr>
                in if \<not> ci_stdout (cp_cmd c) \<and> \<not> cp_write_into c \<and> ce_size E (co_fi c) \<noteq> 0
                   then do { (_, s) \<leftarrow> ce_trash E (co_name c) (ci_test (cp_cmd c)) (ci_buffer_size (cp_cmd c)) s;
                             Some ((CrAsyn, c\<lparr>co_state := 1\<rparr>), s) }
                   else rename c s }
         else if co_state c = 1 then rename c s
         else Some ((CrOk, c), s))"

section \<open>The operation\<close>

text \<open>The options of the command line, as \<open>args_parse\<close> stores them.\<close>

record copy_args =
  ca_encrypt :: bytes
  ca_decrypt :: bytes
  ca_verify :: bool
  ca_print_md5 :: bool
  ca_rename_source :: bool
  ca_replace_date :: bool
  ca_update :: bool
  ca_write_into :: bool

definition BUF_LARGE :: nat where
  "BUF_LARGE = 8 * 1024 * 1024"

definition copy_args_parse :: "copy_args \<Rightarrow> 'k cominfo \<Rightarrow> (bool \<times> 'k cominfo) option" where
  "copy_args_parse a cmd0 =
     (let cmd = (if ci_buffer_size cmd0 = 0 then cmd0\<lparr>ci_buffer_size := BUF_LARGE\<rparr> else cmd0)
      in if ci_chdir cmd = [] \<and> ci_output cmd = [] then None
         else
           (let upd = (ca_update a \<and> \<not> ci_stdout cmd)
            in Some (upd, cmd\<lparr>ci_overwrite := (ci_overwrite cmd \<or> upd),
                              ci_recursive := (if ci_recursive cmd \<noteq> 0xff then 1 else 0)\<rparr>)))"

definition copy_create :: "('s, 'i, 'h, 'a) copyenv \<Rightarrow> copy_args \<Rightarrow> 'k cominfo \<Rightarrow> ('s, ('k, 'i, 'h, 'a) copy option) act" where
  "copy_create E a cmd0 s =
     (case copy_args_parse a cmd0 of
        None \<Rightarrow> Some (None, s)
      | Some (upd, cmd) \<Rightarrow>
          do { (i, s) \<leftarrow> fi_create (ce_core E) (ci_buffer_size cmd) s;
               (o1, s) \<leftarrow> output_init E cmd s;
               let c0 = \<lparr>cp_st = CsSrc, cp_data = [], cp_cmd = cmd, cp_input = i, cp_name = [], cp_iname = [],
                   cp_fi = ce_info_zero E, cp_in_off = 0, cp_nfiles = 0, cp_basename = [],
                   cr_obj = None, cr_aes = None, cr_iv = replicate 16 (CHR 0x00), cr_in = [], cr_sha = None,
                   cr_iv_out = False, cr_iv_in = False,
                   co_state = 0, co_f = o1, co_total = 0, co_off = 0, co_name = [], co_tmp = None,
                   co_fi = ce_info_zero E, co_del = False,
                   vf_md5 = None, vf_obj = None, vf_sum = replicate 16 (CHR 0x00),
                   cp_encrypt = ca_encrypt a, cp_decrypt = ca_decrypt a, cp_verify = ca_verify a,
                   cp_print_md5 = ca_print_md5 a, cp_preserve_date = True, cp_rename_source = ca_rename_source a,
                   cp_replace_date = ca_replace_date a, cp_update = upd, cp_write_into = ca_write_into a\<rparr>;
                   (ok1, c1) = crypt_init E c0;
                   (ok2, c2) = (if ok1 then verify_init E c1 else (False, c1))
               in if ok2 then Some (Some c2, s)
                  else do { (_, s) \<leftarrow> output_close E (crypt_close c2) s;
                            (_, s) \<leftarrow> fi_destroy (ce_core E) (cp_input c2) s;
                            Some (None, s) } })"

definition copy_close :: "('s, 'i, 'h, 'a) copyenv \<Rightarrow> ('k, 'i, 'h, 'a) copy \<Rightarrow> ('s, unit) act" where
  "copy_close E c s =
     do { (_, s) \<leftarrow> output_close E (verify_reset (crypt_close c)) s;
          fi_destroy (ce_core E) (cp_input c) s }"

definition copy_reset :: "('k, 'i, 'h, 'a) copy \<Rightarrow> ('k, 'i, 'h, 'a) copy" where
  "copy_reset c = (output_reset (verify_reset (crypt_reset (c\<lparr>cp_in_off := 0\<rparr>))))\<lparr>cp_iname := []\<rparr>"

text \<open>
  A turn of \<open>copy_run\<close>. Leaving the loop with 1 is an error and with 0 the end of the input; \<open>ASYN\<close> is
  the early return while the operation \<open>trash\<close> runs.
\<close>

definition ASYN :: int where
  "ASYN = 2"

type_synonym ('s, 'k, 'i, 'h, 'a) copy_turn =
  "('k, 'i, 'h, 'a) copy \<Rightarrow> ('s, ('k, 'i, 'h, 'a) copy + ('k, 'i, 'h, 'a) copy \<times> int) act"

definition cs_src :: "('s, 'i, 'h, 'a) copyenv \<Rightarrow> ('s, 'k, 'i, 'h, 'a) copy_turn" where
  "cs_src E c s =
     do { ((r, c), s) \<leftarrow> copy_input_next E (copy_reset c) s;
          case r of
            CrNext \<Rightarrow> Some (Inl (c\<lparr>cp_st := CsSrc\<rparr>), s)
          | CrDone \<Rightarrow> Some (Inr (c, 0), s)
          | CrErro \<Rightarrow> Some (Inr (c, 1), s)
          | _ \<Rightarrow> Some (Inl (c\<lparr>cp_st := CsOpenOut\<rparr>), s) }"

definition cs_read :: "('s, 'i, 'h, 'a) copyenv \<Rightarrow> ('s, 'k, 'i, 'h, 'a) copy_turn" where
  "cs_read E c s =
     do { ((r, d), s) \<leftarrow> fi_read (ce_core E) (cp_input c) (Some (cp_in_off c)) s;
          if r = FErr then Some (Inr (c, 1), s)
          else if r = FEof then Some (Inl (c\<lparr>cp_st := CsRdDone\<rparr>), s)
          else
            (let c = (if r = FOk then c\<lparr>cp_data := d\<rparr> else c);
                 c = c\<lparr>cp_in_off := cp_in_off c + length (cp_data c)\<rparr>
             in if cr_obj c \<noteq> None then Some (Inl (c\<lparr>cr_in := cp_data c, cp_st := CsCrypt\<rparr>), s)
                else Some (Inl ((verify_process c (cp_data c))\<lparr>cp_st := CsWrite\<rparr>), s)) }"

definition cs_write :: "('s, 'i, 'h, 'a) copyenv \<Rightarrow> ('s, 'k, 'i, 'h, 'a) copy_turn" where
  "cs_write E c s =
     do { ((ok, c), s) \<leftarrow> output_write E c s;
          if \<not> ok then Some (Inr (c, 1), s)
          else Some (Inl (c\<lparr>cp_st := (if cr_obj c \<noteq> None then CsCrypt else CsRead)\<rparr>), s) }"

definition cs_crypt :: "('s, 'i, 'h, 'a) copyenv \<Rightarrow> ('s, 'k, 'i, 'h, 'a) copy_turn" where
  "cs_crypt E c s =
     (if cr_in c = [] then Some (Inl (c\<lparr>cp_st := CsRead\<rparr>), s)
      else (case crypt_process E c of
          (False, c) \<Rightarrow> Some (Inr (c, 1), s)
        | (True, c) \<Rightarrow> cs_write E ((verify_process c (cp_data c))\<lparr>cp_st := CsWrite\<rparr>) s))"

definition cs_open_out :: "('s, 'i, 'h, 'a) copyenv \<Rightarrow> ('s, 'k, 'i, 'h, 'a) copy_turn" where
  "cs_open_out E c s =
     do { ((r, c), s) \<leftarrow> output_open E c s;
          if r = CrSkip then Some (Inl (c\<lparr>cp_st := CsSrc\<rparr>), s)
          else if r \<noteq> CrOk then Some (Inr (c, 1), s)
          else
            do { (_, s) \<leftarrow> fi_behaviour (ce_core E) (cp_input c) FBehSeq s;
                 ((ok, c), s) \<leftarrow> crypt_open E c s;
                 if \<not> ok then Some (Inr (c, 1), s)
                 else cs_read E ((verify_open c)\<lparr>cp_st := CsRead\<rparr>) s } }"

definition cs_rd_done :: "('s, 'i, 'h, 'a) copyenv \<Rightarrow> ('s, 'k, 'i, 'h, 'a) copy_turn" where
  "cs_rd_done E c s =
     do { (_, s) \<leftarrow> fi_behaviour (ce_core E) (co_f c) FBehTruncPrealloc s;
          (_, s) \<leftarrow> (if cp_preserve_date c then fi_mtime_set (ce_core E) (co_f c) (ce_mtime1 E (cp_fi c)) s
                     else Some (FOk, s));
          ((again, c), s) \<leftarrow> verify_read_fin E c s;
          Some (Inl (c\<lparr>cp_st := (if again then CsVerify else CsDone)\<rparr>), s) }"

definition cs_verify :: "('s, 'i, 'h, 'a) copyenv \<Rightarrow> ('s, 'k, 'i, 'h, 'a) copy_turn" where
  "cs_verify E c s =
     do { ((r, d), s) \<leftarrow> fi_read (ce_core E) (co_f c) (Some (co_off c)) s;
          if r = FErr then Some (Inr (c, 1), s)
          else if r = FEof then
            do { (bad, s) \<leftarrow> verify_result E c s;
                 if bad then Some (Inr (c, 1), s) else Some (Inl (c\<lparr>cp_st := CsDone\<rparr>), s) }
          else
            (let c = (if r = FOk then c\<lparr>cp_data := d\<rparr> else c); c = verify_process c (cp_data c)
             in Some (Inl (c\<lparr>co_off := co_off c + length (cp_data c)\<rparr>), s)) }"

definition cs_done :: "('s, 'i, 'h, 'a) copyenv \<Rightarrow> ('s, 'k, 'i, 'h, 'a) copy_turn" where
  "cs_done E c s =
     do { ((r, c), s) \<leftarrow> output_fin E c s;
          if r = CrAsyn then Some (Inr (c, ASYN), s)
          else if r \<noteq> CrOk then Some (Inr (c, 1), s)
          else do { (_, s) \<leftarrow> copy_complete E c s; Some (Inl (c\<lparr>cp_st := CsSrc\<rparr>), s) } }"

definition copy_turn :: "('s, 'i, 'h, 'a) copyenv \<Rightarrow> ('s, 'k, 'i, 'h, 'a) copy_turn" where
  "copy_turn E c s =
     (case cp_st c of
        CsSrc \<Rightarrow> cs_src E c s | CsOpenOut \<Rightarrow> cs_open_out E c s | CsRead \<Rightarrow> cs_read E c s
      | CsCrypt \<Rightarrow> cs_crypt E c s | CsWrite \<Rightarrow> cs_write E c s | CsRdDone \<Rightarrow> cs_rd_done E c s
      | CsVerify \<Rightarrow> cs_verify E c s | CsDone \<Rightarrow> cs_done E c s)"

text \<open>
  \<open>copy_run\<close>: \<^const>\<open>None\<close> in the result is a run that waits for \<open>trash\<close>, whose completion, successful
  or not, calls \<open>copy_run\<close> again (\<open>output_trash_complete\<close>); otherwise the code the command completes with.
\<close>

definition copy_run :: "('s, 'i, 'h, 'a) copyenv \<Rightarrow> ('k, 'i, 'h, 'a) copy \<Rightarrow> ('s, int option \<times> ('k, 'i, 'h, 'a) copy) act" where
  "copy_run E c s =
     do { ((c, rc), s) \<leftarrow> op_loop (stop_flag (ce_core E)) (copy_turn E) c s;
          if rc = ASYN then Some ((None, c), s)
          else do { (_, s) \<leftarrow> copy_close E c s; Some ((Some rc, c), s) } }"

end
