(* ===== verification/FileKeeps.thy ===== *)
theory FileKeeps
  imports FileWrite
begin

text \<open>
  What the file object leaves alone in the world: whatever the calls on its descriptor keep, the
  operations of \<^theory_text>\<open>FileIO\<close> keep. And writing with a kernel that stores every block it is given
  whole: no write stays pending.
\<close>

section \<open>Frames\<close>

definition os_keeps :: "('w, 'i) sys \<Rightarrow> fffd \<Rightarrow> ('w \<Rightarrow> 'g) \<Rightarrow> bool" where
  "os_keeps sys fd g \<longleftrightarrow>
     (\<forall>d off w. g (snd (fs_writeat sys fd d off w)) = g w) \<and>
     (\<forall>n w. g (snd (fs_trunc sys fd n w)) = g w)"

lemma os_keepsD:
  assumes "os_keeps sys fd g"
  shows "fs_writeat sys fd d off w = (r, w') \<Longrightarrow> g w' = g w"
    and "fs_trunc sys fd n w = (b, w') \<Longrightarrow> g w' = g w"
  using assms unfolding os_keeps_def by (metis snd_conv)+

lemma f_write_keeps:
  assumes "os_keeps sys (f_fd f) g" and "\<not> has (f_flags f) FCOM_FILE_STDOUT" and "f_write sys f d off w = (r, f', w')"
  shows "g w' = g w"
  using assms(2,3) os_keepsD(1) [OF assms(1)]
  by (auto simp: f_write_def Let_def split: prod.splits option.splits)

lemma prealloc_trunc_keeps:
  assumes "os_keeps sys (f_fd f) g" and "prealloc_trunc sys f w = (f', w')"
  shows "g w' = g w"
  using assms(2) os_keepsD(2) [OF assms(1)]
  by (auto simp: prealloc_trunc_def split: prod.splits if_splits bool.splits)

lemma fw_prealloc_keeps:
  assumes "os_keeps sys (f_fd f) g" and "fw_prealloc sys f n w = (f', w')"
  shows "g w' = g w"
  using assms(2) os_keepsD(2) [OF assms(1)]
  by (auto simp: fw_prealloc_def Let_def split: prod.splits if_splits bool.splits)

lemma fw_prealloc_stdout: "fw_prealloc sys f n w = (f', w') \<Longrightarrow> has (f_flags f') FCOM_FILE_STDOUT = has (f_flags f) FCOM_FILE_STDOUT"
  by (auto simp: fw_prealloc_def Let_def has_or_left split: prod.splits if_splits bool.splits) (simp_all add: has_def flag_simps)

lemma fw_write_keeps:
  assumes k: "os_keeps sys (f_fd f) g" and fl: "\<not> has (f_flags f) FCOM_FILE_STDOUT" and wr: "fw_write sys f data off w = (x, f', w')"
  shows "g w' = g w \<and> has (f_flags f') FCOM_FILE_STDOUT = has (f_flags f) FCOM_FILE_STDOUT"
proof (cases "\<not> w_async f \<and> off = None")
  case True
  with wr show ?thesis by (auto simp: fw_write_def)
next
  case False
  define d where "d = (if w_async f then w_buf f else data)"
  define o1 where "o1 = (if w_async f then w_off f else the off)"
  define f1 where "f1 = (if w_async f then f\<lparr>w_async := False, w_buf := []\<rparr> else f)"
  obtain f2 w2 where p: "fw_prealloc sys f1 (o1 + length d) w = (f2, w2)" by fastforce
  obtain y f3 w3 where y: "f_write sys f2 d o1 w2 = (y, f3, w3)" by (metis prod_cases3)
  have f1: "f_fd f1 = f_fd f" "f_flags f1 = f_flags f" by (simp_all add: f1_def)
  have f2: "f_fd f2 = f_fd f" "\<not> has (f_flags f2) FCOM_FILE_STDOUT"
    using fw_prealloc_frame [OF p] fw_prealloc_stdout [OF p] f1 fl by (simp_all add: same_cache_def)
  have "g w3 = g w"
    using fw_prealloc_keeps [OF _ p, of g] f_write_keeps [OF _ f2(2) y, of g] k f1 f2 by simp
  moreover have "f_flags f3 = f_flags f2" using f_write_frame [OF y] by simp
  moreover have "w' = w3 \<and> f_flags f' = f_flags f3"
    using wr False p y
    by (auto simp: fw_write_def d_def [symmetric] o1_def [symmetric] f1_def [symmetric]
        split: sum.splits file_ret.splits if_splits)
  ultimately show ?thesis using f2 fl by simp
qed

lemma write_loop_keeps:
  assumes "write_loop sys f data off w = (r, f', w')" and "os_keeps sys (f_fd f) g" and "\<not> has (f_flags f) FCOM_FILE_STDOUT"
  shows "g w' = g w"
  using assms
proof (induction sys f data off w rule: write_loop.induct)
  case (1 sys f data off w)
  show ?case
  proof (cases "f_wwrite f")
    case False
    obtain x f1 where x: "fw_cache f data off = (x, f1)" by fastforce
    have f1: "f_fd f1 = f_fd f" "f_flags f1 = f_flags f"
      using x by (auto simp: fw_cache_def Let_def split: prod.splits option.splits if_splits)
    show ?thesis
    proof (cases x)
      case (Inl q)
      with x False "1.prems"(1) show ?thesis by (simp add: write_loop.simps [of sys f])
    next
      case (Inr p)
      obtain d o' where p: "p = (d, o')" by (cases p)
      have "write_loop sys (f1\<lparr>f_wwrite := True\<rparr>) d o' w = (r, f', w')"
        using "1.prems"(1) False x Inr p by (simp add: write_loop.simps [of sys f])
      then show ?thesis
        using "1.IH"(1) [OF False x [symmetric] Inr p [symmetric]] f1 "1.prems"(2,3) by simp
    qed
  next
    case True
    obtain x f1 w1 where x: "fw_write sys f data off w = (x, f1, w1)" by (metis prod_cases3)
    have k: "g w1 = g w" "\<not> has (f_flags f1) FCOM_FILE_STDOUT" "f_fd f1 = f_fd f"
      using fw_write_keeps [OF "1.prems"(2,3) x] "1.prems"(3) fw_write_frame [OF x] by (auto simp: same_cache_def)
    show ?thesis
    proof (cases x)
      case (Inl q)
      with x k True "1.prems"(1) show ?thesis by (simp add: write_loop.simps [of sys f])
    next
      case (Inr p)
      obtain d o' where p: "p = (d, o')" by (cases p)
      have "write_loop sys (f1\<lparr>f_wwrite := False\<rparr>) d o' w1 = (r, f', w')"
        using "1.prems"(1) True x Inr p by (simp add: write_loop.simps [of sys f])
      then show ?thesis
        using "1.IH"(2) [OF _ x [symmetric] Inr p [symmetric] refl] True k "1.prems"(2) by simp
    qed
  qed
qed

lemma file_write_keeps:
  assumes "file_write sys f data off w = (r, f', w')" and "os_keeps sys (f_fd f) g" and "\<not> has (f_flags f) FCOM_FILE_STDOUT"
  shows "g w' = g w"
  using assms(1) write_loop_keeps [OF _ assms(2,3)] fw_write_keeps [of sys "f\<lparr>f_cur := n\<rparr>" g data for n] assms(2,3)
  by (fastforce simp: file_write_def Let_def split: if_splits prod.splits sum.splits)

text \<open>Names and the flags a write does not set.\<close>

definition same_open :: "fobj \<Rightarrow> fobj \<Rightarrow> bool" where
  "same_open f f' \<longleftrightarrow>
     f_name f' = f_name f \<and> (f_flags f' = f_flags f \<or> f_flags f' = f_flags f OR FCOM_FILE_NO_PREALLOC)"

lemma same_open_trans: "same_open f g \<Longrightarrow> same_open g h \<Longrightarrow> same_open f h"
  by (auto simp: same_open_def or.assoc)

lemma fw_write_names:
  assumes "fw_write sys f data off w = (x, f', w')"
  shows "same_open f f'"
proof (cases "\<not> w_async f \<and> off = None")
  case True
  with assms show ?thesis by (auto simp: fw_write_def same_open_def)
next
  case False
  define d where "d = (if w_async f then w_buf f else data)"
  define o1 where "o1 = (if w_async f then w_off f else the off)"
  define f1 where "f1 = (if w_async f then f\<lparr>w_async := False, w_buf := []\<rparr> else f)"
  obtain f2 w2 where p: "fw_prealloc sys f1 (o1 + length d) w = (f2, w2)" by fastforce
  obtain y f3 w3 where y: "f_write sys f2 d o1 w2 = (y, f3, w3)" by (metis prod_cases3)
  have "same_open f f1" by (simp add: same_open_def f1_def)
  moreover have "same_open f1 f2"
    using p by (auto simp: fw_prealloc_def same_open_def Let_def split: prod.splits if_splits bool.splits)
  moreover have "same_open f2 f3" using f_write_frame [OF y] by (simp add: same_open_def same_cache_def)
  moreover have "same_open f3 f'"
    using assms False p y
    by (auto simp: fw_write_def d_def [symmetric] o1_def [symmetric] f1_def [symmetric] same_open_def
        split: sum.splits file_ret.splits if_splits)
  ultimately show ?thesis by (blast intro: same_open_trans)
qed

lemma write_loop_names: "write_loop sys f data off w = (r, f', w') \<Longrightarrow> same_open f f'"
proof (induction sys f data off w rule: write_loop.induct)
  case (1 sys f data off w)
  show ?case
  proof (cases "f_wwrite f")
    case False
    obtain x f1 where x: "fw_cache f data off = (x, f1)" by fastforce
    then have s: "same_open f (f1\<lparr>f_wwrite := True\<rparr>)" "same_open f f1"
      by (auto simp: fw_cache_def same_open_def Let_def split: prod.splits option.splits if_splits)
    with 1 False x show ?thesis
      by (auto simp: write_loop.simps [of sys f] split: sum.splits intro: same_open_trans [OF s(1)])
  next
    case True
    obtain x f1 w1 where x: "fw_write sys f data off w = (x, f1, w1)" by (metis prod_cases3)
    have s: "same_open f (f1\<lparr>f_wwrite := False\<rparr>)" "same_open f f1"
      using fw_write_names [OF x] by (auto simp: same_open_def)
    with 1 True x show ?thesis
      by (auto simp: write_loop.simps [of sys f] split: sum.splits intro: same_open_trans [OF s(1)])
  qed
qed

lemma file_write_names:
  assumes "file_write sys f d off w = (r, f', w')"
  shows "f_name f' = f_name f" "has (f_flags f') FCOM_FILE_INFO_NOFOLLOW = has (f_flags f) FCOM_FILE_INFO_NOFOLLOW"
    "has (f_flags f') FCOM_FILE_STDIN = has (f_flags f) FCOM_FILE_STDIN"
proof -
  have "same_open f f'"
    using assms write_loop_names [of sys f d off w r f' w'] fw_write_names [of sys "f\<lparr>f_cur := n\<rparr>" d for n]
    by (fastforce simp: file_write_def Let_def same_open_def split: if_splits prod.splits sum.splits)
  then show "f_name f' = f_name f" "has (f_flags f') FCOM_FILE_INFO_NOFOLLOW = has (f_flags f) FCOM_FILE_INFO_NOFOLLOW"
    "has (f_flags f') FCOM_FILE_STDIN = has (f_flags f) FCOM_FILE_STDIN"
    by (auto simp: same_open_def has_or_left) (simp_all add: has_def flag_simps)
qed

text \<open>A flush that returns; the induction is over the loop's approximations.\<close>

lemma flush_loop_keeps:
  fixes sys :: "('w, 'i) sys"
  assumes "flush_loop sys f d off w = Some (r, f', w')" and "os_keeps sys (f_fd f) g" and "\<not> has (f_flags f) FCOM_FILE_STDOUT"
  shows "g w' = g w"
proof -
  have "\<forall>r f' w'. x = (r, f', w') \<longrightarrow> os_keeps sys (f_fd f) g \<longrightarrow> \<not> has (f_flags f) FCOM_FILE_STDOUT \<longrightarrow> g w' = g w"
    if "flush_loop sys f d off w = Some x" for x
  proof (rule flush_loop.raw_induct [where P = "\<lambda>sys f d off w x. \<forall>r f' w'. x = (r, f', w') \<longrightarrow>
      os_keeps sys (f_fd f) g \<longrightarrow> \<not> has (f_flags f) FCOM_FILE_STDOUT \<longrightarrow> g w' = g w", OF _ that])
    fix loop and sys :: "('w, 'i) sys" and f d off w x
    assume ih: "\<And>sys f d off w x. loop sys f d off w = Some x \<Longrightarrow> \<forall>r f' w'. x = (r, f', w') \<longrightarrow>
        os_keeps sys (f_fd f) g \<longrightarrow> \<not> has (f_flags f) FCOM_FILE_STDOUT \<longrightarrow> g w' = g w"
      and eq: "(if d = [] then Some (FOk, f\<lparr>f_wbuf := fbuf_clear (f_wbuf f)\<rparr>, w)
        else let x = f_write sys f d off w in case fst x of Inl e \<Rightarrow> Some (e, snd x)
          | Inr r \<Rightarrow> loop sys (fst (snd x)) (drop r d) (off + r) (snd (snd x))) = Some x"
    show "\<forall>r f' w'. x = (r, f', w') \<longrightarrow> os_keeps sys (f_fd f) g \<longrightarrow> \<not> has (f_flags f) FCOM_FILE_STDOUT \<longrightarrow> g w' = g w"
    proof (intro allI impI)
      fix r f' w' assume x: "x = (r, f', w')" and k: "os_keeps sys (f_fd f) g" and fl: "\<not> has (f_flags f) FCOM_FILE_STDOUT"
      show "g w' = g w"
      proof (cases "d = []")
        case True
        with eq x show ?thesis by simp
      next
        case False
        obtain y f1 w1 where y: "f_write sys f d off w = (y, f1, w1)" by (metis prod_cases3)
        have f1: "f_fd f1 = f_fd f" "f_flags f1 = f_flags f" using f_write_frame [OF y] by (simp_all add: same_cache_def)
        have g1: "g w1 = g w" by (rule f_write_keeps [OF k fl y])
        show ?thesis
        proof (cases y)
          case (Inl e)
          with eq y False x g1 show ?thesis by simp
        next
          case (Inr n)
          then have "loop sys f1 (drop n d) (off + n) w1 = Some x" using eq y False by simp
          from ih [OF this] x k fl f1 g1 show ?thesis by simp
        qed
      qed
    qed
  qed
  with assms show ?thesis by blast
qed

lemma file_flush_keeps:
  assumes "file_flush sys f w = Some (r, f', w')" and "os_keeps sys (f_fd f) g" and "\<not> has (f_flags f) FCOM_FILE_STDOUT"
  shows "g w' = g w"
  using flush_loop_keeps [OF assms(1) [unfolded file_flush_def] assms(2,3)] .

section \<open>Whole writes\<close>

definition os_whole :: "('w, 'i) sys \<Rightarrow> nat \<Rightarrow> bool" where
  "os_whole sys fd \<longleftrightarrow> (\<forall>d off w. fst (fs_writeat sys (Some fd) d off w) = Some (length d))"

lemma f_write_whole:
  assumes "os_whole sys fd" and "f_fd f = Some fd" and "\<not> has (f_flags f) FCOM_FILE_STDOUT" and "\<not> has (f_flags f) FCOM_FILE_DIRECTIO"
  shows "fst (f_write sys f d off w) = Inr (length d)"
proof -
  obtain w' where "fs_writeat sys (Some fd) d off w = (Some (length d), w')"
    using assms(1) unfolding os_whole_def by (metis prod.collapse)
  with assms(2-) show ?thesis by (simp add: f_write_def Let_def)
qed

lemma write_loop_whole:
  assumes "write_loop sys f data off w = (r, f', w')" and "os_whole sys fd" and "f_fd f = Some fd" and "cached_flags (f_flags f)"
    and "\<not> w_async f" and "f_wwrite f \<Longrightarrow> off \<noteq> None"
  shows "r \<noteq> FAsync"
  using assms
proof (induction sys f data off w rule: write_loop.induct)
  case (1 sys f data off w)
  show ?case
  proof (cases "f_wwrite f")
    case False
    obtain x f1 where x: "fw_cache f data off = (x, f1)" by fastforce
    have f1: "f_fd f1 = f_fd f" "f_flags f1 = f_flags f" "w_async f1 = w_async f" "x = Inl q \<Longrightarrow> q = FOk"
      "x = Inr (d, o') \<Longrightarrow> o' \<noteq> None" for q d o'
      using x by (auto simp: fw_cache_def Let_def split: prod.splits option.splits if_splits)
    show ?thesis
    proof (cases x)
      case (Inl q)
      with x f1(4) False "1.prems"(1) show ?thesis by (simp add: write_loop.simps [of sys f])
    next
      case (Inr p)
      obtain d o' where p: "p = (d, o')" by (cases p)
      have "write_loop sys (f1\<lparr>f_wwrite := True\<rparr>) d o' w = (r, f', w')"
        using "1.prems"(1) False x Inr p by (simp add: write_loop.simps [of sys f])
      then show ?thesis
        using "1.IH"(1) [OF False x [symmetric] Inr p [symmetric]] f1 Inr p "1.prems"(2-5) by simp
    qed
  next
    case True
    obtain n where n: "off = Some n" using "1.prems"(6) True by blast
    obtain f2 w2 where p: "fw_prealloc sys f (n + length data) w = (f2, w2)" by fastforce
    obtain y f3 w3 where y: "f_write sys f2 data n w2 = (y, f3, w3)" by (metis prod_cases3)
    have "same_cache f f2" "w_async f2 = w_async f" using fw_prealloc_frame [OF p] by simp_all
    moreover have "cached_flags (f_flags f2)"
      using p "1.prems"(4) by (auto simp: fw_prealloc_def Let_def cached_flags_or split: prod.splits if_splits bool.splits)
    ultimately have f2: "f_fd f2 = Some fd" "cached_flags (f_flags f2)" "\<not> w_async f2"
      using "1.prems"(3,5) by (auto simp: same_cache_def)
    have yv: "y = Inr (length data)"
      using f_write_whole [OF "1.prems"(2) f2(1), of data n w2] f2(2) y by (auto simp: cached_flags_def)
    have fr: "same_cache f2 f3" "f_flags f3 = f_flags f2" "w_async f3 = w_async f2" using f_write_frame [OF y] by simp_all
    have x: "fw_write sys f data off w = (Inr ([], off), f3\<lparr>w_off := n + length data\<rparr>, w3)"
      using p y yv n "1.prems"(5) by (simp add: fw_write_def)
    have "write_loop sys (f3\<lparr>w_off := n + length data, f_wwrite := False\<rparr>) [] off w3 = (r, f', w')"
      using "1.prems"(1) True x by (simp add: write_loop.simps [of sys f])
    then show ?thesis
      using "1.IH"(2) [OF _ x [symmetric] refl refl refl] True fr f2 "1.prems"(2) by (simp add: same_cache_def)
  qed
qed

text \<open>One call appends at the current offset.\<close>

lemma file_write_appends:
  assumes os: "os_write_ok sys fd content" and ff: "ffbase_ok sys" and acc: "os_accepts sys fd" and wh: "os_whole sys fd"
    and a: "appending fd content f w"
  shows "\<exists>f' w'. file_write sys f d (Some (f_cur f)) w = (FOk, f', w') \<and> appending fd content f' w' \<and>
    file_view content f' w' = file_view content f w @ d \<and> f_cur f' = f_cur f + length d"
proof -
  have inv: "file_inv fd content f w" "file_idle f" "cache_tail f" "f_cur f = length (file_view content f w)"
    using a by (auto simp: appending_def)
  have gap: "\<not> fbuf_gap (f_wbuf f) (f_bufsize f) (cache_off f (Some (f_cur f)))"
    using appending_gap [OF a] inv(2) by (simp add: cache_off_def file_idle_def)
  obtain r f' w' where wr: "file_write sys f d (Some (f_cur f)) w = (r, f', w')" by (metis prod_cases3)
  then have loop: "write_loop sys f d (Some (f_cur f)) w = (r, f', w')"
    using file_inv_flags [OF inv(1)] by (simp add: file_write_def)
  have "r \<noteq> FAsync"
    by (rule write_loop_whole [OF loop wh]) (use inv in \<open>auto simp: file_inv_def file_idle_def\<close>)
  moreover have "r = FOk \<or> r = FAsync \<and> write_left f' [] < write_left f d"
    by (rule write_loop_progress [OF os ff acc loop])
      (use inv gap in \<open>auto simp: file_idle_def cache_state_def cache_input_def\<close>)
  ultimately have r: "r = FOk" by blast
  have "write_done fd content FOk f' w' (file_view content f w @ d) (f_cur f + length d)"
    using file_write_start [OF os ff inv(1,2) gap wr] inv(2,4) r
    by (simp add: cache_off_def overlay_append file_idle_def)
  moreover have "cache_tail f'"
    by (rule write_loop_tail [OF loop]) (use inv in \<open>auto simp: file_idle_def cache_tail_def cache_off_def\<close>)
  ultimately show ?thesis
    using wr r inv(4) by (auto simp: appending_def write_done_def)
qed

end
