(* ===== verification/Disk.thy ===== *)
theory Disk
  imports FileKeeps FileRead CoreOf
begin

text \<open>
  A disk on which files are read and created: the documented behaviour of the kernel's calls in
  terms of the names and contents of the files and of what the open descriptors refer to, and
  what the file object of \<^theory_text>\<open>FileIO\<close> makes of it. One object reads a file, another creates one.
\<close>

section \<open>The kernel\<close>

text \<open>
  \<open>v_content fd w\<close> are the contents behind a descriptor, \<open>v_at fd w\<close> the name of the file an open
  descriptor was opened on, \<open>v_disk w\<close> the files, \<open>v_new n\<close> whether a file \<open>n\<close> can be created.
\<close>

record ('w, 'i) fsview =
  v_content :: "nat \<Rightarrow> 'w \<Rightarrow> bytes"
  v_disk :: "'w \<Rightarrow> bytes \<rightharpoonup> bytes"
  v_at :: "nat \<Rightarrow> 'w \<Rightarrow> bytes option"
  v_new :: "bytes \<Rightarrow> bool"
  v_size :: "'i \<Rightarrow> nat"
  v_reg :: "'i \<Rightarrow> bool"

definition same :: "('w, 'i) fsview \<Rightarrow> 'w \<Rightarrow> 'w \<Rightarrow> bool" where
  "same V w w' \<longleftrightarrow>
     v_disk V w' = v_disk V w \<and> (\<forall>fd. v_at V fd w' = v_at V fd w \<and> v_content V fd w' = v_content V fd w)"

text \<open>What a write to \<open>fd\<close> does not touch.\<close>

definition elsewhere :: "('w, 'i) fsview \<Rightarrow> nat \<Rightarrow> 'w \<Rightarrow> (nat \<Rightarrow> bytes option) \<times> (bytes \<rightharpoonup> bytes) \<times> (nat \<Rightarrow> bytes)" where
  "elsewhere V fd w =
     (\<lambda>fd'. v_at V fd' w, \<lambda>n. if v_at V fd w = Some n then None else v_disk V w n,
      \<lambda>fd'. if v_at V fd' w = v_at V fd w then [] else v_content V fd' w)"

text \<open>The descriptors other than \<open>fd\<close>.\<close>

definition others_same :: "('w, 'i) fsview \<Rightarrow> nat \<Rightarrow> 'w \<Rightarrow> 'w \<Rightarrow> bool" where
  "others_same V fd w w' \<longleftrightarrow>
     (\<forall>fd'. fd' \<noteq> fd \<longrightarrow> v_at V fd' w' = v_at V fd' w \<and> v_content V fd' w' = v_content V fd' w)"

text \<open>
  The calls: reads and writes are complete; asking for information, setting times and
  attributes and reading ahead change nothing of the above; opening takes a free descriptor; only a
  file that does not exist is created; a rename moves the contents to the new name, a removal takes the file away.
\<close>

definition os_rw :: "('w, 'i) sys \<Rightarrow> ('w, 'i) fsview \<Rightarrow> bool" where
  "os_rw sys V \<longleftrightarrow>
     (\<forall>fd. os_write_ok sys fd (v_content V fd) \<and> os_accepts sys fd \<and> os_whole sys fd \<and>
        os_keeps sys (Some fd) (elsewhere V fd)) \<and>
     (\<forall>fd n off w. \<exists>w'. fs_readat sys (Some fd) n off w = (Some (take n (drop off (v_content V fd w))), w') \<and> same V w w') \<and>
     (\<forall>fd n w. v_at V fd w = Some n \<longrightarrow> v_disk V w n = Some (v_content V fd w))"

definition os_calm :: "('w, 'i) sys \<Rightarrow> ('w, 'i) fsview \<Rightarrow> bool" where
  "os_calm sys V \<longleftrightarrow>
     (\<forall>fd t w. same V w (snd (fs_set_mtime sys fd t w))) \<and> (\<forall>fd a w. same V w (snd (fs_set_attr sys fd a w))) \<and>
     (\<forall>fd n w. same V w (snd (fs_readahead sys fd n w))) \<and>
     (\<forall>fd n w. v_at V fd w = Some n \<longrightarrow> (\<exists>i w'. fs_info sys (Some fd) w = (Some i, w') \<and> same V w w' \<and>
        v_size V i = length (v_content V fd w) \<and> v_reg V i)) \<and>
     (\<forall>n d w. v_disk V w n = Some d \<longrightarrow> (\<exists>i w'. fs_info_link sys (Some n) w = (Some i, w') \<and> same V w w' \<and>
        v_size V i = length d \<and> v_reg V i))"

definition os_names :: "('w, 'i) sys \<Rightarrow> ('w, 'i) fsview \<Rightarrow> bool" where
  "os_names sys V \<longleftrightarrow>
     (\<forall>n d w. v_disk V w n = Some d \<longrightarrow> (\<exists>fd w'. fs_open sys n {OReadonly, ONoatime} w = (Some fd, w') \<and>
        v_at V fd w = None \<and> v_at V fd w' = Some n \<and> others_same V fd w w' \<and> v_disk V w' = v_disk V w)) \<and>
     (\<forall>n w fl. v_disk V w n = None \<and> v_new V n \<and> fl \<in> {{OWriteonly, OCreatenew, ONoatime}, {OWriteonly, OCreate, ONoatime}} \<longrightarrow>
        (\<exists>fd w'. fs_open sys n fl w = (Some fd, w') \<and>
        v_at V fd w = None \<and> v_at V fd w' = Some n \<and> others_same V fd w w' \<and> v_disk V w' = (v_disk V w)(n \<mapsto> []))) \<and>
     (\<forall>n d w. v_disk V w n = Some d \<longrightarrow>
        (\<exists>fd w'. fs_open sys n {OWriteonly, OCreate, ONoatime} w = (Some fd, w') \<and>
        v_at V fd w = None \<and> v_at V fd w' = Some n \<and> others_same V fd w w' \<and> v_disk V w' = v_disk V w)) \<and>
     (\<forall>fd w. let w' = snd (fs_close sys (Some fd) w)
        in v_at V fd w' = None \<and> others_same V fd w w' \<and> v_disk V w' = v_disk V w) \<and>
     (\<forall>a b c w. v_disk V w a = Some c \<and> (\<forall>fd. v_at V fd w \<noteq> Some a \<and> v_at V fd w \<noteq> Some b) \<longrightarrow>
        (\<exists>w'. fs_rename sys a b w = (True, w') \<and> v_disk V w' = (v_disk V w)(a := None, b \<mapsto> c) \<and>
          (\<forall>fd. v_at V fd w' = v_at V fd w \<and> v_content V fd w' = v_content V fd w))) \<and>
     (\<forall>a c w. v_disk V w a = Some c \<and> (\<forall>fd. v_at V fd w \<noteq> Some a) \<longrightarrow>
        (\<exists>w'. fs_remove sys a w = (True, w') \<and> v_disk V w' = (v_disk V w)(a := None) \<and>
          (\<forall>fd. v_at V fd w' = v_at V fd w \<and> v_content V fd w' = v_content V fd w)))"

definition os_files :: "('w, 'i) sys \<Rightarrow> ('w, 'i) fsview \<Rightarrow> bool" where
  "os_files sys V \<longleftrightarrow> ffbase_ok sys \<and> os_rw sys V \<and> os_calm sys V \<and> os_names sys V"

lemma same_refl: "same V w w"
  by (simp add: same_def)

lemma same_trans: "same V w w' \<Longrightarrow> same V w' w'' \<Longrightarrow> same V w w''"
  by (simp add: same_def)

lemma os_filesD:
  assumes "os_files sys V"
  shows "ffbase_ok sys" "os_write_ok sys fd (v_content V fd)" "os_accepts sys fd" "os_whole sys fd"
    "os_keeps sys (Some fd) (elsewhere V fd)"
    "\<exists>w'. fs_readat sys (Some fd) n off w = (Some (take n (drop off (v_content V fd w))), w') \<and> same V w w'"
    "v_at V fd w = Some nm \<Longrightarrow> v_disk V w nm = Some (v_content V fd w)"
  using assms unfolding os_files_def os_rw_def by blast+

lemma os_files_calm:
  assumes "os_files sys V"
  shows "same V w (snd (fs_set_mtime sys fd t w))" "same V w (snd (fs_set_attr sys fd a w))"
    "same V w (snd (fs_readahead sys fd k w))"
    "v_at V fd1 w = Some n \<Longrightarrow> \<exists>i w'. fs_info sys (Some fd1) w = (Some i, w') \<and> same V w w' \<and>
        v_size V i = length (v_content V fd1 w) \<and> v_reg V i"
    "v_disk V w n = Some d \<Longrightarrow> \<exists>i w'. fs_info_link sys (Some n) w = (Some i, w') \<and> same V w w' \<and>
        v_size V i = length d \<and> v_reg V i"
  using assms unfolding os_files_def os_calm_def by blast+

lemma os_files_names:
  assumes "os_files sys V"
  shows "v_disk V w n = Some d \<Longrightarrow> \<exists>fd w'. fs_open sys n {OReadonly, ONoatime} w = (Some fd, w') \<and>
        v_at V fd w = None \<and> v_at V fd w' = Some n \<and> others_same V fd w w' \<and> v_disk V w' = v_disk V w"
    "v_disk V w n = None \<Longrightarrow> v_new V n \<Longrightarrow> fl \<in> {{OWriteonly, OCreatenew, ONoatime}, {OWriteonly, OCreate, ONoatime}} \<Longrightarrow>
        \<exists>fd w'. fs_open sys n fl w = (Some fd, w') \<and>
        v_at V fd w = None \<and> v_at V fd w' = Some n \<and> others_same V fd w w' \<and> v_disk V w' = (v_disk V w)(n \<mapsto> [])"
    "fs_close sys (Some fd) w = (b, w') \<Longrightarrow> v_at V fd w' = None \<and> others_same V fd w w' \<and> v_disk V w' = v_disk V w"
    "v_disk V w a = Some c \<Longrightarrow> (\<And>fd. v_at V fd w \<noteq> Some a \<and> v_at V fd w \<noteq> Some b') \<Longrightarrow>
        \<exists>w'. fs_rename sys a b' w = (True, w') \<and> v_disk V w' = (v_disk V w)(a := None, b' \<mapsto> c) \<and>
          (\<forall>fd. v_at V fd w' = v_at V fd w \<and> v_content V fd w' = v_content V fd w)"
proof -
  have os: "os_names sys V" using assms by (simp add: os_files_def)
  show "v_disk V w n = Some d \<Longrightarrow> \<exists>fd w'. fs_open sys n {OReadonly, ONoatime} w = (Some fd, w') \<and>
        v_at V fd w = None \<and> v_at V fd w' = Some n \<and> others_same V fd w w' \<and> v_disk V w' = v_disk V w"
    using os unfolding os_names_def by blast
  show "v_disk V w n = None \<Longrightarrow> v_new V n \<Longrightarrow> fl \<in> {{OWriteonly, OCreatenew, ONoatime}, {OWriteonly, OCreate, ONoatime}} \<Longrightarrow>
        \<exists>fd w'. fs_open sys n fl w = (Some fd, w') \<and>
        v_at V fd w = None \<and> v_at V fd w' = Some n \<and> others_same V fd w w' \<and> v_disk V w' = (v_disk V w)(n \<mapsto> [])"
    using os unfolding os_names_def by blast
  show "fs_close sys (Some fd) w = (b, w') \<Longrightarrow> v_at V fd w' = None \<and> others_same V fd w w' \<and> v_disk V w' = v_disk V w"
    using os unfolding os_names_def Let_def by (metis snd_conv)
  show "v_disk V w a = Some c \<Longrightarrow> (\<And>fd. v_at V fd w \<noteq> Some a \<and> v_at V fd w \<noteq> Some b') \<Longrightarrow>
        \<exists>w'. fs_rename sys a b' w = (True, w') \<and> v_disk V w' = (v_disk V w)(a := None, b' \<mapsto> c) \<and>
          (\<forall>fd. v_at V fd w' = v_at V fd w \<and> v_content V fd w' = v_content V fd w)"
    using os unfolding os_names_def by blast
qed

lemma os_files_remove:
  assumes "os_files sys V" and "v_disk V w a = Some c" and "\<And>fd. v_at V fd w \<noteq> Some a"
  shows "\<exists>w'. fs_remove sys a w = (True, w') \<and> v_disk V w' = (v_disk V w)(a := None) \<and>
    (\<forall>fd. v_at V fd w' = v_at V fd w \<and> v_content V fd w' = v_content V fd w)"
  using assms unfolding os_files_def os_names_def by blast

lemma os_files_reopen:
  assumes "os_files sys V" and "v_disk V w n = Some d"
  shows "\<exists>fd w'. fs_open sys n {OWriteonly, OCreate, ONoatime} w = (Some fd, w') \<and>
        v_at V fd w = None \<and> v_at V fd w' = Some n \<and> others_same V fd w w' \<and> v_disk V w' = v_disk V w"
  using assms unfolding os_files_def os_names_def by blast

lemma os_files_reads:
  assumes "os_files sys V"
  shows "os_read_ok sys (Some fd) (v_content V fd)" "os_reads sys (Some fd)"
proof -
  show "os_read_ok sys (Some fd) (v_content V fd)" unfolding os_read_ok_def same_def
    by (metis os_filesD(6) [OF assms] option.inject prod.inject same_def)
  show "os_reads sys (Some fd)" unfolding os_reads_def
    by (metis os_filesD(6) [OF assms] fst_conv option.distinct(1))
qed

section \<open>The object that reads\<close>

definition reading :: "('w, 'i) sys \<Rightarrow> ('w, 'i) fsview \<Rightarrow> fobj \<Rightarrow> 'w \<Rightarrow> bool" where
  "reading sys V f w \<longleftrightarrow>
     obj_sound f \<and>
     (case f_fd f of
        None \<Rightarrow> True
      | Some fd \<Rightarrow> v_at V fd w = f_name f \<and> f_name f \<noteq> None \<and> read_inv sys (v_content V fd) f w)"

definition rd_flags :: "32 word" where
  "rd_flags = FCOM_FILE_READ OR FCOM_FILE_READAHEAD OR FCOM_FILE_INFO_NOFOLLOW"

text \<open>The flags that open a file for reading.\<close>

definition rd_like :: "32 word \<Rightarrow> bool" where
  "rd_like fl \<longleftrightarrow>
     \<not> has fl FCOM_FILE_STDIN \<and> \<not> has fl FCOM_FILE_STDOUT \<and> \<not> has fl FCOM_FILE_FAKEWRITE \<and> \<not> has fl FCOM_FILE_DIRECTIO \<and>
     fl AND FCOM_FILE_CREATE_TRUNC \<noteq> FCOM_FILE_CREATE_TRUNC \<and> \<not> writable fl \<and> open_oflags fl = {OReadonly, ONoatime} \<and>
     \<not> has fl (FCOM_FILE_STDIN OR FCOM_FILE_STDOUT)"

lemma rd_like_flags: "rd_like rd_flags" "rd_like FCOM_FILE_READ"
  by (auto simp: rd_like_def rd_flags_def has_def flag_simps writable_def open_oflags_def)

lemma reading_cong:
  assumes "\<And>fd. f_fd f = Some fd \<Longrightarrow> v_at V fd w' = v_at V fd w \<and> v_content V fd w' = v_content V fd w"
  shows "reading sys V f w' = reading sys V f w"
  using assms by (auto simp: reading_def read_inv_def split: option.splits)

lemma reading_close:
  assumes os: "os_files sys V" and f: "reading sys V f w"
  shows "\<exists>w'. file_close sys f w = Some (f\<lparr>f_fd := None, f_name := None\<rparr>, w') \<and> v_disk V w' = v_disk V w \<and>
    (\<forall>fd. v_at V fd w' = (if f_fd f = Some fd then None else v_at V fd w)) \<and>
    (\<forall>fd. f_fd f \<noteq> Some fd \<longrightarrow> v_content V fd w' = v_content V fd w)"
proof (cases "f_fd f")
  case None
  then have "f\<lparr>f_name := None\<rparr> = f\<lparr>f_fd := None, f_name := None\<rparr>" by simp
  with None show ?thesis by (simp add: file_close_def)
next
  case (Some fd)
  have "obj_sound f" using f by (simp add: reading_def)
  with Some have fl: "\<not> writable (f_flags f)" "\<not> has (f_flags f) (FCOM_FILE_STDIN OR FCOM_FILE_STDOUT)"
    by (simp_all add: obj_sound_def)
  obtain b w' where c: "fs_close sys (Some fd) w = (b, w')" by fastforce
  from os_files_names(3) [OF os c] Some fl c show ?thesis
    by (intro exI [of _ w']) (auto simp: file_close_def others_same_def)
qed

lemma reading_open:
  assumes os: "os_files sys V" and f: "reading sys V f w" and n: "v_disk V w n = Some d" and fl: "rd_like fl"
  shows "\<exists>f' w' fd. file_open sys f n fl w = Some (FOk, f', w') \<and> f_fd f' = Some fd \<and> f_name f' = Some n \<and>
    reading sys V f' w' \<and> v_content V fd w' = d \<and> v_disk V w' = v_disk V w \<and> f_cur f' = 0 \<and>
    (\<forall>fd'. v_at V fd' w' = (if fd' = fd then Some n else if f_fd f = Some fd' then None else v_at V fd' w)) \<and>
    (\<forall>fd'. fd' \<noteq> fd \<longrightarrow> f_fd f \<noteq> Some fd' \<longrightarrow> v_content V fd' w' = v_content V fd' w) \<and>
    (v_at V fd w = None \<or> f_fd f = Some fd)"
proof -
  obtain w1 where c: "file_close sys f w = Some (f\<lparr>f_fd := None, f_name := None\<rparr>, w1)" "v_disk V w1 = v_disk V w"
    "\<forall>fd. v_at V fd w1 = (if f_fd f = Some fd then None else v_at V fd w)"
    "\<forall>fd. f_fd f \<noteq> Some fd \<longrightarrow> v_content V fd w1 = v_content V fd w"
    using reading_close [OF os f] by blast
  obtain fd w2 where o1: "fs_open sys n {OReadonly, ONoatime} w1 = (Some fd, w2)" "v_at V fd w1 = None"
    "v_at V fd w2 = Some n" "others_same V fd w1 w2" "v_disk V w2 = v_disk V w1"
    using os_files_names(1) [OF os, of w1 n d] n c(2) by auto
  have d: "v_content V fd w2 = d" using os_filesD(7) [OF os o1(3)] o1(5) c(2) n by simp
  have no: "\<not> has fl FCOM_FILE_STDIN" "\<not> has fl FCOM_FILE_STDOUT" "\<not> has fl FCOM_FILE_FAKEWRITE" "\<not> has fl FCOM_FILE_DIRECTIO"
    "fl AND FCOM_FILE_CREATE_TRUNC \<noteq> FCOM_FILE_CREATE_TRUNC" "\<not> writable fl" "open_oflags fl = {OReadonly, ONoatime}"
    "\<not> has fl (FCOM_FILE_STDIN OR FCOM_FILE_STDOUT)" using fl by (simp_all add: rd_like_def)
  have l: "open_loop sys n fl (open_oflags fl) 0 w1 = ((Some fd, open_oflags fl), w2)"
    by (subst open_loop.simps) (simp add: no o1(1))
  define f' where "f' = f\<lparr>f_name := Some n, f_fd := Some fd, f_flags := fl, f_bufset := fbufset_reset (f_bufset f),
      f_size := 0, w_prealloc := 0, f_cur := 0, f_mtime := (0, 0)\<rparr>"
  have "file_open sys f n fl w = Some (FOk, f', w2)"
    using c(1) l by (simp add: file_open_def Let_def f'_def no)
  moreover have "reading sys V f' w2"
    using f o1(3) by (auto simp: reading_def obj_sound_def read_inv_def f'_def no fbufset_reset_def
        fbufset_coherent_def fbuf_coherent_def fbuf_data_def)
  moreover have "\<forall>fd'. v_at V fd' w2 = (if fd' = fd then Some n else if f_fd f = Some fd' then None else v_at V fd' w)"
    using o1(3,4) c(3) by (auto simp: others_same_def)
  moreover have "\<forall>fd'. fd' \<noteq> fd \<longrightarrow> f_fd f \<noteq> Some fd' \<longrightarrow> v_content V fd' w2 = v_content V fd' w"
    using o1(4) c(4) by (auto simp: others_same_def)
  moreover have "v_at V fd w = None \<or> f_fd f = Some fd" using o1(2) c(3) by (auto split: if_splits)
  ultimately show ?thesis using d o1(5) c(2) by (intro exI [of _ f'] exI [of _ w2] exI [of _ fd]) (simp add: f'_def)
qed

lemma file_read_same:
  assumes os: "os_files sys V" and rd: "file_read sys f off w = (x, f', w')" and fd: "f_fd f = Some fd"
    and fl: "\<not> has (f_flags f) FCOM_FILE_STDIN"
  shows "same V w w'"
  using file_read_world [OF rd fl] os_filesD(6) [OF os] fd same_refl by (metis prod.inject)

lemma reading_read:
  assumes os: "os_files sys V" and f: "reading sys V f w" and fd: "f_fd f = Some fd" and off: "off \<le> length (v_content V fd w)"
  shows "\<exists>c f' w'. file_read sys f (Some off) w = ((if off = length (v_content V fd w) then FEof else FOk, c), f', w') \<and>
    c = take (length c) (drop off (v_content V fd w)) \<and> (off < length (v_content V fd w) \<longrightarrow> c \<noteq> []) \<and>
    same V w w' \<and> reading sys V f' w' \<and> f_fd f' = Some fd \<and> f_name f' = f_name f \<and> f_cur f' = off + length c"
proof -
  obtain r c f' w' where x: "file_read sys f (Some off) w = ((r, c), f', w')" by (metis prod_cases4 prod.exhaust)
  have inv: "read_inv sys (v_content V fd) f w" and snd: "obj_sound f"
    and at: "v_at V fd w = f_name f" "f_name f \<noteq> None"
    using f fd by (simp_all add: reading_def)
  have ns: "\<not> has (f_flags f) FCOM_FILE_STDIN" using inv by (simp add: read_inv_def)
  have "read_post sys (v_content V fd) (v_content V fd w) off ((r, c), f', w')"
    using file_read_correct [of sys f "v_content V fd" w "Some off"] os_files_reads(1) [OF os, of fd] os_filesD(1) [OF os] inv off x fd
    by (simp add: read_off_def)
  moreover have "r = FOk \<or> r = FEof"
    using file_read_succeeds [of sys f "Some off" w] os_files_reads(2) [OF os, of fd] ns x fd by auto
  ultimately have p: "read_inv sys (v_content V fd) f' w'" "read_result (v_content V fd w) off r c" "f_cur f' = off + length c"
    by (auto simp: read_post_def)
  have fl: "f_fd f' = Some fd" "f_flags f' = f_flags f" "f_bufsize f' = f_bufsize f"
    using file_read_fields [OF x] fd by auto
  have nm: "f_name f' = f_name f" using x by (auto simp: file_read_def Let_def split: option.splits prod.splits if_splits)
  note s = file_read_same [OF os x fd ns]
  have "reading sys V f' w'"
    using p(1) snd fl fd at nm s by (simp add: reading_def obj_sound_def read_inv_def fbufset_coherent_def same_def)
  moreover have "r = (if off = length (v_content V fd w) then FEof else FOk)" "off < length (v_content V fd w) \<longrightarrow> c \<noteq> []"
    using p(2) off by (auto simp: read_result_def split: if_splits)
  moreover have "c = take (length c) (drop off (v_content V fd w))" using p(2) by (simp add: read_result_def)
  ultimately show ?thesis using x s fl nm p(3) by (intro exI [of _ c] exI [of _ f'] exI [of _ w']) simp
qed

text \<open>A read or write at the current offset is one at the offset \<open>f_cur\<close>.\<close>

lemma file_read_cur: "file_read sys f None w = file_read sys f (Some (f_cur f)) w"
  by (simp add: file_read_def)

lemma file_write_cur: "file_idle f \<Longrightarrow> file_write sys f d None w = file_write sys f d (Some (f_cur f)) w"
  unfolding file_write_def
  by (subst (1 2) write_loop.simps) (simp add: file_idle_def fw_cache_def)

lemma reading_seq:
  assumes os: "os_files sys V" and f: "reading sys V f w"
  shows "\<exists>f' w'. file_behaviour sys f FBehSeq w = Some (f', w') \<and> same V w w' \<and> reading sys V f' w' \<and>
    f_fd f' = f_fd f \<and> f_name f' = f_name f"
proof -
  define f' where "f' = f\<lparr>f_size := fs_size sys (f_fd f) w\<rparr>"
  define w' where "w' = snd (fs_readahead sys (f_fd f) (int (f_size f')) w)"
  have s: "same V w w'" unfolding w'_def by (rule os_files_calm(3) [OF os])
  have "reading sys V f' w = reading sys V f w" by (simp add: reading_def f'_def obj_sound_def read_inv_def cong: option.case_cong)
  then have "reading sys V f' w'" using f reading_cong [of f' V w' w sys] s by (simp add: same_def)
  moreover have "file_behaviour sys f FBehSeq w = Some (f', w')" by (simp add: file_behaviour_def f'_def w'_def Let_def)
  ultimately show ?thesis using s by (intro exI [of _ f'] exI [of _ w']) (simp add: f'_def)
qed

lemma reading_info:
  assumes os: "os_files sys V" and f: "reading sys V f w" and fd: "f_fd f = Some fd"
  shows "\<exists>i w'. file_info sys f w = ((FOk, Some i), w') \<and> same V w w' \<and> v_size V i = length (v_content V fd w) \<and> v_reg V i"
proof -
  obtain n where n: "f_name f = Some n" "v_at V fd w = Some n" using f fd by (auto simp: reading_def)
  then obtain i w' where i: "(if has (f_flags f) FCOM_FILE_INFO_NOFOLLOW then fs_info_link sys (f_name f) w else fs_info sys (f_fd f) w) = (Some i, w')"
    "same V w w'" "v_size V i = length (v_content V fd w)" "v_reg V i"
    using os_files_calm(5) [OF os os_filesD(7) [OF os n(2)]] os_files_calm(4) [OF os n(2)] fd
    by (cases "has (f_flags f) FCOM_FILE_INFO_NOFOLLOW") auto
  have "\<not> has (f_flags f) (FCOM_FILE_STDIN OR FCOM_FILE_STDOUT)"
    using f fd by (auto simp: reading_def obj_sound_def)
  then show ?thesis using i by (intro exI [of _ i] exI [of _ w']) (simp add: file_info_def)
qed

section \<open>The object that creates a file\<close>

definition creating :: "('w, 'i) fsview \<Rightarrow> fobj \<Rightarrow> 'w \<Rightarrow> bool" where
  "creating V f w \<longleftrightarrow>
     fbuf_wf (f_bufsize f) (f_wbuf f) \<and> file_idle f \<and>
     (case f_fd f of
        None \<Rightarrow> fb_len (f_wbuf f) = 0
      | Some fd \<Rightarrow> v_at V fd w = f_name f \<and> f_name f \<noteq> None \<and> \<not> has (f_flags f) FCOM_FILE_INFO_NOFOLLOW \<and>
          \<not> has (f_flags f) FCOM_FILE_STDIN \<and> appending fd (v_content V fd) f w)"

text \<open>\<open>cr_flags True\<close> is used with \<open>--overwrite\<close>.\<close>

definition cr_flags :: "bool \<Rightarrow> 32 word" where
  "cr_flags ow = FCOM_FILE_WRITE OR (if ow then FCOM_FILE_CREATE_TRUNC else FCOM_FILE_CREATENEW) OR FCOM_FILE_NO_PREALLOC"

text \<open>The flags that make a file, with and without \<open>--overwrite\<close>; \<open>new_flags\<close> lets the file module preallocate space.\<close>

definition new_flags :: "bool \<Rightarrow> 32 word" where
  "new_flags ow = FCOM_FILE_WRITE OR (if ow then FCOM_FILE_CREATE_TRUNC else FCOM_FILE_CREATENEW)"

definition cr_like :: "bool \<Rightarrow> 32 word \<Rightarrow> bool" where
  "cr_like ow fl \<longleftrightarrow>
     \<not> has fl FCOM_FILE_STDIN \<and> \<not> has fl FCOM_FILE_STDOUT \<and> \<not> has fl FCOM_FILE_FAKEWRITE \<and> \<not> has fl FCOM_FILE_DIRECTIO \<and>
     (fl AND FCOM_FILE_CREATE_TRUNC = FCOM_FILE_CREATE_TRUNC \<longleftrightarrow> ow) \<and> cached_flags fl \<and> \<not> has fl FCOM_FILE_INFO_NOFOLLOW \<and>
     open_oflags fl = {OWriteonly, if ow then OCreate else OCreatenew, ONoatime}"

lemma cr_like_flags: "cr_like ow (cr_flags ow)" "cr_like ow (new_flags ow)"
  by (cases ow; auto simp: cr_like_def cr_flags_def new_flags_def has_def flag_simps writable_def open_oflags_def cached_flags_def)+

lemma creating_cong:
  assumes "\<And>fd. f_fd f = Some fd \<Longrightarrow> v_at V fd w' = v_at V fd w \<and> v_content V fd w' = v_content V fd w"
  shows "creating V f w' = creating V f w"
  using assms
  by (auto simp: creating_def appending_def file_inv_def file_view_def file_kernel_def split: option.splits)

text \<open>What a flush does to the object.\<close>

definition flushed :: "fobj \<Rightarrow> fobj \<Rightarrow> bool" where
  "flushed f f' \<longleftrightarrow>
     f_fd f' = f_fd f \<and> f_name f' = f_name f \<and> f_flags f' = f_flags f \<and> f_bufsize f' = f_bufsize f \<and> f_cur f' = f_cur f \<and>
     f_wwrite f' = f_wwrite f \<and> f_wcont f' = f_wcont f \<and> w_async f' = w_async f \<and> f_mtime f' = f_mtime f"

lemma flush_loop_flushed:
  fixes sys :: "('w, 'i) sys"
  assumes "flush_loop sys f d off w = Some (r, f', w')"
  shows "flushed f f' \<and> (r = FOk \<longrightarrow> f_wbuf f' = fbuf_clear (f_wbuf f))"
proof -
  have "\<forall>r f' w'. x = (r, f', w') \<longrightarrow> flushed f f' \<and> (r = FOk \<longrightarrow> f_wbuf f' = fbuf_clear (f_wbuf f))"
    if "flush_loop sys f d off w = Some x" for x
  proof (rule flush_loop.raw_induct [where P = "\<lambda>sys f d off w x. \<forall>r f' w'. x = (r, f', w') \<longrightarrow>
      flushed f f' \<and> (r = FOk \<longrightarrow> f_wbuf f' = fbuf_clear (f_wbuf f))", OF _ that])
    fix loop and sys :: "('w, 'i) sys" and f d off w x
    assume ih: "\<And>sys f d off w x. loop sys f d off w = Some x \<Longrightarrow> \<forall>r f' w'. x = (r, f', w') \<longrightarrow>
        flushed f f' \<and> (r = FOk \<longrightarrow> f_wbuf f' = fbuf_clear (f_wbuf f))"
      and eq: "(if d = [] then Some (FOk, f\<lparr>f_wbuf := fbuf_clear (f_wbuf f)\<rparr>, w)
        else let x = f_write sys f d off w in case fst x of Inl e \<Rightarrow> Some (e, snd x)
          | Inr r \<Rightarrow> loop sys (fst (snd x)) (drop r d) (off + r) (snd (snd x))) = Some x"
    show "\<forall>r f' w'. x = (r, f', w') \<longrightarrow> flushed f f' \<and> (r = FOk \<longrightarrow> f_wbuf f' = fbuf_clear (f_wbuf f))"
    proof (cases "d = []")
      case True
      with eq show ?thesis by (auto simp: flushed_def)
    next
      case False
      obtain y f1 w1 where y: "f_write sys f d off w = (y, f1, w1)" by (metis prod_cases3)
      have fr: "flushed f f1" "f_wbuf f1 = f_wbuf f"
        using f_write_frame [OF y] by (simp_all add: same_cache_def flushed_def)
      show ?thesis
      proof (cases y)
        case (Inl e)
        have "e \<noteq> FOk" using y Inl by (auto simp: f_write_def Let_def split: if_splits prod.splits option.splits)
        with eq y False Inl fr show ?thesis by auto
      next
        case (Inr n)
        then have "loop sys f1 (drop n d) (off + n) w1 = Some x" using eq y False by simp
        note i = ih [OF this, rule_format]
        show ?thesis
        proof (intro allI impI)
          fix r f' w' assume "x = (r, f', w')"
          from i [OF this] fr show "flushed f f' \<and> (r = FOk \<longrightarrow> f_wbuf f' = fbuf_clear (f_wbuf f))"
            by (simp add: flushed_def)
        qed
      qed
    qed
  qed
  with assms show ?thesis by blast
qed

text \<open>A flush puts everything into the kernel and touches no other file.\<close>

lemma creating_flush:
  assumes os: "os_files sys V" and f: "creating V f w" and fd: "f_fd f = Some fd"
  shows "\<exists>f' w'. file_flush sys f w = Some (FOk, f', w') \<and> flushed f f' \<and> fb_len (f_wbuf f') = 0 \<and>
    file_inv fd (v_content V fd) f' w' \<and> file_kernel (v_content V fd) f' w' = file_view (v_content V fd) f w \<and>
    elsewhere V fd w' = elsewhere V fd w"
proof -
  have a: "appending fd (v_content V fd) f w" and inv: "file_inv fd (v_content V fd) f w"
    using f fd by (simp_all add: creating_def appending_def)
  obtain r f' w' where x: "file_flush sys f w = Some (r, f', w')" "file_inv fd (v_content V fd) f' w'"
    "r = FOk \<longrightarrow> file_kernel (v_content V fd) f' w' = file_view (v_content V fd) f w"
    using file_flush_correct [OF os_filesD(2) [OF os] inv] by blast
  have r: "r = FOk"
    using flush_loop_accepts [OF os_filesD(2,3) [OF os] inv x(1) [unfolded file_flush_def]] .
  have "\<not> has (f_flags f) FCOM_FILE_STDOUT" using inv by (simp add: file_inv_def cached_flags_def)
  then have "elsewhere V fd w' = elsewhere V fd w"
    using file_flush_keeps [OF x(1), of "elsewhere V fd"] os_filesD(5) [OF os] fd by simp
  then show ?thesis
    using x r flush_loop_flushed [OF x(1) [unfolded file_flush_def]] by (simp add: fbuf_clear_def)
qed

lemma elsewhere_sameD:
  assumes "elsewhere V fd w' = elsewhere V fd w"
  shows "v_at V fd' w' = v_at V fd' w" "v_at V fd w = Some t \<Longrightarrow> n \<noteq> t \<Longrightarrow> v_disk V w' n = v_disk V w n"
    "v_at V fd' w \<noteq> v_at V fd w \<Longrightarrow> v_content V fd' w' = v_content V fd' w"
proof -
  have 1: "(\<lambda>fd'. v_at V fd' w') = (\<lambda>fd'. v_at V fd' w)"
    and 2: "(\<lambda>n. if v_at V fd w' = Some n then None else v_disk V w' n) = (\<lambda>n. if v_at V fd w = Some n then None else v_disk V w n)"
    and 3: "(\<lambda>fd'. if v_at V fd' w' = v_at V fd w' then [] else v_content V fd' w') =
      (\<lambda>fd'. if v_at V fd' w = v_at V fd w then [] else v_content V fd' w)"
    using assms by (simp_all add: elsewhere_def)
  show at: "v_at V fd' w' = v_at V fd' w" for fd' using fun_cong [OF 1] .
  show "v_at V fd w = Some t \<Longrightarrow> n \<noteq> t \<Longrightarrow> v_disk V w' n = v_disk V w n" using fun_cong [OF 2, of n] at by simp
  show "v_at V fd' w \<noteq> v_at V fd w \<Longrightarrow> v_content V fd' w' = v_content V fd' w" using fun_cong [OF 3, of fd'] at by simp
qed

text \<open>The files without the one being created.\<close>

definition files_but :: "('w, 'i) fsview \<Rightarrow> bytes option \<Rightarrow> 'w \<Rightarrow> bytes \<rightharpoonup> bytes" where
  "files_but V t w = (\<lambda>n. if t = Some n then None else v_disk V w n)"

lemma elsewhere_files_but:
  "elsewhere V fd w' = elsewhere V fd w \<Longrightarrow> files_but V (v_at V fd w) w' = files_but V (v_at V fd w) w"
proof
  fix n assume e: "elsewhere V fd w' = elsewhere V fd w"
  show "files_but V (v_at V fd w) w' n = files_but V (v_at V fd w) w n"
    using elsewhere_sameD(2) [OF e, of "the (v_at V fd w)" n] fun_cong [OF conjunct1 [OF conjunct2 [OF e [unfolded elsewhere_def prod.inject]]], of n]
      elsewhere_sameD(1) [OF e, of fd] by (simp add: files_but_def)
qed

lemma creating_close:
  assumes os: "os_files sys V" and f: "creating V f w" and fd: "f_fd f = Some fd" and t: "f_name f = Some t"
  shows "\<exists>f' w'. file_close sys f w = Some (f', w') \<and> f_fd f' = None \<and> creating V f' w' \<and>
    v_disk V w' = (files_but V (Some t) w)(t \<mapsto> file_view (v_content V fd) f w) \<and>
    (\<forall>fd'. v_at V fd' w' = (if fd' = fd then None else v_at V fd' w)) \<and>
    (\<forall>fd'. v_at V fd' w \<noteq> Some t \<longrightarrow> v_content V fd' w' = v_content V fd' w)"
proof -
  have at: "v_at V fd w = Some t" and fl: "\<not> has (f_flags f) FCOM_FILE_STDIN" "cached_flags (f_flags f)"
    and wf: "fbuf_wf (f_bufsize f) (f_wbuf f)" "file_idle f"
    using f fd t by (auto simp: creating_def appending_def file_inv_def)
  obtain f1 w1 where 1: "file_flush sys f w = Some (FOk, f1, w1)" "flushed f f1" "fb_len (f_wbuf f1) = 0"
    "file_inv fd (v_content V fd) f1 w1" "file_kernel (v_content V fd) f1 w1 = file_view (v_content V fd) f w"
    "elsewhere V fd w1 = elsewhere V fd w"
    using creating_flush [OF os f fd] by blast
  obtain f2 w2 where 2: "prealloc_trunc sys f1 w1 = (f2, w2)" by fastforce
  have c2: "v_content V fd w2 = file_view (v_content V fd) f w"
    using prealloc_trunc_correct [OF os_filesD(2,3) [OF os] 1(4)] 2 1(5) by simp
  have f2: "flushed f f2" "f_wbuf f2 = f_wbuf f1"
    using 2 1(2) by (auto simp: prealloc_trunc_def flushed_def split: if_splits prod.splits bool.splits)
  have e2: "elsewhere V fd w2 = elsewhere V fd w"
    using prealloc_trunc_keeps [OF _ 2, of "elsewhere V fd"] os_filesD(5) [OF os] 1(2,6) fd by (simp add: flushed_def)
  define w3 where "w3 = mtime_set sys f2 w2"
  have s3: "same V w2 w3" unfolding w3_def mtime_set_def using os_files_calm(1) [OF os] same_refl by auto
  obtain b w4 where 4: "fs_close sys (Some fd) w3 = (b, w4)" by fastforce
  note cl = os_files_names(3) [OF os 4]
  define f' where "f' = f2\<lparr>f_fd := None, f_name := None\<rparr>"
  have no: "writable (f_flags f)" "\<not> has (f_flags f) (FCOM_FILE_STDIN OR FCOM_FILE_STDOUT)"
    using fl by (auto simp: cached_flags_def has_or)
  have close: "file_close sys f w = Some (f', w4)"
    using fd no 1(1) 2 f2(1) 4 by (simp add: file_close_def w3_def [symmetric] f'_def flushed_def)
  have wf1: "fbuf_wf (f_bufsize f1) (f_wbuf f1)" using 1(4) by (simp add: file_inv_def)
  have "creating V f' w4"
    using wf1 wf(2) f2 1(2,3) by (simp add: creating_def f'_def flushed_def file_idle_def)
  moreover have at2: "v_at V fd' w3 = v_at V fd' w" for fd'
    using s3 elsewhere_sameD(1) [OF e2] by (simp add: same_def)
  then have "\<forall>fd'. v_at V fd' w4 = (if fd' = fd then None else v_at V fd' w)"
    using cl by (auto simp: others_same_def)
  moreover have "\<forall>fd'. v_at V fd' w \<noteq> Some t \<longrightarrow> v_content V fd' w4 = v_content V fd' w"
  proof (intro allI impI)
    fix fd' assume ne: "v_at V fd' w \<noteq> Some t"
    then have "fd' \<noteq> fd" using at by auto
    then have "v_content V fd' w4 = v_content V fd' w3" using cl by (simp add: others_same_def)
    also have "\<dots> = v_content V fd' w2" using s3 by (simp add: same_def)
    also have "\<dots> = v_content V fd' w" by (rule elsewhere_sameD(3) [OF e2]) (simp add: ne at)
    finally show "v_content V fd' w4 = v_content V fd' w" .
  qed
  moreover have "v_disk V w4 = (files_but V (Some t) w)(t \<mapsto> file_view (v_content V fd) f w)"
  proof
    fix n
    have "v_disk V w3 t = Some (v_content V fd w3)" using os_filesD(7) [OF os] at2 at by simp
    then show "v_disk V w4 n = ((files_but V (Some t) w)(t \<mapsto> file_view (v_content V fd) f w)) n"
      using cl s3 c2 elsewhere_sameD(2) [OF e2 at, of n] by (auto simp: files_but_def same_def)
  qed
  ultimately show ?thesis using close by (intro exI [of _ f'] exI [of _ w4]) (simp add: f'_def)
qed

lemma creating_open:
  assumes os: "os_files sys V" and f: "creating V f w" and cl: "f_fd f = None" and n: "v_disk V w n = None \<or> ow" "v_new V n"
    and no: "\<And>fd. v_at V fd w \<noteq> Some n" and fl: "cr_like ow fl"
  shows "\<exists>f' w' fd. file_open sys f n fl w = Some (FOk, f', w') \<and> f_fd f' = Some fd \<and> f_name f' = Some n \<and>
    creating V f' w' \<and> file_view (v_content V fd) f' w' = [] \<and> v_content V fd w' = [] \<and>
    v_disk V w' = (v_disk V w)(n \<mapsto> []) \<and> v_at V fd w = None \<and>
    (\<forall>fd'. v_at V fd' w' = (if fd' = fd then Some n else v_at V fd' w)) \<and>
    (\<forall>fd'. v_at V fd' w \<noteq> None \<longrightarrow> v_content V fd' w' = v_content V fd' w)"
proof -
  have wf: "fbuf_wf (f_bufsize f) (f_wbuf f)" "file_idle f" "fb_len (f_wbuf f) = 0"
    using f cl by (simp_all add: creating_def)
  have cr: "\<not> has fl FCOM_FILE_STDIN" "\<not> has fl FCOM_FILE_STDOUT" "\<not> has fl FCOM_FILE_FAKEWRITE" "\<not> has fl FCOM_FILE_DIRECTIO"
    "fl AND FCOM_FILE_CREATE_TRUNC = FCOM_FILE_CREATE_TRUNC \<longleftrightarrow> ow" "cached_flags fl" "\<not> has fl FCOM_FILE_INFO_NOFOLLOW"
    "open_oflags fl = {OWriteonly, if ow then OCreate else OCreatenew, ONoatime}" using fl by (simp_all add: cr_like_def)
  have c: "file_close sys f w = Some (f\<lparr>f_name := None\<rparr>, w)" using cl by (simp add: file_close_def)
  let ?fl = "{OWriteonly, if ow then OCreate else OCreatenew, ONoatime}"
  obtain fd w2 where o1: "fs_open sys n ?fl w = (Some fd, w2)" "v_at V fd w = None" "v_at V fd w2 = Some n"
    "others_same V fd w w2" "\<forall>m. m \<noteq> n \<longrightarrow> v_disk V w2 m = v_disk V w m" "\<not> ow \<longrightarrow> v_disk V w2 n = Some []"
  proof (cases "v_disk V w n")
    case None
    have "?fl \<in> {{OWriteonly, OCreatenew, ONoatime}, {OWriteonly, OCreate, ONoatime}}" by simp
    from os_files_names(2) [OF os None n(2) this] that show ?thesis by auto
  next
    case (Some d)
    with n(1) have ow by simp
    with os_files_reopen [OF os Some] that show ?thesis by auto
  qed
  have l: "open_loop sys n fl (open_oflags fl) 0 w = ((Some fd, open_oflags fl), w2)"
    by (subst open_loop.simps) (simp add: cr o1(1))
  define f1 where "f1 = f\<lparr>f_name := Some n, f_fd := Some fd, f_flags := fl, f_bufset := fbufset_reset (f_bufset f),
      f_size := 0, w_prealloc := 0, f_cur := 0, f_mtime := (0, 0)\<rparr>"
  obtain w' where op: "file_open sys f n fl w = Some (FOk, f1, w')" "elsewhere V fd w' = elsewhere V fd w2" "v_content V fd w' = []"
  proof (cases ow)
    case False
    have "v_content V fd w2 = []" using os_filesD(7) [OF os o1(3)] o1(6) False by simp
    moreover have "file_open sys f n fl w = Some (FOk, f1, w2)"
      using c l False by (simp add: file_open_def Let_def f1_def cr)
    ultimately show ?thesis using that by blast
  next
    case True
    obtain ok w3 where tr: "fs_trunc sys (Some fd) 0 w2 = (ok, w3)" by fastforce
    have ok using os_filesD(3) [OF os, of fd] tr by (auto simp: os_accepts_def dest!: spec [of _ 0] spec [of _ w2])
    then have "v_content V fd w3 = []" using os_writeD(3) [OF os_filesD(2) [OF os]] tr by simp
    moreover have "file_open sys f n fl w = Some (FOk, f1, w3)"
      using c l True tr \<open>ok\<close> by (simp add: file_open_def file_trunc_def Let_def f1_def cr)
    moreover have "elsewhere V fd w3 = elsewhere V fd w2" using os_keepsD(2) [OF os_filesD(5) [OF os] tr] .
    ultimately show ?thesis using that by blast
  qed
  have at: "v_at V fd' w' = (if fd' = fd then Some n else v_at V fd' w)" for fd'
    using elsewhere_sameD(1) [OF op(2)] o1(3,4) by (simp add: others_same_def)
  have ct: "v_content V fd' w' = v_content V fd' w" if "v_at V fd' w \<noteq> None" for fd'
  proof -
    have "fd' \<noteq> fd" using that o1(2) by auto
    then have "v_at V fd' w2 \<noteq> v_at V fd w2" "v_content V fd' w2 = v_content V fd' w"
      using o1(3,4) no [of fd'] by (simp_all add: others_same_def)
    then show ?thesis using elsewhere_sameD(3) [OF op(2)] by simp
  qed
  have dn: "v_disk V w' n = Some []" using os_filesD(7) [OF os, of fd w' n] at op(3) by simp
  have "v_disk V w' m = ((v_disk V w)(n \<mapsto> [])) m" for m
    using dn o1(5) elsewhere_sameD(2) [OF op(2) o1(3), of m] by simp
  then have dk: "v_disk V w' = (v_disk V w)(n \<mapsto> [])" by (rule ext)
  have v: "file_view (v_content V fd) f1 w' = []"
    using op(3) wf(3) by (simp add: file_view_def file_kernel_def fbuf_view_def fbuf_data_def f1_def)
  moreover have "creating V f1 w'"
    using wf at op(3) v by (simp add: creating_def f1_def cr appending_def file_inv_def kernel_inv_def file_idle_def
        cache_tail_def)
  ultimately show ?thesis using op(1,3) o1(2) at ct dk
    by (intro exI [of _ f1] exI [of _ w'] exI [of _ fd]) (simp add: f1_def)
qed

lemma creating_info:
  assumes os: "os_files sys V" and f: "creating V f w" and fd: "f_fd f = Some fd"
  shows "\<exists>i w'. file_info sys f w = ((FOk, Some i), w') \<and> same V w w' \<and> v_size V i = length (v_content V fd w) \<and> v_reg V i"
proof -
  obtain n where n: "f_name f = Some n" "v_at V fd w = Some n" using f fd by (auto simp: creating_def)
  then obtain i w' where "fs_info sys (Some fd) w = (Some i, w')" "same V w w'"
    "v_size V i = length (v_content V fd w)" "v_reg V i"
    using os_files_calm(4) [OF os n(2)] by blast
  moreover have "\<not> has (f_flags f) FCOM_FILE_INFO_NOFOLLOW" "\<not> has (f_flags f) (FCOM_FILE_STDIN OR FCOM_FILE_STDOUT)"
    using f fd by (auto simp: creating_def appending_def file_inv_def cached_flags_def has_or)
  ultimately show ?thesis using fd by (simp add: file_info_def)
qed

text \<open>An operation on the open file that keeps it open: the other files and descriptors are as before.\<close>

definition keeps_rest :: "('w, 'i) fsview \<Rightarrow> fobj \<Rightarrow> 'w \<Rightarrow> fobj \<Rightarrow> 'w \<Rightarrow> bool" where
  "keeps_rest V f w f' w' \<longleftrightarrow>
     creating V f' w' \<and> f_fd f' = f_fd f \<and> f_name f' = f_name f \<and> files_but V (f_name f) w' = files_but V (f_name f) w \<and>
     (\<forall>fd. v_at V fd w' = v_at V fd w) \<and>
     (\<forall>fd. v_at V fd w \<noteq> f_name f \<longrightarrow> v_content V fd w' = v_content V fd w)"

lemma keeps_restI:
  assumes "creating V f w" and "f_fd f = Some fd" and "creating V f' w'" and "f_fd f' = f_fd f" and "f_name f' = f_name f"
    and e: "elsewhere V fd w' = elsewhere V fd w"
  shows "keeps_rest V f w f' w'"
proof -
  have at: "v_at V fd w = f_name f" using assms(1,2) by (simp add: creating_def)
  show ?thesis
    using assms(3-5) elsewhere_sameD(1) [OF e] elsewhere_sameD(3) [OF e] elsewhere_files_but [OF e] at
    by (simp add: keeps_rest_def)
qed

lemma creating_trunc:
  assumes os: "os_files sys V" and f: "creating V f w" and fd: "f_fd f = Some fd"
    and z: "file_view (v_content V fd) f w = []" "v_content V fd w = []"
  shows "\<exists>f' w'. file_trunc sys f (Some n) w = (FOk, f', w') \<and> keeps_rest V f w f' w' \<and>
    file_view (v_content V fd) f' w' = []"
proof -
  have a: "file_inv fd (v_content V fd) f w" "f_cur f = 0" "cache_tail f" "file_idle f"
    using f fd z(1) by (auto simp: creating_def appending_def)
  then have s0: "f_size f = 0" using z(2) by (simp add: file_inv_def kernel_inv_def)
  have b: "fb_len (f_wbuf f) = 0 \<or> fbuf_data (f_wbuf f) = []"
    using z a by (auto simp: file_view_def file_kernel_def fbuf_view_def overlay_def fbuf_data_def split: if_splits)
  define f1 where "f1 = f\<lparr>w_prealloc := n\<rparr>"
  obtain ok w' where t: "fs_trunc sys (Some fd) n w = (ok, w')" by fastforce
  have ok using os_filesD(3) [OF os, of fd] t by (auto simp: os_accepts_def dest!: spec [of _ n] spec [of _ w])
  then have c: "v_content V fd w' = replicate n (CHR 0x00)" using os_writeD(3) [OF os_filesD(2) [OF os]] t z(2) by simp
  have "file_trunc sys f (Some n) w = (FOk, f1, w')" using t \<open>ok\<close> fd by (simp add: file_trunc_def f1_def)
  moreover have v: "file_view (v_content V fd) f1 w' = []"
    using z s0 by (simp add: file_view_def file_kernel_def f1_def)
  have e: "elsewhere V fd w' = elsewhere V fd w" using os_keepsD(2) [OF os_filesD(5) [OF os] t] .
  have "v_at V fd w' = v_at V fd w" by (rule elsewhere_sameD(1) [OF e])
  then have "creating V f1 w'"
    using f fd a c v s0 by (simp add: creating_def appending_def file_inv_def kernel_inv_def f1_def file_idle_def cache_tail_def)
  then have "keeps_rest V f w f1 w'" by (intro keeps_restI [OF f fd _ _ _ e]) (simp_all add: f1_def)
  ultimately show ?thesis using v by blast
qed

lemma creating_write:
  assumes os: "os_files sys V" and f: "creating V f w" and fd: "f_fd f = Some fd"
  shows "\<exists>f' w'. file_write sys f d (Some (length (file_view (v_content V fd) f w))) w = (FOk, f', w') \<and>
    keeps_rest V f w f' w' \<and> file_view (v_content V fd) f' w' = file_view (v_content V fd) f w @ d"
proof -
  have a: "appending fd (v_content V fd) f w" and cur: "f_cur f = length (file_view (v_content V fd) f w)"
    and no: "\<not> has (f_flags f) FCOM_FILE_STDOUT"
    using f fd by (simp_all add: creating_def appending_def file_inv_def cached_flags_def)
  obtain f' w' where x: "file_write sys f d (Some (f_cur f)) w = (FOk, f', w')" "appending fd (v_content V fd) f' w'"
    "file_view (v_content V fd) f' w' = file_view (v_content V fd) f w @ d"
    using file_write_appends [OF os_filesD(2,1,3,4) [OF os] a] by blast
  have e: "elsewhere V fd w' = elsewhere V fd w"
    using file_write_keeps [OF x(1), of "elsewhere V fd"] os_filesD(5) [OF os] no fd by simp
  have fr: "f_bufsize f' = f_bufsize f" "f_name f' = f_name f" "f_fd f' = f_fd f"
    "has (f_flags f') FCOM_FILE_INFO_NOFOLLOW = has (f_flags f) FCOM_FILE_INFO_NOFOLLOW"
    "has (f_flags f') FCOM_FILE_STDIN = has (f_flags f) FCOM_FILE_STDIN"
    using file_write_bufsize [OF x(1)] file_write_names [OF x(1)] x(2) fd by (simp_all add: appending_def file_inv_def)
  have "v_at V fd w' = v_at V fd w" by (rule elsewhere_sameD(1) [OF e])
  then have "creating V f' w'"
    using f fd x(2) fr by (simp add: creating_def appending_def file_inv_def)
  then have "keeps_rest V f w f' w'" by (intro keeps_restI [OF f fd _ _ _ e]) (simp_all add: fr)
  then show ?thesis using x(1,3) cur by auto
qed

lemma creating_sync:
  assumes os: "os_files sys V" and f: "creating V f w" and fd: "f_fd f = Some fd"
  shows "\<exists>f' w'. file_behaviour sys f FBehTruncPrealloc w = Some (f', w') \<and> keeps_rest V f w f' w' \<and>
    file_view (v_content V fd) f' w' = file_view (v_content V fd) f w"
proof -
  have a: "f_cur f = length (file_view (v_content V fd) f w)" "file_idle f"
    using f fd by (simp_all add: creating_def appending_def)
  obtain f1 w1 where 1: "file_flush sys f w = Some (FOk, f1, w1)" "flushed f f1" "fb_len (f_wbuf f1) = 0"
    "file_inv fd (v_content V fd) f1 w1" "file_kernel (v_content V fd) f1 w1 = file_view (v_content V fd) f w"
    "elsewhere V fd w1 = elsewhere V fd w"
    using creating_flush [OF os f fd] by blast
  obtain f2 w2 where 2: "prealloc_trunc sys f1 w1 = (f2, w2)" by fastforce
  have c2: "v_content V fd w2 = file_view (v_content V fd) f w"
    using prealloc_trunc_correct [OF os_filesD(2,3) [OF os] 1(4)] 2 1(5) by simp
  have f2: "flushed f f2" "f_wbuf f2 = f_wbuf f1" "f_size f2 = f_size f1"
    "w_prealloc f2 = w_prealloc f1 \<or> w_prealloc f2 = f_size f1"
    using 2 1(2) by (auto simp: prealloc_trunc_def flushed_def split: if_splits prod.splits bool.splits)
  have e2: "elsewhere V fd w2 = elsewhere V fd w"
    using prealloc_trunc_keeps [OF _ 2, of "elsewhere V fd"] os_filesD(5) [OF os] 1(2,6) fd by (simp add: flushed_def)
  have len: "length (file_view (v_content V fd) f w) = f_size f1" "f_size f1 \<le> w_prealloc f1"
    using 1(4) by (auto simp: 1(5) [symmetric] file_inv_def kernel_inv_def file_kernel_def)
  have k: "kernel_inv (f_size f2) (w_prealloc f2) (v_content V fd w2)"
    using c2 len f2(3,4) by (auto simp: kernel_inv_def)
  have v: "file_view (v_content V fd) f2 w2 = file_view (v_content V fd) f w"
    using c2 f2(2,3) 1(3) len by (simp add: file_view_def [of _ f2] file_kernel_def fbuf_view_def fbuf_data_def)
  have "v_at V fd w2 = v_at V fd w" by (rule elsewhere_sameD(1) [OF e2])
  then have "creating V f2 w2"
    using f fd f2 1(2-4) k v a by (simp add: creating_def appending_def file_inv_def flushed_def file_idle_def cache_tail_def)
  then have "keeps_rest V f w f2 w2" by (rule keeps_restI [OF f fd]) (use f2(1) e2 in \<open>simp_all add: flushed_def\<close>)
  then show ?thesis using 1(1) 2 v by (intro exI [of _ f2] exI [of _ w2]) (simp add: file_behaviour_def)
qed

lemma creating_mtime:
  assumes f: "creating V f w" and fd: "f_fd f = Some fd"
  shows "\<exists>f'. file_mtime_set f t = (FOk, f') \<and> keeps_rest V f w f' w \<and> file_view c f' w = file_view c f w"
proof -
  define f' where "f' = f\<lparr>f_mtime := t\<rparr>"
  have v: "file_view c f' w = file_view c f w" for c :: "'a \<Rightarrow> bytes" by (simp add: file_view_def file_kernel_def f'_def)
  have "file_mtime_set f t = (FOk, f')"
    using f fd by (simp add: file_mtime_set_def f'_def creating_def appending_def file_inv_def cached_flags_def)
  moreover have "creating V f' w"
    using f fd v [of "v_content V fd"]
    by (auto simp: creating_def appending_def file_inv_def file_idle_def cache_tail_def f'_def)
  then have "keeps_rest V f w f' w" by (rule keeps_restI [OF f fd]) (simp_all add: f'_def)
  ultimately show ?thesis using v by blast
qed

lemma keeps_rest_same:
  assumes "creating V f w" and "f_fd f = Some fd" and s: "same V w w'"
  shows "keeps_rest V f w f w'" and "file_view (v_content V fd) f w' = file_view (v_content V fd) f w"
proof -
  have "creating V f w' = creating V f w" by (rule creating_cong) (use s in \<open>simp add: same_def\<close>)
  then show "keeps_rest V f w f w'" using assms by (auto simp: keeps_rest_def same_def files_but_def)
  show "file_view (v_content V fd) f w' = file_view (v_content V fd) f w"
    using s by (simp add: file_view_def file_kernel_def same_def)
qed

end
