(* ===== verification/Store.thy ===== *)
theory Store
  imports Disk
begin

text \<open>
  The contract an operation that makes a file from an input file relies on, over an abstract
  store: the files, what the input object reads, the file the output object is creating (not yet one
  of the files), the input names to come. Every call of the interface that the code makes on the way
  is a step of the store; the program's own tables of \<^theory_text>\<open>CoreOf\<close> over the kernel of \<^theory_text>\<open>Disk\<close> fulfil it.
\<close>

record store =
  st_files :: "bytes \<rightharpoonup> bytes"
  st_src :: "(bytes \<times> bytes) option"
  st_dst :: "(bytes \<times> bytes) option"
  st_names :: "bytes list"
  st_pass :: "bytes \<Rightarrow> bool"

text \<open>The action returns \<open>r\<close> in a state that stands for \<open>A\<close>.\<close>

definition gives :: "('s \<Rightarrow> 'q option) \<Rightarrow> ('a \<times> 's) option \<Rightarrow> 'a \<Rightarrow> 'q \<Rightarrow> bool" where
  "gives stands x r A \<longleftrightarrow> (\<exists>s'. x = Some (r, s') \<and> stands s' = Some A)"

lemma givesE: "gives stands x r A \<Longrightarrow> (\<And>s'. x = Some (r, s') \<Longrightarrow> stands s' = Some A \<Longrightarrow> P) \<Longrightarrow> P"
  by (auto simp: gives_def)

locale copy_store =
  fixes C :: "('s, 'i) coreif" and rename :: "bytes \<Rightarrow> bytes \<Rightarrow> ('s, bool) act" and i1 o1 :: nat
    and isz :: "'i \<Rightarrow> nat" and reg :: "'i \<Rightarrow> bool" and new :: "bytes \<Rightarrow> bool" and stands :: "'s \<Rightarrow> store option"
  assumes cs_next: "stands s = Some A \<Longrightarrow> st_names A = n # ns \<Longrightarrow>
      \<exists>b. gives stands (com_input_next C 0 s) (ROk n b) (A\<lparr>st_names := ns\<rparr>)"
    and cs_last: "stands s = Some A \<Longrightarrow> st_names A = [] \<Longrightarrow> gives stands (com_input_next C 0 s) RNomore A"
    and cs_allowed: "stands s = Some A \<Longrightarrow> gives stands (com_input_allowed C n IaFile s) (st_pass A n) A"
    and cs_open_src: "stands s = Some A \<Longrightarrow> st_files A n = Some d \<Longrightarrow>
      gives stands (fi_open C i1 n rd_flags s) FOk (A\<lparr>st_src := Some (n, d)\<rparr>)"
    and cs_info_src: "stands s = Some A \<Longrightarrow> st_src A = Some (n, d) \<Longrightarrow>
      \<exists>fi. gives stands (fi_info C i1 s) (FOk, Some fi) A \<and> isz fi = length d \<and> reg fi"
    and cs_read: "stands s = Some A \<Longrightarrow> st_src A = Some (n, d) \<Longrightarrow> off \<le> length d \<Longrightarrow>
      \<exists>c. gives stands (fi_read C i1 (Some off) s) (if off = length d then FEof else FOk, c) A \<and>
        c = take (length c) (drop off d) \<and> (off < length d \<longrightarrow> c \<noteq> [])"
    and cs_seq: "stands s = Some A \<Longrightarrow> gives stands (fi_behaviour C i1 FBehSeq s) () A"
    and cs_touch: "stands s = Some A \<Longrightarrow> st_dst A = None \<Longrightarrow> st_files A n = None \<or> ow \<Longrightarrow> (\<And>d. st_src A \<noteq> Some (n, d)) \<Longrightarrow> new n \<Longrightarrow>
      \<exists>s1 fi s2. fi_open C o1 n (cr_flags ow) s = Some (FOk, s1) \<and> fi_info C o1 s1 = Some ((FOk, Some fi), s2) \<and> isz fi = 0 \<and>
        gives stands (fi_close C o1 s2) () (A\<lparr>st_files := (st_files A)(n \<mapsto> [])\<rparr>)"
    and cs_create: "stands s = Some A \<Longrightarrow> st_dst A = None \<Longrightarrow> st_files A n = None \<Longrightarrow> new n \<Longrightarrow>
      \<exists>s1 fi s2. fi_open C o1 n (cr_flags ow) s = Some (FOk, s1) \<and> fi_info C o1 s1 = Some ((FOk, Some fi), s2) \<and> isz fi = 0 \<and>
        gives stands (fi_trunc C o1 (Some k) s2) FOk (A\<lparr>st_dst := Some (n, [])\<rparr>)"
    and cs_write: "stands s = Some A \<Longrightarrow> st_dst A = Some (n, x) \<Longrightarrow>
      gives stands (fi_write C o1 d (Some (length x)) s) FOk (A\<lparr>st_dst := Some (n, x @ d)\<rparr>)"
    and cs_sync: "stands s = Some A \<Longrightarrow> st_dst A = Some (n, x) \<Longrightarrow> gives stands (fi_behaviour C o1 FBehTruncPrealloc s) () A"
    and cs_mtime: "stands s = Some A \<Longrightarrow> st_dst A = Some (n, x) \<Longrightarrow> gives stands (fi_mtime_set C o1 t s) FOk A"
    and cs_attr: "stands s = Some A \<Longrightarrow> st_dst A = Some (n, x) \<Longrightarrow> \<exists>r. gives stands (fi_attr_set C o1 att s) r A"
    and cs_close: "stands s = Some A \<Longrightarrow> st_dst A = Some (n, x) \<Longrightarrow>
      gives stands (fi_close C o1 s) () (A\<lparr>st_files := (st_files A)(n \<mapsto> x), st_dst := None\<rparr>)"
    and cs_closed: "stands s = Some A \<Longrightarrow> st_dst A = None \<Longrightarrow> gives stands (fi_close C o1 s) () A"
    and cs_rename: "stands s = Some A \<Longrightarrow> st_dst A = None \<Longrightarrow> st_files A a = Some c \<Longrightarrow>
      (\<And>d. st_src A \<noteq> Some (a, d) \<and> st_src A \<noteq> Some (b, d)) \<Longrightarrow>
      gives stands (rename a b s) True (A\<lparr>st_files := (st_files A)(a := None, b \<mapsto> c)\<rparr>)"
    and cs_del: "stands s = Some A \<Longrightarrow> st_dst A = None \<Longrightarrow> st_files A a = Some c \<Longrightarrow> (\<And>d. st_src A \<noteq> Some (a, d)) \<Longrightarrow>
      gives stands (fi_del C a s) True (A\<lparr>st_files := (st_files A)(a := None)\<rparr>)"
    and cs_destroy_open: "stands s = Some A \<Longrightarrow> st_dst A = Some (n, x) \<Longrightarrow>
      gives stands (fi_destroy C o1 s) () (A\<lparr>st_files := (st_files A)(n \<mapsto> x), st_dst := None\<rparr>)"
    and cs_destroy_dst: "stands s = Some A \<Longrightarrow> st_dst A = None \<Longrightarrow> gives stands (fi_destroy C o1 s) () A"
    and cs_destroy_src: "stands s = Some A \<Longrightarrow> gives stands (fi_destroy C i1 s) () (A\<lparr>st_src := None\<rparr>)"
    and cs_runs: "stands s = Some A \<Longrightarrow> \<not> stop_flag C s"

section \<open>Two objects on the disk\<close>

definition pair_ok :: "('w, 'i) sys \<Rightarrow> ('w, 'i) fsview \<Rightarrow> fobj \<Rightarrow> fobj \<Rightarrow> 'w \<Rightarrow> bool" where
  "pair_ok sys V fi fo w \<longleftrightarrow>
     reading sys V fi w \<and> creating V fo w \<and>
     (\<forall>fd n. v_at V fd w = Some n \<longrightarrow> f_fd fi = Some fd \<or> f_fd fo = Some fd) \<and>
     (f_fd fi \<noteq> None \<and> f_fd fo \<noteq> None \<longrightarrow> f_name fi \<noteq> f_name fo)"

definition dst_name :: "fobj \<Rightarrow> bytes option" where
  "dst_name f = (if f_fd f = None then None else f_name f)"

definition src_of :: "('w, 'i) fsview \<Rightarrow> fobj \<Rightarrow> 'w \<Rightarrow> (bytes \<times> bytes) option" where
  "src_of V f w = map_option (\<lambda>fd. (the (f_name f), v_content V fd w)) (f_fd f)"

definition dst_of :: "('w, 'i) fsview \<Rightarrow> fobj \<Rightarrow> 'w \<Rightarrow> (bytes \<times> bytes) option" where
  "dst_of V f w = map_option (\<lambda>fd. (the (f_name f), file_view (v_content V fd) f w)) (f_fd f)"

text \<open>What the pair of objects stands for: the files, the input and the output.\<close>

definition pair_view :: "('w, 'i) fsview \<Rightarrow> fobj \<Rightarrow> fobj \<Rightarrow> 'w \<Rightarrow> (bytes \<rightharpoonup> bytes) \<times> (bytes \<times> bytes) option \<times> (bytes \<times> bytes) option" where
  "pair_view V fi fo w = (files_but V (dst_name fo) w, src_of V fi w, dst_of V fo w)"

lemma pair_at:
  assumes "pair_ok sys V fi fo w"
  shows "f_fd fi = Some fd \<Longrightarrow> v_at V fd w = f_name fi \<and> f_name fi \<noteq> None"
    and "f_fd fo = Some fd \<Longrightarrow> v_at V fd w = f_name fo \<and> f_name fo \<noteq> None"
    and "f_fd fi = Some fd \<Longrightarrow> f_fd fo = Some fd' \<Longrightarrow> fd \<noteq> fd' \<and> f_name fi \<noteq> f_name fo"
    and "reading sys V fi w" and "creating V fo w"
  using assms by (auto simp: pair_ok_def reading_def creating_def split: option.splits)

lemma files_but_cong: "v_disk V w' = v_disk V w \<Longrightarrow> files_but V t w' = files_but V t w"
  by (auto simp: files_but_def fun_eq_iff)

text \<open>The world changes for neither object.\<close>

lemma pair_same:
  assumes ok: "pair_ok sys V fi fo w" and s: "same V w w'"
  shows "pair_ok sys V fi fo w'" and "pair_view V fi fo w' = pair_view V fi fo w"
proof -
  have "reading sys V fi w' = reading sys V fi w" "creating V fo w' = creating V fo w"
    using reading_cong [of fi V w' w] creating_cong [of fo V w' w] s by (simp_all add: same_def)
  then show "pair_ok sys V fi fo w'" using ok s by (simp add: pair_ok_def same_def)
  have "(\<lambda>fd. (the (f_name fo), file_view (v_content V fd) fo w')) = (\<lambda>fd. (the (f_name fo), file_view (v_content V fd) fo w))"
    "(\<lambda>fd. (the (f_name fi), v_content V fd w')) = (\<lambda>fd. (the (f_name fi), v_content V fd w))"
    using s by (simp_all add: fun_eq_iff file_view_def file_kernel_def same_def)
  then show "pair_view V fi fo w' = pair_view V fi fo w"
    using s by (simp add: pair_view_def src_of_def dst_of_def files_but_cong [of V w' w] same_def)
qed

text \<open>The input object changes, the file it reads does not.\<close>

lemma pair_src_same:
  assumes ok: "pair_ok sys V fi fo w" and s: "same V w w'" and f: "reading sys V fi' w'" "f_fd fi' = f_fd fi" "f_name fi' = f_name fi"
  shows "pair_ok sys V fi' fo w'" and "pair_view V fi' fo w' = pair_view V fi fo w"
proof -
  note p = pair_same [OF ok s]
  from p(1) f show "pair_ok sys V fi' fo w'" by (simp add: pair_ok_def)
  from p(2) f show "pair_view V fi' fo w' = pair_view V fi fo w" by (simp add: pair_view_def src_of_def)
qed

lemma pair_open_src:
  assumes os: "os_files sys V" and ok: "pair_ok sys V fi fo w" and n: "files_but V (dst_name fo) w n = Some d"
    and fl: "rd_like fl"
  shows "\<exists>fi' w'. file_open sys fi n fl w = Some (FOk, fi', w') \<and> pair_ok sys V fi' fo w' \<and> f_cur fi' = 0 \<and>
    pair_view V fi' fo w' = (files_but V (dst_name fo) w, Some (n, d), dst_of V fo w)"
proof -
  have nd: "v_disk V w n = Some d" "dst_name fo \<noteq> Some n" using n by (auto simp: files_but_def split: if_splits)
  obtain fi' w' fd where o: "file_open sys fi n fl w = Some (FOk, fi', w')" "f_fd fi' = Some fd" "f_name fi' = Some n"
    "reading sys V fi' w'" "v_content V fd w' = d" "v_disk V w' = v_disk V w"
    "\<forall>fd'. v_at V fd' w' = (if fd' = fd then Some n else if f_fd fi = Some fd' then None else v_at V fd' w)"
    "\<forall>fd'. fd' \<noteq> fd \<longrightarrow> f_fd fi \<noteq> Some fd' \<longrightarrow> v_content V fd' w' = v_content V fd' w"
    "v_at V fd w = None \<or> f_fd fi = Some fd" "f_cur fi' = 0"
    using reading_open [OF os pair_at(4) [OF ok] nd(1) fl] by blast
  have fo: "v_at V fd' w' = v_at V fd' w \<and> v_content V fd' w' = v_content V fd' w" if "f_fd fo = Some fd'" for fd'
  proof -
    have "fd' \<noteq> fd" using o(9) pair_at(2) [OF ok that] pair_at(3) [OF ok _ that] by auto
    moreover have "f_fd fi \<noteq> Some fd'" using pair_at(3) [OF ok _ that] by auto
    ultimately show ?thesis using o(7,8) by simp
  qed
  have "creating V fo w'" using creating_cong [of fo V w' w] fo pair_at(5) [OF ok] by simp
  moreover have "f_fd fo \<noteq> None \<longrightarrow> f_name fi' \<noteq> f_name fo" using nd(2) o(3) by (auto simp: dst_name_def)
  moreover have "f_fd fi' = Some fd' \<or> f_fd fo = Some fd'" if at: "v_at V fd' w' = Some m" for fd' m
  proof (cases "fd' = fd")
    case False
    then have "f_fd fi \<noteq> Some fd'" "v_at V fd' w = Some m" using at o(7) by (auto split: if_splits)
    then show ?thesis using ok by (auto simp: pair_ok_def)
  qed (use o(2) in simp)
  ultimately have "pair_ok sys V fi' fo w'" using o(4) by (simp add: pair_ok_def)
  moreover have "dst_of V fo w' = dst_of V fo w"
    using fo by (cases "f_fd fo") (auto simp: dst_of_def file_view_def file_kernel_def)
  moreover have "files_but V t w' = files_but V t w" for t using o(6) by (rule files_but_cong)
  ultimately show ?thesis using o(1-3,5,10) by (intro exI [of _ fi'] exI [of _ w']) (simp add: pair_view_def src_of_def)
qed

text \<open>The output object changes its own file only.\<close>

lemma pair_dst_keeps:
  assumes ok: "pair_ok sys V fi fo w" and fd: "f_fd fo = Some fd" and k: "keeps_rest V fo w fo' w'"
  shows "pair_ok sys V fi fo' w'" and "pair_view V fi fo' w' =
    (files_but V (dst_name fo) w, src_of V fi w, Some (the (f_name fo), file_view (v_content V fd) fo' w'))"
proof -
  have k': "creating V fo' w'" "f_fd fo' = Some fd" "f_name fo' = f_name fo" "files_but V (f_name fo) w' = files_but V (f_name fo) w"
    "\<forall>fd. v_at V fd w' = v_at V fd w" "\<forall>fd. v_at V fd w \<noteq> f_name fo \<longrightarrow> v_content V fd w' = v_content V fd w"
    using k fd by (auto simp: keeps_rest_def)
  have fi: "v_at V fd' w' = v_at V fd' w \<and> v_content V fd' w' = v_content V fd' w" if "f_fd fi = Some fd'" for fd'
    using k'(5,6) pair_at(1) [OF ok that] pair_at(3) [OF ok that fd] by simp
  have "reading sys V fi w'" using reading_cong [of fi V w' w] fi pair_at(4) [OF ok] by simp
  then show "pair_ok sys V fi fo' w'" using ok k' fd by (simp add: pair_ok_def)
  have "src_of V fi w' = src_of V fi w" using fi by (cases "f_fd fi") (auto simp: src_of_def)
  then show "pair_view V fi fo' w' =
      (files_but V (dst_name fo) w, src_of V fi w, Some (the (f_name fo), file_view (v_content V fd) fo' w'))"
    using k' fd by (simp add: pair_view_def dst_of_def dst_name_def)
qed

lemma pair_open_dst:
  assumes os: "os_files sys V" and ok: "pair_ok sys V fi fo w" and cl: "f_fd fo = None"
    and n: "files_but V (dst_name fo) w n = None \<or> ow" "v_new V n" and src: "\<And>d. src_of V fi w \<noteq> Some (n, d)"
    and fl: "cr_like ow fl"
  shows "\<exists>fo' w' fd. file_open sys fo n fl w = Some (FOk, fo', w') \<and> pair_ok sys V fi fo' w' \<and>
    f_fd fo' = Some fd \<and> f_name fo' = Some n \<and> v_content V fd w' = [] \<and>
    pair_view V fi fo' w' = ((files_but V (dst_name fo) w)(n := None), src_of V fi w, Some (n, []))"
proof -
  have nd: "v_disk V w n = None \<or> ow" using n(1) cl by (simp add: files_but_def dst_name_def)
  have sn: "f_name fi \<noteq> Some n" if "f_fd fi = Some fd'" for fd'
    using src [of "v_content V fd' w"] that by (auto simp: src_of_def)
  have no: "v_at V fd w \<noteq> Some n" for fd
  proof
    assume at: "v_at V fd w = Some n"
    then have "f_fd fi = Some fd" using ok cl by (auto simp: pair_ok_def)
    then show False using pair_at(1) [OF ok] sn at by auto
  qed
  obtain fo' w' fd where o: "file_open sys fo n fl w = Some (FOk, fo', w')" "f_fd fo' = Some fd" "f_name fo' = Some n"
    "creating V fo' w'" "file_view (v_content V fd) fo' w' = []" "v_content V fd w' = []"
    "v_disk V w' = (v_disk V w)(n \<mapsto> [])" "v_at V fd w = None"
    "\<forall>fd'. v_at V fd' w' = (if fd' = fd then Some n else v_at V fd' w)"
    "\<forall>fd'. v_at V fd' w \<noteq> None \<longrightarrow> v_content V fd' w' = v_content V fd' w"
    using creating_open [OF os pair_at(5) [OF ok] cl nd n(2) no fl] by blast
  have fi: "v_at V fd' w' = v_at V fd' w \<and> v_content V fd' w' = v_content V fd' w" if "f_fd fi = Some fd'" for fd'
    using o(8-10) pair_at(1) [OF ok that] by auto
  have "reading sys V fi w'" using reading_cong [of fi V w' w] fi pair_at(4) [OF ok] by simp
  moreover have "\<forall>fd' m. v_at V fd' w' = Some m \<longrightarrow> f_fd fi = Some fd' \<or> f_fd fo' = Some fd'"
    using ok o(2,9) cl by (auto simp: pair_ok_def)
  ultimately have "pair_ok sys V fi fo' w'" using o(2-4) sn by (auto simp: pair_ok_def)
  moreover have "src_of V fi w' = src_of V fi w" using fi by (cases "f_fd fi") (auto simp: src_of_def)
  moreover have "files_but V (Some n) w' = (files_but V None w)(n := None)" using o(7) by (auto simp: files_but_def fun_eq_iff)
  ultimately show ?thesis using o(1-3,5,6) cl
    by (intro exI [of _ fo'] exI [of _ w'] exI [of _ fd]) (simp add: pair_view_def dst_of_def dst_name_def)
qed

lemma pair_close_dst:
  assumes os: "os_files sys V" and ok: "pair_ok sys V fi fo w" and fd: "f_fd fo = Some fd" and t: "f_name fo = Some t"
  shows "\<exists>fo' w'. file_close sys fo w = Some (fo', w') \<and> pair_ok sys V fi fo' w' \<and>
    pair_view V fi fo' w' = ((files_but V (dst_name fo) w)(t \<mapsto> file_view (v_content V fd) fo w), src_of V fi w, None)"
proof -
  obtain fo' w' where c: "file_close sys fo w = Some (fo', w')" "f_fd fo' = None" "creating V fo' w'"
    "v_disk V w' = (files_but V (Some t) w)(t \<mapsto> file_view (v_content V fd) fo w)"
    "\<forall>fd'. v_at V fd' w' = (if fd' = fd then None else v_at V fd' w)"
    "\<forall>fd'. v_at V fd' w \<noteq> Some t \<longrightarrow> v_content V fd' w' = v_content V fd' w"
    using creating_close [OF os pair_at(5) [OF ok] fd t] by blast
  have fi: "v_at V fd' w' = v_at V fd' w \<and> v_content V fd' w' = v_content V fd' w" if "f_fd fi = Some fd'" for fd'
    using c(5,6) pair_at(1) [OF ok that] pair_at(3) [OF ok that fd] t by auto
  have "reading sys V fi w'" using reading_cong [of fi V w' w] fi pair_at(4) [OF ok] by simp
  moreover have "\<forall>fd' m. v_at V fd' w' = Some m \<longrightarrow> f_fd fi = Some fd'"
    using ok c(5) fd by (auto simp: pair_ok_def split: if_splits)
  ultimately have "pair_ok sys V fi fo' w'" using c(2,3) by (simp add: pair_ok_def)
  moreover have "src_of V fi w' = src_of V fi w" using fi by (cases "f_fd fi") (auto simp: src_of_def)
  moreover have "files_but V None w' = (files_but V (Some t) w)(t \<mapsto> file_view (v_content V fd) fo w)"
    using c(4) by (auto simp: files_but_def fun_eq_iff)
  ultimately show ?thesis using c(1,2) fd t
    by (intro exI [of _ fo'] exI [of _ w']) (simp add: pair_view_def dst_of_def dst_name_def)
qed

lemma pair_close_src:
  assumes os: "os_files sys V" and ok: "pair_ok sys V fi fo w"
  shows "\<exists>fi' w'. file_close sys fi w = Some (fi', w') \<and> pair_ok sys V fi' fo w' \<and>
    pair_view V fi' fo w' = (files_but V (dst_name fo) w, None, dst_of V fo w)"
proof -
  obtain w' where c: "file_close sys fi w = Some (fi\<lparr>f_fd := None, f_name := None\<rparr>, w')" "v_disk V w' = v_disk V w"
    "\<forall>fd. v_at V fd w' = (if f_fd fi = Some fd then None else v_at V fd w)"
    "\<forall>fd. f_fd fi \<noteq> Some fd \<longrightarrow> v_content V fd w' = v_content V fd w"
    using reading_close [OF os pair_at(4) [OF ok]] by blast
  have fo: "v_at V fd' w' = v_at V fd' w \<and> v_content V fd' w' = v_content V fd' w" if "f_fd fo = Some fd'" for fd'
    using c(3,4) pair_at(3) [OF ok _ that] by auto
  have "creating V fo w'" using creating_cong [of fo V w' w] fo pair_at(5) [OF ok] by simp
  moreover have "reading sys V (fi\<lparr>f_fd := None, f_name := None\<rparr>) w'"
    using pair_at(4) [OF ok] by (simp add: reading_def obj_sound_def)
  moreover have "\<forall>fd' m. v_at V fd' w' = Some m \<longrightarrow> f_fd fo = Some fd'"
    using ok c(3) by (auto simp: pair_ok_def split: if_splits)
  ultimately have "pair_ok sys V (fi\<lparr>f_fd := None, f_name := None\<rparr>) fo w'" by (simp add: pair_ok_def)
  moreover have "dst_of V fo w' = dst_of V fo w"
    using fo by (cases "f_fd fo") (auto simp: dst_of_def file_view_def file_kernel_def)
  moreover have "files_but V t w' = files_but V t w" for t using c(2) by (rule files_but_cong)
  ultimately show ?thesis using c(1) by (simp add: pair_view_def src_of_def)
qed

lemma pair_rename:
  assumes os: "os_files sys V" and ok: "pair_ok sys V fi fo w" and cl: "f_fd fo = None"
    and a: "files_but V (dst_name fo) w a = Some c" and src: "\<And>d. src_of V fi w \<noteq> Some (a, d) \<and> src_of V fi w \<noteq> Some (b, d)"
  shows "\<exists>w'. fs_rename sys a b w = (True, w') \<and> pair_ok sys V fi fo w' \<and>
    pair_view V fi fo w' = ((files_but V (dst_name fo) w)(a := None, b \<mapsto> c), src_of V fi w, None)"
proof -
  have da: "v_disk V w a = Some c" using a cl by (simp add: files_but_def dst_name_def)
  have "v_at V fd w \<noteq> Some a \<and> v_at V fd w \<noteq> Some b" for fd
  proof (rule ccontr)
    assume "\<not> (v_at V fd w \<noteq> Some a \<and> v_at V fd w \<noteq> Some b)"
    then obtain m where m: "v_at V fd w = Some m" "m = a \<or> m = b" by blast
    then have fd: "f_fd fi = Some fd" using ok cl by (auto simp: pair_ok_def)
    then show False using pair_at(1) [OF ok fd] m src [of "v_content V fd w"] by (auto simp: src_of_def)
  qed
  then obtain w' where r: "fs_rename sys a b w = (True, w')" "v_disk V w' = (v_disk V w)(a := None, b \<mapsto> c)"
    "\<forall>fd. v_at V fd w' = v_at V fd w \<and> v_content V fd w' = v_content V fd w"
    using os_files_names(4) [OF os da, of b] by blast
  have "reading sys V fi w' = reading sys V fi w" "creating V fo w' = creating V fo w"
    using reading_cong [of fi V w' w] creating_cong [of fo V w' w] r(3) by simp_all
  then have "pair_ok sys V fi fo w'" using ok r(3) by (simp add: pair_ok_def)
  moreover have "src_of V fi w' = src_of V fi w" using r(3) by (cases "f_fd fi") (auto simp: src_of_def)
  ultimately show ?thesis using r(1,2) cl by (simp add: pair_view_def dst_of_def dst_name_def files_but_def)
qed

lemma pair_remove:
  assumes os: "os_files sys V" and ok: "pair_ok sys V fi fo w" and cl: "f_fd fo = None"
    and a: "files_but V (dst_name fo) w a = Some c" and src: "\<And>d. src_of V fi w \<noteq> Some (a, d)"
  shows "\<exists>w'. fs_remove sys a w = (True, w') \<and> pair_ok sys V fi fo w' \<and>
    pair_view V fi fo w' = ((files_but V (dst_name fo) w)(a := None), src_of V fi w, None)"
proof -
  have da: "v_disk V w a = Some c" using a cl by (simp add: files_but_def dst_name_def)
  have "v_at V fd w \<noteq> Some a" for fd
  proof
    assume m: "v_at V fd w = Some a"
    then have fd: "f_fd fi = Some fd" using ok cl by (auto simp: pair_ok_def)
    then show False using pair_at(1) [OF ok fd] m src [of "v_content V fd w"] by (auto simp: src_of_def)
  qed
  then obtain w' where r: "fs_remove sys a w = (True, w')" "v_disk V w' = (v_disk V w)(a := None)"
    "\<forall>fd. v_at V fd w' = v_at V fd w \<and> v_content V fd w' = v_content V fd w"
    using os_files_remove [OF os da] by blast
  have "reading sys V fi w' = reading sys V fi w" "creating V fo w' = creating V fo w"
    using reading_cong [of fi V w' w] creating_cong [of fo V w' w] r(3) by simp_all
  then have "pair_ok sys V fi fo w'" using ok r(3) by (simp add: pair_ok_def)
  moreover have "src_of V fi w' = src_of V fi w" using r(3) by (cases "f_fd fi") (auto simp: src_of_def)
  ultimately show ?thesis using r(1,2) cl by (simp add: pair_view_def dst_of_def dst_name_def files_but_def)
qed

section \<open>The program's tables\<close>

definition core_store ::
  "('w, 'i) sys \<Rightarrow> ('w, 'i) fsview \<Rightarrow> ('t, 'c, 'b, 'd, 'w fworld) comlib \<Rightarrow> ('t \<Rightarrow> 'c \<Rightarrow> bytes list option) \<Rightarrow> nat \<Rightarrow>
   nat \<Rightarrow> nat \<Rightarrow> ('t, 'c, 'o, 'k, 'w fworld) com \<Rightarrow> store option" where
  "core_store sys V lib names cm i1 o1 s =
     (let W = world s; fi = wo_objs W i1; fo = wo_objs W o1; w = wo_sys W; d = cmd_at s cm
      in case com_todo lib names d of
           None \<Rightarrow> None
         | Some ns \<Rightarrow>
             if os_files sys V \<and> tree_names lib names \<and> i1 \<noteq> o1 \<and> \<not> wo_stop W \<and> pair_ok sys V fi fo w
             then (case pair_view V fi fo w of (F, src, dst) \<Rightarrow>
               Some \<lparr>st_files = F, st_src = src, st_dst = dst, st_names = ns, st_pass = name_passes lib (cm_info d)\<rparr>)
             else None)"

lemma core_storeD:
  assumes "core_store sys V lib names cm i1 o1 s = Some A"
  shows "os_files sys V" "tree_names lib names" "i1 \<noteq> o1" "\<not> wo_stop (world s)"
    "pair_ok sys V (wo_objs (world s) i1) (wo_objs (world s) o1) (wo_sys (world s))"
    "pair_view V (wo_objs (world s) i1) (wo_objs (world s) o1) (wo_sys (world s)) = (st_files A, st_src A, st_dst A)"
    "com_todo lib names (cmd_at s cm) = Some (st_names A)" "st_pass A = name_passes lib (cm_info (cmd_at s cm))"
  using assms by (auto simp: core_store_def Let_def split: option.splits if_splits prod.splits)

text \<open>A new pair of objects and a new world, seen through the store.\<close>

lemma core_store_step:
  assumes "core_store sys V lib names cm i1 o1 s = Some A"
    and "pair_ok sys V (objs i1) (objs o1) w'" and "pair_view V (objs i1) (objs o1) w' = (F, src, dst)"
  shows "core_store sys V lib names cm i1 o1 (s\<lparr>world := (world s)\<lparr>wo_objs := objs, wo_sys := w'\<rparr>\<rparr>) =
    Some (A\<lparr>st_files := F, st_src := src, st_dst := dst\<rparr>)"
  using core_storeD [OF assms(1)] assms(2,3) by (simp add: core_store_def Let_def)

lemma on_src:
  assumes A: "core_store sys V lib names cm i1 o1 s = Some A"
    and g: "g (wo_objs (world s) i1) (wo_sys (world s)) = Some (r, fi', w')"
    and p: "pair_ok sys V fi' (wo_objs (world s) o1) w'" "pair_view V fi' (wo_objs (world s) o1) w' = (F, src, dst)"
  shows "gives (core_store sys V lib names cm i1 o1) (on_obj i1 g s) r (A\<lparr>st_files := F, st_src := src, st_dst := dst\<rparr>)"
proof -
  define objs where "objs = (wo_objs (world s))(i1 := fi')"
  have "objs i1 = fi'" "objs o1 = wo_objs (world s) o1" using core_storeD(3) [OF A] by (simp_all add: objs_def)
  with core_store_step [OF A, of objs w' F src dst] p g show ?thesis
    by (simp add: gives_def on_obj_def Let_def objs_def)
qed

lemma on_dst:
  assumes A: "core_store sys V lib names cm i1 o1 s = Some A"
    and g: "g (wo_objs (world s) o1) (wo_sys (world s)) = Some (r, fo', w')"
    and p: "pair_ok sys V (wo_objs (world s) i1) fo' w'" "pair_view V (wo_objs (world s) i1) fo' w' = (F, src, dst)"
  shows "gives (core_store sys V lib names cm i1 o1) (on_obj o1 g s) r (A\<lparr>st_files := F, st_src := src, st_dst := dst\<rparr>)"
proof -
  define objs where "objs = (wo_objs (world s))(o1 := fo')"
  have "objs i1 = wo_objs (world s) i1" "objs o1 = fo'" using core_storeD(3) [OF A] by (simp_all add: objs_def)
  with core_store_step [OF A, of objs w' F src dst] p g show ?thesis
    by (simp add: gives_def on_obj_def Let_def objs_def)
qed

text \<open>The store's components, by the state of the two objects.\<close>

lemma core_store_src:
  assumes "core_store sys V lib names cm i1 o1 s = Some A" and "st_src A = Some (n, d)"
  shows "\<exists>fd. f_fd (wo_objs (world s) i1) = Some fd \<and> f_name (wo_objs (world s) i1) = Some n \<and>
    v_content V fd (wo_sys (world s)) = d"
  using core_storeD(6) [OF assms(1)] assms(2) pair_at(1) [OF core_storeD(5) [OF assms(1)]]
  by (auto simp: pair_view_def src_of_def)

lemma core_store_dst:
  assumes "core_store sys V lib names cm i1 o1 s = Some A"
  shows "st_dst A = None \<Longrightarrow> f_fd (wo_objs (world s) o1) = None"
    and "st_dst A = Some (n, x) \<Longrightarrow> \<exists>fd. f_fd (wo_objs (world s) o1) = Some fd \<and> f_name (wo_objs (world s) o1) = Some n \<and>
      file_view (v_content V fd) (wo_objs (world s) o1) (wo_sys (world s)) = x"
  using core_storeD(6) [OF assms(1)] pair_at(2) [OF core_storeD(5) [OF assms(1)]]
  by (auto simp: pair_view_def dst_of_def)

lemma core_store_views:
  assumes "core_store sys V lib names cm i1 o1 s = Some A"
  shows "files_but V (dst_name (wo_objs (world s) o1)) (wo_sys (world s)) = st_files A"
    "src_of V (wo_objs (world s) i1) (wo_sys (world s)) = st_src A"
    "dst_of V (wo_objs (world s) o1) (wo_sys (world s)) = st_dst A"
  using core_storeD(6) [OF assms(1)] by (simp_all add: pair_view_def)

lemma store_same: "A\<lparr>st_files := st_files A, st_src := st_src A, st_dst := st_dst A\<rparr> = A"
  by simp

lemma core_store_cmd:
  assumes A: "core_store sys V lib names cm i1 o1 s = Some A"
    and d: "com_todo lib names d = Some ns" "cm_info d = cm_info (cmd_at s cm)"
  shows "core_store sys V lib names cm i1 o1 (s\<lparr>cmd_at := (cmd_at s)(cm := d)\<rparr>) = Some (A\<lparr>st_names := ns\<rparr>)"
  using core_storeD [OF A] d by (simp add: core_store_def Let_def)

text \<open>Steps that change nothing the store sees.\<close>

lemma core_src_still:
  assumes A: "core_store sys V lib names cm i1 o1 s = Some A"
    and g: "g (wo_objs (world s) i1) (wo_sys (world s)) = Some (r, fi', w')"
    and s: "same V (wo_sys (world s)) w'" "reading sys V fi' w'" "f_fd fi' = f_fd (wo_objs (world s) i1)"
      "f_name fi' = f_name (wo_objs (world s) i1)"
  shows "gives (core_store sys V lib names cm i1 o1) (on_obj i1 g s) r A"
  using on_src [OF A, of g, OF g] pair_src_same [OF core_storeD(5) [OF A] s] core_storeD(6) [OF A] store_same [of A] by simp

lemma core_dst_keeps:
  assumes A: "core_store sys V lib names cm i1 o1 s = Some A"
    and fd: "f_fd (wo_objs (world s) o1) = Some fd" and n: "f_name (wo_objs (world s) o1) = Some n"
    and g: "g (wo_objs (world s) o1) (wo_sys (world s)) = Some (r, fo', w')"
    and k: "keeps_rest V (wo_objs (world s) o1) (wo_sys (world s)) fo' w'" and x: "file_view (v_content V fd) fo' w' = x"
  shows "gives (core_store sys V lib names cm i1 o1) (on_obj o1 g s) r (A\<lparr>st_dst := Some (n, x)\<rparr>)"
proof -
  note p = pair_dst_keeps [OF core_storeD(5) [OF A] fd k]
  have "gives (core_store sys V lib names cm i1 o1) (on_obj o1 g s) r
      (A\<lparr>st_files := st_files A, st_src := st_src A, st_dst := Some (n, x)\<rparr>)"
    by (rule on_dst [OF A, of g, OF g p(1)]) (use p(2) core_store_views [OF A] n x in simp)
  then show ?thesis by simp
qed

end
