(* ===== verification/CoreStore.thy ===== *)
theory CoreStore
  imports Store
begin

text \<open>
  The program's tables over the kernel of \<^theory_text>\<open>Disk\<close> fulfil the contract of \<^theory_text>\<open>Store\<close>.
\<close>

lemma store_next:
  assumes A: "core_store sys V lib names cm i1 o1 s = Some A" and n: "st_names A = n # ns"
  shows "\<exists>b. gives (core_store sys V lib names cm i1 o1) (com_input_next (core_of sys lib cm mk) 0 s) (ROk n b) (A\<lparr>st_names := ns\<rparr>)"
proof -
  obtain b d where "cmd_input_next lib cm False s = Some (ROk n b, s\<lparr>cmd_at := (cmd_at s)(cm := d)\<rparr>)"
    "com_todo lib names d = Some ns" "cm_info d = cm_info (cmd_at s cm)"
    using cmd_input_next_todo [OF core_storeD(2) [OF A], of s cm n ns] core_storeD(7) [OF A] n by auto
  then show ?thesis using core_store_cmd [OF A] by (auto simp: gives_def core_of_def)
qed

lemma store_last:
  assumes A: "core_store sys V lib names cm i1 o1 s = Some A" and n: "st_names A = []"
  shows "gives (core_store sys V lib names cm i1 o1) (com_input_next (core_of sys lib cm mk) 0 s) RNomore A"
proof -
  obtain d where "cmd_input_next lib cm False s = Some (RNomore, s\<lparr>cmd_at := (cmd_at s)(cm := d)\<rparr>)"
    "com_todo lib names d = Some []" "cm_info d = cm_info (cmd_at s cm)"
    using cmd_input_next_done [OF core_storeD(2) [OF A], of s cm] core_storeD(7) [OF A] n by auto
  then show ?thesis using core_store_cmd [OF A, of d "[]"] n by (auto simp: gives_def core_of_def)
qed

lemma store_allowed:
  assumes A: "core_store sys V lib names cm i1 o1 s = Some A"
  shows "gives (core_store sys V lib names cm i1 o1) (com_input_allowed (core_of sys lib cm mk) n IaFile s) (st_pass A n) A"
proof -
  obtain r w where r: "cmd_input_allowed lib (cm_info (cmd_at s cm)) n IaFile (world s) = (r, w)" by fastforce
  with cmd_input_allowed_file [OF r] core_storeD(8) [OF A] A show ?thesis by (simp add: gives_def core_of_def)
qed

lemma store_open_src:
  assumes A: "core_store sys V lib names cm i1 o1 s = Some A" and n: "st_files A n = Some d"
  shows "gives (core_store sys V lib names cm i1 o1) (fi_open (core_of sys lib cm mk) i1 n rd_flags s) FOk (A\<lparr>st_src := Some (n, d)\<rparr>)"
proof -
  obtain fi' w' where o: "file_open sys (wo_objs (world s) i1) n rd_flags (wo_sys (world s)) = Some (FOk, fi', w')"
    "pair_ok sys V fi' (wo_objs (world s) o1) w'" "pair_view V fi' (wo_objs (world s) o1) w' = (st_files A, Some (n, d), st_dst A)"
    using pair_open_src [OF core_storeD(1,5) [OF A] _ rd_like_flags(1), of n d] n core_store_views [OF A] by auto
  have "gives (core_store sys V lib names cm i1 o1) (on_obj i1 (\<lambda>f. file_open sys f n rd_flags) s) FOk
      (A\<lparr>st_files := st_files A, st_src := Some (n, d), st_dst := st_dst A\<rparr>)"
    by (rule on_src [OF A _ o(2,3)]) (rule o(1))
  then show ?thesis by (simp add: core_of_def)
qed

lemma store_info_src:
  assumes A: "core_store sys V lib names cm i1 o1 s = Some A" and n: "st_src A = Some (n, d)"
  shows "\<exists>fi. gives (core_store sys V lib names cm i1 o1) (fi_info (core_of sys lib cm mk) i1 s) (FOk, Some fi) A \<and>
    v_size V fi = length d \<and> v_reg V fi"
proof -
  obtain fd where fd: "f_fd (wo_objs (world s) i1) = Some fd" "v_content V fd (wo_sys (world s)) = d"
    using core_store_src [OF A n] by blast
  note p = core_storeD(5) [OF A]
  obtain i w' where i: "file_info sys (wo_objs (world s) i1) (wo_sys (world s)) = ((FOk, Some i), w')" "same V (wo_sys (world s)) w'"
    "v_size V i = length d" "v_reg V i"
    using reading_info [OF core_storeD(1) [OF A] pair_at(4) [OF p] fd(1)] fd(2) by blast
  have "gives (core_store sys V lib names cm i1 o1) (fi_info (core_of sys lib cm mk) i1 s) (FOk, Some i) A"
    unfolding core_of_def coreif.simps
  proof (rule core_src_still [OF A _ i(2)])
    show "reading sys V (wo_objs (world s) i1) w'"
      using reading_cong [of "wo_objs (world s) i1" V w' "wo_sys (world s)" sys] i(2) pair_at(4) [OF p] by (simp add: same_def)
  qed (simp_all add: i(1))
  with i show ?thesis by blast
qed

lemma store_read:
  assumes A: "core_store sys V lib names cm i1 o1 s = Some A" and n: "st_src A = Some (n, d)" and off: "off \<le> length d"
  shows "\<exists>c. gives (core_store sys V lib names cm i1 o1) (fi_read (core_of sys lib cm mk) i1 (Some off) s)
      (if off = length d then FEof else FOk, c) A \<and> c = take (length c) (drop off d) \<and> (off < length d \<longrightarrow> c \<noteq> [])"
proof -
  obtain fd where fd: "f_fd (wo_objs (world s) i1) = Some fd" "v_content V fd (wo_sys (world s)) = d"
    using core_store_src [OF A n] by blast
  note p = core_storeD(5) [OF A]
  obtain c f' w' where r: "file_read sys (wo_objs (world s) i1) (Some off) (wo_sys (world s)) =
      ((if off = length d then FEof else FOk, c), f', w')"
    "c = take (length c) (drop off d)" "off < length d \<longrightarrow> c \<noteq> []" "same V (wo_sys (world s)) w'" "reading sys V f' w'"
    "f_fd f' = f_fd (wo_objs (world s) i1)" "f_name f' = f_name (wo_objs (world s) i1)"
    using reading_read [OF core_storeD(1) [OF A] pair_at(4) [OF p] fd(1), of off] fd off by auto
  have "gives (core_store sys V lib names cm i1 o1) (fi_read (core_of sys lib cm mk) i1 (Some off) s)
      (if off = length d then FEof else FOk, c) A"
    unfolding core_of_def coreif.simps by (rule core_src_still [OF A _ r(4-7)]) (simp add: r(1))
  with r show ?thesis by blast
qed

lemma store_seq:
  assumes A: "core_store sys V lib names cm i1 o1 s = Some A"
  shows "gives (core_store sys V lib names cm i1 o1) (fi_behaviour (core_of sys lib cm mk) i1 FBehSeq s) () A"
proof -
  obtain f' w' where b: "file_behaviour sys (wo_objs (world s) i1) FBehSeq (wo_sys (world s)) = Some (f', w')"
    "same V (wo_sys (world s)) w'" "reading sys V f' w'" "f_fd f' = f_fd (wo_objs (world s) i1)" "f_name f' = f_name (wo_objs (world s) i1)"
    using reading_seq [OF core_storeD(1) [OF A] pair_at(4) [OF core_storeD(5) [OF A]]] by blast
  show ?thesis unfolding core_of_def coreif.simps by (rule core_src_still [OF A _ b(2-5)]) (simp add: b(1))
qed

lemma core_src_file:
  assumes A: "core_store sys V lib names cm i1 o1 s = Some A" and n: "st_src A = Some (n, d)" and cl: "st_dst A = None"
  shows "st_files A n = Some d"
proof -
  obtain fd where fd: "f_fd (wo_objs (world s) i1) = Some fd" "f_name (wo_objs (world s) i1) = Some n"
    "v_content V fd (wo_sys (world s)) = d" using core_store_src [OF A n] by blast
  then have "v_at V fd (wo_sys (world s)) = Some n" using pair_at(1) [OF core_storeD(5) [OF A]] by simp
  then have "v_disk V (wo_sys (world s)) n = Some d" using os_filesD(7) [OF core_storeD(1) [OF A]] fd(3) by simp
  then show ?thesis using core_store_views(1) [OF A] core_store_dst(1) [OF A cl] by (auto simp: dst_name_def files_but_def)
qed

text \<open>Opening a new file and asking for its size, as both uses of a new file begin.\<close>

lemma store_new:
  assumes A: "core_store sys V lib names cm i1 o1 s = Some A" and d: "st_dst A = None" and n: "st_files A n = None \<or> ow" "v_new V n"
    and src: "\<And>d. st_src A \<noteq> Some (n, d)"
  shows "\<exists>s1 fi s2 fd. fi_open (core_of sys lib cm mk) o1 n (cr_flags ow) s = Some (FOk, s1) \<and>
    fi_info (core_of sys lib cm mk) o1 s1 = Some ((FOk, Some fi), s2) \<and> v_size V fi = 0 \<and>
    core_store sys V lib names cm i1 o1 s2 = Some (A\<lparr>st_files := (st_files A)(n := None), st_dst := Some (n, [])\<rparr>) \<and>
    f_fd (wo_objs (world s2) o1) = Some fd \<and> v_content V fd (wo_sys (world s2)) = []"
proof -
  let ?fi = "wo_objs (world s) i1"
  note p = core_storeD(5) [OF A]
  obtain fo w1 fd where o: "file_open sys (wo_objs (world s) o1) n (cr_flags ow) (wo_sys (world s)) = Some (FOk, fo, w1)"
    "pair_ok sys V ?fi fo w1" "f_fd fo = Some fd" "f_name fo = Some n" "v_content V fd w1 = []"
    "pair_view V ?fi fo w1 = ((st_files A)(n := None), st_src A, Some (n, []))"
    using pair_open_dst [OF core_storeD(1) [OF A] p core_store_dst(1) [OF A d], of n ow, OF _ _ _ cr_like_flags(1)] n src core_store_views [OF A] by auto
  define s1 where "s1 = s\<lparr>world := (world s)\<lparr>wo_objs := (wo_objs (world s))(o1 := fo), wo_sys := w1\<rparr>\<rparr>"
  obtain i w2 where i: "file_info sys fo w1 = ((FOk, Some i), w2)" "same V w1 w2" "v_size V i = 0"
    using creating_info [OF core_storeD(1) [OF A] pair_at(5) [OF o(2)] o(3)] o(5) by auto
  define s2 where "s2 = s\<lparr>world := (world s)\<lparr>wo_objs := (wo_objs (world s))(o1 := fo), wo_sys := w2\<rparr>\<rparr>"
  have io: "((wo_objs (world s))(o1 := fo)) i1 = ?fi" "((wo_objs (world s))(o1 := fo)) o1 = fo"
    using core_storeD(3) [OF A] by simp_all
  have "core_store sys V lib names cm i1 o1 s2 = Some (A\<lparr>st_files := (st_files A)(n := None), st_src := st_src A, st_dst := Some (n, [])\<rparr>)"
    unfolding s2_def by (rule core_store_step [OF A]) (use io pair_same [OF o(2) i(2)] o(6) in simp_all)
  moreover have "fi_open (core_of sys lib cm mk) o1 n (cr_flags ow) s = Some (FOk, s1)"
    using o(1) by (simp add: core_of_def on_obj_def s1_def Let_def)
  moreover have "fi_info (core_of sys lib cm mk) o1 s1 = Some ((FOk, Some i), s2)"
    using i(1) by (simp add: core_of_def on_obj_def s1_def s2_def Let_def)
  ultimately show ?thesis using i o(3,5)
    by (intro exI [of _ s1] exI [of _ i] exI [of _ s2] exI [of _ fd]) (simp add: s2_def same_def)
qed

lemma store_close:
  assumes A: "core_store sys V lib names cm i1 o1 s = Some A" and d: "st_dst A = Some (n, x)"
  shows "gives (core_store sys V lib names cm i1 o1) (fi_close (core_of sys lib cm mk) o1 s) ()
    (A\<lparr>st_files := (st_files A)(n \<mapsto> x), st_dst := None\<rparr>)"
proof -
  obtain fd where fd: "f_fd (wo_objs (world s) o1) = Some fd" "f_name (wo_objs (world s) o1) = Some n"
    "file_view (v_content V fd) (wo_objs (world s) o1) (wo_sys (world s)) = x"
    using core_store_dst(2) [OF A d] by blast
  obtain fo' w' where c: "file_close sys (wo_objs (world s) o1) (wo_sys (world s)) = Some (fo', w')"
    "pair_ok sys V (wo_objs (world s) i1) fo' w'"
    "pair_view V (wo_objs (world s) i1) fo' w' = ((st_files A)(n \<mapsto> x), st_src A, None)"
    using pair_close_dst [OF core_storeD(1,5) [OF A] fd(1,2)] fd(3) core_store_views [OF A] by auto
  have "gives (core_store sys V lib names cm i1 o1)
      (on_obj o1 (\<lambda>f w. map_option (\<lambda>(f, w). ((), f, w)) (file_close sys f w)) s) ()
      (A\<lparr>st_files := (st_files A)(n \<mapsto> x), st_src := st_src A, st_dst := None\<rparr>)"
    by (rule on_dst [OF A _ c(2,3)]) (simp add: c(1))
  then show ?thesis by (simp add: core_of_def)
qed

lemma store_closed:
  assumes A: "core_store sys V lib names cm i1 o1 s = Some A" and d: "st_dst A = None"
  shows "gives (core_store sys V lib names cm i1 o1) (fi_close (core_of sys lib cm mk) o1 s) () A"
proof -
  let ?fo = "(wo_objs (world s) o1)\<lparr>f_name := None\<rparr>"
  note p = core_storeD(5) [OF A]
  have fd: "f_fd (wo_objs (world s) o1) = None" by (rule core_store_dst(1) [OF A d])
  have "pair_ok sys V (wo_objs (world s) i1) ?fo (wo_sys (world s))"
    using p fd by (simp add: pair_ok_def creating_def file_idle_def)
  moreover have "pair_view V (wo_objs (world s) i1) ?fo (wo_sys (world s)) = (st_files A, st_src A, st_dst A)"
    using core_storeD(6) [OF A] fd by (simp add: pair_view_def dst_name_def dst_of_def)
  ultimately have "gives (core_store sys V lib names cm i1 o1)
      (on_obj o1 (\<lambda>f w. map_option (\<lambda>(f, w). ((), f, w)) (file_close sys f w)) s) ()
      (A\<lparr>st_files := st_files A, st_src := st_src A, st_dst := st_dst A\<rparr>)"
    by (intro on_dst [OF A]) (simp_all add: file_close_def fd)
  then show ?thesis by (simp add: core_of_def)
qed

lemma store_touch:
  assumes A: "core_store sys V lib names cm i1 o1 s = Some A" and d: "st_dst A = None" and n: "st_files A n = None \<or> ow"
    and src: "\<And>d. st_src A \<noteq> Some (n, d)" and new: "v_new V n"
  shows "\<exists>s1 fi s2. fi_open (core_of sys lib cm mk) o1 n (cr_flags ow) s = Some (FOk, s1) \<and>
    fi_info (core_of sys lib cm mk) o1 s1 = Some ((FOk, Some fi), s2) \<and> v_size V fi = 0 \<and>
    gives (core_store sys V lib names cm i1 o1) (fi_close (core_of sys lib cm mk) o1 s2) () (A\<lparr>st_files := (st_files A)(n \<mapsto> [])\<rparr>)"
proof -
  obtain s1 fi s2 where o: "fi_open (core_of sys lib cm mk) o1 n (cr_flags ow) s = Some (FOk, s1)"
    "fi_info (core_of sys lib cm mk) o1 s1 = Some ((FOk, Some fi), s2)" "v_size V fi = 0"
    "core_store sys V lib names cm i1 o1 s2 = Some (A\<lparr>st_files := (st_files A)(n := None), st_dst := Some (n, [])\<rparr>)"
    using store_new [OF A d n new src] by blast
  have "A\<lparr>st_files := F, st_dst := None\<rparr> = A\<lparr>st_files := F\<rparr>" for F by (cases A) (use d in simp)
  with store_close [OF o(4), of n "[]"] have
    "gives (core_store sys V lib names cm i1 o1) (fi_close (core_of sys lib cm mk) o1 s2) () (A\<lparr>st_files := (st_files A)(n \<mapsto> [])\<rparr>)"
    by simp
  with o show ?thesis by blast
qed

lemma store_create:
  assumes A: "core_store sys V lib names cm i1 o1 s = Some A" and d: "st_dst A = None" and n: "st_files A n = None" "v_new V n"
  shows "\<exists>s1 fi s2. fi_open (core_of sys lib cm mk) o1 n (cr_flags ow) s = Some (FOk, s1) \<and>
    fi_info (core_of sys lib cm mk) o1 s1 = Some ((FOk, Some fi), s2) \<and> v_size V fi = 0 \<and>
    gives (core_store sys V lib names cm i1 o1) (fi_trunc (core_of sys lib cm mk) o1 (Some k) s2) FOk (A\<lparr>st_dst := Some (n, [])\<rparr>)"
proof -
  have src: "st_src A \<noteq> Some (n, x)" for x using core_src_file [OF A, of n x] n(1) d by auto
  have "(st_files A)(n := None) = st_files A" using n(1) by auto
  then have F: "A\<lparr>st_files := (st_files A)(n := None), st_dst := x\<rparr> = A\<lparr>st_dst := x\<rparr>" for x by simp
  obtain s1 fi s2 fd where o: "fi_open (core_of sys lib cm mk) o1 n (cr_flags ow) s = Some (FOk, s1)"
    "fi_info (core_of sys lib cm mk) o1 s1 = Some ((FOk, Some fi), s2)" "v_size V fi = 0"
    "core_store sys V lib names cm i1 o1 s2 = Some (A\<lparr>st_dst := Some (n, [])\<rparr>)"
    "f_fd (wo_objs (world s2) o1) = Some fd" "v_content V fd (wo_sys (world s2)) = []"
    using store_new [OF A d disjI1 [OF n(1)] n(2) src, where mk = mk and ow = ow, unfolded F] by blast
  obtain fd' where v: "f_fd (wo_objs (world s2) o1) = Some fd'" "f_name (wo_objs (world s2) o1) = Some n"
    "file_view (v_content V fd') (wo_objs (world s2) o1) (wo_sys (world s2)) = []"
    using core_store_dst(2) [OF o(4), of n "[]"] by auto
  obtain f' w' where t: "file_trunc sys (wo_objs (world s2) o1) (Some k) (wo_sys (world s2)) = (FOk, f', w')"
    "keeps_rest V (wo_objs (world s2) o1) (wo_sys (world s2)) f' w'" "file_view (v_content V fd) f' w' = []"
    using creating_trunc [OF core_storeD(1) [OF A] pair_at(5) [OF core_storeD(5) [OF o(4)]] o(5), of k] v o(5,6) by auto
  have "gives (core_store sys V lib names cm i1 o1) (on_obj o1 (\<lambda>f w. Some (file_trunc sys f (Some k) w)) s2) FOk
      ((A\<lparr>st_dst := Some (n, [])\<rparr>)\<lparr>st_dst := Some (n, [])\<rparr>)"
    by (rule core_dst_keeps [OF o(4,5) v(2) _ t(2,3)]) (simp add: t(1))
  then have "gives (core_store sys V lib names cm i1 o1) (fi_trunc (core_of sys lib cm mk) o1 (Some k) s2) FOk (A\<lparr>st_dst := Some (n, [])\<rparr>)"
    by (simp add: core_of_def)
  with o show ?thesis by blast
qed

lemma store_write:
  assumes A: "core_store sys V lib names cm i1 o1 s = Some A" and d: "st_dst A = Some (n, x)"
  shows "gives (core_store sys V lib names cm i1 o1) (fi_write (core_of sys lib cm mk) o1 y (Some (length x)) s) FOk
    (A\<lparr>st_dst := Some (n, x @ y)\<rparr>)"
proof -
  obtain fd where fd: "f_fd (wo_objs (world s) o1) = Some fd" "f_name (wo_objs (world s) o1) = Some n"
    "file_view (v_content V fd) (wo_objs (world s) o1) (wo_sys (world s)) = x"
    using core_store_dst(2) [OF A d] by blast
  obtain f' w' where t: "file_write sys (wo_objs (world s) o1) y (Some (length x)) (wo_sys (world s)) = (FOk, f', w')"
    "keeps_rest V (wo_objs (world s) o1) (wo_sys (world s)) f' w'" "file_view (v_content V fd) f' w' = x @ y"
    using creating_write [OF core_storeD(1) [OF A] pair_at(5) [OF core_storeD(5) [OF A]] fd(1), of y] fd(3) by auto
  show ?thesis unfolding core_of_def coreif.simps
    by (rule core_dst_keeps [OF A fd(1,2) _ t(2,3)]) (simp add: t(1))
qed

lemma store_sync:
  assumes A: "core_store sys V lib names cm i1 o1 s = Some A" and d: "st_dst A = Some (n, x)"
  shows "gives (core_store sys V lib names cm i1 o1) (fi_behaviour (core_of sys lib cm mk) o1 FBehTruncPrealloc s) () A"
proof -
  obtain fd where fd: "f_fd (wo_objs (world s) o1) = Some fd" "f_name (wo_objs (world s) o1) = Some n"
    "file_view (v_content V fd) (wo_objs (world s) o1) (wo_sys (world s)) = x"
    using core_store_dst(2) [OF A d] by blast
  obtain f' w' where t: "file_behaviour sys (wo_objs (world s) o1) FBehTruncPrealloc (wo_sys (world s)) = Some (f', w')"
    "keeps_rest V (wo_objs (world s) o1) (wo_sys (world s)) f' w'" "file_view (v_content V fd) f' w' = x"
    using creating_sync [OF core_storeD(1) [OF A] pair_at(5) [OF core_storeD(5) [OF A]] fd(1)] fd(3) by auto
  have "gives (core_store sys V lib names cm i1 o1) (fi_behaviour (core_of sys lib cm mk) o1 FBehTruncPrealloc s) () (A\<lparr>st_dst := Some (n, x)\<rparr>)"
    unfolding core_of_def coreif.simps by (rule core_dst_keeps [OF A fd(1,2) _ t(2,3)]) (simp add: t(1))
  then show ?thesis by (simp add: d [symmetric])
qed

lemma store_mtime:
  assumes A: "core_store sys V lib names cm i1 o1 s = Some A" and d: "st_dst A = Some (n, x)"
  shows "gives (core_store sys V lib names cm i1 o1) (fi_mtime_set (core_of sys lib cm mk) o1 t s) FOk A"
proof -
  obtain fd where fd: "f_fd (wo_objs (world s) o1) = Some fd" "f_name (wo_objs (world s) o1) = Some n"
    "file_view (v_content V fd) (wo_objs (world s) o1) (wo_sys (world s)) = x"
    using core_store_dst(2) [OF A d] by blast
  obtain f' where m: "file_mtime_set (wo_objs (world s) o1) t = (FOk, f')"
    "keeps_rest V (wo_objs (world s) o1) (wo_sys (world s)) f' (wo_sys (world s))"
    "file_view (v_content V fd) f' (wo_sys (world s)) = x"
    using creating_mtime [OF pair_at(5) [OF core_storeD(5) [OF A]] fd(1), of t "v_content V fd"] fd(3) by auto
  have "gives (core_store sys V lib names cm i1 o1) (fi_mtime_set (core_of sys lib cm mk) o1 t s) FOk (A\<lparr>st_dst := Some (n, x)\<rparr>)"
    unfolding core_of_def coreif.simps by (rule core_dst_keeps [OF A fd(1,2) _ m(2,3)]) (simp add: m(1))
  then show ?thesis by (simp add: d [symmetric])
qed

lemma store_attr:
  assumes A: "core_store sys V lib names cm i1 o1 s = Some A" and d: "st_dst A = Some (n, x)"
  shows "\<exists>r. gives (core_store sys V lib names cm i1 o1) (fi_attr_set (core_of sys lib cm mk) o1 a s) r A"
proof -
  let ?f = "wo_objs (world s) o1" and ?w = "wo_sys (world s)"
  obtain fd where fd: "f_fd ?f = Some fd" "f_name ?f = Some n" "file_view (v_content V fd) ?f ?w = x"
    using core_store_dst(2) [OF A d] by blast
  note c = pair_at(5) [OF core_storeD(5) [OF A]]
  obtain r w' where m: "file_attr_set sys ?f a ?w = (r, w')" by fastforce
  have "same V ?w w'"
    using m os_files_calm(2) [OF core_storeD(1) [OF A], of ?w "f_fd ?f" a] same_refl
    by (auto simp: file_attr_set_def split: if_splits prod.splits)
  note k = keeps_rest_same [OF c fd(1) this]
  have "gives (core_store sys V lib names cm i1 o1) (fi_attr_set (core_of sys lib cm mk) o1 a s) r (A\<lparr>st_dst := Some (n, x)\<rparr>)"
    unfolding core_of_def coreif.simps by (rule core_dst_keeps [OF A fd(1,2) _ k(1)]) (simp_all add: m k(2) fd(3))
  then show ?thesis by (simp add: d [symmetric]) blast
qed

lemma store_rename:
  assumes A: "core_store sys V lib names cm i1 o1 s = Some A" and d: "st_dst A = None" and n: "st_files A a = Some c"
    and src: "\<And>d. st_src A \<noteq> Some (a, d) \<and> st_src A \<noteq> Some (b, d)"
  shows "gives (core_store sys V lib names cm i1 o1) (on_sys (fs_rename sys a b) s) True
    (A\<lparr>st_files := (st_files A)(a := None, b \<mapsto> c)\<rparr>)"
proof -
  let ?fi = "wo_objs (world s) i1" and ?fo = "wo_objs (world s) o1"
  obtain w' where r: "fs_rename sys a b (wo_sys (world s)) = (True, w')" "pair_ok sys V ?fi ?fo w'"
    "pair_view V ?fi ?fo w' = ((st_files A)(a := None, b \<mapsto> c), st_src A, None)"
    using pair_rename [OF core_storeD(1,5) [OF A] core_store_dst(1) [OF A d], of a c b] n src core_store_views [OF A] by auto
  have "core_store sys V lib names cm i1 o1 (s\<lparr>world := (world s)\<lparr>wo_objs := wo_objs (world s), wo_sys := w'\<rparr>\<rparr>) =
      Some (A\<lparr>st_files := (st_files A)(a := None, b \<mapsto> c), st_src := st_src A, st_dst := None\<rparr>)"
    by (rule core_store_step [OF A r(2,3)])
  with r(1) d show ?thesis by (simp add: gives_def on_sys_def)
qed

lemma store_del:
  assumes A: "core_store sys V lib names cm i1 o1 s = Some A" and d: "st_dst A = None" and n: "st_files A a = Some c"
    and src: "\<And>d. st_src A \<noteq> Some (a, d)"
  shows "gives (core_store sys V lib names cm i1 o1) (fi_del (core_of sys lib cm mk) a s) True
    (A\<lparr>st_files := (st_files A)(a := None)\<rparr>)"
proof -
  let ?fi = "wo_objs (world s) i1" and ?fo = "wo_objs (world s) o1"
  obtain w' where r: "fs_remove sys a (wo_sys (world s)) = (True, w')" "pair_ok sys V ?fi ?fo w'"
    "pair_view V ?fi ?fo w' = ((st_files A)(a := None), st_src A, None)"
    using pair_remove [OF core_storeD(1,5) [OF A] core_store_dst(1) [OF A d], of a c] n src core_store_views [OF A] by auto
  have "core_store sys V lib names cm i1 o1 (s\<lparr>world := (world s)\<lparr>wo_objs := wo_objs (world s), wo_sys := w'\<rparr>\<rparr>) =
      Some (A\<lparr>st_files := (st_files A)(a := None), st_src := st_src A, st_dst := None\<rparr>)"
    by (rule core_store_step [OF A r(2,3)])
  with r(1) d show ?thesis by (simp add: gives_def on_sys_def core_of_def file_delete_def)
qed

lemma store_destroy_src:
  assumes A: "core_store sys V lib names cm i1 o1 s = Some A"
  shows "gives (core_store sys V lib names cm i1 o1) (fi_destroy (core_of sys lib cm mk) i1 s) () (A\<lparr>st_src := None\<rparr>)"
proof -
  obtain fi' w' where c: "file_close sys (wo_objs (world s) i1) (wo_sys (world s)) = Some (fi', w')"
    "pair_ok sys V fi' (wo_objs (world s) o1) w'" "pair_view V fi' (wo_objs (world s) o1) w' = (st_files A, None, st_dst A)"
    using pair_close_src [OF core_storeD(1,5) [OF A]] core_store_views [OF A] by auto
  have "gives (core_store sys V lib names cm i1 o1)
      (on_obj i1 (\<lambda>f w. map_option (\<lambda>(f, w). ((), f, w)) (file_close sys f w)) s) ()
      (A\<lparr>st_files := st_files A, st_src := None, st_dst := st_dst A\<rparr>)"
    by (rule on_src [OF A _ c(2,3)]) (simp add: c(1))
  then show ?thesis by (simp add: core_of_def)
qed

interpretation disk: copy_store "core_of sys lib cm mk" "\<lambda>a b. on_sys (fs_rename sys a b)" i1 o1 "v_size V" "v_reg V" "v_new V"
  "core_store sys V lib names cm i1 o1"
  for sys :: "('w, 'i) sys" and lib :: "('t, 'c, 'b, 'd, 'w fworld) comlib" and cm mk i1 o1 V names
proof
  fix s :: "('t, 'c, 'a, 'e, 'w fworld) com" and A
  assume A: "core_store sys V lib names cm i1 o1 s = Some A"
  show "st_dst A = Some (n, x) \<Longrightarrow> gives (core_store sys V lib names cm i1 o1) (fi_destroy (core_of sys lib cm mk) o1 s) ()
      (A\<lparr>st_files := (st_files A)(n \<mapsto> x), st_dst := None\<rparr>)" for n x
    using store_close [OF A] by (simp add: core_of_def)
  show "st_dst A = None \<Longrightarrow> gives (core_store sys V lib names cm i1 o1) (fi_destroy (core_of sys lib cm mk) o1 s) () A"
    using store_closed [OF A] by (simp add: core_of_def)
  show "\<not> stop_flag (core_of sys lib cm mk) s" using core_storeD(4) [OF A] by (simp add: core_of_def)
qed (fact store_next store_last store_allowed store_open_src store_info_src store_read store_seq store_touch store_create
    store_write store_sync store_mtime store_attr store_close store_closed store_rename store_del store_destroy_src)+

lemma core_store_disk:
  assumes A: "core_store sys V lib names cm i1 o1 s = Some A" and d: "st_dst A = None"
  shows "v_disk V (wo_sys (world s)) = st_files A"
  using core_store_views(1) [OF A] core_store_dst(1) [OF A d] by (simp add: dst_name_def files_but_def)

end
