(* ===== verification/RwDisk.thy ===== *)
theory RwDisk
  imports CoreStore
begin

text \<open>
  A concrete kernel for the witnesses: the files, the open descriptors and, for descriptors that are
  not open, contents nobody sees.
\<close>

record rwd =
  rw_files :: "bytes \<rightharpoonup> bytes"
  rw_open :: "nat \<Rightarrow> bytes option"
  rw_next :: nat
  rw_shadow :: "nat \<Rightarrow> bytes"

definition rw_at :: "nat \<Rightarrow> rwd \<Rightarrow> bytes option" where
  "rw_at fd w = (case rw_open w fd of None \<Rightarrow> None | Some n \<Rightarrow> if rw_next w \<le> fd \<or> rw_files w n = None then None else Some n)"

definition rw_content :: "nat \<Rightarrow> rwd \<Rightarrow> bytes" where
  "rw_content fd w = (case rw_at fd w of None \<Rightarrow> rw_shadow w fd | Some n \<Rightarrow> the (rw_files w n))"

definition rw_set :: "nat \<Rightarrow> bytes \<Rightarrow> rwd \<Rightarrow> rwd" where
  "rw_set fd c w =
     (case rw_at fd w of None \<Rightarrow> w\<lparr>rw_shadow := (rw_shadow w)(fd := c)\<rparr> | Some n \<Rightarrow> w\<lparr>rw_files := (rw_files w)(n \<mapsto> c)\<rparr>)"

definition rw_new :: "bytes \<Rightarrow> rwd \<Rightarrow> rwd" where
  "rw_new n w = w\<lparr>rw_open := (rw_open w)(rw_next w \<mapsto> n), rw_next := rw_next w + 1\<rparr>"

definition drop_name :: "bytes \<Rightarrow> rwd \<Rightarrow> rwd" where
  "drop_name n w = w\<lparr>rw_open := (\<lambda>fd. if rw_open w fd = Some n then None else rw_open w fd)\<rparr>"

definition rw_sys :: "(rwd, nat) sys" where
  "rw_sys =
     \<lparr>fs_errno = (\<lambda>w. ENOENT),
      fs_open = (\<lambda>n fl w. case rw_files w n of
          Some d \<Rightarrow> if OCreatenew \<in> fl then (None, w) else (Some (rw_next w), rw_new n w)
        | None \<Rightarrow> if OCreatenew \<in> fl \<or> OCreate \<in> fl
                  then (Some (rw_next w), rw_new n (drop_name n (w\<lparr>rw_files := (rw_files w)(n \<mapsto> [])\<rparr>)))
                  else (None, w)),
      fs_close = (\<lambda>fd w. (True, case fd of None \<Rightarrow> w | Some k \<Rightarrow> w\<lparr>rw_open := (rw_open w)(k := None)\<rparr>)),
      fs_readat = (\<lambda>fd n off w. (map_option (\<lambda>k. take n (drop off (rw_content k w))) fd, w)),
      fs_piperead = (\<lambda>fd n w. (None, w)),
      fs_writeat = (\<lambda>fd d off w. case fd of None \<Rightarrow> (None, w) | Some k \<Rightarrow> (Some (length d), rw_set k (overlay (rw_content k w) off d) w)),
      fs_pipewrite = (\<lambda>fd d w. (None, w)),
      fs_trunc = (\<lambda>fd n w. case fd of None \<Rightarrow> (False, w)
        | Some k \<Rightarrow> (True, rw_set k (take n (rw_content k w) @ replicate (n - length (rw_content k w)) (CHR 0x00)) w)),
      fs_set_mtime = (\<lambda>fd t w. (True, w)), fs_set_attr = (\<lambda>fd a w. (True, w)),
      fs_size = (\<lambda>fd w. case fd of None \<Rightarrow> 0 | Some k \<Rightarrow> length (rw_content k w)), fs_readahead = (\<lambda>fd n w. (True, w)),
      fs_info = (\<lambda>fd w. (map_option (\<lambda>k. length (rw_content k w)) fd, w)),
      fs_info_link = (\<lambda>n w. (case n of None \<Rightarrow> None | Some n \<Rightarrow> map_option length (rw_files w n), w)), fs_info_zero = 0,
      dir_make = (\<lambda>n w. (True, w)), dir_make_path = (\<lambda>n w. (True, w)), dir_make_all = (\<lambda>n w. (True, w)),
      fs_hardlink = (\<lambda>a b w. (False, w)), fs_symlink = (\<lambda>a b w. (False, w)),
      fs_remove = (\<lambda>a w. (rw_files w a \<noteq> None, w\<lparr>rw_files := (rw_files w)(a := None)\<rparr>)),
      fs_rename = (\<lambda>a b w. case rw_files w a of None \<Rightarrow> (False, w)
        | Some c \<Rightarrow> (True, drop_name b (w\<lparr>rw_files := (rw_files w)(a := None, b \<mapsto> c)\<rparr>))),
      time_1970 = 62135596800,
      align_floor2 = (\<lambda>x a. x - x mod a), align_ceil2 = (\<lambda>x a. x + (a - x mod a) mod a),
      align_power2 = (\<lambda>x. x), str_shift = drop\<rparr>"

definition rw_view :: "(rwd, nat) fsview" where
  "rw_view = \<lparr>v_content = rw_content, v_disk = rw_files, v_at = rw_at, v_new = (\<lambda>n. True), v_size = (\<lambda>i. i), v_reg = (\<lambda>i. True)\<rparr>"

section \<open>It behaves as documented\<close>

lemma rw_at_set [simp]: "rw_at fd' (rw_set fd c w) = rw_at fd' w"
  by (auto simp: rw_at_def rw_set_def split: option.splits if_splits)

lemma rw_content_set: "rw_content fd (rw_set fd c w) = c"
proof (cases "rw_at fd w")
  case None
  then have "rw_at fd (w\<lparr>rw_shadow := (rw_shadow w)(fd := c)\<rparr>) = None" by (simp add: rw_at_def cong: option.case_cong)
  with None show ?thesis by (simp add: rw_content_def rw_set_def)
next
  case (Some n)
  then have "rw_at fd (w\<lparr>rw_files := (rw_files w)(n \<mapsto> c)\<rparr>) = Some n"
    by (auto simp: rw_at_def split: option.splits if_splits)
  with Some show ?thesis by (simp add: rw_content_def rw_set_def)
qed

lemma rw_content_other: "rw_at fd' w \<noteq> rw_at fd w \<Longrightarrow> rw_content fd' (rw_set fd c w) = rw_content fd' w"
  unfolding rw_content_def [of fd'] rw_at_set by (auto simp: rw_set_def split: option.splits)

lemma rw_files_set: "rw_at fd w \<noteq> Some n \<Longrightarrow> rw_files (rw_set fd c w) n = rw_files w n"
  by (auto simp: rw_set_def split: option.splits)

lemma rw_elsewhere: "elsewhere rw_view fd (rw_set fd c w) = elsewhere rw_view fd w"
  by (auto simp: elsewhere_def rw_view_def fun_eq_iff rw_content_other rw_files_set)

lemma rw_content_at: "rw_at fd w = Some n \<Longrightarrow> rw_files w n = Some (rw_content fd w)"
  by (auto simp: rw_content_def rw_at_def split: option.splits if_splits)

lemma rw_at_new: "rw_at fd (rw_new n w) = (if fd = rw_next w then (if rw_files w n = None then None else Some n) else rw_at fd w)"
  by (auto simp: rw_at_def rw_new_def split: option.splits)

lemma rw_at_next: "rw_at (rw_next w) w = None"
  by (simp add: rw_at_def split: option.splits)

lemma rw_content_new: "fd \<noteq> rw_next w \<Longrightarrow> rw_content fd (rw_new n w) = rw_content fd w"
  by (simp add: rw_content_def rw_at_new) (simp add: rw_new_def split: option.splits)

text \<open>A file is added, or replaced while nobody has it open.\<close>

lemma rw_at_drop:
  assumes "\<And>m. m \<noteq> n \<Longrightarrow> m \<noteq> a \<Longrightarrow> F m = rw_files w m" and "rw_at fd w \<noteq> Some n" and "rw_at fd w \<noteq> Some a"
    and "F a = None \<or> a = n"
  shows "rw_at fd (drop_name n (w\<lparr>rw_files := F\<rparr>)) = rw_at fd w"
proof (cases "rw_open w fd")
  case (Some m)
  then show ?thesis using assms by (cases "m = a") (auto simp: rw_at_def drop_name_def split: if_splits)
qed (simp add: rw_at_def drop_name_def)

lemma rw_content_drop:
  assumes "\<And>m. m \<noteq> n \<Longrightarrow> m \<noteq> a \<Longrightarrow> F m = rw_files w m" and "rw_at fd w \<noteq> Some n" and "rw_at fd w \<noteq> Some a"
    and "F a = None \<or> a = n"
  shows "rw_content fd (drop_name n (w\<lparr>rw_files := F\<rparr>)) = rw_content fd w"
  using assms by (simp add: rw_content_def rw_at_drop [OF assms]) (auto simp: drop_name_def split: option.splits)

lemma rw_os_rw: "os_rw rw_sys rw_view"
proof -
  have "os_keeps rw_sys (Some fd) (elsewhere rw_view fd)" for fd
    by (simp add: os_keeps_def rw_sys_def rw_elsewhere)
  moreover have "os_write_ok rw_sys fd (v_content rw_view fd)" "os_accepts rw_sys fd" "os_whole rw_sys fd" for fd
    by (auto simp: os_write_ok_def os_accepts_def os_whole_def rw_sys_def rw_view_def rw_content_set)
  moreover have "\<exists>w'. fs_readat rw_sys (Some fd) n off w = (Some (take n (drop off (v_content rw_view fd w))), w') \<and> same rw_view w w'"
    for fd n off w by (simp add: rw_sys_def rw_view_def same_def)
  moreover have "v_at rw_view fd w = Some n \<Longrightarrow> v_disk rw_view w n = Some (v_content rw_view fd w)" for fd n w
    by (simp add: rw_view_def rw_content_at)
  ultimately show ?thesis unfolding os_rw_def by blast
qed

lemma rw_os_calm: "os_calm rw_sys rw_view"
  by (auto simp: os_calm_def rw_sys_def rw_view_def same_def)

lemma rw_os_names: "os_names rw_sys rw_view"
proof -
  have o: "\<exists>fd w'. fs_open rw_sys n {OReadonly, ONoatime} w = (Some fd, w') \<and> v_at rw_view fd w = None \<and>
      v_at rw_view fd w' = Some n \<and> others_same rw_view fd w w' \<and> v_disk rw_view w' = v_disk rw_view w"
    if "v_disk rw_view w n = Some d" for n d w
    using that by (simp add: rw_sys_def rw_view_def rw_at_next rw_at_new others_same_def rw_content_new) (simp add: rw_new_def)
  have c: "\<exists>fd w'. fs_open rw_sys n fl w = (Some fd, w') \<and> v_at rw_view fd w = None \<and>
      v_at rw_view fd w' = Some n \<and> others_same rw_view fd w w' \<and> v_disk rw_view w' = (v_disk rw_view w)(n \<mapsto> [])"
    if n: "v_disk rw_view w n = None" and fl: "fl \<in> {{OWriteonly, OCreatenew, ONoatime}, {OWriteonly, OCreate, ONoatime}}" for n w fl
  proof -
    let ?w = "drop_name n (w\<lparr>rw_files := (rw_files w)(n \<mapsto> [])\<rparr>)"
    have f: "rw_files w n = None" using n by (simp add: rw_view_def)
    have ne: "rw_at fd w \<noteq> Some n" for fd using rw_content_at [of fd w n] f by auto
    have d: "rw_at fd ?w = rw_at fd w" "rw_content fd ?w = rw_content fd w" for fd
      by (rule rw_at_drop [of n n]; simp add: ne) (rule rw_content_drop [of n n]; simp add: ne)
    have x: "rw_next ?w = rw_next w" "rw_files ?w = (rw_files w)(n \<mapsto> [])" by (simp_all add: drop_name_def)
    have "fs_open rw_sys n fl w = (Some (rw_next w), rw_new n ?w)"
      using f fl by (auto simp: rw_sys_def)
    moreover have "rw_at (rw_next w) (rw_new n ?w) = Some n" "rw_files (rw_new n ?w) = (rw_files w)(n \<mapsto> [])"
      using x by (simp_all add: rw_at_new) (simp add: rw_new_def)
    moreover have "others_same rw_view (rw_next w) w (rw_new n ?w)"
      using x d by (simp add: others_same_def rw_view_def rw_at_new rw_content_new)
    ultimately show ?thesis
      by (intro exI [of _ "rw_next w"] exI [of _ "rw_new n ?w"]) (simp add: rw_view_def rw_at_next)
  qed
  have p: "\<exists>fd w'. fs_open rw_sys n {OWriteonly, OCreate, ONoatime} w = (Some fd, w') \<and> v_at rw_view fd w = None \<and>
      v_at rw_view fd w' = Some n \<and> others_same rw_view fd w w' \<and> v_disk rw_view w' = v_disk rw_view w"
    if "v_disk rw_view w n = Some d" for n d w
    using that by (simp add: rw_sys_def rw_view_def rw_at_next rw_at_new others_same_def rw_content_new) (simp add: rw_new_def)
  have x: "let w' = snd (fs_close rw_sys (Some fd) w)
      in v_at rw_view fd w' = None \<and> others_same rw_view fd w w' \<and> v_disk rw_view w' = v_disk rw_view w" for fd w
    by (auto simp: rw_sys_def rw_view_def others_same_def rw_at_def rw_content_def Let_def split: option.splits)
  have r: "\<exists>w'. fs_rename rw_sys a b w = (True, w') \<and> v_disk rw_view w' = (v_disk rw_view w)(a := None, b \<mapsto> c) \<and>
      (\<forall>fd. v_at rw_view fd w' = v_at rw_view fd w \<and> v_content rw_view fd w' = v_content rw_view fd w)"
    if "v_disk rw_view w a = Some c" "\<forall>fd. v_at rw_view fd w \<noteq> Some a \<and> v_at rw_view fd w \<noteq> Some b" for a b c w
  proof -
    have ne: "rw_at fd w \<noteq> Some b" "rw_at fd w \<noteq> Some a" for fd using that(2) by (simp_all add: rw_view_def)
    let ?F = "(rw_files w)(a := None, b \<mapsto> c)"
    have "rw_at fd (drop_name b (w\<lparr>rw_files := ?F\<rparr>)) = rw_at fd w" for fd
      by (rule rw_at_drop [of b a]) (use ne in auto)
    moreover have "rw_content fd (drop_name b (w\<lparr>rw_files := ?F\<rparr>)) = rw_content fd w" for fd
      by (rule rw_content_drop [of b a]) (use ne in auto)
    ultimately show ?thesis using that(1) by (simp add: rw_sys_def rw_view_def) (simp add: drop_name_def)
  qed
  have e: "\<exists>w'. fs_remove rw_sys a w = (True, w') \<and> v_disk rw_view w' = (v_disk rw_view w)(a := None) \<and>
      (\<forall>fd. v_at rw_view fd w' = v_at rw_view fd w \<and> v_content rw_view fd w' = v_content rw_view fd w)"
    if "v_disk rw_view w a = Some c" "\<forall>fd. v_at rw_view fd w \<noteq> Some a" for a c w
  proof -
    have ne: "rw_at fd w \<noteq> Some a" for fd using that(2) by (simp add: rw_view_def)
    have at: "rw_at fd (w\<lparr>rw_files := (rw_files w)(a := None)\<rparr>) = rw_at fd w" for fd
      using ne [of fd] by (auto simp: rw_at_def split: option.splits if_splits)
    then have "rw_content fd (w\<lparr>rw_files := (rw_files w)(a := None)\<rparr>) = rw_content fd w" for fd
      using ne [of fd] by (auto simp: rw_content_def split: option.splits)
    with at that(1) show ?thesis by (simp add: rw_sys_def rw_view_def)
  qed
  show ?thesis unfolding os_names_def
    by (intro conjI allI impI) (use o in blast, use c in blast, use p in blast, use x in simp, use r in blast, use e in blast)
qed

lemma rw_os_files: "os_files rw_sys rw_view"
proof -
  have "ffbase_ok rw_sys" by (simp add: ffbase_ok_def rw_sys_def)
  then show ?thesis using rw_os_rw rw_os_calm rw_os_names by (simp add: os_files_def)
qed

end
