(* ===== verification/Md5Props.thy ===== *)
theory Md5Props
  imports Md5
begin

text \<open>
  What \<^theory_text>\<open>Md5\<close> guarantees: the lines it writes read back, verification reports exactly the
  files whose contents have another hash, and while its reads fail it stays in its loop.
\<close>

section \<open>Checksum files\<close>


section \<open>Verification\<close>

text \<open>The hash of a text does not depend on how it is cut into updates.\<close>

definition hash_ok :: "'h hashif \<Rightarrow> (bytes \<Rightarrow> bytes) \<Rightarrow> bool" where
  "hash_ok h Hs \<longleftrightarrow> (\<forall>cs. h_fin h (foldl (h_update h) (h_create h) cs) = Hs (concat cs))"

definition wrong :: "(bytes \<Rightarrow> bytes) \<Rightarrow> (bytes \<rightharpoonup> bytes) \<Rightarrow> bytes \<times> bytes \<Rightarrow> bool" where
  "wrong Hs av e \<longleftrightarrow> Hs (the (av (snd e))) \<noteq> fst e"

definition verified :: "(bytes \<Rightarrow> bytes) \<Rightarrow> (bytes \<rightharpoonup> bytes) \<Rightarrow> ('k, 'h) md5 \<Rightarrow> (bytes \<times> bytes) list \<Rightarrow> ('k, 'h) md5 \<Rightarrow> bool" where
  "verified Hs av m es m' \<longleftrightarrow>
     md_processed m' = md_processed m + length es \<and>
     md_err_verify m' = md_err_verify m + length (filter (wrong Hs av) es) \<and>
     md_err_format m' = md_err_format m \<and> md_err_io m' = md_err_io m \<and>
     md_in m' = md_in m \<and> md_cmd m' = md_cmd m"

lemma verified_Nil: "verified Hs av m [] m"
  by (simp add: verified_def)

lemma verified_append: "verified Hs av m es m1 \<Longrightarrow> verified Hs av m1 es' m2 \<Longrightarrow> verified Hs av m (es @ es') m2"
  by (simp add: verified_def)

lemma verified_state: "verified Hs av m es (m'\<lparr>md_state := x\<rparr>) = verified Hs av m es m'"
  "verified Hs av (m\<lparr>md_state := x\<rparr>) es m' = verified Hs av m es m'"
  by (simp_all add: verified_def)

text \<open>
  \<open>fffile_readwhole\<close> delivers the files that can be opened and are not larger than the limit it is given,
  and leaves the rest alone.
\<close>

definition reads_whole :: "('q \<Rightarrow> bytes \<rightharpoonup> bytes) \<Rightarrow> ('s \<Rightarrow> 'q) \<Rightarrow> ('s, 'i, 'h) md5env \<Rightarrow> bool" where
  "reads_whole av frame E \<longleftrightarrow> (\<forall>s n d k. av (frame s) n = Some d \<and> length d \<le> k \<longrightarrow>
     (\<exists>s'. me_readwhole E n k s = Some (Some d, s') \<and> frame s' = frame s))"

text \<open>The checksum files the operation reads: lines it could have written, at most 100 MB.\<close>

definition sums_file :: "hexlib \<Rightarrow> (bytes \<times> bytes) list \<Rightarrow> bool" where
  "sums_file H es \<longleftrightarrow> (\<forall>e \<in> set es. md5_entry e) \<and> length (concat (map (md5_line H) es)) \<le> 100 * 1024 * 1024"

context file_source
begin

lemma md5_verify_file:
  assumes E: "me_core E = C" "hexlib_ok (me_hex E)" "\<not> me_isdir E (me_info_zero E)" "hash_ok (me_hash E) Hs"
    and m: "md_in m = o1" "fcom_file_cominfo_flags_i (md_cmd m) OR FCOM_FILE_READ = fl"
    and st: "md_state m = MdVerifyNext" "md_current m = md5_line (me_hex E) e @ rst" "md5_entry e"
    and av: "avail (frame s) (snd e) \<noteq> None" and run: "\<not> stop_flag C s"
  shows "\<exists>m' s'. op_loop (stop_flag C) (md5_turn E) (m, err) s = op_loop (stop_flag C) (md5_turn E) (m', err) s' \<and>
    verified Hs (avail (frame s)) m [e] m' \<and> md_state m' = MdVerifyNext \<and> md_current m' = rst \<and> frame s' = frame s"
proof -
  obtain sm n d where e: "e = (sm, n)" and d: "avail (frame s) n = Some d" using av by (cases e) auto
  obtain s1 where o: "fi_open C o1 n fl s = Some (FOk, s1)" "rest s1 = Some d" "frame s1 = frame s"
    using src_open [OF d] by blast
  define m1 where "m1 = m\<lparr>md_current := rst, md_chksum := sm, md_name := n,
      md_hash := Some (h_create (me_hash E)), md_state := MdVerifyFileRead\<rparr>"
  have ne: "md_current m \<noteq> []" using st(2) by (simp add: md5_line_def)
  have rd: "md5sum_read (me_hex E) (md_current m) = (False, Some sm, Some n, rst)"
    using md5sum_read_line [OF E(2) st(3), of rst] st(2) e by simp
  have "md5_turn E (m, err) s = md5_turn E (m1, err) s1"
    using st(1) rd ne o(1) E(1,3) m
    by (simp add: md5_turn_def st_verify_next_def md5_chksum_next_def st_verify_file_open_def md5_file_open_def m1_def)
  then have l1: "op_loop (stop_flag C) (md5_turn E) (m, err) s = op_loop (stop_flag C) (md5_turn E) (m1, err) s1"
    using run rd_runs [of s1] o(2) by (intro op_loop_same_turn) auto
  define Q where "Q a x \<longleftrightarrow> (\<exists>y cs. a = (m1\<lparr>md_data := y, md_hash := Some (foldl (h_update (me_hash E)) (h_create (me_hash E)) cs)\<rparr>, err) \<and> concat cs = x)"
    for a x
  have "Q (m1, err) []" unfolding Q_def by (rule exI [of _ "md_data m1"], rule exI [of _ "[]"]) (simp add: m1_def)
  moreover have "\<exists>a'. md5_turn E a s = Some (Inl a', s') \<and> Q a' (x @ c)"
    if q: "Q a x" and r: "fi_read C o1 None s = Some ((FOk, c), s')" for a x c s s'
  proof -
    obtain y cs where a: "a = (m1\<lparr>md_data := y, md_hash := Some (foldl (h_update (me_hash E)) (h_create (me_hash E)) cs)\<rparr>, err)"
      "concat cs = x" using q Q_def by blast
    have "md5_turn E a s = Some (Inl (m1\<lparr>md_data := c, md_hash := Some (foldl (h_update (me_hash E)) (h_create (me_hash E)) (cs @ [c]))\<rparr>, err), s')"
      using r E(1) m(1) by (simp add: a md5_turn_def st_verify_file_read_def md5_file_process_def md5_take_def m1_def)
    moreover have "concat (cs @ [c]) = x @ c" using a(2) by simp
    ultimately show ?thesis unfolding Q_def by blast
  qed
  ultimately obtain a' s2 where r: "(op_turn (stop_flag C) (md5_turn E))\<^sup>*\<^sup>* ((m1, err), s1) (a', s2)" "Q a' d"
    "rest s2 = Some []" "frame s2 = frame s1"
    using consume [of Q "md5_turn E" s1 d "(m1, err)" "[]"] o(2) by auto
  obtain y cs where a': "a' = (m1\<lparr>md_data := y, md_hash := Some (foldl (h_update (me_hash E)) (h_create (me_hash E)) cs)\<rparr>, err)"
    "concat cs = d" using r(2) Q_def by blast
  have hs: "h_fin (me_hash E) (foldl (h_update (me_hash E)) (h_create (me_hash E)) cs) = Hs d"
    using E(4) a'(2) unfolding hash_ok_def by blast
  obtain s3 where ef: "fi_read C o1 None s2 = Some ((FEof, []), s3)" "frame s3 = frame s2" using rd_end [OF r(3)] by blast
  define m2 where "m2 = (fst a')\<lparr>md_processed := md_processed m + 1, md_hash := None,
      md_err_verify := md_err_verify m + (if Hs d \<noteq> sm then 1 else 0), md_state := MdVerifyNext\<rparr>"
  have "md5_turn E a' s2 = Some (Inl (m2, err), s3)"
    using ef(1) E(1) m(1) hs
    by (simp add: a' md5_turn_def st_verify_file_read_def md5_file_process_def md5_take_def md5_file_verify_def m1_def m2_def)
  then have "op_turn (stop_flag C) (md5_turn E) (a', s2) ((m2, err), s3)"
    using rd_runs [of s2] r(3) by (simp add: op_turn_def)
  then have "op_loop (stop_flag C) (md5_turn E) (m1, err) s1 = op_loop (stop_flag C) (md5_turn E) (m2, err) s3"
    using op_loop_turns [OF rtranclp.rtrancl_into_rtrancl [OF r(1)]] by fastforce
  moreover have "verified Hs (avail (frame s)) m [e] m2" "md_state m2 = MdVerifyNext" "md_current m2 = rst"
    using d by (simp_all add: verified_def m2_def a' m1_def wrong_def e)
  ultimately show ?thesis using l1 o(3) r(4) ef(2) by metis
qed

lemma md5_verify_lines:
  assumes E: "me_core E = C" "hexlib_ok (me_hex E)" "\<not> me_isdir E (me_info_zero E)" "hash_ok (me_hash E) Hs"
    and run: "\<And>s. todo (frame s) = td \<Longrightarrow> \<not> stop_flag C s"
  shows "md_in m = o1 \<Longrightarrow> fcom_file_cominfo_flags_i (md_cmd m) OR FCOM_FILE_READ = fl \<Longrightarrow>
    md_state m = MdVerifyNext \<Longrightarrow> md_current m = concat (map (md5_line (me_hex E)) es) \<Longrightarrow> todo (frame s) = td \<Longrightarrow>
    \<forall>e \<in> set es. md5_entry e \<and> avail (frame s) (snd e) \<noteq> None \<Longrightarrow>
    \<exists>m' s'. op_loop (stop_flag C) (md5_turn E) (m, err) s = op_loop (stop_flag C) (md5_turn E) (m', err) s' \<and>
      verified Hs (avail (frame s)) m es m' \<and> md_state m' = MdVerifyOpen \<and> frame s' = frame s"
proof (induction es arbitrary: m s)
  case Nil
  have "md5_turn E (m, err) s = Some (Inl (m\<lparr>md_state := MdVerifyOpen\<rparr>, err), s)"
    using Nil(3,4) by (simp add: md5_turn_def st_verify_next_def md5_chksum_next_def)
  then have "op_loop (stop_flag C) (md5_turn E) (m, err) s = op_loop (stop_flag C) (md5_turn E) (m\<lparr>md_state := MdVerifyOpen\<rparr>, err) s"
    using run [OF Nil(5)] by (intro op_loop_turn) (simp add: op_turn_def)
  then show ?case
    by (intro exI [of _ "m\<lparr>md_state := MdVerifyOpen\<rparr>"] exI [of _ s]) (simp add: verified_state verified_Nil)
next
  case (Cons e es)
  obtain m1 s1 where 1: "op_loop (stop_flag C) (md5_turn E) (m, err) s = op_loop (stop_flag C) (md5_turn E) (m1, err) s1"
    "verified Hs (avail (frame s)) m [e] m1" "md_state m1 = MdVerifyNext" "md_current m1 = concat (map (md5_line (me_hex E)) es)"
    "frame s1 = frame s"
    using md5_verify_file [OF E Cons(2,3,4), of e "concat (map (md5_line (me_hex E)) es)" s err] run [OF Cons(6)] Cons(5,7) by auto
  have "md_in m1 = o1" "fcom_file_cominfo_flags_i (md_cmd m1) OR FCOM_FILE_READ = fl"
    using 1(2) Cons(2,3) by (simp_all add: verified_def)
  from Cons(1) [OF this 1(3,4), of s1] 1(5) Cons(6,7)
  obtain m' s' where "op_loop (stop_flag C) (md5_turn E) (m1, err) s1 = op_loop (stop_flag C) (md5_turn E) (m', err) s'"
    "verified Hs (avail (frame s)) m1 es m'" "md_state m' = MdVerifyOpen" "frame s' = frame s" by auto
  then show ?case using 1(1) verified_append [OF 1(2)] by fastforce
qed

lemma md5_verify_files:
  assumes E: "me_core E = C" "hexlib_ok (me_hex E)" "\<not> me_isdir E (me_info_zero E)" "hash_ok (me_hash E) Hs"
    and rw: "reads_whole avail frame E"
  shows "md_in m = o1 \<Longrightarrow> fcom_file_cominfo_flags_i (md_cmd m) OR FCOM_FILE_READ = fl \<Longrightarrow> md_state m = MdVerifyOpen \<Longrightarrow>
    todo (frame s) = Some (map (\<lambda>(n, es). (n, concat (map (md5_line (me_hex E)) es))) ls) \<Longrightarrow>
    \<forall>(n, es) \<in> set ls. sums_file (me_hex E) es \<and> (\<forall>e \<in> set es. avail (frame s) (snd e) \<noteq> None) \<Longrightarrow>
    \<exists>m' s'. op_loop (stop_flag C) (md5_turn E) (m, err) s =
        Some (((m', err), if md_err_format m' = 0 \<and> md_err_io m' = 0 \<and> md_err_verify m' = 0 then 0 else 1), s') \<and>
      verified Hs (avail (frame s)) m (concat (map snd ls)) m'"
proof (induction ls arbitrary: m s)
  case Nil
  have td: "todo (frame s) = Some []" using Nil(4) by simp
  obtain s1 where "com_input_next C 0 s = Some (RNomore, s1)" using src_last [OF td] by blast
  then have "md5_turn E (m, err) s =
      Some (Inr ((m, err), if md_err_format m = 0 \<and> md_err_io m = 0 \<and> md_err_verify m = 0 then 0 else 1), s1)"
    using Nil(3) E(1) by (simp add: md5_turn_def st_verify_open_def md5_chksum_file_read_def)
  with src_runs [of s] td show ?case
    by (intro exI [of _ m] exI [of _ s1]) (simp add: op_loop_exit verified_Nil)
next
  case (Cons x ls)
  obtain n es where x: "x = (n, es)" by fastforce
  let ?d = "concat (map (md5_line (me_hex E)) es)"
  let ?fs = "map (\<lambda>(n, es). (n, concat (map (md5_line (me_hex E)) es))) ls"
  have td: "todo (frame s) = Some ((n, ?d) # ?fs)" using Cons(5) x by simp
  obtain b s1 where nx: "com_input_next C 0 s = Some (ROk n b, s1)" "todo (frame s1) = Some ?fs"
    "avail (frame s1) = avail (frame s)" "avail (frame s) n = Some ?d"
    using src_name [OF td] by blast
  then obtain s2 where r: "me_readwhole E n (100 * 1024 * 1024) s1 = Some (Some ?d, s2)" "frame s2 = frame s1"
    using rw Cons(6) unfolding reads_whole_def x sums_file_def by (metis (no_types, lifting) case_prodD list.set_intros(1))
  define m1 where "m1 = m\<lparr>md_iname := n, md_current := ?d, md_state := MdVerifyNext\<rparr>"
  have "md5_turn E (m, err) s = md5_turn E (m1, err) s2"
    using nx(1) r(1) Cons(4) E(1) by (simp add: md5_turn_def st_verify_open_def md5_chksum_file_read_def m1_def)
  then have l1: "op_loop (stop_flag C) (md5_turn E) (m, err) s = op_loop (stop_flag C) (md5_turn E) (m1, err) s2"
    using src_runs [of s] src_runs [of s2] td nx(2) r(2) by (intro op_loop_same_turn) auto
  have run: "\<not> stop_flag C s'" if "todo (frame s') = Some ?fs" for s' using that src_runs [of s'] by simp
  have m1: "md_in m1 = o1" "fcom_file_cominfo_flags_i (md_cmd m1) OR FCOM_FILE_READ = fl" "md_state m1 = MdVerifyNext"
    "md_current m1 = ?d" using Cons(2,3) by (simp_all add: m1_def)
  have av: "\<forall>e \<in> set es. md5_entry e \<and> avail (frame s2) (snd e) \<noteq> None" using Cons(6) x nx(3) r(2) by (auto simp: sums_file_def)
  obtain m2 s3 where 2: "op_loop (stop_flag C) (md5_turn E) (m1, err) s2 = op_loop (stop_flag C) (md5_turn E) (m2, err) s3"
    "verified Hs (avail (frame s2)) m1 es m2" "md_state m2 = MdVerifyOpen" "frame s3 = frame s2"
    using md5_verify_lines [OF E run m1 _ av, where err = err] nx(2) r(2) by auto
  have v: "verified Hs (avail (frame s)) m es m2"
    using 2(2) nx(3) r(2) by (simp add: verified_def m1_def)
  then have m2: "md_in m2 = o1" "fcom_file_cominfo_flags_i (md_cmd m2) OR FCOM_FILE_READ = fl"
    using Cons(2,3) by (simp_all add: verified_def)
  have fr: "frame s3 = frame s1" using 2(4) r(2) by simp
  have av3: "\<forall>(n, es) \<in> set ls. sums_file (me_hex E) es \<and> (\<forall>e \<in> set es. avail (frame s3) (snd e) \<noteq> None)"
    using Cons(6) fr nx(3) by auto
  obtain m' s' where "op_loop (stop_flag C) (md5_turn E) (m2, err) s3 =
        Some (((m', err), if md_err_format m' = 0 \<and> md_err_io m' = 0 \<and> md_err_verify m' = 0 then 0 else 1), s')"
      "verified Hs (avail (frame s3)) m2 (concat (map snd ls)) m'"
    using Cons(1) [OF m2 2(3) _ av3] nx(2) fr by auto
  then show ?case using l1 2(1) verified_append [OF v] fr nx(3) x by auto
qed

end

section \<open>A library for the witnesses\<close>

definition hex_digit :: "nat \<Rightarrow> char" where
  "hex_digit n = char_of (if n < 10 then 48 + n else 87 + n)"

definition hex_value :: "char \<Rightarrow> nat option" where
  "hex_value c =
     (let n = of_char c :: nat
      in if 48 \<le> n \<and> n < 58 then Some (n - 48) else if 97 \<le> n \<and> n < 103 then Some (n - 87) else None)"

fun hex_read :: "bytes \<Rightarrow> bytes option" where
  "hex_read (a # b # s) =
     (case (hex_value a, hex_value b, hex_read s) of
        (Some x, Some y, Some r) \<Rightarrow> Some (char_of (16 * x + y) # r) | _ \<Rightarrow> None)"
| "hex_read s = (if s = [] then Some [] else None)"

definition hex_lib :: hexlib where
  "hex_lib =
     \<lparr>hex_out = (\<lambda>b. concat (map (\<lambda>c. let n = of_char c :: nat in [hex_digit (n div 16), hex_digit (n mod 16)]) b)),
      hex_in = hex_read,
      find_any = (\<lambda>s cs. if \<exists>x \<in> set s. x \<in> cs then Some (length (takeWhile (\<lambda>x. x \<notin> cs) s)) else None)\<rparr>"

lemma hex_value_digit: "n < 16 \<Longrightarrow> hex_value (hex_digit n) = Some n"
  by (auto simp: hex_value_def hex_digit_def Let_def)

lemma of_char_less: "of_char c < (256 :: nat)"
  by (metis of_char_mod_256 mod_less_divisor zero_less_numeral)

lemma hex_lib_ok: "hexlib_ok hex_lib"
proof -
  have v: "hex_value (hex_digit (of_char c div 16)) = Some (of_char c div 16)"
    "hex_value (hex_digit (of_char c mod 16)) = Some (of_char c mod 16)" for c
    using of_char_less [of c] by (auto intro!: hex_value_digit less_mult_imp_div_less)
  have "hex_read (concat (map (\<lambda>c. [hex_digit (of_char c div 16), hex_digit (of_char c mod 16)]) b)) = Some b" for b
    by (induction b) (simp_all add: v)
  moreover have "length (concat (map (\<lambda>c. [hex_digit (of_char c div 16), hex_digit (of_char c mod 16)]) b)) = 2 * length b" for b
    by (induction b) simp_all
  ultimately show ?thesis by (simp add: hexlib_ok_def hex_lib_def Let_def)
qed

text \<open>A hash function that pads the text.\<close>

definition pad_hash :: "bytes hashif" where
  "pad_hash = \<lparr>h_create = [], h_update = (@), h_fin = (\<lambda>d. take 16 (d @ replicate 16 (CHR 0x00)))\<rparr>"

lemma pad_hash_ok: "hash_ok pad_hash (\<lambda>d. take 16 (d @ replicate 16 (CHR 0x00)))"
proof -
  have "foldl (@) a cs = a @ concat cs" for a and cs :: "bytes list" by (induction cs arbitrary: a) simp_all
  then show ?thesis by (simp add: hash_ok_def pad_hash_def)
qed

section \<open>Properties\<close>



text \<open>A failed read leaves the object as it was, up to the position in the ring and its counter of misses.\<close>

lemma file_read_fails:
  assumes "f_fd f = fd" and "\<not> has (f_flags f) FCOM_FILE_STDIN" and "\<forall>b \<in> set (bufs (f_bufset f)). \<not> fbuf_covers b (f_cur f)"
    and "\<And>n off. \<exists>w'. fs_readat sys fd n off w = (None, w') \<and> fs_errno sys w' \<noteq> EAGAIN \<and> broken w'"
  shows "\<exists>f' w'. file_read sys f None w = ((FErr, []), f', w') \<and> broken w' \<and> f_fd f' = fd \<and> f_flags f' = f_flags f \<and>
    f_cur f' = f_cur f \<and> bufs (f_bufset f') = bufs (f_bufset f)"
proof -
  have "find_index (\<lambda>b. fbuf_covers b (f_cur f)) bs = None" if "\<forall>b \<in> set bs. \<not> fbuf_covers b (f_cur f)" for bs
    using that by (induction bs) simp_all
  then have "fbufset_find (f_bufset f) (f_cur f) = (None, (f_bufset f)\<lparr>misses := misses (f_bufset f) + 1\<rparr>)"
    using assms(3) by (simp add: fbufset_find_def)
  moreover obtain w' where "fs_readat sys fd (f_bufsize f) (align_floor2 sys (f_cur f) ALIGN) w = (None, w')"
    "fs_errno sys w' \<noteq> EAGAIN" "broken w'"
    using assms(4) by blast
  ultimately show ?thesis using assms(1,2) by (simp add: file_read_def fbufset_nextbuf_def Let_def)
qed

text \<open>The reads of a descriptor fail from now on, and not because there is nothing to read yet.\<close>

definition reads_fail :: "('w, 'i) sys \<Rightarrow> fffd \<Rightarrow> ('w \<Rightarrow> bool) \<Rightarrow> bool" where
  "reads_fail sys fd broken \<longleftrightarrow>
     (\<forall>n off w. broken w \<longrightarrow> (\<exists>w'. fs_readat sys fd n off w = (None, w') \<and> fs_errno sys w' \<noteq> EAGAIN \<and> broken w'))"

text \<open>C25. A read error while a file is hashed is never reported: the loop treats it like a piece of data and
  reads again, so as long as the reads of this file keep failing the operation does not return.\<close>

theorem md5_read_error_hangs:
  fixes s :: "('t, 'c, 'o, 'q, 'w fworld) com"
  assumes "me_core E = core_of sys lib cm mk" and "md_state m = MdRead"
    and "reads_fail sys fd broken" and "broken (wo_sys (world s))" and "\<not> wo_stop (world s)"
    and "f_fd (wo_objs (world s) (md_in m)) = fd" and "\<not> has (f_flags (wo_objs (world s) (md_in m))) FCOM_FILE_STDIN"
    and "\<forall>b \<in> set (bufs (f_bufset (wo_objs (world s) (md_in m)))). \<not> fbuf_covers b (f_cur (wo_objs (world s) (md_in m)))"
  shows "op_loop (stop_flag (me_core E)) (md5_turn E) (m, err) s = None"
proof -
  define I where "I = (\<lambda>c (s :: ('t, 'c, 'o, 'q, 'w fworld) com). c = (m, err) \<and> broken (wo_sys (world s)) \<and> \<not> wo_stop (world s) \<and>
    (let f = wo_objs (world s) (md_in m) in f_fd f = fd \<and> \<not> has (f_flags f) FCOM_FILE_STDIN \<and>
       (\<forall>b \<in> set (bufs (f_bufset f)). \<not> fbuf_covers b (f_cur f))))"
  show ?thesis
  proof (rule op_loop_diverges [where I = I])
    fix c s
    assume i: "I c s"
    let ?f = "wo_objs (world s) (md_in m)"
    obtain f' w' where x: "file_read sys ?f None (wo_sys (world s)) = ((FErr, []), f', w')" "broken w'" "f_fd f' = fd"
      "f_flags f' = f_flags ?f" "f_cur f' = f_cur ?f" "bufs (f_bufset f') = bufs (f_bufset ?f)"
      using file_read_fails [of ?f fd sys "wo_sys (world s)" broken] i assms(3) by (auto simp: I_def Let_def reads_fail_def)
    define s' where "s' = s\<lparr>world := (world s)\<lparr>wo_objs := (wo_objs (world s))(md_in m := f'), wo_sys := w'\<rparr>\<rparr>"
    have "fi_read (me_core E) (md_in m) None s = Some ((FErr, []), s')"
      using x(1) assms(1) by (simp add: core_of_def on_obj_def Let_def s'_def)
    then have "md5_turn E c s = Some (Inl c, s')"
      using assms(2) i by (simp add: I_def md5_turn_def st_read_def md5_process_def md5_take_def)
    moreover have "I c s'" using i x by (simp add: I_def s'_def Let_def)
    moreover have "\<not> stop_flag (me_core E) s" using i assms(1) by (simp add: I_def core_of_def)
    ultimately show "\<not> stop_flag (me_core E) s \<and> (\<exists>c' s'. md5_turn E c s = Some (Inl c', s') \<and> I c' s')" by blast
  next
    show "I (m, err) s" using assms(4-8) by (simp add: I_def Let_def)
  qed
qed

text \<open>A disk on which files can be opened but not read, and the operation after it has opened its input.\<close>

definition bad_sys :: "((bytes \<times> bytes) list \<times> bytes, unit) sys" where
  "bad_sys = disk_sys\<lparr>fs_readat := (\<lambda>fd n off w. (None, w)), fs_errno := (\<lambda>w. EOTHER 5)\<rparr>"

definition bad_env ::
  "((bytes list, nat, unit, unit, ((bytes \<times> bytes) list \<times> bytes) fworld) com, unit, bytes) md5env" where
  "bad_env = \<lparr>me_core = core_of bad_sys cursor_lib 0 (\<lambda>_. disk_obj), me_isdir = (\<lambda>_. False), me_hex = hex_lib,
     me_hash = pad_hash, me_readwhole = (\<lambda>n _ s. Some (None, s)), me_normalize = (\<lambda>n. n), me_info_zero = ()\<rparr>"

theorem md5_read_error_hangs_witness:
  "\<exists>m s0 s. md5_create bad_env False None (plain_info [''a'']) (disk_com [(''a'', ''x'')]) = Some (m, s0) \<and>
    fi_open (me_core bad_env) (md_in m) ''a'' FCOM_FILE_READ s0 = Some (FOk, s) \<and>
    op_loop (stop_flag (me_core bad_env)) (md5_turn bad_env) (m\<lparr>md_state := MdRead\<rparr>, 0) s = None"
proof -
  obtain m s0 where m: "md5_create bad_env False None (plain_info [''a'']) (disk_com [(''a'', ''x'')]) = Some (m, s0)"
    "md_in m = 1" "wo_objs (world s0) 1 = disk_obj" "wo_sys (world s0) = ([(''a'', ''x'')], [])" "\<not> wo_stop (world s0)"
    by (simp add: md5_create_def bad_env_def core_of_def disk_com_def plain_info_def)
  note no = read_flags_no [of FCOM_FILE_READ, unfolded read_flags_def, simplified]
  obtain f w where o1: "file_open bad_sys disk_obj ''a'' FCOM_FILE_READ ([(''a'', ''x'')], []) = Some (FOk, f, w)"
    "f_flags f = FCOM_FILE_READ" "bufs (f_bufset f) = bufs (f_bufset disk_obj)"
    by (simp add: file_open_def file_close_def open_loop.simps fbufset_reset_def disk_obj_def bad_sys_def disk_sys_def Let_def no)
  define s where "s = s0\<lparr>world := (world s0)\<lparr>wo_objs := (wo_objs (world s0))(1 := f), wo_sys := w\<rparr>\<rparr>"
  have "fi_open (me_core bad_env) (md_in m) ''a'' FCOM_FILE_READ s0 = Some (FOk, s)"
    using m(2-4) o1(1) by (simp only: bad_env_def core_of_def on_obj_def Let_def s_def md5env.simps coreif.simps option.map prod.case)
  moreover have "wo_objs (world s) 1 = f" "\<not> wo_stop (world s)" using m(5) by (simp_all add: s_def)
  ultimately have s: "fi_open (me_core bad_env) (md_in m) ''a'' FCOM_FILE_READ s0 = Some (FOk, s)"
    "wo_objs (world s) 1 = f" "\<not> wo_stop (world s)" .
  have "op_loop (stop_flag (me_core bad_env)) (md5_turn bad_env) (m\<lparr>md_state := MdRead\<rparr>, 0) s = None"
    by (rule md5_read_error_hangs [where sys = bad_sys and broken = "\<lambda>w. True"])
      (use m s o1 no in \<open>simp_all add: bad_env_def reads_fail_def bad_sys_def fbuf_covers_def disk_obj_def\<close>)
  then show ?thesis using m s by blast
qed

text \<open>C23. Verifying checksum files the operation could have written, each at most 100 MB, over a readable disk: it
  ends, reads every listed file whole, counts exactly those whose contents have another sum, and reports 0 if there are none.\<close>

theorem md5_verify_exact:
  assumes "me_core E = core_of sys lib cm mk" and "hexlib_ok (me_hex E)" and "\<not> me_isdir E (me_info_zero E)"
    and "hash_ok (me_hash E) Hs" and "reads_whole (disk_avail sys content disk isdir fl) (obj_frame disk (md_in m)) E"
    and "fcom_file_cominfo_flags_i (md_cmd m) OR FCOM_FILE_READ = fl" and "md_state m = MdVerifyOpen"
    and "disk_todo sys content disk isdir lib names cm fl (obj_frame disk (md_in m) s) =
      Some (map (\<lambda>(n, es). (n, concat (map (md5_line (me_hex E)) es))) ls)"
    and "\<forall>(n, es) \<in> set ls. sums_file (me_hex E) es \<and>
      (\<forall>e \<in> set es. disk_avail sys content disk isdir fl (obj_frame disk (md_in m) s) (snd e) \<noteq> None)"
    and "md_processed m = 0 \<and> md_err_format m = 0 \<and> md_err_io m = 0 \<and> md_err_verify m = 0"
  shows "\<exists>m' s' rc. op_loop (stop_flag (me_core E)) (md5_turn E) (m, err) s = Some (((m', err), rc), s') \<and>
    (rc = 0 \<longleftrightarrow> (\<forall>(n, es) \<in> set ls. \<forall>(sm, f) \<in> set es.
       Hs (the (disk_avail sys content disk isdir fl (obj_frame disk (md_in m) s) f)) = sm)) \<and>
    md_processed m' = length (concat (map snd ls)) \<and> md_err_io m' = 0 \<and> md_err_format m' = 0"
proof -
  let ?av = "disk_avail sys content disk isdir fl (obj_frame disk (md_in m) s)"
  obtain m' s' where r: "op_loop (stop_flag (core_of sys lib cm mk)) (md5_turn E) (m, err) s =
        Some (((m', err), if md_err_format m' = 0 \<and> md_err_io m' = 0 \<and> md_err_verify m' = 0 then 0 else 1), s')"
    "verified Hs ?av m (concat (map snd ls)) m'"
    using disk.md5_verify_files [OF assms(1-5) refl assms(6-9)] by blast
  have "length (filter (wrong Hs ?av) (concat (map snd ls))) = 0 \<longleftrightarrow>
      (\<forall>(n, es) \<in> set ls. \<forall>(sm, f) \<in> set es. Hs (the (?av f)) = sm)"
    by (fastforce simp: wrong_def filter_empty_conv)
  with r assms(1,10) show ?thesis by (simp add: verified_def)
qed

text \<open>The disk of the witness: a checksum file listing one file.\<close>

definition sums_disk :: "(bytes \<times> bytes) list" where
  "sums_disk = [(''s.md5'', md5_line hex_lib (''0123456789abcdef'', ''a'')), (''a'', ''0123456789abcdef'')]"

definition sums_com :: "(bytes list, nat, unit, unit, ((bytes \<times> bytes) list \<times> bytes) fworld) com" where
  "sums_com = (disk_com sums_disk)\<lparr>cmd_at := (\<lambda>_. (cmd_at (disk_com sums_disk) 0)\<lparr>cm_info := plain_info [''s.md5'']\<rparr>)\<rparr>"

definition sums_env ::
  "((bytes list, nat, unit, unit, ((bytes \<times> bytes) list \<times> bytes) fworld) com, unit, bytes) md5env" where
  "sums_env = \<lparr>me_core = core_of disk_sys cursor_lib 0 (\<lambda>_. disk_obj), me_isdir = (\<lambda>_. False), me_hex = hex_lib,
     me_hash = pad_hash, me_readwhole = (\<lambda>n k s. Some (case map_of (fst (wo_sys (world s))) n of
       None \<Rightarrow> None | Some d \<Rightarrow> if length d \<le> k then Some d else None, s)),
     me_normalize = (\<lambda>n. n), me_info_zero = ()\<rparr>"

definition sums_md5 :: "(unit, bytes) md5" where
  "sums_md5 = \<lparr>md_state = MdVerifyOpen, md_cmd = (plain_info [''s.md5''])\<lparr>ci_stdout := True\<rparr>, md_iname = [], md_data = [],
     md_in = 1, md_out = 2, md_hash = None, md_opened = False, md_chksum = replicate 16 (CHR 0x00), md_current = [], md_name = [],
     md_processed = 0, md_exist = 0, md_err_format = 0, md_err_io = 0, md_err_verify = 0, md_map = [], md_verify = True,
     md_update_fn = None\<rparr>"

lemma sums_reads_whole:
  "reads_whole (disk_avail disk_sys (\<lambda>fd w. snd w) (\<lambda>w. map_of (fst w)) (\<lambda>i. False) FCOM_FILE_READ)
     (obj_frame (\<lambda>w. map_of (fst w)) o1) sums_env"
  by (auto simp: reads_whole_def disk_avail_def obj_frame_def sums_env_def split: if_splits)

lemma sums_file_one: "sums_file hex_lib [(''0123456789abcdef'', ''a'')]"
  by (simp add: sums_file_def md5_entry_def md5_line_def hex_lib_def Let_def)

lemma cursor_add: "tree_add cursor_lib t n = Some (t @ [n])"
  by (simp add: cursor_lib_def)

lemma sums_todo:
  "disk_todo disk_sys (\<lambda>fd w. snd w) (\<lambda>w. map_of (fst w)) (\<lambda>i. False) cursor_lib cursor_names 0 FCOM_FILE_READ
     (obj_frame (\<lambda>w. map_of (fst w)) 1 sums_com) =
   Some [(''s.md5'', md5_line hex_lib (''0123456789abcdef'', ''a''))]"
  using disk_sys_ok cursor_names_ok disk_obj_sound
  by (simp add: disk_todo_def obj_frame_def sums_com_def disk_com_def com_todo_def cursor_add cursor_names_def
      plain_info_def name_passes_def read_flags_def sums_disk_def)

lemma sums_avail:
  "disk_avail disk_sys (\<lambda>fd w. snd w) (\<lambda>w. map_of (fst w)) (\<lambda>i. False) FCOM_FILE_READ
     (obj_frame (\<lambda>w. map_of (fst w)) 1 sums_com) ''a'' = Some ''0123456789abcdef''"
  using disk_sys_ok disk_obj_sound
  by (simp add: disk_avail_def obj_frame_def sums_com_def disk_com_def read_flags_def sums_disk_def)

theorem md5_verify_exact_witness:
  "\<exists>m' s'. op_loop (stop_flag (me_core sums_env)) (md5_turn sums_env) (sums_md5, 0) sums_com = Some (((m', 0), 0), s') \<and>
    md_processed m' = 1"
proof -
  have "\<exists>m' s' rc. op_loop (stop_flag (me_core sums_env)) (md5_turn sums_env) (sums_md5, 0) sums_com = Some (((m', 0), rc), s') \<and>
    (rc = 0 \<longleftrightarrow> (\<forall>(n, es) \<in> set [(''s.md5'', [(''0123456789abcdef'', ''a'')])]. \<forall>(sm, f) \<in> set es.
       take 16 (the (disk_avail disk_sys (\<lambda>fd w. snd w) (\<lambda>w. map_of (fst w)) (\<lambda>i. False) FCOM_FILE_READ
        (obj_frame (\<lambda>w. map_of (fst w)) (md_in sums_md5) sums_com) f) @ replicate 16 (CHR 0x00)) = sm)) \<and>
    md_processed m' = length (concat (map snd [(''s.md5'', [(''0123456789abcdef'', ''a'')])])) \<and> md_err_io m' = 0 \<and> md_err_format m' = 0"
    by (intro md5_verify_exact [where names = cursor_names and lib = cursor_lib and cm = 0])
      (simp_all add: sums_env_def [THEN arg_cong [where f = me_core]] sums_env_def [THEN arg_cong [where f = me_hex]]
        sums_env_def [THEN arg_cong [where f = me_hash]] sums_env_def [THEN arg_cong [where f = me_isdir]]
        sums_reads_whole sums_todo sums_avail hex_lib_ok pad_hash_ok sums_file_one sums_md5_def fcom_file_cominfo_flags_i_def plain_info_def
        del: take_append One_nat_def)
  moreover have "md_in sums_md5 = 1" by (simp add: sums_md5_def)
  ultimately show ?thesis by (auto simp: sums_avail simp del: One_nat_def take_append)
qed

end
