(* ===== verification/CopyProps.thy ===== *)
theory CopyProps
  imports Copy RwDisk Md5Props
begin

text \<open>
  What \<open>copy\<close> does: over the contract of \<^theory_text>\<open>Store\<close>, a plain copy puts the contents of every
  input file under its output name and changes nothing else.
\<close>

section \<open>A plain copy\<close>

text \<open>No encryption, verification, update, renaming of the source or writing into the target; \<open>--overwrite\<close> or not.\<close>

definition copy_base :: "nat \<Rightarrow> nat \<Rightarrow> 'k cominfo \<Rightarrow> ('k, 'i, 'h, 'a) copy \<Rightarrow> bool" where
  "copy_base i1 o1 cmd c \<longleftrightarrow>
     cp_input c = i1 \<and> co_f c = o1 \<and> cp_cmd c = cmd \<and> cp_encrypt c = [] \<and> \<not> cp_verify c \<and> \<not> cp_print_md5 c \<and>
     \<not> cp_rename_source c \<and> \<not> cp_update c \<and> \<not> cp_write_into c"

definition copy_plain :: "nat \<Rightarrow> nat \<Rightarrow> 'k cominfo \<Rightarrow> ('k, 'i, 'h, 'a) copy \<Rightarrow> bool" where
  "copy_plain i1 o1 cmd c \<longleftrightarrow>
     copy_base i1 o1 cmd c \<and> cr_aes c = None"

definition cmd_plain :: "'k cominfo \<Rightarrow> bool" where
  "cmd_plain cmd \<longleftrightarrow> \<not> ci_stdin cmd \<and> \<not> ci_stdout cmd \<and> \<not> ci_directio cmd \<and> \<not> ci_test cmd"

lemma cmd_plain_flags:
  assumes "cmd_plain cmd"
  shows "FCOM_FILE_READ OR FCOM_FILE_READAHEAD OR FCOM_FILE_INFO_NOFOLLOW OR fcom_file_cominfo_flags_i cmd = rd_flags"
    and "FCOM_FILE_WRITE OR fcom_file_cominfo_flags_o cmd OR FCOM_FILE_NO_PREALLOC = cr_flags (ci_overwrite cmd)"
  using assms
  by (simp_all add: cmd_plain_def fcom_file_cominfo_flags_i_def fcom_file_cominfo_flags_o_def rd_flags_def cr_flags_def or.assoc)

text \<open>The object while a file is being copied to \<open>t\<close>.\<close>

definition copy_job :: "('s, 'i, 'h, 'a) copyenv \<Rightarrow> bytes \<Rightarrow> nat \<Rightarrow> ('k, 'i, 'h, 'a) copy \<Rightarrow> bool" where
  "copy_job E t nf c \<longleftrightarrow>
     cr_obj c = None \<and> vf_obj c = None \<and> co_name c = t \<and> co_tmp c = Some (t @ ''.fcomtmp'') \<and> co_state c = 0 \<and>
     ce_size E (co_fi c) = 0 \<and> cp_nfiles c = nf"

definition env_on ::
  "('s, 'i, 'h, 'a) copyenv \<Rightarrow> ('s, 'i) coreif \<Rightarrow> (bytes \<Rightarrow> bytes \<Rightarrow> ('s, bool) act) \<Rightarrow> ('i \<Rightarrow> nat) \<Rightarrow> ('i \<Rightarrow> bool) \<Rightarrow> bool" where
  "env_on E C rename isz reg \<longleftrightarrow>
     ce_core E = C \<and> ce_rename E = rename \<and> ce_size E = isz \<and> (\<forall>i. reg i \<longrightarrow> \<not> ce_isdir E i \<and> \<not> ce_islink E i)"

text \<open>The output names \<open>tgt n\<close> of the inputs \<open>ns\<close> are new, and the files afterwards.\<close>

definition copy_fresh :: "bool \<Rightarrow> (bytes \<rightharpoonup> bytes) \<Rightarrow> (bytes \<Rightarrow> bool) \<Rightarrow> (bytes \<Rightarrow> bytes) \<Rightarrow> bytes list \<Rightarrow> bool" where
  "copy_fresh ow F ok tgt ns \<longleftrightarrow>
     distinct (map tgt ns) \<and> (\<forall>m \<in> set ns. \<forall>n \<in> set ns. tgt m \<noteq> tgt n @ ''.fcomtmp'' \<and> tgt m \<noteq> n) \<and>
     (\<forall>n \<in> set ns. F n \<noteq> None \<and> (F (tgt n) = None \<or> ow) \<and> F (tgt n @ ''.fcomtmp'') = None \<and> ok (tgt n) \<and> ok (tgt n @ ''.fcomtmp''))"

definition copied :: "(bytes \<rightharpoonup> bytes) \<Rightarrow> (bytes \<Rightarrow> bytes) \<Rightarrow> bytes list \<Rightarrow> bytes \<rightharpoonup> bytes" where
  "copied F tgt ns = F ++ map_of (map (\<lambda>n. (tgt n, the (F n))) ns)"

lemma copy_fresh_step:
  assumes f: "copy_fresh ow F ok tgt (n # ns)"
  shows "copy_fresh ow (F(tgt n \<mapsto> d)) ok tgt ns" and "F n = Some d \<Longrightarrow> copied (F(tgt n \<mapsto> d)) tgt ns = copied F tgt (n # ns)"
proof -
  have ne: "m \<noteq> tgt n \<and> tgt m \<noteq> tgt n \<and> tgt m @ ''.fcomtmp'' \<noteq> tgt n" if "m \<in> set ns" for m
  proof -
    have "m \<noteq> tgt n" "tgt n \<noteq> tgt m @ ''.fcomtmp''" using f that by (auto simp: copy_fresh_def)
    moreover have "tgt n \<notin> set (map tgt ns)" using f by (simp add: copy_fresh_def)
    ultimately show ?thesis using that by (metis image_eqI list.set_map)
  qed
  then have "\<forall>m \<in> set ns. (F(tgt n \<mapsto> d)) m = F m \<and> (F(tgt n \<mapsto> d)) (tgt m) = F (tgt m) \<and>
      (F(tgt n \<mapsto> d)) (tgt m @ ''.fcomtmp'') = F (tgt m @ ''.fcomtmp'')" by simp
  then show "copy_fresh ow (F(tgt n \<mapsto> d)) ok tgt ns" using f by (simp add: copy_fresh_def del: fun_upd_apply)
  assume "F n = Some d"
  have "map (\<lambda>m. (tgt m, the ((F(tgt n \<mapsto> d)) m))) ns = map (\<lambda>m. (tgt m, the (F m))) ns" using ne by simp
  moreover have "tgt n \<notin> dom (map_of (map (\<lambda>m. (tgt m, the (F m))) ns))"
  proof
    assume "tgt n \<in> dom (map_of (map (\<lambda>m. (tgt m, the (F m))) ns))"
    then obtain m where "m \<in> set ns" "tgt n = tgt m" by (auto simp: dom_map_of_conv_image_fst)
    with ne [of m] show False by simp
  qed
  ultimately show "copied (F(tgt n \<mapsto> d)) tgt ns = copied F tgt (n # ns)"
    using \<open>F n = Some d\<close> by (simp add: copied_def map_add_upd_left del: fun_upd_apply map_eq_conv)
qed

context copy_store
begin

lemma copy_src:
  assumes E: "env_on E C rename isz reg" and cmd: "cmd_plain cmd" and c: "copy_base i1 o1 cmd c" "cp_st c = CsSrc"
    and A: "stands s = Some A" "st_names A = n # ns" "st_files A n = Some d" "st_pass A n"
  shows "\<exists>b c' s'. copy_turn E c s = Some (Inl c', s') \<and> stands s' = Some (A\<lparr>st_names := ns, st_src := Some (n, d)\<rparr>) \<and>
    copy_base i1 o1 cmd c' \<and> cr_aes c' = cr_aes c \<and> cp_st c' = CsOpenOut \<and> cp_name c' = n \<and> cp_basename c' = b \<and> cp_in_off c' = 0 \<and>
    co_off c' = 0 \<and> co_state c' = 0 \<and> cp_nfiles c' = cp_nfiles c + 1 \<and> vf_obj c' = None \<and> cr_obj c' = None \<and>
    isz (cp_fi c') = length d \<and> reg (cp_fi c')"
proof -
  have core: "ce_core E = C" using E by (simp add: env_on_def)
  obtain b s1 where 1: "com_input_next C 0 s = Some (ROk n b, s1)" "stands s1 = Some (A\<lparr>st_names := ns\<rparr>)"
    using cs_next [OF A(1,2)] by (auto elim: givesE)
  obtain s2 where 2: "fi_open C i1 n rd_flags s1 = Some (FOk, s2)" "stands s2 = Some (A\<lparr>st_names := ns, st_src := Some (n, d)\<rparr>)"
    using cs_open_src [OF 1(2), of n d] A(3) by (auto elim: givesE)
  obtain fi s3 where 3: "fi_info C i1 s2 = Some ((FOk, Some fi), s3)" "stands s3 = Some (A\<lparr>st_names := ns, st_src := Some (n, d)\<rparr>)"
    "isz fi = length d" "reg fi"
    using cs_info_src [OF 2(2), of n d] by (auto elim: givesE)
  obtain s4 where 4: "com_input_allowed C n IaFile s3 = Some (True, s4)" "stands s4 = Some (A\<lparr>st_names := ns, st_src := Some (n, d)\<rparr>)"
    using cs_allowed [OF 3(2), of n] A(4) by (auto elim: givesE)
  define c' where "c' = (copy_reset c)\<lparr>cp_name := n, cp_basename := b, cp_nfiles := cp_nfiles c + 1, cp_iname := n, cp_fi := fi, cp_st := CsOpenOut\<rparr>"
  have dir: "\<not> ce_isdir E fi" using E 3(4) by (simp add: env_on_def)
  have "copy_turn E c s = Some (Inl c', s4)"
    using c core 1(1) 2(1) 3(1) 4(1) dir cmd_plain_flags(1) [OF cmd]
    by (simp add: copy_turn_def cs_src_def copy_input_next_def copy_base_def copy_reset_def output_reset_def
        verify_reset_def crypt_reset_def Let_def c'_def)
  with 4(2) 3(3,4) c show ?thesis
    by (intro exI [of _ b] exI [of _ c'] exI [of _ s4])
      (simp add: c'_def copy_base_def copy_reset_def output_reset_def verify_reset_def crypt_reset_def)
qed

text \<open>A file that the filters exclude is opened, and left again.\<close>

lemma copy_skip:
  assumes E: "env_on E C rename isz reg" and cmd: "cmd_plain cmd" and c: "copy_base i1 o1 cmd c" "cp_st c = CsSrc"
    and A: "stands s = Some A" "st_names A = n # ns" "st_files A n = Some d" "\<not> st_pass A n"
  shows "\<exists>c' s'. copy_turn E c s = Some (Inl c', s') \<and> stands s' = Some (A\<lparr>st_names := ns, st_src := Some (n, d)\<rparr>) \<and>
    copy_base i1 o1 cmd c' \<and> cr_aes c' = cr_aes c \<and> cp_st c' = CsSrc \<and> cp_nfiles c' = cp_nfiles c + 1 \<and> co_del c' = co_del c"
proof -
  have core: "ce_core E = C" using E by (simp add: env_on_def)
  obtain b s1 where 1: "com_input_next C 0 s = Some (ROk n b, s1)" "stands s1 = Some (A\<lparr>st_names := ns\<rparr>)"
    using cs_next [OF A(1,2)] by (auto elim: givesE)
  obtain s2 where 2: "fi_open C i1 n rd_flags s1 = Some (FOk, s2)" "stands s2 = Some (A\<lparr>st_names := ns, st_src := Some (n, d)\<rparr>)"
    using cs_open_src [OF 1(2), of n d] A(3) by (auto elim: givesE)
  obtain fi s3 where 3: "fi_info C i1 s2 = Some ((FOk, Some fi), s3)" "stands s3 = Some (A\<lparr>st_names := ns, st_src := Some (n, d)\<rparr>)"
    "reg fi"
    using cs_info_src [OF 2(2), of n d] by (auto elim: givesE)
  obtain s4 where 4: "com_input_allowed C n IaFile s3 = Some (False, s4)" "stands s4 = Some (A\<lparr>st_names := ns, st_src := Some (n, d)\<rparr>)"
    using cs_allowed [OF 3(2), of n] A(4) by (auto elim: givesE)
  define c' where "c' = (copy_reset c)\<lparr>cp_name := n, cp_basename := b, cp_nfiles := cp_nfiles c + 1, cp_iname := n, cp_fi := fi, cp_st := CsSrc\<rparr>"
  have dir: "\<not> ce_isdir E fi" using E 3(3) by (simp add: env_on_def)
  have "copy_turn E c s = Some (Inl c', s4)"
    using c core 1(1) 2(1) 3(1) 4(1) dir cmd_plain_flags(1) [OF cmd]
    by (simp add: copy_turn_def cs_src_def copy_input_next_def copy_base_def copy_reset_def output_reset_def
        verify_reset_def crypt_reset_def Let_def c'_def)
  with 4(2) c show ?thesis
    by (intro exI [of _ c'] exI [of _ s4])
      (simp add: c'_def copy_base_def copy_reset_def output_reset_def verify_reset_def crypt_reset_def)
qed

lemma copy_data:
  assumes E: "ce_core E = C"
  shows "stands s = Some A \<Longrightarrow> st_src A = Some (n, d) \<Longrightarrow> st_dst A = Some (m, take k d) \<Longrightarrow> k \<le> length d \<Longrightarrow>
    copy_plain i1 o1 cmd c \<Longrightarrow> copy_job E t nf c \<Longrightarrow> cp_st c = CsRead \<Longrightarrow> cp_in_off c = k \<Longrightarrow> co_off c = k \<Longrightarrow>
    \<exists>c' s'. op_loop (stop_flag C) (copy_turn E) c s = op_loop (stop_flag C) (copy_turn E) c' s' \<and>
      stands s' = Some (A\<lparr>st_dst := Some (m, d)\<rparr>) \<and> copy_plain i1 o1 cmd c' \<and> copy_job E t nf c' \<and> cp_st c' = CsRdDone"
proof (induction "length d - k" arbitrary: c s A k rule: less_induct)
  case less
  obtain x s1 where r: "fi_read C i1 (Some k) s = Some ((if k = length d then FEof else FOk, x), s1)" "stands s1 = Some A"
    "x = take (length x) (drop k d)" "k < length d \<longrightarrow> x \<noteq> []"
    using cs_read [OF less.prems(1,2,4)] by (auto elim: givesE)
  have i: "cp_input c = i1" "co_f c = o1" "cr_obj c = None" "vf_obj c = None"
    using less.prems(5,6) by (simp_all add: copy_plain_def copy_base_def copy_job_def)
  show ?case
  proof (cases "k = length d")
    case True
    define c' where "c' = c\<lparr>cp_st := CsRdDone\<rparr>"
    have "copy_turn E c s = Some (Inl c', s1)"
      using r(1) True less.prems(7,8) E i by (simp add: copy_turn_def cs_read_def c'_def)
    then have "op_loop (stop_flag C) (copy_turn E) c s = op_loop (stop_flag C) (copy_turn E) c' s1"
      using cs_runs [OF less.prems(1)] by (intro op_loop_turn) (simp add: op_turn_def)
    moreover have "A\<lparr>st_dst := Some (m, d)\<rparr> = A" using less.prems(3) True by (cases A) simp
    ultimately show ?thesis using r(2) less.prems(5,6)
      by (intro exI [of _ c'] exI [of _ s1]) (simp add: c'_def copy_plain_def copy_base_def copy_job_def)
  next
    case False
    define c1 where "c1 = c\<lparr>cp_data := x, cp_in_off := k + length x, cp_st := CsWrite\<rparr>"
    have "copy_turn E c s = Some (Inl c1, s1)"
      using r(1) False less.prems(7,8) E i by (simp add: copy_turn_def cs_read_def c1_def verify_process_def Let_def)
    then have 1: "op_loop (stop_flag C) (copy_turn E) c s = op_loop (stop_flag C) (copy_turn E) c1 s1"
      using cs_runs [OF less.prems(1)] by (intro op_loop_turn) (simp add: op_turn_def)
    have tk: "take k d @ x = take (k + length x) d" using r(3) by (metis take_add)
    have len: "length (take k d) = k" using less.prems(4) by simp
    obtain s2 where w: "fi_write C o1 x (Some k) s1 = Some (FOk, s2)" "stands s2 = Some (A\<lparr>st_dst := Some (m, take (k + length x) d)\<rparr>)"
      using cs_write [OF r(2) less.prems(3), of x] tk len by (auto elim: givesE)
    define c2 where "c2 = c1\<lparr>co_off := k + length x, co_total := co_total c + length x, cp_st := CsRead\<rparr>"
    have "copy_turn E c1 s1 = Some (Inl c2, s2)"
      using w(1) less.prems(9) E i by (simp add: copy_turn_def cs_write_def output_write_def c1_def c2_def)
    then have 2: "op_loop (stop_flag C) (copy_turn E) c1 s1 = op_loop (stop_flag C) (copy_turn E) c2 s2"
      using cs_runs [OF r(2)] by (intro op_loop_turn) (simp add: op_turn_def)
    have kx: "k + length x \<le> length d" "length d - (k + length x) < length d - k"
    proof -
      have "length x = length (take (length x) (drop k d))" using r(3) by simp
      also have "\<dots> \<le> length d - k" by simp
      finally have "length x \<le> length d - k" .
      moreover have "0 < length x" using r(4) False less.prems(4) by simp
      ultimately show "k + length x \<le> length d" "length d - (k + length x) < length d - k"
        using False less.prems(4) by linarith+
    qed
    have pl: "copy_plain i1 o1 cmd c2" "copy_job E t nf c2"
      using less.prems(5,6) by (simp_all add: copy_plain_def copy_base_def copy_job_def c1_def c2_def)
    have "\<exists>c' s'. op_loop (stop_flag C) (copy_turn E) c2 s2 = op_loop (stop_flag C) (copy_turn E) c' s' \<and>
      stands s' = Some (A\<lparr>st_dst := Some (m, take (k + length x) d), st_dst := Some (m, d)\<rparr>) \<and> copy_plain i1 o1 cmd c' \<and>
      copy_job E t nf c' \<and> cp_st c' = CsRdDone"
      by (rule less.hyps [OF kx(2) w(2)]) (use less.prems(2) kx(1) pl in \<open>simp_all add: c2_def c1_def\<close>)
    then show ?thesis using 1 2 by simp
  qed
qed

lemma copy_output:
  assumes E: "env_on E C rename isz reg" and cmd: "cmd_plain cmd" and c: "copy_base i1 o1 cmd c" "reg (cp_fi c)"
    and nm: "out_name E cmd (cp_name c) (cp_basename c) = Some t"
    and A: "stands s = Some A" "st_dst A = None" "st_files A t = None \<or> ci_overwrite cmd" "st_files A (t @ ''.fcomtmp'') = None"
      "new t" "new (t @ ''.fcomtmp'')" "st_src A = Some (n, d)" "n \<noteq> t"
  shows "\<exists>f1 s'. output_open E c s = Some ((CrOk, c\<lparr>co_name := t, co_tmp := Some (t @ ''.fcomtmp''), co_fi := f1, co_del := True\<rparr>), s') \<and>
    isz f1 = 0 \<and> stands s' = Some (A\<lparr>st_files := (st_files A)(t \<mapsto> []), st_dst := Some (t @ ''.fcomtmp'', [])\<rparr>)"
proof -
  let ?u = "t @ ''.fcomtmp''"
  have e: "ce_core E = C" "ce_size E = isz" "\<not> ce_isdir E (cp_fi c)" "\<not> ce_islink E (cp_fi c)"
    using E c(2) by (simp_all add: env_on_def)
  note p = c(1) [unfolded copy_base_def] cmd [unfolded cmd_plain_def]
  obtain s1 f1 s2 s3 where 1: "fi_open C o1 t (cr_flags (ci_overwrite cmd)) s = Some (FOk, s1)" "fi_info C o1 s1 = Some ((FOk, Some f1), s2)"
    "isz f1 = 0" "fi_close C o1 s2 = Some ((), s3)" "stands s3 = Some (A\<lparr>st_files := (st_files A)(t \<mapsto> [])\<rparr>)"
    using cs_touch [OF A(1,2,3) _ A(5)] A(7,8) by (auto elim!: givesE)
  have ne: "t \<noteq> ?u" by simp
  obtain s4 f2 s5 s6 where 2: "fi_open C o1 ?u (cr_flags (ci_overwrite cmd)) s3 = Some (FOk, s4)" "fi_info C o1 s4 = Some ((FOk, Some f2), s5)"
    "isz f2 = 0" "fi_trunc C o1 (Some (isz (cp_fi c))) s5 = Some (FOk, s6)"
    "stands s6 = Some (A\<lparr>st_files := (st_files A)(t \<mapsto> []), st_dst := Some (?u, [])\<rparr>)"
    using cs_create [OF 1(5), of ?u "ci_overwrite cmd" "isz (cp_fi c)"] A(2,4,6) ne by (auto elim: givesE)
  have "output_open E c s = Some ((CrOk, c\<lparr>co_name := t, co_tmp := Some ?u, co_fi := f1, co_del := True\<rparr>), s6)"
    using p e nm 1(1-4) 2(1-4) cmd_plain_flags(2) [OF cmd]
    by (simp add: output_open_def output_update_def output_open_file_def tmp_open_def Let_def or.assoc)
  with 1(3) 2(5) show ?thesis by blast
qed

lemma copy_open_out:
  assumes E: "env_on E C rename isz reg" and cmd: "cmd_plain cmd" and c: "copy_plain i1 o1 cmd c" "cp_st c = CsOpenOut"
    "cr_obj c = None" "vf_obj c = None" "co_state c = 0" "cp_in_off c = 0" "co_off c = 0" "reg (cp_fi c)"
    and nm: "out_name E cmd (cp_name c) (cp_basename c) = Some t"
    and A: "stands s = Some A" "st_dst A = None" "st_files A t = None \<or> ci_overwrite cmd" "st_files A (t @ ''.fcomtmp'') = None"
      "new t" "new (t @ ''.fcomtmp'')" "st_src A = Some (n, d)" "n \<noteq> t"
  shows "\<exists>c' s'. op_loop (stop_flag C) (copy_turn E) c s = op_loop (stop_flag C) (copy_turn E) c' s' \<and>
    stands s' = Some (A\<lparr>st_files := (st_files A)(t \<mapsto> []), st_dst := Some (t @ ''.fcomtmp'', [])\<rparr>) \<and>
    copy_plain i1 o1 cmd c' \<and> copy_job E t (cp_nfiles c) c' \<and> cp_st c' = CsRead \<and> cp_in_off c' = 0 \<and> co_off c' = 0"
proof -
  let ?u = "t @ ''.fcomtmp''"
  have e: "ce_core E = C" "ce_size E = isz" using E by (simp_all add: env_on_def)
  note p = c(1) [unfolded copy_plain_def copy_base_def]
  obtain f1 s6 where o: "output_open E c s = Some ((CrOk, c\<lparr>co_name := t, co_tmp := Some ?u, co_fi := f1, co_del := True\<rparr>), s6)"
    "isz f1 = 0" "stands s6 = Some (A\<lparr>st_files := (st_files A)(t \<mapsto> []), st_dst := Some (?u, [])\<rparr>)"
    using copy_output [OF E cmd _ c(8) nm A] c(1) by (auto simp: copy_plain_def)
  define c1 where "c1 = c\<lparr>co_name := t, co_tmp := Some ?u, co_fi := f1, co_del := True\<rparr>"
  obtain s7 where 3: "fi_behaviour C i1 FBehSeq s6 = Some ((), s7)"
    "stands s7 = Some (A\<lparr>st_files := (st_files A)(t \<mapsto> []), st_dst := Some (?u, [])\<rparr>)"
    using cs_seq [OF o(3)] by (auto elim: givesE)
  define c2 where "c2 = c1\<lparr>cp_st := CsRead\<rparr>"
  have "copy_turn E c s = copy_turn E c2 s7"
    using c(2) o(1) p e(1) 3(1) by (simp add: copy_turn_def cs_open_out_def crypt_open_def verify_open_def c2_def c1_def)
  then have "op_loop (stop_flag C) (copy_turn E) c s = op_loop (stop_flag C) (copy_turn E) c2 s7"
    using cs_runs [OF A(1)] cs_runs [OF 3(2)] by (intro op_loop_same_turn) auto
  moreover have "copy_plain i1 o1 cmd c2" using c(1) by (simp add: c2_def c1_def copy_plain_def copy_base_def)
  moreover have "copy_job E t (cp_nfiles c) c2" using c(3-5) e(2) o(2) by (simp add: c2_def c1_def copy_job_def)
  ultimately show ?thesis using 3(2) c(6,7) by (intro exI [of _ c2] exI [of _ s7]) (simp add: c2_def c1_def)
qed

lemma copy_finish:
  assumes E: "env_on E C rename isz reg" and cmd: "cmd_plain cmd" and c: "copy_plain i1 o1 cmd c" "copy_job E t nf c" "cp_st c = CsRdDone"
    and A: "stands s = Some A" "st_dst A = Some (t @ ''.fcomtmp'', d)" "\<And>x. st_src A \<noteq> Some (t, x) \<and> st_src A \<noteq> Some (t @ ''.fcomtmp'', x)"
  shows "\<exists>c' s'. op_loop (stop_flag C) (copy_turn E) c s = op_loop (stop_flag C) (copy_turn E) c' s' \<and>
    stands s' = Some (A\<lparr>st_files := (st_files A)(t @ ''.fcomtmp'' := None, t \<mapsto> d), st_dst := None\<rparr>) \<and>
    copy_plain i1 o1 cmd c' \<and> cp_st c' = CsSrc \<and> cp_nfiles c' = nf \<and> \<not> co_del c'"
proof -
  let ?u = "t @ ''.fcomtmp''"
  have e: "ce_core E = C" "ce_size E = isz" "ce_rename E = rename" using E by (simp_all add: env_on_def)
  note p = c(1) [unfolded copy_plain_def copy_base_def] c(2) [unfolded copy_job_def] cmd [unfolded cmd_plain_def]
  obtain s1 where 1: "fi_behaviour C o1 FBehTruncPrealloc s = Some ((), s1)" "stands s1 = Some A"
    using cs_sync [OF A(1,2)] by (auto elim: givesE)
  obtain s2 where 2: "fi_mtime_set C o1 (ce_mtime1 E (cp_fi c)) s1 = Some (FOk, s2)" "stands s2 = Some A"
    using cs_mtime [OF 1(2) A(2), of "ce_mtime1 E (cp_fi c)"] by (elim givesE) blast
  have "\<exists>s2. copy_turn E c s = Some (Inl (c\<lparr>cp_st := CsDone\<rparr>), s2) \<and> stands s2 = Some A"
    using c(3) 1 2 p e(1) by (simp add: copy_turn_def cs_rd_done_def verify_read_fin_def)
  then obtain s2 where 3: "copy_turn E c s = Some (Inl (c\<lparr>cp_st := CsDone\<rparr>), s2)" "stands s2 = Some A" by blast
  then have l1: "op_loop (stop_flag C) (copy_turn E) c s = op_loop (stop_flag C) (copy_turn E) (c\<lparr>cp_st := CsDone\<rparr>) s2"
    using cs_runs [OF A(1)] by (intro op_loop_turn) (simp add: op_turn_def)
  obtain r s4 where 4: "fi_attr_set C o1 (ce_attr E (cp_fi c)) s2 = Some (r, s4)" "stands s4 = Some A"
    using cs_attr [OF 3(2) A(2), of "ce_attr E (cp_fi c)"] by (auto elim: givesE)
  obtain s5 where 5: "fi_close C o1 s4 = Some ((), s5)" "stands s5 = Some (A\<lparr>st_files := (st_files A)(?u \<mapsto> d), st_dst := None\<rparr>)"
    using cs_close [OF 4(2) A(2)] by (auto elim: givesE)
  obtain s6 where 6: "rename ?u t s5 = Some (True, s6)"
    "stands s6 = Some (A\<lparr>st_files := (st_files A)(?u \<mapsto> d, ?u := None, t \<mapsto> d), st_dst := None\<rparr>)"
    using cs_rename [OF 5(2), of ?u d t] A(3) by (auto elim: givesE)
  define c' where "c' = c\<lparr>co_del := False, cp_st := CsSrc\<rparr>"
  have "copy_turn E (c\<lparr>cp_st := CsDone\<rparr>) s2 = Some (Inl c', s6)"
    using 4(1) 5(1) 6(1) p e by (simp add: copy_turn_def cs_done_def output_fin_def copy_complete_def Let_def c'_def)
  then have "op_loop (stop_flag C) (copy_turn E) (c\<lparr>cp_st := CsDone\<rparr>) s2 = op_loop (stop_flag C) (copy_turn E) c' s6"
    using cs_runs [OF 3(2)] by (intro op_loop_turn) (simp add: op_turn_def)
  moreover have "copy_plain i1 o1 cmd c'" using c(1) by (simp add: c'_def copy_plain_def copy_base_def)
  moreover have "(st_files A)(?u \<mapsto> d, ?u := None, t \<mapsto> d) = (st_files A)(?u := None, t \<mapsto> d)" by simp
  ultimately show ?thesis using l1 6(2) p by (intro exI [of _ c'] exI [of _ s6]) (simp add: c'_def)
qed

text \<open>One file.\<close>

lemma copy_one:
  assumes E: "env_on E C rename isz reg" and cmd: "cmd_plain cmd" and c: "copy_plain i1 o1 cmd c" "cp_st c = CsSrc"
    and nm: "\<And>b. out_name E cmd n b = Some t"
    and A: "stands s = Some A" "st_names A = n # ns" "st_files A n = Some d" "st_pass A n" "st_dst A = None"
      "st_files A t = None \<or> ci_overwrite cmd" "st_files A (t @ ''.fcomtmp'') = None" "new t" "new (t @ ''.fcomtmp'')" "n \<noteq> t"
  shows "\<exists>c' s'. op_loop (stop_flag C) (copy_turn E) c s = op_loop (stop_flag C) (copy_turn E) c' s' \<and>
    stands s' = Some (A\<lparr>st_files := (st_files A)(t \<mapsto> d), st_src := Some (n, d), st_names := ns\<rparr>) \<and>
    copy_plain i1 o1 cmd c' \<and> cp_st c' = CsSrc \<and> cp_nfiles c' = cp_nfiles c + 1 \<and> \<not> co_del c'"
proof -
  let ?u = "t @ ''.fcomtmp''"
  obtain b c1 s1 where 1: "copy_turn E c s = Some (Inl c1, s1)" "stands s1 = Some (A\<lparr>st_names := ns, st_src := Some (n, d)\<rparr>)"
    "copy_base i1 o1 cmd c1" "cp_st c1 = CsOpenOut" "cp_name c1 = n" "cp_basename c1 = b" "cp_in_off c1 = 0" "co_off c1 = 0"
    "co_state c1 = 0" "cp_nfiles c1 = cp_nfiles c + 1" "vf_obj c1 = None" "cr_obj c1 = None" "reg (cp_fi c1)"
    "cr_aes c1 = cr_aes c"
    using copy_src [OF E cmd _ c(2) A(1-4)] c(1) by (auto simp: copy_plain_def)
  have pl: "copy_plain i1 o1 cmd c1" using 1(3,14) c(1) by (simp add: copy_plain_def)
  have l1: "op_loop (stop_flag C) (copy_turn E) c s = op_loop (stop_flag C) (copy_turn E) c1 s1"
    using 1(1) cs_runs [OF A(1)] by (intro op_loop_turn) (simp add: op_turn_def)
  obtain c2 s2 where 2: "op_loop (stop_flag C) (copy_turn E) c1 s1 = op_loop (stop_flag C) (copy_turn E) c2 s2"
    "stands s2 = Some (A\<lparr>st_names := ns, st_src := Some (n, d), st_files := (st_files A)(t \<mapsto> []), st_dst := Some (?u, [])\<rparr>)"
    "copy_plain i1 o1 cmd c2" "copy_job E t (cp_nfiles c1) c2" "cp_st c2 = CsRead" "cp_in_off c2 = 0" "co_off c2 = 0"
    using copy_open_out [OF E cmd pl 1(4,12,11,9,7,8,13) _ 1(2), of t n d] nm 1(5) A(5-10) by auto
  obtain c3 s3 where 3: "op_loop (stop_flag C) (copy_turn E) c2 s2 = op_loop (stop_flag C) (copy_turn E) c3 s3"
    "stands s3 = Some (A\<lparr>st_names := ns, st_src := Some (n, d), st_files := (st_files A)(t \<mapsto> []), st_dst := Some (?u, d)\<rparr>)"
    "copy_plain i1 o1 cmd c3" "copy_job E t (cp_nfiles c1) c3" "cp_st c3 = CsRdDone"
    using copy_data [of E, OF _ 2(2), of n d ?u 0 cmd c2 t "cp_nfiles c1"] 2(3-7) E by (auto simp: env_on_def)
  have ne: "n \<noteq> t" "n \<noteq> ?u" "t \<noteq> ?u" using A(3,7,10) by auto
  obtain c4 s4 where 4: "op_loop (stop_flag C) (copy_turn E) c3 s3 = op_loop (stop_flag C) (copy_turn E) c4 s4"
    "stands s4 = Some (A\<lparr>st_names := ns, st_src := Some (n, d), st_files := (st_files A)(t \<mapsto> [], ?u := None, t \<mapsto> d), st_dst := None\<rparr>)"
    "copy_plain i1 o1 cmd c4" "cp_st c4 = CsSrc" "cp_nfiles c4 = cp_nfiles c1" "\<not> co_del c4"
    using copy_finish [OF E cmd 3(3-5,2), of d] ne by auto
  have f: "(st_files A)(t \<mapsto> [], ?u := None, t \<mapsto> d) = (st_files A)(t \<mapsto> d)"
    using A(7) ne(3) by (auto simp: fun_eq_iff)
  have "A\<lparr>st_names := ns, st_src := Some (n, d), st_files := (st_files A)(t \<mapsto> d), st_dst := None\<rparr> =
      A\<lparr>st_files := (st_files A)(t \<mapsto> d), st_src := Some (n, d), st_names := ns\<rparr>"
    using A(5) by (cases A) simp
  with l1 2(1) 3(1) 4 1(10) show ?thesis
    by (intro exI [of _ c4] exI [of _ s4]) (simp only: f simp_thms)
qed

text \<open>All of them.\<close>

lemma copy_all:
  assumes E: "env_on E C rename isz reg" and cmd: "cmd_plain cmd"
  shows "stands s = Some A \<Longrightarrow> st_names A = ns \<Longrightarrow> st_dst A = None \<Longrightarrow> copy_plain i1 o1 cmd c \<Longrightarrow> cp_st c = CsSrc \<Longrightarrow>
    \<not> co_del c \<Longrightarrow> ns \<noteq> [] \<or> cp_nfiles c \<noteq> 0 \<Longrightarrow> copy_fresh (ci_overwrite cmd) (st_files A) new tgt (filter (st_pass A) ns) \<Longrightarrow>
    \<forall>n \<in> set ns. st_files A n \<noteq> None \<Longrightarrow> \<forall>n \<in> set ns. st_pass A n \<longrightarrow> (\<forall>b. out_name E cmd n b = Some (tgt n)) \<Longrightarrow>
    \<exists>c' s' A'. copy_run E c s = Some ((Some 0, c'), s') \<and> stands s' = Some A' \<and> st_dst A' = None \<and>
      st_files A' = copied (st_files A) tgt (filter (st_pass A) ns)"
proof (induction ns arbitrary: c s A)
  case Nil
  have core: "ce_core E = C" using E by (simp add: env_on_def)
  obtain s1 where 1: "com_input_next C 0 s = Some (RNomore, s1)" "stands s1 = Some A"
    using cs_last [OF Nil(1,2)] by (auto elim: givesE)
  define c' where "c' = copy_reset c"
  have c': "cp_nfiles c' \<noteq> 0" "co_f c' = o1" "cp_input c' = i1" "\<not> co_del c'"
    using Nil(4,6,7) by (simp_all add: c'_def copy_reset_def output_reset_def verify_reset_def crypt_reset_def copy_plain_def copy_base_def)
  have "copy_turn E c s = Some (Inr (c', 0), s1)"
    using 1(1) Nil(5) c'(1) core by (simp add: copy_turn_def cs_src_def copy_input_next_def c'_def [symmetric])
  then have l: "op_loop (stop_flag C) (copy_turn E) c s = Some ((c', 0), s1)"
    using cs_runs [OF Nil(1)] by (intro op_loop_exit)
  obtain s2 where 2: "fi_destroy C o1 s1 = Some ((), s2)" "stands s2 = Some A"
    using cs_destroy_dst [OF 1(2) Nil(3)] by (auto elim: givesE)
  obtain s3 where 3: "fi_destroy C i1 s2 = Some ((), s3)" "stands s3 = Some (A\<lparr>st_src := None\<rparr>)"
    using cs_destroy_src [OF 2(2)] by (auto elim: givesE)
  have "copy_run E c s = Some ((Some 0, c'), s3)"
    using l 2(1) 3(1) c' core
    by (simp add: copy_run_def ASYN_def copy_close_def output_close_def verify_reset_def crypt_close_def crypt_reset_def Let_def)
  then show ?case using 3(2) Nil(3) by (simp add: copied_def)
next
  case (Cons n ns)
  obtain d where d: "st_files A n = Some d" using Cons(10) by auto
  show ?case
  proof (cases "st_pass A n")
    case False
    obtain c1 s1 where 0: "copy_turn E c s = Some (Inl c1, s1)" "stands s1 = Some (A\<lparr>st_names := ns, st_src := Some (n, d)\<rparr>)"
      "copy_base i1 o1 cmd c1" "cr_aes c1 = cr_aes c" "cp_st c1 = CsSrc" "cp_nfiles c1 = cp_nfiles c + 1" "co_del c1 = co_del c"
      using copy_skip [OF E cmd _ Cons(6,2,3) d False] Cons(5) by (auto simp: copy_plain_def)
    have "op_loop (stop_flag C) (copy_turn E) c s = op_loop (stop_flag C) (copy_turn E) c1 s1"
      using 0(1) cs_runs [OF Cons(2)] by (intro op_loop_turn) (simp add: op_turn_def)
    then have "copy_run E c s = copy_run E c1 s1" using E by (simp add: copy_run_def env_on_def)
    moreover have "copy_plain i1 o1 cmd c1" using 0(3,4) Cons(5) by (simp add: copy_plain_def)
    ultimately show ?thesis
      using Cons(1) [OF 0(2) _ _ _ 0(5)] 0(6,7) Cons(4,7,9-11) False by simp
  next
    case True
  obtain c1 s1 where 1: "op_loop (stop_flag C) (copy_turn E) c s = op_loop (stop_flag C) (copy_turn E) c1 s1"
    "stands s1 = Some (A\<lparr>st_files := (st_files A)(tgt n \<mapsto> d), st_src := Some (n, d), st_names := ns\<rparr>)"
    "copy_plain i1 o1 cmd c1" "cp_st c1 = CsSrc" "cp_nfiles c1 = cp_nfiles c + 1" "\<not> co_del c1"
    using copy_one [OF E cmd Cons(5,6) _ Cons(2,3) d True, of "tgt n"] Cons(4,9,11) True by (auto simp: copy_fresh_def)
  have fr: "copy_fresh (ci_overwrite cmd) (st_files A) new tgt (n # filter (st_pass A) ns)" using Cons(9) True by simp
  have ex: "\<forall>m \<in> set ns. ((st_files A)(tgt n \<mapsto> d)) m \<noteq> None" using Cons(10) by simp
  have "\<exists>c' s' A'. copy_run E c1 s1 = Some ((Some 0, c'), s') \<and> stands s' = Some A' \<and> st_dst A' = None \<and>
      st_files A' = copied ((st_files A)(tgt n \<mapsto> d)) tgt (filter (st_pass A) ns)"
    using Cons(1) [OF 1(2) _ _ 1(3,4,6)] 1(5) Cons(4,11) copy_fresh_step(1) [OF fr, of d] ex
    by (simp del: fun_upd_apply)
  moreover have "copy_run E c s = copy_run E c1 s1" using 1(1) E by (simp add: copy_run_def env_on_def)
  ultimately show ?thesis using copy_fresh_step(2) [OF fr d] True by simp
  qed
qed

text \<open>Decrypting something that cannot be an encrypted file, over an existing target.\<close>

lemma copy_decrypt_short:
  assumes E: "env_on E C rename isz reg" and cmd: "cmd_plain cmd" "ci_overwrite cmd" and c: "copy_base i1 o1 cmd c" "cp_st c = CsSrc"
    "cr_aes c \<noteq> None" and nm: "\<And>b. out_name E cmd n b = Some t"
    and A: "stands s = Some A" "st_names A = n # ns" "st_files A n = Some d" "st_pass A n" "st_dst A = None"
      "st_files A (t @ ''.fcomtmp'') = None" "new t" "new (t @ ''.fcomtmp'')" "n \<noteq> t" "length d < 17"
  shows "\<exists>c' s' A'. copy_run E c s = Some ((Some 1, c'), s') \<and> stands s' = Some A' \<and> st_dst A' = None \<and>
    st_files A' = (st_files A)(t := None)"
proof -
  let ?u = "t @ ''.fcomtmp''"
  have core: "ce_core E = C" "ce_size E = isz" using E by (simp_all add: env_on_def)
  obtain b c1 s1 where 1: "copy_turn E c s = Some (Inl c1, s1)" "stands s1 = Some (A\<lparr>st_names := ns, st_src := Some (n, d)\<rparr>)"
    "copy_base i1 o1 cmd c1" "cr_aes c1 = cr_aes c" "cp_st c1 = CsOpenOut" "cp_name c1 = n" "isz (cp_fi c1) = length d" "reg (cp_fi c1)"
    using copy_src [OF E cmd(1) c(1,2) A(1-4)] by blast
  have l1: "op_loop (stop_flag C) (copy_turn E) c s = op_loop (stop_flag C) (copy_turn E) c1 s1"
    using 1(1) cs_runs [OF A(1)] by (intro op_loop_turn) (simp add: op_turn_def)
  obtain f1 s2 where 2: "output_open E c1 s1 = Some ((CrOk, c1\<lparr>co_name := t, co_tmp := Some ?u, co_fi := f1, co_del := True\<rparr>), s2)"
    "stands s2 = Some (A\<lparr>st_names := ns, st_src := Some (n, d), st_files := (st_files A)(t \<mapsto> []), st_dst := Some (?u, [])\<rparr>)"
    using copy_output [OF E cmd(1) 1(3,8) _ 1(2), of t n d] nm 1(6) A(5-9) cmd(2) by auto
  obtain s3 where 3: "fi_behaviour C i1 FBehSeq s2 = Some ((), s3)"
    "stands s3 = Some (A\<lparr>st_names := ns, st_src := Some (n, d), st_files := (st_files A)(t \<mapsto> []), st_dst := Some (?u, [])\<rparr>)"
    using cs_seq [OF 2(2)] by (auto elim: givesE)
  define c2 where "c2 = c1\<lparr>co_name := t, co_tmp := Some ?u, co_fi := f1, co_del := True, cr_iv_in := True\<rparr>"
  obtain aes where aes: "cr_aes c1 = Some aes" using 1(4) c(3) by auto
  have "copy_turn E c1 s1 = Some (Inr (c2, 1), s3)"
    using 1(3,5,7) 2(1) 3(1) aes core A(10)
    by (simp add: copy_turn_def cs_open_out_def crypt_open_def Let_def copy_base_def c2_def)
  then have l2: "op_loop (stop_flag C) (copy_turn E) c1 s1 = Some ((c2, 1), s3)"
    using cs_runs [OF 1(2)] by (intro op_loop_exit)
  have ne: "n \<noteq> ?u" using A(3,6) by auto
  obtain s4 where 4: "fi_destroy C o1 s3 = Some ((), s4)"
    "stands s4 = Some (A\<lparr>st_names := ns, st_src := Some (n, d), st_files := (st_files A)(t \<mapsto> [], ?u \<mapsto> []), st_dst := None\<rparr>)"
    using cs_destroy_open [OF 3(2), of ?u "[]"] by (auto elim: givesE)
  obtain s5 where 5: "fi_del C ?u s4 = Some (True, s5)"
    "stands s5 = Some (A\<lparr>st_names := ns, st_src := Some (n, d), st_files := (st_files A)(t \<mapsto> [], ?u \<mapsto> [], ?u := None), st_dst := None\<rparr>)"
    using cs_del [OF 4(2), of ?u "[]"] ne by (auto elim: givesE)
  obtain s6 where 6: "fi_del C t s5 = Some (True, s6)"
    "stands s6 = Some (A\<lparr>st_names := ns, st_src := Some (n, d), st_files := (st_files A)(t \<mapsto> [], ?u \<mapsto> [], ?u := None, t := None), st_dst := None\<rparr>)"
    using cs_del [OF 5(2), of t "[]"] A(9) by (auto elim: givesE)
  obtain s7 where 7: "fi_destroy C i1 s6 = Some ((), s7)"
    "stands s7 = Some (A\<lparr>st_names := ns, st_src := None, st_files := (st_files A)(t \<mapsto> [], ?u \<mapsto> [], ?u := None, t := None), st_dst := None\<rparr>)"
    using cs_destroy_src [OF 6(2)] by (auto elim: givesE)
  have "copy_run E c s = Some ((Some 1, c2), s7)"
    using l1 l2 4(1) 5(1) 6(1) 7(1) core 1(3)
    by (simp add: copy_run_def ASYN_def copy_close_def output_close_def verify_reset_def crypt_close_def crypt_reset_def Let_def
        c2_def copy_base_def)
  moreover have "(st_files A)(t \<mapsto> [], ?u \<mapsto> [], ?u := None, t := None) = (st_files A)(t := None)"
    using A(6) by (auto simp: fun_eq_iff)
  ultimately show ?thesis using 7(2) by (intro exI [of _ c2] exI [of _ s7]) simp
qed

end

section \<open>Properties\<close>

text \<open>C26. A plain copy of files that exist, whose target names differ from each other and are new (or
  \<open>--overwrite\<close> is given), over a kernel that carries out every call, ends with code 0. Then the target of every
  file that passes the filters holds the contents of this file, and nothing else on the disk has changed: the
  files that do not pass are skipped and no temporary file is left. The operation \<open>trash\<close> is not called for an overwritten file: \<open>ce_trash\<close> is arbitrary.\<close>

theorem copy_copies:
  assumes "env_on E (core_of sys lib cm mk) (\<lambda>a b. on_sys (fs_rename sys a b)) (v_size V) (v_reg V)"
    and "cmd_plain cmd" and "copy_plain i1 o1 cmd c" and "cp_st c = CsSrc" and "\<not> co_del c"
    and "core_store sys V lib names cm i1 o1 s = Some A" and "st_dst A = None" and "st_names A \<noteq> []"
    and "copy_fresh (ci_overwrite cmd) (v_disk V (wo_sys (world s))) (v_new V) tgt (filter (st_pass A) (st_names A))"
    and "\<forall>n \<in> set (st_names A). v_disk V (wo_sys (world s)) n \<noteq> None"
    and "\<forall>n \<in> set (st_names A). st_pass A n \<longrightarrow> (\<forall>b. out_name E cmd n b = Some (tgt n))"
  shows "\<exists>c' s'. copy_run E c s = Some ((Some 0, c'), s') \<and>
    v_disk V (wo_sys (world s')) = copied (v_disk V (wo_sys (world s))) tgt (filter (st_pass A) (st_names A))"
proof -
  have "copy_fresh (ci_overwrite cmd) (st_files A) (v_new V) tgt (filter (st_pass A) (st_names A))"
    "\<forall>n \<in> set (st_names A). st_files A n \<noteq> None"
    using assms(9,10) core_store_disk [OF assms(6,7)] by simp_all
  from disk.copy_all [OF assms(1,2,6) refl assms(7,3,4,5) disjI1 [OF assms(8)] this assms(11)]
  show ?thesis using core_store_disk [OF assms(6,7)] core_store_disk by metis
qed

text \<open>A command copying \<open>a\<close> to \<open>b\<close>.\<close>

definition rw_obj :: fobj where
  "rw_obj = disk_obj\<lparr>f_wbuf := \<lparr>fb_len = 0, fb_ptr = replicate ALIGN (CHR ''x''), fb_off = 0\<rparr>\<rparr>"

definition ab_info :: "unit cominfo" where
  "ab_info = (plain_info [''a''])\<lparr>ci_output := ''b'', ci_buffer_size := 1\<rparr>"

definition ab_com :: "unit cominfo \<Rightarrow> (bytes \<rightharpoonup> bytes) \<Rightarrow> (bytes list, nat, unit, unit, rwd fworld) com" where
  "ab_com info F =
     \<lparr>cmds = [0], cmd_at = (\<lambda>_. \<lparr>cm_info = info, cm_opif = None, cm_op = None, cm_argi = 0,
        cm_ftree = [], cm_ftree_cur = 0, cm_ftree_name = [], cm_ftree_dir = None, cm_isdir = False,
        cm_set_ftree = False, cm_args_parsed = True, cm_result = 1\<rparr>),
      taskq = \<lparr>tq_tasks = [], tq_mem = undefined\<rparr>, stdout_busy = False, exit_code = None,
      world = \<lparr>wo_objs = (\<lambda>_. rw_obj), wo_next = 1, wo_stop = False,
        wo_sys = \<lparr>rw_files = F, rw_open = (\<lambda>_. None), rw_next = 3, rw_shadow = (\<lambda>_. [])\<rparr>\<rparr>\<rparr>"

definition rw_env :: "((bytes list, nat, unit, unit, rwd fworld) com, nat, bytes, unit) copyenv" where
  "rw_env =
     \<lparr>ce_core = core_of rw_sys cursor_lib 0 (\<lambda>_. rw_obj), ce_isdir = (\<lambda>_. False), ce_islink = (\<lambda>_. False), ce_size = (\<lambda>i. i),
      ce_mtime = (\<lambda>_. (1, 0)), ce_attr = (\<lambda>_. 0), ce_info_path = (\<lambda>n s. Some (None, s)), ce_readlink = (\<lambda>n s. Some (None, s)),
      ce_mtime_path = (\<lambda>n t s. Some (False, s)), ce_rename = (\<lambda>a b. on_sys (fs_rename rw_sys a b)), ce_trash = (\<lambda>n t b s. Some ((), s)),
      ce_splitname = (\<lambda>n. (0, length n)), ce_normalize = (\<lambda>n. n), ce_md5 = None, ce_sha256 = None, ce_aes = (\<lambda>_. None),
      ce_aes_cap = 65536, ce_random = (\<lambda>s. Some (0, s)), ce_stdout = (\<lambda>_ s. Some ((), s)), ce_hex = hex_lib, ce_info_zero = 0\<rparr>"

definition ab_args :: copy_args where
  "ab_args = \<lparr>ca_encrypt = [], ca_decrypt = [], ca_verify = False, ca_print_md5 = False, ca_rename_source = False,
     ca_replace_date = False, ca_update = False, ca_write_into = False\<rparr>"

lemma rw_pair_closed:
  assumes "\<And>fd. rw_at fd w = None"
  shows "pair_ok rw_sys rw_view rw_obj rw_obj w" and "pair_view rw_view rw_obj rw_obj w = (rw_files w, None, None)"
proof -
  have "obj_sound rw_obj" using disk_obj_sound by (simp add: rw_obj_def obj_sound_def)
  then show "pair_ok rw_sys rw_view rw_obj rw_obj w"
    using assms by (simp add: pair_ok_def reading_def creating_def rw_view_def)
      (simp add: rw_obj_def disk_obj_def fbuf_wf_def file_idle_def ALIGN_pos)
  show "pair_view rw_view rw_obj rw_obj w = (rw_files w, None, None)"
    by (simp add: pair_view_def rw_obj_def disk_obj_def dst_name_def src_of_def dst_of_def files_but_def rw_view_def)
qed

text \<open>The same world with a trivial cipher, for the decryption.\<close>

definition rw_crypt_env :: "((bytes list, nat, unit, unit, rwd fworld) com, nat, bytes, unit) copyenv" where
  "rw_crypt_env = rw_env\<lparr>ce_sha256 := Some pad_hash,
     ce_aes := \<lambda>_. Some \<lparr>aes_create = (\<lambda>_ _. Some ()), aes_process = (\<lambda>_ d iv. Some (d, iv))\<rparr>\<rparr>"

lemma ab_store:
  assumes "cmd_at s = cmd_at (ab_com info F)" and "wo_objs (world s) 1 = rw_obj" and "wo_objs (world s) 2 = rw_obj"
    and "wo_sys (world s) = wo_sys (world (ab_com info F))" and "\<not> wo_stop (world s)"
    and "info = ab_info\<lparr>ci_overwrite := ow, ci_input := ns, ci_exclude := ex\<rparr>"
  shows "core_store rw_sys rw_view cursor_lib cursor_names 0 1 2 s = Some \<lparr>st_files = F, st_src = None, st_dst = None,
      st_names = ns, st_pass = name_passes (cursor_lib :: (bytes list, nat, unit, unit, rwd fworld) comlib) info\<rparr>"
proof -
  let ?w = "wo_sys (world (ab_com info F))"
  have "rw_at fd ?w = None" for fd by (simp add: rw_at_def ab_com_def)
  note pc = rw_pair_closed [OF this]
  have td: "com_todo cursor_lib cursor_names (cmd_at s 0) = Some ns" "cm_info (cmd_at s 0) = info"
    unfolding assms(1) by (simp_all add: ab_com_def com_todo_def add_all_cursor cursor_names_def ab_info_def plain_info_def assms(6))
  have f: "rw_files ?w = F" by (simp add: ab_com_def)
  show ?thesis using rw_os_files pc assms(5)
    by (simp add: core_store_def Let_def td assms(2-4) f cursor_names_ok del: One_nat_def)
qed

text \<open>Copying \<open>a\<close> over \<open>b\<close>, the file \<open>s\<close> being excluded.\<close>

definition skip_info :: "unit cominfo" where
  "skip_info = ab_info\<lparr>ci_overwrite := True, ci_input := [''s'', ''a''], ci_exclude := [''s'']\<rparr>"

lemma skip_passes:
  "name_passes (cursor_lib :: (bytes list, nat, unit, unit, rwd fworld) comlib) skip_info ''a''"
  "\<not> name_passes (cursor_lib :: (bytes list, nat, unit, unit, rwd fworld) comlib) skip_info ''s''"
  by (simp_all add: name_passes_def skip_info_def ab_info_def plain_info_def cursor_lib_def ref_strlib_def lower_def eval_nat_numeral)

theorem copy_copies_witness:
  "\<exists>c s c' s'. copy_create rw_env ab_args skip_info
       (ab_com skip_info [''a'' \<mapsto> ''data'', ''b'' \<mapsto> ''old'', ''s'' \<mapsto> ''x'']) = Some (Some c, s) \<and>
     copy_run rw_env c s = Some ((Some 0, c'), s') \<and>
     rw_files (wo_sys (world s')) = [''a'' \<mapsto> ''data'', ''b'' \<mapsto> ''data'', ''s'' \<mapsto> ''x'']"
proof -
  let ?F = "[''a'' \<mapsto> ''data'', ''b'' \<mapsto> ''old'', ''s'' \<mapsto> ''x''] :: bytes \<rightharpoonup> bytes"
  define info where "info = skip_info"
  define cmd where "cmd = info\<lparr>ci_recursive := 1\<rparr>"
  obtain c s where cs: "copy_create rw_env ab_args info (ab_com info ?F) = Some (Some c, s)"
    "copy_plain 1 2 cmd c" "cp_st c = CsSrc" "\<not> co_del c" "cmd_at s = cmd_at (ab_com info ?F)"
    "wo_objs (world s) 1 = rw_obj" "wo_objs (world s) 2 = rw_obj" "wo_sys (world s) = wo_sys (world (ab_com info ?F))" "\<not> wo_stop (world s)"
    by (simp add: copy_create_def copy_args_parse_def rw_env_def info_def skip_info_def ab_info_def plain_info_def output_init_def core_of_def crypt_init_def
        ab_args_def verify_init_def Let_def ab_com_def copy_plain_def copy_base_def cmd_def del: One_nat_def)
  note A = ab_store [OF cs(5-9) info_def [unfolded skip_info_def]]
  have w': "rw_files (wo_sys (world s)) = ?F" using cs(8) by (simp add: ab_com_def)
  then have w: "v_disk rw_view (wo_sys (world s)) = ?F" by (simp add: rw_view_def)
  note np = skip_passes [folded info_def]
  have ps: "filter (name_passes (cursor_lib :: (bytes list, nat, unit, unit, rwd fworld) comlib) info) [''s'', ''a''] = [''a'']"
    using np by simp
  have "\<exists>c' s'. copy_run rw_env c s = Some ((Some 0, c'), s') \<and>
      v_disk rw_view (wo_sys (world s')) = copied (v_disk rw_view (wo_sys (world s))) (\<lambda>_. ''b'')
        (filter (name_passes (cursor_lib :: (bytes list, nat, unit, unit, rwd fworld) comlib) info) [''s'', ''a''])"
  proof (rule copy_copies [OF _ _ cs(2-4) A, unfolded store.simps])
    show "env_on rw_env (core_of rw_sys cursor_lib 0 (\<lambda>_. rw_obj)) (\<lambda>a b. on_sys (fs_rename rw_sys a b)) (v_size rw_view) (v_reg rw_view)"
      by (simp add: env_on_def rw_env_def rw_view_def)
    show "cmd_plain cmd" by (simp add: cmd_plain_def cmd_def info_def skip_info_def ab_info_def plain_info_def)
  qed (simp_all add: w w' np copy_fresh_def rw_view_def out_name_def cmd_def rw_env_def,
      simp_all add: info_def skip_info_def ab_info_def plain_info_def)
  moreover have "copied ?F (\<lambda>_. ''b'') [''a''] = [''a'' \<mapsto> ''data'', ''b'' \<mapsto> ''data'', ''s'' \<mapsto> ''x'']"
    by (auto simp: copied_def fun_eq_iff)
  ultimately show ?thesis using cs(1) ps unfolding w by (auto simp: rw_view_def info_def)
qed

text \<open>C27. Decrypting with \<open>--overwrite\<close> a file of fewer than 17 bytes, too short to be encrypted, reports an error
  and leaves the disk without the target, also when a file of this name existed before; nothing else changes.\<close>

theorem copy_failure_deletes_target:
  assumes "env_on E (core_of sys lib cm mk) (\<lambda>a b. on_sys (fs_rename sys a b)) (v_size V) (v_reg V)"
    and "cmd_plain cmd" and "ci_overwrite cmd" and "copy_base i1 o1 cmd c" and "cp_st c = CsSrc" and "cr_aes c \<noteq> None"
    and "core_store sys V lib names cm i1 o1 s = Some A" and "st_dst A = None" and "st_names A = n # ns" and "st_pass A n"
    and "\<And>b. out_name E cmd n b = Some t" and "v_disk V (wo_sys (world s)) n = Some d" and "length d < 17"
    and "n \<noteq> t" and "v_disk V (wo_sys (world s)) (t @ ''.fcomtmp'') = None" and "v_new V t" and "v_new V (t @ ''.fcomtmp'')"
  shows "\<exists>c' s'. copy_run E c s = Some ((Some 1, c'), s') \<and>
    v_disk V (wo_sys (world s')) = (v_disk V (wo_sys (world s)))(t := None)"
proof -
  have "st_files A n = Some d" "st_files A (t @ ''.fcomtmp'') = None"
    using assms(12,15) core_store_disk [OF assms(7,8)] by simp_all
  from disk.copy_decrypt_short [OF assms(1-6,11,7,9) this(1) assms(10,8) this(2) assms(16,17,14,13)]
  show ?thesis using core_store_disk [OF assms(7,8)] core_store_disk by metis
qed

theorem copy_failure_deletes_target_witness:
  "\<exists>c s c' s'. copy_create rw_crypt_env (ab_args\<lparr>ca_decrypt := ''pw''\<rparr>) (ab_info\<lparr>ci_overwrite := True\<rparr>)
       (ab_com (ab_info\<lparr>ci_overwrite := True\<rparr>) [''a'' \<mapsto> ''plain text'', ''b'' \<mapsto> ''old'']) = Some (Some c, s) \<and>
     copy_run rw_crypt_env c s = Some ((Some 1, c'), s') \<and> rw_files (wo_sys (world s')) = [''a'' \<mapsto> ''plain text'']"
proof -
  let ?F = "[''a'' \<mapsto> ''plain text'', ''b'' \<mapsto> ''old''] :: bytes \<rightharpoonup> bytes"
  define info where "info = ab_info\<lparr>ci_overwrite := True\<rparr>"
  define cmd where "cmd = info\<lparr>ci_recursive := 1\<rparr>"
  obtain c s where cs: "copy_create rw_crypt_env (ab_args\<lparr>ca_decrypt := ''pw''\<rparr>) info (ab_com info ?F) = Some (Some c, s)"
    "copy_base 1 2 cmd c" "cp_st c = CsSrc" "cr_aes c \<noteq> None" "cmd_at s = cmd_at (ab_com info ?F)"
    "wo_objs (world s) 1 = rw_obj" "wo_objs (world s) 2 = rw_obj" "wo_sys (world s) = wo_sys (world (ab_com info ?F))" "\<not> wo_stop (world s)"
    by (simp add: copy_create_def copy_args_parse_def rw_crypt_env_def rw_env_def info_def ab_info_def plain_info_def output_init_def core_of_def crypt_init_def
        ab_args_def verify_init_def Let_def ab_com_def copy_base_def cmd_def del: One_nat_def)
  note A = ab_store [OF cs(5-9), where ow = True and ns = "[''a'']" and ex = "[]"]
  have w': "rw_files (wo_sys (world s)) = ?F" using cs(8) by (simp add: ab_com_def)
  then have w: "v_disk rw_view (wo_sys (world s)) = ?F" by (simp add: rw_view_def)
  have "\<exists>c' s'. copy_run rw_crypt_env c s = Some ((Some 1, c'), s') \<and>
      v_disk rw_view (wo_sys (world s')) = (v_disk rw_view (wo_sys (world s)))(''b'' := None)"
  proof (rule copy_failure_deletes_target [OF _ _ _ cs(2-4) A, where n = "''a''" and d = "''plain text''" and ns = "[]"])
    show "env_on rw_crypt_env (core_of rw_sys cursor_lib 0 (\<lambda>_. rw_obj)) (\<lambda>a b. on_sys (fs_rename rw_sys a b)) (v_size rw_view) (v_reg rw_view)"
      by (simp add: env_on_def rw_crypt_env_def rw_env_def rw_view_def)
    show "cmd_plain cmd" by (simp add: cmd_plain_def cmd_def info_def ab_info_def plain_info_def)
  qed (simp_all add: w w' rw_view_def name_passes_def info_def ab_info_def plain_info_def out_name_def cmd_def rw_crypt_env_def rw_env_def)
  moreover have "(?F)(''b'' := None) = [''a'' \<mapsto> ''plain text'']" by (auto simp: fun_eq_iff)
  ultimately obtain c' s' where r: "copy_run rw_crypt_env c s = Some ((Some 1, c'), s')"
      "v_disk rw_view (wo_sys (world s')) = [''a'' \<mapsto> ''plain text'']" unfolding w by auto
  have "rw_files (wo_sys (world s')) = [''a'' \<mapsto> ''plain text'']" using r(2) by (simp add: rw_view_def)
  then show ?thesis using cs(1) r(1) unfolding info_def by blast
qed

end
