(* ===== verification/Fntree.thy ===== *)
theory Fntree
  imports SyncTypes
begin

text \<open>
  The file tree of ffbase (\<open>fntree\<close>), which is not part of the repository: blocks \<open>'b\<close> with a path and
  entries \<open>'e\<close>, each with a name, the data fcom attaches and perhaps a block of children, in a memory \<open>'t\<close>.
  \<open>ft_add\<close> may move the block it adds to and fails (\<^const>\<open>None\<close>) for a name that is too long; \<open>ft_next\<close> and
  \<open>ft_next_ctx\<close> are \<open>fntree_cur_next_r\<close> and \<open>fntree_cur_next_r_ctx\<close>, which set the block the entry is in.
  Also the dates of ffbase and its reading and writing of numbers, as far as snapshots need them.
\<close>

record ('t, 'b, 'e, 'c) fntree =
  ft_create :: "bytes \<Rightarrow> 't \<Rightarrow> 'b \<times> 't"
  ft_add :: "'b \<Rightarrow> bytes \<Rightarrow> 't \<Rightarrow> ('e \<times> 'b) option \<times> 't"
  ft_entries :: "'b \<Rightarrow> 't \<Rightarrow> nat"
  ft_path :: "'b \<Rightarrow> 't \<Rightarrow> bytes"
  ft_name :: "'e \<Rightarrow> 't \<Rightarrow> bytes"
  ft_data :: "'e \<Rightarrow> 't \<Rightarrow> sync_entry"
  ft_set :: "'e \<Rightarrow> sync_entry \<Rightarrow> 't \<Rightarrow> 't"
  ft_children :: "'e \<Rightarrow> 't \<Rightarrow> 'b option"
  ft_attach :: "'e \<Rightarrow> 'b option \<Rightarrow> 't \<Rightarrow> 't"
  ft_first :: "'b \<Rightarrow> 't \<Rightarrow> 'e"
  ft_next :: "'c \<Rightarrow> 'b \<Rightarrow> 't \<Rightarrow> 'e option \<times> 'c \<times> 'b"
  ft_next_ctx :: "'c \<Rightarrow> 'b \<Rightarrow> 't \<Rightarrow> 'e option \<times> 'c \<times> 'b"
  ft_cur :: "'c \<Rightarrow> 'e"
  ft_start :: 'c
  ft_free :: "'b \<Rightarrow> 't \<Rightarrow> 't"

text \<open>\<open>struct ent\<close> of \<open>src/fs/sync-scan.h\<close>.\<close>

record ent =
  et_type :: char
  et_name :: bytes
  et_d :: sync_entry

definition no_entry :: sync_entry where
  "no_entry = \<lparr>se_size = 0, unix_attr = 0, win_attr = 0, se_uid = 0, se_gid = 0, mtime = (0, 0), crc32 = 0\<rparr>"

record ffdatetime =
  dt_ymd :: "int \<times> nat \<times> nat"
  dt_hour :: nat
  dt_minute :: nat
  dt_second :: nat
  dt_nsec :: int

text \<open>
  The formats \<open>%U\<close> and \<open>%u\<close>, \<open>%xu\<close>; \<open>ffstr_to_uint64\<close>, \<open>ffstr_to_uint32\<close>; \<open>ffstr_matchfmt\<close> with \<open>%xu/%xu\<close> and
  \<open>%u:%u\<close>; \<open>fftime_split1\<close>, \<open>fftime_join1\<close>; \<open>fftime_tostr1\<close>, \<open>fftime_fromstr1\<close> for a date and for a time of day
  (\<open>0\<close> characters taken: not one).
\<close>

record textlib =
  tl_dec :: "nat \<Rightarrow> bytes"
  tl_hex :: "32 word \<Rightarrow> bytes"
  tl_to_uint64 :: "bytes \<Rightarrow> nat option"
  tl_to_uint32 :: "bytes \<Rightarrow> 32 word option"
  tl_match_hex2 :: "bytes \<Rightarrow> (32 word \<times> 32 word) option"
  tl_match_dec2 :: "bytes \<Rightarrow> (32 word \<times> 32 word) option"
  tl_split :: "fftime \<Rightarrow> ffdatetime"
  tl_join :: "ffdatetime \<Rightarrow> fftime"
  tl_date_out :: "ffdatetime \<Rightarrow> bytes"
  tl_time_out :: "ffdatetime \<Rightarrow> bytes"
  tl_date_in :: "bytes \<Rightarrow> nat \<times> ffdatetime"
  tl_time_in :: "bytes \<Rightarrow> nat \<times> ffdatetime"

end
