(* ===== verification/ConfScheme.thy ===== *)
theory ConfScheme
  imports Complex_Main Prelude "HOL-Library.Monad_Syntax"
begin

text \<open>
  The configuration reader of \<open>src/util/conf.h\<close>, \<open>conf-brg.h\<close> and \<open>conf-scheme.h\<close>: words of the text,
  which the parser of the library ffbase cuts out, become keys, values and objects in braces, and a
  scheme (a table of keys with types and destinations) says what to do with each. A
  destination is a field of the client's structure or a handler of the client. Handlers are
  names \<open>'d\<close>, tables names \<open>'a\<close> and objects addresses \<open>'b\<close>, as the code has pointers to them; \<open>schemeenv\<close> is
  what they point to. \<^const>\<open>None\<close> as a result stands for undefined behaviour: using the last context of an
  empty stack, calling a field, or what a handler does that crashes or does not return.
\<close>

section \<open>Words and braces\<close>

datatype conf_tok = CMore | CKey | CVal | CValNext | CError

datatype conf_r = RMore | RKey | RVal | RValNext | RObjOpen | RObjClose

definition FFCONF_ESYS :: int where "FFCONF_ESYS = 1"
definition FFCONF_ESTR :: int where "FFCONF_ESTR = 3"
definition FFCONF_ECTX :: int where "FFCONF_ECTX = 4"
definition FFCONF_ESCHEME :: int where "FFCONF_ESCHEME = 7"

text \<open>
  \<open>cl_read\<close> is \<open>ffconf_read\<close> on a parser with its input (\<open>cl_open\<close> is the parser before the first word): the
  kind of the word, the word and whether it was quoted. \<open>cl_toint\<close> is
  \<open>ffstr_toint\<close> for a width in bits, signed or not: what it leaves in a 64-bit variable that was zero.
\<close>

record 'p conflib =
  cl_open :: "bytes \<Rightarrow> 'p"
  cl_read :: "'p \<Rightarrow> (conf_tok \<times> bytes \<times> bool) \<times> 'p"
  cl_line :: "'p \<Rightarrow> nat"
  cl_col :: "'p \<Rightarrow> nat"
  cl_error :: "'p \<Rightarrow> bytes"
  cl_toint :: "bytes \<Rightarrow> nat \<Rightarrow> bool \<Rightarrow> 64 word option"
  cl_float :: "bytes \<Rightarrow> real option"
  cl_ieq :: "bytes \<Rightarrow> bytes \<Rightarrow> bool"

text \<open>\<open>struct ffltconf\<close>: the parser of ffbase, the number of open braces, the last word.\<close>

record 'p ltconf =
  lt_fc :: 'p
  lt_ctxs :: nat
  lt_val :: bytes

definition ltconf_init :: "'p \<Rightarrow> 'p ltconf" where
  "ltconf_init p = \<lparr>lt_fc = p, lt_ctxs = 0, lt_val = []\<rparr>"

definition ltconf_parse :: "'p conflib \<Rightarrow> 'p ltconf \<Rightarrow> (int + conf_r) \<times> 'p ltconf" where
  "ltconf_parse L c0 =
     (let ((t, v, quoted), p) = cl_read L (lt_fc c0);
          c = c0\<lparr>lt_fc := p, lt_val := v\<rparr>;
          opens = (v = ''{'' \<and> \<not> quoted);
          value = (\<lambda>r. if opens then (Inr RObjOpen, c\<lparr>lt_ctxs := lt_ctxs c + 1\<rparr>) else (Inr r, c))
      in case t of
           CMore \<Rightarrow> (Inr RMore, c)
         | CKey \<Rightarrow> (if v = ''}'' \<and> \<not> quoted then
                      (if lt_ctxs c = 0 then (Inl (- FFCONF_ECTX), c)
                       else (Inr RObjClose, c\<lparr>lt_ctxs := lt_ctxs c - 1\<rparr>))
                    else (Inr RKey, c))
         | CVal \<Rightarrow> value RVal
         | CValNext \<Rightarrow> value RValNext
         | CError \<Rightarrow> (Inl (- FFCONF_ESTR), c))"

definition ltconf_fin :: "'p ltconf \<Rightarrow> int" where
  "ltconf_fin c = (if lt_ctxs c \<noteq> 0 then - FFCONF_ECTX else 0)"

section \<open>Schemes\<close>

definition FFCONF_TSTR :: "32 word" where "FFCONF_TSTR = 1"
definition FFCONF_TSTRZ :: "32 word" where "FFCONF_TSTRZ = 2"
definition FFCONF_TINT :: "32 word" where "FFCONF_TINT = 3"
definition FFCONF_TSIZE :: "32 word" where "FFCONF_TSIZE = 4"
definition FFCONF_TFLOAT :: "32 word" where "FFCONF_TFLOAT = 5"
definition FFCONF_TBOOL :: "32 word" where "FFCONF_TBOOL = 6"
definition FFCONF_TOBJ :: "32 word" where "FFCONF_TOBJ = 7"
definition FFCONF_TCLOSE :: "32 word" where "FFCONF_TCLOSE = 8"
definition FFCONF_FLIST :: "32 word" where "FFCONF_FLIST = 0x10"
definition FFCONF_F32BIT :: "32 word" where "FFCONF_F32BIT = 0x20"
definition FFCONF_F16BIT :: "32 word" where "FFCONF_F16BIT = 0x40"
definition FFCONF_F8BIT :: "32 word" where "FFCONF_F8BIT = 0x80"
definition FFCONF_FMULTI :: "32 word" where "FFCONF_FMULTI = 0x0100"
definition FFCONF_FNOTEMPTY :: "32 word" where "FFCONF_FNOTEMPTY = 0x0200"
definition FFCONF_FSIGN :: "32 word" where "FFCONF_FSIGN = 0x0400"
definition FFCONF_FNOTZERO :: "32 word" where "FFCONF_FNOTZERO = 0x0800"

lemmas conf_flag_defs [flag_simps] =
  FFCONF_TSTR_def FFCONF_TSTRZ_def FFCONF_TINT_def FFCONF_TSIZE_def FFCONF_TFLOAT_def FFCONF_TBOOL_def
  FFCONF_TOBJ_def FFCONF_TCLOSE_def FFCONF_FLIST_def FFCONF_F32BIT_def FFCONF_F16BIT_def FFCONF_F8BIT_def
  FFCONF_FMULTI_def FFCONF_FNOTEMPTY_def FFCONF_FSIGN_def FFCONF_FNOTZERO_def

text \<open>The destination of a key; \<open>Field\<close> is an offset below 64K.\<close>

datatype 'd cdest = Field nat | Handler 'd

record 'd conf_arg =
  ar_name :: bytes
  ar_flags :: "32 word"
  ar_dst :: "'d cdest"

text \<open>The keys of a table, and the entry without a name that ends it.\<close>

record 'd conf_table =
  tb_args :: "'d conf_arg list"
  tb_end :: "'d conf_arg"

text \<open>The context of an open object; \<open>Skip\<close> is one that is read over. \<open>Ctx\<close> has the keys seen.\<close>

datatype ('a, 'b) schemectx = Skip | Ctx 'a 'b "64 word"

text \<open>\<open>struct ffconf_scheme\<close>: the innermost context is the first.\<close>

record ('a, 'b, 'd) scheme =
  cs_icase :: bool
  cs_arg :: "'d conf_arg option"
  cs_ctxs :: "('a, 'b) schemectx list"
  cs_any_keyname :: bytes
  cs_objval :: bytes
  cs_errmsg :: "bytes option"

datatype harg = HNone | HStr bytes | HSz bytes | HInt "64 word" | HFloat real

datatype cval = VStr bytes | VSz bytes | V64 "64 word" | V32 "32 word" | V16 "16 word" | V8 "8 word" | VF32 real | VF64 real

record ('b, 'w) cworld =
  cw_fields :: "'b \<Rightarrow> nat \<Rightarrow> cval option"
  cw_user :: 'w

record ('a, 'b, 'd, 'w) schemeenv =
  sv_table :: "'a \<Rightarrow> 'd conf_table"
  sv_call :: "'d \<Rightarrow> 'b \<Rightarrow> harg \<Rightarrow> ('a, 'b, 'd) scheme \<Rightarrow> ('b, 'w) cworld \<Rightarrow> (int \<times> ('a, 'b, 'd) scheme \<times> ('b, 'w) cworld) option"

type_synonym ('a, 'b, 'd, 'w) conf_step =
  "('a, 'b, 'd) scheme \<Rightarrow> ('b, 'w) cworld \<Rightarrow> (int \<times> ('a, 'b, 'd) scheme \<times> ('b, 'w) cworld) option"

definition conf_arg_find :: "(bytes \<Rightarrow> bytes \<Rightarrow> bool) \<Rightarrow> 'd conf_arg list \<Rightarrow> bytes \<Rightarrow> nat option" where
  "conf_arg_find eq args name =
     (case List.find (\<lambda>i. eq name (ar_name (args ! i))) [0..<length args] of
        Some i \<Rightarrow> Some i
      | None \<Rightarrow> if args \<noteq> [] \<and> ar_name (last args) = ''*'' then Some (length args - 1) else None)"

definition scheme_addctx :: "'a \<Rightarrow> 'b \<Rightarrow> ('a, 'b, 'd) scheme \<Rightarrow> ('a, 'b, 'd) scheme" where
  "scheme_addctx args obj cs = cs\<lparr>cs_ctxs := Ctx args obj 0 # cs_ctxs cs\<rparr>"

definition scheme_skipctx :: "('a, 'b, 'd) scheme \<Rightarrow> ('a, 'b, 'd) scheme" where
  "scheme_skipctx cs = cs\<lparr>cs_ctxs := Skip # cs_ctxs cs\<rparr>"

definition conf_sizesfx :: "char \<Rightarrow> nat" where
  "conf_sizesfx c =
     (if c \<in> {CHR ''k'', CHR ''K''} then 10 else if c \<in> {CHR ''m'', CHR ''M''} then 20
      else if c \<in> {CHR ''g'', CHR ''G''} then 30 else if c \<in> {CHR ''t'', CHR ''T''} then 40 else 0)"

section \<open>Values\<close>

definition scheme_err :: "bytes \<Rightarrow> ('a, 'b, 'd, 'w) conf_step" where
  "scheme_err msg cs w = Some (- FFCONF_ESCHEME, cs\<lparr>cs_errmsg := Some msg\<rparr>, w)"

definition set_field :: "'b \<Rightarrow> nat \<Rightarrow> cval \<Rightarrow> ('b, 'w) cworld \<Rightarrow> ('b, 'w) cworld" where
  "set_field obj off v w = w\<lparr>cw_fields := (cw_fields w)(obj := (cw_fields w obj)(off := Some v))\<rparr>"

text \<open>A value goes to the field, or to the handler, whose error code is negated.\<close>

definition put_value ::
  "('a, 'b, 'd, 'w) schemeenv \<Rightarrow> 'd conf_arg \<Rightarrow> 'b \<Rightarrow> int \<Rightarrow> cval \<Rightarrow> harg \<Rightarrow> ('a, 'b, 'd, 'w) conf_step" where
  "put_value E arg obj r v h cs w =
     (case ar_dst arg of
        Field off \<Rightarrow> Some (r, cs, set_field obj off v w)
      | Handler d \<Rightarrow> do { (r2, cs, w) \<leftarrow> sv_call E d obj h cs w; Some (if r2 \<noteq> 0 then - r2 else r, cs, w) })"

definition int_width :: "32 word \<Rightarrow> nat" where
  "int_width flags =
     (if has flags FFCONF_F32BIT then 32 else if has flags FFCONF_F16BIT then 16
      else if has flags FFCONF_F8BIT then 8 else 64)"

definition int_field :: "32 word \<Rightarrow> 64 word \<Rightarrow> cval" where
  "int_field flags i =
     (if has flags FFCONF_F32BIT then V32 (ucast i) else if has flags FFCONF_F16BIT then V16 (ucast i)
      else if has flags FFCONF_F8BIT then V8 (ucast i) else V64 i)"

definition conf_int ::
  "'p conflib \<Rightarrow> ('a, 'b, 'd, 'w) schemeenv \<Rightarrow> 'd conf_arg \<Rightarrow> 'b \<Rightarrow> bytes \<Rightarrow> int \<Rightarrow> ('a, 'b, 'd, 'w) conf_step" where
  "conf_int L E arg obj val r cs w =
     (let flags = ar_flags arg;
          shift = (if flags AND 0x0f = FFCONF_TSIZE \<and> 2 \<le> length val then conf_sizesfx (last val) else 0);
          s = (if shift \<noteq> 0 then butlast val else val)
      in case cl_toint L s (int_width flags) (has flags FFCONF_FSIGN) of
           None \<Rightarrow> scheme_err ''integer expected'' cs w
         | Some i0 \<Rightarrow>
             (let i = push_bit shift i0
              in if i = 0 \<and> has flags FFCONF_FNOTZERO then scheme_err ''value must not be zero'' cs w
                 else put_value E arg obj r (int_field flags i) (HInt i) cs w))"

definition conf_float ::
  "'p conflib \<Rightarrow> ('a, 'b, 'd, 'w) schemeenv \<Rightarrow> 'd conf_arg \<Rightarrow> 'b \<Rightarrow> bytes \<Rightarrow> int \<Rightarrow> ('a, 'b, 'd, 'w) conf_step" where
  "conf_float L E arg obj val r cs w =
     (case cl_float L val of
        None \<Rightarrow> scheme_err ''float expected'' cs w
      | Some d \<Rightarrow>
          if d < 0 \<and> \<not> has (ar_flags arg) FFCONF_FSIGN then scheme_err ''unsigned float expected'' cs w
          else put_value E arg obj r (if has (ar_flags arg) FFCONF_F32BIT then VF32 d else VF64 d) (HFloat d) cs w)"

definition conf_bool ::
  "'p conflib \<Rightarrow> ('a, 'b, 'd, 'w) schemeenv \<Rightarrow> 'd conf_arg \<Rightarrow> 'b \<Rightarrow> bytes \<Rightarrow> int \<Rightarrow> ('a, 'b, 'd, 'w) conf_step" where
  "conf_bool L E arg obj val r cs w =
     (let n = cl_toint L val 32 False;
          b = (if cl_ieq L val ''true'' then Some True else if cl_ieq L val ''false'' then Some False
               else if n = Some 0 then Some False else if n = Some 1 then Some True else None)
      in case b of
           None \<Rightarrow> scheme_err ''boolean expected'' cs w
         | Some x \<Rightarrow> put_value E arg obj r (V8 (of_bool x)) (HInt (of_bool x)) cs w)"

definition conf_value ::
  "'p conflib \<Rightarrow> ('a, 'b, 'd, 'w) schemeenv \<Rightarrow> 'd conf_arg option \<Rightarrow> 'b \<Rightarrow> bytes \<Rightarrow> bool \<Rightarrow> int \<Rightarrow> ('a, 'b, 'd, 'w) conf_step" where
  "conf_value L E a obj val next r cs w =
     (case a of
        None \<Rightarrow> scheme_err ''value type expected in scheme'' cs w
      | Some arg \<Rightarrow>
          (let t = ar_flags arg AND 0x0f; empty = (has (ar_flags arg) FFCONF_FNOTEMPTY \<and> val = [])
           in if t = FFCONF_TSTR then
                (if empty then scheme_err ''value must not be empty'' cs w
                 else put_value E arg obj r (VStr val) (HStr val) cs w)
              else if t = FFCONF_TSTRZ then
                (if empty then scheme_err ''value must not be empty'' cs w
                 else if CHR 0x00 \<in> set val then scheme_err ''value must not contain NULL character'' cs w
                 else put_value E arg obj r (VSz val) (HSz val) cs w)
              else if t = FFCONF_TSIZE \<or> t = FFCONF_TINT then conf_int L E arg obj val r cs w
              else if t = FFCONF_TFLOAT then conf_float L E arg obj val r cs w
              else if t = FFCONF_TBOOL then conf_bool L E arg obj val r cs w
              else if t = FFCONF_TOBJ then
                (if next then scheme_err ''only 1 object value is supported'' cs w
                 else if empty then scheme_err ''value must not be empty'' cs w
                 else Some (r, cs\<lparr>cs_objval := val\<rparr>, w))
              else scheme_err ''value type expected in scheme'' cs w))"

section \<open>One element\<close>

definition conf_key :: "'p conflib \<Rightarrow> ('a, 'b, 'd, 'w) schemeenv \<Rightarrow> 'a \<Rightarrow> 'b \<Rightarrow> 64 word \<Rightarrow> bytes \<Rightarrow> int \<Rightarrow> ('a, 'b, 'd, 'w) conf_step" where
  "conf_key L E args obj used val r cs0 w =
     (let tb = tb_args (sv_table E args);
          k = conf_arg_find (if cs_icase cs0 then cl_ieq L else (=)) tb val
      in case k of
           None \<Rightarrow> scheme_err ''no such key in the current context'' (cs0\<lparr>cs_arg := None\<rparr>) w
         | Some i \<Rightarrow>
             (let arg = tb ! i;
                  cs1 = cs0\<lparr>cs_arg := Some arg\<rparr>;
                  cs = (if i < 64 then cs1\<lparr>cs_ctxs := Ctx args obj (set_bit i used) # tl (cs_ctxs cs1)\<rparr> else cs1)
              in if i < 64 \<and> bit used i \<and> \<not> has (ar_flags arg) FFCONF_FMULTI then scheme_err ''duplicate key'' cs w
                 else Some (r, (if ar_name arg = ''*'' then cs\<lparr>cs_any_keyname := val\<rparr> else cs), w)))"

definition conf_obj_open :: "('a, 'b, 'd, 'w) schemeenv \<Rightarrow> 'b \<Rightarrow> int \<Rightarrow> ('a, 'b, 'd, 'w) conf_step" where
  "conf_obj_open E obj r cs w =
     (case cs_arg cs of
        None \<Rightarrow> scheme_err ''got object, expected something else'' cs w
      | Some arg \<Rightarrow>
          if ar_flags arg AND 0x0f \<noteq> FFCONF_TOBJ then scheme_err ''got object, expected something else'' cs w
          else (case ar_dst arg of
                  Field _ \<Rightarrow> None
                | Handler d \<Rightarrow>
                    do { (r2, cs2, w2) \<leftarrow> sv_call E d obj HNone cs w;
                         if r2 \<noteq> 0 then Some (- r2, cs2, w2)
                         else if length (cs_ctxs cs) + 1 \<noteq> length (cs_ctxs cs2)
                           then scheme_err ''object handler must add a new context'' cs2 w2
                         else Some (r, cs2\<lparr>cs_objval := [], cs_arg := None\<rparr>, w2) }))"

definition pop_ctx :: "int \<Rightarrow> ('a, 'b, 'd, 'w) conf_step" where
  "pop_ctx r cs w =
     (if cs_ctxs cs = [] then None else Some (r, cs\<lparr>cs_ctxs := tl (cs_ctxs cs), cs_arg := None\<rparr>, w))"

definition conf_obj_close :: "('a, 'b, 'd, 'w) schemeenv \<Rightarrow> 'a \<Rightarrow> 'b \<Rightarrow> int \<Rightarrow> ('a, 'b, 'd, 'w) conf_step" where
  "conf_obj_close E args obj r cs0 w =
     (let e = tb_end (sv_table E args); cs = cs0\<lparr>cs_arg := Some e\<rparr>
      in if ar_flags e AND 0x0f = FFCONF_TCLOSE then
           (case ar_dst e of
              Field _ \<Rightarrow> None
            | Handler d \<Rightarrow> do { (r2, cs2, w2) \<leftarrow> sv_call E d obj HNone cs w;
                                 if r2 \<noteq> 0 then Some (- r2, cs2, w2) else pop_ctx r cs2 w2 })
         else pop_ctx r cs w)"

primrec r_code :: "conf_r \<Rightarrow> int" where
  "r_code RMore = 0"
| "r_code RKey = 1"
| "r_code RVal = 2"
| "r_code RValNext = 3"
| "r_code RObjOpen = 4"
| "r_code RObjClose = 5"

definition scheme_process ::
  "'p conflib \<Rightarrow> ('a, 'b, 'd, 'w) schemeenv \<Rightarrow> bytes \<Rightarrow> conf_r \<Rightarrow> ('a, 'b, 'd, 'w) conf_step" where
  "scheme_process L E val r cs w =
     (if r = RMore then Some (0, cs, w) else
      case cs_ctxs cs of
        [] \<Rightarrow> None
      | Skip # rest \<Rightarrow>
          Some (r_code r, (if r = RObjOpen then scheme_skipctx cs else if r = RObjClose then cs\<lparr>cs_ctxs := rest\<rparr> else cs), w)
      | Ctx args obj used # rest \<Rightarrow>
          if r = RObjOpen then conf_obj_open E obj (r_code r) cs w
          else if r = RObjClose then conf_obj_close E args obj (r_code r) cs w
          else if r = RKey then conf_key L E args obj used val (r_code r) cs w
          else if r = RValNext \<and> (case cs_arg cs of None \<Rightarrow> True | Some a \<Rightarrow> \<not> has (ar_flags a) FFCONF_FLIST)
            then scheme_err ''the key doesn't expect multiple values'' cs w
          else conf_value L E (cs_arg cs) obj val (r = RValNext) (r_code r) cs w)"

section \<open>A whole text\<close>

partial_function (option) conf_loop ::
  "'p conflib \<Rightarrow> ('a, 'b, 'd, 'w) schemeenv \<Rightarrow> 'p ltconf \<Rightarrow> ('a, 'b, 'd) scheme \<Rightarrow> ('b, 'w) cworld \<Rightarrow>
   (int \<times> 'p ltconf \<times> ('a, 'b, 'd) scheme \<times> ('b, 'w) cworld) option" where
  "conf_loop L E p cs w =
     (case ltconf_parse L p of
        (Inl e, p') \<Rightarrow> Some (e, p', cs, w)
      | (Inr r, p') \<Rightarrow>
          if r = RMore then Some (0, p', cs, w)
          else Option.bind (scheme_process L E (lt_val p') r cs w)
            (\<lambda>(r2, cs', w'). if r2 < 0 then Some (r2, p', cs', w') else conf_loop L E p' cs' w'))"

definition scheme_init :: "bool \<Rightarrow> 'a \<Rightarrow> 'b \<Rightarrow> ('a, 'b, 'd) scheme" where
  "scheme_init icase args obj =
     scheme_addctx args obj \<lparr>cs_icase = icase, cs_arg = None, cs_ctxs = [], cs_any_keyname = [], cs_objval = [], cs_errmsg = None\<rparr>"

text \<open>The code, the message (line, column, text) for an error, and the world.\<close>

definition conf_parse_object ::
  "'p conflib \<Rightarrow> ('a, 'b, 'd, 'w) schemeenv \<Rightarrow> 'a \<Rightarrow> 'b \<Rightarrow> bytes \<Rightarrow> bool \<Rightarrow> ('b, 'w) cworld \<Rightarrow>
   (int \<times> (nat \<times> nat \<times> bytes option) option \<times> ('b, 'w) cworld) option" where
  "conf_parse_object L E args obj data icase w =
     do { (r, p, cs, w) \<leftarrow> conf_loop L E (ltconf_init (cl_open L data)) (scheme_init icase args obj) w;
          let r = (if r = 0 then ltconf_fin p else r);
              err = (if r = - FFCONF_ESCHEME then cs_errmsg cs else Some (cl_error L (lt_fc p)))
          in Some (r, (if r \<noteq> 0 then Some (cl_line L (lt_fc p), cl_col L (lt_fc p), err) else None), w) }"

end
