(* ===== verification/Snap.thy ===== *)
theory Snap
  imports Fntree ConfScheme OpIf
begin

text \<open>
  Snapshot files: \<open>src/fs/sync-wsnap.h\<close> writes the entries of a tree, branch by branch, and
  \<open>src/fs/sync-rsnap.h\<close> reads them back through the configuration reader of \<^theory_text>\<open>ConfScheme\<close>.
\<close>

section \<open>Writing\<close>

definition wsnap_hdr :: bytes where
  "wsnap_hdr = ''# fcom file tree snapshot'' @ [CHR 0x0D, CHR 0x0A, CHR 0x0D, CHR 0x0A]"

definition wsnap_bhdr :: "bytes \<Rightarrow> bytes" where
  "wsnap_bhdr dirname = ''b '' @ [CHR 0x22] @ dirname @ [CHR 0x22] @ '' {'' @ [CHR 0x0D, CHR 0x0A, CHR 0x09] @ ''v 1'' @ [CHR 0x0D, CHR 0x0A]"

definition wsnap_ent_serialize :: "textlib \<Rightarrow> ent \<Rightarrow> bytes" where
  "wsnap_ent_serialize T e =
     (let d = et_d e; dt = tl_split T (mtime d); tab = [CHR 0x09]
      in tab @ [et_type e] @ '' '' @ [CHR 0x22] @ et_name e @ [CHR 0x22] @ tab @
         tl_dec T (se_size d) @ tab @
         tl_hex T (unix_attr d) @ ''/'' @ tl_hex T (win_attr d) @ tab @
         tl_dec T (unat (se_uid d)) @ '':'' @ tl_dec T (unat (se_gid d)) @ tab @
         tl_date_out T dt @ ''+'' @ tl_time_out T dt @ tab @
         tl_dec T (unat (crc32 d)) @ [CHR 0x0D, CHR 0x0A])"

definition wsnap_bftr :: bytes where
  "wsnap_bftr = ''}'' @ [CHR 0x0D, CHR 0x0A, CHR 0x0D, CHR 0x0A]"

text \<open>
  \<open>struct wsnap\<close> (\<open>ws_snap\<close> is the file object, the flags ask for the end and the head of a branch), with the
  members \<open>hdr\<close> and \<open>ent_ready\<close> of \<open>struct sync\<close>: the head of the file was written, an entry is waiting.
\<close>

record wsnap =
  ws_hdr :: bool
  ws_ent_ready :: bool
  ws_bhdr :: bool
  ws_bftr :: bool
  ws_snap :: "nat option"

text \<open>The next piece of text to write.\<close>

definition wsnap_piece :: "textlib \<Rightarrow> bytes \<Rightarrow> ent \<Rightarrow> wsnap \<Rightarrow> (bytes \<times> wsnap) option" where
  "wsnap_piece T dir e w =
     (if \<not> ws_hdr w then Some (wsnap_hdr, w\<lparr>ws_hdr := True\<rparr>)
      else if ws_bftr w then Some (wsnap_bftr, w\<lparr>ws_bftr := False\<rparr>)
      else if ws_bhdr w then Some (wsnap_bhdr dir, w\<lparr>ws_bhdr := False\<rparr>)
      else if ws_ent_ready w then Some (wsnap_ent_serialize T e, w\<lparr>ws_ent_ready := False\<rparr>)
      else None)"

definition wsnap_open :: "('s, 'i) coreif \<Rightarrow> 'k cominfo \<Rightarrow> wsnap \<Rightarrow> ('s, bool \<times> wsnap) act" where
  "wsnap_open C cmd w s =
     do { (f, s) \<leftarrow> fi_create C (ci_buffer_size cmd) s;
          (r, s) \<leftarrow> fi_open C f (ci_output cmd) (fcom_file_cominfo_flags_o cmd OR FCOM_FILE_WRITE) s;
          Some ((r \<noteq> FErr, w\<lparr>ws_snap := Some f\<rparr>), s) }"

text \<open>The loop of \<open>wsnap::process\<close>; \<^const>\<open>False\<close> is \<open>0xbad\<close>.\<close>

partial_function (option) wsnap_process ::
  "('s, 'i) coreif \<Rightarrow> textlib \<Rightarrow> 'k cominfo \<Rightarrow> bytes \<Rightarrow> ent \<Rightarrow> wsnap \<Rightarrow> ('s, bool \<times> wsnap) act" where
  "wsnap_process C T cmd dir e w s =
     (case wsnap_piece T dir e w of
        None \<Rightarrow> Some ((True, w), s)
      | Some (data, w1) \<Rightarrow>
          Option.bind (if ws_hdr w then Some ((True, w1), s) else wsnap_open C cmd w1 s)
            (\<lambda>((ok, w2), s). if \<not> ok then Some ((False, w2), s) else
               Option.bind (fi_write C (the (ws_snap w2)) data None s)
                 (\<lambda>(r, s). if r = FErr then Some ((False, w2), s) else wsnap_process C T cmd dir e w2 s)))"

section \<open>Reading\<close>

text \<open>
  \<open>struct rsnap\<close> with the members of the snapshot being filled, and the memory of the trees. \<open>rs_state\<close> counts the
  values of an entry.
\<close>

record ('t, 'b, 'e, 'c) rsnap =
  rs_state :: nat
  rs_ent :: ent
  rs_root :: "'b option"
  rs_total :: nat
  rs_curblock :: "'b option"
  rs_cur_ent :: "'e option"
  rs_cur :: 'c
  rs_tree :: 't

datatype rs_handler = HVer | HFile | HBranchClose | HBranch

datatype rs_table = TRoot | TBranch

type_synonym ('t, 'b, 'e, 'c) rs_call = "('t, 'b, 'e, 'c) rsnap \<Rightarrow> (int \<times> ('t, 'b, 'e, 'c) rsnap) option"

definition BAD :: int where "BAD = 0xbad"

definition rsnap_ver :: "bytes \<Rightarrow> ('t, 'b, 'e, 'c) rs_call" where
  "rsnap_ver val sr = Some (if val \<noteq> ''1'' then BAD else 0, sr)"

definition rs_upd :: "(sync_entry \<Rightarrow> sync_entry) \<Rightarrow> ('t, 'b, 'e, 'c) rsnap \<Rightarrow> ('t, 'b, 'e, 'c) rsnap" where
  "rs_upd f sr = sr\<lparr>rs_ent := (rs_ent sr)\<lparr>et_d := f (et_d (rs_ent sr))\<rparr>\<rparr>"

text \<open>The last value of an entry: it is added to the current block. A name the tree refuses crashes.\<close>

definition rsnap_add :: "('t, 'b, 'e, 'c) fntree \<Rightarrow> ('t, 'b, 'e, 'c) rs_call" where
  "rsnap_add F sr =
     (let (x, t) = ft_add F (the (rs_curblock sr)) (et_name (rs_ent sr)) (rs_tree sr)
      in case x of
           None \<Rightarrow> None
         | Some (e, b) \<Rightarrow> Some (0, sr\<lparr>rs_state := 0, rs_curblock := Some b, rs_tree := ft_set F e (et_d (rs_ent sr)) t,
                                    rs_ent := (rs_ent sr)\<lparr>et_name := []\<rparr>\<rparr>))"

definition rsnap_time :: "textlib \<Rightarrow> bytes \<Rightarrow> fftime option" where
  "rsnap_time T val =
     (let (n, dt) = tl_date_in T val
      in if n = 0 \<or> \<not> (n < length val \<and> val ! n = CHR ''+'') then None
         else (let (m, dtt) = tl_time_in T (drop (n + 1) val)
               in if m = 0 then None
                  else Some (tl_join T (dt\<lparr>dt_hour := dt_hour dtt, dt_minute := dt_minute dtt,
                                          dt_second := dt_second dtt, dt_nsec := dt_nsec dtt\<rparr>))))"

definition rsnap_file :: "('t, 'b, 'e, 'c) fntree \<Rightarrow> textlib \<Rightarrow> bytes \<Rightarrow> ('t, 'b, 'e, 'c) rs_call" where
  "rsnap_file F T val sr0 =
     (let k = rs_state sr0; sr = sr0\<lparr>rs_state := k + 1\<rparr>
      in if k = 0 then Some (0, sr\<lparr>rs_ent := (rs_ent sr)\<lparr>et_name := val\<rparr>\<rparr>)
         else if k = 1 then
           (case tl_to_uint64 T val of None \<Rightarrow> Some (BAD, sr) | Some n \<Rightarrow> Some (0, rs_upd (se_size_update (\<lambda>_. n)) sr))
         else if k = 2 then
           (case tl_match_hex2 T val of
              None \<Rightarrow> Some (BAD, sr)
            | Some (u, w) \<Rightarrow> Some (0, (rs_upd (\<lambda>d. d\<lparr>unix_attr := u, win_attr := w\<rparr>) sr)\<lparr>rs_state := k + 2\<rparr>))
         else if k = 4 then
           (case tl_match_dec2 T val of
              None \<Rightarrow> Some (BAD, sr)
            | Some (u, g) \<Rightarrow> Some (0, (rs_upd (\<lambda>d. d\<lparr>se_uid := u, se_gid := g\<rparr>) sr)\<lparr>rs_state := k + 2\<rparr>))
         else if k = 6 then
           (case rsnap_time T val of None \<Rightarrow> Some (BAD, sr) | Some t \<Rightarrow> Some (0, rs_upd (mtime_update (\<lambda>_. t)) sr))
         else if k = 7 then
           (case tl_to_uint32 T val of
              None \<Rightarrow> Some (BAD, sr)
            | Some c \<Rightarrow> rsnap_add F (rs_upd (crc32_update (\<lambda>_. c)) sr))
         else Some (0, sr))"

definition rsnap_branch_close :: "('t, 'b, 'e, 'c) fntree \<Rightarrow> ('t, 'b, 'e, 'c) rs_call" where
  "rsnap_branch_close F sr =
     Some (0, if rs_root sr = None then sr\<lparr>rs_root := rs_curblock sr\<rparr>
              else sr\<lparr>rs_tree := ft_attach F (the (rs_cur_ent sr)) (rs_curblock sr) (rs_tree sr),
                      rs_total := rs_total sr + ft_entries F (the (rs_curblock sr)) (rs_tree sr)\<rparr>)"

definition rsnap_full_fn :: "('t, 'b, 'e, 'c) fntree \<Rightarrow> 'b \<Rightarrow> 'e \<Rightarrow> 't \<Rightarrow> bytes" where
  "rsnap_full_fn F parent e t =
     (if ft_path F parent t \<noteq> [] then ft_path F parent t @ ''/'' @ ft_name F e t else ft_name F e t)"

text \<open>The search for the directory entry a branch belongs to: the entry, if one is found, and the cursor.\<close>

partial_function (option) branch_find :: "('t, 'b, 'e, 'c) fntree \<Rightarrow> bytes \<Rightarrow> 't \<Rightarrow> 'c \<Rightarrow> 'b \<Rightarrow> ('e option \<times> 'c) option" where
  "branch_find F path t c parent =
     (case ft_next F c parent t of
        (None, c', p) \<Rightarrow> Some (None, c')
      | (Some e, c', p) \<Rightarrow>
          if unix_attr (ft_data F e t) AND FFFILE_UNIX_DIR = 0 then branch_find F path t c' p
          else if path \<noteq> rsnap_full_fn F p e t then branch_find F path t c' p
          else Some (Some e, c'))"

definition rsnap_branch :: "('t, 'b, 'e, 'c) fntree \<Rightarrow> bytes \<Rightarrow> ('t, 'b, 'e, 'c) rs_call" where
  "rsnap_branch F path sr0 =
     (let (b, t) = ft_create F path (rs_tree sr0); sr = sr0\<lparr>rs_tree := t\<rparr>
      in if rs_root sr = None then Some (0, sr\<lparr>rs_curblock := Some b\<rparr>)
         else do { (e, c) \<leftarrow> branch_find F path t (rs_cur sr) (the (rs_curblock sr));
                   let sr = sr\<lparr>rs_cur := c\<rparr>
                   in case e of
                        None \<Rightarrow> Some (BAD, sr)
                      | Some e \<Rightarrow> Some (0, sr\<lparr>rs_cur_ent := Some e, rs_curblock := Some b\<rparr>) })"

definition rs_table_of :: "rs_table \<Rightarrow> rs_handler conf_table" where
  "rs_table_of t =
     (case t of
        TRoot \<Rightarrow>
          \<lparr>tb_args = [\<lparr>ar_name = ''b'', ar_flags = FFCONF_TOBJ OR FFCONF_FMULTI, ar_dst = Handler HBranch\<rparr>],
           tb_end = \<lparr>ar_name = [], ar_flags = 0, ar_dst = Field 0\<rparr>\<rparr>
      | TBranch \<Rightarrow>
          \<lparr>tb_args =
            [\<lparr>ar_name = ''v'', ar_flags = FFCONF_TSTR, ar_dst = Handler HVer\<rparr>,
             \<lparr>ar_name = ''f'', ar_flags = FFCONF_TSTR OR FFCONF_FLIST OR FFCONF_FMULTI, ar_dst = Handler HFile\<rparr>,
             \<lparr>ar_name = ''d'', ar_flags = FFCONF_TSTR OR FFCONF_FLIST OR FFCONF_FMULTI, ar_dst = Handler HFile\<rparr>],
           tb_end = \<lparr>ar_name = [], ar_flags = FFCONF_TCLOSE, ar_dst = Handler HBranchClose\<rparr>\<rparr>)"

text \<open>The handlers as the scheme calls them; the one of a branch opens its context.\<close>

definition rs_env :: "('t, 'b, 'e, 'c) fntree \<Rightarrow> textlib \<Rightarrow> (rs_table, unit, rs_handler, ('t, 'b, 'e, 'c) rsnap) schemeenv" where
  "rs_env F T =
     \<lparr>sv_table = rs_table_of,
      sv_call = (\<lambda>d obj h cs w.
        let str = (case h of HStr v \<Rightarrow> v | _ \<Rightarrow> []); sr = cw_user w
        in map_option (\<lambda>(r, sr). (r, (if d = HBranch \<and> r = 0 then scheme_addctx TBranch () cs else cs), w\<lparr>cw_user := sr\<rparr>))
             (case d of
                HVer \<Rightarrow> rsnap_ver str sr
              | HFile \<Rightarrow> rsnap_file F T str sr
              | HBranchClose \<Rightarrow> rsnap_branch_close F sr
              | HBranch \<Rightarrow> rsnap_branch F (cs_objval cs) sr))\<rparr>"

definition rsnap_init :: "('t, 'b, 'e, 'c) fntree \<Rightarrow> 't \<Rightarrow> ('t, 'b, 'e, 'c) rsnap" where
  "rsnap_init F t =
     \<lparr>rs_state = 0, rs_ent = \<lparr>et_type = CHR 0x00, et_name = [], et_d = no_entry\<rparr>, rs_root = None, rs_total = 0,
      rs_curblock = None, rs_cur_ent = None, rs_cur = ft_start F, rs_tree = t\<rparr>"

definition rs_world :: "('t, 'b, 'e, 'c) rsnap \<Rightarrow> (unit, ('t, 'b, 'e, 'c) rsnap) cworld" where
  "rs_world sr = \<lparr>cw_fields = \<lambda>_ _. None, cw_user = sr\<rparr>"

text \<open>The end of \<open>rsnap::parse\<close> for a text without errors.\<close>

definition rsnap_fin :: "('t, 'b, 'e, 'c) fntree \<Rightarrow> ('t, 'b, 'e, 'c) rsnap \<Rightarrow> bool \<times> ('t, 'b, 'e, 'c) rsnap" where
  "rsnap_fin F sr =
     (rs_root sr \<noteq> None,
      case rs_cur_ent sr of
        None \<Rightarrow> sr
      | Some e \<Rightarrow> sr\<lparr>rs_tree := ft_attach F e (rs_curblock sr) (rs_tree sr)\<rparr>)"

text \<open>\<open>rsnap::parse\<close>: \<^const>\<open>True\<close> is \<open>0xdeed\<close>.\<close>

definition rsnap_parse ::
  "'p conflib \<Rightarrow> ('t, 'b, 'e, 'c) fntree \<Rightarrow> textlib \<Rightarrow> bytes \<Rightarrow> ('t, 'b, 'e, 'c) rsnap \<Rightarrow> (bool \<times> ('t, 'b, 'e, 'c) rsnap) option" where
  "rsnap_parse L F T data sr0 =
     do { (r, msg, w) \<leftarrow> conf_parse_object L (rs_env F T) TRoot () data False (rs_world sr0);
          let sr = cw_user w
          in if r \<noteq> 0 then Some (False, sr)
             else Some (rsnap_fin F sr) }"

text \<open>
  \<open>sync_snapshot_open\<close>: \<open>readwhole\<close> is \<open>fffile_readwhole\<close> with the limit of 100 MB. The snapshot is the root block,
  the number of entries and the memory; its \<open>root_dir\<close> stays empty.
\<close>

definition sync_snapshot_open ::
  "'p conflib \<Rightarrow> ('t, 'b, 'e, 'c) fntree \<Rightarrow> textlib \<Rightarrow> (bytes \<Rightarrow> nat \<Rightarrow> ('s, bytes option) act) \<Rightarrow> bytes \<Rightarrow> 't \<Rightarrow>
   ('s, ('b option \<times> nat) option \<times> 't) act" where
  "sync_snapshot_open L F T readwhole path t s =
     do { (d, s) \<leftarrow> readwhole path (100 * 1024 * 1024) s;
          case d of
            None \<Rightarrow> Some ((None, t), s)
          | Some data \<Rightarrow>
              do { (ok, sr) \<leftarrow> rsnap_parse L F T data (rsnap_init F t);
                   Some ((if ok then Some (rs_root sr, rs_total sr) else None, rs_tree sr), s) } }"

end
