(* ===== verification/ConfProps.thy ===== *)
theory ConfProps
  imports ConfScheme
begin

text \<open>
  What the configuration reader of \<^theory_text>\<open>ConfScheme\<close> guarantees: a finite text is read to a result without ever
  touching an empty stack of contexts, and what is stored for a number with a size suffix.
\<close>

section \<open>The words of a text\<close>

text \<open>The parser delivers the words \<open>ts\<close> and then \<open>e\<close>: the end of the data, or an error.\<close>

fun reads :: "'p conflib \<Rightarrow> 'p \<Rightarrow> (conf_tok \<times> bytes \<times> bool) list \<Rightarrow> conf_tok \<Rightarrow> bool" where
  "reads L p [] e \<longleftrightarrow> e \<in> {CMore, CError} \<and> fst (fst (cl_read L p)) = e"
| "reads L p (t # ts) e \<longleftrightarrow> fst t \<notin> {CMore, CError} \<and> fst (cl_read L p) = t \<and> reads L (snd (cl_read L p)) ts e"

lemma reads_end: "reads L p ts e \<Longrightarrow> e \<in> {CMore, CError}"
  by (induction ts arbitrary: p) auto

text \<open>The effect of one word on the number of open braces, and of a list of words on the scheme.\<close>

definition tok_step :: "nat \<Rightarrow> conf_tok \<times> bytes \<times> bool \<Rightarrow> (conf_r \<times> nat) option" where
  "tok_step n t =
     (case t of (k, v, quoted) \<Rightarrow>
        if k = CKey then
          (if v = ''}'' \<and> \<not> quoted then (if n = 0 then None else Some (RObjClose, n - 1)) else Some (RKey, n))
        else if v = ''{'' \<and> \<not> quoted then Some (RObjOpen, n + 1)
        else Some (if k = CVal then RVal else RValNext, n))"

fun conf_words ::
  "'p conflib \<Rightarrow> ('a, 'b, 'd, 'w) schemeenv \<Rightarrow> (conf_tok \<times> bytes \<times> bool) list \<Rightarrow> conf_tok \<Rightarrow> nat \<Rightarrow>
   ('a, 'b, 'd) scheme \<Rightarrow> ('b, 'w) cworld \<Rightarrow> (int \<times> nat \<times> ('a, 'b, 'd) scheme \<times> ('b, 'w) cworld) option" where
  "conf_words L E [] e n cs w = Some (if e = CError then - FFCONF_ESTR else 0, n, cs, w)"
| "conf_words L E (t # ts) e n cs w =
     (case tok_step n t of
        None \<Rightarrow> Some (- FFCONF_ECTX, n, cs, w)
      | Some (r, n') \<Rightarrow>
          Option.bind (scheme_process L E (fst (snd t)) r cs w)
            (\<lambda>(r2, cs', w'). if r2 < 0 then Some (r2, n', cs', w') else conf_words L E ts e n' cs' w'))"

lemma ltconf_parse_tok:
  assumes "fst (cl_read L (lt_fc p)) = t" and "fst t \<notin> {CMore, CError}"
  shows "ltconf_parse L p =
     (case tok_step (lt_ctxs p) t of
        None \<Rightarrow> (Inl (- FFCONF_ECTX), p\<lparr>lt_fc := snd (cl_read L (lt_fc p)), lt_val := fst (snd t)\<rparr>)
      | Some (r, n) \<Rightarrow> (Inr r, p\<lparr>lt_fc := snd (cl_read L (lt_fc p)), lt_val := fst (snd t), lt_ctxs := n\<rparr>))"
proof -
  obtain k v q where t: "t = (k, v, q)" by (cases t) auto
  obtain p' where r: "cl_read L (lt_fc p) = ((k, v, q), p')" using assms(1) t by (cases "cl_read L (lt_fc p)") auto
  show ?thesis using assms(2) by (cases k) (simp_all add: ltconf_parse_def tok_step_def Let_def r t)
qed

lemma conf_loop_words:
  "reads L (lt_fc p) ts e \<Longrightarrow>
   \<exists>q. conf_loop L E p cs w =
     map_option (\<lambda>(r, n, cs, w). (r, (q r n cs w)\<lparr>lt_ctxs := n\<rparr>, cs, w)) (conf_words L E ts e (lt_ctxs p) cs w)"
proof (induction ts arbitrary: p cs w)
  case Nil
  have "conf_loop L E p cs w = Some (if e = CError then - FFCONF_ESTR else 0,
      p\<lparr>lt_fc := snd (cl_read L (lt_fc p)), lt_val := fst (snd (fst (cl_read L (lt_fc p))))\<rparr>, cs, w)"
    using Nil by (subst conf_loop.simps) (auto simp: ltconf_parse_def Let_def split: prod.splits conf_tok.splits)
  then show ?case
    by (intro exI [of _ "\<lambda>r n cs w. p\<lparr>lt_fc := snd (cl_read L (lt_fc p)), lt_val := fst (snd (fst (cl_read L (lt_fc p))))\<rparr>"]) simp
next
  case (Cons t ts)
  define p1 where "p1 = p\<lparr>lt_fc := snd (cl_read L (lt_fc p)), lt_val := fst (snd t)\<rparr>"
  have t: "fst (cl_read L (lt_fc p)) = t" "fst t \<notin> {CMore, CError}" and rest: "reads L (lt_fc p1) ts e"
    using Cons.prems by (auto simp: p1_def)
  show ?case
  proof (cases "tok_step (lt_ctxs p) t")
    case None
    then have "conf_loop L E p cs w = Some (- FFCONF_ECTX, p1, cs, w)"
      by (subst conf_loop.simps) (simp add: ltconf_parse_tok [OF t] p1_def)
    with None show ?thesis by (intro exI [of _ "\<lambda>r n cs w. p1"]) (simp add: p1_def)
  next
    case (Some x)
    obtain r n where x: "x = (r, n)" by fastforce
    have r: "r \<noteq> RMore" using Some by (auto simp: tok_step_def x split: prod.splits if_splits)
    have step: "conf_loop L E p cs w = Option.bind (scheme_process L E (fst (snd t)) r cs w)
        (\<lambda>(r2, cs', w'). if r2 < 0 then Some (r2, p1\<lparr>lt_ctxs := n\<rparr>, cs', w') else conf_loop L E (p1\<lparr>lt_ctxs := n\<rparr>) cs' w')"
      using Some x r unfolding p1_def by (subst conf_loop.simps) (simp add: ltconf_parse_tok [OF t])
    show ?thesis
    proof (cases "scheme_process L E (fst (snd t)) r cs w")
      case None
      with step Some x show ?thesis by simp
    next
      case (Some y)
      obtain r2 cs2 w2 where y: "y = (r2, cs2, w2)" by (cases y) auto
      show ?thesis
      proof (cases "r2 < 0")
        case True
        then show ?thesis using step Some y \<open>tok_step (lt_ctxs p) t = Some x\<close> x
          by (intro exI [of _ "\<lambda>r n cs w. p1"]) (simp add: p1_def)
      next
        case False
        have "reads L (lt_fc (p1\<lparr>lt_ctxs := n\<rparr>)) ts e" using rest by simp
        from Cons.IH [OF this, of cs2 w2] obtain q where "conf_loop L E (p1\<lparr>lt_ctxs := n\<rparr>) cs2 w2 =
          map_option (\<lambda>(r, n, cs, w). (r, (q r n cs w)\<lparr>lt_ctxs := n\<rparr>, cs, w)) (conf_words L E ts e n cs2 w2)" by auto
        then show ?thesis using step Some y False \<open>tok_step (lt_ctxs p) t = Some x\<close> x by (intro exI [of _ q]) simp
      qed
    qed
  qed
qed

text \<open>The result of reading a text, through its words.\<close>

lemma conf_parse_words:
  assumes "reads L (cl_open L d) ts e"
  shows "map_option (\<lambda>(r, m, w). (r, m = None, w)) (conf_parse_object L E args obj d icase w) =
    map_option (\<lambda>(r, n, cs, w'). let c = (if r = 0 \<and> n \<noteq> 0 then - FFCONF_ECTX else r) in (c, c = 0, w'))
      (conf_words L E ts e 0 (scheme_init icase args obj) w)"
proof -
  have "reads L (lt_fc (ltconf_init (cl_open L d))) ts e" "lt_ctxs (ltconf_init (cl_open L d)) = 0"
    using assms by (simp_all add: ltconf_init_def)
  from conf_loop_words [OF this(1), of E "scheme_init icase args obj" w] this(2) obtain q where
    "conf_loop L E (ltconf_init (cl_open L d)) (scheme_init icase args obj) w =
      map_option (\<lambda>(r, n, cs, w). (r, (q r n cs w)\<lparr>lt_ctxs := n\<rparr>, cs, w)) (conf_words L E ts e 0 (scheme_init icase args obj) w)"
    by auto
  then show ?thesis
    by (cases "conf_words L E ts e 0 (scheme_init icase args obj) w")
       (auto simp: conf_parse_object_def ltconf_fin_def Let_def FFCONF_ECTX_def)
qed

section \<open>Contexts match braces\<close>

text \<open>
  What a client promises: object entries, and closing entries where a table has one, have handlers; handlers return
  and report errors as positive codes; those of values and closing entries leave the contexts alone.
\<close>

definition obj_entry :: "'d conf_arg \<Rightarrow> bool" where
  "obj_entry a \<longleftrightarrow> ar_flags a AND 0x0f = FFCONF_TOBJ"

definition table_ok :: "'d conf_table \<Rightarrow> bool" where
  "table_ok tb \<longleftrightarrow>
     (\<forall>a \<in> set (tb_args tb). obj_entry a \<longrightarrow> (\<exists>d. ar_dst a = Handler d)) \<and>
     (ar_flags (tb_end tb) AND 0x0f = FFCONF_TCLOSE \<longrightarrow> (\<exists>d. ar_dst (tb_end tb) = Handler d))"

definition env_ok :: "('a, 'b, 'd, 'w) schemeenv \<Rightarrow> bool" where
  "env_ok E \<longleftrightarrow>
     (\<forall>a. table_ok (sv_table E a)) \<and>
     (\<forall>d obj h cs w. \<exists>r cs' w'. sv_call E d obj h cs w = Some (r, cs', w') \<and> 0 \<le> r) \<and>
     (\<forall>a arg d obj h cs w r cs' w'. arg \<in> set (tb_args (sv_table E a)) \<longrightarrow> \<not> obj_entry arg \<longrightarrow> ar_dst arg = Handler d \<longrightarrow>
        sv_call E d obj h cs w = Some (r, cs', w') \<longrightarrow> cs_ctxs cs' = cs_ctxs cs \<and> cs_arg cs' = cs_arg cs) \<and>
     (\<forall>a d obj cs w r cs' w'. ar_flags (tb_end (sv_table E a)) AND 0x0f = FFCONF_TCLOSE \<longrightarrow>
        ar_dst (tb_end (sv_table E a)) = Handler d \<longrightarrow> sv_call E d obj HNone cs w = Some (r, cs', w') \<longrightarrow>
        cs_ctxs cs' = cs_ctxs cs)"

lemma env_call: "env_ok E \<Longrightarrow> \<exists>r cs' w'. sv_call E d obj h cs w = Some (r, cs', w') \<and> 0 \<le> r"
  unfolding env_ok_def by (elim conjE) metis

lemma env_value:
  "env_ok E \<Longrightarrow> arg \<in> set (tb_args (sv_table E a)) \<Longrightarrow> \<not> obj_entry arg \<Longrightarrow> ar_dst arg = Handler d \<Longrightarrow>
    sv_call E d obj h cs w = Some (r, cs', w') \<Longrightarrow> cs_ctxs cs' = cs_ctxs cs \<and> cs_arg cs' = cs_arg cs"
  unfolding env_ok_def by blast

text \<open>The current key is one of a table, and there is a context more than open braces.\<close>

definition scheme_ok :: "('a, 'b, 'd, 'w) schemeenv \<Rightarrow> nat \<Rightarrow> ('a, 'b, 'd) scheme \<Rightarrow> bool" where
  "scheme_ok E n cs \<longleftrightarrow>
     length (cs_ctxs cs) = Suc n \<and>
     (\<forall>arg. cs_arg cs = Some arg \<longrightarrow> (\<exists>a. arg \<in> set (tb_args (sv_table E a))))"

definition step_ok :: "('a, 'b, 'd, 'w) schemeenv \<Rightarrow> nat \<Rightarrow> (int \<times> ('a, 'b, 'd) scheme \<times> ('b, 'w) cworld) option \<Rightarrow> bool" where
  "step_ok E n x \<longleftrightarrow> (\<exists>r cs w. x = Some (r, cs, w) \<and> (0 \<le> r \<longrightarrow> scheme_ok E n cs))"

lemma step_okI: "(0 \<le> r \<Longrightarrow> scheme_ok E n cs) \<Longrightarrow> step_ok E n (Some (r, cs, w))"
  by (simp add: step_ok_def)

lemma scheme_err_ok [simp]: "step_ok E n (scheme_err m cs w)"
  by (simp add: step_ok_def scheme_err_def FFCONF_ESCHEME_def)

lemma put_value_ok:
  assumes "env_ok E" and "scheme_ok E n cs" and "cs_arg cs = Some arg" and "\<not> obj_entry arg"
  shows "step_ok E n (put_value E arg obj r v h cs w)"
proof (cases "ar_dst arg")
  case (Handler d)
  obtain r2 cs2 w2 where c: "sv_call E d obj h cs w = Some (r2, cs2, w2)" "0 \<le> r2"
    using env_call [OF assms(1)] by blast
  obtain a where "arg \<in> set (tb_args (sv_table E a))" using assms(2,3) by (auto simp: scheme_ok_def)
  then have "cs_ctxs cs2 = cs_ctxs cs" "cs_arg cs2 = cs_arg cs"
    using env_value [OF assms(1) _ assms(4) Handler c(1)] by blast+
  then show ?thesis using assms(2) c by (simp add: put_value_def Handler step_ok_def scheme_ok_def)
qed (use assms(2) in \<open>simp add: put_value_def step_ok_def\<close>)

lemma conf_value_ok:
  assumes "env_ok E" and "scheme_ok E n cs"
  shows "step_ok E n (conf_value L E (cs_arg cs) obj val next r cs w)"
proof (cases "cs_arg cs")
  case None
  then show ?thesis by (simp add: conf_value_def)
next
  case (Some arg)
  show ?thesis
  proof (cases "obj_entry arg")
    case True
    then have "ar_flags arg AND 0x0f = FFCONF_TOBJ" by (simp add: obj_entry_def)
    then show ?thesis using assms(2)
      by (simp add: conf_value_def Some Let_def conf_flag_defs) (simp add: step_ok_def scheme_ok_def)
  next
    case False
    note P = put_value_ok [OF assms Some False]
    have i: "step_ok E n (conf_int L E arg obj val r cs w)" for val
      by (auto simp: conf_int_def Let_def P split: option.splits)
    have f: "step_ok E n (conf_float L E arg obj val r cs w)" for val
      by (auto simp: conf_float_def P split: option.splits)
    have b: "step_ok E n (conf_bool L E arg obj val r cs w)" for val
      by (auto simp: conf_bool_def Let_def P split: option.splits)
    show ?thesis using False by (simp add: conf_value_def Some Let_def P i f b obj_entry_def)
  qed
qed

lemma conf_arg_find_in: "conf_arg_find eq tb v = Some i \<Longrightarrow> tb ! i \<in> set tb"
  by (auto simp: conf_arg_find_def find_Some_iff split: option.splits if_splits)

lemma conf_key_ok:
  assumes "env_ok E" and "scheme_ok E n cs"
  shows "step_ok E n (conf_key L E args obj used val r cs w)"
proof (cases "conf_arg_find (if cs_icase cs then cl_ieq L else (=)) (tb_args (sv_table E args)) val")
  case None
  then show ?thesis by (simp add: conf_key_def)
next
  case (Some i)
  then have "tb_args (sv_table E args) ! i \<in> set (tb_args (sv_table E args))" by (rule conf_arg_find_in)
  then have d: "\<exists>a. tb_args (sv_table E args) ! i \<in> set (tb_args (sv_table E a))" by blast
  have l: "length (cs_ctxs cs) = Suc n" using assms(2) by (simp add: scheme_ok_def)
  show ?thesis by (simp add: conf_key_def Some Let_def step_ok_def scheme_ok_def d l scheme_err_def FFCONF_ESCHEME_def)
qed

lemma conf_open_ok:
  assumes "env_ok E" and "scheme_ok E n cs"
  shows "step_ok E (Suc n) (conf_obj_open E obj r cs w)"
proof (cases "\<exists>arg. cs_arg cs = Some arg \<and> ar_flags arg AND 0x0f = FFCONF_TOBJ")
  case False
  then show ?thesis by (auto simp: conf_obj_open_def split: option.splits)
next
  case True
  then obtain arg d where a: "cs_arg cs = Some arg" "ar_flags arg AND 0x0f = FFCONF_TOBJ" "ar_dst arg = Handler d"
    using assms unfolding scheme_ok_def env_ok_def table_ok_def obj_entry_def by metis
  obtain r2 cs2 w2 where c: "sv_call E d obj HNone cs w = Some (r2, cs2, w2)" "0 \<le> r2"
    using env_call [OF assms(1)] by blast
  moreover have "length (cs_ctxs cs) = Suc n" using assms(2) by (simp add: scheme_ok_def)
  ultimately show ?thesis by (auto simp: conf_obj_open_def a step_ok_def scheme_ok_def scheme_err_def FFCONF_ESCHEME_def)
qed

lemma conf_close_ok:
  assumes "env_ok E" and "scheme_ok E (Suc n) cs"
  shows "step_ok E n (conf_obj_close E args obj r cs w)"
proof -
  define e where "e = tb_end (sv_table E args)"
  define cs1 where "cs1 = cs\<lparr>cs_arg := Some e\<rparr>"
  have l: "length (cs_ctxs cs1) = Suc (Suc n)" using assms(2) by (simp add: scheme_ok_def cs1_def)
  then have p: "step_ok E n (pop_ctx r cs1 w)" by (auto simp: step_ok_def pop_ctx_def scheme_ok_def)
  show ?thesis
  proof (cases "ar_flags e AND 0x0f = FFCONF_TCLOSE")
    case False
    then show ?thesis using p by (simp add: conf_obj_close_def Let_def flip: e_def cs1_def)
  next
    case True
    have "table_ok (sv_table E args)" using assms(1) by (simp add: env_ok_def)
    then obtain d where d: "ar_dst e = Handler d" using True by (auto simp: table_ok_def e_def)
    obtain r2 cs2 w2 where c: "sv_call E d obj HNone cs1 w = Some (r2, cs2, w2)" "0 \<le> r2"
      using env_call [OF assms(1)] by blast
    have "cs_ctxs cs2 = cs_ctxs cs1" using assms(1) c(1) d True unfolding env_ok_def e_def by blast
    then have "step_ok E n (if r2 \<noteq> 0 then Some (- r2, cs2, w2) else pop_ctx r cs2 w2)"
      using l c(2) by (auto simp: step_ok_def pop_ctx_def scheme_ok_def)
    then show ?thesis using True by (simp add: conf_obj_close_def Let_def c d flip: e_def cs1_def)
  qed
qed

lemma scheme_process_ok:
  assumes E: "env_ok E" and t: "tok_step n t = Some (r, n')" and cs: "scheme_ok E n cs"
  shows "step_ok E n' (scheme_process L E (fst (snd t)) r cs w)"
proof -
  obtain c rest where cc: "cs_ctxs cs = c # rest" "length rest = n"
    using cs by (cases "cs_ctxs cs") (auto simp: scheme_ok_def)
  have r: "r \<noteq> RMore" and n': "n' = (if r = RObjOpen then Suc n else if r = RObjClose then n - 1 else n)" "r = RObjClose \<Longrightarrow> n \<noteq> 0"
    using t by (auto simp: tok_step_def split: prod.splits if_splits)
  show ?thesis
  proof (cases c)
    case Skip
    then show ?thesis using r n' cc cs
      by (auto simp: scheme_process_def step_ok_def scheme_ok_def scheme_skipctx_def)
  next
    case (Ctx args obj used)
    have "r = RObjClose \<Longrightarrow> scheme_ok E (Suc (n - 1)) cs" using cs n'(2) by simp
    with conf_close_ok [OF E] conf_open_ok [OF E cs] conf_key_ok [OF E cs] conf_value_ok [OF E cs] r n'(1) cc show ?thesis
      by (auto simp: scheme_process_def Ctx)
  qed
qed

lemma conf_words_returns:
  assumes "env_ok E" and "scheme_ok E n cs"
  shows "conf_words L E ts e n cs w \<noteq> None"
  using assms(2)
proof (induction ts arbitrary: n cs w)
  case (Cons t ts)
  show ?case
  proof (cases "tok_step n t")
    case (Some x)
    obtain r n' where x: "x = (r, n')" by fastforce
    from scheme_process_ok [OF assms(1) Some [unfolded x] Cons.prems] obtain r2 cs2 w2 where
      "scheme_process L E (fst (snd t)) r cs w = Some (r2, cs2, w2)" "0 \<le> r2 \<longrightarrow> scheme_ok E n' cs2"
      unfolding step_ok_def by blast
    then show ?thesis using Cons.IH [of n' cs2 w2] by (auto simp: Some x)
  qed simp
qed simp

text \<open>The open braces after a list of words.\<close>

fun braces :: "nat \<Rightarrow> (conf_tok \<times> bytes \<times> bool) list \<Rightarrow> nat option" where
  "braces n [] = Some n"
| "braces n (t # ts) = (case tok_step n t of None \<Rightarrow> None | Some (r, n') \<Rightarrow> braces n' ts)"

lemma conf_words_accepts:
  "conf_words L E ts e n cs w = Some (r, n', cs', w') \<Longrightarrow> r = 0 \<Longrightarrow> e \<noteq> CError \<and> braces n ts = Some n'"
proof (induction ts arbitrary: n cs w)
  case Nil
  then show ?case by (auto simp: FFCONF_ESTR_def split: if_splits)
next
  case (Cons t ts)
  then obtain x m where x: "tok_step n t = Some (x, m)"
    by (cases "tok_step n t") (auto simp: FFCONF_ECTX_def)
  then obtain r2 cs2 w2 where "scheme_process L E (fst (snd t)) x cs w = Some (r2, cs2, w2)" "\<not> r2 < 0"
    using Cons.prems by (cases "scheme_process L E (fst (snd t)) x cs w") (auto split: if_splits)
  with x Cons.IH [of m cs2 w2] Cons.prems show ?case by simp
qed

section \<open>A reference parser\<close>

text \<open>
  The documented form of a text: lines of words, separated by blanks, quoted or plain, and comments. The
  first word of a line is a key, the second its value, the others further values.
\<close>

datatype cword = Quoted bytes | Plain bytes

datatype cline = Words bytes "(cword \<times> bytes) list" | Comment bytes

primrec word_text :: "cword \<Rightarrow> bytes" where
  "word_text (Quoted s) = CHR 0x22 # s @ [CHR 0x22]"
| "word_text (Plain s) = s"

definition blank :: "char \<Rightarrow> bool" where
  "blank c \<longleftrightarrow> c = CHR '' '' \<or> c = CHR 0x09"

definition plain_char :: "char \<Rightarrow> bool" where
  "plain_char c \<longleftrightarrow> \<not> blank c \<and> c \<notin> {CHR 0x0D, CHR 0x0A, CHR 0x22, CHR ''#'', CHR 0x5C}"

definition quoted_char :: "char \<Rightarrow> bool" where
  "quoted_char c \<longleftrightarrow> c \<notin> {CHR 0x0D, CHR 0x0A, CHR 0x22, CHR 0x5C}"

primrec word_ok :: "cword \<Rightarrow> bool" where
  "word_ok (Quoted s) \<longleftrightarrow> list_all quoted_char s"
| "word_ok (Plain s) \<longleftrightarrow> s \<noteq> [] \<and> list_all plain_char s"

fun line_text :: "cline \<Rightarrow> bytes" where
  "line_text (Words i ws) = i @ concat (map (\<lambda>(w, b). word_text w @ b) ws) @ [CHR 0x0D, CHR 0x0A]"
| "line_text (Comment s) = CHR ''#'' # s @ [CHR 0x0D, CHR 0x0A]"

fun words_ok :: "(cword \<times> bytes) list \<Rightarrow> bool" where
  "words_ok [] \<longleftrightarrow> True"
| "words_ok ((w, b) # ws) \<longleftrightarrow> word_ok w \<and> list_all blank b \<and> (ws \<noteq> [] \<longrightarrow> b \<noteq> []) \<and> words_ok ws"

fun line_ok :: "cline \<Rightarrow> bool" where
  "line_ok (Words i ws) \<longleftrightarrow> list_all blank i \<and> words_ok ws"
| "line_ok (Comment s) \<longleftrightarrow> CHR 0x0A \<notin> set s"

definition tok_kind :: "nat \<Rightarrow> conf_tok" where
  "tok_kind k = (if k = 0 then CKey else if k = 1 then CVal else CValNext)"

primrec word_tok :: "nat \<Rightarrow> cword \<Rightarrow> conf_tok \<times> bytes \<times> bool" where
  "word_tok k (Quoted s) = (tok_kind k, s, True)"
| "word_tok k (Plain s) = (tok_kind k, s, False)"

fun words_toks :: "nat \<Rightarrow> (cword \<times> bytes) list \<Rightarrow> (conf_tok \<times> bytes \<times> bool) list" where
  "words_toks k [] = []"
| "words_toks k ((w, b) # ws) = word_tok k w # words_toks (Suc k) ws"

fun line_toks :: "cline \<Rightarrow> (conf_tok \<times> bytes \<times> bool) list" where
  "line_toks (Words i ws) = words_toks 0 ws"
| "line_toks (Comment s) = []"

definition conf_ok :: "'p conflib \<Rightarrow> bool" where
  "conf_ok L \<longleftrightarrow>
     (\<forall>ls. (\<forall>l \<in> set ls. line_ok l) \<longrightarrow> reads L (cl_open L (concat (map line_text ls))) (concat (map line_toks ls)) CMore)"

text \<open>\<open>k\<close> words of the current line have been read.\<close>

function tokens :: "nat \<Rightarrow> bytes \<Rightarrow> (conf_tok \<times> bytes \<times> bool) list" where
  "tokens k [] = []"
| "tokens k (c # cs) =
     (if c = CHR 0x0A then tokens 0 cs
      else if blank c \<or> c = CHR 0x0D then tokens k cs
      else if c = CHR ''#'' then tokens 0 (dropWhile (\<lambda>x. x \<noteq> CHR 0x0A) cs)
      else if c = CHR 0x22 then
        (tok_kind k, takeWhile (\<lambda>x. x \<noteq> CHR 0x22) cs, True) # tokens (Suc k) (tl (dropWhile (\<lambda>x. x \<noteq> CHR 0x22) cs))
      else (tok_kind k, c # takeWhile plain_char cs, False) # tokens (Suc k) (dropWhile plain_char cs))"
  by pat_completeness auto
termination
  by (relation "measure (\<lambda>(k, s). length s)")
     (auto simp: length_dropWhile_le le_imp_less_Suc intro!: le_imp_less_Suc le_trans [OF diff_le_self])

definition dec_of :: "bytes \<Rightarrow> nat option" where
  "dec_of s =
     (if s \<noteq> [] \<and> list_all (\<lambda>c. c \<in> set ''0123456789'') s
      then Some (foldl (\<lambda>n c. 10 * n + (of_char c - 48)) 0 s) else None)"

definition ref_conf :: "(conf_tok \<times> bytes \<times> bool) list conflib" where
  "ref_conf =
     \<lparr>cl_open = tokens 0,
      cl_read = (\<lambda>p. case p of [] \<Rightarrow> ((CMore, [], False), []) | t # ts \<Rightarrow> (t, ts)),
      cl_line = length, cl_col = length, cl_error = (\<lambda>_. []),
      cl_toint = (\<lambda>s n sign. case dec_of s of Some k \<Rightarrow> if k < 2 ^ n then Some (word_of_nat k) else None | None \<Rightarrow> None),
      cl_float = (\<lambda>_. None), cl_ieq = (=)\<rparr>"

lemma tokens_blank: "list_all blank b \<Longrightarrow> tokens k (b @ s) = tokens k s"
  by (induction b) (auto simp: blank_def)

lemma tokens_word:
  assumes "word_ok w" and "list_all blank b" and "b = [] \<Longrightarrow> \<exists>r. s = CHR 0x0D # r"
  shows "tokens k (word_text w @ b @ s) = word_tok k w # tokens (Suc k) s"
proof (cases w)
  case (Quoted t)
  then have q: "x \<in> set t \<Longrightarrow> x \<noteq> CHR 0x22" for x
    using assms(1) by (auto simp: list_all_iff quoted_char_def)
  have "takeWhile (\<lambda>x. x \<noteq> CHR 0x22) (t @ CHR 0x22 # b @ s) = t" "dropWhile (\<lambda>x. x \<noteq> CHR 0x22) (t @ CHR 0x22 # b @ s) = CHR 0x22 # b @ s"
    using q by (simp_all add: takeWhile_append dropWhile_append)
  then show ?thesis using tokens_blank [OF assms(2)] by (simp add: Quoted blank_def)
next
  case (Plain t)
  then obtain c cs where t: "t = c # cs" "plain_char c" "list_all plain_char cs" using assms(1) by (cases t) auto
  have n: "\<not> plain_char (hd (b @ s))" "b @ s \<noteq> []"
    using assms(2,3) by (cases b; auto simp: plain_char_def)+
  then obtain x r where bs: "b @ s = x # r" "\<not> plain_char x" by (cases "b @ s") auto
  have "takeWhile plain_char (cs @ b @ s) = cs" "dropWhile plain_char (cs @ b @ s) = b @ s"
    using t(3) bs by (auto simp: takeWhile_append dropWhile_append list_all_iff)
  moreover have "\<not> blank c" "c \<notin> {CHR 0x0D, CHR 0x0A, CHR 0x22, CHR ''#''}" using t(2) by (auto simp: plain_char_def)
  ultimately show ?thesis using tokens_blank [OF assms(2)] by (simp add: Plain t(1))
qed

lemma tokens_words:
  "words_ok ws \<Longrightarrow> tokens k (concat (map (\<lambda>(w, b). word_text w @ b) ws) @ CHR 0x0D # s) = words_toks k ws @ tokens (k + length ws) (CHR 0x0D # s)"
proof (induction ws arbitrary: k)
  case (Cons x ws)
  obtain w b where x: "x = (w, b)" by fastforce
  have "tokens k (word_text w @ b @ concat (map (\<lambda>(w, b). word_text w @ b) ws) @ CHR 0x0D # s) =
      word_tok k w # tokens (Suc k) (concat (map (\<lambda>(w, b). word_text w @ b) ws) @ CHR 0x0D # s)"
    using Cons.prems by (intro tokens_word) (auto simp: x)
  then show ?case using Cons.IH [of "Suc k"] Cons.prems by (simp add: x)
qed simp

lemma tokens_line: "line_ok l \<Longrightarrow> tokens 0 (line_text l @ s) = line_toks l @ tokens 0 s"
proof (cases l)
  case (Words i ws)
  moreover assume "line_ok l"
  ultimately show ?thesis using tokens_blank [of i] tokens_words [of ws 0 "CHR 0x0A # s"] by (simp add: blank_def)
next
  case (Comment c)
  moreover assume "line_ok l"
  ultimately have "dropWhile (\<lambda>x. x \<noteq> CHR 0x0A) (c @ [CHR 0x0D, CHR 0x0A] @ s) = CHR 0x0A # s"
    by (subst dropWhile_append2) auto
  then show ?thesis by (simp add: Comment blank_def)
qed

lemma tokens_kinds: "t \<in> set (tokens k s) \<Longrightarrow> fst t \<in> {CKey, CVal, CValNext}"
  by (induction k s rule: tokens.induct) (auto simp: tok_kind_def split: if_splits)

lemma ref_conf_reads: "(\<And>t. t \<in> set ts \<Longrightarrow> fst t \<notin> {CMore, CError}) \<Longrightarrow> reads ref_conf ts ts CMore"
  by (induction ts) (auto simp: ref_conf_def)

lemma ref_conf_tokens: "cl_open ref_conf = tokens 0" "reads ref_conf (tokens 0 d) (tokens 0 d) CMore"
  using tokens_kinds [of _ 0 d] by (fastforce simp: ref_conf_def [THEN arg_cong [where f = cl_open]] intro!: ref_conf_reads)+

lemma ref_conf_ok: "conf_ok ref_conf"
proof -
  have "\<forall>l \<in> set ls. line_ok l \<Longrightarrow> tokens 0 (concat (map line_text ls)) = concat (map line_toks ls)" for ls
    by (induction ls) (simp_all add: tokens_line)
  moreover have "reads ref_conf (tokens 0 d) (tokens 0 d) CMore" for d
    using tokens_kinds [of _ 0 d] by (intro ref_conf_reads) fastforce
  moreover have "cl_open ref_conf = tokens 0" by (simp add: ref_conf_def)
  ultimately show ?thesis unfolding conf_ok_def by metis
qed

section \<open>Properties\<close>

text \<open>C28. Reading a finite text with a scheme whose handlers keep their promises always returns, and never uses an
  empty stack of contexts; the code is 0 exactly when there is no message, and only for a text without a parser error
  whose braces match.\<close>

theorem conf_parse_returns:
  assumes "env_ok E" and "reads L (cl_open L d) ts e"
  shows "\<exists>r m w'. conf_parse_object L E args obj d icase w = Some (r, m, w') \<and> (r = 0 \<longleftrightarrow> m = None) \<and>
    (r = 0 \<longrightarrow> e = CMore \<and> braces 0 ts = Some 0)"
proof -
  have "scheme_ok E 0 (scheme_init icase args obj)" by (simp add: scheme_ok_def scheme_init_def scheme_addctx_def)
  then obtain r n cs w' where c: "conf_words L E ts e 0 (scheme_init icase args obj) w = Some (r, n, cs, w')"
    using conf_words_returns [OF assms(1)] by (metis option.exhaust prod_cases4)
  define r' where "r' = (if r = 0 \<and> n \<noteq> 0 then - FFCONF_ECTX else r)"
  have "map_option (\<lambda>(r, m, w). (r, m = None, w)) (conf_parse_object L E args obj d icase w) = Some (r', r' = 0, w')"
    using conf_parse_words [OF assms(2), of E args obj icase w] by (simp add: c Let_def r'_def)
  then obtain m where "conf_parse_object L E args obj d icase w = Some (r', m, w')" "(m = None) = (r' = 0)" by auto
  moreover have "e \<in> {CMore, CError}" using assms(2) by (rule reads_end)
  moreover have "r' = 0 \<Longrightarrow> r = 0 \<and> n = 0" by (auto simp: r'_def FFCONF_ECTX_def split: if_splits)
  ultimately show ?thesis using conf_words_accepts [OF c] by auto
qed

primrec cval_nat :: "cval \<Rightarrow> nat" where
  "cval_nat (VStr s) = 0"
| "cval_nat (VSz s) = 0"
| "cval_nat (V64 x) = unat x"
| "cval_nat (V32 x) = unat x"
| "cval_nat (V16 x) = unat x"
| "cval_nat (V8 x) = unat x"
| "cval_nat (VF32 x) = 0"
| "cval_nat (VF64 x) = 0"

lemma push_bit_nat_eq: "push_bit k (n :: nat) = n * 2 ^ k"
  by (rule push_bit_eq_mult)

lemma int_field_nat: "cval_nat (int_field f i) = unat i mod 2 ^ int_width f"
  using unsigned_less [where ?'b = 64 and ?'a = nat, of i] by (simp add: int_field_def int_width_def unsigned_ucast_eq take_bit_eq_mod)

text \<open>C29. What is stored for an unsigned number with a size suffix is the product with the multiplier cut to the width of
  the field: exact when it fits, wrapped without an error when it does not, also for a key that must not be zero.\<close>

theorem conf_size_stored:
  assumes "ar_flags arg AND 0x0f = FFCONF_TSIZE" and "\<not> has (ar_flags arg) FFCONF_FSIGN" and "ar_dst arg = Field off"
    and "ds \<noteq> []" and "conf_sizesfx c = k" and "k \<noteq> 0" and "cl_toint L ds (int_width (ar_flags arg)) False = Some n"
    and "has (ar_flags arg) FFCONF_FNOTZERO \<Longrightarrow> unat n * 2 ^ k mod 2 ^ 64 \<noteq> 0"
  shows "\<exists>v. conf_value L E (Some arg) obj (ds @ [c]) False r cs w = Some (r, cs, set_field obj off v w) \<and>
    cval_nat v = unat n * 2 ^ k mod 2 ^ int_width (ar_flags arg)"
proof -
  have u: "unat (push_bit k n) = unat n * 2 ^ k mod 2 ^ 64"
    by (simp add: unsigned_push_bit_eq take_bit_eq_mod push_bit_nat_eq)
  have "has (ar_flags arg) FFCONF_FNOTZERO \<Longrightarrow> push_bit k n \<noteq> 0"
    using assms(8) u by (metis unat_eq_zero)
  then have "conf_value L E (Some arg) obj (ds @ [c]) False r cs w =
      Some (r, cs, set_field obj off (int_field (ar_flags arg) (push_bit k n)) w)"
    using assms(1-7) by (cases ds) (auto simp: conf_value_def conf_int_def Let_def put_value_def conf_flag_defs)
  moreover have "unat (push_bit k n) mod 2 ^ int_width (ar_flags arg) = unat n * 2 ^ k mod 2 ^ int_width (ar_flags arg)"
    unfolding u by (rule mod_mod_cancel) (simp add: int_width_def le_imp_power_dvd)
  ultimately show ?thesis by (auto simp: int_field_nat)
qed

text \<open>A client with the object \<open>b { n NUMBER }\<close>; the number is a 32-bit size that must not be zero.\<close>

definition size_key :: "bool conf_arg" where
  "size_key = \<lparr>ar_name = ''n'', ar_flags = FFCONF_TSIZE OR FFCONF_F32BIT OR FFCONF_FNOTZERO, ar_dst = Field 8\<rparr>"

definition size_env :: "(bool, unit, bool, nat) schemeenv" where
  "size_env =
     \<lparr>sv_table = (\<lambda>inner.
        \<lparr>tb_args = [if inner then size_key else \<lparr>ar_name = ''b'', ar_flags = FFCONF_TOBJ, ar_dst = Handler True\<rparr>],
         tb_end = \<lparr>ar_name = [], ar_flags = 0, ar_dst = Handler False\<rparr>\<rparr>),
      sv_call = (\<lambda>d obj h cs w. Some (0, if d \<and> h = HNone then scheme_addctx True () cs else cs, w))\<rparr>"

definition size_world :: "(unit, nat) cworld" where
  "size_world = \<lparr>cw_fields = \<lambda>_ _. None, cw_user = 0\<rparr>"

theorem conf_size_stored_witness:
  "\<exists>v. conf_value ref_conf size_env (Some size_key) () ''4g'' False 2 (scheme_init False True ()) size_world =
     Some (2, scheme_init False True (), set_field () 8 v size_world) \<and> cval_nat v = 0"
  using conf_size_stored [of size_key 8 "''4''" "CHR ''g''" 30 ref_conf 4 size_env "()" 2 "scheme_init False True ()" size_world]
  by (simp add: size_key_def conf_flag_defs has_def conf_sizesfx_def ref_conf_def dec_of_def int_width_def)

end
