(* ===== verification/SnapProps.thy ===== *)
theory SnapProps
  imports Snap ConfProps
begin

text \<open>
  Reading a snapshot file back: the text the writer makes for a list of branches has the documented form of a
  configuration text, and reading it makes exactly the calls that build those branches again.
\<close>

section \<open>The text of a snapshot\<close>

type_synonym branch = "bytes \<times> ent list"

definition branch_text :: "textlib \<Rightarrow> branch \<Rightarrow> bytes" where
  "branch_text T b = wsnap_bhdr (fst b) @ concat (map (wsnap_ent_serialize T) (snd b)) @ wsnap_bftr"

definition snap_text :: "textlib \<Rightarrow> branch list \<Rightarrow> bytes" where
  "snap_text T bs = wsnap_hdr @ concat (map (branch_text T) bs)"

text \<open>What building the branches amounts to.\<close>

definition rs_set_ent :: "ent \<Rightarrow> ('t, 'b, 'e, 'c) rsnap \<Rightarrow> ('t, 'b, 'e, 'c) rsnap" where
  "rs_set_ent e sr = sr\<lparr>rs_ent := \<lparr>et_type = et_type (rs_ent sr), et_name = et_name e, et_d = et_d e\<rparr>\<rparr>"

fun load_ents :: "('t, 'b, 'e, 'c) fntree \<Rightarrow> ent list \<Rightarrow> ('t, 'b, 'e, 'c) rsnap \<Rightarrow> ('t, 'b, 'e, 'c) rsnap option" where
  "load_ents F [] sr = Some sr"
| "load_ents F (e # es) sr = Option.bind (rsnap_add F (rs_set_ent e sr)) (\<lambda>(r, sr). load_ents F es sr)"

fun load_branches :: "('t, 'b, 'e, 'c) fntree \<Rightarrow> branch list \<Rightarrow> ('t, 'b, 'e, 'c) rs_call" where
  "load_branches F [] sr = Some (0, sr)"
| "load_branches F ((path, es) # bs) sr =
     Option.bind (rsnap_branch F path sr)
       (\<lambda>(r, sr). if r \<noteq> 0 then Some (- r, sr)
          else Option.bind (load_ents F es sr)
            (\<lambda>sr. Option.bind (rsnap_branch_close F sr) (\<lambda>(r, sr). load_branches F bs sr)))"

section \<open>Documented behaviour of numbers and dates\<close>

definition plain_text :: "bytes \<Rightarrow> bool" where
  "plain_text s \<longleftrightarrow> s \<noteq> [] \<and> list_all (\<lambda>c. plain_char c \<and> c \<noteq> CHR ''{'') s"

definition times_ok :: "textlib \<Rightarrow> bool" where
  "times_ok T \<longleftrightarrow>
     (\<forall>dt. plain_text (tl_date_out T dt) \<and> plain_text (tl_time_out T dt)) \<and>
     (\<forall>dt s. \<exists>d. tl_date_in T (tl_date_out T dt @ ''+'' @ s) = (length (tl_date_out T dt), d) \<and> dt_ymd d = dt_ymd dt) \<and>
     (\<forall>dt. dt_nsec dt mod 1000000 = 0 \<longrightarrow>
        (\<exists>n d. tl_time_in T (tl_time_out T dt) = (n, d) \<and> n \<noteq> 0 \<and> dt_hour d = dt_hour dt \<and> dt_minute d = dt_minute dt \<and>
           dt_second d = dt_second dt \<and> dt_nsec d = dt_nsec dt)) \<and>
     (\<forall>t. dt_nsec (tl_split T t) = snd t \<and> tl_join T (tl_split T t) = t)"

definition numbers_ok :: "textlib \<Rightarrow> bool" where
  "numbers_ok T \<longleftrightarrow>
     (\<forall>n. plain_text (tl_dec T n)) \<and> (\<forall>n < 2 ^ 64. tl_to_uint64 T (tl_dec T n) = Some n) \<and>
     (\<forall>x. tl_to_uint32 T (tl_dec T (unat x)) = Some x) \<and> (\<forall>x. plain_text (tl_hex T x)) \<and>
     (\<forall>x y. tl_match_hex2 T (tl_hex T x @ ''/'' @ tl_hex T y) = Some (x, y)) \<and>
     (\<forall>x y. tl_match_dec2 T (tl_dec T (unat x) @ '':'' @ tl_dec T (unat y)) = Some (x, y))"

text \<open>Entries whose names need no escapes, with times in whole milliseconds (as the scan makes them).\<close>

definition ent_ok :: "ent \<Rightarrow> bool" where
  "ent_ok e \<longleftrightarrow> et_type e \<in> {CHR ''f'', CHR ''d''} \<and> list_all quoted_char (et_name e) \<and>
     se_size (et_d e) < 2 ^ 64 \<and> snd (mtime (et_d e)) mod 1000000 = 0"

definition branch_ok :: "branch \<Rightarrow> bool" where
  "branch_ok b \<longleftrightarrow> list_all quoted_char (fst b) \<and> list_all ent_ok (snd b)"

lemma plain_text_append: "plain_text a \<Longrightarrow> list_all (\<lambda>c. plain_char c \<and> c \<noteq> CHR ''{'') m \<Longrightarrow> plain_text b \<Longrightarrow> plain_text (a @ m @ b)"
  by (simp add: plain_text_def)

lemma plain_text_ok: "plain_text s \<Longrightarrow> word_ok (Plain s) \<and> s \<noteq> ''{''"
proof -
  assume s: "plain_text s"
  then have "word_ok (Plain s)" by (simp add: plain_text_def list_all_iff)
  moreover have "s = ''{'' \<Longrightarrow> False" using s by (simp add: plain_text_def)
  ultimately show ?thesis by blast
qed

lemma rsnap_time_back:
  assumes "times_ok T" and "snd t mod 1000000 = 0"
  shows "rsnap_time T (tl_date_out T (tl_split T t) @ ''+'' @ tl_time_out T (tl_split T t)) = Some t"
proof -
  define dt where "dt = tl_split T t"
  obtain d where d: "tl_date_in T (tl_date_out T dt @ ''+'' @ tl_time_out T dt) = (length (tl_date_out T dt), d)" "dt_ymd d = dt_ymd dt"
    using assms(1) unfolding times_ok_def by blast
  have b: "dt_nsec dt = snd t" "tl_join T dt = t" "plain_text (tl_date_out T dt)"
    using assms(1) unfolding times_ok_def dt_def by blast+
  then have "dt_nsec dt mod 1000000 = 0" using assms(2) by simp
  then obtain n d2 where n: "tl_time_in T (tl_time_out T dt) = (n, d2)" "n \<noteq> 0" "dt_hour d2 = dt_hour dt" "dt_minute d2 = dt_minute dt"
      "dt_second d2 = dt_second dt" "dt_nsec d2 = dt_nsec dt"
    using assms(1) unfolding times_ok_def by metis
  have "tl_date_out T dt \<noteq> []" using b(3) by (simp add: plain_text_def)
  moreover have "d\<lparr>dt_hour := dt_hour d2, dt_minute := dt_minute d2, dt_second := dt_second d2, dt_nsec := dt_nsec d2\<rparr> = dt"
    using d(2) n(3-6) by (cases d; cases dt) simp
  ultimately show ?thesis using d(1) n(1,2) b(2) by (simp add: rsnap_time_def Let_def nth_append flip: dt_def)
qed

section \<open>The lines\<close>

definition num_words :: "textlib \<Rightarrow> sync_entry \<Rightarrow> bytes list" where
  "num_words T d =
     [tl_dec T (se_size d), tl_hex T (unix_attr d) @ ''/'' @ tl_hex T (win_attr d),
      tl_dec T (unat (se_uid d)) @ '':'' @ tl_dec T (unat (se_gid d)),
      tl_date_out T (tl_split T (mtime d)) @ ''+'' @ tl_time_out T (tl_split T (mtime d)), tl_dec T (unat (crc32 d))]"

definition ent_line :: "textlib \<Rightarrow> ent \<Rightarrow> cline" where
  "ent_line T e =
     (let ws = num_words T (et_d e); tab = [CHR 0x09]
      in Words tab [(Plain [et_type e], '' ''), (Quoted (et_name e), tab), (Plain (ws ! 0), tab), (Plain (ws ! 1), tab),
                    (Plain (ws ! 2), tab), (Plain (ws ! 3), tab), (Plain (ws ! 4), [])])"

definition branch_lines :: "textlib \<Rightarrow> branch \<Rightarrow> cline list" where
  "branch_lines T b =
     [Words [] [(Plain ''b'', '' ''), (Quoted (fst b), '' ''), (Plain ''{'', [])], Words [CHR 0x09] [(Plain ''v'', '' ''), (Plain ''1'', [])]] @
     map (ent_line T) (snd b) @ [Words [] [(Plain ''}'', [])], Words [] []]"

definition snap_lines :: "textlib \<Rightarrow> branch list \<Rightarrow> cline list" where
  "snap_lines T bs = [Comment '' fcom file tree snapshot'', Words [] []] @ concat (map (branch_lines T) bs)"

lemma ent_line_text: "line_text (ent_line T e) = wsnap_ent_serialize T e"
  by (simp add: ent_line_def wsnap_ent_serialize_def num_words_def Let_def)

lemma branch_lines_text: "concat (map line_text (branch_lines T b)) = branch_text T b"
  by (simp add: branch_lines_def branch_text_def wsnap_bhdr_def wsnap_bftr_def ent_line_text comp_def)

lemma snap_lines_text: "concat (map line_text (snap_lines T bs)) = snap_text T bs"
proof -
  have "concat (map line_text (concat (map (branch_lines T) bs))) = concat (map (branch_text T) bs)"
    by (induction bs) (simp_all add: branch_lines_text)
  then show ?thesis by (simp add: snap_lines_def snap_text_def wsnap_hdr_def)
qed

lemma num_words_plain: "numbers_ok T \<Longrightarrow> times_ok T \<Longrightarrow> list_all plain_text (num_words T d)"
proof -
  assume a: "numbers_ok T" "times_ok T"
  have n: "plain_text (tl_dec T n)" "plain_text (tl_hex T x)" for n x using a(1) unfolding numbers_ok_def by blast+
  have t: "plain_text (tl_date_out T dt)" "plain_text (tl_time_out T dt)" for dt using a(2) unfolding times_ok_def by blast+
  have "plain_text (tl_hex T x @ ''/'' @ tl_hex T y)" "plain_text (tl_dec T m @ '':'' @ tl_dec T k)"
    "plain_text (tl_date_out T dt @ ''+'' @ tl_time_out T dt)" for x y m k dt
    using n t by (intro plain_text_append; simp add: plain_char_def blank_def)+
  then show ?thesis using n by (simp add: num_words_def)
qed

lemma ent_line_ok:
  assumes "numbers_ok T" and "times_ok T" and "ent_ok e"
  shows "line_ok (ent_line T e)"
proof -
  have "word_ok (Plain (num_words T (et_d e) ! i))" if "i < 5" for i
    using num_words_plain [OF assms(1,2), of "et_d e"] that plain_text_ok by (simp add: list_all_length num_words_def del: word_ok.simps)
  from this [of 0] this [of 1] this [of 2] this [of 3] this [of 4] assms(3) show ?thesis
    by (auto simp: ent_line_def Let_def blank_def ent_ok_def plain_char_def simp del: word_ok.simps(2) intro: word_ok.simps(2) [THEN iffD2])
qed

lemma snap_lines_ok:
  assumes "numbers_ok T" and "times_ok T" and "list_all branch_ok bs"
  shows "\<forall>l \<in> set (snap_lines T bs). line_ok l"
proof -
  have "line_ok l" if "b \<in> set bs" "l \<in> set (branch_lines T b)" for b l
  proof -
    have "branch_ok b" using assms(3) that(1) by (simp add: list_all_iff)
    then show ?thesis using that(2) ent_line_ok [OF assms(1,2)]
      by (auto simp: branch_lines_def branch_ok_def list_all_iff plain_char_def blank_def)
  qed
  then show ?thesis by (auto simp: snap_lines_def blank_def)
qed

section \<open>Reading the words\<close>

definition file_arg :: "char \<Rightarrow> rs_handler conf_arg" where
  "file_arg c = \<lparr>ar_name = [c], ar_flags = FFCONF_TSTR OR FFCONF_FLIST OR FFCONF_FMULTI, ar_dst = Handler HFile\<rparr>"

text \<open>Inside a branch.\<close>

definition in_branch :: "(rs_table, unit, rs_handler) scheme \<Rightarrow> bool" where
  "in_branch cs \<longleftrightarrow> \<not> cs_icase cs \<and> (\<exists>u v. cs_ctxs cs = [Ctx TBranch () u, Ctx TRoot () v])"

lemma find_upt3: "List.find P [0..<3] = (if P 0 then Some 0 else if P 1 then Some 1 else if P 2 then Some 2 else None)"
  by (simp add: numeral_3_eq_3 numeral_2_eq_2)

lemma branch_key:
  assumes "in_branch cs" and "c \<in> {CHR ''f'', CHR ''d''}"
  shows "\<exists>cs'. in_branch cs' \<and> cs_arg cs' = Some (file_arg c) \<and>
    scheme_process L (rs_env F T) [c] RKey cs w = Some (1, cs', w)"
  using assms
  by (auto simp: in_branch_def scheme_process_def conf_key_def rs_env_def rs_table_of_def conf_arg_find_def
      find_upt3 Let_def conf_flag_defs has_def file_arg_def numeral_3_eq_3 [symmetric])

lemma branch_value:
  assumes "in_branch cs" and "cs_arg cs = Some (file_arg c)" and "r \<in> {RVal, RValNext}"
  shows "scheme_process L (rs_env F T) v r cs w =
    map_option (\<lambda>(x, sr). (if x \<noteq> 0 then - x else r_code r, cs, w\<lparr>cw_user := sr\<rparr>)) (rsnap_file F T v (cw_user w))"
  using assms
  by (auto simp: in_branch_def scheme_process_def file_arg_def conf_flag_defs has_def conf_value_def put_value_def
      rs_env_def map_option_case split: option.splits)

lemma words_key:
  assumes "in_branch cs" and "c \<in> {CHR ''f'', CHR ''d''}"
  shows "\<exists>cs'. in_branch cs' \<and> cs_arg cs' = Some (file_arg c) \<and>
    conf_words L (rs_env F T) ((CKey, [c], False) # ts) x n cs w = conf_words L (rs_env F T) ts x n cs' w"
proof -
  have "tok_step n (CKey, [c], False) = Some (RKey, n)" using assms(2) by (auto simp: tok_step_def)
  with branch_key [OF assms, of L F T w] show ?thesis by fastforce
qed

lemma words_value:
  assumes "in_branch cs" and "cs_arg cs = Some (file_arg c)" and "k \<in> {CVal, CValNext}" and "q \<or> v \<noteq> ''{''"
    and "rsnap_file F T v (cw_user w) = Some (0, sr)"
  shows "conf_words L (rs_env F T) ((k, v, q) # ts) x n cs w = conf_words L (rs_env F T) ts x n cs (w\<lparr>cw_user := sr\<rparr>)"
proof -
  obtain r where r: "tok_step n (k, v, q) = Some (r, n)" "r \<in> {RVal, RValNext}" "0 < r_code r"
    using assms(3,4) by (auto simp: tok_step_def)
  show ?thesis using branch_value [OF assms(1,2) r(2), of L F T v w] r(1,3) assms(5) by simp
qed

lemma words_crash:
  assumes "in_branch cs" and "cs_arg cs = Some (file_arg c)" and "k \<in> {CVal, CValNext}" and "q \<or> v \<noteq> ''{''"
    and "rsnap_file F T v (cw_user w) = None"
  shows "conf_words L (rs_env F T) ((k, v, q) # ts) x n cs w = None"
proof -
  obtain r where r: "tok_step n (k, v, q) = Some (r, n)" "r \<in> {RVal, RValNext}"
    using assms(3,4) by (auto simp: tok_step_def)
  show ?thesis using branch_value [OF assms(1,2) r(2), of L F T v w] r(1) assms(5) by simp
qed

lemma rsnap_add_code: "rsnap_add F sr = Some (r, sr') \<Longrightarrow> r = 0 \<and> rs_state sr' = 0 \<and> et_name (rs_ent sr') = []"
  by (auto simp: rsnap_add_def split: prod.splits option.splits)

text \<open>The object after \<open>k\<close> values, with the name and the data read.\<close>

definition rs_put :: "nat \<Rightarrow> bytes \<Rightarrow> sync_entry \<Rightarrow> ('t, 'b, 'e, 'c) rsnap \<Rightarrow> ('t, 'b, 'e, 'c) rsnap" where
  "rs_put k n d sr = sr\<lparr>rs_state := k, rs_ent := \<lparr>et_type = et_type (rs_ent sr), et_name = n, et_d = d\<rparr>\<rparr>"

lemma rs_put_sel [simp]: "rs_state (rs_put k n d sr) = k" "rs_ent (rs_put k n d sr) = \<lparr>et_type = et_type (rs_ent sr), et_name = n, et_d = d\<rparr>"
  by (simp_all add: rs_put_def)

lemma rs_put_upd: "(rs_put k n d sr)\<lparr>rs_state := m\<rparr> = rs_put m n d sr" "rs_upd f (rs_put k n d sr) = rs_put k n (f d) sr"
  by (simp_all add: rs_put_def rs_upd_def)

lemma rsnap_file_0: "rs_state sr = 0 \<Longrightarrow> rsnap_file F T v sr = Some (0, rs_put 1 v (et_d (rs_ent sr)) sr)"
  by (cases "rs_ent sr") (simp add: rsnap_file_def Let_def rs_put_def)

lemma rsnap_file_1: "tl_to_uint64 T v = Some x \<Longrightarrow> rsnap_file F T v (rs_put 1 n d sr) = Some (0, rs_put 2 n (d\<lparr>se_size := x\<rparr>) sr)"
  by (simp add: rsnap_file_def Let_def rs_put_upd numeral_2_eq_2)

lemma rsnap_file_2: "tl_match_hex2 T v = Some (x, y) \<Longrightarrow>
  rsnap_file F T v (rs_put 2 n d sr) = Some (0, rs_put 4 n (d\<lparr>unix_attr := x, win_attr := y\<rparr>) sr)"
  by (simp add: rsnap_file_def Let_def rs_put_upd)

lemma rsnap_file_4: "tl_match_dec2 T v = Some (x, y) \<Longrightarrow>
  rsnap_file F T v (rs_put 4 n d sr) = Some (0, rs_put 6 n (d\<lparr>se_uid := x, se_gid := y\<rparr>) sr)"
  by (simp add: rsnap_file_def Let_def rs_put_upd)

lemma rsnap_file_6: "rsnap_time T v = Some x \<Longrightarrow> rsnap_file F T v (rs_put 6 n d sr) = Some (0, rs_put 7 n (d\<lparr>mtime := x\<rparr>) sr)"
  by (simp add: rsnap_file_def Let_def rs_put_upd)

lemma rsnap_file_7: "tl_to_uint32 T v = Some x \<Longrightarrow>
  rsnap_file F T v (rs_put 7 n d sr) = rsnap_add F (sr\<lparr>rs_ent := \<lparr>et_type = et_type (rs_ent sr), et_name = n, et_d = d\<lparr>crc32 := x\<rparr>\<rparr>\<rparr>)"
  by (simp add: rsnap_file_def Let_def rs_put_upd) (simp add: rs_put_def rsnap_add_def Let_def split: prod.split option.split)

text \<open>The values of an entry, one after the other.\<close>

lemma file_values:
  assumes "numbers_ok T" and "times_ok T" and "ent_ok e" and "rs_state sr = 0"
  shows "\<exists>s1 s2 s3 s4 s5. rsnap_file F T (et_name e) sr = Some (0, s1) \<and>
    rsnap_file F T (num_words T (et_d e) ! 0) s1 = Some (0, s2) \<and>
    rsnap_file F T (num_words T (et_d e) ! 1) s2 = Some (0, s3) \<and>
    rsnap_file F T (num_words T (et_d e) ! 2) s3 = Some (0, s4) \<and>
    rsnap_file F T (num_words T (et_d e) ! 3) s4 = Some (0, s5) \<and>
    rsnap_file F T (num_words T (et_d e) ! 4) s5 = rsnap_add F (rs_set_ent e sr)"
proof -
  define d where "d = et_d e"
  have n: "tl_to_uint64 T (tl_dec T (se_size d)) = Some (se_size d)" "tl_to_uint32 T (tl_dec T (unat (crc32 d))) = Some (crc32 d)"
    "tl_match_hex2 T (tl_hex T (unix_attr d) @ ''/'' @ tl_hex T (win_attr d)) = Some (unix_attr d, win_attr d)"
    "tl_match_dec2 T (tl_dec T (unat (se_uid d)) @ '':'' @ tl_dec T (unat (se_gid d))) = Some (se_uid d, se_gid d)"
    using assms(1,3) by (auto simp: numbers_ok_def ent_ok_def d_def)
  have t: "rsnap_time T (tl_date_out T (tl_split T (mtime d)) @ ''+'' @ tl_time_out T (tl_split T (mtime d))) = Some (mtime d)"
    using rsnap_time_back [OF assms(2)] assms(3) by (simp add: ent_ok_def d_def)
  define d0 where "d0 = et_d (rs_ent sr)"
  have "rsnap_file F T (et_name e) sr = Some (0, rs_put 1 (et_name e) d0 sr)"
    using assms(4) by (simp add: rsnap_file_0 d0_def)
  moreover have "rsnap_file F T (num_words T d ! 0) (rs_put 1 (et_name e) d0 sr) = Some (0, rs_put 2 (et_name e) (d0\<lparr>se_size := se_size d\<rparr>) sr)"
    using rsnap_file_1 [OF n(1), of F "et_name e" d0 sr] by (simp add: num_words_def)
  moreover have "rsnap_file F T (num_words T d ! 1) (rs_put 2 (et_name e) (d0\<lparr>se_size := se_size d\<rparr>) sr) =
      Some (0, rs_put 4 (et_name e) (d0\<lparr>se_size := se_size d, unix_attr := unix_attr d, win_attr := win_attr d\<rparr>) sr)"
    unfolding num_words_def nth_Cons_Suc nth_Cons_0 One_nat_def by (rule rsnap_file_2 [OF n(3)])
  moreover have "rsnap_file F T (num_words T d ! 2) (rs_put 4 (et_name e) (d0\<lparr>se_size := se_size d, unix_attr := unix_attr d, win_attr := win_attr d\<rparr>) sr) =
      Some (0, rs_put 6 (et_name e) (d\<lparr>mtime := mtime d0, crc32 := crc32 d0\<rparr>) sr)"
    using rsnap_file_4 [OF n(4), of F "et_name e" "d0\<lparr>se_size := se_size d, unix_attr := unix_attr d, win_attr := win_attr d\<rparr>" sr]
    by (cases d; cases d0) (simp add: num_words_def)
  moreover have "rsnap_file F T (num_words T d ! 3) (rs_put 6 (et_name e) (d\<lparr>mtime := mtime d0, crc32 := crc32 d0\<rparr>) sr) =
      Some (0, rs_put 7 (et_name e) (d\<lparr>crc32 := crc32 d0\<rparr>) sr)"
    using rsnap_file_6 [OF t, of F "et_name e" "d\<lparr>mtime := mtime d0, crc32 := crc32 d0\<rparr>" sr]
    by (cases d) (simp add: num_words_def)
  moreover have "rsnap_file F T (num_words T d ! 4) (rs_put 7 (et_name e) (d\<lparr>crc32 := crc32 d0\<rparr>) sr) = rsnap_add F (rs_set_ent e sr)"
    using rsnap_file_7 [OF n(2), of F "et_name e" "d\<lparr>crc32 := crc32 d0\<rparr>" sr] by (cases e) (simp add: num_words_def rs_set_ent_def d_def)
  ultimately show ?thesis unfolding d_def by blast
qed

lemma words_entry:
  assumes "numbers_ok T" and "times_ok T" and "ent_ok e" and "rs_state (cw_user w) = 0" and "in_branch cs"
  shows "\<exists>cs'. in_branch cs' \<and>
    conf_words L (rs_env F T) (line_toks (ent_line T e) @ ts) x n cs w =
      Option.bind (rsnap_add F (rs_set_ent e (cw_user w))) (\<lambda>(r, sr). conf_words L (rs_env F T) ts x n cs' (w\<lparr>cw_user := sr\<rparr>))"
proof -
  define N where "N = num_words T (et_d e)"
  have tk: "line_toks (ent_line T e) @ ts = (CKey, [et_type e], False) # (CVal, et_name e, True) # (CValNext, N ! 0, False) #
      (CValNext, N ! 1, False) # (CValNext, N ! 2, False) # (CValNext, N ! 3, False) # (CValNext, N ! 4, False) # ts"
    by (simp add: ent_line_def Let_def tok_kind_def N_def)
  have p: "i < 5 \<Longrightarrow> N ! i \<noteq> ''{''" for i
    using num_words_plain [OF assms(1,2), of "et_d e"] plain_text_ok by (simp add: list_all_length N_def num_words_def)
  obtain s1 s2 s3 s4 s5 where f: "rsnap_file F T (et_name e) (cw_user w) = Some (0, s1)"
      "rsnap_file F T (N ! 0) s1 = Some (0, s2)" "rsnap_file F T (N ! 1) s2 = Some (0, s3)"
      "rsnap_file F T (N ! 2) s3 = Some (0, s4)" "rsnap_file F T (N ! 3) s4 = Some (0, s5)"
      "rsnap_file F T (N ! 4) s5 = rsnap_add F (rs_set_ent e (cw_user w))"
    using file_values [OF assms(1-4)] unfolding N_def by blast
  have "et_type e \<in> {CHR ''f'', CHR ''d''}" using assms(3) by (simp add: ent_ok_def)
  from words_key [OF assms(5) this] obtain cs' where cs: "in_branch cs'" "cs_arg cs' = Some (file_arg (et_type e))" and
    k: "conf_words L (rs_env F T) (line_toks (ent_line T e) @ ts) x n cs w =
      conf_words L (rs_env F T) ((CVal, et_name e, True) # (CValNext, N ! 0, False) #
      (CValNext, N ! 1, False) # (CValNext, N ! 2, False) # (CValNext, N ! 3, False) # (CValNext, N ! 4, False) # ts) x n cs' w"
    unfolding tk by meson
  note V = words_value [OF cs]
  have v: "conf_words L (rs_env F T) (line_toks (ent_line T e) @ ts) x n cs w =
      conf_words L (rs_env F T) ((CValNext, N ! 4, False) # ts) x n cs' (w\<lparr>cw_user := s5\<rparr>)"
    unfolding k using f(1-5) p by (simp add: V del: conf_words.simps)
  show ?thesis
  proof (cases "rsnap_add F (rs_set_ent e (cw_user w))")
    case None
    have "conf_words L (rs_env F T) ((CValNext, N ! 4, False) # ts) x n cs' (w\<lparr>cw_user := s5\<rparr>) = None"
      using f(6) None p [of 4] by (intro words_crash [OF cs]) simp_all
    with None v cs show ?thesis by auto
  next
    case (Some y)
    obtain r sr where y: "y = (r, sr)" by fastforce
    have "r = 0" using rsnap_add_code Some y by blast
    then have "conf_words L (rs_env F T) ((CValNext, N ! 4, False) # ts) x n cs' (w\<lparr>cw_user := s5\<rparr>) =
        conf_words L (rs_env F T) ts x n cs' (w\<lparr>cw_user := sr\<rparr>)"
      using f(6) Some y p [of 4] by (subst V [where sr = sr]) simp_all
    with Some y v cs show ?thesis by auto
  qed
qed

lemma load_ents_state: "load_ents F es sr = Some sr' \<Longrightarrow> rs_state sr = 0 \<Longrightarrow> rs_state sr' = 0"
proof (induction es arbitrary: sr)
  case (Cons e es)
  then obtain r s1 where a: "rsnap_add F (rs_set_ent e sr) = Some (r, s1)" "load_ents F es s1 = Some sr'"
    by (auto split: bind_splits)
  with rsnap_add_code [OF a(1)] Cons.IH show ?case by blast
qed simp

lemma words_entries:
  assumes "numbers_ok T" and "times_ok T"
  shows "list_all ent_ok es \<Longrightarrow> rs_state (cw_user w) = 0 \<Longrightarrow> in_branch cs \<Longrightarrow>
    \<exists>cs'. in_branch cs' \<and>
      conf_words L (rs_env F T) (concat (map line_toks (map (ent_line T) es)) @ ts) x n cs w =
        Option.bind (load_ents F es (cw_user w)) (\<lambda>sr. conf_words L (rs_env F T) ts x n cs' (w\<lparr>cw_user := sr\<rparr>))"
proof (induction es arbitrary: cs w)
  case (Cons e es)
  obtain cs1 where c1: "in_branch cs1"
    "conf_words L (rs_env F T) (line_toks (ent_line T e) @ concat (map line_toks (map (ent_line T) es)) @ ts) x n cs w =
      Option.bind (rsnap_add F (rs_set_ent e (cw_user w)))
        (\<lambda>(r, sr). conf_words L (rs_env F T) (concat (map line_toks (map (ent_line T) es)) @ ts) x n cs1 (w\<lparr>cw_user := sr\<rparr>))"
    using words_entry [OF assms _ Cons.prems(2,3), of e L F "concat (map line_toks (map (ent_line T) es)) @ ts" x n] Cons.prems(1)
    by auto
  show ?case
  proof (cases "rsnap_add F (rs_set_ent e (cw_user w))")
    case None
    with c1 show ?thesis by auto
  next
    case (Some y)
    obtain r sr where y: "y = (r, sr)" by fastforce
    have "rs_state sr = 0" using rsnap_add_code Some y by blast
    then obtain cs2 where "in_branch cs2"
      "conf_words L (rs_env F T) (concat (map line_toks (map (ent_line T) es)) @ ts) x n cs1 (w\<lparr>cw_user := sr\<rparr>) =
        Option.bind (load_ents F es sr) (\<lambda>sr. conf_words L (rs_env F T) ts x n cs2 (w\<lparr>cw_user := sr\<rparr>))"
      using Cons.IH [of "w\<lparr>cw_user := sr\<rparr>" cs1] Cons.prems(1) c1(1) by auto
    with c1(2) Some y show ?thesis by auto
  qed
qed auto

text \<open>What reading a list of words comes to for the snapshot.\<close>

definition outcome :: "(int \<times> nat \<times> (rs_table, unit, rs_handler) scheme \<times> (unit, 'r) cworld) option \<Rightarrow> (int \<times> 'r) option" where
  "outcome = map_option (\<lambda>(r, n, cs, w). (if r = 0 \<and> n \<noteq> 0 then - FFCONF_ECTX else r, cw_user w))"

definition at_root :: "(rs_table, unit, rs_handler) scheme \<Rightarrow> bool" where
  "at_root cs \<longleftrightarrow> \<not> cs_icase cs \<and> (\<exists>v. cs_ctxs cs = [Ctx TRoot () v])"

definition fresh_branch :: "(rs_table, unit, rs_handler) scheme \<Rightarrow> bool" where
  "fresh_branch cs \<longleftrightarrow> \<not> cs_icase cs \<and> (\<exists>v. cs_ctxs cs = [Ctx TBranch () 0, Ctx TRoot () v])"

lemma rsnap_branch_code:
  assumes "rsnap_branch F path sr = Some (r, sr')"
  shows "r \<in> {0, BAD} \<and> rs_state sr' = rs_state sr"
  using assms by (auto simp: rsnap_branch_def Let_def split: prod.splits if_splits option.splits bind_splits)

lemma words_open:
  assumes "at_root cs"
  shows "\<exists>cs' cs2. fresh_branch cs' \<and>
    conf_words L (rs_env F T) ((CKey, ''b'', False) # (CVal, path, True) # (CValNext, ''{'', False) # ts) x 0 cs w =
      Option.bind (rsnap_branch F path (cw_user w))
        (\<lambda>(r, sr). if r \<noteq> 0 then Some (- r, 1, cs2, w\<lparr>cw_user := sr\<rparr>)
           else conf_words L (rs_env F T) ts x 1 cs' (w\<lparr>cw_user := sr\<rparr>))"
proof -
  obtain v where v: "cs_ctxs cs = [Ctx TRoot () v]" "\<not> cs_icase cs" using assms by (auto simp: at_root_def)
  define barg where "barg = \<lparr>ar_name = ''b'', ar_flags = FFCONF_TOBJ OR FFCONF_FMULTI, ar_dst = Handler HBranch\<rparr>"
  define c1 where "c1 = cs\<lparr>cs_arg := Some barg, cs_ctxs := [Ctx TRoot () (set_bit 0 v)]\<rparr>"
  define c2 where "c2 = c1\<lparr>cs_objval := path\<rparr>"
  have k: "scheme_process L (rs_env F T) ''b'' RKey cs w = Some (1, c1, w)"
    using v by (simp add: scheme_process_def conf_key_def rs_env_def rs_table_of_def conf_arg_find_def
        Let_def conf_flag_defs has_def c1_def barg_def)
  have o1: "scheme_process L (rs_env F T) path RVal c1 w = Some (2, c2, w)"
    by (simp add: scheme_process_def c1_def c2_def barg_def conf_value_def conf_flag_defs has_def)
  have o2: "scheme_process L (rs_env F T) ''{'' RObjOpen c2 w =
      Option.bind (rsnap_branch F path (cw_user w)) (\<lambda>(r, sr). if r \<noteq> 0 then Some (- r, c2, w\<lparr>cw_user := sr\<rparr>)
        else Some (4, (scheme_addctx TBranch () c2)\<lparr>cs_objval := [], cs_arg := None\<rparr>, w\<lparr>cw_user := sr\<rparr>))"
    by (cases "rsnap_branch F path (cw_user w)")
       (auto simp: scheme_process_def c1_def c2_def barg_def conf_obj_open_def conf_flag_defs rs_env_def scheme_addctx_def)
  show ?thesis
  proof (intro exI conjI)
    show "fresh_branch ((scheme_addctx TBranch () c2)\<lparr>cs_objval := [], cs_arg := None\<rparr>)"
      using v by (simp add: fresh_branch_def scheme_addctx_def c1_def c2_def)
    show "conf_words L (rs_env F T) ((CKey, ''b'', False) # (CVal, path, True) # (CValNext, ''{'', False) # ts) x 0 cs w =
      Option.bind (rsnap_branch F path (cw_user w))
        (\<lambda>(r, sr). if r \<noteq> 0 then Some (- r, 1, c2, w\<lparr>cw_user := sr\<rparr>)
           else conf_words L (rs_env F T) ts x 1 ((scheme_addctx TBranch () c2)\<lparr>cs_objval := [], cs_arg := None\<rparr>) (w\<lparr>cw_user := sr\<rparr>))"
      using rsnap_branch_code [of F path "cw_user w"]
      by (cases "rsnap_branch F path (cw_user w)") (auto simp: tok_step_def k o1 o2 BAD_def)
  qed
qed

lemma words_ver:
  assumes "fresh_branch cs"
  shows "\<exists>cs'. in_branch cs' \<and>
    conf_words L (rs_env F T) ((CKey, ''v'', False) # (CVal, ''1'', False) # ts) x n cs w = conf_words L (rs_env F T) ts x n cs' w"
proof -
  obtain v where u: "cs_ctxs cs = [Ctx TBranch () 0, Ctx TRoot () v]" "\<not> cs_icase cs"
    using assms by (auto simp: fresh_branch_def)
  define c1 where "c1 = cs\<lparr>cs_arg := Some \<lparr>ar_name = ''v'', ar_flags = FFCONF_TSTR, ar_dst = Handler HVer\<rparr>,
      cs_ctxs := [Ctx TBranch () (set_bit 0 0), Ctx TRoot () v]\<rparr>"
  have "scheme_process L (rs_env F T) ''v'' RKey cs w = Some (1, c1, w)"
    using u by (simp add: scheme_process_def conf_key_def rs_env_def rs_table_of_def conf_arg_find_def
        find_upt3 Let_def conf_flag_defs has_def c1_def numeral_3_eq_3 [symmetric])
  moreover have "scheme_process L (rs_env F T) ''1'' RVal c1 w = Some (2, c1, w)"
    by (simp add: scheme_process_def c1_def conf_value_def put_value_def conf_flag_defs has_def rs_env_def rsnap_ver_def)
  moreover have "in_branch c1" using u by (simp add: in_branch_def c1_def)
  ultimately show ?thesis by (intro exI [of _ c1]) (simp add: tok_step_def)
qed

lemma words_close:
  assumes "in_branch cs"
  shows "\<exists>cs'. at_root cs' \<and>
    conf_words L (rs_env F T) ((CKey, ''}'', False) # ts) x 1 cs w =
      Option.bind (rsnap_branch_close F (cw_user w)) (\<lambda>(r, sr). conf_words L (rs_env F T) ts x 0 cs' (w\<lparr>cw_user := sr\<rparr>))"
proof -
  obtain u v where u: "cs_ctxs cs = [Ctx TBranch () u, Ctx TRoot () v]" "\<not> cs_icase cs"
    using assms by (auto simp: in_branch_def)
  obtain sr where c: "rsnap_branch_close F (cw_user w) = Some (0, sr)" by (simp add: rsnap_branch_close_def)
  have "\<exists>cs'. at_root cs' \<and> scheme_process L (rs_env F T) ''}'' RObjClose cs w = Some (5, cs', w\<lparr>cw_user := sr\<rparr>)"
    using u c by (simp add: scheme_process_def conf_obj_close_def rs_env_def rs_table_of_def Let_def conf_flag_defs pop_ctx_def at_root_def)
  then show ?thesis using c by (auto simp: tok_step_def)
qed

lemma words_branch:
  assumes "numbers_ok T" and "times_ok T" and "branch_ok b" and "rs_state (cw_user w) = 0" and "at_root cs"
  shows "\<exists>cs' cs2. at_root cs' \<and>
    conf_words L (rs_env F T) (concat (map line_toks (branch_lines T b)) @ ts) x 0 cs w =
      Option.bind (rsnap_branch F (fst b) (cw_user w))
        (\<lambda>(r, sr). if r \<noteq> 0 then Some (- r, 1, cs2, w\<lparr>cw_user := sr\<rparr>)
           else Option.bind (load_ents F (snd b) sr)
            (\<lambda>sr. Option.bind (rsnap_branch_close F sr) (\<lambda>(r, sr). conf_words L (rs_env F T) ts x 0 cs' (w\<lparr>cw_user := sr\<rparr>))))"
proof -
  define Z where "Z = (CKey, ''}'', False) # ts"
  define Y where "Y = concat (map line_toks (map (ent_line T) (snd b))) @ Z"
  have tk: "concat (map line_toks (branch_lines T b)) @ ts =
      (CKey, ''b'', False) # (CVal, fst b, True) # (CValNext, ''{'', False) # (CKey, ''v'', False) # (CVal, ''1'', False) # Y"
    by (simp add: branch_lines_def tok_kind_def Y_def Z_def)
  obtain c1 c2 where c1: "fresh_branch c1" and o: "conf_words L (rs_env F T) (concat (map line_toks (branch_lines T b)) @ ts) x 0 cs w =
      Option.bind (rsnap_branch F (fst b) (cw_user w))
        (\<lambda>(r, sr). if r \<noteq> 0 then Some (- r, 1, c2, w\<lparr>cw_user := sr\<rparr>)
           else conf_words L (rs_env F T) ((CKey, ''v'', False) # (CVal, ''1'', False) # Y) x 1 c1 (w\<lparr>cw_user := sr\<rparr>))"
    using words_open [OF assms(5)] unfolding tk by blast
  have es: "list_all ent_ok (snd b)" using assms(3) by (simp add: branch_ok_def)
  show ?thesis
  proof (cases "\<exists>sr sr2. rsnap_branch F (fst b) (cw_user w) = Some (0, sr) \<and> load_ents F (snd b) sr = Some sr2")
    case True
    then obtain sr sr2 where s: "rsnap_branch F (fst b) (cw_user w) = Some (0, sr)" "load_ents F (snd b) sr = Some sr2" by blast
    have st: "rs_state sr = 0" using rsnap_branch_code [OF s(1)] assms(4) by simp
    obtain c3 where c3: "in_branch c3"
      "conf_words L (rs_env F T) ((CKey, ''v'', False) # (CVal, ''1'', False) # Y) x 1 c1 (w\<lparr>cw_user := sr\<rparr>) =
        conf_words L (rs_env F T) Y x 1 c3 (w\<lparr>cw_user := sr\<rparr>)"
      using words_ver [OF c1] by blast
    obtain c4 where c4: "in_branch c4"
      "conf_words L (rs_env F T) Y x 1 c3 (w\<lparr>cw_user := sr\<rparr>) = conf_words L (rs_env F T) Z x 1 c4 (w\<lparr>cw_user := sr2\<rparr>)"
      using words_entries [OF assms(1,2) es, of "w\<lparr>cw_user := sr\<rparr>" c3 L F Z x 1] st c3(1) s(2) by (auto simp: Y_def)
    obtain c5 where c5: "at_root c5" "conf_words L (rs_env F T) Z x 1 c4 (w\<lparr>cw_user := sr2\<rparr>) =
        Option.bind (rsnap_branch_close F sr2) (\<lambda>(r, sr). conf_words L (rs_env F T) ts x 0 c5 (w\<lparr>cw_user := sr\<rparr>))"
      using words_close [OF c4(1), of L F T ts x "w\<lparr>cw_user := sr2\<rparr>"] by (auto simp: Z_def)
    show ?thesis using o s c3(2) c4(2) c5 by (intro exI [of _ c5] exI [of _ c2]) simp
  next
    case False
    have "at_root cs" by (rule assms)
    moreover have "conf_words L (rs_env F T) ((CKey, ''v'', False) # (CVal, ''1'', False) # Y) x 1 c1 (w\<lparr>cw_user := sr\<rparr>) = None"
      if s: "rsnap_branch F (fst b) (cw_user w) = Some (0, sr)" for sr
    proof -
      have l: "load_ents F (snd b) sr = None" using False s by auto
      have st: "rs_state sr = 0" using rsnap_branch_code [OF s] assms(4) by simp
      obtain c3 where c3: "in_branch c3"
        "conf_words L (rs_env F T) ((CKey, ''v'', False) # (CVal, ''1'', False) # Y) x 1 c1 (w\<lparr>cw_user := sr\<rparr>) =
          conf_words L (rs_env F T) Y x 1 c3 (w\<lparr>cw_user := sr\<rparr>)"
        using words_ver [OF c1] by blast
      show ?thesis
        using words_entries [OF assms(1,2) es, of "w\<lparr>cw_user := sr\<rparr>" c3 L F Z x 1] st c3 l by (auto simp: Y_def)
    qed
    ultimately show ?thesis using o False
      by (intro exI [of _ cs] exI [of _ c2]) (cases "rsnap_branch F (fst b) (cw_user w)"; auto split: bind_splits)
  qed
qed

lemma rsnap_branch_close_state: "rsnap_branch_close F sr = Some (r, sr') \<Longrightarrow> rs_state sr' = rs_state sr"
  by (auto simp: rsnap_branch_close_def split: if_splits)

lemma words_branches:
  assumes "numbers_ok T" and "times_ok T"
  shows "list_all branch_ok bs \<Longrightarrow> rs_state (cw_user w) = 0 \<Longrightarrow> at_root cs \<Longrightarrow>
    outcome (conf_words L (rs_env F T) (concat (map line_toks (concat (map (branch_lines T) bs)))) CMore 0 cs w) =
      load_branches F bs (cw_user w)"
proof (induction bs arbitrary: cs w)
  case Nil
  then show ?case by (simp add: outcome_def)
next
  case (Cons b bs)
  define ts where "ts = concat (map line_toks (concat (map (branch_lines T) bs)))"
  obtain path es where b: "b = (path, es)" by fastforce
  have bo: "branch_ok b" using Cons.prems(1) by simp
  from words_branch [OF assms bo Cons.prems(2,3), of L F ts CMore] obtain cs' cs2 where c: "at_root cs'" and
    e: "conf_words L (rs_env F T) (concat (map line_toks (branch_lines T b)) @ ts) CMore 0 cs w =
      Option.bind (rsnap_branch F path (cw_user w))
        (\<lambda>(r, sr). if r \<noteq> 0 then Some (- r, 1, cs2, w\<lparr>cw_user := sr\<rparr>)
           else Option.bind (load_ents F es sr)
            (\<lambda>sr. Option.bind (rsnap_branch_close F sr) (\<lambda>(r, sr). conf_words L (rs_env F T) ts CMore 0 cs' (w\<lparr>cw_user := sr\<rparr>))))"
    unfolding b fst_conv snd_conv by blast
  have IH: "outcome (conf_words L (rs_env F T) ts CMore 0 cs' (w\<lparr>cw_user := sr3\<rparr>)) = load_branches F bs sr3" if "rs_state sr3 = 0" for sr3
    using Cons.IH [of "w\<lparr>cw_user := sr3\<rparr>" cs'] Cons.prems(1) that c by (simp add: ts_def)
  show ?case
  proof (cases "rsnap_branch F path (cw_user w)")
    case None
    with e show ?thesis by (simp add: b outcome_def ts_def)
  next
    case (Some y)
    obtain r sr where y: "y = (r, sr)" by fastforce
    note r = rsnap_branch_code [OF Some [unfolded y]]
    show ?thesis
    proof (cases "r = 0")
      case False
      with e Some y r show ?thesis by (simp add: b outcome_def ts_def)
    next
      case True
      show ?thesis
      proof (cases "load_ents F es sr")
        case None
        with e Some y True show ?thesis by (simp add: b outcome_def ts_def)
      next
        case (Some sr2)
        have "rs_state sr2 = 0" using load_ents_state [OF Some] r Cons.prems(2) by simp
        moreover obtain q sr3 where q: "rsnap_branch_close F sr2 = Some (q, sr3)" by (simp add: rsnap_branch_close_def)
        ultimately have "rs_state sr3 = 0" using rsnap_branch_close_state [OF q] by simp
        with IH e \<open>rsnap_branch F path (cw_user w) = Some y\<close> y True Some q show ?thesis by (simp add: b ts_def)
      qed
    qed
  qed
qed

section \<open>Round trip\<close>

lemma conf_parse_outcome:
  assumes "reads L (cl_open L d) ts e"
  shows "map_option (\<lambda>(r, m, w). (r, cw_user w)) (conf_parse_object L (rs_env F T) args () d icase w) =
    outcome (conf_words L (rs_env F T) ts e 0 (scheme_init icase args ()) w)"
  using arg_cong [OF conf_parse_words [OF assms, of "rs_env F T" args "()" icase w], of "map_option (\<lambda>(r, m, w). (r, cw_user w))"]
  by (simp add: option.map_comp comp_def outcome_def Let_def case_prod_unfold)

text \<open>C30. A snapshot file reads back: for branches whose names need no escapes and whose times are whole milliseconds,
  reading the text that was written makes exactly the tree calls that build those branches, entry by entry with the
  very names and data, and ends as they end.\<close>

theorem snapshot_reads_back:
  assumes "conf_ok L" and "numbers_ok T" and "times_ok T" and "list_all branch_ok bs"
  shows "rsnap_parse L F T (snap_text T bs) (rsnap_init F t) =
    Option.bind (load_branches F bs (rsnap_init F t))
      (\<lambda>(r, sr). Some (if r \<noteq> 0 then (False, sr) else rsnap_fin F sr))"
proof -
  define ts where "ts = concat (map line_toks (concat (map (branch_lines T) bs)))"
  have "reads L (cl_open L (concat (map line_text (snap_lines T bs)))) (concat (map line_toks (snap_lines T bs))) CMore"
    using assms(1) snap_lines_ok [OF assms(2-4)] unfolding conf_ok_def by blast
  moreover have "concat (map line_toks (snap_lines T bs)) = ts" by (simp add: snap_lines_def ts_def)
  ultimately have "reads L (cl_open L (snap_text T bs)) ts CMore" by (simp add: snap_lines_text)
  from conf_parse_outcome [OF this, of F T TRoot False "rs_world (rsnap_init F t)"]
  have "map_option (\<lambda>(r, m, w). (r, cw_user w))
      (conf_parse_object L (rs_env F T) TRoot () (snap_text T bs) False (rs_world (rsnap_init F t))) =
    outcome (conf_words L (rs_env F T) ts CMore 0 (scheme_init False TRoot ()) (rs_world (rsnap_init F t)))" .
  also have "\<dots> = load_branches F bs (rsnap_init F t)"
    using words_branches [OF assms(2-4), of "rs_world (rsnap_init F t)" "scheme_init False TRoot ()" L F]
    by (simp add: ts_def rs_world_def rsnap_init_def scheme_init_def scheme_addctx_def at_root_def)
  finally have f: "load_branches F bs (rsnap_init F t) = map_option (\<lambda>(r, m, w). (r, cw_user w))
      (conf_parse_object L (rs_env F T) TRoot () (snap_text T bs) False (rs_world (rsnap_init F t)))" ..
  show ?thesis unfolding f
    by (cases "conf_parse_object L (rs_env F T) TRoot () (snap_text T bs) False (rs_world (rsnap_init F t))")
       (auto simp: rsnap_parse_def Let_def)
qed

end
