(* ===== verification/RefText.thy ===== *)
theory RefText
  imports SnapProps
begin

text \<open>
  A concrete library of numbers and dates, and a concrete file tree, for the witnesses: numbers in
  decimal, dates and times as their numbers, trees as lists of blocks walked block by block.
\<close>

section \<open>Numbers\<close>

definition digit :: "nat \<Rightarrow> char" where
  "digit n = ''0123456789'' ! n"

fun dec :: "nat \<Rightarrow> bytes" where
  "dec n = (if n < 10 then [digit n] else dec (n div 10) @ [digit (n mod 10)])"

declare dec.simps [simp del]

lemma of_char_digit: "n < 10 \<Longrightarrow> of_char (digit n) = (48 + n :: nat)"
proof -
  assume "n < 10"
  then have "n \<in> {0, 1, 2, 3, 4, 5, 6, 7, 8, 9}" by auto
  then show ?thesis by (elim insertE) (simp_all add: digit_def)
qed

lemma digit_in: "n < 10 \<Longrightarrow> digit n \<in> set ''0123456789''"
  unfolding digit_def by (rule nth_mem) simp

lemma dec_digits: "dec n \<noteq> [] \<and> list_all (\<lambda>c. c \<in> set ''0123456789'') (dec n)"
proof (induction n rule: dec.induct)
  case (1 n)
  then show ?case using digit_in [of n] digit_in [of "n mod 10"] by (subst (1 2) dec.simps) (simp add: list_all_iff)
qed

lemma dec_of_dec: "dec_of (dec n) = Some n"
proof -
  have "foldl (\<lambda>n c. 10 * n + (of_char c - 48)) 0 (dec n) = n"
  proof (induction n rule: dec.induct)
    case (1 n)
    then show ?case by (subst dec.simps) (auto simp: of_char_digit)
  qed
  then show ?thesis using dec_digits [of n] by (simp add: dec_of_def)
qed

lemma dec_plain: "list_all (\<lambda>c. plain_char c \<and> c \<notin> {CHR ''{'', CHR ''/'', CHR '':'', CHR ''+'', CHR ''-''}) (dec n)"
proof -
  have "\<forall>c \<in> set ''0123456789''. plain_char c \<and> c \<notin> {CHR ''{'', CHR ''/'', CHR '':'', CHR ''+'', CHR ''-''}"
    by (simp add: plain_char_def blank_def)
  then show ?thesis using dec_digits [of n] unfolding list_all_iff by blast
qed

lemma dec_no: "c \<in> {CHR ''/'', CHR '':'', CHR ''+'', CHR ''-''} \<Longrightarrow> c \<notin> set (dec n)"
  using dec_plain [of n] unfolding list_all_iff by blast

definition cut :: "char \<Rightarrow> bytes \<Rightarrow> bytes \<times> bytes" where
  "cut c s = (takeWhile (\<lambda>x. x \<noteq> c) s, tl (dropWhile (\<lambda>x. x \<noteq> c) s))"

lemma cut_at: "c \<notin> set a \<Longrightarrow> cut c (a @ c # b) = (a, b)"
proof -
  assume "c \<notin> set a"
  then have "\<And>x. x \<in> set a \<Longrightarrow> x \<noteq> c" by blast
  then show ?thesis by (simp add: cut_def takeWhile_append dropWhile_append)
qed

definition word_of :: "bytes \<Rightarrow> 32 word option" where
  "word_of s = (case dec_of s of Some n \<Rightarrow> if n < 2 ^ 32 then Some (word_of_nat n) else None | None \<Rightarrow> None)"

lemma word_of_dec: "word_of (dec (unat x)) = Some x"
  using unsigned_less [where ?'b = 32 and ?'a = nat, of x] by (simp add: word_of_def dec_of_dec)

definition words_of :: "char \<Rightarrow> bytes \<Rightarrow> (32 word \<times> 32 word) option" where
  "words_of c s = (case (word_of (fst (cut c s)), word_of (snd (cut c s))) of (Some x, Some y) \<Rightarrow> Some (x, y) | _ \<Rightarrow> None)"

definition int_text :: "int \<Rightarrow> bytes" where
  "int_text i = (if i < 0 then CHR ''n'' else CHR ''p'') # dec (nat \<bar>i\<bar>)"

definition int_of :: "bytes \<Rightarrow> int" where
  "int_of s = (let n = int (the (dec_of (tl s))) in if hd s = CHR ''n'' then - n else n)"

lemma int_of_text: "int_of (int_text i) = i"
  by (simp add: int_of_def int_text_def dec_of_dec)

lemma int_text_no: "c \<in> {CHR ''/'', CHR '':'', CHR ''+'', CHR ''-''} \<Longrightarrow> c \<notin> set (int_text n)"
  using dec_no [of c] by (auto simp: int_text_def)

lemma int_text_plain: "list_all (\<lambda>c. plain_char c \<and> c \<noteq> CHR ''{'') (int_text n)"
  using dec_plain [of "nat \<bar>n\<bar>"] by (auto simp: int_text_def list_all_iff plain_char_def blank_def)

section \<open>Dates\<close>

definition date_out :: "ffdatetime \<Rightarrow> bytes" where
  "date_out dt = (case dt_ymd dt of (y, m, d) \<Rightarrow> int_text y @ CHR ''-'' # dec m @ CHR ''-'' # dec d)"

definition time_out :: "ffdatetime \<Rightarrow> bytes" where
  "time_out dt = dec (dt_hour dt) @ CHR '':'' # dec (dt_minute dt) @ CHR '':'' # dec (dt_second dt) @ CHR '':'' # int_text (dt_nsec dt)"

definition date_in :: "bytes \<Rightarrow> nat \<times> ffdatetime" where
  "date_in s =
     (let a = fst (cut (CHR ''+'') s); (y, r) = cut (CHR ''-'') a; (m, d) = cut (CHR ''-'') r
      in (length a, \<lparr>dt_ymd = (int_of y, the (dec_of m), the (dec_of d)), dt_hour = 0, dt_minute = 0, dt_second = 0, dt_nsec = 0\<rparr>))"

definition time_in :: "bytes \<Rightarrow> nat \<times> ffdatetime" where
  "time_in s =
     (let (h, r) = cut (CHR '':'') s; (m, r2) = cut (CHR '':'') r; (x, n) = cut (CHR '':'') r2
      in (length s, \<lparr>dt_ymd = (0, 0, 0), dt_hour = the (dec_of h), dt_minute = the (dec_of m), dt_second = the (dec_of x), dt_nsec = int_of n\<rparr>))"

definition ref_text :: textlib where
  "ref_text =
     \<lparr>tl_dec = dec, tl_hex = (\<lambda>x. dec (unat x)), tl_to_uint64 = (\<lambda>s. case dec_of s of Some n \<Rightarrow> if n < 2 ^ 64 then Some n else None | None \<Rightarrow> None),
      tl_to_uint32 = word_of, tl_match_hex2 = words_of (CHR ''/''), tl_match_dec2 = words_of (CHR '':''),
      tl_split = (\<lambda>(s, n). \<lparr>dt_ymd = (s, 0, 0), dt_hour = 0, dt_minute = 0, dt_second = 0, dt_nsec = n\<rparr>),
      tl_join = (\<lambda>dt. (fst (dt_ymd dt), dt_nsec dt)), tl_date_out = date_out, tl_time_out = time_out,
      tl_date_in = date_in, tl_time_in = time_in\<rparr>"

lemma ref_numbers_ok: "numbers_ok ref_text"
proof -
  have "plain_text (dec n)" for n using dec_digits [of n] dec_plain [of n] by (auto simp: plain_text_def list_all_iff)
  moreover have "words_of c (dec (unat x) @ c # dec (unat y)) = Some (x, y)" if "c \<in> {CHR ''/'', CHR '':''}" for c x y
  proof -
    have "cut c (dec (unat x) @ c # dec (unat y)) = (dec (unat x), dec (unat y))"
      using that by (intro cut_at dec_no) auto
    then show ?thesis by (simp add: words_of_def word_of_dec)
  qed
  ultimately show ?thesis
    by (simp add: numbers_ok_def ref_text_def dec_of_dec word_of_dec)
qed

lemma date_in_out: "date_in (date_out dt @ ''+'' @ s) =
    (length (date_out dt), \<lparr>dt_ymd = dt_ymd dt, dt_hour = 0, dt_minute = 0, dt_second = 0, dt_nsec = 0\<rparr>)"
proof -
  obtain y m d where y: "dt_ymd dt = (y, m, d)" by (cases "dt_ymd dt") auto
  have "CHR ''+'' \<notin> set (date_out dt)" using dec_no [of "CHR ''+''"] int_text_no [of "CHR ''+''"] by (auto simp: date_out_def y)
  then have "cut (CHR ''+'') (date_out dt @ CHR ''+'' # s) = (date_out dt, s)" by (rule cut_at)
  then show ?thesis
    using cut_at [OF int_text_no, of "CHR ''-''"] cut_at [OF dec_no, of "CHR ''-''"]
    by (simp add: date_in_def date_out_def y int_of_text dec_of_dec)
qed

lemma time_in_out: "time_in (time_out dt) = (length (time_out dt), dt\<lparr>dt_ymd := (0, 0, 0)\<rparr>)"
  using cut_at [OF dec_no, of "CHR '':''"] by (cases dt) (simp add: time_in_def time_out_def int_of_text dec_of_dec)

lemma ref_times_ok: "times_ok ref_text"
proof -
  have p: "list_all (\<lambda>c. plain_char c \<and> c \<noteq> CHR ''{'') (dec n)" for n using dec_plain [of n] by (auto simp: list_all_iff)
  have q: "plain_char (CHR ''-'') \<and> plain_char (CHR '':'')" by (simp add: plain_char_def blank_def)
  have "plain_text (date_out dt)" for dt
    using p int_text_plain q by (cases "dt_ymd dt") (simp add: plain_text_def date_out_def)
  moreover have "plain_text (time_out dt)" for dt
    using p int_text_plain q by (simp add: plain_text_def time_out_def)
  moreover have "time_out dt \<noteq> []" for dt by (simp add: time_out_def)
  ultimately show ?thesis
    by (auto simp: times_ok_def ref_text_def date_in_out time_in_out simp del: append.simps)
qed

section \<open>Trees\<close>

text \<open>The blocks in order of creation, each with its path and entries; the cursor counts the entries walked.\<close>

type_synonym ref_tree = "(bytes \<times> (bytes \<times> sync_entry) list) list"

definition ref_next :: "nat \<Rightarrow> nat \<Rightarrow> ref_tree \<Rightarrow> (nat \<times> nat) option \<times> nat \<times> nat" where
  "ref_next c b t =
     (let es = concat (map (\<lambda>i. map (\<lambda>j. (i, j)) [0..<length (snd (t ! i))]) [0..<length t])
      in if c < length es then (Some (es ! c), c + 1, fst (es ! c)) else (None, c, b))"

definition ref_ft :: "(ref_tree, nat, nat \<times> nat, nat) fntree" where
  "ref_ft =
     \<lparr>ft_create = (\<lambda>p t. (length t, t @ [(p, [])])),
      ft_add = (\<lambda>b n t. (Some ((b, length (snd (t ! b))), b), t[b := (fst (t ! b), snd (t ! b) @ [(n, no_entry)])])),
      ft_entries = (\<lambda>b t. length (snd (t ! b))), ft_path = (\<lambda>b t. fst (t ! b)), ft_name = (\<lambda>(i, j) t. fst (snd (t ! i) ! j)),
      ft_data = (\<lambda>(i, j) t. snd (snd (t ! i) ! j)),
      ft_set = (\<lambda>(i, j) d t. t[i := (fst (t ! i), (snd (t ! i))[j := (fst (snd (t ! i) ! j), d)])]),
      ft_children = (\<lambda>e t. None), ft_attach = (\<lambda>e b t. t), ft_first = (\<lambda>b t. (b, 0)),
      ft_next = ref_next, ft_next_ctx = ref_next, ft_cur = (\<lambda>c. (0, 0)), ft_start = 0, ft_free = (\<lambda>b t. t)\<rparr>"

text \<open>The program's own tables keep the promises of the scheme: in a tree that takes every name and can be walked to its end.\<close>

lemma rs_env_ok:
  assumes "\<And>b n t. fst (ft_add F b n t) \<noteq> None" and "\<And>path t c b. branch_find F path t c b \<noteq> None"
  shows "env_ok (rs_env F T)"
proof -
  have add: "\<exists>sr'. rsnap_add F sr = Some (0, sr')" for sr
    using assms(1) [of "the (rs_curblock sr)" "et_name (rs_ent sr)" "rs_tree sr"]
    by (auto simp: rsnap_add_def Let_def split: prod.splits)
  have fl: "\<exists>r sr'. rsnap_file F T v sr = Some (r, sr') \<and> 0 \<le> r" for v sr
    using add by (fastforce simp: rsnap_file_def Let_def BAD_def split: option.splits)
  have branch: "\<exists>r sr'. rsnap_branch F p sr = Some (r, sr') \<and> 0 \<le> r" for p sr
  proof -
    obtain b t' where c: "ft_create F p (rs_tree sr) = (b, t')" by fastforce
    obtain e k where "branch_find F p t' (rs_cur sr) (the (rs_curblock sr)) = Some (e, k)"
      using assms(2) by (metis option.exhaust prod.exhaust)
    then show ?thesis using c by (cases e) (simp_all add: rsnap_branch_def BAD_def Let_def)
  qed
  have call: "\<exists>r cs' w'. sv_call (rs_env F T) d obj h cs w = Some (r, cs', w') \<and> 0 \<le> r \<and>
      (d \<noteq> HBranch \<longrightarrow> cs' = cs)" for d obj h cs w
    using fl [of "case h of HStr v \<Rightarrow> v | _ \<Rightarrow> []" "cw_user w"] branch [of "cs_objval cs" "cw_user w"]
    by (cases d) (auto simp: rs_env_def rsnap_ver_def rsnap_branch_close_def BAD_def Let_def)
  have t: "sv_table (rs_env F T) = rs_table_of" by (simp add: rs_env_def)
  have tb: "table_ok (rs_table_of a)" for a
    by (cases a) (simp_all add: table_ok_def rs_table_of_def obj_entry_def conf_flag_defs)
  have val: "d \<noteq> HBranch" if "arg \<in> set (tb_args (rs_table_of a))" "\<not> obj_entry arg" "ar_dst arg = Handler d" for a arg d
    using that by (cases a) (auto simp: rs_table_of_def obj_entry_def conf_flag_defs)
  have cl: "d \<noteq> HBranch" if "ar_flags (tb_end (rs_table_of a)) AND 0x0f = FFCONF_TCLOSE" "ar_dst (tb_end (rs_table_of a)) = Handler d" for a d
    using that by (cases a) (auto simp: rs_table_of_def conf_flag_defs)
  have same: "cs' = cs" if "d \<noteq> HBranch" "sv_call (rs_env F T) d obj h cs w = Some (r, cs', w')" for d obj h cs w r cs' w'
    using call [of d obj h cs w] that by auto
  show ?thesis unfolding env_ok_def t
  proof (intro conjI allI impI)
    show "\<exists>r cs' w'. sv_call (rs_env F T) d obj h cs w = Some (r, cs', w') \<and> 0 \<le> r" for d obj h cs w
      using call [of d obj h cs w] by blast
  qed (use tb same val cl in blast)+
qed

lemma ref_branch_find: "branch_find ref_ft path t c b \<noteq> None"
proof -
  define es where "es = concat (map (\<lambda>i. map (\<lambda>j. (i, j)) [0..<length (snd (t ! i))]) [0..<length t])"
  show ?thesis
  proof (induction "length es - c" arbitrary: c b)
    case 0
    then show ?case by (subst branch_find.simps) (simp add: ref_ft_def ref_next_def es_def [symmetric])
  next
    case (Suc n)
    then have c: "c < length es" "n = length es - (c + 1)" by simp_all
    have "ft_next ref_ft c b t = (Some (es ! c), c + 1, fst (es ! c))"
      using c(1) by (simp add: ref_ft_def ref_next_def es_def Let_def)
    then show ?case using Suc.hyps(1) [OF c(2)] by (subst branch_find.simps) simp
  qed
qed

lemma ref_env_ok: "env_ok (rs_env ref_ft T)"
proof (rule rs_env_ok)
  show "fst (ft_add ref_ft b n t) \<noteq> None" for b n t by (simp add: ref_ft_def)
qed (rule ref_branch_find)

theorem conf_parse_returns_witness:
  "\<exists>r m w'. conf_parse_object ref_conf (rs_env ref_ft ref_text) TRoot () ''b /d { v 1'' False (rs_world (rsnap_init ref_ft [])) =
     Some (r, m, w') \<and> r \<noteq> 0 \<and> m \<noteq> None"
proof -
  have "reads ref_conf (cl_open ref_conf ''b /d { v 1'') (tokens 0 ''b /d { v 1'') CMore"
    unfolding ref_conf_tokens(1) by (rule ref_conf_tokens(2))
  moreover have "braces 0 (tokens 0 ''b /d { v 1'') = Some 1"
    by (simp add: tok_step_def tok_kind_def blank_def plain_char_def)
  ultimately show ?thesis
    using conf_parse_returns [OF ref_env_ok, of ref_conf "''b /d { v 1''" "tokens 0 ''b /d { v 1''" CMore ref_text TRoot "()" False
        "rs_world (rsnap_init ref_ft [])"] by auto
qed

text \<open>A directory with a file and a directory with a file.\<close>

definition sample_entry :: "nat \<Rightarrow> 32 word \<Rightarrow> sync_entry" where
  "sample_entry n a = \<lparr>se_size = n, unix_attr = a, win_attr = 0, se_uid = 1000, se_gid = 100, mtime = (63818031600, 250000000), crc32 = 0\<rparr>"

definition sample_branches :: "branch list" where
  "sample_branches =
     [(''/d'', [\<lparr>et_type = CHR ''f'', et_name = ''a b'', et_d = sample_entry 5 0x81A4\<rparr>,
               \<lparr>et_type = CHR ''d'', et_name = ''e'', et_d = sample_entry 4096 0x41ED\<rparr>]),
      (''/d/e'', [\<lparr>et_type = CHR ''f'', et_name = ''c'', et_d = sample_entry 0 0x81A4\<rparr>])]"

theorem snapshot_reads_back_witness:
  "\<exists>sr. rsnap_parse ref_conf ref_ft ref_text (snap_text ref_text sample_branches) (rsnap_init ref_ft []) = Some (True, sr) \<and>
     rs_tree sr = [(''/d'', [(''a b'', sample_entry 5 0x81A4), (''e'', sample_entry 4096 0x41ED)]), (''/d/e'', [(''c'', sample_entry 0 0x81A4)])]"
proof -
  have ok: "list_all branch_ok sample_branches"
    by (simp add: sample_branches_def branch_ok_def ent_ok_def sample_entry_def quoted_char_def)
  have find: "branch_find ref_ft ''/d/e'' [(''/d'', [(''a b'', sample_entry 5 0x81A4), (''e'', sample_entry 4096 0x41ED)]), (''/d/e'', [])] 0 0 =
      Some (Some (0, 1), 2)"
    by (subst branch_find.simps, subst branch_find.simps)
       (simp add: ref_ft_def ref_next_def upt_rec sample_entry_def FFFILE_UNIX_DIR_def rsnap_full_fn_def)
  have "\<exists>sr. load_branches ref_ft sample_branches (rsnap_init ref_ft []) = Some (0, sr) \<and> rs_root sr \<noteq> None \<and>
      rs_tree sr = [(''/d'', [(''a b'', sample_entry 5 0x81A4), (''e'', sample_entry 4096 0x41ED)]), (''/d/e'', [(''c'', sample_entry 0 0x81A4)])]"
    by (simp add: sample_branches_def rsnap_init_def rsnap_branch_def ref_ft_def rsnap_add_def rs_set_ent_def
        rsnap_branch_close_def Let_def find [unfolded ref_ft_def sample_entry_def] sample_entry_def)
  then show ?thesis
    using snapshot_reads_back [OF ref_conf_ok ref_numbers_ok ref_times_ok ok, of ref_ft "[]"]
    by (auto simp: rsnap_fin_def ref_ft_def split: option.splits)
qed

end
