(* ===== verification/SyncScan.thy ===== *)
theory SyncScan
  imports Fntree OpIf PathUtil
begin

text \<open>
  Scanning a file tree, \<open>src/fs/sync-scan.h\<close>: the walk over the tree while directories, and zip files
  if wanted, are attached to it, the attributes of each file, the union of the trees a wildcard
  names. The tree's memory \<open>'t\<close> is passed beside the state \<open>'s\<close> of the rest.
\<close>

section \<open>Data\<close>

text \<open>
  \<open>sc_dirscan\<close> opens a directory, \<open>sc_from_dirscan\<close> makes a block of its entries (\<open>fntree_from_dirscan\<close>);
  \<open>sc_wildcard\<close> lists the names in a directory that match; \<open>sc_unzip\<close> is \<open>open_file\<close> of the module \<open>zip.fcom_unzip\<close>,
  if it can be loaded; \<open>sc_ext\<close> is the extension of the last component of a path.
\<close>

record ('s, 'i, 't, 'b, 'd, 'z) scanenv =
  sc_info_path :: "bytes \<Rightarrow> ('s, 'i option) act"
  sc_isdir :: "'i \<Rightarrow> bool"
  sc_size :: "'i \<Rightarrow> nat"
  sc_mtime1 :: "'i \<Rightarrow> fftime"
  sc_attr :: "'i \<Rightarrow> 32 word"
  sc_uid :: "'i \<Rightarrow> 32 word"
  sc_gid :: "'i \<Rightarrow> 32 word"
  sc_dirscan :: "bytes \<Rightarrow> ('s, 'd option) act"
  sc_dirclose :: "'d \<Rightarrow> ('s, unit) act"
  sc_from_dirscan :: "bytes \<Rightarrow> 'd \<Rightarrow> 't \<Rightarrow> 'b \<times> 't"
  sc_wildcard :: "bytes \<Rightarrow> bytes \<Rightarrow> ('s, bytes list option) act"
  sc_open :: "bytes \<Rightarrow> ('s, fffd) act"
  sc_close :: "fffd \<Rightarrow> ('s, unit) act"
  sc_unzip :: "(fffd \<Rightarrow> ('s, 'z option) act) option"
  sc_unzip_next :: "'z \<Rightarrow> ('s, bytes) act"
  sc_unzip_close :: "'z \<Rightarrow> ('s, unit) act"
  sc_ext :: "bytes \<Rightarrow> bytes"
  sc_split :: "bytes \<Rightarrow> bytes \<times> bytes"
  sc_ieq :: "bytes \<Rightarrow> bytes \<Rightarrow> bool"

definition FFFILE_WIN_DIR :: "32 word" where "FFFILE_WIN_DIR = 0x10"

record ('b, 'c) snapshot =
  sp_root_dir :: bytes
  sp_root :: 'b
  sp_parent_blk :: "'b option"
  sp_cur :: 'c
  sp_name :: bytes
  sp_path :: bytes
  sp_name_segment :: bytes
  sp_total :: nat
  sp_zip_block :: bool
  sp_zip_expand :: bool

definition snap_new :: "('t, 'b, 'e, 'c) fntree \<Rightarrow> bool \<Rightarrow> bytes \<Rightarrow> 'b \<Rightarrow> ('b, 'c) snapshot" where
  "snap_new F zip_expand root_dir root =
     \<lparr>sp_root_dir = root_dir, sp_root = root, sp_parent_blk = None, sp_cur = ft_start F, sp_name = [], sp_path = [],
      sp_name_segment = [], sp_total = 0, sp_zip_block = False, sp_zip_expand = zip_expand\<rparr>"

datatype scan_ret = ScDone | ScErro | ScNblk | ScNext

type_synonym ('t, 'b, 'c, 's, 'a) scan_act = "('b, 'c) snapshot \<Rightarrow> 't \<Rightarrow> ('s, 'a \<times> ('b, 'c) snapshot \<times> 't) act"

section \<open>The walk\<close>

definition is_zip :: "('s, 'i, 't, 'b, 'd, 'z) scanenv \<Rightarrow> bytes \<Rightarrow> bool" where
  "is_zip S p \<longleftrightarrow> sc_ieq S (sc_ext S p) ''zip'' \<or> sc_ieq S (sc_ext S p) ''zipx''"

text \<open>\<open>snapshot::next\<close>: the next entry, and whether it is the first of a block.\<close>

definition snap_next ::
  "('t, 'b, 'e, 'c) fntree \<Rightarrow> ('s, 'i, 't, 'b, 'd, 'z) scanenv \<Rightarrow> ('b, 'c) snapshot \<Rightarrow> 't \<Rightarrow> (scan_ret \<times> 'e option) \<times> ('b, 'c) snapshot" where
  "snap_next F S sp0 t =
     (case ft_next_ctx F (sp_cur sp0) (sp_root sp0) t of
        (None, c, b) \<Rightarrow> ((ScDone, None), sp0\<lparr>sp_cur := c\<rparr>)
      | (Some it, c, b) \<Rightarrow>
          (let nm = ft_name F it t; path = ft_path F b t;
               sp = sp0\<lparr>sp_cur := c, sp_path := path, sp_name := (if path \<noteq> [] then path @ [FFPATH_SLASH] @ nm else nm),
                        sp_name_segment := nm\<rparr>
           in if sp_parent_blk sp \<noteq> Some b
              then ((ScNblk, Some it),
                    sp\<lparr>sp_parent_blk := Some b, sp_zip_block := (if sp_zip_expand sp then is_zip S path else sp_zip_block sp)\<rparr>)
              else ((ScNext, Some it), sp)))"

text \<open>\<open>add_dir\<close>, always called without a descriptor; \<^const>\<open>False\<close> is -1.\<close>

definition add_dir :: "('t, 'b, 'e, 'c) fntree \<Rightarrow> ('s, 'i, 't, 'b, 'd, 'z) scanenv \<Rightarrow> ('t, 'b, 'c, 's, bool) scan_act" where
  "add_dir F S sp t s =
     do { (ds, s) \<leftarrow> sc_dirscan S (sp_name sp) s;
          case ds of
            None \<Rightarrow> Some ((False, sp, t), s)
          | Some d \<Rightarrow>
              (let (b, t) = sc_from_dirscan S (sp_name sp) d t;
                   sp = sp\<lparr>sp_total := sp_total sp + ft_entries F b t\<rparr>;
                   t = ft_attach F (ft_cur F (sp_cur sp)) (Some b) t
               in do { (_, s) \<leftarrow> sc_dirclose S d s; Some ((True, sp, t), s) }) }"

text \<open>The names of an archive added to a block: \<^const>\<open>None\<close> when one is refused.\<close>

partial_function (option) zip_names ::
  "('t, 'b, 'e, 'c) fntree \<Rightarrow> ('s, 'i, 't, 'b, 'd, 'z) scanenv \<Rightarrow> 'z \<Rightarrow> 'b \<Rightarrow> 't \<Rightarrow> ('s, 'b option \<times> 't) act" where
  "zip_names F S ux b t s =
     Option.bind (sc_unzip_next S ux s)
       (\<lambda>(fn, s). if fn = [] then Some ((Some b, t), s) else
          (let fn = (if last fn = CHR ''/'' then butlast fn else fn)
           in case ft_add F b fn t of
                (None, t) \<Rightarrow> Some ((None, ft_free F b t), s)
              | (Some (e, b), t) \<Rightarrow> zip_names F S ux b t s))"

definition add_zip :: "('t, 'b, 'e, 'c) fntree \<Rightarrow> ('s, 'i, 't, 'b, 'd, 'z) scanenv \<Rightarrow> fffd \<Rightarrow> bytes \<Rightarrow> ('t, 'b, 'c, 's, bool) scan_act" where
  "add_zip F S fd name sp t s =
     (let (b, t) = ft_create F name t
      in case sc_unzip S of
           None \<Rightarrow> Some ((False, sp, t), s)
         | Some opn \<Rightarrow>
             do { (ux, s) \<leftarrow> opn fd s;
                  case ux of
                    None \<Rightarrow> Some ((False, sp, t), s)
                  | Some z \<Rightarrow>
                      do { ((b, t), s) \<leftarrow> zip_names F S z b t s;
                           (_, s) \<leftarrow> sc_unzip_close S z s;
                           case b of
                             None \<Rightarrow> Some ((False, sp, t), s)
                           | Some b \<Rightarrow>
                               Some ((True, sp\<lparr>sp_total := sp_total sp + ft_entries F b t\<rparr>,
                                      ft_attach F (ft_cur F (sp_cur sp)) (Some b) t), s) } })"

text \<open>\<open>f_info\<close> on Unix; the time is cut to milliseconds.\<close>

definition f_info :: "('s, 'i, 't, 'b, 'd, 'z) scanenv \<Rightarrow> 'i \<Rightarrow> sync_entry" where
  "f_info S i =
     (let t = sc_mtime1 S i
      in \<lparr>se_size = sc_size S i, unix_attr = sc_attr S i, win_attr = (if sc_isdir S i then FFFILE_WIN_DIR else 0),
          se_uid = sc_uid S i, se_gid = sc_gid S i, mtime = (fst t, (snd t div 1000000) * 1000000), crc32 = 0\<rparr>)"

text \<open>The attachment of a regular file: only archives, if wanted. \<^const>\<open>False\<close> leaves with an error.\<close>

definition scan_file :: "('t, 'b, 'e, 'c) fntree \<Rightarrow> ('s, 'i, 't, 'b, 'd, 'z) scanenv \<Rightarrow> bytes \<Rightarrow> ('t, 'b, 'c, 's, bool) scan_act" where
  "scan_file F S name sp t s =
     (if sp_zip_expand sp \<and> is_zip S name then
        do { (fd, s) \<leftarrow> sc_open S name s;
             if fd = None then Some ((True, sp, t), s)
             else do { ((ok, sp, t), s) \<leftarrow> add_zip F S fd name sp t s;
                       (_, s) \<leftarrow> sc_close S fd s;
                       Some ((ok, sp, t), s) } }
      else Some ((True, sp, t), s))"

definition scan_next ::
  "('t, 'b, 'e, 'c) fntree \<Rightarrow> ('s, 'i, 't, 'b, 'd, 'z) scanenv \<Rightarrow> ('t, 'b, 'c, 's, scan_ret \<times> ent option) scan_act" where
  "scan_next F S sp t s =
     (case snap_next F S sp t of
        ((r, None), sp) \<Rightarrow> Some (((ScDone, None), sp, t), s)
      | ((r, Some e), sp) \<Rightarrow>
          (let name = sp_name sp; t = ft_set F e no_entry t;
               fin = (\<lambda>c sp t s. Some (((r, Some \<lparr>et_type = c, et_name = name, et_d = ft_data F e t\<rparr>), sp, t), s))
           in if sp_zip_block sp then fin (CHR ''f'') sp t s
              else do { (i, s) \<leftarrow> sc_info_path S name s;
                        case i of
                          None \<Rightarrow> fin (CHR ''f'') sp t s
                        | Some fi \<Rightarrow>
                            (let t = ft_set F e (f_info S fi) t
                             in if sc_isdir S fi then
                                  do { ((ok, sp, t), s) \<leftarrow> add_dir F S sp t s;
                                       if ok then fin (CHR ''d'') sp t s else Some (((ScErro, None), sp, t), s) }
                                else
                                  do { ((ok, sp, t), s) \<leftarrow> scan_file F S name sp t s;
                                       if ok then fin (CHR ''f'') sp t s else Some (((ScErro, None), sp, t), s) }) }))"

section \<open>Whole trees\<close>

text \<open>The loops \<open>for (;;) scan_next(NULL)\<close>: an error goes on with the next file.\<close>

partial_function (option) scan_all ::
  "('t, 'b, 'e, 'c) fntree \<Rightarrow> ('s, 'i, 't, 'b, 'd, 'z) scanenv \<Rightarrow> ('t, 'b, 'c, 's, unit) scan_act" where
  "scan_all F S sp t s =
     Option.bind (scan_next F S sp t s)
       (\<lambda>(((r, e), sp, t), s). if r = ScDone then Some (((), sp, t), s) else scan_all F S sp t s)"

definition sync_scan ::
  "('t, 'b, 'e, 'c) fntree \<Rightarrow> ('s, 'i, 't, 'b, 'd, 'z) scanenv \<Rightarrow> bytes \<Rightarrow> 32 word \<Rightarrow> 't \<Rightarrow> ('s, ('b, 'c) snapshot option \<times> 't) act" where
  "sync_scan F S path flags t s =
     (let (b, t) = ft_create F [] t
      in case ft_add F b path t of
           (None, t) \<Rightarrow> Some ((None, ft_free F b t), s)
         | (Some (e, b), t) \<Rightarrow>
             (let ss = snap_new F False path b
              in if has flags FCOM_SYNC_DIFF_STEP then Some ((Some ss, t), s)
                 else do { ((_, ss, t), s) \<leftarrow> scan_all F S ss t s; Some ((Some ss, t), s) }))"

definition sync_scan_next :: "('t, 'b, 'e, 'c) fntree \<Rightarrow> ('s, 'i, 't, 'b, 'd, 'z) scanenv \<Rightarrow> ('t, 'b, 'c, 's, int) scan_act" where
  "sync_scan_next F S ss t s =
     do { (((r, e), ss, t), s) \<leftarrow> scan_next F S ss t s;
          Some ((if r = ScDone then 1 else if r = ScErro then -1 else 0, ss, t), s) }"

definition fntree_entry_set :: "('t, 'b, 'e, 'c) fntree \<Rightarrow> 'e \<Rightarrow> 'e \<Rightarrow> 't \<Rightarrow> 't" where
  "fntree_entry_set F dst src t = ft_set F dst (ft_data F src t) (ft_attach F dst (ft_children F src t) t)"

text \<open>Adding an entry with the contents of another; a name the tree refuses crashes.\<close>

definition add_entry :: "('t, 'b, 'e, 'c) fntree \<Rightarrow> 'b \<Rightarrow> bytes \<Rightarrow> 'e \<Rightarrow> 't \<Rightarrow> ('b \<times> 't) option" where
  "add_entry F b name src t =
     (case ft_add F b name t of
        (None, t) \<Rightarrow> None
      | (Some (e, b), t) \<Rightarrow> Some (b, fntree_entry_set F e src t))"

definition sync_combine ::
  "('t, 'b, 'e, 'c) fntree \<Rightarrow> ('s, 'i, 't, 'b, 'd, 'z) scanenv \<Rightarrow> ('b, 'c) snapshot \<Rightarrow> 'e \<Rightarrow> 't \<Rightarrow> (('b, 'c) snapshot \<times> 't) option" where
  "sync_combine F S sp e2 t =
     (let p1 = sp_root_dir sp; p2 = ft_path F (the (ft_children F e2 t)) t
      in case ffpath_parent p1 p2 of
           None \<Rightarrow> Some (sp, t)
         | Some parent \<Rightarrow>
             (let name2 = snd (sc_split S p2)
              in if parent \<noteq> p1 then
                   (let (first, t) = ft_create F parent t
                    in do { (first, t) \<leftarrow> add_entry F first (snd (sc_split S p1)) (ft_first F (sp_root sp) t) t;
                            (first, t) \<leftarrow> add_entry F first name2 e2 t;
                            let (newroot, t) = ft_create F [] t
                            in case ft_add F newroot parent t of
                                 (None, t) \<Rightarrow> None
                               | (Some (e, newroot), t) \<Rightarrow>
                                   Some (sp\<lparr>sp_root := newroot, sp_root_dir := take (length parent) p1, sp_total := sp_total sp + 3\<rparr>,
                                         ft_attach F e2 None (ft_attach F e (Some first) t)) })
                 else
                   do { let fe = ft_first F (sp_root sp) t;
                        (b, t) \<leftarrow> add_entry F (the (ft_children F fe t)) name2 e2 t;
                        Some (sp\<lparr>sp_total := sp_total sp + 1\<rparr>, ft_attach F e2 None (ft_attach F fe (Some b) t)) }))"

text \<open>The directories among the names a wildcard matches, as full paths.\<close>

fun wc_dirs :: "('s, 'i, 't, 'b, 'd, 'z) scanenv \<Rightarrow> bytes \<Rightarrow> bytes list \<Rightarrow> ('s, bytes list) act" where
  "wc_dirs S dir [] s = Some ([], s)"
| "wc_dirs S dir (fn # fns) s =
     (let full = dir @ [FFPATH_SLASH] @ fn
      in do { (i, s) \<leftarrow> sc_info_path S full s;
              (rest, s) \<leftarrow> wc_dirs S dir fns s;
              Some (if i \<noteq> None \<and> sc_isdir S (the i) then full # rest else rest, s) })"

text \<open>Scans the directories one after the other into the first; the snapshot of a later one is not freed.\<close>

fun wc_scan ::
  "('t, 'b, 'e, 'c) fntree \<Rightarrow> ('s, 'i, 't, 'b, 'd, 'z) scanenv \<Rightarrow> 32 word \<Rightarrow> bytes list \<Rightarrow> ('b, 'c) snapshot option \<Rightarrow> 't \<Rightarrow>
   ('s, ('b, 'c) snapshot option \<times> 't) act" where
  "wc_scan F S flags [] first t s = Some ((first, t), s)"
| "wc_scan F S flags (n # ns) first t s =
     do { ((d, t), s) \<leftarrow> sync_scan F S n (flags OR FCOM_SYNC_DIFF_STEP) t s;
          case d of
            None \<Rightarrow> Some ((None, t), s)
          | Some d \<Rightarrow>
              do { ((_, d, t), s) \<leftarrow> scan_all F S d t s;
                   case first of
                     None \<Rightarrow> wc_scan F S flags ns (Some d) t s
                   | Some f \<Rightarrow>
                       do { (f, t) \<leftarrow> sync_combine F S f (ft_first F (sp_root d) t) t;
                            wc_scan F S flags ns (Some (f\<lparr>sp_total := sp_total f + sp_total d\<rparr>)) t s } } }"

definition sync_scan_wc ::
  "('t, 'b, 'e, 'c) fntree \<Rightarrow> ('s, 'i, 't, 'b, 'd, 'z) scanenv \<Rightarrow> bytes \<Rightarrow> 32 word \<Rightarrow> 't \<Rightarrow> ('s, ('b, 'c) snapshot option \<times> 't) act" where
  "sync_scan_wc F S path flags t s =
     (let (dir, name) = sc_split S path
      in do { (fns, s) \<leftarrow> sc_wildcard S dir name s;
              case fns of
                None \<Rightarrow> Some ((None, t), s)
              | Some fns \<Rightarrow> do { (dirs, s) \<leftarrow> wc_dirs S dir fns s; wc_scan F S flags dirs None t s } })"

end
