(* ===== verification/SyncRun.thy ===== *)
theory SyncRun
  imports Snap SyncScan SyncCmp
begin

text \<open>
  The operation \<open>sync\<close> (\<open>src/fs/sync.cpp\<close>) and what it does about a difference (\<open>src/fs/sync-fsync.h\<close>): scan both trees
  or read snapshots, compare, show the rows, write a snapshot, copy, move or trash the files.
\<close>

section \<open>Data\<close>

datatype sync_st = SyInit | SyInPrep | SyIn | SyLsnap | SyOutInit | SyOut | SyDiffBegin | SyDiff | SyDiffShow | SySync | SySnapWr

text \<open>
  What the operation calls: the core, the tree, the scan, text and configuration libraries, the comparison with its
  start (\<open>fntree_cmp_init\<close> on two roots, stripped or not), a line of output (\<open>y_show\<close>: the log, \<open>y_print\<close>: standard
  output), the clock, a new command (\<open>y_new\<close>) and its start (\<open>y_start\<close>: \<open>com->run\<close>, for a command that starts and calls back
  later; a command that fails at its start and calls back before \<open>com->run\<close> returns is not covered), padding of the formats \<open>%*S\<close> and \<open>%10U\<close>, and the
  colours.
\<close>

record ('s, 'i, 't, 'b, 'e, 'c, 'd, 'z, 'f, 'p, 'k) syncenv =
  y_core :: "('s, 'i) coreif"
  y_ft :: "('t, 'b, 'e, 'c) fntree"
  y_scan :: "('s, 'i, 't, 'b, 'd, 'z) scanenv"
  y_text :: textlib
  y_conf :: "'p conflib"
  y_readwhole :: "bytes \<Rightarrow> nat \<Rightarrow> ('s, bytes option) act"
  y_lib :: "('f, 's) synclib"
  y_walk :: "'t \<Rightarrow> 'b \<Rightarrow> 'b \<Rightarrow> bool \<Rightarrow> bool \<Rightarrow> 'f"
  y_show :: "bytes \<Rightarrow> ('s, unit) act"
  y_print :: "bytes \<Rightarrow> ('s, unit) act"
  y_clock :: fftime
  y_new :: "'k cominfo"
  y_start :: "'k cominfo \<Rightarrow> ('s, unit) act"
  y_pad :: "nat \<Rightarrow> bytes \<Rightarrow> bytes"
  y_padnum :: "nat \<Rightarrow> nat \<Rightarrow> bytes"
  y_color :: "(bytes \<times> bytes \<times> bytes \<times> bytes) option"

text \<open>The counters of the result line, which the code keeps in 32 bits; one command each.\<close>

record sync_stats =
  st_add :: nat
  st_del :: nat
  st_overwritten :: nat

text \<open>The options of the command line.\<close>

record sync_args =
  ya_add :: bool
  ya_del :: bool
  ya_update :: bool
  ya_move :: bool
  ya_diff :: "bytes option"
  ya_plain :: bool
  ya_snapshot :: bool
  ya_left_snapshot :: bool
  ya_right_snapshot :: bool
  ya_no_dir :: bool
  ya_no_attr :: bool
  ya_no_time :: bool
  ya_time_2sec :: bool
  ya_full_name :: bool
  ya_replace_date :: bool
  ya_zip_expand :: bool
  ya_write_into :: bool
  ya_recent_days :: "32 word"

text \<open>\<open>struct sync\<close>; \<open>sy_rc\<close> is the local \<open>rc\<close> of \<open>sync_run\<close>.\<close>

record ('t, 'b, 'c, 'f, 'k) sync =
  sy_st :: sync_st
  sy_cmd :: "'k cominfo"
  sy_src :: "('b, 'c) snapshot option"
  sy_dst :: "('b, 'c) snapshot option"
  sy_input :: "nat option"
  sy_dir :: bytes
  sy_ent :: ent
  sy_cmp_idx :: nat
  sy_cmp :: "'f diff"
  sy_sw :: wsnap
  sc_idx :: nat
  sc_lname :: bytes
  sc_rname :: bytes
  sc_stats :: sync_stats
  sy_args :: sync_args
  sy_diff_only :: bool
  sy_diff_flags :: "32 word"
  sy_path_strip :: bool
  sy_since :: fftime
  sy_tree :: 't
  sy_rc :: int

section \<open>Arguments\<close>

fun diff_flags_loop :: "bytes \<Rightarrow> 32 word \<Rightarrow> 32 word option" where
  "diff_flags_loop [] r = Some r"
| "diff_flags_loop (c # cs) r =
     (if c = CHR ''A'' then diff_flags_loop cs (r OR FCOM_SYNC_LEFT)
      else if c = CHR ''D'' then diff_flags_loop cs (r OR FCOM_SYNC_RIGHT)
      else if c = CHR ''U'' then diff_flags_loop cs (r OR FCOM_SYNC_NEQ)
      else if c = CHR ''M'' then diff_flags_loop cs (r OR FCOM_SYNC_MOVE)
      else None)"

definition diff_flags_parse :: "bytes \<Rightarrow> 32 word option" where
  "diff_flags_parse s =
     (if s = [] then Some (FCOM_SYNC_LEFT OR FCOM_SYNC_RIGHT OR FCOM_SYNC_EQ OR FCOM_SYNC_NEQ OR FCOM_SYNC_MOVE)
      else diff_flags_loop s 0)"

text \<open>\<open>args_parse\<close> after the options are read: \<open>diff_only\<close>, the flags shown, the oldest time, the command.\<close>

definition sync_args_parse :: "fftime \<Rightarrow> sync_args \<Rightarrow> 'k cominfo \<Rightarrow> (bool \<times> 32 word \<times> fftime \<times> 'k cominfo) option" where
  "sync_args_parse clock a cmd0 =
     (let cmd = cmd0\<lparr>ci_recursive := 1\<rparr>;
          fl = (case ya_diff a of None \<Rightarrow> Some 0 | Some s \<Rightarrow> diff_flags_parse s)
      in if ya_left_snapshot a \<and> ya_snapshot a then None
         else case fl of
                None \<Rightarrow> None
              | Some f \<Rightarrow>
                  if ya_plain a \<and> ya_diff a = None then None
                  else if ci_output cmd = [] \<and> \<not> ci_stdout cmd then None
                  else Some (ya_diff a \<noteq> None, (if ya_no_dir a then f else f OR FCOM_SYNC_DIR),
                             (if ya_recent_days a = 0 then (0, 0)
                              else (fst clock - uint (ya_recent_days a * 60 * 60 * 24), snd clock)), cmd))"

definition sync_create ::
  "('s, 'i, 't, 'b, 'e, 'c, 'd, 'z, 'f, 'p, 'k) syncenv \<Rightarrow> sync_args \<Rightarrow> 'k cominfo \<Rightarrow> 'f \<Rightarrow> 't \<Rightarrow> ('t, 'b, 'c, 'f, 'k) sync option" where
  "sync_create Y a cmd0 f0 t =
     (case sync_args_parse (y_clock Y) a cmd0 of
        None \<Rightarrow> None
      | Some (donly, flags, since, cmd) \<Rightarrow>
          Some \<lparr>sy_st = SyInit, sy_cmd = cmd, sy_src = None, sy_dst = None, sy_input = None, sy_dir = [],
                sy_ent = \<lparr>et_type = CHR 0x00, et_name = [], et_d = no_entry\<rparr>, sy_cmp_idx = 0, sy_cmp = diff_new f0,
                sy_sw = \<lparr>ws_hdr = False, ws_ent_ready = False, ws_bhdr = False, ws_bftr = False, ws_snap = None\<rparr>,
                sc_idx = 0, sc_lname = [], sc_rname = [], sc_stats = \<lparr>st_add = 0, st_del = 0, st_overwritten = 0\<rparr>,
                sy_args = a, sy_diff_only = donly, sy_diff_flags = flags, sy_path_strip = \<not> ya_snapshot a,
                sy_since = since, sy_tree = t, sy_rc = 1\<rparr>)"

section \<open>The trees\<close>

fun add_inputs :: "('t, 'b, 'e, 'c) fntree \<Rightarrow> bytes list \<Rightarrow> 'b \<Rightarrow> 't \<Rightarrow> (bool \<times> 'b) \<times> 't" where
  "add_inputs F [] b t = ((True, b), t)"
| "add_inputs F (n # ns) b t =
     (case ft_add F b n t of
        (None, t) \<Rightarrow> ((False, b), t)
      | (Some (e, b), t) \<Rightarrow> add_inputs F ns b t)"

type_synonym ('s, 't, 'b, 'c, 'f, 'k, 'a) sync_act = "('t, 'b, 'c, 'f, 'k) sync \<Rightarrow> ('s, 'a \<times> ('t, 'b, 'c, 'f, 'k) sync) act"

definition left_tree_init :: "('s, 'i, 't, 'b, 'e, 'c, 'd, 'z, 'f, 'p, 'k) syncenv \<Rightarrow> ('s, 't, 'b, 'c, 'f, 'k, bool) sync_act" where
  "left_tree_init Y c s =
     (let (b, t) = ft_create (y_ft Y) [] (sy_tree c);
          ((ok, b), t) = add_inputs (y_ft Y) (ci_input (sy_cmd c)) b t;
          root = (if length (ci_input (sy_cmd c)) = 1 then hd (ci_input (sy_cmd c)) else []);
          sp = snap_new (y_ft Y) (ya_zip_expand (sy_args c)) (if ok then root else []) b;
          c = c\<lparr>sy_tree := t, sy_src := Some sp\<rparr>
      in if \<not> ok then Some ((False, c), s)
         else do { (f, s) \<leftarrow> fi_create (y_core Y) (ci_buffer_size (sy_cmd c)) s; Some ((True, c\<lparr>sy_input := Some f\<rparr>), s) })"

definition right_tree_init :: "('s, 'i, 't, 'b, 'e, 'c, 'd, 'z, 'f, 'p, 'k) syncenv \<Rightarrow> ('s, 't, 'b, 'c, 'f, 'k, bool) sync_act" where
  "right_tree_init Y c s =
     (let (b, t) = ft_create (y_ft Y) [] (sy_tree c); out = ci_output (sy_cmd c); zip = ya_zip_expand (sy_args c)
      in case ft_add (y_ft Y) b out t of
           (None, t) \<Rightarrow> Some ((False, c\<lparr>sy_tree := t, sy_dst := Some (snap_new (y_ft Y) zip [] b)\<rparr>), s)
         | (Some (e, b), t) \<Rightarrow>
             (let c = c\<lparr>sy_tree := t, sy_dst := Some (snap_new (y_ft Y) zip out b)\<rparr>
              in if sy_input c \<noteq> None then Some ((True, c), s)
                 else do { (f, s) \<leftarrow> fi_create (y_core Y) (ci_buffer_size (sy_cmd c)) s;
                           Some ((True, c\<lparr>sy_input := Some f\<rparr>), s) }))"

section \<open>The differences\<close>

definition diff_begin_flags :: "('t, 'b, 'c, 'f, 'k) sync \<Rightarrow> 32 word" where
  "diff_begin_flags c =
     (if sy_path_strip c then FCOM_SYNC_DIFF_LEFT_PATH_STRIP OR FCOM_SYNC_DIFF_RIGHT_PATH_STRIP else 0) OR
     (if ya_no_attr (sy_args c) then FCOM_SYNC_DIFF_NO_ATTR else 0) OR
     (if ya_no_time (sy_args c) then FCOM_SYNC_DIFF_NO_TIME else 0) OR
     (if ya_time_2sec (sy_args c) then FCOM_SYNC_DIFF_TIME_2SEC else 0)"

definition diff_begin :: "('s, 'i, 't, 'b, 'e, 'c, 'd, 'z, 'f, 'p, 'k) syncenv \<Rightarrow> ('t, 'b, 'c, 'f, 'k) sync \<Rightarrow> ('t, 'b, 'c, 'f, 'k) sync" where
  "diff_begin Y c =
     (let l = the (sy_src c); r = the (sy_dst c)
      in c\<lparr>sy_cmp := diff_init (y_walk Y (sy_tree c) (sp_root l) (sp_root r)) (sp_root_dir l) (sp_root_dir r)
                       (sp_total l) (sp_total r) (diff_begin_flags c) (sy_cmp c)\<rparr>)"

definition diff_fin :: "('s, 'i, 't, 'b, 'e, 'c, 'd, 'z, 'f, 'p, 'k) syncenv \<Rightarrow> ('t, 'b, 'c, 'f, 'k) sync \<Rightarrow> ('t, 'b, 'c, 'f, 'k) sync" where
  "diff_fin Y c =
     c\<lparr>sy_cmp := snd (sync_view (y_lib Y)
         \<lparr>p_include = ci_include (sy_cmd c), p_exclude = ci_exclude (sy_cmd c), p_since = sy_since c, p_include_both = False\<rparr>
         (sy_diff_flags c) (sy_cmp c))\<rparr>"

text \<open>The signs of a changed file: age, size, attributes, comparison.\<close>

definition upd_signs :: "32 word \<Rightarrow> char \<times> char \<times> char \<times> bytes" where
  "upd_signs st =
     ((if has st FCOM_SYNC_NEWER then CHR ''N'' else if has st FCOM_SYNC_OLDER then CHR ''O'' else CHR ''.''),
      (if has st FCOM_SYNC_LARGER then CHR ''>'' else if has st FCOM_SYNC_SMALLER then CHR ''<'' else CHR ''.''),
      (if has st FCOM_SYNC_ATTR then CHR ''A'' else CHR ''.''),
      (if has st FCOM_SYNC_LARGER then ''> '' else if has st FCOM_SYNC_SMALLER then ''< ''
       else if has st FCOM_SYNC_NEWER then ''>='' else if has st FCOM_SYNC_OLDER then ''<='' else ''!=''))"

definition WIDTH_NAME :: nat where "WIDTH_NAME = 40"

definition status_line :: "('s, 'i, 't, 'b, 'e, 'c, 'd, 'z, 'f, 'p, 'k) syncenv \<Rightarrow> diff_entry \<Rightarrow> bytes \<Rightarrow> bytes \<Rightarrow> bytes option" where
  "status_line Y de lname rname =
     (let (add, del, mov, reset) = (case y_color Y of None \<Rightarrow> ([], [], [], []) | Some q \<Rightarrow> q);
          st = de_status de; k = st AND FCOM_SYNC_MASK; L = y_pad Y WIDTH_NAME lname
      in if k = FCOM_SYNC_LEFT then Some (add @ ''ADD       '' @ L @ ''  >>'' @ reset)
         else if k = FCOM_SYNC_RIGHT then Some (del @ ''DEL       '' @ replicate WIDTH_NAME CHR '' '' @ ''  <<  '' @ rname @ reset)
         else if k = FCOM_SYNC_MOVE then Some (mov @ ''MOV       '' @ L @ ''  ->  '' @ rname @ reset)
         else if k = FCOM_SYNC_NEQ then
           (let (a1, a2, a3, cmp) = upd_signs st;
                sizes = (if has st (FCOM_SYNC_LARGER OR FCOM_SYNC_SMALLER)
                         then '' '' @ y_padnum Y 10 (se_size (the (de_left de))) @ '' '' @ y_padnum Y 10 (se_size (the (de_right de))) else []);
                attrs = (if has st FCOM_SYNC_ATTR
                         then '' '' @ tl_hex (y_text Y) (unix_attr (the (de_left de))) @ '' '' @ tl_hex (y_text Y) (unix_attr (the (de_right de))) else [])
            in Some (''UPD['' @ [a1, a2, a3] @ '']  '' @ L @ ''  '' @ cmp @ ''  '' @ y_pad Y WIDTH_NAME rname @ sizes @ attrs))
         else None)"

definition status_print :: "('s, 'i, 't, 'b, 'e, 'c, 'd, 'z, 'f, 'p, 'k) syncenv \<Rightarrow> ('t, 'b, 'c, 'f, 'k) sync \<Rightarrow> diff_entry \<Rightarrow> ('s, unit) act" where
  "status_print Y c de s =
     (let root = sp_root_dir (the (sy_src c)); cut = (\<not> ya_full_name (sy_args c) \<and> root \<noteq> []);
          lname = (if cut then drop (length root) (de_lname de) else de_lname de);
          rname = (if cut then drop (length (ci_output (sy_cmd c))) (de_rname de) else de_rname de)
      in case status_line Y de lname rname of None \<Rightarrow> Some ((), s) | Some line \<Rightarrow> y_show Y line s)"

text \<open>\<open>diff_show_next\<close>: \<^const>\<open>True\<close> when there is no row left. An unknown status fails an assertion.\<close>

definition diff_show_next :: "('s, 'i, 't, 'b, 'e, 'c, 'd, 'z, 'f, 'p, 'k) syncenv \<Rightarrow> ('s, 't, 'b, 'c, 'f, 'k, bool) sync_act" where
  "diff_show_next Y c0 s =
     (let c = c0\<lparr>sy_cmp_idx := sy_cmp_idx c0 + 1\<rparr>
      in case sync_info (sy_cmp c) (sy_cmp_idx c0) 0 of
           None \<Rightarrow> Some ((True, c), s)
         | Some de \<Rightarrow>
             (let k = de_status de AND FCOM_SYNC_MASK
              in if ya_plain (sy_args c) then
                   do { (_, s) \<leftarrow> (if k = FCOM_SYNC_LEFT \<or> k = FCOM_SYNC_NEQ \<or> k = FCOM_SYNC_MOVE then y_print Y (de_lname de @ [CHR 0x0A]) s
                                  else if k = FCOM_SYNC_RIGHT then y_print Y (de_rname de @ [CHR 0x0A]) s else Some ((), s));
                        Some ((False, c), s) }
                 else if k \<in> {FCOM_SYNC_LEFT, FCOM_SYNC_RIGHT, FCOM_SYNC_NEQ, FCOM_SYNC_MOVE} then
                   do { (_, s) \<leftarrow> status_print Y c de s; Some ((False, c), s) }
                 else if k = FCOM_SYNC_EQ then Some ((False, c), s)
                 else None))"

section \<open>Acting on a difference\<close>

text \<open>
  \<open>out_name\<close> of \<open>sync-fsync.h\<close>: the name on the other side. The terminating NUL of the format \<open>%Z\<close> is part of the
  string.
\<close>

definition sync_out_name :: "bytes \<Rightarrow> bytes \<Rightarrow> bytes \<Rightarrow> bytes" where
  "sync_out_name lname lbase rbase =
     (let l = drop (length lbase) lname;
          l = (if l \<noteq> [] \<and> hd l = FFPATH_SLASH then tl l else l)
      in rbase @ [FFPATH_SLASH] @ l @ [CHR 0x00])"

definition sync_copy_info :: "'k cominfo \<Rightarrow> ('t, 'b, 'c, 'f, 'k) sync \<Rightarrow> bytes \<Rightarrow> bytes \<Rightarrow> 32 word \<Rightarrow> 'k cominfo" where
  "sync_copy_info new c src dst status =
     new\<lparr>ci_operation := Some ''copy'',
         ci_argv := [''--verify''] @ (if ya_replace_date (sy_args c) then [''--update'', ''--replace-date''] else []) @
                    (if ya_write_into (sy_args c) then [''--write-into''] else []),
         ci_input := [src], ci_output := dst, ci_recursive := 0xff, ci_test := ci_test (sy_cmd c),
         ci_buffer_size := ci_buffer_size (sy_cmd c), ci_directio := ci_directio (sy_cmd c),
         ci_overwrite := (ci_overwrite (sy_cmd c) \<or> status = FCOM_SYNC_NEQ)\<rparr>"

definition sync_trash_info :: "'k cominfo \<Rightarrow> ('t, 'b, 'c, 'f, 'k) sync \<Rightarrow> bytes \<Rightarrow> 'k cominfo" where
  "sync_trash_info new c rname =
     new\<lparr>ci_operation := Some ''trash'', ci_input := [rname], ci_test := ci_test (sy_cmd c),
         ci_buffer_size := ci_buffer_size (sy_cmd c), ci_overwrite := ci_overwrite (sy_cmd c)\<rparr>"

text \<open>\<open>sync_move\<close>; an entry without a left side is used through a null pointer.\<close>

definition sync_move :: "('s, 'i, 't, 'b, 'e, 'c, 'd, 'z, 'f, 'p, 'k) syncenv \<Rightarrow> ('t, 'b, 'c, 'f, 'k) sync \<Rightarrow> cmp_ent \<Rightarrow> bytes \<Rightarrow> ('s, bytes) act" where
  "sync_move Y c ce rname s =
     (case ce_l ce of
        None \<Rightarrow> None
      | Some (e, lpath) \<Rightarrow>
          (let to = sp_root_dir (the (sy_dst c)) @ drop (length (sp_root_dir (the (sy_src c)))) lpath @ [FFPATH_SLASH] @ en_name e
           in do { (r, s) \<leftarrow> fi_move (y_core Y) rname to FCOM_FILE_MOVE_SAFE s; Some (to, s) }))"

datatype sync1_ret = S1Go | S1End | S1Async

definition sync1 :: "('s, 'i, 't, 'b, 'e, 'c, 'd, 'z, 'f, 'p, 'k) syncenv \<Rightarrow> ('s, 't, 'b, 'c, 'f, 'k, sync1_ret) sync_act" where
  "sync1 Y c0 s =
     (if sc_idx c0 = length (d_ents (sy_cmp c0)) then Some ((S1End, c0), s)
      else
        (let ce = d_ents (sy_cmp c0) ! sc_idx c0; l = full_name (ce_l ce); r = full_name (ce_r ce);
             c = c0\<lparr>sc_lname := l, sc_rname := r\<rparr>; k = ce_status ce AND FCOM_SYNC_MASK; a = sy_args c;
             go = c\<lparr>sc_idx := sc_idx c + 1\<rparr>;
             copy = (\<lambda>st. do { (_, s) \<leftarrow> y_start Y (sync_copy_info (y_new Y) c l
                                   (sync_out_name l (d_lroot (sy_cmp c)) (d_rroot (sy_cmp c))) st) s;
                              Some ((S1Async, c), s) })
         in if k = FCOM_SYNC_LEFT then (if ya_add a then copy 0 else Some ((S1Go, go), s))
            else if k = FCOM_SYNC_RIGHT then
              (if ya_del a then do { (_, s) \<leftarrow> y_start Y (sync_trash_info (y_new Y) c r) s; Some ((S1Async, c), s) }
               else Some ((S1Go, go), s))
            else if k = FCOM_SYNC_EQ then Some ((S1Go, go), s)
            else if k = FCOM_SYNC_NEQ then (if ya_update a then copy FCOM_SYNC_NEQ else Some ((S1Go, go), s))
            else if k = FCOM_SYNC_MOVE then
              (if ya_move a then do { (to, s) \<leftarrow> sync_move Y c ce r s; Some ((S1Go, go\<lparr>sc_lname := to\<rparr>), s) }
               else Some ((S1Go, go), s))
            else None))"

text \<open>\<open>sync_f_copy\<close> and \<open>sync_f_del\<close>: the commands the interface starts for one difference.\<close>

definition sync_f_copy :: "'k cominfo \<Rightarrow> bytes \<Rightarrow> bytes \<Rightarrow> 32 word \<Rightarrow> bool \<Rightarrow> 'k cominfo" where
  "sync_f_copy new src dst flags overwrite =
     new\<lparr>ci_operation := Some ''copy'',
         ci_argv := (if has flags FCOM_SYNC_VERIFY then [''--verify''] else []) @
                    (if has flags FCOM_SYNC_REPLACE_DATE then [''--update'', ''--replace-date''] else []) @
                    (if has flags FCOM_SYNC_WRITE_INTO then [''--write-into''] else []) @ [''--md5''],
         ci_input := [src], ci_output := dst, ci_recursive := 0xff, ci_overwrite := overwrite\<rparr>"

definition sync_f_del :: "'k cominfo \<Rightarrow> bytes list \<Rightarrow> 'k cominfo" where
  "sync_f_del new inp = new\<lparr>ci_operation := Some ''trash'', ci_input := inp, ci_overwrite := True\<rparr>"

text \<open>\<open>sync_sync\<close> on the entry \<open>i\<close>: 1 is a command that was started, 0 done, -1 an error.\<close>

definition sync_sync :: "('s, 'i, 't, 'b, 'e, 'c, 'd, 'z, 'f, 'p, 'k) syncenv \<Rightarrow> 'f diff \<Rightarrow> nat \<Rightarrow> 32 word \<Rightarrow> ('s, int) act" where
  "sync_sync Y sd i flags s =
     (let de = sync_info_id sd i flags;
          (l, r) = (if has flags FCOM_SYNC_SWAP then (d_rroot sd, d_lroot sd) else (d_lroot sd, d_rroot sd));
          k = de_status de AND FCOM_SYNC_MASK
      in if k = FCOM_SYNC_LEFT \<or> k = FCOM_SYNC_NEQ then
           do { (_, s) \<leftarrow> y_start Y (sync_f_copy (y_new Y) (de_lname de) (sync_out_name (de_lname de) l r) flags (has (de_status de) FCOM_SYNC_NEQ)) s;
                Some (1, s) }
         else if k = FCOM_SYNC_RIGHT then do { (_, s) \<leftarrow> y_start Y (sync_f_del (y_new Y) [de_rname de]) s; Some (1, s) }
         else if k = FCOM_SYNC_EQ then Some (0, s)
         else if k = FCOM_SYNC_MOVE then
           (if has flags FCOM_SYNC_REPLACE_DATE then Some (-1, s)
            else
              (let n = de_lname de;
                   n = (if n \<noteq> [] \<and> hd n = FFPATH_SLASH then tl n else n)
               in do { (x, s) \<leftarrow> fi_move (y_core Y) (de_rname de) (r @ [FFPATH_SLASH] @ drop (length l) n) FCOM_FILE_MOVE_SAFE s;
                       Some (if x \<noteq> FOk then -1 else 0, s) }))
         else None)"

section \<open>The operation\<close>

type_synonym ('s, 't, 'b, 'c, 'f, 'k) sync_turn =
  "('t, 'b, 'c, 'f, 'k) sync \<Rightarrow> ('s, ('t, 'b, 'c, 'f, 'k) sync + ('t, 'b, 'c, 'f, 'k) sync \<times> int) act"

text \<open>The code beside the object only tells a run that ends (0) from one that waits (\<open>SY_ASYNC\<close>); the exit code is \<open>sy_rc\<close>.\<close>

definition SY_ASYNC :: int where "SY_ASYNC = 0x123"

definition sy_init :: "('t, 'b, 'c, 'f, 'k) sync \<Rightarrow> ('t, 'b, 'c, 'f, 'k) sync" where
  "sy_init c = c\<lparr>sy_st := (if ya_left_snapshot (sy_args c) then SyLsnap else SyInPrep)\<rparr>"

definition sy_in :: "('s, 'i, 't, 'b, 'e, 'c, 'd, 'z, 'f, 'p, 'k) syncenv \<Rightarrow> ('s, 't, 'b, 'c, 'f, 'k) sync_turn" where
  "sy_in Y c s =
     do { (((r, e), sp, t), s) \<leftarrow> scan_next (y_ft Y) (y_scan Y) (the (sy_src c)) (sy_tree c) s;
          let wr = ya_snapshot (sy_args c);
              c = c\<lparr>sy_src := Some sp, sy_tree := t, sy_ent := (case e of None \<Rightarrow> sy_ent c | Some e \<Rightarrow> e)\<rparr>
          in if r = ScDone then
               Some (Inl (if wr then c\<lparr>sy_rc := 0, sy_sw := (sy_sw c)\<lparr>ws_bftr := True\<rparr>, sy_st := SySnapWr\<rparr> else c\<lparr>sy_st := SyOutInit\<rparr>), s)
             else if r = ScErro then Some (Inl c, s)
             else
               (let w = sy_sw c;
                    w = (if r = ScNblk then w\<lparr>ws_bftr := (ws_bftr w \<or> ws_hdr w), ws_bhdr := True\<rparr> else w);
                    c = c\<lparr>sy_sw := w\<lparr>ws_ent_ready := True\<rparr>\<rparr>;
                    c = (if ws_hdr w then c\<lparr>sy_dir := sp_path sp, sy_ent := (sy_ent c)\<lparr>et_name := sp_name_segment sp\<rparr>\<rparr> else c)
                in Some (Inl (if wr then c\<lparr>sy_st := SySnapWr\<rparr> else c), s)) }"

definition sy_in_prep :: "('s, 'i, 't, 'b, 'e, 'c, 'd, 'z, 'f, 'p, 'k) syncenv \<Rightarrow> ('s, 't, 'b, 'c, 'f, 'k) sync_turn" where
  "sy_in_prep Y c s =
     do { ((ok, c), s) \<leftarrow> left_tree_init Y c s;
          if \<not> ok then Some (Inr (c, 0), s) else sy_in Y (c\<lparr>sy_st := SyIn\<rparr>) s }"

text \<open>A snapshot in place of a tree, as \<open>sync_snapshot_open\<close> makes it.\<close>

definition open_snapshot :: "('s, 'i, 't, 'b, 'e, 'c, 'd, 'z, 'f, 'p, 'k) syncenv \<Rightarrow> bytes \<Rightarrow> 't \<Rightarrow> ('s, ('b, 'c) snapshot option \<times> 't) act" where
  "open_snapshot Y fn t s =
     do { ((x, t), s) \<leftarrow> sync_snapshot_open (y_conf Y) (y_ft Y) (y_text Y) (y_readwhole Y) fn t s;
          Some (((case x of
                    Some (Some b, n) \<Rightarrow> Some ((snap_new (y_ft Y) False [] b)\<lparr>sp_total := n\<rparr>)
                  | _ \<Rightarrow> None), t), s) }"

definition sy_lsnap :: "('s, 'i, 't, 'b, 'e, 'c, 'd, 'z, 'f, 'p, 'k) syncenv \<Rightarrow> ('s, 't, 'b, 'c, 'f, 'k) sync_turn" where
  "sy_lsnap Y c s =
     (if ci_input (sy_cmd c) = [] then Some (Inr (c, 0), s)
      else do { ((x, t), s) \<leftarrow> open_snapshot Y (hd (ci_input (sy_cmd c))) (sy_tree c) s;
                let c = c\<lparr>sy_src := x, sy_tree := t\<rparr>
                in Some (if x = None then Inr (c, 0) else Inl (c\<lparr>sy_st := SyOutInit\<rparr>), s) })"

definition sy_out :: "('s, 'i, 't, 'b, 'e, 'c, 'd, 'z, 'f, 'p, 'k) syncenv \<Rightarrow> ('s, 't, 'b, 'c, 'f, 'k) sync_turn" where
  "sy_out Y c s =
     do { (((r, e), sp, t), s) \<leftarrow> scan_next (y_ft Y) (y_scan Y) (the (sy_dst c)) (sy_tree c) s;
          let c = c\<lparr>sy_dst := Some sp, sy_tree := t\<rparr>
          in Some (Inl (if r = ScDone then c\<lparr>sy_st := SyDiffBegin\<rparr> else c), s) }"

definition sy_out_init :: "('s, 'i, 't, 'b, 'e, 'c, 'd, 'z, 'f, 'p, 'k) syncenv \<Rightarrow> ('s, 't, 'b, 'c, 'f, 'k) sync_turn" where
  "sy_out_init Y c s =
     (if ya_right_snapshot (sy_args c) then
        do { ((x, t), s) \<leftarrow> open_snapshot Y (ci_output (sy_cmd c)) (sy_tree c) s;
             let c = c\<lparr>sy_dst := x, sy_tree := t\<rparr>
             in Some (if x = None then Inr (c, 0) else Inl (c\<lparr>sy_st := SyDiffBegin\<rparr>), s) }
      else do { ((ok, c), s) \<leftarrow> right_tree_init Y c s;
                if \<not> ok then Some (Inr (c, 0), s) else sy_out Y (c\<lparr>sy_st := SyOut\<rparr>) s })"

definition sy_diff :: "('s, 'i, 't, 'b, 'e, 'c, 'd, 'z, 'f, 'p, 'k) syncenv \<Rightarrow> ('s, 't, 'b, 'c, 'f, 'k) sync_turn" where
  "sy_diff Y c s =
     do { (done, d, s) \<leftarrow> diff_next (y_lib Y) (sy_cmp c) s;
          let c = c\<lparr>sy_cmp := d\<rparr>
          in Some (Inl (if done then (diff_fin Y c)\<lparr>sy_st := SyDiffShow\<rparr> else c), s) }"

definition sy_diff_show :: "('s, 'i, 't, 'b, 'e, 'c, 'd, 'z, 'f, 'p, 'k) syncenv \<Rightarrow> ('s, 't, 'b, 'c, 'f, 'k) sync_turn" where
  "sy_diff_show Y c s =
     do { ((done, c), s) \<leftarrow> diff_show_next Y c s;
          Some (if \<not> done then Inl c
                else if sy_diff_only c then Inr (c\<lparr>sy_rc := 0\<rparr>, 0)
                else Inl (c\<lparr>sy_st := SySync\<rparr>), s) }"

definition sy_sync :: "('s, 'i, 't, 'b, 'e, 'c, 'd, 'z, 'f, 'p, 'k) syncenv \<Rightarrow> ('s, 't, 'b, 'c, 'f, 'k) sync_turn" where
  "sy_sync Y c s =
     do { ((r, c), s) \<leftarrow> sync1 Y c s;
          Some (case r of S1Go \<Rightarrow> Inl c | S1Async \<Rightarrow> Inr (c, SY_ASYNC) | S1End \<Rightarrow> Inr (c\<lparr>sy_rc := 0\<rparr>, 0), s) }"

definition sy_snap_wr :: "('s, 'i, 't, 'b, 'e, 'c, 'd, 'z, 'f, 'p, 'k) syncenv \<Rightarrow> ('s, 't, 'b, 'c, 'f, 'k) sync_turn" where
  "sy_snap_wr Y c s =
     do { ((ok, w), s) \<leftarrow> wsnap_process (y_core Y) (y_text Y) (sy_cmd c) (sy_dir c) (sy_ent c) (sy_sw c) s;
          let c = c\<lparr>sy_sw := w\<rparr>
          in Some (if \<not> ok \<or> sy_rc c = 0 then Inr (c, 0) else Inl (c\<lparr>sy_st := SyIn\<rparr>), s) }"

definition sync_turn :: "('s, 'i, 't, 'b, 'e, 'c, 'd, 'z, 'f, 'p, 'k) syncenv \<Rightarrow> ('s, 't, 'b, 'c, 'f, 'k) sync_turn" where
  "sync_turn Y c s =
     (case sy_st c of
        SyInit \<Rightarrow> Some (Inl (sy_init c), s) | SyInPrep \<Rightarrow> sy_in_prep Y c s | SyIn \<Rightarrow> sy_in Y c s | SyLsnap \<Rightarrow> sy_lsnap Y c s
      | SyOutInit \<Rightarrow> sy_out_init Y c s | SyOut \<Rightarrow> sy_out Y c s
      | SyDiffBegin \<Rightarrow> sy_diff Y ((diff_begin Y c)\<lparr>sy_st := SyDiff\<rparr>) s | SyDiff \<Rightarrow> sy_diff Y c s
      | SyDiffShow \<Rightarrow> sy_diff_show Y c s | SySync \<Rightarrow> sy_sync Y c s | SySnapWr \<Rightarrow> sy_snap_wr Y c s)"

text \<open>\<open>sync_close\<close> with the destructors: the trees, the snapshot file, the input object.\<close>

definition sync_close :: "('s, 'i, 't, 'b, 'e, 'c, 'd, 'z, 'f, 'p, 'k) syncenv \<Rightarrow> ('t, 'b, 'c, 'f, 'k) sync \<Rightarrow> ('s, unit) act" where
  "sync_close Y c s =
     do { (_, s) \<leftarrow> (case ws_snap (sy_sw c) of None \<Rightarrow> Some ((), s) | Some f \<Rightarrow> fi_destroy (y_core Y) f s);
          case sy_input c of None \<Rightarrow> Some ((), s) | Some f \<Rightarrow> fi_destroy (y_core Y) f s }"

text \<open>\<open>sync_run\<close>: \<^const>\<open>None\<close> in the result is a run that waits for a command; else the code the command completes with. The
  operation's own \<open>s->stop\<close>, which \<open>sync_signal\<close> sets from outside, is read through \<open>stop_flag\<close> of the core's record.\<close>

definition sync_run ::
  "('s, 'i, 't, 'b, 'e, 'c, 'd, 'z, 'f, 'p, 'k) syncenv \<Rightarrow> ('t, 'b, 'c, 'f, 'k) sync \<Rightarrow> ('s, int option \<times> ('t, 'b, 'c, 'f, 'k) sync) act" where
  "sync_run Y c s =
     do { ((c, k), s) \<leftarrow> op_loop (stop_flag (y_core Y)) (sync_turn Y) (c\<lparr>sy_rc := 1\<rparr>) s;
          if k = SY_ASYNC then Some ((None, c), s)
          else do { (_, s) \<leftarrow> sync_close Y c s; Some ((Some (sy_rc c), c), s) } }"

text \<open>The callback of a command that was started: an error ends the operation, else it goes on with the next entry.\<close>

definition sync_on_op_complete ::
  "('s, 'i, 't, 'b, 'e, 'c, 'd, 'z, 'f, 'p, 'k) syncenv \<Rightarrow> int \<Rightarrow> ('t, 'b, 'c, 'f, 'k) sync \<Rightarrow> ('s, int option \<times> ('t, 'b, 'c, 'f, 'k) sync) act" where
  "sync_on_op_complete Y result c s =
     (if result \<noteq> 0 then do { (_, s) \<leftarrow> sync_close Y c s; Some ((Some result, c), s) }
      else
        (let k = ce_status (d_ents (sy_cmp c) ! sc_idx c) AND FCOM_SYNC_MASK; st = sc_stats c;
             st = (if k = FCOM_SYNC_LEFT then st\<lparr>st_add := st_add st + 1\<rparr>
                   else if k = FCOM_SYNC_NEQ then st\<lparr>st_overwritten := st_overwritten st + 1\<rparr>
                   else if k = FCOM_SYNC_RIGHT then st\<lparr>st_del := st_del st + 1\<rparr> else st)
         in sync_run Y (c\<lparr>sc_stats := st, sc_idx := sc_idx c + 1\<rparr>) s))"

end
