(* ===== verification/SyncRunProps.thy ===== *)
theory SyncRunProps
  imports SyncRun
begin

text \<open>
  What a run of \<open>sync\<close> does: the rows it shows, the commands it starts and the files it moves for the
  rows of the comparison, with a failing command in between, and that a run with \<open>--diff\<close> does nothing.
\<close>

section \<open>The deeds of a run\<close>

text \<open>
  What a run does to the files is a sequence of deeds: a command run, a file moved. \<open>row_deed\<close> is the deed a row calls for
  under the options.
\<close>

datatype 'k deed = Ran "'k cominfo" | Moved bytes bytes

definition row_deed :: "'k cominfo \<Rightarrow> ('t, 'b, 'c, 'f, 'k) sync \<Rightarrow> cmp_ent \<Rightarrow> 'k deed option" where
  "row_deed new c ce =
     (let k = ce_status ce AND FCOM_SYNC_MASK; a = sy_args c; l = full_name (ce_l ce); r = full_name (ce_r ce);
          out = sync_out_name l (d_lroot (sy_cmp c)) (d_rroot (sy_cmp c))
      in if k = FCOM_SYNC_LEFT \<and> ya_add a then Some (Ran (sync_copy_info new c l out 0))
         else if k = FCOM_SYNC_NEQ \<and> ya_update a then Some (Ran (sync_copy_info new c l out FCOM_SYNC_NEQ))
         else if k = FCOM_SYNC_RIGHT \<and> ya_del a then Some (Ran (sync_trash_info new c r))
         else if k = FCOM_SYNC_MOVE \<and> ya_move a then
           Some (Moved r (sp_root_dir (the (sy_dst c)) @ drop (length (sp_root_dir (the (sy_src c)))) (snd (the (ce_l ce))) @
             [FFPATH_SLASH] @ en_name (fst (the (ce_l ce)))))
         else None)"

definition row_ok :: "sync_args \<Rightarrow> cmp_ent \<Rightarrow> bool" where
  "row_ok a ce \<longleftrightarrow>
     (let k = ce_status ce AND FCOM_SYNC_MASK
      in k \<in> {FCOM_SYNC_LEFT, FCOM_SYNC_RIGHT, FCOM_SYNC_EQ, FCOM_SYNC_NEQ, FCOM_SYNC_MOVE} \<and>
         (k = FCOM_SYNC_MOVE \<longrightarrow> ya_move a \<longrightarrow> ce_l ce \<noteq> None))"

definition count_row :: "cmp_ent \<Rightarrow> sync_stats \<Rightarrow> sync_stats" where
  "count_row ce st =
     (let k = ce_status ce AND FCOM_SYNC_MASK
      in if k = FCOM_SYNC_LEFT then st\<lparr>st_add := st_add st + 1\<rparr>
         else if k = FCOM_SYNC_NEQ then st\<lparr>st_overwritten := st_overwritten st + 1\<rparr>
         else if k = FCOM_SYNC_RIGHT then st\<lparr>st_del := st_del st + 1\<rparr> else st)"

text \<open>
  The rows in order, \<open>h\<close> the deeds done before. After the deeds \<open>h\<close> a command \<open>i\<close> completes with \<open>res h i\<close> and the file \<open>a\<close>
  can be moved to \<open>b\<close> when \<open>mv h a b\<close>; a move that is refused is passed over. The result: the deeds, the statistics and the
  code of the run, which is that of the first command that fails.
\<close>

fun do_rows ::
  "('k deed list \<Rightarrow> 'k cominfo \<Rightarrow> int) \<Rightarrow> ('k deed list \<Rightarrow> bytes \<Rightarrow> bytes \<Rightarrow> bool) \<Rightarrow> 'k cominfo \<Rightarrow> ('t, 'b, 'c, 'f, 'k) sync \<Rightarrow>
   'k deed list \<Rightarrow> cmp_ent list \<Rightarrow> sync_stats \<Rightarrow> 'k deed list \<times> sync_stats \<times> int" where
  "do_rows res mv new c h [] st = ([], st, 0)"
| "do_rows res mv new c h (ce # ces) st =
     (case row_deed new c ce of
        None \<Rightarrow> do_rows res mv new c h ces st
      | Some (Moved a b) \<Rightarrow>
          (let m = (if mv h a b then [Moved a b] else []);
               (ds, st, k) = do_rows res mv new c (h @ m) ces st in (m @ ds, st, k))
      | Some (Ran i) \<Rightarrow>
          if res h i \<noteq> 0 then ([Ran i], st, res h i)
          else (let (ds, st, k) = do_rows res mv new c (h @ [Ran i]) ces (count_row ce st) in (Ran i # ds, st, k)))"

text \<open>
  A run with the commands it starts: when it waits, the command runs (\<open>fin\<close>, which yields the code it completes with)
  and the callback is called.
\<close>

partial_function (option) sync_session ::
  "('s, 'i, 't, 'b, 'e, 'c, 'd, 'z, 'f, 'p, 'k) syncenv \<Rightarrow> ('s, int) act \<Rightarrow> int option \<Rightarrow> ('t, 'b, 'c, 'f, 'k) sync \<Rightarrow>
   ('s, int \<times> ('t, 'b, 'c, 'f, 'k) sync) act" where
  "sync_session Y fin r c s =
     (case r of
        Some k \<Rightarrow> Some ((k, c), s)
      | None \<Rightarrow>
          Option.bind (fin s)
            (\<lambda>(res, s). Option.bind (sync_on_op_complete Y res c s) (\<lambda>((r, c), s). sync_session Y fin r c s)))"

definition sync_whole ::
  "('s, 'i, 't, 'b, 'e, 'c, 'd, 'z, 'f, 'p, 'k) syncenv \<Rightarrow> ('s, int) act \<Rightarrow> ('t, 'b, 'c, 'f, 'k) sync \<Rightarrow>
   ('s, int \<times> ('t, 'b, 'c, 'f, 'k) sync) act" where
  "sync_whole Y fin c s = do { ((r, c), s) \<leftarrow> sync_run Y c s; sync_session Y fin r c s }"

text \<open>
  The documented effects of the calls, read off a log of deeds, in the states \<open>live\<close> in which the operation was not told to
  stop: a command that was started and a file that was moved are noted, closing notes nothing, and the states stay live.
\<close>

definition deeds_logged ::
  "('s, 'i, 't, 'b, 'e, 'c, 'd, 'z, 'f, 'p, 'k) syncenv \<Rightarrow> ('s, int) act \<Rightarrow> ('k deed list \<Rightarrow> 'k cominfo \<Rightarrow> int) \<Rightarrow>
   ('k deed list \<Rightarrow> bytes \<Rightarrow> bytes \<Rightarrow> bool) \<Rightarrow> ('s \<Rightarrow> 'k deed list) \<Rightarrow> ('s \<Rightarrow> bool) \<Rightarrow> bool" where
  "deeds_logged Y fin res mv led live \<longleftrightarrow>
     (\<forall>i s. live s \<longrightarrow> (\<exists>s1 s2. y_start Y i s = Some ((), s1) \<and> led s1 = led s @ [Ran i] \<and>
        fin s1 = Some (res (led s) i, s2) \<and> led s2 = led s1 \<and> live s2)) \<and>
     (\<forall>a b s. live s \<longrightarrow> (\<exists>r s'. fi_move (y_core Y) a b FCOM_FILE_MOVE_SAFE s = Some (r, s') \<and>
        led s' = led s @ (if mv (led s) a b then [Moved a b] else []) \<and> live s')) \<and>
     (\<forall>f s. live s \<longrightarrow> (\<exists>s'. fi_destroy (y_core Y) f s = Some ((), s') \<and> led s' = led s \<and> live s')) \<and>
     (\<forall>s. live s \<longrightarrow> \<not> stop_flag (y_core Y) s)"

lemma deeds_loggedD:
  assumes "deeds_logged Y fin res mv led live" "live s"
  shows "\<exists>s1 s2. y_start Y i s = Some ((), s1) \<and> led s1 = led s @ [Ran i] \<and> fin s1 = Some (res (led s) i, s2) \<and>
      led s2 = led s1 \<and> live s2"
    and "\<exists>r s'. fi_move (y_core Y) a b FCOM_FILE_MOVE_SAFE s = Some (r, s') \<and>
      led s' = led s @ (if mv (led s) a b then [Moved a b] else []) \<and> live s'"
    and "\<exists>s'. fi_destroy (y_core Y) f s = Some ((), s') \<and> led s' = led s \<and> live s'"
    and "\<not> stop_flag (y_core Y) s"
  using assms unfolding deeds_logged_def by blast+

lemma row_kinds_ne:
  shows "FCOM_SYNC_LEFT \<noteq> FCOM_SYNC_RIGHT" "FCOM_SYNC_LEFT \<noteq> FCOM_SYNC_NEQ" "FCOM_SYNC_LEFT \<noteq> FCOM_SYNC_MOVE"
    "FCOM_SYNC_LEFT \<noteq> FCOM_SYNC_EQ" "FCOM_SYNC_RIGHT \<noteq> FCOM_SYNC_LEFT" "FCOM_SYNC_RIGHT \<noteq> FCOM_SYNC_NEQ"
    "FCOM_SYNC_RIGHT \<noteq> FCOM_SYNC_MOVE" "FCOM_SYNC_RIGHT \<noteq> FCOM_SYNC_EQ" "FCOM_SYNC_NEQ \<noteq> FCOM_SYNC_LEFT"
    "FCOM_SYNC_NEQ \<noteq> FCOM_SYNC_RIGHT" "FCOM_SYNC_NEQ \<noteq> FCOM_SYNC_MOVE" "FCOM_SYNC_NEQ \<noteq> FCOM_SYNC_EQ"
    "FCOM_SYNC_MOVE \<noteq> FCOM_SYNC_LEFT" "FCOM_SYNC_MOVE \<noteq> FCOM_SYNC_RIGHT" "FCOM_SYNC_MOVE \<noteq> FCOM_SYNC_NEQ"
    "FCOM_SYNC_MOVE \<noteq> FCOM_SYNC_EQ" "FCOM_SYNC_EQ \<noteq> FCOM_SYNC_LEFT" "FCOM_SYNC_EQ \<noteq> FCOM_SYNC_RIGHT"
    "FCOM_SYNC_EQ \<noteq> FCOM_SYNC_NEQ" "FCOM_SYNC_EQ \<noteq> FCOM_SYNC_MOVE"
  by (simp_all add: FCOM_SYNC_LEFT_def FCOM_SYNC_RIGHT_def FCOM_SYNC_NEQ_def FCOM_SYNC_MOVE_def FCOM_SYNC_EQ_def)

section \<open>The phase that acts\<close>

lemma sync_close_logs:
  assumes "deeds_logged Y fin res mv led live" "live s"
  shows "\<exists>s'. sync_close Y c s = Some ((), s') \<and> led s' = led s"
proof -
  obtain s1 where s1: "(case ws_snap (sy_sw c) of None \<Rightarrow> Some ((), s) | Some f \<Rightarrow> fi_destroy (y_core Y) f s) = Some ((), s1)"
    "led s1 = led s" "live s1"
    using deeds_loggedD(3) [OF assms] assms(2) by (cases "ws_snap (sy_sw c)") auto
  obtain s2 where s2: "(case sy_input c of None \<Rightarrow> Some ((), s1) | Some f \<Rightarrow> fi_destroy (y_core Y) f s1) = Some ((), s2)"
    "led s2 = led s1"
    using deeds_loggedD(3) [OF assms(1) s1(3)] by (cases "sy_input c") auto
  from s1 s2 show ?thesis by (simp add: sync_close_def)
qed

lemma sync_run_go:
  assumes "\<not> stop_flag (y_core Y) s" "sy_st c = SySync" "sync1 Y (c\<lparr>sy_rc := 1\<rparr>) s = Some ((S1Go, c1), s1)" "sy_rc c1 = 1"
  shows "sync_run Y c s = sync_run Y c1 s1"
proof -
  have "op_turn (stop_flag (y_core Y)) (sync_turn Y) (c\<lparr>sy_rc := 1\<rparr>, s) (c1, s1)"
    using assms by (intro op_turnI) (simp_all add: sync_turn_def sy_sync_def)
  from op_loop_turn [OF this] have "op_loop (stop_flag (y_core Y)) (sync_turn Y) (c\<lparr>sy_rc := 1\<rparr>) s =
      op_loop (stop_flag (y_core Y)) (sync_turn Y) (c1\<lparr>sy_rc := 1\<rparr>) s1" using assms(4) by (cases c1) simp
  then show ?thesis by (simp add: sync_run_def)
qed

lemma sync_run_async:
  assumes "\<not> stop_flag (y_core Y) s" "sy_st c = SySync" "sync1 Y (c\<lparr>sy_rc := 1\<rparr>) s = Some ((S1Async, c1), s1)"
  shows "sync_run Y c s = Some ((None, c1), s1)"
proof -
  have "op_loop (stop_flag (y_core Y)) (sync_turn Y) (c\<lparr>sy_rc := 1\<rparr>) s = Some ((c1, SY_ASYNC), s1)"
    using assms by (intro op_loop_exit) (simp_all add: sync_turn_def sy_sync_def)
  then show ?thesis by (simp add: sync_run_def)
qed

lemma sync_run_end:
  assumes "deeds_logged Y fin res mv led live" "sy_st c = SySync" "sync1 Y (c\<lparr>sy_rc := 1\<rparr>) s = Some ((S1End, c1), s1)"
    "live s" "live s1"
  shows "\<exists>s'. sync_run Y c s = Some ((Some 0, c1\<lparr>sy_rc := 0\<rparr>), s') \<and> led s' = led s1"
proof -
  have "op_loop (stop_flag (y_core Y)) (sync_turn Y) (c\<lparr>sy_rc := 1\<rparr>) s = Some ((c1\<lparr>sy_rc := 0\<rparr>, 0), s1)"
    using assms(2,3) deeds_loggedD(4) [OF assms(1,4)] by (intro op_loop_exit) (simp_all add: sync_turn_def sy_sync_def)
  with sync_close_logs [OF assms(1,5), of "c1\<lparr>sy_rc := 0\<rparr>"] show ?thesis
    by (auto simp: sync_run_def SY_ASYNC_def)
qed


text \<open>One row: the deed is done or there is none.\<close>

lemma sync1_row:
  assumes env: "deeds_logged Y fin res mv led live" and live: "live s" and i: "sc_idx c < length (d_ents (sy_cmp c))"
    and ce: "ce = d_ents (sy_cmp c) ! sc_idx c" and ok: "row_ok (sy_args c) ce"
  defines "c1 \<equiv> c\<lparr>sc_lname := full_name (ce_l ce), sc_rname := full_name (ce_r ce)\<rparr>"
  shows "case row_deed (y_new Y) c ce of
      None \<Rightarrow> sync1 Y c s = Some ((S1Go, c1\<lparr>sc_idx := sc_idx c + 1\<rparr>), s)
    | Some (Moved a b) \<Rightarrow> \<exists>l s'. sync1 Y c s = Some ((S1Go, c1\<lparr>sc_idx := sc_idx c + 1, sc_lname := l\<rparr>), s') \<and>
        led s' = led s @ (if mv (led s) a b then [Moved a b] else []) \<and> live s'
    | Some (Ran k) \<Rightarrow> \<exists>s1 s2. sync1 Y c s = Some ((S1Async, c1), s1) \<and> led s1 = led s @ [Ran k] \<and>
        fin s1 = Some (res (led s) k, s2) \<and> led s2 = led s1 \<and> live s2"
proof -
  have q: "ce_status ce AND FCOM_SYNC_MASK \<in> {FCOM_SYNC_LEFT, FCOM_SYNC_RIGHT, FCOM_SYNC_EQ, FCOM_SYNC_NEQ, FCOM_SYNC_MOVE}"
    "ce_status ce AND FCOM_SYNC_MASK = FCOM_SYNC_MOVE \<Longrightarrow> ya_move (sy_args c) \<Longrightarrow> ce_l ce \<noteq> None"
    using ok by (auto simp: row_ok_def Let_def)
  have e: "sc_idx c \<noteq> length (d_ents (sy_cmp c))" using i by simp
  have run: "\<exists>s1 s2. y_start Y j s = Some ((), s1) \<and> led s1 = led s @ [Ran j] \<and> fin s1 = Some (res (led s) j, s2) \<and>
      led s2 = led s1 \<and> live s2" for j
    using deeds_loggedD(1) [OF env live] by blast
  note row = sync1_def row_deed_def Let_def ce [symmetric] c1_def sync_copy_info_def sync_trash_info_def
  let ?k = "ce_status ce AND FCOM_SYNC_MASK"
  consider (l) "?k = FCOM_SYNC_LEFT" | (r) "?k = FCOM_SYNC_RIGHT" | (e) "?k = FCOM_SYNC_EQ" | (n) "?k = FCOM_SYNC_NEQ"
    | (m) "?k = FCOM_SYNC_MOVE" using q(1) by blast
  then show ?thesis
  proof cases
    case l
    with run [of "sync_copy_info (y_new Y) c (full_name (ce_l ce)) (sync_out_name (full_name (ce_l ce)) (d_lroot (sy_cmp c))
        (d_rroot (sy_cmp c))) 0"] show ?thesis
      using i by (cases "ya_add (sy_args c)") (auto simp: row row_kinds_ne)
  next
    case r
    with run [of "sync_trash_info (y_new Y) c (full_name (ce_r ce))"] show ?thesis
      using i by (cases "ya_del (sy_args c)") (auto simp: row row_kinds_ne)
  next
    case n
    with run [of "sync_copy_info (y_new Y) c (full_name (ce_l ce)) (sync_out_name (full_name (ce_l ce)) (d_lroot (sy_cmp c))
        (d_rroot (sy_cmp c))) FCOM_SYNC_NEQ"] show ?thesis
      using i by (cases "ya_update (sy_args c)") (auto simp: row row_kinds_ne)
  next
    case e
    then show ?thesis using i by (simp add: row row_kinds_ne)
  next
    case m
    show ?thesis
    proof (cases "ya_move (sy_args c)")
      case True
      obtain x p where l: "ce_l ce = Some (x, p)" using q(2) [OF m True] by auto
      define b where "b = sp_root_dir (the (sy_dst c)) @ drop (length (sp_root_dir (the (sy_src c)))) p @ [FFPATH_SLASH] @ en_name x"
      obtain r s' where s': "fi_move (y_core Y) (full_name (ce_r ce)) b FCOM_FILE_MOVE_SAFE s = Some (r, s')"
        "led s' = led s @ (if mv (led s) (full_name (ce_r ce)) b then [Moved (full_name (ce_r ce)) b] else [])" "live s'"
        using deeds_loggedD(2) [OF env live] by blast
      then have "sync_move Y c1 ce (full_name (ce_r ce)) s = Some (b, s')" by (simp add: sync_move_def c1_def l b_def)
      then have "sync1 Y c s = Some ((S1Go, c1\<lparr>sc_idx := sc_idx c + 1, sc_lname := b\<rparr>), s')"
        using m True e by (simp add: sync1_def Let_def ce [symmetric] c1_def row_kinds_ne)
      moreover have "row_deed (y_new Y) c ce = Some (Moved (full_name (ce_r ce)) b)"
        using m True by (simp add: row_deed_def Let_def l b_def row_kinds_ne)
      ultimately show ?thesis using s'(2,3) by auto
    next
      case False
      then show ?thesis using m e by (simp add: row row_kinds_ne)
    qed
  qed
qed

text \<open>What a run leaves alone while it acts.\<close>

definition same_job :: "('t, 'b, 'c, 'f, 'k) sync \<Rightarrow> ('t, 'b, 'c, 'f, 'k) sync \<Rightarrow> bool" where
  "same_job c c' \<longleftrightarrow> sy_args c' = sy_args c \<and> sy_cmd c' = sy_cmd c \<and> sy_cmp c' = sy_cmp c \<and> sy_src c' = sy_src c \<and> sy_dst c' = sy_dst c"

lemma row_deed_same:
  assumes "same_job c c'"
  shows "row_deed new c' = row_deed new c"
proof
  fix ce
  have e: "sy_args c' = sy_args c" "sy_cmd c' = sy_cmd c" "sy_cmp c' = sy_cmp c" "sy_src c' = sy_src c" "sy_dst c' = sy_dst c"
    using assms by (simp_all add: same_job_def)
  have i: "sync_copy_info new c' = sync_copy_info new c" "sync_trash_info new c' = sync_trash_info new c"
    by (simp_all add: fun_eq_iff sync_copy_info_def sync_trash_info_def e)
  show "row_deed new c' ce = row_deed new c ce" unfolding row_deed_def e i ..
qed

lemma do_rows_same: "same_job c c' \<Longrightarrow> do_rows res mv new c' h ces st = do_rows res mv new c h ces st"
  by (induction ces arbitrary: h st) (auto simp: row_deed_same split: option.splits deed.splits)

lemma sync_session_done: "sync_session Y fin (Some k) c s = Some ((k, c), s)"
  by (subst sync_session.simps) simp

lemma sync_whole_go: "sync_run Y c s = sync_run Y c1 s1 \<Longrightarrow> sync_whole Y fin c s = sync_whole Y fin c1 s1"
  by (simp add: sync_whole_def)

text \<open>A command that was started and completed: the run ends with its error, or goes on after the row.\<close>

lemma sync_whole_async:
  assumes env: "deeds_logged Y fin res mv led live" and run: "sync_run Y c s = Some ((None, c1), s1)"
    and fin: "fin s1 = Some (k, s2)" and live: "live s2"
  defines "c2 \<equiv> c1\<lparr>sc_stats := count_row (d_ents (sy_cmp c1) ! sc_idx c1) (sc_stats c1), sc_idx := sc_idx c1 + 1\<rparr>"
  shows "k \<noteq> 0 \<Longrightarrow> \<exists>s'. sync_whole Y fin c s = Some ((k, c1), s') \<and> led s' = led s2"
    and "k = 0 \<Longrightarrow> sync_whole Y fin c s = sync_whole Y fin c2 s2"
proof -
  have w: "sync_whole Y fin c s = Option.bind (sync_on_op_complete Y k c1 s2) (\<lambda>((r, c), s). sync_session Y fin r c s)"
    using run fin by (simp add: sync_whole_def) (subst sync_session.simps, simp)
  show "\<exists>s'. sync_whole Y fin c s = Some ((k, c1), s') \<and> led s' = led s2" if "k \<noteq> 0"
    using sync_close_logs [OF env live, of c1] that by (auto simp: w sync_on_op_complete_def sync_session_done)
  have cr: "sync_on_op_complete Y 0 c1 s2 = sync_run Y c2 s2"
    by (simp add: sync_on_op_complete_def c2_def count_row_def Let_def)
  show "sync_whole Y fin c s = sync_whole Y fin c2 s2" if "k = 0"
    using that cr by (simp add: w) (simp add: sync_whole_def)
qed

lemma sync_whole_rows:
  assumes env: "deeds_logged Y fin res mv led live"
  shows "sy_st c = SySync \<Longrightarrow> sc_idx c \<le> length (d_ents (sy_cmp c)) \<Longrightarrow> ces = drop (sc_idx c) (d_ents (sy_cmp c)) \<Longrightarrow>
    list_all (row_ok (sy_args c)) ces \<Longrightarrow> do_rows res mv (y_new Y) c (led s) ces (sc_stats c) = (ds, st, k) \<Longrightarrow> live s \<Longrightarrow>
    \<exists>c' s'. sync_whole Y fin c s = Some ((k, c'), s') \<and> led s' = led s @ ds \<and> sc_stats c' = st"
proof (induction ces arbitrary: c s ds)
  case Nil
  then have e: "sc_idx c = length (d_ents (sy_cmp c))" by simp
  have "sync1 Y (c\<lparr>sy_rc := 1\<rparr>) s = Some ((S1End, c\<lparr>sy_rc := 1\<rparr>), s)" by (simp add: sync1_def e)
  from sync_run_end [OF env Nil(1) this Nil(6,6)] obtain s' where "sync_run Y c s = Some ((Some 0, c\<lparr>sy_rc := 0\<rparr>), s')" "led s' = led s"
    by auto
  then show ?case using Nil(5) by (auto simp: sync_whole_def sync_session_done)
next
  case (Cons ce ces)
  let ?c = "c\<lparr>sy_rc := 1\<rparr>"
  have i: "sc_idx c < length (d_ents (sy_cmp c))" using Cons(4) by (metis drop_all list.discI not_le_imp_less)
  have n: "ce = d_ents (sy_cmp c) ! sc_idx c" "ces = drop (sc_idx c + 1) (d_ents (sy_cmp c))"
    using Cons(4) i by (simp_all add: Cons_nth_drop_Suc [symmetric])
  have ok: "row_ok (sy_args c) ce" "list_all (row_ok (sy_args c)) ces" using Cons(5) by simp_all
  note ns = deeds_loggedD(4) [OF env Cons(7)]
  have rd: "row_deed (y_new Y) ?c ce = row_deed (y_new Y) c ce" using row_deed_same [of c ?c "y_new Y"] by (simp add: same_job_def)
  have c: "sc_idx ?c < length (d_ents (sy_cmp ?c))" "ce = d_ents (sy_cmp ?c) ! sc_idx ?c" "row_ok (sy_args ?c) ce"
    using i n(1) ok(1) by simp_all
  note s1 = sync1_row [OF env Cons(7) c, unfolded rd]
  have next_rows: "\<exists>c' s'. sync_whole Y fin c2 s2 = Some ((k, c'), s') \<and> led s' = led s2 @ ds2 \<and> sc_stats c' = st"
    if "same_job c c2" "sy_st c2 = SySync" "sc_idx c2 = sc_idx c + 1"
      "do_rows res mv (y_new Y) c (led s2) ces (sc_stats c2) = (ds2, st, k)" "live s2" for c2 s2 ds2
    using Cons(1) [of c2 s2 ds2] that i n ok(2) do_rows_same [OF that(1)] by (simp add: same_job_def)
  show ?case
  proof (cases "row_deed (y_new Y) c ce")
    case None
    let ?c2 = "?c\<lparr>sc_lname := full_name (ce_l ce), sc_rname := full_name (ce_r ce), sc_idx := sc_idx c + 1\<rparr>"
    have "sync1 Y ?c s = Some ((S1Go, ?c2), s)" using s1 None by simp
    then have "sync_whole Y fin c s = sync_whole Y fin ?c2 s"
      by (intro sync_whole_go sync_run_go) (use ns Cons(2) in simp_all)
    moreover have "\<exists>c' s'. sync_whole Y fin ?c2 s = Some ((k, c'), s') \<and> led s' = led s @ ds \<and> sc_stats c' = st"
      by (rule next_rows) (use None Cons(2,6,7) in \<open>simp_all add: same_job_def\<close>)
    ultimately show ?thesis by simp
  next
    case (Some d)
    show ?thesis
    proof (cases d)
      case (Moved a b)
      obtain l s2 where m: "sync1 Y ?c s = Some ((S1Go, ?c\<lparr>sc_rname := full_name (ce_r ce), sc_idx := sc_idx c + 1, sc_lname := l\<rparr>), s2)"
        "led s2 = led s @ (if mv (led s) a b then [Moved a b] else [])" "live s2" using s1 Some Moved by auto
      let ?c2 = "?c\<lparr>sc_rname := full_name (ce_r ce), sc_idx := sc_idx c + 1, sc_lname := l\<rparr>"
      obtain ds2 where d2: "do_rows res mv (y_new Y) c (led s2) ces (sc_stats c) = (ds2, st, k)"
        "ds = (if mv (led s) a b then [Moved a b] else []) @ ds2"
        using Cons(6) Some Moved m(2) by (auto simp: Let_def split: prod.splits)
      have "sync_whole Y fin c s = sync_whole Y fin ?c2 s2"
        by (intro sync_whole_go sync_run_go) (use m(1) ns Cons(2) in simp_all)
      moreover have "\<exists>c' s'. sync_whole Y fin ?c2 s2 = Some ((k, c'), s') \<and> led s' = led s2 @ ds2 \<and> sc_stats c' = st"
        by (rule next_rows) (use d2 m(3) Cons(2) in \<open>simp_all add: same_job_def\<close>)
      ultimately show ?thesis using m(2) d2(2) by auto
    next
      case (Ran j)
      let ?c1 = "?c\<lparr>sc_lname := full_name (ce_l ce), sc_rname := full_name (ce_r ce)\<rparr>"
      obtain s2 s3 where r: "sync1 Y ?c s = Some ((S1Async, ?c1), s2)" "led s2 = led s @ [Ran j]"
        "fin s2 = Some (res (led s) j, s3)" "led s3 = led s2" "live s3" using s1 Some Ran by auto
      have run: "sync_run Y c s = Some ((None, ?c1), s2)" by (rule sync_run_async) (use r(1) ns Cons(2) in simp_all)
      note w = sync_whole_async [OF env run r(3,5)]
      show ?thesis
      proof (cases "res (led s) j = 0")
        case True
        let ?c2 = "?c1\<lparr>sc_stats := count_row ce (sc_stats c), sc_idx := sc_idx c + 1\<rparr>"
        obtain ds2 where d2: "do_rows res mv (y_new Y) c (led s3) ces (count_row ce (sc_stats c)) = (ds2, st, k)" "ds = Ran j # ds2"
          using Cons(6) Some Ran True r(2,4) by (auto split: prod.splits)
        have "sync_whole Y fin c s = sync_whole Y fin ?c2 s3" using w(2) True n(1) by simp
        moreover have "\<exists>c' s'. sync_whole Y fin ?c2 s3 = Some ((k, c'), s') \<and> led s' = led s3 @ ds2 \<and> sc_stats c' = st"
          by (rule next_rows) (use d2 r(5) Cons(2) in \<open>simp_all add: same_job_def\<close>)
        ultimately show ?thesis using r(2,4) d2(2) by auto
      next
        case False
        then have "ds = [Ran j]" "st = sc_stats c" "k = res (led s) j" using Cons(6) Some Ran by auto
        with w(1) False r(2,4) show ?thesis by auto
      qed
    qed
  qed
qed

section \<open>A run that only compares\<close>

text \<open>
  Every call of the operation but starting a command and moving a file leaves alone what \<open>v\<close> sees.
\<close>

definition sync_quiet :: "('s, 'i, 't, 'b, 'e, 'c, 'd, 'z, 'f, 'p, 'k) syncenv \<Rightarrow> ('s \<Rightarrow> 'q) \<Rightarrow> bool" where
  "sync_quiet Y v \<longleftrightarrow>
     (\<forall>x. keeps v (y_show Y x)) \<and> (\<forall>x. keeps v (y_print Y x)) \<and> (\<forall>f n. keeps v (y_readwhole Y f n)) \<and>
     (\<forall>n s. v (snd (sl_openz (y_lib Y) n s)) = v s) \<and> (\<forall>fd s. v (snd (fs_close (sl_sys (y_lib Y)) fd s)) = v s) \<and>
     (\<forall>fd n off s. v (snd (fs_readat (sl_sys (y_lib Y)) fd n off s)) = v s) \<and>
     (\<forall>n. keeps v (sc_info_path (y_scan Y) n)) \<and> (\<forall>n. keeps v (sc_dirscan (y_scan Y) n)) \<and>
     (\<forall>d. keeps v (sc_dirclose (y_scan Y) d)) \<and> (\<forall>n. keeps v (sc_open (y_scan Y) n)) \<and> (\<forall>n. keeps v (sc_close (y_scan Y) n)) \<and>
     (\<forall>opn fd. sc_unzip (y_scan Y) = Some opn \<longrightarrow> keeps v (opn fd)) \<and> (\<forall>z. keeps v (sc_unzip_next (y_scan Y) z)) \<and>
     (\<forall>z. keeps v (sc_unzip_close (y_scan Y) z)) \<and>
     (\<forall>n. keeps v (fi_create (y_core Y) n)) \<and> (\<forall>f. keeps v (fi_destroy (y_core Y) f)) \<and>
     (\<forall>f n fl. keeps v (fi_open (y_core Y) f n fl)) \<and> (\<forall>f d off. keeps v (fi_write (y_core Y) f d off))"

text \<open>The comparison of two files opens, reads and closes.\<close>

lemma fast_cmp_keeps:
  assumes o: "\<And>n w. v (snd (sl_openz L n w)) = v w" and c: "\<And>fd w. v (snd (fs_close (sl_sys L) fd w)) = v w"
    and r: "\<And>fd n off w. v (snd (fs_readat (sl_sys L) fd n off w)) = v w"
  shows "v (snd (fast_cmp L a b w)) = v w"
proof -
  have ch: "v (snd (cmp_chunk (sl_sys L) f1 f2 n off w)) = v w" for f1 f2 n off w
    using r by (auto simp: cmp_chunk_def Let_def case_prod_beta split: option.splits)
  have f: "v (snd (cmp_fast (sl_sys L) f1 f2 n os w)) = v w" for f1 f2 n os w
  proof (induction os arbitrary: w)
    case (Cons o1 os)
    show ?case
    proof (cases o1)
      case (Some off)
      obtain x w1 where x: "cmp_chunk (sl_sys L) f1 f2 n off w = (x, w1)" by fastforce
      then have "v w1 = v w" using ch [of f1 f2 n off w] by simp
      then show ?thesis using Cons x Some by (cases x) auto
    qed simp
  qed simp
  show ?thesis by (simp add: fast_cmp_def file_cmp_def close2_def Let_def case_prod_beta o c f)
qed

lemma sync_quietD:
  assumes "sync_quiet Y v"
  shows "keeps v (y_show Y x)" "keeps v (y_print Y x)" "keeps v (y_readwhole Y fn n)"
    "v (snd (fast_cmp (y_lib Y) a b s)) = v s" "keeps v (sc_info_path (y_scan Y) fn)" "keeps v (sc_dirscan (y_scan Y) fn)"
    "keeps v (sc_dirclose (y_scan Y) d)" "keeps v (sc_open (y_scan Y) fn)" "keeps v (sc_close (y_scan Y) fd)"
    "sc_unzip (y_scan Y) = Some opn \<Longrightarrow> keeps v (opn fd)" "keeps v (sc_unzip_next (y_scan Y) z)" "keeps v (sc_unzip_close (y_scan Y) z)"
    "keeps v (fi_create (y_core Y) n)" "keeps v (fi_destroy (y_core Y) f)" "keeps v (fi_open (y_core Y) f fn fl)"
    "keeps v (fi_write (y_core Y) f da off)"
  using assms unfolding sync_quiet_def by (simp_all add: fast_cmp_keeps)

lemma zip_names_quiet:
  assumes "\<forall>z. keeps v (sc_unzip_next S z)" "zip_names F S z b t s = Some (x, s')"
  shows "v s' = v s"
proof -
  have "(\<forall>z. keeps v (sc_unzip_next S z)) \<longrightarrow> v (snd (x, s')) = v s"
  proof (rule zip_names.raw_induct [OF _ assms(2), where P = "\<lambda>F S z b t s y. (\<forall>z. keeps v (sc_unzip_next S z)) \<longrightarrow> v (snd y) = v s"])
    fix names F S z b t s y
    assume ih: "\<And>F S z b t s y. names F S z b t s = Some y \<Longrightarrow> (\<forall>z. keeps v (sc_unzip_next S z)) \<longrightarrow> v (snd y) = v s"
      and eq: "sc_unzip_next S z s \<bind> (\<lambda>(fn, s). if fn = [] then Some ((Some b, t), s)
          else let fn = if last fn = CHR ''/'' then butlast fn else fn
               in case ft_add F b fn t of (None, t) \<Rightarrow> Some ((None, ft_free F b t), s)
                  | (Some (e, b), t) \<Rightarrow> names F S z b t s) = Some y"
    show "(\<forall>z. keeps v (sc_unzip_next S z)) \<longrightarrow> v (snd y) = v s"
    proof
      assume q: "\<forall>z. keeps v (sc_unzip_next S z)"
      obtain fn s1 where n: "sc_unzip_next S z s = Some (fn, s1)" using eq by (cases "sc_unzip_next S z s") auto
      then have "v s1 = v s" using q keepsD by metis
      moreover have "v (snd y) = v s1"
      proof (cases "fn = []")
        case True
        then show ?thesis using eq n by auto
      next
        case False
        obtain o1 t1 where a: "ft_add F b (if last fn = CHR ''/'' then butlast fn else fn) t = (o1, t1)" by fastforce
        show ?thesis
        proof (cases o1)
          case None
          then show ?thesis using eq n False a by (auto simp: Let_def)
        next
          case (Some p)
          then have "names F S z (snd p) t1 s1 = Some y" using eq n False a by (auto simp: Let_def split: prod.splits)
          from ih [OF this] q show ?thesis by simp
        qed
      qed
      ultimately show "v (snd y) = v s" by simp
    qed
  qed
  with assms(1) show ?thesis by simp
qed

lemma scan_quiet:
  assumes q: "sync_quiet Y v"
  shows add_zip_quiet: "add_zip F (y_scan Y) fd name sp t s = Some (y, s') \<Longrightarrow> v s' = v s"
    and add_dir_quiet: "add_dir F (y_scan Y) sp t s = Some (y, s') \<Longrightarrow> v s' = v s"
proof -
  show "v s' = v s" if "add_dir F (y_scan Y) sp t s = Some (y, s')"
    using that sync_quietD(6,7) [OF q, THEN keepsD]
    by (auto simp: add_dir_def Option.bind_eq_Some_conv Let_def case_prod_beta split: option.splits)
  obtain b1 t1 where b1: "ft_create F name t = (b1, t1)" by fastforce
  note zn = zip_names_quiet [of v "y_scan Y"]
  show "v s' = v s" if x: "add_zip F (y_scan Y) fd name sp t s = Some (y, s')"
  proof (cases "sc_unzip (y_scan Y)")
    case None
    then show ?thesis using x b1 by (simp add: add_zip_def)
  next
    case (Some opn)
    obtain ux s1 where o: "opn fd s = Some (ux, s1)" "v s1 = v s"
      using x b1 Some sync_quietD(10) [OF q Some, THEN keepsD] by (auto simp: add_zip_def Option.bind_eq_Some_conv)
    show ?thesis
    proof (cases ux)
      case None
      then show ?thesis using x b1 Some o by (simp add: add_zip_def)
    next
      case (Some z)
      obtain b t2 s2 s3 where z: "zip_names F (y_scan Y) z b1 t1 s1 = Some ((b, t2), s2)" "sc_unzip_close (y_scan Y) z s2 = Some ((), s3)"
        "s' = s3"
        using x b1 \<open>sc_unzip (y_scan Y) = _\<close> o(1) Some by (auto simp: add_zip_def Option.bind_eq_Some_conv split: option.splits)
      have "v s2 = v s1" using zn z(1) sync_quietD(11) [OF q] by blast
      then show ?thesis using z(2,3) o(2) sync_quietD(12) [OF q, THEN keepsD] by simp
    qed
  qed
qed

lemma scan_next_quiet:
  assumes q: "sync_quiet Y v" and x: "scan_next F (y_scan Y) sp t s = Some (y, s')"
  shows "v s' = v s"
proof -
  have f: "v s' = v s" if "scan_file F (y_scan Y) n sp t s = Some (y, s')" for n sp t s y s'
    using that by (auto simp: scan_file_def Option.bind_eq_Some_conv split: if_splits
        dest!: add_zip_quiet [OF q] keepsD [OF sync_quietD(8) [OF q]] keepsD [OF sync_quietD(9) [OF q]])
  obtain r eo sp1 where n: "snap_next F (y_scan Y) sp t = ((r, eo), sp1)" by (metis prod.exhaust)
  show ?thesis
  proof (cases "eo = None \<or> sp_zip_block sp1")
    case True
    then show ?thesis using x n by (cases eo) (auto simp: scan_next_def Let_def)
  next
    case False
    then obtain e where e: "eo = Some e" by auto
    obtain i s1 where i: "sc_info_path (y_scan Y) (sp_name sp1) s = Some (i, s1)"
      using x n False e by (auto simp: scan_next_def Let_def Option.bind_eq_Some_conv)
    have s1: "v s1 = v s" using sync_quietD(5) [OF q] i by (rule keepsD)
    show ?thesis
    proof (cases i)
      case None
      then show ?thesis using x n False e i s1 by (simp add: scan_next_def Let_def)
    next
      case (Some fi)
      then show ?thesis using x n False e i s1
        by (cases "sc_isdir (y_scan Y) fi")
          (auto simp: scan_next_def Let_def Option.bind_eq_Some_conv split: if_splits dest!: f add_dir_quiet [OF q])
    qed
  qed
qed

text \<open>The snapshot that is read or written, and the comparison of one pair.\<close>

lemma open_snapshot_quiet:
  assumes q: "sync_quiet Y v" and x: "open_snapshot Y fn t s = Some (y, s')"
  shows "v s' = v s"
  using x by (auto simp: open_snapshot_def sync_snapshot_open_def Option.bind_eq_Some_conv Let_def split: option.splits prod.splits
      dest!: keepsD [OF sync_quietD(3) [OF q]])

lemma wsnap_process_quiet:
  assumes q: "sync_quiet Y v" and x: "wsnap_process (y_core Y) T cmd dir e w s = Some (y, s')"
  shows "v s' = v s"
proof -
  have "y_core Y = y_core Y \<longrightarrow> v (snd (y, s')) = v s"
  proof (rule wsnap_process.raw_induct [OF _ x, where P = "\<lambda>C T cmd dir e w s y. C = y_core Y \<longrightarrow> v (snd y) = v s"])
    fix proc C T cmd dir e w s y
    assume ih: "\<And>C T cmd dir e w s y. proc C T cmd dir e w s = Some y \<Longrightarrow> C = y_core Y \<longrightarrow> v (snd y) = v s"
      and eq: "(case wsnap_piece T dir e w of None \<Rightarrow> Some ((True, w), s)
        | Some (data, w1) \<Rightarrow>
            (if ws_hdr w then Some ((True, w1), s) else wsnap_open C cmd w1 s) \<bind>
            (\<lambda>((ok, w2), s). if \<not> ok then Some ((False, w2), s) else
               fi_write C (the (ws_snap w2)) data None s \<bind>
               (\<lambda>(r, s). if r = FErr then Some ((False, w2), s) else proc C T cmd dir e w2 s))) = Some y"
    show "C = y_core Y \<longrightarrow> v (snd y) = v s"
    proof
      assume C: "C = y_core Y"
      show "v (snd y) = v s"
      proof (cases "wsnap_piece T dir e w")
        case None
        then show ?thesis using eq by auto
      next
        case (Some p)
        obtain data w1 where p: "p = (data, w1)" by fastforce
        obtain ok w2 s1 where o: "(if ws_hdr w then Some ((True, w1), s) else wsnap_open C cmd w1 s) = Some ((ok, w2), s1)"
          using eq Some p by (cases "if ws_hdr w then Some ((True, w1), s) else wsnap_open C cmd w1 s") auto
        have s1: "v s1 = v s"
          using o by (auto simp: C wsnap_open_def Option.bind_eq_Some_conv split: if_splits
              dest!: keepsD [OF sync_quietD(13) [OF q]] keepsD [OF sync_quietD(15) [OF q]])
        show ?thesis
        proof (cases ok)
          case False
          then show ?thesis using eq Some p o s1 by auto
        next
          case True
          obtain r s2 where w: "fi_write C (the (ws_snap w2)) data None s1 = Some (r, s2)"
            using eq Some p o True by (cases "fi_write C (the (ws_snap w2)) data None s1") auto
          have s2: "v s2 = v s1" using sync_quietD(16) [OF q] w unfolding C by (rule keepsD)
          show ?thesis
          proof (cases "r = FErr")
            case True
            then show ?thesis using eq Some p o \<open>ok\<close> w s1 s2 by auto
          next
            case False
            then have "proc C T cmd dir e w2 s2 = Some y" using eq Some p o True w by auto
            from ih [OF this] C s1 s2 show ?thesis by simp
          qed
        qed
      qed
    qed
  qed
  then show ?thesis by simp
qed

lemma diff_next_quiet:
  assumes q: "sync_quiet Y v" and x: "diff_next (y_lib Y) d s = Some (b, d', s')"
  shows "v s' = v s"
proof -
  have m: "v (snd (snd (moved_keyeq (y_lib Y) e ce d w))) = v w" for e ce d w
    using sync_quietD(4) [OF q]
    by (auto simp: moved_keyeq_def moved_check_data_def Let_def case_prod_beta split: option.splits)
  have p: "v (snd (snd (map_probe (y_lib Y) e is d w))) = v w" for e "is" d w
    by (induction "is" arbitrary: d w) (auto simp: Let_def case_prod_beta m)
  have o: "v (snd (one_sided (y_lib Y) left e ref i d w)) = v w" for left e ref i d w
    using p by (auto simp: one_sided_def moved_find_add_def Let_def case_prod_beta split: option.splits)
  show ?thesis
    using x o by (auto simp: diff_next_def Let_def case_prod_beta split: prod.splits option.splits cmp4.splits if_splits)
qed

text \<open>One turn of a run outside the acting phase.\<close>

definition turn_quiet :: "('s \<Rightarrow> 'q) \<Rightarrow> ('t, 'b, 'c, 'f, 'k) sync \<Rightarrow> 's \<Rightarrow> (('t, 'b, 'c, 'f, 'k) sync + ('t, 'b, 'c, 'f, 'k) sync \<times> int) \<times> 's \<Rightarrow> bool" where
  "turn_quiet v c s x \<longleftrightarrow>
     v (snd x) = v s \<and>
     (case fst x of
        Inl c' \<Rightarrow> sy_diff_only c' = sy_diff_only c \<and> (sy_diff_only c \<longrightarrow> sy_st c' \<noteq> SySync)
      | Inr (c', k) \<Rightarrow> k = 0)"

lemma tree_init_quiet:
  assumes q: "sync_quiet Y v"
  shows "left_tree_init Y c s = Some ((b, c'), s') \<Longrightarrow> v s' = v s \<and> sy_diff_only c' = sy_diff_only c"
    and "right_tree_init Y c s = Some ((b, c'), s') \<Longrightarrow> v s' = v s \<and> sy_diff_only c' = sy_diff_only c"
  by (auto simp: left_tree_init_def right_tree_init_def Option.bind_eq_Some_conv Let_def split: prod.splits option.splits if_splits
      dest!: keepsD [OF sync_quietD(13) [OF q]])

lemma sy_in_quiet:
  assumes q: "sync_quiet Y v" and st: "sy_st c = SyIn" and x: "sy_in Y c s = Some x"
  shows "turn_quiet v c s x"
proof -
  obtain r e sp t s1 where n: "scan_next (y_ft Y) (y_scan Y) (the (sy_src c)) (sy_tree c) s = Some (((r, e), sp, t), s1)"
    using x by (auto simp: sy_in_def Option.bind_eq_Some_conv)
  have "v s1 = v s" by (rule scan_next_quiet [OF q n])
  then show ?thesis using x n st by (cases r) (auto simp: sy_in_def turn_quiet_def Let_def)
qed

lemma sy_out_quiet: "sync_quiet Y v \<Longrightarrow> sy_st c = SyOut \<Longrightarrow> sy_out Y c s = Some x \<Longrightarrow> turn_quiet v c s x"
  by (auto simp: sy_out_def turn_quiet_def Option.bind_eq_Some_conv Let_def split: prod.splits dest!: scan_next_quiet)

lemma sy_diff_quiet: "sync_quiet Y v \<Longrightarrow> sy_st c = SyDiff \<Longrightarrow> sy_diff Y c s = Some x \<Longrightarrow> turn_quiet v c s x"
  by (auto simp: sy_diff_def diff_fin_def turn_quiet_def Option.bind_eq_Some_conv Let_def dest!: diff_next_quiet)

definition prints_quiet :: "('s, 'i, 't, 'b, 'e, 'c, 'd, 'z, 'f, 'p, 'k) syncenv \<Rightarrow> ('s \<Rightarrow> 'q) \<Rightarrow> bool" where
  "prints_quiet Y v \<longleftrightarrow> (\<forall>x. keeps v (y_show Y x)) \<and> (\<forall>x. keeps v (y_print Y x))"

lemma sync_quiet_prints: "sync_quiet Y v \<Longrightarrow> prints_quiet Y v"
  by (simp add: sync_quiet_def prints_quiet_def)

lemma prints_quiet_unit: "prints_quiet Y (\<lambda>_. ())"
  by (simp add: prints_quiet_def keeps_def)

lemma diff_show_next_quiet:
  assumes q: "prints_quiet Y v" and x: "diff_show_next Y c s = Some ((b, c'), s')"
  shows "v s' = v s \<and> sy_diff_only c' = sy_diff_only c \<and> sy_st c' = sy_st c"
  using x by (auto simp: diff_show_next_def status_print_def Option.bind_eq_Some_conv Let_def split: option.splits if_splits
      dest!: keepsD [OF conjunct1 [OF q [unfolded prints_quiet_def], THEN spec]] keepsD [OF conjunct2 [OF q [unfolded prints_quiet_def], THEN spec]])

lemma turn_quiet_step:
  assumes "turn_quiet v c1 s1 x" "v s1 = v s" "sy_diff_only c1 = sy_diff_only c"
  shows "turn_quiet v c s x"
  using assms by (auto simp: turn_quiet_def split: sum.splits)

lemma sync_turn_quiet:
  assumes q: "sync_quiet Y v" and n: "sy_st c \<noteq> SySync" and x: "sync_turn Y c s = Some x"
  shows "turn_quiet v c s x"
proof (cases "sy_st c")
  case SyInPrep
  obtain ok c1 s1 where p: "left_tree_init Y c s = Some ((ok, c1), s1)"
    using x SyInPrep by (auto simp: sync_turn_def sy_in_prep_def Option.bind_eq_Some_conv)
  show ?thesis
  proof (cases ok)
    case True
    then have "sy_in Y (c1\<lparr>sy_st := SyIn\<rparr>) s1 = Some x" using x SyInPrep p by (simp add: sync_turn_def sy_in_prep_def)
    from sy_in_quiet [OF q _ this] show ?thesis using tree_init_quiet(1) [OF q p] by (auto intro: turn_quiet_step)
  next
    case False
    then show ?thesis using x SyInPrep p tree_init_quiet(1) [OF q p] by (auto simp: sync_turn_def sy_in_prep_def turn_quiet_def)
  qed
next
  case SyOutInit
  show ?thesis
  proof (cases "ya_right_snapshot (sy_args c)")
    case True
    then show ?thesis using x SyOutInit
      by (auto simp: sync_turn_def sy_out_init_def turn_quiet_def Option.bind_eq_Some_conv Let_def dest!: open_snapshot_quiet [OF q])
  next
    case F: False
    obtain ok c1 s1 where p: "right_tree_init Y c s = Some ((ok, c1), s1)"
      using x SyOutInit F by (auto simp: sync_turn_def sy_out_init_def Option.bind_eq_Some_conv)
    show ?thesis
    proof (cases ok)
      case True
      then have "sy_out Y (c1\<lparr>sy_st := SyOut\<rparr>) s1 = Some x" using x SyOutInit F p by (simp add: sync_turn_def sy_out_init_def)
      from sy_out_quiet [OF q _ this] show ?thesis using tree_init_quiet(2) [OF q p] by (auto intro: turn_quiet_step)
    next
      case False
      then show ?thesis using x SyOutInit F p tree_init_quiet(2) [OF q p] by (auto simp: sync_turn_def sy_out_init_def turn_quiet_def)
    qed
  qed
next
  case SyDiffBegin
  then have "sy_diff Y ((diff_begin Y c)\<lparr>sy_st := SyDiff\<rparr>) s = Some x" using x by (simp add: sync_turn_def)
  from sy_diff_quiet [OF q _ this] show ?thesis by (auto intro: turn_quiet_step simp: diff_begin_def Let_def)
next
  case SyLsnap
  then show ?thesis using x
    by (auto simp: sync_turn_def sy_lsnap_def turn_quiet_def Option.bind_eq_Some_conv Let_def split: if_splits dest!: open_snapshot_quiet [OF q])
next
  case SyDiffShow
  then show ?thesis using x
    by (auto simp: sync_turn_def sy_diff_show_def turn_quiet_def Option.bind_eq_Some_conv Let_def dest!: diff_show_next_quiet [OF sync_quiet_prints [OF q]])
next
  case SySnapWr
  then show ?thesis using x
    by (auto simp: sync_turn_def sy_snap_wr_def turn_quiet_def Option.bind_eq_Some_conv Let_def dest!: wsnap_process_quiet [OF q])
next
  case SyInit
  then show ?thesis using x by (auto simp: sync_turn_def sy_init_def turn_quiet_def)
next
  case SyIn
  then show ?thesis using x sy_in_quiet [OF q] by (simp add: sync_turn_def)
next
  case SyOut
  then show ?thesis using x sy_out_quiet [OF q] by (simp add: sync_turn_def)
next
  case SyDiff
  then show ?thesis using x sy_diff_quiet [OF q] by (simp add: sync_turn_def)
qed (use n in simp)

section \<open>The rows that are shown\<close>

text \<open>The line of a row.\<close>

definition row_line :: "('s, 'i, 't, 'b, 'e, 'c, 'd, 'z, 'f, 'p, 'k) syncenv \<Rightarrow> ('t, 'b, 'c, 'f, 'k) sync \<Rightarrow> diff_entry \<Rightarrow> bytes option" where
  "row_line Y c de =
     (let k = de_status de AND FCOM_SYNC_MASK; root = sp_root_dir (the (sy_src c));
          cut = (\<lambda>n x. if ya_full_name (sy_args c) \<or> root = [] then x else drop n x)
      in if k = FCOM_SYNC_EQ then None
         else if ya_plain (sy_args c) then Some ((if k = FCOM_SYNC_RIGHT then de_rname de else de_lname de) @ [CHR 0x0A])
         else status_line Y de (cut (length root) (de_lname de)) (cut (length (ci_output (sy_cmd c))) (de_rname de)))"

definition row_known :: "diff_entry \<Rightarrow> bool" where
  "row_known de \<longleftrightarrow> de_status de AND FCOM_SYNC_MASK \<in> {FCOM_SYNC_LEFT, FCOM_SYNC_RIGHT, FCOM_SYNC_EQ, FCOM_SYNC_NEQ, FCOM_SYNC_MOVE}"

text \<open>Lines go to the log of the program or to standard output, which \<open>out\<close> lists, while the operation is not told to stop.\<close>

definition lines_out ::
  "('s, 'i, 't, 'b, 'e, 'c, 'd, 'z, 'f, 'p, 'k) syncenv \<Rightarrow> ('s \<Rightarrow> bytes list) \<Rightarrow> ('s \<Rightarrow> bool) \<Rightarrow> bool" where
  "lines_out Y out live \<longleftrightarrow>
     (\<forall>x s. live s \<longrightarrow> (\<exists>s'. y_show Y x s = Some ((), s') \<and> out s' = out s @ [x] \<and> live s')) \<and>
     (\<forall>x s. live s \<longrightarrow> (\<exists>s'. y_print Y x s = Some ((), s') \<and> out s' = out s @ [x] \<and> live s')) \<and>
     (\<forall>f s. live s \<longrightarrow> (\<exists>s'. fi_destroy (y_core Y) f s = Some ((), s') \<and> out s' = out s \<and> live s')) \<and>
     (\<forall>s. live s \<longrightarrow> \<not> stop_flag (y_core Y) s)"

lemma lines_outD:
  assumes "lines_out Y out live" "live s"
  shows "\<exists>s'. y_show Y x s = Some ((), s') \<and> out s' = out s @ [x] \<and> live s'"
    and "\<exists>s'. y_print Y x s = Some ((), s') \<and> out s' = out s @ [x] \<and> live s'"
    and "\<exists>s'. fi_destroy (y_core Y) f s = Some ((), s') \<and> out s' = out s \<and> live s'"
    and "\<not> stop_flag (y_core Y) s"
  using assms unfolding lines_out_def by blast+

lemma diff_show_next_row:
  fixes Y :: "('s, 'i, 't, 'b, 'e, 'c, 'd, 'z, 'f, 'p, 'k) syncenv" and c :: "('t, 'b, 'c, 'f, 'k) sync"
  assumes env: "lines_out Y out live" and live: "live s" and i: "sy_cmp_idx c < length (d_filter (sy_cmp c))"
    and de: "de = sync_info_id (sy_cmp c) (d_filter (sy_cmp c) ! sy_cmp_idx c) 0" and ok: "row_known de"
  shows "\<exists>s'. diff_show_next Y c s = Some ((False, c\<lparr>sy_cmp_idx := sy_cmp_idx c + 1\<rparr>), s') \<and>
    out s' = out s @ (case row_line Y c de of None \<Rightarrow> [] | Some l \<Rightarrow> [l]) \<and> live s'"
proof -
  have inf: "sync_info (sy_cmp c) (sy_cmp_idx c) 0 = Some de" using i by (simp add: sync_info_def de)
  let ?k = "de_status de AND FCOM_SYNC_MASK"
  have k: "?k \<in> {FCOM_SYNC_LEFT, FCOM_SYNC_RIGHT, FCOM_SYNC_EQ, FCOM_SYNC_NEQ, FCOM_SYNC_MOVE}"
    using ok by (simp add: row_known_def)
  have pr: "\<exists>s'. Option.bind (y_print Y x s) (\<lambda>(_, s). Some (a, s)) = Some (a, s') \<and> out s' = out s @ [x] \<and> live s'" for x and a :: "bool \<times> ('t, 'b, 'c, 'f, 'k) sync"
    using lines_outD(2) [OF env live, of x] by auto
  show ?thesis
  proof (cases "?k = FCOM_SYNC_EQ")
    case True
    then show ?thesis using live by (simp add: diff_show_next_def row_line_def inf Let_def row_kinds_ne)
  next
    case ne: False
    show ?thesis
    proof (cases "ya_plain (sy_args c)")
      case True
      then show ?thesis using k ne pr by (auto simp: diff_show_next_def row_line_def inf Let_def row_kinds_ne)
    next
      case False
      have sp: "status_print Y c1 de s = (case row_line Y c de of None \<Rightarrow> Some ((), s) | Some l \<Rightarrow> y_show Y l s)"
        if "c1 = c\<lparr>sy_cmp_idx := sy_cmp_idx c + 1\<rparr>" for c1
        using False ne by (simp add: status_print_def row_line_def Let_def that)
      have "\<exists>s'. status_print Y (c\<lparr>sy_cmp_idx := sy_cmp_idx c + 1\<rparr>) de s = Some ((), s') \<and>
          out s' = out s @ (case row_line Y c de of None \<Rightarrow> [] | Some l \<Rightarrow> [l]) \<and> live s'"
        using lines_outD(1) [OF env live] live unfolding sp [OF refl] by (auto split: option.splits)
      then show ?thesis using False k ne by (auto simp: diff_show_next_def inf Let_def)
    qed
  qed
qed

text \<open>The phase that shows: every row from the current one on, in the order of the view.\<close>

definition rows_lines :: "('s, 'i, 't, 'b, 'e, 'c, 'd, 'z, 'f, 'p, 'k) syncenv \<Rightarrow> ('t, 'b, 'c, 'f, 'k) sync \<Rightarrow> nat list \<Rightarrow> bytes list" where
  "rows_lines Y c is = List.map_filter (\<lambda>i. row_line Y c (sync_info_id (sy_cmp c) i 0)) is"

lemma row_line_idx: "row_line Y (c\<lparr>sy_cmp_idx := n\<rparr>) = row_line Y c"
  by (rule ext) (simp add: row_line_def Let_def)

lemma row_line_rc: "row_line Y (c\<lparr>sy_rc := n\<rparr>) = row_line Y c"
  by (rule ext) (simp add: row_line_def Let_def)

lemma diff_show_rows:
  assumes env: "lines_out Y out live" and quiet: "prints_quiet Y v"
  shows "live s \<Longrightarrow> sy_st c = SyDiffShow \<Longrightarrow> sy_cmp_idx c \<le> length (d_filter (sy_cmp c)) \<Longrightarrow> is = drop (sy_cmp_idx c) (d_filter (sy_cmp c)) \<Longrightarrow>
    list_all (\<lambda>i. row_known (sync_info_id (sy_cmp c) i 0)) is \<Longrightarrow>
    \<exists>s'. (op_turn (stop_flag (y_core Y)) (sync_turn Y))\<^sup>*\<^sup>* (c, s) (c\<lparr>sy_cmp_idx := length (d_filter (sy_cmp c))\<rparr>, s') \<and>
      out s' = out s @ rows_lines Y c is \<and> v s' = v s \<and> live s'"
proof (induction "is" arbitrary: c s)
  case Nil
  then have "c\<lparr>sy_cmp_idx := length (d_filter (sy_cmp c))\<rparr> = c" by simp
  then show ?case using Nil(1) by (auto simp: rows_lines_def map_filter_simps intro!: exI [of _ s])
next
  case (Cons i "is")
  have lt: "sy_cmp_idx c < length (d_filter (sy_cmp c))" using Cons(5) by (metis drop_all list.discI not_le_imp_less)
  have n: "i = d_filter (sy_cmp c) ! sy_cmp_idx c" "is = drop (sy_cmp_idx c + 1) (d_filter (sy_cmp c))"
    using Cons(5) lt by (simp_all add: Cons_nth_drop_Suc [symmetric])
  let ?c = "c\<lparr>sy_cmp_idx := sy_cmp_idx c + 1\<rparr>"
  obtain s1 where s1: "diff_show_next Y c s = Some ((False, ?c), s1)"
    "out s1 = out s @ (case row_line Y c (sync_info_id (sy_cmp c) i 0) of None \<Rightarrow> [] | Some l \<Rightarrow> [l])" "live s1"
    using diff_show_next_row [OF env Cons(2) lt refl] Cons(6) n Cons(2) by auto
  have t: "op_turn (stop_flag (y_core Y)) (sync_turn Y) (c, s) (?c, s1)"
    using s1(1) Cons(3) lines_outD(4) [OF env Cons(2)] by (intro op_turnI) (simp_all add: sync_turn_def sy_diff_show_def)
  obtain s2 where s2: "(op_turn (stop_flag (y_core Y)) (sync_turn Y))\<^sup>*\<^sup>* (?c, s1) (c\<lparr>sy_cmp_idx := length (d_filter (sy_cmp c))\<rparr>, s2)"
    "out s2 = out s1 @ rows_lines Y ?c is" "v s2 = v s1" "live s2"
    using Cons(1) [of s1 ?c] s1(3) Cons(3,6) lt n by auto
  have "rows_lines Y ?c is = rows_lines Y c is" by (simp add: rows_lines_def row_line_idx)
  then have "out s2 = out s @ rows_lines Y c (i # is)"
    using s2(2) s1(2) by (simp add: rows_lines_def map_filter_simps split: option.split)
  moreover have "v s2 = v s" using s2(3) diff_show_next_quiet [OF quiet s1(1)] by simp
  ultimately show ?case using s2(4) converse_rtranclp_into_rtranclp [of "op_turn (stop_flag (y_core Y)) (sync_turn Y)", OF t s2(1)] by blast
qed

lemma sync_run_turns:
  assumes "(op_turn (stop_flag (y_core Y)) (sync_turn Y))\<^sup>*\<^sup>* (c, s) (c2, s2)" "sy_rc c = 1" "sy_rc c2 = 1"
  shows "sync_run Y c s = sync_run Y c2 s2"
proof -
  have "c\<lparr>sy_rc := 1\<rparr> = c" "c2\<lparr>sy_rc := 1\<rparr> = c2" using assms(2,3) by simp_all
  then show ?thesis using op_loop_turns [OF assms(1)] by (simp add: sync_run_def)
qed

text \<open>The end of the comparison and the rows of the view: the program leaves the phase that shows.\<close>

definition view_rows :: "('s, 'i, 't, 'b, 'e, 'c, 'd, 'z, 'f, 'p, 'k) syncenv \<Rightarrow> ('t, 'b, 'c, 'f, 'k) sync \<Rightarrow> nat list" where
  "view_rows Y c =
     filter (\<lambda>i. view_keeps (y_lib Y)
         \<lparr>p_include = ci_include (sy_cmd c), p_exclude = ci_exclude (sy_cmd c), p_since = sy_since c, p_include_both = False\<rparr>
         (sy_diff_flags c) (d_ents (sy_cmp c) ! i)) [0..<length (d_ents (sy_cmp c))]"

definition compared :: "('s, 'i, 't, 'b, 'e, 'c, 'd, 'z, 'f, 'p, 'k) syncenv \<Rightarrow> ('t, 'b, 'c, 'f, 'k) sync \<Rightarrow> bool" where
  "compared Y c \<longleftrightarrow>
     sy_st c = SyDiff \<and> sy_cmp_idx c = 0 \<and> sc_idx c = 0 \<and>
     fst (sl_next (y_lib Y) (data_cmp (y_lib Y) (d_options (sy_cmp c))) (d_fcmp (sy_cmp c))) = None"

lemma shown_phase:
  assumes env: "lines_out Y out live" and live: "live s" and quiet: "prints_quiet Y v" and c: "compared Y c" and rc: "sy_rc c = 1"
    and ok: "list_all (row_ok (sy_args c)) (d_ents (sy_cmp c))"
  shows "\<exists>c2 s2. (op_turn (stop_flag (y_core Y)) (sync_turn Y))\<^sup>*\<^sup>* (c, s) (c2, s2) \<and> same_job (c\<lparr>sy_cmp := sy_cmp c2\<rparr>) c2 \<and>
    d_ents (sy_cmp c2) = d_ents (sy_cmp c) \<and> d_lroot (sy_cmp c2) = d_lroot (sy_cmp c) \<and> d_rroot (sy_cmp c2) = d_rroot (sy_cmp c) \<and>
    sc_stats c2 = sc_stats c \<and> sc_idx c2 = 0 \<and> sy_rc c2 = 1 \<and> sy_diff_only c2 = sy_diff_only c \<and> sy_st c2 = SyDiffShow \<and>
    sy_cmp_idx c2 = length (d_filter (sy_cmp c2)) \<and> out s2 = out s @ rows_lines Y c (view_rows Y c) \<and> v s2 = v s \<and>
    live s2"
proof -
  obtain f where f: "sl_next (y_lib Y) (data_cmp (y_lib Y) (d_options (sy_cmp c))) (d_fcmp (sy_cmp c)) = (None, f)"
    using c by (metis compared_def prod.collapse)
  let ?d = "(sy_cmp c)\<lparr>d_fcmp := f, d_filter := view_rows Y c\<rparr>"
  let ?c1 = "c\<lparr>sy_cmp := ?d, sy_st := SyDiffShow\<rparr>"
  have t: "op_turn (stop_flag (y_core Y)) (sync_turn Y) (c, s) (?c1, s)"
    using c f lines_outD(4) [OF env live]
    by (intro op_turnI) (simp_all add: sync_turn_def sy_diff_def diff_next_def diff_fin_def compared_def sync_view_def view_rows_def Let_def)
  have info: "sync_info_id ?d i 0 = sync_info_id (sy_cmp c) i 0" for i by (simp add: sync_info_id_def has_def)
  have rl: "row_line Y ?c1 = row_line Y c" by (rule ext) (simp add: row_line_def Let_def)
  have "row_known (sync_info_id (sy_cmp c) i 0)" if "i \<in> set (view_rows Y c)" for i
  proof -
    have "row_ok (sy_args c) (d_ents (sy_cmp c) ! i)" using that ok by (auto simp: view_rows_def list_all_length)
    then show ?thesis by (auto simp: row_ok_def row_known_def sync_info_id_def Let_def has_def)
  qed
  then have "list_all (\<lambda>i. row_known (sync_info_id (sy_cmp ?c1) i 0)) (view_rows Y c)" by (simp add: list_all_iff info)
  then obtain s2 where s2: "(op_turn (stop_flag (y_core Y)) (sync_turn Y))\<^sup>*\<^sup>* (?c1, s) (?c1\<lparr>sy_cmp_idx := length (view_rows Y c)\<rparr>, s2)"
    "out s2 = out s @ rows_lines Y ?c1 (view_rows Y c)" "v s2 = v s" "live s2"
    using diff_show_rows [OF env quiet live, of ?c1 "view_rows Y c"] c by (auto simp: compared_def)
  have "rows_lines Y ?c1 (view_rows Y c) = rows_lines Y c (view_rows Y c)" by (simp add: rows_lines_def rl info)
  with s2 t show ?thesis
    using c rc converse_rtranclp_into_rtranclp [of "op_turn (stop_flag (y_core Y)) (sync_turn Y)", OF t s2(1)]
    by (intro exI [of _ "?c1\<lparr>sy_cmp_idx := length (view_rows Y c)\<rparr>"] exI [of _ s2]) (simp add: same_job_def compared_def)
qed

text \<open>A row that is counted as moved is marked as a move.\<close>

lemma upd_ent_stats [simp]: "d_stats (upd_ent i f d) = d_stats d"
  by (simp add: upd_ent_def)

lemma upd_stats_fields [simp]: "d_stats (upd_stats f d) = f (d_stats d)" "d_ents (upd_stats f d) = d_ents d"
  by (simp_all add: upd_stats_def)

lemma map_probe_fields:
  "map_probe L e is d w = (r, d', w') \<Longrightarrow> d_stats d' = d_stats d \<and> d_ents d' = d_ents d"
proof (induction "is" arbitrary: d w)
  case (Cons i "is")
  obtain ok d1 w1 where k: "moved_keyeq L e (d_ents d ! i) d w = (ok, d1, w1)" by (metis prod_cases3)
  then have "d_stats d1 = d_stats d \<and> d_ents d1 = d_ents d"
    by (auto simp: moved_keyeq_def moved_check_data_def set_names_def Let_def case_prod_beta split: option.splits if_splits)
  then show ?case using Cons k by (auto split: if_splits)
qed simp

lemma moved_find_add_fields:
  assumes "moved_find_add L e i d w = (r, d', w')"
  shows "d_stats d' = d_stats d \<and> d_ents d' = d_ents d"
proof -
  obtain it d1 w1 where p: "map_probe L e (sl_probe L (d_moved d) (ent_moved_hash L (d_options d) e)) d w = (it, d1, w1)"
    by (metis prod_cases3)
  have "d_stats d' = d_stats d1 \<and> d_ents d' = d_ents d1"
    using assms by (auto simp: moved_find_add_def p Let_def split: if_splits)
  then show ?thesis using map_probe_fields [OF p] by simp
qed

lemma one_sided_fields:
  assumes x: "one_sided L left e ref i d w = (d', w')"
  shows "d_ents d' = (d_ents d)[i := (d_ents d ! i)\<lparr>ce_status := if left then FCOM_SYNC_LEFT else FCOM_SYNC_RIGHT\<rparr>] \<and>
      n_moved (d_stats d') = n_moved (d_stats d) \<or>
    (\<exists>j a b. has (ce_status (d_ents d ! j)) (if left then FCOM_SYNC_RIGHT else FCOM_SYNC_LEFT) \<and>
      d_ents d' = (d_ents d)[j := a, i := ((d_ents d)[j := a] ! i)\<lparr>ce_status := FCOM_SYNC_MOVE OR FCOM_SYNC_SKIP\<rparr>, j := b])"
proof -
  let ?d1 = "upd_stats (\<lambda>s. if left then s\<lparr>n_left := n_left s + 1\<rparr> else s\<lparr>n_right := n_right s + 1\<rparr>) d"
  obtain r d2 w2 where f: "moved_find_add L e i ?d1 w = (r, d2, w2)" by (rule prod_cases3)
  have d2: "d_stats d2 = d_stats ?d1" "d_ents d2 = d_ents d"
    using moved_find_add_fields [OF f] by simp_all
  have mv: "n_moved (d_stats ?d1) = n_moved (d_stats d)" by simp
  let ?mine = "if left then FCOM_SYNC_LEFT else FCOM_SYNC_RIGHT" and ?other = "if left then FCOM_SYNC_RIGHT else FCOM_SYNC_LEFT"
  note o = x [unfolded one_sided_def Let_def f prod.case]
  show ?thesis
  proof (cases "\<exists>j. r = Some j \<and> has (ce_status (d_ents d2 ! j)) ?other")
    case False
    then have "d' = upd_ent i (\<lambda>c. c\<lparr>ce_status := ?mine\<rparr>) d2" using o by (auto split: option.splits)
    then show ?thesis by (simp add: upd_ent_def d2 mv)
  next
    case True
    then obtain j where j: "r = Some j" "has (ce_status (d_ents d2 ! j)) ?other" by blast
    define d3 where "d3 = upd_ent j (\<lambda>c. c\<lparr>ce_status := (ce_status c AND NOT ?other) OR FCOM_SYNC_MOVE\<rparr>) d2"
    define g where "g = (\<lambda>c :: cmp_ent. if left then c\<lparr>ce_l := ref\<rparr> else c\<lparr>ce_r := ref\<rparr>)"
    define d4 where "d4 = upd_ent i (\<lambda>c. c\<lparr>ce_status := FCOM_SYNC_MOVE OR FCOM_SYNC_SKIP\<rparr>) d3"
    have "upd_stats (\<lambda>s. s\<lparr>n_moved := n_moved s + 1, n_left := n_left s - 1, n_right := n_right s - 1, n_entries := n_entries s - 1\<rparr>)
        (upd_ent j g d4) = d'"
      using o unfolding d3_def d4_def g_def j(1) option.case by (simp only: j(2) if_True prod.inject)
    then have "d_ents d' = d_ents (upd_ent j g d4)" by auto
    then have e: "d_ents d' = (d_ents d)[j := (d_ents d ! j)\<lparr>ce_status := (ce_status (d_ents d ! j) AND NOT ?other) OR FCOM_SYNC_MOVE\<rparr>,
        i := ((d_ents d)[j := (d_ents d ! j)\<lparr>ce_status := (ce_status (d_ents d ! j) AND NOT ?other) OR FCOM_SYNC_MOVE\<rparr>] ! i)
          \<lparr>ce_status := FCOM_SYNC_MOVE OR FCOM_SYNC_SKIP\<rparr>, j := g (d_ents d4 ! j)]"
      by (simp add: upd_ent_def [of j] d4_def d3_def upd_ent_def [of i] d2)
    show ?thesis by (rule disjI2, intro exI conjI, rule j(2) [unfolded d2(2)], rule e)
  qed
qed

lemma one_sided_moved:
  assumes x: "one_sided L left e ref i d w = (d', w')" and m: "n_moved (d_stats d') = n_moved (d_stats d) + 1"
    and i: "i < length (d_ents d)" "ce_status (d_ents d ! i) = 0"
  shows "d_ents d' ! i = (d_ents d ! i)\<lparr>ce_status := FCOM_SYNC_MOVE OR FCOM_SYNC_SKIP\<rparr> \<and> length (d_ents d') = length (d_ents d)"
proof -
  obtain j a b where j: "has (ce_status (d_ents d ! j)) (if left then FCOM_SYNC_RIGHT else FCOM_SYNC_LEFT)"
    "d_ents d' = (d_ents d)[j := a, i := ((d_ents d)[j := a] ! i)\<lparr>ce_status := FCOM_SYNC_MOVE OR FCOM_SYNC_SKIP\<rparr>, j := b]"
    using one_sided_fields [OF x] m by auto
  have "j \<noteq> i" using j(1) i(2) by (auto simp: has_def)
  then show ?thesis using i(1) by (simp add: j(2))
qed

lemma diff_next_moved:
  assumes x: "diff_next L d w = Some (False, d', w')" and m: "n_moved (d_stats d') = n_moved (d_stats d) + 1"
  shows "ce_status (last (d_ents d')) = FCOM_SYNC_MOVE OR FCOM_SYNC_SKIP"
    and "fst (sl_next L (data_cmp L (d_options d)) (d_fcmp d)) = Some ((CRight, g), a, b) \<Longrightarrow> ce_l (last (d_ents d')) = None"
proof -
  obtain k fl le re f where n: "sl_next L (data_cmp L (d_options d)) (d_fcmp d) = (Some ((k, fl), le, re), f)"
    using x by (auto simp: diff_next_def split: prod.splits option.splits)
  let ?le = "if k = CRight then None else le" and ?re = "if k = CLeft then None else re" and ?i = "length (d_ents d)"
  define d1 where "d1 = set_names ?le ?re (d\<lparr>d_fcmp := f, d_ents := d_ents d @ [\<lparr>ce_status = 0, ce_l = ?le, ce_r = ?re\<rparr>]\<rparr>)"
  have d1: "d_stats d1 = d_stats d" "length (d_ents d1) = Suc ?i" "d_ents d1 ! ?i = \<lparr>ce_status = 0, ce_l = ?le, ce_r = ?re\<rparr>"
    by (simp_all add: d1_def set_names_def)
  let ?row = "last (d_ents d') = \<lparr>ce_status = FCOM_SYNC_MOVE OR FCOM_SYNC_SKIP, ce_l = ?le, ce_r = ?re\<rparr>"
  have os: ?row
    if o: "one_sided L b e ref ?i d1 w = (d2, w2)" and d': "d' = upd_stats (\<lambda>s. s\<lparr>n_entries := n_entries s + 1\<rparr>) d2" for b e ref d2 w2
  proof -
    have "n_moved (d_stats d2) = n_moved (d_stats d1) + 1" using m by (simp add: d' d1 upd_stats_def)
    then have "d_ents d2 ! ?i = \<lparr>ce_status = FCOM_SYNC_MOVE OR FCOM_SYNC_SKIP, ce_l = ?le, ce_r = ?re\<rparr>" "length (d_ents d2) = Suc ?i"
      using one_sided_moved [OF o] d1 by simp_all
    then show ?thesis by (simp add: d' upd_stats_def last_conv_nth [of "d_ents d2"] flip: length_greater_0_conv)
  qed
  have st: "d_stats d1 = d_stats d" by (fact d1(1))
  have row: ?row
  proof (cases k)
    case CLeft
    then show ?thesis using x n os [of True, unfolded d1_def] by (auto simp: diff_next_def Let_def split: if_splits prod.splits)
  next
    case CRight
    then show ?thesis using x n os [of False, unfolded d1_def] by (auto simp: diff_next_def Let_def split: if_splits prod.splits)
  next
    case CEq
    then show ?thesis using x n m st by (auto simp: diff_next_def Let_def d1_def [symmetric] upd_stats_def set_names_def split: if_splits)
  next
    case CNeq
    then show ?thesis using x n m st by (auto simp: diff_next_def Let_def d1_def [symmetric] upd_stats_def set_names_def split: if_splits)
  qed
  then show "ce_status (last (d_ents d')) = FCOM_SYNC_MOVE OR FCOM_SYNC_SKIP" by simp
  show "ce_l (last (d_ents d')) = None"
    if "fst (sl_next L (data_cmp L (d_options d)) (d_fcmp d)) = Some ((CRight, g), a, b)"
    using row that n by simp
qed

section \<open>Properties\<close>

text \<open>C32. After the comparison, \<open>sync --diff\<close> writes the lines of the rows the view keeps (kind, directory, age, include and exclude
  filters), in the order of the walk, and nothing else, and completes with 0: a line for a row that is added, deleted, changed or
  moved, none for a row whose sides are equal. The operation is not told to stop meanwhile (\<open>live\<close>).\<close>

theorem sync_diff_shows:
  assumes env: "lines_out Y out live" and live: "live s" and c: "compared Y c" and only: "sy_diff_only c"
    and ok: "list_all (row_ok (sy_args c)) (d_ents (sy_cmp c))"
  shows "\<exists>c' s'. sync_run Y c s = Some ((Some 0, c'), s') \<and> out s' = out s @ rows_lines Y c (view_rows Y c)"
proof -
  let ?c = "c\<lparr>sy_rc := 1\<rparr>"
  have e: "compared Y ?c" "view_rows Y ?c = view_rows Y c" "rows_lines Y ?c = rows_lines Y c"
    using c by (simp_all add: compared_def view_rows_def rows_lines_def row_line_rc fun_eq_iff)
  obtain c2 s2 where t: "(op_turn (stop_flag (y_core Y)) (sync_turn Y))\<^sup>*\<^sup>* (?c, s) (c2, s2)" "sy_rc c2 = 1" "sy_diff_only c2"
    "sy_st c2 = SyDiffShow" "sy_cmp_idx c2 = length (d_filter (sy_cmp c2))" "out s2 = out s @ rows_lines Y c (view_rows Y c)" "live s2"
    using shown_phase [OF env live prints_quiet_unit e(1)] ok only e(2,3) by auto
  let ?c3 = "c2\<lparr>sy_cmp_idx := sy_cmp_idx c2 + 1, sy_rc := 0\<rparr>"
  have "sync_turn Y c2 s2 = Some (Inr (?c3, 0), s2)"
    using t(3-5) by (simp add: sync_turn_def sy_diff_show_def diff_show_next_def sync_info_def Let_def)
  then have "op_loop (stop_flag (y_core Y)) (sync_turn Y) (c2\<lparr>sy_rc := 1\<rparr>) s2 = Some ((?c3, 0), s2)"
    using t(2) lines_outD(4) [OF env t(7)] op_loop_exit by (metis (no_types, lifting) sync.surjective sync.update_convs(21))
  moreover have "\<exists>s3. sync_close Y ?c3 s2 = Some ((), s3) \<and> out s3 = out s2"
  proof -
    obtain s3 where s3: "(case ws_snap (sy_sw ?c3) of None \<Rightarrow> Some ((), s2) | Some f \<Rightarrow> fi_destroy (y_core Y) f s2) = Some ((), s3)"
      "out s3 = out s2" "live s3" using lines_outD(3) [OF env t(7)] t(7) by (cases "ws_snap (sy_sw ?c3)") auto
    obtain s4 where "(case sy_input ?c3 of None \<Rightarrow> Some ((), s3) | Some f \<Rightarrow> fi_destroy (y_core Y) f s3) = Some ((), s4)"
      "out s4 = out s3" using lines_outD(3) [OF env s3(3)] by (cases "sy_input ?c3") auto
    with s3 show ?thesis by (simp add: sync_close_def)
  qed
  ultimately have "\<exists>s3. sync_run Y c2 s2 = Some ((Some 0, ?c3), s3) \<and> out s3 = out s2"
    by (auto simp: sync_run_def SY_ASYNC_def)
  then show ?thesis using sync_run_turns [OF t(1) _ t(2)] t(6) by (simp add: sync_run_def) metis
qed

text \<open>C31. Without \<open>--diff\<close> a run acts on the rows of the comparison, all of them and in order, not only on those the view keeps:
  it starts a command or moves a file for each row whose option is given, passes over a move that is refused, counts the commands
  that complete with 0, stops at the first one that does not and completes with its code, else with 0. Excluded are, with
  \<open>--move\<close>, the rows without a left side that a move leaves behind (C34), and that the operation is told to stop.\<close>

theorem sync_acts_on_rows:
  assumes env: "deeds_logged Y fin res mv led live" "lines_out Y out live" and live: "live s" and quiet: "prints_quiet Y led"
    and c: "compared Y c" "\<not> sy_diff_only c" and ok: "list_all (row_ok (sy_args c)) (d_ents (sy_cmp c))"
    and rows: "do_rows res mv (y_new Y) c (led s) (d_ents (sy_cmp c)) (sc_stats c) = (ds, st, k)"
  shows "\<exists>c' s'. sync_whole Y fin c s = Some ((k, c'), s') \<and> led s' = led s @ ds \<and> sc_stats c' = st"
proof -
  let ?c = "c\<lparr>sy_rc := 1\<rparr>"
  have e: "compared Y ?c" using c by (simp add: compared_def)
  obtain c2 s2 where t: "(op_turn (stop_flag (y_core Y)) (sync_turn Y))\<^sup>*\<^sup>* (?c, s) (c2, s2)" "same_job (?c\<lparr>sy_cmp := sy_cmp c2\<rparr>) c2"
    "d_ents (sy_cmp c2) = d_ents (sy_cmp c)" "d_lroot (sy_cmp c2) = d_lroot (sy_cmp c)" "d_rroot (sy_cmp c2) = d_rroot (sy_cmp c)"
    "sc_stats c2 = sc_stats c" "sc_idx c2 = 0" "sy_rc c2 = 1" "\<not> sy_diff_only c2" "sy_st c2 = SyDiffShow"
    "sy_cmp_idx c2 = length (d_filter (sy_cmp c2))" "led s2 = led s" "live s2"
    using shown_phase [OF env(2) live quiet e] ok c(2) by auto
  let ?c3 = "c2\<lparr>sy_cmp_idx := sy_cmp_idx c2 + 1, sy_st := SySync\<rparr>"
  have "op_turn (stop_flag (y_core Y)) (sync_turn Y) (c2, s2) (?c3, s2)"
    using t(9-11) deeds_loggedD(4) [OF env(1) t(13)]
    by (intro op_turnI) (simp_all add: sync_turn_def sy_diff_show_def diff_show_next_def sync_info_def Let_def)
  then have t3: "(op_turn (stop_flag (y_core Y)) (sync_turn Y))\<^sup>*\<^sup>* (?c, s) (?c3, s2)" using t(1) by simp
  have same: "same_job (c\<lparr>sy_cmp := sy_cmp c2\<rparr>) ?c3" using t(2) by (simp add: same_job_def)
  have rd: "row_deed n (c\<lparr>sy_cmp := sy_cmp c2\<rparr>) = row_deed n c" for n
  proof
    fix ce
    have i: "sync_copy_info n (c\<lparr>sy_cmp := sy_cmp c2\<rparr>) = sync_copy_info n c" "sync_trash_info n (c\<lparr>sy_cmp := sy_cmp c2\<rparr>) = sync_trash_info n c"
      by (simp_all add: fun_eq_iff sync_copy_info_def sync_trash_info_def)
    have f: "sy_args (c\<lparr>sy_cmp := sy_cmp c2\<rparr>) = sy_args c" "sy_cmp (c\<lparr>sy_cmp := sy_cmp c2\<rparr>) = sy_cmp c2"
      "sy_src (c\<lparr>sy_cmp := sy_cmp c2\<rparr>) = sy_src c" "sy_dst (c\<lparr>sy_cmp := sy_cmp c2\<rparr>) = sy_dst c" by simp_all
    show "row_deed n (c\<lparr>sy_cmp := sy_cmp c2\<rparr>) ce = row_deed n c ce" unfolding row_deed_def i f t(4,5) ..
  qed
  have dr: "do_rows res mv n (c\<lparr>sy_cmp := sy_cmp c2\<rparr>) h ces st = do_rows res mv n c h ces st" for n h ces st
    by (induction ces arbitrary: h st) (auto simp: rd split: option.splits deed.splits)
  have ar: "sy_args ?c3 = sy_args c" using same by (simp add: same_job_def)
  have "\<exists>c' s'. sync_whole Y fin ?c3 s2 = Some ((k, c'), s') \<and> led s' = led s2 @ ds \<and> sc_stats c' = st"
    by (rule sync_whole_rows [OF env(1), where ces = "d_ents (sy_cmp c)"])
      (use t(3,6,7,12,13) ok rows ar do_rows_same [OF same] dr in simp_all)
  moreover have "sync_run Y c s = sync_run Y ?c3 s2"
    using sync_run_turns [OF t3] t(8) by (simp add: sync_run_def)
  ultimately show ?thesis using t(12) by (auto simp: sync_whole_def)
qed

text \<open>C34. When the walk meets a file that is only on the right and the comparison finds it on the left under another name, the row
  it adds for that file is marked as a move to be skipped and has no left side. With \<open>--move\<close> the program takes that row for a
  move like any other and uses the missing left side: it crashes.\<close>

theorem sync_move_crashes:
  fixes Y :: "('s, 'i, 't, 'b, 'e, 'c, 'd, 'z, 'f, 'p, 'k) syncenv" and s w w' :: 's
  assumes item: "fst (sl_next (y_lib Y) (data_cmp (y_lib Y) (d_options d)) (d_fcmp d)) = Some ((CRight, fl), le, re)"
    and step: "diff_next (y_lib Y) d w = Some (False, d', w')" and moved: "n_moved (d_stats d') = n_moved (d_stats d) + 1"
  shows "ce_status (last (d_ents d')) = FCOM_SYNC_MOVE OR FCOM_SYNC_SKIP \<and> ce_l (last (d_ents d')) = None \<and>
    (\<forall>c. sy_st c = SySync \<longrightarrow> sc_idx c < length (d_ents (sy_cmp c)) \<longrightarrow> d_ents (sy_cmp c) ! sc_idx c = last (d_ents d') \<longrightarrow>
       ya_move (sy_args c) \<longrightarrow> \<not> stop_flag (y_core Y) s \<longrightarrow> sync_run Y c s = None)"
proof (intro conjI allI impI)
  show st: "ce_status (last (d_ents d')) = FCOM_SYNC_MOVE OR FCOM_SYNC_SKIP" and left: "ce_l (last (d_ents d')) = None"
    using diff_next_moved [OF step moved] item by simp_all
  fix c :: "('t, 'b, 'c, 'f, 'k) sync"
  assume c: "sy_st c = SySync" "sc_idx c < length (d_ents (sy_cmp c))" "d_ents (sy_cmp c) ! sc_idx c = last (d_ents d')"
    "ya_move (sy_args c)" "\<not> stop_flag (y_core Y) s"
  have "ce_status (last (d_ents d')) AND FCOM_SYNC_MASK = FCOM_SYNC_MOVE" using st by (simp add: flag_simps)
  then have "sync1 Y (c\<lparr>sy_rc := 1\<rparr>) s = None"
    using c(2-4) left by (simp add: sync1_def sync_move_def Let_def row_kinds_ne)
  then show "sync_run Y c s = None"
    using c(1,5) by (simp add: sync_run_def) (subst op_loop.simps, simp add: sync_turn_def sy_sync_def)
qed

text \<open>C33. A run of \<open>sync\<close> with \<open>--diff\<close>, whatever its other options, in any of its phases and however it ends, only looks:
  it never waits for a command, and what the other calls leave alone (for one, the commands started and the files
  moved) is at the end as it was at the start.\<close>

theorem sync_diff_only_looks:
  assumes quiet: "sync_quiet Y v" and args: "ya_diff a \<noteq> None" "sync_create Y a cmd f t = Some c"
    and run: "sync_run Y c s = Some ((r, c'), s')"
  shows "r \<noteq> None \<and> v s' = v s"
proof -
  have c: "sy_diff_only c" "sy_st c = SyInit"
    using args by (auto simp: sync_create_def sync_args_parse_def Let_def split: option.splits if_splits)
  obtain c1 k s1 where l: "op_loop (stop_flag (y_core Y)) (sync_turn Y) (c\<lparr>sy_rc := 1\<rparr>) s = Some ((c1, k), s1)"
    using run by (auto simp: sync_run_def Option.bind_eq_Some_conv)
  have "k \<noteq> SY_ASYNC \<and> v s1 = v s"
    using l
  proof (rule op_loop_invariant [where I = "\<lambda>c x. sy_diff_only c \<and> sy_st c \<noteq> SySync \<and> v x = v s"])
    show "sy_diff_only (c\<lparr>sy_rc := 1\<rparr>) \<and> sy_st (c\<lparr>sy_rc := 1\<rparr>) \<noteq> SySync \<and> v s = v s" using c by simp
  qed (auto simp: SY_ASYNC_def turn_quiet_def dest!: sync_turn_quiet [OF quiet, rotated])
  then show ?thesis
    using run l by (auto simp: sync_run_def sync_close_def Option.bind_eq_Some_conv split: option.splits if_splits
        dest!: keepsD [OF sync_quietD(14) [OF quiet]])
qed

end
