(* ===== verification/SyncDemo.thy ===== *)
theory SyncDemo
  imports SyncRunProps CoreOf
begin

text \<open>
  The theorems of \<^theory_text>\<open>SyncRunProps\<close> at the program's own core (\<^theory_text>\<open>CoreOf\<close>) over a small kernel: empty trees, five rows,
  a log of the commands started, the files renamed and the lines written.
\<close>

section \<open>Instances\<close>

text \<open>
  The kernel keeps the log of deeds and the lines written; it knows one file, \<open>out/k\<close>, and renames whatever it is asked to. The
  trees are empty, the walk over both trees is a list of what it yields.
\<close>

type_synonym demo_kernel = "unit deed list \<times> bytes list"

type_synonym demo_state = "(bytes list, nat, unit, unit, demo_kernel fworld) com"

type_synonym demo_walk = "((cmp4 \<times> 32 word) \<times> eref \<times> eref) list"

definition demo_sys :: "(demo_kernel, unit) sys" where
  "demo_sys = undefined
     \<lparr>fs_open := (\<lambda>n fl w. (if n = ''out/k'' then Some 3 else None, w)), fs_close := (\<lambda>fd w. (True, w)),
      fs_rename := (\<lambda>a b w. (True, (fst w @ [Moved a b], snd w)))\<rparr>"

definition demo_log :: "(demo_kernel \<Rightarrow> demo_kernel) \<Rightarrow> demo_state \<Rightarrow> demo_state" where
  "demo_log f s = s\<lparr>world := (world s)\<lparr>wo_sys := f (wo_sys (world s))\<rparr>\<rparr>"

definition demo_led :: "demo_state \<Rightarrow> unit deed list" where "demo_led s = fst (wo_sys (world s))"

definition demo_out :: "demo_state \<Rightarrow> bytes list" where "demo_out s = snd (wo_sys (world s))"

definition demo_live :: "demo_state \<Rightarrow> bool" where
  "demo_live s \<longleftrightarrow> \<not> wo_stop (world s) \<and> (\<forall>f. f_fd (wo_objs (world s) f) = None)"

definition demo_start :: demo_state where
  "demo_start = undefined\<lparr>world := \<lparr>wo_objs = (\<lambda>_. disk_obj), wo_next = 0, wo_stop = False, wo_sys = ([], [])\<rparr>\<rparr>"

definition demo_info :: "unit cominfo" where
  "demo_info =
     \<lparr>ci_argv = [], ci_operation = None, ci_input = [''in''], ci_include = [], ci_exclude = [], ci_input_fd = None, ci_stdin = False,
      ci_recursive = 0, ci_output = ''out'', ci_outputz = None, ci_chdir = [], ci_stdout = False, ci_overwrite = False,
      ci_test = False, ci_no_prealloc = False, ci_buffer_size = 0, ci_directio = False, ci_help = False, ci_on_complete = None\<rparr>"

definition demo_lib :: "(demo_walk, demo_state) synclib" where
  "demo_lib =
     \<lparr>sl_icmp = (\<lambda>a b. 0), sl_ifind = (\<lambda>a b. a = b), sl_ftcmp = (\<lambda>a b. 0), sl_msec = (\<lambda>t. 0), sl_hash = (\<lambda>k. 0),
      sl_probe = (\<lambda>m h. map snd m), sl_next = (\<lambda>f w. case w of [] \<Rightarrow> (None, []) | x # xs \<Rightarrow> (Some x, xs)),
      sl_sort = (\<lambda>f l. l), sl_sys = undefined\<lparr>fs_close := (\<lambda>fd w. (True, w)), fs_readat := (\<lambda>fd n off w. (None, w))\<rparr>, sl_openz = (\<lambda>n w. (None, w)),
      sl_alloc = (\<lambda>w. True)\<rparr>"

definition demo_core :: "(demo_state, unit) coreif" where
  "demo_core = core_of demo_sys cursor_lib 0 (\<lambda>_. disk_obj)"

text \<open>A core in which nothing can be opened.\<close>

definition idle_core :: "(demo_state, unit) coreif" where
  "idle_core = undefined
     \<lparr>fi_create := (\<lambda>n s. Some (0, s)), fi_destroy := (\<lambda>f s. Some ((), s)), fi_open := (\<lambda>f n fl s. Some (FErr, s)),
      fi_write := (\<lambda>f d off s. Some (FErr, s)), stop_flag := (\<lambda>s. wo_stop (world s))\<rparr>"

definition demo_ft :: "(unit, unit, unit, unit) fntree" where
  "demo_ft = undefined
     \<lparr>ft_create := (\<lambda>p t. ((), ())), ft_add := (\<lambda>b n t. (Some ((), ()), ())), ft_start := (),
      ft_next_ctx := (\<lambda>c b t. (None, (), ()))\<rparr>"

definition demo_scan :: "(demo_state, unit, unit, unit, unit, unit) scanenv" where
  "demo_scan = undefined
     \<lparr>sc_info_path := (\<lambda>n s. Some (None, s)), sc_dirscan := (\<lambda>n s. Some (None, s)), sc_dirclose := (\<lambda>d s. Some ((), s)),
      sc_open := (\<lambda>n s. Some (None, s)), sc_close := (\<lambda>f s. Some ((), s)), sc_unzip := None,
      sc_unzip_next := (\<lambda>z s. Some ([], s)), sc_unzip_close := (\<lambda>z s. Some ((), s))\<rparr>"

definition demo_env :: "(demo_state, unit) coreif \<Rightarrow> (demo_state, unit, unit, unit, unit, unit, unit, unit, demo_walk, unit, unit) syncenv" where
  "demo_env core =
     \<lparr>y_core = core, y_ft = demo_ft, y_scan = demo_scan, y_text = undefined, y_conf = undefined,
      y_readwhole = (\<lambda>f n s. Some (None, s)), y_lib = demo_lib, y_walk = (\<lambda>t a b l r. []),
      y_show = (\<lambda>x s. Some ((), demo_log (\<lambda>w. (fst w, snd w @ [x])) s)),
      y_print = (\<lambda>x s. Some ((), demo_log (\<lambda>w. (fst w, snd w @ [x])) s)),
      y_clock = (0, 0), y_new = demo_info, y_start = (\<lambda>i s. Some ((), demo_log (\<lambda>w. (fst w @ [Ran i], snd w)) s)),
      y_pad = (\<lambda>n x. x), y_padnum = (\<lambda>n x. []), y_color = None\<rparr>"

definition demo_args :: "bytes option \<Rightarrow> sync_args" where
  "demo_args d =
     \<lparr>ya_add = True, ya_del = True, ya_update = False, ya_move = True, ya_diff = d, ya_plain = (d \<noteq> None), ya_snapshot = False,
      ya_left_snapshot = False, ya_right_snapshot = False, ya_no_dir = False, ya_no_attr = False, ya_no_time = False,
      ya_time_2sec = False, ya_full_name = False, ya_replace_date = False, ya_zip_expand = False, ya_write_into = False,
      ya_recent_days = 0\<rparr>"

definition demo_fent :: "bytes \<Rightarrow> fent" where "demo_fent n = \<lparr>en_name = n, en_data = no_entry\<rparr>"

definition demo_sync :: "bytes option \<Rightarrow> cmp_ent list \<Rightarrow> (unit, unit, unit, demo_walk, unit) sync" where
  "demo_sync d rows =
     (the (sync_create (demo_env demo_core) (demo_args d) demo_info [] ()))
       \<lparr>sy_st := SyDiff, sy_src := Some (snap_new demo_ft False ''in'' ()), sy_dst := Some (snap_new demo_ft False ''out'' ()),
        sy_cmp := (diff_new [])\<lparr>d_ents := rows, d_lroot := ''in'', d_rroot := ''out''\<rparr>\<rparr>"

definition demo_rows :: "cmp_ent list" where
  "demo_rows =
     [\<lparr>ce_status = FCOM_SYNC_LEFT, ce_l = Some (demo_fent ''a'', ''in''), ce_r = None\<rparr>,
      \<lparr>ce_status = FCOM_SYNC_EQ, ce_l = Some (demo_fent ''b'', ''in''), ce_r = Some (demo_fent ''b'', ''out'')\<rparr>,
      \<lparr>ce_status = FCOM_SYNC_RIGHT, ce_l = None, ce_r = Some (demo_fent ''c'', ''out'')\<rparr>,
      \<lparr>ce_status = FCOM_SYNC_MOVE, ce_l = Some (demo_fent ''m'', ''in''), ce_r = Some (demo_fent ''z'', ''out'')\<rparr>,
      \<lparr>ce_status = FCOM_SYNC_MOVE, ce_l = Some (demo_fent ''k'', ''in''), ce_r = Some (demo_fent ''y'', ''out'')\<rparr>]"

definition demo_fin :: "(demo_state, int) act" where "demo_fin s = Some (0, s)"

definition demo_mv :: "unit deed list \<Rightarrow> bytes \<Rightarrow> bytes \<Rightarrow> bool" where "demo_mv h a b \<longleftrightarrow> b \<noteq> ''out/k''"

lemmas demo_defs = demo_info_def demo_lib_def demo_ft_def demo_scan_def demo_env_def demo_args_def demo_fent_def

lemmas demo_state_defs = demo_led_def demo_out_def demo_live_def demo_log_def

lemma demo_core_calls:
  "stop_flag demo_core s = wo_stop (world s)"
  "\<exists>s'. fi_move demo_core a b FCOM_FILE_MOVE_SAFE s = Some (if demo_mv h a b then FOk else FErr, s') \<and> demo_out s' = demo_out s \<and>
     demo_led s' = demo_led s @ (if demo_mv h a b then [Moved a b] else []) \<and> (demo_live s \<longrightarrow> demo_live s')"
  "demo_live s \<Longrightarrow> \<exists>s'. fi_destroy demo_core f s = Some ((), s') \<and> demo_led s' = demo_led s \<and> demo_out s' = demo_out s \<and> demo_live s'"
  by (auto simp: demo_core_def core_of_def on_sys_def on_obj_def file_move_def file_close_def demo_sys_def demo_mv_def
      demo_state_defs FCOM_FILE_MOVE_SAFE_def has_def Let_def split: if_splits)

lemma demo_quiet: "sync_quiet (demo_env idle_core) demo_led"
  by (simp add: sync_quiet_def demo_defs idle_core_def keeps_def demo_state_defs)

lemma demo_prints_quiet: "prints_quiet (demo_env demo_core) demo_led"
  by (simp add: prints_quiet_def demo_env_def keeps_def demo_state_defs)

lemma demo_logged: "deeds_logged (demo_env demo_core) demo_fin (\<lambda>h i. 0) demo_mv demo_led demo_live"
  unfolding deeds_logged_def
proof (intro conjI allI impI)
  fix a b s
  assume l: "demo_live s"
  obtain s' where "fi_move demo_core a b FCOM_FILE_MOVE_SAFE s = Some (if demo_mv (demo_led s) a b then FOk else FErr, s')"
    "demo_led s' = demo_led s @ (if demo_mv (demo_led s) a b then [Moved a b] else [])" "demo_live s'"
    using demo_core_calls(2) [of a b s "demo_led s"] l by blast
  then show "\<exists>r s'. fi_move (y_core (demo_env demo_core)) a b FCOM_FILE_MOVE_SAFE s = Some (r, s') \<and>
      demo_led s' = demo_led s @ (if demo_mv (demo_led s) a b then [Moved a b] else []) \<and> demo_live s'"
    by (simp add: demo_env_def)
next
  fix f s
  assume "demo_live s"
  from demo_core_calls(3) [OF this, of f]
  show "\<exists>s'. fi_destroy (y_core (demo_env demo_core)) f s = Some ((), s') \<and> demo_led s' = demo_led s \<and> demo_live s'"
    by (auto simp: demo_env_def)
qed (use demo_core_calls(1) in \<open>auto simp: demo_env_def demo_fin_def demo_state_defs\<close>)

lemma demo_lines: "lines_out (demo_env demo_core) demo_out demo_live"
  unfolding lines_out_def using demo_core_calls(1,3) by (fastforce simp: demo_env_def demo_state_defs)

lemma demo_start_live: "demo_live demo_start" "demo_led demo_start = []" "demo_out demo_start = []"
  by (simp_all add: demo_state_defs demo_start_def disk_obj_def)

lemmas demo_create_defs = sync_create_def sync_args_parse_def diff_flags_parse_def demo_defs Let_def

lemmas demo_turn_defs = sync_turn_def sy_init_def sy_in_prep_def left_tree_init_def add_inputs.simps sy_in_def scan_next_def snap_next_def
  snap_new_def sy_out_init_def right_tree_init_def sy_out_def diff_begin_def diff_init_def sy_diff_def diff_next_def diff_fin_def sync_view_def
  sy_diff_show_def diff_show_next_def sync_info_def sync_close_def diff_new_def no_stats_def Let_def

lemma demo_run:
  "\<exists>c c' s'. sync_create (demo_env idle_core) (demo_args (Some [])) demo_info [] () = Some c \<and> sync_run (demo_env idle_core) c demo_start = Some ((Some 0, c'), s')"
  apply (simp add: sync_run_def demo_create_defs)
  apply (subst op_loop.simps, simp add: demo_turn_defs idle_core_def demo_start_def)
  apply (subst op_loop.simps, simp add: demo_turn_defs idle_core_def demo_start_def)
  apply (subst op_loop.simps, simp add: demo_turn_defs idle_core_def demo_start_def)
  apply (subst op_loop.simps, simp add: demo_turn_defs idle_core_def demo_start_def)
  apply (subst op_loop.simps, simp add: demo_turn_defs idle_core_def demo_start_def SY_ASYNC_def)
  done

theorem sync_diff_only_looks_witness:
  "\<exists>c r c' s'. sync_create (demo_env idle_core) (demo_args (Some [])) demo_info [] () = Some c \<and>
     sync_run (demo_env idle_core) c demo_start = Some ((r, c'), s') \<and> r \<noteq> None \<and> demo_led s' = []"
proof -
  obtain c c' s' where r: "sync_create (demo_env idle_core) (demo_args (Some [])) demo_info [] () = Some c"
    "sync_run (demo_env idle_core) c demo_start = Some ((Some 0, c'), s')" using demo_run by blast
  have "ya_diff (demo_args (Some [])) \<noteq> None" by (simp add: demo_args_def)
  from sync_diff_only_looks [OF demo_quiet this r] demo_start_live(2) have "Some (0 :: int) \<noteq> None \<and> demo_led s' = []" by simp
  with r show ?thesis by blast
qed

lemma demo_sync_fields:
  "compared (demo_env demo_core) (demo_sync d rows)" "sy_diff_only (demo_sync d rows) = (d \<noteq> None)" if "d = None \<or> d = Some []"
  using that by (auto simp: compared_def demo_sync_def demo_create_defs diff_new_def)

lemma demo_rows_ok: "list_all (row_ok (sy_args (demo_sync d demo_rows))) (d_ents (sy_cmp (demo_sync d demo_rows)))"
  by (simp add: demo_sync_def demo_rows_def row_ok_def flag_simps)

theorem sync_diff_shows_witness:
  "\<exists>c' s'. sync_run (demo_env demo_core) (demo_sync (Some []) demo_rows) demo_start = Some ((Some 0, c'), s') \<and>
     demo_out s' = map (\<lambda>n. n @ [CHR 0x0A]) [''in/a'', ''out/c'', ''in/m'', ''in/k'']"
proof -
  have "rows_lines (demo_env demo_core) (demo_sync (Some []) demo_rows) (view_rows (demo_env demo_core) (demo_sync (Some []) demo_rows)) =
      map (\<lambda>n. n @ [CHR 0x0A]) [''in/a'', ''out/c'', ''in/m'', ''in/k'']"
    by (simp add: rows_lines_def view_rows_def row_line_def demo_sync_def demo_rows_def view_keeps_def view_kind_def demo_create_defs
        name_included_def is_dir_def entry_data_def sync_info_id_def full_name_def map_filter_simps has_def flag_simps upt_rec)
  then show ?thesis
    using sync_diff_shows [OF demo_lines demo_start_live(1) demo_sync_fields(1) _ demo_rows_ok, of "Some []"] demo_sync_fields(2) demo_start_live(3)
    by simp
qed

theorem sync_acts_on_rows_witness:
  "\<exists>i j c' s'. sync_whole (demo_env demo_core) demo_fin (demo_sync None demo_rows) demo_start = Some ((0, c'), s') \<and>
     demo_led s' = [Ran i, Ran j, Moved ''out/z'' ''out/m''] \<and> ci_input i = [''in/a''] \<and> ci_output i = ''out/a'' @ [CHR 0x00] \<and> ci_input j = [''out/c''] \<and>
     sc_stats c' = \<lparr>st_add = 1, st_del = 1, st_overwritten = 0\<rparr>"
proof -
  have "\<exists>i j. do_rows (\<lambda>h i. 0) demo_mv (y_new (demo_env demo_core)) (demo_sync None demo_rows) (demo_led demo_start) (d_ents (sy_cmp (demo_sync None demo_rows)))
      (sc_stats (demo_sync None demo_rows)) = ([Ran i, Ran j, Moved ''out/z'' ''out/m''], \<lparr>st_add = 1, st_del = 1, st_overwritten = 0\<rparr>, 0) \<and>
      ci_input i = [''in/a''] \<and> ci_output i = ''out/a'' @ [CHR 0x00] \<and> ci_input j = [''out/c'']"
    by (simp add: demo_sync_def demo_rows_def demo_create_defs row_deed_def count_row_def sync_copy_info_def sync_trash_info_def
        sync_out_name_def full_name_def flag_simps FFPATH_SLASH_def diff_new_def demo_start_live(2) demo_mv_def snap_new_def)
  then obtain i j where r: "do_rows (\<lambda>h i. 0) demo_mv (y_new (demo_env demo_core)) (demo_sync None demo_rows) (demo_led demo_start) (d_ents (sy_cmp (demo_sync None demo_rows)))
      (sc_stats (demo_sync None demo_rows)) = ([Ran i, Ran j, Moved ''out/z'' ''out/m''], \<lparr>st_add = 1, st_del = 1, st_overwritten = 0\<rparr>, 0)"
      "ci_input i = [''in/a'']" "ci_output i = ''out/a'' @ [CHR 0x00]" "ci_input j = [''out/c'']" by blast
  have o: "\<not> sy_diff_only (demo_sync None demo_rows)" using demo_sync_fields(2) [of None] by simp
  show ?thesis
    using sync_acts_on_rows [OF demo_logged demo_lines demo_start_live(1) demo_prints_quiet demo_sync_fields(1) o demo_rows_ok r(1)] r(2-4)
      demo_start_live(2) by auto
qed

text \<open>The same file on the right under another name.\<close>

definition demo_diff :: "demo_walk diff" where
  "demo_diff = (diff_new [((CRight, 0), None, Some (demo_fent ''a'', ''out'')) ])
     \<lparr>d_cap := 2, d_moved := [(0, 0)], d_ents := [\<lparr>ce_status = FCOM_SYNC_LEFT, ce_l = Some (demo_fent ''a'', ''in''), ce_r = None\<rparr>]\<rparr>"

theorem sync_move_crashes_witness:
  "\<exists>d' c. diff_next demo_lib demo_diff demo_start = Some (False, d', demo_start) \<and> sy_cmp c = d' \<and> ya_move (sy_args c) \<and>
     ce_l (last (d_ents d')) = None \<and> sync_run (demo_env demo_core) c demo_start = None"
proof -
  let ?Y = "demo_env demo_core"
  have L: "y_lib ?Y = demo_lib" by (simp add: demo_env_def)
  have item: "fst (sl_next (y_lib ?Y) (data_cmp (y_lib ?Y) (d_options demo_diff)) (d_fcmp demo_diff)) =
      Some ((CRight, 0), None, Some (demo_fent ''a'', ''out''))"
    by (simp add: L demo_lib_def demo_diff_def diff_new_def)
  obtain d' where d: "diff_next (y_lib ?Y) demo_diff demo_start = Some (False, d', demo_start)"
    "n_moved (d_stats d') = n_moved (d_stats demo_diff) + 1" "length (d_ents d') = 2"
    by (simp add: L diff_next_def demo_diff_def demo_lib_def demo_fent_def one_sided_def moved_find_add_def moved_keyeq_def meta_eq_def
        ce_entry_def set_names_def upd_ent_def upd_stats_def diff_new_def no_stats_def Let_def has_def flag_simps)
  define c where "c = (demo_sync None [])\<lparr>sy_st := SySync, sy_cmp := d', sc_idx := 1\<rparr>"
  have c: "sy_st c = SySync" "sc_idx c < length (d_ents (sy_cmp c))" "d_ents (sy_cmp c) ! sc_idx c = last (d_ents d')"
    "ya_move (sy_args c)" "sy_cmp c = d'" "\<not> stop_flag (y_core ?Y) demo_start"
    using d(3) demo_start_live(1)
    by (simp_all add: c_def last_conv_nth demo_sync_def demo_create_defs demo_core_calls(1) demo_live_def flip: length_greater_0_conv)
  then show ?thesis using sync_move_crashes [OF item d(1,2), of demo_start] d(1) unfolding L by blast
qed

end
