(* ===== verification/Html.thy ===== *)
theory Html
  imports OpIf
begin

text \<open>
  The HTML reader (\<open>src/util/html.h\<close>) and the operation \<open>html\<close> (\<open>src/text/html.c\<close>), which prints the
  values of an attribute of a tag. The searches of ffbase are a parameter. A loop that does not end is
  \<^const>\<open>None\<close>; a read past the end of the text is \<open>Inl HtWild\<close>. Log lines are left out.
\<close>

section \<open>The searches\<close>

text \<open>\<open>hl_findany\<close> is \<open>ffs_findany\<close>, the position of the first character of a set; \<open>hl_skip_ranges\<close> that of the
  first outside ranges, which are given by their ends.\<close>

record htmllib =
  hl_findany :: "bytes \<Rightarrow> bytes \<Rightarrow> nat option"
  hl_skip_ranges :: "bytes \<Rightarrow> bytes \<Rightarrow> nat option"
  hl_str :: strlib

definition ranges_alnum :: bytes where
  "ranges_alnum = ''09AZaz''"

definition ranges_white :: bytes where
  "ranges_white = [CHR 0x00, CHR 0x09, CHR 0x0B, CHR 0x20]"

section \<open>The reader\<close>

datatype html_st = HsText | HsTag1 | HsTag | HsWspace | HsAttr | HsAttrEq | HsAttrVal | HsAnglR

record htmlread =
  hr_state :: html_st
  hr_next :: html_st
  hr_line :: nat
  hr_preserve :: bool
  hr_lslash :: bool

datatype html_r = HtmlMore | HtmlText | HtmlTag | HtmlTagClose | HtmlTagCloseSelf | HtmlAttr | HtmlAttrVal

definition htmlread_open :: "htmlread \<Rightarrow> htmlread" where
  "htmlread_open h = h\<lparr>hr_line := 1\<rparr>"

text \<open>
  One turn of the loop: it goes on with the input left and the part of the input passed since \<open>out->ptr\<close>, or
  returns a code and the output, or reads past the end.
\<close>

datatype ht_step = HtGo htmlread bytes bytes | HtRet html_r bytes htmlread bytes | HtPast

definition ht_tag :: "htmllib \<Rightarrow> htmlread \<Rightarrow> bytes \<Rightarrow> ht_step" where
  "ht_tag L h d =
     (case hl_skip_ranges L d ranges_alnum of
        None \<Rightarrow> HtRet HtmlMore [] h d
      | Some i \<Rightarrow>
          if i = 0 then HtGo (h\<lparr>hr_state := HsAnglR\<rparr>) d []
          else if hr_lslash h then HtRet HtmlTagClose (take i d) (h\<lparr>hr_lslash := False, hr_state := HsAnglR\<rparr>) (drop i d)
          else HtRet HtmlTag (take i d) (h\<lparr>hr_state := HsWspace, hr_next := HsAttr\<rparr>) (drop i d))"

definition ht_tag1 :: "htmllib \<Rightarrow> htmlread \<Rightarrow> bytes \<Rightarrow> ht_step" where
  "ht_tag1 L h d =
     (let slash = (d \<noteq> [] \<and> hd d = CHR ''/'');
          h = (if slash then h\<lparr>hr_lslash := True\<rparr> else h)
      in ht_tag L (h\<lparr>hr_state := HsTag\<rparr>) (if slash then tl d else d))"

definition ht_text :: "htmllib \<Rightarrow> htmlread \<Rightarrow> bytes \<Rightarrow> bytes \<Rightarrow> ht_step" where
  "ht_text L h0 d pre0 =
     (let pre = (if hr_preserve h0 then pre0 else []); h = h0\<lparr>hr_preserve := False\<rparr>
      in case hl_findany L d [CHR ''<'', CHR 0x0A] of
           None \<Rightarrow> if pre @ d = [] then HtRet HtmlMore [] h d else HtRet HtmlText (pre @ d) h []
         | Some i \<Rightarrow>
             if d ! i = CHR 0x0A then
               HtGo (h\<lparr>hr_line := hr_line h + 1, hr_preserve := True\<rparr>) (drop (i + 1) d) (pre @ take (i + 1) d)
             else if i \<noteq> 0 then HtRet HtmlText (pre @ take i d) h (drop i d)
             else ht_tag1 L (h\<lparr>hr_state := HsTag1\<rparr>) (drop 1 d))"

definition ht_wspace :: "htmllib \<Rightarrow> htmlread \<Rightarrow> bytes \<Rightarrow> ht_step" where
  "ht_wspace L h d =
     (case hl_skip_ranges L d ranges_white of
        None \<Rightarrow> HtRet HtmlMore [] h []
      | Some i \<Rightarrow>
          if d ! i = CHR 0x0A then HtGo (h\<lparr>hr_line := hr_line h + 1\<rparr>) (drop (i + 1) d) []
          else HtGo (h\<lparr>hr_state := hr_next h\<rparr>) (drop i d) [])"

definition ht_attr :: "htmllib \<Rightarrow> htmlread \<Rightarrow> bytes \<Rightarrow> ht_step" where
  "ht_attr L h d =
     (case hl_skip_ranges L d ranges_alnum of
        None \<Rightarrow> HtRet HtmlMore [] h d
      | Some i \<Rightarrow>
          if i = 0 then
            (if hd d = CHR ''>'' then HtGo (h\<lparr>hr_state := HsText\<rparr>) (tl d) []
             else if hd d = CHR ''/'' then HtRet HtmlTagCloseSelf [] (h\<lparr>hr_state := HsAnglR\<rparr>) (tl d)
             else HtGo (h\<lparr>hr_state := HsAnglR\<rparr>) d [])
          else HtRet HtmlAttr (take i d) (h\<lparr>hr_state := HsWspace, hr_next := HsAttrEq\<rparr>) (drop i d))"

definition ht_attrval :: "htmllib \<Rightarrow> htmlread \<Rightarrow> bytes \<Rightarrow> ht_step" where
  "ht_attrval L h d =
     (if d = [] then HtPast
      else if hd d \<noteq> CHR 0x22 \<and> hd d \<noteq> CHR 0x27 then HtGo h d []
      else
        (case hl_findany L (tl d) [CHR 0x22, CHR 0x0A] of
           None \<Rightarrow> HtRet HtmlMore [] h d
         | Some i \<Rightarrow> HtRet HtmlAttrVal (take i (tl d)) (h\<lparr>hr_state := HsWspace, hr_next := HsAttr\<rparr>) (drop (i + 2) d)))"

definition ht_attr_eq :: "htmllib \<Rightarrow> htmlread \<Rightarrow> bytes \<Rightarrow> ht_step" where
  "ht_attr_eq L h d =
     (if d = [] then HtPast
      else if hd d \<noteq> CHR ''='' then HtGo (h\<lparr>hr_state := HsWspace, hr_next := HsAttr\<rparr>) d []
      else ht_attrval L (h\<lparr>hr_state := HsWspace, hr_next := HsAttrVal\<rparr>) (tl d))"

definition ht_angl_r :: "htmllib \<Rightarrow> htmlread \<Rightarrow> bytes \<Rightarrow> ht_step" where
  "ht_angl_r L h d =
     (case hl_findany L d [CHR ''>'', CHR 0x0A] of
        None \<Rightarrow> HtRet HtmlMore [] h []
      | Some i \<Rightarrow>
          if d ! i = CHR 0x0A then HtGo (h\<lparr>hr_line := hr_line h + 1\<rparr>) (drop (i + 1) d) []
          else HtGo (h\<lparr>hr_state := HsText\<rparr>) (drop (i + 1) d) [])"

definition ht_step :: "htmllib \<Rightarrow> htmlread \<Rightarrow> bytes \<Rightarrow> bytes \<Rightarrow> ht_step" where
  "ht_step L h d pre =
     (case hr_state h of
        HsText \<Rightarrow> ht_text L h d pre | HsTag1 \<Rightarrow> ht_tag1 L h d | HsTag \<Rightarrow> ht_tag L h d | HsWspace \<Rightarrow> ht_wspace L h d
      | HsAttr \<Rightarrow> ht_attr L h d | HsAttrEq \<Rightarrow> ht_attr_eq L h d | HsAttrVal \<Rightarrow> ht_attrval L h d | HsAnglR \<Rightarrow> ht_angl_r L h d)"

datatype ht_wild = HtWild

partial_function (option) htmlread_process ::
  "htmllib \<Rightarrow> htmlread \<Rightarrow> bytes \<Rightarrow> bytes \<Rightarrow> (ht_wild + html_r \<times> bytes \<times> htmlread \<times> bytes) option" where
  "htmlread_process L h d pre =
     (case ht_step L h d pre of
        HtGo h' d' pre' \<Rightarrow> htmlread_process L h' d' pre'
      | HtRet r out h' d' \<Rightarrow> Some (Inr (r, out, h', d'))
      | HtPast \<Rightarrow> Some (Inl HtWild))"

section \<open>The operation\<close>

record h_conf =
  hc_tag :: bytes
  hc_attr :: bytes

datatype tagattr = TaOut | TaTag | TaAttr

text \<open>\<open>html_find_tagattr\<close>: the local \<open>state\<close> is 0, 1 (inside the tag) or 2 (after the attribute); \<^const>\<open>None\<close> as the
  output is the return value 1.\<close>

partial_function (option) html_find_tagattr ::
  "htmllib \<Rightarrow> h_conf \<Rightarrow> tagattr \<Rightarrow> htmlread \<Rightarrow> bytes \<Rightarrow> (ht_wild + bytes option \<times> htmlread \<times> bytes) option" where
  "html_find_tagattr L conf st h d =
     Option.bind (htmlread_process L h d [])
       (\<lambda>x. case x of
          Inl e \<Rightarrow> Some (Inl e)
        | Inr (r, out, h', d') \<Rightarrow>
            (case r of
               HtmlTag \<Rightarrow> html_find_tagattr L conf (if str_ieq (hl_str L) out (hc_tag conf) then TaTag else TaOut) h' d'
             | HtmlTagClose \<Rightarrow> html_find_tagattr L conf st h' d'
             | HtmlTagCloseSelf \<Rightarrow> html_find_tagattr L conf st h' d'
             | HtmlText \<Rightarrow> html_find_tagattr L conf st h' d'
             | HtmlAttr \<Rightarrow>
                 html_find_tagattr L conf
                   (let st1 = (if st = TaAttr then TaTag else st)
                    in if st1 = TaTag \<and> str_ieq (hl_str L) out (hc_attr conf) then TaAttr else st1) h' d'
             | HtmlAttrVal \<Rightarrow> if st = TaAttr then Some (Inr (Some out, h', d')) else html_find_tagattr L conf st h' d'
             | HtmlMore \<Rightarrow> Some (Inr (None, h', d'))))"

text \<open>The loop of the state \<open>I_PROC\<close>: the input left, the reader and the values found, one on each line.\<close>

partial_function (option) html_values ::
  "htmllib \<Rightarrow> h_conf \<Rightarrow> htmlread \<Rightarrow> bytes \<Rightarrow> bytes \<Rightarrow> (ht_wild + htmlread \<times> bytes \<times> bytes) option" where
  "html_values L conf h d buf =
     (if d = [] then Some (Inr (h, d, buf))
      else
        Option.bind (html_find_tagattr L conf TaOut h d)
          (\<lambda>x. case x of
             Inl e \<Rightarrow> Some (Inl e)
           | Inr (v, h', d') \<Rightarrow>
               (case v of None \<Rightarrow> Some (Inr (h', d', buf)) | Some t \<Rightarrow> html_values L conf h' d' (buf @ t @ [CHR 0x0A]))))"

datatype hop_st = HoIn | HoRead | HoProc | HoOutOpen | HoWrite

record 'k html =
  ho_st :: hop_st
  ho_cmd :: "'k cominfo"
  ho_iname :: bytes
  ho_fdata :: bytes
  ho_idata :: bytes
  ho_html :: htmlread
  ho_buf :: bytes
  ho_out :: nat
  ho_conf :: h_conf

text \<open>\<open>he_readwhole\<close> is \<open>fffile_readwhole\<close> without a limit of the size.\<close>

record ('s, 'i) htmlenv =
  he_core :: "('s, 'i) coreif"
  he_lib :: htmllib
  he_readwhole :: "bytes \<Rightarrow> ('s, bytes option) act"

type_synonym ('s, 'k) html_turn = "'k html \<Rightarrow> ('s, 'k html + 'k html \<times> int) act"

text \<open>\<open>html_create\<close> with \<open>args_parse\<close> after the arguments are parsed; \<open>filt\<close> is the value of \<open>--filter\<close>.\<close>

definition html_create :: "('s, 'i) htmlenv \<Rightarrow> bytes \<Rightarrow> 'k cominfo \<Rightarrow> ('s, 'k html) act" where
  "html_create E filt cmd0 s =
     (let (t, a) = str_splitby (hl_str (he_lib E)) filt (CHR ''.'');
          cmd = (if ci_output cmd0 = [] then cmd0\<lparr>ci_stdout := True\<rparr> else cmd0)
      in do { (o1, s) \<leftarrow> fi_create (he_core E) (ci_buffer_size cmd) s;
              Some (\<lparr>ho_st = HoIn, ho_cmd = cmd, ho_iname = [], ho_fdata = [], ho_idata = [],
                     ho_html = \<lparr>hr_state = HsText, hr_next = HsText, hr_line = 0, hr_preserve = False, hr_lslash = False\<rparr>,
                     ho_buf = [], ho_out = o1, ho_conf = \<lparr>hc_tag = t, hc_attr = a\<rparr>\<rparr>, s) })"

definition html_close :: "('s, 'i) htmlenv \<Rightarrow> 'k html \<Rightarrow> ('s, unit) act" where
  "html_close E h = fi_destroy (he_core E) (ho_out h)"

text \<open>The code of a run that reads past the end of the text.\<close>

definition HT_WILD :: int where
  "HT_WILD = 2"

definition html_write :: "('s, 'i) htmlenv \<Rightarrow> ('s, 'k) html_turn" where
  "html_write E h s =
     do { (r, s) \<leftarrow> fi_write (he_core E) (ho_out h) (ho_buf h) None s;
          if r = FErr then Some (Inr (h, 1), s)
          else do { (_, s) \<leftarrow> fi_close (he_core E) (ho_out h) s; Some (Inl (h\<lparr>ho_st := HoIn\<rparr>), s) } }"

definition html_out_open :: "('s, 'i) htmlenv \<Rightarrow> ('s, 'k) html_turn" where
  "html_out_open E h s =
     do { (r, s) \<leftarrow> fi_open (he_core E) (ho_out h) (ci_output (ho_cmd h)) (FCOM_FILE_WRITE OR fcom_file_cominfo_flags_o (ho_cmd h)) s;
          if r = FErr then Some (Inr (h, 1), s) else html_write E (h\<lparr>ho_st := HoWrite\<rparr>) s }"

definition html_proc :: "('s, 'i) htmlenv \<Rightarrow> ('s, 'k) html_turn" where
  "html_proc E h s =
     do { x \<leftarrow> html_values (he_lib E) (ho_conf h) (htmlread_open (ho_html h)) (ho_idata h) (ho_buf h);
          case x of
            Inl e \<Rightarrow> Some (Inr (h, HT_WILD), s)
          | Inr (r, d, buf) \<Rightarrow> html_out_open E (h\<lparr>ho_html := r, ho_idata := d, ho_buf := buf, ho_st := HoOutOpen\<rparr>) s }"

definition html_read :: "('s, 'i) htmlenv \<Rightarrow> ('s, 'k) html_turn" where
  "html_read E h s =
     do { (d, s) \<leftarrow> he_readwhole E (ho_iname h) s;
          case d of
            None \<Rightarrow> Some (Inr (h, 1), s)
          | Some x \<Rightarrow> html_proc E (h\<lparr>ho_fdata := x, ho_idata := x, ho_st := HoProc\<rparr>) s }"

definition html_in :: "('s, 'i) htmlenv \<Rightarrow> ('s, 'k) html_turn" where
  "html_in E h s =
     do { (r, s) \<leftarrow> com_input_next (he_core E) 0 s;
          case r of
            RNomore \<Rightarrow> Some (Inr (h, 0), s)
          | RErr \<Rightarrow> Some (Inr (h, 1), s)
          | ROk n b \<Rightarrow>
              do { (ok, s) \<leftarrow> com_input_allowed (he_core E) n IaAuto s;
                   if ok then html_read E (h\<lparr>ho_iname := n, ho_st := HoRead\<rparr>) s
                   else Some (Inl (h\<lparr>ho_iname := n\<rparr>), s) } }"

definition html_turn :: "('s, 'i) htmlenv \<Rightarrow> ('s, 'k) html_turn" where
  "html_turn E h s =
     (case ho_st h of
        HoIn \<Rightarrow> html_in E h s | HoRead \<Rightarrow> html_read E h s | HoProc \<Rightarrow> html_proc E h s
      | HoOutOpen \<Rightarrow> html_out_open E h s | HoWrite \<Rightarrow> html_write E h s)"

text \<open>\<open>html_run\<close>: the code given to \<open>com->complete\<close>.\<close>

definition html_run :: "('s, 'i) htmlenv \<Rightarrow> 'k html \<Rightarrow> ('s, int option \<times> 'k html) act" where
  "html_run E h s =
     do { ((h, rc), s) \<leftarrow> op_loop (stop_flag (he_core E)) (html_turn E) h s;
          if rc = HT_WILD then Some ((None, h), s)
          else do { (_, s) \<leftarrow> html_close E h s; Some ((Some rc, h), s) } }"

end
