(* ===== verification/Pipe.thy ===== *)
theory Pipe
  imports RwDisk
begin

text \<open>
  The contract for operations that read a file from its start to its end and write another one as they
  go (compressors and their inverses, \<open>hex\<close>): the store of \<^theory_text>\<open>Store\<close> with the position of the
  input object, at which a read without an offset goes on; a write without an offset appends. The program's
  tables fulfil it.
\<close>

text \<open>The store once the output is closed.\<close>

definition settled :: "store \<Rightarrow> store" where
  "settled A = (case st_dst A of None \<Rightarrow> A | Some (n, x) \<Rightarrow> A\<lparr>st_files := (st_files A)(n \<mapsto> x), st_dst := None\<rparr>)"

lemma settled_simps [simp]:
  "st_dst A = None \<Longrightarrow> settled A = A"
  "st_dst A = Some (n, x) \<Longrightarrow> settled A = A\<lparr>st_files := (st_files A)(n \<mapsto> x), st_dst := None\<rparr>"
  "st_dst (settled A) = None" "st_src (settled A) = st_src A" "st_names (settled A) = st_names A" "st_pass (settled A) = st_pass A"
  by (auto simp: settled_def split: option.splits)

locale pipe_store =
  fixes C :: "('s, 'i) coreif" and i1 o1 :: nat and isz :: "'i \<Rightarrow> nat" and reg :: "'i \<Rightarrow> bool" and new :: "bytes \<Rightarrow> bool"
    and stands :: "'s \<Rightarrow> (store \<times> nat) option"
  assumes pp_next: "stands s = Some (A, p) \<Longrightarrow> st_names A = n # ns \<Longrightarrow>
      \<exists>b. gives stands (com_input_next C 0 s) (ROk n b) (A\<lparr>st_names := ns\<rparr>, p)"
    and pp_last: "stands s = Some (A, p) \<Longrightarrow> st_names A = [] \<Longrightarrow> gives stands (com_input_next C 0 s) RNomore (A, p)"
    and pp_open_src: "stands s = Some (A, p) \<Longrightarrow> st_files A n = Some d \<Longrightarrow>
      gives stands (fi_open C i1 n FCOM_FILE_READ s) FOk (A\<lparr>st_src := Some (n, d)\<rparr>, 0)"
    and pp_info_src: "stands s = Some (A, p) \<Longrightarrow> st_src A = Some (n, d) \<Longrightarrow>
      \<exists>fi. gives stands (fi_info C i1 s) (FOk, Some fi) (A, p) \<and> isz fi = length d \<and> reg fi"
    and pp_read: "stands s = Some (A, p) \<Longrightarrow> st_src A = Some (n, d) \<Longrightarrow>
      \<exists>c. gives stands (fi_read C i1 None s) (if p = length d then FEof else FOk, c) (A, p + length c) \<and>
        c = take (length c) (drop p d) \<and> (p < length d \<longrightarrow> c \<noteq> [])"
    and pp_read_at: "stands s = Some (A, p) \<Longrightarrow> st_src A = Some (n, d) \<Longrightarrow> off \<le> length d \<Longrightarrow>
      \<exists>c. gives stands (fi_read C i1 (Some off) s) (if off = length d then FEof else FOk, c) (A, off + length c) \<and>
        c = take (length c) (drop off d) \<and> (off < length d \<longrightarrow> c \<noteq> [])"
    and pp_open_dst: "stands s = Some (A, p) \<Longrightarrow> st_files (settled A) n = None \<or> ow \<Longrightarrow> (\<And>d. st_src A \<noteq> Some (n, d)) \<Longrightarrow> new n \<Longrightarrow>
      gives stands (fi_open C o1 n (new_flags ow) s) FOk
        ((settled A)\<lparr>st_files := (st_files (settled A))(n := None), st_dst := Some (n, [])\<rparr>, p)"
    and pp_write: "stands s = Some (A, p) \<Longrightarrow> st_dst A = Some (n, x) \<Longrightarrow>
      gives stands (fi_write C o1 d None s) FOk (A\<lparr>st_dst := Some (n, x @ d)\<rparr>, p)"
    and pp_flush: "stands s = Some (A, p) \<Longrightarrow> st_dst A = Some (n, x) \<Longrightarrow> gives stands (fi_flush C o1 s) FOk (A, p)"
    and pp_mtime: "stands s = Some (A, p) \<Longrightarrow> st_dst A = Some (n, x) \<Longrightarrow> gives stands (fi_mtime_set C o1 t s) FOk (A, p)"
    and pp_close: "stands s = Some (A, p) \<Longrightarrow> gives stands (fi_close C o1 s) () (settled A, p)"
    and pp_destroy_dst: "stands s = Some (A, p) \<Longrightarrow> gives stands (fi_destroy C o1 s) () (settled A, p)"
    and pp_destroy_src: "stands s = Some (A, p) \<Longrightarrow> gives stands (fi_destroy C i1 s) () (A\<lparr>st_src := None\<rparr>, p)"
    and pp_range: "stands s = Some (A, p) \<Longrightarrow> st_src A = Some (n, d) \<Longrightarrow> p \<le> length d"
    and pp_runs: "stands s = Some A' \<Longrightarrow> \<not> stop_flag C s"

lemma givesI: "x = Some (r, s') \<Longrightarrow> stands s' = Some A \<Longrightarrow> gives stands x r A"
  by (simp add: gives_def)

text \<open>A turn that goes on.\<close>

lemma op_loop_next: "\<not> stopped s \<Longrightarrow> turn c s = Some (Inl c', s') \<Longrightarrow> op_loop stopped turn c s = op_loop stopped turn c' s'"
  using op_loop_turn [of stopped turn c s c' s'] by (simp add: op_turn_def)

section \<open>Opening over an open object\<close>

lemma file_open_closed:
  assumes "file_close sys f w = Some (f1, w1)" and "f_fd f1 = None" and "f_name f1 = None"
  shows "file_open sys f n fl w = file_open sys f1 n fl w1"
proof -
  have "file_close sys f1 w1 = Some (f1, w1)" using assms(2,3) by (simp add: file_close_def)
  then show ?thesis by (simp add: file_open_def assms(1))
qed

lemma file_close_name: "file_close sys f w = Some (f', w') \<Longrightarrow> f_name f' = None \<and> f_fd f' = None"
  by (auto simp: file_close_def Let_def split: option.splits prod.splits if_splits)

lemma core_open_closed:
  assumes "fi_close (core_of sys lib cm mk) o1 s = Some ((), s1)"
  shows "fi_open (core_of sys lib cm mk) o1 n fl s = fi_open (core_of sys lib cm mk) o1 n fl s1"
proof -
  obtain f1 w1 where c: "file_close sys (wo_objs (world s) o1) (wo_sys (world s)) = Some (f1, w1)"
    "s1 = s\<lparr>world := (world s)\<lparr>wo_objs := (wo_objs (world s))(o1 := f1), wo_sys := w1\<rparr>\<rparr>"
    using assms by (auto simp: core_of_def on_obj_def Let_def)
  show ?thesis
    using c(2) file_open_closed [OF c(1)] file_close_name [OF c(1)]
    by (simp add: core_of_def on_obj_def Let_def)
qed


section \<open>The program's tables\<close>

definition in_range :: "store \<Rightarrow> nat \<Rightarrow> bool" where
  "in_range A p \<longleftrightarrow> (case st_src A of None \<Rightarrow> True | Some (n, d) \<Rightarrow> p \<le> length d)"

definition core_pipe ::
  "('w, 'i) sys \<Rightarrow> ('w, 'i) fsview \<Rightarrow> ('t, 'c, 'b, 'd, 'w fworld) comlib \<Rightarrow> ('t \<Rightarrow> 'c \<Rightarrow> bytes list option) \<Rightarrow> nat \<Rightarrow>
   nat \<Rightarrow> nat \<Rightarrow> ('t, 'c, 'o, 'k, 'w fworld) com \<Rightarrow> (store \<times> nat) option" where
  "core_pipe sys V lib names cm i1 o1 s =
     (case core_store sys V lib names cm i1 o1 s of
        None \<Rightarrow> None
      | Some A \<Rightarrow> (let p = f_cur (wo_objs (world s) i1) in if in_range A p then Some (A, p) else None))"

lemma in_range_cong: "st_src A' = st_src A \<Longrightarrow> in_range A' p = in_range A p"
  by (simp add: in_range_def)

lemma core_pipeD:
  "core_pipe sys V lib names cm i1 o1 s = Some (A, p) \<Longrightarrow>
    core_store sys V lib names cm i1 o1 s = Some A \<and> p = f_cur (wo_objs (world s) i1) \<and> in_range A p"
  by (auto simp: core_pipe_def Let_def split: option.splits if_splits)

text \<open>A step of the store that leaves the input object at \<open>p'\<close>.\<close>

lemma pipe_gives:
  assumes "gives (core_store sys V lib names cm i1 o1) x r A'" and "in_range A' p'"
    and "\<And>s'. x = Some (r, s') \<Longrightarrow> f_cur (wo_objs (world s') i1) = p'"
  shows "gives (core_pipe sys V lib names cm i1 o1) x r (A', p')"
  using assms by (auto simp: gives_def core_pipe_def)

lemma on_obj_other: "on_obj o1 g s = Some (r, s') \<Longrightarrow> i1 \<noteq> o1 \<Longrightarrow> wo_objs (world s') i1 = wo_objs (world s) i1"
  by (auto simp: on_obj_def Let_def)

lemma on_obj_same: "on_obj o1 g s = Some (r, s') \<Longrightarrow> (\<And>f w r f' w'. g f w = Some (r, f', w') \<Longrightarrow> P f (f' :: fobj)) \<Longrightarrow>
    P (wo_objs (world s) o1) (wo_objs (world s') o1)"
  by (auto simp: on_obj_def Let_def)

text \<open>A step on the output object.\<close>

lemma pipe_dst:
  assumes A: "core_pipe sys V lib names cm i1 o1 s = Some (A, p)"
    and g: "gives (core_store sys V lib names cm i1 o1) (on_obj o1 g s) r A'" and src: "st_src A' = st_src A"
  shows "gives (core_pipe sys V lib names cm i1 o1) (on_obj o1 g s) r (A', p)"
proof (rule pipe_gives [OF g])
  note D = core_pipeD [OF A]
  then show "in_range A' p" using src in_range_cong by blast
  have "i1 \<noteq> o1" using D core_storeD(3) by blast
  with D show "f_cur (wo_objs (world s') i1) = p" if "on_obj o1 g s = Some (r, s')" for s'
    using on_obj_other [OF that] by simp
qed

lemma pipe_next:
  fixes s :: "('t, 'c, 'o, 'k, 'w fworld) com"
  assumes A: "core_pipe sys V lib names cm i1 o1 s = Some (A, p)" and n: "st_names A = n # ns"
  shows "\<exists>b. gives (core_pipe sys V lib names cm i1 o1) (com_input_next (core_of sys lib cm mk) 0 s) (ROk n b) (A\<lparr>st_names := ns\<rparr>, p)"
proof -
  note D = core_pipeD [OF A]
  obtain b d where "cmd_input_next lib cm False s = Some (ROk n b, s\<lparr>cmd_at := (cmd_at s)(cm := d)\<rparr>)"
    using cmd_input_next_todo [OF core_storeD(2) , of sys V lib names cm i1 o1 s A s cm n ns] D
      core_storeD(7) [of sys V lib names cm i1 o1 s A] n by auto
  then have x: "com_input_next (core_of sys lib cm mk) 0 s = Some (ROk n b, s\<lparr>cmd_at := (cmd_at s)(cm := d)\<rparr>)"
    by (simp add: core_of_def)
  obtain b' where g: "gives (core_store sys V lib names cm i1 o1) (com_input_next (core_of sys lib cm mk) 0 s) (ROk n b') (A\<lparr>st_names := ns\<rparr>)"
    using store_next [of sys V lib names cm i1 o1 s A n ns mk] D n by blast
  then have "b' = b" using x by (simp add: gives_def)
  moreover have "in_range (A\<lparr>st_names := ns\<rparr>) p" using D in_range_cong [of "A\<lparr>st_names := ns\<rparr>" A] by auto
  ultimately have "gives (core_pipe sys V lib names cm i1 o1) (com_input_next (core_of sys lib cm mk) 0 s) (ROk n b) (A\<lparr>st_names := ns\<rparr>, p)"
    by (intro pipe_gives) (use g D x in auto)
  then show ?thesis ..
qed

lemma pipe_last:
  fixes s :: "('t, 'c, 'o, 'k, 'w fworld) com"
  assumes A: "core_pipe sys V lib names cm i1 o1 s = Some (A, p)" and n: "st_names A = []"
  shows "gives (core_pipe sys V lib names cm i1 o1) (com_input_next (core_of sys lib cm mk) 0 s) RNomore (A, p)"
proof -
  note D = core_pipeD [OF A]
  obtain d where "cmd_input_next lib cm False s = Some (RNomore, s\<lparr>cmd_at := (cmd_at s)(cm := d)\<rparr>)"
    using cmd_input_next_done [OF core_storeD(2) , of sys V lib names cm i1 o1 s A s cm] D
      core_storeD(7) [of sys V lib names cm i1 o1 s A] n by auto
  then have x: "com_input_next (core_of sys lib cm mk) 0 s = Some (RNomore, s\<lparr>cmd_at := (cmd_at s)(cm := d)\<rparr>)"
    by (simp add: core_of_def)
  show ?thesis
    by (rule pipe_gives [OF store_last [OF conjunct1 [OF D] n]]) (use D x in auto)
qed

lemma pipe_open_src:
  fixes s :: "('t, 'c, 'o, 'k, 'w fworld) com"
  assumes A: "core_pipe sys V lib names cm i1 o1 s = Some (A, p)" and n: "st_files A n = Some d"
  shows "gives (core_pipe sys V lib names cm i1 o1) (fi_open (core_of sys lib cm mk) i1 n FCOM_FILE_READ s) FOk
    (A\<lparr>st_src := Some (n, d)\<rparr>, 0)"
proof -
  note S = conjunct1 [OF core_pipeD [OF A]]
  obtain fi' w' where o: "file_open sys (wo_objs (world s) i1) n FCOM_FILE_READ (wo_sys (world s)) = Some (FOk, fi', w')"
    "pair_ok sys V fi' (wo_objs (world s) o1) w'" "f_cur fi' = 0"
    "pair_view V fi' (wo_objs (world s) o1) w' = (st_files A, Some (n, d), st_dst A)"
    using pair_open_src [OF core_storeD(1,5) [OF S] _ rd_like_flags(2), of n d] n core_store_views [OF S] by auto
  have "gives (core_store sys V lib names cm i1 o1) (on_obj i1 (\<lambda>f. file_open sys f n FCOM_FILE_READ) s) FOk
      (A\<lparr>st_files := st_files A, st_src := Some (n, d), st_dst := st_dst A\<rparr>)"
    by (rule on_src [OF S _ o(2,4)]) (rule o(1))
  then have "gives (core_store sys V lib names cm i1 o1) (fi_open (core_of sys lib cm mk) i1 n FCOM_FILE_READ s) FOk
      (A\<lparr>st_src := Some (n, d)\<rparr>)" by (simp add: core_of_def)
  then show ?thesis
    by (rule pipe_gives) (auto simp: in_range_def core_of_def on_obj_def Let_def o(1,3))
qed

lemma pipe_info_src:
  fixes s :: "('t, 'c, 'o, 'k, 'w fworld) com"
  assumes A: "core_pipe sys V lib names cm i1 o1 s = Some (A, p)" and n: "st_src A = Some (n, d)"
  shows "\<exists>fi. gives (core_pipe sys V lib names cm i1 o1) (fi_info (core_of sys lib cm mk) i1 s) (FOk, Some fi) (A, p) \<and>
    v_size V fi = length d \<and> v_reg V fi"
proof -
  note D = core_pipeD [OF A]
  obtain fi where g: "gives (core_store sys V lib names cm i1 o1) (fi_info (core_of sys lib cm mk) i1 s) (FOk, Some fi) A"
    "v_size V fi = length d" "v_reg V fi" using store_info_src [OF conjunct1 [OF D] n] by blast
  have "gives (core_pipe sys V lib names cm i1 o1) (fi_info (core_of sys lib cm mk) i1 s) (FOk, Some fi) (A, p)"
    by (rule pipe_gives [OF g(1)]) (use D in \<open>auto simp: core_of_def on_obj_def Let_def split: prod.splits\<close>)
  with g show ?thesis by blast
qed

lemma pipe_read_at:
  fixes s :: "('t, 'c, 'o, 'k, 'w fworld) com"
  assumes A: "core_pipe sys V lib names cm i1 o1 s = Some (A, p)" and n: "st_src A = Some (n, d)" and off: "off \<le> length d"
  shows "\<exists>c. gives (core_pipe sys V lib names cm i1 o1) (fi_read (core_of sys lib cm mk) i1 (Some off) s)
      (if off = length d then FEof else FOk, c) (A, off + length c) \<and> c = take (length c) (drop off d) \<and> (off < length d \<longrightarrow> c \<noteq> [])"
proof -
  note S = conjunct1 [OF core_pipeD [OF A]]
  obtain fd where fd: "f_fd (wo_objs (world s) i1) = Some fd" "v_content V fd (wo_sys (world s)) = d"
    using core_store_src [OF S n] by blast
  obtain c f' w' where r: "file_read sys (wo_objs (world s) i1) (Some off) (wo_sys (world s)) =
      ((if off = length d then FEof else FOk, c), f', w')" "f_cur f' = off + length c" "c = take (length c) (drop off d)"
    "off < length d \<longrightarrow> c \<noteq> []"
    using reading_read [OF core_storeD(1) [OF S] pair_at(4) [OF core_storeD(5) [OF S]] fd(1), of off] fd off by auto
  have "length c \<le> length d - off" using arg_cong [OF r(3), of length] by simp
  then have rng: "off + length c \<le> length d" using off by simp
  obtain c' where g: "gives (core_store sys V lib names cm i1 o1) (fi_read (core_of sys lib cm mk) i1 (Some off) s)
      (if off = length d then FEof else FOk, c') A" using store_read [OF S n off] by blast
  have x: "fi_read (core_of sys lib cm mk) i1 (Some off) s = Some ((if off = length d then FEof else FOk, c),
      s\<lparr>world := (world s)\<lparr>wo_objs := (wo_objs (world s))(i1 := f'), wo_sys := w'\<rparr>\<rparr>)"
    using r(1) by (simp add: core_of_def on_obj_def Let_def)
  then have "c' = c" using g by (simp add: gives_def)
  then have "gives (core_pipe sys V lib names cm i1 o1) (fi_read (core_of sys lib cm mk) i1 (Some off) s)
      (if off = length d then FEof else FOk, c) (A, off + length c)"
    using g x r(2) rng n by (intro pipe_gives) (simp_all add: in_range_def)
  with r show ?thesis by blast
qed

lemma pipe_read:
  fixes s :: "('t, 'c, 'o, 'k, 'w fworld) com"
  assumes A: "core_pipe sys V lib names cm i1 o1 s = Some (A, p)" and n: "st_src A = Some (n, d)"
  shows "\<exists>c. gives (core_pipe sys V lib names cm i1 o1) (fi_read (core_of sys lib cm mk) i1 None s)
      (if p = length d then FEof else FOk, c) (A, p + length c) \<and> c = take (length c) (drop p d) \<and> (p < length d \<longrightarrow> c \<noteq> [])"
proof -
  note D = core_pipeD [OF A]
  have "fi_read (core_of sys lib cm mk) i1 None s = fi_read (core_of sys lib cm mk) i1 (Some p) s"
    using D file_read_cur [of sys "wo_objs (world s) i1" "wo_sys (world s)"] by (simp add: core_of_def on_obj_def)
  moreover have "p \<le> length d" using D n by (simp add: in_range_def)
  ultimately show ?thesis using pipe_read_at [OF A n, of p] by simp
qed


lemma store_open_dst:
  fixes s :: "('t, 'c, 'o, 'k, 'w fworld) com"
  assumes A: "core_store sys V lib names cm i1 o1 s = Some A" and d: "st_dst A = None" and n: "st_files A n = None \<or> ow" "v_new V n"
    and src: "\<And>d. st_src A \<noteq> Some (n, d)"
  shows "gives (core_store sys V lib names cm i1 o1) (fi_open (core_of sys lib cm mk) o1 n (new_flags ow) s) FOk
    (A\<lparr>st_files := (st_files A)(n := None), st_dst := Some (n, [])\<rparr>)"
proof -
  obtain fo w1 where o: "file_open sys (wo_objs (world s) o1) n (new_flags ow) (wo_sys (world s)) = Some (FOk, fo, w1)"
    "pair_ok sys V (wo_objs (world s) i1) fo w1"
    "pair_view V (wo_objs (world s) i1) fo w1 = ((st_files A)(n := None), st_src A, Some (n, []))"
    using pair_open_dst [OF core_storeD(1,5) [OF A] core_store_dst(1) [OF A d], of n ow, OF _ _ _ cr_like_flags(2)] n src core_store_views [OF A]
    by auto
  have "gives (core_store sys V lib names cm i1 o1) (on_obj o1 (\<lambda>f. file_open sys f n (new_flags ow)) s) FOk
      (A\<lparr>st_files := (st_files A)(n := None), st_src := st_src A, st_dst := Some (n, [])\<rparr>)"
    by (rule on_dst [OF A _ o(2,3)]) (rule o(1))
  then show ?thesis by (simp add: core_of_def)
qed

lemma store_settles:
  assumes A: "core_store sys V lib names cm i1 o1 s = Some A"
  shows "gives (core_store sys V lib names cm i1 o1) (fi_close (core_of sys lib cm mk) o1 s) () (settled A)"
  using store_closed [OF A] store_close [OF A] by (cases "st_dst A") auto

lemma pipe_close:
  fixes s :: "('t, 'c, 'o, 'k, 'w fworld) com"
  assumes A: "core_pipe sys V lib names cm i1 o1 s = Some (A, p)"
  shows "gives (core_pipe sys V lib names cm i1 o1) (fi_close (core_of sys lib cm mk) o1 s) () (settled A, p)"
  using store_settles [OF conjunct1 [OF core_pipeD [OF A]], of mk] unfolding core_of_def coreif.simps
  by (rule pipe_dst [OF A]) simp

lemma pipe_open_dst:
  fixes s :: "('t, 'c, 'o, 'k, 'w fworld) com"
  assumes A: "core_pipe sys V lib names cm i1 o1 s = Some (A, p)" and n: "st_files (settled A) n = None \<or> ow"
    and src: "\<And>d. st_src A \<noteq> Some (n, d)" and new: "v_new V n"
  shows "gives (core_pipe sys V lib names cm i1 o1) (fi_open (core_of sys lib cm mk) o1 n (new_flags ow) s) FOk
    ((settled A)\<lparr>st_files := (st_files (settled A))(n := None), st_dst := Some (n, [])\<rparr>, p)"
proof -
  obtain s1 where c: "fi_close (core_of sys lib cm mk) o1 s = Some ((), s1)"
    "core_pipe sys V lib names cm i1 o1 s1 = Some (settled A, p)"
    using givesE [OF pipe_close [OF A, where mk = mk]] by blast
  have "gives (core_pipe sys V lib names cm i1 o1) (fi_open (core_of sys lib cm mk) o1 n (new_flags ow) s1) FOk
    ((settled A)\<lparr>st_files := (st_files (settled A))(n := None), st_dst := Some (n, [])\<rparr>, p)"
    using store_open_dst [OF conjunct1 [OF core_pipeD [OF c(2)]] _ n new, where mk = mk] src unfolding core_of_def coreif.simps
    by (intro pipe_dst [OF c(2)]) simp_all
  then show ?thesis using core_open_closed [OF c(1)] by simp
qed

lemma creating_flush_keeps:
  assumes os: "os_files sys V" and f: "creating V f w" and fd: "f_fd f = Some fd"
  shows "\<exists>f' w'. file_flush sys f w = Some (FOk, f', w') \<and> keeps_rest V f w f' w' \<and>
    file_view (v_content V fd) f' w' = file_view (v_content V fd) f w"
proof -
  have a: "f_cur f = length (file_view (v_content V fd) f w)" "file_idle f"
    using f fd by (simp_all add: creating_def appending_def)
  obtain f1 w1 where 1: "file_flush sys f w = Some (FOk, f1, w1)" "flushed f f1" "fb_len (f_wbuf f1) = 0"
    "file_inv fd (v_content V fd) f1 w1" "file_kernel (v_content V fd) f1 w1 = file_view (v_content V fd) f w"
    "elsewhere V fd w1 = elsewhere V fd w"
    using creating_flush [OF os f fd] by blast
  have v: "file_view (v_content V fd) f1 w1 = file_view (v_content V fd) f w"
    using 1(3,5) by (simp add: file_view_def [of _ f1] fbuf_view_def fbuf_data_def)
  have "v_at V fd w1 = v_at V fd w" by (rule elsewhere_sameD(1) [OF 1(6)])
  then have "creating V f1 w1"
    using f fd 1(2-4) v a by (simp add: creating_def appending_def file_inv_def flushed_def file_idle_def cache_tail_def)
  then have "keeps_rest V f w f1 w1" by (rule keeps_restI [OF f fd]) (use 1(2,6) in \<open>simp_all add: flushed_def\<close>)
  then show ?thesis using 1(1) v by blast
qed

lemma store_append:
  fixes s :: "('t, 'c, 'o, 'k, 'w fworld) com"
  assumes A: "core_store sys V lib names cm i1 o1 s = Some A" and d: "st_dst A = Some (n, x)"
  shows "gives (core_store sys V lib names cm i1 o1) (fi_write (core_of sys lib cm mk) o1 y None s) FOk (A\<lparr>st_dst := Some (n, x @ y)\<rparr>)"
    and "gives (core_store sys V lib names cm i1 o1) (fi_flush (core_of sys lib cm mk) o1 s) FOk A"
proof -
  let ?f = "wo_objs (world s) o1" and ?w = "wo_sys (world s)"
  obtain fd where fd: "f_fd ?f = Some fd" "f_name ?f = Some n" "file_view (v_content V fd) ?f ?w = x"
    using core_store_dst(2) [OF A d] by blast
  note cr = pair_at(5) [OF core_storeD(5) [OF A]]
  have idle: "file_idle ?f" "f_cur ?f = length x" using cr fd by (simp_all add: creating_def appending_def)
  have "fi_write (core_of sys lib cm mk) o1 y None s = fi_write (core_of sys lib cm mk) o1 y (Some (length x)) s"
    using file_write_cur [OF idle(1), of sys y ?w] idle(2) by (simp add: core_of_def on_obj_def)
  then show "gives (core_store sys V lib names cm i1 o1) (fi_write (core_of sys lib cm mk) o1 y None s) FOk (A\<lparr>st_dst := Some (n, x @ y)\<rparr>)"
    using store_write [OF A d] by simp
  obtain f' w' where t: "file_flush sys ?f ?w = Some (FOk, f', w')" "keeps_rest V ?f ?w f' w'" "file_view (v_content V fd) f' w' = x"
    using creating_flush_keeps [OF core_storeD(1) [OF A] cr fd(1)] fd(3) by auto
  have "gives (core_store sys V lib names cm i1 o1) (fi_flush (core_of sys lib cm mk) o1 s) FOk (A\<lparr>st_dst := Some (n, x)\<rparr>)"
    unfolding core_of_def coreif.simps by (rule core_dst_keeps [OF A fd(1,2) _ t(2,3)]) (simp add: t(1))
  then show "gives (core_store sys V lib names cm i1 o1) (fi_flush (core_of sys lib cm mk) o1 s) FOk A" by (simp add: d [symmetric])
qed

interpretation pipe: pipe_store "core_of sys lib cm mk" i1 o1 "v_size V" "v_reg V" "v_new V" "core_pipe sys V lib names cm i1 o1"
  for sys :: "('w, 'i) sys" and lib :: "('t, 'c, 'b, 'd, 'w fworld) comlib" and cm mk i1 o1 V names
proof
  fix s :: "('t, 'c, 'a, 'e, 'w fworld) com" and A p
  assume A: "core_pipe sys V lib names cm i1 o1 s = Some (A, p)"
  note S = conjunct1 [OF core_pipeD [OF A]]
  show "gives (core_pipe sys V lib names cm i1 o1) (fi_destroy (core_of sys lib cm mk) o1 s) () (settled A, p)"
    using pipe_close [OF A] by (simp add: core_of_def)
  show "gives (core_pipe sys V lib names cm i1 o1) (fi_write (core_of sys lib cm mk) o1 d None s) FOk (A\<lparr>st_dst := Some (n, x @ d)\<rparr>, p)"
    if "st_dst A = Some (n, x)" for n x d
    using store_append(1) [OF S that, of mk d] unfolding core_of_def coreif.simps by (rule pipe_dst [OF A]) simp
  show "gives (core_pipe sys V lib names cm i1 o1) (fi_flush (core_of sys lib cm mk) o1 s) FOk (A, p)"
    if "st_dst A = Some (n, x)" for n x
    using store_append(2) [OF S that, of mk] unfolding core_of_def coreif.simps by (rule pipe_dst [OF A]) simp
  show "gives (core_pipe sys V lib names cm i1 o1) (fi_mtime_set (core_of sys lib cm mk) o1 t s) FOk (A, p)"
    if "st_dst A = Some (n, x)" for n x t
    using store_mtime [OF S that, of mk t] unfolding core_of_def coreif.simps by (rule pipe_dst [OF A]) simp
  obtain w' where "file_close sys (wo_objs (world s) i1) (wo_sys (world s)) =
      Some ((wo_objs (world s) i1)\<lparr>f_fd := None, f_name := None\<rparr>, w')"
    using reading_close [OF core_storeD(1) [OF S] pair_at(4) [OF core_storeD(5) [OF S]]] by blast
  then show "gives (core_pipe sys V lib names cm i1 o1) (fi_destroy (core_of sys lib cm mk) i1 s) () (A\<lparr>st_src := None\<rparr>, p)"
    by (intro pipe_gives [OF store_destroy_src [OF S]])
      (use core_pipeD [OF A] in \<open>auto simp: in_range_def core_of_def on_obj_def Let_def\<close>)
  show "p \<le> length d" if "st_src A = Some (n, d)" for n d using core_pipeD [OF A] that by (simp add: in_range_def)
next
  fix s :: "('t, 'c, 'a, 'e, 'w fworld) com" and A'
  assume "core_pipe sys V lib names cm i1 o1 s = Some A'"
  then show "\<not> stop_flag (core_of sys lib cm mk) s"
    by (cases A') (auto dest!: core_pipeD core_storeD(4) simp: core_of_def)
qed (fact pipe_next pipe_last pipe_open_src pipe_info_src pipe_read pipe_read_at pipe_open_dst pipe_close)+

lemma core_pipe_disk:
  assumes "core_pipe sys V lib names cm i1 o1 s = Some (A, p)" and "st_dst A = None"
  shows "v_disk V (wo_sys (world s)) = st_files A"
  using core_store_disk core_pipeD [OF assms(1)] assms(2) by metis

lemma core_pipe_file:
  assumes "core_pipe sys V lib names cm i1 o1 s = Some (A, p)" and "st_files A n = Some d"
  shows "v_disk V (wo_sys (world s)) n = Some d"
proof -
  have "st_files A n = files_but V (dst_name (wo_objs (world s) o1)) (wo_sys (world s)) n"
    using core_storeD(6) [OF core_pipeD [OF assms(1), THEN conjunct1]] by (simp add: pair_view_def)
  then show ?thesis using assms(2) by (simp add: files_but_def split: if_splits)
qed

end
