(* ===== verification/HtmlProps.thy ===== *)
theory HtmlProps
  imports Html Pipe CopyProps
begin

text \<open>
  What \<open>html\<close> prints of a well-formed document, and the attribute on which it hangs.
\<close>

section \<open>The searches\<close>

fun find_first :: "('a \<Rightarrow> bool) \<Rightarrow> 'a list \<Rightarrow> nat option" where
  "find_first P [] = None"
| "find_first P (x # xs) = (if P x then Some 0 else map_option Suc (find_first P xs))"

fun in_ranges :: "bytes \<Rightarrow> char \<Rightarrow> bool" where
  "in_ranges (a # b # r) c \<longleftrightarrow> (of_char a :: nat) \<le> of_char c \<and> (of_char c :: nat) \<le> of_char b \<or> in_ranges r c"
| "in_ranges _ c \<longleftrightarrow> False"

definition htmllib_ok :: "htmllib \<Rightarrow> bool" where
  "htmllib_ok L \<longleftrightarrow>
     (\<forall>d cs. hl_findany L d cs = find_first (\<lambda>c. c \<in> set cs) d) \<and>
     (\<forall>d r. hl_skip_ranges L d r = find_first (\<lambda>c. \<not> in_ranges r c) d)"

lemma find_first_at: "\<forall>x \<in> set a. \<not> P x \<Longrightarrow> P c \<Longrightarrow> find_first P (a @ c # b) = Some (length a)"
  by (induction a) auto

lemma find_first_None: "find_first P d = None \<longleftrightarrow> (\<forall>x \<in> set d. \<not> P x)"
  by (induction d) auto

lemma find_first_Some: "find_first P d = Some i \<Longrightarrow> i < length d \<and> P (d ! i) \<and> (\<forall>x \<in> set (take i d). \<not> P x)"
proof (induction d arbitrary: i)
  case (Cons x xs)
  then show ?case by (cases "P x") auto
qed simp

definition alnum :: "char \<Rightarrow> bool" where
  "alnum c \<longleftrightarrow> in_ranges ranges_alnum c"

definition word :: "bytes \<Rightarrow> bool" where
  "word t \<longleftrightarrow> t \<noteq> [] \<and> (\<forall>c \<in> set t. alnum c)"

lemma alnum_facts [simp]:
  "\<not> alnum (CHR '' '')" "\<not> alnum (CHR ''='')" "\<not> alnum (CHR ''>'')" "\<not> alnum (CHR ''/'')" "\<not> alnum (CHR ''<'')"
  "\<not> alnum (CHR 0x0A)" "\<not> alnum (CHR 0x22)"
  by (simp_all add: alnum_def ranges_alnum_def)

definition blank :: "char \<Rightarrow> bool" where
  "blank c \<longleftrightarrow> in_ranges ranges_white c"

lemma blank_facts [simp]:
  "blank (CHR '' '')" "\<not> blank (CHR ''='')" "\<not> blank (CHR ''>'')" "\<not> blank (CHR ''/'')" "\<not> blank (CHR 0x0A)" "\<not> blank (CHR 0x22)"
  by (simp_all add: blank_def ranges_white_def)

lemma alnum_not_blank: "alnum c \<Longrightarrow> \<not> blank c"
  by (auto simp: alnum_def blank_def ranges_alnum_def ranges_white_def)

lemma alnum_not_nl: "alnum c \<Longrightarrow> c \<noteq> CHR 0x0A \<and> c \<noteq> CHR ''='' \<and> c \<noteq> CHR ''/''"
  by auto

lemma htmllibD:
  assumes "htmllib_ok L"
  shows "hl_findany L d cs = find_first (\<lambda>c. c \<in> set cs) d"
    and "hl_skip_ranges L d ranges_alnum = find_first (\<lambda>c. \<not> alnum c) d"
    and "hl_skip_ranges L d ranges_white = find_first (\<lambda>c. \<not> blank c) d"
  using assms by (simp_all add: htmllib_ok_def alnum_def [abs_def] blank_def [abs_def])

section \<open>Documents\<close>

type_synonym hattr = "bytes \<times> bytes option"

text \<open>Text, an opening tag with attributes (a flag for \<open>/>\<close>), a closing tag.\<close>

datatype hitem = HText bytes | HOpen bytes "hattr list" bool | HClose bytes

fun hattr_text :: "hattr \<Rightarrow> bytes" where
  "hattr_text (n, None) = '' '' @ n"
| "hattr_text (n, Some v) = '' '' @ n @ [CHR ''='', CHR 0x22] @ v @ [CHR 0x22]"

definition hattrs_text :: "hattr list \<Rightarrow> bytes" where
  "hattrs_text as = concat (map hattr_text as)"

fun hitem_text :: "hitem \<Rightarrow> bytes" where
  "hitem_text (HText t) = t"
| "hitem_text (HOpen t as slf) = ''<'' @ t @ hattrs_text as @ (if slf then ''/>'' else ''>'')"
| "hitem_text (HClose t) = ''</'' @ t @ ''>''"

definition doc_text :: "hitem list \<Rightarrow> bytes" where
  "doc_text its = concat (map hitem_text its)"

definition hattr_ok :: "hattr \<Rightarrow> bool" where
  "hattr_ok a \<longleftrightarrow> word (fst a) \<and> (case snd a of None \<Rightarrow> True | Some v \<Rightarrow> CHR 0x22 \<notin> set v \<and> CHR 0x0A \<notin> set v)"

fun hitem_ok :: "hitem \<Rightarrow> bool" where
  "hitem_ok (HText t) \<longleftrightarrow> CHR ''<'' \<notin> set t"
| "hitem_ok (HOpen t as slf) \<longleftrightarrow> word t \<and> (\<forall>a \<in> set as. hattr_ok a)"
| "hitem_ok (HClose t) \<longleftrightarrow> word t"

text \<open>Of each tag that matches, the first value of an attribute that matches.\<close>

fun attr_pick :: "(bytes \<Rightarrow> bool) \<Rightarrow> hattr list \<Rightarrow> bytes list" where
  "attr_pick m [] = []"
| "attr_pick m ((n, None) # as) = attr_pick m as"
| "attr_pick m ((n, Some v) # as) = (if m n then [v] else attr_pick m as)"

fun item_pick :: "(bytes \<Rightarrow> bool) \<Rightarrow> (bytes \<Rightarrow> bool) \<Rightarrow> hitem \<Rightarrow> bytes list" where
  "item_pick mt ma (HOpen t as slf) = (if mt t then attr_pick ma as else [])"
| "item_pick mt ma _ = []"

definition value_lines :: "bytes list \<Rightarrow> bytes" where
  "value_lines vs = concat (map (\<lambda>v. v @ [CHR 0x0A]) vs)"

lemma value_lines_simps [simp]: "value_lines [] = []" "value_lines (v # vs) = v @ CHR 0x0A # value_lines vs"
  "value_lines (vs @ ws) = value_lines vs @ value_lines ws"
  by (simp_all add: value_lines_def)

section \<open>One call of the reader\<close>

text \<open>The reader in a state, between two calls.\<close>

definition ht :: "html_st \<Rightarrow> html_st \<Rightarrow> nat \<Rightarrow> htmlread" where
  "ht st nx l = \<lparr>hr_state = st, hr_next = nx, hr_line = l, hr_preserve = False, hr_lslash = False\<rparr>"

lemma process_go: "ht_step L h d pre = HtGo h' d' pre' \<Longrightarrow> htmlread_process L h d pre = htmlread_process L h' d' pre'"
  by (subst htmlread_process.simps) simp

lemma process_ret: "ht_step L h d pre = HtRet r out h' d' \<Longrightarrow> htmlread_process L h d pre = Some (Inr (r, out, h', d'))"
  by (subst htmlread_process.simps) simp

named_theorems ht_simps \<open>the turns of the reader\<close>

declare ht_step_def [ht_simps] ht_text_def [ht_simps] ht_tag1_def [ht_simps] ht_tag_def [ht_simps] ht_wspace_def [ht_simps]
  ht_attr_def [ht_simps] ht_attr_eq_def [ht_simps] ht_attrval_def [ht_simps] ht_angl_r_def [ht_simps] ht_def [ht_simps]

lemma word_first:
  assumes "word t" "\<not> alnum c"
  shows "find_first (\<lambda>c. \<not> alnum c) (t @ c # y) = Some (length t)"
  using assms by (intro find_first_at) (auto simp: word_def)

lemma read_tag:
  assumes L: "htmllib_ok L" and t: "word t" "\<not> alnum c"
  shows "htmlread_process L (ht HsText nx l) (''<'' @ t @ c # y) pre = Some (Inr (HtmlTag, t, ht HsWspace HsAttr l, c # y))"
proof (rule process_ret)
  obtain x xs where x: "t = x # xs" "alnum x" using t by (cases t) (auto simp: word_def)
  then have "x \<noteq> CHR ''/''" by auto
  then show "ht_step L (ht HsText nx l) (''<'' @ t @ c # y) pre = HtRet HtmlTag t (ht HsWspace HsAttr l) (c # y)"
    using word_first [OF t, of y] x(1) by (simp add: ht_simps htmllibD [OF L])
qed

lemma read_close_tag:
  assumes L: "htmllib_ok L" and t: "word t" "\<not> alnum c"
  shows "htmlread_process L (ht HsText nx l) (''</'' @ t @ c # y) pre = Some (Inr (HtmlTagClose, t, ht HsAnglR nx l, c # y))"
proof (rule process_ret)
  show "ht_step L (ht HsText nx l) (''</'' @ t @ c # y) pre = HtRet HtmlTagClose t (ht HsAnglR nx l) (c # y)"
    using word_first [OF t, of y] t(1) by (simp add: ht_simps htmllibD [OF L] word_def)
qed

lemma read_angl: "htmllib_ok L \<Longrightarrow> htmlread_process L (ht HsAnglR nx l) (CHR ''>'' # y) [] = htmlread_process L (ht HsText nx l) y []"
  by (rule process_go) (simp add: ht_simps htmllibD)

text \<open>Up to a word or the end of the tag.\<close>

lemma read_blank:
  assumes L: "htmllib_ok L" and "w = [] \<or> w = '' ''" and "\<not> blank c" and "c \<noteq> CHR 0x0A"
  shows "htmlread_process L (ht HsWspace nx l) (w @ c # y) [] = htmlread_process L (ht nx nx l) (c # y) []"
proof (rule process_go)
  have "find_first (\<lambda>c. \<not> blank c) (w @ c # y) = Some (length w)" using assms(2,3) by (intro find_first_at) auto
  then show "ht_step L (ht HsWspace nx l) (w @ c # y) [] = HtGo (ht nx nx l) (c # y) []"
    using assms(4) by (simp add: ht_simps htmllibD [OF L])
qed

lemma read_no_eq:
  assumes L: "htmllib_ok L" and "w = [] \<or> w = '' ''" and "\<not> blank c" and "c \<noteq> CHR 0x0A" and "c \<noteq> CHR ''=''"
  shows "htmlread_process L (ht HsWspace HsAttrEq l) (w @ c # y) [] = htmlread_process L (ht HsWspace HsAttr l) (w @ c # y) []"
proof -
  have "htmlread_process L (ht HsAttrEq HsAttrEq l) (c # y) [] = htmlread_process L (ht HsWspace HsAttr l) (c # y) []"
    by (rule process_go) (use assms(5) in \<open>simp add: ht_simps\<close>)
  with read_blank [OF assms(1-4)] read_blank [OF L _ assms(3,4), of "[]"] show ?thesis by simp
qed

lemma read_attr:
  assumes L: "htmllib_ok L" and t: "word t" "\<not> alnum c" and nx: "nx = HsAttr \<or> nx = HsAttrEq"
  shows "htmlread_process L (ht HsWspace nx l) ('' '' @ t @ c # y) [] = Some (Inr (HtmlAttr, t, ht HsWspace HsAttrEq l, c # y))"
proof -
  obtain x xs where x: "t = x # xs" "alnum x" using t by (cases t) (auto simp: word_def)
  then have f: "\<not> blank x" "x \<noteq> CHR 0x0A" "x \<noteq> CHR ''=''" using alnum_not_blank by auto
  have "htmlread_process L (ht HsWspace nx l) ('' '' @ t @ c # y) [] = htmlread_process L (ht HsWspace HsAttr l) ('' '' @ t @ c # y) []"
    using nx read_no_eq [OF L _ f, of "'' ''"] x by auto
  also have "\<dots> = htmlread_process L (ht HsAttr HsAttr l) (t @ c # y) []"
    using read_blank [OF L _ f(1,2), of "'' ''"] x by simp
  also have "\<dots> = Some (Inr (HtmlAttr, t, ht HsWspace HsAttrEq l, c # y))"
    by (rule process_ret) (use word_first [OF t, of y] t in \<open>simp add: ht_simps htmllibD [OF L] word_def\<close>)
  finally show ?thesis .
qed

lemma read_value:
  assumes L: "htmllib_ok L" and v: "CHR 0x22 \<notin> set v" "CHR 0x0A \<notin> set v"
  shows "htmlread_process L (ht HsWspace HsAttrEq l) ([CHR ''='', CHR 0x22] @ v @ CHR 0x22 # y) [] =
    Some (Inr (HtmlAttrVal, v, ht HsWspace HsAttr l, y))"
proof -
  have f: "find_first (\<lambda>c. c \<in> set [CHR 0x22, CHR 0x0A]) (v @ CHR 0x22 # y) = Some (length v)"
    using v by (intro find_first_at) auto
  have "htmlread_process L (ht HsAttrEq HsAttrEq l) ([CHR ''='', CHR 0x22] @ v @ CHR 0x22 # y) [] =
      Some (Inr (HtmlAttrVal, v, ht HsWspace HsAttr l, y))"
    by (rule process_ret) (use f in \<open>simp add: ht_simps htmllibD [OF L]\<close>)
  then show ?thesis using read_blank [OF L, of "[]" "CHR ''=''"] by simp
qed

lemma read_end: "htmllib_ok L \<Longrightarrow> htmlread_process L (ht HsWspace HsAttr l) (CHR ''>'' # y) [] = htmlread_process L (ht HsText HsAttr l) y []"
  using read_blank [of L "[]" "CHR ''>''" HsAttr l y] process_go [of L "ht HsAttr HsAttr l" "CHR ''>'' # y" "[]" "ht HsText HsAttr l" y "[]"]
  by (simp add: ht_simps htmllibD)

lemma read_end_self:
  assumes "htmllib_ok L"
  shows "htmlread_process L (ht HsWspace HsAttr l) (CHR ''/'' # y) [] = Some (Inr (HtmlTagCloseSelf, [], ht HsAnglR HsAttr l, y))"
proof -
  have "htmlread_process L (ht HsAttr HsAttr l) (CHR ''/'' # y) [] = Some (Inr (HtmlTagCloseSelf, [], ht HsAnglR HsAttr l, y))"
    by (rule process_ret) (use assms in \<open>simp add: ht_simps htmllibD\<close>)
  then show ?thesis using read_blank [OF assms, of "[]" "CHR ''/''"] by simp
qed


text \<open>Text up to the next tag: it is returned, or, when it ends with a line feed, dropped.\<close>

lemma read_text:
  assumes L: "htmllib_ok L" and r: "r = [] \<or> (\<exists>x. r = CHR ''<'' # x)" and t: "CHR ''<'' \<notin> set t"
  shows "\<exists>l'. (\<exists>out. htmlread_process L ((ht HsText nx l)\<lparr>hr_preserve := p\<rparr>) (t @ r) pre = Some (Inr (HtmlText, out, ht HsText nx l', r))) \<or>
    htmlread_process L ((ht HsText nx l)\<lparr>hr_preserve := p\<rparr>) (t @ r) pre = htmlread_process L (ht HsText nx l') r []"
  using t
proof (induction "length t" arbitrary: t l p pre rule: less_induct)
  case less
  let ?h = "(ht HsText nx l)\<lparr>hr_preserve := p\<rparr>"
  define pre1 where "pre1 = (if p then pre else [])"
  show ?case
  proof (cases "CHR 0x0A \<in> set t")
    case True
    then obtain a b where ab: "t = a @ CHR 0x0A # b" "CHR 0x0A \<notin> set a" by (meson split_list_first)
    have "find_first (\<lambda>c. c \<in> set [CHR ''<'', CHR 0x0A]) (a @ CHR 0x0A # b @ r) = Some (length a)"
      using ab less(2) by (intro find_first_at) auto
    then have "ht_step L ?h (t @ r) pre = HtGo ((ht HsText nx (l + 1))\<lparr>hr_preserve := True\<rparr>) (b @ r) (pre1 @ a @ [CHR 0x0A])"
      using ab(1) by (simp add: ht_simps htmllibD [OF L] pre1_def)
    from process_go [OF this] less(1) [of b True "l + 1" "pre1 @ a @ [CHR 0x0A]"] ab(1) less(2) show ?thesis by simp
  next
    case False
    show ?thesis
    proof (cases "r = []")
      case True
      have "find_first (\<lambda>c. c \<in> set [CHR ''<'', CHR 0x0A]) t = None" using False less(2) by (auto simp: find_first_None)
      then have f: "ht_step L ?h (t @ r) pre = (if pre1 @ t = [] then HtRet HtmlMore [] (ht HsText nx l) t
          else HtRet HtmlText (pre1 @ t) (ht HsText nx l) [])"
        using True by (simp add: ht_simps htmllibD [OF L] pre1_def Let_def)
      have m: "htmlread_process L (ht HsText nx l) [] [] = Some (Inr (HtmlMore, [], ht HsText nx l, []))"
        by (rule process_ret) (simp add: ht_simps htmllibD [OF L])
      show ?thesis
      proof (cases "pre1 @ t = []")
        case True
        then have "htmlread_process L ?h (t @ r) pre = Some (Inr (HtmlMore, [], ht HsText nx l, t))"
          using f by (intro process_ret) simp
        with m True \<open>r = []\<close> show ?thesis by (intro exI [of _ l] disjI2) simp
      next
        case False
        then have "htmlread_process L ?h (t @ r) pre = Some (Inr (HtmlText, pre1 @ t, ht HsText nx l, []))"
          using f by (intro process_ret) simp
        with \<open>r = []\<close> show ?thesis by blast
      qed
    next
      case r0: False
      then obtain x where x: "r = CHR ''<'' # x" using r by blast
      have f: "find_first (\<lambda>c. c \<in> set [CHR ''<'', CHR 0x0A]) (t @ r) = Some (length t)"
        unfolding x by (rule find_first_at) (use False less(2) in auto)
      show ?thesis
      proof (cases "t = []")
        case True
        then have "ht_step L ?h (t @ r) pre = ht_step L (ht HsText nx l) r []"
          using f by (simp add: ht_simps htmllibD [OF L] x)
        then have "htmlread_process L ?h (t @ r) pre = htmlread_process L (ht HsText nx l) r []"
          by (subst (1 2) htmlread_process.simps) simp
        then show ?thesis by blast
      next
        case False
        have "ht_step L ?h (t @ r) pre = HtRet HtmlText (pre1 @ t) (ht HsText nx l) r"
          using f False by (simp add: ht_simps htmllibD [OF L] pre1_def x)
        from process_ret [OF this] show ?thesis by blast
      qed
    qed
  qed
qed

section \<open>The values of a document\<close>

text \<open>\<open>html_values\<close> with the search for a value in the middle.\<close>

definition vals :: "htmllib \<Rightarrow> h_conf \<Rightarrow> tagattr \<Rightarrow> htmlread \<Rightarrow> bytes \<Rightarrow> bytes \<Rightarrow> (ht_wild + htmlread \<times> bytes \<times> bytes) option" where
  "vals L cf st h d buf =
     Option.bind (html_find_tagattr L cf st h d)
       (\<lambda>x. case x of Inl e \<Rightarrow> Some (Inl e)
          | Inr (v, h', d') \<Rightarrow>
              (case v of None \<Rightarrow> Some (Inr (h', d', buf)) | Some t \<Rightarrow> html_values L cf h' d' (buf @ t @ [CHR 0x0A])))"

lemma html_values_vals: "html_values L cf h d buf = (if d = [] then Some (Inr (h, d, buf)) else vals L cf TaOut h d buf)"
  by (subst html_values.simps) (simp add: vals_def)

definition ta_next :: "htmllib \<Rightarrow> h_conf \<Rightarrow> html_r \<Rightarrow> bytes \<Rightarrow> tagattr \<Rightarrow> tagattr" where
  "ta_next L cf r out st =
     (case r of
        HtmlTag \<Rightarrow> if str_ieq (hl_str L) out (hc_tag cf) then TaTag else TaOut
      | HtmlAttr \<Rightarrow> (if st \<noteq> TaOut \<and> str_ieq (hl_str L) out (hc_attr cf) then TaAttr else if st = TaAttr then TaTag else st)
      | _ \<Rightarrow> st)"

lemma vals_next:
  assumes "htmlread_process L h d [] = Some (Inr (r, out, h', d'))" and "r \<noteq> HtmlMore" and "r = HtmlAttrVal \<Longrightarrow> st \<noteq> TaAttr"
  shows "vals L cf st h d buf = vals L cf (ta_next L cf r out st) h' d' buf"
proof -
  have "html_find_tagattr L cf st h d = html_find_tagattr L cf (ta_next L cf r out st) h' d'"
    using assms by (subst html_find_tagattr.simps) (cases st; auto simp: ta_next_def Let_def split: html_r.splits)
  then show ?thesis by (simp add: vals_def)
qed

lemma vals_value:
  assumes "htmlread_process L h d [] = Some (Inr (HtmlAttrVal, v, h', d'))" and "d' \<noteq> []"
  shows "vals L cf TaAttr h d buf = vals L cf TaOut h' d' (buf @ v @ [CHR 0x0A])"
proof -
  have "html_find_tagattr L cf TaAttr h d = Some (Inr (Some v, h', d'))"
    using assms by (subst html_find_tagattr.simps) simp
  then show ?thesis using assms(2) by (simp add: vals_def html_values_vals [of L cf h' d'])
qed

lemma vals_same:
  assumes "htmlread_process L h d [] = htmlread_process L h' d' []"
  shows "vals L cf st h d buf = vals L cf st h' d' buf"
proof -
  have "html_find_tagattr L cf st h d = html_find_tagattr L cf st h' d'"
    using assms by (subst (1 2) html_find_tagattr.simps) simp
  then show ?thesis by (simp add: vals_def)
qed

lemma vals_more:
  assumes "htmlread_process L h d [] = Some (Inr (HtmlMore, out, h', d'))"
  shows "vals L cf st h d buf = Some (Inr (h', d', buf))"
proof -
  have "html_find_tagattr L cf st h d = Some (Inr (None, h', d'))" using assms by (subst html_find_tagattr.simps) simp
  then show ?thesis by (simp add: vals_def)
qed

lemma hattrs_text_simps [simp]: "hattrs_text [] = []" "hattrs_text (a # as) = hattr_text a @ hattrs_text as"
  by (simp_all add: hattrs_text_def)

text \<open>What follows an attribute in a tag does not go on with a word.\<close>

definition attr_stop :: "htmllib \<Rightarrow> bytes \<Rightarrow> bool" where
  "attr_stop L r \<longleftrightarrow> (\<exists>c y. r = c # y \<and> \<not> alnum c) \<and>
     (\<forall>l. htmlread_process L (ht HsWspace HsAttrEq l) r [] = htmlread_process L (ht HsWspace HsAttr l) r [])"

lemma hattrs_first: "attr_stop L r \<Longrightarrow> \<exists>c y. hattrs_text as @ r = c # y \<and> \<not> alnum c"
proof (cases as)
  case (Cons a as')
  then show ?thesis by (cases a; cases "snd a") auto
qed (auto simp: attr_stop_def)

lemma attr_stop_end: "htmllib_ok L \<Longrightarrow> e = CHR ''>'' \<or> e = CHR ''/'' \<Longrightarrow> attr_stop L (e # z)"
  using read_no_eq [of L "[]" e] by (auto simp: attr_stop_def)

lemma attr_stop_attr: "htmllib_ok L \<Longrightarrow> word t \<Longrightarrow> \<not> alnum c \<Longrightarrow> attr_stop L ('' '' @ t @ c # y)"
  by (simp add: attr_stop_def read_attr [simplified])

lemma vals_attrs:
  assumes L: "htmllib_ok L" and e: "attr_stop L r"
  shows "\<forall>a \<in> set as. hattr_ok a \<Longrightarrow> nx = HsAttr \<or> nx = HsAttrEq \<Longrightarrow>
    \<exists>st'. vals L cf st (ht HsWspace nx l) (hattrs_text as @ r) buf =
      vals L cf st' (ht HsWspace HsAttr l) r
        (buf @ value_lines (if st = TaOut then [] else attr_pick (\<lambda>n. str_ieq (hl_str L) n (hc_attr cf)) as))"
proof (induction as arbitrary: st nx buf)
  case Nil
  have "vals L cf st (ht HsWspace nx l) r buf = vals L cf st (ht HsWspace HsAttr l) r buf"
    using Nil(2) e by (auto simp: attr_stop_def intro!: vals_same)
  then show ?case by auto
next
  case (Cons a as)
  let ?m = "\<lambda>n. str_ieq (hl_str L) n (hc_attr cf)"
  obtain n w where a: "a = (n, w)" by (cases a)
  have n: "word n" using Cons(2) by (simp add: a hattr_ok_def)
  obtain c y where y: "hattrs_text as @ r = c # y" "\<not> alnum c" using hattrs_first [OF e] by blast
  define st1 where "st1 = ta_next L cf HtmlAttr n st"
  have st1: "st1 = (if st = TaOut then TaOut else if ?m n then TaAttr else TaTag)"
    by (cases st) (auto simp: st1_def ta_next_def)
  show ?case
  proof (cases w)
    case None
    have "vals L cf st (ht HsWspace nx l) (hattrs_text (a # as) @ r) buf = vals L cf st1 (ht HsWspace HsAttrEq l) (hattrs_text as @ r) buf"
      using vals_next [OF read_attr [OF L n y(2) Cons(3), of l y]] by (simp add: a None y(1) st1_def)
    with Cons(1) [of HsAttrEq st1 buf] Cons(2) show ?thesis by (auto simp: a None st1)
  next
    case (Some v)
    have v: "CHR 0x22 \<notin> set v" "CHR 0x0A \<notin> set v" using Cons(2) by (simp_all add: a Some hattr_ok_def)
    have ne: "hattrs_text as @ r \<noteq> []" using y(1) by simp
    let ?d = "[CHR ''='', CHR 0x22] @ v @ CHR 0x22 # hattrs_text as @ r"
    have "vals L cf st (ht HsWspace nx l) (hattrs_text (a # as) @ r) buf = vals L cf st1 (ht HsWspace HsAttrEq l) ?d buf"
      using vals_next [OF read_attr [OF L n _ Cons(3), of "CHR ''=''" l "tl ?d"]] by (simp add: a Some st1_def)
    also have "\<dots> = vals L cf (if st1 = TaAttr then TaOut else st1) (ht HsWspace HsAttr l) (hattrs_text as @ r)
        (if st1 = TaAttr then buf @ v @ [CHR 0x0A] else buf)"
      using vals_value [OF read_value [OF L v, of l "hattrs_text as @ r"] ne]
        vals_next [OF read_value [OF L v, of l "hattrs_text as @ r"], of st1 cf buf]
      by (auto simp: ta_next_def)
    finally show ?thesis
      using Cons(1) [of HsAttr "if st1 = TaAttr then TaOut else st1" "if st1 = TaAttr then buf @ v @ [CHR 0x0A] else buf"] Cons(2)
      by (auto simp: a Some st1)
  qed
qed


definition doc_pick :: "htmllib \<Rightarrow> h_conf \<Rightarrow> hitem list \<Rightarrow> bytes list" where
  "doc_pick L cf its = concat (map (item_pick (\<lambda>t. str_ieq (hl_str L) t (hc_tag cf)) (\<lambda>n. str_ieq (hl_str L) n (hc_attr cf))) its)"

lemma doc_simps [simp]:
  "doc_text [] = []" "doc_text (i # its) = hitem_text i @ doc_text its" "doc_pick L cf [] = []"
  "doc_pick L cf (i # its) =
     item_pick (\<lambda>t. str_ieq (hl_str L) t (hc_tag cf)) (\<lambda>n. str_ieq (hl_str L) n (hc_attr cf)) i @ doc_pick L cf its"
  by (simp_all add: doc_text_def doc_pick_def)

text \<open>Text before a tag or before the end changes nothing.\<close>

lemma vals_text:
  assumes "htmllib_ok L" and "r = [] \<or> (\<exists>x. r = CHR ''<'' # x)" and "CHR ''<'' \<notin> set t"
  shows "\<exists>l'. vals L cf st (ht HsText nx l) (t @ r) buf = vals L cf st (ht HsText nx l') r buf"
proof -
  have h: "(ht HsText nx l)\<lparr>hr_preserve := False\<rparr> = ht HsText nx l" by (simp add: ht_def)
  from read_text [OF assms, where nx = nx and l = l and p = False and pre = "[]"] obtain l' where
    "(\<exists>out. htmlread_process L (ht HsText nx l) (t @ r) [] = Some (Inr (HtmlText, out, ht HsText nx l', r))) \<or>
     htmlread_process L (ht HsText nx l) (t @ r) [] = htmlread_process L (ht HsText nx l') r []" unfolding h by blast
  then show ?thesis
  proof (elim disjE exE)
    fix out
    assume "htmlread_process L (ht HsText nx l) (t @ r) [] = Some (Inr (HtmlText, out, ht HsText nx l', r))"
    from vals_next [OF this, of st cf buf] show ?thesis by (auto simp: ta_next_def)
  next
    assume "htmlread_process L (ht HsText nx l) (t @ r) [] = htmlread_process L (ht HsText nx l') r []"
    from vals_same [OF this] show ?thesis by blast
  qed
qed

text \<open>A whole tag.\<close>

lemma vals_open:
  assumes L: "htmllib_ok L" and t: "word t" and as: "\<forall>a \<in> set as. hattr_ok a"
  shows "\<exists>st'. vals L cf st (ht HsText nx l) (hitem_text (HOpen t as slf) @ r) buf = vals L cf st' (ht HsText HsAttr l) r
    (buf @ value_lines (item_pick (\<lambda>t. str_ieq (hl_str L) t (hc_tag cf)) (\<lambda>n. str_ieq (hl_str L) n (hc_attr cf)) (HOpen t as slf)))"
proof -
  define e where "e = (if slf then CHR ''/'' else CHR ''>'')"
  define z where "z = (if slf then CHR ''>'' # r else r)"
  have d: "hitem_text (HOpen t as slf) @ r = ''<'' @ t @ hattrs_text as @ e # z" by (simp add: e_def z_def)
  have e: "attr_stop L (e # z)" using attr_stop_end [OF L, of e z] by (simp add: e_def)
  obtain c y where y: "hattrs_text as @ e # z = c # y" "\<not> alnum c" using hattrs_first [OF e] by blast
  define st1 where "st1 = ta_next L cf HtmlTag t st"
  have st1: "st1 = (if str_ieq (hl_str L) t (hc_tag cf) then TaTag else TaOut)" by (simp add: st1_def ta_next_def)
  have 1: "vals L cf st (ht HsText nx l) (''<'' @ t @ hattrs_text as @ e # z) buf =
      vals L cf st1 (ht HsWspace HsAttr l) (hattrs_text as @ e # z) buf"
    using vals_next [OF read_tag [OF L t y(2), of nx l y "[]"], of st cf buf] by (simp add: y(1) st1_def)
  obtain st2 where 2: "vals L cf st1 (ht HsWspace HsAttr l) (hattrs_text as @ e # z) buf = vals L cf st2 (ht HsWspace HsAttr l) (e # z)
      (buf @ value_lines (if st1 = TaOut then [] else attr_pick (\<lambda>n. str_ieq (hl_str L) n (hc_attr cf)) as))"
    using vals_attrs [OF L e as, of HsAttr cf st1 l buf] by auto
  have 3: "vals L cf st2 (ht HsWspace HsAttr l) (e # z) b = vals L cf st2 (ht HsText HsAttr l) r b" for b
  proof (cases slf)
    case True
    have "vals L cf st2 (ht HsWspace HsAttr l) (CHR ''/'' # CHR ''>'' # r) b = vals L cf st2 (ht HsAnglR HsAttr l) (CHR ''>'' # r) b"
      using vals_next [OF read_end_self [OF L, of l "CHR ''>'' # r"], of st2 cf b] by (simp add: ta_next_def)
    also have "\<dots> = vals L cf st2 (ht HsText HsAttr l) r b" by (rule vals_same [OF read_angl [OF L]])
    finally show ?thesis using True by (simp add: e_def z_def)
  next
    case False
    then show ?thesis using vals_same [OF read_end [OF L]] by (simp add: e_def z_def)
  qed
  show ?thesis unfolding d using 1 2 3 st1 by (intro exI [of _ st2]) auto
qed

lemma vals_close:
  assumes L: "htmllib_ok L" and t: "word t"
  shows "vals L cf st (ht HsText nx l) (hitem_text (HClose t) @ r) buf = vals L cf st (ht HsText nx l) r buf"
  using vals_next [OF read_close_tag [OF L t, of "CHR ''>''" nx l r "[]"], of st cf buf] vals_same [OF read_angl [OF L], of cf st nx l r buf]
  by (simp add: ta_next_def)

lemma vals_doc_text:
  assumes L: "htmllib_ok L" and r: "r = [] \<or> (\<exists>x. r = CHR ''<'' # x)"
  shows "\<forall>i \<in> set its. hitem_ok i \<Longrightarrow> CHR ''<'' \<notin> set t \<Longrightarrow>
    \<exists>st' nx' l'. vals L cf st (ht HsText nx l) (t @ doc_text its @ r) buf =
      vals L cf st' (ht HsText nx' l') r (buf @ value_lines (doc_pick L cf its))"
proof (induction its arbitrary: t st nx l buf)
  case Nil
  with vals_text [OF L r, of t cf st nx l buf] show ?case by auto
next
  case (Cons i its)
  show ?case
  proof (cases i)
    case (HText u)
    with Cons(1) [of "t @ u" st nx l buf] Cons(2,3) show ?thesis by simp
  next
    case (HOpen g as slf)
    obtain l1 where 1: "vals L cf st (ht HsText nx l) (t @ hitem_text i @ doc_text its @ r) buf =
        vals L cf st (ht HsText nx l1) (hitem_text i @ doc_text its @ r) buf"
      using vals_text [OF L _ Cons(3), of "hitem_text i @ doc_text its @ r" cf st nx l buf] HOpen by fastforce
    obtain st2 where 2: "vals L cf st (ht HsText nx l1) (hitem_text i @ doc_text its @ r) buf =
        vals L cf st2 (ht HsText HsAttr l1) ([] @ doc_text its @ r)
          (buf @ value_lines (item_pick (\<lambda>t. str_ieq (hl_str L) t (hc_tag cf)) (\<lambda>n. str_ieq (hl_str L) n (hc_attr cf)) i))"
      using vals_open [OF L, of g as cf st nx l1 slf "doc_text its @ r" buf] Cons(2) HOpen by auto
    show ?thesis
      using Cons(1) [of "[]" st2 HsAttr l1 "buf @ value_lines (item_pick (\<lambda>t. str_ieq (hl_str L) t (hc_tag cf)) (\<lambda>n. str_ieq (hl_str L) n (hc_attr cf)) i)"]
        Cons(2) unfolding doc_simps append_assoc 1 2 by simp
  next
    case (HClose g)
    obtain l1 where 1: "vals L cf st (ht HsText nx l) (t @ hitem_text i @ doc_text its @ r) buf =
        vals L cf st (ht HsText nx l1) (hitem_text i @ doc_text its @ r) buf"
      using vals_text [OF L _ Cons(3), of "hitem_text i @ doc_text its @ r" cf st nx l buf] HClose by fastforce
    have 2: "vals L cf st (ht HsText nx l1) (hitem_text i @ doc_text its @ r) buf = vals L cf st (ht HsText nx l1) ([] @ doc_text its @ r) buf"
      using vals_close [OF L, of g cf st nx l1 "doc_text its @ r" buf] Cons(2) HClose by simp
    show ?thesis using Cons(1) [of "[]" st nx l1 buf] Cons(2) HClose unfolding doc_simps append_assoc 1 2 by simp
  qed
qed

text \<open>The state \<open>I_PROC\<close> on a document.\<close>

lemma html_values_doc:
  assumes L: "htmllib_ok L" and its: "\<forall>i \<in> set its. hitem_ok i"
  shows "\<exists>nx' l'. html_values L cf (ht HsText nx l) (doc_text its) buf =
    Some (Inr (ht HsText nx' l', [], buf @ value_lines (doc_pick L cf its)))"
proof -
  have m: "vals L cf st (ht HsText nx l) [] b = Some (Inr (ht HsText nx l, [], b))" for st nx l b
    by (rule vals_more [OF process_ret]) (simp add: ht_simps htmllibD [OF L])
  obtain st' nx' l' where "vals L cf TaOut (ht HsText nx l) (doc_text its) buf =
      vals L cf st' (ht HsText nx' l') [] (buf @ value_lines (doc_pick L cf its))"
    using vals_doc_text [OF L, of "[]" its "[]"] its by fastforce
  then have "vals L cf TaOut (ht HsText nx l) (doc_text its) buf = Some (Inr (ht HsText nx' l', [], buf @ value_lines (doc_pick L cf its)))"
    by (simp add: m)
  moreover from this have "html_values L cf (ht HsText nx l) (doc_text its) buf = vals L cf TaOut (ht HsText nx l) (doc_text its) buf"
    by (cases "doc_text its = []") (simp_all add: html_values_vals m)
  ultimately show ?thesis by auto
qed

section \<open>A whole run\<close>

context pipe_store begin

lemma html_file:
  assumes L: "htmllib_ok (he_lib E)" and E: "he_core E = C" and plain: "cmd_plain (ho_cmd h)"
    and al: "\<And>s A p n d. stands s = Some (A, p) \<Longrightarrow> st_pass A n \<Longrightarrow> st_files A n = Some d \<Longrightarrow>
      gives stands (com_input_allowed C n IaAuto s) True (A, p)"
    and rw: "\<And>s A p n d. stands s = Some (A, p) \<Longrightarrow> st_files A n = Some d \<Longrightarrow> gives stands (he_readwhole E n s) (Some d) (A, p)"
    and A: "stands s = Some (A, p)" "st_dst A = None" "st_src A = None" "st_names A = n # ns" "st_pass A n"
    and its: "st_files A n = Some (doc_text its)" "\<forall>i \<in> set its. hitem_ok i"
    and t: "new (ci_output (ho_cmd h))" "st_files A (ci_output (ho_cmd h)) = None \<or> ci_overwrite (ho_cmd h)"
    and h: "ho_st h = HoIn" "ho_out h = o1" "ho_html h = ht HsText nx l"
  shows "\<exists>h' s' nx' l'. html_turn E h s = Some (Inl h', s') \<and> ho_st h' = HoIn \<and> ho_out h' = o1 \<and> ho_cmd h' = ho_cmd h \<and>
    ho_conf h' = ho_conf h \<and> ho_html h' = ht HsText nx' l' \<and> ho_buf h' = ho_buf h @ value_lines (doc_pick (he_lib E) (ho_conf h) its) \<and>
    stands s' = Some (A\<lparr>st_names := ns, st_files := (st_files A)(ci_output (ho_cmd h) \<mapsto> ho_buf h')\<rparr>, p)"
proof -
  define ow where "ow = ci_overwrite (ho_cmd h)"
  define t where "t = ci_output (ho_cmd h)"
  define A1 where "A1 = A\<lparr>st_names := ns\<rparr>"
  define buf where "buf = ho_buf h @ value_lines (doc_pick (he_lib E) (ho_conf h) its)"
  have fl: "FCOM_FILE_WRITE OR fcom_file_cominfo_flags_o (ho_cmd h) = new_flags ow"
    using plain by (simp add: cmd_plain_def fcom_file_cominfo_flags_o_def new_flags_def ow_def)
  obtain b s1 where 1: "com_input_next C 0 s = Some (ROk n b, s1)" "stands s1 = Some (A1, p)"
    using pp_next [OF A(1,4)] by (auto elim!: givesE simp: A1_def)
  obtain s2 where 2: "com_input_allowed C n IaAuto s1 = Some (True, s2)" "stands s2 = Some (A1, p)"
    using al [OF 1(2), of n "doc_text its"] A(5) its(1) by (auto elim!: givesE simp: A1_def)
  obtain s3 where 3: "he_readwhole E n s2 = Some (Some (doc_text its), s3)" "stands s3 = Some (A1, p)"
    using rw [OF 2(2), of n "doc_text its"] its(1) by (auto elim!: givesE simp: A1_def)
  have op: "htmlread_open (ho_html h) = ht HsText nx 1" by (simp add: h(3) htmlread_open_def ht_def)
  obtain nx' l' where v: "html_values (he_lib E) (ho_conf h) (ht HsText nx 1) (doc_text its) (ho_buf h) = Some (Inr (ht HsText nx' l', [], buf))"
    using html_values_doc [OF L its(2)] unfolding buf_def by blast
  obtain s4 where 4: "fi_open C o1 t (new_flags ow) s3 = Some (FOk, s4)"
    "stands s4 = Some (A1\<lparr>st_files := (st_files A)(t := None), st_dst := Some (t, [])\<rparr>, p)"
    using pp_open_dst [OF 3(2), of t ow] t A(2,3) assms(14) by (auto elim!: givesE simp: A1_def t_def ow_def)
  obtain s5 where 5: "fi_write C o1 buf None s4 = Some (FOk, s5)"
    "stands s5 = Some (A1\<lparr>st_files := (st_files A)(t := None), st_dst := Some (t, buf)\<rparr>, p)"
    using pp_write [OF 4(2), of t "[]" buf] by (auto elim!: givesE)
  obtain s6 where 6: "fi_close C o1 s5 = Some ((), s6)" "stands s6 = Some (A1\<lparr>st_files := (st_files A)(t \<mapsto> buf), st_dst := None\<rparr>, p)"
    using pp_close [OF 5(2)] by (auto elim!: givesE)
  define h' where "h' = h\<lparr>ho_iname := n, ho_fdata := doc_text its, ho_idata := [], ho_html := ht HsText nx' l', ho_buf := buf\<rparr>"
  have "html_turn E h s = Some (Inl h', s6)"
    using 1(1) 2(1) 3(1) 4(1) 5(1) 6(1)
    by (simp add: html_turn_def html_in_def html_read_def html_proc_def html_out_open_def html_write_def E h(1,2) op v fl t_def [symmetric] h'_def del: One_nat_def)
  moreover have "A1\<lparr>st_files := (st_files A)(t \<mapsto> buf), st_dst := None\<rparr> = A\<lparr>st_names := ns, st_files := (st_files A)(t \<mapsto> buf)\<rparr>"
    using A(2) by (simp add: A1_def)
  ultimately show ?thesis using 6(2) h(1,2)
    by (intro exI [of _ h'] exI [of _ s6] exI [of _ nx'] exI [of _ l']) (simp add: h'_def buf_def t_def)
qed

lemma html_files:
  assumes L: "htmllib_ok (he_lib E)" and E: "he_core E = C" and plain: "cmd_plain cmd"
    and al: "\<And>s A p n d. stands s = Some (A, p) \<Longrightarrow> st_pass A n \<Longrightarrow> st_files A n = Some d \<Longrightarrow>
      gives stands (com_input_allowed C n IaAuto s) True (A, p)"
    and rw: "\<And>s A p n d. stands s = Some (A, p) \<Longrightarrow> st_files A n = Some d \<Longrightarrow> gives stands (he_readwhole E n s) (Some d) (A, p)"
    and new: "new t" and t: "t = ci_output cmd"
    and "stands s = Some (A, p)" and "st_dst A = None" and "st_src A = None" and "st_names A = ns"
    and "\<forall>n \<in> set ns. n \<noteq> t \<and> st_pass A n \<and> st_files A n = Some (doc_text (docs n)) \<and> (\<forall>i \<in> set (docs n). hitem_ok i)"
    and "ns = [] \<or> ci_overwrite cmd \<or> st_files A t = None \<and> length ns = 1"
    and "ho_st h = HoIn" and "ho_out h = o1" and "ho_html h = ht HsText nx l" and "ho_cmd h = cmd" and "ho_conf h = cf"
  shows "\<exists>h' s'. html_run E h s = Some ((Some 0, h'), s') \<and> stands s' =
    Some (A\<lparr>st_names := [], st_files := (if ns = [] then st_files A
      else (st_files A)(t \<mapsto> ho_buf h @ value_lines (concat (map (\<lambda>n. doc_pick (he_lib E) cf (docs n)) ns))))\<rparr>, p)"
  using assms(8-)
proof (induction ns arbitrary: s A h nx l)
  case Nil
  obtain s1 where 1: "com_input_next C 0 s = Some (RNomore, s1)" "stands s1 = Some (A, p)"
    using pp_last [OF Nil(1,4)] by (auto elim: givesE)
  obtain s2 where 2: "fi_destroy C o1 s1 = Some ((), s2)" "stands s2 = Some (A, p)"
    using pp_destroy_dst [OF 1(2)] Nil(2) by (auto elim: givesE)
  have "html_turn E h s = Some (Inr (h, 0), s1)" using 1(1) Nil(7) by (simp add: html_turn_def html_in_def E)
  from op_loop_exit [of "stop_flag C" s "html_turn E" h, OF pp_runs [OF Nil(1)] this] have "html_run E h s = Some ((Some 0, h), s2)"
    using 2(1) Nil(8) by (simp add: html_run_def html_close_def E HT_WILD_def)
  moreover have "A\<lparr>st_names := [], st_files := st_files A\<rparr> = A" using Nil(4) by simp
  ultimately show ?case using 2(2) by simp
next
  case (Cons n ns)
  have plain1: "cmd_plain (ho_cmd h)" and new1: "new (ci_output (ho_cmd h))"
    and ov: "st_files A (ci_output (ho_cmd h)) = None \<or> ci_overwrite (ho_cmd h)"
    using plain new Cons(7,11) by (auto simp: t)
  obtain h1 s1 nx1 l1 where 1: "html_turn E h s = Some (Inl h1, s1)" "ho_st h1 = HoIn" "ho_out h1 = o1" "ho_cmd h1 = cmd"
    "ho_conf h1 = cf" "ho_html h1 = ht HsText nx1 l1" "ho_buf h1 = ho_buf h @ value_lines (doc_pick (he_lib E) cf (docs n))"
    "stands s1 = Some (A\<lparr>st_names := ns, st_files := (st_files A)(t \<mapsto> ho_buf h1)\<rparr>, p)"
    using html_file [OF L E plain1 _ _ Cons(2-5) _ _ _ new1 ov Cons(8-10), where its = "docs n"] al rw Cons(6,11,12) unfolding t by auto
  have go: "op_loop (stop_flag C) (html_turn E) h s = op_loop (stop_flag C) (html_turn E) h1 s1"
    by (rule op_loop_next [of "stop_flag C" s "html_turn E", OF pp_runs [OF Cons(2)] 1(1)])
  define A1 where "A1 = A\<lparr>st_names := ns, st_files := (st_files A)(t \<mapsto> ho_buf h1)\<rparr>"
  have "\<exists>h' s'. html_run E h1 s1 = Some ((Some 0, h'), s') \<and> stands s' =
    Some (A1\<lparr>st_names := [], st_files := (if ns = [] then st_files A1
      else (st_files A1)(t \<mapsto> ho_buf h1 @ value_lines (concat (map (\<lambda>n. doc_pick (he_lib E) cf (docs n)) ns))))\<rparr>, p)"
    by (rule Cons(1) [OF _ _ _ _ _ _ 1(2,3,6,4,5)]) (use 1(8) Cons(3,4,6,7) in \<open>auto simp: A1_def\<close>)
  moreover have "html_run E h s = html_run E h1 s1" by (simp add: html_run_def E go)
  ultimately show ?case using 1(7) by (cases "ns = []") (auto simp: A1_def simp del: fun_upd_apply)
qed

end

section \<open>The properties\<close>

lemma core_pipe_allowed:
  assumes A: "core_pipe sys V lib names cm i1 o1 s = Some (A, p)" and n: "st_pass A n" "st_files A n = Some d"
    and dir: "\<forall>n w. v_disk V (wo_sys w) n \<noteq> None \<longrightarrow> path_isdir lib n w = (Some False, w)"
  shows "gives (core_pipe sys V lib names cm i1 o1) (com_input_allowed (core_of sys lib cm mk) n IaAuto s) True (A, p)"
proof -
  note D = core_pipeD [OF A, THEN conjunct1]
  have "v_disk V (wo_sys (world s)) n = Some d" by (rule core_pipe_file [OF A n(2)])
  then have "cmd_input_allowed lib (cm_info (cmd_at s cm)) n IaAuto (world s) = (0, world s)"
    using dir n(1) core_storeD(8) [OF D] by (auto simp: cmd_input_allowed_def name_passes_def Let_def)
  with A show ?thesis by (simp add: gives_def core_of_def)
qed

text \<open>C39. Over a working file system \<open>html --filter TAG.ATTR\<close> ends with code 0, and the output file then holds, one on
  each line and in order, for every tag TAG of the well-formed input documents the first value given to ATTR in it; no
  other file has changed.\<close>

theorem html_prints_values:
  assumes "htmllib_ok (he_lib E)" and "he_core E = core_of sys lib cm mk" and "cmd_plain (ho_cmd h)" and "ci_output (ho_cmd h) = t"
    and "core_pipe sys V lib names cm i1 o1 s = Some (A, p)" and "st_dst A = None" and "st_src A = None" and "v_new V t"
    and "\<forall>n w. v_disk V (wo_sys w) n \<noteq> None \<longrightarrow> path_isdir lib n w = (Some False, w)"
    and "\<forall>s A p n d. core_pipe sys V lib names cm i1 o1 s = Some (A, p) \<and> st_files A n = Some d \<longrightarrow>
      gives (core_pipe sys V lib names cm i1 o1) (he_readwhole E n s) (Some d) (A, p)"
    and "\<forall>n \<in> set (st_names A). n \<noteq> t \<and> st_pass A n \<and> v_disk V (wo_sys (world s)) n = Some (doc_text (docs n)) \<and>
      (\<forall>i \<in> set (docs n). hitem_ok i)"
    and "st_names A \<noteq> []" and "ci_overwrite (ho_cmd h) \<or> v_disk V (wo_sys (world s)) t = None \<and> length (st_names A) = 1"
    and "ho_st h = HoIn" and "ho_out h = o1" and "ho_buf h = []" and "ho_html h = ht HsText HsText 0"
  shows "\<exists>h' s'. html_run E h s = Some ((Some 0, h'), s') \<and>
    v_disk V (wo_sys (world s')) = (v_disk V (wo_sys (world s)))
      (t \<mapsto> value_lines (concat (map (\<lambda>n. doc_pick (he_lib E) (ho_conf h) (docs n)) (st_names A))))"
proof -
  let ?ps = "core_pipe sys V lib names cm i1 o1"
  let ?v = "value_lines (concat (map (\<lambda>n. doc_pick (he_lib E) (ho_conf h) (docs n)) (st_names A)))"
  have disk: "v_disk V (wo_sys (world s)) = st_files A" by (rule core_pipe_disk [OF assms(5,6)])
  have al: "gives ?ps (com_input_allowed (core_of sys lib cm mk) n IaAuto s) True (B, q)"
    if "?ps s = Some (B, q)" "st_pass B n" "st_files B n = Some d" for s B q n d
    by (rule core_pipe_allowed [OF that assms(9)])
  have rw: "gives ?ps (he_readwhole E n s) (Some d) (B, q)" if "?ps s = Some (B, q)" "st_files B n = Some d" for s B q n d
    using assms(10) that by blast
  have docs: "\<forall>n \<in> set (st_names A). n \<noteq> t \<and> st_pass A n \<and> st_files A n = Some (doc_text (docs n)) \<and> (\<forall>i \<in> set (docs n). hitem_ok i)"
    and ov: "st_names A = [] \<or> ci_overwrite (ho_cmd h) \<or> st_files A t = None \<and> length (st_names A) = 1"
    using assms(11,13) unfolding disk by blast+
  have "\<exists>h' s'. html_run E h s = Some ((Some 0, h'), s') \<and> ?ps s' = Some (A\<lparr>st_names := [], st_files := (if st_names A = [] then st_files A
      else (st_files A)(t \<mapsto> ho_buf h @ ?v))\<rparr>, p)"
    by (rule pipe.html_files [OF assms(1-3)])
      (rule al rw assms(8) assms(4) [symmetric] assms(5-7) refl docs ov assms(14,15,17); assumption?)+
  then obtain h' s' where r: "html_run E h s = Some ((Some 0, h'), s')"
    "?ps s' = Some (A\<lparr>st_names := [], st_files := (st_files A)(t \<mapsto> ?v)\<rparr>, p)"
    using assms(12,16) by auto
  from core_pipe_disk [OF r(2)] assms(6) have "v_disk V (wo_sys (world s')) = (st_files A)(t \<mapsto> ?v)" by simp
  with r(1) disk show ?thesis by auto
qed

text \<open>A turn of the reader that comes back to itself.\<close>

lemma process_stuck:
  assumes "ht_step L h d pre = HtGo h d pre"
  shows "htmlread_process L h d pre = None"
proof (rule ccontr)
  assume "htmlread_process L h d pre \<noteq> None"
  then obtain y where y: "htmlread_process L h d pre = Some y" by blast
  have "\<not> (L = L \<and> h = h \<and> d = d \<and> pre = pre)"
  proof (rule htmlread_process.raw_induct [where P = "\<lambda>L' h' d' pre' y. \<not> (L' = L \<and> h' = h \<and> d' = d \<and> pre' = pre)", OF _ y])
    fix f L' h' d' pre' y
    assume ih: "\<And>L' h' d' pre' y. f L' h' d' pre' = Some y \<Longrightarrow> \<not> (L' = L \<and> h' = h \<and> d' = d \<and> pre' = pre)"
      and eq: "(case ht_step L' h' d' pre' of HtGo a b c \<Rightarrow> f L' a b c | HtRet r out h' d' \<Rightarrow> Some (Inr (r, out, h', d')) | HtPast \<Rightarrow> Some (Inl HtWild)) = Some y"
    show "\<not> (L' = L \<and> h' = h \<and> d' = d \<and> pre' = pre)"
    proof
      assume "L' = L \<and> h' = h \<and> d' = d \<and> pre' = pre"
      then have "f L h d pre = Some y" using eq assms by simp
      from ih [OF this] show False by simp
    qed
  qed
  then show False by simp
qed

lemma read_unquoted:
  assumes L: "htmllib_ok L" and c: "\<not> blank c" "c \<noteq> CHR 0x0A" "c \<noteq> CHR 0x22" "c \<noteq> CHR 0x27"
  shows "htmlread_process L (ht HsWspace HsAttrEq l) (CHR ''='' # c # y) [] = None"
proof -
  have "htmlread_process L (ht HsWspace HsAttrEq l) (CHR ''='' # c # y) [] = htmlread_process L (ht HsAttrEq HsAttrEq l) (CHR ''='' # c # y) []"
    using read_blank [OF L, of "[]" "CHR ''=''"] by simp
  also have "\<dots> = htmlread_process L (ht HsWspace HsAttrVal l) (c # y) []"
    by (rule process_go) (use c in \<open>simp add: ht_simps\<close>)
  also have "\<dots> = htmlread_process L (ht HsAttrVal HsAttrVal l) (c # y) []"
    using read_blank [OF L, of "[]" c] c by simp
  also have "\<dots> = None" by (rule process_stuck) (use c in \<open>simp add: ht_simps\<close>)
  finally show ?thesis .
qed

text \<open>C40. An attribute value without quotes makes \<open>html\<close> hang: when the first input file that passes the filters has
  \<open><tag ... name=c\<close> after well-formed text and well-formed attributes, \<open>c\<close> being neither a quote nor white space, the operation
  never returns, whatever follows.\<close>

theorem html_unquoted_hangs:
  assumes "htmllib_ok (he_lib E)" and "\<forall>i \<in> set its. hitem_ok i" and "word t" and "\<forall>a \<in> set as. hattr_ok a" and "word n"
    and "\<not> blank c" and "c \<notin> {CHR 0x0A, CHR 0x22, CHR 0x27}"
    and "\<not> stop_flag (he_core E) s" and "com_input_next (he_core E) 0 s = Some (ROk f b, s1)"
    and "com_input_allowed (he_core E) f IaAuto s1 = Some (True, s2)"
    and "he_readwhole E f s2 = Some (Some (doc_text its @ ''<'' @ t @ hattrs_text as @ '' '' @ n @ ''='' @ c # y), s3)"
    and "ho_st h = HoIn" and "ho_html h = ht HsText HsText 0"
  shows "html_run E h s = None"
proof -
  let ?L = "he_lib E"
  let ?d = "doc_text its @ ''<'' @ t @ hattrs_text as @ '' '' @ n @ ''='' @ c # y"
  note L = assms(1)
  have stop: "attr_stop ?L ('' '' @ n @ CHR ''='' # c # y)" by (rule attr_stop_attr [OF L assms(5)]) simp
  obtain x z where x: "hattrs_text as @ '' '' @ n @ CHR ''='' # c # y = x # z" "\<not> alnum x" using hattrs_first [OF stop] by blast
  obtain st1 nx1 l1 b1 where 1: "vals ?L (ho_conf h) TaOut (ht HsText HsText 1) ?d (ho_buf h) =
      vals ?L (ho_conf h) st1 (ht HsText nx1 l1) (''<'' @ t @ x # z) b1"
    using vals_doc_text [OF L, of "''<'' @ t @ x # z" its "[]" "ho_conf h" TaOut HsText 1 "ho_buf h"] assms(2) x(1) by auto
  obtain st2 where 2: "vals ?L (ho_conf h) st1 (ht HsText nx1 l1) (''<'' @ t @ x # z) b1 = vals ?L (ho_conf h) st2 (ht HsWspace HsAttr l1) (x # z) b1"
    using vals_next [OF read_tag [OF L assms(3) x(2)]] by blast
  obtain st3 b3 where 3: "vals ?L (ho_conf h) st2 (ht HsWspace HsAttr l1) (x # z) b1 =
      vals ?L (ho_conf h) st3 (ht HsWspace HsAttr l1) ('' '' @ n @ CHR ''='' # c # y) b3"
    using vals_attrs [OF L stop assms(4), of HsAttr] unfolding x(1) by blast
  obtain st4 where 4: "vals ?L (ho_conf h) st3 (ht HsWspace HsAttr l1) ('' '' @ n @ CHR ''='' # c # y) b3 =
      vals ?L (ho_conf h) st4 (ht HsWspace HsAttrEq l1) (CHR ''='' # c # y) b3"
    using vals_next [OF read_attr [OF L assms(5)], of "CHR ''=''" HsAttr] by fastforce
  have 5: "vals ?L (ho_conf h) st4 (ht HsWspace HsAttrEq l1) (CHR ''='' # c # y) b3 = None"
    using read_unquoted [OF L assms(6), of l1 y] assms(7) unfolding vals_def by (subst html_find_tagattr.simps) simp
  have op: "htmlread_open (ho_html h) = ht HsText HsText 1" by (simp add: assms(13) htmlread_open_def ht_def)
  have "html_values ?L (ho_conf h) (ht HsText HsText 1) ?d (ho_buf h) = None"
    using 1 2 3 4 5 by (simp add: html_values_vals)
  then have "html_turn E h s = None"
    using assms(9-12) by (simp add: html_turn_def html_in_def html_read_def html_proc_def op del: One_nat_def)
  then show ?thesis using assms(8) unfolding html_run_def by (subst op_loop.simps) simp
qed

end
