(* ===== verification/Gz.thy ===== *)
theory Gz
  imports OpIf
begin

text \<open>
  The operation \<open>gz\<close> (\<open>src/pack/gz.c\<close>): every input file is compressed into an output file. The
  encoder of ffpack is the record \<open>gzwlib\<close>: what \<open>ffgzwrite_init\<close>, \<open>ffgzwrite_process\<close> and
  \<open>ffgzwrite_finish\<close> do to the encoder's state. Log lines are left out.
\<close>

section \<open>The encoder and the paths\<close>

record gzconf =
  gc_level :: "32 word"
  gc_mem :: nat
  gc_name :: bytes
  gc_mtime :: int

datatype gzw_res = GwData | GwDone | GwMore | GwError

text \<open>\<open>gw_process\<close> gives the code, the input it has not taken in and the output.\<close>

record 'z gzwlib =
  gw_zero :: 'z
  gw_init :: "gzconf \<Rightarrow> 'z \<Rightarrow> bool \<times> 'z"
  gw_process :: "'z \<Rightarrow> bytes \<Rightarrow> (gzw_res \<times> bytes \<times> bytes) \<times> 'z"
  gw_finish :: "'z \<Rightarrow> 'z"

text \<open>
  \<open>gp_split\<close> is \<open>ffpath_splitpath\<close>: the position and the length of the last component; \<open>gp_ext\<close> is
  \<open>ffpath_splitname_str\<close>: the name and the extension.
\<close>

record pathlib =
  gp_split :: "bytes \<Rightarrow> nat \<times> nat"
  gp_split_win :: "bytes \<Rightarrow> nat \<times> nat"
  gp_ext :: "bytes \<Rightarrow> bytes \<times> bytes"

definition last_part :: "(bytes \<Rightarrow> nat \<times> nat) \<Rightarrow> bytes \<Rightarrow> bytes" where
  "last_part sp n = (case sp n of (p, l) \<Rightarrow> take l (drop p n))"

record ('s, 'i, 'z) gzenv =
  ge_core :: "('s, 'i) coreif"
  ge_lib :: "'z gzwlib"
  ge_path :: pathlib
  ge_mtime :: "'i \<Rightarrow> fftime"

section \<open>Data\<close>

datatype gz_st = GzIn | GzInOpen | GzOutOpen | GzRead | GzComp | GzWrite

record ('k, 'z) gz =
  gz_st :: gz_st
  gz_cmd :: "'k cominfo"
  gz_iname :: bytes
  gz_basename :: bytes
  gz_oname :: "bytes option"
  gz_in :: nat
  gz_out :: nat
  gz_z :: 'z
  gz_data :: bytes
  gz_zdata :: bytes
  gz_del :: bool
  gz_in_total :: nat
  gz_out_total :: nat
  gz_level :: "32 word"

definition slash_byte :: bytes where
  "slash_byte = [CHR 0x2F]"

text \<open>\<open>idir/iname.gz\<close>, or with \<open>--chdir\<close> the part of the name below the input's directory.\<close>

definition gz_out_name :: "pathlib \<Rightarrow> 'k cominfo \<Rightarrow> bytes \<Rightarrow> bytes \<Rightarrow> bytes" where
  "gz_out_name P cmd n base0 =
     (if ci_output cmd \<noteq> [] then ci_output cmd
      else if ci_chdir cmd \<noteq> [] then
        (let base = (if base0 = [] then n else base0);
             (pos, len) = gp_split P base
         in ci_chdir cmd @ slash_byte @ (if len \<noteq> 0 then drop pos n else n) @ ''.gz'')
      else n @ ''.gz'')"

section \<open>The operation\<close>

text \<open>\<open>gz_create\<close> after the arguments are parsed.\<close>

definition gz_create :: "('s, 'i, 'z) gzenv \<Rightarrow> 32 word option \<Rightarrow> 'k cominfo \<Rightarrow> ('s, ('k, 'z) gz) act" where
  "gz_create E level cmd s =
     do { (i, s) \<leftarrow> fi_create (ge_core E) (ci_buffer_size cmd) s;
          (o1, s) \<leftarrow> fi_create (ge_core E) (ci_buffer_size cmd) s;
          Some (\<lparr>gz_st = GzIn, gz_cmd = cmd, gz_iname = [], gz_basename = [], gz_oname = None, gz_in = i, gz_out = o1,
                 gz_z = gw_zero (ge_lib E), gz_data = [], gz_zdata = [], gz_del = False, gz_in_total = 0, gz_out_total = 0,
                 gz_level = (case level of None \<Rightarrow> 6 | Some l \<Rightarrow> l)\<rparr>, s) }"

text \<open>The unfinished file is removed before its object is closed.\<close>

definition gz_close :: "('s, 'i, 'z) gzenv \<Rightarrow> ('k, 'z) gz \<Rightarrow> ('s, unit) act" where
  "gz_close E z s =
     do { (_, s) \<leftarrow> fi_destroy (ge_core E) (gz_in z) s;
          (_, s) \<leftarrow> (if gz_del z then fi_del (ge_core E) (the (gz_oname z)) s else Some (True, s));
          fi_destroy (ge_core E) (gz_out z) s }"

type_synonym ('s, 'k, 'z) gz_turn = "('k, 'z) gz \<Rightarrow> ('s, ('k, 'z) gz + ('k, 'z) gz \<times> int) act"

definition gzcomp :: "'z gzwlib \<Rightarrow> ('k, 'z) gz \<Rightarrow> gzw_res \<times> ('k, 'z) gz" where
  "gzcomp G z =
     (case gw_process G (gz_z z) (gz_data z) of
        ((r, rest, out), st) \<Rightarrow>
          (let z = z\<lparr>gz_z := st, gz_data := rest, gz_zdata := out, gz_in_total := gz_in_total z + (length (gz_data z) - length rest)\<rparr>
           in (r, if r = GwData then z\<lparr>gz_out_total := gz_out_total z + length out\<rparr> else z)))"

text \<open>A write that waits (\<open>FCOM_FILE_ASYNC\<close>) suspends the run: code \<open>GZ_ASYNC\<close>.\<close>

definition GZ_ASYNC :: int where
  "GZ_ASYNC = 2"

definition gz_write :: "('s, 'i, 'z) gzenv \<Rightarrow> ('s, 'k, 'z) gz_turn" where
  "gz_write E z s =
     do { (r, s) \<leftarrow> fi_write (ge_core E) (gz_out z) (gz_zdata z) None s;
          if r = FErr then Some (Inr (z, 1), s)
          else if r = FAsync then Some (Inr (z, GZ_ASYNC), s)
          else Some (Inl (z\<lparr>gz_st := GzComp\<rparr>), s) }"

definition gz_comp :: "('s, 'i, 'z) gzenv \<Rightarrow> ('s, 'k, 'z) gz_turn" where
  "gz_comp E z0 s =
     (case gzcomp (ge_lib E) z0 of
        (GwError, z) \<Rightarrow> Some (Inr (z, 1), s)
      | (GwMore, z) \<Rightarrow> Some (Inl (z\<lparr>gz_st := GzRead\<rparr>), s)
      | (GwDone, z) \<Rightarrow> Some (Inl (z\<lparr>gz_del := False, gz_st := GzIn\<rparr>), s)
      | (GwData, z) \<Rightarrow> gz_write E (z\<lparr>gz_st := GzWrite\<rparr>) s)"

definition gz_read :: "('s, 'i, 'z) gzenv \<Rightarrow> ('s, 'k, 'z) gz_turn" where
  "gz_read E z s =
     do { ((r, d), s) \<leftarrow> fi_read (ge_core E) (gz_in z) None s;
          if r = FErr then Some (Inr (z, 1), s)
          else if r = FAsync then Some (Inr (z, GZ_ASYNC), s)
          else
            (let z = z\<lparr>gz_data := d\<rparr>;
                 z = (if r = FEof then z\<lparr>gz_z := gw_finish (ge_lib E) (gz_z z)\<rparr> else z)
             in gz_comp E (z\<lparr>gz_st := GzComp\<rparr>) s) }"

definition gz_out_open :: "('s, 'i, 'z) gzenv \<Rightarrow> ('s, 'k, 'z) gz_turn" where
  "gz_out_open E z s =
     do { (r, s) \<leftarrow> fi_open (ge_core E) (gz_out z) (the (gz_oname z)) (FCOM_FILE_WRITE OR fcom_file_cominfo_flags_o (gz_cmd z)) s;
          if r = FErr then Some (Inr (z, 1), s)
          else gz_read E (z\<lparr>gz_del := (\<not> ci_stdout (gz_cmd z) \<and> \<not> ci_test (gz_cmd z)), gz_st := GzRead\<rparr>) s }"

definition gz_in_open :: "('s, 'i, 'z) gzenv \<Rightarrow> ('s, 'k, 'z) gz_turn" where
  "gz_in_open E z s =
     do { (r, s) \<leftarrow> fi_open (ge_core E) (gz_in z) (gz_iname z) (fcom_file_cominfo_flags_i (gz_cmd z) OR FCOM_FILE_READ) s;
          if r = FErr then Some (Inr (z, 1), s) else
          do { ((r, fi), s) \<leftarrow> fi_info (ge_core E) (gz_in z) s;
               if r = FErr then Some (Inr (z, 1), s)
               else
                 (let (ok, st) = gw_init (ge_lib E) \<lparr>gc_level = gz_level z, gc_mem = 256,
                        gc_name = last_part (gp_split (ge_path E)) (gz_iname z), gc_mtime = fst (ge_mtime E (the fi))\<rparr> (gz_z z);
                      z = z\<lparr>gz_z := st\<rparr>
                  in if \<not> ok then Some (Inr (z, 1), s)
                     else
                       (let z = (if ci_stdout (gz_cmd z) then z
                                 else z\<lparr>gz_oname := Some (gz_out_name (ge_path E) (gz_cmd z) (gz_iname z) (gz_basename z))\<rparr>)
                        in gz_out_open E (z\<lparr>gz_st := GzOutOpen\<rparr>) s)) } }"

definition gz_in_next :: "('s, 'i, 'z) gzenv \<Rightarrow> ('s, 'k, 'z) gz_turn" where
  "gz_in_next E z s =
     do { (r, s) \<leftarrow> com_input_next (ge_core E) 0 s;
          case r of
            RNomore \<Rightarrow> Some (Inr (z, 0), s)
          | RErr \<Rightarrow> Some (Inr (z, 1), s)
          | ROk n b \<Rightarrow> gz_in_open E (z\<lparr>gz_iname := n, gz_basename := b, gz_st := GzInOpen\<rparr>) s }"

definition gz_turn :: "('s, 'i, 'z) gzenv \<Rightarrow> ('s, 'k, 'z) gz_turn" where
  "gz_turn E z s =
     (case gz_st z of
        GzIn \<Rightarrow> gz_in_next E z s | GzInOpen \<Rightarrow> gz_in_open E z s | GzOutOpen \<Rightarrow> gz_out_open E z s
      | GzRead \<Rightarrow> gz_read E z s | GzComp \<Rightarrow> gz_comp E z s | GzWrite \<Rightarrow> gz_write E z s)"

text \<open>\<open>gz_run\<close>: \<^const>\<open>None\<close> is a run that waits for the kernel, otherwise the code given to \<open>com->complete\<close>.\<close>

definition gz_run :: "('s, 'i, 'z) gzenv \<Rightarrow> ('k, 'z) gz \<Rightarrow> ('s, int option \<times> ('k, 'z) gz) act" where
  "gz_run E z s =
     do { ((z, rc), s) \<leftarrow> op_loop (stop_flag (ge_core E)) (gz_turn E) z s;
          if rc = GZ_ASYNC then Some ((None, z), s)
          else do { (_, s) \<leftarrow> gz_close E z s; Some ((Some rc, z), s) } }"

end
