(* ===== verification/Ungz.thy ===== *)
theory Ungz
  imports Gz
begin

text \<open>
  The operation \<open>ungz\<close> (\<open>src/pack/ungz.c\<close>). The decoder of ffpack is the record \<open>gzrlib\<close>. Log
  lines are left out.
\<close>

section \<open>The decoder\<close>

datatype gzr_res = GrInfo | GrData | GrDone | GrMore | GrSeek | GrWarning | GrError

record gzinfo =
  gi_name :: bytes
  gi_mtime :: int

text \<open>\<open>gr_process\<close> gives the code, the input it has not taken in and the output.\<close>

record 'r gzrlib =
  gr_zero :: 'r
  gr_open :: "'r \<Rightarrow> bool \<times> 'r"
  gr_process :: "'r \<Rightarrow> bytes \<Rightarrow> (gzr_res \<times> bytes \<times> bytes) \<times> 'r"
  gr_info :: "'r \<Rightarrow> gzinfo"
  gr_offset :: "'r \<Rightarrow> nat"
  gr_close :: "'r \<Rightarrow> 'r"

text \<open>\<open>ue_1970\<close> is \<open>FFTIME_1970_SECONDS\<close>.\<close>

record ('s, 'i, 'r) ungzenv =
  ue_core :: "('s, 'i) coreif"
  ue_lib :: "'r gzrlib"
  ue_path :: pathlib
  ue_1970 :: int

section \<open>Data\<close>

datatype ungz_st = UgIn | UgInOpen | UgOutOpen | UgRead | UgDecomp | UgWrite

record ('k, 'r) ungz =
  ug_st :: ungz_st
  ug_cmd :: "'k cominfo"
  ug_iname :: bytes
  ug_basename :: bytes
  ug_oname :: "bytes option"
  ug_in :: nat
  ug_out :: nat
  ug_off :: nat
  ug_r :: 'r
  ug_data :: bytes
  ug_zdata :: bytes
  ug_mtime :: fftime
  ug_opened :: bool
  ug_next_begin :: bool
  ug_out_opened :: bool
  ug_del :: bool
  ug_in_total :: nat
  ug_out_total :: nat

text \<open>\<open>odir/gzname\<close>, or without a name in the archive \<open>odir/iname\<close> less its extension \<open>.gz\<close>.\<close>

definition ungz_out_name :: "pathlib \<Rightarrow> 'k cominfo \<Rightarrow> bytes \<Rightarrow> bytes \<Rightarrow> bytes" where
  "ungz_out_name P cmd gzname n =
     (if ci_output cmd \<noteq> [] then ci_output cmd
      else
        (let g = last_part (gp_split_win P) gzname;
             f = last_part (gp_split P) n;
             (name, ext) = gp_ext P f
         in ci_chdir cmd @ slash_byte @ (if g \<noteq> [] then g else if ext = ''gz'' then name else f)))"

section \<open>The operation\<close>

text \<open>\<open>ungz_create\<close>; \<open>args_parse\<close> makes the current directory the default of \<open>--chdir\<close>.\<close>

definition ungz_create :: "('s, 'i, 'r) ungzenv \<Rightarrow> 'k cominfo \<Rightarrow> ('s, ('k, 'r) ungz) act" where
  "ungz_create E cmd0 s =
     (let cmd = (if ci_chdir cmd0 = [] then cmd0\<lparr>ci_chdir := ''.''\<rparr> else cmd0)
      in do { (i, s) \<leftarrow> fi_create (ue_core E) (ci_buffer_size cmd) s;
              (o1, s) \<leftarrow> fi_create (ue_core E) (ci_buffer_size cmd) s;
              Some (\<lparr>ug_st = UgIn, ug_cmd = cmd, ug_iname = [], ug_basename = [], ug_oname = None, ug_in = i, ug_out = o1,
                     ug_off = 0, ug_r = gr_zero (ue_lib E), ug_data = [], ug_zdata = [], ug_mtime = (0, 0),
                     ug_opened = False, ug_next_begin = False, ug_out_opened = False, ug_del = False,
                     ug_in_total = 0, ug_out_total = 0\<rparr>, s) })"

definition ungz_close :: "('s, 'i, 'r) ungzenv \<Rightarrow> ('k, 'r) ungz \<Rightarrow> ('s, unit) act" where
  "ungz_close E z s =
     do { (_, s) \<leftarrow> fi_destroy (ue_core E) (ug_in z) s;
          (_, s) \<leftarrow> (if ug_del z then fi_del (ue_core E) (the (ug_oname z)) s else Some (True, s));
          fi_destroy (ue_core E) (ug_out z) s }"

type_synonym ('s, 'k, 'r) ungz_turn = "('k, 'r) ungz \<Rightarrow> ('s, ('k, 'r) ungz + ('k, 'r) ungz \<times> int) act"

text \<open>\<open>gzread\<close>: a seek of the decoder moves the input offset and asks for more.\<close>

definition gzread :: "'r gzrlib \<Rightarrow> ('k, 'r) ungz \<Rightarrow> gzr_res \<times> ('k, 'r) ungz" where
  "gzread G z =
     (let (ok, st0) = (if ug_opened z then (True, ug_r z) else gr_open G (ug_r z));
          z = z\<lparr>ug_opened := True, ug_r := st0\<rparr>
      in if \<not> ok then (GrError, z)
         else
           (case gr_process G (ug_r z) (ug_zdata z) of
              ((r, rest, out), st) \<Rightarrow>
                (let z = z\<lparr>ug_r := st, ug_zdata := rest, ug_data := out,
                           ug_in_total := ug_in_total z + (length (ug_zdata z) - length rest)\<rparr>
                 in case r of
                      GrData \<Rightarrow> (GrData, z\<lparr>ug_out_total := ug_out_total z + length out\<rparr>)
                    | GrDone \<Rightarrow> (GrDone, z\<lparr>ug_r := gr_close G (ug_r z), ug_opened := False\<rparr>)
                    | GrSeek \<Rightarrow> (GrMore, z\<lparr>ug_off := gr_offset G (ug_r z)\<rparr>)
                    | _ \<Rightarrow> (r, z))))"

definition ungz_write :: "('s, 'i, 'r) ungzenv \<Rightarrow> ('s, 'k, 'r) ungz_turn" where
  "ungz_write E z s =
     do { (r, s) \<leftarrow> fi_write (ue_core E) (ug_out z) (ug_data z) None s;
          if r = FErr then Some (Inr (z, 1), s)
          else if r = FAsync then Some (Inr (z, GZ_ASYNC), s)
          else Some (Inl (z\<lparr>ug_st := UgDecomp\<rparr>), s) }"

definition ungz_out_open :: "('s, 'i, 'r) ungzenv \<Rightarrow> ('s, 'k, 'r) ungz_turn" where
  "ungz_out_open E z s =
     do { (r, s) \<leftarrow> fi_open (ue_core E) (ug_out z) (the (ug_oname z)) (FCOM_FILE_WRITE OR fcom_file_cominfo_flags_o (ug_cmd z)) s;
          if r = FErr then Some (Inr (z, 1), s)
          else Some (Inl (z\<lparr>ug_del := (\<not> ci_stdout (ug_cmd z) \<and> \<not> ci_test (ug_cmd z)), ug_st := UgDecomp\<rparr>), s) }"

definition ungz_decomp :: "('s, 'i, 'r) ungzenv \<Rightarrow> ('s, 'k, 'r) ungz_turn" where
  "ungz_decomp E z0 s =
     (case gzread (ue_lib E) z0 of
        (GrWarning, z) \<Rightarrow> Some (Inl z, s)
      | (GrInfo, z) \<Rightarrow>
          (let i = gr_info (ue_lib E) (ug_r z);
               z = z\<lparr>ug_mtime := (gi_mtime i + ue_1970 E, snd (ug_mtime z))\<rparr>
           in if ug_out_opened z then Some (Inl z, s)
              else
                (let z = z\<lparr>ug_out_opened := True\<rparr>;
                     z = (if ci_stdout (ug_cmd z) then z
                          else z\<lparr>ug_oname := Some (ungz_out_name (ue_path E) (ug_cmd z) (gi_name i) (ug_iname z))\<rparr>)
                 in Some (Inl (z\<lparr>ug_st := UgOutOpen\<rparr>), s)))
      | (GrDone, z) \<Rightarrow> Some (Inl (z\<lparr>ug_next_begin := True, ug_del := False\<rparr>), s)
      | (GrMore, z) \<Rightarrow> Some (Inl (z\<lparr>ug_st := UgRead\<rparr>), s)
      | (GrData, z) \<Rightarrow> Some (Inl (z\<lparr>ug_st := UgWrite\<rparr>), s)
      | (_, z) \<Rightarrow> Some (Inr (z, 1), s))"

definition ungz_read :: "('s, 'i, 'r) ungzenv \<Rightarrow> ('s, 'k, 'r) ungz_turn" where
  "ungz_read E z s =
     do { ((r, d), s) \<leftarrow> fi_read (ue_core E) (ug_in z) (Some (ug_off z)) s;
          if r = FErr then Some (Inr (z, 1), s)
          else if r = FAsync then Some (Inr (z, GZ_ASYNC), s)
          else if r = FEof then
            do { (r, s) \<leftarrow> fi_flush (ue_core E) (ug_out z) s;
                 if r = FAsync then Some (Inr (z\<lparr>ug_zdata := d\<rparr>, GZ_ASYNC), s)
                 else if \<not> ug_next_begin z then Some (Inr (z\<lparr>ug_zdata := d\<rparr>, 1), s)
                 else Some (Inl (z\<lparr>ug_zdata := d, ug_st := UgIn\<rparr>), s) }
          else ungz_decomp E (z\<lparr>ug_zdata := d, ug_off := ug_off z + length d, ug_next_begin := False, ug_st := UgDecomp\<rparr>) s }"

definition ungz_in_open :: "('s, 'i, 'r) ungzenv \<Rightarrow> ('s, 'k, 'r) ungz_turn" where
  "ungz_in_open E z s =
     do { (r, s) \<leftarrow> fi_open (ue_core E) (ug_in z) (ug_iname z) (fcom_file_cominfo_flags_i (ug_cmd z) OR FCOM_FILE_READ) s;
          if r = FErr then Some (Inr (z, 1), s)
          else ungz_read E (z\<lparr>ug_st := UgRead\<rparr>) s }"

definition ungz_in_next :: "('s, 'i, 'r) ungzenv \<Rightarrow> ('s, 'k, 'r) ungz_turn" where
  "ungz_in_next E z s =
     do { (r, s) \<leftarrow> com_input_next (ue_core E) 0 s;
          case r of
            RNomore \<Rightarrow> do { (_, s) \<leftarrow> fi_mtime_set (ue_core E) (ug_out z) (ug_mtime z) s; Some (Inr (z, 0), s) }
          | RErr \<Rightarrow> Some (Inr (z, 1), s)
          | ROk n b \<Rightarrow> ungz_in_open E (z\<lparr>ug_iname := n, ug_basename := b, ug_st := UgInOpen\<rparr>) s }"

definition ungz_turn :: "('s, 'i, 'r) ungzenv \<Rightarrow> ('s, 'k, 'r) ungz_turn" where
  "ungz_turn E z s =
     (case ug_st z of
        UgIn \<Rightarrow> ungz_in_next E z s | UgInOpen \<Rightarrow> ungz_in_open E z s | UgOutOpen \<Rightarrow> ungz_out_open E z s
      | UgRead \<Rightarrow> ungz_read E z s | UgDecomp \<Rightarrow> ungz_decomp E z s | UgWrite \<Rightarrow> ungz_write E z s)"

definition ungz_run :: "('s, 'i, 'r) ungzenv \<Rightarrow> ('k, 'r) ungz \<Rightarrow> ('s, int option \<times> ('k, 'r) ungz) act" where
  "ungz_run E z s =
     do { ((z, rc), s) \<leftarrow> op_loop (stop_flag (ue_core E)) (ungz_turn E) z s;
          if rc = GZ_ASYNC then Some ((None, z), s)
          else do { (_, s) \<leftarrow> ungz_close E z s; Some ((Some rc, z), s) } }"

end
