(* ===== verification/GzProps.thy ===== *)
theory GzProps
  imports Ungz Pipe CopyProps
begin

text \<open>
  What \<open>gz\<close> and \<open>ungz\<close> do, over the contract of \<^theory_text>\<open>Pipe\<close> and the documented behaviour of ffpack's
  streaming encoder and decoder.
\<close>

section \<open>The encoder's contract\<close>

text \<open>
  \<open>at st = Some (c, x, y, e)\<close>: set up with \<open>c\<close>, the encoder has taken in \<open>x\<close> and given out \<open>y\<close>; \<open>e\<close> is set once the
  end of the input was announced. It asks for more only after taking in everything, and \<open>left\<close> bounds the pieces it can still
  deliver before that. \<open>enc c x y\<close>: the complete output \<open>y\<close> is an archive of \<open>x\<close>.
\<close>

definition gzw_fed ::
  "'z gzwlib \<Rightarrow> ('z \<Rightarrow> (gzconf \<times> bytes \<times> bytes \<times> bool) option) \<Rightarrow> ('z \<Rightarrow> bytes \<Rightarrow> nat) \<Rightarrow> 'z \<Rightarrow> bool" where
  "gzw_fed G at left st \<longleftrightarrow>
     (\<forall>c x y d. at st = Some (c, x, y, False) \<longrightarrow>
        at (gw_finish G st) = Some (c, x, y, True) \<and>
        (case gw_process G st d of
           ((GwMore, rest, out), st') \<Rightarrow> at st' = Some (c, x @ d, y, False)
         | ((GwData, rest, out), st') \<Rightarrow> (\<exists>k. rest = drop k d \<and> at st' = Some (c, x @ take k d, y @ out, False)) \<and>
             left st' rest < left st d
         | _ \<Rightarrow> False))"

definition gzw_ends ::
  "'z gzwlib \<Rightarrow> (gzconf \<Rightarrow> bytes \<Rightarrow> bytes \<Rightarrow> bool) \<Rightarrow> ('z \<Rightarrow> (gzconf \<times> bytes \<times> bytes \<times> bool) option) \<Rightarrow> ('z \<Rightarrow> bytes \<Rightarrow> nat) \<Rightarrow>
   'z \<Rightarrow> bool" where
  "gzw_ends G enc at left st \<longleftrightarrow>
     (\<forall>c x y. at st = Some (c, x, y, True) \<longrightarrow>
        (case gw_process G st [] of
           ((GwDone, rest, out), st') \<Rightarrow> enc c x y
         | ((GwData, rest, out), st') \<Rightarrow> rest = [] \<and> at st' = Some (c, x, y @ out, True) \<and> left st' [] < left st []
         | _ \<Rightarrow> False))"

definition gzw_ok ::
  "'z gzwlib \<Rightarrow> (gzconf \<Rightarrow> bytes \<Rightarrow> bytes \<Rightarrow> bool) \<Rightarrow> ('z \<Rightarrow> (gzconf \<times> bytes \<times> bytes \<times> bool) option) \<Rightarrow> ('z \<Rightarrow> bytes \<Rightarrow> nat) \<Rightarrow>
   32 word \<Rightarrow> bool" where
  "gzw_ok G enc at left lv \<longleftrightarrow>
     (\<forall>c st. gc_level c = lv \<longrightarrow> fst (gw_init G c st) \<and> at (snd (gw_init G c st)) = Some (c, [], [], False)) \<and>
     (\<forall>st. gzw_fed G at left st \<and> gzw_ends G enc at left st)"

section \<open>One input file\<close>

text \<open>What the steps on one file leave alone.\<close>

definition gz_frame :: "('k, 'z) gz \<Rightarrow> 'k cominfo \<times> nat \<times> nat \<times> 32 word" where
  "gz_frame z = (gz_cmd z, gz_in z, gz_out z, gz_level z)"

text \<open>The inputs \<open>ns\<close> exist, their output names are new and none is an input.\<close>

definition pack_fresh :: "bool \<Rightarrow> (bytes \<rightharpoonup> bytes) \<Rightarrow> (bytes \<Rightarrow> bool) \<Rightarrow> (bytes \<Rightarrow> bytes) \<Rightarrow> bytes list \<Rightarrow> bool" where
  "pack_fresh ow F ok tgt ns \<longleftrightarrow>
     distinct (map tgt ns) \<and> (\<forall>m \<in> set ns. \<forall>n \<in> set ns. tgt m \<noteq> n) \<and>
     (\<forall>n \<in> set ns. F n \<noteq> None \<and> ok (tgt n) \<and> (F (tgt n) = None \<or> ow))"

lemma pack_fresh_step: "pack_fresh ow F ok tgt (n # ns) \<Longrightarrow> pack_fresh ow (F(tgt n \<mapsto> y)) ok tgt ns"
  by (auto simp: pack_fresh_def image_iff)

context pipe_store begin

definition gz_loop where
  "gz_loop E = op_loop (stop_flag C) (gz_turn E)"

text \<open>The encoder's output is written out until it asks for more.\<close>

lemma gz_drain_fed:
  assumes ok: "gzw_ok (ge_lib E) enc at left lv" and E: "ge_core E = C"
    and "stands s = Some (A, p)" and "st_dst A = Some (t, y)" and "gz_st z = GzComp" and "gz_frame z = (cmd, i1, o1, lv)"
    and "at (gz_z z) = Some (c, x, y, False)"
  shows "\<exists>z' s' y'. gz_loop E z s = gz_loop E z' s' \<and> gz_st z' = GzRead \<and> gz_frame z' = (cmd, i1, o1, lv) \<and>
    at (gz_z z') = Some (c, x @ gz_data z, y', False) \<and> stands s' = Some (A\<lparr>st_dst := Some (t, y')\<rparr>, p)"
  using assms(3-)
proof (induction "left (gz_z z) (gz_data z)" arbitrary: z s A x y rule: less_induct)
  case less
  have fed: "gzw_fed (ge_lib E) at left (gz_z z)" using ok by (simp add: gzw_ok_def)
  obtain r rest out st' where g: "gw_process (ge_lib E) (gz_z z) (gz_data z) = ((r, rest, out), st')" by (metis prod_cases3 prod.exhaust)
  note run = pp_runs [OF less(2)]
  define z1 where "z1 = snd (gzcomp (ge_lib E) z)"
  have z1: "gzcomp (ge_lib E) z = (r, z1)" "gz_z z1 = st'" "gz_data z1 = rest" "gz_zdata z1 = out" "gz_frame z1 = (cmd, i1, o1, lv)"
    using g less(5) by (simp_all add: z1_def gzcomp_def Let_def gz_frame_def)
  consider "r = GwMore" "at st' = Some (c, x @ gz_data z, y, False)"
    | k where "r = GwData" "rest = drop k (gz_data z)" "at st' = Some (c, x @ take k (gz_data z), y @ out, False)"
        "left st' rest < left (gz_z z) (gz_data z)"
    using fed less(6) g unfolding gzw_fed_def by (cases r) (auto dest!: spec [of _ "gz_data z"])
  then show ?case
  proof cases
    case 1
    have "gz_turn E z s = Some (Inl (z1\<lparr>gz_st := GzRead\<rparr>), s)" using less(4) z1(1) 1(1) by (simp add: gz_turn_def gz_comp_def)
    then have "gz_loop E z s = gz_loop E (z1\<lparr>gz_st := GzRead\<rparr>) s"
      unfolding gz_loop_def by (rule op_loop_next [of "stop_flag C", OF run])
    moreover have "A\<lparr>st_dst := Some (t, y)\<rparr> = A" using less(3) by simp
    ultimately show ?thesis using 1(2) z1 less(2)
      by (intro exI [of _ "z1\<lparr>gz_st := GzRead\<rparr>"] exI [of _ s] exI [of _ y]) (simp add: gz_frame_def)
  next
    case 2
    obtain s1 where w: "fi_write C o1 out None s = Some (FOk, s1)" "stands s1 = Some (A\<lparr>st_dst := Some (t, y @ out)\<rparr>, p)"
      using pp_write [OF less(2,3), of out] by (auto elim: givesE)
    define z2 where "z2 = z1\<lparr>gz_st := GzComp\<rparr>"
    have "gz_turn E z s = Some (Inl z2, s1)"
      using less(4) z1 2(1) w(1) E by (simp add: gz_turn_def gz_comp_def gz_write_def z2_def gz_frame_def)
    then have l: "gz_loop E z s = gz_loop E z2 s1"
      unfolding gz_loop_def by (rule op_loop_next [of "stop_flag C", OF run])
    have "\<exists>z' s' y'. gz_loop E z2 s1 = gz_loop E z' s' \<and> gz_st z' = GzRead \<and> gz_frame z' = (cmd, i1, o1, lv) \<and>
        at (gz_z z') = Some (c, (x @ take k (gz_data z)) @ gz_data z2, y', False) \<and>
        stands s' = Some ((A\<lparr>st_dst := Some (t, y @ out)\<rparr>)\<lparr>st_dst := Some (t, y')\<rparr>, p)"
      by (rule less(1) [OF _ w(2)]) (use 2 z1 in \<open>simp_all add: z2_def gz_frame_def\<close>)
    with l 2(2) z1 show ?thesis by (simp add: z2_def)
  qed
qed


text \<open>After the end of the input was announced, it is written out until the archive is complete.\<close>

lemma gz_drain_end:
  assumes ok: "gzw_ok (ge_lib E) enc at left lv" and E: "ge_core E = C"
    and "stands s = Some (A, p)" and "st_dst A = Some (t, y)" and "gz_st z = GzComp" and "gz_frame z = (cmd, i1, o1, lv)"
    and "at (gz_z z) = Some (c, x, y, True)" and "gz_data z = []"
  shows "\<exists>z' s' y'. gz_loop E z s = gz_loop E z' s' \<and> gz_st z' = GzIn \<and> \<not> gz_del z' \<and> gz_frame z' = (cmd, i1, o1, lv) \<and>
    enc c x y' \<and> stands s' = Some (A\<lparr>st_dst := Some (t, y')\<rparr>, p)"
  using assms(3-)
proof (induction "left (gz_z z) []" arbitrary: z s A y rule: less_induct)
  case less
  have ends: "gzw_ends (ge_lib E) enc at left (gz_z z)" using ok by (simp add: gzw_ok_def)
  obtain r rest out st' where g: "gw_process (ge_lib E) (gz_z z) [] = ((r, rest, out), st')" by (metis prod_cases3 prod.exhaust)
  note run = pp_runs [OF less(2)]
  define z1 where "z1 = snd (gzcomp (ge_lib E) z)"
  have z1: "gzcomp (ge_lib E) z = (r, z1)" "gz_z z1 = st'" "gz_data z1 = rest" "gz_zdata z1 = out" "gz_frame z1 = (cmd, i1, o1, lv)"
    using g less(5,7) by (simp_all add: z1_def gzcomp_def Let_def gz_frame_def)
  consider "r = GwDone" "enc c x y"
    | "r = GwData" "rest = []" "at st' = Some (c, x, y @ out, True)" "left st' [] < left (gz_z z) []"
    using ends less(6) g unfolding gzw_ends_def by (cases r) auto
  then show ?case
  proof cases
    case 1
    define z2 where "z2 = z1\<lparr>gz_del := False, gz_st := GzIn\<rparr>"
    have "gz_turn E z s = Some (Inl z2, s)" using less(4) z1(1) 1(1) by (simp add: gz_turn_def gz_comp_def z2_def)
    then have "gz_loop E z s = gz_loop E z2 s"
      unfolding gz_loop_def by (rule op_loop_next [of "stop_flag C", OF run])
    moreover have "A\<lparr>st_dst := Some (t, y)\<rparr> = A" using less(3) by simp
    ultimately show ?thesis using 1(2) z1 less(2)
      by (intro exI [of _ z2] exI [of _ s] exI [of _ y]) (simp add: gz_frame_def z2_def)
  next
    case 2
    obtain s1 where w: "fi_write C o1 out None s = Some (FOk, s1)" "stands s1 = Some (A\<lparr>st_dst := Some (t, y @ out)\<rparr>, p)"
      using pp_write [OF less(2,3), of out] by (auto elim: givesE)
    define z2 where "z2 = z1\<lparr>gz_st := GzComp\<rparr>"
    have "gz_turn E z s = Some (Inl z2, s1)"
      using less(4) z1 2(1) w(1) E by (simp add: gz_turn_def gz_comp_def gz_write_def z2_def gz_frame_def)
    then have l: "gz_loop E z s = gz_loop E z2 s1"
      unfolding gz_loop_def by (rule op_loop_next [of "stop_flag C", OF run])
    have "\<exists>z' s' y'. gz_loop E z2 s1 = gz_loop E z' s' \<and> gz_st z' = GzIn \<and> \<not> gz_del z' \<and> gz_frame z' = (cmd, i1, o1, lv) \<and>
        enc c x y' \<and> stands s' = Some ((A\<lparr>st_dst := Some (t, y @ out)\<rparr>)\<lparr>st_dst := Some (t, y')\<rparr>, p)"
      by (rule less(1) [OF _ w(2)]) (use 2 z1 in \<open>simp_all add: z2_def gz_frame_def\<close>)
    with l show ?thesis by simp
  qed
qed

text \<open>From some way into the input to its end.\<close>

lemma gz_reads:
  assumes ok: "gzw_ok (ge_lib E) enc at left lv" and E: "ge_core E = C"
    and "stands s = Some (A, p)" and "st_src A = Some (n, d)" and "st_dst A = Some (t, y)" and "gz_st z = GzRead"
    and "gz_frame z = (cmd, i1, o1, lv)" and "at (gz_z z) = Some (c, take p d, y, False)"
  shows "\<exists>z' s' y' q. gz_loop E z s = gz_loop E z' s' \<and> gz_st z' = GzIn \<and> \<not> gz_del z' \<and> gz_frame z' = (cmd, i1, o1, lv) \<and>
    enc c d y' \<and> stands s' = Some (A\<lparr>st_dst := Some (t, y')\<rparr>, q)"
  using assms(3-)
proof (induction "length d - p" arbitrary: z s A y p rule: less_induct)
  case less
  note run = pp_runs [OF less(2)]
  have p: "p \<le> length d" by (rule pp_range [OF less(2,3)])
  obtain x s1 where r: "fi_read C i1 None s = Some ((if p = length d then FEof else FOk, x), s1)" "stands s1 = Some (A, p + length x)"
    "x = take (length x) (drop p d)" "p < length d \<longrightarrow> x \<noteq> []"
    using pp_read [OF less(2,3)] by (auto elim!: givesE)
  define z1 where "z1 = z\<lparr>gz_data := x, gz_z := (if p = length d then gw_finish (ge_lib E) (gz_z z) else gz_z z), gz_st := GzComp\<rparr>"
  have "gz_turn E z s = gz_turn E z1 s1"
    using less(5,6) r(1) E by (auto simp: gz_turn_def gz_read_def z1_def gz_frame_def Let_def)
  then have l: "gz_loop E z s = gz_loop E z1 s1"
    unfolding gz_loop_def by (rule op_loop_same_turn [of "stop_flag C", OF run pp_runs [OF r(2)]])
  have z1: "gz_st z1 = GzComp" "gz_frame z1 = (cmd, i1, o1, lv)" "gz_data z1 = x" using less(6) by (simp_all add: z1_def gz_frame_def)
  show ?case
  proof (cases "p = length d")
    case True
    then have x: "x = []" using r(3) by simp
    have "gzw_fed (ge_lib E) at left (gz_z z)" using ok by (simp add: gzw_ok_def)
    then have "at (gz_z z1) = Some (c, d, y, True)" using less(7) True by (simp add: gzw_fed_def z1_def)
    then show ?thesis
      using gz_drain_end [OF ok E r(2) less(4) z1(1,2), of c d] x z1(3) l by auto
  next
    case False
    with p have lt: "p < length d" by simp
    have "at (gz_z z1) = Some (c, take p d, y, False)" using less(7) False by (simp add: z1_def)
    from gz_drain_fed [OF ok E r(2) less(4) z1(1,2) this] obtain z2 s2 y2 where 2: "gz_loop E z1 s1 = gz_loop E z2 s2"
      "gz_st z2 = GzRead" "gz_frame z2 = (cmd, i1, o1, lv)" "at (gz_z z2) = Some (c, take p d @ x, y2, False)"
      "stands s2 = Some (A\<lparr>st_dst := Some (t, y2)\<rparr>, p + length x)" using z1(3) by auto
    have "take p d @ x = take (p + length x) d" using r(3) by (metis take_add)
    then have "\<exists>z' s' y' q. gz_loop E z2 s2 = gz_loop E z' s' \<and> gz_st z' = GzIn \<and> \<not> gz_del z' \<and> gz_frame z' = (cmd, i1, o1, lv) \<and>
        enc c d y' \<and> stands s' = Some ((A\<lparr>st_dst := Some (t, y2)\<rparr>)\<lparr>st_dst := Some (t, y')\<rparr>, q)"
      using 2 r(4) lt less(3) by (intro less(1) [OF _ 2(5)]) (auto intro!: diff_less_mono2)
    then show ?thesis using l 2(1) by simp
  qed
qed


text \<open>One input file, from its name to the finished archive.\<close>

lemma gz_file:
  assumes ok: "gzw_ok (ge_lib E) enc at left lv" and E: "ge_core E = C" and plain: "cmd_plain cmd"
    and A: "stands s = Some (A, p)" and nm: "st_names A = n # ns" and d: "st_files A n = Some d"
    and t: "\<And>b. gz_out_name (ge_path E) cmd n b = t" and tn: "t \<noteq> n" "new t" "st_files (settled A) t = None \<or> ci_overwrite cmd"
    and st: "gz_st z = GzIn" "gz_frame z = (cmd, i1, o1, lv)"
  shows "\<exists>z' s' y q c. gz_loop E z s = gz_loop E z' s' \<and> gz_st z' = GzIn \<and> \<not> gz_del z' \<and> gz_frame z' = (cmd, i1, o1, lv) \<and>
    enc c d y \<and> gc_name c = last_part (gp_split (ge_path E)) n \<and>
    stands s' = Some ((settled A)\<lparr>st_files := (st_files (settled A))(t := None), st_src := Some (n, d), st_dst := Some (t, y),
      st_names := ns\<rparr>, q)"
proof -
  have fl: "fcom_file_cominfo_flags_i cmd OR FCOM_FILE_READ = FCOM_FILE_READ"
    "FCOM_FILE_WRITE OR fcom_file_cominfo_flags_o cmd = new_flags (ci_overwrite cmd)"
    using plain by (simp_all add: cmd_plain_def fcom_file_cominfo_flags_i_def fcom_file_cominfo_flags_o_def new_flags_def)
  obtain b s1 where 1: "com_input_next C 0 s = Some (ROk n b, s1)" "stands s1 = Some (A\<lparr>st_names := ns\<rparr>, p)"
    using pp_next [OF A nm] by (auto elim: givesE)
  let ?A1 = "A\<lparr>st_names := ns, st_src := Some (n, d)\<rparr>"
  obtain s2 where 2: "fi_open C i1 n FCOM_FILE_READ s1 = Some (FOk, s2)" "stands s2 = Some (?A1, 0)"
    using pp_open_src [OF 1(2), of n d] d by (auto elim: givesE)
  obtain fi s3 where 3: "fi_info C i1 s2 = Some ((FOk, Some fi), s3)" "stands s3 = Some (?A1, 0)"
    using pp_info_src [OF 2(2), of n d] by (auto elim!: givesE)
  define c where "c = \<lparr>gc_level = lv, gc_mem = 256, gc_name = last_part (gp_split (ge_path E)) n, gc_mtime = fst (ge_mtime E fi)\<rparr>"
  obtain zs where zs: "gw_init (ge_lib E) c (gz_z z) = (True, zs)" "at zs = Some (c, [], [], False)"
    using ok unfolding gzw_ok_def by (cases "gw_init (ge_lib E) c (gz_z z)") (auto simp: c_def dest!: spec [of _ c] spec [of _ "gz_z z"])
  have se: "settled ?A1 = (settled A)\<lparr>st_names := ns, st_src := Some (n, d)\<rparr>"
    by (cases A; cases "st_dst A") (auto simp: settled_def)
  obtain s4 where 4: "fi_open C o1 t (new_flags (ci_overwrite cmd)) s3 = Some (FOk, s4)"
    "stands s4 = Some ((settled ?A1)\<lparr>st_files := (st_files (settled ?A1))(t := None), st_dst := Some (t, [])\<rparr>, 0)"
    using pp_open_dst [OF 3(2), of t "ci_overwrite cmd"] tn by (auto simp: se elim!: givesE)
  let ?A2 = "(settled ?A1)\<lparr>st_files := (st_files (settled ?A1))(t := None), st_dst := Some (t, [])\<rparr>"
  define z1 where "z1 = z\<lparr>gz_iname := n, gz_basename := b, gz_z := zs, gz_oname := Some t, gz_del := True, gz_st := GzRead\<rparr>"
  have no: "\<not> ci_stdout cmd" "\<not> ci_test cmd" using plain by (simp_all add: cmd_plain_def)
  have "gz_turn E z s = gz_turn E z1 s4"
    using st E 1(1) 2(1) 3(1) 4(1) zs(1) t no
    by (simp add: gz_turn_def gz_in_next_def gz_in_open_def gz_out_open_def z1_def gz_frame_def fl c_def Let_def)
  then have l: "gz_loop E z s = gz_loop E z1 s4"
    unfolding gz_loop_def by (rule op_loop_same_turn [of "stop_flag C", OF pp_runs [OF A] pp_runs [OF 4(2)]])
  have "\<exists>z' s' y q. gz_loop E z1 s4 = gz_loop E z' s' \<and> gz_st z' = GzIn \<and> \<not> gz_del z' \<and> gz_frame z' = (cmd, i1, o1, lv) \<and>
      enc c d y \<and> stands s' = Some (?A2\<lparr>st_dst := Some (t, y)\<rparr>, q)"
    by (rule gz_reads [OF ok E 4(2)]) (use st zs in \<open>simp_all add: z1_def gz_frame_def se\<close>)
  then obtain z' s' y q where r: "gz_loop E z1 s4 = gz_loop E z' s'" "gz_st z' = GzIn" "\<not> gz_del z'" "gz_frame z' = (cmd, i1, o1, lv)"
    "enc c d y" "stands s' = Some (?A2\<lparr>st_dst := Some (t, y)\<rparr>, q)" by blast
  have "gc_name c = last_part (gp_split (ge_path E)) n" by (simp add: c_def)
  with l r show ?thesis by (intro exI [of _ z'] exI [of _ s'] exI [of _ y] exI [of _ q] exI [of _ c]) (simp add: se)
qed


text \<open>All of them: \<open>G\<close> are the inputs, \<open>tgt\<close> the output names.\<close>

lemma gz_files:
  assumes ok: "gzw_ok (ge_lib E) enc at left lv" and E: "ge_core E = C" and plain: "cmd_plain cmd"
    and t: "\<And>n b. gz_out_name (ge_path E) cmd n b = tgt n"
    and "stands s = Some (A, p)" and "st_names A = ns" and "pack_fresh (ci_overwrite cmd) (st_files (settled A)) new tgt ns"
    and "\<forall>n \<in> set ns. st_files A n = st_files (settled A) n"
    and "gz_st z = GzIn" and "gz_frame z = (cmd, i1, o1, lv)" and "\<not> gz_del z"
  shows "\<exists>z' s' B q ys. gz_loop E z s = Some ((z', 0), s') \<and> \<not> gz_del z' \<and> gz_frame z' = (cmd, i1, o1, lv) \<and> stands s' = Some (B, q) \<and>
    st_files (settled B) = st_files (settled A) ++ map_of (zip (map tgt ns) ys) \<and>
    list_all2 (\<lambda>n y. \<exists>c. gc_name c = last_part (gp_split (ge_path E)) n \<and> enc c (the (st_files (settled A) n)) y) ns ys"
  using assms(5-)
proof (induction ns arbitrary: z s A p)
  case Nil
  obtain s1 where "com_input_next C 0 s = Some (RNomore, s1)" "stands s1 = Some (A, p)"
    using pp_last [OF Nil(1,2)] by (auto elim: givesE)
  moreover have "gz_loop E z s = Some ((z, 0), s1)"
    unfolding gz_loop_def
    by (rule op_loop_exit [of "stop_flag C", OF pp_runs [OF Nil(1)]]) (use calculation Nil(5) E in \<open>simp add: gz_turn_def gz_in_next_def\<close>)
  ultimately show ?case using Nil by (intro exI [of _ z] exI [of _ s1] exI [of _ A] exI [of _ p] exI [of _ "[]"]) simp
next
  case (Cons n ns)
  let ?F = "st_files (settled A)"
  have fr: "pack_fresh (ci_overwrite cmd) ?F new tgt (n # ns)" by (rule Cons(4))
  then obtain d where d: "?F n = Some d" "st_files A n = Some d" using Cons(5) by (auto simp: pack_fresh_def)
  have tn: "tgt n \<noteq> n" "new (tgt n)" "?F (tgt n) = None \<or> ci_overwrite cmd" using fr by (auto simp: pack_fresh_def)
  from gz_file [OF ok E plain Cons(2,3) d(2) t tn Cons(6,7)] obtain z1 s1 y q c where 1: "gz_loop E z s = gz_loop E z1 s1"
    "gz_st z1 = GzIn" "\<not> gz_del z1" "gz_frame z1 = (cmd, i1, o1, lv)" "enc c d y" "gc_name c = last_part (gp_split (ge_path E)) n"
    "stands s1 = Some ((settled A)\<lparr>st_files := ?F(tgt n := None), st_src := Some (n, d), st_dst := Some (tgt n, y), st_names := ns\<rparr>, q)"
    by blast
  let ?A1 = "(settled A)\<lparr>st_files := ?F(tgt n := None), st_src := Some (n, d), st_dst := Some (tgt n, y), st_names := ns\<rparr>"
  have F1: "st_files (settled ?A1) = ?F(tgt n \<mapsto> y)" by simp
  note fr1 = pack_fresh_step [OF fr, of y]
  have eq: "st_files ?A1 m = st_files (settled ?A1) m" "st_files (settled ?A1) m = ?F m" if "m \<in> set ns" for m
    using fr that by (auto simp: pack_fresh_def)
  have "\<exists>z' s' B q ys. gz_loop E z1 s1 = Some ((z', 0), s') \<and> \<not> gz_del z' \<and> gz_frame z' = (cmd, i1, o1, lv) \<and> stands s' = Some (B, q) \<and>
      st_files (settled B) = st_files (settled ?A1) ++ map_of (zip (map tgt ns) ys) \<and>
      list_all2 (\<lambda>n y. \<exists>c. gc_name c = last_part (gp_split (ge_path E)) n \<and> enc c (the (st_files (settled ?A1) n)) y) ns ys"
    by (rule Cons(1) [OF 1(7)]) (use fr1 1 eq in \<open>simp_all del: fun_upd_apply\<close>)
  then obtain z' s' B q ys where r: "gz_loop E z1 s1 = Some ((z', 0), s')" "\<not> gz_del z'" "gz_frame z' = (cmd, i1, o1, lv)"
    "stands s' = Some (B, q)" "st_files (settled B) = ?F(tgt n \<mapsto> y) ++ map_of (zip (map tgt ns) ys)"
    "list_all2 (\<lambda>n y. \<exists>c. gc_name c = last_part (gp_split (ge_path E)) n \<and> enc c (the (st_files (settled ?A1) n)) y) ns ys"
    unfolding F1 by blast
  have "list_all2 (\<lambda>n y. \<exists>c. gc_name c = last_part (gp_split (ge_path E)) n \<and> enc c (the (?F n)) y) ns ys"
    using r(6) eq(2) by (auto simp: list_all2_conv_all_nth)
  moreover have "tgt n \<notin> dom (map_of (zip (map tgt ns) ys))"
    using fr by (auto simp: pack_fresh_def dest!: map_of_SomeD set_zip_leftD)
  then have "?F(tgt n \<mapsto> y) ++ map_of (zip (map tgt ns) ys) = ?F ++ map_of (zip (map tgt (n # ns)) (y # ys))"
    by (simp add: map_add_upd_left)
  ultimately show ?case using r(1-5) 1(1,5,6) d
    by (intro exI [of _ z'] exI [of _ s'] exI [of _ B] exI [of _ q] exI [of _ "y # ys"]) (auto simp del: fun_upd_apply)
qed

lemma gz_runs:
  assumes ok: "gzw_ok (ge_lib E) enc at left (gz_level z)" and E: "ge_core E = C" and plain: "cmd_plain (gz_cmd z)"
    and t: "\<And>n b. gz_out_name (ge_path E) (gz_cmd z) n b = tgt n"
    and A: "stands s = Some (A, p)" and dst: "st_dst A = None"
    and fr: "pack_fresh (ci_overwrite (gz_cmd z)) (st_files A) new tgt (st_names A)"
    and z: "gz_st z = GzIn" "gz_in z = i1" "gz_out z = o1" "\<not> gz_del z"
  shows "\<exists>z' s' B q ys. gz_run E z s = Some ((Some 0, z'), s') \<and> stands s' = Some (B, q) \<and> st_src B = None \<and> st_dst B = None \<and>
    st_files B = st_files A ++ map_of (zip (map tgt (st_names A)) ys) \<and>
    list_all2 (\<lambda>n y. \<exists>c. gc_name c = last_part (gp_split (ge_path E)) n \<and> enc c (the (st_files A n)) y) (st_names A) ys"
proof -
  have sA: "settled A = A" using dst by simp
  have "\<exists>z' s' B q ys. gz_loop E z s = Some ((z', 0), s') \<and> \<not> gz_del z' \<and> gz_frame z' = (gz_cmd z, i1, o1, gz_level z) \<and>
      stands s' = Some (B, q) \<and> st_files (settled B) = st_files (settled A) ++ map_of (zip (map tgt (st_names A)) ys) \<and>
      list_all2 (\<lambda>n y. \<exists>c. gc_name c = last_part (gp_split (ge_path E)) n \<and> enc c (the (st_files (settled A) n)) y) (st_names A) ys"
    by (rule gz_files [OF ok E plain t A refl]) (use fr z in \<open>simp_all add: sA gz_frame_def\<close>)
  then obtain z' s1 B q ys where r: "gz_loop E z s = Some ((z', 0), s1)" "\<not> gz_del z'" "gz_frame z' = (gz_cmd z, i1, o1, gz_level z)"
    "stands s1 = Some (B, q)" "st_files (settled B) = st_files A ++ map_of (zip (map tgt (st_names A)) ys)"
    "list_all2 (\<lambda>n y. \<exists>c. gc_name c = last_part (gp_split (ge_path E)) n \<and> enc c (the (st_files A n)) y) (st_names A) ys"
    unfolding sA by blast
  obtain s2 where 2: "fi_destroy C i1 s1 = Some ((), s2)" "stands s2 = Some (B\<lparr>st_src := None\<rparr>, q)"
    using pp_destroy_src [OF r(4)] by (auto elim: givesE)
  obtain s3 where 3: "fi_destroy C o1 s2 = Some ((), s3)" "stands s3 = Some (settled (B\<lparr>st_src := None\<rparr>), q)"
    using pp_destroy_dst [OF 2(2)] by (auto elim: givesE)
  have "st_files (settled (B\<lparr>st_src := None\<rparr>)) = st_files (settled B)" by (cases B; cases "st_dst B") (auto simp: settled_def)
  moreover have "gz_run E z s = Some ((Some 0, z'), s3)"
    using r(1-3) 2(1) 3(1) E by (simp add: gz_run_def gz_loop_def gz_close_def GZ_ASYNC_def gz_frame_def)
  ultimately show ?thesis using r 3(2) by (intro exI [of _ z'] exI [of _ s3] exI [of _ "settled (B\<lparr>st_src := None\<rparr>)"] exI [of _ q] exI [of _ ys]) simp
qed

end

end
