(* ===== verification/UngzProps.thy ===== *)
theory UngzProps
  imports GzProps
begin

text \<open>What \<open>ungz\<close> does with an archive of one or more members.\<close>

section \<open>The decoder's contract\<close>

text \<open>
  \<open>at st i z d\<close>: inside of a member the decoder expects the bytes \<open>z\<close> and has still to deliver \<open>d\<close>; \<open>i\<close> is the
  member's information while it has not been reported. \<open>mem i z d\<close>: \<open>z\<close> is a member with the contents \<open>d\<close>. What follows the
  member in the input is left alone. Opened without a total size the decoder does not seek.
\<close>

definition gzr_result ::
  "'r gzrlib \<Rightarrow> ('r \<Rightarrow> gzinfo option \<Rightarrow> bytes \<Rightarrow> bytes \<Rightarrow> bool) \<Rightarrow> ('r \<Rightarrow> bytes \<Rightarrow> nat) \<Rightarrow> 'r \<Rightarrow> gzinfo option \<Rightarrow> bytes \<Rightarrow> bytes \<Rightarrow>
   bytes \<Rightarrow> bool" where
  "gzr_result G at left st i z d c \<longleftrightarrow>
     (case gr_process G st c of
        ((GrMore, rest, out), st') \<Rightarrow> length c < length z \<and> at st' i (drop (length c) z) d
      | ((GrInfo, rest, out), st') \<Rightarrow>
          (\<exists>k. k \<le> length z \<and> rest = drop k c \<and> k \<le> length c \<and> at st' None (drop k z) d) \<and>
          i = Some (gr_info G st') \<and> left st' rest < left st c
      | ((GrData, rest, out), st') \<Rightarrow>
          (\<exists>k d'. k \<le> length z \<and> rest = drop k c \<and> k \<le> length c \<and> d = out @ d' \<and> at st' None (drop k z) d') \<and>
          i = None \<and> left st' rest < left st c
      | ((GrDone, rest, out), st') \<Rightarrow> i = None \<and> d = [] \<and> length z \<le> length c \<and> rest = drop (length z) c
      | _ \<Rightarrow> False)"

definition gzr_step ::
  "'r gzrlib \<Rightarrow> ('r \<Rightarrow> gzinfo option \<Rightarrow> bytes \<Rightarrow> bytes \<Rightarrow> bool) \<Rightarrow> ('r \<Rightarrow> bytes \<Rightarrow> nat) \<Rightarrow> 'r \<Rightarrow> bool" where
  "gzr_step G at left st \<longleftrightarrow> (\<forall>i z d c fw. at st i z d \<and> prefix c (z @ fw) \<longrightarrow> gzr_result G at left st i z d c)"

definition gzr_ok ::
  "'r gzrlib \<Rightarrow> (gzinfo \<Rightarrow> bytes \<Rightarrow> bytes \<Rightarrow> bool) \<Rightarrow> ('r \<Rightarrow> gzinfo option \<Rightarrow> bytes \<Rightarrow> bytes \<Rightarrow> bool) \<Rightarrow> ('r \<Rightarrow> bytes \<Rightarrow> nat) \<Rightarrow> bool" where
  "gzr_ok G mem at left \<longleftrightarrow>
     (\<forall>st. gzr_step G at left st \<and> fst (gr_open G st) \<and>
        (\<forall>i z d. mem i z d \<longrightarrow> at (snd (gr_open G st)) (Some i) z d) \<and>
        (\<exists>out st'. gr_process G (snd (gr_open G st)) [] = ((GrMore, [], out), st')))"

lemma gzr_stepD:
  assumes "gzr_step G at left st" and "at st i z d" and "prefix c (z @ fw)" and g: "gr_process G st c = ((r, rest, out), st')"
  obtains (wants) "r = GrMore" "length c < length z" "at st' i (drop (length c) z) d"
    | (ended) "r = GrDone" "d = []" "length z \<le> length c" "rest = drop (length z) c"
    | (info) k where "r = GrInfo" "i = Some (gr_info G st')" "k \<le> length z" "rest = drop k c" "k \<le> length c" "at st' None (drop k z) d"
        "left st' rest < left st c"
    | (data) k d' where "r = GrData" "k \<le> length z" "rest = drop k c" "k \<le> length c" "d = out @ d'"
        "at st' None (drop k z) d'" "left st' rest < left st c"
proof -
  have "gzr_result G at left st i z d c" using assms(1-3) unfolding gzr_step_def by blast
  with g that show thesis unfolding gzr_result_def by (cases r) auto
qed

section \<open>Decoding\<close>

definition ug_frame :: "('k, 'r) ungz \<Rightarrow> 'k cominfo \<times> nat \<times> nat \<times> bytes" where
  "ug_frame z = (ug_cmd z, ug_in z, ug_out z, ug_iname z)"

text \<open>An archive: members, each with its information and contents.\<close>

definition members :: "(gzinfo \<Rightarrow> bytes \<Rightarrow> bytes \<Rightarrow> bool) \<Rightarrow> (gzinfo \<times> bytes \<times> bytes) list \<Rightarrow> bool" where
  "members mem ms \<longleftrightarrow> (\<forall>(i, z, d) \<in> set ms. mem i z d)"

definition zcat :: "(gzinfo \<times> bytes \<times> bytes) list \<Rightarrow> bytes" where
  "zcat ms = concat (map (\<lambda>m. fst (snd m)) ms)"

definition dcat :: "(gzinfo \<times> bytes \<times> bytes) list \<Rightarrow> bytes" where
  "dcat ms = concat (map (\<lambda>m. snd (snd m)) ms)"

text \<open>What an object that is to read \<open>R\<close> will deliver.\<close>

definition ug_expects ::
  "(gzinfo \<Rightarrow> bytes \<Rightarrow> bytes \<Rightarrow> bool) \<Rightarrow> ('r \<Rightarrow> gzinfo option \<Rightarrow> bytes \<Rightarrow> bytes \<Rightarrow> bool) \<Rightarrow> ('k, 'r) ungz \<Rightarrow> bytes \<Rightarrow> bytes \<Rightarrow> bool" where
  "ug_expects mem at z R D \<longleftrightarrow>
     (\<exists>i zr dr ms. ug_opened z \<and> at (ug_r z) i zr dr \<and> zr \<noteq> [] \<and> members mem ms \<and> R = zr @ zcat ms \<and> D = dr @ dcat ms) \<or>
     R = [] \<and> D = [] \<and> ug_next_begin z \<and> \<not> ug_del z"

lemma gzread_opened:
  assumes "ug_opened z" and "gr_process G (ug_r z) (ug_zdata z) = ((r, rest, out), st')" and "r \<noteq> GrSeek"
  shows "\<exists>z'. gzread G z = (r, z') \<and> ug_frame z' = ug_frame z \<and> ug_zdata z' = rest \<and> ug_data z' = out \<and> ug_off z' = ug_off z \<and>
    ug_st z' = ug_st z \<and> ug_out_opened z' = ug_out_opened z \<and> ug_del z' = ug_del z \<and> ug_next_begin z' = ug_next_begin z \<and>
    (r \<noteq> GrDone \<longrightarrow> ug_opened z' \<and> ug_r z' = st') \<and> (r = GrDone \<longrightarrow> \<not> ug_opened z') \<and> ug_oname z' = ug_oname z"
  using assms by (cases r) (simp_all add: gzread_def ug_frame_def Let_def)

lemma gzread_reopen:
  assumes "\<not> ug_opened z" and "fst (gr_open G (ug_r z))"
  shows "gzread G z = gzread G (z\<lparr>ug_opened := True, ug_r := snd (gr_open G (ug_r z))\<rparr>)"
  using assms by (cases "gr_open G (ug_r z)") (simp add: gzread_def)

context pipe_store begin

definition ug_loop where
  "ug_loop E = op_loop (stop_flag C) (ungz_turn E)"

text \<open>Inside of a member, with the output open: up to the end of the input at hand, or of the member.\<close>

lemma ungz_member:
  assumes ok: "gzr_ok (ue_lib E) mem at left" and E: "ue_core E = C"
    and "stands s = Some (A, p)" and "st_dst A = Some (t, y)" and "ug_st z = UgDecomp" and "ug_frame z = (cmd, i1, o1, n)"
    and "ug_out_opened z" and "ug_opened z" and "at (ug_r z) i zr dr" and "prefix (ug_zdata z) (zr @ fw)"
  shows "\<exists>z' s' d1 d2 i'. ug_loop E z s = ug_loop E z' s' \<and> stands s' = Some (A\<lparr>st_dst := Some (t, y @ d1)\<rparr>, p) \<and> dr = d1 @ d2 \<and>
    ug_frame z' = (cmd, i1, o1, n) \<and> ug_out_opened z' \<and> ug_off z' = ug_off z \<and>
    (ug_st z' = UgRead \<and> ug_opened z' \<and> at (ug_r z') i' (drop (length (ug_zdata z)) zr) d2 \<and> length (ug_zdata z) < length zr \<or>
     ug_st z' = UgDecomp \<and> \<not> ug_opened z' \<and> d2 = [] \<and> length zr \<le> length (ug_zdata z) \<and>
       ug_zdata z' = drop (length zr) (ug_zdata z) \<and> ug_next_begin z' \<and> \<not> ug_del z')"
  using assms(3-)
proof (induction "left (ug_r z) (ug_zdata z)" arbitrary: z s A y i zr dr rule: less_induct)
  case less
  note run = pp_runs [OF less(2)]
  obtain r rest out st' where g: "gr_process (ue_lib E) (ug_r z) (ug_zdata z) = ((r, rest, out), st')" by (metis prod_cases3 prod.exhaust)
  have step: "gzr_step (ue_lib E) at left (ug_r z)" using ok by (simp add: gzr_ok_def)
  note cases = gzr_stepD [OF step less(8,9) g]
  have ns: "r \<noteq> GrSeek" by (rule cases) auto
  obtain z1 where z1: "gzread (ue_lib E) z = (r, z1)" "ug_frame z1 = (cmd, i1, o1, n)" "ug_zdata z1 = rest" "ug_data z1 = out"
    "ug_off z1 = ug_off z" "ug_st z1 = UgDecomp" "ug_out_opened z1" "r \<noteq> GrDone \<longrightarrow> ug_opened z1 \<and> ug_r z1 = st'" "r = GrDone \<longrightarrow> \<not> ug_opened z1"
    using gzread_opened [OF less(7) g ns] less(4-6) by auto
  have pre: "prefix rest (drop k zr @ fw)" if "rest = drop k (ug_zdata z)" "k \<le> length zr" "k \<le> length (ug_zdata z)" for k
    using less(9) that by (auto simp: prefix_def) (metis append_eq_conv_conj drop_append diff_is_0_eq drop0)
  have next1: "ug_loop E z s = ug_loop E z2 s2" if "ungz_decomp E z s = Some (Inl z2, s2)" for z2 s2
    unfolding ug_loop_def by (rule op_loop_next [of "stop_flag C", OF run]) (use that less(4) in \<open>simp add: ungz_turn_def\<close>)
  have dst: "A\<lparr>st_dst := Some (t, y)\<rparr> = A" using less(3) by simp
  show ?case
  proof (rule cases)
    assume more: "r = GrMore" "length (ug_zdata z) < length zr" "at st' i (drop (length (ug_zdata z)) zr) dr"
    define z2 where "z2 = z1\<lparr>ug_st := UgRead\<rparr>"
    have "ug_loop E z s = ug_loop E z2 s" by (rule next1) (simp add: ungz_decomp_def z1(1) more(1) z2_def)
    then show ?thesis using more z1 less(2) dst
      by (intro exI [of _ z2] exI [of _ s] exI [of _ "[]"] exI [of _ dr] exI [of _ i]) (simp add: z2_def ug_frame_def)
  next
    assume done1: "r = GrDone" "dr = []" "length zr \<le> length (ug_zdata z)" "rest = drop (length zr) (ug_zdata z)"
    define z2 where "z2 = z1\<lparr>ug_next_begin := True, ug_del := False\<rparr>"
    have "ug_loop E z s = ug_loop E z2 s" by (rule next1) (simp add: ungz_decomp_def z1(1) done1(1) z2_def)
    then show ?thesis using done1 z1 less(2) dst
      by (intro exI [of _ z2] exI [of _ s] exI [of _ "[]"] exI [of _ "[]"] exI [of _ i]) (simp add: z2_def ug_frame_def)
  next
    fix k assume info: "r = GrInfo" "k \<le> length zr" "rest = drop k (ug_zdata z)" "k \<le> length (ug_zdata z)" "at st' None (drop k zr) dr"
        "left st' rest < left (ug_r z) (ug_zdata z)"
    define z2 where "z2 = z1\<lparr>ug_mtime := (gi_mtime (gr_info (ue_lib E) (ug_r z1)) + ue_1970 E, snd (ug_mtime z1))\<rparr>"
    have l: "ug_loop E z s = ug_loop E z2 s" by (rule next1) (simp add: ungz_decomp_def z1(1,7) info(1) z2_def Let_def)
    have le: "length (drop k (ug_zdata z)) < length (drop k zr) \<longleftrightarrow> length (ug_zdata z) < length zr"
      "length (drop k zr) \<le> length (drop k (ug_zdata z)) \<longleftrightarrow> length zr \<le> length (ug_zdata z)"
      "drop (length (drop k zr)) (drop k (ug_zdata z)) = drop (length zr) (ug_zdata z)"
      "drop (length (drop k (ug_zdata z))) (drop k zr) = drop (length (ug_zdata z)) zr"
      using info(2,4) by auto
    have "\<exists>z' s' d1 d2 i'. ug_loop E z2 s = ug_loop E z' s' \<and> stands s' = Some (A\<lparr>st_dst := Some (t, y @ d1)\<rparr>, p) \<and> dr = d1 @ d2 \<and>
        ug_frame z' = (cmd, i1, o1, n) \<and> ug_out_opened z' \<and> ug_off z' = ug_off z2 \<and>
        (ug_st z' = UgRead \<and> ug_opened z' \<and> at (ug_r z') i' (drop (length (ug_zdata z2)) (drop k zr)) d2 \<and> length (ug_zdata z2) < length (drop k zr) \<or>
         ug_st z' = UgDecomp \<and> \<not> ug_opened z' \<and> d2 = [] \<and> length (drop k zr) \<le> length (ug_zdata z2) \<and>
           ug_zdata z' = drop (length (drop k zr)) (ug_zdata z2) \<and> ug_next_begin z' \<and> \<not> ug_del z')"
      by (rule less(1) [OF _ less(2,3)]) (use info z1 pre in \<open>simp_all add: z2_def ug_frame_def\<close>)
    moreover have "ug_zdata z2 = drop k (ug_zdata z)" "ug_off z2 = ug_off z" using info z1 by (simp_all add: z2_def)
    ultimately show ?thesis unfolding l by (simp only: le)
  next
    fix k d' assume data: "r = GrData" "k \<le> length zr" "rest = drop k (ug_zdata z)" "k \<le> length (ug_zdata z)" "dr = out @ d'"
        "at st' None (drop k zr) d'" "left st' rest < left (ug_r z) (ug_zdata z)"
    obtain s1 where w: "fi_write C o1 out None s = Some (FOk, s1)" "stands s1 = Some (A\<lparr>st_dst := Some (t, y @ out)\<rparr>, p)"
      using pp_write [OF less(2,3), of out] by (auto elim: givesE)
    define z2 where "z2 = z1\<lparr>ug_st := UgDecomp\<rparr>"
    have "ug_loop E z s = ug_loop E (z1\<lparr>ug_st := UgWrite\<rparr>) s" by (rule next1) (simp add: ungz_decomp_def z1(1) data(1))
    moreover have "ug_loop E (z1\<lparr>ug_st := UgWrite\<rparr>) s = ug_loop E z2 s1"
      unfolding ug_loop_def by (rule op_loop_next [of "stop_flag C", OF run])
        (use w(1) z1 E in \<open>simp add: ungz_turn_def ungz_write_def z2_def ug_frame_def\<close>)
    ultimately have l: "ug_loop E z s = ug_loop E z2 s1" by simp
    have le: "length (drop k (ug_zdata z)) < length (drop k zr) \<longleftrightarrow> length (ug_zdata z) < length zr"
      "length (drop k zr) \<le> length (drop k (ug_zdata z)) \<longleftrightarrow> length zr \<le> length (ug_zdata z)"
      "drop (length (drop k zr)) (drop k (ug_zdata z)) = drop (length zr) (ug_zdata z)"
      "drop (length (drop k (ug_zdata z))) (drop k zr) = drop (length (ug_zdata z)) zr"
      using data(2,4) by auto
    have "\<exists>z' s' d1 d2 i'. ug_loop E z2 s1 = ug_loop E z' s' \<and>
        stands s' = Some ((A\<lparr>st_dst := Some (t, y @ out)\<rparr>)\<lparr>st_dst := Some (t, (y @ out) @ d1)\<rparr>, p) \<and> d' = d1 @ d2 \<and>
        ug_frame z' = (cmd, i1, o1, n) \<and> ug_out_opened z' \<and> ug_off z' = ug_off z2 \<and>
        (ug_st z' = UgRead \<and> ug_opened z' \<and> at (ug_r z') i' (drop (length (ug_zdata z2)) (drop k zr)) d2 \<and> length (ug_zdata z2) < length (drop k zr) \<or>
         ug_st z' = UgDecomp \<and> \<not> ug_opened z' \<and> d2 = [] \<and> length (drop k zr) \<le> length (ug_zdata z2) \<and>
           ug_zdata z' = drop (length (drop k zr)) (ug_zdata z2) \<and> ug_next_begin z' \<and> \<not> ug_del z')"
      by (rule less(1) [OF _ w(2)]) (use data z1 pre in \<open>simp_all add: z2_def ug_frame_def\<close>)
    then obtain z' s' d1 d2 i' where r: "ug_loop E z2 s1 = ug_loop E z' s'" "stands s' = Some (A\<lparr>st_dst := Some (t, y @ out @ d1)\<rparr>, p)"
      "d' = d1 @ d2" "ug_frame z' = (cmd, i1, o1, n)" "ug_out_opened z'" "ug_off z' = ug_off z2"
      "(ug_st z' = UgRead \<and> ug_opened z' \<and> at (ug_r z') i' (drop (length (ug_zdata z2)) (drop k zr)) d2 \<and> length (ug_zdata z2) < length (drop k zr) \<or>
         ug_st z' = UgDecomp \<and> \<not> ug_opened z' \<and> d2 = [] \<and> length (drop k zr) \<le> length (ug_zdata z2) \<and>
           ug_zdata z' = drop (length (drop k zr)) (ug_zdata z2) \<and> ug_next_begin z' \<and> \<not> ug_del z')" by auto
    have zd: "ug_zdata z2 = drop k (ug_zdata z)" "ug_off z2 = ug_off z" using data z1 by (simp_all add: z2_def)
    show ?thesis using r(7) unfolding l zd(1) le
      by (intro exI [of _ z'] exI [of _ s'] exI [of _ "out @ d1"] exI [of _ d2] exI [of _ i']) (use r(1-6) zd(2) data(5) in simp)
  qed
qed


text \<open>The object has decoded up to here and \<open>A\<close>'s output is at \<open>y\<close>.\<close>

definition ug_job where
  "ug_job cmd n t A p y z s \<longleftrightarrow>
     stands s = Some (A\<lparr>st_dst := Some (t, y)\<rparr>, p) \<and> ug_frame z = (cmd, i1, o1, n) \<and> ug_out_opened z"

text \<open>The input at hand is decoded and the rest \<open>R'\<close> of the archive is to be read.\<close>

definition ug_goes where
  "ug_goes E mem at cmd n t A p y z s R' D \<longleftrightarrow>
     (\<exists>z' s' D1 D2. ug_loop E z s = ug_loop E z' s' \<and> ug_job cmd n t A p (y @ D1) z' s' \<and> ug_st z' = UgRead \<and> ug_off z' = ug_off z \<and>
        D = D1 @ D2 \<and> ug_expects mem at z' R' D2)"

lemma ungz_goes_on:
  assumes "ug_loop E z s = ug_loop E z1 s1" and "ug_off z1 = ug_off z" and "ug_goes E mem at cmd n t A p (y @ D0) z1 s1 R' D"
  shows "ug_goes E mem at cmd n t A p y z s R' (D0 @ D)"
  using assms unfolding ug_goes_def by (metis append.assoc)

lemma ungz_one_member:
  assumes ok: "gzr_ok (ue_lib E) mem at left" and E: "ue_core E = C"
    and job: "ug_job cmd n t A p y z s" "ug_st z = UgDecomp" "ug_opened z" "at (ug_r z) i zr dr"
    and ms: "members mem ms" and R: "ug_zdata z @ R' = zr @ zcat ms"
    and rest: "\<And>z s y. ug_job cmd n t A p y z s \<Longrightarrow> ug_st z = UgDecomp \<Longrightarrow> \<not> ug_opened z \<Longrightarrow> ug_next_begin z \<Longrightarrow> \<not> ug_del z \<Longrightarrow>
      ug_zdata z @ R' = zcat ms \<Longrightarrow> ug_goes E mem at cmd n t A p y z s R' (dcat ms)"
  shows "ug_goes E mem at cmd n t A p y z s R' (dr @ dcat ms)"
proof -
  have j: "stands s = Some (A\<lparr>st_dst := Some (t, y)\<rparr>, p)" "ug_frame z = (cmd, i1, o1, n)" "ug_out_opened z"
    using job(1) by (simp_all add: ug_job_def)
  have "prefix (ug_zdata z) (zr @ zcat ms)" using R by (metis prefixI)
  from ungz_member [OF ok E j(1) _ job(2) j(2,3) job(3,4) this] obtain z1 s1 d1 d2 i1' where 1: "ug_loop E z s = ug_loop E z1 s1"
    "stands s1 = Some (A\<lparr>st_dst := Some (t, y @ d1)\<rparr>, p)" "dr = d1 @ d2" "ug_frame z1 = (cmd, i1, o1, n)" "ug_out_opened z1"
    "ug_off z1 = ug_off z"
    "ug_st z1 = UgRead \<and> ug_opened z1 \<and> at (ug_r z1) i1' (drop (length (ug_zdata z)) zr) d2 \<and> length (ug_zdata z) < length zr \<or>
     ug_st z1 = UgDecomp \<and> \<not> ug_opened z1 \<and> d2 = [] \<and> length zr \<le> length (ug_zdata z) \<and>
       ug_zdata z1 = drop (length zr) (ug_zdata z) \<and> ug_next_begin z1 \<and> \<not> ug_del z1" by auto
  have job1: "ug_job cmd n t A p (y @ d1) z1 s1" using 1 by (simp add: ug_job_def)
  from 1(7) have "ug_goes E mem at cmd n t A p (y @ d1) z1 s1 R' (d2 @ dcat ms)"
  proof
    assume a: "ug_st z1 = UgRead \<and> ug_opened z1 \<and> at (ug_r z1) i1' (drop (length (ug_zdata z)) zr) d2 \<and> length (ug_zdata z) < length zr"
    have "drop (length (ug_zdata z)) (ug_zdata z @ R') = drop (length (ug_zdata z)) (zr @ zcat ms)" using R by simp
    then have "R' = drop (length (ug_zdata z)) zr @ zcat ms" using a by simp
    then have "ug_expects mem at z1 R' (d2 @ dcat ms)" using a ms unfolding ug_expects_def by fastforce
    then show ?thesis using job1 a unfolding ug_goes_def by (metis append_Nil append_Nil2)
  next
    assume a: "ug_st z1 = UgDecomp \<and> \<not> ug_opened z1 \<and> d2 = [] \<and> length zr \<le> length (ug_zdata z) \<and>
       ug_zdata z1 = drop (length zr) (ug_zdata z) \<and> ug_next_begin z1 \<and> \<not> ug_del z1"
    have "drop (length zr) (ug_zdata z @ R') = drop (length zr) (zr @ zcat ms)" using R by simp
    then have "ug_zdata z1 @ R' = zcat ms" using a by simp
    then show ?thesis using rest [OF job1] a by simp
  qed
  from ungz_goes_on [OF 1(1,6) this] show ?thesis using 1(3) by simp
qed

lemma ungz_between:
  assumes ok: "gzr_ok (ue_lib E) mem at left" and E: "ue_core E = C"
    and "ug_job cmd n t A p y z s" and "ug_st z = UgDecomp" and "\<not> ug_opened z" and "ug_next_begin z" and "\<not> ug_del z"
    and "members mem ms" and "ug_zdata z @ R' = zcat ms"
  shows "ug_goes E mem at cmd n t A p y z s R' (dcat ms)"
  using assms(3-)
proof (induction ms arbitrary: z s y)
  case Nil
  have run: "\<not> stop_flag C s" using Nil(1) pp_runs by (auto simp: ug_job_def)
  have op: "fst (gr_open (ue_lib E) (ug_r z))" using ok by (simp add: gzr_ok_def)
  let ?z = "z\<lparr>ug_opened := True, ug_r := snd (gr_open (ue_lib E) (ug_r z))\<rparr>"
  obtain out st' where g: "gr_process (ue_lib E) (snd (gr_open (ue_lib E) (ug_r z))) [] = ((GrMore, [], out), st')"
    using ok unfolding gzr_ok_def by blast
  have e: "ug_zdata z = []" "R' = []" using Nil(7) by (auto simp: zcat_def)
  obtain z1 where z1: "gzread (ue_lib E) z = (GrMore, z1)" "ug_frame z1 = ug_frame z" "ug_off z1 = ug_off z"
    "ug_out_opened z1 = ug_out_opened z" "ug_del z1 = ug_del z" "ug_next_begin z1 = ug_next_begin z"
    using gzread_opened [of ?z "ue_lib E" GrMore "[]" out st'] g e(1) gzread_reopen [OF Nil(3) op] by (auto simp: ug_frame_def)
  have "ug_loop E z s = ug_loop E (z1\<lparr>ug_st := UgRead\<rparr>) s"
    unfolding ug_loop_def by (rule op_loop_next [of "stop_flag C", OF run]) (use Nil(2) z1(1) in \<open>simp add: ungz_turn_def ungz_decomp_def\<close>)
  moreover have "ug_job cmd n t A p y (z1\<lparr>ug_st := UgRead\<rparr>) s" using Nil(1) z1 by (simp add: ug_job_def ug_frame_def)
  moreover have "ug_expects mem at (z1\<lparr>ug_st := UgRead\<rparr>) R' []" using e(2) Nil(4,5) z1 by (simp add: ug_expects_def)
  ultimately show ?case using z1(3) unfolding ug_goes_def
    by (intro exI [of _ "z1\<lparr>ug_st := UgRead\<rparr>"] exI [of _ s] exI [of _ "[]"]) (simp add: dcat_def)
next
  case (Cons m ms)
  obtain i zm dm where m: "m = (i, zm, dm)" by (cases m)
  have run: "\<not> stop_flag C s" using Cons(2) pp_runs by (auto simp: ug_job_def)
  have op: "fst (gr_open (ue_lib E) (ug_r z))" "at (snd (gr_open (ue_lib E) (ug_r z))) (Some i) zm dm"
    using ok Cons(7) m by (simp_all add: gzr_ok_def members_def)
  define z1 where "z1 = z\<lparr>ug_opened := True, ug_r := snd (gr_open (ue_lib E) (ug_r z))\<rparr>"
  have "ungz_turn E z s = ungz_turn E z1 s"
    using Cons(3) gzread_reopen [OF Cons(4) op(1)] by (simp add: ungz_turn_def ungz_decomp_def z1_def)
  then have l: "ug_loop E z s = ug_loop E z1 s"
    unfolding ug_loop_def by (rule op_loop_same_turn [of "stop_flag C", OF run run])
  have "ug_goes E mem at cmd n t A p y z1 s R' (dm @ dcat ms)"
  proof (rule ungz_one_member [OF ok E])
    show "members mem ms" using Cons(7) by (simp add: members_def)
    show "ug_zdata z1 @ R' = zm @ zcat ms" using Cons(8) m by (simp add: z1_def zcat_def)
    show "ug_goes E mem at cmd n t A p y z s R' (dcat ms)" if "ug_job cmd n t A p y z s" "ug_st z = UgDecomp" "\<not> ug_opened z"
      "ug_next_begin z" "\<not> ug_del z" "ug_zdata z @ R' = zcat ms" for z s y
      using Cons(1) [OF that(1-5)] Cons(7) that(6) by (simp add: members_def)
  qed (use Cons op in \<open>simp_all add: z1_def ug_job_def ug_frame_def\<close>)
  with ungz_goes_on [OF l, of mem at cmd n t A p y "[]"] show ?case by (simp add: z1_def dcat_def m)
qed


text \<open>A read that is not the end of the file goes on to the decoder.\<close>

lemma ungz_read_data:
  assumes E: "ue_core E = C" and A: "stands s = Some (A, p)" and src: "st_src A = Some (n, Z)" and fr: "ug_frame z = (cmd, i1, o1, n)"
    and st: "ug_st z = UgRead" and off: "ug_off z < length Z"
  shows "\<exists>c s'. c \<noteq> [] \<and> drop (ug_off z) Z = c @ drop (ug_off z + length c) Z \<and> stands s' = Some (A, ug_off z + length c) \<and>
    ungz_turn E z s =
      ungz_turn E (z\<lparr>ug_zdata := c, ug_off := ug_off z + length c, ug_next_begin := False, ug_st := UgDecomp\<rparr>) s'"
proof -
  obtain c s1 where r: "fi_read C i1 (Some (ug_off z)) s = Some ((FOk, c), s1)" "stands s1 = Some (A, ug_off z + length c)"
    "c = take (length c) (drop (ug_off z) Z)" "c \<noteq> []"
    using pp_read_at [OF A src, of "ug_off z"] off by (auto elim!: givesE)
  have "drop (ug_off z) Z = c @ drop (ug_off z + length c) Z"
    using r(3) by (metis add.commute append_take_drop_id drop_drop)
  then show ?thesis using r E st fr
    by (intro exI [of _ c] exI [of _ s1]) (simp add: ungz_turn_def ungz_read_def ug_frame_def)
qed

text \<open>The rest of the file, and the end.\<close>

lemma ungz_reads:
  assumes ok: "gzr_ok (ue_lib E) mem at left" and E: "ue_core E = C" and src: "st_src A = Some (n, Z)"
    and "ug_job cmd n t A p y z s" and "ug_st z = UgRead" and "ug_off z \<le> length Z" and "ug_expects mem at z (drop (ug_off z) Z) D"
  shows "\<exists>z' s' q. ug_loop E z s = ug_loop E z' s' \<and> ug_job cmd n t A q (y @ D) z' s' \<and> ug_st z' = UgIn \<and> ug_off z' = length Z \<and>
    ug_next_begin z' \<and> \<not> ug_del z'"
  using assms(4-)
proof (induction "length Z - ug_off z" arbitrary: z s p y D rule: less_induct)
  case less
  have j: "stands s = Some (A\<lparr>st_dst := Some (t, y)\<rparr>, p)" "ug_frame z = (cmd, i1, o1, n)" "ug_out_opened z"
    using less(2) by (simp_all add: ug_job_def)
  have src': "st_src (A\<lparr>st_dst := Some (t, y)\<rparr>) = Some (n, Z)" using src by simp
  note run = pp_runs [OF j(1)]
  show ?case
  proof (cases "drop (ug_off z) Z = []")
    case True
    then have o: "ug_off z = length Z" using less(4) by simp
    have x: "D = []" "ug_next_begin z" "\<not> ug_del z" using less(5) True by (auto simp: ug_expects_def)
    obtain c s1 where r: "fi_read C i1 (Some (ug_off z)) s = Some ((FEof, c), s1)" "stands s1 = Some (A\<lparr>st_dst := Some (t, y)\<rparr>, ug_off z + length c)"
      using pp_read_at [OF j(1) src', of "ug_off z"] o by (auto elim!: givesE)
    obtain s2 where w: "fi_flush C o1 s1 = Some (FOk, s2)" "stands s2 = Some (A\<lparr>st_dst := Some (t, y)\<rparr>, ug_off z + length c)"
      using pp_flush [OF r(2), of t y] by (auto elim: givesE)
    define z2 where "z2 = z\<lparr>ug_zdata := c, ug_st := UgIn\<rparr>"
    have "ug_loop E z s = ug_loop E z2 s2"
      unfolding ug_loop_def by (rule op_loop_next [of "stop_flag C", OF run])
        (use less(3) r(1) w(1) x j(2) E in \<open>simp add: ungz_turn_def ungz_read_def z2_def ug_frame_def\<close>)
    then show ?thesis using x o w(2) j by (intro exI [of _ z2] exI [of _ s2]) (auto simp: z2_def ug_job_def ug_frame_def)
  next
    case False
    then have o: "ug_off z < length Z" by simp
    obtain i zr dr ms where x: "ug_opened z" "at (ug_r z) i zr dr" "members mem ms" "drop (ug_off z) Z = zr @ zcat ms" "D = dr @ dcat ms"
      using less(5) False by (auto simp: ug_expects_def)
    obtain c s1 where c: "c \<noteq> []" "drop (ug_off z) Z = c @ drop (ug_off z + length c) Z"
      "stands s1 = Some (A\<lparr>st_dst := Some (t, y)\<rparr>, ug_off z + length c)"
      "ungz_turn E z s =
        ungz_turn E (z\<lparr>ug_zdata := c, ug_off := ug_off z + length c, ug_next_begin := False, ug_st := UgDecomp\<rparr>) s1"
      using ungz_read_data [OF E j(1) src' j(2) less(3) o] by blast
    let ?R = "drop (ug_off z + length c) Z"
    define z1 where "z1 = z\<lparr>ug_zdata := c, ug_off := ug_off z + length c, ug_next_begin := False, ug_st := UgDecomp\<rparr>"
    have l: "ug_loop E z s = ug_loop E z1 s1"
      unfolding ug_loop_def z1_def by (rule op_loop_same_turn [of "stop_flag C", OF run pp_runs [OF c(3)] c(4)])
    have job1: "ug_job cmd n t A (ug_off z + length c) y z1 s1" using c(3) j by (simp add: ug_job_def z1_def ug_frame_def)
    have "ug_goes E mem at cmd n t A (ug_off z + length c) y z1 s1 ?R (dr @ dcat ms)"
    proof (rule ungz_one_member [OF ok E job1])
      show "ug_zdata z1 @ ?R = zr @ zcat ms" using c(2) x(4) by (simp add: z1_def)
    qed (use x(1-3) in \<open>auto simp: z1_def intro: ungz_between [OF ok E]\<close>)
    then obtain z2 s2 D1 D2 where 2: "ug_loop E z1 s1 = ug_loop E z2 s2" "ug_job cmd n t A (ug_off z + length c) (y @ D1) z2 s2"
      "ug_st z2 = UgRead" "ug_off z2 = ug_off z1" "dr @ dcat ms = D1 @ D2" "ug_expects mem at z2 ?R D2"
      unfolding ug_goes_def by blast
    have o2: "ug_off z2 = ug_off z + length c" using 2(4) by (simp add: z1_def)
    have "length c \<le> length Z - ug_off z" using arg_cong [OF c(2), of length] by simp
    then have "\<exists>z' s' q. ug_loop E z2 s2 = ug_loop E z' s' \<and> ug_job cmd n t A q ((y @ D1) @ D2) z' s' \<and> ug_st z' = UgIn \<and>
        ug_off z' = length Z \<and> ug_next_begin z' \<and> \<not> ug_del z'"
      using c(1) o 2(6) by (intro less(1) [OF _ 2(2,3)]) (auto simp: o2 intro!: diff_less_mono2)
    then show ?thesis using l 2(1,5) x(5) by simp
  qed
qed


text \<open>Up to the information of the first member, which names the output.\<close>

lemma ungz_starts:
  assumes ok: "gzr_ok (ue_lib E) mem at left" and E: "ue_core E = C" and plain: "cmd_plain cmd"
    and src: "st_src A = Some (n, Z)" and dst: "st_dst A = None" and t: "ungz_out_name (ue_path E) cmd (gi_name i) n = t"
    and tn: "t \<noteq> n" "new t" "st_files A t = None \<or> ci_overwrite cmd" and ms: "members mem ms"
    and "stands s = Some (A, p)" and "ug_frame z = (cmd, i1, o1, n)" and "ug_st z = UgRead" and "\<not> ug_out_opened z" and "ug_opened z"
    and "at (ug_r z) (Some i) zr dr" and "zr \<noteq> []" and "drop (ug_off z) Z = zr @ zcat ms"
  shows "\<exists>z' s' zr' p'. ug_loop E z s = ug_loop E z' s' \<and> ug_job cmd n t (A\<lparr>st_files := (st_files A)(t := None)\<rparr>) p' [] z' s' \<and>
    ug_st z' = UgDecomp \<and> ug_opened z' \<and> at (ug_r z') None zr' dr \<and> ug_zdata z' @ drop (ug_off z') Z = zr' @ zcat ms \<and> ug_off z' \<le> length Z"
  using assms(11-)
proof (induction "length Z - ug_off z" arbitrary: z s p zr rule: less_induct)
  case less
  have o: "ug_off z < length Z" using less(8,9) by (metis append_is_Nil_conv drop_all not_le)
  note run = pp_runs [OF less(2)]
  obtain c s1 where c: "c \<noteq> []" "drop (ug_off z) Z = c @ drop (ug_off z + length c) Z" "stands s1 = Some (A, ug_off z + length c)"
    "ungz_turn E z s =
      ungz_turn E (z\<lparr>ug_zdata := c, ug_off := ug_off z + length c, ug_next_begin := False, ug_st := UgDecomp\<rparr>) s1"
    using ungz_read_data [OF E less(2) src less(3,4) o] by blast
  let ?R = "drop (ug_off z + length c) Z"
  define z1 where "z1 = z\<lparr>ug_zdata := c, ug_off := ug_off z + length c, ug_next_begin := False, ug_st := UgDecomp\<rparr>"
  have le: "ug_off z + length c \<le> length Z" using arg_cong [OF c(2), of length] o by simp
  note run1 = pp_runs [OF c(3)]
  have l: "ug_loop E z s = ug_loop E z1 s1"
    unfolding ug_loop_def z1_def by (rule op_loop_same_turn [of "stop_flag C", OF run run1 c(4)])
  have z1: "ug_opened z1" "ug_r z1 = ug_r z" "ug_zdata z1 = c" "ug_st z1 = UgDecomp" "\<not> ug_out_opened z1" "ug_off z1 = ug_off z + length c"
    "ug_frame z1 = (cmd, i1, o1, n)" using less(3,5,6) by (simp_all add: z1_def ug_frame_def)
  obtain r rest out st' where g: "gr_process (ue_lib E) (ug_r z1) (ug_zdata z1) = ((r, rest, out), st')" by (metis prod_cases3 prod.exhaust)
  have step: "gzr_step (ue_lib E) at left (ug_r z)" using ok by (simp add: gzr_ok_def)
  have R: "c @ ?R = zr @ zcat ms" using c(2) less(9) by simp
  then have "prefix c (zr @ zcat ms)" by (metis prefixI)
  note cases = gzr_stepD [OF step less(7) this, OF g [unfolded z1(2,3)]]
  have "gzr_result (ue_lib E) at left (ug_r z) (Some i) zr dr c"
    using step less(7) \<open>prefix c (zr @ zcat ms)\<close> unfolding gzr_step_def by blast
  then have r2: "r = GrMore \<or> r = GrInfo" using g z1(2,3) by (cases r) (auto simp: gzr_result_def)
  obtain z2 where z2: "gzread (ue_lib E) z1 = (r, z2)" "ug_frame z2 = (cmd, i1, o1, n)" "ug_zdata z2 = rest" "ug_off z2 = ug_off z1"
    "\<not> ug_out_opened z2" "ug_opened z2" "ug_r z2 = st'" "ug_st z2 = UgDecomp"
    using gzread_opened [OF z1(1) g] z1 r2 by auto
  show ?case
  proof (rule cases)
    assume a: "r = GrMore" "length c < length zr" "at st' (Some i) (drop (length c) zr) dr"
    define z3 where "z3 = z2\<lparr>ug_st := UgRead\<rparr>"
    have "drop (length c) (c @ ?R) = drop (length c) (zr @ zcat ms)" using R by simp
    then have R3: "drop (ug_off z + length c) Z = drop (length c) zr @ zcat ms" using a(2) by simp
    have l3: "ug_loop E z1 s1 = ug_loop E z3 s1"
      unfolding ug_loop_def by (rule op_loop_next [of "stop_flag C", OF run1])
        (use z1(4) z2(1) a(1) in \<open>simp add: ungz_turn_def ungz_decomp_def z3_def\<close>)
    have "\<exists>z' s' zr' p'. ug_loop E z3 s1 = ug_loop E z' s' \<and> ug_job cmd n t (A\<lparr>st_files := (st_files A)(t := None)\<rparr>) p' [] z' s' \<and>
        ug_st z' = UgDecomp \<and> ug_opened z' \<and> at (ug_r z') None zr' dr \<and> ug_zdata z' @ drop (ug_off z') Z = zr' @ zcat ms \<and> ug_off z' \<le> length Z"
      by (rule less(1) [OF _ c(3)])
        (use z2 z1(6) a R3 c(1) o in \<open>simp_all add: z3_def ug_frame_def diff_less_mono2\<close>)
    then show ?thesis using l l3 by simp
  next
    fix k assume a: "r = GrInfo" "Some i = Some (gr_info (ue_lib E) st')" "k \<le> length zr" "rest = drop k c" "k \<le> length c"
      "at st' None (drop k zr) dr"
    define z3 where "z3 = z2\<lparr>ug_mtime := (gi_mtime i + ue_1970 E, snd (ug_mtime z2)), ug_out_opened := True, ug_oname := Some t, ug_st := UgOutOpen\<rparr>"
    have no: "\<not> ci_stdout cmd" "\<not> ci_test cmd" using plain by (simp_all add: cmd_plain_def)
    have fl: "FCOM_FILE_WRITE OR fcom_file_cominfo_flags_o cmd = new_flags (ci_overwrite cmd)"
      using plain by (simp_all add: cmd_plain_def fcom_file_cominfo_flags_o_def new_flags_def)
    have l3: "ug_loop E z1 s1 = ug_loop E z3 s1"
      unfolding ug_loop_def by (rule op_loop_next [of "stop_flag C", OF run1])
        (use z1(4) z2 a(1,2) t no in \<open>simp add: ungz_turn_def ungz_decomp_def z3_def Let_def ug_frame_def\<close>)
    obtain s2 where w: "fi_open C o1 t (new_flags (ci_overwrite cmd)) s1 = Some (FOk, s2)"
      "stands s2 = Some (A\<lparr>st_files := (st_files A)(t := None), st_dst := Some (t, [])\<rparr>, ug_off z + length c)"
      using pp_open_dst [OF c(3), of t "ci_overwrite cmd"] dst tn src by (auto elim!: givesE)
    define z4 where "z4 = z3\<lparr>ug_del := True, ug_st := UgDecomp\<rparr>"
    have l4: "ug_loop E z3 s1 = ug_loop E z4 s2"
      unfolding ug_loop_def by (rule op_loop_next [of "stop_flag C", OF run1])
        (use w(1) z2 no E in \<open>simp add: ungz_turn_def ungz_out_open_def z3_def z4_def ug_frame_def fl\<close>)
    have "drop k (c @ ?R) = drop k (zr @ zcat ms)" using R by simp
    then have R4: "rest @ ?R = drop k zr @ zcat ms" using a(3-5) by simp
    have "ug_job cmd n t (A\<lparr>st_files := (st_files A)(t := None)\<rparr>) (ug_off z + length c) [] z4 s2"
      using w(2) z2 by (simp add: ug_job_def z4_def z3_def ug_frame_def)
    then show ?thesis using l l3 l4 R4 z2 z1(6) a(6) le
      by (intro exI [of _ z4] exI [of _ s2] exI [of _ "drop k zr"] exI [of _ "ug_off z + length c"]) (simp add: z4_def z3_def)
  qed (use r2 in auto)
qed


lemma mem_nonempty: "gzr_ok G mem at left \<Longrightarrow> mem i z d \<Longrightarrow> z \<noteq> []"
proof
  assume ok: "gzr_ok G mem at left" and m: "mem i z d" and z: "z = []"
  let ?st = "snd (gr_open G undefined)"
  obtain out st' where g: "gr_process G ?st [] = ((GrMore, [], out), st')" using ok unfolding gzr_ok_def by blast
  have "gzr_step G at left ?st" "at ?st (Some i) z d" using ok m unfolding gzr_ok_def by blast+
  from gzr_stepD [OF this _ g, of "[]"] z show False by auto
qed

text \<open>A whole archive, from its name to the end of its contents.\<close>

lemma ungz_archive:
  assumes ok: "gzr_ok (ue_lib E) mem at left" and E: "ue_core E = C" and plain: "cmd_plain cmd"
    and A: "stands s = Some (A, p)" and nm: "st_names A = n # ns" and d: "st_files A n = Some (zcat ((i, zm, dm) # ms))"
    and dst: "st_dst A = None" and t: "ungz_out_name (ue_path E) cmd (gi_name i) n = t"
    and tn: "t \<noteq> n" "new t" "st_files A t = None \<or> ci_overwrite cmd" and ms: "members mem ((i, zm, dm) # ms)"
    and z: "ug_st z = UgIn" "ug_cmd z = cmd" "ug_in z = i1" "ug_out z = o1" "\<not> ug_opened z" "\<not> ug_out_opened z" "ug_off z = 0"
  shows "\<exists>z' s' q. ug_loop E z s = ug_loop E z' s' \<and>
    ug_job cmd n t (A\<lparr>st_files := (st_files A)(t := None), st_src := Some (n, zcat ((i, zm, dm) # ms)), st_names := ns\<rparr>) q
      (dcat ((i, zm, dm) # ms)) z' s' \<and>
    ug_st z' = UgIn \<and> ug_off z' = length (zcat ((i, zm, dm) # ms)) \<and> ug_next_begin z' \<and> \<not> ug_del z'"
proof -
  let ?Z = "zcat ((i, zm, dm) # ms)"
  have fl: "fcom_file_cominfo_flags_i cmd OR FCOM_FILE_READ = FCOM_FILE_READ"
    using plain by (simp add: cmd_plain_def fcom_file_cominfo_flags_i_def)
  obtain b s1 where 1: "com_input_next C 0 s = Some (ROk n b, s1)" "stands s1 = Some (A\<lparr>st_names := ns\<rparr>, p)"
    using pp_next [OF A nm] by (auto elim: givesE)
  let ?A1 = "A\<lparr>st_names := ns, st_src := Some (n, ?Z)\<rparr>"
  obtain s2 where 2: "fi_open C i1 n FCOM_FILE_READ s1 = Some (FOk, s2)" "stands s2 = Some (?A1, 0)"
    using pp_open_src [OF 1(2), of n ?Z] d by (auto elim: givesE)
  define z0 where "z0 = z\<lparr>ug_iname := n, ug_basename := b, ug_st := UgRead\<rparr>"
  have z0: "ug_frame z0 = (cmd, i1, o1, n)" "ug_st z0 = UgRead" "\<not> ug_out_opened z0" "\<not> ug_opened z0" "ug_off z0 = 0"
    using z by (simp_all add: z0_def ug_frame_def)
  have "ungz_turn E z s = ungz_turn E z0 s2"
    using z E 1(1) 2(1) by (simp add: ungz_turn_def ungz_in_next_def ungz_in_open_def z0_def fl)
  then have l: "ug_loop E z s = ug_loop E z0 s2"
    unfolding ug_loop_def by (rule op_loop_same_turn [of "stop_flag C", OF pp_runs [OF A] pp_runs [OF 2(2)]])
  have m: "mem i zm dm" "members mem ms" using ms by (simp_all add: members_def)
  have zm: "zm \<noteq> []" by (rule mem_nonempty [OF ok m(1)])
  have cat: "?Z = zm @ zcat ms" "dcat ((i, zm, dm) # ms) = dm @ dcat ms" by (simp_all add: zcat_def dcat_def)
  define z1 where "z1 = z0\<lparr>ug_opened := True, ug_r := snd (gr_open (ue_lib E) (ug_r z0))\<rparr>"
  have op: "fst (gr_open (ue_lib E) (ug_r z0))" "at (snd (gr_open (ue_lib E) (ug_r z0))) (Some i) zm dm"
    using ok m(1) by (simp_all add: gzr_ok_def)
  obtain c s3 where c: "fi_read C i1 (Some 0) s2 = Some ((FOk, c), s3)"
    using pp_read_at [OF 2(2), of n ?Z 0] cat(1) zm by (auto elim!: givesE)
  define zc where "zc = z0\<lparr>ug_zdata := c, ug_off := length c, ug_next_begin := False, ug_st := UgDecomp\<rparr>"
  have "z1\<lparr>ug_zdata := c, ug_off := length c, ug_next_begin := False, ug_st := UgDecomp\<rparr> =
      zc\<lparr>ug_opened := True, ug_r := snd (gr_open (ue_lib E) (ug_r zc))\<rparr>"
    by (simp add: z1_def zc_def)
  then have "ungz_decomp E zc s3 = ungz_decomp E (z1\<lparr>ug_zdata := c, ug_off := length c, ug_next_begin := False, ug_st := UgDecomp\<rparr>) s3"
    using gzread_reopen [of zc "ue_lib E"] op(1) z0(4) by (simp add: ungz_decomp_def zc_def)
  then have "ungz_turn E z0 s2 = ungz_turn E z1 s2"
    using z0 c E by (simp add: ungz_turn_def ungz_read_def zc_def z1_def ug_frame_def)
  then have l1: "ug_loop E z0 s2 = ug_loop E z1 s2"
    unfolding ug_loop_def by (rule op_loop_same_turn [of "stop_flag C", OF pp_runs [OF 2(2)] pp_runs [OF 2(2)]])
  have "\<exists>z' s' zr' p'. ug_loop E z1 s2 = ug_loop E z' s' \<and> ug_job cmd n t (?A1\<lparr>st_files := (st_files ?A1)(t := None)\<rparr>) p' [] z' s' \<and>
      ug_st z' = UgDecomp \<and> ug_opened z' \<and> at (ug_r z') None zr' dm \<and> ug_zdata z' @ drop (ug_off z') ?Z = zr' @ zcat ms \<and> ug_off z' \<le> length ?Z"
    by (rule ungz_starts [OF ok E plain _ _ t tn(1,2) _ m(2) 2(2)])
      (use z0 tn(3) dst op(2) zm cat(1) in \<open>simp_all add: z1_def ug_frame_def\<close>)
  then obtain z2 s4 zr p4 where 4: "ug_loop E z1 s2 = ug_loop E z2 s4"
    "ug_job cmd n t (?A1\<lparr>st_files := (st_files ?A1)(t := None)\<rparr>) p4 [] z2 s4" "ug_st z2 = UgDecomp" "ug_opened z2"
    "at (ug_r z2) None zr dm" "ug_zdata z2 @ drop (ug_off z2) ?Z = zr @ zcat ms" "ug_off z2 \<le> length ?Z" by blast
  have "ug_goes E mem at cmd n t (?A1\<lparr>st_files := (st_files ?A1)(t := None)\<rparr>) p4 [] z2 s4 (drop (ug_off z2) ?Z) (dm @ dcat ms)"
    by (rule ungz_one_member [OF ok E 4(2-5) m(2) 4(6)]) (rule ungz_between [OF ok E _ _ _ _ _ m(2)])
  then obtain z3 s5 D1 D2 where 5: "ug_loop E z2 s4 = ug_loop E z3 s5"
    "ug_job cmd n t (?A1\<lparr>st_files := (st_files ?A1)(t := None)\<rparr>) p4 D1 z3 s5" "ug_st z3 = UgRead" "ug_off z3 = ug_off z2"
    "dm @ dcat ms = D1 @ D2" "ug_expects mem at z3 (drop (ug_off z2) ?Z) D2"
    unfolding ug_goes_def by auto
  have "\<exists>z' s' q. ug_loop E z3 s5 = ug_loop E z' s' \<and> ug_job cmd n t (?A1\<lparr>st_files := (st_files ?A1)(t := None)\<rparr>) q (D1 @ D2) z' s' \<and>
      ug_st z' = UgIn \<and> ug_off z' = length ?Z \<and> ug_next_begin z' \<and> \<not> ug_del z'"
    by (rule ungz_reads [OF ok E _ 5(2,3)]) (use 5(4,6) 4(7) in simp_all)
  then obtain z' s' q where 6: "ug_loop E z3 s5 = ug_loop E z' s'"
    "ug_job cmd n t (?A1\<lparr>st_files := (st_files ?A1)(t := None)\<rparr>) q (dm @ dcat ms) z' s'"
    "ug_st z' = UgIn" "ug_off z' = length ?Z" "ug_next_begin z'" "\<not> ug_del z'" unfolding 5(5) by blast
  have eq: "?A1\<lparr>st_files := (st_files ?A1)(t := None)\<rparr> = A\<lparr>st_files := (st_files A)(t := None), st_src := Some (n, ?Z), st_names := ns\<rparr>"
    by (cases A) simp
  show ?thesis unfolding l l1 4(1) 5(1) cat(2) using 6 [unfolded eq] by blast
qed

text \<open>An archive as long as the one before it is taken to be at its end.\<close>

lemma ungz_skips:
  assumes E: "ue_core E = C" and plain: "cmd_plain cmd" and job: "ug_job cmd n t A p y z s" and nm: "st_names A = m # ns"
    and m: "m \<noteq> t" "st_files A m = Some Z" "length Z = ug_off z" and z: "ug_st z = UgIn" "ug_next_begin z" "\<not> ug_del z"
  shows "\<exists>z' s' q. ug_loop E z s = ug_loop E z' s' \<and> ug_job cmd m t (A\<lparr>st_names := ns, st_src := Some (m, Z)\<rparr>) q y z' s' \<and>
    ug_st z' = UgIn \<and> \<not> ug_del z' \<and> ug_off z' = ug_off z \<and> ug_next_begin z'"
proof -
  let ?A = "A\<lparr>st_dst := Some (t, y)\<rparr>" and ?B = "A\<lparr>st_names := ns, st_src := Some (m, Z)\<rparr>"
  have j: "stands s = Some (?A, p)" "ug_frame z = (cmd, i1, o1, n)" "ug_out_opened z" using job by (simp_all add: ug_job_def)
  have fl: "fcom_file_cominfo_flags_i cmd OR FCOM_FILE_READ = FCOM_FILE_READ"
    using plain by (simp add: cmd_plain_def fcom_file_cominfo_flags_i_def)
  obtain b s1 where 1: "com_input_next C 0 s = Some (ROk m b, s1)" "stands s1 = Some (?A\<lparr>st_names := ns\<rparr>, p)"
    using pp_next [OF j(1), of m ns] nm by (auto elim: givesE)
  obtain s2 where 2: "fi_open C i1 m FCOM_FILE_READ s1 = Some (FOk, s2)" "stands s2 = Some (?B\<lparr>st_dst := Some (t, y)\<rparr>, 0)"
    using pp_open_src [OF 1(2), of m Z] m(2) by (auto elim!: givesE)
  obtain c s3 where 3: "fi_read C i1 (Some (ug_off z)) s2 = Some ((FEof, c), s3)" "stands s3 = Some (?B\<lparr>st_dst := Some (t, y)\<rparr>, ug_off z + length c)"
    using pp_read_at [OF 2(2), of m Z "ug_off z"] m(3) by (auto elim!: givesE)
  obtain s4 where 4: "fi_flush C o1 s3 = Some (FOk, s4)" "stands s4 = Some (?B\<lparr>st_dst := Some (t, y)\<rparr>, ug_off z + length c)"
    using pp_flush [OF 3(2), of t y] by (auto elim: givesE)
  define z4 where "z4 = z\<lparr>ug_iname := m, ug_basename := b, ug_zdata := c, ug_st := UgIn\<rparr>"
  have "ug_loop E z s = ug_loop E z4 s4"
    unfolding ug_loop_def by (rule op_loop_next [of "stop_flag C", OF pp_runs [OF j(1)]])
      (use z j(2) E 1(1) 2(1) 3(1) 4(1) in
        \<open>simp add: ungz_turn_def ungz_in_next_def ungz_in_open_def ungz_read_def z4_def fl ug_frame_def\<close>)
  then show ?thesis using 4(2) z j(2,3)
    by (intro exI [of _ z4] exI [of _ s4] exI [of _ "ug_off z + length c"]) (simp add: z4_def ug_job_def ug_frame_def)
qed

lemma ungz_skips_all:
  assumes E: "ue_core E = C" and plain: "cmd_plain cmd"
    and "ug_job cmd n t A p y z s" and "st_names A = ns" and "\<forall>m \<in> set ns. m \<noteq> t \<and> (\<exists>Z. st_files A m = Some Z \<and> length Z = ug_off z)"
    and "ug_st z = UgIn" and "ug_next_begin z" and "\<not> ug_del z"
  shows "\<exists>z' s' A' q m. ug_loop E z s = ug_loop E z' s' \<and> ug_job cmd m t A' q y z' s' \<and> st_names A' = [] \<and>
    st_files A' = st_files A \<and> ug_st z' = UgIn \<and> \<not> ug_del z'"
  using assms(3-)
proof (induction ns arbitrary: z s A p n)
  case Nil
  then show ?case by metis
next
  case (Cons m ns)
  obtain Z where Z: "m \<noteq> t" "st_files A m = Some Z" "length Z = ug_off z" using Cons(4) by auto
  from ungz_skips [OF E plain Cons(2,3) Z Cons(5-7)] obtain z1 s1 q1 where 1: "ug_loop E z s = ug_loop E z1 s1"
    "ug_job cmd m t (A\<lparr>st_names := ns, st_src := Some (m, Z)\<rparr>) q1 y z1 s1" "ug_st z1 = UgIn" "\<not> ug_del z1"
    "ug_off z1 = ug_off z" "ug_next_begin z1" by blast
  have "\<forall>m \<in> set ns. m \<noteq> t \<and> (\<exists>Z'. st_files A m = Some Z' \<and> length Z' = ug_off z1)" using 1(5) Cons(4) by simp
  then show ?case using Cons(1) [OF 1(2)] 1 by simp
qed

text \<open>The end of the run.\<close>

lemma ungz_ends:
  assumes E: "ue_core E = C" and job: "ug_job cmd n t A p y z1 s1" and nm: "st_names A = []" and z: "ug_st z1 = UgIn" "\<not> ug_del z1"
    and l: "ug_loop E z s = ug_loop E z1 s1"
  shows "\<exists>z' s' B q. ungz_run E z s = Some ((Some 0, z'), s') \<and> stands s' = Some (B, q) \<and> st_files B = (st_files A)(t \<mapsto> y) \<and>
    st_src B = None \<and> st_dst B = None"
proof -
  let ?A = "A\<lparr>st_dst := Some (t, y)\<rparr>"
  have j: "stands s1 = Some (?A, p)" "ug_frame z1 = (cmd, i1, o1, n)" using job by (simp_all add: ug_job_def)
  obtain s2 where 2: "com_input_next C 0 s1 = Some (RNomore, s2)" "stands s2 = Some (?A, p)"
    using pp_last [OF j(1)] nm by (auto elim: givesE)
  obtain s3 where 3: "fi_mtime_set C o1 (ug_mtime z1) s2 = Some (FOk, s3)" "stands s3 = Some (?A, p)"
    using pp_mtime [OF 2(2), of t y "ug_mtime z1"] by (auto elim: givesE)
  have r: "ug_loop E z1 s1 = Some ((z1, 0), s3)"
    unfolding ug_loop_def by (rule op_loop_exit [of "stop_flag C", OF pp_runs [OF j(1)]])
      (use z(1) 2(1) 3(1) j(2) E in \<open>simp add: ungz_turn_def ungz_in_next_def ug_frame_def\<close>)
  obtain s4 where 4: "fi_destroy C i1 s3 = Some ((), s4)" "stands s4 = Some (?A\<lparr>st_src := None\<rparr>, p)"
    using pp_destroy_src [OF 3(2)] by (auto elim: givesE)
  obtain s5 where 5: "fi_destroy C o1 s4 = Some ((), s5)" "stands s5 = Some (settled (?A\<lparr>st_src := None\<rparr>), p)"
    using pp_destroy_dst [OF 4(2)] by (auto elim: givesE)
  have "ungz_run E z s = Some ((Some 0, z1), s5)"
    using r l 4(1) 5(1) z(2) j(2) E by (simp add: ungz_run_def ug_loop_def ungz_close_def GZ_ASYNC_def ug_frame_def)
  then show ?thesis using 5(2) by (intro exI [of _ z1] exI [of _ s5]) auto
qed

lemma ungz_runs:
  assumes ok: "gzr_ok (ue_lib E) mem at left" and E: "ue_core E = C" and plain: "cmd_plain (ug_cmd z)"
    and A: "stands s = Some (A, p)" and nm: "st_names A = n # ns" and d: "st_files A n = Some (zcat ((i, zm, dm) # ms))"
    and dst: "st_dst A = None" and t: "ungz_out_name (ue_path E) (ug_cmd z) (gi_name i) n = t"
    and tn: "t \<noteq> n" "new t" "st_files A t = None \<or> ci_overwrite (ug_cmd z)" and ms: "members mem ((i, zm, dm) # ms)"
    and z: "ug_st z = UgIn" "ug_in z = i1" "ug_out z = o1" "\<not> ug_opened z" "\<not> ug_out_opened z" "ug_off z = 0"
    and same_len: "\<forall>m \<in> set ns. m \<noteq> t \<and> (\<exists>Z. st_files A m = Some Z \<and> length Z = length (zcat ((i, zm, dm) # ms)))"
  shows "\<exists>z' s' B q. ungz_run E z s = Some ((Some 0, z'), s') \<and> stands s' = Some (B, q) \<and>
    st_files B = (st_files A)(t \<mapsto> dcat ((i, zm, dm) # ms)) \<and> st_src B = None \<and> st_dst B = None"
proof -
  let ?Z = "zcat ((i, zm, dm) # ms)" and ?D = "dcat ((i, zm, dm) # ms)" and ?F = "(st_files A)(t := None)"
  from ungz_archive [OF ok E plain A nm d dst t tn ms z(1) refl z(2-)] obtain z1 s1 q where 1: "ug_loop E z s = ug_loop E z1 s1"
    "ug_job (ug_cmd z) n t (A\<lparr>st_files := ?F, st_src := Some (n, ?Z), st_names := ns\<rparr>) q ?D z1 s1"
    "ug_st z1 = UgIn" "ug_off z1 = length ?Z" "ug_next_begin z1" "\<not> ug_del z1" by blast
  have "\<forall>m \<in> set ns. m \<noteq> t \<and> (\<exists>Z. ?F m = Some Z \<and> length Z = length ?Z)" using same_len by auto
  then have "\<exists>z' s' A' q m. ug_loop E z1 s1 = ug_loop E z' s' \<and> ug_job (ug_cmd z) m t A' q ?D z' s' \<and> st_names A' = [] \<and>
      st_files A' = st_files (A\<lparr>st_files := ?F, st_src := Some (n, ?Z), st_names := ns\<rparr>) \<and> ug_st z' = UgIn \<and> \<not> ug_del z'"
    by (intro ungz_skips_all [OF E plain 1(2) _ _ 1(3,5,6)]) (auto simp: 1(4) split: if_splits)
  then obtain z2 s2 A2 q2 m where 2: "ug_loop E z1 s1 = ug_loop E z2 s2"
    "ug_job (ug_cmd z) m t A2 q2 ?D z2 s2" "st_names A2 = []" "st_files A2 = ?F" "ug_st z2 = UgIn" "\<not> ug_del z2" by auto
  from ungz_ends [OF E 2(2,3,5,6), of z s] 1(1) 2(1,4) show ?thesis by auto
qed

end

end
