(* ===== verification/PackProps.thy ===== *)
theory PackProps
  imports UngzProps
begin

text \<open>
  \<open>gz\<close> and \<open>ungz\<close> over the program's tables, one after the other, and a codec on which the contracts of
  the encoder and the decoder hold.
\<close>

text \<open>C35. \<open>gz\<close> without \<open>--output\<close> and \<open>--chdir\<close> over any number of input files ends with code 0. Every \<open>n.gz\<close> then holds what
  the encoder's contract calls an archive of the contents of \<open>n\<close> (\<open>enc\<close>), carrying the last component of \<open>n\<close> as its name; no
  other file has changed. However the reads cut the input and however much the encoder holds back.\<close>

theorem gz_packs:
  assumes "gzw_ok (ge_lib E) enc at left (gz_level z)" and "ge_core E = core_of sys lib cm mk"
    and "cmd_plain (gz_cmd z)" and "ci_output (gz_cmd z) = []" and "ci_chdir (gz_cmd z) = []"
    and "core_pipe sys V lib names cm i1 o1 s = Some (A, p)" and "st_dst A = None"
    and "pack_fresh (ci_overwrite (gz_cmd z)) (v_disk V (wo_sys (world s))) (v_new V) (\<lambda>n. n @ ''.gz'') (st_names A)"
    and "gz_st z = GzIn" and "gz_in z = i1" and "gz_out z = o1" and "\<not> gz_del z"
  shows "\<exists>z' s' ys. gz_run E z s = Some ((Some 0, z'), s') \<and>
    v_disk V (wo_sys (world s')) = v_disk V (wo_sys (world s)) ++ map_of (zip (map (\<lambda>n. n @ ''.gz'') (st_names A)) ys) \<and>
    list_all2 (\<lambda>n y. \<exists>c. gc_name c = last_part (gp_split (ge_path E)) n \<and> enc c (the (v_disk V (wo_sys (world s)) n)) y) (st_names A) ys"
proof -
  note d = core_pipe_disk [OF assms(6,7)]
  have t: "gz_out_name (ge_path E) (gz_cmd z) n b = n @ ''.gz''" for n b using assms(4,5) by (simp add: gz_out_name_def)
  from pipe.gz_runs [OF assms(1-3) t assms(6,7) _ assms(9-12)] assms(8) obtain z' s' B q ys where
    r: "gz_run E z s = Some ((Some 0, z'), s')" "core_pipe sys V lib names cm i1 o1 s' = Some (B, q)" "st_dst B = None"
      "st_files B = st_files A ++ map_of (zip (map (\<lambda>n. n @ ''.gz'') (st_names A)) ys)"
      "list_all2 (\<lambda>n y. \<exists>c. gc_name c = last_part (gp_split (ge_path E)) n \<and> enc c (the (st_files A n)) y) (st_names A) ys"
    unfolding d by blast
  show ?thesis unfolding d
    by (intro exI [of _ z'] exI [of _ s'] exI [of _ ys]) (use r core_pipe_disk [OF r(2,3)] in simp)
qed

text \<open>C36. \<open>ungz\<close> writes the contents of an archive, of all its members one after the other, to the file its first
  member names, and ends with code 0.\<close>

theorem ungz_unpacks:
  assumes "gzr_ok (ue_lib E) mem at left" and "ue_core E = core_of sys lib cm mk" and "cmd_plain (ug_cmd z)"
    and "core_pipe sys V lib names cm i1 o1 s = Some (A, p)" and "st_dst A = None" and "st_names A = [n]"
    and "v_disk V (wo_sys (world s)) n = Some (zcat ((i, zm, dm) # ms))" and "members mem ((i, zm, dm) # ms)"
    and "ungz_out_name (ue_path E) (ug_cmd z) (gi_name i) n = t" and "t \<noteq> n" and "v_new V t"
    and "v_disk V (wo_sys (world s)) t = None \<or> ci_overwrite (ug_cmd z)"
    and "ug_st z = UgIn" and "ug_in z = i1" and "ug_out z = o1" and "\<not> ug_opened z" and "\<not> ug_out_opened z" and "ug_off z = 0"
  shows "\<exists>z' s'. ungz_run E z s = Some ((Some 0, z'), s') \<and>
    v_disk V (wo_sys (world s')) = (v_disk V (wo_sys (world s)))(t \<mapsto> dcat ((i, zm, dm) # ms))"
proof -
  note d = core_pipe_disk [OF assms(4,5)]
  have h: "st_files A n = Some (zcat ((i, zm, dm) # ms))" "st_files A t = None \<or> ci_overwrite (ug_cmd z)"
    using assms(7,12) unfolding d by simp_all
  from pipe.ungz_runs [OF assms(1-4,6) h(1) assms(5,9,10,11) h(2) assms(8,13-18)] obtain z' s' B q where
    r: "ungz_run E z s = Some ((Some 0, z'), s')" "core_pipe sys V lib names cm i1 o1 s' = Some (B, q)"
      "st_files B = (st_files A)(t \<mapsto> dcat ((i, zm, dm) # ms))" "st_dst B = None" by auto
  with core_pipe_disk [OF r(2,4)] show ?thesis unfolding d by metis
qed

text \<open>A second archive as long as the first is opened at its end: its contents are not written and the code is 0.\<close>

theorem ungz_loses_second:
  assumes "gzr_ok (ue_lib E) mem at left" and "ue_core E = core_of sys lib cm mk" and "cmd_plain (ug_cmd z)"
    and "core_pipe sys V lib names cm i1 o1 s = Some (A, p)" and "st_dst A = None" and "st_names A = [n, m]"
    and "v_disk V (wo_sys (world s)) n = Some x" and "mem i x d" and "v_disk V (wo_sys (world s)) m = Some x'" and "length x' = length x"
    and "ungz_out_name (ue_path E) (ug_cmd z) (gi_name i) n = t" and "t \<noteq> n" and "t \<noteq> m" and "v_new V t"
    and "v_disk V (wo_sys (world s)) t = None"
    and "ug_st z = UgIn" and "ug_in z = i1" and "ug_out z = o1" and "\<not> ug_opened z" and "\<not> ug_out_opened z" and "ug_off z = 0"
  shows "\<exists>z' s'. ungz_run E z s = Some ((Some 0, z'), s') \<and>
    v_disk V (wo_sys (world s')) = (v_disk V (wo_sys (world s)))(t \<mapsto> d)"
proof -
  note dk = core_pipe_disk [OF assms(4,5)]
  have c: "zcat [(i, x, d)] = x" "dcat [(i, x, d)] = d" by (simp_all add: zcat_def dcat_def)
  have h: "st_files A n = Some (zcat [(i, x, d)])" "st_files A t = None \<or> ci_overwrite (ug_cmd z)" "members mem [(i, x, d)]"
    "\<forall>m \<in> set [m]. m \<noteq> t \<and> (\<exists>Z. st_files A m = Some Z \<and> length Z = length (zcat [(i, x, d)]))"
    using assms(7-10,13,15) unfolding dk c by (auto simp: members_def)
  from pipe.ungz_runs [OF assms(1-4,6) h(1) assms(5,11,12,14) h(2,3) assms(16-21) h(4)] obtain z' s' B q where
    r: "ungz_run E z s = Some ((Some 0, z'), s')" "core_pipe sys V lib names cm i1 o1 s' = Some (B, q)"
      "st_files B = (st_files A)(t \<mapsto> d)" "st_dst B = None" unfolding c by blast
  with core_pipe_disk [OF r(2,4)] show ?thesis unfolding dk by metis
qed

text \<open>C37. What \<open>gz\<close> packs, \<open>ungz\<close> restores: after \<open>gz\<close> has run on \<open>n\<close>, a later command \<open>ungz\<close> on \<open>n.gz\<close> puts the contents
  of \<open>n\<close> into the file of that name in its output directory. The decoder need only read what the encoder writes.\<close>

theorem gz_ungz_restores:
  assumes w: "gzw_ok (ge_lib E) enc at left (gz_level z)" "ge_core E = core_of sys lib cm mk"
      "cmd_plain (gz_cmd z)" "ci_output (gz_cmd z) = []" "ci_chdir (gz_cmd z) = []"
      "core_pipe sys V lib names cm i1 o1 s = Some (A, p)" "st_dst A = None" "st_names A = [n]"
      "pack_fresh (ci_overwrite (gz_cmd z)) (v_disk V (wo_sys (world s))) (v_new V) (\<lambda>n. n @ ''.gz'') [n]"
      "gz_st z = GzIn" "gz_in z = i1" "gz_out z = o1" "\<not> gz_del z"
    and r: "gzr_ok (ue_lib U) mem at2 left2" "ue_core U = core_of sys lib cm2 mk2" "cmd_plain (ug_cmd u)" "ue_path U = ge_path E"
      "ug_st u = UgIn" "ug_in u = i2" "ug_out u = o2" "\<not> ug_opened u" "\<not> ug_out_opened u" "ug_off u = 0"
    and codec: "\<And>c x y. enc c x y \<Longrightarrow> CHR 0x00 \<notin> set (gc_name c) \<Longrightarrow> \<exists>i. mem i y x \<and> gi_name i = gc_name c"
    and n: "v_disk V (wo_sys (world s)) n = Some d" "CHR 0x00 \<notin> set (last_part (gp_split (ge_path E)) n)"
    and t: "ungz_out_name (ge_path E) (ug_cmd u) (last_part (gp_split (ge_path E)) n) (n @ ''.gz'') = t" "t \<noteq> n @ ''.gz''" "v_new V t"
      "v_disk V (wo_sys (world s)) t = None \<or> ci_overwrite (ug_cmd u)"
  shows "\<exists>z' s'. gz_run E z s = Some ((Some 0, z'), s') \<and>
    (\<forall>s2 A2 q. core_pipe sys V lib names cm2 i2 o2 s2 = Some (A2, q) \<and> st_dst A2 = None \<and> st_names A2 = [n @ ''.gz''] \<and>
        v_disk V (wo_sys (world s2)) = v_disk V (wo_sys (world s')) \<longrightarrow>
      (\<exists>u' s3. ungz_run U u s2 = Some ((Some 0, u'), s3) \<and> v_disk V (wo_sys (world s3)) t = Some d))"
proof -
  obtain z' s' y c where 1: "gz_run E z s = Some ((Some 0, z'), s')"
    "v_disk V (wo_sys (world s')) = (v_disk V (wo_sys (world s)))(n @ ''.gz'' \<mapsto> y)"
    "gc_name c = last_part (gp_split (ge_path E)) n" "enc c d y"
  proof -
    note dk = core_pipe_disk [OF w(6,7)]
    have g: "gz_out_name (ge_path E) (gz_cmd z) m b = m @ ''.gz''" for m b using w(4,5) by (simp add: gz_out_name_def)
    have fr: "pack_fresh (ci_overwrite (gz_cmd z)) (st_files A) (v_new V) (\<lambda>n. n @ ''.gz'') (st_names A)" using w(8,9) dk by simp
    from pipe.gz_runs [OF w(1-3) g w(6,7) fr w(10-13)] obtain z' s' B q ys where 1: "gz_run E z s = Some ((Some 0, z'), s')"
      "core_pipe sys V lib names cm i1 o1 s' = Some (B, q)" "st_dst B = None"
      "st_files B = st_files A ++ map_of (zip (map (\<lambda>n. n @ ''.gz'') (st_names A)) ys)"
      "list_all2 (\<lambda>n y. \<exists>c. gc_name c = last_part (gp_split (ge_path E)) n \<and> enc c (the (st_files A n)) y) (st_names A) ys"
      by blast
    have "st_files A n = Some d" using n(1) dk by simp
    then obtain y c where "ys = [y]" "gc_name c = last_part (gp_split (ge_path E)) n" "enc c d y"
      using 1(5) w(8) by (auto simp: list_all2_Cons1)
    with 1 core_pipe_disk [OF 1(2,3)] w(8) dk show thesis by (intro that [of z' s' y c]) simp_all
  qed
  obtain i where i: "mem i y d" "gi_name i = last_part (gp_split (ge_path E)) n" using codec [OF 1(4)] n(2) 1(3) by auto
  have c: "zcat [(i, y, d)] = y" "dcat [(i, y, d)] = d" by (simp_all add: zcat_def dcat_def)
  have "\<exists>u' s3. ungz_run U u s2 = Some ((Some 0, u'), s3) \<and> v_disk V (wo_sys (world s3)) t = Some d"
    if s2: "core_pipe sys V lib names cm2 i2 o2 s2 = Some (A2, q)" "st_dst A2 = None" "st_names A2 = [n @ ''.gz'']"
      "v_disk V (wo_sys (world s2)) = v_disk V (wo_sys (world s'))" for s2 A2 q
  proof -
    note dk = core_pipe_disk [OF s2(1,2)]
    have h: "st_files A2 (n @ ''.gz'') = Some (zcat [(i, y, d)])" "st_files A2 t = None \<or> ci_overwrite (ug_cmd u)" "members mem [(i, y, d)]"
      using 1(2) s2(4) t(2,4) i(1) unfolding dk c by (auto simp: members_def)
    have nm: "ungz_out_name (ue_path U) (ug_cmd u) (gi_name i) (n @ ''.gz'') = t" using t(1) i(2) r(4) by simp
    obtain u' s3 B q' where 3: "ungz_run U u s2 = Some ((Some 0, u'), s3)" "core_pipe sys V lib names cm2 i2 o2 s3 = Some (B, q')"
      "st_files B = (st_files A2)(t \<mapsto> dcat [(i, y, d)])" "st_dst B = None"
      using pipe.ungz_runs [OF r(1-3) s2(1,3) h(1) s2(2) nm t(2,3) h(2,3) r(5-10)] by auto
    with core_pipe_disk [OF 3(2,4)] c(2) show ?thesis by auto
  qed
  with 1(1) show ?thesis by blast
qed

end
