(* ===== verification/PackDemo.thy ===== *)
theory PackDemo
  imports PackProps
begin

text \<open>
  A codec that stores: an archive is the name, a zero byte, every byte of the contents behind a byte 1, and a
  zero byte. The contracts of \<^theory_text>\<open>GzProps\<close> and \<^theory_text>\<open>UngzProps\<close> hold of it, and the theorems of
  \<^theory_text>\<open>PackProps\<close> are applied to it on the disk of \<^theory_text>\<open>RwDisk\<close>.
\<close>

section \<open>The codec\<close>

abbreviation nul :: char where "nul \<equiv> CHR 0x00"

definition body :: "bytes \<Rightarrow> bytes" where
  "body x = concat (map (\<lambda>b. [CHR 0x01, b]) x) @ [nul]"

definition arch :: "gzconf \<Rightarrow> bytes \<Rightarrow> bytes" where
  "arch c x = filter (\<lambda>b. b \<noteq> nul) (gc_name c) @ nul # body x"

type_synonym toyw = "gzconf \<times> bytes \<times> bytes \<times> bool"

definition toyw :: "toyw gzwlib" where
  "toyw =
     \<lparr>gw_zero = (\<lparr>gc_level = 0, gc_mem = 0, gc_name = [], gc_mtime = 0\<rparr>, [], [], False),
      gw_init = (\<lambda>c st. (True, (c, [], [], False))),
      gw_process = (\<lambda>(c, x, y, e) d.
        if \<not> e then ((GwMore, [], []), (c, x @ d, y, e))
        else if y = [] then ((GwData, d, arch c x), (c, x, arch c x, e))
        else ((GwDone, d, []), (c, x, y, e))),
      gw_finish = (\<lambda>(c, x, y, e). (c, x, y, True))\<rparr>"

definition toyw_at :: "toyw \<Rightarrow> (gzconf \<times> bytes \<times> bytes \<times> bool) option" where
  "toyw_at = (\<lambda>(c, x, y, e). if y = [] \<or> e \<and> y = arch c x then Some (c, x, y, e) else None)"

definition toyw_left :: "toyw \<Rightarrow> bytes \<Rightarrow> nat" where
  "toyw_left = (\<lambda>(c, x, y, e) d. if y = [] then 1 else 0)"

lemma toyw_ok: "gzw_ok toyw (\<lambda>c x y. y = arch c x) toyw_at toyw_left lv"
  by (auto simp: gzw_ok_def gzw_fed_def gzw_ends_def toyw_def toyw_at_def toyw_left_def arch_def split: if_splits)

text \<open>The decoder's state: what it has of the name, and whether it reads the name, a flag or a byte.\<close>

type_synonym toyr = "bytes \<times> nat"

definition toyr_process :: "toyr \<Rightarrow> bytes \<Rightarrow> (gzr_res \<times> bytes \<times> bytes) \<times> toyr" where
  "toyr_process st c =
     (case st of (nm, ph) \<Rightarrow>
        if ph = 0 then
          (let u = takeWhile (\<lambda>b. b \<noteq> nul) c
           in if u = c then ((GrMore, [], []), (nm @ c, 0)) else ((GrInfo, drop (Suc (length u)) c, []), (nm @ u, 1)))
        else (case c of
                [] \<Rightarrow> ((GrMore, [], []), st)
              | b # r \<Rightarrow>
                  if ph = 2 then ((GrData, r, [b]), (nm, 1))
                  else if b = nul then ((GrDone, r, []), (nm, 1)) else ((GrData, r, []), (nm, 2))))"

definition toyr :: "toyr gzrlib" where
  "toyr = \<lparr>gr_zero = ([], 0), gr_open = (\<lambda>_. (True, ([], 0))), gr_process = toyr_process,
     gr_info = (\<lambda>st. \<lparr>gi_name = fst st, gi_mtime = 0\<rparr>), gr_offset = (\<lambda>_. 0), gr_close = (\<lambda>st. st)\<rparr>"

definition toyr_at :: "toyr \<Rightarrow> gzinfo option \<Rightarrow> bytes \<Rightarrow> bytes \<Rightarrow> bool" where
  "toyr_at st i z d \<longleftrightarrow>
     (case st of (nm, ph) \<Rightarrow>
        (if ph = 0 then (\<exists>r. i = Some \<lparr>gi_name = nm @ r, gi_mtime = 0\<rparr> \<and> nul \<notin> set r \<and> z = r @ nul # body d)
         else i = None \<and> (if ph = 2 then d \<noteq> [] \<and> z = hd d # body (tl d) else ph = 1 \<and> z = body d)))"

definition toyr_mem :: "gzinfo \<Rightarrow> bytes \<Rightarrow> bytes \<Rightarrow> bool" where
  "toyr_mem i z d \<longleftrightarrow> gi_mtime i = 0 \<and> nul \<notin> set (gi_name i) \<and> z = gi_name i @ nul # body d"

lemma body_simps [simp]: "body [] = [nul]" "body (b # x) = CHR 0x01 # b # body x"
  by (simp_all add: body_def)

lemma toyr_step_name:
  assumes c: "prefix c (r @ nul # rs)" and r: "nul \<notin> set r"
  shows "takeWhile (\<lambda>b. b \<noteq> nul) c = c \<and> length c \<le> length r \<and> take (length c) r = c \<or>
    takeWhile (\<lambda>b. b \<noteq> nul) c = r \<and> length r < length c"
proof (cases "length c \<le> length r")
  case True
  have p: "prefix c r" by (rule prefix_length_prefix [OF c _ True]) simp
  have "nul \<notin> set c" using r p by (auto simp: prefix_def)
  then have "takeWhile (\<lambda>b. b \<noteq> nul) c = c" unfolding takeWhile_eq_all_conv by blast
  moreover have "take (length c) r = c" using p by (auto simp: prefix_def)
  ultimately show ?thesis using True by simp
next
  case False
  have "prefix (r @ [nul]) c" by (rule prefix_length_prefix [OF _ c]) (use False in simp_all)
  then obtain y where y: "c = r @ nul # y" by (auto simp: prefix_def)
  have "takeWhile (\<lambda>b. b \<noteq> nul) (r @ nul # y) = r" by (subst takeWhile_append2) (use r in auto)
  moreover have "length r < length (r @ nul # y)" by simp
  ultimately show ?thesis unfolding y by blast
qed

lemma toyr_step: "gzr_step toyr toyr_at (\<lambda>st c. length c) st"
  unfolding gzr_step_def
proof (intro allI impI, elim conjE)
  fix i z d c fw
  assume at: "toyr_at st i z d" and c: "prefix c (z @ fw)"
  obtain nm ph where st: "st = (nm, ph)" by fastforce
  show "gzr_result toyr toyr_at (\<lambda>st c. length c) st i z d c"
  proof (cases "ph = 0")
    case True
    then obtain r where r: "i = Some \<lparr>gi_name = nm @ r, gi_mtime = 0\<rparr>" "nul \<notin> set r" "z = r @ nul # body d"
      using at by (auto simp: toyr_at_def st)
    have "prefix c (r @ nul # body d @ fw)" using c r(3) by simp
    from toyr_step_name [OF this r(2)] show ?thesis
    proof
      assume a: "takeWhile (\<lambda>b. b \<noteq> nul) c = c \<and> length c \<le> length r \<and> take (length c) r = c"
      then have "r = c @ drop (length c) r" by (metis append_take_drop_id)
      moreover from this have "nul \<notin> set (drop (length c) r)" using r(2) by (metis UnCI set_append)
      ultimately show ?thesis using a True r
        by (auto simp: gzr_result_def toyr_def toyr_process_def st toyr_at_def Let_def)
    next
      assume a: "takeWhile (\<lambda>b. b \<noteq> nul) c = r \<and> length r < length c"
      then have "r \<noteq> c" by auto
      then show ?thesis using a True r
        by (auto simp: gzr_result_def toyr_def toyr_process_def st toyr_at_def Let_def intro!: exI [of _ "Suc (length r)"])
    qed
  next
    case False
    then show ?thesis
    proof (cases c)
      case Nil
      with False at show ?thesis
        by (cases d) (auto simp: gzr_result_def toyr_def toyr_process_def st toyr_at_def split: if_splits)
    next
      case (Cons b r)
      with False at c show ?thesis
        by (cases d) (auto simp: gzr_result_def toyr_def toyr_process_def st toyr_at_def split: if_splits intro!: exI [of _ "Suc 0"])
    qed
  qed
qed

lemma toyr_ok: "gzr_ok toyr toyr_mem toyr_at (\<lambda>st c. length c)"
  unfolding gzr_ok_def using toyr_step
  by (auto simp: toyr_def toyr_process_def toyr_at_def toyr_mem_def intro: gzinfo.equality)

lemma toy_codec: "y = arch c x \<Longrightarrow> CHR 0x00 \<notin> set (gc_name c) \<Longrightarrow> \<exists>i. toyr_mem i y x \<and> gi_name i = gc_name c"
  by (intro exI [of _ "\<lparr>gi_name = gc_name c, gi_mtime = 0\<rparr>"]) (auto simp: toyr_mem_def arch_def intro!: filter_True)


section \<open>The theorems at work\<close>

abbreviation rw_core :: "((bytes list, nat, unit, unit, rwd fworld) com, nat) coreif" where
  "rw_core \<equiv> core_of rw_sys cursor_lib 0 (\<lambda>_. rw_obj)"

definition flat_path :: pathlib where
  "flat_path = \<lparr>gp_split = (\<lambda>n. (0, length n)), gp_split_win = (\<lambda>n. (0, length n)), gp_ext = (\<lambda>n. (n, []))\<rparr>"

definition gz_demo :: "((bytes list, nat, unit, unit, rwd fworld) com, nat, toyw) gzenv" where
  "gz_demo = \<lparr>ge_core = rw_core, ge_lib = toyw, ge_path = flat_path, ge_mtime = (\<lambda>_. (1, 0))\<rparr>"

definition ungz_demo :: "((bytes list, nat, unit, unit, rwd fworld) com, nat, toyr) ungzenv" where
  "ungz_demo = \<lparr>ue_core = rw_core, ue_lib = toyr, ue_path = flat_path, ue_1970 = 0\<rparr>"

definition made :: "'w fworld \<Rightarrow> (nat \<Rightarrow> fobj) \<Rightarrow> 'w fworld" where
  "made W mk = W\<lparr>wo_objs := (wo_objs W)(wo_next W := mk 0, Suc (wo_next W) := mk 0), wo_next := Suc (Suc (wo_next W))\<rparr>"

lemma demo_pipe:
  assumes "cmd_at s = cmd_at (ab_com info F)" and "wo_objs (world s) i1 = rw_obj" and "wo_objs (world s) o1 = rw_obj"
    and "wo_sys (world s) = wo_sys (world (ab_com info F))" and "\<not> wo_stop (world s)"
    and "ci_input info = ns" and "ci_input_fd info = None" and "i1 \<noteq> o1"
  shows "core_pipe rw_sys rw_view cursor_lib cursor_names 0 i1 o1 s = Some (\<lparr>st_files = F, st_src = None, st_dst = None,
      st_names = ns, st_pass = name_passes (cursor_lib :: (bytes list, nat, unit, unit, rwd fworld) comlib) info\<rparr>, 0)"
proof -
  let ?w = "wo_sys (world (ab_com info F))"
  have "rw_at fd ?w = None" for fd by (simp add: rw_at_def ab_com_def)
  note pc = rw_pair_closed [OF this]
  have td: "com_todo cursor_lib cursor_names (cmd_at s 0) = Some ns" "cm_info (cmd_at s 0) = info"
    unfolding assms(1) by (simp_all add: ab_com_def com_todo_def add_all_cursor cursor_names_def assms(6,7))
  have f: "rw_files ?w = F" by (simp add: ab_com_def)
  have "core_store rw_sys rw_view cursor_lib cursor_names 0 i1 o1 s = Some \<lparr>st_files = F, st_src = None, st_dst = None,
      st_names = ns, st_pass = name_passes (cursor_lib :: (bytes list, nat, unit, unit, rwd fworld) comlib) info\<rparr>"
    using rw_os_files pc assms(5,8)
    by (simp add: core_store_def Let_def td assms(2-4) f cursor_names_ok del: One_nat_def)
  moreover have "f_cur rw_obj = 0" by (simp add: rw_obj_def disk_obj_def)
  ultimately show ?thesis by (simp add: core_pipe_def in_range_def assms(2) del: One_nat_def)
qed

definition a_info :: "bytes \<Rightarrow> bytes \<Rightarrow> unit cominfo" where
  "a_info n dir = (plain_info [n])\<lparr>ci_chdir := dir\<rparr>"

lemma a_info_simps [simp]:
  "ci_input (a_info n dir) = [n]" "ci_input_fd (a_info n dir) = None" "ci_output (a_info n dir) = []" "ci_chdir (a_info n dir) = dir"
  "\<not> ci_overwrite (a_info n dir)" "cmd_plain (a_info n dir)"
  by (simp_all add: a_info_def plain_info_def cmd_plain_def)

lemma gz_demo_start:
  "\<exists>z s. gz_create gz_demo (Some 9) (a_info n dir) (ab_com (a_info n dir) F) = Some (z, s) \<and>
    gz_cmd z = a_info n dir \<and> gz_st z = GzIn \<and> gz_in z = 1 \<and> gz_out z = 2 \<and> \<not> gz_del z \<and>
    core_pipe rw_sys rw_view cursor_lib cursor_names 0 1 2 s = Some (\<lparr>st_files = F, st_src = None, st_dst = None,
      st_names = [n], st_pass = name_passes (cursor_lib :: (bytes list, nat, unit, unit, rwd fworld) comlib) (a_info n dir)\<rparr>, 0) \<and>
    v_disk rw_view (wo_sys (world s)) = F"
proof -
  obtain z s where c: "gz_create gz_demo (Some 9) (a_info n dir) (ab_com (a_info n dir) F) = Some (z, s)"
    "gz_cmd z = a_info n dir" "gz_st z = GzIn" "gz_in z = 1" "gz_out z = 2" "\<not> gz_del z"
    "cmd_at s = cmd_at (ab_com (a_info n dir) F)" "wo_objs (world s) 1 = rw_obj" "wo_objs (world s) 2 = rw_obj"
    "wo_sys (world s) = wo_sys (world (ab_com (a_info n dir) F))" "\<not> wo_stop (world s)"
    by (simp add: gz_create_def gz_demo_def core_of_def ab_com_def del: One_nat_def)
  moreover have "rw_files (wo_sys (world s)) = F" using c(10) by (simp add: ab_com_def)
  ultimately show ?thesis using demo_pipe [OF c(7-11), of "[n]"] by (auto simp: rw_view_def)
qed

lemma ungz_demo_start:
  "\<exists>u s. ungz_create ungz_demo (a_info n ''out'') (ab_com (a_info n ''out'') F) = Some (u, s) \<and>
    ug_cmd u = a_info n ''out'' \<and> ug_st u = UgIn \<and> ug_in u = 1 \<and> ug_out u = 2 \<and> \<not> ug_opened u \<and> \<not> ug_out_opened u \<and> ug_off u = 0 \<and>
    core_pipe rw_sys rw_view cursor_lib cursor_names 0 1 2 s = Some (\<lparr>st_files = F, st_src = None, st_dst = None,
      st_names = [n], st_pass = name_passes (cursor_lib :: (bytes list, nat, unit, unit, rwd fworld) comlib) (a_info n ''out'')\<rparr>, 0) \<and>
    v_disk rw_view (wo_sys (world s)) = F"
proof -
  obtain u s where c: "ungz_create ungz_demo (a_info n ''out'') (ab_com (a_info n ''out'') F) = Some (u, s)"
    "ug_cmd u = a_info n ''out''" "ug_st u = UgIn" "ug_in u = 1" "ug_out u = 2" "\<not> ug_opened u" "\<not> ug_out_opened u" "ug_off u = 0"
    "cmd_at s = cmd_at (ab_com (a_info n ''out'') F)" "wo_objs (world s) 1 = rw_obj" "wo_objs (world s) 2 = rw_obj"
    "wo_sys (world s) = wo_sys (world (ab_com (a_info n ''out'') F))" "\<not> wo_stop (world s)"
    by (simp add: ungz_create_def ungz_demo_def core_of_def ab_com_def del: One_nat_def)
  moreover have "rw_files (wo_sys (world s)) = F" using c(12) by (simp add: ab_com_def)
  ultimately show ?thesis using demo_pipe [OF c(9-13), of "[n]"] by (auto simp: rw_view_def)
qed

theorem gz_packs_witness:
  "\<exists>z s z' s'. gz_create gz_demo (Some 9) (a_info ''a'' []) (ab_com (a_info ''a'' []) [''a'' \<mapsto> ''data'']) = Some (z, s) \<and>
     gz_run gz_demo z s = Some ((Some 0, z'), s') \<and>
     rw_files (wo_sys (world s')) = [''a'' \<mapsto> ''data'', ''a.gz'' \<mapsto> ''a'' @ nul # body ''data'']"
proof -
  let ?F = "[''a'' \<mapsto> ''data''] :: bytes \<rightharpoonup> bytes"
  obtain z s where c: "gz_create gz_demo (Some 9) (a_info ''a'' []) (ab_com (a_info ''a'' []) ?F) = Some (z, s)"
    "gz_cmd z = a_info ''a'' []" "gz_st z = GzIn" "gz_in z = 1" "gz_out z = 2" "\<not> gz_del z"
    "core_pipe rw_sys rw_view cursor_lib cursor_names 0 1 2 s = Some (\<lparr>st_files = ?F, st_src = None, st_dst = None,
      st_names = [''a''], st_pass = name_passes (cursor_lib :: (bytes list, nat, unit, unit, rwd fworld) comlib) (a_info ''a'' [])\<rparr>, 0)"
    "v_disk rw_view (wo_sys (world s)) = ?F" using gz_demo_start [of "''a''" "[]" ?F] by blast
  have "\<exists>z' s' ys. gz_run gz_demo z s = Some ((Some 0, z'), s') \<and>
    v_disk rw_view (wo_sys (world s')) = ?F ++ map_of (zip (map (\<lambda>n. n @ ''.gz'') [''a'']) ys) \<and>
    list_all2 (\<lambda>n y. \<exists>c. gc_name c = last_part (gp_split (ge_path gz_demo)) n \<and> y = arch c (the (?F n))) [''a''] ys"
    using gz_packs [OF _ _ _ _ _ c(7), where E = gz_demo and z = z and enc = "\<lambda>c x y. y = arch c x" and mk = "\<lambda>_. rw_obj"]
      toyw_ok [of "gz_level z"] c(2-6,8)
    by (simp add: gz_demo_def rw_view_def pack_fresh_def)
  then obtain z' s' ys where r: "gz_run gz_demo z s = Some ((Some 0, z'), s')"
    "v_disk rw_view (wo_sys (world s')) = ?F ++ map_of (zip [''a.gz''] ys)"
    "list_all2 (\<lambda>n y. \<exists>c. gc_name c = last_part (gp_split (ge_path gz_demo)) n \<and> y = arch c (the (?F n))) [''a''] ys" by auto
  have "ys = [''a'' @ nul # body ''data'']"
    using r(3) by (auto simp: list_all2_Cons1 gz_demo_def flat_path_def last_part_def arch_def)
  with r(1,2) c(1) show ?thesis by (intro exI [of _ z] exI [of _ s] exI [of _ z'] exI [of _ s']) (simp add: rw_view_def)
qed

theorem ungz_unpacks_witness:
  "\<exists>u s u' s'. ungz_create ungz_demo (a_info ''a.gz'' ''out'')
       (ab_com (a_info ''a.gz'' ''out'') [''a.gz'' \<mapsto> ''a'' @ nul # body ''one'' @ ''b'' @ nul # body ''two'']) = Some (u, s) \<and>
     ungz_run ungz_demo u s = Some ((Some 0, u'), s') \<and> rw_files (wo_sys (world s')) ''out/a'' = Some ''onetwo''"
proof -
  let ?F = "[''a.gz'' \<mapsto> ''a'' @ nul # body ''one'' @ ''b'' @ nul # body ''two''] :: bytes \<rightharpoonup> bytes"
  let ?m1 = "(\<lparr>gi_name = ''a'', gi_mtime = 0\<rparr>, ''a'' @ nul # body ''one'', ''one'')"
  let ?m2 = "(\<lparr>gi_name = ''b'', gi_mtime = 0\<rparr>, ''b'' @ nul # body ''two'', ''two'')"
  obtain u s where c: "ungz_create ungz_demo (a_info ''a.gz'' ''out'') (ab_com (a_info ''a.gz'' ''out'') ?F) = Some (u, s)"
    "ug_cmd u = a_info ''a.gz'' ''out''" "ug_st u = UgIn" "ug_in u = 1" "ug_out u = 2" "\<not> ug_opened u" "\<not> ug_out_opened u" "ug_off u = 0"
    "core_pipe rw_sys rw_view cursor_lib cursor_names 0 1 2 s = Some (\<lparr>st_files = ?F, st_src = None, st_dst = None,
      st_names = [''a.gz''], st_pass = name_passes (cursor_lib :: (bytes list, nat, unit, unit, rwd fworld) comlib) (a_info ''a.gz'' ''out'')\<rparr>, 0)"
    "v_disk rw_view (wo_sys (world s)) = ?F" using ungz_demo_start [of "''a.gz''" ?F] by blast
  have f: "rw_files (wo_sys (world s)) = ?F" using c(10) by (simp add: rw_view_def)
  have z: "zcat [?m1, ?m2] = ''a'' @ nul # body ''one'' @ ''b'' @ nul # body ''two''" "dcat [?m1, ?m2] = ''onetwo''"
    by (simp_all add: zcat_def dcat_def)
  have "\<exists>u' s'. ungz_run ungz_demo u s = Some ((Some 0, u'), s') \<and>
    v_disk rw_view (wo_sys (world s')) = (v_disk rw_view (wo_sys (world s)))(''out/a'' \<mapsto> dcat [?m1, ?m2])"
  proof (rule ungz_unpacks [OF _ _ _ c(9) _ _ _ _ _ _ _ _ c(3,4,5,6,7,8), where mk = "\<lambda>_. rw_obj"])
    show "gzr_ok (ue_lib ungz_demo) toyr_mem toyr_at (\<lambda>st c. length c)" using toyr_ok by (simp add: ungz_demo_def)
    show "v_disk rw_view (wo_sys (world s)) ''a.gz'' = Some (zcat [?m1, ?m2])" unfolding c(10) z by simp
    show "members toyr_mem [?m1, ?m2]" by (simp add: members_def toyr_mem_def)
  qed (simp_all add: c(2) f ungz_demo_def flat_path_def ungz_out_name_def last_part_def slash_byte_def rw_view_def)
  then show ?thesis using c(1) z(2) by (auto simp: rw_view_def)
qed

theorem gz_ungz_restores_witness:
  "\<exists>z s z' s' u s2 u' s3. gz_create gz_demo (Some 9) (a_info ''a'' []) (ab_com (a_info ''a'' []) [''a'' \<mapsto> ''data'']) = Some (z, s) \<and>
     gz_run gz_demo z s = Some ((Some 0, z'), s') \<and>
     ungz_create ungz_demo (a_info ''a.gz'' ''out'') (ab_com (a_info ''a.gz'' ''out'') (rw_files (wo_sys (world s')))) = Some (u, s2) \<and>
     ungz_run ungz_demo u s2 = Some ((Some 0, u'), s3) \<and> rw_files (wo_sys (world s3)) ''out/a'' = Some ''data''"
proof -
  let ?F = "[''a'' \<mapsto> ''data''] :: bytes \<rightharpoonup> bytes"
  obtain z s where c: "gz_create gz_demo (Some 9) (a_info ''a'' []) (ab_com (a_info ''a'' []) ?F) = Some (z, s)"
    "gz_cmd z = a_info ''a'' []" "gz_st z = GzIn" "gz_in z = 1" "gz_out z = 2" "\<not> gz_del z"
    "core_pipe rw_sys rw_view cursor_lib cursor_names 0 1 2 s = Some (\<lparr>st_files = ?F, st_src = None, st_dst = None,
      st_names = [''a''], st_pass = name_passes (cursor_lib :: (bytes list, nat, unit, unit, rwd fworld) comlib) (a_info ''a'' [])\<rparr>, 0)"
    "v_disk rw_view (wo_sys (world s)) = ?F" using gz_demo_start [of "''a''" "[]" ?F] by blast
  have f: "rw_files (wo_sys (world s)) = ?F" using c(8) by (simp add: rw_view_def)
  define u0 where "u0 = fst (the (ungz_create ungz_demo (a_info ''a.gz'' ''out'') (ab_com (a_info ''a.gz'' ''out'') Map.empty)))"
  have u0: "ug_cmd u0 = a_info ''a.gz'' ''out''" "ug_st u0 = UgIn" "ug_in u0 = 1" "ug_out u0 = 2" "\<not> ug_opened u0"
    "\<not> ug_out_opened u0" "ug_off u0 = 0"
    and mk0: "\<And>F. \<exists>s. ungz_create ungz_demo (a_info ''a.gz'' ''out'') (ab_com (a_info ''a.gz'' ''out'') F) = Some (u0, s)"
    by (simp_all add: u0_def ungz_create_def ungz_demo_def core_of_def ab_com_def del: One_nat_def)
  have "\<exists>z' s'. gz_run gz_demo z s = Some ((Some 0, z'), s') \<and>
    (\<forall>s2 A2 q. core_pipe rw_sys rw_view cursor_lib cursor_names 0 1 2 s2 = Some (A2, q) \<and> st_dst A2 = None \<and> st_names A2 = [''a'' @ ''.gz''] \<and>
        v_disk rw_view (wo_sys (world s2)) = v_disk rw_view (wo_sys (world s')) \<longrightarrow>
      (\<exists>u' s3. ungz_run ungz_demo u0 s2 = Some ((Some 0, u'), s3) \<and> v_disk rw_view (wo_sys (world s3)) ''out/a'' = Some ''data''))"
  proof (rule gz_ungz_restores [OF _ _ _ _ _ c(7) _ _ _ c(3-6) _ _ _ _ u0(2-7) toy_codec, where mk = "\<lambda>_. rw_obj" and ?mk2.0 = "\<lambda>_. rw_obj"])
    show "gzw_ok (ge_lib gz_demo) (\<lambda>c x y. y = arch c x) toyw_at toyw_left (gz_level z)" using toyw_ok by (simp add: gz_demo_def)
    show "gzr_ok (ue_lib ungz_demo) toyr_mem toyr_at (\<lambda>st c. length c)" using toyr_ok by (simp add: ungz_demo_def)
  qed (simp_all add: c(2) f u0(1) gz_demo_def ungz_demo_def flat_path_def ungz_out_name_def last_part_def slash_byte_def rw_view_def pack_fresh_def)
  then obtain z' s' where r: "gz_run gz_demo z s = Some ((Some 0, z'), s')"
    "\<forall>s2 A2 q. core_pipe rw_sys rw_view cursor_lib cursor_names 0 1 2 s2 = Some (A2, q) \<and> st_dst A2 = None \<and> st_names A2 = [''a'' @ ''.gz''] \<and>
        v_disk rw_view (wo_sys (world s2)) = v_disk rw_view (wo_sys (world s')) \<longrightarrow>
      (\<exists>u' s3. ungz_run ungz_demo u0 s2 = Some ((Some 0, u'), s3) \<and> v_disk rw_view (wo_sys (world s3)) ''out/a'' = Some ''data'')" by blast
  let ?F2 = "rw_files (wo_sys (world s'))"
  obtain u s2 where c2: "ungz_create ungz_demo (a_info ''a.gz'' ''out'') (ab_com (a_info ''a.gz'' ''out'') ?F2) = Some (u, s2)"
    "core_pipe rw_sys rw_view cursor_lib cursor_names 0 1 2 s2 = Some (\<lparr>st_files = ?F2, st_src = None, st_dst = None,
      st_names = [''a.gz''], st_pass = name_passes (cursor_lib :: (bytes list, nat, unit, unit, rwd fworld) comlib) (a_info ''a.gz'' ''out'')\<rparr>, 0)"
    "v_disk rw_view (wo_sys (world s2)) = ?F2" using ungz_demo_start [of "''a.gz''" ?F2] by blast
  have "u = u0" using mk0 [of ?F2] c2(1) by auto
  then obtain u' s3 where "ungz_run ungz_demo u s2 = Some ((Some 0, u'), s3)" "v_disk rw_view (wo_sys (world s3)) ''out/a'' = Some ''data''"
    using r(2) c2(2,3) by (fastforce simp: rw_view_def)
  then show ?thesis using c(1) r(1) c2(1) by (auto simp: rw_view_def)
qed

end
