(* ===== verification/HtmlDemo.thy ===== *)
theory HtmlDemo
  imports HtmlProps PackDemo
begin

text \<open>
  The properties of \<^theory_text>\<open>HtmlProps\<close> at work: a page on the disk of \<^theory_text>\<open>RwDisk\<close>.
\<close>

definition ref_htmllib :: htmllib where
  "ref_htmllib = \<lparr>hl_findany = (\<lambda>d cs. find_first (\<lambda>c. c \<in> set cs) d), hl_skip_ranges = (\<lambda>d r. find_first (\<lambda>c. \<not> in_ranges r c) d),
     hl_str = ref_strlib\<rparr>"

lemma ref_htmllib_ok: "htmllib_ok ref_htmllib"
  by (simp add: htmllib_ok_def ref_htmllib_def)

definition html_demo :: "((bytes list, nat, unit, unit, rwd fworld) com, nat) htmlenv" where
  "html_demo = \<lparr>he_core = rw_core, he_lib = ref_htmllib, he_readwhole = (\<lambda>n s. Some (rw_files (wo_sys (world s)) n, s))\<rparr>"

definition page_info :: "unit cominfo" where
  "page_info = (plain_info [''p''])\<lparr>ci_output := ''out''\<rparr>"

lemma html_demo_start:
  "\<exists>h s. html_create html_demo ''a.href'' page_info (ab_com page_info F) = Some (h, s) \<and> ho_st h = HoIn \<and> ho_out h = 1 \<and>
    ho_buf h = [] \<and> ho_html h = ht HsText HsText 0 \<and> ho_conf h = \<lparr>hc_tag = ''a'', hc_attr = ''href''\<rparr> \<and>
    ci_output (ho_cmd h) = ''out'' \<and> cmd_plain (ho_cmd h) \<and> \<not> ci_overwrite (ho_cmd h) \<and>
    cmd_at s = cmd_at (ab_com page_info F) \<and> wo_objs (world s) 2 = rw_obj \<and> wo_objs (world s) 1 = rw_obj \<and>
    wo_sys (world s) = wo_sys (world (ab_com page_info F)) \<and> \<not> wo_stop (world s)"
  by (simp add: html_create_def html_demo_def ref_htmllib_def ref_strlib_def core_of_def ab_com_def page_info_def plain_info_def cmd_plain_def
    ht_def del: One_nat_def)

definition page :: "hitem list" where
  "page = [HText ''x'', HOpen ''a'' [(''id'', Some ''1''), (''href'', Some ''one'')] False, HText ''t'', HClose ''a'',
     HOpen ''b'' [(''href'', Some ''no'')] False, HOpen ''A'' [(''disabled'', None), (''href'', Some ''two'')] True]"

lemma page_ok: "\<forall>i \<in> set page. hitem_ok i"
  by (simp add: page_def hattr_ok_def word_def alnum_def ranges_alnum_def)

lemma page_text: "doc_text page = ''x<a id=\"1\" href=\"one\">t</a><b href=\"no\"><A disabled href=\"two\"/>''"
  by (simp add: page_def)

lemma page_pick: "value_lines (doc_pick ref_htmllib \<lparr>hc_tag = ''a'', hc_attr = ''href''\<rparr> page) = ''one'' @ [CHR 0x0A] @ ''two'' @ [CHR 0x0A]"
  by (simp add: page_def ref_htmllib_def ref_strlib_def lower_def char_of_def bit_0)

theorem html_prints_values_witness:
  "\<exists>h s h' s'. html_create html_demo ''a.href'' page_info (ab_com page_info [''p'' \<mapsto> ''x<a id=\"1\" href=\"one\">t</a><b href=\"no\"><A disabled href=\"two\"/>'']) =
      Some (h, s) \<and>
     html_run html_demo h s = Some ((Some 0, h'), s') \<and>
     rw_files (wo_sys (world s')) ''out'' = Some (''one'' @ [CHR 0x0A] @ ''two'' @ [CHR 0x0A])"
proof -
  let ?F = "[''p'' \<mapsto> doc_text page] :: bytes \<rightharpoonup> bytes"
  obtain h s where c: "html_create html_demo ''a.href'' page_info (ab_com page_info ?F) = Some (h, s)" "ho_st h = HoIn" "ho_out h = 1"
    "ho_buf h = []" "ho_html h = ht HsText HsText 0" "ho_conf h = \<lparr>hc_tag = ''a'', hc_attr = ''href''\<rparr>"
    "ci_output (ho_cmd h) = ''out''" "cmd_plain (ho_cmd h)" "\<not> ci_overwrite (ho_cmd h)"
    "cmd_at s = cmd_at (ab_com page_info ?F)" "wo_objs (world s) 2 = rw_obj" "wo_objs (world s) 1 = rw_obj"
    "wo_sys (world s) = wo_sys (world (ab_com page_info ?F))" "\<not> wo_stop (world s)"
    using html_demo_start [of ?F] by (elim exE conjE) (rule that)
  have i: "ci_input page_info = [''p'']" "ci_input_fd page_info = None" by (simp_all add: page_info_def plain_info_def)
  have A: "core_pipe rw_sys rw_view cursor_lib cursor_names 0 2 1 s = Some (\<lparr>st_files = ?F, st_src = None, st_dst = None,
      st_names = [''p''], st_pass = name_passes (cursor_lib :: (bytes list, nat, unit, unit, rwd fworld) comlib) page_info\<rparr>, 0)"
    by (rule demo_pipe [OF c(10-14) i]) simp
  have f: "rw_files (wo_sys (world s)) = ?F" using c(13) by (simp add: ab_com_def)
  have "\<exists>h' s'. html_run html_demo h s = Some ((Some 0, h'), s') \<and> v_disk rw_view (wo_sys (world s')) = (v_disk rw_view (wo_sys (world s)))
      (''out'' \<mapsto> value_lines (concat (map (\<lambda>n. doc_pick (he_lib html_demo) (ho_conf h) ((\<lambda>_. page) n)) (st_names
        (\<lparr>st_files = ?F, st_src = None, st_dst = None, st_names = [''p''],
          st_pass = name_passes (cursor_lib :: (bytes list, nat, unit, unit, rwd fworld) comlib) page_info\<rparr>)))))"
  proof (rule html_prints_values [OF _ _ c(8,7) A _ _ _ _ _ _ _ _ c(2,3,4,5), where mk = "\<lambda>_. rw_obj"])
    show "\<forall>s A p n d. core_pipe rw_sys rw_view cursor_lib cursor_names 0 2 1 s = Some (A, p) \<and> st_files A n = Some d \<longrightarrow>
        gives (core_pipe rw_sys rw_view cursor_lib cursor_names 0 2 1) (he_readwhole html_demo n s) (Some d) (A, p)"
      using core_pipe_file [of rw_sys rw_view cursor_lib cursor_names 0 2 1] by (fastforce simp: gives_def html_demo_def rw_view_def)
    show "\<forall>n w. v_disk rw_view (wo_sys w) n \<noteq> None \<longrightarrow> path_isdir cursor_lib n w = (Some False, w)" by (simp add: cursor_lib_def)
  qed (use ref_htmllib_ok page_ok f in \<open>simp_all add: html_demo_def rw_view_def name_passes_def page_info_def plain_info_def\<close>)
  then obtain h' s' where r: "html_run html_demo h s = Some ((Some 0, h'), s')"
    "rw_files (wo_sys (world s')) = ?F(''out'' \<mapsto> ''one'' @ [CHR 0x0A] @ ''two'' @ [CHR 0x0A])"
    using page_pick f c(6) by (auto simp: html_demo_def rw_view_def)
  then show ?thesis using c(1) unfolding page_text by auto
qed

theorem html_unquoted_hangs_witness:
  "\<exists>h s. html_create html_demo ''a.href'' page_info (ab_com page_info [''p'' \<mapsto> ''<a href=x>'']) = Some (h, s) \<and> html_run html_demo h s = None"
proof -
  let ?F = "[''p'' \<mapsto> ''<a href=x>''] :: bytes \<rightharpoonup> bytes"
  obtain h s where c: "html_create html_demo ''a.href'' page_info (ab_com page_info ?F) = Some (h, s)" "ho_st h = HoIn"
    "ho_html h = ht HsText HsText 0" "cmd_at s = cmd_at (ab_com page_info ?F)" "wo_objs (world s) 2 = rw_obj" "wo_objs (world s) 1 = rw_obj"
    "wo_sys (world s) = wo_sys (world (ab_com page_info ?F))" "\<not> wo_stop (world s)"
    using html_demo_start [of ?F] by (elim exE conjE) (rule that)
  have i: "ci_input page_info = [''p'']" "ci_input_fd page_info = None" by (simp_all add: page_info_def plain_info_def)
  let ?A = "\<lparr>st_files = ?F, st_src = None, st_dst = None,
      st_names = [''p''], st_pass = name_passes (cursor_lib :: (bytes list, nat, unit, unit, rwd fworld) comlib) page_info\<rparr>"
  have A: "core_pipe rw_sys rw_view cursor_lib cursor_names 0 2 1 s = Some (?A, 0)" by (rule demo_pipe [OF c(4-8) i]) simp
  obtain b s1 where 1: "com_input_next rw_core 0 s = Some (ROk ''p'' b, s1)"
    "core_pipe rw_sys rw_view cursor_lib cursor_names 0 2 1 s1 = Some (?A\<lparr>st_names := []\<rparr>, 0)"
    using pipe.pp_next [where mk = "\<lambda>_. rw_obj", OF A, of "''p''" "[]"] unfolding gives_def by auto
  have 2: "gives (core_pipe rw_sys rw_view cursor_lib cursor_names 0 2 1) (com_input_allowed rw_core ''p'' IaAuto s1) True (?A\<lparr>st_names := []\<rparr>, 0)"
    by (rule core_pipe_allowed [OF 1(2)]) (simp_all add: name_passes_def page_info_def plain_info_def cursor_lib_def)
  then obtain s2 where s2: "com_input_allowed rw_core ''p'' IaAuto s1 = Some (True, s2)"
    "core_pipe rw_sys rw_view cursor_lib cursor_names 0 2 1 s2 = Some (?A\<lparr>st_names := []\<rparr>, 0)" by (auto elim: givesE)
  have f: "rw_files (wo_sys (world s2)) ''p'' = Some ''<a href=x>''"
    using core_pipe_file [OF s2(2), of "''p''"] by (simp add: rw_view_def)
  have "html_run html_demo h s = None"
    by (rule html_unquoted_hangs [where its = "[]" and t = "''a''" and as = "[]" and n = "''href''" and c = "CHR ''x''" and y = "''>''",
        OF _ _ _ _ _ _ _ _ _ _ _ c(2,3)])
      (use ref_htmllib_ok c(8) 1(1) s2(1) f in \<open>simp_all add: html_demo_def word_def alnum_def blank_def ranges_alnum_def ranges_white_def\<close>,
       simp add: core_of_def)
  with c(1) show ?thesis by blast
qed

end
