(* ===== verification/Zst.thy ===== *)
theory Zst
  imports Gz
begin

text \<open>
  The operations \<open>zst\<close> and \<open>unzst\<close> (\<open>src/pack/zst.c\<close>, \<open>src/pack/unzst.c\<close>). The encoder and the decoder of
  zstd-ff are parameters. Log lines are left out.
\<close>

section \<open>Compression\<close>

text \<open>
  \<open>zs_encode\<close> takes the state, the input, the capacity of the output buffer and whether the flag \<open>ZSTD_FFINISH\<close>
  is set; it gives the code (negative: error), the number of bytes taken in and the output.
\<close>

record 'e zstlib =
  zs_init :: "32 word \<Rightarrow> 32 word \<Rightarrow> 'e"
  zs_encode :: "'e \<Rightarrow> bytes \<Rightarrow> nat \<Rightarrow> bool \<Rightarrow> (int \<times> nat \<times> bytes) \<times> 'e"

record ('s, 'i, 'e) zstenv =
  ze_core :: "('s, 'i) coreif"
  ze_lib :: "'e zstlib"
  ze_path :: pathlib

datatype zst_st = ZsIn | ZsInOpen | ZsOutOpen | ZsRead | ZsComp | ZsWrite

record ('k, 'e) zst =
  zs_st :: zst_st
  zs_cmd :: "'k cominfo"
  zs_iname :: bytes
  zs_basename :: bytes
  zs_oname :: "bytes option"
  zs_in :: nat
  zs_out :: nat
  zs_zst :: 'e
  zs_finish :: bool
  zs_data :: bytes
  zs_zdata :: bytes
  zs_cap :: nat
  zs_del :: bool
  zs_in_total :: nat
  zs_out_total :: nat

type_synonym ('s, 'k, 'e) zst_turn = "('k, 'e) zst \<Rightarrow> ('s, ('k, 'e) zst + ('k, 'e) zst \<times> int) act"

definition pack_buf :: "'k cominfo \<Rightarrow> nat" where
  "pack_buf cmd = (if ci_buffer_size cmd \<noteq> 0 then ci_buffer_size cmd else 64 * 1024)"

definition with_chdir :: "'k cominfo \<Rightarrow> 'k cominfo" where
  "with_chdir cmd = (if ci_chdir cmd = [] then cmd\<lparr>ci_chdir := ''.''\<rparr> else cmd)"

definition zst_create :: "('s, 'i, 'e) zstenv \<Rightarrow> 32 word option \<Rightarrow> 32 word option \<Rightarrow> 'k cominfo \<Rightarrow> ('s, ('k, 'e) zst) act" where
  "zst_create E level workers cmd0 s =
     (let cmd = with_chdir cmd0;
          e = zs_init (ze_lib E) (case level of None \<Rightarrow> 3 | Some l \<Rightarrow> l) (case workers of None \<Rightarrow> 1 | Some n \<Rightarrow> n)
      in do { (i, s) \<leftarrow> fi_create (ze_core E) (ci_buffer_size cmd) s;
              (o1, s) \<leftarrow> fi_create (ze_core E) (ci_buffer_size cmd) s;
              Some (\<lparr>zs_st = ZsIn, zs_cmd = cmd, zs_iname = [], zs_basename = [], zs_oname = None, zs_in = i, zs_out = o1,
                     zs_zst = e, zs_finish = False, zs_data = [], zs_zdata = [], zs_cap = pack_buf cmd, zs_del = False,
                     zs_in_total = 0, zs_out_total = 0\<rparr>, s) })"

definition zst_close :: "('s, 'i, 'e) zstenv \<Rightarrow> ('k, 'e) zst \<Rightarrow> ('s, unit) act" where
  "zst_close E z s =
     do { (_, s) \<leftarrow> fi_destroy (ze_core E) (zs_in z) s;
          (_, s) \<leftarrow> (if zs_del z then fi_del (ze_core E) (the (zs_oname z)) s else Some (True, s));
          fi_destroy (ze_core E) (zs_out z) s }"

definition zst_out_name :: "pathlib \<Rightarrow> 'k cominfo \<Rightarrow> bytes \<Rightarrow> bytes" where
  "zst_out_name P cmd n =
     (if ci_output cmd \<noteq> [] then ci_output cmd
      else ci_chdir cmd @ slash_byte @ last_part (gp_split P) n @ ''.zst'')"

definition zst_write :: "('s, 'i, 'e) zstenv \<Rightarrow> ('s, 'k, 'e) zst_turn" where
  "zst_write E z s =
     do { (r, s) \<leftarrow> fi_write (ze_core E) (zs_out z) (zs_zdata z) None s;
          if r = FErr then Some (Inr (z, 1), s)
          else if r = FAsync then Some (Inr (z, GZ_ASYNC), s)
          else Some (Inl (z\<lparr>zs_st := ZsComp\<rparr>), s) }"

definition zst_comp :: "('s, 'i, 'e) zstenv \<Rightarrow> ('s, 'k, 'e) zst_turn" where
  "zst_comp E z s =
     (case zs_encode (ze_lib E) (zs_zst z) (zs_data z) (zs_cap z) (zs_finish z) of
        ((r, n, out), e) \<Rightarrow>
          (let z = z\<lparr>zs_zst := e, zs_data := drop n (zs_data z), zs_zdata := out,
                     zs_in_total := zs_in_total z + n, zs_out_total := zs_out_total z + length out\<rparr>
           in if r < 0 then Some (Inr (z, 1), s)
              else if out = [] then
                (if zs_finish z then Some (Inl (z\<lparr>zs_del := False, zs_st := ZsIn\<rparr>), s)
                 else Some (Inl (z\<lparr>zs_st := ZsRead\<rparr>), s))
              else zst_write E (z\<lparr>zs_st := ZsWrite\<rparr>) s))"

definition zst_read :: "('s, 'i, 'e) zstenv \<Rightarrow> ('s, 'k, 'e) zst_turn" where
  "zst_read E z s =
     do { ((r, d), s) \<leftarrow> fi_read (ze_core E) (zs_in z) None s;
          if r = FErr then Some (Inr (z, 1), s)
          else if r = FAsync then Some (Inr (z, GZ_ASYNC), s)
          else zst_comp E (z\<lparr>zs_data := d, zs_finish := (zs_finish z \<or> r = FEof), zs_st := ZsComp\<rparr>) s }"

definition zst_out_open :: "('s, 'i, 'e) zstenv \<Rightarrow> ('s, 'k, 'e) zst_turn" where
  "zst_out_open E z s =
     do { (r, s) \<leftarrow> fi_open (ze_core E) (zs_out z) (the (zs_oname z)) (FCOM_FILE_WRITE OR fcom_file_cominfo_flags_o (zs_cmd z)) s;
          if r = FErr then Some (Inr (z, 1), s)
          else zst_read E (z\<lparr>zs_del := (\<not> ci_stdout (zs_cmd z) \<and> \<not> ci_test (zs_cmd z)), zs_st := ZsRead\<rparr>) s }"

definition zst_in_open :: "('s, 'i, 'e) zstenv \<Rightarrow> ('s, 'k, 'e) zst_turn" where
  "zst_in_open E z s =
     do { (r, s) \<leftarrow> fi_open (ze_core E) (zs_in z) (zs_iname z) (fcom_file_cominfo_flags_i (zs_cmd z) OR FCOM_FILE_READ) s;
          if r = FErr then Some (Inr (z, 1), s)
          else
            (let z = (if ci_stdout (zs_cmd z) then z else z\<lparr>zs_oname := Some (zst_out_name (ze_path E) (zs_cmd z) (zs_iname z))\<rparr>)
             in zst_out_open E (z\<lparr>zs_st := ZsOutOpen\<rparr>) s) }"

definition zst_in_next :: "('s, 'i, 'e) zstenv \<Rightarrow> ('s, 'k, 'e) zst_turn" where
  "zst_in_next E z s =
     do { (r, s) \<leftarrow> com_input_next (ze_core E) 0 s;
          case r of
            RNomore \<Rightarrow> Some (Inr (z, 0), s)
          | RErr \<Rightarrow> Some (Inr (z, 1), s)
          | ROk n b \<Rightarrow> zst_in_open E (z\<lparr>zs_iname := n, zs_basename := b, zs_st := ZsInOpen\<rparr>) s }"

definition zst_turn :: "('s, 'i, 'e) zstenv \<Rightarrow> ('s, 'k, 'e) zst_turn" where
  "zst_turn E z s =
     (case zs_st z of
        ZsIn \<Rightarrow> zst_in_next E z s | ZsInOpen \<Rightarrow> zst_in_open E z s | ZsOutOpen \<Rightarrow> zst_out_open E z s
      | ZsRead \<Rightarrow> zst_read E z s | ZsComp \<Rightarrow> zst_comp E z s | ZsWrite \<Rightarrow> zst_write E z s)"

definition zst_run :: "('s, 'i, 'e) zstenv \<Rightarrow> ('k, 'e) zst \<Rightarrow> ('s, int option \<times> ('k, 'e) zst) act" where
  "zst_run E z s =
     do { ((z, rc), s) \<leftarrow> op_loop (stop_flag (ze_core E)) (zst_turn E) z s;
          if rc = GZ_ASYNC then Some ((None, z), s)
          else do { (_, s) \<leftarrow> zst_close E z s; Some ((Some rc, z), s) } }"

section \<open>Decompression\<close>

text \<open>\<open>zd_init\<close> makes a new decoder; \<open>z->zst\<close> is \<^const>\<open>None\<close> before the first and after each archive.\<close>

record 'r unzstlib =
  zd_init :: 'r
  zd_decode :: "'r option \<Rightarrow> bytes \<Rightarrow> nat \<Rightarrow> (int \<times> nat \<times> bytes) \<times> 'r option"

record ('s, 'i, 'r) unzstenv =
  zu_core :: "('s, 'i) coreif"
  zu_lib :: "'r unzstlib"
  zu_path :: pathlib
  zu_mtime :: "'i \<Rightarrow> fftime"

datatype unzst_st = UzIn | UzInOpen | UzOutOpen | UzRead | UzDecomp | UzWrite

record ('k, 'r) unzst =
  uz_st :: unzst_st
  uz_cmd :: "'k cominfo"
  uz_iname :: bytes
  uz_basename :: bytes
  uz_oname :: "bytes option"
  uz_in :: nat
  uz_out :: nat
  uz_zst :: "'r option"
  uz_data :: bytes
  uz_zdata :: bytes
  uz_cap :: nat
  uz_out_opened :: bool
  uz_del :: bool
  uz_in_total :: nat
  uz_out_total :: nat

type_synonym ('s, 'k, 'r) unzst_turn = "('k, 'r) unzst \<Rightarrow> ('s, ('k, 'r) unzst + ('k, 'r) unzst \<times> int) act"

definition unzst_create :: "('s, 'i, 'r) unzstenv \<Rightarrow> 'k cominfo \<Rightarrow> ('s, ('k, 'r) unzst) act" where
  "unzst_create E cmd0 s =
     (let cmd = with_chdir cmd0
      in do { (i, s) \<leftarrow> fi_create (zu_core E) (ci_buffer_size cmd) s;
              (o1, s) \<leftarrow> fi_create (zu_core E) (ci_buffer_size cmd) s;
              Some (\<lparr>uz_st = UzIn, uz_cmd = cmd, uz_iname = [], uz_basename = [], uz_oname = None, uz_in = i, uz_out = o1,
                     uz_zst = None, uz_data = [], uz_zdata = [], uz_cap = pack_buf cmd, uz_out_opened = False,
                     uz_del = False, uz_in_total = 0, uz_out_total = 0\<rparr>, s) })"

definition unzst_close :: "('s, 'i, 'r) unzstenv \<Rightarrow> ('k, 'r) unzst \<Rightarrow> ('s, unit) act" where
  "unzst_close E z s =
     do { (_, s) \<leftarrow> fi_destroy (zu_core E) (uz_in z) s;
          (_, s) \<leftarrow> (if uz_del z then fi_del (zu_core E) (the (uz_oname z)) s else Some (True, s));
          fi_destroy (zu_core E) (uz_out z) s }"

text \<open>\<open>odir/iname\<close> less the extension \<open>ext0\<close>, as \<open>unzst\<close> and \<open>unxz\<close> name their output.\<close>

definition strip_name :: "pathlib \<Rightarrow> bytes \<Rightarrow> 'k cominfo \<Rightarrow> bytes \<Rightarrow> bytes" where
  "strip_name P ext0 cmd n =
     (if ci_output cmd \<noteq> [] then ci_output cmd
      else
        (let f = last_part (gp_split P) n; (name, ext) = gp_ext P f
         in ci_chdir cmd @ slash_byte @ (if ext = ext0 then name else f)))"

definition unzst_out_name :: "pathlib \<Rightarrow> 'k cominfo \<Rightarrow> bytes \<Rightarrow> bytes" where
  "unzst_out_name P = strip_name P ''zst''"

datatype zst_ret = ZrErro | ZrMore | ZrData

definition zst_decode :: "'r unzstlib \<Rightarrow> ('k, 'r) unzst \<Rightarrow> zst_ret \<times> ('k, 'r) unzst" where
  "zst_decode G z =
     (case zd_decode G (uz_zst z) (uz_zdata z) (uz_cap z) of
        ((r, n, out), d) \<Rightarrow>
          (let z = z\<lparr>uz_zst := d, uz_zdata := drop n (uz_zdata z), uz_data := out,
                     uz_in_total := uz_in_total z + n, uz_out_total := uz_out_total z + length out\<rparr>
           in (if r < 0 then ZrErro else if out = [] then ZrMore else ZrData, z)))"

definition unzst_write :: "('s, 'i, 'r) unzstenv \<Rightarrow> ('s, 'k, 'r) unzst_turn" where
  "unzst_write E z s =
     do { (r, s) \<leftarrow> fi_write (zu_core E) (uz_out z) (uz_data z) None s;
          if r = FErr then Some (Inr (z, 1), s)
          else if r = FAsync then Some (Inr (z, GZ_ASYNC), s)
          else Some (Inl (z\<lparr>uz_st := UzDecomp\<rparr>), s) }"

definition unzst_out_open :: "('s, 'i, 'r) unzstenv \<Rightarrow> ('s, 'k, 'r) unzst_turn" where
  "unzst_out_open E z s =
     do { (r, s) \<leftarrow> fi_open (zu_core E) (uz_out z) (the (uz_oname z)) (FCOM_FILE_WRITE OR fcom_file_cominfo_flags_o (uz_cmd z)) s;
          if r = FErr then Some (Inr (z, 1), s)
          else
            (let z = z\<lparr>uz_del := (\<not> ci_stdout (uz_cmd z) \<and> \<not> ci_test (uz_cmd z))\<rparr>
             in do { ((r, fi), s) \<leftarrow> fi_info (zu_core E) (uz_in z) s;
                     if r = FErr then Some (Inr (z, 1), s)
                     else do { (_, s) \<leftarrow> fi_mtime_set (zu_core E) (uz_out z) (zu_mtime E (the fi)) s;
                               Some (Inl (z\<lparr>uz_st := UzDecomp\<rparr>), s) } }) }"

definition unzst_decomp :: "('s, 'i, 'r) unzstenv \<Rightarrow> ('s, 'k, 'r) unzst_turn" where
  "unzst_decomp E z0 s =
     (case zst_decode (zu_lib E) z0 of
        (ZrMore, z) \<Rightarrow> Some (Inl (z\<lparr>uz_st := UzRead\<rparr>), s)
      | (ZrErro, z) \<Rightarrow> Some (Inr (z, 1), s)
      | (ZrData, z) \<Rightarrow> Some (Inl (z\<lparr>uz_st := UzWrite\<rparr>), s))"

definition unzst_read :: "('s, 'i, 'r) unzstenv \<Rightarrow> ('s, 'k, 'r) unzst_turn" where
  "unzst_read E z s =
     do { ((r, d), s) \<leftarrow> fi_read (zu_core E) (uz_in z) None s;
          if r = FErr then Some (Inr (z, 1), s)
          else if r = FAsync then Some (Inr (z, GZ_ASYNC), s)
          else if r = FEof then
            do { (r, s) \<leftarrow> fi_flush (zu_core E) (uz_out z) s;
                 if r = FAsync then Some (Inr (z\<lparr>uz_zdata := d\<rparr>, GZ_ASYNC), s)
                 else do { (_, s) \<leftarrow> fi_close (zu_core E) (uz_out z) s;
                           Some (Inl (z\<lparr>uz_zdata := d, uz_zst := None, uz_in_total := 0, uz_out_total := 0,
                             uz_out_opened := False, uz_del := False, uz_st := UzIn\<rparr>), s) } }
          else if \<not> uz_out_opened z then
            (let z = z\<lparr>uz_zdata := d, uz_out_opened := True, uz_zst := Some (zd_init (zu_lib E))\<rparr>;
                 z = (if ci_stdout (uz_cmd z) then z
                      else z\<lparr>uz_oname := Some (unzst_out_name (zu_path E) (uz_cmd z) (uz_iname z))\<rparr>)
             in Some (Inl (z\<lparr>uz_st := UzOutOpen\<rparr>), s))
          else unzst_decomp E (z\<lparr>uz_zdata := d, uz_st := UzDecomp\<rparr>) s }"

definition unzst_in_open :: "('s, 'i, 'r) unzstenv \<Rightarrow> ('s, 'k, 'r) unzst_turn" where
  "unzst_in_open E z s =
     do { (r, s) \<leftarrow> fi_open (zu_core E) (uz_in z) (uz_iname z) (fcom_file_cominfo_flags_i (uz_cmd z) OR FCOM_FILE_READ) s;
          if r = FErr then Some (Inr (z, 1), s)
          else unzst_read E (z\<lparr>uz_st := UzRead\<rparr>) s }"

definition unzst_in_next :: "('s, 'i, 'r) unzstenv \<Rightarrow> ('s, 'k, 'r) unzst_turn" where
  "unzst_in_next E z s =
     do { (r, s) \<leftarrow> com_input_next (zu_core E) 0 s;
          case r of
            RNomore \<Rightarrow> Some (Inr (z, 0), s)
          | RErr \<Rightarrow> Some (Inr (z, 1), s)
          | ROk n b \<Rightarrow> unzst_in_open E (z\<lparr>uz_iname := n, uz_basename := b, uz_st := UzInOpen\<rparr>) s }"

definition unzst_turn :: "('s, 'i, 'r) unzstenv \<Rightarrow> ('s, 'k, 'r) unzst_turn" where
  "unzst_turn E z s =
     (case uz_st z of
        UzIn \<Rightarrow> unzst_in_next E z s | UzInOpen \<Rightarrow> unzst_in_open E z s | UzOutOpen \<Rightarrow> unzst_out_open E z s
      | UzRead \<Rightarrow> unzst_read E z s | UzDecomp \<Rightarrow> unzst_decomp E z s | UzWrite \<Rightarrow> unzst_write E z s)"

definition unzst_run :: "('s, 'i, 'r) unzstenv \<Rightarrow> ('k, 'r) unzst \<Rightarrow> ('s, int option \<times> ('k, 'r) unzst) act" where
  "unzst_run E z s =
     do { ((z, rc), s) \<leftarrow> op_loop (stop_flag (zu_core E)) (unzst_turn E) z s;
          if rc = GZ_ASYNC then Some ((None, z), s)
          else do { (_, s) \<leftarrow> unzst_close E z s; Some ((Some rc, z), s) } }"

end
