(* ===== verification/ZstProps.thy ===== *)
theory ZstProps
  imports Zst Pipe CopyProps
begin

text \<open>
  \<open>unzst\<close> never calls the decoder before it was made; \<open>zst\<close> cuts every input file after the first at
  the end of its first piece.
\<close>

section \<open>The decoder is made before it is used\<close>

lemma bind_pair_cong: "(\<And>a b. f a b = g a b) \<Longrightarrow> Option.bind x (\<lambda>(a, b). f a b) = Option.bind x (\<lambda>(a, b). g a b)"
  by (cases x) auto

text \<open>Two turns that agree on what the loop reaches give the same run.\<close>

lemma op_loop_agree_Some:
  assumes run: "op_loop stopped turn c s = Some x" and start: "I c s"
    and same: "\<And>c s. I c s \<Longrightarrow> turn' c s = turn c s" and go: "\<And>c s c1 s1. I c s \<Longrightarrow> turn c s = Some (Inl c1, s1) \<Longrightarrow> I c1 s1"
  shows "op_loop stopped turn' c s = Some x"
proof -
  have "stopped = stopped \<and> turn = turn \<and> I c s \<longrightarrow> op_loop stopped turn' c s = Some x"
  proof (rule op_loop.raw_induct [where P = "\<lambda>st tn c s x. st = stopped \<and> tn = turn \<and> I c s \<longrightarrow> op_loop stopped turn' c s = Some x", OF _ run])
    fix loop st tn c s x
    assume ih: "\<And>st tn c s x. loop st tn c s = Some x \<Longrightarrow> st = stopped \<and> tn = turn \<and> I c s \<longrightarrow> op_loop stopped turn' c s = Some x"
      and eq: "(if st s then Some ((c, 1), s) else tn c s \<bind> (\<lambda>x. case fst x of
          Inl c' \<Rightarrow> loop st tn c' (snd x) | Inr r \<Rightarrow> Some (r, snd x))) = Some x"
    show "st = stopped \<and> tn = turn \<and> I c s \<longrightarrow> op_loop stopped turn' c s = Some x"
    proof (intro impI, elim conjE)
      assume e: "st = stopped" "tn = turn" "I c s"
      show "op_loop stopped turn' c s = Some x"
      proof (cases "stopped s")
        case True
        then show ?thesis using eq e by (subst op_loop.simps) simp
      next
        case False
        with eq e obtain y s1 where t: "turn c s = Some (y, s1)" by (cases "turn c s") auto
        show ?thesis
        proof (cases y)
          case (Inl c1)
          then have "loop st tn c1 s1 = Some x" using eq e t False by simp
          then have "op_loop stopped turn' c1 s1 = Some x" using ih e go t Inl by blast
          then show ?thesis using t Inl False same [OF e(3)] by (subst op_loop.simps) simp
        next
          case (Inr r)
          then show ?thesis using eq e t False same [OF e(3)] by (subst op_loop.simps) simp
        qed
      qed
    qed
  qed
  with start show ?thesis by simp
qed

lemma op_loop_agree:
  assumes "I c s" and "\<And>c s. I c s \<Longrightarrow> turn' c s = turn c s" and "\<And>c s c1 s1. I c s \<Longrightarrow> turn c s = Some (Inl c1, s1) \<Longrightarrow> I c1 s1"
  shows "op_loop stopped turn' c s = op_loop stopped turn c s"
proof (cases "op_loop stopped turn c s")
  case None
  have "op_loop stopped turn' c s \<noteq> Some x" for x
  proof
    assume "op_loop stopped turn' c s = Some x"
    then have "op_loop stopped turn c s = Some x"
      by (rule op_loop_agree_Some [where I = I]) (use assms in auto)
    with None show False by simp
  qed
  then have "op_loop stopped turn' c s = None" by (cases "op_loop stopped turn' c s") auto
  with None show ?thesis by simp
next
  case (Some x)
  from op_loop_agree_Some [where I = I, OF Some assms(1)] assms(2,3) Some show ?thesis by auto
qed

text \<open>The object is well formed: with an open output, and in every state that decodes, there is a decoder.\<close>

definition uz_ok :: "('k, 'r) unzst \<Rightarrow> bool" where
  "uz_ok z \<longleftrightarrow> (uz_st z \<in> {UzOutOpen, UzDecomp, UzWrite} \<or> uz_out_opened z \<longrightarrow> uz_zst z \<noteq> None)"

definition dec_keeps :: "'r unzstlib \<Rightarrow> bool" where
  "dec_keeps G \<longleftrightarrow> (\<forall>d x n. snd (zd_decode G (Some d) x n) \<noteq> None)"

lemma zst_decode_ok: "dec_keeps G \<Longrightarrow> uz_zst z \<noteq> None \<Longrightarrow> zst_decode G z = (r, z') \<Longrightarrow> uz_zst z' \<noteq> None"
  by (auto simp: dec_keeps_def zst_decode_def Let_def split: prod.splits) (metis snd_conv option.distinct(1) not_Some_eq)

lemma unzst_decomp_ok:
  "dec_keeps (zu_lib E) \<Longrightarrow> uz_zst z \<noteq> None \<Longrightarrow> unzst_decomp E z s = Some (Inl z', s') \<Longrightarrow> uz_ok z'"
  using zst_decode_ok [of "zu_lib E" z] by (auto simp: unzst_decomp_def uz_ok_def split: prod.splits zst_ret.splits)

lemma unzst_read_ok:
  assumes "dec_keeps (zu_lib E)" and "uz_ok z" and "unzst_read E z s = Some (Inl z', s')"
  shows "uz_ok z'"
proof -
  obtain r d s1 where r: "fi_read (zu_core E) (uz_in z) None s = Some ((r, d), s1)"
    using assms(3) by (auto simp: unzst_read_def bind_eq_Some_conv)
  show ?thesis
  proof (cases "r \<notin> {FErr, FAsync, FEof} \<and> uz_out_opened z")
    case True
    then have "unzst_decomp E (z\<lparr>uz_zdata := d, uz_st := UzDecomp\<rparr>) s1 = Some (Inl z', s')"
      using assms(3) r by (simp add: unzst_read_def)
    then show ?thesis by (rule unzst_decomp_ok [OF assms(1), rotated]) (use True assms(2) in \<open>simp add: uz_ok_def\<close>)
  next
    case False
    with assms(3) r show ?thesis
      by (cases r) (auto simp: unzst_read_def uz_ok_def Let_def bind_eq_Some_conv split: if_splits)
  qed
qed

lemma unzst_in_open_ok:
  assumes G: "dec_keeps (zu_lib E)" and z: "uz_ok z" "uz_st z \<in> {UzIn, UzInOpen}" and t: "unzst_in_open E z s = Some (Inl z', s')"
  shows "uz_ok z'"
proof -
  obtain r s1 where "(if r = FErr then Some (Inr (z, 1), s1) else unzst_read E (z\<lparr>uz_st := UzRead\<rparr>) s1) = Some (Inl z', s')"
    using t by (auto simp only: unzst_in_open_def bind_eq_Some_conv split: prod.splits)
  then have "unzst_read E (z\<lparr>uz_st := UzRead\<rparr>) s1 = Some (Inl z', s')" by (simp split: if_splits)
  then show ?thesis by (rule unzst_read_ok [OF G, rotated]) (use z in \<open>auto simp: uz_ok_def\<close>)
qed

text \<open>Every turn keeps the object well formed.\<close>

lemma unzst_turn_ok:
  assumes G: "dec_keeps (zu_lib E)" and z: "uz_ok z" and t: "unzst_turn E z s = Some (Inl z', s')"
  shows "uz_ok z'"
proof (cases "uz_st z")
  case UzIn
  then have "unzst_in_next E z s = Some (Inl z', s')" using t by (simp add: unzst_turn_def)
  then obtain r s1 where r: "(case r of RNomore \<Rightarrow> Some (Inr (z, 0), s1) | RErr \<Rightarrow> Some (Inr (z, 1), s1)
      | ROk n b \<Rightarrow> unzst_in_open E (z\<lparr>uz_iname := n, uz_basename := b, uz_st := UzInOpen\<rparr>) s1) = Some (Inl z', s')"
    by (auto simp only: unzst_in_next_def bind_eq_Some_conv split: prod.splits)
  then obtain n b where "unzst_in_open E (z\<lparr>uz_iname := n, uz_basename := b, uz_st := UzInOpen\<rparr>) s1 = Some (Inl z', s')"
    by (cases r) auto
  then show ?thesis by (rule unzst_in_open_ok [OF G, rotated 2]) (use z in \<open>auto simp: uz_ok_def\<close>)
next
  case UzInOpen
  then have "unzst_in_open E z s = Some (Inl z', s')" using t by (simp add: unzst_turn_def)
  then show ?thesis by (rule unzst_in_open_ok [OF G z, rotated]) (use UzInOpen in simp)
next
  case UzOutOpen
  then show ?thesis using t z
    by (auto simp: unzst_turn_def unzst_out_open_def uz_ok_def Let_def bind_eq_Some_conv split: if_splits)
next
  case UzRead
  then show ?thesis using t unzst_read_ok [OF G z] by (simp add: unzst_turn_def)
next
  case UzDecomp
  then show ?thesis using t z unzst_decomp_ok [OF G, of z] by (simp add: unzst_turn_def uz_ok_def)
next
  case UzWrite
  then show ?thesis using t z
    by (auto simp: unzst_turn_def unzst_write_def uz_ok_def bind_eq_Some_conv split: if_splits)
qed

text \<open>The decoder is only ever handed an existing one.\<close>

definition dec_agree :: "'r unzstlib \<Rightarrow> 'r unzstlib \<Rightarrow> bool" where
  "dec_agree G G' \<longleftrightarrow> zd_init G = zd_init G' \<and> (\<forall>d. zd_decode G (Some d) = zd_decode G' (Some d))"

lemma unzstenv_lib:
  "zu_core (E\<lparr>zu_lib := G\<rparr>) = zu_core E" "zu_path (E\<lparr>zu_lib := G\<rparr>) = zu_path E" "zu_mtime (E\<lparr>zu_lib := G\<rparr>) = zu_mtime E"
  "zu_lib (E\<lparr>zu_lib := G\<rparr>) = G"
  by simp_all

lemma unzst_decomp_agree:
  assumes "dec_agree (zu_lib E) G" and "uz_zst z \<noteq> None"
  shows "unzst_decomp (E\<lparr>zu_lib := G\<rparr>) z s = unzst_decomp E z s"
  using assms by (auto simp: unzst_decomp_def zst_decode_def dec_agree_def)

lemma unzst_read_agree:
  assumes g: "dec_agree (zu_lib E) G" and z: "uz_ok z"
  shows "unzst_read (E\<lparr>zu_lib := G\<rparr>) z s = unzst_read E z s"
proof -
  have "unzst_decomp (E\<lparr>zu_lib := G\<rparr>) (z\<lparr>uz_zdata := d, uz_st := UzDecomp\<rparr>) s' = unzst_decomp E (z\<lparr>uz_zdata := d, uz_st := UzDecomp\<rparr>) s'"
    if "uz_out_opened z" for d s'
    by (rule unzst_decomp_agree [OF g]) (use z that in \<open>simp add: uz_ok_def\<close>)
  then show ?thesis using g unfolding unzst_read_def unzstenv_lib
    by (cases "uz_out_opened z") (auto simp: dec_agree_def intro!: bind_pair_cong)
qed

lemma unzst_in_open_agree:
  assumes "dec_agree (zu_lib E) G" and "uz_ok z" and "uz_st z \<in> {UzIn, UzInOpen}"
  shows "unzst_in_open (E\<lparr>zu_lib := G\<rparr>) z s = unzst_in_open E z s"
proof -
  have "unzst_read (E\<lparr>zu_lib := G\<rparr>) (z\<lparr>uz_st := UzRead\<rparr>) s' = unzst_read E (z\<lparr>uz_st := UzRead\<rparr>) s'" for s'
    by (rule unzst_read_agree [OF assms(1)]) (use assms in \<open>auto simp: uz_ok_def\<close>)
  then show ?thesis by (auto simp: unzst_in_open_def intro!: bind_pair_cong)
qed

lemma unzst_turn_agree:
  assumes g: "dec_agree (zu_lib E) G" and z: "uz_ok z"
  shows "unzst_turn (E\<lparr>zu_lib := G\<rparr>) z s = unzst_turn E z s"
proof (cases "uz_st z")
  case UzIn
  have "unzst_in_open (E\<lparr>zu_lib := G\<rparr>) (z\<lparr>uz_iname := n, uz_basename := b, uz_st := UzInOpen\<rparr>) s' =
      unzst_in_open E (z\<lparr>uz_iname := n, uz_basename := b, uz_st := UzInOpen\<rparr>) s'" for n b s'
    by (rule unzst_in_open_agree [OF g]) (use z in \<open>auto simp: uz_ok_def\<close>)
  with UzIn show ?thesis by (auto simp: unzst_turn_def unzst_in_next_def intro!: bind_pair_cong split: rinput.splits)
next
  case UzDecomp
  then show ?thesis using unzst_decomp_agree [OF g, of z] z by (simp add: unzst_turn_def uz_ok_def)
next
  case UzRead
  then show ?thesis using unzst_read_agree [OF g z] by (simp add: unzst_turn_def)
next
  case UzInOpen
  then show ?thesis using unzst_in_open_agree [OF g z] by (simp add: unzst_turn_def)
next
  case UzOutOpen
  have "unzst_out_open (E\<lparr>zu_lib := G\<rparr>) z s = unzst_out_open E z s" unfolding unzst_out_open_def unzstenv_lib ..
  with UzOutOpen show ?thesis by (simp add: unzst_turn_def)
qed (simp add: unzst_turn_def unzst_write_def)

text \<open>C38. Whatever the files, the core and the settings do, \<open>unzst\<close> never calls the decoder without having made one: the run
  does not depend on what \<open>zstd_decode\<close> does with a null pointer.\<close>

theorem unzst_decoder_made:
  assumes "unzst_create E cmd s0 = Some (z, s)" and "dec_keeps (zu_lib E)" and "dec_agree (zu_lib E) G"
  shows "unzst_run (E\<lparr>zu_lib := G\<rparr>) z s = unzst_run E z s"
proof -
  have "uz_ok z" using assms(1) by (auto simp: unzst_create_def uz_ok_def Let_def bind_eq_Some_conv)
  then have "op_loop (stop_flag (zu_core E)) (unzst_turn (E\<lparr>zu_lib := G\<rparr>)) z s = op_loop (stop_flag (zu_core E)) (unzst_turn E) z s"
    by (rule op_loop_agree [where I = "\<lambda>c s. uz_ok c"])
      (use unzst_turn_agree [OF assms(3)] unzst_turn_ok [OF assms(2)] in blast)+
  then show ?thesis unfolding unzst_run_def unzst_close_def unzstenv_lib by simp
qed


text \<open>A decoder that copies, and one that differs from it on a null pointer.\<close>

definition copy_dec :: "(int \<times> nat \<times> bytes) \<Rightarrow> unit unzstlib" where
  "copy_dec bad = \<lparr>zd_init = (), zd_decode = (\<lambda>d x n. case d of None \<Rightarrow> (bad, None) | Some u \<Rightarrow> ((1, length x, x), Some u))\<rparr>"

definition unzst_demo :: "((bytes list, nat, unit, unit, rwd fworld) com, nat, unit) unzstenv" where
  "unzst_demo = \<lparr>zu_core = core_of rw_sys cursor_lib 0 (\<lambda>_. rw_obj), zu_lib = copy_dec (-1, 0, []),
     zu_path = \<lparr>gp_split = (\<lambda>n. (0, length n)), gp_split_win = (\<lambda>n. (0, length n)), gp_ext = (\<lambda>n. (n, []))\<rparr>, zu_mtime = (\<lambda>_. (1, 0))\<rparr>"

theorem unzst_decoder_made_witness:
  "\<exists>z s. unzst_create unzst_demo (plain_info [''a'']) (ab_com (plain_info [''a'']) [''a'' \<mapsto> ''data'']) = Some (z, s) \<and>
     unzst_run (unzst_demo\<lparr>zu_lib := copy_dec (1, 0, ''crash'')\<rparr>) z s = unzst_run unzst_demo z s"
proof -
  obtain z s where c: "unzst_create unzst_demo (plain_info [''a'']) (ab_com (plain_info [''a'']) [''a'' \<mapsto> ''data'']) = Some (z, s)"
    by (simp add: unzst_create_def unzst_demo_def core_of_def ab_com_def Let_def)
  have "dec_keeps (zu_lib unzst_demo)" "dec_agree (zu_lib unzst_demo) (copy_dec (1, 0, ''crash''))"
    by (simp_all add: dec_keeps_def dec_agree_def unzst_demo_def copy_dec_def)
  from unzst_decoder_made [OF c this] c show ?thesis by blast
qed

section \<open>The second input of \<open>zst\<close>\<close>

text \<open>\<open>at e x\<close>: since it was last at the start of a frame the encoder has taken in \<open>x\<close>. It returns an empty output only after taking in all.\<close>

definition zst_enc_step :: "'e zstlib \<Rightarrow> ('e \<Rightarrow> bytes \<Rightarrow> bool) \<Rightarrow> ('e \<Rightarrow> bytes \<Rightarrow> nat) \<Rightarrow> nat \<Rightarrow> 'e \<Rightarrow> bytes \<Rightarrow> bytes \<Rightarrow> bool \<Rightarrow> bool" where
  "zst_enc_step G at left cap e x d fin \<longleftrightarrow>
     (case zs_encode G e d cap fin of
        ((r, n, out), e') \<Rightarrow> 0 \<le> r \<and> at e' (x @ take n d) \<and> (out = [] \<longrightarrow> length d \<le> n) \<and> (out \<noteq> [] \<longrightarrow> left e' (drop n d) < left e d))"

definition zst_enc_ok :: "'e zstlib \<Rightarrow> ('e \<Rightarrow> bytes \<Rightarrow> bool) \<Rightarrow> ('e \<Rightarrow> bytes \<Rightarrow> nat) \<Rightarrow> nat \<Rightarrow> bool" where
  "zst_enc_ok G at left cap \<longleftrightarrow> (\<forall>e d x fin. at e x \<longrightarrow> zst_enc_step G at left cap e x d fin)"

context pipe_store begin

lemma zst_drains:
  assumes ok: "zst_enc_ok (ze_lib E) at left cap" and E: "ze_core E = C"
    and "stands s = Some (A, p)" and "st_dst A = Some (t, y)" and "zs_st z = ZsComp" and "zs_out z = o1" and "zs_cap z = cap"
    and "zs_finish z" and "at (zs_zst z) x"
  shows "\<exists>z' s' y'. op_loop (stop_flag C) (zst_turn E) z s = op_loop (stop_flag C) (zst_turn E) z' s' \<and> zs_st z' = ZsIn \<and> \<not> zs_del z' \<and>
    zs_finish z' \<and> at (zs_zst z') (x @ zs_data z) \<and> stands s' = Some (A\<lparr>st_dst := Some (t, y')\<rparr>, p)"
  using assms(3-)
proof (induction "left (zs_zst z) (zs_data z)" arbitrary: z s A x y rule: less_induct)
  case less
  note run = pp_runs [OF less(2)]
  obtain r n out e where g: "zs_encode (ze_lib E) (zs_zst z) (zs_data z) cap True = ((r, n, out), e)" by (metis prod_cases3 prod.exhaust)
  have "zst_enc_step (ze_lib E) at left cap (zs_zst z) x (zs_data z) True" using ok less(8) unfolding zst_enc_ok_def by blast
  then have f: "0 \<le> r" "at e (x @ take n (zs_data z))" "out = [] \<Longrightarrow> length (zs_data z) \<le> n"
    "out \<noteq> [] \<Longrightarrow> left e (drop n (zs_data z)) < left (zs_zst z) (zs_data z)"
    unfolding zst_enc_step_def g by auto
  define z1 where "z1 = z\<lparr>zs_zst := e, zs_data := drop n (zs_data z), zs_zdata := out,
      zs_in_total := zs_in_total z + n, zs_out_total := zs_out_total z + length out\<rparr>"
  show ?case
  proof (cases "out = []")
    case True
    define z2 where "z2 = z1\<lparr>zs_del := False, zs_st := ZsIn\<rparr>"
    have "zst_turn E z s = Some (Inl z2, s)"
      using less(4,6,7) f(1) True g by (simp add: zst_turn_def zst_comp_def z2_def z1_def Let_def)
    from op_loop_next [of "stop_flag C" s "zst_turn E", OF run this] show ?thesis using f(2,3) True less(2,3,7)
      by (intro exI [of _ z2] exI [of _ s] exI [of _ y]) (simp add: z2_def z1_def)
  next
    case False
    obtain s1 where w: "fi_write C o1 out None s = Some (FOk, s1)" "stands s1 = Some (A\<lparr>st_dst := Some (t, y @ out)\<rparr>, p)"
      using pp_write [OF less(2,3), of out] by (auto elim: givesE)
    define z2 where "z2 = z1\<lparr>zs_st := ZsComp\<rparr>"
    have "zst_turn E z s = Some (Inl z2, s1)"
      using less(4-7) f(1) False g w(1) E by (simp add: zst_turn_def zst_comp_def zst_write_def z2_def z1_def Let_def)
    note l = op_loop_next [of "stop_flag C" s "zst_turn E", OF run this]
    have "\<exists>z' s' y'. op_loop (stop_flag C) (zst_turn E) z2 s1 = op_loop (stop_flag C) (zst_turn E) z' s' \<and> zs_st z' = ZsIn \<and> \<not> zs_del z' \<and>
        zs_finish z' \<and> at (zs_zst z') ((x @ take n (zs_data z)) @ zs_data z2) \<and>
        stands s' = Some ((A\<lparr>st_dst := Some (t, y @ out)\<rparr>)\<lparr>st_dst := Some (t, y')\<rparr>, p)"
      by (rule less(1) [OF _ w(2)]) (use f False less(5-7) in \<open>simp_all add: z2_def z1_def\<close>)
    with l show ?thesis by (simp add: z2_def z1_def)
  qed
qed

text \<open>The flag of the end of the input, left set by the first file: one piece of the next one is read and the file counts as done.\<close>

lemma zst_cuts:
  assumes ok: "zst_enc_ok (ze_lib E) at left (zs_cap z)" and E: "ze_core E = C"
    and A: "stands s = Some (A, 0)" "st_src A = Some (n, d)" "st_dst A = Some (t, y)"
    and z: "zs_st z = ZsRead" "zs_in z = i1" "zs_out z = o1" "zs_finish z" "at (zs_zst z) []"
  shows "\<exists>c z' s'. fi_read C i1 None s = Some ((if d = [] then FEof else FOk, c), s') \<and> c = take (length c) d \<and>
    (\<exists>s'' y'. op_loop (stop_flag C) (zst_turn E) z s = op_loop (stop_flag C) (zst_turn E) z' s'' \<and> zs_st z' = ZsIn \<and> \<not> zs_del z' \<and>
      at (zs_zst z') c \<and> stands s'' = Some (A\<lparr>st_dst := Some (t, y')\<rparr>, length c))"
proof -
  obtain c s1 where r: "fi_read C i1 None s = Some ((if 0 = length d then FEof else FOk, c), s1)" "stands s1 = Some (A, 0 + length c)"
    "c = take (length c) (drop 0 d)" using pp_read [OF A(1,2)] by (auto elim!: givesE)
  define z1 where "z1 = z\<lparr>zs_data := c, zs_finish := True, zs_st := ZsComp\<rparr>"
  have "zst_turn E z s = zst_turn E z1 s1" using z r(1) E by (auto simp: zst_turn_def zst_read_def z1_def)
  then have l: "op_loop (stop_flag C) (zst_turn E) z s = op_loop (stop_flag C) (zst_turn E) z1 s1"
    by (rule op_loop_same_turn [of "stop_flag C", OF pp_runs [OF A(1)] pp_runs [OF r(2)]])
  have "\<exists>z' s' y'. op_loop (stop_flag C) (zst_turn E) z1 s1 = op_loop (stop_flag C) (zst_turn E) z' s' \<and> zs_st z' = ZsIn \<and> \<not> zs_del z' \<and>
      zs_finish z' \<and> at (zs_zst z') ([] @ zs_data z1) \<and> stands s' = Some (A\<lparr>st_dst := Some (t, y')\<rparr>, 0 + length c)"
    by (rule zst_drains [OF ok E r(2) A(3)]) (use z in \<open>simp_all add: z1_def\<close>)
  then obtain z' s2 y' where "op_loop (stop_flag C) (zst_turn E) z1 s1 = op_loop (stop_flag C) (zst_turn E) z' s2" "zs_st z' = ZsIn"
    "\<not> zs_del z'" "at (zs_zst z') c" "stands s2 = Some (A\<lparr>st_dst := Some (t, y')\<rparr>, length c)" by (auto simp: z1_def)
  with l r(1,3) show ?thesis by (intro exI [of _ c] exI [of _ z'] exI [of _ s1]) auto
qed

end

text \<open>Over the program's tables: after a first file the encoder is given one piece of the next, as long as one read delivers, however
  long the file is.\<close>

theorem zst_second_cut:
  assumes "zst_enc_ok (ze_lib E) at left (zs_cap z)" and "ze_core E = core_of sys lib cm mk"
    and "core_pipe sys V lib names cm i1 o1 s = Some (A, 0)" and "st_src A = Some (n, d)" and "st_dst A = Some (t, y)"
    and "zs_st z = ZsRead" and "zs_in z = i1" and "zs_out z = o1" and "zs_finish z" and "at (zs_zst z) []"
  shows "\<exists>c z' s' s''. fi_read (core_of sys lib cm mk) i1 None s = Some ((if d = [] then FEof else FOk, c), s') \<and> c = take (length c) d \<and>
    op_loop (stop_flag (core_of sys lib cm mk)) (zst_turn E) z s = op_loop (stop_flag (core_of sys lib cm mk)) (zst_turn E) z' s'' \<and>
    zs_st z' = ZsIn \<and> \<not> zs_del z' \<and> at (zs_zst z') c"
proof -
  obtain c z' s' where r: "fi_read (core_of sys lib cm mk) i1 None s = Some ((if d = [] then FEof else FOk, c), s')" "c = take (length c) d"
    and "\<exists>s'' y'. op_loop (stop_flag (core_of sys lib cm mk)) (zst_turn E) z s = op_loop (stop_flag (core_of sys lib cm mk)) (zst_turn E) z' s'' \<and>
      zs_st z' = ZsIn \<and> \<not> zs_del z' \<and> at (zs_zst z') c \<and>
      core_pipe sys V lib names cm i1 o1 s'' = Some (A\<lparr>st_dst := Some (t, y')\<rparr>, length c)"
    using pipe.zst_cuts [OF assms] by (elim exE) (erule conjE, erule conjE, rule that)
  then obtain s'' where "op_loop (stop_flag (core_of sys lib cm mk)) (zst_turn E) z s = op_loop (stop_flag (core_of sys lib cm mk)) (zst_turn E) z' s''"
    "zs_st z' = ZsIn" "\<not> zs_del z'" "at (zs_zst z') c" by blast
  with r show ?thesis by (intro exI [of _ c] exI [of _ z'] exI [of _ s'] exI [of _ s'']) simp
qed

end
