(* ===== verification/Unxz.thy ===== *)
theory Unxz
  imports Zst
begin

text \<open>
  The operation \<open>unxz\<close> (\<open>src/pack/unxz.c\<close>). The decoder of ffpack is the record \<open>xzrlib\<close>; it is
  opened with the size of the archive and may ask for another input offset. Log lines are left out.
\<close>

datatype xzr_res = XrInfo | XrData | XrDone | XrMore | XrSeek | XrError

record 'r xzrlib =
  xr_zero :: 'r
  xr_open :: "'r \<Rightarrow> nat \<Rightarrow> bool \<times> 'r"
  xr_process :: "'r \<Rightarrow> bytes \<Rightarrow> (xzr_res \<times> bytes \<times> bytes) \<times> 'r"
  xr_offset :: "'r \<Rightarrow> nat"
  xr_close :: "'r \<Rightarrow> 'r"

record ('s, 'i, 'r) unxzenv =
  xe_core :: "('s, 'i) coreif"
  xe_lib :: "'r xzrlib"
  xe_path :: pathlib
  xe_size :: "'i \<Rightarrow> nat"
  xe_mtime :: "'i \<Rightarrow> fftime"

datatype unxz_st = UxIn | UxInOpen | UxOutOpen | UxRead | UxDecomp | UxWrite

record ('k, 'r) unxz =
  ux_st :: unxz_st
  ux_cmd :: "'k cominfo"
  ux_iname :: bytes
  ux_basename :: bytes
  ux_oname :: "bytes option"
  ux_in :: nat
  ux_out :: nat
  ux_off :: nat
  ux_r :: 'r
  ux_isize :: nat
  ux_data :: bytes
  ux_zdata :: bytes
  ux_opened :: bool
  ux_next_begin :: bool
  ux_out_opened :: bool
  ux_del :: bool
  ux_in_total :: nat
  ux_out_total :: nat

type_synonym ('s, 'k, 'r) unxz_turn = "('k, 'r) unxz \<Rightarrow> ('s, ('k, 'r) unxz + ('k, 'r) unxz \<times> int) act"

definition unxz_create :: "('s, 'i, 'r) unxzenv \<Rightarrow> 'k cominfo \<Rightarrow> ('s, ('k, 'r) unxz) act" where
  "unxz_create E cmd0 s =
     (let cmd = with_chdir cmd0
      in do { (i, s) \<leftarrow> fi_create (xe_core E) (ci_buffer_size cmd) s;
              (o1, s) \<leftarrow> fi_create (xe_core E) (ci_buffer_size cmd) s;
              Some (\<lparr>ux_st = UxIn, ux_cmd = cmd, ux_iname = [], ux_basename = [], ux_oname = None, ux_in = i, ux_out = o1,
                     ux_off = 0, ux_r = xr_zero (xe_lib E), ux_isize = 0, ux_data = [], ux_zdata = [], ux_opened = False,
                     ux_next_begin = False, ux_out_opened = False, ux_del = False, ux_in_total = 0, ux_out_total = 0\<rparr>, s) })"

definition unxz_close :: "('s, 'i, 'r) unxzenv \<Rightarrow> ('k, 'r) unxz \<Rightarrow> ('s, unit) act" where
  "unxz_close E z s =
     do { (_, s) \<leftarrow> fi_destroy (xe_core E) (ux_in z) s;
          (_, s) \<leftarrow> (if ux_del z then fi_del (xe_core E) (the (ux_oname z)) s else Some (True, s));
          fi_destroy (xe_core E) (ux_out z) s }"

definition unxz_out_name :: "pathlib \<Rightarrow> 'k cominfo \<Rightarrow> bytes \<Rightarrow> bytes" where
  "unxz_out_name P = strip_name P ''xz''"

definition xzread :: "'r xzrlib \<Rightarrow> ('k, 'r) unxz \<Rightarrow> xzr_res \<times> ('k, 'r) unxz" where
  "xzread G z =
     (let (ok, st0) = (if ux_opened z then (True, ux_r z) else xr_open G (ux_r z) (ux_isize z));
          z = z\<lparr>ux_opened := True, ux_r := st0\<rparr>
      in if \<not> ok then (XrError, z)
         else
           (case xr_process G (ux_r z) (ux_zdata z) of
              ((r, rest, out), st) \<Rightarrow>
                (let z = z\<lparr>ux_r := st, ux_zdata := rest, ux_data := out,
                           ux_in_total := ux_in_total z + (length (ux_zdata z) - length rest)\<rparr>
                 in case r of
                      XrData \<Rightarrow> (XrData, z\<lparr>ux_out_total := ux_out_total z + length out\<rparr>)
                    | XrDone \<Rightarrow> (XrDone, z\<lparr>ux_r := xr_close G (ux_r z), ux_opened := False\<rparr>)
                    | XrSeek \<Rightarrow> (XrMore, z\<lparr>ux_off := xr_offset G (ux_r z)\<rparr>)
                    | _ \<Rightarrow> (r, z))))"

definition unxz_write :: "('s, 'i, 'r) unxzenv \<Rightarrow> ('s, 'k, 'r) unxz_turn" where
  "unxz_write E z s =
     do { (r, s) \<leftarrow> fi_write (xe_core E) (ux_out z) (ux_data z) None s;
          if r = FErr then Some (Inr (z, 1), s)
          else if r = FAsync then Some (Inr (z, GZ_ASYNC), s)
          else Some (Inl (z\<lparr>ux_st := UxDecomp\<rparr>), s) }"

definition unxz_out_open :: "('s, 'i, 'r) unxzenv \<Rightarrow> ('s, 'k, 'r) unxz_turn" where
  "unxz_out_open E z s =
     do { (r, s) \<leftarrow> fi_open (xe_core E) (ux_out z) (the (ux_oname z)) (FCOM_FILE_WRITE OR fcom_file_cominfo_flags_o (ux_cmd z)) s;
          if r = FErr then Some (Inr (z, 1), s)
          else
            (let z = z\<lparr>ux_del := (\<not> ci_stdout (ux_cmd z) \<and> \<not> ci_test (ux_cmd z))\<rparr>
             in do { ((r, fi), s) \<leftarrow> fi_info (xe_core E) (ux_in z) s;
                     if r = FErr then Some (Inr (z, 1), s)
                     else do { (_, s) \<leftarrow> fi_mtime_set (xe_core E) (ux_out z) (xe_mtime E (the fi)) s;
                               Some (Inl (z\<lparr>ux_st := UxWrite\<rparr>), s) } }) }"

definition unxz_decomp :: "('s, 'i, 'r) unxzenv \<Rightarrow> ('s, 'k, 'r) unxz_turn" where
  "unxz_decomp E z0 s =
     (case xzread (xe_lib E) z0 of
        (XrInfo, z) \<Rightarrow> Some (Inl z, s)
      | (XrDone, z) \<Rightarrow> Some (Inl (z\<lparr>ux_next_begin := True, ux_del := False, ux_st := UxRead\<rparr>), s)
      | (XrMore, z) \<Rightarrow> Some (Inl (z\<lparr>ux_st := UxRead\<rparr>), s)
      | (XrData, z) \<Rightarrow>
          (let z = z\<lparr>ux_st := UxWrite\<rparr>
           in if ux_out_opened z then Some (Inl z, s)
              else
                (let z = z\<lparr>ux_out_opened := True\<rparr>;
                     z = (if ci_stdout (ux_cmd z) then z
                          else z\<lparr>ux_oname := Some (unxz_out_name (xe_path E) (ux_cmd z) (ux_iname z))\<rparr>)
                 in Some (Inl (z\<lparr>ux_st := UxOutOpen\<rparr>), s)))
      | (_, z) \<Rightarrow> Some (Inr (z, 1), s))"

definition unxz_read :: "('s, 'i, 'r) unxzenv \<Rightarrow> ('s, 'k, 'r) unxz_turn" where
  "unxz_read E z s =
     do { ((r, d), s) \<leftarrow> fi_read (xe_core E) (ux_in z) (Some (ux_off z)) s;
          if r = FErr then Some (Inr (z, 1), s)
          else if r = FAsync then Some (Inr (z, GZ_ASYNC), s)
          else if r = FEof then
            do { (r, s) \<leftarrow> fi_flush (xe_core E) (ux_out z) s;
                 if r = FAsync then Some (Inr (z\<lparr>ux_zdata := d\<rparr>, GZ_ASYNC), s)
                 else if \<not> ux_next_begin z then Some (Inr (z\<lparr>ux_zdata := d\<rparr>, 1), s)
                 else Some (Inl (z\<lparr>ux_zdata := d, ux_st := UxIn\<rparr>), s) }
          else unxz_decomp E (z\<lparr>ux_zdata := d, ux_off := ux_off z + length d, ux_next_begin := False, ux_st := UxDecomp\<rparr>) s }"

definition unxz_in_open :: "('s, 'i, 'r) unxzenv \<Rightarrow> ('s, 'k, 'r) unxz_turn" where
  "unxz_in_open E z s =
     do { (r, s) \<leftarrow> fi_open (xe_core E) (ux_in z) (ux_iname z) (fcom_file_cominfo_flags_i (ux_cmd z) OR FCOM_FILE_READ) s;
          if r = FErr then Some (Inr (z, 1), s)
          else
            do { ((r, fi), s) \<leftarrow> fi_info (xe_core E) (ux_in z) s;
                 if r = FErr then Some (Inr (z, 1), s)
                 else unxz_read E (z\<lparr>ux_isize := xe_size E (the fi), ux_st := UxRead\<rparr>) s } }"

definition unxz_in_next :: "('s, 'i, 'r) unxzenv \<Rightarrow> ('s, 'k, 'r) unxz_turn" where
  "unxz_in_next E z s =
     do { (r, s) \<leftarrow> com_input_next (xe_core E) 0 s;
          case r of
            RNomore \<Rightarrow> Some (Inr (z, 0), s)
          | RErr \<Rightarrow> Some (Inr (z, 1), s)
          | ROk n b \<Rightarrow> unxz_in_open E (z\<lparr>ux_iname := n, ux_basename := b, ux_st := UxInOpen\<rparr>) s }"

definition unxz_turn :: "('s, 'i, 'r) unxzenv \<Rightarrow> ('s, 'k, 'r) unxz_turn" where
  "unxz_turn E z s =
     (case ux_st z of
        UxIn \<Rightarrow> unxz_in_next E z s | UxInOpen \<Rightarrow> unxz_in_open E z s | UxOutOpen \<Rightarrow> unxz_out_open E z s
      | UxRead \<Rightarrow> unxz_read E z s | UxDecomp \<Rightarrow> unxz_decomp E z s | UxWrite \<Rightarrow> unxz_write E z s)"

definition unxz_run :: "('s, 'i, 'r) unxzenv \<Rightarrow> ('k, 'r) unxz \<Rightarrow> ('s, int option \<times> ('k, 'r) unxz) act" where
  "unxz_run E z s =
     do { ((z, rc), s) \<leftarrow> op_loop (stop_flag (xe_core E)) (unxz_turn E) z s;
          if rc = GZ_ASYNC then Some ((None, z), s)
          else do { (_, s) \<leftarrow> unxz_close E z s; Some ((Some rc, z), s) } }"

end
