(* ===== verification/Quiet.thy ===== *)
theory Quiet
  imports OpIf
begin

text \<open>
  Rules for "this action leaves alone what \<open>v\<close> sees of the state and returns only values with \<open>P\<close>",
  by the shape of the action, and for the loop of an operation.
\<close>

definition quiet :: "('s \<Rightarrow> 'q) \<Rightarrow> ('a \<Rightarrow> bool) \<Rightarrow> ('s, 'a) act \<Rightarrow> bool" where
  "quiet v P f \<longleftrightarrow> (\<forall>s x s'. f s = Some (x, s') \<longrightarrow> v s' = v s \<and> P x)"

named_theorems quiet_intros \<open>an action that changes nothing, by its shape\<close>

lemma quietD: "quiet v P f \<Longrightarrow> f s = Some (x, s') \<Longrightarrow> v s' = v s \<and> P x"
  by (simp add: quiet_def)

lemma quiet_keeps: "keeps v f \<Longrightarrow> quiet v (\<lambda>_. True) f"
  by (simp add: keeps_def quiet_def)

lemma quiet_mono: "quiet v P f \<Longrightarrow> (\<And>x. P x \<Longrightarrow> Q x) \<Longrightarrow> quiet v Q f"
  by (auto simp: quiet_def)

lemma quiet_bind:
  assumes "quiet v Q f" and "\<And>x. Q x \<Longrightarrow> quiet v P (g x)"
  shows "quiet v P (\<lambda>s. Option.bind (f s) (\<lambda>(x, s). g x s))"
  unfolding quiet_def
proof (intro allI impI)
  fix s y s'
  assume "Option.bind (f s) (\<lambda>(x, s). g x s) = Some (y, s')"
  then obtain x s1 where "f s = Some (x, s1)" "g x s1 = Some (y, s')" by (auto simp: Option.bind_eq_Some_conv)
  with quietD [OF assms(1), of s x s1] quietD [OF assms(2), of x s1 y s'] show "v s' = v s \<and> P y" by simp
qed

lemma quiet_seq [quiet_intros]: "keeps v f \<Longrightarrow> (\<And>x. quiet v P (g x)) \<Longrightarrow> quiet v P (\<lambda>s. Option.bind (f s) (\<lambda>(x, s). g x s))"
  by (rule quiet_bind [OF quiet_keeps])

lemma quiet_pure [quiet_intros]: "(\<And>x. a = Some x \<Longrightarrow> quiet v P (g x)) \<Longrightarrow> quiet v P (\<lambda>s. Option.bind a (\<lambda>x. g x s))"
  by (cases a) (simp_all add: quiet_def)

lemma quiet_ret [quiet_intros]: "P x \<Longrightarrow> quiet v P (\<lambda>s. Some (x, s))"
  by (simp add: quiet_def)

lemma quiet_none [quiet_intros]: "quiet v P (\<lambda>s. None)"
  by (simp add: quiet_def)

lemma quiet_if [quiet_intros]: "(b \<Longrightarrow> quiet v P f) \<Longrightarrow> (\<not> b \<Longrightarrow> quiet v P g) \<Longrightarrow> quiet v P (\<lambda>s. if b then f s else g s)"
  by (cases b) simp_all

lemma quiet_let [quiet_intros]: "quiet v P (f a) \<Longrightarrow> quiet v P (\<lambda>s. let y = a in f y s)"
  by (simp add: Let_def)

lemma quiet_prod [quiet_intros]: "(\<And>a b. x = (a, b) \<Longrightarrow> quiet v P (f a b)) \<Longrightarrow> quiet v P (\<lambda>s. case x of (a, b) \<Rightarrow> f a b s)"
  by (cases x) simp

lemma quiet_prod' [quiet_intros]: "(\<And>a b. x = (a, b) \<Longrightarrow> quiet v P (f a b)) \<Longrightarrow> quiet v P (case x of (a, b) \<Rightarrow> f a b)"
  by (cases x) simp

lemma quiet_option [quiet_intros]:
  "(x = None \<Longrightarrow> quiet v P f) \<Longrightarrow> (\<And>a. x = Some a \<Longrightarrow> quiet v P (g a)) \<Longrightarrow> quiet v P (\<lambda>s. case x of None \<Rightarrow> f s | Some a \<Rightarrow> g a s)"
  by (cases x) simp_all

lemma quiet_rinput [quiet_intros]:
  "(x = RErr \<Longrightarrow> quiet v P f) \<Longrightarrow> (x = RNomore \<Longrightarrow> quiet v P g) \<Longrightarrow> (\<And>n b. x = ROk n b \<Longrightarrow> quiet v P (h n b)) \<Longrightarrow>
    quiet v P (\<lambda>s. case x of RErr \<Rightarrow> f s | RNomore \<Rightarrow> g s | ROk n b \<Rightarrow> h n b s)"
  by (cases x) simp_all

lemma keeps_quiet: "quiet v P f \<Longrightarrow> keeps v f"
  by (auto simp: keeps_def quiet_def)

lemma keeps_seq [quiet_intros]: "keeps v f \<Longrightarrow> (\<And>x. keeps v (g x)) \<Longrightarrow> keeps v (\<lambda>s. Option.bind (f s) (\<lambda>(x, s). g x s))"
  by (rule keeps_quiet [OF quiet_seq [OF _ quiet_keeps]])

lemma keeps_pure [quiet_intros]: "(\<And>x. a = Some x \<Longrightarrow> keeps v (g x)) \<Longrightarrow> keeps v (\<lambda>s. Option.bind a (\<lambda>x. g x s))"
  by (cases a) (simp_all add: keeps_def)

lemma keeps_ret [quiet_intros]: "keeps v (\<lambda>s. Some (x, s))"
  by (simp add: keeps_def)

lemma keeps_none [quiet_intros]: "keeps v (\<lambda>s. None)"
  by (simp add: keeps_def)

lemma keeps_if [quiet_intros]: "(b \<Longrightarrow> keeps v f) \<Longrightarrow> (\<not> b \<Longrightarrow> keeps v g) \<Longrightarrow> keeps v (\<lambda>s. if b then f s else g s)"
  by (cases b) simp_all

lemma keeps_prod [quiet_intros]: "(\<And>a b. x = (a, b) \<Longrightarrow> keeps v (f a b)) \<Longrightarrow> keeps v (\<lambda>s. case x of (a, b) \<Rightarrow> f a b s)"
  by (cases x) simp

lemma keeps_prod' [quiet_intros]: "(\<And>a b. x = (a, b) \<Longrightarrow> keeps v (f a b)) \<Longrightarrow> keeps v (case x of (a, b) \<Rightarrow> f a b)"
  by (cases x) simp

lemma keeps_option [quiet_intros]:
  "(x = None \<Longrightarrow> keeps v f) \<Longrightarrow> (\<And>a. x = Some a \<Longrightarrow> keeps v (g a)) \<Longrightarrow> keeps v (\<lambda>s. case x of None \<Rightarrow> f s | Some a \<Rightarrow> g a s)"
  by (cases x) simp_all

lemma keeps_rinput [quiet_intros]:
  "(x = RErr \<Longrightarrow> keeps v f) \<Longrightarrow> (x = RNomore \<Longrightarrow> keeps v g) \<Longrightarrow> (\<And>n b. x = ROk n b \<Longrightarrow> keeps v (h n b)) \<Longrightarrow>
    keeps v (\<lambda>s. case x of RErr \<Rightarrow> f s | RNomore \<Rightarrow> g s | ROk n b \<Rightarrow> h n b s)"
  by (cases x) simp_all

lemma quiet_loop:
  assumes "I c" and "\<And>c. I c \<Longrightarrow> quiet v (\<lambda>x. case x of Inl c' \<Rightarrow> I c' | Inr r \<Rightarrow> J r) (turn c)" and "\<And>c. I c \<Longrightarrow> J (c, 1)"
  shows "quiet v J (op_loop stopped turn c)"
  unfolding quiet_def
proof (intro allI impI)
  fix s r s'
  assume "op_loop stopped turn c s = Some (r, s')"
  then have run: "op_loop stopped turn c s = Some ((fst r, snd r), s')" by simp
  have "v s' = v s \<and> J (fst r, snd r)"
    by (rule op_loop_invariant [OF run, where I = "\<lambda>c x. I c \<and> v x = v s"]) (use assms(1,3) quietD [OF assms(2)] in fastforce)+
  then show "v s' = v s \<and> J r" by simp
qed

text \<open>The calls with which an operation looks at its input.\<close>

definition core_looks :: "('s, 'i) coreif \<Rightarrow> ('s \<Rightarrow> 'q) \<Rightarrow> bool" where
  "core_looks C v \<longleftrightarrow>
     (\<forall>fl. keeps v (com_input_next C fl)) \<and> (\<forall>n a. keeps v (com_input_allowed C n a)) \<and> (\<forall>fd. keeps v (com_input_dir C fd)) \<and>
     (\<forall>o1 n fl. keeps v (fi_open C o1 n fl)) \<and> (\<forall>o1 off. keeps v (fi_read C o1 off)) \<and> (\<forall>o1. keeps v (fi_info C o1)) \<and>
     (\<forall>o1 fl. keeps v (fi_fd C o1 fl)) \<and> (\<forall>o1. keeps v (fi_close C o1)) \<and> (\<forall>o1. keeps v (fi_destroy C o1))"

lemma core_looksD:
  assumes "core_looks C v"
  shows "keeps v (com_input_next C fl)" "keeps v (com_input_allowed C n a)" "keeps v (com_input_dir C fd)" "keeps v (fi_open C o1 n fl)"
    "keeps v (fi_read C o1 off)" "keeps v (fi_info C o1)" "keeps v (fi_fd C o1 fl)" "keeps v (fi_close C o1)" "keeps v (fi_destroy C o1)"
  using assms by (simp_all add: core_looks_def)

end
