(* ===== verification/Move.thy ===== *)
theory Move
  imports Quiet
begin

text \<open>
  The operation \<open>move\<close> (\<open>src/fs/move.c\<close>): files are renamed to a directory, to names with their path
  folded in, or by a replacement in the name. The functions of ffbase on strings and paths are the record \<open>movelib\<close>. Log
  lines are left out.
\<close>

section \<open>Names\<close>

text \<open>
  \<open>ml_splitpath\<close> is \<open>ffpath_splitpath_str\<close>: \<^const>\<open>None\<close> without a slash (the code's -1), else the directory
  before the last slash; and the name after it. \<open>ml_splitby\<close> is \<open>ffstr_splitbyany\<close> at the first slash: whether there is one, the
  part before it and the part after. \<open>ml_replace\<close> is \<open>ffstr_growadd_replace\<close>: the number of replacements and the
  text; the flag asks for all of them.
\<close>

record movelib =
  ml_splitpath :: "bytes \<Rightarrow> bytes option \<times> bytes"
  ml_splitby :: "bytes \<Rightarrow> bool \<times> bytes \<times> bytes"
  ml_replace :: "bool \<Rightarrow> bytes \<Rightarrow> bytes \<Rightarrow> bytes \<Rightarrow> nat \<times> bytes"

record moveopts =
  mv_unbranch :: bool
  mv_unbranch_flat :: bool
  mv_replace_once :: bool
  mv_tree :: bool
  mv_skip_errors :: bool
  mv_search :: bytes
  mv_replace :: bytes

partial_function (option) unbranch_parts :: "movelib \<Rightarrow> bytes \<Rightarrow> bytes \<Rightarrow> bytes option" where
  "unbranch_parts L acc i =
     (case ml_splitby L i of
        (slash, d, r) \<Rightarrow> if slash then unbranch_parts L (acc @ d @ '' - '') r else Some (acc @ d))"

definition name_unbranch :: "movelib \<Rightarrow> bytes \<Rightarrow> bytes \<Rightarrow> bytes option" where
  "name_unbranch L n base =
     (case fst (ml_splitpath L base) of
        Some parent \<Rightarrow> unbranch_parts L (parent @ [FFPATH_SLASH]) (drop (length parent + 1) n)
      | None \<Rightarrow> unbranch_parts L [] n)"

definition name_unbranch_flat :: "movelib \<Rightarrow> bytes \<Rightarrow> bytes \<Rightarrow> bytes" where
  "name_unbranch_flat L n base =
     (case fst (ml_splitpath L base) of Some parent \<Rightarrow> parent @ [FFPATH_SLASH] | None \<Rightarrow> []) @ snd (ml_splitpath L n)"

definition name_tree :: "'k cominfo \<Rightarrow> bytes \<Rightarrow> bytes" where
  "name_tree cmd n = ci_chdir cmd @ [FFPATH_SLASH] @ n"

definition name_move :: "movelib \<Rightarrow> 'k cominfo \<Rightarrow> bytes \<Rightarrow> bytes" where
  "name_move L cmd n = ci_chdir cmd @ [FFPATH_SLASH] @ snd (ml_splitpath L n)"

text \<open>\<open>replace\<close>: the name is left as it is when nothing is found in its last component.\<close>

definition name_replace :: "movelib \<Rightarrow> moveopts \<Rightarrow> bytes \<Rightarrow> bytes" where
  "name_replace L p n =
     (let (dir, nameonly) = ml_splitpath L n;
          path = (case dir of None \<Rightarrow> [] | Some d \<Rightarrow> d @ [FFPATH_SLASH]);
          (k, txt) = ml_replace L (\<not> mv_replace_once p) nameonly (mv_search p) (mv_replace p)
      in if k = 0 then n else path @ txt)"

section \<open>The operation\<close>

datatype mv_st = MvIn | MvMove

record 'k move =
  mv_st :: mv_st
  mv_cmd :: "'k cominfo"
  mv_in :: nat
  mv_opts :: moveopts
  mv_name :: bytes
  mv_oname :: bytes

text \<open>\<open>mo_destroy\<close> is \<open>com->destroy\<close> and \<open>mo_exit\<close> is \<open>core->exit\<close>, with which the operation ends.\<close>

record ('s, 'i) moveenv =
  mo_core :: "('s, 'i) coreif"
  mo_lib :: movelib
  mo_isdir :: "'i \<Rightarrow> bool"
  mo_destroy :: "('s, unit) act"
  mo_exit :: "int \<Rightarrow> ('s, unit) act"

text \<open>The checks of \<open>args_parse\<close>: \<^const>\<open>True\<close> when the options can be used together.\<close>

definition move_args_ok :: "moveopts \<Rightarrow> 'k cominfo \<Rightarrow> bool" where
  "move_args_ok p cmd \<longleftrightarrow>
     \<not> (mv_unbranch p \<and> mv_unbranch_flat p) \<and> \<not> (mv_tree p \<and> ci_chdir cmd = []) \<and>
     (ci_chdir cmd \<noteq> [] \<or> mv_unbranch p \<or> mv_unbranch_flat p \<or> mv_search p \<noteq> [])"

definition move_create :: "('s, 'i) moveenv \<Rightarrow> moveopts \<Rightarrow> 'k cominfo \<Rightarrow> ('s, 'k move option) act" where
  "move_create E p cmd s =
     (if \<not> move_args_ok p cmd then Some (None, s)
      else do { (i, s) \<leftarrow> fi_create (mo_core E) (ci_buffer_size cmd) s;
                Some (Some \<lparr>mv_st = MvIn, mv_cmd = cmd, mv_in = i, mv_opts = p, mv_name = [], mv_oname = []\<rparr>, s) })"

definition move_close :: "('s, 'i) moveenv \<Rightarrow> 'k move \<Rightarrow> ('s, unit) act" where
  "move_close E m = fi_destroy (mo_core E) (mv_in m)"

datatype mv_next = MnDone | MnErro | MnNext | MnOk bytes bytes

text \<open>The new name of a file that was opened: \<open>--unbranch\<close>, \<open>--unbranch-flat\<close>, \<open>--search\<close>.\<close>

definition new_name :: "movelib \<Rightarrow> moveopts \<Rightarrow> bytes \<Rightarrow> bytes \<Rightarrow> bytes option" where
  "new_name L p n base =
     map_option (\<lambda>o1. if mv_search p \<noteq> [] then name_replace L p o1 else o1)
       (if mv_unbranch p then name_unbranch L n base
        else Some (if mv_unbranch_flat p then name_unbranch_flat L n base else n))"

text \<open>What is done with a name that is not just put below \<open>--chdir\<close>.\<close>

definition move_examine :: "('s, 'i) moveenv \<Rightarrow> 'k move \<Rightarrow> bytes \<Rightarrow> bytes \<Rightarrow> ('s, mv_next) act" where
  "move_examine E m n base s =
     (let C = mo_core E; p = mv_opts m
      in do { (r, s) \<leftarrow> fi_open C (mv_in m) n (fcom_file_cominfo_flags_i (mv_cmd m) OR FCOM_FILE_READ) s;
              if r = FErr then Some (MnErro, s) else
              do { ((r, fi), s) \<leftarrow> fi_info C (mv_in m) s;
                   if r = FErr then Some (MnErro, s) else
                   (let dir = mo_isdir E (the fi)
                    in do { (ok, s) \<leftarrow> com_input_allowed C n (if dir then IaDir else IaFile) s;
                            if \<not> ok then Some (MnNext, s) else
                            do { (_, s) \<leftarrow> (if dir then
                                     do { (fd, s) \<leftarrow> fi_fd C (mv_in m) FCOM_FILE_ACQUIRE s; com_input_dir C fd s }
                                   else Some ((), s));
                                 (_, s) \<leftarrow> fi_close C (mv_in m) s;
                                 if dir \<and> \<not> (mv_search p \<noteq> [] \<and> \<not> mv_unbranch p \<and> \<not> mv_unbranch_flat p) then Some (MnNext, s)
                                 else do { o1 \<leftarrow> new_name (mo_lib E) p n base; Some (MnOk n o1, s) } } }) } })"

definition move_input_next :: "('s, 'i) moveenv \<Rightarrow> 'k move \<Rightarrow> ('s, mv_next) act" where
  "move_input_next E m s =
     do { (r, s) \<leftarrow> com_input_next (mo_core E) 0 s;
          case r of
            RNomore \<Rightarrow> Some (MnDone, s)
          | RErr \<Rightarrow> Some (MnErro, s)
          | ROk n base \<Rightarrow>
              (let p = mv_opts m
               in if mv_tree p then Some (MnOk n (name_tree (mv_cmd m) n), s)
                  else if \<not> (mv_unbranch p \<or> mv_unbranch_flat p \<or> mv_search p \<noteq> []) then Some (MnOk n (name_move (mo_lib E) (mv_cmd m) n), s)
                  else move_examine E m n base s) }"

text \<open>\<open>move_process\<close>: \<^const>\<open>False\<close> is \<open>'erro'\<close>.\<close>

definition move_process :: "('s, 'i) moveenv \<Rightarrow> 'k move \<Rightarrow> ('s, bool) act" where
  "move_process E m s =
     (if mv_name m = mv_oname m then Some (True, s)
      else if ci_test (mv_cmd m) then Some (True, s)
      else do { (r, s) \<leftarrow> fi_move (mo_core E) (mv_name m) (mv_oname m) FCOM_FILE_MOVE_SAFE s;
                Some (\<not> (r = FErr \<and> \<not> mv_skip_errors (mv_opts m)), s) })"

type_synonym ('s, 'k) move_turn = "'k move \<Rightarrow> ('s, 'k move + 'k move \<times> int) act"

definition move_do :: "('s, 'i) moveenv \<Rightarrow> ('s, 'k) move_turn" where
  "move_do E m s =
     do { (ok, s) \<leftarrow> move_process E m s;
          Some (if ok then Inl (m\<lparr>mv_st := MvIn\<rparr>) else Inr (m, 1), s) }"

definition move_turn :: "('s, 'i) moveenv \<Rightarrow> ('s, 'k) move_turn" where
  "move_turn E m s =
     (case mv_st m of
        MvMove \<Rightarrow> move_do E m s
      | MvIn \<Rightarrow>
          do { (r, s) \<leftarrow> move_input_next E m s;
               case r of
                 MnNext \<Rightarrow> Some (Inl m, s)
               | MnDone \<Rightarrow> Some (Inr (m, 0), s)
               | MnErro \<Rightarrow> Some (Inr (m, 1), s)
               | MnOk n o1 \<Rightarrow> move_do E (m\<lparr>mv_st := MvMove, mv_name := n, mv_oname := o1\<rparr>) s })"

definition move_run :: "('s, 'i) moveenv \<Rightarrow> 'k move \<Rightarrow> ('s, int) act" where
  "move_run E m s =
     do { ((m, rc), s) \<leftarrow> op_loop (stop_flag (mo_core E)) (move_turn E) m s;
          (_, s) \<leftarrow> move_close E m s;
          (_, s) \<leftarrow> mo_destroy E s;
          (_, s) \<leftarrow> mo_exit E rc s;
          Some (rc, s) }"

section \<open>Facts\<close>

text \<open>\<open>ffstr_splitbyany\<close> cuts at the first slash.\<close>

definition movelib_ok :: "movelib \<Rightarrow> bool" where
  "movelib_ok L \<longleftrightarrow> (\<forall>s. ml_splitby L s =
     (case index_of FFPATH_SLASH s of None \<Rightarrow> (False, s, []) | Some i \<Rightarrow> (True, take i s, drop (Suc i) s)))"

fun join_parts :: "bytes \<Rightarrow> bytes list \<Rightarrow> bytes" where
  "join_parts sep [] = []"
| "join_parts sep [x] = x"
| "join_parts sep (x # y # ys) = x @ sep @ join_parts sep (y # ys)"

text \<open>\<open>parent/base/a/file\<close> becomes \<open>parent/base - a - file\<close>: the components are joined by another separator.\<close>

lemma unbranch_parts_join:
  assumes "movelib_ok L"
  shows "xs \<noteq> [] \<Longrightarrow> \<forall>x \<in> set xs. FFPATH_SLASH \<notin> set x \<Longrightarrow>
    unbranch_parts L acc (join_parts [FFPATH_SLASH] xs) = Some (acc @ join_parts '' - '' xs)"
proof (induction "[FFPATH_SLASH]" xs arbitrary: acc rule: join_parts.induct)
  case (2 x)
  then have "index_of FFPATH_SLASH x = None" by (simp add: index_of_None)
  with assms have "ml_splitby L x = (False, x, [])" by (simp add: movelib_ok_def)
  then show ?case by (subst unbranch_parts.simps) simp
next
  case (3 x y ys)
  have "index_of FFPATH_SLASH (x @ FFPATH_SLASH # join_parts [FFPATH_SLASH] (y # ys)) = Some (length x)"
    using 3 by (simp add: index_of_append)
  with assms have "ml_splitby L (x @ FFPATH_SLASH # join_parts [FFPATH_SLASH] (y # ys)) = (True, x, join_parts [FFPATH_SLASH] (y # ys))"
    by (simp add: movelib_ok_def)
  with 3 show ?case by (subst unbranch_parts.simps) simp
qed simp

lemma name_unbranch_joins:
  assumes "movelib_ok L" and "fst (ml_splitpath L base) = Some parent" and "n = parent @ FFPATH_SLASH # join_parts [FFPATH_SLASH] xs"
    and "xs \<noteq> []" and "\<forall>x \<in> set xs. FFPATH_SLASH \<notin> set x"
  shows "name_unbranch L n base = Some (parent @ [FFPATH_SLASH] @ join_parts '' - '' xs)"
  using assms(2-5) unbranch_parts_join [OF assms(1)] by (simp add: name_unbranch_def)

text \<open>With \<open>--test\<close> a run changes nothing that the calls other than \<open>file->move\<close> leave alone.\<close>

lemma move_test_turn:
  fixes m :: "'k move" and E :: "('s, 'i) moveenv"
  assumes q: "core_looks (mo_core E) v" and t: "ci_test (mv_cmd m)"
  shows "quiet v (\<lambda>x. case x of Inl m' \<Rightarrow> ci_test (mv_cmd m') | Inr r \<Rightarrow> True) (move_turn E m)"
proof -
  note looks = core_looksD [OF q]
  have d: "quiet v (\<lambda>x. case x of Inl m' \<Rightarrow> ci_test (mv_cmd m') | Inr r \<Rightarrow> True) (move_do E m')" if "ci_test (mv_cmd m')" for m' :: "'k move"
    using that by (auto simp: quiet_def move_do_def move_process_def split: if_splits)
  have x: "keeps v (move_examine E m n base)" for n base
    unfolding move_examine_def Let_def
    by (intro quiet_intros looks)
  have n: "keeps v (move_input_next E m)"
    unfolding move_input_next_def Let_def
    by (intro quiet_intros looks x)
  have m: "quiet v P (\<lambda>s. case r of MnNext \<Rightarrow> f s | MnDone \<Rightarrow> g s | MnErro \<Rightarrow> h s | MnOk a b \<Rightarrow> k a b s)"
    if "quiet v P f" "quiet v P g" "quiet v P h" "\<And>a b. quiet v P (k a b)" for r P f g h and k :: "_ \<Rightarrow> _ \<Rightarrow> ('s, 'k move + 'k move \<times> int) act"
    using that by (cases r) simp_all
  show ?thesis
  proof (cases "mv_st m")
    case MvMove
    then show ?thesis using d [OF t] by (simp add: move_turn_def [abs_def])
  next
    case MvIn
    then show ?thesis using t by (simp add: move_turn_def [abs_def]) (intro quiet_intros n m d; simp)
  qed
qed

lemma move_test_moves_nothing:
  assumes "core_looks (mo_core E) v" and "keeps v (mo_destroy E)" and "\<And>k. keeps v (mo_exit E k)" and "ci_test (mv_cmd m)"
  shows "keeps v (move_run E m)"
proof -
  have l: "keeps v (op_loop (stop_flag (mo_core E)) (move_turn E) m)"
    by (rule keeps_quiet [OF quiet_loop [where I = "\<lambda>m. ci_test (mv_cmd m)"]]) (use assms(4) move_test_turn [OF assms(1)] in simp_all)
  show ?thesis
    unfolding move_run_def move_close_def
    by (intro quiet_intros l assms(2,3) core_looksD [OF assms(1)])
qed

end
