(* ===== verification/Touch.thy ===== *)
theory Touch
  imports Quiet
begin

text \<open>
  The operations \<open>touch\<close> (\<open>src/fs/touch.c\<close>) and \<open>list\<close> (\<open>src/fs/list.c\<close>). Times, formats and the calls
  on paths of ffsys and ffbase are parameters. Log lines are left out.
\<close>

section \<open>touch\<close>

text \<open>\<open>td_ymd\<close> and \<open>td_date_ymd\<close> are \<open>fftime_fromstr1\<close> in the two formats: the number of characters taken in and the
  date; \<open>td_join\<close> is \<open>fftime_join1\<close>.\<close>

record 'd datelib =
  td_ymd :: "bytes \<Rightarrow> nat \<times> 'd"
  td_date_ymd :: "bytes \<Rightarrow> nat \<times> 'd"
  td_join :: "'d \<Rightarrow> fftime"
  td_1970 :: int
  td_offset :: int

text \<open>\<open>arg_date\<close>; \<^const>\<open>None\<close> is \<open>0xbad\<close>.\<close>

definition arg_date :: "'d datelib \<Rightarrow> bytes \<Rightarrow> fftime option" where
  "arg_date D val =
     (let (n1, d1) = td_ymd D val; (n2, d2) = td_date_ymd D val;
          dt = (if n1 = length val then Some d1 else if n2 = length val then Some d2 else None)
      in map_option (\<lambda>d. (fst (td_join D d) - (td_1970 D + td_offset D), snd (td_join D d))) dt)"

datatype touch_st = ToInit | ToIn

record 'k touch =
  to_st :: touch_st
  to_cmd :: "'k cominfo"
  to_in :: nat
  to_mtime :: fftime
  to_reference :: "bytes option"

text \<open>
  \<open>te_set_mtime\<close> is \<open>fffile_set_mtime_path\<close>, \<open>te_notexist\<close> is \<open>fferr_notexist(fferr_last())\<close>, \<open>te_info_path\<close> is
  \<open>fffile_info_path\<close>, \<open>te_now\<close> is \<open>fftime_now\<close>.
\<close>

record ('s, 'i) touchenv =
  te_core :: "('s, 'i) coreif"
  te_isdir :: "'i \<Rightarrow> bool"
  te_mtime :: "'i \<Rightarrow> fftime"
  te_set_mtime :: "bytes \<Rightarrow> fftime \<Rightarrow> ('s, bool) act"
  te_notexist :: "'s \<Rightarrow> bool"
  te_info_path :: "bytes \<Rightarrow> ('s, 'i option) act"
  te_now :: "('s, fftime) act"

definition touch_create :: "('s, 'i) touchenv \<Rightarrow> fftime option \<Rightarrow> bytes option \<Rightarrow> 'k cominfo \<Rightarrow> ('s, 'k touch) act" where
  "touch_create E date ref cmd s =
     do { (i, s) \<leftarrow> fi_create (te_core E) (ci_buffer_size cmd) s;
          Some (\<lparr>to_st = ToInit, to_cmd = cmd, to_in = i, to_mtime = (case date of None \<Rightarrow> (0, 0) | Some d \<Rightarrow> d), to_reference = ref\<rparr>, s) }"

definition touch_close :: "('s, 'i) touchenv \<Rightarrow> 'k touch \<Rightarrow> ('s, unit) act" where
  "touch_close E t = fi_destroy (te_core E) (to_in t)"

text \<open>The part of \<open>touch_do\<close> after the file is opened: filters, descending into a directory, the time.\<close>

definition touch_opened :: "('s, 'i) touchenv \<Rightarrow> 'k touch \<Rightarrow> bytes \<Rightarrow> ('s, bool) act" where
  "touch_opened E t n s =
     (let C = te_core E
      in do { ((r, fi), s) \<leftarrow> fi_info C (to_in t) s;
              if r = FErr then Some (False, s) else
              (let dir = te_isdir E (the fi)
               in do { (ok, s) \<leftarrow> com_input_allowed C n (if dir then IaDir else IaFile) s;
                       if \<not> ok then Some (True, s) else
                       do { (_, s) \<leftarrow> (if dir then do { (fd, s) \<leftarrow> fi_fd C (to_in t) FCOM_FILE_ACQUIRE s; com_input_dir C fd s } else Some ((), s));
                            (_, s) \<leftarrow> fi_close C (to_in t) s;
                            te_set_mtime E n (to_mtime t) s } }) })"

text \<open>\<open>touch_do\<close>; \<^const>\<open>False\<close> is \<open>0xbad\<close>.\<close>

definition touch_do :: "('s, 'i) touchenv \<Rightarrow> 'k touch \<Rightarrow> bytes \<Rightarrow> ('s, bool) act" where
  "touch_do E t n s =
     (let open1 = (\<lambda>fl s. do { (r, s) \<leftarrow> fi_open (te_core E) (to_in t) n fl s; if r = FErr then Some (False, s) else touch_opened E t n s })
      in if ci_recursive (to_cmd t) \<noteq> 0 then open1 FCOM_FILE_READ s
         else
           do { (ok, s) \<leftarrow> te_set_mtime E n (to_mtime t) s;
                if ok then Some (True, s)
                else if \<not> te_notexist E s then Some (False, s)
                else open1 (FCOM_FILE_CREATENEW OR FCOM_FILE_WRITE) s })"

type_synonym ('s, 'k) touch_turn = "'k touch \<Rightarrow> ('s, 'k touch + 'k touch \<times> int) act"

definition touch_in :: "('s, 'i) touchenv \<Rightarrow> ('s, 'k) touch_turn" where
  "touch_in E t s =
     do { (r, s) \<leftarrow> com_input_next (te_core E) 0 s;
          case r of
            RNomore \<Rightarrow> Some (Inr (t, 0), s)
          | RErr \<Rightarrow> Some (Inr (t, 1), s)
          | ROk n b \<Rightarrow> do { (ok, s) \<leftarrow> touch_do E t n s; Some (if ok then Inl t else Inr (t, 1), s) } }"

definition touch_turn :: "('s, 'i) touchenv \<Rightarrow> ('s, 'k) touch_turn" where
  "touch_turn E t s =
     (case to_st t of
        ToIn \<Rightarrow> touch_in E t s
      | ToInit \<Rightarrow>
          (case to_reference t of
             Some fn \<Rightarrow>
               do { (fi, s) \<leftarrow> te_info_path E fn s;
                    case fi of
                      None \<Rightarrow> Some (Inr (t, 1), s)
                    | Some i \<Rightarrow> touch_in E (t\<lparr>to_mtime := te_mtime E i, to_st := ToIn\<rparr>) s }
           | None \<Rightarrow>
               if fst (to_mtime t) = 0 then
                 do { (now, s) \<leftarrow> te_now E s; touch_in E (t\<lparr>to_mtime := now, to_st := ToIn\<rparr>) s }
               else touch_in E (t\<lparr>to_st := ToIn\<rparr>) s))"

definition touch_run :: "('s, 'i) touchenv \<Rightarrow> 'k touch \<Rightarrow> ('s, int) act" where
  "touch_run E t s =
     do { ((t, rc), s) \<leftarrow> op_loop (stop_flag (te_core E)) (touch_turn E) t s;
          (_, s) \<leftarrow> touch_close E t s;
          Some (rc, s) }"

text \<open>The date 1970-01-01 00:00:00 counts as not given: \<open>--date\<close> with it sets the current time.\<close>

lemma touch_epoch_ignored:
  assumes "to_st t = ToInit" and "to_reference t = None" and "to_mtime t = (0, nsec)"
  shows "touch_turn E t = touch_turn E (t\<lparr>to_mtime := (0, 0)\<rparr>)"
proof
  fix s
  show "touch_turn E t s = touch_turn E (t\<lparr>to_mtime := (0, 0)\<rparr>) s" using assms by (simp add: touch_turn_def)
qed

text \<open>Without \<open>--recursive\<close> an existing file is touched before any filter is asked for.\<close>

lemma touch_before_filter:
  assumes "ci_recursive (to_cmd t) = 0" and "te_set_mtime E n (to_mtime t) s = Some (True, s')"
  shows "touch_do E t n s = Some (True, s')"
  using assms by (simp add: touch_do_def Let_def)

section \<open>list\<close>

text \<open>\<open>lb_size\<close> is the format \<open>%12U\<close>, \<open>lb_date\<close> the date and time with microseconds.\<close>

record ('s, 'i) listenv =
  le_core :: "('s, 'i) coreif"
  le_info_path :: "bytes \<Rightarrow> ('s, 'i option) act"
  le_isdir :: "'i \<Rightarrow> bool"
  le_size :: "'i \<Rightarrow> nat"
  le_mtime :: "'i \<Rightarrow> fftime"
  lb_size :: "nat \<Rightarrow> bytes"
  lb_date :: "fftime \<Rightarrow> bytes"
  le_stdout :: "bytes \<Rightarrow> ('s, unit) act"

datatype list_st = LsIn | LsPrint

record ('k, 'i) list_op =
  ls_state :: list_st
  ls_cmd :: "'k cominfo"
  ls_name :: bytes
  ls_base :: bytes
  ls_fi :: "'i option"
  ls_buf :: bytes
  ls_skip_prefix :: bool
  ls_long_fmt :: bool
  ls_one_line :: bool

text \<open>\<open>list_create\<close> with the default input \<open>.\<close> that \<open>args_parse\<close> adds.\<close>

definition list_create :: "bool \<Rightarrow> bool \<Rightarrow> 'k cominfo \<Rightarrow> ('k, 'i) list_op" where
  "list_create long one cmd =
     (let none = (ci_input cmd = [])
      in \<lparr>ls_state = LsIn, ls_cmd = (if none then cmd\<lparr>ci_input := [''.'']\<rparr> else cmd), ls_name = [], ls_base = [], ls_fi = None, ls_buf = [],
          ls_skip_prefix = none, ls_long_fmt = long, ls_one_line = one\<rparr>)"

datatype ls_next = LnNext | LnDone | LnOk

text \<open>An error of \<open>input_next\<close> is taken for a name to skip.\<close>

definition list_read_input :: "('s, 'i) listenv \<Rightarrow> ('k, 'i) list_op \<Rightarrow> ('s, ls_next \<times> ('k, 'i) list_op) act" where
  "list_read_input E l s =
     do { (r, s) \<leftarrow> com_input_next (le_core E) 0 s;
          case r of
            RNomore \<Rightarrow> Some ((LnDone, l), s)
          | RErr \<Rightarrow> Some ((LnNext, l), s)
          | ROk n b \<Rightarrow>
              (let l = l\<lparr>ls_name := n, ls_base := b\<rparr>
               in do { (fi, s) \<leftarrow> le_info_path E n s;
                       case fi of
                         None \<Rightarrow> Some ((LnNext, l), s)
                       | Some i \<Rightarrow>
                           (let l = l\<lparr>ls_fi := Some i\<rparr>; dir = le_isdir E i
                            in do { (ok, s) \<leftarrow> com_input_allowed (le_core E) n (if dir then IaDir else IaFile) s;
                                    if \<not> ok then Some ((LnNext, l), s)
                                    else if (b = [] \<or> ci_recursive (ls_cmd l) \<noteq> 0) \<and> dir then
                                      do { (_, s) \<leftarrow> com_input_dir (le_core E) None s;
                                           Some ((if b = [] then LnNext else LnOk, l), s) }
                                    else Some ((LnOk, l), s) }) }) }"

definition list_process :: "('s, 'i) listenv \<Rightarrow> ('k, 'i) list_op \<Rightarrow> ('k, 'i) list_op" where
  "list_process E l0 =
     (let l = (if ls_skip_prefix l0 then l0\<lparr>ls_name := drop 2 (ls_name l0)\<rparr> else l0);
          n = ls_name l
      in l\<lparr>ls_buf := ls_buf l @
           (if \<not> ls_long_fmt l \<and> ls_one_line l then [CHR 0x22] @ n @ [CHR 0x22, CHR '' '']
            else if \<not> ls_long_fmt l then n @ [CHR 0x0A]
            else lb_size E (le_size E (the (ls_fi l))) @ '' '' @ lb_date E (le_mtime E (the (ls_fi l))) @ '' '' @ n @ [CHR 0x0A])\<rparr>)"

definition list_display :: "('s, 'i) listenv \<Rightarrow> bool \<Rightarrow> ('k, 'i) list_op \<Rightarrow> ('s, ('k, 'i) list_op) act" where
  "list_display E force l s =
     (if force \<or> 4096 \<le> length (ls_buf l) then do { (_, s) \<leftarrow> le_stdout E (ls_buf l) s; Some (l\<lparr>ls_buf := []\<rparr>, s) }
      else Some (l, s))"

type_synonym ('s, 'k, 'i) list_turn = "('k, 'i) list_op \<Rightarrow> ('s, ('k, 'i) list_op + ('k, 'i) list_op \<times> int) act"

definition list_print :: "('s, 'i) listenv \<Rightarrow> ('s, 'k, 'i) list_turn" where
  "list_print E l s = do { (l, s) \<leftarrow> list_display E False (list_process E l) s; Some (Inl (l\<lparr>ls_state := LsIn\<rparr>), s) }"

definition list_turn :: "('s, 'i) listenv \<Rightarrow> ('s, 'k, 'i) list_turn" where
  "list_turn E l s =
     (case ls_state l of
        LsPrint \<Rightarrow> list_print E l s
      | LsIn \<Rightarrow>
          do { ((r, l), s) \<leftarrow> list_read_input E l s;
               case r of
                 LnNext \<Rightarrow> Some (Inl l, s)
               | LnDone \<Rightarrow> do { (l, s) \<leftarrow> list_display E True l s; Some (Inr (l, 0), s) }
               | LnOk \<Rightarrow> list_print E (l\<lparr>ls_state := LsPrint\<rparr>) s })"

definition list_run :: "('s, 'i) listenv \<Rightarrow> ('k, 'i) list_op \<Rightarrow> ('s, int) act" where
  "list_run E l s =
     do { ((l, rc), s) \<leftarrow> op_loop (stop_flag (le_core E)) (list_turn E) l s; Some (rc, s) }"

text \<open>When the list of input names cannot be read on, the operation asks again for ever.\<close>

lemma list_error_hangs:
  assumes fails: "\<And>s. broken s \<Longrightarrow> \<not> stop_flag (le_core E) s \<and> (\<exists>s'. com_input_next (le_core E) 0 s = Some (RErr, s') \<and> broken s')"
    and start: "broken s" "ls_state l = LsIn"
  shows "list_run E l s = None"
proof -
  have "op_loop (stop_flag (le_core E)) (list_turn E) l s = None"
  proof (rule op_loop_diverges [where I = "\<lambda>l s. broken s \<and> ls_state l = LsIn"])
    fix l :: "('c, 'b) list_op" and s
    assume "broken s \<and> ls_state l = LsIn"
    moreover from this obtain s' where "com_input_next (le_core E) 0 s = Some (RErr, s')" "broken s'" "\<not> stop_flag (le_core E) s"
      using fails by blast
    ultimately show "\<not> stop_flag (le_core E) s \<and> (\<exists>l' s'. list_turn E l s = Some (Inl l', s') \<and> broken s' \<and> ls_state l' = LsIn)"
      by (simp add: list_turn_def list_read_input_def)
  qed (use start in simp)
  then show ?thesis by (simp add: list_run_def)
qed

text \<open>The names that \<open>list\<close> has printed or holds in its buffer.\<close>

lemma list_print_line:
  assumes "\<not> ls_long_fmt l" and "\<not> ls_one_line l" and "\<not> ls_skip_prefix l"
    and "\<And>x s. le_stdout E x s = Some ((), out s x)"
  shows "\<exists>l' s'. list_print E l s = Some (Inl l', s') \<and> ls_state l' = LsIn \<and>
    (ls_buf l' = ls_buf l @ ls_name l @ [CHR 0x0A] \<and> s' = s \<or> ls_buf l' = [] \<and> s' = out s (ls_buf l @ ls_name l @ [CHR 0x0A]))"
  using assms by (simp add: list_print_def list_display_def list_process_def Let_def)

end
