(* ===== verification/Trash.thy ===== *)
theory Trash
  imports Quiet Move
begin

text \<open>
  The operation \<open>trash\<close> (\<open>src/fs/trash.c\<close>) with the call of the desktop's trash on Linux
  (\<open>src/util/unix-shell.h\<close>). Loading a shared library and the functions of libgio are parameters. Log lines are
  left out.
\<close>

section \<open>The desktop's trash\<close>

text \<open>The static data of \<open>ffui_glib_trash\<close>.\<close>

record glib_st =
  gl_gio :: "nat option"
  gl_gobject :: "nat option"
  gl_new_for_path :: bool
  gl_trash :: bool
  gl_unref :: bool

record 's glibenv =
  gb_get :: "'s \<Rightarrow> glib_st"
  gb_set :: "glib_st \<Rightarrow> 's \<Rightarrow> 's"
  gb_open :: "bytes \<Rightarrow> ('s, nat option) act"
  gb_addr :: "nat \<Rightarrow> bytes \<Rightarrow> bool"
  gb_trash :: "bytes \<Rightarrow> ('s, bool) act"

definition LIBGIO_PATH :: bytes where
  "LIBGIO_PATH = ''/lib64/libgio-2.0.so.0''"

definition LIBGIO_PATH_ALT :: bytes where
  "LIBGIO_PATH_ALT = ''/usr/lib/x86_64-linux-gnu/libgio-2.0.so.0''"

definition LIBGOBJECT_PATH :: bytes where
  "LIBGOBJECT_PATH = ''/lib64/libgobject-2.0.so.0''"

definition LIBGOBJECT_PATH_ALT :: bytes where
  "LIBGOBJECT_PATH_ALT = ''/usr/lib/x86_64-linux-gnu/libgobject-2.0.so.0''"

definition glib_open :: "'s glibenv \<Rightarrow> nat option \<Rightarrow> bytes \<Rightarrow> bytes \<Rightarrow> ('s, nat option) act" where
  "glib_open E h path alt s =
     (case h of
        Some x \<Rightarrow> Some (Some x, s)
      | None \<Rightarrow> do { (r, s) \<leftarrow> gb_open E path s; case r of Some x \<Rightarrow> Some (Some x, s) | None \<Rightarrow> gb_open E alt s })"

text \<open>The first part of \<open>ffui_glib_trash\<close>: \<^const>\<open>False\<close> goes to \<open>err\<close>.\<close>

definition glib_load_gobject :: "'s glibenv \<Rightarrow> ('s, bool) act" where
  "glib_load_gobject E s =
     do { (o1, s) \<leftarrow> glib_open E (gl_gobject (gb_get E s)) LIBGOBJECT_PATH LIBGOBJECT_PATH_ALT s;
          let s = gb_set E ((gb_get E s)\<lparr>gl_gobject := o1\<rparr>) s in
          case o1 of
            None \<Rightarrow> Some (False, s)
          | Some obj \<Rightarrow>
              (let u = gb_addr E obj ''g_object_unref'' in Some (u, gb_set E ((gb_get E s)\<lparr>gl_unref := u\<rparr>) s)) }"

definition glib_load :: "'s glibenv \<Rightarrow> ('s, bool) act" where
  "glib_load E s =
     (if gl_unref (gb_get E s) then Some (True, s)
      else do { (g, s) \<leftarrow> glib_open E (gl_gio (gb_get E s)) LIBGIO_PATH LIBGIO_PATH_ALT s;
                let s = gb_set E ((gb_get E s)\<lparr>gl_gio := g\<rparr>) s in
                case g of
                  None \<Rightarrow> Some (False, s)
                | Some gio \<Rightarrow>
                    (let n = gb_addr E gio ''g_file_new_for_path''; t = gb_addr E gio ''g_file_trash'';
                         s = gb_set E ((gb_get E s)\<lparr>gl_new_for_path := n, gl_trash := t\<rparr>) s
                     in if \<not> n \<or> \<not> t then Some (False, s) else glib_load_gobject E s) })"

text \<open>\<^const>\<open>True\<close> is the return value 0.\<close>

definition ffui_glib_trash :: "'s glibenv \<Rightarrow> bytes \<Rightarrow> ('s, bool) act" where
  "ffui_glib_trash E path s = do { (ok, s) \<leftarrow> glib_load E s; if ok then gb_trash E path s else Some (False, s) }"

text \<open>Once all is loaded, a call is just \<open>g_file_trash\<close>.\<close>

lemma ffui_glib_trash_loaded: "gl_unref (gb_get E s) \<Longrightarrow> ffui_glib_trash E path s = gb_trash E path s"
  by (simp add: ffui_glib_trash_def glib_load_def)

lemma glib_load_gobject_done:
  assumes run: "glib_load_gobject E s = Some (True, s')" and get: "\<And>x s. gb_get E (gb_set E x s) = x"
  shows "gl_unref (gb_get E s')"
proof -
  obtain o1 s1 where 1: "glib_open E (gl_gobject (gb_get E s)) LIBGOBJECT_PATH LIBGOBJECT_PATH_ALT s = Some (o1, s1)"
    using run by (auto simp: glib_load_gobject_def Option.bind_eq_Some_conv)
  with run get show ?thesis by (auto simp: glib_load_gobject_def Let_def split: option.split_asm)
qed

lemma glib_load_once:
  assumes run: "glib_load E s = Some (True, s')" and get: "\<And>x s. gb_get E (gb_set E x s) = x"
  shows "glib_load E s' = Some (True, s')"
proof -
  have "gl_unref (gb_get E s')"
  proof (cases "gl_unref (gb_get E s)")
    case True
    then show ?thesis using run by (simp add: glib_load_def)
  next
    case False
    obtain g s1 where 1: "glib_open E (gl_gio (gb_get E s)) LIBGIO_PATH LIBGIO_PATH_ALT s = Some (g, s1)"
      using run False by (auto simp: glib_load_def Option.bind_eq_Some_conv)
    with run False show ?thesis
      by (auto simp: glib_load_def Let_def split: if_splits option.split_asm dest: glib_load_gobject_done [OF _ get])
  qed
  then show ?thesis by (simp add: glib_load_def)
qed

section \<open>The operation\<close>

datatype trash_st = TrIn | TrAll | TrObo | TrDone

record 'k trash =
  tr_st :: trash_st
  tr_cmd :: "'k cominfo"
  tr_in :: nat
  tr_names :: "bytes list"
  tr_trashed :: nat
  tr_deleted :: nat
  tr_wipe :: bool
  tr_rename :: bool

text \<open>\<open>re_trash\<close> is \<open>ffui_glib_trash\<close>; \<open>re_random\<close> is \<open>core->random\<close>; \<open>re_2000\<close> the date 2000-01-01.\<close>

record ('s, 'i) trashenv =
  re_core :: "('s, 'i) coreif"
  re_lib :: movelib
  re_size :: "'i \<Rightarrow> nat"
  re_random :: "('s, 32 word) act"
  re_trash :: "bytes \<Rightarrow> ('s, bool) act"
  re_2000 :: fftime

definition trash_create :: "('s, 'i) trashenv \<Rightarrow> bool \<Rightarrow> bool \<Rightarrow> 'k cominfo \<Rightarrow> ('s, 'k trash) act" where
  "trash_create E wipe rename cmd s =
     do { (i, s) \<leftarrow> fi_create (re_core E) (ci_buffer_size cmd) s;
          Some (\<lparr>tr_st = TrIn, tr_cmd = cmd, tr_in = i, tr_names = [], tr_trashed = 0, tr_deleted = 0,
                 tr_wipe = wipe, tr_rename = rename\<rparr>, s) }"

definition trash_close :: "('s, 'i) trashenv \<Rightarrow> 'k trash \<Rightarrow> ('s, unit) act" where
  "trash_close E t = fi_destroy (re_core E) (tr_in t)"

text \<open>\<open>data_rnd\<close>: the length is rounded up to \<open>chunk\<close> and that many bytes are stored, four at a time; \<^const>\<open>None\<close> in the
  result when that is more than the buffer holds.\<close>

definition align_ceil :: "nat \<Rightarrow> nat \<Rightarrow> nat" where
  "align_ceil n a = (n + a - 1) div a * a"

definition rnd_bytes :: "32 word \<Rightarrow> bytes" where
  "rnd_bytes x = map (\<lambda>i. char_of (unat (drop_bit (8 * i) x) mod 256)) [0 ..< 4]"

fun rnd_fill :: "('s, 32 word) act \<Rightarrow> nat \<Rightarrow> ('s, bytes) act" where
  "rnd_fill f 0 s = Some ([], s)"
| "rnd_fill f (Suc n) s = do { (x, s) \<leftarrow> f s; (d, s) \<leftarrow> rnd_fill f n s; Some (rnd_bytes x @ d, s) }"

definition data_rnd :: "('s, 'i) trashenv \<Rightarrow> nat \<Rightarrow> nat \<Rightarrow> nat \<Rightarrow> ('s, bytes option) act" where
  "data_rnd E cap len chunk s =
     (let n = align_ceil len chunk
      in if cap < n then Some (None, s) else do { (d, s) \<leftarrow> rnd_fill (re_random E) (n div 4) s; Some (Some d, s) })"

datatype wipe_ret = WpOk | WpFail | WpOverrun

text \<open>The loop of \<open>f_wipe\<close>.\<close>

partial_function (option) wipe_loop :: "('s, 'i) trashenv \<Rightarrow> nat \<Rightarrow> nat \<Rightarrow> nat \<Rightarrow> ('s, wipe_ret) act" where
  "wipe_loop E f cap fsize s =
     (if fsize = 0 then Some (WpOk, s)
      else
        Option.bind (data_rnd E cap (min fsize cap) 4096 s)
          (\<lambda>x. case fst x of
             None \<Rightarrow> Some (WpOverrun, snd x)
           | Some d \<Rightarrow>
               if stop_flag (re_core E) (snd x) then Some (WpFail, snd x)
               else
                 Option.bind (fi_write (re_core E) f d None (snd x))
                   (\<lambda>y. if fst y = FErr then Some (WpFail, snd y) else wipe_loop E f cap (fsize - length d) (snd y))))"

definition wipe_buffer :: "'k cominfo \<Rightarrow> nat" where
  "wipe_buffer cmd = max (if ci_buffer_size cmd = 0 then 64 * 1024 else ci_buffer_size cmd) 4096"

text \<open>\<open>f_wipe\<close>; the buffer holds exactly what is asked for.\<close>

definition f_wipe :: "('s, 'i) trashenv \<Rightarrow> 'k trash \<Rightarrow> bytes \<Rightarrow> ('s, wipe_ret \<times> 'k trash) act" where
  "f_wipe E t fn s =
     (let C = re_core E;
          fl = FCOM_FILE_WRITE OR FCOM_FILE_NO_PREALLOC OR (if ci_directio (tr_cmd t) then FCOM_FILE_DIRECTIO else 0)
      in do { (f, s) \<leftarrow> fi_create C 0 s;
              (r, s) \<leftarrow> fi_open C f fn fl s;
              ((w, t), s) \<leftarrow>
                (if r = FErr then Some ((WpFail, t), s)
                 else do { ((r, fi), s) \<leftarrow> fi_info C f s;
                           if r = FErr then Some ((WpFail, t), s)
                           else
                             (let cap = wipe_buffer (tr_cmd t); t = t\<lparr>tr_cmd := (tr_cmd t)\<lparr>ci_buffer_size := cap\<rparr>\<rparr>
                              in do { (w, s) \<leftarrow> wipe_loop E f cap (re_size E (the fi)) s;
                                      if w = WpOk then
                                        do { (_, s) \<leftarrow> fi_mtime_set C f (re_2000 E) s; (_, s) \<leftarrow> fi_close C f s; Some ((WpOk, t), s) }
                                      else Some ((w, t), s) }) });
              (_, s) \<leftarrow> fi_destroy C f s;
              Some ((w, t), s) })"

text \<open>\<open>f_trash\<close>: every name is tried; \<^const>\<open>False\<close> is -1.\<close>

fun f_trash :: "('s, 'i) trashenv \<Rightarrow> bytes list \<Rightarrow> ('s, bool) act" where
  "f_trash E [] s = Some (True, s)"
| "f_trash E (n # ns) s = do { (a, s) \<leftarrow> re_trash E n s; (b, s) \<leftarrow> f_trash E ns s; Some (a \<and> b, s) }"

text \<open>\<open>f_del\<close>: the number of files deleted.\<close>

fun f_del :: "('s, 'i) trashenv \<Rightarrow> bytes list \<Rightarrow> ('s, nat) act" where
  "f_del E [] s = Some (0, s)"
| "f_del E (n # ns) s = do { (ok, s) \<leftarrow> fi_del (re_core E) n s; (k, s) \<leftarrow> f_del E ns s; Some ((if ok then Suc k else k), s) }"

definition f_new_name :: "movelib \<Rightarrow> bytes \<Rightarrow> bytes \<Rightarrow> bytes" where
  "f_new_name L old new = (case fst (ml_splitpath L old) of None \<Rightarrow> [] | Some d \<Rightarrow> d @ [FFPATH_SLASH]) @ new"

text \<open>\<open>trash_all\<close> and \<open>trash_process\<close>: \<^const>\<open>False\<close> is -1; \<^const>\<open>None\<close> is the write past the buffer.\<close>

definition trash_all :: "('s, 'i) trashenv \<Rightarrow> 'k trash \<Rightarrow> ('s, bool \<times> 'k trash) act" where
  "trash_all E t s =
     do { (ok, s) \<leftarrow> f_trash E (tr_names t) s;
          if ok then Some ((True, t\<lparr>tr_trashed := tr_trashed t + length (tr_names t)\<rparr>), s)
          else if ci_overwrite (tr_cmd t) \<and> \<not> ci_test (tr_cmd t) then
            do { (k, s) \<leftarrow> f_del E (tr_names t) s; Some ((k \<noteq> 0, t\<lparr>tr_deleted := k\<rparr>), s) }
          else Some ((False, t), s) }"

text \<open>One name of \<open>trash_process\<close>, after the wiping.\<close>

definition trash_one :: "('s, 'i) trashenv \<Rightarrow> 'k trash \<Rightarrow> bytes \<Rightarrow> ('s, bool \<times> 'k trash) act" where
  "trash_one E t fn0 s =
     (let fn = (if tr_rename t then f_new_name (re_lib E) fn0 ''00000000.0000'' else fn0)
      in do { (r, s) \<leftarrow> (if tr_rename t then fi_move (re_core E) fn0 fn FCOM_FILE_MOVE_SAFE s else Some (FOk, s));
              if r \<noteq> FOk then Some ((False, t), s)
              else
                do { (ok, s) \<leftarrow> f_trash E [fn] s;
                     if ok then Some ((True, t\<lparr>tr_trashed := tr_trashed t + 1\<rparr>), s)
                     else if ci_overwrite (tr_cmd t) \<and> \<not> ci_test (tr_cmd t) then
                       do { (d, s) \<leftarrow> fi_del (re_core E) fn s;
                            Some ((True, if d then t\<lparr>tr_deleted := tr_deleted t + 1\<rparr> else t), s) }
                     else Some ((True, t), s) } })"

fun trash_process :: "('s, 'i) trashenv \<Rightarrow> 'k trash \<Rightarrow> bytes list \<Rightarrow> ('s, bool option \<times> 'k trash) act" where
  "trash_process E t [] s = Some ((Some True, t), s)"
| "trash_process E t (fn # ns) s =
     do { ((w, t), s) \<leftarrow> (if tr_wipe t then f_wipe E t fn s else Some ((WpOk, t), s));
          if w = WpOverrun then Some ((None, t), s)
          else if w = WpFail then Some ((Some False, t), s)
          else do { ((ok, t), s) \<leftarrow> trash_one E t fn s;
                    if ok then trash_process E t ns s else Some ((Some False, t), s) } }"

text \<open>The code of a run that writes past its buffer.\<close>

definition TR_OVERRUN :: int where
  "TR_OVERRUN = 2"

type_synonym ('s, 'k) trash_turn = "'k trash \<Rightarrow> ('s, 'k trash + 'k trash \<times> int) act"

definition trash_turn :: "('s, 'i) trashenv \<Rightarrow> ('s, 'k) trash_turn" where
  "trash_turn E t s =
     (case tr_st t of
        TrIn \<Rightarrow>
          do { (r, s) \<leftarrow> com_input_next (re_core E) 0 s;
               case r of
                 RNomore \<Rightarrow> Some (Inl (t\<lparr>tr_st := (if tr_wipe t \<or> tr_rename t then TrObo else TrAll)\<rparr>), s)
               | RErr \<Rightarrow> Some (Inr (t, 1), s)
               | ROk n b \<Rightarrow> Some (Inl (t\<lparr>tr_names := tr_names t @ [n]\<rparr>), s) }
      | TrAll \<Rightarrow>
          do { ((ok, t), s) \<leftarrow> trash_all E t s; Some (if ok then Inl (t\<lparr>tr_st := TrDone\<rparr>) else Inr (t, 1), s) }
      | TrObo \<Rightarrow>
          do { ((ok, t), s) \<leftarrow> trash_process E t (tr_names t) s;
               Some (case ok of
                 None \<Rightarrow> Inr (t, TR_OVERRUN)
               | Some b \<Rightarrow> if b then Inl (t\<lparr>tr_st := TrDone\<rparr>) else Inr (t, 1), s) }
      | TrDone \<Rightarrow> Some (Inr (t, 0), s))"

text \<open>\<open>trash_run\<close>: the code given to \<open>com->complete\<close>, \<^const>\<open>None\<close> after a write past the buffer.\<close>

definition trash_run :: "('s, 'i) trashenv \<Rightarrow> 'k trash \<Rightarrow> ('s, int option) act" where
  "trash_run E t s =
     do { ((t, rc), s) \<leftarrow> op_loop (stop_flag (re_core E)) (trash_turn E) t s;
          if rc = TR_OVERRUN then Some (None, s)
          else do { (_, s) \<leftarrow> trash_close E t s; Some (Some rc, s) } }"

section \<open>Facts\<close>

lemma length_rnd_fill: "rnd_fill f n s = Some (d, s') \<Longrightarrow> length d = 4 * n"
  by (induction n arbitrary: s d s') (auto simp: Option.bind_eq_Some_conv rnd_bytes_def)

lemma align_ceil_4096: "n \<le> align_ceil n 4096" "align_ceil n 4096 < n + 4096" "0 < n \<Longrightarrow> 0 < align_ceil n 4096" "4096 dvd align_ceil n 4096"
proof -
  have e: "align_ceil n 4096 = n + 4095 - (n + 4095) mod 4096" by (simp add: align_ceil_def minus_mod_eq_div_mult)
  have "(n + 4095) mod 4096 < 4096" by simp
  with e show "n \<le> align_ceil n 4096" "align_ceil n 4096 < n + 4096" by linarith+
  then show "0 < n \<Longrightarrow> 0 < align_ceil n 4096" by linarith
  show "4096 dvd align_ceil n 4096" by (simp add: align_ceil_def)
qed

text \<open>A buffer size that is no multiple of 4096 is written past as soon as the file fills the buffer.\<close>

lemma wipe_overruns:
  assumes "\<not> 4096 dvd cap" and "cap \<le> fsize" and "0 < cap"
  shows "wipe_loop E f cap fsize s = Some (WpOverrun, s)"
proof -
  have "cap \<noteq> align_ceil cap 4096" using align_ceil_4096(4) [of cap] assms(1) by metis
  then have "cap < align_ceil cap 4096" using align_ceil_4096(1) [of cap] by linarith
  then have "data_rnd E cap (min fsize cap) 4096 s = Some (None, s)" using assms(2) by (simp add: data_rnd_def Let_def min_absorb2)
  with assms(2,3) show ?thesis by (subst wipe_loop.simps) simp
qed

text \<open>With a multiple of 4096 the wiping ends, and what it writes is the size of the file rounded up: the file grows to
  it.\<close>

lemma wipe_writes:
  assumes rnd: "\<And>s. \<exists>x s'. re_random E s = Some (x, s') \<and> written s' = written s \<and> (go s \<longrightarrow> go s')"
    and wr: "\<And>d s. go s \<Longrightarrow> \<exists>s'. fi_write (re_core E) f d None s = Some (FOk, s') \<and> written s' = written s + length d \<and> go s'"
    and run: "\<And>s. go s \<Longrightarrow> \<not> stop_flag (re_core E) s"
    and cap: "4096 dvd cap" "0 < cap"
  shows "go s \<Longrightarrow> \<exists>s'. wipe_loop E f cap n s = Some (WpOk, s') \<and> written s' = written s + align_ceil n 4096 \<and> go s'"
proof (induction n arbitrary: s rule: less_induct)
  case (less n)
  have fill: "\<exists>d s'. rnd_fill (re_random E) k s = Some (d, s') \<and> written s' = written s \<and> go s'" if "go s" for k s
    using that
  proof (induction k arbitrary: s)
    case (Suc k)
    obtain x s1 where 1: "re_random E s = Some (x, s1)" "written s1 = written s" "go s1" using rnd Suc(2) by blast
    from Suc(1) [OF 1(3)] 1 show ?case by auto
  qed auto
  show ?case
  proof (cases "n = 0")
    case True
    then show ?thesis using less(2) by (subst wipe_loop.simps) (simp add: align_ceil_def)
  next
    case False
    define k where "k = align_ceil (min n cap) 4096"
    have k4: "4 dvd k" using align_ceil_4096(4) [of "min n cap"] dvd_trans [of 4 4096 k] by (simp add: k_def)
    have kc: "k \<le> cap"
    proof (rule ccontr)
      assume "\<not> k \<le> cap"
      obtain a b where ab: "cap = 4096 * a" "k = 4096 * b" using cap(1) align_ceil_4096(4) [of "min n cap"] by (auto simp: k_def dvd_def)
      with align_ceil_4096(2) [of "min n cap"] \<open>\<not> k \<le> cap\<close> have "4096 * b < 4096 * a + 4096" "a < b" by (simp_all add: k_def)
      then show False by linarith
    qed
    obtain d s1 where d: "rnd_fill (re_random E) (k div 4) s = Some (d, s1)" "written s1 = written s" "go s1" using fill [OF less(2)] by blast
    have ld: "length d = k" using length_rnd_fill [OF d(1)] k4 by simp
    obtain s2 where 2: "fi_write (re_core E) f d None s1 = Some (FOk, s2)" "written s2 = written s1 + length d" "go s2" using wr [OF d(3)] by blast
    have w: "wipe_loop E f cap n s = wipe_loop E f cap (n - k) s2"
      using False d(1) kc 2(1) run [OF d(3)] ld by (subst wipe_loop.simps) (simp add: data_rnd_def k_def Let_def)
    have "0 < k" using align_ceil_4096(3) [of "min n cap"] False cap(2) by (simp add: k_def)
    with False have lt: "n - k < n" by simp
    have "k + align_ceil (n - k) 4096 = align_ceil n 4096"
    proof (cases "n \<le> cap")
      case True
      then show ?thesis using align_ceil_4096(1) [of n] by (simp add: k_def align_ceil_def)
    next
      case f: False
      then have k: "k = align_ceil cap 4096" by (simp add: k_def)
      obtain a where a: "cap = a * 4096" using cap(1) by (auto simp: dvd_def mult.commute)
      have "k = cap" unfolding k align_ceil_def a by simp
      moreover obtain r where r: "n = a * 4096 + r" using f a by (metis le_add_diff_inverse nat_le_linear)
      moreover have "(4095 + (a * 4096 + r)) div 4096 = a + (4095 + r) div 4096"
        using div_mult_self1 [of 4096 "4095 + r" a] by (simp add: ac_simps)
      ultimately show ?thesis by (simp add: align_ceil_def a)
    qed
    with less(1) [OF lt 2(3)] w 2(2) d(2) ld show ?thesis by auto
  qed
qed

end
