(* ===== verification/Hex.thy ===== *)
theory Hex
  imports Pipe
begin

text \<open>
  The operations \<open>hex\<close> (\<open>src/ops/hex.c\<close>) and \<open>utf8\<close> (\<open>src/text/utf8.c\<close>). Printing bytes in hexadecimal and
  decoding characters are done by ffbase, parameters here. Log lines are left out.
\<close>

section \<open>hex\<close>

datatype hex_st = HxOutOpen | HxIn | HxRead

record 'k hex =
  hx_st :: hex_st
  hx_cmd :: "'k cominfo"
  hx_in :: nat
  hx_out :: nat
  hx_data :: bytes
  hx_off :: nat

text \<open>\<open>xe_print\<close> is \<open>ffmem_print\<close> with 16 bytes a row: the text for a block that lies at an offset.\<close>

record ('s, 'i) hexenv =
  xh_core :: "('s, 'i) coreif"
  xh_print :: "bytes \<Rightarrow> nat \<Rightarrow> bytes"

text \<open>No output file means standard output.\<close>

definition or_stdout :: "'k cominfo \<Rightarrow> 'k cominfo" where
  "or_stdout cmd = (if ci_output cmd = [] then cmd\<lparr>ci_stdout := True\<rparr> else cmd)"

definition hex_create :: "('s, 'i) hexenv \<Rightarrow> 'k cominfo \<Rightarrow> ('s, 'k hex) act" where
  "hex_create E cmd0 s =
     (let cmd = or_stdout cmd0
      in do { (i, s) \<leftarrow> fi_create (xh_core E) (ci_buffer_size cmd) s;
              (o1, s) \<leftarrow> fi_create (xh_core E) (ci_buffer_size cmd) s;
              Some (\<lparr>hx_st = HxOutOpen, hx_cmd = cmd, hx_in = i, hx_out = o1, hx_data = [], hx_off = 0\<rparr>, s) })"

definition hex_close :: "('s, 'i) hexenv \<Rightarrow> 'k hex \<Rightarrow> ('s, unit) act" where
  "hex_close E h s = do { (_, s) \<leftarrow> fi_destroy (xh_core E) (hx_in h) s; fi_destroy (xh_core E) (hx_out h) s }"

type_synonym ('s, 'k) hex_turn = "'k hex \<Rightarrow> ('s, 'k hex + 'k hex \<times> int) act"

definition hex_out_open :: "('s, 'i) hexenv \<Rightarrow> ('s, 'k) hex_turn" where
  "hex_out_open E h s =
     do { (r, s) \<leftarrow> fi_open (xh_core E) (hx_out h) (ci_output (hx_cmd h)) (FCOM_FILE_WRITE OR fcom_file_cominfo_flags_o (hx_cmd h)) s;
          Some (if r = FErr then Inr (h, 1) else Inl (h\<lparr>hx_st := HxIn\<rparr>), s) }"

definition hex_in :: "('s, 'i) hexenv \<Rightarrow> ('s, 'k) hex_turn" where
  "hex_in E h s =
     do { (r, s) \<leftarrow> com_input_next (xh_core E) 0 s;
          case r of
            RNomore \<Rightarrow> Some (Inr (h, 0), s)
          | RErr \<Rightarrow> Some (Inr (h, 1), s)
          | ROk n b \<Rightarrow>
              do { (ok, s) \<leftarrow> com_input_allowed (xh_core E) n IaAuto s;
                   if \<not> ok then Some (Inl h, s) else
                   do { (r, s) \<leftarrow> fi_open (xh_core E) (hx_in h) n (fcom_file_cominfo_flags_i (hx_cmd h)) s;
                        if r = FErr then Some (Inr (h, 1), s) else
                        do { (r, s) \<leftarrow> fi_write (xh_core E) (hx_out h) (n @ [CHR '':'', CHR 0x0A]) None s;
                             Some (if r = FErr then Inr (h, 1) else Inl (h\<lparr>hx_st := HxRead\<rparr>), s) } } } }"

definition hex_read :: "('s, 'i) hexenv \<Rightarrow> ('s, 'k) hex_turn" where
  "hex_read E h s =
     do { ((r, d), s) \<leftarrow> fi_read (xh_core E) (hx_in h) None s;
          if r = FErr then Some (Inr (h\<lparr>hx_data := d\<rparr>, 1), s)
          else if r = FEof then
            do { (r, s) \<leftarrow> fi_write (xh_core E) (hx_out h) [CHR 0x0A] None s;
                 let h = h\<lparr>hx_data := d, hx_off := 0\<rparr> in
                 Some (if r = FErr then Inr (h, 1) else Inl (h\<lparr>hx_st := HxIn\<rparr>), s) }
          else
            do { (r, s) \<leftarrow> fi_write (xh_core E) (hx_out h) (xh_print E d (hx_off h)) None s;
                 let h = h\<lparr>hx_data := d\<rparr> in
                 Some (if r = FErr then Inr (h, 1) else Inl (h\<lparr>hx_off := hx_off h + length d\<rparr>), s) } }"

definition hex_turn :: "('s, 'i) hexenv \<Rightarrow> ('s, 'k) hex_turn" where
  "hex_turn E h s = (case hx_st h of HxOutOpen \<Rightarrow> hex_out_open E h s | HxIn \<Rightarrow> hex_in E h s | HxRead \<Rightarrow> hex_read E h s)"

definition hex_run :: "('s, 'i) hexenv \<Rightarrow> 'k hex \<Rightarrow> ('s, int) act" where
  "hex_run E h s =
     do { ((h, rc), s) \<leftarrow> op_loop (stop_flag (xh_core E)) (hex_turn E) h s;
          (_, s) \<leftarrow> hex_close E h s;
          Some (rc, s) }"

section \<open>A file printed\<close>

context pipe_store begin

text \<open>However the reads cut the file, when printing does not depend on the cuts (\<open>pr\<close>), its print is appended to the
  output, and a line feed.\<close>

lemma hex_prints:
  assumes E: "xh_core E = C" and pr: "\<And>a b. print (a @ b) = print a @ xh_print E b (length a)"
    and "stands s = Some (A, p)" and "st_src A = Some (n, d)" and "st_dst A = Some (t, y @ print (take p d))"
    and "hx_st h = HxRead" and "hx_in h = i1" and "hx_out h = o1" and "hx_off h = p"
  shows "\<exists>h' s' q. op_loop (stop_flag C) (hex_turn E) h s = op_loop (stop_flag C) (hex_turn E) h' s' \<and>
    h' = h\<lparr>hx_data := hx_data h', hx_off := 0, hx_st := HxIn\<rparr> \<and> stands s' = Some (A\<lparr>st_dst := Some (t, y @ print d @ [CHR 0x0A])\<rparr>, q)"
  using assms(3-)
proof (induction "length d - p" arbitrary: s A p h rule: less_induct)
  case less
  note run = pp_runs [OF less(2)]
  have p: "p \<le> length d" by (rule pp_range [OF less(2,3)])
  obtain c s1 where r: "fi_read C i1 None s = Some ((if p = length d then FEof else FOk, c), s1)" "stands s1 = Some (A, p + length c)"
    "c = take (length c) (drop p d)" "p < length d \<longrightarrow> c \<noteq> []"
    using pp_read [OF less(2,3)] by (auto elim!: givesE)
  show ?case
  proof (cases "p = length d")
    case True
    obtain s2 where w: "fi_write C o1 [CHR 0x0A] None s1 = Some (FOk, s2)"
      "stands s2 = Some (A\<lparr>st_dst := Some (t, (y @ print (take p d)) @ [CHR 0x0A])\<rparr>, p + length c)"
      using pp_write [OF r(2) less(4)] by (auto elim: givesE)
    define h1 where "h1 = h\<lparr>hx_data := c, hx_off := 0, hx_st := HxIn\<rparr>"
    have "hex_turn E h s = Some (Inl h1, s2)" using less(5-8) r(1) w(1) True E by (simp add: hex_turn_def hex_read_def h1_def)
    from op_loop_next [of "stop_flag C" s "hex_turn E", OF run this] show ?thesis using w(2) True
      by (intro exI [of _ h1] exI [of _ s2] exI [of _ "p + length c"]) (simp add: h1_def)
  next
    case False
    with p have lt: "p < length d" by simp
    obtain s2 where w: "fi_write C o1 (xh_print E c p) None s1 = Some (FOk, s2)"
      "stands s2 = Some (A\<lparr>st_dst := Some (t, (y @ print (take p d)) @ xh_print E c p)\<rparr>, p + length c)"
      using pp_write [OF r(2) less(4)] by (auto elim: givesE)
    define h1 where "h1 = h\<lparr>hx_data := c, hx_off := p + length c\<rparr>"
    have "hex_turn E h s = Some (Inl h1, s2)" using less(5-8) r(1) w(1) False E by (simp add: hex_turn_def hex_read_def h1_def)
    note l = op_loop_next [of "stop_flag C" s "hex_turn E", OF run this]
    have lt2: "length d - (p + length c) < length d - p" using lt r(4) by (cases c) auto
    have tk: "take (p + length c) d = take p d @ c" using r(3) by (metis take_add)
    have "\<exists>h' s' q. op_loop (stop_flag C) (hex_turn E) h1 s2 = op_loop (stop_flag C) (hex_turn E) h' s' \<and>
        h' = h1\<lparr>hx_data := hx_data h', hx_off := 0, hx_st := HxIn\<rparr> \<and>
        stands s' = Some ((A\<lparr>st_dst := Some (t, y @ print (take (p + length c) d))\<rparr>)\<lparr>st_dst := Some (t, y @ print d @ [CHR 0x0A])\<rparr>, q)"
      by (rule less(1) [of "p + length c"]) (use w(2) tk pr [of "take p d" c] less(3-8) lt lt2 in \<open>auto simp: h1_def min_def\<close>)
    with l show ?thesis by (auto simp: h1_def)
  qed
qed

end

section \<open>utf8\<close>

datatype utf_coding = Utf8 | Utf16le | Utf16be | UtfCp nat

text \<open>
  \<open>ul_bom\<close> is \<open>ffutf_bom\<close>: \<^const>\<open>None\<close> without a mark (-1), else the coding and the length of the mark. \<open>ul_from16\<close> and
  \<open>ul_from_cp\<close> with the capacity (\<^const>\<open>None\<close>: only count): the result (negative: error), the text stored and the number
  of bytes taken in.
\<close>

record utflib =
  ul_bom :: "bytes \<Rightarrow> (utf_coding \<times> nat) option"
  ul_from16 :: "bool \<Rightarrow> nat option \<Rightarrow> bytes \<Rightarrow> int \<times> bytes \<times> nat"
  ul_from_cp :: "nat \<Rightarrow> nat option \<Rightarrow> bytes \<Rightarrow> int \<times> bytes \<times> nat"

text \<open>\<open>ffutf8_encodedata\<close>: the result, the text and the new \<open>*plen\<close>.\<close>

definition ffutf8_encodedata :: "utflib \<Rightarrow> nat option \<Rightarrow> bytes \<Rightarrow> utf_coding \<Rightarrow> nat \<times> bytes \<times> nat" where
  "ffutf8_encodedata L dst src coding =
     (let fin = (\<lambda>(r :: int, d, n). (if r < 0 then 0 else nat r, d, n))
      in case coding of
           Utf8 \<Rightarrow> (case dst of
               None \<Rightarrow> (length src, [], length src)
             | Some cap \<Rightarrow> (let n = min cap (length src) in (n, take n src, n)))
         | Utf16le \<Rightarrow> fin (ul_from16 L False dst src)
         | Utf16be \<Rightarrow> fin (ul_from16 L True dst src)
         | UtfCp k \<Rightarrow> fin (ul_from_cp L k dst src))"

definition ffutf8_encodewhole :: "utflib \<Rightarrow> nat option \<Rightarrow> bytes \<Rightarrow> utf_coding \<Rightarrow> nat \<times> bytes" where
  "ffutf8_encodewhole L dst src coding =
     (case ffutf8_encodedata L dst src coding of (r, d, n) \<Rightarrow> (if n \<noteq> length src then 0 else r, d))"

text \<open>\<open>ffutf8_strencode\<close>: counts, then converts into a buffer of that size. The result is the number of bytes.\<close>

definition ffutf8_strencode :: "utflib \<Rightarrow> bytes \<Rightarrow> utf_coding \<Rightarrow> nat \<times> bytes" where
  "ffutf8_strencode L src coding =
     (let cap = fst (ffutf8_encodewhole L None src coding);
          (r, d) = ffutf8_encodewhole L (Some cap) src coding
      in (r, take r d))"

datatype utf_st = UtIn | UtRead | UtProc | UtOutOpen | UtWrite

record 'k utf8 =
  ut_st :: utf_st
  ut_cmd :: "'k cominfo"
  ut_out :: nat
  ut_iname :: bytes
  ut_fdata :: bytes
  ut_buf :: bytes

record ('s, 'i) utf8env =
  ut_core :: "('s, 'i) coreif"
  ut_lib :: utflib
  ut_readwhole :: "bytes \<Rightarrow> ('s, bytes option) act"

definition utf8_create :: "('s, 'i) utf8env \<Rightarrow> 'k cominfo \<Rightarrow> ('s, 'k utf8) act" where
  "utf8_create E cmd0 s =
     (let cmd = or_stdout cmd0
      in do { (o1, s) \<leftarrow> fi_create (ut_core E) (ci_buffer_size cmd) s;
              Some (\<lparr>ut_st = UtIn, ut_cmd = cmd, ut_out = o1, ut_iname = [], ut_fdata = [], ut_buf = []\<rparr>, s) })"

definition utf8_close :: "('s, 'i) utf8env \<Rightarrow> 'k utf8 \<Rightarrow> ('s, unit) act" where
  "utf8_close E u = fi_destroy (ut_core E) (ut_out u)"

type_synonym ('s, 'k) utf8_turn = "'k utf8 \<Rightarrow> ('s, 'k utf8 + 'k utf8 \<times> int) act"

definition utf8_write :: "('s, 'i) utf8env \<Rightarrow> ('s, 'k) utf8_turn" where
  "utf8_write E u s =
     do { (r, s) \<leftarrow> fi_write (ut_core E) (ut_out u) (ut_buf u) None s;
          if r = FErr then Some (Inr (u, 1), s)
          else do { (_, s) \<leftarrow> fi_close (ut_core E) (ut_out u) s; Some (Inl (u\<lparr>ut_st := UtIn\<rparr>), s) } }"

definition utf8_out_open :: "('s, 'i) utf8env \<Rightarrow> ('s, 'k) utf8_turn" where
  "utf8_out_open E u s =
     do { (r, s) \<leftarrow> fi_open (ut_core E) (ut_out u) (ci_output (ut_cmd u)) (FCOM_FILE_WRITE OR fcom_file_cominfo_flags_o (ut_cmd u)) s;
          if r = FErr then Some (Inr (u, 1), s) else utf8_write E (u\<lparr>ut_st := UtWrite\<rparr>) s }"

definition utf8_proc :: "('s, 'i) utf8env \<Rightarrow> ('s, 'k) utf8_turn" where
  "utf8_proc E u s =
     (case ul_bom (ut_lib E) (ut_fdata u) of
        None \<Rightarrow> Some (Inl (u\<lparr>ut_st := UtIn\<rparr>), s)
      | Some (coding, n) \<Rightarrow>
          (let (r, d) = ffutf8_strencode (ut_lib E) (drop n (ut_fdata u)) coding; u = u\<lparr>ut_buf := d\<rparr>
           in if r = 0 then Some (Inr (u, 1), s) else utf8_out_open E (u\<lparr>ut_st := UtOutOpen\<rparr>) s))"

definition utf8_read :: "('s, 'i) utf8env \<Rightarrow> ('s, 'k) utf8_turn" where
  "utf8_read E u s =
     do { (d, s) \<leftarrow> ut_readwhole E (ut_iname u) s;
          case d of None \<Rightarrow> Some (Inr (u, 1), s) | Some x \<Rightarrow> utf8_proc E (u\<lparr>ut_fdata := x, ut_st := UtProc\<rparr>) s }"

definition utf8_in :: "('s, 'i) utf8env \<Rightarrow> ('s, 'k) utf8_turn" where
  "utf8_in E u s =
     do { (r, s) \<leftarrow> com_input_next (ut_core E) 0 s;
          case r of
            RNomore \<Rightarrow> Some (Inr (u, 0), s)
          | RErr \<Rightarrow> Some (Inr (u, 1), s)
          | ROk n b \<Rightarrow>
              do { (ok, s) \<leftarrow> com_input_allowed (ut_core E) n IaAuto s;
                   if ok then utf8_read E (u\<lparr>ut_iname := n, ut_st := UtRead\<rparr>) s else Some (Inl (u\<lparr>ut_iname := n\<rparr>), s) } }"

definition utf8_turn :: "('s, 'i) utf8env \<Rightarrow> ('s, 'k) utf8_turn" where
  "utf8_turn E u s =
     (case ut_st u of
        UtIn \<Rightarrow> utf8_in E u s | UtRead \<Rightarrow> utf8_read E u s | UtProc \<Rightarrow> utf8_proc E u s | UtOutOpen \<Rightarrow> utf8_out_open E u s | UtWrite \<Rightarrow> utf8_write E u s)"

definition utf8_run :: "('s, 'i) utf8env \<Rightarrow> 'k utf8 \<Rightarrow> ('s, int) act" where
  "utf8_run E u s =
     do { ((u, rc), s) \<leftarrow> op_loop (stop_flag (ut_core E)) (utf8_turn E) u s;
          (_, s) \<leftarrow> utf8_close E u s;
          Some (rc, s) }"

text \<open>A file that is already in UTF-8 loses its mark only, but an empty one after the mark is an error.\<close>

lemma utf8_plain: "ffutf8_strencode L d Utf8 = (length d, d)"
  by (simp add: ffutf8_strencode_def ffutf8_encodewhole_def ffutf8_encodedata_def Let_def)

lemma utf8_empty_fails:
  assumes "ul_bom (ut_lib E) (ut_fdata u) = Some (Utf8, length (ut_fdata u))"
  shows "utf8_proc E u s = Some (Inr (u\<lparr>ut_buf := []\<rparr>, 1), s)"
  using assms by (simp add: utf8_proc_def utf8_plain)

end
