(* ===== verification/PackOps.thy ===== *)
theory PackOps
  imports OpIf
begin

text \<open>
  The operations \<open>pack\<close> and \<open>unpack\<close> (\<open>src/pack/pack.c\<close>, \<open>src/pack/unpack.c\<close>), which run one or two other
  operations by the extension of a file name, two of them joined by a pipe. Splitting paths, the pipe and running a command are
  parameters. Log lines are left out.
\<close>

section \<open>What both use\<close>

text \<open>\<open>po_last\<close> is the name \<open>ffpath_splitpath_str\<close> gives; \<open>po_splitname\<close> is \<open>ffpath_splitname_str\<close>, \<^const>\<open>None\<close> without a
  dot (the code's negative result; the name is then whole and the extension empty).\<close>

record ('s, 'k) packenv =
  po_core_input_next :: "('s, rinput) act"
  po_stop :: "'s \<Rightarrow> bool"
  po_last :: "bytes \<Rightarrow> bytes"
  po_splitname :: "bytes \<Rightarrow> (bytes \<times> bytes) option"
  po_pipe :: "('s, (nat \<times> nat) option) act"
  po_pipe_close :: "nat option \<Rightarrow> 's \<Rightarrow> 's"
  po_async :: "('s, unit) act"
  po_new :: "'k cominfo"

text \<open>A command to run: its settings, the descriptors for standard input and output, and the \<open>level\<close> its completion is
  called with (1 for the first of two).\<close>

record 'k child =
  ch_info :: "'k cominfo"
  ch_stdin :: fffd
  ch_stdout :: fffd
  ch_level :: nat

type_synonym ('s, 'k) runcmd = "'k child \<Rightarrow> ('s, bool) act"

definition name_or_all :: "('s, 'k) packenv \<Rightarrow> bytes \<Rightarrow> bytes" where
  "name_or_all E n = (case po_splitname E n of None \<Rightarrow> n | Some (a, e) \<Rightarrow> a)"

definition ext_or_none :: "('s, 'k) packenv \<Rightarrow> bytes \<Rightarrow> bytes" where
  "ext_or_none E n = (case po_splitname E n of None \<Rightarrow> [] | Some (a, e) \<Rightarrow> e)"

section \<open>pack\<close>

datatype pk_state = PkIn | PkComplete

record 'k pack =
  pk_state :: pk_state
  pk_cmd :: "'k cominfo"
  pk_result :: int
  pk_pr :: fffd
  pk_pw :: fffd

definition pack_op_find_ext :: "bytes \<Rightarrow> bytes option" where
  "pack_op_find_ext ext =
     map_of [(''gz'', ''gz''), (''iso'', ''iso''), (''tar'', ''tar''), (''zip'', ''zip''), (''zipx'', ''zip''), (''zst'', ''zst'')] ext"

text \<open>The operation, and the second one whose input it becomes.\<close>

definition pack_detect :: "('s, 'k) packenv \<Rightarrow> bytes \<Rightarrow> (bytes \<times> bytes option) option" where
  "pack_detect E oname =
     (let n = po_last E oname; name = name_or_all E n; e2 = ext_or_none E n;
          (ext, ext2) = (case po_splitname E name of None \<Rightarrow> (e2, []) | Some (_, e) \<Rightarrow> (e, e2));
          (ext, ext2) = (if ext = ''tgz'' then (''tar'', ''gz'') else (ext, ext2))
      in map_option (\<lambda>op1. (op1, if ext2 \<noteq> [] then pack_op_find_ext ext2 else None)) (pack_op_find_ext ext))"

text \<open>\<open>pack_child\<close>: the command for an operation at a level.\<close>

definition pack_child :: "('s, 'k) packenv \<Rightarrow> 'k pack \<Rightarrow> bytes \<Rightarrow> nat \<Rightarrow> 'k child" where
  "pack_child E p opname level =
     (let cmd = pk_cmd p;
          c = (po_new E)\<lparr>ci_operation := Some opname, ci_overwrite := ci_overwrite cmd, ci_test := ci_test cmd\<rparr>;
          c = (if level = 0 \<or> level = 1 then c\<lparr>ci_input := ci_input cmd, ci_include := ci_include cmd, ci_exclude := ci_exclude cmd\<rparr>
               else c\<lparr>ci_input := [[]]\<rparr>);
          c = (if level = 1 then c\<lparr>ci_stdout := True\<rparr>
               else (c\<lparr>ci_output := ci_output cmd, ci_chdir := ci_chdir cmd, ci_stdin := (level = 2)\<rparr>))
      in \<lparr>ch_info = c, ch_stdin = (if level = 2 then pk_pr p else None), ch_stdout = (if level = 1 then pk_pw p else None), ch_level = level\<rparr>)"

definition pack_begin :: "('s, 'k) packenv \<Rightarrow> ('s, 'k) runcmd \<Rightarrow> 'k pack \<Rightarrow> bytes \<Rightarrow> ('s, bool \<times> 'k pack) act" where
  "pack_begin E run p oname s =
     (case pack_detect E oname of
        None \<Rightarrow> Some ((False, p), s)
      | Some (op1, None) \<Rightarrow> do { (ok, s) \<leftarrow> run (pack_child E p op1 0) s; Some ((ok, p), s) }
      | Some (op1, Some op2) \<Rightarrow>
          do { (pp, s) \<leftarrow> po_pipe E s;
               case pp of
                 None \<Rightarrow> Some ((False, p), s)
               | Some (r, w) \<Rightarrow>
                   (let p = p\<lparr>pk_pr := Some r, pk_pw := Some w\<rparr>
                    in do { (ok, s) \<leftarrow> run (pack_child E p op1 1) s;
                            if \<not> ok then Some ((False, p), s)
                            else do { (ok, s) \<leftarrow> run (pack_child E p op2 2) s; Some ((ok, p), s) } }) })"

text \<open>The checks of \<open>pack_args_parse\<close>.\<close>

definition pack_create :: "'k cominfo \<Rightarrow> 'k pack option" where
  "pack_create cmd =
     (if ci_output cmd = [] then None else Some \<lparr>pk_state = PkIn, pk_cmd = cmd, pk_result = 0, pk_pr = None, pk_pw = None\<rparr>)"

definition pack_close :: "('s, 'k) packenv \<Rightarrow> 'k pack \<Rightarrow> 's \<Rightarrow> 's" where
  "pack_close E p s = po_pipe_close E (pk_pw p) (po_pipe_close E (pk_pr p) s)"

text \<open>How a run of the operation ends: it waits (for a completion, or to be run again), or it completes.\<close>

datatype 'p pack_end = PeWait 'p | PeDone int

text \<open>\<open>pack_run\<close>. The state \<open>I_COMPLETE\<close> is not followed by another turn of the loop.\<close>

definition pack_run :: "('s, 'k) packenv \<Rightarrow> ('s, 'k) runcmd \<Rightarrow> 'k pack \<Rightarrow> ('s, 'k pack pack_end) act" where
  "pack_run E run p s =
     (let done = (\<lambda>p rc s. Some (PeDone rc, pack_close E p s))
      in if po_stop E s then done p 1 s
         else
           (case pk_state p of
              PkIn \<Rightarrow>
                do { ((ok, p), s) \<leftarrow> pack_begin E run p (ci_output (pk_cmd p)) s;
                     if \<not> ok then done p 1 s else Some (PeWait (p\<lparr>pk_state := PkComplete\<rparr>), s) }
            | PkComplete \<Rightarrow>
                (if pk_result p \<noteq> 0 then done p (pk_result p) s
                 else if pk_pw p \<noteq> None then do { (_, s) \<leftarrow> po_async E s; Some (PeWait p, s) }
                 else done (p\<lparr>pk_pr := None\<rparr>) 0 (po_pipe_close E (pk_pr p) s))))"

text \<open>\<open>pack_op_complete\<close>: the result of the first of two operations is not looked at.\<close>

definition pack_op_complete :: "('s, 'k) packenv \<Rightarrow> ('s, 'k) runcmd \<Rightarrow> 'k pack \<Rightarrow> nat \<Rightarrow> int \<Rightarrow> ('s, 'k pack pack_end) act" where
  "pack_op_complete E run p level result s =
     (if level = 1 then Some (PeWait (p\<lparr>pk_pw := None\<rparr>), po_pipe_close E (pk_pw p) s)
      else pack_run E run (p\<lparr>pk_result := result\<rparr>) s)"

section \<open>unpack\<close>

record 'k unpack =
  uk_state :: pk_state
  uk_cmd :: "'k cominfo"
  uk_iname :: bytes
  uk_result :: int
  uk_pr :: fffd
  uk_pw :: fffd
  uk_list :: bool
  uk_list_plain :: bool
  uk_autodir :: bool
  uk_skip :: bool

definition unpack_op_find_ext :: "bytes \<Rightarrow> bytes option" where
  "unpack_op_find_ext ext =
     map_of [(''7z'', ''un7z''), (''gz'', ''ungz''), (''iso'', ''uniso''), (''tar'', ''untar''), (''xz'', ''unxz''), (''zip'', ''unzip''),
       (''zipx'', ''unzip''), (''zst'', ''unzst'')] ext"

definition unpack_detect :: "('s, 'k) packenv \<Rightarrow> bytes \<Rightarrow> (bytes \<times> bytes option) option" where
  "unpack_detect E iname =
     (let n = po_last E iname; ext = ext_or_none E n; ext2 = ext_or_none E (name_or_all E n);
          (ext, ext2) = (if ext = ''tgz'' then (''gz'', ''tar'') else (ext, ext2));
          (ext, ext2) = (if ext = ''txz'' then (''xz'', ''tar'') else (ext, ext2))
      in map_option (\<lambda>op1. (op1, if ext2 \<noteq> [] then unpack_op_find_ext ext2 else None)) (unpack_op_find_ext ext))"

definition unpack_argv :: "'k unpack \<Rightarrow> bytes list" where
  "unpack_argv u =
     (if uk_autodir u then [''--autodir''] else []) @ (if uk_list u then [''--list''] else []) @
     (if uk_list_plain u then [''--plain''] else []) @ (if uk_skip u then [''--skip''] else [])"

definition unpack_child :: "('s, 'k) packenv \<Rightarrow> 'k unpack \<Rightarrow> bytes \<Rightarrow> nat \<Rightarrow> 'k child" where
  "unpack_child E u opname level =
     (let cmd = uk_cmd u;
          c = (po_new E)\<lparr>ci_operation := Some opname, ci_input := [if level = 0 \<or> level = 1 then uk_iname u else []]\<rparr>;
          c = (if level = 1 then c\<lparr>ci_stdout := True\<rparr>
               else (c\<lparr>ci_output := ci_output cmd, ci_chdir := ci_chdir cmd, ci_argv := unpack_argv u, ci_stdin := (level = 2)\<rparr>));
          c = c\<lparr>ci_test := ci_test cmd, ci_buffer_size := ci_buffer_size cmd, ci_directio := ci_directio cmd, ci_overwrite := ci_overwrite cmd\<rparr>
      in \<lparr>ch_info = c, ch_stdin = (if level = 2 then uk_pr u else None), ch_stdout = (if level = 1 then uk_pw u else None), ch_level = level\<rparr>)"

datatype ub_ret = UbOk | UbNext | UbFail

definition unpack_begin :: "('s, 'k) packenv \<Rightarrow> ('s, 'k) runcmd \<Rightarrow> 'k unpack \<Rightarrow> ('s, ub_ret \<times> 'k unpack) act" where
  "unpack_begin E run u s =
     (let ret = (\<lambda>ok. if ok then UbOk else UbFail)
      in case unpack_detect E (uk_iname u) of
           None \<Rightarrow> Some ((UbNext, u), s)
         | Some (op1, None) \<Rightarrow> do { (ok, s) \<leftarrow> run (unpack_child E u op1 0) s; Some ((ret ok, u), s) }
         | Some (op1, Some op2) \<Rightarrow>
             do { (pp, s) \<leftarrow> po_pipe E s;
                  case pp of
                    None \<Rightarrow> Some ((UbFail, u), s)
                  | Some (r, w) \<Rightarrow>
                      (let u = u\<lparr>uk_pr := Some r, uk_pw := Some w\<rparr>
                       in do { (ok, s) \<leftarrow> run (unpack_child E u op1 1) s;
                               if \<not> ok then Some ((UbFail, u), s)
                               else do { (ok, s) \<leftarrow> run (unpack_child E u op2 2) s; Some ((ret ok, u), s) } }) })"

definition unpack_close :: "('s, 'k) packenv \<Rightarrow> 'k unpack \<Rightarrow> 's \<Rightarrow> 's" where
  "unpack_close E u s = po_pipe_close E (uk_pw u) (po_pipe_close E (uk_pr u) s)"

text \<open>The loop of \<open>unpack_run\<close>; inputs of unknown kinds are passed over.\<close>

partial_function (option) unpack_run :: "('s, 'k) packenv \<Rightarrow> ('s, 'k) runcmd \<Rightarrow> 'k unpack \<Rightarrow> ('s, 'k unpack pack_end) act" where
  "unpack_run E run u s =
     (if po_stop E s then Some (PeDone 1, unpack_close E u s)
      else if uk_state u = PkIn then
        Option.bind (po_core_input_next E s)
          (\<lambda>x. case fst x of
             RNomore \<Rightarrow> Some (PeDone 0, unpack_close E u (snd x))
           | RErr \<Rightarrow> Some (PeDone 1, unpack_close E u (snd x))
           | ROk n b \<Rightarrow>
               Option.bind (unpack_begin E run (u\<lparr>uk_iname := n\<rparr>) (snd x))
                 (\<lambda>y. case fst (fst y) of
                    UbNext \<Rightarrow> unpack_run E run (snd (fst y)) (snd y)
                  | UbFail \<Rightarrow> Some (PeDone 1, unpack_close E (snd (fst y)) (snd y))
                  | UbOk \<Rightarrow> Some (PeWait ((snd (fst y))\<lparr>uk_state := PkComplete\<rparr>), snd y)))
      else if uk_result u \<noteq> 0 then Some (PeDone (uk_result u), unpack_close E u s)
      else if uk_pw u \<noteq> None then Option.bind (po_async E s) (\<lambda>x. Some (PeWait u, snd x))
      else unpack_run E run (u\<lparr>uk_pr := None, uk_state := PkIn\<rparr>) (po_pipe_close E (uk_pr u) s))"

definition unpack_op_complete :: "('s, 'k) packenv \<Rightarrow> ('s, 'k) runcmd \<Rightarrow> 'k unpack \<Rightarrow> nat \<Rightarrow> int \<Rightarrow> ('s, 'k unpack pack_end) act" where
  "unpack_op_complete E run u level result s =
     (if level = 1 then Some (PeWait (u\<lparr>uk_pw := None\<rparr>), po_pipe_close E (uk_pw u) s)
      else unpack_run E run (u\<lparr>uk_result := result\<rparr>) s)"

section \<open>Facts\<close>

text \<open>A name with a dot before the extension is refused: \<open>v1.2.zip\<close> is taken for an archive of the kind \<open>.2\<close>.\<close>

lemma pack_detect_dotted:
  assumes "po_last E f = n" and "po_splitname E n = Some (a, e2)" and "po_splitname E a = Some (b, e)"
    and "pack_op_find_ext e = None" and "e \<noteq> ''tgz''"
  shows "pack_detect E f = None"
  using assms by (simp add: pack_detect_def name_or_all_def ext_or_none_def)

lemma unpack_detect_dotted:
  assumes "po_last E f = n" and "po_splitname E n = Some (a, e)" and "po_splitname E a = Some (b, e2)"
    and "unpack_op_find_ext e = Some op1" and "unpack_op_find_ext e2 = None"
  shows "unpack_detect E f = Some (op1, None)"
proof -
  have "e \<noteq> ''tgz''" "e \<noteq> ''txz''" using assms(4) by (auto simp: unpack_op_find_ext_def)
  with assms show ?thesis by (simp add: unpack_detect_def name_or_all_def ext_or_none_def)
qed

text \<open>Of two operations joined by a pipe a failure of the first is lost: the run completes with 0 when the second does.\<close>

lemma pack_first_failure_lost:
  assumes "pk_state p = PkComplete" and "\<And>s. \<not> po_stop E s"
  shows "\<exists>p1 s1 s2. pack_op_complete E run p 1 k s = Some (PeWait p1, s1) \<and> pack_op_complete E run p1 2 0 s1 = Some (PeDone 0, s2)"
  using assms by (simp add: pack_op_complete_def pack_run_def)

lemma unpack_first_failure_lost:
  "\<exists>u1 s1. unpack_op_complete E run u 1 k s = Some (PeWait u1, s1) \<and> uk_result u1 = uk_result u \<and> uk_pw u1 = None"
  by (simp add: unpack_op_complete_def)

text \<open>The first operation reads the inputs and writes into the pipe, the second reads the pipe and writes the output.\<close>

lemma pack_pipe_joins:
  assumes "pack_detect E f = Some (op1, Some op2)" and "po_pipe E s = Some (Some (r, w), s1)"
    and "pack_begin E run p f s = Some ((True, p'), s')"
  shows "\<exists>s2. run (pack_child E p' op1 1) s1 = Some (True, s2) \<and> run (pack_child E p' op2 2) s2 = Some (True, s') \<and>
    ch_stdout (pack_child E p' op1 1) = Some w \<and> ch_stdin (pack_child E p' op2 2) = Some r \<and>
    ci_input (ch_info (pack_child E p' op1 1)) = ci_input (pk_cmd p) \<and> ci_output (ch_info (pack_child E p' op2 2)) = ci_output (pk_cmd p)"
  using assms
  by (auto simp: pack_begin_def Let_def Option.bind_eq_Some_conv pack_child_def split: if_splits)

end
