(* ===== verification/Tar.thy ===== *)
theory Tar
  imports Gz Quiet
begin

text \<open>
  The operation \<open>tar\<close> (\<open>src/pack/tar.c\<close>): the input files become members of one archive. The writer of
  ffpack is the record \<open>tarwlib\<close>. Log lines are left out.
\<close>

section \<open>The writer\<close>

datatype tar_type = TAR_FILE | TAR_FILE0 | TAR_HLINK | TAR_SLINK | TAR_DIR | TarOther char

record tarconf =
  tc_type :: tar_type
  tc_name :: bytes
  tc_mtime :: fftime
  tc_size :: nat
  tc_attr :: "32 word"
  tc_uid :: nat
  tc_gid :: nat
  tc_link_to :: bytes

datatype tarw_res = TwMore | TwData | TwFiledone | TwDone | TwError

datatype tar_added = TaOk | TaSkip | TaErr

text \<open>
  \<open>tw_add\<close> is \<open>fftarwrite_fileadd\<close>, \<^const>\<open>TaSkip\<close> its result -2. \<open>tw_process\<close> gives the code, the input it has
  not taken in and the output.
\<close>

record 'w tarwlib =
  tw_zero :: 'w
  tw_add :: "tarconf \<Rightarrow> 'w \<Rightarrow> tar_added \<times> 'w"
  tw_process :: "'w \<Rightarrow> bytes \<Rightarrow> (tarw_res \<times> bytes \<times> bytes) \<times> 'w"
  tw_filefinish :: "'w \<Rightarrow> 'w"
  tw_finish :: "'w \<Rightarrow> 'w"

text \<open>\<open>an_readlink\<close> is \<open>readlink\<close> with a buffer of 4096 bytes: \<^const>\<open>None\<close> on error, else at most that many.\<close>

record ('s, 'i, 'w) tarenv =
  an_core :: "('s, 'i) coreif"
  an_lib :: "'w tarwlib"
  an_isdir :: "'i \<Rightarrow> bool"
  an_islnk :: "'i \<Rightarrow> bool"
  an_size :: "'i \<Rightarrow> nat"
  an_mtime :: "'i \<Rightarrow> fftime"
  an_attr :: "'i \<Rightarrow> 32 word"
  an_uid :: "'i \<Rightarrow> nat"
  an_gid :: "'i \<Rightarrow> nat"
  an_readlink :: "bytes \<Rightarrow> ('s, bytes option) act"

section \<open>The operation\<close>

datatype tar_st = TrOutOpen | TrIn | TrInfo | TrAdd | TrFileread | TrProc | TrWrite | TrFlush | TrDone

record ('k, 'i, 'w) tar =
  ta_st :: tar_st
  ta_cmd :: "'k cominfo"
  ta_iname :: bytes
  ta_base :: bytes
  ta_in :: nat
  ta_fi :: "'i option"
  ta_plain :: bytes
  ta_link :: bool
  ta_w :: 'w
  ta_data :: bytes
  ta_out :: nat
  ta_del :: bool

text \<open>\<open>tar_create\<close> with the checks of \<open>args_parse\<close>; the input is always walked recursively.\<close>

definition tar_create :: "('s, 'i, 'w) tarenv \<Rightarrow> 'k cominfo \<Rightarrow> ('s, ('k, 'i, 'w) tar option) act" where
  "tar_create E cmd0 s =
     (let cmd = cmd0\<lparr>ci_recursive := 1\<rparr>
      in if ci_output cmd = [] \<and> \<not> ci_stdout cmd then Some (None, s)
         else
           do { (i, s) \<leftarrow> fi_create (an_core E) (ci_buffer_size cmd) s;
                (o1, s) \<leftarrow> fi_create (an_core E) (ci_buffer_size cmd) s;
                Some (Some \<lparr>ta_st = TrOutOpen, ta_cmd = cmd, ta_iname = [], ta_base = [], ta_in = i, ta_fi = None, ta_plain = [],
                  ta_link = False, ta_w = tw_zero (an_lib E), ta_data = [], ta_out = o1, ta_del = False\<rparr>, s) })"

definition tar_close :: "('s, 'i, 'w) tarenv \<Rightarrow> ('k, 'i, 'w) tar \<Rightarrow> ('s, unit) act" where
  "tar_close E t s =
     do { (_, s) \<leftarrow> fi_destroy (an_core E) (ta_in t) s;
          (_, s) \<leftarrow> (if ta_del t then fi_del (an_core E) (ci_output (ta_cmd t)) s else Some (True, s));
          fi_destroy (an_core E) (ta_out t) s }"

definition tar_conf :: "('s, 'i, 'w) tarenv \<Rightarrow> ('k, 'i, 'w) tar \<Rightarrow> tarconf" where
  "tar_conf E t =
     (let fi = the (ta_fi t)
      in \<lparr>tc_type = (if ta_link t then TAR_SLINK else TAR_FILE), tc_name = ta_iname t, tc_mtime = an_mtime E fi, tc_size = an_size E fi,
          tc_attr = an_attr E fi, tc_uid = an_uid E fi, tc_gid = an_gid E fi, tc_link_to = []\<rparr>)"

definition tar_file_add :: "('s, 'i, 'w) tarenv \<Rightarrow> ('k, 'i, 'w) tar \<Rightarrow> ('s, tar_added \<times> ('k, 'i, 'w) tar) act" where
  "tar_file_add E t s =
     (let add = (\<lambda>c s. case tw_add (an_lib E) c (ta_w t) of (r, w) \<Rightarrow> Some ((r, t\<lparr>ta_w := w\<rparr>), s))
      in if ta_link t then
           do { (l, s) \<leftarrow> an_readlink E (ta_iname t) s;
                case l of
                  None \<Rightarrow> Some ((TaErr, t), s)
                | Some tgt \<Rightarrow>
                    if length tgt = 4096 then Some ((TaErr, t), s)
                    else add ((tar_conf E t)\<lparr>tc_link_to := tgt, tc_size := 0\<rparr>) s }
         else add (tar_conf E t) s)"

text \<open>\<open>tar_write\<close>: the code, and the object with the input left over and the output.\<close>

definition tar_write :: "('s, 'i, 'w) tarenv \<Rightarrow> ('k, 'i, 'w) tar \<Rightarrow> tarw_res \<times> ('k, 'i, 'w) tar" where
  "tar_write E t =
     (case tw_process (an_lib E) (ta_w t) (ta_plain t) of
        ((r, rest, out), w) \<Rightarrow> (r, t\<lparr>ta_w := w, ta_plain := rest, ta_data := out\<rparr>))"

type_synonym ('s, 'k, 'i, 'w) tar_turn = "('k, 'i, 'w) tar \<Rightarrow> ('s, ('k, 'i, 'w) tar + ('k, 'i, 'w) tar \<times> int) act"

definition tar_done :: "('s, 'i, 'w) tarenv \<Rightarrow> ('s, 'k, 'i, 'w) tar_turn" where
  "tar_done E t s = do { (_, s) \<leftarrow> fi_close (an_core E) (ta_out t) s; Some (Inr (t\<lparr>ta_del := False\<rparr>, 0), s) }"

definition tar_flush :: "('s, 'i, 'w) tarenv \<Rightarrow> ('s, 'k, 'i, 'w) tar_turn" where
  "tar_flush E t s =
     do { (r, s) \<leftarrow> fi_flush (an_core E) (ta_out t) s;
          if r = FErr then Some (Inr (t, 1), s)
          else if r = FAsync then Some (Inr (t, GZ_ASYNC), s)
          else tar_done E (t\<lparr>ta_st := TrDone\<rparr>) s }"

definition tar_out :: "('s, 'i, 'w) tarenv \<Rightarrow> ('s, 'k, 'i, 'w) tar_turn" where
  "tar_out E t s =
     do { (r, s) \<leftarrow> fi_write (an_core E) (ta_out t) (ta_data t) None s;
          if r = FErr then Some (Inr (t, 1), s)
          else if r = FAsync then Some (Inr (t, GZ_ASYNC), s)
          else Some (Inl (t\<lparr>ta_st := TrProc\<rparr>), s) }"

definition tar_proc :: "('s, 'i, 'w) tarenv \<Rightarrow> ('s, 'k, 'i, 'w) tar_turn" where
  "tar_proc E t0 s =
     (case tar_write E t0 of
        (TwMore, t) \<Rightarrow> Some (Inl (t\<lparr>ta_st := TrFileread\<rparr>), s)
      | (TwData, t) \<Rightarrow> Some (Inl (t\<lparr>ta_st := TrWrite\<rparr>), s)
      | (TwFiledone, t) \<Rightarrow> Some (Inl (t\<lparr>ta_st := TrIn\<rparr>), s)
      | (TwDone, t) \<Rightarrow> Some (Inl (t\<lparr>ta_st := TrFlush\<rparr>), s)
      | (TwError, t) \<Rightarrow> Some (Inr (t, 1), s))"

definition tar_fileread :: "('s, 'i, 'w) tarenv \<Rightarrow> ('s, 'k, 'i, 'w) tar_turn" where
  "tar_fileread E t s =
     do { ((r, d), s) \<leftarrow> fi_read (an_core E) (ta_in t) None s;
          if r = FErr then Some (Inr (t, 1), s)
          else if r = FAsync then Some (Inr (t, GZ_ASYNC), s)
          else
            (let t = t\<lparr>ta_plain := d\<rparr>;
                 t = (if r = FEof then t\<lparr>ta_w := tw_filefinish (an_lib E) (ta_w t)\<rparr> else t)
             in tar_proc E (t\<lparr>ta_st := TrProc\<rparr>) s) }"

definition tar_add :: "('s, 'i, 'w) tarenv \<Rightarrow> ('s, 'k, 'i, 'w) tar_turn" where
  "tar_add E t s =
     do { ((r, t), s) \<leftarrow> tar_file_add E t s;
          if r = TaSkip then Some (Inl (t\<lparr>ta_st := TrIn\<rparr>), s)
          else if r = TaErr then Some (Inr (t, 1), s)
          else if an_isdir E (the (ta_fi t)) \<or> ta_link t then
            Some (Inl (t\<lparr>ta_w := tw_filefinish (an_lib E) (ta_w t), ta_st := TrProc\<rparr>), s)
          else tar_fileread E (t\<lparr>ta_st := TrFileread\<rparr>) s }"

definition tar_info :: "('s, 'i, 'w) tarenv \<Rightarrow> ('s, 'k, 'i, 'w) tar_turn" where
  "tar_info E t s =
     (let C = an_core E
      in do { (r, s) \<leftarrow> fi_open C (ta_in t) (ta_iname t)
                          (fcom_file_cominfo_flags_i (ta_cmd t) OR FCOM_FILE_READ OR FCOM_FILE_INFO_NOFOLLOW) s;
              if r = FErr then Some (Inr (t, 1), s) else
              do { ((r, fi), s) \<leftarrow> fi_info C (ta_in t) s;
                   if r = FErr then Some (Inr (t, 1), s) else
                   (let t = t\<lparr>ta_fi := fi\<rparr>; dir = an_isdir E (the fi)
                    in do { (ok, s) \<leftarrow> com_input_allowed C (ta_iname t) (if dir then IaDir else IaFile) s;
                            if \<not> ok then Some (Inl (t\<lparr>ta_st := TrIn\<rparr>), s) else
                            do { (_, s) \<leftarrow> (if (ta_base t = [] \<or> ci_recursive (ta_cmd t) \<noteq> 0) \<and> dir then
                                     do { (fd, s) \<leftarrow> fi_fd C (ta_in t) FCOM_FILE_ACQUIRE s; com_input_dir C fd s }
                                   else Some ((), s));
                                 Some (Inl (t\<lparr>ta_link := an_islnk E (the fi), ta_st := TrAdd\<rparr>), s) } }) } })"

definition tar_in_next :: "('s, 'i, 'w) tarenv \<Rightarrow> ('s, 'k, 'i, 'w) tar_turn" where
  "tar_in_next E t s =
     do { (r, s) \<leftarrow> com_input_next (an_core E) 0 s;
          case r of
            RNomore \<Rightarrow> Some (Inl (t\<lparr>ta_w := tw_finish (an_lib E) (ta_w t), ta_st := TrProc\<rparr>), s)
          | RErr \<Rightarrow> Some (Inr (t, 1), s)
          | ROk n b \<Rightarrow> tar_info E (t\<lparr>ta_iname := n, ta_base := b, ta_st := TrInfo\<rparr>) s }"

definition tar_out_open :: "('s, 'i, 'w) tarenv \<Rightarrow> ('s, 'k, 'i, 'w) tar_turn" where
  "tar_out_open E t s =
     do { (r, s) \<leftarrow> fi_open (an_core E) (ta_out t) (ci_output (ta_cmd t)) (FCOM_FILE_WRITE OR fcom_file_cominfo_flags_o (ta_cmd t)) s;
          if r = FErr then Some (Inr (t, 1), s)
          else tar_in_next E (t\<lparr>ta_del := (\<not> ci_stdout (ta_cmd t) \<and> \<not> ci_test (ta_cmd t)), ta_st := TrIn\<rparr>) s }"

definition tar_turn :: "('s, 'i, 'w) tarenv \<Rightarrow> ('s, 'k, 'i, 'w) tar_turn" where
  "tar_turn E t s =
     (case ta_st t of
        TrOutOpen \<Rightarrow> tar_out_open E t s | TrIn \<Rightarrow> tar_in_next E t s | TrInfo \<Rightarrow> tar_info E t s | TrAdd \<Rightarrow> tar_add E t s
      | TrFileread \<Rightarrow> tar_fileread E t s | TrProc \<Rightarrow> tar_proc E t s | TrWrite \<Rightarrow> tar_out E t s | TrFlush \<Rightarrow> tar_flush E t s
      | TrDone \<Rightarrow> tar_done E t s)"

text \<open>\<open>tar_run\<close>: \<^const>\<open>None\<close> is a run that waits for the kernel, otherwise the code given to \<open>com->complete\<close>.\<close>

definition tar_run :: "('s, 'i, 'w) tarenv \<Rightarrow> ('k, 'i, 'w) tar \<Rightarrow> ('s, int option \<times> ('k, 'i, 'w) tar) act" where
  "tar_run E t s =
     do { ((t, rc), s) \<leftarrow> op_loop (stop_flag (an_core E)) (tar_turn E) t s;
          if rc = GZ_ASYNC then Some ((None, t), s)
          else do { (_, s) \<leftarrow> tar_close E t s; Some ((Some rc, t), s) } }"

section \<open>The unfinished archive\<close>

text \<open>From the opening of the archive to its end, \<open>del_on_close\<close> says that it is to be removed.\<close>

definition tar_keeps_del :: "'k cominfo \<Rightarrow> ('k, 'i, 'w) tar \<Rightarrow> bool" where
  "tar_keeps_del cmd t \<longleftrightarrow> ta_cmd t = cmd \<and> ta_del t = (ta_st t \<noteq> TrOutOpen \<and> \<not> ci_stdout cmd \<and> \<not> ci_test cmd)"

definition tar_ended :: "'k cominfo \<Rightarrow> ('k, 'i, 'w) tar \<times> int \<Rightarrow> bool" where
  "tar_ended cmd x \<longleftrightarrow> (case x of (t, rc) \<Rightarrow> ta_cmd t = cmd \<and> (if rc = 0 then \<not> ta_del t else tar_keeps_del cmd t))"

abbreviation tar_step :: "'k cominfo \<Rightarrow> ('k, 'i, 'w) tar + ('k, 'i, 'w) tar \<times> int \<Rightarrow> bool" where
  "tar_step cmd x \<equiv> (case x of Inl t \<Rightarrow> tar_keeps_del cmd t | Inr r \<Rightarrow> tar_ended cmd r)"

lemma keeps_unit: "keeps (\<lambda>_. ()) f"
  by (simp add: keeps_def)

lemma tar_proc_step: "tar_keeps_del cmd t \<Longrightarrow> ta_st t \<noteq> TrOutOpen \<Longrightarrow> quiet (\<lambda>_. ()) (tar_step cmd) (tar_proc E t)"
  by (auto simp: quiet_def tar_proc_def tar_write_def tar_keeps_del_def tar_ended_def split: prod.splits tarw_res.splits)

lemma tar_fileread_step: "tar_keeps_del cmd t \<Longrightarrow> ta_st t \<noteq> TrOutOpen \<Longrightarrow> quiet (\<lambda>_. ()) (tar_step cmd) (tar_fileread E t)"
  unfolding tar_fileread_def Let_def
  by (intro quiet_intros keeps_unit tar_proc_step) (auto simp: tar_keeps_del_def tar_ended_def GZ_ASYNC_def)

lemma tar_file_add_keeps: "quiet (\<lambda>_. ()) (\<lambda>(r, t'). ta_cmd t' = ta_cmd t \<and> ta_del t' = ta_del t \<and> ta_st t' = ta_st t) (tar_file_add E t)"
  unfolding tar_file_add_def Let_def
  by (intro quiet_intros keeps_unit) simp_all

lemma tar_add_step: "tar_keeps_del cmd t \<Longrightarrow> ta_st t \<noteq> TrOutOpen \<Longrightarrow> quiet (\<lambda>_. ()) (tar_step cmd) (tar_add E t)"
  unfolding tar_add_def
  by (rule quiet_bind [OF tar_file_add_keeps]) (intro quiet_intros tar_fileread_step; auto simp: tar_keeps_del_def tar_ended_def)

lemma tar_info_step: "tar_keeps_del cmd t \<Longrightarrow> ta_st t \<noteq> TrOutOpen \<Longrightarrow> quiet (\<lambda>_. ()) (tar_step cmd) (tar_info E t)"
  unfolding tar_info_def Let_def
  by (intro quiet_intros keeps_unit) (auto simp: tar_keeps_del_def tar_ended_def)

lemma tar_in_next_step: "tar_keeps_del cmd t \<Longrightarrow> ta_st t \<noteq> TrOutOpen \<Longrightarrow> quiet (\<lambda>_. ()) (tar_step cmd) (tar_in_next E t)"
  unfolding tar_in_next_def
  by (intro quiet_intros keeps_unit tar_info_step) (auto simp: tar_keeps_del_def tar_ended_def)

lemma tar_out_open_step: "tar_keeps_del cmd t \<Longrightarrow> quiet (\<lambda>_. ()) (tar_step cmd) (tar_out_open E t)"
  unfolding tar_out_open_def
  by (intro quiet_intros keeps_unit tar_in_next_step) (auto simp: tar_keeps_del_def tar_ended_def)

lemma tar_done_step: "tar_keeps_del cmd t \<Longrightarrow> quiet (\<lambda>_. ()) (tar_step cmd) (tar_done E t)"
  unfolding tar_done_def
  by (intro quiet_intros keeps_unit) (auto simp: tar_keeps_del_def tar_ended_def)

lemma tar_flush_step: "tar_keeps_del cmd t \<Longrightarrow> ta_st t \<noteq> TrOutOpen \<Longrightarrow> quiet (\<lambda>_. ()) (tar_step cmd) (tar_flush E t)"
  unfolding tar_flush_def
  by (intro quiet_intros keeps_unit tar_done_step) (auto simp: tar_keeps_del_def tar_ended_def GZ_ASYNC_def)

lemma tar_out_step: "tar_keeps_del cmd t \<Longrightarrow> ta_st t \<noteq> TrOutOpen \<Longrightarrow> quiet (\<lambda>_. ()) (tar_step cmd) (tar_out E t)"
  unfolding tar_out_def
  by (intro quiet_intros keeps_unit) (auto simp: tar_keeps_del_def tar_ended_def GZ_ASYNC_def)

lemmas tar_steps = tar_proc_step tar_fileread_step tar_add_step tar_info_step tar_in_next_step tar_out_open_step tar_done_step
  tar_flush_step tar_out_step

lemma tar_turn_step: "tar_keeps_del cmd t \<Longrightarrow> quiet (\<lambda>_. ()) (tar_step cmd) (tar_turn E t)"
  by (cases "ta_st t") (simp_all add: tar_turn_def [abs_def] tar_steps)

text \<open>When the operation ends without success after the archive was opened, the archive is removed; after success it is not.\<close>

lemma tar_removes_unfinished:
  assumes "op_loop stopped (tar_turn E) t s = Some ((t', rc), s')" and "ta_st t = TrOutOpen" and "\<not> ta_del t"
    and "\<not> ci_stdout (ta_cmd t)" and "\<not> ci_test (ta_cmd t)"
  shows "ta_del t' = (rc \<noteq> 0 \<and> ta_st t' \<noteq> TrOutOpen)"
proof -
  have "quiet (\<lambda>_. ()) (tar_ended (ta_cmd t)) (op_loop stopped (tar_turn E) t)"
  proof (rule quiet_loop [where I = "tar_keeps_del (ta_cmd t)"])
    show "tar_keeps_del (ta_cmd t) t" using assms(2,3) by (simp add: tar_keeps_del_def)
    show "tar_ended (ta_cmd t) (c, 1)" if "tar_keeps_del (ta_cmd t) c" for c
      using that by (simp add: tar_ended_def tar_keeps_del_def)
  qed (rule tar_turn_step)
  from quietD [OF this assms(1)] assms(4,5) show ?thesis by (auto simp: tar_ended_def tar_keeps_del_def split: if_splits)
qed

end
