(* ===== verification/Untar.thy ===== *)
theory Untar
  imports Tar
begin

text \<open>
  The operation \<open>untar\<close> (\<open>src/pack/untar.c\<close>). The reader of ffpack is the record \<open>tarrlib\<close>. Log lines are left
  out.
\<close>

section \<open>The reader\<close>

record tarinfo =
  ti_type :: tar_type
  ti_name :: bytes
  ti_size :: nat
  ti_mtime :: fftime
  ti_attr :: "32 word"
  ti_link_to :: bytes

datatype tarr_res = TrFileheader | TrFiledone | TrEnd | TrData | TrMore | TrWarning | TrError

text \<open>\<open>xr_process\<close> gives the code, the input it has not taken in and the output.\<close>

record 'r tarrlib =
  xt_zero :: 'r
  xt_open :: "'r \<Rightarrow> 'r"
  xt_process :: "'r \<Rightarrow> bytes \<Rightarrow> (tarr_res \<times> bytes \<times> bytes) \<times> 'r"
  xt_info :: "'r \<Rightarrow> tarinfo"
  xt_close :: "'r \<Rightarrow> 'r"

text \<open>\<open>xn_size\<close> is the format \<open>%12U\<close>, \<open>xn_date\<close> the date and the time; \<open>xn_1970\<close>, \<open>xn_offset\<close> are
  \<open>FFTIME_1970_SECONDS\<close> and the offset of the time zone.\<close>

record ('s, 'i, 'r) untarenv =
  xn_core :: "('s, 'i) coreif"
  xn_lib :: "'r tarrlib"
  xn_path :: pathlib
  xn_isdir :: "'i \<Rightarrow> bool"
  xn_size :: "nat \<Rightarrow> bytes"
  xn_date :: "fftime \<Rightarrow> bytes"
  xn_1970 :: int
  xn_offset :: int
  xn_stdout :: "bytes \<Rightarrow> ('s, unit) act"

section \<open>Members\<close>

text \<open>The table of \<open>--members-from-file\<close>: the lines of the file that are not empty.\<close>

fun cut_lines :: "bytes \<Rightarrow> bytes \<Rightarrow> bytes list" where
  "cut_lines acc [] = (if acc = [] then [] else [acc])"
| "cut_lines acc (c # cs) = (if c = CHR 0x0A then acc # cut_lines [] cs else cut_lines (acc @ [c]) cs)"

definition untar_members :: "bytes \<Rightarrow> bytes list" where
  "untar_members d = filter (\<lambda>l. l \<noteq> []) (cut_lines [] (d @ [CHR 0x0A]))"

definition members_find :: "bytes list \<Rightarrow> bytes \<Rightarrow> bool" where
  "members_find ms n \<longleftrightarrow> n \<in> set ms"

section \<open>The operation\<close>

datatype untar_st = UrIn | UrInfo | UrParse | UrFileread | UrOutOpen | UrWrite

record ('k, 'r) untar =
  un_st :: untar_st
  un_cmd :: "'k cominfo"
  un_r :: 'r
  un_iname :: bytes
  un_base :: bytes
  un_tardata :: bytes
  un_plain :: bytes
  un_in :: nat
  un_out :: nat
  un_oname :: "bytes option"
  un_del :: bool
  un_list :: bool
  un_list_plain :: bool
  un_autodir :: bool
  un_members :: "bytes list"

record untaropts =
  uo_list :: bool
  uo_list_plain :: bool
  uo_autodir :: bool
  uo_members :: "bytes list"

definition untar_create :: "('s, 'i, 'r) untarenv \<Rightarrow> untaropts \<Rightarrow> 'k cominfo \<Rightarrow> ('s, ('k, 'r) untar option) act" where
  "untar_create E p cmd0 s =
     (if \<not> uo_list p \<and> ci_output cmd0 \<noteq> [] then Some (None, s)
      else
        (let cmd = (if ci_chdir cmd0 = [] then cmd0\<lparr>ci_chdir := ''.''\<rparr> else cmd0)
         in do { (i, s) \<leftarrow> fi_create (xn_core E) (ci_buffer_size cmd) s;
                 (o1, s) \<leftarrow> fi_create (xn_core E) (ci_buffer_size cmd) s;
                 Some (Some \<lparr>un_st = UrIn, un_cmd = cmd, un_r = xt_zero (xn_lib E), un_iname = [], un_base = [], un_tardata = [],
                   un_plain = [], un_in = i, un_out = o1, un_oname = None, un_del = False, un_list = uo_list p,
                   un_list_plain = uo_list_plain p, un_autodir = uo_autodir p, un_members = uo_members p\<rparr>, s) }))"

definition untar_close :: "('s, 'i, 'r) untarenv \<Rightarrow> ('k, 'r) untar \<Rightarrow> ('s, unit) act" where
  "untar_close E t s =
     do { (_, s) \<leftarrow> fi_destroy (xn_core E) (un_in t) s;
          (_, s) \<leftarrow> (if un_del t then fi_del (xn_core E) (the (un_oname t)) s else Some (True, s));
          fi_destroy (xn_core E) (un_out t) s }"

text \<open>\<open>untar_showinfo\<close>: "size date name", or the name alone.\<close>

definition untar_line :: "('s, 'i, 'r) untarenv \<Rightarrow> bool \<Rightarrow> tarinfo \<Rightarrow> bytes" where
  "untar_line E plain f =
     (if plain then []
      else (if ti_type f = TAR_DIR then ''       <DIR>'' else xn_size E (ti_size f)) @ '' '' @
        xn_date E (fst (ti_mtime f) + (xn_1970 E + xn_offset E), snd (ti_mtime f)) @ '' '') @
     ti_name f @ [CHR 0x0A]"

definition untar_showinfo :: "('s, 'i, 'r) untarenv \<Rightarrow> ('k, 'r) untar \<Rightarrow> tarinfo \<Rightarrow> ('s, unit) act" where
  "untar_showinfo E t f = xn_stdout E (untar_line E (un_list_plain t) f)"

definition untar_outname :: "pathlib \<Rightarrow> ('k, 'r) untar \<Rightarrow> bytes \<Rightarrow> bytes \<Rightarrow> bytes" where
  "untar_outname P t lname rpath =
     (if un_autodir t then rpath @ slash_byte @ fst (gp_ext P (last_part (gp_split P) (un_iname t))) @ slash_byte @ lname
      else rpath @ slash_byte @ lname)"

definition untar_kind :: "tar_type \<Rightarrow> bool" where
  "untar_kind k \<longleftrightarrow> k \<in> {TAR_FILE, TAR_FILE0, TAR_DIR, TAR_HLINK, TAR_SLINK}"

text \<open>The loop of \<open>untar_read\<close>. What belongs to a member that is passed over is dropped while there is no output name.\<close>

partial_function (option) untar_read ::
  "('s, 'i, 'r) untarenv \<Rightarrow> ('k, 'r) untar \<Rightarrow> ('s, tarr_res \<times> ('k, 'r) untar) act" where
  "untar_read E t s =
     (case xt_process (xn_lib E) (un_r t) (un_tardata t) of
        ((r, rest, out), st) \<Rightarrow>
          (let t = t\<lparr>un_r := st, un_tardata := rest, un_plain := out\<rparr>; f = xt_info (xn_lib E) st
           in if r = TrFileheader then
                (if un_members t \<noteq> [] \<and> \<not> members_find (un_members t) (ti_name f) then untar_read E t s
                 else if un_list t then Option.bind (untar_showinfo E t f s) (\<lambda>x. untar_read E t (snd x))
                 else if \<not> untar_kind (ti_type f) then untar_read E t s
                 else Some ((TrFileheader, t\<lparr>un_oname := Some (untar_outname (xn_path E) t (ti_name f) (ci_chdir (un_cmd t)))\<rparr>), s))
              else if r = TrFiledone then (if un_oname t = None then untar_read E t s else Some ((TrFiledone, t), s))
              else if r = TrEnd then Some ((TrEnd, t\<lparr>un_r := xt_close (xn_lib E) st\<rparr>), s)
              else if r = TrData then (if un_oname t = None then untar_read E t s else Some ((TrData, t), s))
              else if r = TrMore then Some ((TrMore, t), s)
              else if r = TrWarning then untar_read E t s
              else Some ((TrError, t), s)))"

type_synonym ('s, 'k, 'r) untar_turn = "('k, 'r) untar \<Rightarrow> ('s, ('k, 'r) untar + ('k, 'r) untar \<times> int) act"

definition untar_write :: "('s, 'i, 'r) untarenv \<Rightarrow> ('s, 'k, 'r) untar_turn" where
  "untar_write E t s =
     do { (r, s) \<leftarrow> fi_write (xn_core E) (un_out t) (un_plain t) None s;
          if r = FErr then Some (Inr (t, 1), s)
          else if r = FAsync then Some (Inr (t, GZ_ASYNC), s)
          else Some (Inl (t\<lparr>un_st := UrParse\<rparr>), s) }"

definition untar_out_open :: "('s, 'i, 'r) untarenv \<Rightarrow> ('s, 'k, 'r) untar_turn" where
  "untar_out_open E t s =
     (let C = xn_core E; f = xt_info (xn_lib E) (un_r t); name = the (un_oname t);
          ret = (\<lambda>r s. Some (if r = FErr then Inr (t, 1) else Inl (t\<lparr>un_st := UrParse\<rparr>), s))
      in if ti_type f = TAR_DIR then do { (r, s) \<leftarrow> fi_dir_create C name FCOM_FILE_DIR_RECURSIVE s; ret r s }
         else if ti_type f = TAR_HLINK then do { (r, s) \<leftarrow> fi_hlink C (ti_link_to f) name s; ret r s }
         else if ti_type f = TAR_SLINK then
           do { (r, s) \<leftarrow> fi_slink C (ti_link_to f) name (if ci_overwrite (un_cmd t) then FCOM_FILE_CREATE else 0) s; ret r s }
         else
           do { (r, s) \<leftarrow> fi_open C (un_out t) name (FCOM_FILE_WRITE OR fcom_file_cominfo_flags_o (un_cmd t)) s;
                if r = FErr then Some (Inr (t, 1), s)
                else
                  do { (_, s) \<leftarrow> fi_trunc C (un_out t) (Some (ti_size f)) s;
                       Some (Inl (t\<lparr>un_del := (\<not> ci_stdout (un_cmd t) \<and> \<not> ci_test (un_cmd t)), un_st := UrParse\<rparr>), s) } })"

text \<open>The end of a member. The output name of a directory is kept.\<close>

definition untar_filedone :: "('s, 'i, 'r) untarenv \<Rightarrow> ('s, 'k, 'r) untar_turn" where
  "untar_filedone E t s =
     (let C = xn_core E; f = xt_info (xn_lib E) (un_r t)
      in do { (_, s) \<leftarrow> fi_mtime_set C (un_out t) (fst (ti_mtime f) + xn_1970 E, snd (ti_mtime f)) s;
              (_, s) \<leftarrow> (if ti_type f = TAR_FILE then fi_attr_set C (un_out t) (ti_attr f) s else Some (FOk, s));
              if ti_type f = TAR_DIR then Some (Inl t, s)
              else do { (_, s) \<leftarrow> fi_close C (un_out t) s; Some (Inl (t\<lparr>un_del := False, un_oname := None\<rparr>), s) } })"

definition untar_parse :: "('s, 'i, 'r) untarenv \<Rightarrow> ('s, 'k, 'r) untar_turn" where
  "untar_parse E t s =
     do { ((r, t), s) \<leftarrow> untar_read E t s;
          if r = TrFiledone then untar_filedone E t s
          else if r = TrEnd then Some (Inl (t\<lparr>un_st := UrIn\<rparr>), s)
          else if r = TrMore then Some (Inl (t\<lparr>un_st := UrFileread\<rparr>), s)
          else if r = TrFileheader then Some (Inl (t\<lparr>un_st := UrOutOpen\<rparr>), s)
          else if r = TrData then Some (Inl (t\<lparr>un_st := UrWrite\<rparr>), s)
          else Some (Inr (t, 1), s) }"

definition untar_fileread :: "('s, 'i, 'r) untarenv \<Rightarrow> ('s, 'k, 'r) untar_turn" where
  "untar_fileread E t s =
     do { ((r, d), s) \<leftarrow> fi_read (xn_core E) (un_in t) None s;
          if r = FErr then Some (Inr (t, 1), s)
          else if r = FAsync then Some (Inr (t, GZ_ASYNC), s)
          else if r = FEof then Some (Inr (t\<lparr>un_tardata := d\<rparr>, 1), s)
          else untar_parse E (t\<lparr>un_tardata := d, un_st := UrParse\<rparr>) s }"

text \<open>The data left of the previous archive is not dropped.\<close>

definition untar_info :: "('s, 'i, 'r) untarenv \<Rightarrow> ('s, 'k, 'r) untar_turn" where
  "untar_info E t s =
     (let C = xn_core E
      in do { (r, s) \<leftarrow> fi_open C (un_in t) (un_iname t) (fcom_file_cominfo_flags_i (un_cmd t) OR FCOM_FILE_READ) s;
              if r = FErr then Some (Inr (t, 1), s) else
              do { ((r, fi), s) \<leftarrow> fi_info C (un_in t) s;
                   if r = FErr then Some (Inr (t, 1), s) else
                   (let dir = xn_isdir E (the fi)
                    in do { (ok, s) \<leftarrow> com_input_allowed C (un_iname t) (if dir then IaDir else IaFile) s;
                            if \<not> ok then Some (Inl (t\<lparr>un_st := UrIn\<rparr>), s) else
                            do { (_, s) \<leftarrow> (if (un_base t = [] \<or> ci_recursive (un_cmd t) \<noteq> 0) \<and> dir then
                                     do { (fd, s) \<leftarrow> fi_fd C (un_in t) FCOM_FILE_ACQUIRE s; com_input_dir C fd s }
                                   else Some ((), s));
                                 Some (Inl (t\<lparr>un_r := xt_open (xn_lib E) (un_r t), un_st := UrParse\<rparr>), s) } }) } })"

definition untar_in_next :: "('s, 'i, 'r) untarenv \<Rightarrow> ('s, 'k, 'r) untar_turn" where
  "untar_in_next E t s =
     do { (r, s) \<leftarrow> com_input_next (xn_core E) 0 s;
          case r of
            RNomore \<Rightarrow> Some (Inr (t, 0), s)
          | RErr \<Rightarrow> Some (Inr (t, 1), s)
          | ROk n b \<Rightarrow> untar_info E (t\<lparr>un_iname := n, un_base := b, un_st := UrInfo\<rparr>) s }"

definition untar_turn :: "('s, 'i, 'r) untarenv \<Rightarrow> ('s, 'k, 'r) untar_turn" where
  "untar_turn E t s =
     (case un_st t of
        UrIn \<Rightarrow> untar_in_next E t s | UrInfo \<Rightarrow> untar_info E t s | UrParse \<Rightarrow> untar_parse E t s | UrFileread \<Rightarrow> untar_fileread E t s
      | UrOutOpen \<Rightarrow> untar_out_open E t s | UrWrite \<Rightarrow> untar_write E t s)"

definition untar_run :: "('s, 'i, 'r) untarenv \<Rightarrow> ('k, 'r) untar \<Rightarrow> ('s, int option \<times> ('k, 'r) untar) act" where
  "untar_run E t s =
     do { ((t, rc), s) \<leftarrow> op_loop (stop_flag (xn_core E)) (untar_turn E) t s;
          if rc = GZ_ASYNC then Some ((None, t), s)
          else do { (_, s) \<leftarrow> untar_close E t s; Some ((Some rc, t), s) } }"

section \<open>Facts\<close>

text \<open>A list of members without a name in it selects every member.\<close>

lemma untar_members_blank: "set d \<subseteq> {CHR 0x0A} \<Longrightarrow> untar_members d = []"
proof -
  have blank: "\<forall>l \<in> set (cut_lines [] e). l = []" if "set e \<subseteq> {CHR 0x0A}" for e
    using that by (induction e) auto
  assume "set d \<subseteq> {CHR 0x0A}"
  with blank [of "d @ [CHR 0x0A]"] show ?thesis by (simp add: untar_members_def filter_empty_conv)
qed

text \<open>The output name is kept after a directory, so the data of a member that is passed over after it is written.\<close>

lemma untar_dir_keeps_name:
  assumes "ti_type (xt_info (xn_lib E) (un_r t)) = TAR_DIR" and "untar_filedone E t s = Some (x, s')"
  shows "x = Inl t"
  using assms by (auto simp: untar_filedone_def Let_def Option.bind_eq_Some_conv)

lemma untar_skipped_data_written:
  assumes name: "un_oname t = Some n" and members: "un_members t \<noteq> []" "\<not> members_find (un_members t) (ti_name (xt_info (xn_lib E) st1))"
    and head: "xt_process (xn_lib E) (un_r t) (un_tardata t) = ((TrFileheader, rest, []), st1)"
    and data: "xt_process (xn_lib E) st1 rest = ((TrData, rest2, d), st2)"
  shows "untar_parse E t s = Some (Inl (t\<lparr>un_r := st2, un_tardata := rest2, un_plain := d, un_st := UrWrite\<rparr>), s)"
proof -
  have "untar_read E t s = untar_read E (t\<lparr>un_r := st1, un_tardata := rest, un_plain := []\<rparr>) s"
    using head members by (subst untar_read.simps) simp
  also have "\<dots> = Some ((TrData, t\<lparr>un_r := st2, un_tardata := rest2, un_plain := d\<rparr>), s)"
    using data name by (subst untar_read.simps) simp
  finally show ?thesis by (simp add: untar_parse_def)
qed

text \<open>A reader that ends at once on what is left of the last archive ends the next one before it is read.\<close>

lemma untar_leftover_ends_next:
  assumes "un_st t = UrParse" and "xt_process (xn_lib E) (un_r t) (un_tardata t) = ((TrEnd, rest, out), st)"
  shows "\<exists>t'. untar_turn E t s = Some (Inl t', s) \<and> un_st t' = UrIn"
proof -
  have "untar_read E t s = Some ((TrEnd, t\<lparr>un_r := xt_close (xn_lib E) st, un_tardata := rest, un_plain := out\<rparr>), s)"
    using assms(2) by (subst untar_read.simps) simp
  then show ?thesis using assms(1) by (simp add: untar_turn_def untar_parse_def)
qed

lemma untar_info_keeps_data:
  assumes "untar_info E t s = Some (Inl t', s')"
  shows "un_tardata t' = un_tardata t"
proof -
  have "quiet (\<lambda>_. ()) (\<lambda>x. case x of Inl t' \<Rightarrow> un_tardata t' = un_tardata t | Inr _ \<Rightarrow> True) (untar_info E t)"
    unfolding untar_info_def Let_def by (intro quiet_intros keeps_unit) simp_all
  from quietD [OF this assms] show ?thesis by simp
qed

end
