(* ===== verification/Spec2Isabelle.thy ===== *)
theory Spec2Isabelle
  imports FileProps Stream TaskQueue Com Mods PathUtil SyncDups TextCount CopyProps RefText SyncDemo HtmlDemo ZstProps Unxz Move Touch Trash Hex PackOps Untar
begin

text \<open>
  The file commander fcom (\<open>src/\<close>).

  The program is a small core (\<open>src/core\<close>) with operations in loadable modules (\<open>src/fs\<close>, \<open>src/ops\<close>,
  \<open>src/text\<close>, \<open>src/pack\<close>, \<open>src/pic\<close>). The core offers every operation two function tables: the command
  manager (\<open>fcom_command\<close>, \<open>com.c\<close>), which parses the arguments, walks the input tree and runs commands, and
  the buffered file module (\<open>fcom_file\<close>, \<open>file.c\<close>). An operation is an object with \<open>create\<close>, \<open>run\<close> and
  \<open>close\<close>; its \<open>run\<close> is a state machine in a loop, which asks for the next input file, opens, reads and writes
  through file objects and completes the command with an exit code.

  \<^bold>\<open>How the code is translated.\<close> A C structure is a record with the structure's fields, an enumeration of
  states a datatype, a function of the code a definition of the same name on the same branches. Errors are
  values: \<open>file_ret\<close> holds the negative codes of the file module, \<^const>\<open>None\<close> and sums the other failures. State
  is passed explicitly: a function that changes it returns it. Integers are words where the code relies on
  their width or wraps (stream indices, flags, counters, percentages), naturals where an offset or size of 64
  bits is meant. Code outside the repository (the kernel through ffsys; strings, trees and hash tables of
  ffbase; hashes and ciphers) is a parameter: a record of functions the definitions take. What a property needs
  of it is a named hypothesis (\<open>ffstr_ok\<close>, \<open>os_disk\<close>, \<open>os_files\<close>, \<open>hash_ok\<close>, \<open>hexlib_ok\<close>), documented behaviour
  that the witnesses satisfy with concrete functions.

  A loop that may not end is a \<open>partial_function (option)\<close>; its value is \<^const>\<open>None\<close> when the code does not
  return, so every claim of a result is a claim of termination. No fuel is used for the loops of the program;
  \<open>wild\<close> of \<^theory_text>\<open>StrLib\<close> (a concrete wildcard matcher for the witnesses) has fuel for the length of both texts.

  \<^bold>\<open>Shared theories.\<close> \<^theory_text>\<open>Prelude\<close> (bytes, memory blocks, file contents, flag simplification), \<^theory_text>\<open>Sys\<close> (the
  kernel record), \<^theory_text>\<open>StrLib\<close> (string functions of ffbase), \<^theory_text>\<open>Flags\<close> (constants of \<open>fcom.h\<close>).

  \<^bold>\<open>The file module\<close> (\<open>core/fbuf.h\<close>, \<open>core/file.c\<close>). \<^theory_text>\<open>Fbuf\<close>: one buffer, the ring of read buffers, the
  write-back buffer. \<^theory_text>\<open>FileIO\<close>: the file object and every operation on it. \<^theory_text>\<open>FileWrite\<close> refines the write-back
  cache to an abstract file (kernel contents overlaid by the cache): \<open>file_write\<close>, which a caller repeats while
  it returns ASYNC, changes it exactly as the abstract write; flush and close bring the kernel to it. \<^theory_text>\<open>FileRead\<close>
  shows that reads return bytes of the file and reach its end. \<^theory_text>\<open>FileKeeps\<close>: what these operations leave alone.
  \<^theory_text>\<open>FileProps\<close> states the properties of the module, among them two faults (stale bytes of the write buffer become
  visible; opening keeps a pending write of the previous file).

  \<^bold>\<open>Containers of the core.\<close> \<^theory_text>\<open>Stream\<close> (\<open>util/stream.h\<close>): the power-of-two stream, its two modes, growth.
  \<^theory_text>\<open>TaskQueue\<close> (\<open>util/taskqueue.h\<close>): the task structures in a memory and
  the list of their addresses. The links of ffbase's doubly linked list are not modelled, only the flag that tells a task is
  queued; \<open>tq_wf\<close> says that this flag and the list agree.

  \<^bold>\<open>Commands and modules.\<close> \<^theory_text>\<open>Com\<close> (\<open>core/com.c\<close>): the life of a command, arguments, names read from a list
  file, filters, walking the input tree. \<^theory_text>\<open>Mods\<close> (\<open>core/mods.h\<close>): the table of modules. \<^theory_text>\<open>PathUtil\<close>
  (\<open>util/util.h\<close>): strings, the common parent of two paths, comparing two files.

  \<^bold>\<open>Comparing trees.\<close> \<^theory_text>\<open>SyncTypes\<close>, \<^theory_text>\<open>SyncCmp\<close> (\<open>fs/sync-cmp.h\<close>): the comparison of two snapshots, moved files
  through a hash table, duplicates, views, sorting. \<^theory_text>\<open>SyncProps\<close>: the counters always match the rows, the
  symmetry of the comparison. \<^theory_text>\<open>SyncDups\<close>: the duplicate search ends and partitions the files; a moved file is
  found exactly when there is one. Both compare contents with \<open>file_cmp\<close> of \<^theory_text>\<open>PathUtil\<close> in its fast mode.

  \<^bold>\<open>The interface of the core and its contracts.\<close> \<^theory_text>\<open>OpIf\<close>: the function tables as a record \<open>coreif\<close>, the loop
  every operation runs, and two locales: \<open>seq_reader\<close> (reads deliver a text in pieces) and \<open>file_source\<close> (the
  input files, one after the other). \<^theory_text>\<open>CoreOf\<close> fills the tables with \<^theory_text>\<open>Com\<close> and \<^theory_text>\<open>FileIO\<close> and interprets both
  locales for them over a kernel with readable files. \<^theory_text>\<open>Disk\<close>: the kernel's calls in terms of file names and
  contents. \<^theory_text>\<open>Store\<close>: the locale \<open>copy_store\<close>, the contract of an operation that makes a file from an input file,
  over an abstract store; \<^theory_text>\<open>CoreStore\<close> interprets it for the program's tables, \<^theory_text>\<open>RwDisk\<close> is a concrete kernel.

  \<^theory_text>\<open>Pipe\<close> extends it by \<open>pipe_store\<close>, for an operation that reads one file object and writes another,
  interpreted for the program's tables too.

  \<^bold>\<open>Operations.\<close> \<^theory_text>\<open>TextCount\<close> (\<open>text/textcount.c\<close>); \<^theory_text>\<open>Md5Sum\<close>, \<^theory_text>\<open>Md5\<close>, \<^theory_text>\<open>Md5Props\<close> (\<open>util/md5sum.h\<close>,
  \<open>ops/md5.c\<close>); \<^theory_text>\<open>Copy\<close>, \<^theory_text>\<open>CopyProps\<close> (\<open>fs/copy*.[ch]\<close>). Each is the operation's structure, its functions, one
  definition per state of its \<open>run\<close>, and the whole loop over the core's tables. The properties run the
  operation from its first state to its exit code over any kernel with the documented behaviour.

  \<^bold>\<open>Snapshots and sync.\<close> \<^theory_text>\<open>ConfScheme\<close>, \<^theory_text>\<open>ConfProps\<close> (\<open>util/conf-scheme.h\<close> and the reader under it): values, keys and
  objects of the configuration format; every parse ends. \<^theory_text>\<open>Fntree\<close>: the file tree of ffbase as the code uses it.
  \<^theory_text>\<open>Snap\<close>, \<^theory_text>\<open>SnapProps\<close>, \<^theory_text>\<open>RefText\<close> (\<open>fs/sync-rsnap.h\<close>, \<open>fs/sync-wsnap.h\<close>): a snapshot that was written is read back.
  \<^theory_text>\<open>SyncScan\<close> (\<open>fs/sync-scan.h\<close>): scanning a tree. \<^theory_text>\<open>SyncRun\<close>, \<^theory_text>\<open>SyncRunProps\<close>, \<^theory_text>\<open>SyncDemo\<close> (\<open>fs/sync.cpp\<close>): the operation
  sync and the commands it runs for the rows of a comparison; starting a command (\<open>com->run\<close>) is a parameter there.

  \<^bold>\<open>Compression.\<close> \<^theory_text>\<open>Gz\<close>, \<^theory_text>\<open>Ungz\<close>, \<^theory_text>\<open>Zst\<close> and \<^theory_text>\<open>Unxz\<close> (\<open>pack/gz.c\<close>, \<open>ungz.c\<close>, \<open>zst.c\<close>, \<open>unzst.c\<close>, \<open>unxz.c\<close>): the
  operations around an encoder or decoder, which is a record of functions. \<^theory_text>\<open>GzProps\<close>, \<^theory_text>\<open>UngzProps\<close>: contracts of
  encoder and decoder (\<open>gzw_ok\<close>, \<open>gzr_ok\<close>) and what the loops do under them in any \<open>pipe_store\<close>. \<^theory_text>\<open>PackProps\<close> states
  the properties, \<^theory_text>\<open>PackDemo\<close> has a codec that meets the contracts. \<^theory_text>\<open>ZstProps\<close>: no decoder is used before it is
  made; the second input of \<open>zst\<close> is cut.

  \<^bold>\<open>Text and plain operations.\<close> \<^theory_text>\<open>Html\<close>, \<^theory_text>\<open>HtmlProps\<close>, \<^theory_text>\<open>HtmlDemo\<close> (\<open>util/html.h\<close>, \<open>text/html.c\<close>): the reader of tags
  and attributes and the operation that prints values; what it prints of well-formed documents, and the value on which it
  hangs. \<^theory_text>\<open>Hex\<close> (\<open>ops/hex.c\<close>, \<open>text/utf8.c\<close>), \<^theory_text>\<open>Move\<close> (\<open>fs/move.c\<close>), \<^theory_text>\<open>Touch\<close> (\<open>fs/touch.c\<close>, \<open>fs/list.c\<close>), \<^theory_text>\<open>Trash\<close>
  (\<open>fs/trash.c\<close>, \<open>util/unix-shell.h\<close>) and the archives \<^theory_text>\<open>Tar\<close>, \<^theory_text>\<open>Untar\<close> (\<open>pack/tar.c\<close>, \<open>pack/untar.c\<close>) and \<^theory_text>\<open>PackOps\<close>
  (\<open>pack/pack.c\<close>, \<open>pack/unpack.c\<close>) are translated whole, with lemmas on single functions and faults; their runs have no
  end-to-end theorem. \<^theory_text>\<open>Quiet\<close> has the rules for what an action leaves alone.

  \<^bold>\<open>Not modelled.\<close> The start of the core and its event queue (\<open>core/core.c\<close>); the archivers and unpackers of the other
  formats (\<open>zip\<close>, \<open>iso\<close>, \<open>7z\<close>) and the picture operations; the wrappers of the hashes and ciphers; logging and help texts; Windows-only code; the log and the lock of the task queue (a call is
  one step); memory exhaustion; the graphical front end, which calls the modelled \<open>sync\<close> interface; third-party
  code under \<open>3pt\<close> and \<open>3pt-pic\<close>.
\<close>

end
